(* ===== verification/Prelude.thy ===== *)
theory Prelude
  imports Main "HOL-Library.Word"
begin

text \<open>
  Shared vocabulary of the development: Python byte strings as lists of 8-bit words, the
  exceptions the library raises as one datatype, results as a sum of an exception and a
  value, the sequencing of fallible steps (\<open>rbind\<close>), Python's slicing and ASCII helpers on
  bytes, and the lemma collections every component theory uses.

  Conventions. A Python int is an \<open>int\<close>; a length or an offset that cannot be negative is a
  \<open>nat\<close>. A Python \<open>bytes\<close> is a \<open>bytes\<close>. A \<open>str\<close> that the code obtains by decoding UTF-8 is
  kept as its UTF-8 encoding, and decoding is the check \<open>utf8_ok\<close>.
\<close>

unbundle bit_operations_syntax

named_theorems result_simps "unfolding of results and of their sequencing"
named_theorems slice_simps "Python slices as take and drop"
named_theorems hdr_simps "header tables, their formats and lengths"

type_synonym byte = "8 word"
type_synonym bytes = "byte list"

section \<open>Exceptions and results\<close>

text \<open>
  The exceptions of \<^verbatim>\<open>dpkt/dpkt.py\<close> and those of the Python runtime that the modelled code
  raises or catches. \<^verbatim>\<open>NeedData\<close> is a subclass of \<^verbatim>\<open>UnpackError\<close>: an \<open>except UnpackError\<close>
  clause catches both, which \<open>is_unpack_error\<close> expresses.
\<close>

datatype exn =
    StructError
  | NeedData
  | UnpackError
  | PackError
  | KeyError
  | IndexError
  | ValueError
  | TypeError
  | AttributeError
  | UnicodeError
  | NotImplementedError
  | RecursionError
  | StopIteration
  | OtherError

type_synonym 'a result = "exn + 'a"

definition is_unpack_error :: "exn \<Rightarrow> bool" where
  "is_unpack_error e \<longleftrightarrow> e = UnpackError \<or> e = NeedData"

definition rbind :: "'a result \<Rightarrow> ('a \<Rightarrow> 'b result) \<Rightarrow> 'b result" where
  "rbind m f = (case m of Inl e \<Rightarrow> Inl e | Inr x \<Rightarrow> f x)"

lemma rbind_simps [simp]:
  "rbind (Inl e) f = Inl e"
  "rbind (Inr x) f = f x"
  by (simp_all add: rbind_def)

lemma rbind_Inr_iff [result_simps]:
  "rbind m f = Inr y \<longleftrightarrow> (\<exists>x. m = Inr x \<and> f x = Inr y)"
  by (cases m) simp_all

lemma rbind_Inl_iff [result_simps]:
  "rbind m f = Inl e \<longleftrightarrow> m = Inl e \<or> (\<exists>x. m = Inr x \<and> f x = Inl e)"
  by (cases m) auto

lemma rbind_assoc: "rbind (rbind m f) g = rbind m (\<lambda>x. rbind (f x) g)"
  by (cases m) simp_all

lemma rbind_right [simp]: "rbind m Inr = m"
  by (cases m) simp_all

lemma rbind_cong [fundef_cong]:
  "m = m' \<Longrightarrow> (\<And>x. m' = Inr x \<Longrightarrow> f x = f' x) \<Longrightarrow> rbind m f = rbind m' f'"
  by (cases m') simp_all

definition is_ok :: "'a result \<Rightarrow> bool" where
  "is_ok r \<longleftrightarrow> (case r of Inl _ \<Rightarrow> False | Inr _ \<Rightarrow> True)"

lemma is_ok_simps [simp]: "is_ok (Inr x)" "\<not> is_ok (Inl e)"
  by (simp_all add: is_ok_def)

section \<open>Python indexing and slicing\<close>

text \<open>
  \<open>py_get xs i\<close> is \<open>xs[i]\<close>; \<open>py_slice xs i j\<close> is \<open>xs[i:j]\<close> and \<open>py_from xs i\<close> is
  \<open>xs[i:]\<close>. Negative indices count from the end, and slices never raise.
\<close>

definition py_index :: "nat \<Rightarrow> int \<Rightarrow> nat" where
  "py_index n i = (if i < 0 then nat (int n + i) else nat i)"

definition py_get :: "'a list \<Rightarrow> int \<Rightarrow> 'a result" where
  "py_get xs i =
     (if - int (length xs) \<le> i \<and> i < int (length xs)
      then Inr (xs ! py_index (length xs) i) else Inl IndexError)"

definition py_from :: "'a list \<Rightarrow> int \<Rightarrow> 'a list" where
  "py_from xs i = drop (py_index (length xs) i) xs"

definition py_upto :: "'a list \<Rightarrow> int \<Rightarrow> 'a list" where
  "py_upto xs j = take (py_index (length xs) j) xs"

definition py_slice :: "'a list \<Rightarrow> int \<Rightarrow> int \<Rightarrow> 'a list" where
  "py_slice xs i j = drop (py_index (length xs) i) (take (py_index (length xs) j) xs)"

lemma py_index_nonneg [slice_simps, simp]: "0 \<le> i \<Longrightarrow> py_index n i = nat i"
  by (simp add: py_index_def)

lemma py_from_nonneg [slice_simps]: "0 \<le> i \<Longrightarrow> py_from xs i = drop (nat i) xs"
  by (simp add: py_from_def)

lemma py_upto_nonneg [slice_simps]: "0 \<le> i \<Longrightarrow> py_upto xs i = take (nat i) xs"
  by (simp add: py_upto_def)

lemma py_slice_nonneg [slice_simps]:
  "0 \<le> i \<Longrightarrow> 0 \<le> j \<Longrightarrow> py_slice xs i j = take (nat j - nat i) (drop (nat i) xs)"
  by (simp add: py_slice_def drop_take)

lemma take_drop_append [simp]:
  "take n (drop m xs) @ drop (m + n) xs = drop m xs"
  "take n (drop m xs) @ drop (n + m) xs = drop m xs"
  by (metis append_take_drop_id drop_drop add.commute)+

lemma take_drop_append_assoc [simp]:
  "take n (drop m xs) @ drop (m + n) xs @ ys = drop m xs @ ys"
  by (simp flip: append_assoc)

lemma py_get_nat [slice_simps]:
  "py_get xs (int i) = (if i < length xs then Inr (xs ! i) else Inl IndexError)"
  by (simp add: py_get_def)

lemma py_get_Cons_0 [simp]: "py_get (x # xs) 0 = Inr x"
  by (simp add: py_get_def)

lemma py_get_Nil [simp]: "py_get [] i = Inl IndexError"
  by (simp add: py_get_def)

lemma list2E: "length xs = 2 \<Longrightarrow> (\<And>a b. xs = [a, b] \<Longrightarrow> P) \<Longrightarrow> P"
  by (cases xs; cases "tl xs") auto

section \<open>Bytes and ASCII\<close>

text \<open>\<open>asc\<close> is the byte string of an ASCII literal: \<open>asc ''GET''\<close> is \<^verbatim>\<open>b'GET'\<close>.\<close>

definition asc :: "string \<Rightarrow> bytes" where
  "asc s = map (\<lambda>c. word_of_nat (of_char c)) s"

lemma length_asc [simp]: "length (asc s) = length s"
  by (simp add: asc_def)

lemma asc_simps [simp]:
  "asc [] = []"
  "asc (c # cs) = word_of_nat (of_char c) # asc cs"
  by (simp_all add: asc_def)

definition ord :: "byte \<Rightarrow> int" where
  "ord b = uint b"

lemma ord_range [simp]: "0 \<le> ord b" "ord b < 256" "ord b \<le> 255"
  using uint_range_size [of b] by (auto simp: ord_def word_size)

lemma ord_pair [simp]: "ord a + 256 * ord b < 65536" "256 * ord a + ord b < 65536"
  using ord_range(3) [of a] ord_range(3) [of b] by linarith+

lemma ord_inject [simp]: "ord a = ord b \<longleftrightarrow> a = b"
  by (simp add: ord_def word_uint_eq_iff)

lemma ord_word_of_int: "ord (word_of_int i) = i mod 256"
  by (simp add: ord_def uint_word_of_int)

lemma ord_numeral [simp]: "ord (numeral k) = numeral k mod 256"
  by (metis ord_word_of_int word_of_int_numeral)

lemma ord_0_1 [simp]: "ord 0 = 0" "ord 1 = 1"
  by (simp_all add: ord_def)

definition zeros :: "nat \<Rightarrow> bytes" where
  "zeros n = replicate n 0"

lemma zeros_0 [simp]: "zeros 0 = []"
  by (simp add: zeros_def)

lemma length_zeros [simp]: "length (zeros n) = n"
  by (simp add: zeros_def)

text \<open>\<open>bytes.upper\<close> and \<open>bytes.lower\<close> change ASCII letters only.\<close>

definition upper1 :: "byte \<Rightarrow> byte" where
  "upper1 b = (if 97 \<le> b \<and> b \<le> 122 then b - 32 else b)"

definition lower1 :: "byte \<Rightarrow> byte" where
  "lower1 b = (if 65 \<le> b \<and> b \<le> 90 then b + 32 else b)"

definition upper :: "bytes \<Rightarrow> bytes" where
  "upper = map upper1"

definition lower :: "bytes \<Rightarrow> bytes" where
  "lower = map lower1"

lemma length_upper [simp]: "length (upper bs) = length bs"
  by (simp add: upper_def)

lemma upper_append: "upper (a @ b) = upper a @ upper b"
  by (simp add: upper_def)

text \<open>\<open>bytes.split\<close> by a single byte, and \<open>bytes.join\<close>.\<close>

fun split_byte :: "byte \<Rightarrow> bytes \<Rightarrow> bytes list" where
  "split_byte sep [] = [[]]"
| "split_byte sep (b # bs) =
     (if b = sep then [] # split_byte sep bs
      else (case split_byte sep bs of [] \<Rightarrow> [[b]] | p # ps \<Rightarrow> (b # p) # ps))"

fun join :: "bytes \<Rightarrow> bytes list \<Rightarrow> bytes" where
  "join sep [] = []"
| "join sep [x] = x"
| "join sep (x # y # ys) = x @ sep @ join sep (y # ys)"

lemma split_byte_ne [simp]: "split_byte sep bs \<noteq> []"
  by (induction bs) (auto split: list.splits)

lemma join_split: "join [sep] (split_byte sep bs) = bs"
proof (induction bs)
  case (Cons b bs)
  obtain p ps where p: "split_byte sep bs = p # ps"
    by (cases "split_byte sep bs") auto
  then show ?case
    using Cons by (cases ps) auto
qed simp

lemma split_byte_sep: "sep \<notin> set x \<Longrightarrow> split_byte sep (x @ sep # r) = x # split_byte sep r"
  by (induction x) auto

lemma split_byte_none: "sep \<notin> set x \<Longrightarrow> split_byte sep x = [x]"
  by (induction x) auto

lemma split_join:
  "ls \<noteq> [] \<Longrightarrow> (\<forall>l \<in> set ls. sep \<notin> set l) \<Longrightarrow> split_byte sep (join [sep] ls) = ls"
proof (induction ls)
  case (Cons x ls)
  then show ?case
    by (cases ls) (simp_all add: split_byte_sep split_byte_none)
qed simp

lemma split_byte_no_sep: "\<forall>l \<in> set (split_byte sep bs). sep \<notin> set l"
  by (induction bs) (auto split: list.splits)

text \<open>\<open>bytes.startswith\<close>.\<close>

definition starts_with :: "'a list \<Rightarrow> 'a list \<Rightarrow> bool" where
  "starts_with xs p \<longleftrightarrow> take (length p) xs = p"

lemma starts_with_append [simp]: "starts_with (p @ xs) p"
  by (simp add: starts_with_def)

text \<open>
  Strict UTF-8 validity, as \<open>codecs.decode(b, 'utf-8')\<close> checks it: no overlong form, no
  surrogate, nothing above U+10FFFF.
\<close>

definition utf8_cont :: "byte \<Rightarrow> bool" where
  "utf8_cont b \<longleftrightarrow> 0x80 \<le> b \<and> b \<le> 0xBF"

fun utf8_ok :: "bytes \<Rightarrow> bool" where
  "utf8_ok [] = True"
| "utf8_ok (a # bs) =
     (if a < 0x80 then utf8_ok bs
      else if 0xC2 \<le> a \<and> a \<le> 0xDF then
        (case bs of b # r \<Rightarrow> utf8_cont b \<and> utf8_ok r | _ \<Rightarrow> False)
      else if 0xE0 \<le> a \<and> a \<le> 0xEF then
        (case bs of b # c # r \<Rightarrow>
             utf8_cont b \<and> utf8_cont c \<and> (a = 0xE0 \<longrightarrow> 0xA0 \<le> b) \<and> (a = 0xED \<longrightarrow> b \<le> 0x9F)
             \<and> utf8_ok r
         | _ \<Rightarrow> False)
      else if 0xF0 \<le> a \<and> a \<le> 0xF4 then
        (case bs of b # c # d # r \<Rightarrow>
             utf8_cont b \<and> utf8_cont c \<and> utf8_cont d \<and> (a = 0xF0 \<longrightarrow> 0x90 \<le> b)
             \<and> (a = 0xF4 \<longrightarrow> b \<le> 0x8F) \<and> utf8_ok r
         | _ \<Rightarrow> False)
      else False)"

lemma utf8_ok_ascii: "(\<forall>b \<in> set bs. b < 0x80) \<Longrightarrow> utf8_ok bs"
  by (induction bs) auto

section \<open>Bit fields of integers\<close>

lemma and_mask_int: "i AND (2 ^ n - 1) = i mod 2 ^ n" for i :: int
  by (simp flip: mask_eq_exp_minus_1 take_bit_eq_mask add: take_bit_eq_mod)

lemma drop_bit_int: "drop_bit n i = i div 2 ^ n" for i :: int
  by (rule drop_bit_eq_div)

end
