(* ===== verification/Struct.thy ===== *)
theory Struct
  imports Prelude
begin

text \<open>
  The part of Python's \<^verbatim>\<open>struct\<close> module that the library uses: standard sizes, big or little
  endian, unsigned and signed integers of 1, 2, 4 and 8 bytes, fixed byte strings and pad
  bytes. \<open>struct_pack\<close> and \<open>struct_unpack\<close> fail with \<open>StructError\<close> where \<^verbatim>\<open>struct\<close> raises
  \<^verbatim>\<open>struct.error\<close>: a wrong number of values, a value of the wrong type, an integer out of
  range, a buffer of the wrong size. The two are inverse to each other on the values that
  fit the format (\<open>exact_all\<close>).
\<close>

section \<open>Integers as bytes\<close>

fun le_bytes :: "nat \<Rightarrow> int \<Rightarrow> bytes" where
  "le_bytes 0 v = []"
| "le_bytes (Suc n) v = word_of_int v # le_bytes n (v div 256)"

fun le_int :: "bytes \<Rightarrow> int" where
  "le_int [] = 0"
| "le_int (b # bs) = ord b + 256 * le_int bs"

definition be_bytes :: "nat \<Rightarrow> int \<Rightarrow> bytes" where
  "be_bytes n v = rev (le_bytes n v)"

definition be_int :: "bytes \<Rightarrow> int" where
  "be_int bs = le_int (rev bs)"

lemma le_bytes_numeral [simp]:
  "le_bytes (numeral k) v = word_of_int v # le_bytes (pred_numeral k) (v div 256)"
  by (simp add: numeral_eq_Suc)

lemma length_le_bytes [simp]: "length (le_bytes n v) = n"
  by (induction n arbitrary: v) auto

lemma length_be_bytes [simp]: "length (be_bytes n v) = n"
  by (simp add: be_bytes_def)

lemma le_int_nonneg [simp]: "0 \<le> le_int bs"
  by (induction bs) auto

lemma le_int_less: "le_int bs < 256 ^ length bs"
proof (induction bs)
  case (Cons b bs)
  have "le_int bs \<le> 256 ^ length bs - 1" using Cons by simp
  then have "256 * le_int bs \<le> 256 * (256 ^ length bs - 1)" by simp
  then show ?case using ord_range(3) [of b] unfolding le_int.simps list.size
    by (simp del: ord_range)
qed simp

lemma be_int_nonneg [simp]: "0 \<le> be_int bs"
  by (simp add: be_int_def)

lemma be_int_less: "be_int bs < 256 ^ length bs"
  using le_int_less [of "rev bs"] by (simp add: be_int_def)

lemma le_int_le_bytes: "le_int (le_bytes n v) = v mod 256 ^ n"
proof (induction n arbitrary: v)
  case (Suc n)
  have "v mod (256 * 256 ^ n) = 256 * (v div 256 mod 256 ^ n) + v mod 256"
    by (rule zmod_zmult2_eq) simp
  then show ?case by (simp add: Suc ord_word_of_int)
qed simp

lemma byte_cons_div: "0 \<le> a \<Longrightarrow> a < 256 \<Longrightarrow> (a + 256 * k) div 256 = k" for a k :: int
  by simp

lemma byte_cons_mod: "0 \<le> a \<Longrightarrow> a < 256 \<Longrightarrow> (a + 256 * k) mod 256 = a" for a k :: int
  by simp

lemma le_bytes_le_int: "le_bytes (length bs) (le_int bs) = bs"
proof (induction bs)
  case (Cons b bs)
  have "(ord b + 256 * le_int bs) div 256 = le_int bs"
    by (rule byte_cons_div) simp_all
  moreover have "word_of_int (ord b + 256 * le_int bs) = b"
    by (simp only: ord_inject [symmetric] ord_word_of_int) (rule byte_cons_mod; simp)
  ultimately show ?case using Cons by simp
qed simp

lemma be_int_be_bytes: "be_int (be_bytes n v) = v mod 256 ^ n"
  by (simp add: be_int_def be_bytes_def le_int_le_bytes)

lemma be_bytes_be_int: "length bs = n \<Longrightarrow> be_bytes n (be_int bs) = bs"
  using le_bytes_le_int [of "rev bs"] by (simp add: be_int_def be_bytes_def)

section \<open>Formats and values\<close>

datatype endian = BE | LE

text \<open>
  \<open>UI n\<close> and \<open>SI n\<close> are the unsigned and signed integer formats of \<open>n\<close> bytes, \<open>Str n\<close> is
  \<^verbatim>\<open>ns\<close>, \<open>Pad\<close> is \<^verbatim>\<open>x\<close>. The abbreviations carry Python's format characters.
\<close>

datatype fmt = UI nat | SI nat | Str nat | Pad

abbreviation "fB \<equiv> UI 1"
abbreviation "fH \<equiv> UI 2"
abbreviation "fI \<equiv> UI 4"
abbreviation "fL \<equiv> UI 4"
abbreviation "fQ \<equiv> UI 8"
abbreviation "fb \<equiv> SI 1"
abbreviation "fh \<equiv> SI 2"
abbreviation "fi \<equiv> SI 4"
abbreviation "fq \<equiv> SI 8"

text \<open>
  Attribute values: integers, byte strings, text strings (which no format packs) and tuples.
\<close>

datatype pval = VInt int | VBytes bytes | VStr string | VTuple "pval list"

fun ival :: "pval \<Rightarrow> int" where
  "ival (VInt i) = i"
| "ival _ = 0"

fun bval :: "pval \<Rightarrow> bytes" where
  "bval (VBytes b) = b"
| "bval _ = []"

fun fmt_size :: "fmt \<Rightarrow> nat" where
  "fmt_size (UI n) = n"
| "fmt_size (SI n) = n"
| "fmt_size (Str n) = n"
| "fmt_size Pad = 1"

definition calcsize :: "fmt list \<Rightarrow> nat" where
  "calcsize fs = sum_list (map fmt_size fs)"

lemma calcsize_simps [simp]:
  "calcsize [] = 0"
  "calcsize (f # fs) = fmt_size f + calcsize fs"
  by (simp_all add: calcsize_def)

section \<open>Packing\<close>

definition int_bytes :: "endian \<Rightarrow> nat \<Rightarrow> int \<Rightarrow> bytes" where
  "int_bytes bo n i = (case bo of BE \<Rightarrow> be_bytes n i | LE \<Rightarrow> le_bytes n i)"

definition bytes_int :: "endian \<Rightarrow> bytes \<Rightarrow> int" where
  "bytes_int bo b = (case bo of BE \<Rightarrow> be_int b | LE \<Rightarrow> le_int b)"

lemma length_int_bytes [simp]: "length (int_bytes bo n i) = n"
  by (simp add: int_bytes_def split: endian.split)

lemma bytes_int_range [simp]:
  "0 \<le> bytes_int bo b" "length b = n \<Longrightarrow> bytes_int bo b < 256 ^ n"
  by (auto simp: bytes_int_def be_int_less le_int_less split: endian.split)

lemma bytes_int_int_bytes: "bytes_int bo (int_bytes bo n i) = i mod 256 ^ n"
  by (simp add: bytes_int_def int_bytes_def be_int_be_bytes le_int_le_bytes split: endian.split)

lemma int_bytes_bytes_int: "length b = n \<Longrightarrow> int_bytes bo n (bytes_int bo b) = b"
  by (auto simp: bytes_int_def int_bytes_def be_bytes_be_int le_bytes_le_int split: endian.split)

lemma le_bytes_add: "le_bytes n (i + k * 256 ^ n) = le_bytes n i"
proof (induction n arbitrary: i k)
  case (Suc n)
  have "(i + k * 256 ^ Suc n) div 256 = i div 256 + k * 256 ^ n"
    by (simp add: algebra_simps)
  moreover have "(word_of_int (i + k * 256 ^ Suc n) :: byte) = word_of_int i"
  proof -
    have "(i + k * 256 ^ Suc n) mod 256 = (i + 256 * (k * 256 ^ n)) mod 256"
      by (simp add: algebra_simps)
    then show ?thesis by (simp only: ord_inject [symmetric] ord_word_of_int) simp
  qed
  ultimately show ?case by (simp add: Suc del: power_Suc)
qed simp

lemma int_bytes_sub: "int_bytes bo n (i - 256 ^ n) = int_bytes bo n i"
  using le_bytes_add [of n i "-1"] by (simp add: int_bytes_def be_bytes_def split: endian.split)

fun pack1 :: "endian \<Rightarrow> fmt \<Rightarrow> pval \<Rightarrow> bytes result" where
  "pack1 bo (UI n) (VInt i) =
     (if 0 \<le> i \<and> i < 256 ^ n then Inr (int_bytes bo n i) else Inl StructError)"
| "pack1 bo (SI n) (VInt i) =
     (if - (256 ^ n div 2) \<le> i \<and> i < 256 ^ n div 2 then Inr (int_bytes bo n i)
      else Inl StructError)"
| "pack1 bo (Str n) (VBytes b) = Inr (take n b @ zeros (n - length b))"
| "pack1 bo _ _ = Inl StructError"

fun struct_pack :: "endian \<Rightarrow> fmt list \<Rightarrow> pval list \<Rightarrow> bytes result" where
  "struct_pack bo [] [] = Inr []"
| "struct_pack bo [] (v # vs) = Inl StructError"
| "struct_pack bo (f # fs) vs =
     (if f = Pad then rbind (struct_pack bo fs vs) (\<lambda>r. Inr (0 # r))
      else (case vs of
          [] \<Rightarrow> Inl StructError
        | v # vs' \<Rightarrow> rbind (pack1 bo f v) (\<lambda>a.
            rbind (struct_pack bo fs vs') (\<lambda>r. Inr (a @ r)))))"

section \<open>Unpacking\<close>

fun unpack1 :: "endian \<Rightarrow> fmt \<Rightarrow> bytes \<Rightarrow> pval list" where
  "unpack1 bo (UI n) b = [VInt (bytes_int bo b)]"
| "unpack1 bo (SI n) b =
     [VInt (let i = bytes_int bo b in if 256 ^ n div 2 \<le> i then i - 256 ^ n else i)]"
| "unpack1 bo (Str n) b = [VBytes b]"
| "unpack1 bo Pad b = []"

fun unpack_fields :: "endian \<Rightarrow> fmt list \<Rightarrow> bytes \<Rightarrow> pval list" where
  "unpack_fields bo [] b = []"
| "unpack_fields bo (f # fs) b =
     unpack1 bo f (take (fmt_size f) b) @ unpack_fields bo fs (drop (fmt_size f) b)"

definition struct_unpack :: "endian \<Rightarrow> fmt list \<Rightarrow> bytes \<Rightarrow> pval list result" where
  "struct_unpack bo fs b =
     (if length b = calcsize fs then Inr (unpack_fields bo fs b) else Inl StructError)"

text \<open>
  Reading one unsigned integer, the use of \<^verbatim>\<open>struct.unpack\<close> that is most frequent in the code:
  \<open>unpack_uint bo n b\<close> is \<^verbatim>\<open>struct.unpack(fmt, b)[0]\<close> for an unsigned format of \<open>n\<close> bytes.
\<close>

definition unpack_uint :: "endian \<Rightarrow> nat \<Rightarrow> bytes \<Rightarrow> int result" where
  "unpack_uint bo n b = (if length b = n then Inr (bytes_int bo b) else Inl StructError)"

definition pack_uint :: "endian \<Rightarrow> nat \<Rightarrow> int \<Rightarrow> bytes result" where
  "pack_uint bo n i = pack1 bo (UI n) (VInt i)"

lemma pack_uint_eq:
  "pack_uint bo n i = (if 0 \<le> i \<and> i < 256 ^ n then Inr (int_bytes bo n i) else Inl StructError)"
  by (simp add: pack_uint_def)

lemma unpack_uint_range: "unpack_uint bo n b = Inr i \<Longrightarrow> 0 \<le> i \<and> i < 256 ^ n \<and> length b = n"
  by (auto simp: unpack_uint_def split: if_splits)

section \<open>Values that fit a format\<close>

text \<open>
  \<open>exact f v\<close>: \<open>v\<close> is a value that unpacking \<open>f\<close> can produce. \<open>exact_all\<close> lifts it to a
  format string; its equations expand a concrete format into the existence of its fields.
\<close>

fun exact :: "fmt \<Rightarrow> pval \<Rightarrow> bool" where
  "exact (UI n) (VInt i) = (0 \<le> i \<and> i < 256 ^ n)"
| "exact (SI n) (VInt i) = (- (256 ^ n div 2) \<le> i \<and> i < 256 ^ n div 2)"
| "exact (Str n) (VBytes b) = (length b = n)"
| "exact _ _ = False"

fun exact_all :: "fmt list \<Rightarrow> pval list \<Rightarrow> bool" where
  "exact_all [] vs = (vs = [])"
| "exact_all (f # fs) vs =
     (if f = Pad then exact_all fs vs
      else (\<exists>v vs'. vs = v # vs' \<and> exact f v \<and> exact_all fs vs'))"

lemma exact_U [hdr_simps]: "exact (UI n) v \<longleftrightarrow> (\<exists>i. v = VInt i \<and> 0 \<le> i \<and> i < 256 ^ n)"
  by (cases v) auto

lemma exact_Str [hdr_simps]: "exact (Str n) v \<longleftrightarrow> (\<exists>b. v = VBytes b \<and> length b = n)"
  by (cases v) auto

lemma exact_S [hdr_simps]:
  "exact (SI n) v \<longleftrightarrow> (\<exists>i. v = VInt i \<and> - (256 ^ n div 2) \<le> i \<and> i < 256 ^ n div 2)"
  by (cases v) auto

lemma pow256_half: "0 < n \<Longrightarrow> (256 :: int) ^ n = 2 * (256 ^ n div 2)"
  by (cases n) auto

lemma pack1_iff [result_simps]:
  "pack1 bo (UI n) (VInt i) = Inr b \<longleftrightarrow> 0 \<le> i \<and> i < 256 ^ n \<and> b = int_bytes bo n i"
  "pack1 bo (Str n) (VBytes s) = Inr b \<longleftrightarrow> b = take n s @ zeros (n - length s)"
  by auto

lemma exact_pack1: "exact f v \<Longrightarrow> \<exists>b. pack1 bo f v = Inr b \<and> length b = fmt_size f"
  by (cases "(bo, f, v)" rule: pack1.cases) auto

lemma fmt_size_pos: "f = SI n \<Longrightarrow> n \<noteq> 0 \<Longrightarrow> 0 < fmt_size f"
  by simp

text \<open>No signed format is empty; the library has no such format.\<close>

definition fmt_ok :: "fmt \<Rightarrow> bool" where
  "fmt_ok f \<longleftrightarrow> f \<noteq> SI 0"

lemma exact_roundtrip1:
  assumes "exact f v" "fmt_ok f" "pack1 bo f v = Inr b"
  shows "unpack1 bo f b = [v]"
proof (cases "(bo, f, v)" rule: pack1.cases)
  case (1 bo' n i)
  then show ?thesis using assms by (auto simp: bytes_int_int_bytes)
next
  case (2 bo' n i)
  then have n: "0 < n" and r: "- (256 ^ n div 2) \<le> i" "i < 256 ^ n div 2"
    and b: "b = int_bytes bo n i"
    using assms by (auto simp: fmt_ok_def)
  define h where "h = (256 :: int) ^ n div 2"
  have p: "(256 :: int) ^ n = 2 * h" using pow256_half [OF n] by (simp add: h_def)
  have "(let j = i mod (2 * h) in if h \<le> j then j - 2 * h else j) = i"
  proof (cases "0 \<le> i")
    case True
    then show ?thesis using r by (simp add: h_def [symmetric])
  next
    case False
    then have "i mod (2 * h) = i + 2 * h"
      using r by (intro int_mod_pos_eq [where q = "-1"]) (auto simp: h_def [symmetric])
    then show ?thesis using r False by (simp add: h_def [symmetric])
  qed
  then show ?thesis using 2 b by (auto simp: bytes_int_int_bytes Let_def p split: if_splits)
next
  case (3 bo' n bs)
  then show ?thesis using assms by (auto simp: zeros_def)
qed (use assms in auto)

lemma unpack_exact1:
  assumes "length b = fmt_size f" "fmt_ok f" "f \<noteq> Pad"
  shows "\<exists>v. unpack1 bo f b = [v] \<and> exact f v \<and> pack1 bo f v = Inr b"
proof (cases f)
  case (UI n)
  then show ?thesis using assms by (simp add: int_bytes_bytes_int)
next
  case (SI n)
  have n: "0 < n" using SI assms by (auto simp: fmt_ok_def)
  define h where "h = (256 :: int) ^ n div 2"
  have p: "(256 :: int) ^ n = 2 * h" using pow256_half [OF n] by (simp add: h_def)
  have lt: "bytes_int bo b < 2 * h" using assms SI bytes_int_range(2) [of b n bo] p by simp
  moreover have *: "int_bytes bo n (bytes_int bo b - 2 * h) = b"
    using int_bytes_sub [of bo n "bytes_int bo b"] assms SI p by (simp add: int_bytes_bytes_int)
  moreover have h: "0 < h" using p zero_less_power [of "256 :: int" n] by linarith
  moreover have nn: "0 \<le> bytes_int bo b" by simp
  ultimately have "- h \<le> bytes_int bo b" by linarith
  show ?thesis
  proof (cases "h \<le> bytes_int bo b")
    case True
    with lt h have "bytes_int bo b - 2 * h < h" "- h \<le> bytes_int bo b - 2 * h" by linarith+
    with * True show ?thesis using SI assms p by (simp add: Let_def h_def [symmetric])
  next
    case False
    with h nn have "- h \<le> bytes_int bo b" "bytes_int bo b < h" by linarith+
    with False show ?thesis using SI assms p
      by (simp add: Let_def int_bytes_bytes_int h_def [symmetric])
  qed
next
  case (Str n)
  then show ?thesis using assms by (simp add: zeros_def)
qed (use assms in auto)

lemma struct_pack_exact:
  "exact_all fs vs \<Longrightarrow> \<exists>b. struct_pack bo fs vs = Inr b \<and> length b = calcsize fs"
proof (induction fs arbitrary: vs)
  case (Cons f fs)
  show ?case
  proof (cases "f = Pad")
    case True
    then show ?thesis using Cons by fastforce
  next
    case False
    then obtain v vs' where v: "vs = v # vs'" "exact f v" "exact_all fs vs'"
      using Cons.prems by auto
    then show ?thesis using Cons.IH [of vs'] exact_pack1 [of f v bo] False by force
  qed
qed simp

lemma pack1_length: "pack1 bo f v = Inr b \<Longrightarrow> length b = fmt_size f"
  by (cases "(bo, f, v)" rule: pack1.cases) (auto split: if_splits)

lemma struct_pack_length: "struct_pack bo fs vs = Inr b \<Longrightarrow> length b = calcsize fs"
proof (induction fs arbitrary: vs b)
  case Nil
  then show ?case by (cases vs) auto
next
  case (Cons f fs)
  then show ?case
    by (auto simp: result_simps pack1_length split: if_splits list.splits)
qed

text \<open>The two directions of the codec.\<close>

theorem struct_unpack_pack:
  assumes "exact_all fs vs" "list_all fmt_ok fs" "struct_pack bo fs vs = Inr b"
  shows "struct_unpack bo fs b = Inr vs"
proof -
  have "unpack_fields bo fs b = vs"
    using assms
  proof (induction fs arbitrary: vs b)
    case (Cons f fs)
    show ?case
    proof (cases "f = Pad")
      case True
      then show ?thesis using Cons by (auto simp: result_simps)
    next
      case False
      then obtain v vs' where v: "vs = v # vs'" "exact f v" "exact_all fs vs'"
        using Cons.prems by auto
      then obtain a r where a: "pack1 bo f v = Inr a" "struct_pack bo fs vs' = Inr r" "b = a @ r"
        using Cons.prems(3) False by (auto simp: result_simps)
      have "unpack1 bo f a = [v]" using v a Cons.prems by (auto intro: exact_roundtrip1)
      then show ?thesis using a v Cons by (simp add: pack1_length)
    qed
  qed simp
  then show ?thesis using struct_pack_length [OF assms(3)] by (simp add: struct_unpack_def)
qed

theorem struct_pack_unpack:
  assumes "struct_unpack bo fs b = Inr vs" "list_all fmt_ok fs" "Pad \<notin> set fs"
  shows "exact_all fs vs \<and> struct_pack bo fs vs = Inr b"
proof -
  have "length b = calcsize fs" and "vs = unpack_fields bo fs b"
    using assms by (auto simp: struct_unpack_def split: if_splits)
  then show ?thesis
    using assms(2,3)
  proof (induction fs arbitrary: vs b)
    case (Cons f fs)
    define a where "a = take (fmt_size f) b"
    have "length a = fmt_size f" using Cons.prems(1) by (simp add: a_def)
    then obtain v where v: "unpack1 bo f a = [v]" "exact f v" "pack1 bo f v = Inr a"
      using unpack_exact1 [of a f bo] Cons.prems by auto
    have IH: "exact_all fs (unpack_fields bo fs (drop (fmt_size f) b)) \<and>
      struct_pack bo fs (unpack_fields bo fs (drop (fmt_size f) b)) = Inr (drop (fmt_size f) b)"
      using Cons by auto
    then show ?case using v Cons.prems by (auto simp: a_def)
  qed simp
qed

text \<open>Integers that a format of integers packs fit it, and a format can be split in two.\<close>

lemma struct_pack_ints_exact:
  "struct_pack bo fs (map VInt xs) = Inr b \<Longrightarrow> \<forall>f \<in> set fs. \<exists>n. f = UI n \<or> f = SI n \<Longrightarrow>
   exact_all fs (map VInt xs)"
proof (induction fs arbitrary: xs b)
  case Nil
  then show ?case by (cases xs) auto
next
  case (Cons f fs)
  then obtain x xs' where xs: "xs = x # xs'" by (cases xs) auto
  then show ?case using Cons by (auto simp: result_simps split: if_splits)
qed

lemma unpack_fields_append:
  "length a = calcsize fs \<Longrightarrow>
   unpack_fields bo (fs @ gs) (a @ b) = unpack_fields bo fs a @ unpack_fields bo gs b"
  by (induction fs arbitrary: a) (auto simp: drop_take)

lemma exact_all_length: "exact_all fs vs \<Longrightarrow> Pad \<notin> set fs \<Longrightarrow> length vs = length fs"
  by (induction fs arbitrary: vs) auto

lemma struct_unpack_exact:
  "length b = calcsize fs \<Longrightarrow> list_all fmt_ok fs \<Longrightarrow> Pad \<notin> set fs \<Longrightarrow>
   \<exists>vs. struct_unpack bo fs b = Inr vs \<and> exact_all fs vs"
  using struct_pack_unpack [of bo fs b] by (auto simp: struct_unpack_def)

lemma struct_unpack_len: "struct_unpack bo fs b = Inr vs \<Longrightarrow> length b = calcsize fs"
  by (simp add: struct_unpack_def split: if_splits)

end
