(* ===== verification/Packet.thy ===== *)
theory Packet
  imports Struct
begin

text \<open>
  The packet framework of \<^verbatim>\<open>dpkt/dpkt.py\<close>: what the metaclass \<^verbatim>\<open>_MetaPacket\<close> derives from a
  \<^verbatim>\<open>__hdr__\<close> table and from a \<^verbatim>\<open>__bit_fields__\<close> table, and the base class \<^verbatim>\<open>Packet\<close>: its
  constructor, \<^verbatim>\<open>unpack\<close>, \<^verbatim>\<open>pack_hdr\<close>, \<^verbatim>\<open>__bytes__\<close>, \<^verbatim>\<open>__len__\<close>, \<^verbatim>\<open>__getitem__\<close>,
  \<^verbatim>\<open>__contains__\<close>, and the module function \<^verbatim>\<open>hexdump\<close>.

  The locale \<open>packet_class\<close> is the contract of a protocol class: its header table, the
  attribute values in header order (\<open>vals\<close>), and the object that \<^verbatim>\<open>unpack\<close> builds
  (\<open>make\<close>). Its lemmas are the framework's guarantees, proved once and interpreted for
  every protocol class of the development.
\<close>

section \<open>Header tables\<close>

type_synonym hdr = "(string \<times> fmt \<times> pval) list"

definition hdr_fields :: "hdr \<Rightarrow> string list" where
  "hdr_fields h = map fst h"

definition hdr_fmt :: "hdr \<Rightarrow> fmt list" where
  "hdr_fmt h = map (\<lambda>(_, f, _). f) h"

definition hdr_defaults :: "hdr \<Rightarrow> pval list" where
  "hdr_defaults h = map (\<lambda>(_, _, d). d) h"

definition hdr_len :: "hdr \<Rightarrow> nat" where
  "hdr_len h = calcsize (hdr_fmt h)"

lemma hdr_fmt_simps [hdr_simps, simp]:
  "hdr_fmt [] = []" "hdr_fmt ((n, f, d) # h) = f # hdr_fmt h"
  by (simp_all add: hdr_fmt_def)

lemma hdr_len_simps [hdr_simps, simp]:
  "hdr_len [] = 0" "hdr_len ((n, f, d) # h) = fmt_size f + hdr_len h"
  by (simp_all add: hdr_len_def)

section \<open>The base class\<close>

text \<open>
  \<^verbatim>\<open>Packet.unpack\<close>: split the header off the buffer, decode it field by field, keep the rest
  as \<^verbatim>\<open>data\<close>. The object is built by \<open>make\<close> from the header values and the rest.
\<close>

definition packet_unpack ::
    "endian \<Rightarrow> hdr \<Rightarrow> (pval list \<Rightarrow> bytes \<Rightarrow> 'r) \<Rightarrow> bytes \<Rightarrow> 'r result" where
  "packet_unpack bo h make buf =
     rbind (struct_unpack bo (hdr_fmt h) (take (hdr_len h) buf))
       (\<lambda>vs. Inr (make vs (drop (hdr_len h) buf)))"

text \<open>
  \<^verbatim>\<open>Packet.__init__\<close> with a buffer: a \<^verbatim>\<open>struct.error\<close> from the class's own \<open>unpack\<close> becomes
  \<open>NeedData\<close> when the buffer is shorter than the header, and \<open>UnpackError\<close> otherwise; every
  other exception passes.
\<close>

definition packet_init :: "nat \<Rightarrow> (bytes \<Rightarrow> 'r result) \<Rightarrow> bytes \<Rightarrow> 'r result" where
  "packet_init n unpack buf =
     (case unpack buf of
        Inl StructError \<Rightarrow> Inl (if length buf < n then NeedData else UnpackError)
      | r \<Rightarrow> r)"

text \<open>
  \<^verbatim>\<open>Packet.__init__\<close> with keyword arguments: the defaults, overwritten by the keywords in
  order. The result is the list of header values.
\<close>

definition packet_kwargs :: "hdr \<Rightarrow> (string \<times> pval) list \<Rightarrow> pval list" where
  "packet_kwargs h kws =
     map (\<lambda>(n, _, d). case map_of (rev kws) n of None \<Rightarrow> d | Some v \<Rightarrow> v) h"

fun flatten_val :: "pval \<Rightarrow> pval list" where
  "flatten_val (VTuple vs) = vs"
| "flatten_val v = [v]"

text \<open>
  \<^verbatim>\<open>Packet.pack_hdr\<close>: pack the attributes; on an error flatten the tuples and pack again; a
  second \<^verbatim>\<open>struct.error\<close> is a \<open>PackError\<close>.
\<close>

definition packet_pack_hdr :: "endian \<Rightarrow> hdr \<Rightarrow> pval list \<Rightarrow> bytes result" where
  "packet_pack_hdr bo h vs =
     (case struct_pack bo (hdr_fmt h) vs of
        Inr b \<Rightarrow> Inr b
      | Inl _ \<Rightarrow>
          (case struct_pack bo (hdr_fmt h) (concat (map flatten_val vs)) of
             Inr b \<Rightarrow> Inr b
           | Inl _ \<Rightarrow> Inl PackError))"

definition packet_bytes :: "endian \<Rightarrow> hdr \<Rightarrow> pval list \<Rightarrow> bytes \<Rightarrow> bytes result" where
  "packet_bytes bo h vs body = rbind (packet_pack_hdr bo h vs) (\<lambda>b. Inr (b @ body))"

definition packet_len :: "hdr \<Rightarrow> bytes \<Rightarrow> nat" where
  "packet_len h body = hdr_len h + length body"

lemma packet_init_Inr [result_simps]: "packet_init n f b = Inr x \<longleftrightarrow> f b = Inr x"
  by (auto simp: packet_init_def split: sum.splits exn.splits)

lemma packet_init_not_struct [simp]: "packet_init n f b \<noteq> Inl StructError"
  by (auto simp: packet_init_def split: sum.splits exn.splits)

lemma packet_pack_hdr_exact:
  "exact_all (hdr_fmt h) vs \<Longrightarrow>
   \<exists>b. packet_pack_hdr bo h vs = Inr b \<and> struct_pack bo (hdr_fmt h) vs = Inr b \<and> length b = hdr_len h"
  using struct_pack_exact [of "hdr_fmt h" vs bo] by (auto simp: packet_pack_hdr_def hdr_len_def)

lemma packet_pack_hdr_length: "packet_pack_hdr bo h vs = Inr b \<Longrightarrow> length b = hdr_len h"
  by (auto simp: packet_pack_hdr_def hdr_len_def struct_pack_length split: sum.splits)

lemma packet_pack_hdr_error: "packet_pack_hdr bo h vs = Inl e \<Longrightarrow> e = PackError"
  by (auto simp: packet_pack_hdr_def split: sum.splits)

lemma no_tuple_flatten: "list_all (\<lambda>v. \<forall>vs. v \<noteq> VTuple vs) vs \<Longrightarrow> concat (map flatten_val vs) = vs"
proof (induction vs)
  case (Cons v vs)
  then show ?case by (cases v) auto
qed simp

lemma pack_hdr_flat:
  "list_all (\<lambda>v. \<forall>vs. v \<noteq> VTuple vs) vs \<Longrightarrow>
   packet_pack_hdr bo h vs = Inr b \<longleftrightarrow> struct_pack bo (hdr_fmt h) vs = Inr b"
  by (auto simp: packet_pack_hdr_def no_tuple_flatten split: sum.splits)

lemma packet_unpack_ok:
  "packet_unpack bo h mk buf = Inr r \<Longrightarrow>
   hdr_len h \<le> length buf \<and>
   (\<exists>vs. struct_unpack bo (hdr_fmt h) (take (hdr_len h) buf) = Inr vs \<and> r = mk vs (drop (hdr_len h) buf))"
  by (auto simp: packet_unpack_def result_simps struct_unpack_def hdr_len_def split: if_splits)

lemma packet_unpack_short:
  "length buf < hdr_len h \<Longrightarrow> packet_unpack bo h mk buf = Inl StructError"
  by (simp add: packet_unpack_def struct_unpack_def hdr_len_def)

lemma packet_unpack_error: "packet_unpack bo h mk buf = Inl e \<Longrightarrow> e = StructError \<and> length buf < hdr_len h"
  by (auto simp: packet_unpack_def result_simps struct_unpack_def hdr_len_def split: if_splits)

section \<open>The contract of a protocol class\<close>

locale packet_class =
  fixes bo :: endian
    and hdr :: hdr
    and vals :: "'r \<Rightarrow> pval list"
    and make :: "pval list \<Rightarrow> bytes \<Rightarrow> 'r"
    and rest :: "'r \<Rightarrow> bytes"
  assumes fmts_ok: "list_all fmt_ok (hdr_fmt hdr)"
    and no_pad: "Pad \<notin> set (hdr_fmt hdr)"
    and vals_make: "exact_all (hdr_fmt hdr) vs \<Longrightarrow> vals (make vs d) = vs"
    and rest_make: "exact_all (hdr_fmt hdr) vs \<Longrightarrow> rest (make vs d) = d"
begin

lemma unpack_total:
  assumes "hdr_len hdr \<le> length buf"
  shows "\<exists>vs. packet_unpack bo hdr make buf = Inr (make vs (drop (hdr_len hdr) buf)) \<and>
    exact_all (hdr_fmt hdr) vs \<and> struct_pack bo (hdr_fmt hdr) vs = Inr (take (hdr_len hdr) buf)"
proof -
  have "length (take (hdr_len hdr) buf) = calcsize (hdr_fmt hdr)"
    using assms by (simp add: hdr_len_def)
  then obtain vs where "struct_unpack bo (hdr_fmt hdr) (take (hdr_len hdr) buf) = Inr vs"
    using struct_unpack_exact [OF _ fmts_ok no_pad] by blast
  then show ?thesis
    using struct_pack_unpack [OF _ fmts_ok no_pad]
    by (intro exI [of _ vs]) (simp add: packet_unpack_def)
qed

lemma unpack_ok_iff: "is_ok (packet_unpack bo hdr make buf) \<longleftrightarrow> hdr_len hdr \<le> length buf"
proof (cases "hdr_len hdr \<le> length buf")
  case True
  then show ?thesis using unpack_total [of buf] by auto
next
  case False
  then show ?thesis by (simp add: packet_unpack_short)
qed

text \<open>Constructing from a buffer fails exactly on a short buffer, and then with \<open>NeedData\<close>.\<close>

lemma init_need_data:
  "packet_init (hdr_len hdr) (packet_unpack bo hdr make) buf = Inl e \<longleftrightarrow>
   length buf < hdr_len hdr \<and> e = NeedData"
proof (cases "hdr_len hdr \<le> length buf")
  case True
  then show ?thesis using unpack_total [of buf] by (auto simp: packet_init_def)
next
  case False
  then show ?thesis by (auto simp: packet_unpack_short packet_init_def)
qed

lemma unpack_vals:
  assumes "packet_unpack bo hdr make buf = Inr r"
  shows "exact_all (hdr_fmt hdr) (vals r) \<and> rest r = drop (hdr_len hdr) buf"
proof -
  have "hdr_len hdr \<le> length buf" using packet_unpack_ok [OF assms] by blast
  then obtain vs where "r = make vs (drop (hdr_len hdr) buf)" "exact_all (hdr_fmt hdr) vs"
    using unpack_total [of buf] assms by auto
  then show ?thesis by (simp add: vals_make rest_make)
qed

text \<open>Packing what was unpacked gives the buffer back, byte for byte.\<close>

lemma pack_unpack:
  assumes "packet_unpack bo hdr make buf = Inr r"
  shows "packet_bytes bo hdr (vals r) (rest r) = Inr buf"
proof -
  have "hdr_len hdr \<le> length buf" using packet_unpack_ok [OF assms] by blast
  then obtain vs where vs: "packet_unpack bo hdr make buf = Inr (make vs (drop (hdr_len hdr) buf))"
    "exact_all (hdr_fmt hdr) vs" "struct_pack bo (hdr_fmt hdr) vs = Inr (take (hdr_len hdr) buf)"
    using unpack_total by blast
  then show ?thesis
    using assms by (simp add: packet_bytes_def packet_pack_hdr_def vals_make rest_make)
qed

lemma unpack_pack_hdr:
  assumes "packet_unpack bo hdr make buf = Inr r"
  shows "packet_pack_hdr bo hdr (vals r) = Inr (take (hdr_len hdr) buf) \<and>
    rest r = drop (hdr_len hdr) buf \<and> hdr_len hdr \<le> length buf"
proof -
  obtain b where b: "packet_pack_hdr bo hdr (vals r) = Inr b" "b @ rest r = buf"
    using pack_unpack [OF assms] by (auto simp: packet_bytes_def result_simps)
  moreover have "length b = hdr_len hdr" by (rule packet_pack_hdr_length [OF b(1)])
  ultimately show ?thesis
    using unpack_vals [OF assms] packet_unpack_ok [OF assms] by (metis append_eq_conv_conj)
qed

text \<open>Unpacking what was packed gives the attributes back, when they fit their formats.\<close>

lemma unpack_pack:
  assumes "exact_all (hdr_fmt hdr) vs"
  shows "\<exists>b. packet_bytes bo hdr vs body = Inr b \<and> length b = packet_len hdr body \<and>
    packet_unpack bo hdr make b = Inr (make vs body)"
proof -
  obtain b where b: "packet_pack_hdr bo hdr vs = Inr b" "struct_pack bo (hdr_fmt hdr) vs = Inr b"
    "length b = hdr_len hdr"
    using packet_pack_hdr_exact [OF assms] by blast
  have "struct_unpack bo (hdr_fmt hdr) b = Inr vs"
    by (rule struct_unpack_pack [OF assms fmts_ok b(2)])
  then show ?thesis using b by (simp add: packet_bytes_def packet_unpack_def packet_len_def)
qed

end

section \<open>Bit fields\<close>

text \<open>
  \<^verbatim>\<open>_MetaPacket\<close> walks a placeholder's field table from the high bits down and gives each
  public field a shift and a size; names that start with an underscore get no property.
\<close>

type_synonym bit_fields = "(string \<times> nat) list"

definition bits_total :: "bit_fields \<Rightarrow> nat" where
  "bits_total fs = sum_list (map snd fs)"

fun bf_props :: "nat \<Rightarrow> nat \<Rightarrow> bit_fields \<Rightarrow> (string \<times> nat \<times> nat) list" where
  "bf_props tot used [] = []"
| "bf_props tot used ((name, sz) # fs) =
     (if starts_with name ''_'' then bf_props tot (used + sz) fs
      else (name, tot - used - sz, sz) # bf_props tot (used + sz) fs)"

definition bf_locate :: "bit_fields \<Rightarrow> string \<Rightarrow> (nat \<times> nat) option" where
  "bf_locate fs name = map_of (bf_props (bits_total fs) 0 fs) name"

definition bf_mask :: "nat \<Rightarrow> nat \<Rightarrow> int" where
  "bf_mask shift sz = push_bit shift (2 ^ sz - 1)"

definition bf_mask_inv :: "nat \<Rightarrow> nat \<Rightarrow> nat \<Rightarrow> int" where
  "bf_mask_inv tot shift sz = (2 ^ tot - 1) - bf_mask shift sz"

text \<open>The getter, the setter and the default of a field property.\<close>

definition bf_get :: "bit_fields \<Rightarrow> string \<Rightarrow> int \<Rightarrow> int result" where
  "bf_get fs name ph =
     (case bf_locate fs name of
        None \<Rightarrow> Inl AttributeError
      | Some (shift, sz) \<Rightarrow> Inr (drop_bit shift (ph AND bf_mask shift sz)))"

definition bf_set :: "bit_fields \<Rightarrow> string \<Rightarrow> int \<Rightarrow> int \<Rightarrow> int result" where
  "bf_set fs name v ph =
     (case bf_locate fs name of
        None \<Rightarrow> Inl AttributeError
      | Some (shift, sz) \<Rightarrow>
          if 2 ^ sz \<le> v then Inl ValueError
          else Inr (push_bit shift v OR (ph AND bf_mask_inv (bits_total fs) shift sz)))"

definition bf_delete :: "bit_fields \<Rightarrow> string \<Rightarrow> int \<Rightarrow> int \<Rightarrow> int result" where
  "bf_delete fs name ph_default ph =
     rbind (bf_get fs name ph_default) (\<lambda>d. bf_set fs name d ph)"

lemma bf_mask_eq: "bf_mask shift sz = push_bit shift (mask sz)"
  by (simp add: bf_mask_def mask_eq_exp_minus_1)

lemma bf_get_bit: "drop_bit s (ph AND bf_mask s z) = take_bit z (drop_bit s ph)"
  by (rule bit_eqI) (auto simp: bf_mask_eq bit_simps)

lemma bf_get_take_bit:
  "bf_get fs name ph =
     (case bf_locate fs name of
        None \<Rightarrow> Inl AttributeError
      | Some (s, z) \<Rightarrow> Inr (take_bit z (drop_bit s ph)))"
  unfolding bf_get_def by (simp only: bf_get_bit)

lemma bf_mask_inv_bit:
  assumes "s + z \<le> t"
  shows "bf_mask_inv t s z = mask t AND NOT (push_bit s (mask z))"
proof -
  have "(mask t AND NOT (push_bit s (mask z))) + push_bit s (mask z) =
      (mask t AND NOT (push_bit s (mask z))) OR (push_bit s (mask z) :: int)"
    by (rule disjunctive_add) (auto simp: bit_simps)
  also have "\<dots> = mask t"
    using assms by (intro bit_eqI) (auto simp: bit_simps)
  finally show ?thesis
    by (simp add: bf_mask_inv_def bf_mask_eq mask_eq_exp_minus_1 algebra_simps)
qed

lemma bf_props_range:
  "(n, s, z) \<in> set (bf_props tot used fs) \<Longrightarrow> used + bits_total fs \<le> tot \<Longrightarrow> s + z + used \<le> tot"
proof (induction tot used fs rule: bf_props.induct)
  case (2 tot used name sz fs)
  then show ?case by (fastforce simp: bits_total_def split: if_splits)
qed simp

lemma bf_locate_range: "bf_locate fs n = Some (s, z) \<Longrightarrow> s + z \<le> bits_total fs"
  using bf_props_range [of n s z "bits_total fs" 0 fs] by (auto simp: bf_locate_def dest: map_of_SomeD)

text \<open>Two different names never share a bit: one field lies wholly above the other.\<close>

lemma bf_props_disjoint:
  assumes "map_of (bf_props tot used fs) n = Some (s, z)"
    and "map_of (bf_props tot used fs) m = Some (s', z')"
    and "n \<noteq> m" "used + bits_total fs \<le> tot"
  shows "s' + z' \<le> s \<or> s + z \<le> s'"
  using assms
proof (induction tot used fs rule: bf_props.induct)
  case (2 tot used name sz fs)
  have tot: "used + sz + bits_total fs \<le> tot" using 2 by (simp add: bits_total_def)
  have below: "s + z \<le> tot - used - sz" if "map_of (bf_props tot (used + sz) fs) k = Some (s, z)" for k s z
    using bf_props_range [OF map_of_SomeD [OF that] tot] by simp
  show ?case
  proof (cases "starts_with name ''_''")
    case True
    then show ?thesis using 2 tot by simp
  next
    case False
    then consider "n = name" | "m = name" | "n \<noteq> name" "m \<noteq> name" by blast
    then show ?thesis
    proof cases
      case 1
      then show ?thesis using 2 False below [of m s' z'] by auto
    next
      case 2
      then show ?thesis using "2.prems" False below [of n s z] by auto
    next
      case 3
      then show ?thesis using 2 False tot by simp
    qed
  qed
qed simp

lemma bf_locate_disjoint:
  "bf_locate fs n = Some (s, z) \<Longrightarrow> bf_locate fs m = Some (s', z') \<Longrightarrow> n \<noteq> m \<Longrightarrow>
   s' + z' \<le> s \<or> s + z \<le> s'"
  unfolding bf_locate_def by (rule bf_props_disjoint) auto

lemma bf_set_same:
  assumes "bf_locate fs n = Some (s, z)" "0 \<le> v" "v < 2 ^ z"
  shows "\<exists>ph'. bf_set fs n v ph = Inr ph' \<and> bf_get fs n ph' = Inr v"
proof -
  have v: "take_bit z v = v" using assms by (simp add: take_bit_int_eq_self)
  have "take_bit z (drop_bit s (push_bit s v OR (ph AND bf_mask_inv (bits_total fs) s z))) = take_bit z v"
    using bf_locate_range [OF assms(1)]
    by (intro bit_eqI) (auto simp: bf_mask_inv_bit bit_simps)
  then show ?thesis
    using assms v unfolding bf_set_def bf_get_take_bit by (simp del: take_bit_or drop_bit_or)
qed

lemma bf_set_other:
  assumes "bf_set fs n v ph = Inr ph'" "0 \<le> v" "n \<noteq> m"
  shows "bf_get fs m ph' = bf_get fs m ph"
proof (cases "bf_locate fs m")
  case None
  then show ?thesis by (simp add: bf_get_def)
next
  case (Some p)
  obtain s' z' where m: "bf_locate fs m = Some (s', z')" using Some by (cases p) auto
  obtain s z where n: "bf_locate fs n = Some (s, z)" and vz: "v < 2 ^ z"
    and ph': "ph' = push_bit s v OR (ph AND bf_mask_inv (bits_total fs) s z)"
    using assms(1) by (auto simp: bf_set_def split: option.splits if_splits)
  have tv: "i < z" if "bit v i" for i
    using that take_bit_int_eq_self [OF assms(2) vz] by (metis bit_take_bit_iff)
  have "take_bit z' (drop_bit s' ph') = take_bit z' (drop_bit s' ph)"
    using bf_locate_disjoint [OF n m assms(3)] bf_locate_range [OF n] bf_locate_range [OF m]
    unfolding ph' by (intro bit_eqI) (auto simp: bf_mask_inv_bit bit_simps dest: tv)
  then show ?thesis using m by (simp add: bf_get_take_bit)
qed

lemma bf_get_range: "bf_get fs n ph = Inr v \<Longrightarrow> bf_locate fs n = Some (s, z) \<Longrightarrow> 0 \<le> v \<and> v < 2 ^ z"
  by (auto simp: bf_get_take_bit)

lemma bf_set_range:
  assumes "bf_set fs n v ph = Inr w" "0 \<le> v" "0 \<le> ph" "ph < 2 ^ bits_total fs"
  shows "0 \<le> w \<and> w < 2 ^ bits_total fs"
proof -
  obtain s z where l: "bf_locate fs n = Some (s, z)" "v < 2 ^ z"
    "w = push_bit s v OR (ph AND bf_mask_inv (bits_total fs) s z)"
    using assms(1) by (auto simp: bf_set_def split: option.splits if_splits)
  have v: "take_bit z v = v" and p: "take_bit (bits_total fs) ph = ph"
    using assms l(2) by (simp_all add: take_bit_int_eq_self)
  have tv: "i < z" if "bit v i" for i using that v by (metis bit_take_bit_iff)
  have "take_bit (bits_total fs) w = w"
    using bf_locate_range [OF l(1)] unfolding l(3)
    by (intro bit_eqI) (auto simp: bf_mask_inv_bit bit_simps dest: tv)
  then show ?thesis by (metis take_bit_nonnegative take_bit_int_less_exp)
qed

text \<open>Setting a field to the value it has changes nothing.\<close>

lemma bf_set_get:
  assumes "bf_get fs n ph = Inr v" "0 \<le> ph" "ph < 2 ^ bits_total fs"
  shows "bf_set fs n v ph = Inr ph"
proof -
  obtain s z where l: "bf_locate fs n = Some (s, z)"
    using assms(1) by (auto simp: bf_get_def split: option.splits)
  have v: "v = take_bit z (drop_bit s ph)" using assms(1) l by (simp add: bf_get_take_bit)
  then have lt: "v < 2 ^ z" by simp
  have tot: "take_bit (bits_total fs) ph = ph" using assms(2,3) by (simp add: take_bit_int_eq_self)
  have "push_bit s v OR (ph AND bf_mask_inv (bits_total fs) s z) = take_bit (bits_total fs) ph"
    using bf_locate_range [OF l] by (intro bit_eqI) (auto simp: v bf_mask_inv_bit bit_simps)
  then show ?thesis using l lt tot by (simp add: bf_set_def)
qed

section \<open>Layers\<close>

text \<open>
  A parsed packet is a stack of layers: \<^verbatim>\<open>data\<close> is another packet or raw bytes.
  \<^verbatim>\<open>__getitem__\<close> returns the first layer below of the given class.
\<close>

datatype 'c layers = RawData bytes | Layer 'c "'c layers"

fun packet_getitem :: "'c \<Rightarrow> 'c layers \<Rightarrow> 'c layers result" where
  "packet_getitem kls (RawData b) = Inl KeyError"
| "packet_getitem kls (Layer c dd) =
     (if c = kls then Inr (Layer c dd) else packet_getitem kls dd)"

fun layer_data :: "'c layers \<Rightarrow> 'c layers" where
  "layer_data (RawData b) = RawData b"
| "layer_data (Layer c dd) = dd"

definition packet_contains :: "'c \<Rightarrow> 'c layers \<Rightarrow> bool" where
  "packet_contains kls dd = (case packet_getitem kls dd of Inr _ \<Rightarrow> True | Inl _ \<Rightarrow> False)"

fun layer_classes :: "'c layers \<Rightarrow> 'c list" where
  "layer_classes (RawData b) = []"
| "layer_classes (Layer c dd) = c # layer_classes dd"

lemma packet_contains_iff: "packet_contains k dd \<longleftrightarrow> k \<in> set (layer_classes dd)"
  by (induction dd) (auto simp: packet_contains_def)

lemma packet_getitem_first:
  "packet_getitem k dd = Inr l \<Longrightarrow>
   \<exists>pre. layer_classes dd = pre @ layer_classes l \<and> k \<notin> set pre \<and> (\<exists>d. l = Layer k d)"
proof (induction dd)
  case (Layer c dd)
  then show ?case
    by (cases "c = k") (force intro: exI [of _ "[]"] exI [of _ "c # _"])+
qed simp

section \<open>hexdump\<close>

definition hex_digit :: "nat \<Rightarrow> char" where
  "hex_digit d = ''0123456789abcdef'' ! (d mod 16)"

definition hex2 :: "byte \<Rightarrow> string" where
  "hex2 b = [hex_digit (unat b div 16), hex_digit (unat b mod 16)]"

fun join_str :: "string \<Rightarrow> string list \<Rightarrow> string" where
  "join_str sep [] = []"
| "join_str sep [x] = x"
| "join_str sep (x # y # ys) = x @ sep @ join_str sep (y # ys)"

text \<open>
  The translation table \<^verbatim>\<open>__vis_filter\<close>: printable ASCII except the backslash stays, every
  other byte becomes a dot.
\<close>

definition vis_filter :: "byte \<Rightarrow> char" where
  "vis_filter b =
     (if 32 \<le> unat b \<and> unat b \<le> 126 \<and> unat b \<noteq> 92 then char_of (unat b) else CHR ''.'')"

fun dec_digits :: "nat \<Rightarrow> nat \<Rightarrow> string" where
  "dec_digits 0 n = []"
| "dec_digits (Suc k) n = dec_digits k (n div 10) @ [char_of (48 + n mod 10)]"

fun num_digits :: "nat \<Rightarrow> nat" where
  "num_digits n = (if n < 10 then 1 else Suc (num_digits (n div 10)))"

declare num_digits.simps [simp del]

definition dec4 :: "nat \<Rightarrow> string" where
  "dec4 n = dec_digits (max 4 (num_digits n)) n"

definition pad_right :: "nat \<Rightarrow> string \<Rightarrow> string" where
  "pad_right n s = s @ replicate (n - length s) CHR '' ''"

definition hexdump_line :: "nat \<Rightarrow> nat \<Rightarrow> bytes \<Rightarrow> string" where
  "hexdump_line len n line =
     ''  '' @ dec4 n @ '':  '' @ pad_right (len * 3) (join_str '' '' (map hex2 line)) @ '' '' @
     map vis_filter line"

text \<open>The loop \<^verbatim>\<open>while buf\<close>; it needs a positive line length, else it does not return.\<close>

function hexdump_lines :: "nat \<Rightarrow> nat \<Rightarrow> bytes \<Rightarrow> string list" where
  "hexdump_lines len n buf =
     (if buf = [] \<or> len = 0 then []
      else hexdump_line len n (take len buf) # hexdump_lines len (n + len) (drop len buf))"
  by pat_completeness auto
termination
  by (relation "measure (\<lambda>(len, n, buf). length buf)") auto

declare hexdump_lines.simps [simp del]

definition hexdump :: "nat \<Rightarrow> bytes \<Rightarrow> string" where
  "hexdump len buf = join_str ''\<newline>'' (hexdump_lines len 0 buf)"

lemma hexdump_lines_count:
  "0 < len \<Longrightarrow> length (hexdump_lines len n buf) = (length buf + len - 1) div len"
proof (induction len n buf rule: hexdump_lines.induct)
  case (1 len n buf)
  show ?case
  proof (cases "buf = []")
    case True
    then show ?thesis using 1 by (subst hexdump_lines.simps) simp
  next
    case False
    then have IH: "length (hexdump_lines len (n + len) (drop len buf)) = (length buf - len + len - 1) div len"
      using 1 by simp
    have pos: "0 < length buf" using False by simp
    have "(length buf + len - 1) div len = Suc ((length buf - len + len - 1) div len)"
    proof (cases "len \<le> length buf")
      case True
      then have "length buf + len - 1 = (length buf - 1) + len" "length buf - len + len = length buf"
        using pos by simp_all
      then show ?thesis using 1(2) by (simp only: div_add_self2)
    next
      case F: False
      then have "(len - 1) div len = 0" "(length buf - 1) div len = 0"
        using 1(2) by (auto intro!: div_less)
      moreover have "length buf + len - 1 = (length buf - 1) + len" using pos by arith
      moreover have "length buf - len + len - 1 = len - 1" using F by simp
      ultimately show ?thesis using 1(2) by (simp only: div_add_self2)
    qed
    then show ?thesis using False 1(2) IH by (simp add: hexdump_lines.simps [of len n buf])
  qed
qed

section \<open>Properties\<close>

text \<open>
  Setting a bit field to a value that fits succeeds, reading it gives the value, and every other
  field of the placeholder reads as before.
\<close>

theorem bit_field_set:
  assumes "bf_locate fs n = Some (s, z)" "0 \<le> v" "v < 2 ^ z"
  shows "\<exists>ph'. bf_set fs n v ph = Inr ph' \<and> bf_get fs n ph' = Inr v \<and>
    (\<forall>m. m \<noteq> n \<longrightarrow> bf_get fs m ph' = bf_get fs m ph)"
  using bf_set_same [OF assms] bf_set_other assms(2) by metis

theorem bit_field_set_witness:
  "\<exists>ph'. bf_set [(''v'', 4), (''hl'', 4)] ''hl'' 6 0x45 = Inr ph' \<and>
     bf_get [(''v'', 4), (''hl'', 4)] ''hl'' ph' = Inr 6 \<and>
     (\<forall>m. m \<noteq> ''hl'' \<longrightarrow> bf_get [(''v'', 4), (''hl'', 4)] m ph' = bf_get [(''v'', 4), (''hl'', 4)] m 0x45)"
  by (rule bit_field_set [where s = 0 and z = 4])
    (simp_all add: bf_locate_def bits_total_def starts_with_def)

end
