(* ===== verification/Crc32c.thy ===== *)
theory Crc32c
  imports Packet
begin

text \<open>
  The CRC-32C of \<^verbatim>\<open>dpkt/crc32c.py\<close> (\<^verbatim>\<open>add\<close>, \<^verbatim>\<open>done\<close>, \<^verbatim>\<open>cksum\<close> and the table): the table driven
  update is shown equal to the bit serial division by the reflected Castagnoli polynomial,
  entry by entry for the table and byte by byte for the update. The register is a 32-bit
  word: the code starts from \<^verbatim>\<open>0xffffffff\<close> and every update stays below \<open>2 ^ 32\<close>.
\<close>

section \<open>CRC-32C\<close>

type_synonym u32 = "32 word"

definition crc32c_table :: "u32 list" where
  "crc32c_table =
    [
     0x00000000, 0xF26B8303, 0xE13B70F7, 0x1350F3F4, 0xC79A971F,
     0x35F1141C, 0x26A1E7E8, 0xD4CA64EB, 0x8AD958CF, 0x78B2DBCC,
     0x6BE22838, 0x9989AB3B, 0x4D43CFD0, 0xBF284CD3, 0xAC78BF27,
     0x5E133C24, 0x105EC76F, 0xE235446C, 0xF165B798, 0x030E349B,
     0xD7C45070, 0x25AFD373, 0x36FF2087, 0xC494A384, 0x9A879FA0,
     0x68EC1CA3, 0x7BBCEF57, 0x89D76C54, 0x5D1D08BF, 0xAF768BBC,
     0xBC267848, 0x4E4DFB4B, 0x20BD8EDE, 0xD2D60DDD, 0xC186FE29,
     0x33ED7D2A, 0xE72719C1, 0x154C9AC2, 0x061C6936, 0xF477EA35,
     0xAA64D611, 0x580F5512, 0x4B5FA6E6, 0xB93425E5, 0x6DFE410E,
     0x9F95C20D, 0x8CC531F9, 0x7EAEB2FA, 0x30E349B1, 0xC288CAB2,
     0xD1D83946, 0x23B3BA45, 0xF779DEAE, 0x05125DAD, 0x1642AE59,
     0xE4292D5A, 0xBA3A117E, 0x4851927D, 0x5B016189, 0xA96AE28A,
     0x7DA08661, 0x8FCB0562, 0x9C9BF696, 0x6EF07595, 0x417B1DBC,
     0xB3109EBF, 0xA0406D4B, 0x522BEE48, 0x86E18AA3, 0x748A09A0,
     0x67DAFA54, 0x95B17957, 0xCBA24573, 0x39C9C670, 0x2A993584,
     0xD8F2B687, 0x0C38D26C, 0xFE53516F, 0xED03A29B, 0x1F682198,
     0x5125DAD3, 0xA34E59D0, 0xB01EAA24, 0x42752927, 0x96BF4DCC,
     0x64D4CECF, 0x77843D3B, 0x85EFBE38, 0xDBFC821C, 0x2997011F,
     0x3AC7F2EB, 0xC8AC71E8, 0x1C661503, 0xEE0D9600, 0xFD5D65F4,
     0x0F36E6F7, 0x61C69362, 0x93AD1061, 0x80FDE395, 0x72966096,
     0xA65C047D, 0x5437877E, 0x4767748A, 0xB50CF789, 0xEB1FCBAD,
     0x197448AE, 0x0A24BB5A, 0xF84F3859, 0x2C855CB2, 0xDEEEDFB1,
     0xCDBE2C45, 0x3FD5AF46, 0x7198540D, 0x83F3D70E, 0x90A324FA,
     0x62C8A7F9, 0xB602C312, 0x44694011, 0x5739B3E5, 0xA55230E6,
     0xFB410CC2, 0x092A8FC1, 0x1A7A7C35, 0xE811FF36, 0x3CDB9BDD,
     0xCEB018DE, 0xDDE0EB2A, 0x2F8B6829, 0x82F63B78, 0x709DB87B,
     0x63CD4B8F, 0x91A6C88C, 0x456CAC67, 0xB7072F64, 0xA457DC90,
     0x563C5F93, 0x082F63B7, 0xFA44E0B4, 0xE9141340, 0x1B7F9043,
     0xCFB5F4A8, 0x3DDE77AB, 0x2E8E845F, 0xDCE5075C, 0x92A8FC17,
     0x60C37F14, 0x73938CE0, 0x81F80FE3, 0x55326B08, 0xA759E80B,
     0xB4091BFF, 0x466298FC, 0x1871A4D8, 0xEA1A27DB, 0xF94AD42F,
     0x0B21572C, 0xDFEB33C7, 0x2D80B0C4, 0x3ED04330, 0xCCBBC033,
     0xA24BB5A6, 0x502036A5, 0x4370C551, 0xB11B4652, 0x65D122B9,
     0x97BAA1BA, 0x84EA524E, 0x7681D14D, 0x2892ED69, 0xDAF96E6A,
     0xC9A99D9E, 0x3BC21E9D, 0xEF087A76, 0x1D63F975, 0x0E330A81,
     0xFC588982, 0xB21572C9, 0x407EF1CA, 0x532E023E, 0xA145813D,
     0x758FE5D6, 0x87E466D5, 0x94B49521, 0x66DF1622, 0x38CC2A06,
     0xCAA7A905, 0xD9F75AF1, 0x2B9CD9F2, 0xFF56BD19, 0x0D3D3E1A,
     0x1E6DCDEE, 0xEC064EED, 0xC38D26C4, 0x31E6A5C7, 0x22B65633,
     0xD0DDD530, 0x0417B1DB, 0xF67C32D8, 0xE52CC12C, 0x1747422F,
     0x49547E0B, 0xBB3FFD08, 0xA86F0EFC, 0x5A048DFF, 0x8ECEE914,
     0x7CA56A17, 0x6FF599E3, 0x9D9E1AE0, 0xD3D3E1AB, 0x21B862A8,
     0x32E8915C, 0xC083125F, 0x144976B4, 0xE622F5B7, 0xF5720643,
     0x07198540, 0x590AB964, 0xAB613A67, 0xB831C993, 0x4A5A4A90,
     0x9E902E7B, 0x6CFBAD78, 0x7FAB5E8C, 0x8DC0DD8F, 0xE330A81A,
     0x115B2B19, 0x020BD8ED, 0xF0605BEE, 0x24AA3F05, 0xD6C1BC06,
     0xC5914FF2, 0x37FACCF1, 0x69E9F0D5, 0x9B8273D6, 0x88D28022,
     0x7AB90321, 0xAE7367CA, 0x5C18E4C9, 0x4F48173D, 0xBD23943E,
     0xF36E6F75, 0x0105EC76, 0x12551F82, 0xE03E9C81, 0x34F4F86A,
     0xC69F7B69, 0xD5CF889D, 0x27A40B9E, 0x79B737BA, 0x8BDCB4B9,
     0x988C474D, 0x6AE7C44E, 0xBE2DA0A5, 0x4C4623A6, 0x5F16D052,
     0xAD7D5351]"

definition crc32c_add1 :: "u32 \<Rightarrow> byte \<Rightarrow> u32" where
  "crc32c_add1 crc b = drop_bit 8 crc XOR (crc32c_table ! unat ((crc XOR ucast b) AND 0xff))"

fun crc32c_add :: "u32 \<Rightarrow> bytes \<Rightarrow> u32" where
  "crc32c_add crc [] = crc"
| "crc32c_add crc (b # buf) = crc32c_add (crc32c_add1 crc b) buf"

definition crc32c_done :: "u32 \<Rightarrow> u32" where
  "crc32c_done crc =
     (let tmp = NOT crc;
          b0 = tmp AND 0xff;
          b1 = drop_bit 8 tmp AND 0xff;
          b2 = drop_bit 16 tmp AND 0xff;
          b3 = drop_bit 24 tmp AND 0xff
      in push_bit 24 b0 OR push_bit 16 b1 OR push_bit 8 b2 OR b3)"

definition crc32c_cksum :: "bytes \<Rightarrow> u32" where
  "crc32c_cksum buf = crc32c_done (crc32c_add 0xffffffff buf)"

text \<open>
  The reference: one step of the bit serial register, reflected, with the Castagnoli
  polynomial; a byte is eight steps.
\<close>

definition crc_step :: "u32 \<Rightarrow> u32" where
  "crc_step x = drop_bit 1 x XOR (if bit x 0 then 0x82F63B78 else 0)"

definition crc_byte :: "u32 \<Rightarrow> byte \<Rightarrow> u32" where
  "crc_byte crc b = (crc_step ^^ 8) (crc XOR ucast b)"

fun crc_serial :: "u32 \<Rightarrow> bytes \<Rightarrow> u32" where
  "crc_serial crc [] = crc"
| "crc_serial crc (b # buf) = crc_serial (crc_byte crc b) buf"

lemma crc_step_xor: "crc_step (x XOR y) = crc_step x XOR crc_step y"
  by (rule bit_eqI) (auto simp: crc_step_def bit_simps)

lemma crc_steps_xor: "(crc_step ^^ n) (x XOR y) = (crc_step ^^ n) x XOR (crc_step ^^ n) y"
  by (induction n) (auto simp: crc_step_xor)

lemma crc_steps_shift: "(\<forall>i < n. \<not> bit x i) \<Longrightarrow> (crc_step ^^ n) x = drop_bit n x"
proof (induction n arbitrary: x)
  case (Suc n)
  have "crc_step x = drop_bit 1 x" using Suc.prems by (simp add: crc_step_def)
  moreover have "\<forall>i < n. \<not> bit (drop_bit 1 x) i" using Suc.prems by (simp add: bit_simps)
  ultimately show ?case
    using Suc.IH [of "drop_bit 1 x"] by (simp add: funpow_Suc_right del: funpow.simps)
qed simp

lemma funpow8: "(f ^^ 8) x = f (f (f (f (f (f (f (f x)))))))"
  by (simp add: eval_nat_numeral)

definition byte_values :: "u32 list" where
  "byte_values =
    [0, 1, 2, 3, 4, 5, 6, 7, 8, 9, 10, 11, 12, 13, 14, 15,
     16, 17, 18, 19, 20, 21, 22, 23, 24, 25, 26, 27, 28, 29, 30, 31,
     32, 33, 34, 35, 36, 37, 38, 39, 40, 41, 42, 43, 44, 45, 46, 47,
     48, 49, 50, 51, 52, 53, 54, 55, 56, 57, 58, 59, 60, 61, 62, 63,
     64, 65, 66, 67, 68, 69, 70, 71, 72, 73, 74, 75, 76, 77, 78, 79,
     80, 81, 82, 83, 84, 85, 86, 87, 88, 89, 90, 91, 92, 93, 94, 95,
     96, 97, 98, 99, 100, 101, 102, 103, 104, 105, 106, 107, 108, 109, 110, 111,
     112, 113, 114, 115, 116, 117, 118, 119, 120, 121, 122, 123, 124, 125, 126, 127,
     128, 129, 130, 131, 132, 133, 134, 135, 136, 137, 138, 139, 140, 141, 142, 143,
     144, 145, 146, 147, 148, 149, 150, 151, 152, 153, 154, 155, 156, 157, 158, 159,
     160, 161, 162, 163, 164, 165, 166, 167, 168, 169, 170, 171, 172, 173, 174, 175,
     176, 177, 178, 179, 180, 181, 182, 183, 184, 185, 186, 187, 188, 189, 190, 191,
     192, 193, 194, 195, 196, 197, 198, 199, 200, 201, 202, 203, 204, 205, 206, 207,
     208, 209, 210, 211, 212, 213, 214, 215, 216, 217, 218, 219, 220, 221, 222, 223,
     224, 225, 226, 227, 228, 229, 230, 231, 232, 233, 234, 235, 236, 237, 238, 239,
     240, 241, 242, 243, 244, 245, 246, 247, 248, 249, 250, 251, 252, 253, 254, 255]"

lemma byte_values_upt: "byte_values = map word_of_nat [0..<256]"
  by (simp add: byte_values_def upt_conv_Cons upt_rec_numeral)

text \<open>Every entry of the table is eight steps of the register from its index.\<close>

lemma crc32c_table_steps: "map (crc_step ^^ 8) byte_values = crc32c_table"
  by (simp add: byte_values_def crc32c_table_def funpow8 crc_step_def)

lemma crc32c_table_nth:
  assumes "unat i < 256"
  shows "crc32c_table ! unat i = (crc_step ^^ 8) i"
proof -
  have "length byte_values = 256" "byte_values ! unat i = i"
    using assms by (simp_all add: byte_values_upt)
  then show ?thesis using assms by (simp add: crc32c_table_steps [symmetric])
qed

lemma crc32c_add1_eq: "crc32c_add1 crc b = crc_byte crc b"
proof -
  define x where "x = crc XOR ucast b"
  have ff: "(0xff :: u32) = mask 8" by (simp add: mask_eq_exp_minus_1)
  have "unat (x AND 0xff) \<le> unat (0xff :: u32)"
    by (rule word_and_le1 [THEN word_le_nat_alt [THEN iffD1]])
  then have "unat (x AND 0xff) < 256" by simp
  then have "crc32c_table ! unat (x AND 0xff) = (crc_step ^^ 8) (x AND 0xff)"
    by (rule crc32c_table_nth)
  moreover have "\<forall>i < 8. \<not> bit (x AND NOT 0xff) i"
    by (simp add: ff bit_simps)
  then have "(crc_step ^^ 8) (x AND NOT 0xff) = drop_bit 8 (x AND NOT 0xff)"
    by (rule crc_steps_shift)
  moreover have "drop_bit 8 (x AND NOT 0xff) = drop_bit 8 crc"
  proof (rule bit_word_eqI)
    fix n assume "n < LENGTH(32)"
    have "\<not> bit b (8 + n)"
      using bit_imp_le_length [of b "8 + n"] by auto
    then show "bit (drop_bit 8 (x AND NOT 0xff)) n = bit (drop_bit 8 crc) n"
      unfolding x_def ff by (auto simp: bit_simps dest: bit_imp_le_length)
  qed
  moreover have "x = (x AND NOT 0xff) XOR (x AND 0xff)"
    by (rule bit_word_eqI) (auto simp: bit_simps)
  ultimately show ?thesis
    unfolding crc32c_add1_def crc_byte_def x_def [symmetric] by (metis crc_steps_xor)
qed

lemma crc32c_add_serial: "crc32c_add crc buf = crc_serial crc buf"
  by (induction buf arbitrary: crc) (auto simp: crc32c_add1_eq)

lemma crc32c_add_append: "crc32c_add crc (a @ b) = crc32c_add (crc32c_add crc a) b"
  by (induction a arbitrary: crc) auto

section \<open>Properties\<close>

text \<open>
  C30: the table-driven CRC-32C of a buffer, from any start value, is the CRC of the serial shift
  register that takes in one bit after the other.
\<close>

theorem crc32c_equivalence: "crc32c_add crc buf = crc_serial crc buf"
  by (rule crc32c_add_serial)

end
