(* ===== verification/Dns.thy ===== *)
theory Dns
  imports Packet
begin

text \<open>
  The Domain Name System messages of \<^verbatim>\<open>dpkt/dns.py\<close>: names with compression pointers
  (\<^verbatim>\<open>pack_name\<close>, \<^verbatim>\<open>unpack_name\<close>), the flag properties of the header, questions, resource
  records and their data, and whole messages. A \<^verbatim>\<open>str\<close> is its UTF-8 encoding; the attributes that
  \<^verbatim>\<open>unpack_rdata\<close> adds to a record are a value of \<open>rr_view\<close>. The dictionary \<^verbatim>\<open>label_ptrs\<close> is passed
  along. The main results: decoding a name always ends, with a bounded result; packing with
  compression and unpacking give the same names, up to letter case.
\<close>

section \<open>Names\<close>

text \<open>A name attribute is a text (kept in UTF-8), or the byte string that is its class default.\<close>

datatype pytext = PyStr bytes | PyBytes bytes

type_synonym label_ptrs = "bytes \<Rightarrow> nat option"

text \<open>
  The loop of \<^verbatim>\<open>pack_name\<close> over the labels that are left: \<open>buf\<close> is what the name has so far. A
  suffix that was written before is replaced by a pointer to it and ends the loop.
\<close>

fun pack_labels :: "nat \<Rightarrow> bytes list \<Rightarrow> bytes \<Rightarrow> label_ptrs \<Rightarrow> (bytes \<times> label_ptrs) result" where
  "pack_labels off [] buf ptrs = Inr (buf, ptrs)"
| "pack_labels off (l # ls) buf ptrs =
     (let key = upper (join [46] (l # ls)) in
      case ptrs key of
        None \<Rightarrow>
          (let ptr = off + length buf;
               ptrs' = (if 1 < length key \<and> ptr < 0xc000 then ptrs(key \<mapsto> ptr) else ptrs)
           in rbind (pack_uint BE 1 (int (length l))) (\<lambda>n. pack_labels off ls (buf @ n @ l) ptrs'))
      | Some ptr \<Rightarrow>
          rbind (pack_uint BE 2 (0xc000 OR int ptr)) (\<lambda>p. Inr (buf @ p, ptrs)))"

definition name_labels :: "bytes \<Rightarrow> bytes list" where
  "name_labels name = (if name = [] then [] else split_byte 46 name) @ [[]]"

fun pack_name :: "pytext \<Rightarrow> nat \<Rightarrow> label_ptrs \<Rightarrow> (bytes \<times> label_ptrs) result" where
  "pack_name (PyBytes b) off ptrs = Inl TypeError"
| "pack_name (PyStr s) off ptrs = pack_labels off (name_labels s) [] ptrs"

text \<open>
  The loop of \<^verbatim>\<open>unpack_name\<close>. A pointer must go before \<open>start\<close>, where the current run of labels
  began, so the pair of \<open>start\<close> and the distance to the end of the buffer decreases.
\<close>

function unpack_labels ::
    "bytes \<Rightarrow> bytes list \<Rightarrow> nat \<Rightarrow> nat \<Rightarrow> nat \<Rightarrow> nat \<Rightarrow> (bytes list \<times> nat \<times> nat) result" where
  "unpack_labels buf name saved start off nlen =
     (if length buf \<le> off then Inl NeedData
      else let n = buf ! off in
        if n = 0 then Inr (name, saved, off + 1)
        else if n AND 0xc0 = 0xc0 then
          rbind (unpack_uint BE 2 (take 2 (drop off buf))) (\<lambda>v.
            let ptr = nat (v AND 0x3fff) in
            if start \<le> ptr then Inl UnpackError
            else unpack_labels buf name (if saved = 0 then off + 2 else saved) ptr ptr nlen)
        else if n AND 0xc0 = 0 then
          let l = take (unat n) (drop (off + 1) buf); nlen' = nlen + unat n + 1 in
          if 255 < nlen' then Inl UnpackError
          else unpack_labels buf (name @ [l]) saved start (off + 1 + unat n) nlen'
        else Inl UnpackError)"
  by pat_completeness auto

termination
  by (relation "measures [\<lambda>(buf, name, saved, start, off, nlen). start,
      \<lambda>(buf, name, saved, start, off, nlen). length buf - off]") auto

declare unpack_labels.simps [simp del]

definition unpack_name :: "bytes \<Rightarrow> nat \<Rightarrow> (bytes \<times> nat) result" where
  "unpack_name buf off =
     rbind (unpack_labels buf [] 0 off off 0) (\<lambda>(ls, saved, off').
       let s = join [46] ls in
       if utf8_ok s then Inr (s, if saved = 0 then off' else saved) else Inl UnicodeError)"

text \<open>The number of rounds of the loop.\<close>

function unpack_rounds :: "bytes \<Rightarrow> nat \<Rightarrow> nat \<Rightarrow> nat \<Rightarrow> nat" where
  "unpack_rounds buf start off nlen =
     (if length buf \<le> off then 1
      else let n = buf ! off in
        if n = 0 then 1
        else if n AND 0xc0 = 0xc0 then
          (case unpack_uint BE 2 (take 2 (drop off buf)) of
             Inl _ \<Rightarrow> 1
           | Inr v \<Rightarrow>
               (let ptr = nat (v AND 0x3fff) in
                if start \<le> ptr then 1 else 1 + unpack_rounds buf ptr ptr nlen))
        else if n AND 0xc0 = 0 then
          (let nlen' = nlen + unat n + 1 in
           if 255 < nlen' then 1 else 1 + unpack_rounds buf start (off + 1 + unat n) nlen')
        else 1)"
  by pat_completeness auto

termination
  by (relation "measures [\<lambda>(buf, start, off, nlen). start, \<lambda>(buf, start, off, nlen). length buf - off]") auto

declare unpack_rounds.simps [simp del]

section \<open>The header\<close>

definition DNS_CD :: int where "DNS_CD = 0x0010"
definition DNS_AD :: int where "DNS_AD = 0x0020"
definition DNS_Z :: int where "DNS_Z = 0x0040"
definition DNS_RA :: int where "DNS_RA = 0x0080"
definition DNS_RD :: int where "DNS_RD = 0x0100"
definition DNS_TC :: int where "DNS_TC = 0x0200"
definition DNS_AA :: int where "DNS_AA = 0x0400"
definition DNS_QR :: int where "DNS_QR = 0x8000"

definition DNS_A :: int where "DNS_A = 1"
definition DNS_NS :: int where "DNS_NS = 2"
definition DNS_CNAME :: int where "DNS_CNAME = 5"
definition DNS_SOA :: int where "DNS_SOA = 6"
definition DNS_NULL :: int where "DNS_NULL = 10"
definition DNS_PTR :: int where "DNS_PTR = 12"
definition DNS_HINFO :: int where "DNS_HINFO = 13"
definition DNS_MX :: int where "DNS_MX = 15"
definition DNS_TXT :: int where "DNS_TXT = 16"
definition DNS_AAAA :: int where "DNS_AAAA = 28"
definition DNS_SRV :: int where "DNS_SRV = 33"
definition DNS_OPT :: int where "DNS_OPT = 41"
definition DNS_IN :: int where "DNS_IN = 1"

lemmas dns_types =
  DNS_A_def DNS_NS_def DNS_CNAME_def DNS_SOA_def DNS_NULL_def DNS_PTR_def DNS_HINFO_def DNS_MX_def
  DNS_TXT_def DNS_AAAA_def DNS_SRV_def DNS_OPT_def

text \<open>The one-bit flags: \<open>get_flag\<close> and \<open>set_flag\<close> are their getters and setters on \<^verbatim>\<open>op\<close>.\<close>

definition get_flag :: "int \<Rightarrow> int \<Rightarrow> int" where
  "get_flag f op = (if op AND f = f then 1 else 0)"

definition set_flag :: "int \<Rightarrow> bool \<Rightarrow> int \<Rightarrow> int" where
  "set_flag f v op = (if v then op OR f else op AND NOT f)"

definition get_opcode :: "int \<Rightarrow> int" where
  "get_opcode op = drop_bit 11 op AND 0xf"

definition set_opcode :: "int \<Rightarrow> int \<Rightarrow> int" where
  "set_opcode v op = (op AND NOT 0x7800) OR push_bit 11 (v AND 0xf)"

definition get_rcode :: "int \<Rightarrow> int" where
  "get_rcode op = op AND 0xf"

definition set_rcode :: "int \<Rightarrow> int \<Rightarrow> int" where
  "set_rcode v op = (op AND NOT 0xf) OR (v AND 0xf)"

section \<open>Questions and resource records\<close>

record dns_q =
  q_name :: pytext
  q_type :: int
  q_cls :: int

definition q_new :: dns_q where
  "q_new = \<lparr>q_name = PyBytes [], q_type = DNS_A, q_cls = DNS_IN\<rparr>"

text \<open>
  The attributes \<^verbatim>\<open>unpack_rdata\<close> sets, by record type. \<^verbatim>\<open>preference\<close> is an attribute value, since
  unpacking makes it a tuple.
\<close>

datatype rr_view =
    RD_none
  | RD_ip bytes
  | RD_ns pytext
  | RD_cname pytext
  | RD_ptr pytext
  | RD_soa pytext pytext int int int int int
  | RD_mx pval pytext
  | RD_text "pytext list"
  | RD_ip6 bytes
  | RD_null bytes
  | RD_srv int int int pytext

record dns_rr =
  rr_name :: pytext
  rr_type :: int
  rr_cls :: int
  rr_ttl :: int
  rr_rlen :: int
  rr_rdata :: bytes
  rr_view :: rr_view

definition rr_new :: dns_rr where
  "rr_new = \<lparr>rr_name = PyBytes [], rr_type = DNS_A, rr_cls = DNS_IN, rr_ttl = 0, rr_rlen = 4,
     rr_rdata = [], rr_view = RD_none\<rparr>"

text \<open>The number of characters of a text, for its \<^verbatim>\<open>len\<close>.\<close>

definition utf8_len :: "bytes \<Rightarrow> nat" where
  "utf8_len s = length (filter (\<lambda>b. \<not> utf8_cont b) s)"

text \<open>\<^verbatim>\<open>struct.pack('B', len(x)) + x\<close>: a text cannot be added to bytes.\<close>

fun pack_text :: "pytext \<Rightarrow> bytes result" where
  "pack_text (PyBytes b) = rbind (pack_uint BE 1 (int (length b))) (\<lambda>n. Inr (n @ b))"
| "pack_text (PyStr s) = rbind (pack_uint BE 1 (int (utf8_len s))) (\<lambda>n. Inl TypeError)"

fun pack_texts :: "pytext list \<Rightarrow> bytes result" where
  "pack_texts [] = Inr []"
| "pack_texts (t # ts) = rbind (pack_text t) (\<lambda>a. rbind (pack_texts ts) (\<lambda>b. Inr (a @ b)))"

definition pack_ints :: "nat \<Rightarrow> int list \<Rightarrow> bytes result" where
  "pack_ints n is = struct_pack BE (replicate (length is) (UI n)) (map VInt is)"

definition pack_rdata :: "dns_rr \<Rightarrow> nat \<Rightarrow> label_ptrs \<Rightarrow> (bytes \<times> label_ptrs) result" where
  "pack_rdata rr off ptrs =
     (let t = rr_type rr; v = rr_view rr in
      if rr_rdata rr \<noteq> [] then Inr (rr_rdata rr, ptrs)
      else if t = DNS_A then (case v of RD_ip b \<Rightarrow> Inr (b, ptrs) | _ \<Rightarrow> Inl AttributeError)
      else if t = DNS_NS then (case v of RD_ns s \<Rightarrow> pack_name s off ptrs | _ \<Rightarrow> Inl AttributeError)
      else if t = DNS_CNAME then (case v of RD_cname s \<Rightarrow> pack_name s off ptrs | _ \<Rightarrow> Inl AttributeError)
      else if t = DNS_PTR then (case v of RD_ptr s \<Rightarrow> pack_name s off ptrs | _ \<Rightarrow> Inl AttributeError)
      else if t = DNS_SOA then
        (case v of
           RD_soa m r se rf rt ex mi \<Rightarrow>
             rbind (pack_name m off ptrs) (\<lambda>(a, ptrs).
             rbind (pack_name r (off + length a) ptrs) (\<lambda>(b, ptrs).
             rbind (pack_ints 4 [se, rf, rt, ex, mi]) (\<lambda>c. Inr (a @ b @ c, ptrs))))
         | _ \<Rightarrow> Inl AttributeError)
      else if t = DNS_MX then
        (case v of
           RD_mx p s \<Rightarrow>
             rbind (struct_pack BE [fH] [p]) (\<lambda>a.
             rbind (pack_name s (off + 2) ptrs) (\<lambda>(b, ptrs). Inr (a @ b, ptrs)))
         | _ \<Rightarrow> Inl AttributeError)
      else if t = DNS_TXT \<or> t = DNS_HINFO then
        (case v of RD_text ts \<Rightarrow> rbind (pack_texts ts) (\<lambda>b. Inr (b, ptrs)) | _ \<Rightarrow> Inl AttributeError)
      else if t = DNS_AAAA then (case v of RD_ip6 b \<Rightarrow> Inr (b, ptrs) | _ \<Rightarrow> Inl AttributeError)
      else if t = DNS_SRV then
        (case v of
           RD_srv p w po s \<Rightarrow>
             rbind (pack_ints 2 [p, w, po]) (\<lambda>a.
             rbind (pack_name s (off + 6) ptrs) (\<lambda>(b, ptrs). Inr (a @ b, ptrs)))
         | _ \<Rightarrow> Inl AttributeError)
      else if t = DNS_OPT then Inr ([], ptrs)
      else Inl PackError)"

text \<open>The strings of a TXT record. A length beyond the end takes what there is.\<close>

function unpack_texts :: "bytes \<Rightarrow> pytext list result" where
  "unpack_texts [] = Inr []"
| "unpack_texts (n # bs) =
     (let s = take (unat n) bs in
      if utf8_ok s then rbind (unpack_texts (drop (unat n) bs)) (\<lambda>ts. Inr (PyStr s # ts))
      else Inl UnicodeError)"
  by pat_completeness auto

termination
  by (relation "measure length") auto

definition hex_nibble :: "byte \<Rightarrow> byte" where
  "hex_nibble n = (if n < 10 then n + 48 else n + 87)"

definition hex_bytes :: "bytes \<Rightarrow> bytes" where
  "hex_bytes bs = concat (map (\<lambda>b. [hex_nibble (drop_bit 4 b), hex_nibble (b AND 15)]) bs)"

definition unpack_uints :: "nat \<Rightarrow> nat \<Rightarrow> bytes \<Rightarrow> int list result" where
  "unpack_uints k n b = rbind (struct_unpack BE (replicate k (UI n)) b) (\<lambda>vs. Inr (map ival vs))"

text \<open>\<open>unpack_rdata\<close> reads the data of a record that starts at \<open>off\<close> in the whole message.\<close>

definition unpack_rdata :: "dns_rr \<Rightarrow> bytes \<Rightarrow> nat \<Rightarrow> rr_view result" where
  "unpack_rdata rr buf off =
     (let t = rr_type rr; d = rr_rdata rr in
      if t = DNS_A then Inr (RD_ip d)
      else if t = DNS_NS then rbind (unpack_name buf off) (\<lambda>(s, _). Inr (RD_ns (PyStr s)))
      else if t = DNS_CNAME then rbind (unpack_name buf off) (\<lambda>(s, _). Inr (RD_cname (PyStr s)))
      else if t = DNS_PTR then rbind (unpack_name buf off) (\<lambda>(s, _). Inr (RD_ptr (PyStr s)))
      else if t = DNS_SOA then
        rbind (unpack_name buf off) (\<lambda>(m, off).
        rbind (unpack_name buf off) (\<lambda>(r, off).
        rbind (unpack_uints 5 4 (take 20 (drop off buf))) (\<lambda>is.
          Inr (RD_soa (PyStr m) (PyStr r) (is ! 0) (is ! 1) (is ! 2) (is ! 3) (is ! 4)))))
      else if t = DNS_MX then
        rbind (struct_unpack BE [fH] (take 2 d)) (\<lambda>p.
        rbind (unpack_name buf (off + 2)) (\<lambda>(s, _). Inr (RD_mx (VTuple p) (PyStr s))))
      else if t = DNS_TXT \<or> t = DNS_HINFO then rbind (unpack_texts d) (\<lambda>ts. Inr (RD_text ts))
      else if t = DNS_AAAA then Inr (RD_ip6 d)
      else if t = DNS_NULL then Inr (RD_null (hex_bytes d))
      else if t = DNS_SRV then
        rbind (unpack_uints 3 2 (take 6 d)) (\<lambda>is.
        rbind (unpack_name buf (off + 6)) (\<lambda>(s, _).
          Inr (RD_srv (is ! 0) (is ! 1) (is ! 2) (PyStr s))))
      else if t = DNS_OPT then Inr RD_none
      else Inl UnpackError)"

definition pack_q :: "bytes \<Rightarrow> dns_q \<Rightarrow> label_ptrs \<Rightarrow> (bytes \<times> label_ptrs) result" where
  "pack_q buf q ptrs =
     rbind (pack_name (q_name q) (length buf) ptrs) (\<lambda>(n, ptrs).
     rbind (pack_ints 2 [q_type q, q_cls q]) (\<lambda>t. Inr (buf @ n @ t, ptrs)))"

definition unpack_q :: "bytes \<Rightarrow> nat \<Rightarrow> (dns_q \<times> nat) result" where
  "unpack_q buf off =
     rbind (unpack_name buf off) (\<lambda>(s, off).
     rbind (unpack_uints 2 2 (take 4 (drop off buf))) (\<lambda>is.
       Inr (q_new\<lparr>q_name := PyStr s, q_type := is ! 0, q_cls := is ! 1\<rparr>, off + 4)))"

definition pack_rr :: "bytes \<Rightarrow> dns_rr \<Rightarrow> label_ptrs \<Rightarrow> (bytes \<times> label_ptrs) result" where
  "pack_rr buf rr ptrs =
     rbind (pack_name (rr_name rr) (length buf) ptrs) (\<lambda>(n, ptrs).
     rbind (pack_rdata rr (length buf + length n + 10) ptrs) (\<lambda>(d, ptrs).
     rbind (struct_pack BE [fH, fH, fI, fH]
         [VInt (rr_type rr), VInt (rr_cls rr), VInt (rr_ttl rr), VInt (int (length d))])
       (\<lambda>h. Inr (buf @ n @ h @ d, ptrs))))"

definition unpack_rr :: "bytes \<Rightarrow> nat \<Rightarrow> (dns_rr \<times> nat) result" where
  "unpack_rr buf off =
     rbind (unpack_name buf off) (\<lambda>(s, off).
     rbind (struct_unpack BE [fH, fH, fI, fH] (take 10 (drop off buf))) (\<lambda>vs.
       let t = ival (vs ! 0); c = ival (vs ! 1); ttl = ival (vs ! 2); rdlen = ival (vs ! 3);
           off = off + 10;
           rr = rr_new\<lparr>rr_name := PyStr s, rr_type := t, rr_cls := c, rr_ttl := ttl,
             rr_rdata := take (nat rdlen) (drop off buf), rr_rlen := rdlen\<rparr>
       in rbind (unpack_rdata rr buf off) (\<lambda>v. Inr (rr\<lparr>rr_view := v\<rparr>, off + nat rdlen))))"

section \<open>Messages\<close>

record dns =
  dns_id :: int
  dns_op :: int
  dns_qd :: "dns_q list"
  dns_an :: "dns_rr list"
  dns_ns :: "dns_rr list"
  dns_ar :: "dns_rr list"

definition dns_new :: dns where
  "dns_new = \<lparr>dns_id = 0, dns_op = DNS_RD, dns_qd = [], dns_an = [], dns_ns = [], dns_ar = []\<rparr>"

definition dns_fmt :: "fmt list" where
  "dns_fmt = [fH, fH, fH, fH, fH, fH]"

text \<open>\<open>unpack_many u n buf off\<close> reads \<open>n\<close> items one after the other.\<close>

fun unpack_many :: "(bytes \<Rightarrow> nat \<Rightarrow> ('a \<times> nat) result) \<Rightarrow> nat \<Rightarrow> bytes \<Rightarrow> nat \<Rightarrow> ('a list \<times> nat) result" where
  "unpack_many u 0 buf off = Inr ([], off)"
| "unpack_many u (Suc n) buf off =
     rbind (u buf off) (\<lambda>(x, off).
     rbind (unpack_many u n buf off) (\<lambda>(xs, off). Inr (x # xs, off)))"

definition dns_unpack :: "bytes \<Rightarrow> dns result" where
  "dns_unpack buf =
     rbind (struct_unpack BE dns_fmt (take 12 buf)) (\<lambda>vs.
       let cnt = \<lambda>i. nat (ival (vs ! i)) in
       rbind (unpack_many unpack_q (cnt 2) buf 12) (\<lambda>(qd, off).
       rbind (unpack_many unpack_rr (cnt 3) buf off) (\<lambda>(an, off).
       rbind (unpack_many unpack_rr (cnt 4) buf off) (\<lambda>(ns, off).
       rbind (unpack_many unpack_rr (cnt 5) buf off) (\<lambda>(ar, off).
         Inr \<lparr>dns_id = ival (vs ! 0), dns_op = ival (vs ! 1), dns_qd = qd, dns_an = an, dns_ns = ns,
           dns_ar = ar\<rparr>)))))"

definition dns_init :: "bytes \<Rightarrow> dns result" where
  "dns_init buf = packet_init 12 dns_unpack buf"

fun pack_many :: "(bytes \<Rightarrow> 'a \<Rightarrow> label_ptrs \<Rightarrow> (bytes \<times> label_ptrs) result) \<Rightarrow> 'a list \<Rightarrow>
    bytes \<Rightarrow> label_ptrs \<Rightarrow> (bytes \<times> label_ptrs) result" where
  "pack_many p [] buf ptrs = Inr (buf, ptrs)"
| "pack_many p (x # xs) buf ptrs = rbind (p buf x ptrs) (\<lambda>(buf, ptrs). pack_many p xs buf ptrs)"

definition dns_bytes :: "dns \<Rightarrow> bytes result" where
  "dns_bytes m =
     rbind (pack_ints 2 [dns_id m, dns_op m, int (length (dns_qd m)), int (length (dns_an m)),
         int (length (dns_ns m)), int (length (dns_ar m))]) (\<lambda>h.
     rbind (pack_many pack_q (dns_qd m) h (\<lambda>_. None)) (\<lambda>(buf, ptrs).
     rbind (pack_many pack_rr (dns_an m @ dns_ns m @ dns_ar m) buf ptrs) (\<lambda>(buf, ptrs). Inr buf)))"

definition dns_len :: "dns \<Rightarrow> nat result" where
  "dns_len m = rbind (dns_bytes m) (\<lambda>b. Inr (length b))"


section \<open>What a name in a message is\<close>

text \<open>
  \<open>name_at buf start off ls e\<close>: the bytes at \<open>off\<close> spell the labels \<open>ls\<close>, the name occupies the
  message up to \<open>e\<close>, and pointers go before \<open>start\<close>. This is the specification that the loop
  implements.
\<close>

inductive name_at :: "bytes \<Rightarrow> nat \<Rightarrow> nat \<Rightarrow> bytes list \<Rightarrow> nat \<Rightarrow> bool" for buf where
  root: "off < length buf \<Longrightarrow> buf ! off = 0 \<Longrightarrow> name_at buf start off [] (Suc off)"
| ptr: "Suc off < length buf \<Longrightarrow> buf ! off AND 0xc0 = 0xc0 \<Longrightarrow>
    p = nat (be_int (take 2 (drop off buf)) AND 0x3fff) \<Longrightarrow> p < start \<Longrightarrow> name_at buf p p ls e \<Longrightarrow>
    name_at buf start off ls (off + 2)"
| label: "off < length buf \<Longrightarrow> buf ! off \<noteq> 0 \<Longrightarrow> buf ! off AND 0xc0 = 0 \<Longrightarrow>
    l = take (unat (buf ! off)) (drop (Suc off) buf) \<Longrightarrow>
    name_at buf start (Suc (off + unat (buf ! off))) ls e \<Longrightarrow> name_at buf start off (l # ls) e"

inductive_cases name_atE: "name_at buf start off ls e"

definition dotted :: "bytes list \<Rightarrow> bytes" where
  "dotted ls = concat (map (\<lambda>l. l @ [46]) ls)"

lemma dotted_simps [simp]: "dotted [] = []" "dotted (l # ls) = l @ 46 # dotted ls"
  by (simp_all add: dotted_def)

lemma join_dotted: "join [46] (ls @ [[]]) = dotted ls"
proof (induction ls)
  case (Cons l ls)
  then show ?case by (cases ls) auto
qed simp

lemma dotted_join: "ls \<noteq> [] \<Longrightarrow> dotted ls = join [46] ls @ [46]"
proof (induction ls)
  case (Cons l ls)
  then show ?case by (cases ls) auto
qed simp

lemma name_at_bounds: "name_at buf start off ls e \<Longrightarrow> off < e \<and> e \<le> length buf"
  by (induction rule: name_at.induct) auto

lemma take_drop_nth_append:
  "m + n \<le> length buf \<Longrightarrow> take n (drop m (buf @ x)) = take n (drop m buf)"
  by simp

lemma name_at_append:
  "name_at buf start off ls e \<Longrightarrow> name_at (buf @ x) start off ls e"
proof (induction rule: name_at.induct)
  case (ptr off p start ls e)
  then have "take 2 (drop off (buf @ x)) = take 2 (drop off buf)" by simp
  then show ?case using ptr by (intro name_at.ptr [of off _ p]) (auto simp: nth_append)
next
  case (label off l start ls e)
  then have "Suc (off + unat (buf ! off)) < length buf"
    using name_at_bounds [OF label(5)] by linarith
  then show ?case using label by (intro name_at.label) (auto simp: nth_append)
qed (auto intro!: name_at.root simp: nth_append)

lemma name_at_start: "name_at buf start off ls e \<Longrightarrow> start \<le> start' \<Longrightarrow> name_at buf start' off ls e"
proof (induction arbitrary: start' rule: name_at.induct)
  case (ptr off p start ls e)
  then show ?case by (intro name_at.ptr [of off _ p]) auto
qed (auto intro: name_at.intros)

definition loop_result :: "(bytes list \<times> nat \<times> nat) result \<Rightarrow> (bytes list \<times> nat) result" where
  "loop_result r = rbind r (\<lambda>(ls, saved, off). Inr (ls, if saved = 0 then off else saved))"

lemma loop_result_simps [simp]:
  "loop_result (Inl e) = Inl e"
  "loop_result (Inr (ls, saved, off)) = Inr (ls, if saved = 0 then off else saved)"
  by (simp_all add: loop_result_def)

lemma unpack_uint_2:
  "unpack_uint BE 2 (take 2 (drop off buf)) =
     (if off + 1 < length buf then Inr (be_int (take 2 (drop off buf))) else Inl StructError)"
  by (auto simp: unpack_uint_def bytes_int_def)

lemma loop_result_step:
  assumes "off < length buf"
  shows "loop_result (unpack_labels buf name saved start off nlen) =
     (let n = buf ! off in
      if n = 0 then Inr (name, if saved = 0 then off + 1 else saved)
      else if n AND 0xc0 = 0xc0 then
        (if off + 1 < length buf then
           (let p = nat (be_int (take 2 (drop off buf)) AND 0x3fff) in
            if start \<le> p then Inl UnpackError
            else loop_result (unpack_labels buf name (if saved = 0 then off + 2 else saved) p p nlen))
         else Inl StructError)
      else if n AND 0xc0 = 0 then
        (if 255 < nlen + unat n + 1 then Inl UnpackError
         else loop_result (unpack_labels buf (name @ [take (unat n) (drop (off + 1) buf)]) saved start
           (off + 1 + unat n) (nlen + unat n + 1)))
      else Inl UnpackError)"
  using assms
  by (subst unpack_labels.simps) (simp add: Let_def unpack_uint_2 del: drop_drop)

lemma unpack_labels_sound:
  "loop_result (unpack_labels buf name saved start off nlen) = Inr (r, e) \<Longrightarrow> nlen \<le> 255 \<Longrightarrow>
   \<exists>ls e'. name_at buf start off ls e' \<and> r = name @ ls \<and> nlen + length (dotted ls) \<le> 255 \<and>
     e = (if saved = 0 then e' else saved)"
proof (induction buf name saved start off nlen rule: unpack_labels.induct)
  case (1 buf name saved start off nlen)
  show ?case
  proof (cases "off < length buf")
    case False
    then show ?thesis using "1.prems" by (subst (asm) unpack_labels.simps) simp
  next
    case True
    let ?n = "buf ! off"
    consider (root) "?n = 0" | (ptr) "?n \<noteq> 0" "?n AND 0xc0 = 0xc0"
      | (label) "?n \<noteq> 0" "?n AND 0xc0 \<noteq> 0xc0" "?n AND 0xc0 = 0" | (bad) "?n \<noteq> 0" "?n AND 0xc0 \<noteq> 0xc0" "?n AND 0xc0 \<noteq> 0"
      by blast
    then show ?thesis
    proof cases
      case root
      then show ?thesis using "1.prems" True
        by (intro exI [of _ "[]"] exI [of _ "Suc off"])
          (auto simp: loop_result_step intro: name_at.root)
    next
      case ptr
      define p where "p = nat (be_int (take 2 (drop off buf)) AND 0x3fff)"
      have a: "Suc off < length buf" "p < start"
        "loop_result (unpack_labels buf name (if saved = 0 then off + 2 else saved) p p nlen) = Inr (r, e)"
        using "1.prems" True ptr by (auto simp: loop_result_step Let_def p_def split: if_splits)
      have "\<exists>ls e'. name_at buf p p ls e' \<and> r = name @ ls \<and> nlen + length (dotted ls) \<le> 255 \<and>
          e = (if (if saved = 0 then off + 2 else saved) = 0 then e'
               else (if saved = 0 then off + 2 else saved))"
        by (rule "1.IH"(1) [OF _ refl ptr _ p_def])
          (use True a "1.prems" in \<open>auto simp: unpack_uint_2\<close>)
      then obtain ls e' where "name_at buf p p ls e'" "r = name @ ls"
        "nlen + length (dotted ls) \<le> 255" "e = (if saved = 0 then off + 2 else saved)"
        by (auto split: if_splits)
      moreover have "name_at buf start off ls (off + 2)"
        by (rule name_at.ptr [OF a(1) ptr(2) p_def a(2)]) fact
      ultimately show ?thesis by blast
    next
      case label
      define l where "l = take (unat ?n) (drop (off + 1) buf)"
      have a: "nlen + unat ?n + 1 \<le> 255"
        "loop_result (unpack_labels buf (name @ [l]) saved start (off + 1 + unat ?n) (nlen + unat ?n + 1)) = Inr (r, e)"
        using "1.prems"(1) True label unfolding loop_result_step [OF True] Let_def l_def
        by (simp_all split: if_splits)
      obtain ls e' where b: "name_at buf start (off + 1 + unat ?n) ls e'" "r = (name @ [l]) @ ls"
        "nlen + unat ?n + 1 + length (dotted ls) \<le> 255" "e = (if saved = 0 then e' else saved)"
        using "1.IH"(2) [OF _ refl label(1,2,3) l_def refl _ a(2)] True a by auto
      have "length l = unat ?n"
        unfolding l_def length_take length_drop using name_at_bounds [OF b(1)] by linarith
      moreover have "name_at buf start off (l # ls) e'"
        using name_at.label [OF True label(1,3), of l start ls e'] b(1) by (simp add: l_def)
      ultimately show ?thesis using b
        by (intro exI [of _ "l # ls"] exI [of _ e']) auto
    next
      case bad
      then show ?thesis using "1.prems" True by (simp add: loop_result_step)
    qed
  qed
qed

lemma unpack_labels_complete:
  "name_at buf start off ls e \<Longrightarrow> nlen + length (dotted ls) \<le> 255 \<Longrightarrow>
   loop_result (unpack_labels buf name saved start off nlen) = Inr (name @ ls, if saved = 0 then e else saved)"
proof (induction arbitrary: name saved nlen rule: name_at.induct)
  case (root off start)
  then show ?case by (simp add: loop_result_step)
next
  case (ptr off p start ls e)
  then have "buf ! off \<noteq> 0" by auto
  then show ?case using ptr by (simp add: loop_result_step Let_def)
next
  case (label off l start ls e)
  have "length l = unat (buf ! off)"
    unfolding label(4) length_take length_drop using name_at_bounds [OF label(5)] by linarith
  then show ?case using label by (simp add: loop_result_step Let_def)
qed

lemma unpack_name_loop:
  "unpack_name buf off =
     rbind (loop_result (unpack_labels buf [] 0 off off 0)) (\<lambda>(ls, e).
       let s = join [46] ls in if utf8_ok s then Inr (s, e) else Inl UnicodeError)"
  unfolding unpack_name_def loop_result_def rbind_assoc
  by (rule rbind_cong) (auto simp: Let_def)

lemma unpack_name_iff:
  "unpack_name buf off = Inr (s, e) \<longleftrightarrow>
   (\<exists>ls. name_at buf off off ls e \<and> length (dotted ls) \<le> 255 \<and> s = join [46] ls \<and> utf8_ok s)"
proof
  assume "unpack_name buf off = Inr (s, e)"
  then obtain ls where ls: "loop_result (unpack_labels buf [] 0 off off 0) = Inr (ls, e)"
    "s = join [46] ls" "utf8_ok s"
    by (auto simp: unpack_name_loop result_simps Let_def split: if_splits)
  then show "\<exists>ls. name_at buf off off ls e \<and> length (dotted ls) \<le> 255 \<and> s = join [46] ls \<and> utf8_ok s"
    using unpack_labels_sound [OF ls(1)] by auto
next
  assume "\<exists>ls. name_at buf off off ls e \<and> length (dotted ls) \<le> 255 \<and> s = join [46] ls \<and> utf8_ok s"
  then obtain ls where ls: "name_at buf off off ls e" "length (dotted ls) \<le> 255" "s = join [46] ls" "utf8_ok s"
    by blast
  then show "unpack_name buf off = Inr (s, e)"
    using unpack_labels_complete [OF ls(1), of 0 "[]" 0] by (simp add: unpack_name_loop)
qed


section \<open>Packing names\<close>

lemma upper1_simps [simp]: "upper1 46 = 46"
  by (simp add: upper1_def)

lemma upper_simps [simp]: "upper [] = []" "upper (b # bs) = upper1 b # upper bs"
  by (simp_all add: upper_def)

lemma small_byte_high_bits: "b AND 0xc0 = (0 :: byte)" if "b < 64"
proof -
  have "uint b < 64" using that by (simp add: word_less_def)
  then have "take_bit 6 (uint b) = uint b" by (simp add: take_bit_int_eq_self_iff)
  then have "take_bit 6 b = b" by (simp add: word_uint_eq_iff unsigned_take_bit_eq)
  then have "b AND 0xc0 = b AND (mask 6 AND 0xc0)"
    by (metis take_bit_eq_mask and.assoc)
  then show ?thesis by (simp add: mask_eq_decr_exp)
qed

lemma byte_of_length:
  "n < 256 \<Longrightarrow> unat (word_of_int (int n) :: byte) = n"
  by (simp add: unat_of_nat)

text \<open>A pointer of 14 bits is read back.\<close>

lemma pointer_bytes:
  assumes "p < 0x4000"
  shows "pack_uint BE 2 (0xc000 OR int p) = Inr (be_bytes 2 (0xc000 OR int p))"
    "be_int (be_bytes 2 (0xc000 OR int p)) AND 0x3fff = int p"
    "be_bytes 2 (0xc000 OR int p) ! 0 AND 0xc0 = 0xc0"
proof -
  have t: "take_bit 14 (int p) = int p" using assms by (simp add: take_bit_int_eq_self_iff)
  have m: "(0x3fff :: int) = mask 14" by (simp add: mask_eq_exp_minus_1)
  have a: "(0xc000 OR int p) AND 0x3fff = int p"
    unfolding bit.conj_disj_distrib2 using t m by (simp add: take_bit_eq_mask)
  have "take_bit 16 (0xc000 OR int p) = 0xc000 OR int p"
  proof -
    have "take_bit 16 (int p) = int p" using assms by (simp add: take_bit_int_eq_self_iff)
    moreover have "take_bit 16 (0xc000 :: int) = 0xc000" by (simp add: take_bit_int_eq_self_iff)
    ultimately show ?thesis by simp
  qed
  then have r: "(0xc000 OR int p) mod 0x10000 = 0xc000 OR int p"
    by (simp add: take_bit_eq_mod)
  moreover have "0 \<le> (0xc000 OR int p)" by simp
  ultimately have l: "0xc000 OR int p < 0x10000" by (metis pos_mod_bound zero_less_numeral)
  then show "pack_uint BE 2 (0xc000 OR int p) = Inr (be_bytes 2 (0xc000 OR int p))"
    by (simp add: pack_uint_eq int_bytes_def)
  show "be_int (be_bytes 2 (0xc000 OR int p)) AND 0x3fff = int p"
    using a r by (simp add: be_int_be_bytes)
  have d: "(0xc000 OR int p) div 256 = 0xc0 OR drop_bit 8 (int p)"
  proof -
    have "drop_bit 8 (0xc000 OR int p) = drop_bit 8 0xc000 OR drop_bit 8 (int p)"
      by (rule drop_bit_or)
    then show ?thesis by (simp add: drop_bit_eq_div)
  qed
  have "be_bytes 2 (0xc000 OR int p) ! 0 = word_of_int (0xc0 OR drop_bit 8 (int p))"
    by (simp add: be_bytes_def d)
  also have "\<dots> = 0xc0 OR word_of_int (drop_bit 8 (int p))"
    by (simp add: of_int_or_eq)
  finally show "be_bytes 2 (0xc000 OR int p) ! 0 AND 0xc0 = 0xc0"
    by (simp add: word_ao_absorbs)
qed

text \<open>
  \<open>entry_ok\<close>: an entry of \<^verbatim>\<open>label_ptrs\<close> points to a name whose labels are its key, up to letter
  case.
\<close>

definition entry_ok :: "bytes \<Rightarrow> bytes \<Rightarrow> nat \<Rightarrow> bool" where
  "entry_ok buf key p \<longleftrightarrow> p < length buf \<and> (\<exists>ls e. name_at buf p p ls e \<and> upper (dotted ls) = key)"

definition ptrs_ok :: "bytes \<Rightarrow> label_ptrs \<Rightarrow> bool" where
  "ptrs_ok buf ptrs \<longleftrightarrow> (\<forall>key p. ptrs key = Some p \<longrightarrow> key \<noteq> [] \<and> entry_ok buf key p)"

lemma ptrs_ok_empty [simp]: "ptrs_ok buf (\<lambda>_. None)"
  by (simp add: ptrs_ok_def)

lemma entry_ok_append: "entry_ok buf key p \<Longrightarrow> entry_ok (buf @ x) key p"
  unfolding entry_ok_def using name_at_append by fastforce

lemma ptrs_ok_append: "ptrs_ok buf ptrs \<Longrightarrow> ptrs_ok (buf @ x) ptrs"
  by (auto simp: ptrs_ok_def entry_ok_append)

definition label_ok :: "bytes \<Rightarrow> bool" where
  "label_ok l \<longleftrightarrow> l \<noteq> [] \<and> length l < 64 \<and> 46 \<notin> set l"

lemma name_at_label:
  assumes "label_ok l" "name_at (pre @ word_of_int (int (length l)) # l @ post) start
    (length pre + 1 + length l) ls e"
  shows "name_at (pre @ word_of_int (int (length l)) # l @ post) start (length pre) (l # ls) e"
proof -
  let ?b = "word_of_int (int (length l)) :: byte"
  have u: "unat ?b = length l" using assms(1) by (intro byte_of_length) (simp add: label_ok_def)
  then have "?b < 64" "?b \<noteq> 0"
    using assms(1) by (auto simp: label_ok_def word_less_nat_alt)
  then show ?thesis
    using assms(2) u small_byte_high_bits [of ?b]
    by (intro name_at.label) (auto simp: nth_append)
qed

lemma name_at_ptr:
  assumes "p < 0x4000" "p < start" "name_at (pre @ be_bytes 2 (0xc000 OR int p) @ post) p p ls e"
  shows "name_at (pre @ be_bytes 2 (0xc000 OR int p) @ post) start (length pre) ls (length pre + 2)"
proof (rule name_at.ptr [where p = p])
  let ?b = "be_bytes 2 (0xc000 OR int p)"
  have l: "length ?b = 2" by simp
  show "Suc (length pre) < length (pre @ ?b @ post)" using l by simp
  show "(pre @ ?b @ post) ! length pre AND 0xc0 = 0xc0"
    using pointer_bytes(3) [OF assms(1)] l by (simp add: nth_append)
  show "p = nat (be_int (take 2 (drop (length pre) (pre @ ?b @ post))) AND 0x3fff)"
    using pointer_bytes(2) [OF assms(1)] l by simp
qed (use assms in auto)

text \<open>
  The loop of \<^verbatim>\<open>pack_name\<close>: what it writes is the name at its place, and the entries it adds are
  right. Entries with longer keys, added by this very loop, are not used.
\<close>

lemma pack_labels_name:
  assumes "list_all label_ok ls" "length pre = off + length buf" "off \<le> 0x4000"
    "off + length buf + length (dotted ls) < 0xc000"
    "\<forall>key p. ptrs key = Some p \<longrightarrow> length key \<le> length (dotted ls) \<longrightarrow>
       p < off \<and> key \<noteq> [] \<and> entry_ok pre key p"
  shows "\<exists>t ptrs' ls'. pack_labels off (ls @ [[]]) buf ptrs = Inr (buf @ t, ptrs') \<and>
    name_at (pre @ t) off (length pre) ls' (length pre + length t) \<and> upper (dotted ls') = upper (dotted ls) \<and>
    length t \<le> length (dotted ls) + 1 \<and>
    (\<forall>key p. ptrs' key = Some p \<longrightarrow>
       ptrs key = Some p \<or> key \<noteq> [] \<and> off \<le> p \<and> entry_ok (pre @ t) key p)"
  using assms
proof (induction ls arbitrary: pre buf ptrs)
  case Nil
  have "ptrs [] = None"
    using Nil.prems(5) by (cases "ptrs []") auto
  then have "pack_labels off ([] @ [[]]) buf ptrs = Inr (buf @ [0], ptrs)"
    by (simp add: pack_uint_eq int_bytes_def be_bytes_def Let_def)
  moreover have "name_at (pre @ [0]) off (length pre) [] (length pre + 1)"
    using name_at.root [of "length pre" "pre @ [0]" off] by simp
  ultimately show ?case
    by (intro exI [of _ "[0]"] exI [of _ ptrs] exI [of _ "[]"]) auto
next
  case (Cons l ls)
  let ?key = "upper (dotted (l # ls))"
  have key: "upper (join [46] ((l # ls) @ [[]])) = ?key"
    by (simp only: join_dotted)
  have lok: "label_ok l" and lsok: "list_all label_ok ls" using Cons.prems(1) by auto
  show ?case
  proof (cases "ptrs ?key")
    case (Some p)
    then have p: "p < off" "entry_ok pre ?key p"
      using Cons.prems(5) by (auto simp: upper_append)
    let ?t = "be_bytes 2 (0xc000 OR int p)"
    have p14: "p < 0x4000" using p(1) Cons.prems(3) by simp
    obtain ls' e where ls': "name_at pre p p ls' e" "upper (dotted ls') = ?key"
      using p(2) by (auto simp: entry_ok_def)
    have "pack_labels off ((l # ls) @ [[]]) buf ptrs = Inr (buf @ ?t, ptrs)"
      using Some key pointer_bytes(1) [OF p14] by (simp add: Let_def)
    moreover have "name_at (pre @ ?t) off (length pre) ls' (length pre + length ?t)"
      using name_at_ptr [OF p14 p(1), of pre "[]"] name_at_append [OF ls'(1), of ?t] by simp
    ultimately show ?thesis
      using ls'(2) lok by (intro exI [of _ ?t] exI [of _ ptrs] exI [of _ ls'])
        (auto simp: label_ok_def Suc_le_eq)
  next
    case None
    let ?n = "[word_of_int (int (length l))] :: bytes"
    let ?ptrs = "ptrs(?key \<mapsto> off + length buf)"
    have n: "pack_uint BE 1 (int (length l)) = Inr ?n"
      using lok by (simp add: pack_uint_eq int_bytes_def be_bytes_def label_ok_def)
    have step: "pack_labels off ((l # ls) @ [[]]) buf ptrs =
        pack_labels off (ls @ [[]]) (buf @ ?n @ l) ?ptrs"
      using None key n lok Cons.prems(4) by (simp add: Let_def label_ok_def upper_append)
    have "\<exists>t ptrs' ls'. pack_labels off (ls @ [[]]) (buf @ ?n @ l) ?ptrs = Inr ((buf @ ?n @ l) @ t, ptrs') \<and>
      name_at ((pre @ ?n @ l) @ t) off (length (pre @ ?n @ l)) ls' (length (pre @ ?n @ l) + length t) \<and>
      upper (dotted ls') = upper (dotted ls) \<and> length t \<le> length (dotted ls) + 1 \<and>
      (\<forall>key p. ptrs' key = Some p \<longrightarrow>
         ?ptrs key = Some p \<or> key \<noteq> [] \<and> off \<le> p \<and> entry_ok ((pre @ ?n @ l) @ t) key p)"
    proof (rule Cons.IH [OF lsok])
      show "\<forall>key p. ?ptrs key = Some p \<longrightarrow> length key \<le> length (dotted ls) \<longrightarrow>
          p < off \<and> key \<noteq> [] \<and> entry_ok (pre @ ?n @ l) key p"
        using Cons.prems(5) entry_ok_append [of pre _ _ "?n @ l"]
        by (auto simp: upper_append)
    qed (use Cons.prems in auto)
    then obtain t ptrs' ls' where t: "pack_labels off (ls @ [[]]) (buf @ ?n @ l) ?ptrs = Inr ((buf @ ?n @ l) @ t, ptrs')"
      "name_at ((pre @ ?n @ l) @ t) off (length (pre @ ?n @ l)) ls' (length (pre @ ?n @ l) + length t)"
      "upper (dotted ls') = upper (dotted ls)" "length t \<le> length (dotted ls) + 1"
      "\<forall>key p. ptrs' key = Some p \<longrightarrow>
         ?ptrs key = Some p \<or> key \<noteq> [] \<and> off \<le> p \<and> entry_ok ((pre @ ?n @ l) @ t) key p"
      by blast
    let ?t = "?n @ l @ t"
    have nm: "name_at (pre @ ?t) off (length pre) (l # ls') (length pre + length ?t)"
      using name_at_label [OF lok, of pre t off ls' "length pre + length ?t"] t(2)
      by (simp add: add.assoc)
    have up: "upper (dotted (l # ls')) = ?key" using t(3) by (simp add: upper_append)
    have "entry_ok (pre @ ?t) ?key (off + length buf)"
      using name_at_start [OF nm, of "length pre"] up Cons.prems(2)
      unfolding entry_ok_def by (metis (no_types, lifting) le_add1 length_append name_at_bounds[OF nm] order_less_le_trans)
    moreover have "?key \<noteq> []" by (simp add: upper_append)
    moreover have "ptrs' key = Some p \<Longrightarrow> ptrs key = Some p \<or> key = ?key \<and> p = off + length buf \<or>
        key \<noteq> [] \<and> off \<le> p \<and> entry_ok (pre @ ?t) key p" for key p
      using t(5) [rule_format, of key p] by (cases "key = ?key") auto
    ultimately have "\<forall>key p. ptrs' key = Some p \<longrightarrow>
        ptrs key = Some p \<or> key \<noteq> [] \<and> off \<le> p \<and> entry_ok (pre @ ?t) key p"
      by (metis le_add1)
    then show ?thesis
      using step t(1,4) nm up by (intro exI [of _ ?t] exI [of _ ptrs'] exI [of _ "l # ls'"]) simp
  qed
qed


lemma upper1_high: "\<not> b < 0x80 \<Longrightarrow> upper1 b = b"
  by (auto simp: upper1_def not_less dest: order_trans)

lemma upper1_low: "b < 0x80 \<Longrightarrow> upper1 b < 0x80"
  by (auto simp: upper1_def word_less_def uint_sub_if' word_le_def)

lemma utf8_cont_upper [simp]: "utf8_cont (upper1 b) = utf8_cont b"
  using upper1_low [of b] by (cases "b < 0x80") (auto simp: upper1_high utf8_cont_def not_less)

lemma utf8_cont_fix: "utf8_cont b \<Longrightarrow> upper1 b = b"
  by (rule upper1_high) (simp add: utf8_cont_def not_less)

lemma utf8_upper_cons:
  assumes a: "\<not> a < 0x80" and IH: "\<And>cs. length cs < length bs \<Longrightarrow> utf8_ok (upper cs) = utf8_ok cs"
  shows "utf8_ok (a # upper bs) = utf8_ok (a # bs)"
proof (cases bs)
  case (Cons b r)
  show ?thesis
  proof (cases "utf8_cont b")
    case False
    then show ?thesis using a Cons by (simp split: list.split)
  next
    case b: True
    show ?thesis
    proof (cases r)
      case Nil
      then show ?thesis using a b Cons by (simp add: utf8_cont_fix)
    next
      case c: (Cons c r2)
      show ?thesis
      proof (cases "utf8_cont c")
        case False
        then show ?thesis using a b c Cons IH [of r] by (simp add: utf8_cont_fix split: list.split)
      next
        case True
        then show ?thesis using a b c Cons IH [of r] IH [of r2] IH [of "tl r2"]
          by (cases r2) (simp_all add: utf8_cont_fix)
      qed
    qed
  qed
qed simp

lemma utf8_upper: "utf8_ok (upper s) = utf8_ok s"
proof (induction s rule: length_induct)
  case (1 s)
  show ?case
  proof (cases s)
    case (Cons a bs)
    show ?thesis
    proof (cases "a < 0x80")
      case True
      then show ?thesis using 1 Cons upper1_low by simp
    next
      case False
      have "utf8_ok (a # upper bs) = utf8_ok (a # bs)"
        by (rule utf8_upper_cons [OF False]) (use 1 Cons in simp)
      then show ?thesis using Cons upper1_high [OF False] by simp
    qed
  qed simp
qed

definition name_ok :: "bytes \<Rightarrow> bool" where
  "name_ok s \<longleftrightarrow> utf8_ok s \<and> length s \<le> 254 \<and>
     (s = [] \<or> list_all (\<lambda>l. l \<noteq> [] \<and> length l < 64) (split_byte 46 s))"

lemma pack_name_roundtrip:
  assumes "name_ok s" "ptrs_ok pre ptrs" "length pre \<le> 0x4000"
  shows "\<exists>t ptrs' s'. pack_name (PyStr s) (length pre) ptrs = Inr (t, ptrs') \<and> ptrs_ok (pre @ t) ptrs' \<and>
    upper s' = upper s \<and> (\<forall>rest. unpack_name (pre @ t @ rest) (length pre) = Inr (s', length pre + length t))"
proof -
  define ls where "ls = (if s = [] then [] else split_byte 46 s)"
  have ls: "list_all label_ok ls" "dotted ls = (if s = [] then [] else s @ [46])"
    using assms(1) split_byte_no_sep [of 46 s]
    by (auto simp: ls_def name_ok_def label_ok_def list_all_iff dotted_join join_split)
  have "\<forall>key p. ptrs key = Some p \<longrightarrow> length key \<le> length (dotted ls) \<longrightarrow>
      p < length pre \<and> key \<noteq> [] \<and> entry_ok pre key p"
    using assms(2) by (auto simp: ptrs_ok_def entry_ok_def)
  moreover have "length pre + length [] + length (dotted ls) < 0xc000"
    using ls(2) assms by (simp add: name_ok_def)
  ultimately obtain t ptrs' ls' where t: "pack_labels (length pre) (ls @ [[]]) [] ptrs = Inr ([] @ t, ptrs')"
    "name_at (pre @ t) (length pre) (length pre) ls' (length pre + length t)"
    "upper (dotted ls') = upper (dotted ls)"
    "\<forall>key p. ptrs' key = Some p \<longrightarrow>
       ptrs key = Some p \<or> key \<noteq> [] \<and> length pre \<le> p \<and> entry_ok (pre @ t) key p"
    using pack_labels_name [OF ls(1), of pre "length pre" "[]" ptrs] assms(3) by auto
  define s' where "s' = join [46] ls'"
  have len: "length (dotted ls') \<le> 255"
    using arg_cong [OF t(3), of length] ls(2) assms(1) by (auto simp: name_ok_def split: if_splits)
  have up: "upper s' = upper s"
  proof (cases "s = []")
    case True
    then have "dotted ls' = []" using t(3) ls(2) by (simp add: upper_def)
    then show ?thesis using True by (cases ls') (auto simp: s'_def)
  next
    case False
    then have "ls' \<noteq> []" using t(3) ls(2) by (auto simp: upper_append)
    then show ?thesis using t(3) ls(2) False by (simp add: dotted_join s'_def upper_append)
  qed
  then have "utf8_ok s'" using utf8_upper [of s'] utf8_upper [of s] assms(1) by (simp add: name_ok_def)
  then have "unpack_name (pre @ t @ rest) (length pre) = Inr (s', length pre + length t)" for rest
    using name_at_append [OF t(2), of rest] len unfolding unpack_name_iff
    by (intro exI [of _ ls']) (simp add: s'_def)
  moreover have "ptrs_ok (pre @ t) ptrs'"
    using t(4) assms(2) unfolding ptrs_ok_def by (metis entry_ok_append)
  moreover have "pack_name (PyStr s) (length pre) ptrs = Inr (t, ptrs')"
    using t(1) by (simp add: name_labels_def ls_def)
  ultimately show ?thesis using up by blast
qed


section \<open>Integers of a record\<close>

lemma struct_pack_uints_exact:
  "struct_pack BE (replicate (length is) (UI n)) (map VInt is) = Inr b \<Longrightarrow>
   exact_all (replicate (length is) (UI n)) (map VInt is)"
  by (induction "is" arbitrary: b) (auto simp: result_simps split: if_splits)

lemma pack_ints_unpack:
  assumes "pack_ints n is = Inr b"
  shows "unpack_uints (length is) n b = Inr is" "length b = n * length is"
proof -
  note p = assms [unfolded pack_ints_def]
  have "struct_unpack BE (replicate (length is) (UI n)) b = Inr (map VInt is)"
    by (rule struct_unpack_pack [OF struct_pack_uints_exact [OF p] _ p]) (simp add: list_all_iff fmt_ok_def)
  then show "unpack_uints (length is) n b = Inr is"
    by (simp add: unpack_uints_def comp_def)
  show "length b = n * length is"
    using struct_pack_length [OF p] by (simp add: calcsize_def sum_list_replicate)
qed

lemma rr_header_unpack:
  assumes "struct_pack BE [fH, fH, fI, fH] [VInt a, VInt b, VInt c, VInt d] = Inr h"
  shows "struct_unpack BE [fH, fH, fI, fH] h = Inr [VInt a, VInt b, VInt c, VInt d]" "length h = 10"
    "0 \<le> d"
proof -
  have e: "exact_all [fH, fH, fI, fH] [VInt a, VInt b, VInt c, VInt d]"
    using assms by (auto simp: result_simps split: if_splits)
  then show "0 \<le> d" by simp
  show "struct_unpack BE [fH, fH, fI, fH] h = Inr [VInt a, VInt b, VInt c, VInt d]"
    by (rule struct_unpack_pack [OF e _ assms]) (simp add: fmt_ok_def)
  show "length h = 10" using struct_pack_length [OF assms] by simp
qed

section \<open>Items of a message\<close>

text \<open>
  The contract of an item: what packing appends to the message is unpacked to the same item at the
  same place, whatever follows, and the pointers stay right.
\<close>

locale dns_item =
  fixes pack :: "bytes \<Rightarrow> 'a \<Rightarrow> label_ptrs \<Rightarrow> (bytes \<times> label_ptrs) result"
    and unpack :: "bytes \<Rightarrow> nat \<Rightarrow> ('a \<times> nat) result"
    and ok :: "'a \<Rightarrow> bool"
    and same :: "'a \<Rightarrow> 'a \<Rightarrow> bool"
  assumes extends: "pack buf x ptrs = Inr (buf', ptrs') \<Longrightarrow> \<exists>t. buf' = buf @ t"
    and item: "ok x \<Longrightarrow> ptrs_ok buf ptrs \<Longrightarrow> pack buf x ptrs = Inr (buf', ptrs') \<Longrightarrow>
      length buf' \<le> 0x4000 \<Longrightarrow>
      ptrs_ok buf' ptrs' \<and> (\<exists>x'. same x x' \<and> (\<forall>rest. unpack (buf' @ rest) (length buf) = Inr (x', length buf')))"
begin

lemma many_extends: "pack_many pack xs buf ptrs = Inr (buf', ptrs') \<Longrightarrow> \<exists>t. buf' = buf @ t"
proof (induction xs arbitrary: buf ptrs)
  case (Cons x xs)
  then obtain b1 p1 where "pack buf x ptrs = Inr (b1, p1)" "pack_many pack xs b1 p1 = Inr (buf', ptrs')"
    by (auto simp: result_simps)
  then show ?case using extends Cons.IH by fastforce
qed auto

lemma many_items:
  assumes "list_all ok xs" "ptrs_ok buf ptrs" "pack_many pack xs buf ptrs = Inr (buf', ptrs')"
    "length buf' \<le> 0x4000"
  shows "ptrs_ok buf' ptrs' \<and> (\<exists>xs'. list_all2 same xs xs' \<and>
    (\<forall>rest. unpack_many unpack (length xs) (buf' @ rest) (length buf) = Inr (xs', length buf')))"
  using assms
proof (induction xs arbitrary: buf ptrs)
  case (Cons x xs)
  then obtain b1 p1 where p: "pack buf x ptrs = Inr (b1, p1)" "pack_many pack xs b1 p1 = Inr (buf', ptrs')"
    by (auto simp: result_simps)
  obtain t where t: "buf' = b1 @ t" using many_extends [OF p(2)] by blast
  then have "length b1 \<le> 0x4000" using Cons.prems(4) by simp
  then obtain x' where x': "ptrs_ok b1 p1" "same x x'"
    "unpack (b1 @ rest) (length buf) = Inr (x', length b1)" for rest
    using item [OF _ Cons.prems(2) p(1)] Cons.prems(1) by auto
  obtain xs' where xs': "ptrs_ok buf' ptrs'" "list_all2 same xs xs'"
    "unpack_many unpack (length xs) (buf' @ rest) (length b1) = Inr (xs', length buf')" for rest
    using Cons.IH [OF _ x'(1) p(2)] Cons.prems by auto
  have "unpack_many unpack (length (x # xs)) (buf' @ rest) (length buf) = Inr (x' # xs', length buf')" for rest
    using x'(3) [of "t @ rest"] xs'(3) [of rest] t by simp
  then show ?case using xs' x'(2) by (intro conjI exI [of _ "x' # xs'"]) auto
qed auto

end

text \<open>Equality up to letter case and up to what unpacking changes of the attributes.\<close>

fun same_name :: "pytext \<Rightarrow> pytext \<Rightarrow> bool" where
  "same_name (PyStr a) (PyStr b) = (upper a = upper b)"
| "same_name _ _ = False"

fun text_ok :: "pytext \<Rightarrow> bool" where
  "text_ok (PyStr s) = name_ok s"
| "text_ok (PyBytes b) = False"

definition q_ok :: "dns_q \<Rightarrow> bool" where
  "q_ok q \<longleftrightarrow> text_ok (q_name q)"

definition same_q :: "dns_q \<Rightarrow> dns_q \<Rightarrow> bool" where
  "same_q q q' \<longleftrightarrow> same_name (q_name q) (q_name q') \<and> q_type q' = q_type q \<and> q_cls q' = q_cls q"

lemma text_roundtrip:
  assumes "text_ok n" "ptrs_ok pre ptrs" "pack_name n (length pre) ptrs = Inr (t, ptrs')" "length pre \<le> 0x4000"
  shows "ptrs_ok (pre @ t) ptrs' \<and> (\<exists>s. same_name n (PyStr s) \<and>
    (\<forall>rest. unpack_name (pre @ t @ rest) (length pre) = Inr (s, length pre + length t)))"
proof (cases n)
  case (PyStr s)
  then obtain s' where "ptrs_ok (pre @ t) ptrs'" "upper s' = upper s"
    "unpack_name (pre @ t @ rest) (length pre) = Inr (s', length pre + length t)" for rest
    using pack_name_roundtrip [OF _ assms(2,4), of s] assms by auto
  then show ?thesis using PyStr by (intro conjI exI [of _ s']) auto
qed (use assms in simp)

interpretation question: dns_item pack_q unpack_q q_ok same_q
proof
  fix buf q ptrs buf' ptrs'
  assume "pack_q buf q ptrs = Inr (buf', ptrs')"
  then show "\<exists>t. buf' = buf @ t" by (auto simp: pack_q_def result_simps)
next
  fix q buf ptrs buf' ptrs'
  assume q: "q_ok q" and ptrs: "ptrs_ok buf ptrs" and len: "length buf' \<le> 0x4000"
    and p: "pack_q buf q ptrs = Inr (buf', ptrs')"
  obtain n t where n: "pack_name (q_name q) (length buf) ptrs = Inr (n, ptrs')"
    "pack_ints 2 [q_type q, q_cls q] = Inr t" "buf' = buf @ n @ t"
    using p by (auto simp: pack_q_def result_simps)
  obtain s where s: "ptrs_ok (buf @ n) ptrs'" "same_name (q_name q) (PyStr s)"
    "unpack_name (buf @ n @ rest) (length buf) = Inr (s, length buf + length n)" for rest
    using text_roundtrip [OF _ ptrs n(1)] q n(3) len by (auto simp: q_ok_def)
  have t: "unpack_uints 2 2 t = Inr [q_type q, q_cls q]" "length t = 4"
    using pack_ints_unpack [OF n(2)] by (simp_all flip: numeral_2_eq_2)
  have "unpack_q (buf' @ rest) (length buf) =
      Inr (q_new\<lparr>q_name := PyStr s, q_type := q_type q, q_cls := q_cls q\<rparr>, length buf')" for rest
    using s(3) [of "t @ rest"] t n(3) by (simp add: unpack_q_def)
  then show "ptrs_ok buf' ptrs' \<and> (\<exists>q'. same_q q q' \<and>
      (\<forall>rest. unpack_q (buf' @ rest) (length buf) = Inr (q', length buf')))"
    using ptrs_ok_append [OF s(1), of t] s(2) n(3)
    by (intro conjI exI [of _ "q_new\<lparr>q_name := PyStr s, q_type := q_type q, q_cls := q_cls q\<rparr>"])
      (auto simp: same_q_def)
qed


section \<open>Resource records\<close>

text \<open>
  A record as a program builds it: no raw data, the attributes of its type, proper names. Text
  strings must be bytes to be packed.
\<close>

fun is_int :: "pval \<Rightarrow> bool" where
  "is_int (VInt i) = True"
| "is_int _ = False"

fun plain_text :: "pytext \<Rightarrow> bool" where
  "plain_text (PyBytes b) = utf8_ok b"
| "plain_text (PyStr s) = False"

fun view_ok :: "int \<Rightarrow> rr_view \<Rightarrow> bool" where
  "view_ok t (RD_ip b) = (t = DNS_A)"
| "view_ok t (RD_ns s) = (t = DNS_NS \<and> text_ok s)"
| "view_ok t (RD_cname s) = (t = DNS_CNAME \<and> text_ok s)"
| "view_ok t (RD_ptr s) = (t = DNS_PTR \<and> text_ok s)"
| "view_ok t (RD_soa m r se rf rt ex mi) = (t = DNS_SOA \<and> text_ok m \<and> text_ok r)"
| "view_ok t (RD_mx p s) = (t = DNS_MX \<and> is_int p \<and> text_ok s)"
| "view_ok t (RD_text ts) =
     ((t = DNS_TXT \<or> t = DNS_HINFO) \<and> list_all plain_text ts)"
| "view_ok t (RD_ip6 b) = (t = DNS_AAAA)"
| "view_ok t (RD_srv p w po s) = (t = DNS_SRV \<and> text_ok s)"
| "view_ok t RD_none = (t = DNS_OPT)"
| "view_ok t (RD_null b) = False"

definition rr_ok :: "dns_rr \<Rightarrow> bool" where
  "rr_ok rr \<longleftrightarrow> text_ok (rr_name rr) \<and> rr_rdata rr = [] \<and> view_ok (rr_type rr) (rr_view rr)"

fun text_bytes :: "pytext \<Rightarrow> bytes" where
  "text_bytes (PyStr s) = s"
| "text_bytes (PyBytes b) = b"

text \<open>Unpacking makes a tuple of the preference of an MX record and texts of the strings of a TXT record.\<close>

definition same_view :: "rr_view \<Rightarrow> rr_view \<Rightarrow> bool" where
  "same_view v v' =
     (case v of
        RD_ns s \<Rightarrow> (case v' of RD_ns s' \<Rightarrow> same_name s s' | _ \<Rightarrow> False)
      | RD_cname s \<Rightarrow> (case v' of RD_cname s' \<Rightarrow> same_name s s' | _ \<Rightarrow> False)
      | RD_ptr s \<Rightarrow> (case v' of RD_ptr s' \<Rightarrow> same_name s s' | _ \<Rightarrow> False)
      | RD_soa m r a b c d e \<Rightarrow>
          (case v' of RD_soa m' r' a' b' c' d' e' \<Rightarrow>
             same_name m m' \<and> same_name r r' \<and> [a, b, c, d, e] = [a', b', c', d', e'] | _ \<Rightarrow> False)
      | RD_mx p s \<Rightarrow> (case v' of RD_mx p' s' \<Rightarrow> p' = VTuple [p] \<and> same_name s s' | _ \<Rightarrow> False)
      | RD_text ts \<Rightarrow> (case v' of RD_text ts' \<Rightarrow> map text_bytes ts = map text_bytes ts' | _ \<Rightarrow> False)
      | RD_srv a b c s \<Rightarrow>
          (case v' of RD_srv a' b' c' s' \<Rightarrow> [a, b, c] = [a', b', c'] \<and> same_name s s' | _ \<Rightarrow> False)
      | _ \<Rightarrow> v = v')"

definition same_rr :: "dns_rr \<Rightarrow> dns_rr \<Rightarrow> bool" where
  "same_rr rr rr' \<longleftrightarrow> same_name (rr_name rr) (rr_name rr') \<and> rr_type rr' = rr_type rr \<and>
     rr_cls rr' = rr_cls rr \<and> rr_ttl rr' = rr_ttl rr \<and> same_view (rr_view rr) (rr_view rr')"

lemma pack_texts_unpack:
  "pack_texts ts = Inr d \<Longrightarrow> list_all plain_text ts \<Longrightarrow>
   \<exists>ts'. unpack_texts d = Inr ts' \<and> map text_bytes ts = map text_bytes ts'"
proof (induction ts arbitrary: d)
  case (Cons t ts)
  then obtain b r where b: "t = PyBytes b" "utf8_ok b" "pack_texts ts = Inr r"
    "length b < 256" "d = word_of_int (int (length b)) # b @ r"
    by (cases t) (auto simp: result_simps pack_uint_eq int_bytes_def be_bytes_def split: if_splits)
  then obtain ts' where "unpack_texts r = Inr ts'" "map text_bytes ts = map text_bytes ts'"
    using Cons by auto
  then show ?case using b byte_of_length [OF b(4)]
    by (intro exI [of _ "PyStr b # ts'"]) (simp add: Let_def)
qed auto

text \<open>The data of a record, written at its place and read from there.\<close>

lemma rdata_roundtrip:
  assumes ok: "view_ok (rr_type rr) (rr_view rr)" "rr_rdata rr = []" and ptrs: "ptrs_ok pre ptrs"
    and len: "length (pre @ d) \<le> 0x4000" and p: "pack_rdata rr (length pre) ptrs = Inr (d, ptrs')"
  shows "ptrs_ok (pre @ d) ptrs' \<and> (\<exists>v. same_view (rr_view rr) v \<and>
    (\<forall>rest rr'. rr_type rr' = rr_type rr \<longrightarrow> rr_rdata rr' = d \<longrightarrow>
       unpack_rdata rr' (pre @ d @ rest) (length pre) = Inr v))"
proof -
  note simps = pack_rdata_def unpack_rdata_def same_view_def dns_types Let_def
  have name: "ptrs_ok (pre @ t) ps' \<and> (\<exists>s. same_name n (PyStr s) \<and>
      (\<forall>rest. unpack_name (pre @ t @ rest) (length pre) = Inr (s, length pre + length t)))"
    if "text_ok n" "pack_name n (length pre) ptrs = Inr (t, ps')" for n t ps'
    using text_roundtrip [OF that(1) ptrs that(2)] len by simp
  have after: "ptrs_ok (pre @ a @ t) ps' \<and> (\<exists>s. same_name n (PyStr s) \<and>
      (\<forall>rest. unpack_name (pre @ a @ t @ rest) (length pre + length a) =
         Inr (s, length pre + length a + length t)))"
    if "text_ok n" "ptrs_ok (pre @ a) ps" "pack_name n (length pre + length a) ps = Inr (t, ps')"
      "length a \<le> length d" for n a ps t ps'
    using text_roundtrip [OF that(1,2), of t ps'] that(3,4) len by simp
  show ?thesis
  proof (cases "rr_view rr")
    case (RD_ip b)
    then show ?thesis using ok p ptrs_ok_append [OF ptrs]
      by (intro conjI exI [of _ "RD_ip d"]) (auto simp: simps)
  next
    case (RD_ns n)
    then obtain s where "ptrs_ok (pre @ d) ptrs'" "same_name n (PyStr s)"
      "unpack_name (pre @ d @ rest) (length pre) = Inr (s, length pre + length d)" for rest
      using ok p name [of n d ptrs'] by (auto simp: simps)
    then show ?thesis using RD_ns ok by (intro conjI exI [of _ "RD_ns (PyStr s)"]) (auto simp: simps)
  next
    case (RD_cname n)
    then obtain s where "ptrs_ok (pre @ d) ptrs'" "same_name n (PyStr s)"
      "unpack_name (pre @ d @ rest) (length pre) = Inr (s, length pre + length d)" for rest
      using ok p name [of n d ptrs'] by (auto simp: simps)
    then show ?thesis using RD_cname ok by (intro conjI exI [of _ "RD_cname (PyStr s)"]) (auto simp: simps)
  next
    case (RD_ptr n)
    then obtain s where "ptrs_ok (pre @ d) ptrs'" "same_name n (PyStr s)"
      "unpack_name (pre @ d @ rest) (length pre) = Inr (s, length pre + length d)" for rest
      using ok p name [of n d ptrs'] by (auto simp: simps)
    then show ?thesis using RD_ptr ok by (intro conjI exI [of _ "RD_ptr (PyStr s)"]) (auto simp: simps)
  next
    case (RD_soa m r se rf rt ex mi)
    obtain a p1 b c where s: "pack_name m (length pre) ptrs = Inr (a, p1)"
      "pack_name r (length pre + length a) p1 = Inr (b, ptrs')"
      "pack_ints 4 [se, rf, rt, ex, mi] = Inr c" "d = a @ b @ c"
      using RD_soa ok p by (auto simp: simps result_simps)
    obtain m' where m': "ptrs_ok (pre @ a) p1" "same_name m (PyStr m')"
      "unpack_name (pre @ a @ rest) (length pre) = Inr (m', length pre + length a)" for rest
      using name [of m a p1] s RD_soa ok by auto
    obtain r' where r': "ptrs_ok (pre @ a @ b) ptrs'" "same_name r (PyStr r')"
      "unpack_name (pre @ a @ b @ rest) (length pre + length a) =
         Inr (r', length pre + length a + length b)" for rest
      using after [of r a p1 b ptrs'] s m'(1) RD_soa ok by auto
    have c: "unpack_uints 5 4 c = Inr [se, rf, rt, ex, mi]" "length c = 20"
      using pack_ints_unpack [OF s(3)] by (simp_all add: eval_nat_numeral)
    show ?thesis using RD_soa ok s(4) m' r' c ptrs_ok_append [OF r'(1), of c]
      by (intro conjI exI [of _ "RD_soa (PyStr m') (PyStr r') se rf rt ex mi"])
        (auto simp: simps add.assoc)
  next
    case (RD_mx pr n)
    obtain i where i: "pr = VInt i" using RD_mx ok by (cases pr) auto
    obtain a b where s: "struct_pack BE [fH] [VInt i] = Inr a"
      "pack_name n (length pre + 2) ptrs = Inr (b, ptrs')" "d = a @ b"
      using RD_mx i ok p by (auto simp: simps result_simps split: if_splits)
    have a: "struct_unpack BE [fH] a = Inr [VInt i]" "length a = 2"
      using struct_unpack_pack [OF _ _ s(1)] struct_pack_length [OF s(1)] s(1)
      by (auto simp: fmt_ok_def result_simps split: if_splits)
    obtain n' where n': "ptrs_ok (pre @ a @ b) ptrs'" "same_name n (PyStr n')"
      "unpack_name (pre @ a @ b @ rest) (length pre + 2) = Inr (n', length pre + 2 + length b)" for rest
      using after [of n a ptrs b ptrs'] s a ptrs_ok_append [OF ptrs] RD_mx ok by auto
    show ?thesis using RD_mx ok s(3) n' a i
      by (intro conjI exI [of _ "RD_mx (VTuple [VInt i]) (PyStr n')"]) (auto simp: simps)
  next
    case (RD_text ts)
    then have ts: "pack_texts ts = Inr d" "list_all plain_text ts"
      using ok p by (auto simp: simps result_simps)
    obtain ts' where "unpack_texts d = Inr ts'" "map text_bytes ts = map text_bytes ts'"
      using pack_texts_unpack [OF ts] by blast
    then show ?thesis using RD_text ok p ptrs_ok_append [OF ptrs]
      by (intro conjI exI [of _ "RD_text ts'"]) (auto simp: simps result_simps)
  next
    case (RD_ip6 b)
    then show ?thesis using ok p ptrs_ok_append [OF ptrs]
      by (intro conjI exI [of _ "RD_ip6 d"]) (auto simp: simps)
  next
    case (RD_srv pr w po n)
    obtain a b where s: "pack_ints 2 [pr, w, po] = Inr a"
      "pack_name n (length pre + 6) ptrs = Inr (b, ptrs')" "d = a @ b"
      using RD_srv ok p by (auto simp: simps result_simps)
    have a: "unpack_uints 3 2 a = Inr [pr, w, po]" "length a = 6"
      using pack_ints_unpack [OF s(1)] by (simp_all add: eval_nat_numeral)
    obtain n' where n': "ptrs_ok (pre @ a @ b) ptrs'" "same_name n (PyStr n')"
      "unpack_name (pre @ a @ b @ rest) (length pre + 6) = Inr (n', length pre + 6 + length b)" for rest
      using after [of n a ptrs b ptrs'] s a ptrs_ok_append [OF ptrs] RD_srv ok by auto
    show ?thesis using RD_srv ok s(3) n' a
      by (intro conjI exI [of _ "RD_srv pr w po (PyStr n')"]) (auto simp: simps)
  next
    case RD_none
    then show ?thesis using ok p ptrs
      by (intro conjI exI [of _ RD_none]) (auto simp: simps)
  qed (use ok in auto)
qed


interpretation resource: dns_item pack_rr unpack_rr rr_ok same_rr
proof
  fix buf rr ptrs buf' ptrs'
  assume "pack_rr buf rr ptrs = Inr (buf', ptrs')"
  then show "\<exists>t. buf' = buf @ t" by (auto simp: pack_rr_def result_simps)
next
  fix rr buf ptrs buf' ptrs'
  assume rr: "rr_ok rr" and ptrs: "ptrs_ok buf ptrs" and len: "length buf' \<le> 0x4000"
    and p: "pack_rr buf rr ptrs = Inr (buf', ptrs')"
  obtain n p1 d h where n: "pack_name (rr_name rr) (length buf) ptrs = Inr (n, p1)"
    "pack_rdata rr (length buf + length n + 10) p1 = Inr (d, ptrs')"
    "struct_pack BE [fH, fH, fI, fH]
       [VInt (rr_type rr), VInt (rr_cls rr), VInt (rr_ttl rr), VInt (int (length d))] = Inr h"
    "buf' = buf @ n @ h @ d"
    using p by (auto simp: pack_rr_def result_simps)
  obtain s where s: "ptrs_ok (buf @ n) p1" "same_name (rr_name rr) (PyStr s)"
    "unpack_name (buf @ n @ rest) (length buf) = Inr (s, length buf + length n)" for rest
    using text_roundtrip [OF _ ptrs n(1)] rr n(4) len by (auto simp: rr_ok_def)
  note h = rr_header_unpack [OF n(3)]
  have ptrs1: "ptrs_ok (buf @ n @ h) p1" using ptrs_ok_append [OF s(1), of h] by simp
  obtain v where v: "ptrs_ok buf' ptrs'" "same_view (rr_view rr) v"
    "rr_type rr' = rr_type rr \<Longrightarrow> rr_rdata rr' = d \<Longrightarrow>
     unpack_rdata rr' (buf @ n @ h @ d @ rest) (length buf + length n + 10) = Inr v" for rest rr'
    using rdata_roundtrip [OF _ _ ptrs1, of rr d ptrs'] rr n(2,4) len h(2)
    by (auto simp: rr_ok_def add.assoc)
  define rr' where "rr' = rr_new\<lparr>rr_name := PyStr s, rr_type := rr_type rr, rr_cls := rr_cls rr,
    rr_ttl := rr_ttl rr, rr_rdata := d, rr_rlen := int (length d), rr_view := v\<rparr>"
  have "unpack_rr (buf' @ rest) (length buf) = Inr (rr', length buf')" for rest
    using s(3) [of "h @ d @ rest"] h n(4) v(3) by (simp add: unpack_rr_def rr'_def Let_def)
  moreover have "same_rr rr rr'" using s(2) v(2) by (simp add: same_rr_def rr'_def)
  ultimately show "ptrs_ok buf' ptrs' \<and> (\<exists>rr'. same_rr rr rr' \<and>
      (\<forall>rest. unpack_rr (buf' @ rest) (length buf) = Inr (rr', length buf')))"
    using v(1) by blast
qed

section \<open>Whole messages\<close>

definition dns_ok :: "dns \<Rightarrow> bool" where
  "dns_ok m \<longleftrightarrow> list_all q_ok (dns_qd m) \<and> list_all rr_ok (dns_an m @ dns_ns m @ dns_ar m)"

definition same_message :: "dns \<Rightarrow> dns \<Rightarrow> bool" where
  "same_message m m' \<longleftrightarrow> dns_id m' = dns_id m \<and> dns_op m' = dns_op m \<and>
     list_all2 same_q (dns_qd m) (dns_qd m') \<and> list_all2 same_rr (dns_an m) (dns_an m') \<and>
     list_all2 same_rr (dns_ns m) (dns_ns m') \<and> list_all2 same_rr (dns_ar m) (dns_ar m')"

lemma pack_many_append:
  "pack_many p (xs @ ys) buf ptrs = rbind (pack_many p xs buf ptrs) (\<lambda>(buf, ptrs). pack_many p ys buf ptrs)"
  by (induction xs arbitrary: buf ptrs) (auto simp: rbind_assoc intro!: rbind_cong)

lemma struct_unpack_uints:
  "unpack_uints k n b = Inr is \<Longrightarrow> length is = k \<Longrightarrow> \<exists>vs. struct_unpack BE (replicate k (UI n)) b = Inr vs \<and>
     length vs = k \<and> (\<forall>i < k. ival (vs ! i) = is ! i)"
  by (auto simp: unpack_uints_def result_simps)

section \<open>Evaluation of examples\<close>

lemmas dns_eval = pack_ints_def pack_q_def pack_rr_def pack_rdata_def dns_types DNS_IN_def name_labels_def
  upper1_def Let_def pack_uint_eq int_bytes_def be_bytes_def rr_new_def q_new_def dns_new_def DNS_RD_def
lemmas dns_parse_eval = dns_init_def packet_init_def dns_unpack_def unpack_q_def unpack_rr_def
  unpack_name_loop loop_result_step struct_unpack_def dns_fmt_def bytes_int_def be_int_def
  unpack_uints_def unpack_rdata_def ord_def unpack_uint_2

lemma dns_numerals:
  "unpack_many u (numeral k) buf off = unpack_many u (Suc (pred_numeral k)) buf off"
  "replicate (numeral k) x = x # replicate (pred_numeral k) x"
  by (simp_all add: numeral_eq_Suc)

definition example_message :: dns where
  "example_message = dns_new\<lparr>dns_qd := [\<lparr>q_name = PyStr (asc ''a.b''), q_type = DNS_NS, q_cls = DNS_IN\<rparr>],
     dns_an := [rr_new\<lparr>rr_name := PyStr (asc ''A.b''), rr_type := DNS_NS, rr_cls := DNS_IN,
       rr_view := RD_ns (PyStr (asc ''c.B''))\<rparr>]\<rparr>"

definition example_wire :: bytes where
  "example_wire =
     [0, 0, 1, 0, 0, 1, 0, 1, 0, 0, 0, 0, 1, 97, 1, 98, 0, 0, 2, 0, 1,
      192, 12, 0, 2, 0, 1, 0, 0, 0, 0, 0, 4, 1, 99, 192, 14]"

text \<open>
  A response whose first owner name is not compressed, and what packing makes of it.
\<close>

definition stale_wire :: bytes where
  "stale_wire =
     [0, 0, 1, 0, 0, 1, 0, 2, 0, 0, 0, 0, 1, 97, 0, 0, 5, 0, 1,
      1, 97, 0, 0, 1, 0, 1, 0, 0, 0, 0, 0, 1, 9,
      1, 99, 0, 0, 5, 0, 1, 0, 0, 0, 0, 0, 2, 192, 33]"

definition stale_packed :: bytes where
  "stale_packed =
     [0, 0, 1, 0, 0, 1, 0, 2, 0, 0, 0, 0, 1, 97, 0, 0, 5, 0, 1,
      192, 12, 0, 1, 0, 1, 0, 0, 0, 0, 0, 1, 9,
      1, 99, 0, 0, 5, 0, 1, 0, 0, 0, 0, 0, 2, 192, 33]"

definition stale_q :: dns_q where
  "stale_q = \<lparr>q_name = PyStr [97], q_type = 5, q_cls = 1\<rparr>"

definition stale_rr :: "bytes \<Rightarrow> int \<Rightarrow> bytes \<Rightarrow> rr_view \<Rightarrow> dns_rr" where
  "stale_rr n t d v = \<lparr>rr_name = PyStr n, rr_type = t, rr_cls = 1, rr_ttl = 0,
     rr_rlen = int (length d), rr_rdata = d, rr_view = v\<rparr>"

definition stale_msg :: dns where
  "stale_msg = \<lparr>dns_id = 0, dns_op = 256, dns_qd = [stale_q],
     dns_an = [stale_rr [97] 1 [9] (RD_ip [9]), stale_rr [99] 5 [192, 33] (RD_cname (PyStr [99]))],
     dns_ns = [], dns_ar = []\<rparr>"

lemma stale_items:
  "unpack_q stale_wire 12 = Inr (stale_q, 19)"
  "unpack_rr stale_wire 19 = Inr (stale_rr [97] 1 [9] (RD_ip [9]), 33)"
  "unpack_rr stale_wire 33 = Inr (stale_rr [99] 5 [192, 33] (RD_cname (PyStr [99])), 48)"
  "unpack_q stale_packed 12 = Inr (stale_q, 19)"
  "unpack_rr stale_packed 19 = Inr (stale_rr [97] 1 [9] (RD_ip [9]), 32)"
  "unpack_rr stale_packed 32 = Inl UnpackError"
  by (simp_all add: stale_wire_def stale_packed_def stale_q_def stale_rr_def dns_parse_eval dns_eval
      dns_numerals)

lemmas stale_eval = dns_init_def packet_init_def dns_unpack_def dns_fmt_def struct_unpack_def
  stale_wire_def stale_packed_def bytes_int_def be_int_def ord_def dns_numerals stale_msg_def

lemma stale_steps:
  "dns_init stale_wire = Inr stale_msg"
  "dns_bytes stale_msg = Inr stale_packed"
  "dns_init stale_packed = Inl UnpackError"
  using stale_items
  by (simp add: stale_eval, simp add: dns_bytes_def stale_msg_def stale_q_def stale_rr_def
      stale_packed_def dns_eval, simp add: stale_eval)

section \<open>Properties\<close>




text \<open>
  C28: decoding a name always ends and gives exactly the names of the specification: a name is at
  the offset, in at most 255 bytes of labels with their length bytes, and is valid UTF-8.
\<close>

theorem dns_name_spec:
  "unpack_name buf off = Inr (s, e) \<longleftrightarrow>
   (\<exists>ls. name_at buf off off ls e \<and> length (dotted ls) \<le> 255 \<and> s = join [46] ls \<and> utf8_ok s)"
  by (rule unpack_name_iff)



text \<open>
  A suffix that was written at an offset from 16384 to 49151 is remembered, although a pointer
  has only 14 bits: the pointer that is packed for it leads to the offset modulo 16384.
\<close>

theorem dns_far_pointer_wraps:
  assumes "ptrs (upper (s @ [46])) = Some p" "s \<noteq> []" "p < 0xc000"
  shows "\<exists>b. pack_name (PyStr s) off ptrs = Inr (b, ptrs) \<and> length b = 2 \<and>
    be_int b AND 0x3fff = int (p mod 0x4000)"
proof -
  have "take_bit 16 (0xc000 OR int p) = 0xc000 OR int p"
  proof -
    have "take_bit 16 (int p) = int p" using assms(3) by (simp add: take_bit_int_eq_self_iff)
    moreover have "take_bit 16 (0xc000 :: int) = 0xc000" by (simp add: take_bit_int_eq_self_iff)
    ultimately show ?thesis by simp
  qed
  then have r: "(0xc000 OR int p) mod 0x10000 = 0xc000 OR int p" by (simp add: take_bit_eq_mod)
  have "0xc000 OR int p < 0x10000" by (metis r pos_mod_bound zero_less_numeral)
  then have pk: "pack_uint BE 2 (0xc000 OR int p) = Inr (be_bytes 2 (0xc000 OR int p))"
    by (simp add: pack_uint_eq int_bytes_def)
  obtain l ls where l: "split_byte 46 s = l # ls" by (cases "split_byte 46 s") auto
  then have "join [46] (l # ls @ [[]]) = s @ [46]"
    using dotted_join [of "l # ls"] join_dotted [of "l # ls"] join_split [of 46 s] by simp
  then have "pack_name (PyStr s) off ptrs = Inr (be_bytes 2 (0xc000 OR int p), ptrs)"
    using assms(1,2) l pk by (simp add: name_labels_def Let_def)
  moreover have "(0xc000 OR int p) AND 0x3fff = int (p mod 0x4000)"
    unfolding bit.conj_disj_distrib2
    using and_mask_int [of "int p" 14] by (simp add: zmod_int)
  ultimately show ?thesis using r by (simp add: be_int_be_bytes)
qed

theorem dns_far_pointer_wraps_witness:
  "\<exists>b. pack_name (PyStr (asc ''a'')) 0x6000 [asc ''A.'' \<mapsto> 0x5000] = Inr (b, [asc ''A.'' \<mapsto> 0x5000]) \<and>
     length b = 2 \<and> be_int b AND 0x3fff = int (0x5000 mod 0x4000)"
  by (rule dns_far_pointer_wraps) (simp_all add: upper1_def)

text \<open>
  A label of 64 to 191 bytes is packed without an error, and what is packed cannot be
  unpacked.
\<close>

theorem dns_long_label_unreadable:
  assumes "64 \<le> length s" "length s < 192" "46 \<notin> set s"
  shows "\<exists>b ptrs. pack_name (PyStr s) (length pre) (\<lambda>_. None) = Inr (b, ptrs) \<and>
    unpack_name (pre @ b @ rest) (length pre) = Inl UnpackError"
proof -
  let ?n = "word_of_int (int (length s)) :: byte"
  have "s \<noteq> []" using assms(1) by auto
  then have labels: "name_labels s = [s, []]" using assms(3) by (simp add: name_labels_def split_byte_none)
  have n: "pack_uint BE 1 (int (length s)) = Inr [?n]"
    using assms(2) by (simp add: pack_uint_eq int_bytes_def be_bytes_def)
  have z: "pack_uint BE 1 0 = Inr [0]" by (simp add: pack_uint_eq int_bytes_def be_bytes_def)
  have ex: "\<exists>ptrs. pack_name (PyStr s) (length pre) (\<lambda>_. None) = Inr ([?n] @ s @ [0], ptrs)"
    using n z by (simp add: labels Let_def upper_append)
  have u: "unat ?n = length s" using assms(2) by (intro byte_of_length) simp
  have "?n AND 0xc0 \<noteq> 0 \<and> ?n AND 0xc0 \<noteq> 0xc0 \<and> ?n \<noteq> 0"
  proof -
    have "unat ?n \<in> {64..<192}" using u assms(1,2) by simp
    moreover have "\<forall>k \<in> {64..<192 :: nat}. word_of_nat k AND 0xc0 \<noteq> (0 :: byte) \<and>
        word_of_nat k AND 0xc0 \<noteq> (0xc0 :: byte) \<and> word_of_nat k \<noteq> (0 :: byte)"
      by code_simp
    ultimately show ?thesis by (metis of_nat_unat ucast_id)
  qed
  then have "unpack_name (pre @ ([?n] @ s @ [0]) @ rest) (length pre) = Inl UnpackError"
    by (simp add: unpack_name_loop loop_result_step Let_def nth_append)
  then show ?thesis using ex by blast
qed

theorem dns_long_label_unreadable_witness:
  "\<exists>b ptrs. pack_name (PyStr (replicate 100 97)) (length ([] :: bytes)) (\<lambda>_. None) = Inr (b, ptrs) \<and>
     unpack_name ([] @ b @ []) (length ([] :: bytes)) = Inl UnpackError"
  by (rule dns_long_label_unreadable) auto

text \<open>
  Unpacking keeps the raw data of a record, whose compression pointers refer to the message it
  came from. Packing writes that data unchanged while it compresses the owner names anew, so a
  message can be parsed and packed and then fails to parse: here the first owner name is not
  compressed in the original, and the data of the second record points to its own owner name.
\<close>

theorem dns_stale_pointer:
  "\<exists>m b. dns_init stale_wire = Inr m \<and> dns_bytes m = Inr b \<and> dns_init b = Inl UnpackError"
  using stale_steps by blast

text \<open>
  C31: decoding a name at an offset takes at most 256 rounds more than the offset, whatever the
  message and its pointers: every pointer goes back, and labels are limited by their total length.
\<close>

theorem dns_name_rounds: "unpack_rounds buf off off 0 \<le> off + 256"
proof -
  have "nlen \<le> 255 \<longrightarrow> unpack_rounds buf start off nlen \<le> start + (256 - nlen)" for start nlen
  proof (induction buf start off nlen rule: unpack_rounds.induct)
    case (1 buf start off nlen)
    show ?case
    proof (cases "off < length buf \<and> buf ! off \<noteq> 0")
      case False
      then show ?thesis by (subst unpack_rounds.simps) auto
    next
      case True
      consider (ptr) "buf ! off AND 0xc0 = 0xc0" | (label) "buf ! off AND 0xc0 \<noteq> 0xc0" "buf ! off AND 0xc0 = 0"
        | (bad) "buf ! off AND 0xc0 \<noteq> 0xc0" "buf ! off AND 0xc0 \<noteq> 0"
        by blast
      then show ?thesis
      proof cases
        case ptr
        then show ?thesis
          using True "1.IH"(1) [OF _ refl _ ptr]
          by (subst unpack_rounds.simps) (fastforce simp: Let_def split: sum.split)
      next
        case label
        then show ?thesis
          using True "1.IH"(2) [OF _ refl _ label refl]
          by (subst unpack_rounds.simps) (fastforce simp: Let_def)
      next
        case bad
        then show ?thesis using True by (subst unpack_rounds.simps) (auto simp: Let_def)
      qed
    qed
  qed
  from this [of 0 off] show ?thesis by simp
qed

end
