(* ===== verification/Checksum.thy ===== *)
theory Checksum
  imports Packet
begin

text \<open>
  The Internet checksum of \<^verbatim>\<open>dpkt/dpkt.py\<close>
  (\<open>in_cksum_add\<close>, \<open>in_cksum_done\<close>, \<open>in_cksum\<close>, with \<^verbatim>\<open>ntole\<close> of \<^verbatim>\<open>dpkt/compat.py\<close>) sums
  little endian words and folds twice; a message that carries its own checksum sums to
  zero.
\<close>

section \<open>The Internet checksum\<close>

definition ntole :: "int \<Rightarrow> int result" where
  "ntole v = rbind (pack_uint BE 2 v) (unpack_uint LE 2)"

definition ntole64 :: "int \<Rightarrow> int result" where
  "ntole64 v = rbind (pack_uint BE 8 v) (unpack_uint LE 8)"

fun le_words :: "bytes \<Rightarrow> int list" where
  "le_words (a # b # r) = bytes_int LE [a, b] # le_words r"
| "le_words _ = []"

definition in_cksum_add :: "int \<Rightarrow> bytes \<Rightarrow> int" where
  "in_cksum_add s buf =
     (let n = length buf; cnt = (n div 2) * 2;
          res = s + sum_list (le_words (take cnt buf))
      in if cnt \<noteq> n then res + ord (last buf) else res)"

definition in_cksum_done :: "int \<Rightarrow> int result" where
  "in_cksum_done s =
     (let s1 = drop_bit 16 s + (s AND 0xffff);
          s2 = s1 + drop_bit 16 s1
      in ntole (NOT s2 AND 0xffff))"

definition in_cksum :: "bytes \<Rightarrow> int result" where
  "in_cksum buf = in_cksum_done (in_cksum_add 0 buf)"

subsection \<open>Word sums\<close>

text \<open>\<open>cksum_sum\<close> is the sum over the whole buffer, the odd last byte included.\<close>

fun cksum_sum :: "bytes \<Rightarrow> int" where
  "cksum_sum (a # b # r) = ord a + 256 * ord b + cksum_sum r"
| "cksum_sum [a] = ord a"
| "cksum_sum [] = 0"

lemma in_cksum_add_eq: "in_cksum_add s buf = s + cksum_sum buf"
proof -
  have "(let n = length buf; cnt = (n div 2) * 2; res = sum_list (le_words (take cnt buf))
      in if cnt \<noteq> n then res + ord (last buf) else res) = cksum_sum buf"
    by (induction buf rule: cksum_sum.induct) (auto simp: Let_def bytes_int_def)
  then show ?thesis by (auto simp: in_cksum_add_def Let_def)
qed

lemma cksum_sum_append: "even (length a) \<Longrightarrow> cksum_sum (a @ b) = cksum_sum a + cksum_sum b"
  by (induction a rule: cksum_sum.induct) auto

lemma cksum_sum_nonneg [simp]: "0 \<le> cksum_sum b"
  by (induction b rule: cksum_sum.induct) auto

lemma cksum_sum_le: "cksum_sum b \<le> 65535 * int ((length b + 1) div 2)"
proof (induction b rule: cksum_sum.induct)
  case (1 a b r)
  have "ord a + 256 * ord b \<le> 65535" using ord_range(3) [of a] ord_range(3) [of b] by linarith
  moreover have "(length (a # b # r) + 1) div 2 = Suc ((length r + 1) div 2)" by simp
  ultimately show ?case using 1 by simp
next
  case (2 a)
  have "ord a \<le> 65535" using ord_range(3) [of a] by linarith
  then show ?case by simp
qed simp

text \<open>Splitting the buffer at an even offset splits the sum; the seed is just added.\<close>

lemma in_cksum_add_append:
  "even (length a) \<Longrightarrow> in_cksum_add s (a @ b) = in_cksum_add (in_cksum_add s a) b"
  by (simp add: in_cksum_add_eq cksum_sum_append)

subsection \<open>Folding\<close>

definition fold16 :: "int \<Rightarrow> int" where
  "fold16 s = (let s1 = s div 65536 + s mod 65536 in (s1 + s1 div 65536) mod 65536)"

lemma not_and_ffff: "NOT s AND 0xffff = 65535 - s mod 65536" for s :: int
proof -
  have "NOT s AND (2 ^ 16 - 1) = NOT s mod 2 ^ 16" by (rule and_mask_int)
  moreover have "NOT s mod 65536 = 65535 - s mod 65536"
  proof (rule int_mod_pos_eq)
    show "NOT s = 65536 * (- (s div 65536) - 1) + (65535 - s mod 65536)"
      by (simp add: not_int_def algebra_simps)
  qed simp_all
  ultimately show ?thesis by simp
qed

lemma in_cksum_done_eq: "in_cksum_done s = ntole (65535 - fold16 s)"
  using and_mask_int [of s 16]
  by (simp add: in_cksum_done_def fold16_def not_and_ffff Let_def drop_bit_int)

lemma fold16_range: "0 \<le> fold16 s" "fold16 s \<le> 65535"
  using pos_mod_bound [of 65536] by (auto simp: fold16_def Let_def)

text \<open>
  Below \<open>2 ^ 32\<close> two foldings are enough: the result is congruent to the sum modulo 65535
  and is zero for the zero sum only.
\<close>

lemma fold16_props:
  assumes "0 \<le> s" "s < 2 ^ 32"
  shows "\<exists>k. fold16 s - s = 65535 * k" "fold16 s = 0 \<longleftrightarrow> s = 0"
proof -
  define h l where "h = s div 65536" and "l = s mod 65536"
  have s: "s = 65536 * h + l" and l: "0 \<le> l" "l < 65536" and h: "0 \<le> h" "h < 65536"
    using assms by (auto simp: h_def l_def)
  have f: "fold16 s = (if h + l < 65536 then h + l else h + l - 65535)"
  proof (cases "h + l < 65536")
    case True
    then show ?thesis using l h by (simp add: fold16_def Let_def h_def l_def)
  next
    case False
    then have "(h + l) div 65536 = 1" using l h by simp
    moreover have "(h + l + 1) mod 65536 = h + l + 1 - 65536"
      using False l h by (intro int_mod_pos_eq [where q = 1]) auto
    ultimately show ?thesis using False by (simp add: fold16_def Let_def h_def l_def)
  qed
  then show "fold16 s = 0 \<longleftrightarrow> s = 0" using s l h by auto
  have "h + l - s = 65535 * (- h)" "h + l - 65535 - s = 65535 * (- h - 1)" using s by simp_all
  then show "\<exists>k. fold16 s - s = 65535 * k" unfolding f by metis
qed

lemma fold16_complement:
  assumes "0 \<le> s" "s + 65535 < 2 ^ 32"
  shows "fold16 (s + (65535 - fold16 s)) = 65535"
proof -
  define t where "t = s + (65535 - fold16 s)"
  have r: "0 \<le> fold16 s" "fold16 s \<le> 65535" by (rule fold16_range)+
  then have t: "0 \<le> t" "t < 2 ^ 32" using assms by (auto simp: t_def)
  obtain k where k: "fold16 s - s = 65535 * k" using fold16_props(1) [of s] assms by auto
  obtain m where m: "fold16 t - t = 65535 * m" using fold16_props(1) t by auto
  have "t \<noteq> 0" using fold16_props(2) [of s] assms r by (auto simp: t_def)
  then have nz: "fold16 t \<noteq> 0" using fold16_props(2) t by blast
  obtain z where z: "fold16 t = 65535 * z"
    using k m that [of "m + 1 - k"] by (simp add: t_def)
  moreover have "0 \<le> fold16 t" "fold16 t \<le> 65535" by (rule fold16_range)+
  ultimately have "z = 1" using nz by simp
  then show ?thesis unfolding t_def [symmetric] using z by simp
qed

lemma int_bytes_BE2_zero: "int_bytes BE 2 0 = [0, 0]"
  by (simp add: int_bytes_def be_bytes_def numeral_2_eq_2)

lemma int_bytes_BE2_ones: "int_bytes BE 2 0xffff = [255, 255]"
  by (simp add: int_bytes_def be_bytes_def)

lemma ntole_swap:
  assumes "0 \<le> v" "v < 65536"
  shows "\<exists>a b. int_bytes BE 2 v = [a, b] \<and> v = 256 * ord a + ord b \<and> ntole v = Inr (ord a + 256 * ord b)"
proof -
  have "length (int_bytes BE 2 v) = 2" by simp
  then obtain a b where ab: "int_bytes BE 2 v = [a, b]" by (rule list2E)
  have "bytes_int BE [a, b] = v"
    using bytes_int_int_bytes [of BE 2 v] assms by (simp add: ab [symmetric])
  then have "v = 256 * ord a + ord b" by (simp add: bytes_int_def be_int_def)
  moreover have "ntole v = Inr (bytes_int LE [a, b])"
    using assms ab by (simp add: ntole_def pack_uint_eq unpack_uint_def)
  ultimately show ?thesis using ab by (simp add: bytes_int_def)
qed

lemma in_cksum_ok: "\<exists>c. in_cksum buf = Inr c \<and> 0 \<le> c \<and> c < 65536"
proof -
  have "0 \<le> 65535 - fold16 (in_cksum_add 0 buf)" "65535 - fold16 (in_cksum_add 0 buf) < 65536"
    using fold16_range [of "in_cksum_add 0 buf"] by auto
  from ntole_swap [OF this] obtain a b where
    "in_cksum buf = Inr (ord a + 256 * ord b)" by (auto simp: in_cksum_def in_cksum_done_eq)
  moreover have "ord a + 256 * ord b < 65536" by simp
  ultimately show ?thesis by simp
qed

lemma in_cksum_sum: "in_cksum buf = ntole (65535 - fold16 (cksum_sum buf))"
  by (simp add: in_cksum_def in_cksum_done_eq in_cksum_add_eq)

text \<open>
  The receiver's check: the checksum computed with a zero checksum field, written big endian
  into that field, makes the whole buffer sum to zero.
\<close>

lemma in_cksum_verifies:
  assumes "even (length pre)" "length pre + length post \<le> 131000"
    and c: "in_cksum (pre @ [0, 0] @ post) = Inr c"
  shows "in_cksum (pre @ int_bytes BE 2 c @ post) = Inr 0"
proof -
  define t where "t = cksum_sum pre + cksum_sum post"
  have z: "cksum_sum (pre @ [0, 0] @ post) = t"
    using assms(1) by (simp add: cksum_sum_append t_def ord_def)
  have "cksum_sum pre \<le> 65535 * int ((length pre + 1) div 2)"
    "cksum_sum post \<le> 65535 * int ((length post + 1) div 2)" by (rule cksum_sum_le)+
  moreover have "(length pre + 1) div 2 + (length post + 1) div 2 \<le> 65502"
    using assms(2) by linarith
  ultimately have t: "0 \<le> t" "t + 65535 < 2 ^ 32" by (auto simp: t_def)
  define v where "v = 65535 - fold16 t"
  have v: "0 \<le> v" "v < 65536" using fold16_range [of t] by (auto simp: v_def)
  obtain a b where ab: "v = 256 * ord a + ord b" "ntole v = Inr (ord a + 256 * ord b)"
    using ntole_swap [OF v] by blast
  have c': "c = ord a + 256 * ord b" using c ab(2) unfolding in_cksum_sum z v_def by simp
  have "0 \<le> c" "c < 65536"
    unfolding c' by simp_all
  from ntole_swap [OF this] obtain x y where xy: "int_bytes BE 2 c = [x, y]" "c = 256 * ord x + ord y"
    by blast
  have "ord x + 256 * ord y = v"
  proof -
    have e: "ord a + 256 * ord b = ord y + 256 * ord x" using c' xy(2) by simp
    have "(ord a + 256 * ord b) div 256 = ord b" "(ord y + 256 * ord x) div 256 = ord x"
      by (rule byte_cons_div; simp)+
    then have "ord b = ord x" using e by simp
    then show ?thesis using e ab(1) by simp
  qed
  then have "cksum_sum (pre @ int_bytes BE 2 c @ post) = t + v"
    using assms(1) xy(1) by (simp add: cksum_sum_append t_def)
  then have "in_cksum (pre @ int_bytes BE 2 c @ post) = ntole (65535 - fold16 (t + v))"
    by (simp add: in_cksum_sum)
  also have "fold16 (t + v) = 65535"
    unfolding v_def by (rule fold16_complement [OF t])
  also have "ntole (65535 - 65535) = Inr 0"
    by (simp add: ntole_def pack_uint_eq unpack_uint_def int_bytes_def be_bytes_def bytes_int_def
        numeral_2_eq_2 ord_def)
  finally show ?thesis .
qed

text \<open>
  A message whose computed checksum is zero verifies as well when the field carries all ones,
  the form RFC 768 prescribes.
\<close>

lemma in_cksum_all_ones:
  assumes "even (length pre)" "length pre + length post \<le> 131000"
    and c: "in_cksum (pre @ [0, 0] @ post) = Inr 0"
  shows "in_cksum (pre @ int_bytes BE 2 0xffff @ post) = Inr 0"
proof -
  define t where "t = cksum_sum (pre @ [0, 0] @ post)"
  have len: "length (pre @ [0, 0] @ post) \<le> 131002" using assms(2) by simp
  have "t \<le> 65535 * int ((length (pre @ [0, 0] @ post) + 1) div 2)"
    unfolding t_def by (rule cksum_sum_le)
  moreover have "(length (pre @ [0, 0] @ post) + 1) div 2 \<le> 65501" using len by linarith
  ultimately have t: "0 \<le> t" "t + 65535 < 2 ^ 32" by (auto simp: t_def)
  have r: "0 \<le> fold16 t" "fold16 t \<le> 65535" by (rule fold16_range)+
  have "ntole (65535 - fold16 t) = Inr 0" using c by (simp only: in_cksum_sum t_def)
  moreover obtain a b where "65535 - fold16 t = 256 * ord a + ord b"
    "ntole (65535 - fold16 t) = Inr (ord a + 256 * ord b)"
    using ntole_swap [of "65535 - fold16 t"] r by auto
  ultimately have f: "fold16 t = 65535"
    using ord_range(1) [of a] ord_range(1) [of b] by (auto simp: add_nonneg_eq_0_iff)
  have "cksum_sum (pre @ int_bytes BE 2 0xffff @ post) = t + 65535"
    using assms(1) by (simp add: cksum_sum_append t_def int_bytes_BE2_ones ord_def)
  then have g: "in_cksum (pre @ int_bytes BE 2 0xffff @ post) = ntole (65535 - fold16 (t + 65535))"
    by (simp add: in_cksum_sum)
  have t': "0 \<le> t + 65535" "t + 65535 < 2 ^ 32" using t by simp_all
  obtain k where k: "fold16 (t + 65535) - (t + 65535) = 65535 * k" using fold16_props(1) [OF t'] by blast
  obtain m where m: "fold16 t - t = 65535 * m" using fold16_props(1) [of t] t by auto
  have nz: "fold16 (t + 65535) \<noteq> 0" using fold16_props(2) [OF t'] t by linarith
  obtain z where z: "fold16 (t + 65535) = 65535 * z"
    using k m f that [of "k - m + 2"] by simp
  moreover have "0 \<le> fold16 (t + 65535)" "fold16 (t + 65535) \<le> 65535" by (rule fold16_range)+
  ultimately have "z = 1" using nz by simp
  then have "fold16 (t + 65535) = 65535" using z by simp
  then show ?thesis
    unfolding g by (simp add: ntole_def pack_uint_eq unpack_uint_def int_bytes_def be_bytes_def
        bytes_int_def numeral_2_eq_2 ord_def)
qed

section \<open>Properties\<close>

text \<open>
  C29: the Internet checksum of a buffer with a zero field at an even offset, written into that field,
  makes the checksum of the buffer zero, for buffers of up to 131000 bytes.
\<close>

theorem inet_checksum_verifies:
  assumes "even (length pre)" "length pre + length post \<le> 131000"
    and "in_cksum (pre @ [0, 0] @ post) = Inr c"
  shows "in_cksum (pre @ int_bytes BE 2 c @ post) = Inr 0"
  by (rule in_cksum_verifies [OF assms])

theorem inet_checksum_verifies_witness:
  "\<exists>c. in_cksum [0x45, 0, 0, 0, 1, 2, 3] = Inr c \<and>
     in_cksum ([0x45, 0] @ int_bytes BE 2 c @ [1, 2, 3]) = Inr 0"
proof -
  obtain c where c: "in_cksum ([0x45, 0] @ [0, 0] @ [1, 2, 3]) = Inr c"
    using in_cksum_ok by blast
  have "even (length [0x45, 0 :: byte])" "length [0x45, 0 :: byte] + length [1, 2, 3 :: byte] \<le> 131000"
    by simp_all
  from inet_checksum_verifies [OF this c] show ?thesis using c by auto
qed

end
