(* ===== verification/Transport.thy ===== *)
theory Transport
  imports Checksum
begin

text \<open>
  UDP, ARP and TCP: \<^verbatim>\<open>dpkt/udp.py\<close>, \<^verbatim>\<open>dpkt/arp.py\<close> and \<^verbatim>\<open>dpkt/tcp.py\<close>. A class is its record,
  its header table, the values in header order, the object \<open>make\<close> builds from a decoded
  header, and its interpretation of \<open>packet_class\<close>. TCP overrides \<^verbatim>\<open>unpack\<close>, \<^verbatim>\<open>__bytes__\<close> and
  \<^verbatim>\<open>__len__\<close> for the options, and parses an options buffer.
\<close>

section \<open>UDP\<close>

record udp =
  udp_sport :: int
  udp_dport :: int
  udp_ulen :: int
  udp_sum :: int
  udp_data :: "bytes"

definition udp_hdr :: hdr where
  "udp_hdr =
    [(''sport'', fH, VInt 0xdead),
     (''dport'', fH, VInt 0),
     (''ulen'', fH, VInt 8),
     (''sum'', fH, VInt 0)]"

definition udp_vals :: "udp \<Rightarrow> pval list" where
  "udp_vals r =
    [VInt (udp_sport r), VInt (udp_dport r), VInt (udp_ulen r), VInt (udp_sum r)]"

definition udp_make :: "pval list \<Rightarrow> bytes \<Rightarrow> udp" where
  "udp_make vs d =
    \<lparr>udp_sport = ival (vs ! 0), udp_dport = ival (vs ! 1), udp_ulen = ival (vs ! 2),
     udp_sum = ival (vs ! 3), udp_data = d\<rparr>"

definition udp_unpack :: "bytes \<Rightarrow> udp result" where
  "udp_unpack = packet_unpack BE udp_hdr udp_make"

definition udp_init :: "bytes \<Rightarrow> udp result" where
  "udp_init = packet_init (hdr_len udp_hdr) udp_unpack"

definition udp_bytes :: "udp \<Rightarrow> bytes result" where
  "udp_bytes r = packet_bytes BE udp_hdr (udp_vals r) (udp_data r)"

lemma udp_hdr_len [hdr_simps, simp]: "hdr_len udp_hdr = 8"
  by (simp add: udp_hdr_def)

interpretation udp_class: packet_class BE udp_hdr udp_vals udp_make udp_data
  by unfold_locales (auto simp: udp_hdr_def udp_vals_def udp_make_def fmt_ok_def hdr_simps)

section \<open>ARP\<close>

record arp =
  arp_hrd :: int
  arp_pro :: int
  arp_hln :: int
  arp_pln :: int
  arp_op :: int
  arp_sha :: bytes
  arp_spa :: bytes
  arp_tha :: bytes
  arp_tpa :: bytes
  arp_data :: "bytes"

definition arp_hdr :: hdr where
  "arp_hdr =
    [(''hrd'', fH, VInt 1),
     (''pro'', fH, VInt 0x0800),
     (''hln'', fB, VInt 6),
     (''pln'', fB, VInt 4),
     (''op'', fH, VInt 1),
     (''sha'', Str 6, VBytes []),
     (''spa'', Str 4, VBytes []),
     (''tha'', Str 6, VBytes []),
     (''tpa'', Str 4, VBytes [])]"

definition arp_vals :: "arp \<Rightarrow> pval list" where
  "arp_vals r =
    [VInt (arp_hrd r), VInt (arp_pro r), VInt (arp_hln r), VInt (arp_pln r), VInt (arp_op r),
     VBytes (arp_sha r), VBytes (arp_spa r), VBytes (arp_tha r), VBytes (arp_tpa r)]"

definition arp_make :: "pval list \<Rightarrow> bytes \<Rightarrow> arp" where
  "arp_make vs d =
    \<lparr>arp_hrd = ival (vs ! 0), arp_pro = ival (vs ! 1), arp_hln = ival (vs ! 2),
     arp_pln = ival (vs ! 3), arp_op = ival (vs ! 4), arp_sha = bval (vs ! 5), arp_spa = bval (vs ! 6),
     arp_tha = bval (vs ! 7), arp_tpa = bval (vs ! 8), arp_data = d\<rparr>"

definition arp_unpack :: "bytes \<Rightarrow> arp result" where
  "arp_unpack = packet_unpack BE arp_hdr arp_make"

definition arp_init :: "bytes \<Rightarrow> arp result" where
  "arp_init = packet_init (hdr_len arp_hdr) arp_unpack"

definition arp_bytes :: "arp \<Rightarrow> bytes result" where
  "arp_bytes r = packet_bytes BE arp_hdr (arp_vals r) (arp_data r)"

lemma arp_hdr_len [hdr_simps, simp]: "hdr_len arp_hdr = 28"
  by (simp add: arp_hdr_def)

interpretation arp_class: packet_class BE arp_hdr arp_vals arp_make arp_data
  by unfold_locales (auto simp: arp_hdr_def arp_vals_def arp_make_def fmt_ok_def hdr_simps)

section \<open>TCP\<close>

definition TH_FIN :: int where "TH_FIN = 0x01"
definition TH_SYN :: int where "TH_SYN = 0x02"
definition TH_RST :: int where "TH_RST = 0x04"
definition TH_PUSH :: int where "TH_PUSH = 0x08"
definition TH_ACK :: int where "TH_ACK = 0x10"
definition TH_URG :: int where "TH_URG = 0x20"
definition TH_ECE :: int where "TH_ECE = 0x40"
definition TH_CWR :: int where "TH_CWR = 0x80"
definition TH_NS :: int where "TH_NS = 0x100"

lemmas TH_defs = TH_FIN_def TH_SYN_def TH_RST_def TH_PUSH_def TH_ACK_def TH_URG_def
  TH_ECE_def TH_CWR_def TH_NS_def

definition tcp_flags_to_str :: "int \<Rightarrow> string" where
  "tcp_flags_to_str val =
     join_str '','' (concat (map (\<lambda>(m, s). if val AND m \<noteq> 0 then [s] else [])
       [(TH_FIN, ''FIN''), (TH_SYN, ''SYN''), (TH_RST, ''RST''), (TH_PUSH, ''PUSH''), (TH_ACK, ''ACK''),
        (TH_URG, ''URG''), (TH_ECE, ''ECE''), (TH_CWR, ''CWR''), (TH_NS, ''NS'')]))"

record tcp =
  tcp_sport :: int
  tcp_dport :: int
  tcp_seq :: int
  tcp_ack :: int
  tcp_off_flags :: int
  tcp_win :: int
  tcp_sum :: int
  tcp_urp :: int
  tcp_opts :: "bytes"
  tcp_data :: "bytes"

definition tcp_hdr :: hdr where
  "tcp_hdr =
    [(''sport'', fH, VInt 0xdead),
     (''dport'', fH, VInt 0),
     (''seq'', fI, VInt 0xdeadbeef),
     (''ack'', fI, VInt 0),
     (''_off_flags'', fH, VInt 0x5002),
     (''win'', fH, VInt 65535),
     (''sum'', fH, VInt 0),
     (''urp'', fH, VInt 0)]"

definition tcp_vals :: "tcp \<Rightarrow> pval list" where
  "tcp_vals r =
    [VInt (tcp_sport r), VInt (tcp_dport r), VInt (tcp_seq r), VInt (tcp_ack r),
     VInt (tcp_off_flags r), VInt (tcp_win r), VInt (tcp_sum r), VInt (tcp_urp r)]"

definition tcp_make :: "pval list \<Rightarrow> bytes \<Rightarrow> tcp" where
  "tcp_make vs d =
    \<lparr>tcp_sport = ival (vs ! 0), tcp_dport = ival (vs ! 1), tcp_seq = ival (vs ! 2),
     tcp_ack = ival (vs ! 3), tcp_off_flags = ival (vs ! 4), tcp_win = ival (vs ! 5),
     tcp_sum = ival (vs ! 6), tcp_urp = ival (vs ! 7), tcp_opts = [], tcp_data = d\<rparr>"

lemma tcp_hdr_len [hdr_simps, simp]: "hdr_len tcp_hdr = 20"
  by (simp add: tcp_hdr_def)

interpretation tcp_class: packet_class BE tcp_hdr tcp_vals tcp_make tcp_data
  by unfold_locales (auto simp: tcp_hdr_def tcp_vals_def tcp_make_def fmt_ok_def hdr_simps)

definition tcp_off_bits :: bit_fields where
  "tcp_off_bits = [(''off'', 4), (''_rsv'', 3), (''flags'', 9)]"

text \<open>\<^verbatim>\<open>TCP.unpack\<close>: the data offset splits the rest of the segment into options and data.\<close>

definition tcp_unpack :: "bytes \<Rightarrow> tcp result" where
  "tcp_unpack buf =
     rbind (packet_unpack BE tcp_hdr tcp_make buf) (\<lambda>r.
       let ol = push_bit 2 (drop_bit 12 (tcp_off_flags r)) - int (hdr_len tcp_hdr)
       in if ol < 0 then Inl UnpackError
          else Inr (r\<lparr>tcp_opts := py_slice buf (int (hdr_len tcp_hdr)) (int (hdr_len tcp_hdr) + ol),
                      tcp_data := py_from buf (int (hdr_len tcp_hdr) + ol)\<rparr>))"

definition tcp_init :: "bytes \<Rightarrow> tcp result" where
  "tcp_init = packet_init (hdr_len tcp_hdr) tcp_unpack"

definition tcp_bytes :: "tcp \<Rightarrow> bytes result" where
  "tcp_bytes r = rbind (packet_pack_hdr BE tcp_hdr (tcp_vals r)) (\<lambda>h.
     Inr (h @ tcp_opts r @ tcp_data r))"

definition tcp_len :: "tcp \<Rightarrow> nat" where
  "tcp_len r = hdr_len tcp_hdr + length (tcp_opts r) + length (tcp_data r)"

definition tcp_off :: "tcp \<Rightarrow> int result" where
  "tcp_off r = bf_get tcp_off_bits ''off'' (tcp_off_flags r)"

definition tcp_flags :: "tcp \<Rightarrow> int result" where
  "tcp_flags r = bf_get tcp_off_bits ''flags'' (tcp_off_flags r)"

lemma tcp_off_eq: "tcp_off r = Inr (take_bit 4 (drop_bit 12 (tcp_off_flags r)))"
  by (simp add: tcp_off_def bf_get_take_bit bf_locate_def tcp_off_bits_def bits_total_def
      starts_with_def)

lemma tcp_flags_eq: "tcp_flags r = Inr (take_bit 9 (tcp_off_flags r))"
  by (simp add: tcp_flags_def bf_get_take_bit bf_locate_def tcp_off_bits_def bits_total_def
      starts_with_def)

text \<open>The header words a segment announces, as the code computes them.\<close>

lemma tcp_unpack_ok:
  assumes "tcp_unpack buf = Inr r"
  shows "20 \<le> length buf \<and> exact_all (hdr_fmt tcp_hdr) (tcp_vals r) \<and>
    tcp_opts r @ tcp_data r = drop 20 buf \<and>
    20 \<le> 4 * (tcp_off_flags r div 4096) \<and>
    tcp_opts r = take (nat (4 * (tcp_off_flags r div 4096)) - 20) (drop 20 buf)"
proof -
  obtain h where h: "packet_unpack BE tcp_hdr tcp_make buf = Inr h"
    using assms by (auto simp: tcp_unpack_def result_simps)
  define ol where "ol = push_bit 2 (drop_bit 12 (tcp_off_flags h)) - 20"
  have ol: "0 \<le> ol" and r: "r = h\<lparr>tcp_opts := py_slice buf 20 (20 + ol), tcp_data := py_from buf (20 + ol)\<rparr>"
    using assms h by (auto simp: tcp_unpack_def Let_def ol_def split: if_splits)
  have len: "20 \<le> length buf" using packet_unpack_ok [OF h] by simp
  have v: "exact_all (hdr_fmt tcp_hdr) (tcp_vals h)"
    using tcp_class.unpack_vals [OF h] by simp
  have off: "ol = 4 * (tcp_off_flags h div 4096) - 20"
    by (simp add: ol_def push_bit_eq_mult drop_bit_int)
  have "tcp_vals r = tcp_vals h" by (simp add: r tcp_vals_def)
  moreover have "nat (20 + ol) = 20 + nat ol" using ol by simp
  ultimately show ?thesis
    using len v ol off by (simp add: r slice_simps nat_add_distrib)
qed

lemma tcp_pack_unpack:
  assumes "tcp_unpack buf = Inr r"
  shows "tcp_bytes r = Inr buf"
proof -
  obtain h where h: "packet_unpack BE tcp_hdr tcp_make buf = Inr h"
    and "tcp_vals r = tcp_vals h"
    using assms by (auto simp: tcp_unpack_def result_simps Let_def tcp_vals_def split: if_splits)
  then have "packet_bytes BE tcp_hdr (tcp_vals r) (drop 20 buf) = Inr buf"
    using tcp_class.pack_unpack [OF h] tcp_class.unpack_vals [OF h] by simp
  then obtain b where "packet_pack_hdr BE tcp_hdr (tcp_vals r) = Inr b" "b @ drop 20 buf = buf"
    by (auto simp: packet_bytes_def result_simps)
  moreover have "tcp_opts r @ tcp_data r = drop 20 buf" using tcp_unpack_ok [OF assms] by blast
  ultimately show ?thesis by (simp add: tcp_bytes_def)
qed

lemma tcp_unpack_pack:
  assumes "exact_all (hdr_fmt tcp_hdr) (tcp_vals r)"
    and "4 * (tcp_off_flags r div 4096) = int (20 + length (tcp_opts r))"
  shows "\<exists>b. tcp_bytes r = Inr b \<and> length b = tcp_len r \<and> tcp_unpack b = Inr r"
proof -
  obtain b where b: "packet_bytes BE tcp_hdr (tcp_vals r) (tcp_opts r @ tcp_data r) = Inr b"
    "length b = packet_len tcp_hdr (tcp_opts r @ tcp_data r)"
    "packet_unpack BE tcp_hdr tcp_make b = Inr (tcp_make (tcp_vals r) (tcp_opts r @ tcp_data r))"
    using tcp_class.unpack_pack [OF assms(1)] by blast
  obtain h where h: "packet_pack_hdr BE tcp_hdr (tcp_vals r) = Inr h" "b = h @ tcp_opts r @ tcp_data r"
    using b(1) by (auto simp: packet_bytes_def result_simps)
  have "length h = 20" using packet_pack_hdr_length [OF h(1)] by simp
  then have "tcp_unpack b = Inr r"
    using b(3) assms(2)
    by (simp add: tcp_unpack_def h(2) Let_def push_bit_eq_mult drop_bit_int tcp_make_def tcp_vals_def
        slice_simps nat_add_distrib)
  then show ?thesis using b(2) h by (simp add: tcp_bytes_def tcp_len_def packet_len_def)
qed

subsection \<open>Options\<close>

text \<open>
  \<^verbatim>\<open>parse_opts\<close>: a list of (option, data) pairs; a lone type byte above NOP ends the list
  with \<^verbatim>\<open>None\<close>. Every option takes at least two bytes, so the loop ends.
\<close>

function parse_opts :: "bytes \<Rightarrow> (int \<times> bytes) option list" where
  "parse_opts buf =
     (case buf of
        [] \<Rightarrow> []
      | b # rest \<Rightarrow>
          (let t = ord b
           in if 1 < t then
                (case py_get buf 1 of
                   Inl _ \<Rightarrow> [None]
                 | Inr b1 \<Rightarrow>
                     (let l = max 2 (ord b1)
                      in Some (t, py_slice buf 2 l) # parse_opts (py_from buf l)))
              else Some (t, []) # parse_opts rest))"
  by pat_completeness auto
termination
  by (relation "measure length") (auto simp: py_from_def)

declare parse_opts.simps [simp del]

lemma parse_opts_simps [simp]:
  "parse_opts [] = []"
  "ord b \<le> 1 \<Longrightarrow> parse_opts (b # r) = Some (ord b, []) # parse_opts r"
  "1 < ord b \<Longrightarrow> parse_opts [b] = [None]"
  by (subst parse_opts.simps, simp add: py_get_def Let_def)+

lemma parse_opts_opt [simp]:
  assumes "1 < ord b"
  shows "parse_opts (b # c # r) =
    Some (ord b, take (nat (ord c) - 2) r) # parse_opts (drop (nat (ord c) - 2) r)"
proof -
  have "py_get (b # c # r) 1 = Inr c" by (simp add: py_get_def)
  moreover have "nat (max 2 (ord c)) = Suc (Suc (nat (ord c) - 2))" by linarith
  ultimately show ?thesis
    using assms by (subst parse_opts.simps) (simp add: Let_def slice_simps)
qed

text \<open>The wire form of an option, and the options a parser can give back.\<close>

definition opt_bytes :: "int \<times> bytes \<Rightarrow> bytes" where
  "opt_bytes = (\<lambda>(t, d). if 1 < t then word_of_int t # word_of_int (int (length d) + 2) # d
                          else [word_of_int t])"

definition opt_ok :: "int \<times> bytes \<Rightarrow> bool" where
  "opt_ok = (\<lambda>(t, d). 0 \<le> t \<and> t < 256 \<and> (if 1 < t then length d \<le> 253 else d = []))"

lemma parse_opts_step:
  assumes ok: "opt_ok x"
  shows "parse_opts (opt_bytes x @ rest) = Some x # parse_opts rest"
proof -
  obtain t d where x: "x = (t, d)" by (cases x)
  have t: "ord (word_of_int t) = t" using ok by (simp add: x opt_ok_def ord_word_of_int)
  show ?thesis
  proof (cases "1 < t")
    case True
    define lb :: byte where "lb = word_of_int (int (length d) + 2)"
    have "ord lb = int (length d) + 2"
      using ok True by (simp only: lb_def ord_word_of_int) (simp add: x opt_ok_def)
    moreover have "opt_bytes x @ rest = word_of_int t # lb # d @ rest"
      using True by (simp add: x opt_bytes_def lb_def)
    ultimately show ?thesis using True t by (simp add: x nat_add_distrib)
  next
    case False
    then show ?thesis using ok t by (simp add: x opt_bytes_def opt_ok_def)
  qed
qed

lemma parse_opts_concat:
  "list_all opt_ok xs \<Longrightarrow> parse_opts (concat (map opt_bytes xs)) = map Some xs"
  by (induction xs) (simp_all add: parse_opts_step)

lemma parse_opts_length: "length (parse_opts buf) \<le> length buf"
proof (induction buf rule: length_induct)
  case (1 buf)
  show ?case
  proof (cases buf)
    case (Cons b r)
    then have IH: "length (parse_opts (drop n r)) \<le> length r - n" for n
      using 1 [rule_format, of "drop n r"] by simp
    show ?thesis
    proof (cases "ord b \<le> 1")
      case True
      then show ?thesis using Cons IH [of 0] by simp
    next
      case False
      show ?thesis
      proof (cases r)
        case (Cons c r')
        have "length (parse_opts (drop k r')) \<le> length r' - k" for k
          using 1 [rule_format, of "drop k r'"] \<open>buf = b # r\<close> Cons by simp
        from this [of "nat (ord c) - 2"] show ?thesis
          using False \<open>buf = b # r\<close> Cons by simp
      qed (use False Cons in simp)
    qed
  qed simp
qed

section \<open>Properties\<close>

text \<open>
  Parsing the bytes of a list of TCP options gives the list back, and parsing any bytes ends with
  at most as many options as bytes.
\<close>

theorem tcp_options_roundtrip:
  assumes "list_all opt_ok xs"
  shows "parse_opts (concat (map opt_bytes xs)) = map Some xs \<and> length (parse_opts buf) \<le> length buf"
  using parse_opts_concat [OF assms] parse_opts_length by simp

theorem tcp_options_roundtrip_witness:
  "parse_opts (concat (map opt_bytes [(2, [5, 0xb4]), (1, []), (3, [7])])) =
     map Some [(2, [5, 0xb4]), (1, []), (3, [7])] \<and> length (parse_opts [2]) \<le> length [2 :: byte]"
  by (rule tcp_options_roundtrip) (simp add: opt_ok_def)

end
