(* ===== verification/Payload.thy ===== *)
theory Payload
  imports Transport
begin

text \<open>
  What a network layer packet carries: raw bytes or a parsed packet of the next protocol.
  The network layer classes dispatch on a registry from protocol numbers to packet classes
  (\<^verbatim>\<open>_protosw\<close>, \<^verbatim>\<open>_typesw\<close>), which the library fills at load time and which
  \<^verbatim>\<open>set_proto\<close> and \<^verbatim>\<open>set_type\<close> change; a registry is a map here, and the classes it holds
  are parameters. What the code calls on a payload is the record \<open>proto_ops\<close>; the locale
  \<open>payload_ops\<close> states what the network layer relies on, and is interpreted on TCP and UDP.
\<close>

datatype 'p payload = Raw bytes | Pkt 'p

type_synonym 'p registry = "int \<rightharpoonup> (bytes \<Rightarrow> 'p result)"

text \<open>
  The dispatch \<^verbatim>\<open>try: self.data = registry[k](buf) except (KeyError, UnpackError)\<close>: an
  unknown key and an unpack error leave the raw bytes; other exceptions pass.
\<close>

definition dispatch :: "'p registry \<Rightarrow> int \<Rightarrow> bytes \<Rightarrow> 'p payload result" where
  "dispatch sw k buf =
     (case sw k of
        None \<Rightarrow> Inr (Raw buf)
      | Some parse \<Rightarrow>
          (case parse buf of
             Inr x \<Rightarrow> Inr (Pkt x)
           | Inl e \<Rightarrow> if e = KeyError \<or> is_unpack_error e then Inr (Raw buf) else Inl e))"

record 'p proto_ops =
  op_bytes :: "'p \<Rightarrow> bytes result"
  op_len :: "'p \<Rightarrow> nat"
  op_sum :: "'p \<Rightarrow> int result"
  op_set_sum :: "int \<Rightarrow> 'p \<Rightarrow> 'p"

definition payload_bytes :: "'p proto_ops \<Rightarrow> 'p payload \<Rightarrow> bytes result" where
  "payload_bytes ops d = (case d of Raw b \<Rightarrow> Inr b | Pkt x \<Rightarrow> op_bytes ops x)"

definition payload_len :: "'p proto_ops \<Rightarrow> 'p payload \<Rightarrow> nat" where
  "payload_len ops d = (case d of Raw b \<Rightarrow> length b | Pkt x \<Rightarrow> op_len ops x)"

lemma payload_simps [simp]:
  "payload_bytes ops (Raw b) = Inr b" "payload_bytes ops (Pkt x) = op_bytes ops x"
  "payload_len ops (Raw b) = length b" "payload_len ops (Pkt x) = op_len ops x"
  by (simp_all add: payload_bytes_def payload_len_def)

text \<open>
  The contract of the upper layer: a parsed packet packs to the bytes it was parsed from, its
  length is that of its bytes, and its checksum is a big endian 16-bit word at an even offset
  that setting \<^verbatim>\<open>sum\<close> rewrites and nothing else does.
\<close>

locale payload_ops =
  fixes ops :: "'p proto_ops"
    and sw :: "'p registry"
  assumes parse_pack: "sw k = Some parse \<Longrightarrow> parse b = Inr x \<Longrightarrow> op_bytes ops x = Inr b"
    and len_bytes: "op_bytes ops x = Inr b \<Longrightarrow> op_len ops x = length b"
    and sum_place: "op_bytes ops x = Inr b \<Longrightarrow> op_sum ops x = Inr s \<Longrightarrow>
      \<exists>pre post. b = pre @ int_bytes BE 2 s @ post \<and> even (length pre) \<and>
        (\<forall>c. 0 \<le> c \<and> c < 65536 \<longrightarrow>
           op_bytes ops (op_set_sum ops c x) = Inr (pre @ int_bytes BE 2 c @ post))"
    and sum_set: "op_sum ops x = Inr s \<Longrightarrow> op_sum ops (op_set_sum ops c x) = Inr c"
begin

lemma dispatch_bytes: "dispatch sw k b = Inr d \<Longrightarrow> payload_bytes ops d = Inr b"
  by (auto simp: dispatch_def parse_pack split: option.splits sum.splits if_splits)

lemma payload_len_bytes: "payload_bytes ops d = Inr b \<Longrightarrow> payload_len ops d = length b"
  by (cases d) (auto simp: len_bytes)

end

section \<open>TCP and UDP as payloads\<close>

datatype transport = T_TCP tcp | T_UDP udp

fun transport_bytes :: "transport \<Rightarrow> bytes result" where
  "transport_bytes (T_TCP t) = tcp_bytes t"
| "transport_bytes (T_UDP u) = udp_bytes u"

fun transport_len :: "transport \<Rightarrow> nat" where
  "transport_len (T_TCP t) = tcp_len t"
| "transport_len (T_UDP u) = packet_len udp_hdr (udp_data u)"

fun transport_sum :: "transport \<Rightarrow> int result" where
  "transport_sum (T_TCP t) = Inr (tcp_sum t)"
| "transport_sum (T_UDP u) = Inr (udp_sum u)"

fun transport_set_sum :: "int \<Rightarrow> transport \<Rightarrow> transport" where
  "transport_set_sum c (T_TCP t) = T_TCP (t\<lparr>tcp_sum := c\<rparr>)"
| "transport_set_sum c (T_UDP u) = T_UDP (u\<lparr>udp_sum := c\<rparr>)"

definition transport_ops :: "transport proto_ops" where
  "transport_ops = \<lparr>op_bytes = transport_bytes, op_len = transport_len,
     op_sum = transport_sum, op_set_sum = transport_set_sum\<rparr>"

text \<open>The registry as \<^verbatim>\<open>_mod_init\<close> fills it, on the protocols modelled here.\<close>

definition transport_sw :: "transport registry" where
  "transport_sw = [6 \<mapsto> \<lambda>b. rbind (tcp_init b) (\<lambda>t. Inr (T_TCP t)),
                   17 \<mapsto> \<lambda>b. rbind (udp_init b) (\<lambda>u. Inr (T_UDP u))]"

lemma udp_bytes_parts:
  "udp_bytes u = Inr b \<longleftrightarrow>
   exact_all (hdr_fmt udp_hdr) (udp_vals u) \<and>
   b = int_bytes BE 2 (udp_sport u) @ int_bytes BE 2 (udp_dport u) @ int_bytes BE 2 (udp_ulen u) @
       int_bytes BE 2 (udp_sum u) @ udp_data u"
  by (auto simp: udp_bytes_def packet_bytes_def pack_hdr_flat udp_hdr_def udp_vals_def
      result_simps simp del: pack1.simps)

lemma tcp_bytes_parts:
  "tcp_bytes t = Inr b \<longleftrightarrow>
   exact_all (hdr_fmt tcp_hdr) (tcp_vals t) \<and>
   b = (int_bytes BE 2 (tcp_sport t) @ int_bytes BE 2 (tcp_dport t) @ int_bytes BE 4 (tcp_seq t) @
        int_bytes BE 4 (tcp_ack t) @ int_bytes BE 2 (tcp_off_flags t) @ int_bytes BE 2 (tcp_win t)) @
       int_bytes BE 2 (tcp_sum t) @ int_bytes BE 2 (tcp_urp t) @ tcp_opts t @ tcp_data t"
  by (auto simp: tcp_bytes_def pack_hdr_flat tcp_hdr_def tcp_vals_def result_simps
      simp del: pack1.simps)

lemma udp_len: "udp_bytes u = Inr b \<Longrightarrow> length b = packet_len udp_hdr (udp_data u)"
  by (auto simp: udp_bytes_parts packet_len_def)

lemma tcp_len: "tcp_bytes t = Inr b \<Longrightarrow> length b = tcp_len t"
  by (auto simp: tcp_bytes_parts tcp_len_def)

lemma udp_sum_place:
  assumes "udp_bytes u = Inr b"
  shows "\<exists>pre post. b = pre @ int_bytes BE 2 (udp_sum u) @ post \<and> even (length pre) \<and>
    (\<forall>c. 0 \<le> c \<and> c < 65536 \<longrightarrow> udp_bytes (u\<lparr>udp_sum := c\<rparr>) = Inr (pre @ int_bytes BE 2 c @ post))"
  using assms
  by (intro exI [of _ "int_bytes BE 2 (udp_sport u) @ int_bytes BE 2 (udp_dport u) @ int_bytes BE 2 (udp_ulen u)"]
      exI [of _ "udp_data u"])
    (auto simp: udp_bytes_parts udp_hdr_def udp_vals_def)

lemma tcp_sum_place:
  assumes "tcp_bytes t = Inr b"
  shows "\<exists>pre post. b = pre @ int_bytes BE 2 (tcp_sum t) @ post \<and> even (length pre) \<and>
    (\<forall>c. 0 \<le> c \<and> c < 65536 \<longrightarrow> tcp_bytes (t\<lparr>tcp_sum := c\<rparr>) = Inr (pre @ int_bytes BE 2 c @ post))"
  using assms
  by (intro exI [of _ "int_bytes BE 2 (tcp_sport t) @ int_bytes BE 2 (tcp_dport t) @
        int_bytes BE 4 (tcp_seq t) @ int_bytes BE 4 (tcp_ack t) @ int_bytes BE 2 (tcp_off_flags t) @
        int_bytes BE 2 (tcp_win t)"]
      exI [of _ "int_bytes BE 2 (tcp_urp t) @ tcp_opts t @ tcp_data t"])
    (auto simp: tcp_bytes_parts tcp_hdr_def tcp_vals_def)

interpretation transport_payload: payload_ops transport_ops transport_sw
proof
  fix k parse b x
  assume "transport_sw k = Some parse" "parse b = Inr x"
  then show "op_bytes transport_ops x = Inr b"
    by (auto simp: transport_sw_def transport_ops_def result_simps udp_init_def udp_unpack_def
        tcp_init_def tcp_pack_unpack udp_bytes_def udp_class.pack_unpack split: if_splits)
next
  fix x b
  assume "op_bytes transport_ops x = Inr b"
  then show "op_len transport_ops x = length b"
    by (cases x) (auto simp: transport_ops_def udp_len tcp_len)
next
  fix x b s
  assume "op_bytes transport_ops x = Inr b" "op_sum transport_ops x = Inr s"
  then show "\<exists>pre post. b = pre @ int_bytes BE 2 s @ post \<and> even (length pre) \<and>
      (\<forall>c. 0 \<le> c \<and> c < 65536 \<longrightarrow>
         op_bytes transport_ops (op_set_sum transport_ops c x) = Inr (pre @ int_bytes BE 2 c @ post))"
    by (cases x) (auto simp: transport_ops_def udp_sum_place tcp_sum_place)
next
  fix x s c
  assume "op_sum transport_ops x = Inr s"
  then show "op_sum transport_ops (op_set_sum transport_ops c x) = Inr c"
    by (cases x) (auto simp: transport_ops_def)
qed

end
