(* ===== verification/Ip.thy ===== *)
theory Ip
  imports Payload
begin

text \<open>
  IPv4, \<^verbatim>\<open>dpkt/ip.py\<close>: the class \<^verbatim>\<open>IP\<close> with its constructor, \<^verbatim>\<open>unpack\<close>, \<^verbatim>\<open>__bytes__\<close> and
  \<^verbatim>\<open>__len__\<close>, the registry of protocols and the table of protocol names. Packing fills in
  the length and the checksums when \<^verbatim>\<open>sum\<close> is zero; it returns the updated packet with the
  bytes, since the code assigns the attributes.
\<close>

section \<open>Protocol names\<close>

text \<open>The \<^verbatim>\<open>IP_PROTO_\<close> constants in the order of the source.\<close>

definition ip_protos :: "(string \<times> int) list" where
  "ip_protos =
    [(''IP'', 0), (''HOPOPTS'', 0), (''ICMP'', 1), (''IGMP'', 2), (''GGP'', 3), (''IPIP'', 4),
     (''ST'', 5), (''TCP'', 6), (''CBT'', 7), (''EGP'', 8), (''IGP'', 9), (''BBNRCC'', 10),
     (''NVP'', 11), (''PUP'', 12), (''ARGUS'', 13), (''EMCON'', 14), (''XNET'', 15),
     (''CHAOS'', 16), (''UDP'', 17), (''MUX'', 18), (''DCNMEAS'', 19), (''HMP'', 20),
     (''PRM'', 21), (''IDP'', 22), (''TRUNK1'', 23), (''TRUNK2'', 24), (''LEAF1'', 25),
     (''LEAF2'', 26), (''RDP'', 27), (''IRTP'', 28), (''TP'', 29), (''NETBLT'', 30),
     (''MFPNSP'', 31), (''MERITINP'', 32), (''SEP'', 33), (''3PC'', 34), (''IDPR'', 35),
     (''XTP'', 36), (''DDP'', 37), (''CMTP'', 38), (''TPPP'', 39), (''IL'', 40), (''IP6'', 41),
     (''SDRP'', 42), (''ROUTING'', 43), (''FRAGMENT'', 44), (''RSVP'', 46), (''GRE'', 47),
     (''MHRP'', 48), (''ENA'', 49), (''ESP'', 50), (''AH'', 51), (''INLSP'', 52), (''SWIPE'', 53),
     (''NARP'', 54), (''MOBILE'', 55), (''TLSP'', 56), (''SKIP'', 57), (''ICMP6'', 58),
     (''NONE'', 59), (''DSTOPTS'', 60), (''ANYHOST'', 61), (''CFTP'', 62), (''ANYNET'', 63),
     (''EXPAK'', 64), (''KRYPTOLAN'', 65), (''RVD'', 66), (''IPPC'', 67), (''DISTFS'', 68),
     (''SATMON'', 69), (''VISA'', 70), (''IPCV'', 71), (''CPNX'', 72), (''CPHB'', 73),
     (''WSN'', 74), (''PVP'', 75), (''BRSATMON'', 76), (''SUNND'', 77), (''WBMON'', 78),
     (''WBEXPAK'', 79), (''EON'', 80), (''VMTP'', 81), (''SVMTP'', 82), (''VINES'', 83),
     (''TTP'', 84), (''NSFIGP'', 85), (''DGP'', 86), (''TCF'', 87), (''EIGRP'', 88),
     (''OSPF'', 89), (''SPRITERPC'', 90), (''LARP'', 91), (''MTP'', 92), (''AX25'', 93),
     (''IPIPENCAP'', 94), (''MICP'', 95), (''SCCSP'', 96), (''ETHERIP'', 97), (''ENCAP'', 98),
     (''ANYENC'', 99), (''GMTP'', 100), (''IFMP'', 101), (''PNNI'', 102), (''PIM'', 103),
     (''ARIS'', 104), (''SCPS'', 105), (''QNX'', 106), (''AN'', 107), (''IPCOMP'', 108),
     (''SNP'', 109), (''COMPAQPEER'', 110), (''IPXIP'', 111), (''VRRP'', 112), (''PGM'', 113),
     (''ANY0HOP'', 114), (''L2TP'', 115), (''DDX'', 116), (''IATP'', 117), (''STP'', 118),
     (''SRP'', 119), (''UTI'', 120), (''SMP'', 121), (''SM'', 122), (''PTP'', 123),
     (''ISIS'', 124), (''FIRE'', 125), (''CRTP'', 126), (''CRUDP'', 127), (''SSCOPMCE'', 128),
     (''IPLT'', 129), (''SPS'', 130), (''PIPE'', 131), (''SCTP'', 132), (''FC'', 133),
     (''RSVPIGN'', 134), (''RAW'', 255), (''RESERVED'', 255), (''MAX'', 255)]"

text \<open>\<^verbatim>\<open>__load_protos\<close> assigns \<^verbatim>\<open>_ip_proto_names[v] = name\<close> in that order: the last one wins.\<close>

definition ip_proto_names :: "int \<rightharpoonup> string" where
  "ip_proto_names = map_of (rev (map (\<lambda>(n, v). (v, n)) ip_protos))"

definition get_ip_proto_name :: "int \<Rightarrow> string option" where
  "get_ip_proto_name p = ip_proto_names p"

section \<open>The packet class\<close>

record 'd ip =
  ip_v_hl :: int
  ip_tos :: int
  ip_len :: int
  ip_id :: int
  ip_flags_offset :: int
  ip_ttl :: int
  ip_p :: int
  ip_sum :: int
  ip_src :: bytes
  ip_dst :: bytes
  ip_opts :: "bytes"
  ip_data :: "'d"

definition ip_hdr :: hdr where
  "ip_hdr =
    [(''_v_hl'', fB, VInt 0x45),
     (''tos'', fB, VInt 0),
     (''len'', fH, VInt 20),
     (''id'', fH, VInt 0),
     (''_flags_offset'', fH, VInt 0),
     (''ttl'', fB, VInt 64),
     (''p'', fB, VInt 0),
     (''sum'', fH, VInt 0),
     (''src'', Str 4, VBytes ([0, 0, 0, 0])),
     (''dst'', Str 4, VBytes ([0, 0, 0, 0]))]"

definition ip_vals :: "'d ip \<Rightarrow> pval list" where
  "ip_vals r =
    [VInt (ip_v_hl r), VInt (ip_tos r), VInt (ip_len r), VInt (ip_id r),
     VInt (ip_flags_offset r), VInt (ip_ttl r), VInt (ip_p r), VInt (ip_sum r),
     VBytes (ip_src r), VBytes (ip_dst r)]"

definition ip_make :: "pval list \<Rightarrow> bytes \<Rightarrow> bytes ip" where
  "ip_make vs d =
    \<lparr>ip_v_hl = ival (vs ! 0), ip_tos = ival (vs ! 1), ip_len = ival (vs ! 2),
     ip_id = ival (vs ! 3), ip_flags_offset = ival (vs ! 4), ip_ttl = ival (vs ! 5),
     ip_p = ival (vs ! 6), ip_sum = ival (vs ! 7), ip_src = bval (vs ! 8), ip_dst = bval (vs ! 9),
     ip_opts = [], ip_data = d\<rparr>"

lemma ip_hdr_len [hdr_simps, simp]: "hdr_len ip_hdr = 20"
  by (simp add: ip_hdr_def)

interpretation ip_class: packet_class BE ip_hdr ip_vals ip_make ip_data
  by unfold_locales (auto simp: ip_hdr_def ip_vals_def ip_make_def fmt_ok_def hdr_simps)

definition ip_v_hl_bits :: bit_fields where
  "ip_v_hl_bits = [(''v'', 4), (''hl'', 4)]"

definition ip_flags_offset_bits :: bit_fields where
  "ip_flags_offset_bits = [(''rf'', 1), (''df'', 1), (''mf'', 1), (''offset'', 13)]"

definition IP_MF :: int where "IP_MF = 0x2000"
definition IP_OFFMASK :: int where "IP_OFFMASK = 0x1fff"

lemma ip_offset_eq: "bf_get ip_flags_offset_bits ''offset'' f = Inr (take_bit 13 f)"
  by (simp add: bf_get_take_bit bf_locate_def ip_flags_offset_bits_def bits_total_def starts_with_def)

text \<open>
  \<^verbatim>\<open>IP.unpack\<close>: options up to the header length, the payload cut to \<^verbatim>\<open>len\<close> when it is not
  zero, and dispatch on the protocol for a packet that is not a later fragment.
\<close>

definition ip_unpack :: "'p registry \<Rightarrow> bytes \<Rightarrow> ('p payload) ip result" where
  "ip_unpack sw buf =
     rbind (packet_unpack BE ip_hdr ip_make buf) (\<lambda>r.
       let ol = push_bit 2 (ip_v_hl r AND 0xf) - int (hdr_len ip_hdr)
       in if ol < 0 then Inl UnpackError
          else
            let opts = py_slice buf (int (hdr_len ip_hdr)) (int (hdr_len ip_hdr) + ol);
                body = (if ip_len r \<noteq> 0 then py_slice buf (int (hdr_len ip_hdr) + ol) (ip_len r)
                        else py_from buf (int (hdr_len ip_hdr) + ol))
            in rbind (bf_get ip_flags_offset_bits ''offset'' (ip_flags_offset r)) (\<lambda>offset.
               rbind (if offset = 0 then dispatch sw (ip_p r) body else Inr (Raw body)) (\<lambda>d.
                 Inr \<lparr>ip_v_hl = ip_v_hl r, ip_tos = ip_tos r, ip_len = ip_len r, ip_id = ip_id r,
                      ip_flags_offset = ip_flags_offset r, ip_ttl = ip_ttl r, ip_p = ip_p r,
                      ip_sum = ip_sum r, ip_src = ip_src r, ip_dst = ip_dst r,
                      ip_opts = opts, ip_data = d\<rparr>)))"

definition ip_init :: "'p registry \<Rightarrow> bytes \<Rightarrow> ('p payload) ip result" where
  "ip_init sw = packet_init (hdr_len ip_hdr) (ip_unpack sw)"

definition ip_pkt_len :: "'p proto_ops \<Rightarrow> ('p payload) ip \<Rightarrow> nat" where
  "ip_pkt_len ops r = hdr_len ip_hdr + length (ip_opts r) + payload_len ops (ip_data r)"

text \<open>The constructor with keywords sets \<^verbatim>\<open>len\<close> when it was not given.\<close>

definition ip_new ::
    "'p proto_ops \<Rightarrow> (string \<times> pval) list \<Rightarrow> bytes \<Rightarrow> 'p payload \<Rightarrow> ('p payload) ip" where
  "ip_new ops kws opts d =
     (let vs = packet_kwargs ip_hdr kws;
          r0 = ip_make vs [];
          r = \<lparr>ip_v_hl = ip_v_hl r0, ip_tos = ip_tos r0, ip_len = ip_len r0, ip_id = ip_id r0,
               ip_flags_offset = ip_flags_offset r0, ip_ttl = ip_ttl r0, ip_p = ip_p r0,
               ip_sum = ip_sum r0, ip_src = ip_src r0, ip_dst = ip_dst r0,
               ip_opts = opts, ip_data = d\<rparr>
      in if map_of kws ''len'' = None then r\<lparr>ip_len := int (ip_pkt_len ops r)\<rparr> else r)"

text \<open>The pseudo header \<^verbatim>\<open>struct.pack('>4s4sxBH', src, dst, p, len(p))\<close>.\<close>

definition ip_pseudo :: "bytes \<Rightarrow> bytes \<Rightarrow> int \<Rightarrow> nat \<Rightarrow> bytes result" where
  "ip_pseudo src dst p n =
     struct_pack BE [Str 4, Str 4, Pad, fB, fH] [VBytes src, VBytes dst, VInt p, VInt (int n)]"

text \<open>
  The transport checksum of \<^verbatim>\<open>IP.__bytes__\<close>: computed over the pseudo header and the packed
  payload, and for UDP a computed zero is sent as all ones.
\<close>

definition ip_transport_sum :: "'p proto_ops \<Rightarrow> ('p payload) ip \<Rightarrow> 'p \<Rightarrow> 'p result" where
  "ip_transport_sum ops r x =
     rbind (op_bytes ops x) (\<lambda>p.
     rbind (ip_pseudo (ip_src r) (ip_dst r) (ip_p r) (length p)) (\<lambda>ph.
     rbind (in_cksum_done (in_cksum_add (in_cksum_add 0 ph) p)) (\<lambda>c.
       Inr (if ip_p r = 17 \<and> c = 0 then op_set_sum ops 0xffff (op_set_sum ops c x)
            else op_set_sum ops c x))))"

definition ip_fill :: "'p proto_ops \<Rightarrow> ('p payload) ip \<Rightarrow> ('p payload) ip result" where
  "ip_fill ops r0 =
     (let r1 = r0\<lparr>ip_len := int (ip_pkt_len ops r0)\<rparr>
      in rbind (packet_pack_hdr BE ip_hdr (ip_vals r1)) (\<lambda>h.
         rbind (in_cksum (h @ ip_opts r1)) (\<lambda>c.
           let r2 = r1\<lparr>ip_sum := c\<rparr>
           in if (ip_p r2 = 6 \<or> ip_p r2 = 17) \<and>
                 ip_flags_offset r2 AND (IP_MF OR IP_OFFMASK) = 0
              then (case ip_data r2 of
                      Raw b \<Rightarrow> Inr r2
                    | Pkt x \<Rightarrow>
                        rbind (op_sum ops x) (\<lambda>s.
                          if s = 0
                          then rbind (ip_transport_sum ops r2 x) (\<lambda>x'. Inr (r2\<lparr>ip_data := Pkt x'\<rparr>))
                          else Inr r2))
              else Inr r2)))"

definition ip_bytes :: "'p proto_ops \<Rightarrow> ('p payload) ip \<Rightarrow> (bytes \<times> ('p payload) ip) result" where
  "ip_bytes ops r0 =
     rbind (if ip_sum r0 = 0 then ip_fill ops r0 else Inr r0) (\<lambda>r.
     rbind (packet_pack_hdr BE ip_hdr (ip_vals r)) (\<lambda>h.
     rbind (payload_bytes ops (ip_data r)) (\<lambda>b.
       Inr (h @ ip_opts r @ b, r))))"

section \<open>What packing and unpacking guarantee\<close>

lemma ip_hdr_parts:
  "packet_pack_hdr BE ip_hdr (ip_vals r) = Inr h \<Longrightarrow>
   \<exists>pre post. length pre = 10 \<and> length post = 8 \<and> h = pre @ int_bytes BE 2 (ip_sum r) @ post \<and>
     (\<forall>c d. 0 \<le> c \<and> c < 65536 \<longrightarrow>
        packet_pack_hdr BE ip_hdr (ip_vals (r\<lparr>ip_sum := c, ip_data := d\<rparr>)) =
          Inr (pre @ int_bytes BE 2 c @ post))"
  by (intro exI [of _ "int_bytes BE 1 (ip_v_hl r) @ int_bytes BE 1 (ip_tos r) @ int_bytes BE 2 (ip_len r) @
        int_bytes BE 2 (ip_id r) @ int_bytes BE 2 (ip_flags_offset r) @ int_bytes BE 1 (ip_ttl r) @
        int_bytes BE 1 (ip_p r)"]
      exI [of _ "(take 4 (ip_src r) @ zeros (4 - length (ip_src r))) @
        take 4 (ip_dst r) @ zeros (4 - length (ip_dst r))"])
    (auto simp: pack_hdr_flat ip_hdr_def ip_vals_def result_simps simp del: pack1.simps)

lemma ip_fill_data_sum:
  assumes "ip_fill ops r0 = Inr r"
  shows "\<exists>h c d. packet_pack_hdr BE ip_hdr (ip_vals (r0\<lparr>ip_len := int (ip_pkt_len ops r0)\<rparr>)) = Inr h \<and>
    in_cksum (h @ ip_opts r0) = Inr c \<and>
    r = r0\<lparr>ip_len := int (ip_pkt_len ops r0), ip_sum := c, ip_data := d\<rparr>"
proof -
  obtain h c where h: "packet_pack_hdr BE ip_hdr (ip_vals (r0\<lparr>ip_len := int (ip_pkt_len ops r0)\<rparr>)) = Inr h"
    "in_cksum (h @ ip_opts r0) = Inr c"
    using assms by (auto simp: ip_fill_def Let_def result_simps)
  let ?r2 = "r0\<lparr>ip_len := int (ip_pkt_len ops r0), ip_sum := c\<rparr>"
  have "r = ?r2 \<or> (\<exists>d. r = ?r2\<lparr>ip_data := d\<rparr>)"
    using assms h
    by (auto simp: ip_fill_def Let_def result_simps split: if_splits payload.splits)
  moreover have "?r2 = ?r2\<lparr>ip_data := ip_data ?r2\<rparr>" by simp
  ultimately have "\<exists>d. r = ?r2\<lparr>ip_data := d\<rparr>" by metis
  then show ?thesis using h by auto
qed

text \<open>The header checksum that packing computes verifies.\<close>

lemma ip_bytes_header_checksum:
  assumes "ip_bytes ops r0 = Inr (b, r)" "ip_sum r0 = 0" "length (ip_opts r0) \<le> 1000"
  shows "in_cksum (take (20 + length (ip_opts r0)) b) = Inr 0"
proof -
  obtain h body where f: "ip_fill ops r0 = Inr r"
    and h: "packet_pack_hdr BE ip_hdr (ip_vals r) = Inr h" and b: "b = h @ ip_opts r @ body"
    using assms(1,2) by (auto simp: ip_bytes_def result_simps)
  let ?r1 = "r0\<lparr>ip_len := int (ip_pkt_len ops r0)\<rparr>"
  obtain h1 c d where h1: "packet_pack_hdr BE ip_hdr (ip_vals ?r1) = Inr h1"
    and c: "in_cksum (h1 @ ip_opts r0) = Inr c"
    and r: "r = ?r1\<lparr>ip_sum := c, ip_data := d\<rparr>"
    using ip_fill_data_sum [OF f] by auto
  obtain pre post where p: "length pre = 10" "length post = 8"
    "h1 = pre @ int_bytes BE 2 (ip_sum ?r1) @ post"
    "\<forall>c d. 0 \<le> c \<and> c < 65536 \<longrightarrow>
        packet_pack_hdr BE ip_hdr (ip_vals (?r1\<lparr>ip_sum := c, ip_data := d\<rparr>)) =
          Inr (pre @ int_bytes BE 2 c @ post)"
    using ip_hdr_parts [OF h1] by blast
  have cr: "0 \<le> c" "c < 65536" using in_cksum_ok [of "h1 @ ip_opts r0"] c by auto
  then have "h = pre @ int_bytes BE 2 c @ post" using p(4) h unfolding r by auto
  moreover have "in_cksum (pre @ [0, 0] @ (post @ ip_opts r0)) = Inr c"
    using c p(3) assms(2) by (simp add: int_bytes_BE2_zero)
  then have "in_cksum (pre @ int_bytes BE 2 c @ (post @ ip_opts r0)) = Inr 0"
    using p(1,2) assms(3) by (intro in_cksum_verifies) auto
  ultimately show ?thesis using b p(1,2) r by simp
qed

context payload_ops
begin

text \<open>
  Parsing then packing gives the datagram back, cut at the length field (or at the header when
  the length field is smaller than the header); a zero length field keeps everything.
\<close>

lemma ip_pack_unpack:
  assumes u: "ip_unpack sw buf = Inr r" and s: "ip_sum r \<noteq> 0"
  shows "ip_bytes ops r =
    Inr (if ip_len r = 0 then buf
         else take (max (nat (ip_len r)) (nat (push_bit 2 (ip_v_hl r AND 0xf)))) buf, r)"
proof -
  obtain h where h: "packet_unpack BE ip_hdr ip_make buf = Inr h"
    using u by (auto simp: ip_unpack_def result_simps)
  define hl where "hl = nat (push_bit 2 (ip_v_hl h AND 0xf))"
  define body where "body = (if ip_len h \<noteq> 0 then py_slice buf (int hl) (ip_len h) else drop hl buf)"
  have nn: "0 \<le> push_bit 2 (ip_v_hl h AND 0xf)" by simp
  have hl: "20 \<le> hl"
    using u h nn by (auto simp: ip_unpack_def Let_def hl_def result_simps split: if_splits)
  have "20 + (push_bit 2 (ip_v_hl h AND 0xf) - 20) = int hl" using nn by (simp add: hl_def)
  then obtain d where d: "ip_data r = d" "payload_bytes ops d = Inr body"
    and r: "ip_vals r = ip_vals h" "ip_opts r = py_slice buf 20 (int hl)" "ip_len r = ip_len h"
      "ip_v_hl r = ip_v_hl h"
    using u h hl dispatch_bytes
    by (auto simp: ip_unpack_def Let_def result_simps ip_vals_def body_def py_from_nonneg split: if_splits)
  have ln: "0 \<le> ip_len h"
    using ip_class.unpack_vals [OF h] by (auto simp: ip_hdr_def ip_vals_def hdr_simps)
  have "packet_bytes BE ip_hdr (ip_vals r) (drop 20 buf) = Inr buf"
    using ip_class.pack_unpack [OF h] ip_class.unpack_vals [OF h] r by simp
  then obtain hb where hb: "packet_pack_hdr BE ip_hdr (ip_vals r) = Inr hb" "hb @ drop 20 buf = buf"
    by (auto simp: packet_bytes_def result_simps)
  have "length hb = 20" using packet_pack_hdr_length [OF hb(1)] by simp
  then have hb': "hb = take 20 buf" using hb(2) by (metis append_eq_conv_conj)
  have "hb @ ip_opts r = take hl buf"
    using hl by (simp add: r hb' py_slice_nonneg) (metis le_add_diff_inverse take_add)
  then have "hb @ ip_opts r @ body = take hl buf @ body" by (metis append.assoc)
  also have "\<dots> = (if ip_len r = 0 then buf else take (max (nat (ip_len r)) hl) buf)"
    using ln by (auto simp: body_def r py_slice_nonneg max_def) (metis le_add_diff_inverse take_add nat_le_linear)+
  finally show ?thesis using s hb d r by (simp add: ip_bytes_def hl_def)
qed

text \<open>The transport checksum that packing computes verifies against the pseudo header.\<close>

lemma ip_transport_sum_verifies:
  assumes "ip_transport_sum ops r x = Inr x'" "op_sum ops x = Inr 0"
    and "op_bytes ops x = Inr p" "length p \<le> 65535"
  shows "\<exists>ph p'. ip_pseudo (ip_src r) (ip_dst r) (ip_p r) (length p') = Inr ph \<and>
    op_bytes ops x' = Inr p' \<and> length p' = length p \<and> in_cksum (ph @ p') = Inr 0"
proof -
  obtain ph c where ph: "ip_pseudo (ip_src r) (ip_dst r) (ip_p r) (length p) = Inr ph"
    and c: "in_cksum_done (in_cksum_add (in_cksum_add 0 ph) p) = Inr c"
    and x': "x' = (if ip_p r = 17 \<and> c = 0 then op_set_sum ops 0xffff (op_set_sum ops c x)
                   else op_set_sum ops c x)"
    using assms(1,3) by (auto simp: ip_transport_sum_def result_simps)
  have lph: "length ph = 12"
    using struct_pack_length [OF ph [unfolded ip_pseudo_def]] by simp
  obtain pre post where p: "p = pre @ [0, 0] @ post" "even (length pre)"
    "\<forall>c. 0 \<le> c \<and> c < 65536 \<longrightarrow> op_bytes ops (op_set_sum ops c x) = Inr (pre @ int_bytes BE 2 c @ post)"
    using sum_place [OF assms(3,2)] by (auto simp: int_bytes_BE2_zero)
  have c1: "in_cksum ((ph @ pre) @ [0, 0] @ post) = Inr c"
    using c lph by (simp add: in_cksum_def in_cksum_add_append p(1))
  then have cr: "0 \<le> c" "c < 65536" using in_cksum_ok [of "(ph @ pre) @ [0, 0] @ post"] by auto
  have len: "length (ph @ pre) + length post \<le> 131000" "even (length (ph @ pre))"
    using assms(4) lph p by auto
  have v: "in_cksum ((ph @ pre) @ int_bytes BE 2 c @ post) = Inr 0"
    by (rule in_cksum_verifies [OF len(2,1) c1])
  show ?thesis
  proof (cases "ip_p r = 17 \<and> c = 0")
    case False
    then have "x' = op_set_sum ops c x" using x' by auto
    then have "op_bytes ops x' = Inr (pre @ int_bytes BE 2 c @ post)" using p(3) cr by simp
    then show ?thesis using ph v p(1) by auto
  next
    case True
    have "op_bytes ops (op_set_sum ops 0 x) = Inr (pre @ int_bytes BE 2 0 @ post)" using p(3) by simp
    moreover have "op_sum ops (op_set_sum ops 0 x) = Inr 0" using sum_set [OF assms(2)] .
    ultimately obtain pre2 post2 where q: "pre @ [0, 0] @ post = pre2 @ [0, 0] @ post2" "even (length pre2)"
      "op_bytes ops x' = Inr (pre2 @ int_bytes BE 2 0xffff @ post2)"
      using sum_place [of "op_set_sum ops 0 x"] True x' by (fastforce simp: int_bytes_BE2_zero)
    have lq: "length pre2 + length post2 = length pre + length post"
      using arg_cong [OF q(1), of length] by simp
    have "in_cksum ((ph @ pre2) @ [0, 0] @ post2) = Inr 0"
      using c1 True q(1) by simp
    moreover have "length (ph @ pre2) + length post2 \<le> 131000" "even (length (ph @ pre2))"
      using len(1) lph q(2) lq by auto
    ultimately have "in_cksum ((ph @ pre2) @ int_bytes BE 2 0xffff @ post2) = Inr 0"
      by (intro in_cksum_all_ones) auto
    then show ?thesis using ph q(3) p(1) lq by auto
  qed
qed

text \<open>The length of a datagram is the length of its bytes, with or without filling in.\<close>

lemma ip_transport_sum_length:
  assumes "ip_transport_sum ops r x = Inr x'" "op_sum ops x = Inr 0" "op_bytes ops x' = Inr b"
  shows "length b = op_len ops x"
proof -
  obtain p ph where p: "op_bytes ops x = Inr p" "ip_pseudo (ip_src r) (ip_dst r) (ip_p r) (length p) = Inr ph"
    using assms(1) by (auto simp: ip_transport_sum_def result_simps)
  then have "length p \<le> 65535"
    by (auto simp: ip_pseudo_def result_simps pack1_iff simp del: pack1.simps)
  then have "length b = length p"
    using ip_transport_sum_verifies [OF assms(1,2) p(1)] assms(3) by auto
  then show ?thesis using len_bytes [OF p(1)] by simp
qed

lemma ip_len_bytes:
  assumes "ip_bytes ops r0 = Inr (b, r)"
  shows "length b = ip_pkt_len ops r0"
proof -
  obtain h body where h: "packet_pack_hdr BE ip_hdr (ip_vals r) = Inr h"
    "payload_bytes ops (ip_data r) = Inr body" "b = h @ ip_opts r @ body"
    using assms by (auto simp: ip_bytes_def result_simps)
  have "ip_opts r = ip_opts r0 \<and> length body = payload_len ops (ip_data r0)"
  proof (cases "ip_sum r0 = 0")
    case False
    then have "r = r0" using assms by (auto simp: ip_bytes_def result_simps)
    then show ?thesis using payload_len_bytes h(2) by simp
  next
    case True
    then have f: "ip_fill ops r0 = Inr r" using assms by (auto simp: ip_bytes_def result_simps)
    then have op: "ip_opts r = ip_opts r0" using ip_fill_data_sum [OF f] by auto
    have "ip_data r = ip_data r0 \<or> (\<exists>x x' r2. ip_data r0 = Pkt x \<and> ip_data r = Pkt x' \<and>
        op_sum ops x = Inr 0 \<and> ip_transport_sum ops r2 x = Inr x')"
      using f by (cases "ip_data r0") (auto simp: ip_fill_def Let_def result_simps split: if_splits)
    then show ?thesis
    proof (elim disjE exE conjE)
      assume "ip_data r = ip_data r0"
      then show ?thesis using payload_len_bytes h(2) op by simp
    next
      fix x x' r2
      assume s: "ip_data r0 = Pkt x" "ip_data r = Pkt x'" "op_sum ops x = Inr 0"
        "ip_transport_sum ops r2 x = Inr x'"
      then show ?thesis using ip_transport_sum_length [OF s(4,3)] h(2) op by simp
    qed
  qed
  then show ?thesis using h packet_pack_hdr_length [OF h(1)] by (simp add: ip_pkt_len_def)
qed

end

end
