(* ===== verification/Items.thy ===== *)
theory Items
  imports Packet
begin

text \<open>
  What the protocol modules share beyond the framework of \<^verbatim>\<open>dpkt/dpkt.py\<close>: the reads of one
  byte or one integer at an offset, the loops that read fixed-size records while they fit, the
  loops that read items which announce their own size, and the same operation applied to every
  element of a list with the first error as the result.

  The locale \<open>item_loop\<close> is the contract of one round of such a loop: a round consumes
  something, reads back an item that was written in front of anything, and stops at the end.
  Its lemma gives the round trip of the whole list; every module with such a loop interprets it.
\<close>

section \<open>Single fields\<close>

definition byte_at :: "bytes \<Rightarrow> nat \<Rightarrow> int result" where
  "byte_at buf i = rbind (py_get buf (int i)) (\<lambda>b. Inr (ord b))"

definition uint_at :: "bytes \<Rightarrow> nat \<Rightarrow> nat \<Rightarrow> int result" where
  "uint_at buf i n = unpack_uint BE n (take n (drop i buf))"

text \<open>\<^verbatim>\<open>bytes([i])\<close>.\<close>

definition py_byte :: "int \<Rightarrow> bytes result" where
  "py_byte i = (if 0 \<le> i \<and> i < 256 then Inr [word_of_int i] else Inl ValueError)"

text \<open>
  The 24-bit field idiom: \<^verbatim>\<open>struct.unpack('>I', b + b'\x00')[0] >> 8\<close> and
  \<^verbatim>\<open>struct.pack('>I', v << 8)[:3]\<close>.
\<close>

definition unpack_u24 :: "bytes \<Rightarrow> int result" where
  "unpack_u24 b = rbind (unpack_uint BE 4 (b @ [0])) (\<lambda>i. Inr (drop_bit 8 i))"

definition pack_u24 :: "int \<Rightarrow> bytes result" where
  "pack_u24 v = rbind (pack_uint BE 4 (push_bit 8 v)) (\<lambda>b. Inr (take 3 b))"

text \<open>\<^verbatim>\<open>(prefix_length + 7) // 8\<close>, the octets of a prefix.\<close>

definition prefix_bytes :: "int \<Rightarrow> nat" where
  "prefix_bytes l = nat ((l + 7) div 8)"

definition get_int :: "hdr \<Rightarrow> string \<Rightarrow> pval list \<Rightarrow> int" where
  "get_int h n vs = (case map_of (zip (hdr_fields h) vs) n of Some v \<Rightarrow> ival v | None \<Rightarrow> 0)"

definition set_val :: "hdr \<Rightarrow> string \<Rightarrow> pval \<Rightarrow> pval list \<Rightarrow> pval list" where
  "set_val h n v vs = map (\<lambda>(m, w). if m = n then v else w) (zip (hdr_fields h) vs)"

lemma py_byte_iff [result_simps]: "py_byte i = Inr b \<longleftrightarrow> 0 \<le> i \<and> i < 256 \<and> b = [word_of_int i]"
  by (auto simp: py_byte_def)

lemma byte_at_simps [simp]:
  "byte_at (b # bs) 0 = Inr (ord b)"
  "byte_at (b # bs) (Suc i) = byte_at bs i"
  "byte_at (b # bs) (numeral k) = byte_at bs (pred_numeral k)"
  "byte_at [] i = Inl IndexError"
  by (simp_all add: byte_at_def py_get_def nat_add_distrib numeral_eq_Suc)

lemma byte_at_append [simp]: "length a \<le> n \<Longrightarrow> byte_at (a @ b) n = byte_at b (n - length a)"
  by (auto simp: byte_at_def py_get_def nth_append nat_diff_distrib)

lemma uint_at_append [simp]:
  "length a \<le> i \<Longrightarrow> uint_at (a @ b) i n = uint_at b (i - length a) n"
  "length a = n \<Longrightarrow> uint_at (a @ b) 0 n = unpack_uint BE n a"
  "length a = n \<Longrightarrow> uint_at a 0 n = unpack_uint BE n a"
  by (simp_all add: uint_at_def)

lemma uint_at_Cons [simp]:
  "uint_at (x # b) (Suc i) n = uint_at b i n"
  "uint_at (x # b) (numeral k) n = uint_at b (pred_numeral k) n"
  by (simp_all add: uint_at_def numeral_eq_Suc)

lemma pack_uint_unpack:
  "pack_uint bo n v = Inr b \<Longrightarrow> length b = n \<and> unpack_uint bo n b = Inr v \<and> 0 \<le> v \<and> v < 256 ^ n"
  by (auto simp: pack_uint_eq unpack_uint_def bytes_int_int_bytes split: if_splits)

lemma ord_word_range: "0 \<le> i \<Longrightarrow> i < 256 \<Longrightarrow> ord (word_of_int i) = i"
  by (simp add: ord_word_of_int)

lemma be_bytes_Suc: "be_bytes (Suc n) v = be_bytes n (v div 256) @ [word_of_int v]"
  by (simp add: be_bytes_def)

lemma be_bytes_high: "be_bytes (Suc n) v = word_of_int (v div 256 ^ n) # be_bytes n v"
proof (induction n arbitrary: v)
  case 0
  then show ?case by (simp add: be_bytes_def)
next
  case (Suc n)
  have "be_bytes (Suc (Suc n)) v = be_bytes (Suc n) (v div 256) @ [word_of_int v]" by (rule be_bytes_Suc)
  also have "\<dots> = word_of_int (v div 256 div 256 ^ n) # be_bytes n (v div 256) @ [word_of_int v]"
    by (simp only: Suc append_Cons)
  also have "v div 256 div 256 ^ n = v div 256 ^ Suc n" by (simp add: zdiv_zmult2_eq)
  finally show ?case by (simp only: be_bytes_Suc [of n v])
qed

lemma pack_u24_eq: "pack_u24 v = (if 0 \<le> v \<and> v < 256 ^ 3 then Inr (be_bytes 3 v) else Inl StructError)"
proof -
  have z: "(word_of_int (v * 256) :: byte) = 0"
    using ord_word_of_int [of "v * 256"] by (simp only: flip: ord_inject) simp
  have "be_bytes (Suc 3) (v * 256) = be_bytes 3 v @ [0]"
    unfolding be_bytes_Suc by (simp only: z) simp
  then have "take 3 (be_bytes 4 (v * 256)) = be_bytes 3 v" by (simp add: numeral_eq_Suc)
  then show ?thesis
    by (simp add: pack_u24_def pack_uint_eq push_bit_eq_mult int_bytes_def)
qed

lemma unpack_u24_be: "0 \<le> v \<Longrightarrow> v < 256 ^ 3 \<Longrightarrow> unpack_u24 (be_bytes 3 v) = Inr v"
proof -
  assume v: "0 \<le> v" "v < 256 ^ 3"
  have z: "(word_of_int (v * 256) :: byte) = 0"
    using ord_word_of_int [of "v * 256"] by (simp only: flip: ord_inject) simp
  have "be_bytes (Suc 3) (v * 256) = be_bytes 3 v @ [0]"
    unfolding be_bytes_Suc by (simp only: z) simp
  then have "be_bytes 3 v @ [0] = be_bytes 4 (v * 256)" by (simp add: numeral_eq_Suc)
  then show "unpack_u24 (be_bytes 3 v) = Inr v"
    using v by (simp add: unpack_u24_def unpack_uint_def bytes_int_def be_int_be_bytes drop_bit_int)
qed

lemma pack_u24_unpack: "pack_u24 v = Inr b \<Longrightarrow> length b = 3 \<and> unpack_u24 b = Inr v"
  by (auto simp: pack_u24_eq unpack_u24_be split: if_splits)

section \<open>Header fields by name\<close>

lemma get_int_Cons: "get_int ((n, f, d) # h) m (v # vs) = (if n = m then ival v else get_int h m vs)"
  by (simp add: get_int_def hdr_fields_def)

lemma set_val_Cons: "set_val ((n, f, d) # h) m w (v # vs) = (if n = m then w else v) # set_val h m w vs"
  by (simp add: set_val_def hdr_fields_def)

lemma set_val_exact:
  assumes "exact_all (hdr_fmt h) vs" "Pad \<notin> set (hdr_fmt h)" "\<forall>(m, f, d) \<in> set h. m = n \<longrightarrow> exact f w"
  shows "exact_all (hdr_fmt h) (set_val h n w vs)"
  using assms
proof (induction h arbitrary: vs)
  case Nil
  then show ?case by (simp add: set_val_def hdr_fields_def)
next
  case (Cons x h)
  obtain m f d where x: "x = (m, f, d)" by (cases x) auto
  then obtain v vs' where "vs = v # vs'" "exact f v" "exact_all (hdr_fmt h) vs'"
    using Cons.prems by (auto split: if_splits)
  then show ?case using Cons x by (auto simp: set_val_Cons)
qed

lemma get_set_val:
  assumes "exact_all (hdr_fmt h) vs" "Pad \<notin> set (hdr_fmt h)" "distinct (hdr_fields h)"
  shows "get_int h m (set_val h n w vs) = (if m = n \<and> n \<in> set (hdr_fields h) then ival w else get_int h m vs)"
  using assms
proof (induction h arbitrary: vs)
  case Nil
  then show ?case by (simp add: set_val_def hdr_fields_def)
next
  case (Cons x h)
  obtain k f d where x: "x = (k, f, d)" by (cases x) auto
  then obtain v vs' where "vs = v # vs'" "exact_all (hdr_fmt h) vs'"
    using Cons.prems by (auto split: if_splits)
  then show ?case using Cons x by (simp add: set_val_Cons get_int_Cons hdr_fields_def) (force simp: image_iff)
qed

lemma set_val_idem: "set_val h n v (set_val h n v vs) = set_val h n v vs"
  by (induction h arbitrary: vs)
    (auto simp: set_val_def hdr_fields_def zip_Cons1 split: list.splits)

lemma set_val_fresh: "n \<notin> set (hdr_fields h) \<Longrightarrow> length vs = length h \<Longrightarrow> set_val h n v vs = vs"
proof (induction h arbitrary: vs)
  case (Cons x h)
  then show ?case by (cases x; cases vs) (auto simp: set_val_Cons hdr_fields_def)
qed (simp add: set_val_def hdr_fields_def)

lemma set_val_same:
  "exact_all (hdr_fmt h) vs \<Longrightarrow> Pad \<notin> set (hdr_fmt h) \<Longrightarrow> distinct (hdr_fields h) \<Longrightarrow>
   (n, UI k, d) \<in> set h \<Longrightarrow> get_int h n vs = i \<Longrightarrow> set_val h n (VInt i) vs = vs"
proof (induction h arbitrary: vs)
  case (Cons x h)
  obtain m f e where x: "x = (m, f, e)" by (cases x) auto
  then obtain v vs' where v: "vs = v # vs'" "exact f v" "exact_all (hdr_fmt h) vs'"
    using Cons.prems by (auto split: if_splits)
  show ?case
  proof (cases "m = n")
    case True
    have n: "n \<notin> set (map fst h)" using Cons.prems(3) x True by (simp add: hdr_fields_def)
    then have "f = UI k" using Cons.prems(4) x True by (auto simp: image_iff)
    moreover have "length vs' = length h" using exact_all_length [OF v(3)] Cons.prems(2) x by (auto simp: hdr_fmt_def)
    then have "set_val h n w vs' = vs'" for w using n set_val_fresh [of n h vs'] by (simp add: hdr_fields_def)
    ultimately show ?thesis
      using v x True Cons.prems(5) by (auto simp: set_val_Cons get_int_Cons exact_U)
  next
    case False
    then show ?thesis using Cons v x by (auto simp: set_val_Cons get_int_Cons hdr_fields_def)
  qed
qed simp

text \<open>The integer at the place of a field in the packed header is the field's value.\<close>

lemma hdr_field_split:
  assumes "exact_all (hdr_fmt (h1 @ (n, UI k, d) # h2)) vs" "Pad \<notin> set (hdr_fmt h1)"
    "struct_pack bo (hdr_fmt (h1 @ (n, UI k, d) # h2)) vs = Inr b" "n \<notin> set (hdr_fields h1)"
  shows "bytes_int bo (take k (drop (hdr_len h1) (b @ r))) = get_int (h1 @ (n, UI k, d) # h2) n vs \<and>
    length (take k (drop (hdr_len h1) (b @ r))) = k"
  using assms
proof (induction h1 arbitrary: vs b)
  case Nil
  then show ?case
    by (auto simp: result_simps get_int_Cons exact_U bytes_int_int_bytes split: if_splits)
next
  case (Cons x h1)
  obtain m f e where x: "x = (m, f, e)" by (cases x) auto
  then show ?case using Cons
    by (auto simp: result_simps get_int_Cons hdr_fields_def pack1_length split: if_splits)
qed

lemma hdr_field_read:
  assumes "i < length h" "h ! i = (n, UI k, d)" "Pad \<notin> set (hdr_fmt h)" "distinct (hdr_fields h)"
    "exact_all (hdr_fmt h) vs" "struct_pack bo (hdr_fmt h) vs = Inr b"
  shows "bytes_int bo (take k (drop (hdr_len (take i h)) (b @ r))) = get_int h n vs \<and>
    length (take k (drop (hdr_len (take i h)) (b @ r))) = k"
proof -
  have h: "h = take i h @ (n, UI k, d) # drop (Suc i) h"
    using assms(1,2) by (metis id_take_nth_drop)
  have "distinct (hdr_fields (take i h @ (n, UI k, d) # drop (Suc i) h))" using assms(4) h by simp
  then have n: "n \<notin> set (hdr_fields (take i h))" by (auto simp: hdr_fields_def)
  have p: "Pad \<notin> set (hdr_fmt (take i h))"
    using assms(3) by (force simp: hdr_fmt_def dest: in_set_takeD)
  show ?thesis
    using hdr_field_split [of "take i h" n k d "drop (Suc i) h" vs bo b r] assms(5,6) n p h by simp
qed

text \<open>Setting an integer field changes its bytes in the packed header and no others.\<close>

lemma hdr_field_write_split:
  assumes "exact_all (hdr_fmt (h1 @ (n, UI k, d) # h2)) vs" "Pad \<notin> set (hdr_fmt (h1 @ h2))"
    "struct_pack bo (hdr_fmt (h1 @ (n, UI k, d) # h2)) vs = Inr b"
    "n \<notin> set (hdr_fields h1)" "n \<notin> set (hdr_fields h2)" "0 \<le> c" "c < 256 ^ k"
  shows "struct_pack bo (hdr_fmt (h1 @ (n, UI k, d) # h2)) (set_val (h1 @ (n, UI k, d) # h2) n (VInt c) vs) =
    Inr (take (hdr_len h1) b @ int_bytes bo k c @ drop (hdr_len h1 + k) b)"
  using assms(1-4)
proof (induction h1 arbitrary: vs b)
  case Nil
  then obtain v vs' where v: "vs = v # vs'" "exact (UI k) v" "exact_all (hdr_fmt h2) vs'" by auto
  have "length vs' = length h2" using exact_all_length [OF v(3)] Nil.prems(2) by (simp add: hdr_fmt_def)
  then have "set_val h2 n w vs' = vs'" for w using assms(5) set_val_fresh by blast
  then show ?case
    using Nil.prems(3) v assms(6,7) by (auto simp: rbind_Inr_iff set_val_Cons exact_U)
next
  case (Cons x h1)
  obtain m f e where x: "x = (m, f, e)" by (cases x) auto
  then obtain v vs' where v: "vs = v # vs'" "exact f v" "exact_all (hdr_fmt (h1 @ (n, UI k, d) # h2)) vs'"
    using Cons.prems(1,2) by auto
  then show ?case using Cons x
    by (auto simp: rbind_Inr_iff set_val_Cons hdr_fields_def pack1_length add.assoc)
qed

lemma hdr_field_write:
  assumes "i < length h" "h ! i = (n, UI k, d)" "Pad \<notin> set (hdr_fmt h)" "distinct (hdr_fields h)"
    "exact_all (hdr_fmt h) vs" "struct_pack bo (hdr_fmt h) vs = Inr b" "0 \<le> c" "c < 256 ^ k"
  shows "struct_pack bo (hdr_fmt h) (set_val h n (VInt c) vs) =
    Inr (take (hdr_len (take i h)) b @ int_bytes bo k c @ drop (hdr_len (take i h) + k) b)"
proof -
  have h: "h = take i h @ (n, UI k, d) # drop (Suc i) h"
    using assms(1,2) by (metis id_take_nth_drop)
  have "distinct (hdr_fields (take i h @ (n, UI k, d) # drop (Suc i) h))" using assms(4) h by simp
  then have n: "n \<notin> set (hdr_fields (take i h))" "n \<notin> set (hdr_fields (drop (Suc i) h))"
    by (auto simp: hdr_fields_def)
  have p: "Pad \<notin> set (hdr_fmt (take i h @ drop (Suc i) h))"
    using assms(3) by (force simp: hdr_fmt_def dest: in_set_takeD in_set_dropD)
  show ?thesis
    using hdr_field_write_split [of "take i h" n k d "drop (Suc i) h" vs bo b c] assms(5-8) n p h by simp
qed

section \<open>The same operation on every element\<close>

fun map_result :: "('a \<Rightarrow> 'b result) \<Rightarrow> 'a list \<Rightarrow> 'b list result" where
  "map_result f [] = Inr []"
| "map_result f (x # xs) = rbind (f x) (\<lambda>y. rbind (map_result f xs) (\<lambda>ys. Inr (y # ys)))"

lemma map_result_append:
  "map_result f (xs @ ys) = rbind (map_result f xs) (\<lambda>us. rbind (map_result f ys) (\<lambda>vs. Inr (us @ vs)))"
  by (induction xs) (simp_all add: rbind_assoc)

lemma map_result_same: "(\<forall>x \<in> set xs. f x = Inr x) \<Longrightarrow> map_result f xs = Inr xs"
  by (induction xs) auto

lemma map_result_length: "map_result f xs = Inr ys \<Longrightarrow> length ys = length xs"
  by (induction xs arbitrary: ys) (auto simp: result_simps)

lemma map_result_concat_length:
  "map_result f xs = Inr ys \<Longrightarrow> (\<And>x y. f x = Inr y \<Longrightarrow> length y = n x) \<Longrightarrow>
   length (concat ys) = sum_list (map n xs)"
  by (induction xs arbitrary: ys) (auto simp: result_simps)

lemma map_result_list_all2:
  "map_result f xs = Inr ys \<longleftrightarrow> list_all2 (\<lambda>x y. f x = Inr y) xs ys"
  by (induction xs arbitrary: ys) (auto simp: result_simps list_all2_Cons1)

text \<open>\<^verbatim>\<open>b''.join(f(x) for x in xs)\<close>.\<close>

definition concat_result :: "('a \<Rightarrow> bytes result) \<Rightarrow> 'a list \<Rightarrow> bytes result" where
  "concat_result f xs = rbind (map_result f xs) (\<lambda>bs. Inr (concat bs))"

lemma concat_result_simps [simp]:
  "concat_result f [] = Inr []"
  "concat_result f (x # xs) = rbind (f x) (\<lambda>a. rbind (concat_result f xs) (\<lambda>b. Inr (a @ b)))"
  by (simp_all add: concat_result_def rbind_assoc)

lemma concat_result_length:
  "concat_result f xs = Inr b \<Longrightarrow> (\<And>x y. f x = Inr y \<Longrightarrow> length y = n x) \<Longrightarrow>
   length b = sum_list (map n xs)"
  by (auto simp: concat_result_def result_simps dest: map_result_concat_length)

section \<open>Fixed-size records\<close>

text \<open>
  \<open>chunks n buf\<close> are the pieces that \<^verbatim>\<open>while off + n <= len(buf)\<close> visits; \<open>rows\<close> unpacks each
  of them with one format, giving the values in the order of the format.
\<close>

function chunks :: "nat \<Rightarrow> bytes \<Rightarrow> bytes list" where
  "chunks n buf = (if 0 < n \<and> n \<le> length buf then take n buf # chunks n (drop n buf) else [])"
  by pat_completeness auto
termination by (relation "measure (\<lambda>(n, buf). length buf)") auto

declare chunks.simps [simp del]

definition rows :: "endian \<Rightarrow> fmt list \<Rightarrow> bytes \<Rightarrow> int list list" where
  "rows bo fs buf = map (\<lambda>c. map ival (unpack_fields bo fs c)) (chunks (calcsize fs) buf)"

definition pack_row :: "endian \<Rightarrow> fmt list \<Rightarrow> int list \<Rightarrow> bytes result" where
  "pack_row bo fs r = struct_pack bo fs (map VInt r)"

definition pack_rows :: "endian \<Rightarrow> fmt list \<Rightarrow> int list list \<Rightarrow> bytes result" where
  "pack_rows bo fs rs = concat_result (pack_row bo fs) rs"

definition int_fmts :: "fmt list \<Rightarrow> bool" where
  "int_fmts fs \<longleftrightarrow> list_all (\<lambda>f. \<exists>n. n \<noteq> 0 \<and> (f = UI n \<or> f = SI n)) fs"

lemma int_fmts_simps [simp]:
  "int_fmts []" "int_fmts (f # fs) \<longleftrightarrow> (\<exists>n. n \<noteq> 0 \<and> (f = UI n \<or> f = SI n)) \<and> int_fmts fs"
  by (simp_all add: int_fmts_def)

lemma int_fmts_props:
  "int_fmts fs \<Longrightarrow> list_all fmt_ok fs \<and> Pad \<notin> set fs \<and> (\<forall>f \<in> set fs. \<exists>n. f = UI n \<or> f = SI n)"
  by (induction fs) (auto simp: fmt_ok_def)

lemma chunks_append: "length a = n \<Longrightarrow> 0 < n \<Longrightarrow> chunks n (a @ b) = a # chunks n b"
  by (subst chunks.simps) simp

lemma chunks_short: "length a < n \<Longrightarrow> chunks n a = []"
  by (subst chunks.simps) simp

lemma pack_row_unpack:
  assumes "int_fmts fs" "pack_row bo fs r = Inr b"
  shows "length b = calcsize fs \<and> struct_unpack bo fs b = Inr (map VInt r) \<and>
    map ival (unpack_fields bo fs b) = r"
proof -
  have e: "exact_all fs (map VInt r)"
    using assms int_fmts_props [OF assms(1)] by (auto simp: pack_row_def intro: struct_pack_ints_exact)
  have "struct_unpack bo fs b = Inr (map VInt r)"
    using struct_unpack_pack [OF e _ assms(2) [unfolded pack_row_def]] int_fmts_props [OF assms(1)] by blast
  then show ?thesis
    by (auto simp: struct_unpack_def comp_def split: if_splits)
qed

lemma rows_unpack:
  assumes "int_fmts fs" "fs \<noteq> []" "pack_rows bo fs rs = Inr b" "length c < calcsize fs"
  shows "rows bo fs (b @ c) = rs"
  using assms(3)
proof (induction rs arbitrary: b)
  case Nil
  then show ?case using assms(4) by (simp add: pack_rows_def rows_def chunks_short)
next
  case (Cons r rs)
  obtain x y where xy: "pack_row bo fs r = Inr x" "pack_rows bo fs rs = Inr y" "b = x @ y"
    using Cons.prems by (auto simp: pack_rows_def result_simps)
  have "0 < calcsize fs" using assms(1,2) by (cases fs) auto
  then show ?case
    using pack_row_unpack [OF assms(1) xy(1)] Cons.IH [OF xy(2)] xy(3)
    by (simp add: rows_def chunks_append)
qed

lemma rows_unpack_exact:
  assumes "int_fmts fs" "fs \<noteq> []" "pack_rows bo fs rs = Inr b"
  shows "rows bo fs b = rs"
proof -
  have "0 < calcsize fs" using assms(1,2) by (cases fs) auto
  then show ?thesis using rows_unpack [OF assms, of "[]"] by simp
qed

lemma pack_rows_length: "pack_rows bo fs rs = Inr b \<Longrightarrow> length b = length rs * calcsize fs"
  using concat_result_length [of "pack_row bo fs" rs b "\<lambda>_. calcsize fs"]
  by (auto simp: pack_rows_def pack_row_def struct_pack_length sum_list_triv)

section \<open>Loops over items\<close>

text \<open>
  One round of a loop that walks a buffer: the loop's condition or a \<^verbatim>\<open>break\<close> (\<open>Stop\<close>), an
  exception (\<open>Fail\<close>), or an item and what is left. \<open>item_loop\<close> runs rounds until one stops;
  \<open>item_count\<close> runs at most \<open>n\<close> rounds (\<^verbatim>\<open>for _ in range(n)\<close>). A round that leaves the
  buffer as long as it was would repeat for ever in the code: its result here is
  \<open>Inl RecursionError\<close>, and the locale's first law says that it never happens.
\<close>

datatype 'a round = Stop | Fail exn | Item 'a bytes

function parse_loop :: "(bytes \<Rightarrow> 'a round) \<Rightarrow> bytes \<Rightarrow> 'a list result" where
  "parse_loop step buf =
     (case step buf of
        Stop \<Rightarrow> Inr []
      | Fail e \<Rightarrow> Inl e
      | Item x rest \<Rightarrow>
          if length rest < length buf then rbind (parse_loop step rest) (\<lambda>xs. Inr (x # xs))
          else Inl RecursionError)"
  by pat_completeness auto
termination by (relation "measure (\<lambda>(step, buf). length buf)") auto

declare parse_loop.simps [simp del]

lemma parse_loop_Item:
  "step buf = Item x rest \<Longrightarrow> length rest < length buf \<Longrightarrow>
   parse_loop step buf = rbind (parse_loop step rest) (\<lambda>xs. Inr (x # xs))"
  by (subst parse_loop.simps) simp

lemma parse_loop_Stop: "step buf = Stop \<Longrightarrow> parse_loop step buf = Inr []"
  by (subst parse_loop.simps) simp

lemma parse_loop_Fail: "step buf = Fail e \<Longrightarrow> parse_loop step buf = Inl e"
  by (subst parse_loop.simps) simp

fun parse_count :: "(bytes \<Rightarrow> 'a round) \<Rightarrow> nat \<Rightarrow> bytes \<Rightarrow> 'a list result" where
  "parse_count step 0 buf = Inr []"
| "parse_count step (Suc n) buf =
     (case step buf of
        Stop \<Rightarrow> Inr []
      | Fail e \<Rightarrow> Inl e
      | Item x rest \<Rightarrow> rbind (parse_count step n rest) (\<lambda>xs. Inr (x # xs)))"

definition round_of :: "'a result \<Rightarrow> bytes \<Rightarrow> 'a round" where
  "round_of r rest = (case r of Inl e \<Rightarrow> Fail e | Inr x \<Rightarrow> Item x rest)"

lemma round_of_simps [simp]:
  "round_of (Inl e) rest = Fail e" "round_of (Inr x) rest = Item x rest"
  "round_of r rest \<noteq> Stop"
  by (auto simp: round_of_def split: sum.splits)

lemma round_of_Item: "round_of r rest = Item x rest' \<longleftrightarrow> r = Inr x \<and> rest' = rest"
  by (auto simp: round_of_def split: sum.splits)

locale item_round =
  fixes step :: "bytes \<Rightarrow> 'a round"
    and enc :: "'a \<Rightarrow> bytes result"
    and ok :: "'a \<Rightarrow> bool"
  assumes progress: "step buf = Item x rest \<Longrightarrow> length rest < length buf"
    and reads: "ok x \<Longrightarrow> enc x = Inr b \<Longrightarrow> step (b @ rest) = Item x rest"
    and stops: "step [] = Stop"
begin

lemma loop_total: "parse_loop step buf = Inl e \<Longrightarrow> \<exists>rest. step rest = Fail e"
proof (induction "length buf" arbitrary: buf rule: less_induct)
  case less
  show ?case
  proof (cases "step buf")
    case (Item x rest)
    then show ?thesis
      using less progress [OF Item] by (subst (asm) (2) parse_loop.simps) (auto simp: result_simps)
  next
    case Stop
    then show ?thesis using less.prems by (simp add: parse_loop.simps [of step buf])
  next
    case (Fail f)
    then show ?thesis using less.prems by (auto simp: parse_loop.simps [of step buf])
  qed
qed

lemma loop_reads:
  "list_all ok xs \<Longrightarrow> concat_result enc xs = Inr b \<Longrightarrow> parse_loop step b = Inr xs"
proof (induction xs arbitrary: b)
  case Nil
  then show ?case by (subst parse_loop.simps) (simp add: stops)
next
  case (Cons x xs)
  obtain u v where uv: "enc x = Inr u" "concat_result enc xs = Inr v" "b = u @ v"
    using Cons.prems(2) by (auto simp: result_simps)
  have s: "step b = Item x v" using reads [OF _ uv(1)] Cons.prems(1) uv(3) by simp
  then show ?case using progress [OF s] Cons.IH [OF _ uv(2)] Cons.prems(1)
    by (subst parse_loop.simps) simp
qed

lemma count_reads:
  "list_all ok xs \<Longrightarrow> concat_result enc xs = Inr b \<Longrightarrow> parse_count step (length xs) (b @ rest) = Inr xs"
proof (induction xs arbitrary: b)
  case (Cons x xs)
  obtain u v where uv: "enc x = Inr u" "concat_result enc xs = Inr v" "b = u @ v"
    using Cons.prems(2) by (auto simp: result_simps)
  have s: "step (b @ rest) = Item x (v @ rest)" using reads [OF _ uv(1)] Cons.prems(1) uv(3) by simp
  then show ?case using Cons.IH [OF _ uv(2)] Cons.prems(1) by simp
qed simp

end

section \<open>Loops that keep every byte\<close>

text \<open>
  The contract the other way round: the bytes an item packs to are those it was read from, and the
  loop stops at the end only. Then what the loop reads packs to the buffer, byte for byte.
\<close>

locale exact_round =
  fixes step :: "bytes \<Rightarrow> 'a round"
    and enc :: "'a \<Rightarrow> bytes result"
  assumes exact: "step buf = Item x rest \<Longrightarrow> \<exists>a. enc x = Inr a \<and> buf = a @ rest"
    and ends: "step buf = Stop \<Longrightarrow> buf = []"
begin

lemma loop_packs: "parse_loop step buf = Inr xs \<Longrightarrow> concat_result enc xs = Inr buf"
proof (induction "length buf" arbitrary: buf xs rule: less_induct)
  case less
  show ?case
  proof (cases "step buf")
    case Stop
    then show ?thesis using less.prems ends [OF Stop] by (simp add: parse_loop_Stop)
  next
    case (Fail e)
    then show ?thesis using less.prems by (simp add: parse_loop_Fail)
  next
    case (Item x rest)
    obtain a where a: "enc x = Inr a" "buf = a @ rest" using exact [OF Item] by blast
    obtain ys where y: "length rest < length buf" "parse_loop step rest = Inr ys" "xs = x # ys"
      using less.prems Item by (auto simp: parse_loop.simps [of step buf] result_simps split: if_splits)
    then show ?thesis using less.hyps [OF y(1,2)] a by simp
  qed
qed

end

text \<open>Records of one size: the loop succeeds exactly on a whole number of them.\<close>

lemma loop_fixed_size:
  assumes "0 < n" "step [] = Stop" "\<And>buf. n \<le> length buf \<Longrightarrow> \<exists>x. step buf = Item x (drop n buf)"
    and "\<And>buf. buf \<noteq> [] \<Longrightarrow> length buf < n \<Longrightarrow> step buf = Fail e"
  shows "if length buf mod n = 0 then \<exists>xs. parse_loop step buf = Inr xs else parse_loop step buf = Inl e"
proof (induction "length buf" arbitrary: buf rule: less_induct)
  case less
  consider "buf = []" | "buf \<noteq> []" "length buf < n" | "n \<le> length buf" by force
  then show ?case
  proof cases
    case 1
    then show ?thesis using assms(2) by (simp add: parse_loop_Stop)
  next
    case 2
    then show ?thesis using assms(4) [OF 2] by (simp add: parse_loop_Fail)
  next
    case 3
    obtain x where x: "step buf = Item x (drop n buf)" using assms(3) [OF 3] by blast
    have l: "length (drop n buf) < length buf" using 3 assms(1) by simp
    have m: "(length buf - n) mod n = length buf mod n" using 3 by (simp add: le_mod_geq)
    show ?thesis using less [OF l] m parse_loop_Item [of step buf x "drop n buf"] x l by auto
  qed
qed

section \<open>Loops over objects\<close>

text \<open>
  The other loop of the modules: an object is built from the whole rest of the buffer, and its
  own length says how much it was. \<open>item_step\<close> is one round of \<^verbatim>\<open>while self.data\<close>;
  \<open>parse_budget\<close> runs while a byte count is positive, \<open>parse_n\<close> a fixed number of times. An object
  of length zero would repeat for ever in a budget: the result is \<open>Inl RecursionError\<close> there, and
  the locale excludes it.
\<close>

definition item_step :: "(bytes \<Rightarrow> 'a result) \<Rightarrow> ('a \<Rightarrow> nat) \<Rightarrow> bytes \<Rightarrow> 'a round" where
  "item_step init sz buf =
     (if buf = [] then Stop
      else case init buf of Inl e \<Rightarrow> Fail e | Inr x \<Rightarrow> Item x (drop (sz x) buf))"

function parse_budget :: "(bytes \<Rightarrow> 'a result) \<Rightarrow> ('a \<Rightarrow> nat) \<Rightarrow> int \<Rightarrow> bytes \<Rightarrow> ('a list \<times> bytes) result" where
  "parse_budget init sz n buf =
     (if n \<le> 0 then Inr ([], buf)
      else
        (case init buf of
           Inl e \<Rightarrow> Inl e
         | Inr x \<Rightarrow>
             if sz x = 0 then Inl RecursionError
             else rbind (parse_budget init sz (n - int (sz x)) (drop (sz x) buf)) (\<lambda>(xs, rest).
                    Inr (x # xs, rest))))"
  by pat_completeness auto
termination by (relation "measure (\<lambda>(init, sz, n, buf). nat n)") auto

declare parse_budget.simps [simp del]

fun parse_n :: "(bytes \<Rightarrow> 'a result) \<Rightarrow> ('a \<Rightarrow> nat) \<Rightarrow> nat \<Rightarrow> bytes \<Rightarrow> ('a list \<times> bytes) result" where
  "parse_n init sz 0 buf = Inr ([], buf)"
| "parse_n init sz (Suc n) buf =
     rbind (init buf) (\<lambda>x. rbind (parse_n init sz n (drop (sz x) buf)) (\<lambda>(xs, rest). Inr (x # xs, rest)))"

locale item_prefix =
  fixes init :: "bytes \<Rightarrow> 'a result"
    and sz :: "'a \<Rightarrow> nat"
    and enc :: "'a \<Rightarrow> bytes result"
    and ok :: "'a \<Rightarrow> bool"
  assumes size_pos: "init buf = Inr x \<Longrightarrow> 0 < sz x"
    and prefix: "ok x \<Longrightarrow> enc x = Inr b \<Longrightarrow> init (b @ rest) = Inr x \<and> sz x = length b"

sublocale item_prefix \<subseteq> item_round "item_step init sz" enc ok
proof
  fix buf x rest
  assume i: "item_step init sz buf = Item x rest"
  then have "init buf = Inr x" "rest = drop (sz x) buf" "buf \<noteq> []"
    by (auto simp: item_step_def split: if_splits sum.splits)
  then show "length rest < length buf" using size_pos [of buf x] by (cases buf) auto
next
  fix x b rest
  assume x: "ok x" "enc x = Inr b"
  then have i: "init (b @ rest) = Inr x" "sz x = length b" using prefix by blast+
  moreover have "b \<noteq> []" using size_pos [OF i(1)] i(2) by auto
  ultimately show "item_step init sz (b @ rest) = Item x rest" by (simp add: item_step_def)
qed (simp add: item_step_def)

context item_prefix
begin

lemma budget_reads:
  "list_all ok xs \<Longrightarrow> concat_result enc xs = Inr b \<Longrightarrow>
   parse_budget init sz (int (length b)) (b @ rest) = Inr (xs, rest)"
proof (induction xs arbitrary: b)
  case Nil
  then show ?case by (simp add: parse_budget.simps)
next
  case (Cons x xs)
  obtain u v where uv: "enc x = Inr u" "concat_result enc xs = Inr v" "b = u @ v"
    using Cons.prems(2) by (auto simp: result_simps)
  have i: "init (u @ v @ rest) = Inr x" "sz x = length u" using prefix uv(1) Cons.prems(1) by auto
  then have "0 < length u" using size_pos by fastforce
  then have "\<not> int (length u) + int (length v) \<le> 0" "u \<noteq> []" by (linarith, auto)
  then show ?case using i uv(3) Cons.IH [OF _ uv(2)] Cons.prems(1)
    by (subst parse_budget.simps) simp
qed

lemma n_reads:
  "list_all ok xs \<Longrightarrow> concat_result enc xs = Inr b \<Longrightarrow> parse_n init sz (length xs) (b @ rest) = Inr (xs, rest)"
proof (induction xs arbitrary: b)
  case (Cons x xs)
  obtain u v where uv: "enc x = Inr u" "concat_result enc xs = Inr v" "b = u @ v"
    using Cons.prems(2) by (auto simp: result_simps)
  then show ?case using prefix [OF _ uv(1), of "v @ rest"] Cons.IH [OF _ uv(2)] Cons.prems(1) by simp
qed simp

lemma sizes:
  "list_all ok xs \<Longrightarrow> concat_result enc xs = Inr b \<Longrightarrow> sum_list (map sz xs) = length b"
proof (induction xs arbitrary: b)
  case (Cons x xs)
  then show ?case using prefix [of x _ "[]"] by (fastforce simp: result_simps)
qed simp

end

section \<open>Headers of integers\<close>

text \<open>
  A header table of integers, for classes whose objects keep the integers themselves: reading
  them off the front, and \<^verbatim>\<open>pack_hdr\<close>.
\<close>

definition unpack_ints :: "fmt list \<Rightarrow> bytes \<Rightarrow> (int list \<times> bytes) result" where
  "unpack_ints fs buf =
     rbind (struct_unpack BE fs (take (calcsize fs) buf)) (\<lambda>vs. Inr (map ival vs, drop (calcsize fs) buf))"

definition hdr_ints :: "fmt list \<Rightarrow> int list \<Rightarrow> bytes result" where
  "hdr_ints fs xs = (case pack_row BE fs xs of Inr b \<Rightarrow> Inr b | Inl _ \<Rightarrow> Inl PackError)"

lemma hdr_ints_read:
  assumes "hdr_ints fs xs = Inr b" "int_fmts fs"
  shows "length b = calcsize fs \<and> unpack_ints fs (b @ rest) = Inr (xs, rest)"
proof -
  have "pack_row BE fs xs = Inr b" using assms(1) by (auto simp: hdr_ints_def split: sum.splits)
  from pack_row_unpack [OF assms(2) this] show ?thesis by (simp add: unpack_ints_def comp_def)
qed

end
