(* ===== verification/Isis.thy ===== *)
theory Isis
  imports Items
begin

text \<open>
  IS-IS, \<^verbatim>\<open>dpkt/isis.py\<close>: the common header, the nine PDU classes and their TLVs. A PDU class
  has no header table, hence none of the attributes that \<^verbatim>\<open>_MetaPacket\<close> derives from one: its
  constructor turns a \<^verbatim>\<open>struct.error\<close> into an \<open>AttributeError\<close>, and its bytes and its length
  raise the same error.
\<close>

section \<open>TLVs\<close>

record eis_reach =
  eis_neighbor :: bytes
  eis_metric :: int
  eis_subtlvs :: bytes

record ip_reach =
  ipr_default_metric :: int
  ipr_delay_metric :: int
  ipr_expense_metric :: int
  ipr_error_metric :: int
  ipr_prefix :: bytes
  ipr_mask :: bytes

datatype isis_view =
    TV_Generic
  | TV_Area bytes
  | TV_Neighbors "bytes list"
  | TV_Auth "(int \<times> bytes) option"
  | TV_EIS "eis_reach list"
  | TV_IP "ip_reach list"
  | TV_Proto bytes

record isis_tlv =
  tlv_type :: int
  tlv_length :: int
  tlv_value :: bytes
  tlv_view :: isis_view

fun isis_neighbors :: "bytes \<Rightarrow> bytes list" where
  "isis_neighbors (a # b # c # d # e # f # v) = [a, b, c, d, e, f] # isis_neighbors v"
| "isis_neighbors _ = []"

function eis_reaches :: "bytes \<Rightarrow> eis_reach list" where
  "eis_reaches v =
     (if 11 \<le> length v then
        let extra = unat (v ! 10)
        in \<lparr>eis_neighbor = take 7 v, eis_metric = drop_bit 8 (bytes_int BE (take 3 (drop 7 v) @ [0])),
             eis_subtlvs = take extra (drop 11 v)\<rparr> # eis_reaches (drop (11 + extra) v)
      else [])"
  by pat_completeness auto
termination by (relation "measure length") auto

declare eis_reaches.simps [simp del]

function ip_reaches :: "bytes \<Rightarrow> ip_reach list" where
  "ip_reaches v =
     (if 12 \<le> length v then
        \<lparr>ipr_default_metric = ord (v ! 0), ipr_delay_metric = ord (v ! 1), ipr_expense_metric = ord (v ! 2),
         ipr_error_metric = ord (v ! 3), ipr_prefix = take 4 (drop 4 v), ipr_mask = take 4 (drop 8 v)\<rparr>
          # ip_reaches (drop 12 v)
      else [])"
  by pat_completeness auto
termination by (relation "measure length") auto

declare ip_reaches.simps [simp del]

text \<open>The class of a TLV type, applied to the value.\<close>

definition isis_tlv_view :: "int \<Rightarrow> bytes \<Rightarrow> isis_view" where
  "isis_tlv_view t v =
     (if t = 1 then TV_Area v
      else if t = 6 then TV_Neighbors (isis_neighbors v)
      else if t = 10 then TV_Auth (if 1 \<le> length v then Some (ord (v ! 0), drop 1 v) else None)
      else if t = 22 then TV_EIS (eis_reaches v)
      else if t = 128 \<or> t = 130 then TV_IP (ip_reaches v)
      else if t = 129 then TV_Proto v
      else TV_Generic)"

text \<open>\<^verbatim>\<open>_parse_tlvs\<close>: stops at a TLV that does not fit.\<close>

function isis_parse_tlvs :: "bytes \<Rightarrow> isis_tlv list" where
  "isis_parse_tlvs buf =
     (if 2 \<le> length buf then
        let t = ord (buf ! 0); l = unat (buf ! 1)
        in if length buf < 2 + l then []
           else \<lparr>tlv_type = t, tlv_length = int l, tlv_value = take l (drop 2 buf),
                  tlv_view = isis_tlv_view t (take l (drop 2 buf))\<rparr> # isis_parse_tlvs (drop (2 + l) buf)
      else [])"
  by pat_completeness auto
termination by (relation "measure length") auto

declare isis_parse_tlvs.simps [simp del]

definition isis_tlv_bytes :: "isis_tlv \<Rightarrow> bytes result" where
  "isis_tlv_bytes t =
     (if 0 \<le> tlv_type t \<and> tlv_type t < 256 \<and> length (tlv_value t) < 256
      then Inr ([word_of_int (tlv_type t), word_of_nat (length (tlv_value t))] @ tlv_value t)
      else Inl ValueError)"

definition isis_tlv_len :: "isis_tlv \<Rightarrow> nat" where
  "isis_tlv_len t = 2 + length (tlv_value t)"

section \<open>PDUs\<close>

datatype isis_level = L1 | L2

datatype isis_pdu =
    LanHello isis_level int bytes int int int bytes "isis_tlv list"
  | P2PHello int bytes int int int "isis_tlv list"
  | LSP isis_level int int bytes int int int "isis_tlv list"
  | CSNP isis_level int bytes bytes bytes "isis_tlv list"
  | PSNP isis_level int bytes "isis_tlv list"

definition unpack_lan_hello :: "isis_level \<Rightarrow> bytes \<Rightarrow> isis_pdu result" where
  "unpack_lan_hello lv buf =
     rbind (byte_at buf 0) (\<lambda>ct. rbind (uint_at buf 7 2) (\<lambda>hold. rbind (uint_at buf 9 2) (\<lambda>plen.
     rbind (byte_at buf 11) (\<lambda>prio.
       Inr (LanHello lv ct (take 6 (drop 1 buf)) hold plen prio (take 7 (drop 12 buf))
              (isis_parse_tlvs (drop 19 buf)))))))"

definition unpack_p2p_hello :: "bytes \<Rightarrow> isis_pdu result" where
  "unpack_p2p_hello buf =
     rbind (byte_at buf 0) (\<lambda>ct. rbind (uint_at buf 7 2) (\<lambda>hold. rbind (uint_at buf 9 2) (\<lambda>plen.
     rbind (byte_at buf 11) (\<lambda>cid.
       Inr (P2PHello ct (take 6 (drop 1 buf)) hold plen cid (isis_parse_tlvs (drop 12 buf)))))))"

definition unpack_lsp :: "isis_level \<Rightarrow> bytes \<Rightarrow> isis_pdu result" where
  "unpack_lsp lv buf =
     rbind (uint_at buf 0 2) (\<lambda>plen. rbind (uint_at buf 2 2) (\<lambda>life.
     rbind (uint_at buf 12 4) (\<lambda>seq. rbind (uint_at buf 16 2) (\<lambda>ck. rbind (byte_at buf 18) (\<lambda>fl.
       Inr (LSP lv plen life (take 8 (drop 4 buf)) seq ck fl (isis_parse_tlvs (drop 19 buf))))))))"

definition unpack_csnp :: "isis_level \<Rightarrow> bytes \<Rightarrow> isis_pdu result" where
  "unpack_csnp lv buf =
     rbind (uint_at buf 0 2) (\<lambda>plen.
       Inr (CSNP lv plen (take 8 (drop 2 buf)) (take 8 (drop 10 buf)) (take 8 (drop 18 buf))
              (isis_parse_tlvs (drop 26 buf))))"

definition unpack_psnp :: "isis_level \<Rightarrow> bytes \<Rightarrow> isis_pdu result" where
  "unpack_psnp lv buf =
     rbind (uint_at buf 0 2) (\<lambda>plen. Inr (PSNP lv plen (take 8 (drop 2 buf)) (isis_parse_tlvs (drop 10 buf))))"

text \<open>
  The constructor of a PDU class: the handler of \<^verbatim>\<open>struct.error\<close> reads \<^verbatim>\<open>__hdr_len__\<close>, which the
  class does not have.
\<close>

definition isis_pdu_init :: "(bytes \<Rightarrow> isis_pdu result) \<Rightarrow> bytes \<Rightarrow> isis_pdu result" where
  "isis_pdu_init unpack buf = (case unpack buf of Inl StructError \<Rightarrow> Inl AttributeError | r \<Rightarrow> r)"

definition isis_pdu_class :: "int \<Rightarrow> (bytes \<Rightarrow> isis_pdu result) option" where
  "isis_pdu_class t =
     map_of [(1, unpack_lan_hello L1), (2, unpack_lan_hello L2), (3, unpack_p2p_hello),
       (4, unpack_lsp L1), (5, unpack_lsp L2), (6, unpack_csnp L1), (7, unpack_csnp L2),
       (8, unpack_psnp L1), (9, unpack_psnp L2)] t"

section \<open>The packet\<close>

record isis_base =
  isis_base_nlpid :: int
  isis_base_hdr_len :: int
  isis_base_version :: int
  isis_base_id_len :: int
  isis_base_pdu_type :: int
  isis_base_version2 :: int
  isis_base_rsvd :: int
  isis_base_max_area :: int
  isis_base_data :: "bytes"

definition isis_base_hdr :: hdr where
  "isis_base_hdr =
    [(''nlpid'', fB, VInt 0x83),
     (''hdr_len'', fB, VInt 0),
     (''version'', fB, VInt 1),
     (''id_len'', fB, VInt 0),
     (''_pdu_type'', fB, VInt 0),
     (''version2'', fB, VInt 1),
     (''rsvd'', fB, VInt 0),
     (''max_area'', fB, VInt 0)]"

definition isis_base_vals :: "isis_base \<Rightarrow> pval list" where
  "isis_base_vals r =
    [VInt (isis_base_nlpid r), VInt (isis_base_hdr_len r), VInt (isis_base_version r),
     VInt (isis_base_id_len r), VInt (isis_base_pdu_type r), VInt (isis_base_version2 r),
     VInt (isis_base_rsvd r), VInt (isis_base_max_area r)]"

definition isis_base_make :: "pval list \<Rightarrow> bytes \<Rightarrow> isis_base" where
  "isis_base_make vs d =
    \<lparr>isis_base_nlpid = ival (vs ! 0), isis_base_hdr_len = ival (vs ! 1),
     isis_base_version = ival (vs ! 2), isis_base_id_len = ival (vs ! 3),
     isis_base_pdu_type = ival (vs ! 4), isis_base_version2 = ival (vs ! 5),
     isis_base_rsvd = ival (vs ! 6), isis_base_max_area = ival (vs ! 7), isis_base_data = d\<rparr>"

lemma isis_base_hdr_len [hdr_simps, simp]: "hdr_len isis_base_hdr = 8"
  by (simp add: isis_base_hdr_def)

interpretation isis_base_class: packet_class BE isis_base_hdr isis_base_vals isis_base_make isis_base_data
  by unfold_locales (auto simp: isis_base_hdr_def isis_base_vals_def isis_base_make_def fmt_ok_def hdr_simps)
datatype isis_data = I_Raw bytes | I_PDU isis_pdu

record isis =
  isis_hdr_part :: isis_base
  isis_data :: isis_data

definition isis_unpack :: "bytes \<Rightarrow> isis result" where
  "isis_unpack buf =
     rbind (packet_unpack BE isis_base_hdr isis_base_make buf) (\<lambda>h.
       case isis_pdu_class (isis_base_pdu_type h) of
         Some unpack \<Rightarrow>
           if isis_base_data h \<noteq> []
           then rbind (isis_pdu_init unpack (isis_base_data h)) (\<lambda>p.
                  Inr \<lparr>isis_hdr_part = h, isis_data = I_PDU p\<rparr>)
           else Inr \<lparr>isis_hdr_part = h, isis_data = I_Raw (isis_base_data h)\<rparr>
       | None \<Rightarrow> Inr \<lparr>isis_hdr_part = h, isis_data = I_Raw (isis_base_data h)\<rparr>)"

definition isis_init :: "bytes \<Rightarrow> isis result" where
  "isis_init = packet_init (hdr_len isis_base_hdr) isis_unpack"

definition isis_bytes :: "isis \<Rightarrow> bytes result" where
  "isis_bytes r =
     rbind (packet_pack_hdr BE isis_base_hdr (isis_base_vals (isis_hdr_part r))) (\<lambda>h.
       case isis_data r of I_Raw b \<Rightarrow> Inr (h @ b) | I_PDU _ \<Rightarrow> Inl AttributeError)"

definition isis_len :: "isis \<Rightarrow> nat result" where
  "isis_len r =
     (case isis_data r of I_Raw b \<Rightarrow> Inr (hdr_len isis_base_hdr + length b) | I_PDU _ \<Rightarrow> Inl AttributeError)"

section \<open>TLV round trips\<close>

lemma isis_parse_tlvs_Cons:
  "length v < 256 \<Longrightarrow> isis_parse_tlvs ([t, word_of_nat (length v)] @ v @ rest) =
     \<lparr>tlv_type = ord t, tlv_length = int (length v), tlv_value = v, tlv_view = isis_tlv_view (ord t) v\<rparr> #
     isis_parse_tlvs rest"
  by (subst isis_parse_tlvs.simps) (simp add: Let_def unat_of_nat)

lemma isis_len_bytes: "isis_bytes r = Inr b \<Longrightarrow> isis_len r = Inr (length b)"
  by (auto simp: isis_bytes_def isis_len_def result_simps dest!: packet_pack_hdr_length split: isis_data.splits)

lemma byte_less: "unat (b :: byte) < 256"
  using unsigned_less [of b] by simp

text \<open>The TLVs found are a prefix of the buffer, each of the length it announces.\<close>

lemma isis_parse_tlvs_bytes:
  "\<exists>bs rest. list_all2 (\<lambda>t b. isis_tlv_bytes t = Inr b) (isis_parse_tlvs buf) bs \<and>
     buf = concat bs @ rest"
proof (induction buf rule: isis_parse_tlvs.induct)
  case (1 buf)
  show ?case
  proof (cases "2 \<le> length buf \<and> 2 + unat (buf ! 1) \<le> length buf")
    case False
    then have "isis_parse_tlvs buf = []" by (subst isis_parse_tlvs.simps) (auto simp: Let_def)
    then show ?thesis by (intro exI [of _ "[]"] exI [of _ buf]) simp
  next
    case True
    obtain a b c where buf: "buf = a # b # c" using True by (metis Suc_le_length_iff numeral_2_eq_2)
    let ?l = "unat b"
    have l: "?l \<le> length c" using True buf by simp
    obtain bs rest where ih: "list_all2 (\<lambda>t b. isis_tlv_bytes t = Inr b) (isis_parse_tlvs (drop ?l c)) bs"
      "drop ?l c = concat bs @ rest"
      using 1 [OF _ refl refl] True buf by auto
    have "isis_parse_tlvs buf = \<lparr>tlv_type = ord a, tlv_length = int ?l, tlv_value = take ?l c,
        tlv_view = isis_tlv_view (ord a) (take ?l c)\<rparr> # isis_parse_tlvs (drop ?l c)"
      using True buf by (subst isis_parse_tlvs.simps) (simp add: Let_def)
    moreover have "isis_tlv_bytes \<lparr>tlv_type = ord a, tlv_length = int ?l, tlv_value = take ?l c,
        tlv_view = isis_tlv_view (ord a) (take ?l c)\<rparr> = Inr (a # b # take ?l c)"
      using l byte_less [of b] ord_range [of a] by (simp add: isis_tlv_bytes_def) (simp add: ord_def)
    moreover have "buf = concat ((a # b # take ?l c) # bs) @ rest"
      using buf ih(2) by simp (metis append.assoc append_take_drop_id)
    ultimately show ?thesis using ih(1)
      by (intro exI [of _ "(a # b # take ?l c) # bs"] exI [of _ rest]) simp
  qed
qed

end
