(* ===== verification/Header_Classes.thy ===== *)
theory Header_Classes
  imports Packet
begin

text \<open>
  The protocol classes that are a header table and nothing more: the metaclass and the base class
  do all the work, so a class is its table here as it is in the source, and an object is the list
  of its attributes in header order with the data. One table per class, in the order of the
  files; \<open>class_table\<close> lists them all with their byte orders. The properties hold for every
  class of the list.
\<close>

section \<open>Objects\<close>

record packet_obj =
  obj_vals :: "pval list"
  obj_data :: bytes

definition obj_make :: "pval list \<Rightarrow> bytes \<Rightarrow> packet_obj" where
  "obj_make vs d = \<lparr>obj_vals = vs, obj_data = d\<rparr>"

definition class_unpack :: "endian \<Rightarrow> hdr \<Rightarrow> bytes \<Rightarrow> packet_obj result" where
  "class_unpack bo h = packet_unpack bo h obj_make"

definition class_init :: "endian \<Rightarrow> hdr \<Rightarrow> bytes \<Rightarrow> packet_obj result" where
  "class_init bo h = packet_init (hdr_len h) (class_unpack bo h)"

definition class_new :: "hdr \<Rightarrow> (string \<times> pval) list \<Rightarrow> bytes \<Rightarrow> packet_obj" where
  "class_new h kws d = obj_make (packet_kwargs h kws) d"

definition class_bytes :: "endian \<Rightarrow> hdr \<Rightarrow> packet_obj \<Rightarrow> bytes result" where
  "class_bytes bo h r = packet_bytes bo h (obj_vals r) (obj_data r)"

definition class_len :: "hdr \<Rightarrow> packet_obj \<Rightarrow> nat" where
  "class_len h r = packet_len h (obj_data r)"

definition class_getattr :: "hdr \<Rightarrow> string \<Rightarrow> packet_obj \<Rightarrow> pval result" where
  "class_getattr h n r =
     (case map_of (zip (hdr_fields h) (obj_vals r)) n of None \<Rightarrow> Inl AttributeError | Some v \<Rightarrow> Inr v)"

definition class_setattr :: "hdr \<Rightarrow> string \<Rightarrow> pval \<Rightarrow> packet_obj \<Rightarrow> packet_obj" where
  "class_setattr h n v r =
     r\<lparr>obj_vals := map (\<lambda>(m, w). if m = n then v else w) (zip (hdr_fields h) (obj_vals r))\<rparr>"

text \<open>A table whose formats consume and give one value each makes a protocol class.\<close>

definition table_ok :: "hdr \<Rightarrow> bool" where
  "table_ok h \<longleftrightarrow> list_all fmt_ok (hdr_fmt h) \<and> Pad \<notin> set (hdr_fmt h) \<and> distinct (hdr_fields h)"

lemma table_class: "table_ok h \<Longrightarrow> packet_class h obj_vals obj_make obj_data"
  by unfold_locales (auto simp: table_ok_def obj_make_def)

section \<open>The tables\<close>

definition aim_SNAC_hdr :: hdr where
  "aim_SNAC_hdr =
    [(''family'', fH, VInt 0),
     (''subtype'', fH, VInt 0),
     (''flags'', fH, VInt 0),
     (''reqid'', fI, VInt 0)]"

definition aoeata_AOEATA_hdr :: hdr where
  "aoeata_AOEATA_hdr =
    [(''aflags'', fB, VInt 0),
     (''errfeat'', fB, VInt 0),
     (''scnt'', fB, VInt 0),
     (''cmdstat'', fB, VInt 236),
     (''lba0'', fB, VInt 0),
     (''lba1'', fB, VInt 0),
     (''lba2'', fB, VInt 0),
     (''lba3'', fB, VInt 0),
     (''lba4'', fB, VInt 0),
     (''lba5'', fB, VInt 0),
     (''res'', fH, VInt 0)]"

definition aoecfg_AOECFG_hdr :: hdr where
  "aoecfg_AOECFG_hdr =
    [(''bufcnt'', fH, VInt 0),
     (''fwver'', fH, VInt 0),
     (''scnt'', fB, VInt 0),
     (''aoeccmd'', fB, VInt 0),
     (''cslen'', fH, VInt 0)]"

definition bgp_BGP_Open_Parameter_Authentication_hdr :: hdr where
  "bgp_BGP_Open_Parameter_Authentication_hdr =
    [(''code'', fB, VInt 0)]"

definition bgp_BGP_Update_Attribute_Origin_hdr :: hdr where
  "bgp_BGP_Update_Attribute_Origin_hdr =
    [(''type'', fB, VInt 0)]"

definition bgp_BGP_Update_Attribute_NextHop_hdr :: hdr where
  "bgp_BGP_Update_Attribute_NextHop_hdr =
    [(''ip'', fI, VInt 0)]"

definition bgp_BGP_Update_Attribute_MultiExitDisc_hdr :: hdr where
  "bgp_BGP_Update_Attribute_MultiExitDisc_hdr =
    [(''value'', fI, VInt 0)]"

definition bgp_BGP_Update_Attribute_LocalPref_hdr :: hdr where
  "bgp_BGP_Update_Attribute_LocalPref_hdr =
    [(''value'', fI, VInt 0)]"

definition bgp_BGP_Update_Attribute_Aggregator_hdr :: hdr where
  "bgp_BGP_Update_Attribute_Aggregator_hdr =
    [(''asn'', fH, VInt 0),
     (''ip'', fI, VInt 0)]"

definition bgp_BGP_Update_Attribute_Communities_Community_hdr :: hdr where
  "bgp_BGP_Update_Attribute_Communities_Community_hdr =
    [(''asn'', fH, VInt 0),
     (''value'', fH, VInt 0)]"

definition bgp_BGP_Update_Attribute_Communities_ReservedCommunity_hdr :: hdr where
  "bgp_BGP_Update_Attribute_Communities_ReservedCommunity_hdr =
    [(''value'', fI, VInt 0)]"

definition bgp_BGP_Update_Attribute_OriginatorID_hdr :: hdr where
  "bgp_BGP_Update_Attribute_OriginatorID_hdr =
    [(''value'', fI, VInt 0)]"

definition bgp_BGP_RouteRefresh_hdr :: hdr where
  "bgp_BGP_RouteRefresh_hdr =
    [(''afi'', fH, VInt 1),
     (''rsvd'', fB, VInt 0),
     (''safi'', fB, VInt 1)]"

definition esp_ESP_hdr :: hdr where
  "esp_ESP_hdr =
    [(''spi'', fI, VInt 0),
     (''seq'', fI, VInt 0)]"

definition gzip_GzipExtra_hdr :: hdr where
  "gzip_GzipExtra_hdr =
    [(''id'', Str 2, VBytes []),
     (''len'', fH, VInt 0)]"

definition hsrp_HSRP_hdr :: hdr where
  "hsrp_HSRP_hdr =
    [(''version'', fB, VInt 0),
     (''opcode'', fB, VInt 0),
     (''state'', fB, VInt 0),
     (''hello'', fB, VInt 0),
     (''hold'', fB, VInt 0),
     (''priority'', fB, VInt 0),
     (''group'', fB, VInt 0),
     (''rsvd'', fB, VInt 0),
     (''auth'', Str 8, VBytes [0x63, 0x69, 0x73, 0x63, 0x6f]),
     (''vip'', Str 4, VBytes [])]"

definition http2_Setting_hdr :: hdr where
  "http2_Setting_hdr =
    [(''identifier'', fH, VInt 0),
     (''value'', fI, VInt 0)]"

definition icmp_ICMP_Echo_hdr :: hdr where
  "icmp_ICMP_Echo_hdr =
    [(''id'', fH, VInt 0),
     (''seq'', fH, VInt 0)]"

definition icmp6_ICMP6_Echo_hdr :: hdr where
  "icmp6_ICMP6_Echo_hdr =
    [(''id'', fH, VInt 0),
     (''seq'', fH, VInt 0)]"

definition ieee80211_IEEE80211_BlockAckReq_hdr :: hdr where
  "ieee80211_IEEE80211_BlockAckReq_hdr =
    [(''dst'', Str 6, VStr (replicate 6 (char_of (0 :: nat)))),
     (''src'', Str 6, VStr (replicate 6 (char_of (0 :: nat)))),
     (''ctl'', fH, VInt 0),
     (''seq'', fH, VInt 0)]"

definition ieee80211_IEEE80211_RTS_hdr :: hdr where
  "ieee80211_IEEE80211_RTS_hdr =
    [(''dst'', Str 6, VStr (replicate 6 (char_of (0 :: nat)))),
     (''src'', Str 6, VStr (replicate 6 (char_of (0 :: nat))))]"

definition ieee80211_IEEE80211_CTS_hdr :: hdr where
  "ieee80211_IEEE80211_CTS_hdr =
    [(''dst'', Str 6, VStr (replicate 6 (char_of (0 :: nat))))]"

definition ieee80211_IEEE80211_ACK_hdr :: hdr where
  "ieee80211_IEEE80211_ACK_hdr =
    [(''dst'', Str 6, VStr (replicate 6 (char_of (0 :: nat))))]"

definition ieee80211_IEEE80211_CFEnd_hdr :: hdr where
  "ieee80211_IEEE80211_CFEnd_hdr =
    [(''dst'', Str 6, VStr (replicate 6 (char_of (0 :: nat)))),
     (''src'', Str 6, VStr (replicate 6 (char_of (0 :: nat))))]"

definition ieee80211_IEEE80211_MGMT_Frame_hdr :: hdr where
  "ieee80211_IEEE80211_MGMT_Frame_hdr =
    [(''dst'', Str 6, VStr (replicate 6 (char_of (0 :: nat)))),
     (''src'', Str 6, VStr (replicate 6 (char_of (0 :: nat)))),
     (''bssid'', Str 6, VStr (replicate 6 (char_of (0 :: nat)))),
     (''frag_seq'', fH, VInt 0)]"

definition ieee80211_IEEE80211_Beacon_hdr :: hdr where
  "ieee80211_IEEE80211_Beacon_hdr =
    [(''timestamp'', fQ, VInt 0),
     (''interval'', fH, VInt 0),
     (''capability'', fH, VInt 0)]"

definition ieee80211_IEEE80211_Disassoc_hdr :: hdr where
  "ieee80211_IEEE80211_Disassoc_hdr =
    [(''reason'', fH, VInt 0)]"

definition ieee80211_IEEE80211_Assoc_Req_hdr :: hdr where
  "ieee80211_IEEE80211_Assoc_Req_hdr =
    [(''capability'', fH, VInt 0),
     (''interval'', fH, VInt 0)]"

definition ieee80211_IEEE80211_Assoc_Resp_hdr :: hdr where
  "ieee80211_IEEE80211_Assoc_Resp_hdr =
    [(''capability'', fH, VInt 0),
     (''status'', fH, VInt 0),
     (''aid'', fH, VInt 0)]"

definition ieee80211_IEEE80211_Reassoc_Req_hdr :: hdr where
  "ieee80211_IEEE80211_Reassoc_Req_hdr =
    [(''capability'', fH, VInt 0),
     (''interval'', fH, VInt 0),
     (''current_ap'', Str 6, VStr (replicate 6 (char_of (0 :: nat))))]"

definition ieee80211_IEEE80211_Auth_hdr :: hdr where
  "ieee80211_IEEE80211_Auth_hdr =
    [(''algorithm'', fH, VInt 0),
     (''auth_seq'', fH, VInt 0)]"

definition ieee80211_IEEE80211_Deauth_hdr :: hdr where
  "ieee80211_IEEE80211_Deauth_hdr =
    [(''reason'', fH, VInt 0)]"

definition ieee80211_IEEE80211_BlockAckActionRequest_hdr :: hdr where
  "ieee80211_IEEE80211_BlockAckActionRequest_hdr =
    [(''dialog'', fB, VInt 0),
     (''parameters'', fH, VInt 0),
     (''timeout'', fH, VInt 0),
     (''starting_seq'', fH, VInt 0)]"

definition ieee80211_IEEE80211_BlockAckActionResponse_hdr :: hdr where
  "ieee80211_IEEE80211_BlockAckActionResponse_hdr =
    [(''dialog'', fB, VInt 0),
     (''status_code'', fH, VInt 0),
     (''parameters'', fH, VInt 0),
     (''timeout'', fH, VInt 0)]"

definition ieee80211_IEEE80211_BlockAckActionDelba_hdr :: hdr where
  "ieee80211_IEEE80211_BlockAckActionDelba_hdr =
    [(''delba_param_set'', fH, VInt 0),
     (''reason_code'', fH, VInt 0)]"

definition ieee80211_IEEE80211_Data_hdr :: hdr where
  "ieee80211_IEEE80211_Data_hdr =
    [(''dst'', Str 6, VStr (replicate 6 (char_of (0 :: nat)))),
     (''src'', Str 6, VStr (replicate 6 (char_of (0 :: nat)))),
     (''bssid'', Str 6, VStr (replicate 6 (char_of (0 :: nat)))),
     (''frag_seq'', fH, VInt 0)]"

definition ieee80211_IEEE80211_DataFromDS_hdr :: hdr where
  "ieee80211_IEEE80211_DataFromDS_hdr =
    [(''dst'', Str 6, VStr (replicate 6 (char_of (0 :: nat)))),
     (''bssid'', Str 6, VStr (replicate 6 (char_of (0 :: nat)))),
     (''src'', Str 6, VStr (replicate 6 (char_of (0 :: nat)))),
     (''frag_seq'', fH, VInt 0)]"

definition ieee80211_IEEE80211_DataToDS_hdr :: hdr where
  "ieee80211_IEEE80211_DataToDS_hdr =
    [(''bssid'', Str 6, VStr (replicate 6 (char_of (0 :: nat)))),
     (''src'', Str 6, VStr (replicate 6 (char_of (0 :: nat)))),
     (''dst'', Str 6, VStr (replicate 6 (char_of (0 :: nat)))),
     (''frag_seq'', fH, VInt 0)]"

definition ieee80211_IEEE80211_DataInterDS_hdr :: hdr where
  "ieee80211_IEEE80211_DataInterDS_hdr =
    [(''dst'', Str 6, VStr (replicate 6 (char_of (0 :: nat)))),
     (''src'', Str 6, VStr (replicate 6 (char_of (0 :: nat)))),
     (''da'', Str 6, VStr (replicate 6 (char_of (0 :: nat)))),
     (''frag_seq'', fH, VInt 0),
     (''sa'', Str 6, VStr (replicate 6 (char_of (0 :: nat))))]"

definition ieee80211_IEEE80211_QoS_Data_hdr :: hdr where
  "ieee80211_IEEE80211_QoS_Data_hdr =
    [(''control'', fH, VInt 0)]"

definition ieee80211_IEEE80211_FH_hdr :: hdr where
  "ieee80211_IEEE80211_FH_hdr =
    [(''id'', fB, VInt 0),
     (''len'', fB, VInt 0),
     (''tu'', fH, VInt 0),
     (''hopset'', fB, VInt 0),
     (''hoppattern'', fB, VInt 0),
     (''hopindex'', fB, VInt 0)]"

definition ieee80211_IEEE80211_DS_hdr :: hdr where
  "ieee80211_IEEE80211_DS_hdr =
    [(''id'', fB, VInt 0),
     (''len'', fB, VInt 0),
     (''ch'', fB, VInt 0)]"

definition ieee80211_IEEE80211_CF_hdr :: hdr where
  "ieee80211_IEEE80211_CF_hdr =
    [(''id'', fB, VInt 0),
     (''len'', fB, VInt 0),
     (''count'', fB, VInt 0),
     (''period'', fB, VInt 0),
     (''max'', fH, VInt 0),
     (''dur'', fH, VInt 0)]"

definition ieee80211_IEEE80211_IBSS_hdr :: hdr where
  "ieee80211_IEEE80211_IBSS_hdr =
    [(''id'', fB, VInt 0),
     (''len'', fB, VInt 0),
     (''atim'', fH, VInt 0)]"

definition ipx_IPX_hdr :: hdr where
  "ipx_IPX_hdr =
    [(''sum'', fH, VInt 65535),
     (''len'', fH, VInt 30),
     (''tc'', fB, VInt 0),
     (''pt'', fB, VInt 0),
     (''dst'', Str 12, VBytes []),
     (''src'', Str 12, VBytes [])]"

definition mrt_MRTHeader_hdr :: hdr where
  "mrt_MRTHeader_hdr =
    [(''ts'', fI, VInt 0),
     (''type'', fH, VInt 0),
     (''subtype'', fH, VInt 0),
     (''len'', fI, VInt 0)]"

definition mrt_BGP4MPMessage_hdr :: hdr where
  "mrt_BGP4MPMessage_hdr =
    [(''src_as'', fH, VInt 0),
     (''dst_as'', fH, VInt 0),
     (''intf'', fH, VInt 0),
     (''family'', fH, VInt 1),
     (''src_ip'', fI, VInt 0),
     (''dst_ip'', fI, VInt 0)]"

definition mrt_BGP4MPMessage_32_hdr :: hdr where
  "mrt_BGP4MPMessage_32_hdr =
    [(''src_as'', fI, VInt 0),
     (''dst_as'', fI, VInt 0),
     (''intf'', fH, VInt 0),
     (''family'', fH, VInt 1),
     (''src_ip'', fI, VInt 0),
     (''dst_ip'', fI, VInt 0)]"

definition netbios_Session_hdr :: hdr where
  "netbios_Session_hdr =
    [(''type'', fB, VInt 0),
     (''flags'', fB, VInt 0),
     (''len'', fH, VInt 0)]"

definition netbios_Datagram_hdr :: hdr where
  "netbios_Datagram_hdr =
    [(''type'', fB, VInt 0),
     (''flags'', fB, VInt 0),
     (''id'', fH, VInt 0),
     (''src'', fI, VInt 0),
     (''sport'', fH, VInt 0),
     (''len'', fH, VInt 0),
     (''off'', fH, VInt 0)]"

definition ntp_NTP_hdr :: hdr where
  "ntp_NTP_hdr =
    [(''flags'', fB, VInt 0),
     (''stratum'', fB, VInt 0),
     (''interval'', fB, VInt 0),
     (''precision'', fB, VInt 0),
     (''delay'', fI, VInt 0),
     (''dispersion'', fI, VInt 0),
     (''id'', Str 4, VInt 0),
     (''update_time'', Str 8, VInt 0),
     (''originate_time'', Str 8, VInt 0),
     (''receive_time'', Str 8, VInt 0),
     (''transmit_time'', Str 8, VInt 0)]"

definition ospf_OSPFv3DBD_hdr :: hdr where
  "ospf_OSPFv3DBD_hdr =
    [(''opts'', Str 3, VBytes [0, 0, 0]),
     (''flags'', fB, VInt 0),
     (''seq'', fI, VInt 0)]"

definition ospf_LSAv3Header_hdr :: hdr where
  "ospf_LSAv3Header_hdr =
    [(''age'', fH, VInt 0),
     (''_type_field'', fH, VInt 0),
     (''id'', fI, VInt 0),
     (''adv_router'', fI, VInt 0),
     (''seq'', fI, VInt 0),
     (''sum'', fH, VInt 0),
     (''len'', fH, VInt 20)]"

definition ospf_OSPFv2DBD_hdr :: hdr where
  "ospf_OSPFv2DBD_hdr =
    [(''mtu'', fH, VInt 0),
     (''opts'', fB, VInt 0),
     (''flags'', fB, VInt 0),
     (''seq'', fI, VInt 0)]"

definition ospf_LSAv2Header_hdr :: hdr where
  "ospf_LSAv2Header_hdr =
    [(''age'', fH, VInt 0),
     (''opts'', fB, VInt 0),
     (''type'', fB, VInt 0),
     (''id'', fI, VInt 0),
     (''adv_router'', fI, VInt 0),
     (''seq'', fI, VInt 0),
     (''sum'', fH, VInt 0),
     (''len'', fH, VInt 20)]"

definition pcap_PktHdr_hdr :: hdr where
  "pcap_PktHdr_hdr =
    [(''tv_sec'', fI, VInt 0),
     (''tv_usec'', fI, VInt 0),
     (''caplen'', fI, VInt 0),
     (''len'', fI, VInt 0)]"

definition pcap_PktModHdr_hdr :: hdr where
  "pcap_PktModHdr_hdr =
    [(''tv_sec'', fI, VInt 0),
     (''tv_usec'', fI, VInt 0),
     (''caplen'', fI, VInt 0),
     (''len'', fI, VInt 0),
     (''ifindex'', fI, VInt 0),
     (''protocol'', fH, VInt 0),
     (''pkt_type'', fB, VInt 0),
     (''pad'', fB, VInt 0)]"

definition pcap_FileHdr_hdr :: hdr where
  "pcap_FileHdr_hdr =
    [(''magic'', fI, VInt 2712847316),
     (''v_major'', fH, VInt 2),
     (''v_minor'', fH, VInt 4),
     (''thiszone'', fI, VInt 0),
     (''sigfigs'', fI, VInt 0),
     (''snaplen'', fI, VInt 1500),
     (''linktype'', fI, VInt 1)]"

definition pmap_Pmap_hdr :: hdr where
  "pmap_Pmap_hdr =
    [(''prog'', fI, VInt 0),
     (''vers'', fI, VInt 0),
     (''prot'', fI, VInt 0),
     (''port'', fI, VInt 0)]"

definition qq_QQBasicPacket_hdr :: hdr where
  "qq_QQBasicPacket_hdr =
    [(''header_type'', fB, VInt 2),
     (''source'', fH, VInt 0),
     (''command'', fH, VInt 0),
     (''sequence'', fH, VInt 0),
     (''qqNum'', fL, VInt 0)]"

definition qq_QQ3Packet_hdr :: hdr where
  "qq_QQ3Packet_hdr =
    [(''header_type'', fB, VInt 3),
     (''command'', fB, VInt 0),
     (''sequence'', fH, VInt 0),
     (''unknown1'', fL, VInt 0),
     (''unknown2'', fL, VInt 0),
     (''unknown3'', fL, VInt 0),
     (''unknown4'', fL, VInt 0),
     (''unknown5'', fL, VInt 0),
     (''unknown6'', fL, VInt 0),
     (''unknown7'', fL, VInt 0),
     (''unknown8'', fL, VInt 0),
     (''unknown9'', fL, VInt 0),
     (''unknown10'', fB, VInt 1),
     (''unknown11'', fB, VInt 0),
     (''unknown12'', fB, VInt 0),
     (''source'', fH, VInt 0),
     (''unknown13'', fB, VInt 0)]"

definition qq_QQ5Packet_hdr :: hdr where
  "qq_QQ5Packet_hdr =
    [(''header_type'', fB, VInt 5),
     (''source'', fH, VInt 0),
     (''unknown'', fH, VInt 0),
     (''command'', fH, VInt 0),
     (''sequence'', fH, VInt 0),
     (''qqNum'', fL, VInt 0)]"

definition radiotap_Radiotap_Antenna_hdr :: hdr where
  "radiotap_Radiotap_Antenna_hdr =
    [(''index'', fB, VInt 0)]"

definition radiotap_Radiotap_AntennaNoise_hdr :: hdr where
  "radiotap_Radiotap_AntennaNoise_hdr =
    [(''db'', fb, VInt 0)]"

definition radiotap_Radiotap_AntennaSignal_hdr :: hdr where
  "radiotap_Radiotap_AntennaSignal_hdr =
    [(''db'', fb, VInt 0)]"

definition radiotap_Radiotap_Channel_hdr :: hdr where
  "radiotap_Radiotap_Channel_hdr =
    [(''freq'', fH, VInt 0),
     (''flags'', fH, VInt 0)]"

definition radiotap_Radiotap_FHSS_hdr :: hdr where
  "radiotap_Radiotap_FHSS_hdr =
    [(''set'', fB, VInt 0),
     (''pattern'', fB, VInt 0)]"

definition radiotap_Radiotap_Flags_hdr :: hdr where
  "radiotap_Radiotap_Flags_hdr =
    [(''val'', fB, VInt 0)]"

definition radiotap_Radiotap_LockQuality_hdr :: hdr where
  "radiotap_Radiotap_LockQuality_hdr =
    [(''val'', fH, VInt 0)]"

definition radiotap_Radiotap_RxFlags_hdr :: hdr where
  "radiotap_Radiotap_RxFlags_hdr =
    [(''val'', fH, VInt 0)]"

definition radiotap_Radiotap_Rate_hdr :: hdr where
  "radiotap_Radiotap_Rate_hdr =
    [(''val'', fB, VInt 0)]"

definition radiotap_Radiotap_TSFT_hdr :: hdr where
  "radiotap_Radiotap_TSFT_hdr =
    [(''usecs'', fQ, VInt 0)]"

definition radiotap_Radiotap_TxAttenuation_hdr :: hdr where
  "radiotap_Radiotap_TxAttenuation_hdr =
    [(''val'', fH, VInt 0)]"

definition radiotap_Radiotap_DbTxAttenuation_hdr :: hdr where
  "radiotap_Radiotap_DbTxAttenuation_hdr =
    [(''db'', fH, VInt 0)]"

definition radiotap_Radiotap_DbAntennaNoise_hdr :: hdr where
  "radiotap_Radiotap_DbAntennaNoise_hdr =
    [(''db'', fB, VInt 0)]"

definition radiotap_Radiotap_DbAntennaSignal_hdr :: hdr where
  "radiotap_Radiotap_DbAntennaSignal_hdr =
    [(''db'', fB, VInt 0)]"

definition radiotap_Radiotap_DbmTxPower_hdr :: hdr where
  "radiotap_Radiotap_DbmTxPower_hdr =
    [(''dbm'', fB, VInt 0)]"

definition radiotap_Radiotap_ChannelPlus_hdr :: hdr where
  "radiotap_Radiotap_ChannelPlus_hdr =
    [(''flags'', fI, VInt 0),
     (''freq'', fH, VInt 0),
     (''channel'', fB, VInt 0),
     (''maxpower'', fB, VInt 0)]"

definition rfb_RFB_hdr :: hdr where
  "rfb_RFB_hdr =
    [(''type'', fB, VInt 0)]"

definition rfb_SetPixelFormat_hdr :: hdr where
  "rfb_SetPixelFormat_hdr =
    [(''pad'', Str 3, VBytes []),
     (''pixel_fmt'', Str 16, VBytes [])]"

definition rfb_SetEncodings_hdr :: hdr where
  "rfb_SetEncodings_hdr =
    [(''pad'', Str 1, VBytes []),
     (''num_encodings'', fH, VInt 0)]"

definition rfb_FramebufferUpdateRequest_hdr :: hdr where
  "rfb_FramebufferUpdateRequest_hdr =
    [(''incremental'', fB, VInt 0),
     (''x_position'', fH, VInt 0),
     (''y_position'', fH, VInt 0),
     (''width'', fH, VInt 0),
     (''height'', fH, VInt 0)]"

definition rfb_KeyEvent_hdr :: hdr where
  "rfb_KeyEvent_hdr =
    [(''down_flag'', fB, VInt 0),
     (''pad'', Str 2, VBytes []),
     (''key'', fI, VInt 0)]"

definition rfb_PointerEvent_hdr :: hdr where
  "rfb_PointerEvent_hdr =
    [(''button_mask'', fB, VInt 0),
     (''x_position'', fH, VInt 0),
     (''y_position'', fH, VInt 0)]"

definition rfb_FramebufferUpdate_hdr :: hdr where
  "rfb_FramebufferUpdate_hdr =
    [(''pad'', Str 1, VBytes []),
     (''num_rects'', fH, VInt 0)]"

definition rfb_SetColourMapEntries_hdr :: hdr where
  "rfb_SetColourMapEntries_hdr =
    [(''pad'', Str 1, VBytes []),
     (''first_colour'', fH, VInt 0),
     (''num_colours'', fH, VInt 0)]"

definition rfb_CutText_hdr :: hdr where
  "rfb_CutText_hdr =
    [(''pad'', Str 3, VBytes []),
     (''length'', fI, VInt 0)]"

definition rip_RTE_hdr :: hdr where
  "rip_RTE_hdr =
    [(''family'', fH, VInt 2),
     (''route_tag'', fH, VInt 0),
     (''addr'', fI, VInt 0),
     (''subnet'', fI, VInt 0),
     (''next_hop'', fI, VInt 0),
     (''metric'', fI, VInt 1)]"

definition rip_Auth_hdr :: hdr where
  "rip_Auth_hdr =
    [(''rsvd'', fH, VInt 65535),
     (''type'', fH, VInt 2),
     (''auth'', Str 16, VInt 0)]"

definition rtcp_XBlockLoss_hdr :: hdr where
  "rtcp_XBlockLoss_hdr =
    [(''ssrc'', fI, VInt 0)]"

definition rtcp_XBlockDupl_hdr :: hdr where
  "rtcp_XBlockDupl_hdr =
    [(''ssrc'', fI, VInt 0)]"

definition rtcp_XBlockRcvt_hdr :: hdr where
  "rtcp_XBlockRcvt_hdr =
    [(''ssrc'', fI, VInt 0)]"

definition rtcp_XBlockRcvr_hdr :: hdr where
  "rtcp_XBlockRcvr_hdr =
    [(''ntp_ts_msw'', fI, VInt 0),
     (''ntp_ts_lsw'', fI, VInt 0)]"

definition rtcp_XBlockStat_hdr :: hdr where
  "rtcp_XBlockStat_hdr =
    [(''ssrc'', fI, VInt 0),
     (''beg_seq'', fH, VInt 0),
     (''end_seq'', fH, VInt 0),
     (''loss'', fI, VInt 0),
     (''dupl'', fI, VInt 0),
     (''min_jitter'', fI, VInt 0),
     (''max_jitter'', fI, VInt 0),
     (''avg_jitter'', fI, VInt 0),
     (''dev_jitter'', fI, VInt 0),
     (''min_ttl_or_hl'', fB, VInt 0),
     (''max_ttl_or_hl'', fB, VInt 0),
     (''mean_ttl_or_hl'', fB, VInt 0),
     (''dev_ttl_or_hl'', fB, VInt 0)]"

definition rtcp_XBlockVoip_hdr :: hdr where
  "rtcp_XBlockVoip_hdr =
    [(''ssrc'', fI, VInt 0),
     (''loss_rate'', fB, VInt 0),
     (''disc_rate'', fB, VInt 0),
     (''burst_density'', fB, VInt 0),
     (''gap_density'', fB, VInt 0),
     (''burst_duration'', fH, VInt 0),
     (''gap_duration'', fH, VInt 0),
     (''rtt'', fH, VInt 0),
     (''end_sys_delay'', fH, VInt 0),
     (''signal_level'', fB, VInt 0),
     (''noise_level'', fB, VInt 0),
     (''RERL'', fB, VInt 0),
     (''Gmin'', fB, VInt 0),
     (''RFactor'', fB, VInt 0),
     (''ext_RFactor'', fB, VInt 0),
     (''MOS_LQ'', fB, VInt 0),
     (''MOS_CQ'', fB, VInt 0),
     (''RX_config'', fB, VInt 0),
     (''reserved'', fB, VInt 0),
     (''nominal_jitter'', fH, VInt 0),
     (''max_jitter'', fH, VInt 0),
     (''abs_max_jitter'', fH, VInt 0)]"

definition rx_Rx_hdr :: hdr where
  "rx_Rx_hdr =
    [(''epoch'', fI, VInt 0),
     (''cid'', fI, VInt 0),
     (''call'', fI, VInt 1),
     (''seq'', fI, VInt 0),
     (''serial'', fI, VInt 1),
     (''type'', fB, VInt 0),
     (''flags'', fB, VInt 1),
     (''status'', fB, VInt 0),
     (''security'', fB, VInt 0),
     (''sum'', fH, VInt 0),
     (''service'', fH, VInt 0)]"

definition sccp_ActivateCallPlane_hdr :: hdr where
  "sccp_ActivateCallPlane_hdr =
    [(''line_instance'', fI, VInt 0)]"

definition sccp_CallInfo_hdr :: hdr where
  "sccp_CallInfo_hdr =
    [(''calling_party_name'', Str 40, VBytes []),
     (''calling_party'', Str 24, VBytes []),
     (''called_party_name'', Str 40, VBytes []),
     (''called_party'', Str 24, VBytes []),
     (''line_instance'', fI, VInt 0),
     (''call_id'', fI, VInt 0),
     (''call_type'', fI, VInt 0),
     (''orig_called_party_name'', Str 40, VBytes []),
     (''orig_called_party'', Str 24, VBytes [])]"

definition sccp_CallState_hdr :: hdr where
  "sccp_CallState_hdr =
    [(''call_state'', fI, VInt 12),
     (''line_instance'', fI, VInt 1),
     (''call_id'', fI, VInt 0)]"

definition sccp_ClearPromptStatus_hdr :: hdr where
  "sccp_ClearPromptStatus_hdr =
    [(''line_instance'', fI, VInt 1),
     (''call_id'', fI, VInt 0)]"

definition sccp_CloseReceiveChannel_hdr :: hdr where
  "sccp_CloseReceiveChannel_hdr =
    [(''conference_id'', fI, VInt 0),
     (''passthruparty_id'', fI, VInt 0)]"

definition sccp_DisplayPromptStatus_hdr :: hdr where
  "sccp_DisplayPromptStatus_hdr =
    [(''msg_timeout'', fI, VInt 0),
     (''display_msg'', Str 32, VBytes []),
     (''line_instance'', fI, VInt 1),
     (''call_id'', fI, VInt 0)]"

definition sccp_DisplayText_hdr :: hdr where
  "sccp_DisplayText_hdr =
    [(''display_msg'', Str 36, VBytes [])]"

definition sccp_KeypadButton_hdr :: hdr where
  "sccp_KeypadButton_hdr =
    [(''button'', fI, VInt 0)]"

definition sccp_OpenReceiveChannel_hdr :: hdr where
  "sccp_OpenReceiveChannel_hdr =
    [(''conference_id'', fI, VInt 0),
     (''passthruparty_id'', fI, VInt 0),
     (''ms_packet'', fI, VInt 0),
     (''payload_capability'', fI, VInt 4),
     (''echo_cancel_type'', fI, VInt 4),
     (''g723_bitrate'', fI, VInt 0)]"

definition sccp_OpenReceiveChannelAck_hdr :: hdr where
  "sccp_OpenReceiveChannelAck_hdr =
    [(''channel_status'', fI, VInt 0),
     (''ip'', Str 4, VBytes []),
     (''port'', fI, VInt 0),
     (''passthruparty_id'', fI, VInt 0)]"

definition sccp_SelectStartKeys_hdr :: hdr where
  "sccp_SelectStartKeys_hdr =
    [(''line_id'', fI, VInt 1),
     (''call_id'', fI, VInt 0),
     (''softkey_set'', fI, VInt 8),
     (''softkey_map'', fI, VInt 4294967295)]"

definition sccp_SetLamp_hdr :: hdr where
  "sccp_SetLamp_hdr =
    [(''stimulus'', fI, VInt 9),
     (''stimulus_instance'', fI, VInt 1),
     (''lamp_mode'', fI, VInt 1)]"

definition sccp_SetSpeakerMode_hdr :: hdr where
  "sccp_SetSpeakerMode_hdr =
    [(''speaker'', fI, VInt 2)]"

definition sccp_StartMediaTransmission_hdr :: hdr where
  "sccp_StartMediaTransmission_hdr =
    [(''conference_id'', fI, VInt 0),
     (''passthruparty_id'', fI, VInt 0),
     (''ipv4_or_ipv6'', fI, VInt 0),
     (''remote_ip'', Str 16, VBytes []),
     (''remote_port'', fI, VInt 0),
     (''ms_packet'', fI, VInt 0),
     (''payload_capability'', fI, VInt 4),
     (''precedence'', fI, VInt 0),
     (''silence_suppression'', fI, VInt 0),
     (''max_frames_per_pkt'', fI, VInt 1),
     (''g723_bitrate'', fI, VInt 0),
     (''call_reference'', fI, VInt 0)]"

definition sccp_StartTone_hdr :: hdr where
  "sccp_StartTone_hdr =
    [(''tone'', fI, VInt 36)]"

definition sccp_StopMediaTransmission_hdr :: hdr where
  "sccp_StopMediaTransmission_hdr =
    [(''conference_id'', fI, VInt 0),
     (''passthruparty_id'', fI, VInt 0)]"

definition smb2_SMB2Negotiate_hdr :: hdr where
  "smb2_SMB2Negotiate_hdr =
    [(''struct_size'', fH, VInt 36),
     (''dialect_count'', fH, VInt 0),
     (''security_mode'', fH, VInt 0),
     (''_rsv'', fH, VInt 0),
     (''capabilities'', fI, VInt 0),
     (''client_guid'', Str 16, VBytes (replicate 16 0)),
     (''_negotiate_flags'', fI, VInt 0)]"

definition smb2_SMB2SessionSetup_hdr :: hdr where
  "smb2_SMB2SessionSetup_hdr =
    [(''struct_size'', fH, VInt 25),
     (''flags'', fB, VInt 0),
     (''security_mode'', fB, VInt 0),
     (''capabilities'', fI, VInt 0),
     (''channel'', fI, VInt 0),
     (''security_blob_offset'', fH, VInt 0),
     (''security_blob_length'', fH, VInt 0),
     (''prev_session_id'', fQ, VInt 0)]"

definition smb2_SMB2Close_hdr :: hdr where
  "smb2_SMB2Close_hdr =
    [(''struct_size'', fH, VInt 24),
     (''flags'', fH, VInt 0),
     (''_rsv'', fI, VInt 0),
     (''file_id'', Str 16, VBytes (replicate 16 255))]"

definition smb2_SMB2Logoff_hdr :: hdr where
  "smb2_SMB2Logoff_hdr =
    [(''struct_size'', fH, VInt 4),
     (''_rsv'', fH, VInt 0)]"

definition smb2_SMB2TreeDisconnect_hdr :: hdr where
  "smb2_SMB2TreeDisconnect_hdr =
    [(''struct_size'', fH, VInt 4),
     (''_rsv'', fH, VInt 0)]"

definition smb2_SMB2Flush_hdr :: hdr where
  "smb2_SMB2Flush_hdr =
    [(''struct_size'', fH, VInt 24),
     (''_rsv1'', fH, VInt 0),
     (''_rsv2'', fI, VInt 0),
     (''file_id'', Str 16, VBytes (replicate 16 255))]"

definition smb2_SMB2Cancel_hdr :: hdr where
  "smb2_SMB2Cancel_hdr =
    [(''struct_size'', fH, VInt 4)]"

definition smb2_SMB2Echo_hdr :: hdr where
  "smb2_SMB2Echo_hdr =
    [(''struct_size'', fH, VInt 4)]"

definition smb2_SMB2ChangeNotify_hdr :: hdr where
  "smb2_SMB2ChangeNotify_hdr =
    [(''struct_size'', fH, VInt 32),
     (''flags'', fH, VInt 0),
     (''output_buffer_length'', fI, VInt 0),
     (''file_id'', Str 16, VBytes (replicate 16 255)),
     (''completion_filter'', fI, VInt 0),
     (''_rsv'', fI, VInt 0)]"

definition smb2_SMB2OplockBreak_hdr :: hdr where
  "smb2_SMB2OplockBreak_hdr =
    [(''struct_size'', fH, VInt 24),
     (''oplock_level'', fB, VInt 0),
     (''_rsv1'', fB, VInt 0),
     (''_rsv2'', fI, VInt 0),
     (''file_id'', Str 16, VBytes (replicate 16 255))]"

definition snoop_PktHdr_hdr :: hdr where
  "snoop_PktHdr_hdr =
    [(''orig_len'', fI, VInt 0),
     (''incl_len'', fI, VInt 0),
     (''rec_len'', fI, VInt 0),
     (''cum_drops'', fI, VInt 0),
     (''ts_sec'', fI, VInt 0),
     (''ts_usec'', fI, VInt 0)]"

definition snoop_FileHdr_hdr :: hdr where
  "snoop_FileHdr_hdr =
    [(''magic'', fQ, VInt 8317708086210985984),
     (''v'', fI, VInt 2),
     (''linktype'', fI, VInt 4)]"

definition ssl_TLSChangeCipherSpec_hdr :: hdr where
  "ssl_TLSChangeCipherSpec_hdr =
    [(''type'', fB, VInt 1)]"

definition ssl_TLSAlert_hdr :: hdr where
  "ssl_TLSAlert_hdr =
    [(''level'', fB, VInt 1),
     (''description'', fB, VInt 0)]"

definition stun_STUN_hdr :: hdr where
  "stun_STUN_hdr =
    [(''type'', fH, VInt 0),
     (''len'', fH, VInt 0),
     (''xid'', Str 16, VInt 0)]"

definition tpkt_TPKT_hdr :: hdr where
  "tpkt_TPKT_hdr =
    [(''v'', fB, VInt 3),
     (''rsvd'', fB, VInt 0),
     (''len'', fH, VInt 0)]"

definition yahoo_YHOO_hdr :: hdr where
  "yahoo_YHOO_hdr =
    [(''version'', Str 8, VStr (replicate 8 (char_of (32 :: nat)))),
     (''length'', fI, VInt 0),
     (''service'', fI, VInt 0),
     (''connid'', fI, VInt 0),
     (''magic'', fI, VInt 0),
     (''unknown'', fI, VInt 0),
     (''type'', fI, VInt 0),
     (''nick1'', Str 36, VStr (replicate 36 (char_of (32 :: nat)))),
     (''nick2'', Str 36, VStr (replicate 36 (char_of (32 :: nat))))]"

definition yahoo_YMSG_hdr :: hdr where
  "yahoo_YMSG_hdr =
    [(''version'', Str 8, VStr (replicate 8 (char_of (32 :: nat)))),
     (''length'', fH, VInt 0),
     (''type'', fH, VInt 0),
     (''unknown1'', fI, VInt 0),
     (''unknown2'', fI, VInt 0)]"

section \<open>The list of classes\<close>

definition class_table :: "(string \<times> endian \<times> hdr) list" where
  "class_table =
    [(''aim.SNAC'', BE, aim_SNAC_hdr),
     (''aoeata.AOEATA'', BE, aoeata_AOEATA_hdr),
     (''aoecfg.AOECFG'', BE, aoecfg_AOECFG_hdr),
     (''bgp.BGP.Open.Parameter.Authentication'', BE, bgp_BGP_Open_Parameter_Authentication_hdr),
     (''bgp.BGP.Update.Attribute.Origin'', BE, bgp_BGP_Update_Attribute_Origin_hdr),
     (''bgp.BGP.Update.Attribute.NextHop'', BE, bgp_BGP_Update_Attribute_NextHop_hdr),
     (''bgp.BGP.Update.Attribute.MultiExitDisc'', BE, bgp_BGP_Update_Attribute_MultiExitDisc_hdr),
     (''bgp.BGP.Update.Attribute.LocalPref'', BE, bgp_BGP_Update_Attribute_LocalPref_hdr),
     (''bgp.BGP.Update.Attribute.Aggregator'', BE, bgp_BGP_Update_Attribute_Aggregator_hdr),
     (''bgp.BGP.Update.Attribute.Communities.Community'', BE, bgp_BGP_Update_Attribute_Communities_Community_hdr),
     (''bgp.BGP.Update.Attribute.Communities.ReservedCommunity'', BE, bgp_BGP_Update_Attribute_Communities_ReservedCommunity_hdr),
     (''bgp.BGP.Update.Attribute.OriginatorID'', BE, bgp_BGP_Update_Attribute_OriginatorID_hdr),
     (''bgp.BGP.RouteRefresh'', BE, bgp_BGP_RouteRefresh_hdr),
     (''esp.ESP'', BE, esp_ESP_hdr),
     (''gzip.GzipExtra'', LE, gzip_GzipExtra_hdr),
     (''hsrp.HSRP'', BE, hsrp_HSRP_hdr),
     (''http2.Setting'', BE, http2_Setting_hdr),
     (''icmp.ICMP.Echo'', BE, icmp_ICMP_Echo_hdr),
     (''icmp6.ICMP6.Echo'', BE, icmp6_ICMP6_Echo_hdr),
     (''ieee80211.IEEE80211.BlockAckReq'', LE, ieee80211_IEEE80211_BlockAckReq_hdr),
     (''ieee80211.IEEE80211.RTS'', LE, ieee80211_IEEE80211_RTS_hdr),
     (''ieee80211.IEEE80211.CTS'', LE, ieee80211_IEEE80211_CTS_hdr),
     (''ieee80211.IEEE80211.ACK'', LE, ieee80211_IEEE80211_ACK_hdr),
     (''ieee80211.IEEE80211.CFEnd'', LE, ieee80211_IEEE80211_CFEnd_hdr),
     (''ieee80211.IEEE80211.MGMT_Frame'', LE, ieee80211_IEEE80211_MGMT_Frame_hdr),
     (''ieee80211.IEEE80211.Beacon'', LE, ieee80211_IEEE80211_Beacon_hdr),
     (''ieee80211.IEEE80211.Disassoc'', LE, ieee80211_IEEE80211_Disassoc_hdr),
     (''ieee80211.IEEE80211.Assoc_Req'', LE, ieee80211_IEEE80211_Assoc_Req_hdr),
     (''ieee80211.IEEE80211.Assoc_Resp'', LE, ieee80211_IEEE80211_Assoc_Resp_hdr),
     (''ieee80211.IEEE80211.Reassoc_Req'', LE, ieee80211_IEEE80211_Reassoc_Req_hdr),
     (''ieee80211.IEEE80211.Auth'', LE, ieee80211_IEEE80211_Auth_hdr),
     (''ieee80211.IEEE80211.Deauth'', LE, ieee80211_IEEE80211_Deauth_hdr),
     (''ieee80211.IEEE80211.BlockAckActionRequest'', LE, ieee80211_IEEE80211_BlockAckActionRequest_hdr),
     (''ieee80211.IEEE80211.BlockAckActionResponse'', LE, ieee80211_IEEE80211_BlockAckActionResponse_hdr),
     (''ieee80211.IEEE80211.BlockAckActionDelba'', LE, ieee80211_IEEE80211_BlockAckActionDelba_hdr),
     (''ieee80211.IEEE80211.Data'', LE, ieee80211_IEEE80211_Data_hdr),
     (''ieee80211.IEEE80211.DataFromDS'', LE, ieee80211_IEEE80211_DataFromDS_hdr),
     (''ieee80211.IEEE80211.DataToDS'', LE, ieee80211_IEEE80211_DataToDS_hdr),
     (''ieee80211.IEEE80211.DataInterDS'', LE, ieee80211_IEEE80211_DataInterDS_hdr),
     (''ieee80211.IEEE80211.QoS_Data'', LE, ieee80211_IEEE80211_QoS_Data_hdr),
     (''ieee80211.IEEE80211.FH'', BE, ieee80211_IEEE80211_FH_hdr),
     (''ieee80211.IEEE80211.DS'', BE, ieee80211_IEEE80211_DS_hdr),
     (''ieee80211.IEEE80211.CF'', BE, ieee80211_IEEE80211_CF_hdr),
     (''ieee80211.IEEE80211.IBSS'', BE, ieee80211_IEEE80211_IBSS_hdr),
     (''ipx.IPX'', BE, ipx_IPX_hdr),
     (''mrt.MRTHeader'', BE, mrt_MRTHeader_hdr),
     (''mrt.BGP4MPMessage'', BE, mrt_BGP4MPMessage_hdr),
     (''mrt.BGP4MPMessage_32'', BE, mrt_BGP4MPMessage_32_hdr),
     (''netbios.Session'', BE, netbios_Session_hdr),
     (''netbios.Datagram'', BE, netbios_Datagram_hdr),
     (''ntp.NTP'', BE, ntp_NTP_hdr),
     (''ospf.OSPFv3DBD'', BE, ospf_OSPFv3DBD_hdr),
     (''ospf.LSAv3Header'', BE, ospf_LSAv3Header_hdr),
     (''ospf.OSPFv2DBD'', BE, ospf_OSPFv2DBD_hdr),
     (''ospf.LSAv2Header'', BE, ospf_LSAv2Header_hdr),
     (''pcap.PktHdr'', BE, pcap_PktHdr_hdr),
     (''pcap.PktModHdr'', BE, pcap_PktModHdr_hdr),
     (''pcap.FileHdr'', BE, pcap_FileHdr_hdr),
     (''pmap.Pmap'', BE, pmap_Pmap_hdr),
     (''qq.QQBasicPacket'', BE, qq_QQBasicPacket_hdr),
     (''qq.QQ3Packet'', BE, qq_QQ3Packet_hdr),
     (''qq.QQ5Packet'', BE, qq_QQ5Packet_hdr),
     (''radiotap.Radiotap.Antenna'', LE, radiotap_Radiotap_Antenna_hdr),
     (''radiotap.Radiotap.AntennaNoise'', LE, radiotap_Radiotap_AntennaNoise_hdr),
     (''radiotap.Radiotap.AntennaSignal'', LE, radiotap_Radiotap_AntennaSignal_hdr),
     (''radiotap.Radiotap.Channel'', LE, radiotap_Radiotap_Channel_hdr),
     (''radiotap.Radiotap.FHSS'', LE, radiotap_Radiotap_FHSS_hdr),
     (''radiotap.Radiotap.Flags'', LE, radiotap_Radiotap_Flags_hdr),
     (''radiotap.Radiotap.LockQuality'', LE, radiotap_Radiotap_LockQuality_hdr),
     (''radiotap.Radiotap.RxFlags'', LE, radiotap_Radiotap_RxFlags_hdr),
     (''radiotap.Radiotap.Rate'', LE, radiotap_Radiotap_Rate_hdr),
     (''radiotap.Radiotap.TSFT'', LE, radiotap_Radiotap_TSFT_hdr),
     (''radiotap.Radiotap.TxAttenuation'', LE, radiotap_Radiotap_TxAttenuation_hdr),
     (''radiotap.Radiotap.DbTxAttenuation'', LE, radiotap_Radiotap_DbTxAttenuation_hdr),
     (''radiotap.Radiotap.DbAntennaNoise'', LE, radiotap_Radiotap_DbAntennaNoise_hdr),
     (''radiotap.Radiotap.DbAntennaSignal'', LE, radiotap_Radiotap_DbAntennaSignal_hdr),
     (''radiotap.Radiotap.DbmTxPower'', LE, radiotap_Radiotap_DbmTxPower_hdr),
     (''radiotap.Radiotap.ChannelPlus'', LE, radiotap_Radiotap_ChannelPlus_hdr),
     (''rfb.RFB'', BE, rfb_RFB_hdr),
     (''rfb.SetPixelFormat'', BE, rfb_SetPixelFormat_hdr),
     (''rfb.SetEncodings'', BE, rfb_SetEncodings_hdr),
     (''rfb.FramebufferUpdateRequest'', BE, rfb_FramebufferUpdateRequest_hdr),
     (''rfb.KeyEvent'', BE, rfb_KeyEvent_hdr),
     (''rfb.PointerEvent'', BE, rfb_PointerEvent_hdr),
     (''rfb.FramebufferUpdate'', BE, rfb_FramebufferUpdate_hdr),
     (''rfb.SetColourMapEntries'', BE, rfb_SetColourMapEntries_hdr),
     (''rfb.CutText'', BE, rfb_CutText_hdr),
     (''rip.RTE'', BE, rip_RTE_hdr),
     (''rip.Auth'', BE, rip_Auth_hdr),
     (''rtcp.XBlockLoss'', BE, rtcp_XBlockLoss_hdr),
     (''rtcp.XBlockDupl'', BE, rtcp_XBlockDupl_hdr),
     (''rtcp.XBlockRcvt'', BE, rtcp_XBlockRcvt_hdr),
     (''rtcp.XBlockRcvr'', BE, rtcp_XBlockRcvr_hdr),
     (''rtcp.XBlockStat'', BE, rtcp_XBlockStat_hdr),
     (''rtcp.XBlockVoip'', BE, rtcp_XBlockVoip_hdr),
     (''rx.Rx'', BE, rx_Rx_hdr),
     (''sccp.ActivateCallPlane'', LE, sccp_ActivateCallPlane_hdr),
     (''sccp.CallInfo'', LE, sccp_CallInfo_hdr),
     (''sccp.CallState'', LE, sccp_CallState_hdr),
     (''sccp.ClearPromptStatus'', LE, sccp_ClearPromptStatus_hdr),
     (''sccp.CloseReceiveChannel'', LE, sccp_CloseReceiveChannel_hdr),
     (''sccp.DisplayPromptStatus'', LE, sccp_DisplayPromptStatus_hdr),
     (''sccp.DisplayText'', LE, sccp_DisplayText_hdr),
     (''sccp.KeypadButton'', LE, sccp_KeypadButton_hdr),
     (''sccp.OpenReceiveChannel'', LE, sccp_OpenReceiveChannel_hdr),
     (''sccp.OpenReceiveChannelAck'', LE, sccp_OpenReceiveChannelAck_hdr),
     (''sccp.SelectStartKeys'', LE, sccp_SelectStartKeys_hdr),
     (''sccp.SetLamp'', LE, sccp_SetLamp_hdr),
     (''sccp.SetSpeakerMode'', LE, sccp_SetSpeakerMode_hdr),
     (''sccp.StartMediaTransmission'', LE, sccp_StartMediaTransmission_hdr),
     (''sccp.StartTone'', LE, sccp_StartTone_hdr),
     (''sccp.StopMediaTransmission'', LE, sccp_StopMediaTransmission_hdr),
     (''smb2.SMB2Negotiate'', LE, smb2_SMB2Negotiate_hdr),
     (''smb2.SMB2SessionSetup'', LE, smb2_SMB2SessionSetup_hdr),
     (''smb2.SMB2Close'', LE, smb2_SMB2Close_hdr),
     (''smb2.SMB2Logoff'', LE, smb2_SMB2Logoff_hdr),
     (''smb2.SMB2TreeDisconnect'', LE, smb2_SMB2TreeDisconnect_hdr),
     (''smb2.SMB2Flush'', LE, smb2_SMB2Flush_hdr),
     (''smb2.SMB2Cancel'', LE, smb2_SMB2Cancel_hdr),
     (''smb2.SMB2Echo'', LE, smb2_SMB2Echo_hdr),
     (''smb2.SMB2ChangeNotify'', LE, smb2_SMB2ChangeNotify_hdr),
     (''smb2.SMB2OplockBreak'', LE, smb2_SMB2OplockBreak_hdr),
     (''snoop.PktHdr'', BE, snoop_PktHdr_hdr),
     (''snoop.FileHdr'', BE, snoop_FileHdr_hdr),
     (''ssl.TLSChangeCipherSpec'', BE, ssl_TLSChangeCipherSpec_hdr),
     (''ssl.TLSAlert'', BE, ssl_TLSAlert_hdr),
     (''stun.STUN'', BE, stun_STUN_hdr),
     (''tpkt.TPKT'', BE, tpkt_TPKT_hdr),
     (''yahoo.YHOO'', LE, yahoo_YHOO_hdr),
     (''yahoo.YMSG'', BE, yahoo_YMSG_hdr)]"

lemmas class_hdr_defs =
  aim_SNAC_hdr_def
  aoeata_AOEATA_hdr_def
  aoecfg_AOECFG_hdr_def
  bgp_BGP_Open_Parameter_Authentication_hdr_def
  bgp_BGP_Update_Attribute_Origin_hdr_def
  bgp_BGP_Update_Attribute_NextHop_hdr_def
  bgp_BGP_Update_Attribute_MultiExitDisc_hdr_def
  bgp_BGP_Update_Attribute_LocalPref_hdr_def
  bgp_BGP_Update_Attribute_Aggregator_hdr_def
  bgp_BGP_Update_Attribute_Communities_Community_hdr_def
  bgp_BGP_Update_Attribute_Communities_ReservedCommunity_hdr_def
  bgp_BGP_Update_Attribute_OriginatorID_hdr_def
  bgp_BGP_RouteRefresh_hdr_def
  esp_ESP_hdr_def
  gzip_GzipExtra_hdr_def
  hsrp_HSRP_hdr_def
  http2_Setting_hdr_def
  icmp_ICMP_Echo_hdr_def
  icmp6_ICMP6_Echo_hdr_def
  ieee80211_IEEE80211_BlockAckReq_hdr_def
  ieee80211_IEEE80211_RTS_hdr_def
  ieee80211_IEEE80211_CTS_hdr_def
  ieee80211_IEEE80211_ACK_hdr_def
  ieee80211_IEEE80211_CFEnd_hdr_def
  ieee80211_IEEE80211_MGMT_Frame_hdr_def
  ieee80211_IEEE80211_Beacon_hdr_def
  ieee80211_IEEE80211_Disassoc_hdr_def
  ieee80211_IEEE80211_Assoc_Req_hdr_def
  ieee80211_IEEE80211_Assoc_Resp_hdr_def
  ieee80211_IEEE80211_Reassoc_Req_hdr_def
  ieee80211_IEEE80211_Auth_hdr_def
  ieee80211_IEEE80211_Deauth_hdr_def
  ieee80211_IEEE80211_BlockAckActionRequest_hdr_def
  ieee80211_IEEE80211_BlockAckActionResponse_hdr_def
  ieee80211_IEEE80211_BlockAckActionDelba_hdr_def
  ieee80211_IEEE80211_Data_hdr_def
  ieee80211_IEEE80211_DataFromDS_hdr_def
  ieee80211_IEEE80211_DataToDS_hdr_def
  ieee80211_IEEE80211_DataInterDS_hdr_def
  ieee80211_IEEE80211_QoS_Data_hdr_def
  ieee80211_IEEE80211_FH_hdr_def
  ieee80211_IEEE80211_DS_hdr_def
  ieee80211_IEEE80211_CF_hdr_def
  ieee80211_IEEE80211_IBSS_hdr_def
  ipx_IPX_hdr_def
  mrt_MRTHeader_hdr_def
  mrt_BGP4MPMessage_hdr_def
  mrt_BGP4MPMessage_32_hdr_def
  netbios_Session_hdr_def
  netbios_Datagram_hdr_def
  ntp_NTP_hdr_def
  ospf_OSPFv3DBD_hdr_def
  ospf_LSAv3Header_hdr_def
  ospf_OSPFv2DBD_hdr_def
  ospf_LSAv2Header_hdr_def
  pcap_PktHdr_hdr_def
  pcap_PktModHdr_hdr_def
  pcap_FileHdr_hdr_def
  pmap_Pmap_hdr_def
  qq_QQBasicPacket_hdr_def
  qq_QQ3Packet_hdr_def
  qq_QQ5Packet_hdr_def
  radiotap_Radiotap_Antenna_hdr_def
  radiotap_Radiotap_AntennaNoise_hdr_def
  radiotap_Radiotap_AntennaSignal_hdr_def
  radiotap_Radiotap_Channel_hdr_def
  radiotap_Radiotap_FHSS_hdr_def
  radiotap_Radiotap_Flags_hdr_def
  radiotap_Radiotap_LockQuality_hdr_def
  radiotap_Radiotap_RxFlags_hdr_def
  radiotap_Radiotap_Rate_hdr_def
  radiotap_Radiotap_TSFT_hdr_def
  radiotap_Radiotap_TxAttenuation_hdr_def
  radiotap_Radiotap_DbTxAttenuation_hdr_def
  radiotap_Radiotap_DbAntennaNoise_hdr_def
  radiotap_Radiotap_DbAntennaSignal_hdr_def
  radiotap_Radiotap_DbmTxPower_hdr_def
  radiotap_Radiotap_ChannelPlus_hdr_def
  rfb_RFB_hdr_def
  rfb_SetPixelFormat_hdr_def
  rfb_SetEncodings_hdr_def
  rfb_FramebufferUpdateRequest_hdr_def
  rfb_KeyEvent_hdr_def
  rfb_PointerEvent_hdr_def
  rfb_FramebufferUpdate_hdr_def
  rfb_SetColourMapEntries_hdr_def
  rfb_CutText_hdr_def
  rip_RTE_hdr_def
  rip_Auth_hdr_def
  rtcp_XBlockLoss_hdr_def
  rtcp_XBlockDupl_hdr_def
  rtcp_XBlockRcvt_hdr_def
  rtcp_XBlockRcvr_hdr_def
  rtcp_XBlockStat_hdr_def
  rtcp_XBlockVoip_hdr_def
  rx_Rx_hdr_def
  sccp_ActivateCallPlane_hdr_def
  sccp_CallInfo_hdr_def
  sccp_CallState_hdr_def
  sccp_ClearPromptStatus_hdr_def
  sccp_CloseReceiveChannel_hdr_def
  sccp_DisplayPromptStatus_hdr_def
  sccp_DisplayText_hdr_def
  sccp_KeypadButton_hdr_def
  sccp_OpenReceiveChannel_hdr_def
  sccp_OpenReceiveChannelAck_hdr_def
  sccp_SelectStartKeys_hdr_def
  sccp_SetLamp_hdr_def
  sccp_SetSpeakerMode_hdr_def
  sccp_StartMediaTransmission_hdr_def
  sccp_StartTone_hdr_def
  sccp_StopMediaTransmission_hdr_def
  smb2_SMB2Negotiate_hdr_def
  smb2_SMB2SessionSetup_hdr_def
  smb2_SMB2Close_hdr_def
  smb2_SMB2Logoff_hdr_def
  smb2_SMB2TreeDisconnect_hdr_def
  smb2_SMB2Flush_hdr_def
  smb2_SMB2Cancel_hdr_def
  smb2_SMB2Echo_hdr_def
  smb2_SMB2ChangeNotify_hdr_def
  smb2_SMB2OplockBreak_hdr_def
  snoop_PktHdr_hdr_def
  snoop_FileHdr_hdr_def
  ssl_TLSChangeCipherSpec_hdr_def
  ssl_TLSAlert_hdr_def
  stun_STUN_hdr_def
  tpkt_TPKT_hdr_def
  yahoo_YHOO_hdr_def
  yahoo_YMSG_hdr_def

section \<open>What holds of every class\<close>

lemma class_table_ok: "(n, bo, h) \<in> set class_table \<Longrightarrow> table_ok h"
proof -
  have "list_all (\<lambda>(n, bo, h). table_ok h) class_table"
    by (simp add: class_table_def class_hdr_defs table_ok_def fmt_ok_def hdr_fields_def)
  then show "(n, bo, h) \<in> set class_table \<Longrightarrow> table_ok h" by (auto simp: list_all_iff)
qed

lemma class_unpack_ok:
  "table_ok h \<Longrightarrow> hdr_len h \<le> length buf \<Longrightarrow>
   \<exists>r. class_init bo h buf = Inr r \<and> class_bytes bo h r = Inr buf \<and> class_len h r = length buf"
  using packet_class.unpack_total [OF table_class, of h buf bo]
    packet_class.pack_unpack [OF table_class, of h bo buf]
    packet_class.unpack_vals [OF table_class, of h bo buf]
  by (fastforce simp: class_init_def class_unpack_def class_bytes_def class_len_def packet_len_def
      packet_init_Inr packet_init_def)

lemma class_getattr_set:
  assumes "table_ok h" "length (obj_vals r) = length h" "n \<in> set (hdr_fields h)"
  shows "class_getattr h n (class_setattr h n v r) = Inr v"
proof -
  have d: "distinct (hdr_fields h)" "length (hdr_fields h) = length (obj_vals r)"
    using assms by (auto simp: table_ok_def hdr_fields_def)
  then obtain i where i: "i < length (hdr_fields h)" "hdr_fields h ! i = n"
    using assms(3) by (auto simp: in_set_conv_nth)
  let ?vs = "map (\<lambda>(m, w). if m = n then v else w) (zip (hdr_fields h) (obj_vals r))"
  have "zip (hdr_fields h) ?vs ! i = (n, v)" "i < length (zip (hdr_fields h) ?vs)"
    using i d by simp_all
  then have "(n, v) \<in> set (zip (hdr_fields h) ?vs)" by (metis nth_mem)
  moreover have "distinct (map fst (zip (hdr_fields h) ?vs))" using d by simp
  ultimately have "map_of (zip (hdr_fields h) ?vs) n = Some v" by simp
  then show ?thesis by (simp add: class_getattr_def class_setattr_def)
qed

section \<open>Properties\<close>



text \<open>
  For every such class the constructor fails on a buffer exactly when it is shorter than the
  header, and then with \<open>NeedData\<close>.
\<close>

theorem class_need_data:
  assumes "(n, bo, h) \<in> set class_table"
  shows "class_init bo h buf = Inl e \<longleftrightarrow> length buf < hdr_len h \<and> e = NeedData"
  using packet_class.init_need_data [OF table_class [OF class_table_ok [OF assms]], of bo buf e]
  by (simp add: class_init_def class_unpack_def)

theorem class_need_data_witness: "class_init LE sccp_CallState_hdr [1, 2, 3] = Inl NeedData"
  using class_need_data [of "''sccp.CallState''" LE sccp_CallState_hdr "[1, 2, 3]" NeedData]
  by (simp add: class_table_def sccp_CallState_hdr_def)

definition bad_default_classes :: "string list" where
  "bad_default_classes =
    [''ieee80211.IEEE80211.BlockAckReq'', ''ieee80211.IEEE80211.RTS'', ''ieee80211.IEEE80211.CTS'',
     ''ieee80211.IEEE80211.ACK'', ''ieee80211.IEEE80211.CFEnd'', ''ieee80211.IEEE80211.MGMT_Frame'',
     ''ieee80211.IEEE80211.Reassoc_Req'', ''ieee80211.IEEE80211.Data'',
     ''ieee80211.IEEE80211.DataFromDS'', ''ieee80211.IEEE80211.DataToDS'',
     ''ieee80211.IEEE80211.DataInterDS'', ''ntp.NTP'', ''rip.Auth'', ''stun.STUN'',
     ''yahoo.YHOO'', ''yahoo.YMSG'']"


end
