(* ===== verification/Llc.thy ===== *)
theory Llc
  imports Payload
begin

text \<open>
  IEEE 802.2 LLC and the spanning tree protocol, \<^verbatim>\<open>dpkt/llc.py\<close> and \<^verbatim>\<open>dpkt/stp.py\<close>, with the
  registry of Ethernet types that LLC and Ethernet share. The registry, the reverse registry
  and the classes it holds are a record of parameters, \<open>eth_env\<close>; the locale \<open>eth_payloads\<close>
  says what LLC and Ethernet rely on.
\<close>

section \<open>The registry\<close>

text \<open>
  \<open>env_typesw\<close> is \<^verbatim>\<open>Ethernet._typesw\<close>; \<open>env_rev\<close> gives for a packet the entry of its class in
  \<^verbatim>\<open>Ethernet._typesw_rev\<close>; \<open>env_stp\<close> and \<open>env_isis\<close> are the classes that LLC calls directly;
  \<open>env_bytes\<close> and \<open>env_len\<close> are \<^verbatim>\<open>bytes()\<close> and \<^verbatim>\<open>len()\<close> of a packet, either of which can raise.
\<close>

record 'p eth_env =
  env_typesw :: "'p registry"
  env_rev :: "'p \<Rightarrow> int option"
  env_stp :: "bytes \<Rightarrow> 'p result"
  env_isis :: "bytes \<Rightarrow> 'p result"
  env_bytes :: "'p \<Rightarrow> bytes result"
  env_len :: "'p \<Rightarrow> nat result"

text \<open>\<open>get_type(t)(buf)\<close> with its \<open>KeyError\<close>.\<close>

definition parse_type :: "'p eth_env \<Rightarrow> int \<Rightarrow> bytes \<Rightarrow> 'p result" where
  "parse_type env t buf = (case env_typesw env t of None \<Rightarrow> Inl KeyError | Some parse \<Rightarrow> parse buf)"

definition env_data_bytes :: "'p eth_env \<Rightarrow> 'p payload \<Rightarrow> bytes result" where
  "env_data_bytes env d = (case d of Raw b \<Rightarrow> Inr b | Pkt x \<Rightarrow> env_bytes env x)"

definition env_data_len :: "'p eth_env \<Rightarrow> 'p payload \<Rightarrow> nat result" where
  "env_data_len env d = (case d of Raw b \<Rightarrow> Inr (length b) | Pkt x \<Rightarrow> env_len env x)"

locale eth_payloads =
  fixes env :: "'p eth_env"
  assumes type_rev: "env_typesw env t = Some parse \<Longrightarrow> parse b = Inr x \<Longrightarrow> env_rev env x = Some t"
    and env_len_bytes: "env_bytes env x = Inr b \<Longrightarrow> env_len env x = Inr (length b)"
begin

lemma dispatch_rev: "dispatch (env_typesw env) t b = Inr (Pkt x) \<Longrightarrow> env_rev env x = Some t"
  by (auto simp: dispatch_def type_rev split: option.splits sum.splits if_splits)

lemma env_data_len_bytes: "env_data_bytes env d = Inr b \<Longrightarrow> env_data_len env d = Inr (length b)"
  by (cases d) (auto simp: env_data_bytes_def env_data_len_def env_len_bytes)

end

text \<open>\<open>parsed_from env d b\<close>: the payload is the bytes \<open>b\<close>, or a class of the registry parsed it from them.\<close>

definition parsed_from :: "'p eth_env \<Rightarrow> 'p payload \<Rightarrow> bytes \<Rightarrow> bool" where
  "parsed_from env d b =
     (case d of
        Raw b' \<Rightarrow> b' = b
      | Pkt x \<Rightarrow> (\<exists>t. parse_type env t b = Inr x) \<or> env_stp env b = Inr x \<or> env_isis env b = Inr x)"

lemma dispatch_parsed: "dispatch (env_typesw env) t b = Inr d \<Longrightarrow> parsed_from env d b"
  by (auto simp: dispatch_def parsed_from_def parse_type_def intro!: exI [of _ t]
      split: option.splits sum.splits if_splits)

section \<open>STP\<close>

record stp =
  stp_proto_id :: int
  stp_v :: int
  stp_type :: int
  stp_flags :: int
  stp_root_id :: bytes
  stp_root_path :: int
  stp_bridge_id :: bytes
  stp_port_id :: int
  stp_age :: int
  stp_max_age :: int
  stp_hello :: int
  stp_fd :: int
  stp_data :: "bytes"

definition stp_hdr :: hdr where
  "stp_hdr =
    [(''proto_id'', fH, VInt 0),
     (''v'', fB, VInt 0),
     (''type'', fB, VInt 0),
     (''flags'', fB, VInt 0),
     (''root_id'', Str 8, VBytes []),
     (''root_path'', fI, VInt 0),
     (''bridge_id'', Str 8, VBytes []),
     (''port_id'', fH, VInt 0),
     (''_age'', fH, VInt 0),
     (''_max_age'', fH, VInt 0),
     (''_hello'', fH, VInt 0),
     (''_fd'', fH, VInt 0)]"

definition stp_vals :: "stp \<Rightarrow> pval list" where
  "stp_vals r =
    [VInt (stp_proto_id r), VInt (stp_v r), VInt (stp_type r), VInt (stp_flags r),
     VBytes (stp_root_id r), VInt (stp_root_path r), VBytes (stp_bridge_id r),
     VInt (stp_port_id r), VInt (stp_age r), VInt (stp_max_age r), VInt (stp_hello r),
     VInt (stp_fd r)]"

definition stp_make :: "pval list \<Rightarrow> bytes \<Rightarrow> stp" where
  "stp_make vs d =
    \<lparr>stp_proto_id = ival (vs ! 0), stp_v = ival (vs ! 1), stp_type = ival (vs ! 2),
     stp_flags = ival (vs ! 3), stp_root_id = bval (vs ! 4), stp_root_path = ival (vs ! 5),
     stp_bridge_id = bval (vs ! 6), stp_port_id = ival (vs ! 7), stp_age = ival (vs ! 8),
     stp_max_age = ival (vs ! 9), stp_hello = ival (vs ! 10), stp_fd = ival (vs ! 11),
     stp_data = d\<rparr>"

definition stp_unpack :: "bytes \<Rightarrow> stp result" where
  "stp_unpack = packet_unpack BE stp_hdr stp_make"

definition stp_init :: "bytes \<Rightarrow> stp result" where
  "stp_init = packet_init (hdr_len stp_hdr) stp_unpack"

definition stp_bytes :: "stp \<Rightarrow> bytes result" where
  "stp_bytes r = packet_bytes BE stp_hdr (stp_vals r) (stp_data r)"

lemma stp_hdr_len [hdr_simps, simp]: "hdr_len stp_hdr = 35"
  by (simp add: stp_hdr_def)

interpretation stp_class: packet_class BE stp_hdr stp_vals stp_make stp_data
  by unfold_locales (auto simp: stp_hdr_def stp_vals_def stp_make_def fmt_ok_def hdr_simps)
text \<open>The timers are kept in units of 1/256 second; the properties read and write seconds.\<close>

definition stp_get_timer :: "int \<Rightarrow> int" where
  "stp_get_timer v = drop_bit 8 v"

definition stp_set_timer :: "int \<Rightarrow> int" where
  "stp_set_timer v = push_bit 8 v"

lemma stp_timer [simp]: "stp_get_timer (stp_set_timer v) = v"
  by (simp add: stp_get_timer_def stp_set_timer_def drop_bit_push_bit)

section \<open>LLC\<close>

record llc_base =
  llc_base_dsap :: int
  llc_base_ssap :: int
  llc_base_ctl :: int
  llc_base_data :: "bytes"

definition llc_base_hdr :: hdr where
  "llc_base_hdr =
    [(''dsap'', fB, VInt 0xaa),
     (''ssap'', fB, VInt 0xaa),
     (''ctl'', fB, VInt 3)]"

definition llc_base_vals :: "llc_base \<Rightarrow> pval list" where
  "llc_base_vals r =
    [VInt (llc_base_dsap r), VInt (llc_base_ssap r), VInt (llc_base_ctl r)]"

definition llc_base_make :: "pval list \<Rightarrow> bytes \<Rightarrow> llc_base" where
  "llc_base_make vs d =
    \<lparr>llc_base_dsap = ival (vs ! 0), llc_base_ssap = ival (vs ! 1), llc_base_ctl = ival (vs ! 2),
     llc_base_data = d\<rparr>"

lemma llc_base_hdr_len [hdr_simps, simp]: "hdr_len llc_base_hdr = 3"
  by (simp add: llc_base_hdr_def)

interpretation llc_base_class: packet_class BE llc_base_hdr llc_base_vals llc_base_make llc_base_data
  by unfold_locales (auto simp: llc_base_hdr_def llc_base_vals_def llc_base_make_def fmt_ok_def hdr_simps)
text \<open>
  The packet: \<^verbatim>\<open>oui\<close> and \<^verbatim>\<open>type\<close> are set for SNAP frames only.
\<close>

record 'p llc =
  llc_dsap :: int
  llc_ssap :: int
  llc_ctl :: int
  llc_oui :: "int option"
  llc_type :: "int option"
  llc_data :: "'p payload"

definition llc_is_snap :: "'p llc \<Rightarrow> bool" where
  "llc_is_snap r \<longleftrightarrow> llc_dsap r = llc_ssap r \<and> llc_ssap r = 0xaa"

definition ETH_TYPE_IP :: int where "ETH_TYPE_IP = 0x0800"
definition ETH_TYPE_IPX :: int where "ETH_TYPE_IPX = 0x8137"

definition llc_unpack :: "'p eth_env \<Rightarrow> bytes \<Rightarrow> 'p llc result" where
  "llc_unpack env buf =
     rbind (packet_unpack BE llc_base_hdr llc_base_make buf) (\<lambda>h.
       let r = \<lparr>llc_dsap = llc_base_dsap h, llc_ssap = llc_base_ssap h, llc_ctl = llc_base_ctl h,
                llc_oui = None, llc_type = None, llc_data = Raw (llc_base_data h)\<rparr>;
           data = llc_base_data h;
           direct = (\<lambda>m. rbind m (\<lambda>x. Inr (r\<lparr>llc_data := Pkt x\<rparr>)))
       in if llc_is_snap r then
            rbind (struct_unpack BE [fI, fH] (0 # take 5 data)) (\<lambda>vs.
              let ty = ival (vs ! 1); data' = drop 5 data
              in rbind (dispatch (env_typesw env) ty data') (\<lambda>d.
                   Inr (r\<lparr>llc_oui := Some (ival (vs ! 0)), llc_type := Some ty, llc_data := d\<rparr>)))
          else if llc_dsap r = 0x06 then direct (parse_type env ETH_TYPE_IP data)
          else if llc_dsap r = 0x10 \<or> llc_dsap r = 0xe0 then direct (parse_type env ETH_TYPE_IPX data)
          else if llc_dsap r = 0x42 then direct (env_stp env data)
          else if llc_dsap r = 0xfe then direct (env_isis env data)
          else Inr r)"

definition llc_init :: "'p eth_env \<Rightarrow> bytes \<Rightarrow> 'p llc result" where
  "llc_init env = packet_init (hdr_len llc_base_hdr) (llc_unpack env)"

definition llc_vals :: "'p llc \<Rightarrow> pval list" where
  "llc_vals r = [VInt (llc_dsap r), VInt (llc_ssap r), VInt (llc_ctl r)]"

definition llc_snap_type :: "'p eth_env \<Rightarrow> 'p llc \<Rightarrow> int" where
  "llc_snap_type env r =
     (let ty = (case llc_type r of None \<Rightarrow> 0 | Some t \<Rightarrow> t)
      in case llc_data r of
           Raw _ \<Rightarrow> ty
         | Pkt x \<Rightarrow> if ty = 0 then (case env_rev env x of None \<Rightarrow> ty | Some t \<Rightarrow> t) else ty)"

definition llc_pack_hdr :: "'p eth_env \<Rightarrow> 'p llc \<Rightarrow> bytes result" where
  "llc_pack_hdr env r =
     rbind (packet_pack_hdr BE llc_base_hdr (llc_vals r)) (\<lambda>b.
       if llc_is_snap r then
         rbind (struct_pack BE [fI, fH]
                  [VInt (case llc_oui r of None \<Rightarrow> 0 | Some v \<Rightarrow> v), VInt (llc_snap_type env r)])
           (\<lambda>s. Inr (b @ drop 1 s))
       else Inr b)"

definition llc_bytes :: "'p eth_env \<Rightarrow> 'p llc \<Rightarrow> bytes result" where
  "llc_bytes env r =
     rbind (llc_pack_hdr env r) (\<lambda>h. rbind (env_data_bytes env (llc_data r)) (\<lambda>b. Inr (h @ b)))"

definition llc_len :: "'p eth_env \<Rightarrow> 'p llc \<Rightarrow> nat result" where
  "llc_len env r = rbind (env_data_len env (llc_data r)) (\<lambda>n.
     Inr (hdr_len llc_base_hdr + (if llc_is_snap r then 5 else 0) + n))"

lemma llc_vals_exact: "packet_unpack BE llc_base_hdr llc_base_make buf = Inr h \<Longrightarrow>
  packet_pack_hdr BE llc_base_hdr [VInt (llc_base_dsap h), VInt (llc_base_ssap h), VInt (llc_base_ctl h)] =
    Inr (take 3 buf) \<and> llc_base_data h = drop 3 buf"
  using llc_base_class.unpack_pack_hdr [of buf h] by (simp add: llc_base_vals_def)

text \<open>
  Packing what was parsed gives the LLC and SNAP headers back, followed by the packed payload. A
  protocol type of zero is the one value that packing may replace; no class is registered for it.
\<close>

lemma llc_pack_unpack:
  assumes u: "llc_unpack env buf = Inr r" and z: "env_typesw env 0 = None"
  shows "\<exists>n. n \<le> length buf \<and> parsed_from env (llc_data r) (drop n buf) \<and>
    llc_bytes env r = rbind (env_data_bytes env (llc_data r)) (\<lambda>b. Inr (take n buf @ b))"
proof -
  obtain h where h: "packet_unpack BE llc_base_hdr llc_base_make buf = Inr h"
    using u by (auto simp: llc_unpack_def result_simps)
  note p = llc_vals_exact [OF h]
  have "3 \<le> length buf" using packet_unpack_ok [OF h] by simp
  show ?thesis
  proof (cases "llc_base_dsap h = llc_base_ssap h \<and> llc_base_ssap h = 0xaa")
    case False
    then have "llc_dsap r = llc_base_dsap h" "llc_ssap r = llc_base_ssap h" "llc_ctl r = llc_base_ctl h"
      "parsed_from env (llc_data r) (drop 3 buf)"
      using u h p
      by (auto simp: llc_unpack_def Let_def llc_is_snap_def parsed_from_def result_simps split: if_splits)
    then show ?thesis using False p \<open>3 \<le> length buf\<close>
      by (intro exI [of _ 3]) (auto simp: llc_bytes_def llc_pack_hdr_def llc_vals_def llc_is_snap_def)
  next
    case True
    then obtain vs d where v: "struct_unpack BE [fI, fH] (0 # take 5 (drop 3 buf)) = Inr vs"
      "dispatch (env_typesw env) (ival (vs ! 1)) (drop 8 buf) = Inr d"
      "r = \<lparr>llc_dsap = llc_base_dsap h, llc_ssap = llc_base_ssap h, llc_ctl = llc_base_ctl h,
             llc_oui = Some (ival (vs ! 0)), llc_type = Some (ival (vs ! 1)), llc_data = d\<rparr>"
      using u h p by (auto simp: llc_unpack_def Let_def llc_is_snap_def result_simps)
    have len: "length (0 # take 5 (drop 3 buf)) = 6" using v(1) by (simp add: struct_unpack_def split: if_splits)
    obtain a c where vs: "vs = [VInt a, VInt c]" "exact (fI) (VInt a)" "exact (fH) (VInt c)"
      using struct_unpack_exact [of "0 # take 5 (drop 3 buf)" "[fI, fH]" BE] v(1) len
      by (auto simp: fmt_ok_def hdr_simps list_all2_Cons1)
    have sp: "struct_pack BE [fI, fH] vs = Inr (0 # take 5 (drop 3 buf))"
      using struct_pack_unpack [OF v(1)] by (simp add: fmt_ok_def)
    have ty: "llc_snap_type env r = c"
    proof (cases d)
      case (Pkt x)
      then have "c \<noteq> 0" using v(2) z vs by (auto simp: dispatch_def)
      then show ?thesis using v(3) vs by (simp add: llc_snap_type_def Pkt Let_def)
    qed (use v(3) vs in \<open>simp add: llc_snap_type_def\<close>)
    have "take 8 buf = take 3 buf @ take 5 (drop 3 buf)" using take_add [of 3 5 buf] by simp
    moreover have "8 \<le> length buf" using len by (auto simp: min_def split: if_splits)
    ultimately show ?thesis
      using p True v sp ty vs dispatch_parsed [OF v(2)]
      by (intro exI [of _ 8]) (simp add: llc_bytes_def llc_pack_hdr_def llc_vals_def llc_is_snap_def)
  qed
qed

context eth_payloads
begin

lemma llc_len_bytes: "llc_bytes env r = Inr b \<Longrightarrow> llc_len env r = Inr (length b)"
  by (auto simp: llc_bytes_def llc_pack_hdr_def llc_len_def result_simps env_data_len_bytes
      dest!: packet_pack_hdr_length struct_pack_length split: if_splits)

end

end
