(* ===== verification/Ethernet.thy ===== *)
theory Ethernet
  imports Llc Items
begin

text \<open>
  Ethernet, \<^verbatim>\<open>dpkt/ethernet.py\<close>: Ethernet II, 802.3 with LLC, raw 802.3, VLAN tags, MPLS label
  stacks and Cisco ISL. The attributes that a parsed frame gains are fields of the record: a
  list or a byte string that was never set is empty, an integer that was never set is \<open>None\<close>.
  Packing updates tags and labels, so it returns the updated frame with the bytes.
\<close>

section \<open>Types and tags\<close>

definition ETH_TYPE_UNKNOWN :: int where "ETH_TYPE_UNKNOWN = 0x0000"
definition ETH_TYPE_ARP :: int where "ETH_TYPE_ARP = 0x0806"
definition ETH_TYPE_8021Q :: int where "ETH_TYPE_8021Q = 0x8100"
definition ETH_TYPE_8021AD :: int where "ETH_TYPE_8021AD = 0x88a8"
definition ETH_TYPE_QINQ1 :: int where "ETH_TYPE_QINQ1 = 0x9100"
definition ETH_TYPE_QINQ2 :: int where "ETH_TYPE_QINQ2 = 0x9200"
definition ETH_TYPE_IP6 :: int where "ETH_TYPE_IP6 = 0x86DD"
definition ETH_TYPE_MPLS :: int where "ETH_TYPE_MPLS = 0x8847"
definition ETH_TYPE_MPLS_MCAST :: int where "ETH_TYPE_MPLS_MCAST = 0x8848"
definition ETH_TYPE_TEB :: int where "ETH_TYPE_TEB = 0x6558"

definition ETH_TYPES_QINQ :: "int list" where
  "ETH_TYPES_QINQ = [ETH_TYPE_8021Q, ETH_TYPE_8021AD, ETH_TYPE_QINQ1, ETH_TYPE_QINQ2]"

definition ETH_TYPES_MPLS :: "int list" where
  "ETH_TYPES_MPLS = [ETH_TYPE_MPLS, ETH_TYPE_MPLS_MCAST]"

lemmas eth_types = ETH_TYPE_UNKNOWN_def ETH_TYPE_ARP_def ETH_TYPE_8021Q_def ETH_TYPE_8021AD_def
  ETH_TYPE_QINQ1_def ETH_TYPE_QINQ2_def ETH_TYPE_IP6_def ETH_TYPE_MPLS_def ETH_TYPE_MPLS_MCAST_def
  ETH_TYPE_TEB_def ETH_TYPE_IP_def ETH_TYPE_IPX_def ETH_TYPES_QINQ_def ETH_TYPES_MPLS_def

record mpls_label =
  mpls_label_val_exp_s_ttl :: int
  mpls_label_data :: "bytes"

definition mpls_label_hdr :: hdr where
  "mpls_label_hdr =
    [(''_val_exp_s_ttl'', fI, VInt 0)]"

definition mpls_label_vals :: "mpls_label \<Rightarrow> pval list" where
  "mpls_label_vals r =
    [VInt (mpls_label_val_exp_s_ttl r)]"

definition mpls_label_make :: "pval list \<Rightarrow> bytes \<Rightarrow> mpls_label" where
  "mpls_label_make vs d =
    \<lparr>mpls_label_val_exp_s_ttl = ival (vs ! 0), mpls_label_data = d\<rparr>"

lemma mpls_label_hdr_len [hdr_simps, simp]: "hdr_len mpls_label_hdr = 4"
  by (simp add: mpls_label_hdr_def)

interpretation mpls_label_class: packet_class BE mpls_label_hdr mpls_label_vals mpls_label_make mpls_label_data
  by unfold_locales (auto simp: mpls_label_hdr_def mpls_label_vals_def mpls_label_make_def fmt_ok_def hdr_simps)
record vlan_q =
  vlan_q_pri_cfi_id :: int
  vlan_q_type :: int
  vlan_q_data :: "bytes"

definition vlan_q_hdr :: hdr where
  "vlan_q_hdr =
    [(''_pri_cfi_id'', fH, VInt 0),
     (''type'', fH, VInt 0x0800)]"

definition vlan_q_vals :: "vlan_q \<Rightarrow> pval list" where
  "vlan_q_vals r =
    [VInt (vlan_q_pri_cfi_id r), VInt (vlan_q_type r)]"

definition vlan_q_make :: "pval list \<Rightarrow> bytes \<Rightarrow> vlan_q" where
  "vlan_q_make vs d =
    \<lparr>vlan_q_pri_cfi_id = ival (vs ! 0), vlan_q_type = ival (vs ! 1), vlan_q_data = d\<rparr>"

lemma vlan_q_hdr_len [hdr_simps, simp]: "hdr_len vlan_q_hdr = 4"
  by (simp add: vlan_q_hdr_def)

interpretation vlan_q_class: packet_class BE vlan_q_hdr vlan_q_vals vlan_q_make vlan_q_data
  by unfold_locales (auto simp: vlan_q_hdr_def vlan_q_vals_def vlan_q_make_def fmt_ok_def hdr_simps)
record vlan_isl =
  vlan_isl_da :: bytes
  vlan_isl_type_pri :: int
  vlan_isl_sa :: bytes
  vlan_isl_len :: int
  vlan_isl_snap :: bytes
  vlan_isl_hsa :: bytes
  vlan_isl_id_bpdu :: int
  vlan_isl_indx :: int
  vlan_isl_res :: int
  vlan_isl_data :: "bytes"

definition vlan_isl_hdr :: hdr where
  "vlan_isl_hdr =
    [(''da'', Str 5, VBytes ([1, 0, 0x0c, 0, 0])),
     (''_type_pri'', fB, VInt 3),
     (''sa'', Str 6, VBytes []),
     (''len'', fH, VInt 0),
     (''snap'', Str 3, VBytes ([0xaa, 0xaa, 3])),
     (''hsa'', Str 3, VBytes ([0, 0, 0x0c])),
     (''_id_bpdu'', fH, VInt 0),
     (''indx'', fH, VInt 0),
     (''res'', fH, VInt 0)]"

definition vlan_isl_vals :: "vlan_isl \<Rightarrow> pval list" where
  "vlan_isl_vals r =
    [VBytes (vlan_isl_da r), VInt (vlan_isl_type_pri r), VBytes (vlan_isl_sa r),
     VInt (vlan_isl_len r), VBytes (vlan_isl_snap r), VBytes (vlan_isl_hsa r),
     VInt (vlan_isl_id_bpdu r), VInt (vlan_isl_indx r), VInt (vlan_isl_res r)]"

definition vlan_isl_make :: "pval list \<Rightarrow> bytes \<Rightarrow> vlan_isl" where
  "vlan_isl_make vs d =
    \<lparr>vlan_isl_da = bval (vs ! 0), vlan_isl_type_pri = ival (vs ! 1),
     vlan_isl_sa = bval (vs ! 2), vlan_isl_len = ival (vs ! 3), vlan_isl_snap = bval (vs ! 4),
     vlan_isl_hsa = bval (vs ! 5), vlan_isl_id_bpdu = ival (vs ! 6), vlan_isl_indx = ival (vs ! 7),
     vlan_isl_res = ival (vs ! 8), vlan_isl_data = d\<rparr>"

lemma vlan_isl_hdr_len [hdr_simps, simp]: "hdr_len vlan_isl_hdr = 26"
  by (simp add: vlan_isl_hdr_def)

interpretation vlan_isl_class: packet_class BE vlan_isl_hdr vlan_isl_vals vlan_isl_make vlan_isl_data
  by unfold_locales (auto simp: vlan_isl_hdr_def vlan_isl_vals_def vlan_isl_make_def fmt_ok_def hdr_simps)
definition mpls_label_unpack :: "bytes \<Rightarrow> mpls_label result" where
  "mpls_label_unpack buf = rbind (packet_unpack BE mpls_label_hdr mpls_label_make buf) (\<lambda>r. Inr (r\<lparr>mpls_label_data := []\<rparr>))"

definition mpls_label_init :: "bytes \<Rightarrow> mpls_label result" where
  "mpls_label_init = packet_init (hdr_len mpls_label_hdr) mpls_label_unpack"

definition vlan_q_unpack :: "bytes \<Rightarrow> vlan_q result" where
  "vlan_q_unpack buf = rbind (packet_unpack BE vlan_q_hdr vlan_q_make buf) (\<lambda>r. Inr (r\<lparr>vlan_q_data := []\<rparr>))"

definition vlan_q_init :: "bytes \<Rightarrow> vlan_q result" where
  "vlan_q_init = packet_init (hdr_len vlan_q_hdr) vlan_q_unpack"

definition vlan_isl_unpack :: "bytes \<Rightarrow> vlan_isl result" where
  "vlan_isl_unpack buf = rbind (packet_unpack BE vlan_isl_hdr vlan_isl_make buf) (\<lambda>r. Inr (r\<lparr>vlan_isl_data := []\<rparr>))"

definition vlan_isl_init :: "bytes \<Rightarrow> vlan_isl result" where
  "vlan_isl_init = packet_init (hdr_len vlan_isl_hdr) vlan_isl_unpack"

definition mpls_bits :: bit_fields where
  "mpls_bits = [(''val'', 20), (''exp'', 3), (''s'', 1), (''ttl'', 8)]"

definition vlan_q_bits :: bit_fields where
  "vlan_q_bits = [(''pri'', 3), (''cfi'', 1), (''id'', 12)]"

definition isl_type_bits :: bit_fields where
  "isl_type_bits = [(''type'', 4), (''pri'', 4)]"

definition isl_id_bits :: bit_fields where
  "isl_id_bits = [(''id'', 15), (''bpdu'', 1)]"

text \<open>\<^verbatim>\<open>as_tuple\<close> of a label, of a VLAN tag; the bottom-of-stack bit; setting it.\<close>

definition mpls_as_tuple :: "mpls_label \<Rightarrow> (int \<times> int \<times> int) result" where
  "mpls_as_tuple l =
     rbind (bf_get mpls_bits ''val'' (mpls_label_val_exp_s_ttl l)) (\<lambda>v.
     rbind (bf_get mpls_bits ''exp'' (mpls_label_val_exp_s_ttl l)) (\<lambda>e.
     rbind (bf_get mpls_bits ''ttl'' (mpls_label_val_exp_s_ttl l)) (\<lambda>t. Inr (v, e, t))))"

definition mpls_s :: "mpls_label \<Rightarrow> int result" where
  "mpls_s l = bf_get mpls_bits ''s'' (mpls_label_val_exp_s_ttl l)"

definition mpls_set_s :: "int \<Rightarrow> mpls_label \<Rightarrow> mpls_label result" where
  "mpls_set_s v l = rbind (bf_set mpls_bits ''s'' v (mpls_label_val_exp_s_ttl l))
     (\<lambda>w. Inr (l\<lparr>mpls_label_val_exp_s_ttl := w\<rparr>))"

definition vlan_q_as_tuple :: "vlan_q \<Rightarrow> (int \<times> int \<times> int) result" where
  "vlan_q_as_tuple t =
     rbind (bf_get vlan_q_bits ''id'' (vlan_q_pri_cfi_id t)) (\<lambda>i.
     rbind (bf_get vlan_q_bits ''pri'' (vlan_q_pri_cfi_id t)) (\<lambda>p.
     rbind (bf_get vlan_q_bits ''cfi'' (vlan_q_pri_cfi_id t)) (\<lambda>c. Inr (i, p, c))))"

datatype vlan_tag = TagQ vlan_q | TagISL vlan_isl

fun tag_pack_hdr :: "vlan_tag \<Rightarrow> bytes result" where
  "tag_pack_hdr (TagQ t) = packet_pack_hdr BE vlan_q_hdr (vlan_q_vals t)"
| "tag_pack_hdr (TagISL t) = packet_pack_hdr BE vlan_isl_hdr (vlan_isl_vals t)"

fun tag_hdr_len :: "vlan_tag \<Rightarrow> nat" where
  "tag_hdr_len (TagQ t) = hdr_len vlan_q_hdr"
| "tag_hdr_len (TagISL t) = hdr_len vlan_isl_hdr"

text \<open>\<^verbatim>\<open>tag.type = v\<close>: a header field of an 802.1Q tag, a bit field of an ISL tag.\<close>

fun tag_set_type :: "int \<Rightarrow> vlan_tag \<Rightarrow> vlan_tag result" where
  "tag_set_type v (TagQ t) = Inr (TagQ (t\<lparr>vlan_q_type := v\<rparr>))"
| "tag_set_type v (TagISL t) =
     rbind (bf_set isl_type_bits ''type'' v (vlan_isl_type_pri t)) (\<lambda>w. Inr (TagISL (t\<lparr>vlan_isl_type_pri := w\<rparr>)))"

section \<open>The frame\<close>

record eth_base =
  eth_base_dst :: bytes
  eth_base_src :: bytes
  eth_base_type :: int
  eth_base_data :: "bytes"

definition eth_base_hdr :: hdr where
  "eth_base_hdr =
    [(''dst'', Str 6, VBytes []),
     (''src'', Str 6, VBytes []),
     (''type'', fH, VInt 0x0800)]"

definition eth_base_vals :: "eth_base \<Rightarrow> pval list" where
  "eth_base_vals r =
    [VBytes (eth_base_dst r), VBytes (eth_base_src r), VInt (eth_base_type r)]"

definition eth_base_make :: "pval list \<Rightarrow> bytes \<Rightarrow> eth_base" where
  "eth_base_make vs d =
    \<lparr>eth_base_dst = bval (vs ! 0), eth_base_src = bval (vs ! 1), eth_base_type = ival (vs ! 2),
     eth_base_data = d\<rparr>"

lemma eth_base_hdr_len [hdr_simps, simp]: "hdr_len eth_base_hdr = 14"
  by (simp add: eth_base_hdr_def)

interpretation eth_base_class: packet_class BE eth_base_hdr eth_base_vals eth_base_make eth_base_data
  by unfold_locales (auto simp: eth_base_hdr_def eth_base_vals_def eth_base_make_def fmt_ok_def hdr_simps)
datatype 'p eth_payload = E_Raw bytes | E_LLC "'p llc" | E_Pkt 'p

record 'p ethernet =
  eth_dst :: bytes
  eth_src :: bytes
  eth_type :: int
  eth_next_type :: "int option"
  eth_vlan_tags :: "vlan_tag list"
  eth_vlan :: "int option"
  eth_vlan_tuple :: "(int \<times> int \<times> int) option"
  eth_labels :: "(int \<times> int \<times> int) list"
  eth_mpls_labels :: "mpls_label list"
  eth_len_attr :: "int option"
  eth_padding :: bytes
  eth_fcs :: "int option"
  eth_trailer :: bytes
  eth_data :: "'p eth_payload"

definition eth_new :: "'p ethernet" where
  "eth_new = \<lparr>eth_dst = [], eth_src = [], eth_type = ETH_TYPE_IP, eth_next_type = None,
     eth_vlan_tags = [], eth_vlan = None, eth_vlan_tuple = None, eth_labels = [], eth_mpls_labels = [],
     eth_len_attr = None, eth_padding = [], eth_fcs = None, eth_trailer = [], eth_data = E_Raw []\<rparr>"

text \<open>The loops over tags and labels; both return the tags or labels and the rest of the buffer.\<close>

fun parse_vlan_tags :: "nat \<Rightarrow> bytes \<Rightarrow> (vlan_q list \<times> bytes) result" where
  "parse_vlan_tags 0 buf = Inr ([], buf)"
| "parse_vlan_tags (Suc n) buf =
     rbind (vlan_q_init buf) (\<lambda>tag.
       let buf' = drop (hdr_len vlan_q_hdr) buf
       in if vlan_q_type tag \<noteq> ETH_TYPE_8021Q then Inr ([tag], buf')
          else rbind (parse_vlan_tags n buf') (\<lambda>(tags, rest). Inr (tag # tags, rest)))"

fun parse_mpls :: "nat \<Rightarrow> bytes \<Rightarrow> ((mpls_label \<times> int \<times> int \<times> int) list \<times> bytes) result" where
  "parse_mpls 0 buf = Inr ([], buf)"
| "parse_mpls (Suc n) buf =
     rbind (mpls_label_init buf) (\<lambda>lbl.
       let buf' = drop (hdr_len mpls_label_hdr) buf
       in rbind (mpls_as_tuple lbl) (\<lambda>tup. rbind (mpls_s lbl) (\<lambda>s.
            if s \<noteq> 0 then Inr ([(lbl, tup)], buf')
            else rbind (parse_mpls n buf') (\<lambda>(ls, rest). Inr ((lbl, tup) # ls, rest)))))"

text \<open>
  The guess of what follows an MPLS stack: the next type, when it changes, and the buffer, from
  which a control word may have been skipped.
\<close>

definition guess_mpls_payload :: "bytes \<Rightarrow> (int option \<times> bytes) result" where
  "guess_mpls_payload buf =
     rbind (py_get buf 0) (\<lambda>b.
       if ord b = 0x45 then Inr (Some ETH_TYPE_IP, buf)
       else if ord b AND 0xf0 = 0x60 then Inr (Some ETH_TYPE_IP6, buf)
       else if hdr_len eth_base_hdr \<le> length buf then
         Inr (Some ETH_TYPE_TEB, if take 2 buf = [0, 0] then drop 4 buf else buf)
       else Inr (None, buf))"

definition eth_dispatch :: "'p eth_env \<Rightarrow> 'p ethernet \<Rightarrow> bytes \<Rightarrow> 'p ethernet result" where
  "eth_dispatch env e buf =
     (let ty = (case eth_next_type e of None \<Rightarrow> eth_type e | Some t \<Rightarrow> if t = 0 then eth_type e else t)
      in rbind (dispatch (env_typesw env) ty buf) (\<lambda>d.
           Inr (e\<lparr>eth_data := (case d of Raw b \<Rightarrow> E_Raw b | Pkt x \<Rightarrow> E_Pkt x)\<rparr>)))"

definition next_in :: "'p ethernet \<Rightarrow> int list \<Rightarrow> bool" where
  "next_in e ts = (case eth_next_type e of None \<Rightarrow> False | Some t \<Rightarrow> t \<in> set ts)"

definition eth_unpack_data :: "'p eth_env \<Rightarrow> 'p ethernet \<Rightarrow> bytes \<Rightarrow> 'p ethernet result" where
  "eth_unpack_data env e buf =
     (if next_in e ETH_TYPES_QINQ then
        rbind (parse_vlan_tags 2 buf) (\<lambda>(tags, buf').
        rbind (vlan_q_as_tuple (hd tags)) (\<lambda>tup.
          eth_dispatch env (e\<lparr>eth_vlan_tags := map TagQ tags, eth_vlan_tuple := Some tup,
            eth_next_type := Some (vlan_q_type (last tags))\<rparr>) buf'))
      else if next_in e ETH_TYPES_MPLS then
        rbind (parse_mpls 24 buf) (\<lambda>(ls, buf').
        rbind (guess_mpls_payload buf') (\<lambda>(nt, buf'').
          eth_dispatch env (e\<lparr>eth_mpls_labels := map fst ls, eth_labels := map snd ls,
            eth_next_type := (case nt of None \<Rightarrow> eth_next_type e | Some t \<Rightarrow> Some t)\<rparr>) buf''))
      else eth_dispatch env e buf)"

text \<open>
  The tail of an 802.3 frame, after the \<open>eth_len\<close> bytes of its body: padding, frame check
  sequence and trailer.
\<close>

definition eth_tail :: "int \<Rightarrow> 'p ethernet \<Rightarrow> bytes \<Rightarrow> 'p ethernet" where
  "eth_tail eth_len e tail =
     (let pad_len = 46 - eth_len;
          padding = py_upto tail pad_len;
          padded = 4 < length tail \<and> eth_len < 46 \<and> padding = zeros (nat pad_len);
          e1 = (if padded then e\<lparr>eth_padding := padding\<rparr> else e);
          tail1 = (if padded then py_from tail pad_len else tail);
          e2 = (if 4 \<le> length tail1 then e1\<lparr>eth_fcs := Some (bytes_int BE (take 4 tail1))\<rparr> else e1);
          tail2 = (if 4 \<le> length tail1 then drop 4 tail1 else tail1)
      in if tail2 \<noteq> [] then e2\<lparr>eth_trailer := tail2\<rparr> else e2)"

definition isl_prefix :: "bytes \<Rightarrow> bool" where
  "isl_prefix dst \<longleftrightarrow> starts_with dst [1, 0, 0x0c, 0, 0] \<or> starts_with dst [3, 0, 0x0c, 0, 0]"

lemma vlan_isl_init_length: "vlan_isl_init buf = Inr tag \<Longrightarrow> 26 \<le> length buf"
  by (auto simp: vlan_isl_init_def vlan_isl_unpack_def result_simps dest!: packet_unpack_ok)

function eth_unpack :: "'p eth_env \<Rightarrow> 'p ethernet \<Rightarrow> bytes \<Rightarrow> 'p ethernet result" where
  "eth_unpack env self buf =
     rbind (packet_unpack BE eth_base_hdr eth_base_make buf) (\<lambda>h.
       let data = eth_base_data h;
           e = self\<lparr>eth_dst := eth_base_dst h, eth_src := eth_base_src h, eth_type := eth_base_type h,
                    eth_data := E_Raw data\<rparr>
       in if 1500 < eth_type e then
            eth_unpack_data env (e\<lparr>eth_next_type := Some (eth_type e)\<rparr>) data
          else if isl_prefix (eth_dst e) then
            rbind (vlan_isl_init buf) (\<lambda>tag.
            rbind (bf_get isl_id_bits ''id'' (vlan_isl_id_bpdu tag)) (\<lambda>i.
              eth_unpack env (e\<lparr>eth_vlan_tags := [TagISL tag], eth_vlan := Some i\<rparr>)
                (drop (hdr_len vlan_isl_hdr) buf)))
          else if starts_with data [0xff, 0xff] then
            rbind (parse_type env ETH_TYPE_IPX (drop 2 data)) (\<lambda>x.
              Inr (e\<lparr>eth_type := ETH_TYPE_IPX, eth_data := E_Pkt x\<rparr>))
          else if eth_type e = ETH_TYPE_UNKNOWN then eth_unpack_data env e data
          else
            let n = eth_type e;
                e1 = e\<lparr>eth_len_attr := Some n\<rparr>;
                e2 = (if n < int (length data) then eth_tail n e1 (py_from data n) else e1)
            in rbind (llc_init env (py_upto data n)) (\<lambda>l. Inr (e2\<lparr>eth_data := E_LLC l\<rparr>)))"
  by pat_completeness auto
termination
  by (relation "measure (\<lambda>(_, _, buf). length buf)") (auto dest!: vlan_isl_init_length)

declare eth_unpack.simps [simp del]

text \<open>
  The constructor: \<^verbatim>\<open>Packet.__init__\<close> on the buffer, then \<^verbatim>\<open>_unpack_data\<close> once more when the data
  is still a non-empty byte string. The test \<^verbatim>\<open>if self.data\<close> takes the length of a packet, which
  may raise.
\<close>

definition eth_reparse :: "'p eth_env \<Rightarrow> 'p ethernet \<Rightarrow> 'p ethernet result" where
  "eth_reparse env e =
     (case eth_data e of
        E_Raw b \<Rightarrow> if b \<noteq> [] then eth_unpack_data env e b else Inr e
      | E_LLC l \<Rightarrow> rbind (llc_len env l) (\<lambda>_. Inr e)
      | E_Pkt x \<Rightarrow> rbind (env_len env x) (\<lambda>_. Inr e))"

definition eth_init :: "'p eth_env \<Rightarrow> bytes \<Rightarrow> 'p ethernet result" where
  "eth_init env buf =
     rbind (packet_init (hdr_len eth_base_hdr) (eth_unpack env eth_new) buf) (eth_reparse env)"

section \<open>Packing\<close>

definition eth_vals :: "'p ethernet \<Rightarrow> pval list" where
  "eth_vals e = [VBytes (eth_dst e), VBytes (eth_src e), VInt (eth_type e)]"

definition mark_bottom :: "mpls_label list \<Rightarrow> mpls_label list result" where
  "mark_bottom ls =
     rbind (map_result (mpls_set_s 0) ls) (\<lambda>ls0.
     rbind (mpls_set_s 1 (last ls0)) (\<lambda>l. Inr (butlast ls0 @ [l])))"

text \<open>\<^verbatim>\<open>self._typesw_rev.get(self.data.__class__, default)\<close> when the data is a packet.\<close>

definition rev_type :: "'p eth_env \<Rightarrow> 'p eth_payload \<Rightarrow> int \<Rightarrow> int" where
  "rev_type env d dflt =
     (case d of E_Pkt x \<Rightarrow> (case env_rev env x of None \<Rightarrow> dflt | Some t \<Rightarrow> t) | _ \<Rightarrow> dflt)"

text \<open>The type fields of one or two tags: the new type of the frame, the tags, and whether ISL wraps.\<close>

fun set_tag_types :: "int \<Rightarrow> int \<Rightarrow> vlan_tag list \<Rightarrow> (int \<times> vlan_tag list \<times> bool) result" where
  "set_tag_types nt lt [TagQ t] =
     rbind (tag_set_type lt (TagQ t)) (\<lambda>t'.
       Inr (if nt \<in> set ETH_TYPES_QINQ then nt else ETH_TYPE_8021Q, [t'], False))"
| "set_tag_types nt lt [TagISL t] = rbind (tag_set_type 0 (TagISL t)) (\<lambda>t'. Inr (nt, [t'], True))"
| "set_tag_types nt lt [TagQ t1, TagQ t2] =
     rbind (tag_set_type ETH_TYPE_8021Q (TagQ t1)) (\<lambda>t1'.
     rbind (tag_set_type lt (TagQ t2)) (\<lambda>t2'.
       Inr (if nt \<in> set ETH_TYPES_QINQ then nt else ETH_TYPE_8021AD, [t1', t2'], False)))"
| "set_tag_types nt lt [t1, t2] = rbind (tag_set_type lt t2) (\<lambda>t2'. Inr (nt, [t1, t2'], False))"
| "set_tag_types nt lt _ = Inl PackError"

definition eth_pack_hdr :: "'p eth_env \<Rightarrow> 'p ethernet \<Rightarrow> (bytes \<times> 'p ethernet) result" where
  "eth_pack_hdr env e =
     rbind
       (if eth_mpls_labels e \<noteq> [] then
          rbind (mark_bottom (eth_mpls_labels e)) (\<lambda>ls.
          rbind (map_result (\<lambda>l. packet_pack_hdr BE mpls_label_hdr (mpls_label_vals l)) ls) (\<lambda>bs.
            Inr (if eth_type e \<in> set ETH_TYPES_MPLS then eth_type e else ETH_TYPE_MPLS,
                 concat bs, e\<lparr>eth_mpls_labels := ls\<rparr>, False)))
        else if eth_vlan_tags e \<noteq> [] then
          rbind (set_tag_types (eth_type e) (rev_type env (eth_data e) (eth_type e)) (eth_vlan_tags e))
            (\<lambda>(nt, tags, wrap).
            rbind (map_result tag_pack_hdr tags) (\<lambda>bs.
              Inr (nt, concat bs, e\<lparr>eth_vlan_tags := tags\<rparr>, wrap)))
        else Inr (rev_type env (eth_data e) (eth_type e), [], e, False))
       (\<lambda>(nt, tags_buf, e', wrap).
          rbind (case eth_data e of E_LLC l \<Rightarrow> rbind (llc_len env l) (\<lambda>n. Inr (int n)) | _ \<Rightarrow> Inr nt) (\<lambda>nt'.
          rbind (packet_pack_hdr BE eth_base_hdr (eth_vals e')) (\<lambda>h.
          rbind (struct_pack BE [fH] [VInt nt']) (\<lambda>tb.
            let hdr_buf = take (length h - 2) h @ tb
            in Inr (if wrap then tags_buf @ hdr_buf else hdr_buf @ tags_buf, e')))))"

text \<open>\<^verbatim>\<open>zlib.crc32\<close>: the reflected CRC-32 with polynomial \<open>0xEDB88320\<close>.\<close>

definition crc32_step :: "int \<Rightarrow> int" where
  "crc32_step c = (if odd c then drop_bit 1 c XOR 0xEDB88320 else drop_bit 1 c)"

definition crc32_byte :: "int \<Rightarrow> byte \<Rightarrow> int" where
  "crc32_byte c b = (crc32_step ^^ 8) (c XOR ord b)"

definition crc32 :: "bytes \<Rightarrow> int" where
  "crc32 bs = foldl crc32_byte 0xffffffff bs XOR 0xffffffff"

definition eth_payload_bytes :: "'p eth_env \<Rightarrow> 'p eth_payload \<Rightarrow> bytes result" where
  "eth_payload_bytes env d =
     (case d of E_Raw b \<Rightarrow> Inr b | E_LLC l \<Rightarrow> llc_bytes env l | E_Pkt x \<Rightarrow> env_bytes env x)"

definition eth_fcs_bytes :: "'p eth_env \<Rightarrow> 'p ethernet \<Rightarrow> 'p llc \<Rightarrow> (bytes \<times> 'p ethernet) result" where
  "eth_fcs_bytes env e l =
     (case eth_fcs e of
        None \<Rightarrow> Inr ([], e)
      | Some f \<Rightarrow>
          if f \<noteq> 0 then rbind (struct_pack BE [fI] [VInt f]) (\<lambda>b. Inr (b, e))
          else
            rbind (eth_pack_hdr env e) (\<lambda>(h, e1).
            rbind (llc_bytes env l) (\<lambda>body.
              let buf = h @ body;
                  buf1 = (case eth_vlan_tags e1 of TagISL t # _ \<Rightarrow> drop (hdr_len vlan_isl_hdr) buf | _ \<Rightarrow> buf);
                  revcrc = crc32 (buf1 @ eth_padding e1) AND 0xffffffff
              in rbind (struct_pack BE [fI] [VInt revcrc]) (\<lambda>sw.
                 rbind (struct_pack BE [fI] [VInt (bytes_int LE sw)]) (\<lambda>b. Inr (b, e1))))))"

definition eth_bytes :: "'p eth_env \<Rightarrow> 'p ethernet \<Rightarrow> (bytes \<times> 'p ethernet) result" where
  "eth_bytes env e =
     rbind (case eth_data e of
              E_LLC l \<Rightarrow> rbind (eth_fcs_bytes env e l) (\<lambda>(fcs, e1).
                Inr (eth_padding e1 @ fcs @ eth_trailer e1, e1))
            | _ \<Rightarrow> Inr ([], e))
       (\<lambda>(tail, e1).
          rbind (eth_pack_hdr env e1) (\<lambda>(h, e2).
          rbind (eth_payload_bytes env (eth_data e2)) (\<lambda>body.
            Inr (h @ body @ tail, e2))))"

definition eth_len :: "'p eth_env \<Rightarrow> 'p ethernet \<Rightarrow> nat result" where
  "eth_len env e =
     rbind (case eth_data e of E_Raw b \<Rightarrow> Inr (length b) | E_LLC l \<Rightarrow> llc_len env l | E_Pkt x \<Rightarrow> env_len env x)
       (\<lambda>n. Inr (hdr_len eth_base_hdr + n +
          hdr_len mpls_label_hdr * length (eth_mpls_labels e) + sum_list (map tag_hdr_len (eth_vlan_tags e)) +
          (case eth_data e of
             E_LLC l \<Rightarrow> length (eth_padding e) + (if eth_fcs e = None then 0 else 4) + length (eth_trailer e)
           | _ \<Rightarrow> 0)))"

text \<open>\<^verbatim>\<open>set_type\<close> writes both registries; the class is its constructor and its test.\<close>

definition set_type :: "int \<Rightarrow> (bytes \<Rightarrow> 'p result) \<Rightarrow> ('p \<Rightarrow> bool) \<Rightarrow> 'p eth_env \<Rightarrow> 'p eth_env" where
  "set_type t parse is_cls env =
     env\<lparr>env_typesw := (env_typesw env)(t \<mapsto> parse),
         env_rev := (\<lambda>x. if is_cls x then Some t else env_rev env x)\<rparr>"

definition get_type_rev :: "'p eth_env \<Rightarrow> 'p \<Rightarrow> int result" where
  "get_type_rev env x = (case env_rev env x of None \<Rightarrow> Inl KeyError | Some t \<Rightarrow> Inr t)"

section \<open>Parsing and packing\<close>

lemma eth_base_pack:
  assumes "packet_unpack BE eth_base_hdr eth_base_make buf = Inr h"
  shows "packet_pack_hdr BE eth_base_hdr
      [VBytes (eth_base_dst h), VBytes (eth_base_src h), VInt (eth_base_type h)] = Inr (take 14 buf)"
    "eth_base_data h = drop 14 buf" "14 \<le> length buf"
    "struct_pack BE [fH] [VInt (eth_base_type h)] = Inr (drop 12 (take 14 buf))"
    "0 \<le> eth_base_type h" "eth_base_type h < 65536"
proof -
  show p: "packet_pack_hdr BE eth_base_hdr
      [VBytes (eth_base_dst h), VBytes (eth_base_src h), VInt (eth_base_type h)] = Inr (take 14 buf)"
    "eth_base_data h = drop 14 buf" "14 \<le> length buf"
    using eth_base_class.unpack_pack_hdr [OF assms] by (simp_all add: eth_base_vals_def)
  have e: "exact_all (hdr_fmt eth_base_hdr) (eth_base_vals h)"
    using eth_base_class.unpack_vals [OF assms] by blast
  then show r: "0 \<le> eth_base_type h" "eth_base_type h < 65536"
    by (auto simp: eth_base_hdr_def eth_base_vals_def hdr_simps)
  have "take 14 buf = (eth_base_dst h @ eth_base_src h) @ int_bytes BE 2 (eth_base_type h) \<and>
      length (eth_base_dst h @ eth_base_src h) = 12"
    using p(1) e by (auto simp: eth_base_hdr_def eth_base_vals_def hdr_simps pack_hdr_flat result_simps
        simp del: pack1.simps)
  then have "drop 12 (take 14 buf) = int_bytes BE 2 (eth_base_type h)"
    by (metis append_eq_conv_conj)
  then show "struct_pack BE [fH] [VInt (eth_base_type h)] = Inr (drop 12 (take 14 buf))"
    using r by (simp add: pack1_iff)
qed

lemma vlan_q_init_pack:
  "vlan_q_init buf = Inr t \<Longrightarrow> tag_pack_hdr (TagQ t) = Inr (take 4 buf) \<and> 4 \<le> length buf"
  using vlan_q_class.unpack_pack_hdr [of buf]
  by (auto simp: vlan_q_init_def vlan_q_unpack_def vlan_q_vals_def result_simps)

lemma mpls_init_pack:
  "mpls_label_init buf = Inr l \<Longrightarrow>
   packet_pack_hdr BE mpls_label_hdr (mpls_label_vals l) = Inr (take 4 buf) \<and> 4 \<le> length buf \<and>
   0 \<le> mpls_label_val_exp_s_ttl l \<and> mpls_label_val_exp_s_ttl l < 2 ^ 32"
  using mpls_label_class.unpack_pack_hdr [of buf] mpls_label_class.unpack_vals [of buf]
  by (auto simp: mpls_label_init_def mpls_label_unpack_def mpls_label_vals_def mpls_label_hdr_def
      hdr_simps result_simps)

lemma isl_init_pack:
  "vlan_isl_init buf = Inr t \<Longrightarrow> tag_pack_hdr (TagISL t) = Inr (take 26 buf)"
  using vlan_isl_class.unpack_pack_hdr [of buf]
  by (auto simp: vlan_isl_init_def vlan_isl_unpack_def vlan_isl_vals_def result_simps)

lemma parse_vlan_tags_pack:
  "parse_vlan_tags n buf = Inr (tags, rest) \<Longrightarrow>
   (\<exists>bs. map_result tag_pack_hdr (map TagQ tags) = Inr bs \<and> concat bs @ rest = buf) \<and>
   length tags \<le> n \<and> (\<forall>t \<in> set (butlast tags). vlan_q_type t = ETH_TYPE_8021Q) \<and> (n \<noteq> 0 \<longrightarrow> tags \<noteq> [])"
proof (induction n arbitrary: buf tags rest)
  case (Suc n)
  obtain t where t: "vlan_q_init buf = Inr t" using Suc.prems by (auto simp: result_simps)
  note tp = vlan_q_init_pack [OF t]
  show ?case
  proof (cases "vlan_q_type t = ETH_TYPE_8021Q")
    case False
    then show ?thesis using Suc.prems t tp by auto
  next
    case True
    then obtain ts where ts: "parse_vlan_tags n (drop 4 buf) = Inr (ts, rest)" "tags = t # ts"
      using Suc.prems t by (auto simp: result_simps Let_def)
    then show ?thesis using Suc.IH [OF ts(1)] tp True by auto
  qed
qed simp

lemma mpls_s_eq: "mpls_s l = Inr (take_bit 1 (drop_bit 8 (mpls_label_val_exp_s_ttl l)))"
  by (simp add: mpls_s_def bf_get_take_bit bf_locate_def mpls_bits_def bits_total_def starts_with_def)

lemma mpls_set_s_same:
  assumes "mpls_s l = Inr v" "0 \<le> mpls_label_val_exp_s_ttl l" "mpls_label_val_exp_s_ttl l < 2 ^ 32"
  shows "mpls_set_s v l = Inr l"
proof -
  have "bits_total mpls_bits = 32" by (simp add: mpls_bits_def bits_total_def)
  then show ?thesis
    using bf_set_get [of mpls_bits "''s''" "mpls_label_val_exp_s_ttl l" v] assms
    by (simp add: mpls_s_def mpls_set_s_def)
qed

lemma mpls_set_twice: "mpls_set_s 0 l = Inr l' \<Longrightarrow> mpls_set_s 1 l' = mpls_set_s 1 l"
  by (auto simp: mpls_set_s_def bf_set_def bf_locate_def mpls_bits_def bits_total_def starts_with_def
      result_simps and.assoc)

lemma mpls_set_ok: "\<exists>l'. mpls_set_s 0 l = Inr l'"
  by (simp add: mpls_set_s_def bf_set_def bf_locate_def mpls_bits_def bits_total_def starts_with_def)

text \<open>A stack whose last label alone has the bottom bit is left as it is by packing.\<close>

definition stack_ok :: "mpls_label list \<Rightarrow> bool" where
  "stack_ok ls \<longleftrightarrow> ls \<noteq> [] \<and> mpls_s (last ls) = Inr 1 \<and> (\<forall>l \<in> set (butlast ls). mpls_s l = Inr 0) \<and>
     (\<forall>l \<in> set ls. 0 \<le> mpls_label_val_exp_s_ttl l \<and> mpls_label_val_exp_s_ttl l < 2 ^ 32)"

lemma mark_bottom_same:
  assumes "stack_ok ls"
  shows "mark_bottom ls = Inr ls"
proof -
  obtain xs l where ls: "ls = xs @ [l]" using assms by (metis stack_ok_def append_butlast_last_id)
  have "map_result (mpls_set_s 0) xs = Inr xs"
    using assms ls by (intro map_result_same) (auto simp: stack_ok_def intro!: mpls_set_s_same)
  moreover obtain l' where l': "mpls_set_s 0 l = Inr l'" using mpls_set_ok by blast
  moreover have "mpls_set_s 1 l = Inr l"
    using assms ls by (auto simp: stack_ok_def intro!: mpls_set_s_same)
  ultimately show ?thesis
    using mpls_set_twice [OF l'] ls by (simp add: mark_bottom_def map_result_append)
qed

lemma parse_mpls_pack:
  "parse_mpls n buf = Inr (ls, rest) \<Longrightarrow>
   (\<exists>bs. map_result (\<lambda>l. packet_pack_hdr BE mpls_label_hdr (mpls_label_vals l)) (map fst ls) = Inr bs \<and>
     concat bs @ rest = buf) \<and>
   (ls \<noteq> [] \<longrightarrow> mpls_s (fst (last ls)) = Inr 1 \<longrightarrow> stack_ok (map fst ls)) \<and> (n \<noteq> 0 \<longrightarrow> ls \<noteq> [])"
proof (induction n arbitrary: buf ls rest)
  case (Suc n)
  obtain l tup s where l: "mpls_label_init buf = Inr l" "mpls_as_tuple l = Inr tup" "mpls_s l = Inr s"
    using Suc.prems by (auto simp: result_simps Let_def)
  note lp = mpls_init_pack [OF l(1)]
  show ?case
  proof (cases "s = 0")
    case False
    then show ?thesis using Suc.prems l lp by (auto simp: stack_ok_def)
  next
    case True
    then obtain ts where ts: "parse_mpls n (drop 4 buf) = Inr (ts, rest)" "ls = (l, tup) # ts"
      using Suc.prems l by (auto simp: result_simps Let_def)
    then show ?thesis using Suc.IH [OF ts(1)] lp l True by (cases "ts = []") (auto simp: stack_ok_def last_map)
  qed
qed simp

text \<open>The type field of a frame on the wire.\<close>

definition wire_type :: "bytes \<Rightarrow> int" where
  "wire_type buf = bytes_int BE (take 2 (drop 12 buf))"

lemma eth_base_wire_type:
  assumes "packet_unpack BE eth_base_hdr eth_base_make buf = Inr h"
  shows "eth_base_type h = wire_type buf"
proof -
  have "take 2 (drop 12 buf) = int_bytes BE 2 (eth_base_type h)"
    using eth_base_pack(4) [OF assms] by (simp add: pack1_iff drop_take result_simps del: pack1.simps)
  then show ?thesis
    using eth_base_pack(5,6) [OF assms] by (simp add: wire_type_def bytes_int_int_bytes)
qed

lemma eth_dispatch_cases:
  assumes "eth_dispatch env e buf = Inr e'"
  obtains (raw) "e' = e\<lparr>eth_data := E_Raw buf\<rparr>"
  | (pkt) x t where "e' = e\<lparr>eth_data := E_Pkt x\<rparr>"
      "t = (case eth_next_type e of None \<Rightarrow> eth_type e | Some t \<Rightarrow> if t = 0 then eth_type e else t)"
      "dispatch (env_typesw env) t buf = Inr (Pkt x)" "parse_type env t buf = Inr x"
proof -
  let ?t = "case eth_next_type e of None \<Rightarrow> eth_type e | Some t \<Rightarrow> if t = 0 then eth_type e else t"
  obtain d where d: "dispatch (env_typesw env) ?t buf = Inr d"
    "e' = e\<lparr>eth_data := (case d of Raw b \<Rightarrow> E_Raw b | Pkt x \<Rightarrow> E_Pkt x)\<rparr>"
    using assms by (auto simp: eth_dispatch_def Let_def result_simps)
  show ?thesis
  proof (cases d)
    case (Raw b)
    then have "b = buf" using dispatch_parsed [OF d(1)] by (simp add: parsed_from_def)
    then show ?thesis using raw d(2) Raw by simp
  next
    case (Pkt x)
    have "parse_type env ?t buf = Inr x"
      using d(1) Pkt by (auto simp: dispatch_def parse_type_def split: option.splits sum.splits if_splits)
    then show ?thesis using pkt d Pkt by auto
  qed
qed

text \<open>What the header of a frame packs to, by kind of frame.\<close>

lemma eth_pack_plain:
  assumes "packet_unpack BE eth_base_hdr eth_base_make buf = Inr h"
    and "eth_vals e = [VBytes (eth_base_dst h), VBytes (eth_base_src h), VInt (eth_base_type h)]"
    and "eth_mpls_labels e = []" "eth_vlan_tags e = []"
    and "(case eth_data e of E_LLC l \<Rightarrow> rbind (llc_len env l) (\<lambda>n. Inr (int n))
      | d \<Rightarrow> Inr (rev_type env d (eth_type e))) = Inr (eth_base_type h)"
  shows "eth_pack_hdr env e = Inr (take 14 buf, e)"
proof -
  note p = eth_base_pack [OF assms(1)]
  have "take 12 (take 14 buf) @ drop 12 (take 14 buf) = take 14 buf" by (rule append_take_drop_id)
  then show ?thesis
    using assms(2-5) p(1,3,4)
    by (cases "eth_data e") (auto simp: eth_pack_hdr_def Let_def rev_type_def result_simps min_def
        simp del: take_take struct_pack.simps)
qed

lemma eth_pack_mpls:
  assumes "packet_unpack BE eth_base_hdr eth_base_make buf = Inr h"
    and "eth_vals e = [VBytes (eth_base_dst h), VBytes (eth_base_src h), VInt (eth_base_type h)]"
    and "eth_type e \<in> set ETH_TYPES_MPLS" "stack_ok (eth_mpls_labels e)" "eth_data e = E_Pkt x"
    and "map_result (\<lambda>l. packet_pack_hdr BE mpls_label_hdr (mpls_label_vals l)) (eth_mpls_labels e) = Inr bs"
  shows "eth_pack_hdr env e = Inr (take 14 buf @ concat bs, e)"
proof -
  note p = eth_base_pack [OF assms(1)]
  have ty: "eth_type e = eth_base_type h" using assms(2) by (simp add: eth_vals_def)
  have "take 12 (take 14 buf) @ drop 12 (take 14 buf) = take 14 buf" by (rule append_take_drop_id)
  moreover have "eth_mpls_labels e \<noteq> []" using assms(4) by (auto simp: stack_ok_def)
  ultimately show ?thesis
    using assms(2-6) p(1,3,4) ty mark_bottom_same [OF assms(4)]
    by (auto simp: eth_pack_hdr_def Let_def result_simps min_def simp del: take_take struct_pack.simps)
qed

lemma eth_pack_vlan:
  assumes "packet_unpack BE eth_base_hdr eth_base_make buf = Inr h"
    and "eth_vals e = [VBytes (eth_base_dst h), VBytes (eth_base_src h), VInt (eth_base_type h)]"
    and "eth_type e \<in> set ETH_TYPES_QINQ" "eth_mpls_labels e = []" "eth_vlan_tags e = map TagQ tags"
    and "eth_data e = E_Pkt x" "tags \<noteq> []" "length tags \<le> 2" "env_rev env x = Some (vlan_q_type (last tags))"
    and "\<forall>t \<in> set (butlast tags). vlan_q_type t = ETH_TYPE_8021Q"
    and "map_result tag_pack_hdr (map TagQ tags) = Inr bs"
  shows "eth_pack_hdr env e = Inr (take 14 buf @ concat bs, e)"
proof -
  note p = eth_base_pack [OF assms(1)]
  have ty: "eth_type e = eth_base_type h" using assms(2) by (simp add: eth_vals_def)
  have "take 12 (take 14 buf) @ drop 12 (take 14 buf) = take 14 buf" by (rule append_take_drop_id)
  moreover have "set_tag_types (eth_type e) (vlan_q_type (last tags)) (map TagQ tags) =
      Inr (eth_type e, map TagQ tags, False)"
  proof (cases tags)
    case (Cons t ts)
    then show ?thesis
    proof (cases ts)
      case (Cons t' ts')
      then have "ts' = []" "vlan_q_type t = ETH_TYPE_8021Q" using assms(8,10) \<open>tags = t # ts\<close> by auto
      then have "t\<lparr>vlan_q_type := ETH_TYPE_8021Q\<rparr> = t" by simp
      then show ?thesis using assms(3) Cons \<open>tags = t # ts\<close> \<open>ts' = []\<close> by simp
    qed (use assms(3) Cons in simp)
  qed (use assms(7) in simp)
  moreover have "map TagQ tags \<noteq> []" 
    "eth_vals (e\<lparr>eth_vlan_tags := map TagQ tags\<rparr>) = eth_vals e"
    using assms(7) by (simp_all add: eth_vals_def)
  ultimately show ?thesis
    using assms(2-6,9,11) p(1,3,4) ty
    by (auto simp: eth_pack_hdr_def Let_def result_simps rev_type_def min_def
        simp del: take_take struct_pack.simps)
qed

lemma eth_bytes_pkt:
  "eth_data e = E_Pkt x \<Longrightarrow> eth_pack_hdr env e = Inr (h, e) \<Longrightarrow>
   eth_bytes env e = rbind (env_bytes env x) (\<lambda>b. Inr (h @ b, e))"
  by (simp add: eth_bytes_def eth_payload_bytes_def)

text \<open>An Ethernet II frame: the parse goes straight to \<^verbatim>\<open>_unpack_data\<close>.\<close>

lemma eth_unpack_ii:
  assumes "eth_unpack env eth_new buf = Inr e" "1500 < wire_type buf"
  obtains h e0 where "packet_unpack BE eth_base_hdr eth_base_make buf = Inr h"
    "e0 = eth_new\<lparr>eth_dst := eth_base_dst h, eth_src := eth_base_src h, eth_type := wire_type buf,
       eth_data := E_Raw (drop 14 buf), eth_next_type := Some (wire_type buf)\<rparr>"
    "eth_base_type h = wire_type buf" "eth_unpack_data env e0 (drop 14 buf) = Inr e"
proof -
  obtain h where h: "packet_unpack BE eth_base_hdr eth_base_make buf = Inr h"
    using assms(1) by (subst (asm) eth_unpack.simps) (auto simp: result_simps)
  have w: "eth_base_type h = wire_type buf" by (rule eth_base_wire_type [OF h])
  show ?thesis
    using that [OF h refl w] assms h w eth_base_pack(2) [OF h]
    by (subst (asm) eth_unpack.simps) (simp add: Let_def)
qed

context eth_payloads
begin

lemma eth_ii_roundtrip:
  assumes "eth_init env buf = Inr e" "1500 < wire_type buf"
    and "wire_type buf \<notin> set ETH_TYPES_QINQ" "wire_type buf \<notin> set ETH_TYPES_MPLS"
  shows "eth_bytes env e = rbind (eth_payload_bytes env (eth_data e)) (\<lambda>b. Inr (take 14 buf @ b, e)) \<and>
    (eth_data e = E_Raw (drop 14 buf) \<or>
     (\<exists>x. eth_data e = E_Pkt x \<and> parse_type env (wire_type buf) (drop 14 buf) = Inr x))"
proof -
  obtain e1 where e1: "eth_unpack env eth_new buf = Inr e1" "eth_reparse env e1 = Inr e"
    using assms(1) by (auto simp: eth_init_def result_simps)
  obtain h e0 where h: "packet_unpack BE eth_base_hdr eth_base_make buf = Inr h"
    "e0 = eth_new\<lparr>eth_dst := eth_base_dst h, eth_src := eth_base_src h, eth_type := wire_type buf,
       eth_data := E_Raw (drop 14 buf), eth_next_type := Some (wire_type buf)\<rparr>"
    "eth_base_type h = wire_type buf" "eth_unpack_data env e0 (drop 14 buf) = Inr e1"
    using eth_unpack_ii [OF e1(1) assms(2)] by blast
  have step: "eth_unpack_data env e' b = eth_dispatch env e' b"
    if "eth_next_type e' = Some (wire_type buf)" for e' b
    using that assms(3,4) by (simp add: eth_unpack_data_def next_in_def)
  have w0: "wire_type buf \<noteq> 0" using assms(2) by simp
  have d1: "eth_dispatch env e0 (drop 14 buf) = Inr e1" using h(2,4) step by simp
  have "eth_dispatch env e0 (drop 14 buf) = Inr e"
    using d1
  proof (cases rule: eth_dispatch_cases)
    case raw
    then show ?thesis
      using e1(2) d1 h(2) step [of e1 "drop 14 buf"]
      by (auto simp: eth_reparse_def eth_dispatch_def split: if_splits)
  qed (use e1(2) d1 in \<open>auto simp: eth_reparse_def result_simps\<close>)
  then show ?thesis
  proof (cases rule: eth_dispatch_cases)
    case raw
    then have "eth_pack_hdr env e = Inr (take 14 buf, e)"
      using h by (intro eth_pack_plain [OF h(1)]) (auto simp: eth_vals_def eth_new_def rev_type_def)
    then show ?thesis using raw by (simp add: eth_bytes_def eth_payload_bytes_def)
  next
    case (pkt x t)
    then have t: "t = wire_type buf" using h(2) w0 by simp
    then have "env_rev env x = Some (wire_type buf)" using dispatch_rev [OF pkt(3)] by simp
    then have "eth_pack_hdr env e = Inr (take 14 buf, e)"
      using h pkt(1) by (intro eth_pack_plain [OF h(1)]) (auto simp: eth_vals_def eth_new_def rev_type_def)
    then show ?thesis using pkt t by (simp add: eth_bytes_pkt eth_payload_bytes_def)
  qed
qed

lemma eth_vlan_roundtrip:
  assumes u: "eth_unpack env eth_new buf = Inr e" and x: "eth_data e = E_Pkt x" "env_len env x = Inr k"
    and w: "wire_type buf \<in> set ETH_TYPES_QINQ" and q: "\<forall>t \<in> set ETH_TYPES_QINQ. env_typesw env t = None"
  shows "eth_init env buf = Inr e \<and> length (eth_vlan_tags e) \<in> {1, 2} \<and>
    (let n = 14 + 4 * length (eth_vlan_tags e)
     in eth_bytes env e = rbind (env_bytes env x) (\<lambda>b. Inr (take n buf @ b, e)) \<and>
        (\<exists>t. parse_type env t (drop n buf) = Inr x))"
proof -
  have big: "1500 < wire_type buf" using w by (auto simp: eth_types)
  obtain h e0 where h: "packet_unpack BE eth_base_hdr eth_base_make buf = Inr h"
    "e0 = eth_new\<lparr>eth_dst := eth_base_dst h, eth_src := eth_base_src h, eth_type := wire_type buf,
       eth_data := E_Raw (drop 14 buf), eth_next_type := Some (wire_type buf)\<rparr>"
    "eth_base_type h = wire_type buf" "eth_unpack_data env e0 (drop 14 buf) = Inr e"
    using eth_unpack_ii [OF u big] by blast
  obtain tags rest tup where t: "parse_vlan_tags 2 (drop 14 buf) = Inr (tags, rest)"
    "eth_dispatch env (e0\<lparr>eth_vlan_tags := map TagQ tags, eth_vlan_tuple := Some tup,
       eth_next_type := Some (vlan_q_type (last tags))\<rparr>) rest = Inr e"
    using h(2,4) w by (auto simp: eth_unpack_data_def next_in_def result_simps)
  obtain bs where bs: "map_result tag_pack_hdr (map TagQ tags) = Inr bs" "concat bs @ rest = drop 14 buf"
    and tags: "length tags \<le> 2" "tags \<noteq> []" "\<forall>t \<in> set (butlast tags). vlan_q_type t = ETH_TYPE_8021Q"
    using parse_vlan_tags_pack [OF t(1)] by auto
  have lb: "length (concat bs) = 4 * length tags" using bs(1)
  proof (induction tags arbitrary: bs)
    case (Cons a tags)
    then show ?case by (fastforce simp: result_simps dest: packet_pack_hdr_length)
  qed simp
  from t(2) show ?thesis
  proof (cases rule: eth_dispatch_cases)
    case raw
    then show ?thesis using x by simp
  next
    case (pkt y ty)
    have xy: "y = x" using pkt(1) x(1) by simp
    have "ty = vlan_q_type (last tags)"
      using pkt(2,3) h(2) q w by (auto simp: dispatch_def split: if_splits)
    then have rev: "env_rev env x = Some (vlan_q_type (last tags))" using dispatch_rev [OF pkt(3)] xy by simp
    have e: "eth_vals e = [VBytes (eth_base_dst h), VBytes (eth_base_src h), VInt (eth_base_type h)]"
      "eth_type e = wire_type buf" "eth_mpls_labels e = []" "eth_vlan_tags e = map TagQ tags"
      using pkt(1) h(2,3) by (simp_all add: eth_vals_def eth_new_def)
    have "eth_pack_hdr env e = Inr (take 14 buf @ concat bs, e)"
      using e w by (intro eth_pack_vlan [OF h(1) e(1) _ e(3,4) x(1) tags(2,1) rev tags(3) bs(1)]) simp
    then have "eth_bytes env e = rbind (env_bytes env x) (\<lambda>b. Inr ((take 14 buf @ concat bs) @ b, e))"
      by (rule eth_bytes_pkt [OF x(1)])
    moreover have "take (14 + 4 * length tags) buf = take 14 buf @ concat bs"
      using bs(2) lb by (metis append_eq_conv_conj take_add)
    moreover have "drop (14 + 4 * length tags) buf = rest"
      using bs(2) lb by (metis append_eq_conv_conj drop_drop add.commute)
    moreover have "length tags \<in> {1, 2}" using tags(1,2) by (cases "length tags") auto
    ultimately show ?thesis
      using u e(4) pkt(4) xy x by (auto simp: eth_init_def packet_init_Inr eth_reparse_def Let_def packet_init_def)
  qed
qed

lemma eth_mpls_roundtrip:
  assumes u: "eth_unpack env eth_new buf = Inr e" and x: "eth_data e = E_Pkt x" "env_len env x = Inr k"
    and w: "wire_type buf \<in> set ETH_TYPES_MPLS" and q: "\<forall>t \<in> set ETH_TYPES_MPLS. env_typesw env t = None"
    and bot: "mpls_s (last (eth_mpls_labels e)) = Inr 1" and teb: "eth_next_type e \<noteq> Some ETH_TYPE_TEB"
  shows "eth_init env buf = Inr e \<and> eth_mpls_labels e \<noteq> [] \<and>
    (let n = 14 + 4 * length (eth_mpls_labels e)
     in eth_bytes env e = rbind (env_bytes env x) (\<lambda>b. Inr (take n buf @ b, e)) \<and>
        (\<exists>t. parse_type env t (drop n buf) = Inr x))"
proof -
  have big: "1500 < wire_type buf" and nq: "wire_type buf \<notin> set ETH_TYPES_QINQ"
    using w by (auto simp: eth_types)
  obtain h e0 where h: "packet_unpack BE eth_base_hdr eth_base_make buf = Inr h"
    "e0 = eth_new\<lparr>eth_dst := eth_base_dst h, eth_src := eth_base_src h, eth_type := wire_type buf,
       eth_data := E_Raw (drop 14 buf), eth_next_type := Some (wire_type buf)\<rparr>"
    "eth_base_type h = wire_type buf" "eth_unpack_data env e0 (drop 14 buf) = Inr e"
    using eth_unpack_ii [OF u big] by blast
  obtain ls rest nt rest' where t: "parse_mpls 24 (drop 14 buf) = Inr (ls, rest)"
    "guess_mpls_payload rest = Inr (nt, rest')"
    "eth_dispatch env (e0\<lparr>eth_mpls_labels := map fst ls, eth_labels := map snd ls,
       eth_next_type := (case nt of None \<Rightarrow> eth_next_type e0 | Some t \<Rightarrow> Some t)\<rparr>) rest' = Inr e"
    using h(2,4) w nq by (auto simp: eth_unpack_data_def next_in_def result_simps)
  obtain bs where bs: "map_result (\<lambda>l. packet_pack_hdr BE mpls_label_hdr (mpls_label_vals l)) (map fst ls) = Inr bs"
    "concat bs @ rest = drop 14 buf" "ls \<noteq> []"
    and st: "mpls_s (fst (last ls)) = Inr 1 \<Longrightarrow> stack_ok (map fst ls)"
    using parse_mpls_pack [OF t(1)] by auto
  have lb: "length (concat bs) = 4 * length (map fst ls)" using bs(1)
  proof (induction "map fst ls" arbitrary: ls bs)
    case (Cons a as)
    then show ?case by (cases ls) (fastforce simp: result_simps dest: packet_pack_hdr_length)+
  qed simp
  from t(3) show ?thesis
  proof (cases rule: eth_dispatch_cases)
    case raw
    then show ?thesis using x by simp
  next
    case (pkt y ty)
    have xy: "y = x" using pkt(1) x(1) by simp
    have e: "eth_vals e = [VBytes (eth_base_dst h), VBytes (eth_base_src h), VInt (eth_base_type h)]"
      "eth_type e = wire_type buf" "eth_mpls_labels e = map fst ls"
      "eth_next_type e = (case nt of None \<Rightarrow> Some (wire_type buf) | Some t \<Rightarrow> Some t)"
      using pkt(1) h(2,3) by (auto simp add: eth_vals_def eth_new_def split: option.splits)
    have "rest' = rest"
      using t(2) teb e(4) pkt(2,3) h(2) q w
      by (auto simp: guess_mpls_payload_def eth_types result_simps dispatch_def split: if_splits)
    have "stack_ok (eth_mpls_labels e)" using st bot e(3) bs(3) by (simp add: last_map)
    then have "eth_pack_hdr env e = Inr (take 14 buf @ concat bs, e)"
      using e w bs(1) by (intro eth_pack_mpls [OF h(1) e(1) _ _ x(1)]) simp_all
    then have "eth_bytes env e = rbind (env_bytes env x) (\<lambda>b. Inr ((take 14 buf @ concat bs) @ b, e))"
      by (rule eth_bytes_pkt [OF x(1)])
    moreover have "take (14 + 4 * length ls) buf = take 14 buf @ concat bs"
      using bs(2) lb by (metis append_eq_conv_conj take_add length_map)
    moreover have "drop (14 + 4 * length ls) buf = rest"
      using bs(2) lb by (metis append_eq_conv_conj drop_drop add.commute length_map)
    ultimately show ?thesis
      using u e(3) pkt(4) xy x bs(3) \<open>rest' = rest\<close>
      by (auto simp: eth_init_def packet_init_Inr eth_reparse_def Let_def packet_init_def)
  qed
qed

end

lemma eth_base_dst:
  assumes "packet_unpack BE eth_base_hdr eth_base_make buf = Inr h"
  shows "eth_base_dst h = take 6 buf"
proof -
  have e: "exact_all (hdr_fmt eth_base_hdr) (eth_base_vals h)"
    using eth_base_class.unpack_vals [OF assms] by blast
  then have "take 14 buf = eth_base_dst h @ eth_base_src h @ int_bytes BE 2 (eth_base_type h) \<and>
      length (eth_base_dst h) = 6"
    using eth_base_pack(1) [OF assms]
    by (auto simp: eth_base_hdr_def eth_base_vals_def hdr_simps pack_hdr_flat result_simps
        simp del: pack1.simps)
  then have "eth_base_dst h = take 6 (take 14 buf)" by (metis append_eq_conv_conj)
  then show ?thesis by simp
qed

definition fcs_bytes :: "int option \<Rightarrow> bytes" where
  "fcs_bytes f = (case f of None \<Rightarrow> [] | Some v \<Rightarrow> int_bytes BE 4 v)"

text \<open>The tail of an 802.3 frame is its padding, its check sequence and its trailer.\<close>

lemma eth_tail_parts:
  assumes "eth_padding e = []" "eth_fcs e = None" "eth_trailer e = []" "0 \<le> n"
  shows "eth_padding (eth_tail n e tail) @ fcs_bytes (eth_fcs (eth_tail n e tail)) @
      eth_trailer (eth_tail n e tail) = tail \<and>
    (\<forall>f. eth_fcs (eth_tail n e tail) = Some f \<longrightarrow> 0 \<le> f \<and> f < 2 ^ 32)"
proof -
  define padded where "padded \<longleftrightarrow> 4 < length tail \<and> n < 46 \<and> py_upto tail (46 - n) = zeros (nat (46 - n))"
  define tail1 where "tail1 = (if padded then py_from tail (46 - n) else tail)"
  have p: "(if padded then py_upto tail (46 - n) else []) @ tail1 = tail"
  proof (cases padded)
    case True
    then have "n < 46" by (simp add: padded_def)
    then have "py_upto tail (46 - n) = take (nat (46 - n)) tail" "tail1 = drop (nat (46 - n)) tail"
      using True by (simp_all add: tail1_def py_upto_nonneg py_from_nonneg)
    then show ?thesis using True by (metis append_take_drop_id)
  qed (simp add: tail1_def)
  have "int_bytes BE 4 (bytes_int BE (take 4 tail1)) = take 4 tail1" if "4 \<le> length tail1"
    using that by (intro int_bytes_bytes_int) simp
  moreover have "bytes_int BE (take 4 tail1) < 2 ^ 32" if "4 \<le> length tail1"
    using that bytes_int_range(2) [of "take 4 tail1" 4 BE] by simp
  ultimately show ?thesis
    using p assms unfolding padded_def [symmetric]
    by (auto simp: eth_tail_def Let_def fcs_bytes_def padded_def [symmetric] tail1_def [symmetric] split: if_splits)
qed

lemma eth_tail_fields [simp]:
  "eth_vlan_tags (eth_tail n e tail) = eth_vlan_tags e" "eth_mpls_labels (eth_tail n e tail) = eth_mpls_labels e"
  "eth_type (eth_tail n e tail) = eth_type e" "eth_vals (eth_tail n e tail) = eth_vals e"
  by (simp_all add: eth_tail_def Let_def eth_vals_def)

context eth_payloads
begin

lemma eth_8023_roundtrip:
  assumes i: "eth_init env buf = Inr e" and w: "0 < wire_type buf" "wire_type buf \<le> 1500"
    and p: "\<not> isl_prefix (take 6 buf)" "\<not> starts_with (drop 14 buf) [0xff, 0xff]"
    and c: "14 + nat (wire_type buf) \<le> length buf" and f: "eth_fcs e \<noteq> Some 0"
  shows "\<exists>l. eth_data e = E_LLC l \<and> llc_init env (take (nat (wire_type buf)) (drop 14 buf)) = Inr l \<and>
    (llc_bytes env l = Inr (take (nat (wire_type buf)) (drop 14 buf)) \<longrightarrow> eth_bytes env e = Inr (buf, e))"
proof -
  let ?n = "wire_type buf" and ?data = "drop 14 buf"
  obtain e1 where e1: "eth_unpack env eth_new buf = Inr e1" "eth_reparse env e1 = Inr e"
    using i by (auto simp: eth_init_def result_simps)
  obtain h where h: "packet_unpack BE eth_base_hdr eth_base_make buf = Inr h"
    using e1(1) by (subst (asm) eth_unpack.simps) (auto simp: result_simps)
  note hp = eth_base_pack [OF h] and hw = eth_base_wire_type [OF h] and hd = eth_base_dst [OF h]
  define e0 :: "'p ethernet" where "e0 = eth_new\<lparr>eth_dst := eth_base_dst h, eth_src := eth_base_src h, eth_type := ?n,
     eth_data := E_Raw ?data, eth_len_attr := Some ?n\<rparr>"
  define e2 where "e2 = (if ?n < int (length ?data) then eth_tail ?n e0 (py_from ?data ?n) else e0)"
  obtain l where l: "llc_init env (py_upto ?data ?n) = Inr l" "e1 = e2\<lparr>eth_data := E_LLC l\<rparr>"
    using e1(1) h hp(2) hw hd w p
    by (subst (asm) eth_unpack.simps) (auto simp: Let_def result_simps e2_def e0_def ETH_TYPE_UNKNOWN_def)
  have e: "e = e1" using e1(2) l(2) by (auto simp: eth_reparse_def result_simps)
  define body where "body = take (nat ?n) ?data"
  have body: "py_upto ?data ?n = body" "length body = nat ?n"
    using w c by (simp_all add: body_def py_upto_nonneg)
  have parts: "eth_padding e2 @ fcs_bytes (eth_fcs e2) @ eth_trailer e2 = drop (nat ?n) ?data \<and>
      (\<forall>f. eth_fcs e2 = Some f \<longrightarrow> 0 \<le> f \<and> f < 2 ^ 32)"
  proof (cases "?n < int (length ?data)")
    case True
    then show ?thesis
      using eth_tail_parts [of e0 ?n "py_from ?data ?n"] w
      by (simp add: e2_def e0_def eth_new_def py_from_nonneg fcs_bytes_def)
  next
    case False
    then have "drop (nat ?n) ?data = []" using w by simp
    then show ?thesis using False by (simp add: e2_def e0_def eth_new_def fcs_bytes_def)
  qed
  have "eth_bytes env e = Inr (buf, e)" if lb: "llc_bytes env l = Inr body"
  proof -
    have vals: "eth_vals e = [VBytes (eth_base_dst h), VBytes (eth_base_src h), VInt (eth_base_type h)]"
      "eth_mpls_labels e = []" "eth_vlan_tags e = []" "eth_data e = E_LLC l"
      using hw by (auto simp: e l(2) e2_def e0_def eth_new_def eth_vals_def)
        (simp_all add: eth_tail_def Let_def)
    have "rbind (llc_len env l) (\<lambda>n. Inr (int n)) = Inr (eth_base_type h)"
      using llc_len_bytes [OF lb] body(2) hw w by simp
    then have pk: "eth_pack_hdr env e = Inr (take 14 buf, e)"
      using vals by (intro eth_pack_plain [OF h]) simp_all
    have fcs: "eth_fcs_bytes env e l = Inr (fcs_bytes (eth_fcs e2), e)"
      using parts f by (cases "eth_fcs e2") (auto simp: eth_fcs_bytes_def fcs_bytes_def e l(2) pack1_iff)
    have "take 14 buf @ body @ eth_padding e2 @ fcs_bytes (eth_fcs e2) @ eth_trailer e2 = buf"
      using parts by (simp add: body_def)
    then show ?thesis
      using vals pk fcs lb by (simp add: eth_bytes_def eth_payload_bytes_def) (simp add: e l(2))
  qed
  then show ?thesis using l e body by (auto simp: body_def)
qed

end

text \<open>What packing a header leaves alone.\<close>

lemma mark_bottom_length: "mark_bottom ls = Inr ls' \<Longrightarrow> ls \<noteq> [] \<Longrightarrow> length ls' = length ls"
  by (auto simp: mark_bottom_def result_simps dest!: map_result_length)

lemma tag_pack_length: "tag_pack_hdr t = Inr b \<Longrightarrow> length b = tag_hdr_len t"
  by (cases t) (auto dest: packet_pack_hdr_length)

lemma tag_set_type_len: "tag_set_type v t = Inr t' \<Longrightarrow> tag_hdr_len t' = tag_hdr_len t"
  by (cases t) (auto simp: result_simps)

lemma set_tag_types_len:
  "set_tag_types nt lt ts = Inr (nt', ts', wrap) \<Longrightarrow> map tag_hdr_len ts' = map tag_hdr_len ts"
  by (induction nt lt ts rule: set_tag_types.induct)
    (auto simp: result_simps dest!: tag_set_type_len simp del: tag_set_type.simps)

lemma eth_pack_hdr_len:
  assumes "eth_pack_hdr env e = Inr (h, e')" "eth_vlan_tags e = [] \<or> eth_mpls_labels e = []"
  shows "length h = 14 + 4 * length (eth_mpls_labels e) + sum_list (map tag_hdr_len (eth_vlan_tags e)) \<and>
    length (eth_mpls_labels e') = length (eth_mpls_labels e) \<and>
    map tag_hdr_len (eth_vlan_tags e') = map tag_hdr_len (eth_vlan_tags e) \<and>
    eth_data e' = eth_data e \<and> eth_padding e' = eth_padding e \<and> eth_fcs e' = eth_fcs e \<and>
    eth_trailer e' = eth_trailer e"
proof -
  have fin: "length (take (length b - 2) b @ t) = 14"
    if "packet_pack_hdr BE eth_base_hdr v = Inr b" "struct_pack BE [fH] [VInt i] = Inr t" for b t v i
    using packet_pack_hdr_length [OF that(1)] struct_pack_length [OF that(2)] by simp
  consider (mpls) "eth_mpls_labels e \<noteq> []" | (vlan) "eth_mpls_labels e = []" "eth_vlan_tags e \<noteq> []"
    | (plain) "eth_mpls_labels e = []" "eth_vlan_tags e = []" by blast
  then show ?thesis
  proof cases
    case mpls
    then obtain ls bs b t v i where m: "mark_bottom (eth_mpls_labels e) = Inr ls"
      "map_result (\<lambda>l. packet_pack_hdr BE mpls_label_hdr (mpls_label_vals l)) ls = Inr bs"
      "packet_pack_hdr BE eth_base_hdr v = Inr b" "struct_pack BE [fH] [VInt i] = Inr t"
      "h = (take (length b - 2) b @ t) @ concat bs" "e' = e\<lparr>eth_mpls_labels := ls\<rparr>"
      using assms(1) by (auto simp: eth_pack_hdr_def result_simps Let_def simp del: struct_pack.simps)
    have "length (concat bs) = sum_list (map (\<lambda>_. 4) ls)"
      by (rule map_result_concat_length [OF m(2)]) (auto dest: packet_pack_hdr_length)
    then show ?thesis
      using m fin [OF m(3,4)] mark_bottom_length [OF m(1) mpls] mpls assms(2)
      by (simp add: sum_list_triv)
  next
    case vlan
    then obtain nt tags wrap bs b t v i where m:
      "set_tag_types (eth_type e) (rev_type env (eth_data e) (eth_type e)) (eth_vlan_tags e) = Inr (nt, tags, wrap)"
      "map_result tag_pack_hdr tags = Inr bs"
      "packet_pack_hdr BE eth_base_hdr v = Inr b" "struct_pack BE [fH] [VInt i] = Inr t"
      "h = (if wrap then concat bs @ take (length b - 2) b @ t else (take (length b - 2) b @ t) @ concat bs)"
      "e' = e\<lparr>eth_vlan_tags := tags\<rparr>"
      using assms(1) by (auto simp: eth_pack_hdr_def result_simps Let_def simp del: struct_pack.simps)
    have "length (concat bs) = sum_list (map tag_hdr_len tags)"
      by (rule map_result_concat_length [OF m(2)]) (rule tag_pack_length)
    moreover have "length h = length (take (length b - 2) b @ t) + length (concat bs)" using m(5) by auto
    ultimately show ?thesis
      using m(6) fin [OF m(3,4)] set_tag_types_len [OF m(1)] vlan(1) by simp
  next
    case plain
    then show ?thesis
      using assms(1) fin by (auto simp: eth_pack_hdr_def result_simps Let_def simp del: struct_pack.simps)
  qed
qed

context eth_payloads
begin

text \<open>The length of a frame is the length of its bytes, unless it has both labels and tags.\<close>

lemma eth_len_bytes:
  assumes "eth_bytes env e = Inr (b, e')" "eth_vlan_tags e = [] \<or> eth_mpls_labels e = []"
  shows "eth_len env e = Inr (length b)"
proof (cases "eth_data e")
  case (E_LLC l)
  obtain fcs e1 h body where f: "eth_fcs_bytes env e l = Inr (fcs, e1)" "eth_pack_hdr env e1 = Inr (h, e')"
    "eth_payload_bytes env (eth_data e') = Inr body" "b = h @ body @ eth_padding e1 @ fcs @ eth_trailer e1"
    using assms(1) E_LLC by (auto simp: eth_bytes_def result_simps)
  have e1: "length fcs = (if eth_fcs e = None then 0 else 4) \<and>
    (e1 = e \<or> (\<exists>h. eth_pack_hdr env e = Inr (h, e1)))"
    using f(1) by (auto simp: eth_fcs_bytes_def result_simps Let_def simp del: struct_pack.simps
        dest!: struct_pack_length split: option.splits if_splits)
  then have s: "length (eth_mpls_labels e1) = length (eth_mpls_labels e) \<and>
    map tag_hdr_len (eth_vlan_tags e1) = map tag_hdr_len (eth_vlan_tags e) \<and>
    eth_data e1 = eth_data e \<and> eth_padding e1 = eth_padding e \<and> eth_trailer e1 = eth_trailer e"
    using eth_pack_hdr_len [OF _ assms(2)] by auto
  then have "eth_vlan_tags e1 = [] \<or> eth_mpls_labels e1 = []" using assms(2) by auto
  note p = eth_pack_hdr_len [OF f(2) this]
  then have "llc_bytes env l = Inr body" using f(3) E_LLC s by (simp add: eth_payload_bytes_def)
  then have "llc_len env l = Inr (length body)" using llc_len_bytes by simp
  then show ?thesis using p s e1 f(4) E_LLC by (simp add: eth_len_def)
next
  case (E_Raw d)
  then show ?thesis
    using assms eth_pack_hdr_len [OF _ assms(2)]
    by (auto simp: eth_bytes_def result_simps eth_payload_bytes_def eth_len_def)
next
  case (E_Pkt x)
  then show ?thesis
    using assms eth_pack_hdr_len [OF _ assms(2)] env_len_bytes
    by (fastforce simp: eth_bytes_def result_simps eth_payload_bytes_def eth_len_def)
qed

end

section \<open>Properties\<close>

text \<open>
  A frame whose MPLS stack is complete but carries nothing makes the constructor raise an
  \<open>IndexError\<close>, which is not an unpack error, whatever protocols are registered.
\<close>

theorem mpls_bare_stack_crashes:
  assumes "length buf = 18" "wire_type buf \<in> set ETH_TYPES_MPLS"
    and "mpls_label_init (drop 14 buf) = Inr l" "mpls_s l = Inr 1"
  shows "eth_init env buf = Inl IndexError"
proof -
  have big: "1500 < wire_type buf" and nq: "wire_type buf \<notin> set ETH_TYPES_QINQ"
    using assms(2) by (auto simp: eth_types)
  obtain h where h: "packet_unpack BE eth_base_hdr eth_base_make buf = Inr h"
    using eth_base_class.unpack_total [of buf] assms(1) by auto
  obtain tup where "mpls_as_tuple l = Inr tup"
    by (simp add: mpls_as_tuple_def bf_get_take_bit bf_locate_def mpls_bits_def bits_total_def
        starts_with_def)
  then have "parse_mpls 24 (drop 14 buf) = Inr ([(l, tup)], [])"
    using assms(1,3,4) parse_mpls.simps(2) [of 23 "drop 14 buf"] by (simp add: Let_def)
  then have "eth_unpack env eth_new buf = Inl IndexError"
    using h eth_base_pack(2) [OF h] eth_base_wire_type [OF h] big nq assms(2)
    by (subst eth_unpack.simps)
      (simp add: Let_def eth_unpack_data_def next_in_def guess_mpls_payload_def)
  then show ?thesis by (simp add: eth_init_def packet_init_def)
qed

text \<open>A registry without any class, and two frames.\<close>

definition no_types :: "nat eth_env" where
  "no_types = \<lparr>env_typesw = Map.empty, env_rev = (\<lambda>_. None), env_stp = (\<lambda>_. Inl KeyError),
     env_isis = (\<lambda>_. Inl KeyError), env_bytes = (\<lambda>_. Inr []), env_len = (\<lambda>_. Inr 0)\<rparr>"

definition example_mpls :: bytes where
  "example_mpls = [0, 0, 0, 0, 0, 0, 0, 0, 0, 0, 0, 0, 0x88, 0x47, 0, 0, 1, 64]"

theorem mpls_bare_stack_crashes_witness:
  "eth_init no_types example_mpls = Inl IndexError"
proof -
  have "mpls_label_init (drop 14 example_mpls) =
      Inr \<lparr>mpls_label_val_exp_s_ttl = 320, mpls_label_data = []\<rparr>"
    by (simp add: example_mpls_def mpls_label_init_def mpls_label_unpack_def packet_init_def
        packet_unpack_def mpls_label_hdr_def mpls_label_make_def struct_unpack_def bytes_int_def be_int_def
        ord_def)
  then show ?thesis
    by (rule mpls_bare_stack_crashes [rotated 2])
      (simp_all add: mpls_s_eq example_mpls_def wire_type_def bytes_int_def be_int_def ord_def eth_types)
qed

text \<open>
  When the payload behind a single VLAN tag is not of a registered type, packing replaces the
  type in the tag by the type of the frame: the two bytes that said what follows are lost.
\<close>

theorem vlan_inner_type_lost:
  assumes u: "eth_unpack env eth_new buf = Inr e" and w: "wire_type buf \<in> set ETH_TYPES_QINQ"
    and t: "eth_vlan_tags e = [TagQ t]" and r: "eth_data e = E_Raw d"
    and n: "vlan_q_type t \<notin> set ETH_TYPES_QINQ" "vlan_q_type t \<notin> set ETH_TYPES_MPLS"
  shows "\<exists>e'. eth_init env buf = Inr e \<and>
    eth_bytes env e = Inr (take 16 buf @ take 2 (drop 12 buf) @ drop 18 buf, e')"
proof -
  have big: "1500 < wire_type buf" using w by (auto simp: eth_types)
  obtain h e0 where h: "packet_unpack BE eth_base_hdr eth_base_make buf = Inr h"
    "e0 = eth_new\<lparr>eth_dst := eth_base_dst h, eth_src := eth_base_src h, eth_type := wire_type buf,
       eth_data := E_Raw (drop 14 buf), eth_next_type := Some (wire_type buf)\<rparr>"
    "eth_base_type h = wire_type buf" "eth_unpack_data env e0 (drop 14 buf) = Inr e"
    using eth_unpack_ii [OF u big] by blast
  obtain tags rest tup where p: "parse_vlan_tags 2 (drop 14 buf) = Inr (tags, rest)"
    "eth_dispatch env (e0\<lparr>eth_vlan_tags := map TagQ tags, eth_vlan_tuple := Some tup,
       eth_next_type := Some (vlan_q_type (last tags))\<rparr>) rest = Inr e"
    using h(2,4) w by (auto simp: eth_unpack_data_def next_in_def result_simps)
  have fin: "tags = [t] \<and> eth_mpls_labels e = [] \<and> eth_type e = wire_type buf \<and> rest = d \<and>
      eth_next_type e = Some (vlan_q_type t) \<and> eth_dispatch env e d = Inr e \<and>
      eth_vals e = [VBytes (eth_base_dst h), VBytes (eth_base_src h), VInt (eth_base_type h)]"
    using p(2)
  proof (cases rule: eth_dispatch_cases)
    case raw
    then show ?thesis
      using t r p(2) h(2,3) by (auto simp: eth_new_def eth_vals_def eth_dispatch_def result_simps)
  qed (use r in simp)
  obtain b where b: "vlan_q_init (drop 14 buf) = Inr t" "d = drop 18 buf"
    using p(1) fin by (auto simp: numeral_2_eq_2 result_simps Let_def split: if_splits)
  note tp = vlan_q_init_pack [OF b(1)]
  have vt: "take 2 (drop 14 buf) = int_bytes BE 2 (vlan_q_pri_cfi_id t)"
    "0 \<le> vlan_q_pri_cfi_id t" "vlan_q_pri_cfi_id t < 65536"
  proof -
    have "take 4 (drop 14 buf) = int_bytes BE 2 (vlan_q_pri_cfi_id t) @ int_bytes BE 2 (vlan_q_type t) \<and>
        0 \<le> vlan_q_pri_cfi_id t \<and> vlan_q_pri_cfi_id t < 65536"
      using tp by (auto simp: pack_hdr_flat vlan_q_hdr_def vlan_q_vals_def result_simps simp del: pack1.simps)
    moreover have "take 2 (drop 14 buf) = take 2 (take 4 (drop 14 buf))" by simp
    ultimately show "take 2 (drop 14 buf) = int_bytes BE 2 (vlan_q_pri_cfi_id t)"
      "0 \<le> vlan_q_pri_cfi_id t" "vlan_q_pri_cfi_id t < 65536" by simp_all
  qed
  note hp = eth_base_pack [OF h(1)]
  have wb: "take 2 (drop 12 buf) = int_bytes BE 2 (wire_type buf)" "wire_type buf < 65536"
    using hp(4,6) h(3) by (simp_all add: pack1_iff drop_take result_simps del: pack1.simps)
  have tag: "tag_pack_hdr (TagQ (t\<lparr>vlan_q_type := wire_type buf\<rparr>)) =
      Inr (take 2 (drop 14 buf) @ take 2 (drop 12 buf))"
    using vt wb big by (simp add: pack_hdr_flat vlan_q_hdr_def vlan_q_vals_def result_simps del: pack1.simps)
  have i: "eth_init env buf = Inr e"
    using u fin r n
    by (auto simp: eth_init_def packet_init_def eth_reparse_def eth_unpack_data_def next_in_def)
  have "take 12 (take 14 buf) @ drop 12 (take 14 buf) = take 14 buf" by (rule append_take_drop_id)
  then have "eth_pack_hdr env e =
      Inr (take 14 buf @ take 2 (drop 14 buf) @ take 2 (drop 12 buf),
        e\<lparr>eth_vlan_tags := [TagQ (t\<lparr>vlan_q_type := wire_type buf\<rparr>)]\<rparr>)"
    using fin t r w tag hp(1,3,4) h(3)
    by (simp add: eth_pack_hdr_def rev_type_def eth_vals_def min_def del: take_take struct_pack.simps)
  moreover have "take 14 buf @ take 2 (drop 14 buf) = take 16 buf" using take_add [of 14 2 buf] by simp
  ultimately have "eth_bytes env e = Inr (take 16 buf @ take 2 (drop 12 buf) @ drop 18 buf,
      e\<lparr>eth_vlan_tags := [TagQ (t\<lparr>vlan_q_type := wire_type buf\<rparr>)]\<rparr>)"
    using r b(2) by (simp add: eth_bytes_def eth_payload_bytes_def)
  then show ?thesis using i by blast
qed

definition example_vlan :: bytes where
  "example_vlan = [0, 0, 0, 0, 0, 0, 0, 0, 0, 0, 0, 0, 0x81, 0, 0, 5, 0x12, 0x34, 1, 2, 3]"

definition example_tag :: vlan_q where
  "example_tag = \<lparr>vlan_q_pri_cfi_id = 5, vlan_q_type = 0x1234, vlan_q_data = []\<rparr>"

lemmas bytes_eval = bytes_int_def be_int_def le_int.simps ord_def packet_unpack_def struct_unpack_def
  packet_init_def

lemma example_vlan_parse:
  "\<exists>e. eth_unpack no_types eth_new example_vlan = Inr e \<and> eth_vlan_tags e = [TagQ example_tag] \<and>
     eth_data e = E_Raw [1, 2, 3]"
proof -
  have h: "packet_unpack BE eth_base_hdr eth_base_make example_vlan =
      Inr \<lparr>eth_base_dst = [0, 0, 0, 0, 0, 0], eth_base_src = [0, 0, 0, 0, 0, 0], eth_base_type = 0x8100,
           eth_base_data = [0, 5, 0x12, 0x34, 1, 2, 3]\<rparr>"
    by (simp add: example_vlan_def eth_base_hdr_def eth_base_make_def bytes_eval)
  have t: "vlan_q_init [0, 5, 0x12, 0x34, 1, 2, 3] = Inr example_tag"
    by (simp add: vlan_q_init_def vlan_q_unpack_def vlan_q_hdr_def vlan_q_make_def bytes_eval example_tag_def)
  have "parse_vlan_tags 2 [0, 5, 0x12, 0x34, 1, 2, 3] = Inr ([example_tag], [1, 2, 3])"
    using t by (simp add: numeral_2_eq_2 Let_def example_tag_def ETH_TYPE_8021Q_def)
  moreover obtain tup where "vlan_q_as_tuple example_tag = Inr tup"
    by (simp add: vlan_q_as_tuple_def bf_get_take_bit bf_locate_def vlan_q_bits_def bits_total_def
        starts_with_def)
  ultimately show ?thesis
    using h by (subst eth_unpack.simps)
      (simp add: Let_def eth_unpack_data_def next_in_def eth_types eth_dispatch_def dispatch_def no_types_def
        example_tag_def)
qed

theorem vlan_inner_type_lost_witness:
  "\<exists>e e'. eth_init no_types example_vlan = Inr e \<and>
     eth_bytes no_types e = Inr ([0, 0, 0, 0, 0, 0, 0, 0, 0, 0, 0, 0, 0x81, 0, 0, 5, 0x81, 0, 1, 2, 3], e')"
proof -
  obtain e where e: "eth_unpack no_types eth_new example_vlan = Inr e"
    "eth_vlan_tags e = [TagQ example_tag]" "eth_data e = E_Raw [1, 2, 3]"
    using example_vlan_parse by blast
  have w: "wire_type example_vlan = 0x8100" by (simp add: wire_type_def example_vlan_def bytes_eval)
  have x: "take 16 example_vlan @ take 2 (drop 12 example_vlan) @ drop 18 example_vlan =
      [0, 0, 0, 0, 0, 0, 0, 0, 0, 0, 0, 0, 0x81, 0, 0, 5, 0x81, 0, 1, 2, 3]"
    by (simp add: example_vlan_def)
  show ?thesis
    using vlan_inner_type_lost [OF e(1) _ e(2,3)] w x by (simp add: eth_types example_tag_def)
qed

end
