(* ===== verification/Direction.thy ===== *)
theory Direction
  imports Transport
begin

text \<open>
  \<^verbatim>\<open>DirectionBuffer\<close> of \<^verbatim>\<open>dpkt/stream.py\<close>: the reassembly buffer of one direction of a TCP
  connection. Sequence numbers are kept relative to the initial one, in unbounded integers
  as in the code. The lemmas: the shape of the buffer (segments sorted, apart from each
  other and beyond the contiguous bytes, the byte count exact), which positions it holds
  after each segment, and that what it hands out is a prefix of the sender's stream.
\<close>

section \<open>State and operations\<close>

type_synonym segment = "int \<times> int \<times> bytes"

record direction =
  isn :: "int option"
  next_seq :: int
  fin_seq :: "int option"
  syn_received :: bool
  fin_received :: bool
  contiguous :: bytes
  segments :: "segment list"
  total_buffered :: int

definition new_direction :: direction where
  "new_direction = \<lparr>isn = None, next_seq = 0, fin_seq = None, syn_received = False,
     fin_received = False, contiguous = [], segments = [], total_buffered = 0\<rparr>"

definition len :: "'a list \<Rightarrow> int" where
  "len xs = int (length xs)"

definition seg_total :: "segment list \<Rightarrow> int" where
  "seg_total ss = sum_list (map (\<lambda>(_, _, d). len d) ss)"

text \<open>The cascade: move the leading segments that connect into the contiguous bytes.\<close>

fun cascade :: "bytes \<Rightarrow> int \<Rightarrow> segment list \<Rightarrow> bytes \<times> int \<times> segment list" where
  "cascade cont nxt [] = (cont, nxt, [])"
| "cascade cont nxt ((r, a, d) # ss) =
     (if r \<le> nxt then
        if nxt < r + len d
        then let new_start = nxt - r
             in cascade (cont @ py_from d new_start) (nxt + (len d - new_start)) ss
        else cascade cont nxt ss
      else (cont, nxt, (r, a, d) # ss))"

text \<open>\<open>ba_assign x i j y\<close> is the \<^verbatim>\<open>bytearray\<close> slice assignment \<^verbatim>\<open>x[i:j] = y\<close>.\<close>

definition ba_assign :: "bytes \<Rightarrow> int \<Rightarrow> int \<Rightarrow> bytes \<Rightarrow> bytes" where
  "ba_assign x i j y = py_upto x i @ y @ py_from x j"

definition overlay :: "bytes \<Rightarrow> int \<Rightarrow> bytes \<Rightarrow> bytes" where
  "overlay prev off d =
     (if off < len prev then
        let new_len = max (len prev) (off + len d);
            n0 = zeros (nat new_len);
            n1 = ba_assign n0 0 (len prev) prev
        in ba_assign n1 off (off + len d) d
      else let gap = off - len prev in prev @ zeros (nat gap) @ d)"

text \<open>
  One round of the merge loop; the list \<^verbatim>\<open>merged\<close> is kept in reverse, so that its last
  element is the head.
\<close>

fun merge_step :: "segment list \<Rightarrow> segment \<Rightarrow> segment list" where
  "merge_step [] seg = [seg]"
| "merge_step ((pr, pa, pd) # ms) (r, a, d) =
     (if r \<le> pr + len pd then (pr, pa, overlay pd (r - pr) d) # ms
      else (r, a, d) # (pr, pa, pd) # ms)"

definition merge_segments :: "segment list \<Rightarrow> segment list" where
  "merge_segments ss = rev (foldl merge_step [] ss)"

definition direction_feed :: "direction \<Rightarrow> int \<Rightarrow> int \<Rightarrow> bytes \<Rightarrow> int \<Rightarrow> direction" where
  "direction_feed b seq ack payload flags =
     (if flags AND TH_SYN \<noteq> 0 then
        let b1 = b\<lparr>isn := Some seq, syn_received := True, next_seq := 1\<rparr>
        in if payload \<noteq> []
           then b1\<lparr>contiguous := contiguous b1 @ payload, next_seq := next_seq b1 + len payload,
                   total_buffered := total_buffered b1 + len payload\<rparr>
           else b1
      else
        (case isn b of
           None \<Rightarrow> b
         | Some isn0 \<Rightarrow>
             let b1 = (if flags AND TH_FIN \<noteq> 0
                       then b\<lparr>fin_seq := Some (seq + len payload), fin_received := True\<rparr> else b)
             in if payload = [] then b1
                else
                  let rel0 = seq - isn0
                  in if rel0 + len payload \<le> next_seq b1 then b1
                     else
                       let (rel, payload') =
                             (if rel0 < next_seq b1
                              then (next_seq b1, py_from payload (next_seq b1 - rel0))
                              else (rel0, payload))
                       in if rel = next_seq b1 then
                            let (cont, nxt, ss) =
                                  cascade (contiguous b1 @ payload') (next_seq b1 + len payload') (segments b1)
                            in b1\<lparr>contiguous := cont, next_seq := nxt, segments := ss,
                                  total_buffered := len cont + seg_total ss\<rparr>
                          else
                            let ss = merge_segments
                                       (sort_key fst (segments b1 @ [(rel, ack, payload')]))
                            in b1\<lparr>segments := ss,
                                  total_buffered := len (contiguous b1) + seg_total ss\<rparr>))"

text \<open>The loop of \<^verbatim>\<open>get_data(fill_gaps=True)\<close>.\<close>

fun fill_segments :: "bytes \<Rightarrow> int \<Rightarrow> segment list \<Rightarrow> bytes" where
  "fill_segments result pos [] = result"
| "fill_segments result pos ((r, a, d) # ss) =
     (let gap = r - pos
      in if 0 < gap then fill_segments (result @ zeros (nat gap) @ d) (r + len d) ss
         else fill_segments (result @ d) (pos + len d) ss)"

definition direction_get_data :: "bool \<Rightarrow> direction \<Rightarrow> bytes \<times> direction" where
  "direction_get_data fill_gaps b =
     (if fill_gaps
      then (fill_segments (contiguous b) (next_seq b) (segments b),
            b\<lparr>contiguous := [], segments := [], total_buffered := 0\<rparr>)
      else (contiguous b,
            b\<lparr>contiguous := [], total_buffered := total_buffered b - len (contiguous b)\<rparr>))"

definition direction_is_complete :: "direction \<Rightarrow> bool" where
  "direction_is_complete b =
     (case fin_seq b of
        None \<Rightarrow> False
      | Some f \<Rightarrow> syn_received b \<and> fin_received b \<and>
          (case isn b of None \<Rightarrow> False | Some i \<Rightarrow> f - i \<le> next_seq b) \<and> segments b = [])"

section \<open>Well-formed buffers\<close>

text \<open>
  \<open>apart ss\<close>: each segment ends before the next one starts, with a gap. \<open>beyond n ss\<close>: every
  segment is not empty and starts after position \<open>n\<close>.
\<close>

definition seg_before :: "segment \<Rightarrow> segment \<Rightarrow> bool" where
  "seg_before s t \<longleftrightarrow> fst s + len (snd (snd s)) < fst t"

definition apart :: "segment list \<Rightarrow> bool" where
  "apart ss \<longleftrightarrow> sorted_wrt seg_before ss"

definition beyond :: "int \<Rightarrow> segment list \<Rightarrow> bool" where
  "beyond n ss \<longleftrightarrow> (\<forall>(r, _, d) \<in> set ss. n < r \<and> d \<noteq> [])"

definition direction_wf :: "direction \<Rightarrow> bool" where
  "direction_wf b \<longleftrightarrow>
     apart (segments b) \<and> beyond (next_seq b) (segments b) \<and>
     total_buffered b = len (contiguous b) + seg_total (segments b) \<and>
     (isn b = None \<longleftrightarrow> \<not> syn_received b) \<and> (isn b \<noteq> None \<longrightarrow> 1 \<le> next_seq b) \<and>
     (isn b = None \<longrightarrow> segments b = [] \<and> contiguous b = [])"

text \<open>The positions of a segment, and those a buffer has received.\<close>

definition seg_range :: "int \<Rightarrow> bytes \<Rightarrow> int set" where
  "seg_range r d = {r..<r + len d}"

definition seg_ranges :: "segment list \<Rightarrow> int set" where
  "seg_ranges ss = (\<Union>(r, _, d) \<in> set ss. seg_range r d)"

definition held :: "direction \<Rightarrow> int set" where
  "held b = {1..<next_seq b} \<union> seg_ranges (segments b)"

text \<open>
  \<open>fits strm r d\<close>: the bytes \<open>d\<close> are those the sender's stream \<open>strm\<close> has at relative position \<open>r\<close>;
  the first byte after the SYN has position 1.
\<close>

definition fits :: "bytes \<Rightarrow> int \<Rightarrow> bytes \<Rightarrow> bool" where
  "fits strm r d \<longleftrightarrow> 1 \<le> r \<and> take (length d) (drop (nat (r - 1)) strm) = d"

definition all_fit :: "bytes \<Rightarrow> segment list \<Rightarrow> bool" where
  "all_fit strm ss \<longleftrightarrow> (\<forall>(r, _, d) \<in> set ss. fits strm r d)"

definition stream_inv :: "bytes \<Rightarrow> bytes \<Rightarrow> direction \<Rightarrow> bool" where
  "stream_inv strm out b \<longleftrightarrow>
     direction_wf b \<and> isn b \<noteq> None \<and> all_fit strm (segments b) \<and>
     nat (next_seq b - 1) \<le> length strm \<and> out @ contiguous b = take (nat (next_seq b - 1)) strm"

lemma len_simps [simp]:
  "len [] = 0" "len (x # xs) = 1 + len xs" "len (xs @ ys) = len xs + len ys" "0 \<le> len xs"
  "nat (len xs) = length xs" "0 < len xs \<longleftrightarrow> xs \<noteq> []" "len (zeros n) = int n"
  by (simp_all add: len_def)

lemma len_drop: "0 \<le> n \<Longrightarrow> n \<le> len xs \<Longrightarrow> len (drop (nat n) xs) = len xs - n"
  by (simp add: len_def)

lemma seg_total_simps [simp]:
  "seg_total [] = 0" "seg_total ((r, a, d) # ss) = len d + seg_total ss"
  "seg_total (ss @ ts) = seg_total ss + seg_total ts" "seg_total (rev ss) = seg_total ss"
  by (simp_all add: seg_total_def rev_map [symmetric] sum_list_rev)

lemma beyond_simps [simp]:
  "beyond n []" "beyond n ((r, a, d) # ss) \<longleftrightarrow> n < r \<and> d \<noteq> [] \<and> beyond n ss"
  by (auto simp: beyond_def)

lemma beyond_mono: "beyond n ss \<Longrightarrow> m \<le> n \<Longrightarrow> beyond m ss"
  by (fastforce simp: beyond_def)

lemma all_fit_simps [simp]:
  "all_fit strm []" "all_fit strm ((r, a, d) # ss) \<longleftrightarrow> fits strm r d \<and> all_fit strm ss"
  by (auto simp: all_fit_def)

lemma seg_ranges_simps [simp]:
  "seg_ranges [] = {}" "seg_ranges ((r, a, d) # ss) = seg_range r d \<union> seg_ranges ss"
  by (auto simp: seg_ranges_def)

lemma apart_Cons [simp]:
  "apart [] \<longleftrightarrow> True"
  "apart ((r, a, d) # ss) \<longleftrightarrow> (\<forall>(r', _, _) \<in> set ss. r + len d < r') \<and> apart ss"
  by (auto simp: apart_def seg_before_def)

section \<open>Segments of the sender's stream\<close>

lemma fits_append: "1 \<le> r \<Longrightarrow> fits strm r (x @ y) \<longleftrightarrow> fits strm r x \<and> fits strm (r + len x) y"
proof -
  assume r: "1 \<le> r"
  have "nat (r + len x - 1) = length x + nat (r - 1)" using r by (simp add: len_def)
  moreover have "u @ v = x @ y \<longleftrightarrow> u = x \<and> v = y"
    if "length u \<le> length x" "length v \<le> length y" for u v
  proof
    assume e: "u @ v = x @ y"
    then have "length u + length v = length x + length y" by (metis length_append)
    then have "length u = length x" using that by linarith
    then show "u = x \<and> v = y" using e by simp
  qed simp
  ultimately show ?thesis
    using r by (simp add: fits_def take_add len_def)
qed

lemma fits_nil [simp]: "fits strm r [] \<longleftrightarrow> 1 \<le> r"
  by (simp add: fits_def)

lemma fits_start: "fits strm r d \<Longrightarrow> 1 \<le> r"
  by (simp add: fits_def)

lemma fits_split: "fits strm r d \<Longrightarrow> fits strm r (take n d) \<and> fits strm (r + int (min n (length d))) (drop n d)"
  using fits_append [of r strm "take n d" "drop n d"] fits_start [of strm r d]
  by (simp add: len_def min.commute)

lemma fits_extend:
  assumes "fits strm n d" "d \<noteq> []"
  shows "nat (n + len d - 1) \<le> length strm \<and>
    take (nat (n + len d - 1)) strm = take (nat (n - 1)) strm @ d"
proof -
  have n: "1 \<le> n" and d: "take (length d) (drop (nat (n - 1)) strm) = d"
    using assms by (auto simp: fits_def)
  have e: "nat (n + len d - 1) = nat (n - 1) + length d" using n by (simp add: len_def)
  have "length d \<le> length strm - nat (n - 1)" using arg_cong [OF d, of length] by simp
  moreover have "0 < length d" using assms(2) by simp
  ultimately have "nat (n - 1) + length d \<le> length strm" by linarith
  then show ?thesis using d by (simp add: e take_add)
qed

lemma overlay_eq:
  assumes "0 \<le> off" "off \<le> len prev"
  shows "overlay prev off d = take (nat off) prev @ d @ drop (nat off + length d) prev"
proof (cases "off < len prev")
  case True
  have "nat (max (len prev) (off + len d)) = max (length prev) (nat off + length d)"
    using assms by (auto simp: len_def max_def)
  then show ?thesis
    using True assms
    by (simp add: overlay_def ba_assign_def Let_def slice_simps nat_add_distrib zeros_def max_def)
      (auto simp: len_def)
next
  case False
  then have "off = len prev" using assms by simp
  then show ?thesis by (simp add: overlay_def Let_def zeros_def)
qed

lemma len_overlay: "0 \<le> off \<Longrightarrow> off \<le> len prev \<Longrightarrow> len (overlay prev off d) = max (len prev) (off + len d)"
  by (simp add: overlay_eq) (auto simp: len_def max_def)

lemma overlay_ne: "0 \<le> off \<Longrightarrow> off \<le> len prev \<Longrightarrow> d \<noteq> [] \<Longrightarrow> overlay prev off d \<noteq> []"
  by (simp add: overlay_eq)

lemma fits_overlay:
  assumes "fits strm r prev" "fits strm (r + off) d" "0 \<le> off" "off \<le> len prev"
  shows "fits strm r (overlay prev off d)"
proof -
  have r: "1 \<le> r" using assms(1) by (rule fits_start)
  have "fits strm r (take (nat off) prev)" using fits_split [OF assms(1)] by blast
  moreover have l: "len (take (nat off) prev) = off" using assms by (simp add: len_def)
  moreover have "fits strm (r + off + len d) (drop (nat off + length d) prev)"
  proof (cases "nat off + length d \<le> length prev")
    case True
    then show ?thesis
      using fits_split [OF assms(1), of "nat off + length d"] assms(3)
      by (simp add: len_def min_def add.assoc split: if_splits)
  next
    case False
    then show ?thesis using r assms(3) by (simp add: len_def)
  qed
  ultimately show ?thesis
    using assms r by (simp add: overlay_eq fits_append)
qed

lemma seg_range_overlay:
  assumes "0 \<le> off" "off \<le> len prev"
  shows "seg_range r (overlay prev off d) = seg_range r prev \<union> seg_range (r + off) d"
  using assms by (auto simp: seg_range_def len_overlay)

section \<open>The cascade\<close>

definition nonempty_segs :: "segment list \<Rightarrow> bool" where
  "nonempty_segs ss \<longleftrightarrow> (\<forall>(_, _, d) \<in> set ss. d \<noteq> [])"

lemma nonempty_segs_simps [simp]:
  "nonempty_segs []" "nonempty_segs ((r, a, d) # ss) \<longleftrightarrow> d \<noteq> [] \<and> nonempty_segs ss"
  by (auto simp: nonempty_segs_def)

lemma beyond_nonempty: "beyond n ss \<Longrightarrow> nonempty_segs ss"
  by (auto simp: beyond_def nonempty_segs_def)

lemma apart_beyond_tail:
  "apart ((r, a, d) # ss) \<Longrightarrow> n < r \<Longrightarrow> nonempty_segs ((r, a, d) # ss) \<Longrightarrow> beyond n ((r, a, d) # ss)"
  by (fastforce simp: beyond_def nonempty_segs_def len_def)

lemma cascade_shape:
  "cascade cont nxt ss = (cont', nxt', ss') \<Longrightarrow> apart ss \<Longrightarrow> nonempty_segs ss \<Longrightarrow>
   nxt \<le> nxt' \<and> apart ss' \<and> beyond nxt' ss'"
proof (induction cont nxt ss rule: cascade.induct)
  case (2 cont nxt r a d ss)
  show ?case
  proof (cases "r \<le> nxt")
    case True
    then show ?thesis using 2 by (auto simp: Let_def split: if_splits)
  next
    case False
    then show ?thesis using 2 apart_beyond_tail [of r a d ss nxt] by auto
  qed
qed auto

lemma cascade_cover:
  "cascade cont nxt ss = (cont', nxt', ss') \<Longrightarrow> 1 \<le> nxt \<Longrightarrow> beyond 0 ss \<Longrightarrow>
   {1..<nxt'} \<union> seg_ranges ss' = {1..<nxt} \<union> seg_ranges ss"
proof (induction cont nxt ss rule: cascade.induct)
  case (2 cont nxt r a d ss)
  show ?case
  proof (cases "r \<le> nxt")
    case True
    show ?thesis
    proof (cases "nxt < r + len d")
      case T2: True
      have "{1..<nxt'} \<union> seg_ranges ss' = {1..<nxt + (len d - (nxt - r))} \<union> seg_ranges ss"
        using 2 True T2 by (simp add: Let_def)
      also have "{1..<nxt + (len d - (nxt - r))} = {1..<nxt} \<union> seg_range r d"
        using True T2 2(4,5) by (auto simp: seg_range_def)
      finally show ?thesis by auto
    next
      case False
      have "{1..<nxt'} \<union> seg_ranges ss' = {1..<nxt} \<union> seg_ranges ss" using 2 True False by simp
      moreover have "seg_range r d \<subseteq> {1..<nxt}" using False 2(5) by (auto simp: seg_range_def)
      ultimately show ?thesis by auto
    qed
  next
    case False
    then show ?thesis using 2 by auto
  qed
qed auto

lemma cascade_content:
  "cascade cont nxt ss = (cont', nxt', ss') \<Longrightarrow> 1 \<le> nxt \<Longrightarrow> all_fit strm ss \<Longrightarrow> nonempty_segs ss \<Longrightarrow>
   nat (nxt - 1) \<le> length strm \<Longrightarrow> out @ cont = take (nat (nxt - 1)) strm \<Longrightarrow>
   all_fit strm ss' \<and> nat (nxt' - 1) \<le> length strm \<and> out @ cont' = take (nat (nxt' - 1)) strm"
proof (induction cont nxt ss rule: cascade.induct)
  case (2 cont nxt r a d ss)
  show ?case
  proof (cases "r \<le> nxt \<and> nxt < r + len d")
    case True
    define x where "x = py_from d (nxt - r)"
    have x: "x = drop (nat (nxt - r)) d" using True by (simp add: x_def py_from_nonneg)
    have "fits strm (r + int (min (nat (nxt - r)) (length d))) x"
      using fits_split [of strm r d "nat (nxt - r)"] 2(5) x by simp
    moreover have "r + int (min (nat (nxt - r)) (length d)) = nxt"
      using True by (auto simp: len_def min_def)
    ultimately have fx: "fits strm nxt x" by simp
    have lx: "len x = len d - (nxt - r)" using True by (simp add: x len_drop)
    then have "x \<noteq> []" using True by auto
    from fits_extend [OF fx this] have
      "nat (nxt + (len d - (nxt - r)) - 1) \<le> length strm"
      "out @ cont @ x = take (nat (nxt + (len d - (nxt - r)) - 1)) strm"
      using 2(8) lx by (auto simp flip: append_assoc)
    moreover have "1 \<le> nxt + (len d - (nxt - r))" using True 2(4) by simp
    ultimately show ?thesis
      using 2 True by (simp add: Let_def x_def)
  next
    case False
    then show ?thesis using 2 by (auto split: if_splits)
  qed
qed auto

section \<open>Merging\<close>

text \<open>The accumulator of the merge loop, head last: apart, and the head starts before what follows.\<close>

definition acc_ok :: "int \<Rightarrow> segment list \<Rightarrow> bool" where
  "acc_ok n acc \<longleftrightarrow> apart (rev acc) \<and> beyond n acc"

definition head_le :: "segment list \<Rightarrow> int \<Rightarrow> bool" where
  "head_le acc r \<longleftrightarrow> (case acc of [] \<Rightarrow> True | (hr, _, _) # _ \<Rightarrow> hr \<le> r)"

lemma apart_rev_Cons:
  "apart (rev (s # acc)) \<longleftrightarrow> apart (rev acc) \<and> (\<forall>t \<in> set acc. seg_before t s)"
  by (auto simp: apart_def sorted_wrt_append)

lemma merge_step_props:
  assumes "acc_ok n acc" "head_le acc r" "n < r" "d \<noteq> []"
  shows "acc_ok n (merge_step acc (r, a, d)) \<and>
    seg_ranges (merge_step acc (r, a, d)) = seg_ranges acc \<union> seg_range r d \<and>
    (all_fit strm acc \<longrightarrow> fits strm r d \<longrightarrow> all_fit strm (merge_step acc (r, a, d))) \<and>
    head_le (merge_step acc (r, a, d)) r"
proof (cases acc)
  case Nil
  then show ?thesis using assms by (simp add: acc_ok_def head_le_def)
next
  case (Cons h ms)
  obtain pr pa pd where h: "h = (pr, pa, pd)" by (cases h)
  have le: "pr \<le> r" using assms(2) Cons h by (simp add: head_le_def)
  have ok: "apart (rev ms)" "\<forall>t \<in> set ms. seg_before t (pr, pa, pd)" "n < pr" "pd \<noteq> []" "beyond n ms"
  proof -
    have "apart (rev ((pr, pa, pd) # ms))" and b: "beyond n ((pr, pa, pd) # ms)"
      using assms(1) Cons h unfolding acc_ok_def by simp_all
    then have "apart (rev ms) \<and> (\<forall>t \<in> set ms. seg_before t (pr, pa, pd))"
      using apart_rev_Cons by blast
    then show "apart (rev ms)" "\<forall>t \<in> set ms. seg_before t (pr, pa, pd)" by auto
    show "n < pr" "pd \<noteq> []" "beyond n ms" using b by auto
  qed
  show ?thesis
  proof (cases "r \<le> pr + len pd")
    case True
    then have off: "0 \<le> r - pr" "r - pr \<le> len pd" using le by auto
    have "\<forall>t \<in> set ms. seg_before t (pr, pa, overlay pd (r - pr) d)"
      using ok(2) by (auto simp: seg_before_def)
    then have "acc_ok n ((pr, pa, overlay pd (r - pr) d) # ms)"
      using ok off assms(4) unfolding acc_ok_def apart_rev_Cons by (simp add: overlay_ne)
    then show ?thesis
      using True off Cons h le by (auto simp: seg_range_overlay fits_overlay head_le_def)
  next
    case False
    have "\<forall>t \<in> set ((pr, pa, pd) # ms). seg_before t (r, a, d)"
      using ok(2) False le by (force simp: seg_before_def len_def)
    then have "acc_ok n ((r, a, d) # (pr, pa, pd) # ms)"
      using ok assms(3,4) unfolding acc_ok_def apart_rev_Cons [of "(r, a, d)"] apart_rev_Cons [of "(pr, pa, pd)"]
      by simp
    then show ?thesis using False Cons h by (auto simp: head_le_def)
  qed
qed

lemma foldl_merge_props:
  "acc_ok n acc \<Longrightarrow> sorted (map fst ss) \<Longrightarrow> (\<forall>s \<in> set ss. head_le acc (fst s)) \<Longrightarrow> beyond n ss \<Longrightarrow>
   acc_ok n (foldl merge_step acc ss) \<and>
   seg_ranges (foldl merge_step acc ss) = seg_ranges acc \<union> seg_ranges ss \<and>
   (all_fit strm acc \<longrightarrow> all_fit strm ss \<longrightarrow> all_fit strm (foldl merge_step acc ss))"
proof (induction ss arbitrary: acc)
  case (Cons s ss)
  obtain r a d where s: "s = (r, a, d)" by (cases s)
  have st: "acc_ok n (merge_step acc s)"
    "seg_ranges (merge_step acc s) = seg_ranges acc \<union> seg_range r d"
    "all_fit strm acc \<longrightarrow> fits strm r d \<longrightarrow> all_fit strm (merge_step acc s)"
    "head_le (merge_step acc s) r"
    using merge_step_props [of n acc r d a strm] Cons.prems s by auto
  have "\<forall>t \<in> set ss. head_le (merge_step acc s) (fst t)"
    using st(4) Cons.prems(2) s by (fastforce simp: head_le_def split: list.splits)
  then show ?case using Cons.IH [OF st(1)] Cons.prems st s by auto
qed simp

lemma merge_sort_props:
  fixes a :: int
  assumes "beyond n ss" "n < r" "d \<noteq> []"
  defines "ms \<equiv> merge_segments (sort_key fst (ss @ [(r, a, d)]))"
  shows "apart ms \<and> beyond n ms \<and> seg_ranges ms = seg_ranges ss \<union> seg_range r d \<and>
    (all_fit strm ss \<longrightarrow> fits strm r d \<longrightarrow> all_fit strm ms)"
proof -
  define ts where "ts = sort_key fst (ss @ [(r, a, d)])"
  have st: "set ts = insert (r, a, d) (set ss)" by (auto simp: ts_def)
  have "acc_ok n (foldl merge_step [] ts) \<and>
    seg_ranges (foldl merge_step [] ts) = seg_ranges [] \<union> seg_ranges ts \<and>
    (all_fit strm [] \<longrightarrow> all_fit strm ts \<longrightarrow> all_fit strm (foldl merge_step [] ts))"
    using assms(1-3) st
    by (intro foldl_merge_props) (auto simp: acc_ok_def head_le_def beyond_def ts_def)
  moreover have "seg_ranges ts = seg_ranges ss \<union> seg_range r d"
    using st by (auto simp: seg_ranges_def)
  moreover have "all_fit strm ts \<longleftrightarrow> all_fit strm ss \<and> fits strm r d"
    using st by (auto simp: all_fit_def)
  moreover have "all_fit strm (rev x) = all_fit strm x" "seg_ranges (rev x) = seg_ranges x"
    "beyond n (rev x) = beyond n x" for x
    by (auto simp: all_fit_def seg_ranges_def beyond_def)
  ultimately show ?thesis
    unfolding ms_def merge_segments_def ts_def [symmetric] acc_ok_def by simp
qed

section \<open>Feeding a segment\<close>

text \<open>
  What a segment without SYN does to a synchronised buffer: nothing but the FIN bookkeeping
  when it brings no new byte, otherwise the in-order or the out-of-order branch.
\<close>

definition core :: "direction \<Rightarrow> int option \<times> int \<times> bool \<times> bytes \<times> segment list \<times> int" where
  "core b = (isn b, next_seq b, syn_received b, contiguous b, segments b, total_buffered b)"

lemma core_eqs:
  "core b' = core b \<Longrightarrow> direction_wf b' = direction_wf b"
  "core b' = core b \<Longrightarrow> held b' = held b"
  "core b' = core b \<Longrightarrow> stream_inv strm out b' = stream_inv strm out b"
  by (simp_all add: core_def direction_wf_def held_def stream_inv_def)

definition trimmed :: "int \<Rightarrow> int \<Rightarrow> bytes \<Rightarrow> int \<times> bytes" where
  "trimmed nxt rel payload =
     (if rel < nxt then (nxt, py_from payload (nxt - rel)) else (rel, payload))"

lemma feed_cases:
  assumes "flags AND TH_SYN = 0" "isn b = Some i"
  obtains
    (old) "payload = [] \<or> seq - i + len payload \<le> next_seq b"
      "core (direction_feed b seq ack payload flags) = core b"
  | (in_order) d cont nxt ss where
      "next_seq b < seq - i + len payload" "seq - i \<le> next_seq b"
      "payload \<noteq> []" "trimmed (next_seq b) (seq - i) payload = (next_seq b, d)"
      "cascade (contiguous b @ d) (next_seq b + len d) (segments b) = (cont, nxt, ss)"
      "core (direction_feed b seq ack payload flags) =
        (Some i, nxt, syn_received b, cont, ss, len cont + seg_total ss)"
  | (out_of_order) ss where
      "next_seq b < seq - i" "payload \<noteq> []"
      "ss = merge_segments (sort_key fst (segments b @ [(seq - i, ack, payload)]))"
      "core (direction_feed b seq ack payload flags) =
        (Some i, next_seq b, syn_received b, contiguous b, ss, len (contiguous b) + seg_total ss)"
proof -
  define b1 where "b1 = (if flags AND TH_FIN \<noteq> 0
    then b\<lparr>fin_seq := Some (seq + len payload), fin_received := True\<rparr> else b)"
  have b1: "core b1 = core b" by (simp add: b1_def core_def)
  then have f1: "isn b1 = Some i" "next_seq b1 = next_seq b" "segments b1 = segments b"
    "contiguous b1 = contiguous b" "syn_received b1 = syn_received b"
    using assms(2) by (simp_all add: core_def)
  note unf = direction_feed_def [of b seq ack payload flags] b1_def [symmetric] assms Let_def
  consider "payload = [] \<or> seq - i + len payload \<le> next_seq b"
    | "payload \<noteq> []" "next_seq b < seq - i + len payload" "seq - i \<le> next_seq b"
    | "payload \<noteq> []" "next_seq b < seq - i + len payload" "next_seq b < seq - i"
    by linarith
  then show thesis
  proof cases
    case 1
    then have "direction_feed b seq ack payload flags = b1"
      using f1 by (auto simp: unf)
    then show ?thesis using 1 b1 old by simp
  next
    case 2
    obtain d where d: "trimmed (next_seq b) (seq - i) payload = (next_seq b, d)"
      using 2(3) by (cases "seq - i = next_seq b") (auto simp: trimmed_def)
    obtain cont nxt ss where c:
      "cascade (contiguous b @ d) (next_seq b + len d) (segments b) = (cont, nxt, ss)"
      by (cases "cascade (contiguous b @ d) (next_seq b + len d) (segments b)")
    have "direction_feed b seq ack payload flags =
      b1\<lparr>contiguous := cont, next_seq := nxt, segments := ss, total_buffered := len cont + seg_total ss\<rparr>"
      using 2 f1 d c unfolding trimmed_def by (auto simp: unf split: if_splits)
    then show ?thesis using in_order 2 d c f1 by (simp add: core_def)
  next
    case 3
    then have "\<not> seq - i < next_seq b" "seq - i \<noteq> next_seq b" by linarith+
    then have "direction_feed b seq ack payload flags =
      b1\<lparr>segments := merge_segments (sort_key fst (segments b @ [(seq - i, ack, payload)])),
         total_buffered := len (contiguous b) +
           seg_total (merge_segments (sort_key fst (segments b @ [(seq - i, ack, payload)])))\<rparr>"
      using 3 f1 by (simp add: unf)
    then show ?thesis using out_of_order 3 f1 by (simp add: core_def)
  qed
qed

lemma core_fields:
  "core b = (i, n, s, c, ss, t) \<longleftrightarrow>
   isn b = i \<and> next_seq b = n \<and> syn_received b = s \<and> contiguous b = c \<and> segments b = ss \<and>
   total_buffered b = t"
  by (auto simp: core_def)

lemma trimmed_in_order:
  assumes "trimmed n r payload = (n, d)" "n < r + len payload" "r \<le> n"
  shows "d = drop (nat (n - r)) payload" "len d = r + len payload - n" "d \<noteq> []"
proof -
  have d: "d = drop (nat (n - r)) payload"
    using assms by (auto simp: trimmed_def py_from_nonneg split: if_splits)
  then have l: "len d = r + len payload - n" using assms by (simp add: len_drop)
  then have "d \<noteq> []" using assms by auto
  with d l show "d = drop (nat (n - r)) payload" "len d = r + len payload - n" "d \<noteq> []"
    by simp_all
qed

lemma feed_wf:
  assumes "direction_wf b" "isn b = Some i" "flags AND TH_SYN = 0"
  shows "direction_wf (direction_feed b seq ack payload flags)"
  using assms(3,2)
proof (cases rule: feed_cases [where seq = seq and ack = ack and payload = payload])
  case old
  then show ?thesis using assms(1) core_eqs(1) by blast
next
  case (in_order d cont nxt ss)
  have "nonempty_segs (segments b)" "apart (segments b)" "1 \<le> next_seq b"
    using assms beyond_nonempty by (auto simp: direction_wf_def)
  then have c: "next_seq b + len d \<le> nxt" "1 \<le> next_seq b" "apart ss" "beyond nxt ss"
    using cascade_shape [OF in_order(5)] by auto
  have "0 \<le> len d" by simp
  then have "1 \<le> nxt" "apart ss" "beyond nxt ss" using c by linarith+
  then show ?thesis
    using in_order(6) assms(1,2) unfolding core_fields direction_wf_def by simp
next
  case (out_of_order ss)
  then show ?thesis
    using merge_sort_props [of "next_seq b" "segments b" "seq - i" payload ack] assms
    by (auto simp: core_fields direction_wf_def)
qed

lemma feed_held:
  assumes "direction_wf b" "isn b = Some i" "flags AND TH_SYN = 0"
  shows "held (direction_feed b seq ack payload flags) = held b \<union> (seg_range (seq - i) payload \<inter> {1..})"
  using assms(3,2)
proof (cases rule: feed_cases [where seq = seq and ack = ack and payload = payload])
  case old
  have "seg_range (seq - i) payload \<inter> {1..} \<subseteq> {1..<next_seq b}"
    using old(1) by (auto simp: seg_range_def)
  then show ?thesis using core_eqs(2) [OF old(2)] by (auto simp: held_def)
next
  case (in_order d cont nxt ss)
  note d = trimmed_in_order [OF in_order(4,1,2)]
  have n: "1 \<le> next_seq b" and bey: "beyond (next_seq b) (segments b)"
    using assms by (auto simp: direction_wf_def)
  then have "beyond 0 (segments b)" using beyond_mono by fastforce
  then have "{1..<nxt} \<union> seg_ranges ss = {1..<next_seq b + len d} \<union> seg_ranges (segments b)"
    using cascade_cover [OF in_order(5)] n by (simp add: len_def)
  also have "{1..<next_seq b + len d} = {1..<next_seq b} \<union> (seg_range (seq - i) payload \<inter> {1..})"
    using d(2) in_order(1,2) n by (auto simp: seg_range_def)
  finally show ?thesis using in_order(6) by (auto simp: held_def core_fields)
next
  case (out_of_order ss)
  have "1 \<le> next_seq b" using assms by (auto simp: direction_wf_def)
  then have "seg_range (seq - i) payload \<inter> {1..} = seg_range (seq - i) payload"
    using out_of_order(1) by (auto simp: seg_range_def)
  then show ?thesis
    using merge_sort_props [of "next_seq b" "segments b" "seq - i" payload ack] assms out_of_order
    by (auto simp: core_fields direction_wf_def held_def)
qed

lemma feed_stream:
  assumes "stream_inv strm out b" "isn b = Some i" "flags AND TH_SYN = 0"
    and "fits strm (seq - i) payload"
  shows "stream_inv strm out (direction_feed b seq ack payload flags)"
  using assms(3,2)
proof (cases rule: feed_cases [where seq = seq and ack = ack and payload = payload])
  case old
  then show ?thesis using assms(1) core_eqs(3) by blast
next
  case (in_order d cont nxt ss)
  note d = trimmed_in_order [OF in_order(4,1,2)]
  have wf: "direction_wf b" and n: "1 \<le> next_seq b" and fit: "all_fit strm (segments b)"
    and bound: "nat (next_seq b - 1) \<le> length strm"
    and out: "out @ contiguous b = take (nat (next_seq b - 1)) strm"
    using assms by (auto simp: stream_inv_def direction_wf_def)
  have "fits strm (next_seq b) d"
    using fits_split [OF assms(4), of "nat (next_seq b - (seq - i))"] in_order(1,2) d(1)
    by (simp add: len_def min_def split: if_splits)
  from fits_extend [OF this d(3)] have
    "nat (next_seq b + len d - 1) \<le> length strm"
    "out @ contiguous b @ d = take (nat (next_seq b + len d - 1)) strm"
    using out by (auto simp flip: append_assoc)
  then have "all_fit strm ss \<and> nat (nxt - 1) \<le> length strm \<and> out @ cont = take (nat (nxt - 1)) strm"
    using cascade_content [OF in_order(5), of strm out] n fit wf beyond_nonempty
    by (auto simp: direction_wf_def len_def)
  then show ?thesis
    using feed_wf [OF wf assms(2,3), of seq ack payload] in_order(6) by (simp add: stream_inv_def core_fields)
next
  case (out_of_order ss)
  have wf: "direction_wf b" using assms by (auto simp: stream_inv_def)
  then have "all_fit strm ss"
    using merge_sort_props [of "next_seq b" "segments b" "seq - i" payload ack strm] assms out_of_order
    by (auto simp: direction_wf_def stream_inv_def)
  then show ?thesis
    using feed_wf [OF wf assms(2,3), of seq ack payload] out_of_order(4) assms(1)
    by (simp add: stream_inv_def core_fields)
qed

lemma feed_isn:
  assumes "isn b = Some i" "flags AND TH_SYN = 0"
  shows "isn (direction_feed b seq ack payload flags) = Some i"
  using assms(2,1)
  by (cases rule: feed_cases [where seq = seq and ack = ack and payload = payload])
    (use assms(1) in \<open>auto simp: core_def\<close>)

lemma get_data_stream:
  assumes "stream_inv strm out b" "direction_get_data False b = (x, b')"
  shows "stream_inv strm (out @ x) b' \<and> isn b' = isn b \<and> held b' = held b"
  using assms by (auto simp: direction_get_data_def stream_inv_def direction_wf_def held_def)

lemma get_data_wf:
  assumes "direction_wf b" "direction_get_data fill b = (x, b')"
  shows "direction_wf b'"
  using assms by (auto simp: direction_get_data_def direction_wf_def split: if_splits)

lemma syn_wf:
  assumes "isn b = None" "direction_wf b" "flags AND TH_SYN \<noteq> 0"
  shows "direction_wf (direction_feed b seq ack payload flags)"
  using assms by (auto simp: direction_feed_def direction_wf_def Let_def)

section \<open>Runs\<close>

text \<open>A run of one direction: segments arrive, and data is taken out without filling gaps.\<close>

datatype dir_event = Seg int int bytes int | Take

fun dir_step :: "direction \<times> bytes \<Rightarrow> dir_event \<Rightarrow> direction \<times> bytes" where
  "dir_step (b, out) (Seg seq ack payload flags) = (direction_feed b seq ack payload flags, out)"
| "dir_step (b, out) Take = (case direction_get_data False b of (x, b') \<Rightarrow> (b', out @ x))"

definition dir_run :: "direction \<times> bytes \<Rightarrow> dir_event list \<Rightarrow> direction \<times> bytes" where
  "dir_run = foldl dir_step"

text \<open>The events a sender with initial sequence number \<open>i\<close> and stream \<open>strm\<close> can cause.\<close>

fun sent_by :: "int \<Rightarrow> bytes \<Rightarrow> dir_event \<Rightarrow> bool" where
  "sent_by i strm (Seg seq ack payload flags) = (flags AND TH_SYN = 0 \<and> fits strm (seq - i) payload)"
| "sent_by i strm Take = True"

fun event_range :: "int \<Rightarrow> dir_event \<Rightarrow> int set" where
  "event_range i (Seg seq ack payload flags) = seg_range (seq - i) payload"
| "event_range i Take = {}"

definition synced :: "int \<Rightarrow> direction" where
  "synced i = direction_feed new_direction i 0 [] TH_SYN"

lemma synced_inv: "stream_inv strm [] (synced i)" "isn (synced i) = Some i" "held (synced i) = {}"
  by (simp_all add: synced_def direction_feed_def new_direction_def TH_SYN_def stream_inv_def
      direction_wf_def held_def)

lemma dir_run_inv:
  "stream_inv strm out b \<Longrightarrow> isn b = Some i \<Longrightarrow> list_all (sent_by i strm) es \<Longrightarrow>
   dir_run (b, out) es = (b', out') \<Longrightarrow>
   stream_inv strm out' b' \<and> isn b' = Some i \<and>
   held b' = held b \<union> (\<Union>e \<in> set es. event_range i e)"
proof (induction es arbitrary: b out)
  case (Cons e es)
  show ?case
  proof (cases e)
    case (Seg seq ack payload flags)
    then have s: "flags AND TH_SYN = 0" "fits strm (seq - i) payload" using Cons.prems by auto
    have "direction_wf b" using Cons.prems(1) by (simp add: stream_inv_def)
    then have "held (direction_feed b seq ack payload flags) = held b \<union> seg_range (seq - i) payload"
      using feed_held [OF _ Cons.prems(2) s(1)] fits_start [OF s(2)] by (auto simp: seg_range_def)
    moreover have "stream_inv strm out (direction_feed b seq ack payload flags)"
      by (rule feed_stream [OF Cons.prems(1,2) s])
    moreover have "isn (direction_feed b seq ack payload flags) = Some i"
      by (rule feed_isn [OF Cons.prems(2) s(1)])
    ultimately show ?thesis
      using Cons.IH [of out "direction_feed b seq ack payload flags"] Cons.prems Seg
      by (auto simp: dir_run_def)
  next
    case Take
    obtain x b1 where g: "direction_get_data False b = (x, b1)" by fastforce
    then show ?thesis
      using Cons.IH [of "out @ x" b1] get_data_stream [OF Cons.prems(1) g] Cons.prems Take
      by (auto simp: dir_run_def)
  qed
qed (simp add: dir_run_def)

text \<open>A buffer that holds the positions \<open>1..n\<close> has them all in the contiguous part.\<close>

lemma held_contiguous:
  assumes "direction_wf b" "isn b \<noteq> None" "{1..n} \<subseteq> held b"
  shows "n < next_seq b"
proof (rule ccontr)
  assume "\<not> n < next_seq b"
  moreover have "1 \<le> next_seq b" "beyond (next_seq b) (segments b)"
    using assms by (auto simp: direction_wf_def)
  ultimately have "next_seq b \<in> held b" "beyond (next_seq b) (segments b)" using assms(3) by auto
  then show False by (fastforce simp: held_def seg_ranges_def seg_range_def beyond_def)
qed

section \<open>Properties\<close>

text \<open>
  C4: whatever segments of a sender's stream arrive, in any order, duplicated, overlapping, and
  however the application takes data out in between, the bytes handed out followed by the
  contiguous bytes still held are a prefix of the stream.
\<close>

theorem reassembly_prefix:
  assumes "list_all (sent_by i strm) es"
    and "dir_run (synced i, []) es = (b, out)"
  shows "\<exists>rest. strm = out @ contiguous b @ rest"
proof -
  have "stream_inv strm out b"
    using dir_run_inv [OF synced_inv(1,2) assms] by blast
  then have "out @ contiguous b = take (nat (next_seq b - 1)) strm" by (simp add: stream_inv_def)
  then have "strm = (out @ contiguous b) @ drop (nat (next_seq b - 1)) strm" by simp
  then show ?thesis by auto
qed

definition example_events :: "dir_event list" where
  "example_events = [Seg 104 0 (asc ''LO!'') TH_ACK, Take, Seg 103 0 (asc ''LLO'') TH_ACK,
     Seg 101 0 (asc ''HEL'') TH_ACK, Take]"

lemma example_sent: "list_all (sent_by 100 (asc ''HELLO!'')) example_events"
  by (simp add: example_events_def fits_def TH_ACK_def TH_SYN_def)

lemma example_run: "fst (dir_run (synced 100, []) example_events) = fst (dir_run (synced 100, []) example_events) \<and>
    snd (dir_run (synced 100, []) example_events) = asc ''HELLO!''"
  by (simp add: example_events_def dir_run_def synced_def direction_feed_def new_direction_def TH_SYN_def
      TH_ACK_def TH_FIN_def direction_get_data_def Let_def merge_segments_def overlay_def
      ba_assign_def py_from_def py_upto_def zeros_def)

theorem reassembly_prefix_witness:
  "\<exists>b. dir_run (synced 100, []) example_events = (b, asc ''HELLO!'') \<and>
    (\<exists>rest. asc ''HELLO!'' = asc ''HELLO!'' @ contiguous b @ rest)"
proof -
  obtain b where b: "dir_run (synced 100, []) example_events = (b, asc ''HELLO!'')"
    using example_run by (metis prod.collapse)
  show ?thesis using b reassembly_prefix [OF example_sent b] by blast
qed

text \<open>
  C5: once the segments received cover the first \<open>n\<close> positions of the stream, in whatever order,
  the first \<open>n\<close> bytes have been handed out or are contiguous; nothing has to be sent again.
\<close>

theorem reassembly_complete:
  assumes "list_all (sent_by i strm) es"
    and "dir_run (synced i, []) es = (b, out)"
    and "{1..int n} \<subseteq> (\<Union>e \<in> set es. event_range i e)"
  shows "take n (out @ contiguous b) = take n strm \<and> int n < next_seq b"
proof -
  have inv: "stream_inv strm out b" and i: "isn b = Some i"
    and h: "held b = (\<Union>e \<in> set es. event_range i e)"
    using dir_run_inv [OF synced_inv(1,2) assms(1,2)] by (auto simp: synced_inv(3))
  then have n: "int n < next_seq b"
    using held_contiguous [of b "int n"] assms(3) by (auto simp: stream_inv_def)
  have "out @ contiguous b = take (nat (next_seq b - 1)) strm" using inv by (simp add: stream_inv_def)
  then have "take n (out @ contiguous b) = take (min n (nat (next_seq b - 1))) strm" by simp
  also have "min n (nat (next_seq b - 1)) = n" using n by simp
  finally show ?thesis using n by simp
qed

theorem reassembly_complete_witness:
  "\<exists>b. dir_run (synced 100, []) example_events = (b, asc ''HELLO!'') \<and>
    take 6 (asc ''HELLO!'' @ contiguous b) = take 6 (asc ''HELLO!'') \<and> int 6 < next_seq b"
proof -
  obtain b where b: "dir_run (synced 100, []) example_events = (b, asc ''HELLO!'')"
    using example_run by (metis prod.collapse)
  have c: "{1..int 6} \<subseteq> (\<Union>e \<in> set example_events. event_range 100 e)"
    by (auto simp: example_events_def seg_range_def)
  show ?thesis using b reassembly_complete [OF example_sent b c] by blast
qed

text \<open>
  C6: feeding any segment to a buffer keeps it well formed (segments sorted, separated by gaps,
  beyond the contiguous bytes; the byte count exact), as long as a SYN comes only first.
\<close>

theorem direction_feed_wf:
  assumes "direction_wf b" and "flags AND TH_SYN = 0 \<or> isn b = None"
  shows "direction_wf (direction_feed b seq ack payload flags)"
proof (cases "isn b")
  case None
  then show ?thesis
    using assms syn_wf [OF None assms(1)] by (cases "flags AND TH_SYN = 0") (auto simp: direction_feed_def)
next
  case (Some i)
  then show ?thesis using assms feed_wf by auto
qed

theorem direction_feed_wf_witness:
  "direction_wf (direction_feed (synced 7) 20 0 [1, 2] TH_ACK)"
proof -
  have "direction_wf (synced 7)"
    by (simp add: synced_def direction_feed_def new_direction_def TH_SYN_def direction_wf_def)
  then show ?thesis by (rule direction_feed_wf) (simp add: TH_ACK_def TH_SYN_def)
qed

text \<open>
  A segment whose 32-bit sequence number has wrapped past zero lies before the initial one
  and is dropped: the reassembled data never changes again, although the stream goes on.
\<close>

theorem wrapped_segment_dropped:
  assumes "direction_wf b" "isn b = Some i" "flags AND TH_SYN = 0" "seq + len payload \<le> i"
  shows "contiguous (direction_feed b seq ack payload flags) = contiguous b \<and>
    segments (direction_feed b seq ack payload flags) = segments b \<and>
    next_seq (direction_feed b seq ack payload flags) = next_seq b"
  using assms(3,2)
proof (cases rule: feed_cases [where seq = seq and ack = ack and payload = payload])
  case old
  then show ?thesis by (simp add: core_def)
next
  case in_order
  then show ?thesis using assms by (auto simp: direction_wf_def)
next
  case out_of_order
  then show ?thesis using assms by (auto simp: direction_wf_def len_def)
qed

theorem wrapped_segment_dropped_witness:
  "contiguous (direction_feed (synced 4294967295) 0 0 [65] TH_ACK) = contiguous (synced 4294967295)"
proof -
  have "direction_wf (synced 4294967295)" "isn (synced 4294967295) = Some 4294967295"
    by (simp_all add: synced_def direction_feed_def new_direction_def TH_SYN_def direction_wf_def)
  then show ?thesis
    using wrapped_segment_dropped [of "synced 4294967295" 4294967295 TH_ACK 0 "[65]" 0]
    by (simp add: TH_ACK_def TH_SYN_def)
qed

text \<open>
  A retransmitted SYN resets the expected position, so data that was already handed out is
  handed out a second time when it is retransmitted.
\<close>

theorem syn_retransmission_duplicates:
  "snd (dir_run (synced 0, []) [Seg 1 0 (asc ''HELLO'') TH_ACK, Take, Seg 0 0 [] TH_SYN,
     Seg 1 0 (asc ''HELLO'') TH_ACK, Take]) = asc ''HELLOHELLO''"
  by (simp add: dir_run_def synced_def direction_feed_def new_direction_def TH_SYN_def
      TH_ACK_def TH_FIN_def direction_get_data_def Let_def)

text \<open>
  Filling gaps empties the buffer but keeps the expected position, so a segment that fills the
  gap later is handed out after the bytes that follow it in the stream.
\<close>

theorem fill_gaps_reorders:
  "(case direction_get_data True (direction_feed (synced 0) 4 0 (asc ''LO'') TH_ACK) of
      (x, b) \<Rightarrow> (x, fst (direction_get_data True (direction_feed b 1 0 (asc ''HELLO'') TH_ACK)))) =
   ([0, 0, 0] @ asc ''LO'', asc ''HELLO'')"
  by (simp add: synced_def direction_feed_def new_direction_def TH_SYN_def TH_ACK_def TH_FIN_def
      direction_get_data_def Let_def merge_segments_def zeros_def numeral_3_eq_3)

end
