(* ===== verification/Reassembler.thy ===== *)
theory Reassembler
  imports Ip Direction "HOL-Library.AList" "HOL-Library.Char_ord" "HOL-Library.List_Lexorder"
    "HOL-Library.Product_Lexorder"
begin

text \<open>
  \<^verbatim>\<open>Connection\<close> and \<^verbatim>\<open>StreamReassembler\<close> of \<^verbatim>\<open>dpkt/stream.py\<close>: the table of TCP connections,
  keyed by the two end points in order, the choice of a direction for each packet, delivery to
  the registered callbacks, eviction and lookup. The dictionary is an association list in
  insertion order; the calls of callbacks are the list of events a feed returns. A callback is
  the client's code: it is a name here, and is assumed to leave the reassembler alone.
\<close>

section \<open>Connections\<close>

type_synonym endpoint = "string \<times> int"
type_synonym conn_ident = "string \<times> int \<times> string \<times> int"

record connection =
  conn_src_ip :: string
  conn_src_port :: int
  conn_dst_ip :: string
  conn_dst_port :: int
  c2s :: direction
  s2c :: direction
  client_isn :: "int option"
  server_isn :: "int option"

definition new_connection :: "string \<Rightarrow> int \<Rightarrow> string \<Rightarrow> int \<Rightarrow> connection" where
  "new_connection si sp di dp = \<lparr>conn_src_ip = si, conn_src_port = sp, conn_dst_ip = di,
     conn_dst_port = dp, c2s = new_direction, s2c = new_direction, client_isn = None, server_isn = None\<rparr>"

definition conn_id :: "connection \<Rightarrow> conn_ident" where
  "conn_id c = (conn_src_ip c, conn_src_port c, conn_dst_ip c, conn_dst_port c)"

definition conn_is_closed :: "connection \<Rightarrow> bool" where
  "conn_is_closed c \<longleftrightarrow> direction_is_complete (c2s c) \<and> direction_is_complete (s2c c)"

definition conn_feed ::
    "connection \<Rightarrow> string \<Rightarrow> int \<Rightarrow> int \<Rightarrow> int \<Rightarrow> bytes \<Rightarrow> int \<Rightarrow> connection" where
  "conn_feed c src sport seq ack data flags =
     (if src = conn_src_ip c \<and> sport = conn_src_port c
      then c\<lparr>c2s := direction_feed (c2s c) seq ack data flags\<rparr>
      else c\<lparr>s2c := direction_feed (s2c c) seq ack data flags\<rparr>)"

text \<open>\<^verbatim>\<open>merged_data\<close> sorts by relative position, and client before server at the same one.\<close>

datatype side = C2S | S2C

fun side_rank :: "side \<Rightarrow> nat" where
  "side_rank C2S = 0"
| "side_rank S2C = 1"

instantiation side :: linorder
begin

definition less_eq_side :: "side \<Rightarrow> side \<Rightarrow> bool" where
  "less_eq_side a b \<longleftrightarrow> side_rank a \<le> side_rank b"

definition less_side :: "side \<Rightarrow> side \<Rightarrow> bool" where
  "less_side a b \<longleftrightarrow> side_rank a < side_rank b"

instance
proof
  fix a b :: side
  show "a \<le> b \<Longrightarrow> b \<le> a \<Longrightarrow> a = b"
    by (cases a; cases b) (auto simp: less_eq_side_def)
qed (auto simp: less_eq_side_def less_side_def)

end

type_synonym merge_item = "side \<times> int \<times> int \<times> bytes"

definition side_items :: "side \<Rightarrow> direction \<Rightarrow> merge_item list" where
  "side_items s b =
     (if contiguous b \<noteq> [] then [(s, next_seq b - len (contiguous b), 0, contiguous b)] else []) @
     map (\<lambda>(r, a, d). (s, r, a, d)) (segments b)"

fun merge_items :: "bool \<Rightarrow> (side \<Rightarrow> int option) \<Rightarrow> bytes \<Rightarrow> merge_item list \<Rightarrow> bytes" where
  "merge_items fg pos result [] = result"
| "merge_items fg pos result ((s, r, a, d) # items) =
     (case pos s of
        None \<Rightarrow> merge_items fg (pos(s := Some (max 0 (r + len d)))) (result @ d) items
      | Some p \<Rightarrow>
          if p < r \<and> \<not> fg then merge_items fg pos result items
          else
            let result1 = (if p < r then result @ zeros (nat (r - p)) else result);
                overlap = max 0 (p - r);
                result2 = (if overlap < len d then result1 @ py_from d overlap else result1)
            in merge_items fg (pos(s := Some (max p (r + len d)))) result2 items)"

definition clear_direction :: "direction \<Rightarrow> direction" where
  "clear_direction b = b\<lparr>contiguous := [], segments := [], total_buffered := 0\<rparr>"

definition conn_merged_data :: "bool \<Rightarrow> connection \<Rightarrow> bytes \<times> connection" where
  "conn_merged_data fg c =
     (let items = side_items C2S (c2s c) @ side_items S2C (s2c c)
      in if items = [] then ([], c)
         else
           (merge_items fg (\<lambda>_. None) [] (sort_key (\<lambda>(s, r, a, d). (r, s)) items),
            c\<lparr>c2s := clear_direction (c2s c), s2c := clear_direction (s2c c)\<rparr>))"

section \<open>The reassembler\<close>

record 'cb reassembler =
  max_connections :: int
  max_buffer_per_dir :: int
  output_mode :: string
  ra_fill_gaps :: bool
  connections :: "(conn_ident \<times> connection) list"
  callbacks :: "'cb list"

type_synonym 'cb event = "'cb \<times> connection \<times> bytes"

definition new_reassembler :: "int \<Rightarrow> int \<Rightarrow> string \<Rightarrow> bool \<Rightarrow> 'cb reassembler" where
  "new_reassembler mc mb mode fg = \<lparr>max_connections = mc, max_buffer_per_dir = mb,
     output_mode = mode, ra_fill_gaps = fg, connections = [], callbacks = []\<rparr>"

definition on_data :: "'cb \<Rightarrow> 'cb reassembler \<Rightarrow> 'cb reassembler" where
  "on_data cb r = r\<lparr>callbacks := callbacks r @ [cb]\<rparr>"

text \<open>\<^verbatim>\<open>socket.inet_ntoa\<close>: dotted decimal of exactly four bytes.\<close>

definition nat_str :: "nat \<Rightarrow> string" where
  "nat_str n = dec_digits (num_digits n) n"

definition inet_ntoa :: "bytes \<Rightarrow> string result" where
  "inet_ntoa b = (if length b = 4 then Inr (join_str ''.'' (map (\<lambda>x. nat_str (unat x)) b)) else Inl OtherError)"

definition conn_key :: "endpoint \<Rightarrow> endpoint \<Rightarrow> conn_ident" where
  "conn_key a b = (if a \<le> b then (fst a, snd a, fst b, snd b) else (fst b, snd b, fst a, snd a))"

definition drained :: "connection \<Rightarrow> bool" where
  "drained c \<longleftrightarrow> contiguous (c2s c) = [] \<and> segments (c2s c) = [] \<and>
     contiguous (s2c c) = [] \<and> segments (s2c c) = []"

definition held_bytes :: "connection \<Rightarrow> int" where
  "held_bytes c = total_buffered (c2s c) - len (contiguous (c2s c)) + total_buffered (s2c c) -
     len (contiguous (s2c c))"

text \<open>Python's \<^verbatim>\<open>max\<close> with a key keeps the first of several maximal elements.\<close>

definition first_max :: "('a \<Rightarrow> int) \<Rightarrow> 'a \<Rightarrow> 'a list \<Rightarrow> 'a" where
  "first_max f = foldl (\<lambda>m x. if f m < f x then x else m)"

definition evict_one :: "'cb reassembler \<Rightarrow> 'cb reassembler" where
  "evict_one r =
     (case find (\<lambda>(k, c). conn_is_closed c \<and> drained c) (connections r) of
        Some (k, _) \<Rightarrow> r\<lparr>connections := AList.delete k (connections r)\<rparr>
      | None \<Rightarrow>
          (case find (\<lambda>(k, c). conn_is_closed c) (connections r) of
             Some (k, _) \<Rightarrow> r\<lparr>connections := AList.delete k (connections r)\<rparr>
           | None \<Rightarrow>
               (case connections r of
                  [] \<Rightarrow> r
                | e # es \<Rightarrow>
                    let worst = first_max (held_bytes \<circ> snd) e es
                    in r\<lparr>connections := AList.delete (fst worst) (connections r)\<rparr>)))"

text \<open>The connection of a key, created when missing, after an eviction when the table is full.\<close>

definition reasm_conn :: "conn_ident \<Rightarrow> 'cb reassembler \<Rightarrow> connection \<times> 'cb reassembler" where
  "reasm_conn k r =
     (case map_of (connections r) k of
        Some c \<Rightarrow> (c, r)
      | None \<Rightarrow>
          let r1 = (if max_connections r \<le> len (connections r) then evict_one r else r);
              c = (case k of (si, sp, di, dp) \<Rightarrow> new_connection si sp di dp)
          in (c, r1\<lparr>connections := AList.update k c (connections r1)\<rparr>))"

definition emit :: "'cb list \<Rightarrow> connection \<Rightarrow> bytes list \<Rightarrow> 'cb event list" where
  "emit cbs c chunks = concat (map (\<lambda>cb. map (\<lambda>d. (cb, c, d)) (filter (\<lambda>d. d \<noteq> []) chunks)) cbs)"

definition limit_direction :: "int \<Rightarrow> bool \<Rightarrow> direction \<Rightarrow> direction" where
  "limit_direction mb fg b = (if mb < total_buffered b then snd (direction_get_data fg b) else b)"

text \<open>The output stage of \<^verbatim>\<open>feed\<close>: the connection after delivery, and the events.\<close>

definition deliver :: "'cb reassembler \<Rightarrow> connection \<Rightarrow> connection \<times> 'cb event list" where
  "deliver r c =
     (if output_mode r = ''separate'' then
        let (data_c2s, b1) = direction_get_data (ra_fill_gaps r) (c2s c);
            (data_s2c, b2) = direction_get_data (ra_fill_gaps r) (s2c c);
            c' = c\<lparr>c2s := b1, s2c := b2\<rparr>
        in (c', emit (callbacks r) c' [data_c2s, data_s2c])
      else
        let (data, c') = conn_merged_data (ra_fill_gaps r) c
        in (c', emit (callbacks r) c' [data]))"

definition reasm_feed ::
    "'cb reassembler \<Rightarrow> 'd ip \<Rightarrow> tcp \<Rightarrow> ('cb reassembler \<times> connection \<times> 'cb event list) result" where
  "reasm_feed r ip t =
     rbind (inet_ntoa (ip_src ip)) (\<lambda>src.
     rbind (inet_ntoa (ip_dst ip)) (\<lambda>dst.
       let a = (src, tcp_sport t); b = (dst, tcp_dport t);
           k = conn_key a b;
           (c, r1) = reasm_conn k r
       in rbind (tcp_flags t) (\<lambda>flags.
            let c1 = (if src = conn_src_ip c \<and> tcp_sport t = conn_src_port c
                      then c\<lparr>c2s := direction_feed (c2s c) (tcp_seq t) (tcp_ack t) (tcp_data t) flags\<rparr>
                      else c\<lparr>s2c := direction_feed (s2c c) (tcp_seq t) (tcp_ack t) (tcp_data t) flags\<rparr>);
                (c2, evs) = deliver r1 c1;
                c3 = c2\<lparr>c2s := limit_direction (max_buffer_per_dir r1) (ra_fill_gaps r1) (c2s c2),
                        s2c := limit_direction (max_buffer_per_dir r1) (ra_fill_gaps r1) (s2c c2)\<rparr>
            in Inr (r1\<lparr>connections := AList.update k c3 (connections r1)\<rparr>, c3, evs))))"

definition reasm_find ::
    "'cb reassembler \<Rightarrow> string option \<Rightarrow> int option \<Rightarrow> string option \<Rightarrow> int option \<Rightarrow> connection option" where
  "reasm_find r src sport dst dport =
     (case (src, sport, dst, dport) of
        (Some s, Some sp, Some d, Some dp) \<Rightarrow> map_of (connections r) (conn_key (s, sp) (d, dp))
      | _ \<Rightarrow>
          map_option snd (find (\<lambda>((k0, k1, k2, k3), c).
              (src = None \<or> Some k0 = src) \<and> (sport = None \<or> Some k1 = sport) \<and>
              (dst = None \<or> Some k2 = dst) \<and> (dport = None \<or> Some k3 = dport)) (connections r)))"

definition reasm_getitem :: "'cb reassembler \<Rightarrow> conn_ident \<Rightarrow> connection result" where
  "reasm_getitem r k = (case map_of (connections r) k of None \<Rightarrow> Inl KeyError | Some c \<Rightarrow> Inr c)"

definition reasm_contains :: "'cb reassembler \<Rightarrow> conn_ident \<Rightarrow> bool" where
  "reasm_contains r k \<longleftrightarrow> k \<in> fst ` set (connections r)"

definition reasm_iter :: "'cb reassembler \<Rightarrow> conn_ident list" where
  "reasm_iter r = map fst (connections r)"

definition reasm_len :: "'cb reassembler \<Rightarrow> nat" where
  "reasm_len r = length (connections r)"

text \<open>A run over a list of packets; an exception stops it.\<close>

fun reasm_run ::
    "'cb reassembler \<Rightarrow> ('d ip \<times> tcp) list \<Rightarrow> ('cb reassembler \<times> 'cb event list) result" where
  "reasm_run r [] = Inr (r, [])"
| "reasm_run r ((ip, t) # ps) =
     rbind (reasm_feed r ip t) (\<lambda>(r1, c, evs).
       rbind (reasm_run r1 ps) (\<lambda>(r2, evs2). Inr (r2, evs @ evs2)))"

section \<open>Addresses and keys\<close>

lemma dec_digits_no_dot: "CHR ''.'' \<notin> set (dec_digits k n)"
proof (induction k arbitrary: n)
  case (Suc k)
  have "char_of (48 + n mod 10) \<noteq> CHR ''.''"
  proof
    assume "char_of (48 + n mod 10) = CHR ''.''"
    then have "of_char (char_of (48 + n mod 10) :: char) = (of_char (CHR ''.'') :: nat)" by simp
    then show False by simp
  qed
  then show ?case using Suc by auto
qed simp

lemma nat_str_no_dot: "CHR ''.'' \<notin> set (nat_str n)"
  using dec_digits_no_dot by (simp add: nat_str_def)

lemma dec_digits_value:
  "dec_digits k n = dec_digits l m \<Longrightarrow> n < 10 ^ k \<Longrightarrow> m < 10 ^ l \<Longrightarrow> n = m"
proof (induction k arbitrary: n l m)
  case 0
  then show ?case by (cases l) auto
next
  case (Suc k)
  then obtain l' where l: "l = Suc l'" by (cases l) auto
  have e: "dec_digits k (n div 10) = dec_digits l' (m div 10)"
    "char_of (48 + n mod 10) = (char_of (48 + m mod 10) :: char)"
    using Suc.prems(1) l by auto
  have "n div 10 = m div 10"
    using Suc.IH [OF e(1)] Suc.prems(2,3) l by (auto simp: less_mult_imp_div_less algebra_simps)
  moreover have "n mod 10 = m mod 10"
    using arg_cong [OF e(2), of "of_char :: char \<Rightarrow> nat"] by simp
  ultimately show ?case by (metis div_mult_mod_eq)
qed

lemma num_digits_bound: "n < 10 ^ num_digits n"
proof (induction n rule: num_digits.induct)
  case (1 n)
  then show ?case by (subst num_digits.simps) (auto simp: less_mult_imp_div_less)
qed

lemma nat_str_inject: "nat_str n = nat_str m \<longleftrightarrow> n = m"
  using dec_digits_value [OF _ num_digits_bound num_digits_bound] by (auto simp: nat_str_def)

lemma no_sep_append_inject:
  "c \<notin> set x \<Longrightarrow> c \<notin> set y \<Longrightarrow> x @ c # u = y @ c # v \<longleftrightarrow> x = y \<and> u = v"
proof (induction x arbitrary: y)
  case Nil
  then show ?case by (cases y) auto
next
  case (Cons a x)
  then show ?case by (cases y) auto
qed

lemma inet_ntoa_inject:
  assumes "inet_ntoa x = Inr s" "inet_ntoa y = Inr s"
  shows "x = y"
proof -
  have "length x = 4" "length y = 4" using assms by (auto simp: inet_ntoa_def split: if_splits)
  then obtain a b c d a' b' c' d' where "x = [a, b, c, d]" "y = [a', b', c', d']"
    by (auto simp: numeral_eq_Suc length_Suc_conv)
  then show ?thesis
    using assms nat_str_no_dot
    by (auto simp: inet_ntoa_def no_sep_append_inject nat_str_inject word_unat_eq_iff)
qed

lemma conn_key_sym: "conn_key a b = conn_key b a"
  by (cases a; cases b) (auto simp: conn_key_def)

lemma conn_key_inject: "conn_key a b = conn_key c d \<longleftrightarrow> {a, b} = {c, d}"
  by (cases a; cases b; cases c; cases d) (auto simp: conn_key_def doubleton_eq_iff)

definition key_ordered :: "conn_ident \<Rightarrow> bool" where
  "key_ordered k = (case k of (si, sp, di, dp) \<Rightarrow> (si, sp) \<le> (di, dp))"

lemma conn_key_ordered: "key_ordered (conn_key a b)"
  by (cases a; cases b) (auto simp: conn_key_def key_ordered_def)

section \<open>The invariant of the table\<close>

definition count_ok :: "direction \<Rightarrow> bool" where
  "count_ok b \<longleftrightarrow> total_buffered b = len (contiguous b) + seg_total (segments b)"

definition conn_ok :: "conn_ident \<Rightarrow> connection \<Rightarrow> bool" where
  "conn_ok k c \<longleftrightarrow> conn_id c = k \<and> key_ordered k \<and> count_ok (c2s c) \<and> count_ok (s2c c)"

definition reasm_inv :: "'cb reassembler \<Rightarrow> bool" where
  "reasm_inv r \<longleftrightarrow> distinct (map fst (connections r)) \<and> (\<forall>(k, c) \<in> set (connections r). conn_ok k c) \<and>
     len (connections r) \<le> max 1 (max_connections r)"

lemma count_ok_new [simp]: "count_ok new_direction"
  by (simp add: count_ok_def new_direction_def)

lemma count_ok_feed: "count_ok b \<Longrightarrow> count_ok (direction_feed b seq ack payload flags)"
  by (auto simp: count_ok_def direction_feed_def Let_def split: option.splits prod.splits)

lemma count_ok_get: "count_ok b \<Longrightarrow> direction_get_data fg b = (x, b') \<Longrightarrow> count_ok b'"
  by (auto simp: count_ok_def direction_get_data_def split: if_splits)

lemma count_ok_clear [simp]: "count_ok (clear_direction b)"
  by (simp add: count_ok_def clear_direction_def)

text \<open>Taking data out twice is taking it out once, so the buffer limit has nothing to do.\<close>

lemma get_data_idem: "direction_get_data fg b = (x, b') \<Longrightarrow> snd (direction_get_data fg b') = b'"
  by (auto simp: direction_get_data_def split: if_splits)

lemma get_data_clear: "snd (direction_get_data fg (clear_direction b)) = clear_direction b"
  by (auto simp: direction_get_data_def clear_direction_def)

lemma get_data_empty:
  "contiguous b = [] \<Longrightarrow> segments b = [] \<Longrightarrow> count_ok b \<Longrightarrow> snd (direction_get_data fg b) = b"
  by (auto simp: direction_get_data_def count_ok_def)

lemma count_ok_merged:
  "count_ok (c2s c) \<Longrightarrow> count_ok (s2c c) \<Longrightarrow> conn_merged_data fg c = (x, c') \<Longrightarrow>
   count_ok (c2s c') \<and> count_ok (s2c c') \<and> conn_id c' = conn_id c"
  by (auto simp: conn_merged_data_def Let_def conn_id_def split: if_splits)

lemma deliver_ok:
  assumes "conn_ok k c" "deliver r c = (c', evs)"
  shows "conn_ok k c'"
proof (cases "output_mode r = ''separate''")
  case True
  obtain x b1 y b2 where g: "direction_get_data (ra_fill_gaps r) (c2s c) = (x, b1)"
    "direction_get_data (ra_fill_gaps r) (s2c c) = (y, b2)" by fastforce
  then show ?thesis
    using assms True count_ok_get by (auto simp: deliver_def conn_ok_def conn_id_def Let_def)
next
  case False
  then show ?thesis
    using assms count_ok_merged [of c "ra_fill_gaps r"]
    by (auto simp: deliver_def conn_ok_def Let_def split: prod.splits)
qed

text \<open>After delivery the limit check changes nothing, whatever the limit.\<close>

lemma deliver_limit:
  assumes "deliver r c = (c', evs)" "conn_ok k c"
  shows "limit_direction mb (ra_fill_gaps r) (c2s c') = c2s c' \<and>
    limit_direction mb (ra_fill_gaps r) (s2c c') = s2c c'"
proof (cases "output_mode r = ''separate''")
  case True
  obtain x b1 y b2 where g: "direction_get_data (ra_fill_gaps r) (c2s c) = (x, b1)"
    "direction_get_data (ra_fill_gaps r) (s2c c) = (y, b2)" by fastforce
  then show ?thesis
    using assms True get_data_idem by (auto simp: deliver_def limit_direction_def Let_def)
next
  case False
  have "side_items C2S (c2s c) @ side_items S2C (s2c c) = [] \<Longrightarrow>
    contiguous (c2s c) = [] \<and> segments (c2s c) = [] \<and> contiguous (s2c c) = [] \<and> segments (s2c c) = []"
    by (auto simp: side_items_def split: if_splits)
  then show ?thesis
    using assms False get_data_clear get_data_empty
    by (auto simp: deliver_def conn_merged_data_def Let_def limit_direction_def conn_ok_def
        simp del: append_is_Nil_conv split: if_splits)
qed

text \<open>Eviction removes exactly one connection of a table that has one.\<close>

lemma first_max_in: "first_max f e es \<in> set (e # es)"
  unfolding first_max_def by (induction es arbitrary: e) auto

lemma evict_one_delete:
  assumes "connections r \<noteq> []"
  shows "\<exists>k \<in> fst ` set (connections r).
    evict_one r = r\<lparr>connections := AList.delete k (connections r)\<rparr> \<and>
    ((\<exists>c. (k, c) \<in> set (connections r) \<and> conn_is_closed c) \<or>
     (\<forall>(k, c) \<in> set (connections r). \<not> conn_is_closed c))"
proof -
  obtain e es where e: "connections r = e # es" using assms by (cases "connections r") auto
  have fin: "(k, c) \<in> set (connections r) \<and> conn_is_closed c"
    if "find (\<lambda>(k, c). conn_is_closed c \<and> P c) (connections r) = Some (k, c)" for P k c
    using that by (auto simp: find_Some_iff in_set_conv_nth)
  consider (drained) k c where "find (\<lambda>(k, c). conn_is_closed c \<and> drained c) (connections r) = Some (k, c)"
    | (closed) k c where "find (\<lambda>(k, c). conn_is_closed c \<and> drained c) (connections r) = None"
        "find (\<lambda>(k, c). conn_is_closed c) (connections r) = Some (k, c)"
    | (live) "find (\<lambda>(k, c). conn_is_closed c \<and> drained c) (connections r) = None"
        "find (\<lambda>(k, c). conn_is_closed c) (connections r) = None"
    by (cases "find (\<lambda>(k, c). conn_is_closed c \<and> drained c) (connections r)";
        cases "find (\<lambda>(k, c). conn_is_closed c) (connections r)"; force)
  then show ?thesis
  proof cases
    case drained
    then have "evict_one r = r\<lparr>connections := AList.delete k (connections r)\<rparr>" by (simp add: evict_one_def)
    then show ?thesis using fin [OF drained] by (metis fst_conv image_eqI)
  next
    case closed
    then have "evict_one r = r\<lparr>connections := AList.delete k (connections r)\<rparr>" by (simp add: evict_one_def)
    moreover have "(k, c) \<in> set (connections r) \<and> conn_is_closed c"
      using fin [of "\<lambda>_. True"] closed(2) by simp
    ultimately show ?thesis by (metis fst_conv image_eqI)
  next
    case live
    let ?w = "first_max (held_bytes \<circ> snd) e es"
    have "?w \<in> set (connections r)" using first_max_in [of "held_bytes \<circ> snd" e es] e by simp
    then have "fst ?w \<in> fst ` set (connections r)" by (rule imageI)
    moreover have "evict_one r = r\<lparr>connections := AList.delete (fst ?w) (connections r)\<rparr>"
      using live by (simp add: evict_one_def Let_def e)
    moreover have "\<forall>(k, c) \<in> set (connections r). \<not> conn_is_closed c"
      using live(2) by (auto simp only: find_None_iff split: prod.splits)
    ultimately show ?thesis by blast
  qed
qed

lemma length_delete: "distinct (map fst xs) \<Longrightarrow> k \<in> fst ` set xs \<Longrightarrow> Suc (length (AList.delete k xs)) = length xs"
proof (induction xs)
  case (Cons x xs)
  show ?case
  proof (cases "fst x = k")
    case True
    then have "k \<notin> fst ` set xs" using Cons.prems by auto
    then show ?thesis using True by simp
  next
    case False
    then show ?thesis using Cons by auto
  qed
qed simp

lemma set_delete_subset: "set (AList.delete k xs) \<subseteq> set xs"
  by (induction xs) auto

lemma evict_one_props:
  assumes "connections r \<noteq> []" "distinct (map fst (connections r))"
  shows "Suc (length (connections (evict_one r))) = length (connections r) \<and>
    distinct (map fst (connections (evict_one r))) \<and>
    set (connections (evict_one r)) \<subseteq> set (connections r)"
proof -
  obtain k where k: "k \<in> fst ` set (connections r)"
    "evict_one r = r\<lparr>connections := AList.delete k (connections r)\<rparr>"
    using evict_one_delete [OF assms(1)] by blast
  then show ?thesis
    using length_delete [OF assms(2) k(1)] distinct_delete [OF assms(2)] set_delete_subset by simp
qed

lemma evict_one_fields [simp]:
  "max_connections (evict_one r) = max_connections r" "output_mode (evict_one r) = output_mode r"
  "max_buffer_per_dir (evict_one r) = max_buffer_per_dir r" "callbacks (evict_one r) = callbacks r"
  "ra_fill_gaps (evict_one r) = ra_fill_gaps r"
  by (auto simp: evict_one_def Let_def split: option.splits list.splits)

lemma length_update: "length (AList.update k v xs) = (if k \<in> fst ` set xs then length xs else Suc (length xs))"
  by (induction xs) auto

lemma set_update: "set (AList.update k v xs) \<subseteq> insert (k, v) (set xs)"
  by (induction xs) auto

lemma new_connection_ok: "key_ordered k \<Longrightarrow> conn_ok k (case k of (si, sp, di, dp) \<Rightarrow> new_connection si sp di dp)"
  by (cases k) (simp add: conn_ok_def conn_id_def new_connection_def)

lemma reasm_conn_inv:
  assumes "reasm_inv r" "key_ordered k" "reasm_conn k r = (c, r')"
  shows "reasm_inv r' \<and> conn_ok k c \<and> map_of (connections r') k = Some c \<and>
    max_connections r' = max_connections r \<and> output_mode r' = output_mode r \<and>
    ra_fill_gaps r' = ra_fill_gaps r \<and> callbacks r' = callbacks r"
proof (cases "map_of (connections r) k")
  case (Some d)
  then have "(k, d) \<in> set (connections r)" by (rule map_of_SomeD)
  then show ?thesis using assms Some by (auto simp: reasm_conn_def reasm_inv_def)
next
  case None
  let ?r1 = "if max_connections r \<le> len (connections r) then evict_one r else r"
  have d: "distinct (map fst (connections ?r1))" and s: "set (connections ?r1) \<subseteq> set (connections r)"
    using assms(1) evict_one_props [of r] by (cases "connections r"; auto simp: reasm_inv_def evict_one_def)+
  have l: "len (connections ?r1) < max 1 (max_connections r)"
    using assms(1) evict_one_props [of r]
    by (cases "connections r") (auto simp: reasm_inv_def evict_one_def len_def)
  have k: "k \<notin> fst ` set (connections ?r1)" using None s by (auto simp: map_of_eq_None_iff)
  have c: "conn_ok k c" "r' = ?r1\<lparr>connections := AList.update k c (connections ?r1)\<rparr>"
    using assms(2,3) None new_connection_ok [of k] by (auto simp: reasm_conn_def Let_def)
  have "len (AList.update k c (connections ?r1)) \<le> max 1 (max_connections r)"
    using k l by (simp add: len_def length_update)
  moreover have "\<forall>(k, c) \<in> set (AList.update k c (connections ?r1)). conn_ok k c"
    using set_update [of k c "connections ?r1"] s assms(1) c(1) by (fastforce simp: reasm_inv_def)
  ultimately show ?thesis
    using c d by (auto simp: reasm_inv_def distinct_update update_conv')
qed

text \<open>What a feed does, with the limit check gone.\<close>

lemma reasm_feed_cases:
  assumes "reasm_feed r ip t = Inr (r', c', evs)" "reasm_inv r"
  obtains src dst k c r1 c1 where
    "inet_ntoa (ip_src ip) = Inr src" "inet_ntoa (ip_dst ip) = Inr dst"
    "k = conn_key (src, tcp_sport t) (dst, tcp_dport t)" "reasm_conn k r = (c, r1)"
    "reasm_inv r1" "conn_ok k c" "conn_ok k c1" "conn_ok k c'"
    "c1 = conn_feed c src (tcp_sport t) (tcp_seq t) (tcp_ack t) (tcp_data t) (take_bit 9 (tcp_off_flags t))"
    "deliver r1 c1 = (c', evs)" "r' = r1\<lparr>connections := AList.update k c' (connections r1)\<rparr>"
proof -
  obtain src dst where a: "inet_ntoa (ip_src ip) = Inr src" "inet_ntoa (ip_dst ip) = Inr dst"
    using assms(1) by (auto simp: reasm_feed_def result_simps)
  define k where "k = conn_key (src, tcp_sport t) (dst, tcp_dport t)"
  obtain c r1 where c: "reasm_conn k r = (c, r1)" by fastforce
  have ko: "key_ordered k" by (simp add: k_def conn_key_ordered)
  have inv: "reasm_inv r1" "conn_ok k c" using reasm_conn_inv [OF assms(2) ko c] by auto
  define c1 where "c1 = conn_feed c src (tcp_sport t) (tcp_seq t) (tcp_ack t) (tcp_data t)
    (take_bit 9 (tcp_off_flags t))"
  have ok1: "conn_ok k c1"
    using inv(2) by (auto simp: c1_def conn_feed_def conn_ok_def conn_id_def count_ok_feed)
  obtain c2 ev2 where d: "deliver r1 c1 = (c2, ev2)" by fastforce
  have ok2: "conn_ok k c2" by (rule deliver_ok [OF ok1 d])
  have "c2\<lparr>c2s := limit_direction (max_buffer_per_dir r1) (ra_fill_gaps r1) (c2s c2),
            s2c := limit_direction (max_buffer_per_dir r1) (ra_fill_gaps r1) (s2c c2)\<rparr> = c2"
    using deliver_limit [OF d ok1] by simp
  then have "r' = r1\<lparr>connections := AList.update k c2 (connections r1)\<rparr>" "c' = c2" "evs = ev2"
    using assms(1) a c d unfolding k_def
    by (auto simp: reasm_feed_def Let_def tcp_flags_eq c1_def conn_feed_def split: if_splits)
  then show ?thesis using that a c inv ok1 ok2 d k_def c1_def by metis
qed

lemma reasm_feed_inv:
  assumes "reasm_feed r ip t = Inr (r', c', evs)" "reasm_inv r"
  shows "reasm_inv r' \<and> max_connections r' = max_connections r"
  using assms
proof (cases rule: reasm_feed_cases)
  case (1 src dst k c r1 c1)
  have m: "map_of (connections r1) k = Some c" "max_connections r1 = max_connections r"
    using reasm_conn_inv [OF assms(2) _ 1(4)] conn_key_ordered 1(3) by auto
  then have "k \<in> fst ` set (connections r1)" using map_of_SomeD by force
  moreover have "\<forall>(k, c) \<in> set (AList.update k c' (connections r1)). conn_ok k c"
    using set_update [of k c' "connections r1"] 1 by (fastforce simp: reasm_inv_def)
  ultimately show ?thesis
    using 1 m by (auto simp: reasm_inv_def distinct_update length_update len_def)
qed

text \<open>The connection a key has before a feed: the one in the table, or a new one.\<close>

definition conn_before :: "'cb reassembler \<Rightarrow> conn_ident \<Rightarrow> connection" where
  "conn_before r k = fst (reasm_conn k r)"

text \<open>
  In separate mode without gap filling a feed is, on each direction of the connection, a run of
  the direction: the segment if the packet comes from that side, then taking the data.
\<close>

lemma feed_separate:
  assumes "reasm_feed r ip t = Inr (r', c', evs)" "reasm_inv r"
    and "output_mode r = ''separate''" "\<not> ra_fill_gaps r"
    and "inet_ntoa (ip_src ip) = Inr src" "inet_ntoa (ip_dst ip) = Inr dst"
    and "k = conn_key (src, tcp_sport t) (dst, tcp_dport t)"
    and "seg = [Seg (tcp_seq t) (tcp_ack t) (tcp_data t) (take_bit 9 (tcp_off_flags t))]"
    and "from_c = ((src, tcp_sport t) = (fst k, fst (snd k)))"
    and "dir_run (c2s (conn_before r k), []) ((if from_c then seg else []) @ [Take]) = (b1, x1)"
    and "dir_run (s2c (conn_before r k), []) ((if from_c then [] else seg) @ [Take]) = (b2, x2)"
  shows "c2s c' = b1 \<and> s2c c' = b2 \<and> evs = emit (callbacks r) c' [x1, x2] \<and>
    map_of (connections r') k = Some c' \<and> reasm_inv r' \<and> callbacks r' = callbacks r \<and>
    output_mode r' = output_mode r \<and> ra_fill_gaps r' = ra_fill_gaps r"
proof -
  obtain src' dst' k' c r1 c1 where f:
    "inet_ntoa (ip_src ip) = Inr src'" "inet_ntoa (ip_dst ip) = Inr dst'"
    "k' = conn_key (src', tcp_sport t) (dst', tcp_dport t)" "reasm_conn k' r = (c, r1)"
    "reasm_inv r1" "conn_ok k' c" "conn_ok k' c1" "conn_ok k' c'"
    "c1 = conn_feed c src' (tcp_sport t) (tcp_seq t) (tcp_ack t) (tcp_data t) (take_bit 9 (tcp_off_flags t))"
    "deliver r1 c1 = (c', evs)" "r' = r1\<lparr>connections := AList.update k' c' (connections r1)\<rparr>"
    using assms(1,2) by (rule reasm_feed_cases)
  have e: "src' = src" "dst' = dst" "k' = k" using f assms(5-7) by auto
  have cb: "c = conn_before r k" using f(4) e by (simp add: conn_before_def)
  have m: "output_mode r1 = ''separate''" "\<not> ra_fill_gaps r1" "callbacks r1 = callbacks r"
    "output_mode r1 = output_mode r" "ra_fill_gaps r1 = ra_fill_gaps r"
    using reasm_conn_inv [OF assms(2) _ f(4)] conn_key_ordered f(3) assms(3,4) by auto
  have id: "conn_id c = k" using f(6) e by (simp add: conn_ok_def)
  have from_c: "from_c \<longleftrightarrow> src = conn_src_ip c \<and> tcp_sport t = conn_src_port c"
    using id assms(9) by (auto simp: conn_id_def)
  have "reasm_inv r'" using reasm_feed_inv [OF assms(1,2)] by simp
  then show ?thesis
    using assms(8,10,11) f(9-11) m from_c e cb
    by (auto simp: deliver_def conn_feed_def dir_run_def direction_get_data_def Let_def update_conv'
        split: if_splits)
qed

section \<open>One sender\<close>

text \<open>
  Packets of one sender: all from end point \<open>a\<close> to end point \<open>b\<close>, with segments of the
  stream \<open>strm\<close> whose initial sequence number is \<open>i\<close>.
\<close>

fun packet_of :: "endpoint \<Rightarrow> endpoint \<Rightarrow> 'd ip \<times> tcp \<Rightarrow> bool" where
  "packet_of a b (ip, t) \<longleftrightarrow>
     inet_ntoa (ip_src ip) = Inr (fst a) \<and> tcp_sport t = snd a \<and>
     inet_ntoa (ip_dst ip) = Inr (fst b) \<and> tcp_dport t = snd b"

fun segment_of :: "'d ip \<times> tcp \<Rightarrow> dir_event" where
  "segment_of (ip, t) = Seg (tcp_seq t) (tcp_ack t) (tcp_data t) (take_bit 9 (tcp_off_flags t))"

definition event_bytes :: "'cb event list \<Rightarrow> bytes" where
  "event_bytes evs = concat (map (\<lambda>(_, _, d). d) evs)"

definition sender_dir :: "endpoint \<Rightarrow> endpoint \<Rightarrow> connection \<Rightarrow> direction" where
  "sender_dir a b c = (if a \<le> b then c2s c else s2c c)"

definition other_dir :: "endpoint \<Rightarrow> endpoint \<Rightarrow> connection \<Rightarrow> direction" where
  "other_dir a b c = (if a \<le> b then s2c c else c2s c)"

lemma event_bytes_simps [simp]:
  "event_bytes [] = []" "event_bytes (evs @ evs') = event_bytes evs @ event_bytes evs'"
  by (simp_all add: event_bytes_def)

lemma idle_take [simp]: "dir_run (new_direction, []) [Take] = (new_direction, [])"
  by (simp add: dir_run_def direction_get_data_def new_direction_def)

lemma dir_run_out: "dir_run (b, out) es = (b', out') \<Longrightarrow> \<exists>z. dir_run (b, []) es = (b', z) \<and> out' = out @ z"
proof (induction es arbitrary: b' out' rule: rev_induct)
  case (snoc e es)
  obtain b1 out1 where r: "dir_run (b, out) es = (b1, out1)" by fastforce
  then obtain z where "dir_run (b, []) es = (b1, z)" "out1 = out @ z" using snoc.IH by blast
  then show ?case
    using snoc.prems r by (cases e) (auto simp: dir_run_def split: prod.splits)
qed (simp add: dir_run_def)

lemma feed_one_sender:
  assumes "packet_of a b (ip, t)" "reasm_inv r" "output_mode r = ''separate''" "\<not> ra_fill_gaps r"
    and "callbacks r = [cb]" "other_dir a b (conn_before r (conn_key a b)) = new_direction"
    and "dir_run (sender_dir a b (conn_before r (conn_key a b)), []) [segment_of (ip, t), Take] = (d, x)"
  shows "\<exists>r' c' evs. reasm_feed r ip t = Inr (r', c', evs) \<and> event_bytes evs = x \<and>
    sender_dir a b c' = d \<and> other_dir a b c' = new_direction \<and> conn_before r' (conn_key a b) = c' \<and>
    reasm_inv r' \<and> callbacks r' = [cb] \<and> output_mode r' = ''separate'' \<and> \<not> ra_fill_gaps r'"
proof -
  let ?k = "conn_key a b"
  have "is_ok (reasm_feed r ip t)"
    using assms(1) by (simp add: reasm_feed_def Let_def tcp_flags_eq split: prod.splits)
  then obtain r' c' evs where f: "reasm_feed r ip t = Inr (r', c', evs)"
    by (cases "reasm_feed r ip t") auto
  have k: "?k = conn_key (fst a, tcp_sport t) (fst b, tcp_dport t)" using assms(1) by auto
  have fc: "((fst a, tcp_sport t) = (fst ?k, fst (snd ?k))) = (a \<le> b)"
    using assms(1) by (cases a; cases b) (auto simp: conn_key_def)
  obtain b1 x1 where d1: "dir_run (c2s (conn_before r ?k), []) ((if a \<le> b then [segment_of (ip, t)] else []) @ [Take]) = (b1, x1)"
    by fastforce
  obtain b2 x2 where d2: "dir_run (s2c (conn_before r ?k), []) ((if a \<le> b then [] else [segment_of (ip, t)]) @ [Take]) = (b2, x2)"
    by fastforce
  have r: "c2s c' = b1 \<and> s2c c' = b2 \<and> evs = emit (callbacks r) c' [x1, x2] \<and>
    map_of (connections r') ?k = Some c' \<and> reasm_inv r' \<and> callbacks r' = callbacks r \<and>
    output_mode r' = output_mode r \<and> ra_fill_gaps r' = ra_fill_gaps r"
    by (rule feed_separate [OF f assms(2-4) _ _ k refl]) (use assms(1) fc d1 d2 in auto)
  have e: "event_bytes (emit [cb] c' [u, v]) = u @ v" for u v
    by (simp add: event_bytes_def emit_def)
  show ?thesis
    using f r d1 d2 assms(3-7) e
    by (cases "a \<le> b") (auto simp: sender_dir_def other_dir_def conn_before_def reasm_conn_def)
qed

lemma dir_run_two: "dir_run s [e, e'] = s' \<Longrightarrow> dir_run s (e # e' # es) = dir_run s' es"
  by (simp add: dir_run_def)

lemma run_one_sender:
  assumes "list_all (packet_of a b) ps" "reasm_inv r" "output_mode r = ''separate''" "\<not> ra_fill_gaps r"
    and "callbacks r = [cb]" "other_dir a b (conn_before r (conn_key a b)) = new_direction"
    and "dir_run (sender_dir a b (conn_before r (conn_key a b)), [])
           (concat (map (\<lambda>p. [segment_of p, Take]) ps)) = (d, x)"
  shows "\<exists>r' evs. reasm_run r ps = Inr (r', evs) \<and> event_bytes evs = x \<and>
    sender_dir a b (conn_before r' (conn_key a b)) = d \<and> reasm_inv r'"
  using assms
proof (induction ps arbitrary: r d x)
  case Nil
  then show ?case by (auto simp: dir_run_def)
next
  case (Cons p ps)
  obtain ip t where p: "p = (ip, t)" by fastforce
  obtain d1 x1 where d1: "dir_run (sender_dir a b (conn_before r (conn_key a b)), []) [segment_of (ip, t), Take] = (d1, x1)"
    by fastforce
  obtain r1 c1 ev1 where f: "reasm_feed r ip t = Inr (r1, c1, ev1)" "event_bytes ev1 = x1"
    "sender_dir a b c1 = d1" "other_dir a b c1 = new_direction" "conn_before r1 (conn_key a b) = c1"
    "reasm_inv r1" "callbacks r1 = [cb]" "output_mode r1 = ''separate''" "\<not> ra_fill_gaps r1"
    using feed_one_sender [OF _ Cons.prems(2-6) d1] Cons.prems(1) p by auto
  obtain d2 x2 where d2: "dir_run (d1, []) (concat (map (\<lambda>p. [segment_of p, Take]) ps)) = (d2, x2)"
    by fastforce
  have "dir_run (d1, x1) (concat (map (\<lambda>p. [segment_of p, Take]) ps)) = (d, x)"
    using Cons.prems(7) dir_run_two [OF d1] p by simp
  then have "d = d2" "x = x1 @ x2" using dir_run_out [of d1 x1] d2 by fastforce+
  moreover have "\<exists>r' evs. reasm_run r1 ps = Inr (r', evs) \<and> event_bytes evs = x2 \<and>
    sender_dir a b (conn_before r' (conn_key a b)) = d2 \<and> reasm_inv r'"
    using Cons.IH [OF _ f(6,8,9,7)] Cons.prems(1) f(3-5) d2 by auto
  ultimately show ?case using f(1,2) p by auto
qed

lemma conn_before_new:
  assumes "map_of (connections r) k = None"
  shows "c2s (conn_before r k) = new_direction" "s2c (conn_before r k) = new_direction"
  using assms by (cases k; simp add: conn_before_def reasm_conn_def Let_def new_connection_def)+

lemma syn_take:
  assumes "flags AND TH_SYN \<noteq> 0"
  shows "dir_run (new_direction, []) [Seg i ack [] flags, Take] = (synced i, [])"
  using assms by (simp add: dir_run_def synced_def direction_feed_def new_direction_def TH_SYN_def
      direction_get_data_def)

lemma run_takes_all:
  assumes "dir_run (b, out) (concat (map (\<lambda>p. [segment_of p, Take]) ps)) = (b', out')" "contiguous b = []"
  shows "contiguous b' = []"
  using assms
proof (induction ps arbitrary: b out)
  case (Cons p ps)
  then show ?case
    by (cases p) (simp add: dir_run_def direction_get_data_def)
qed (simp add: dir_run_def)

lemma one_sender_delivery:
  assumes "reasm_inv r" "output_mode r = ''separate''" "\<not> ra_fill_gaps r" "callbacks r = [cb]"
    and "map_of (connections r) (conn_key a b) = None"
    and "list_all (packet_of a b) (syn # ps)"
    and "segment_of syn = Seg i ack [] flags" "flags AND TH_SYN \<noteq> 0"
    and "list_all (\<lambda>p. sent_by i strm (segment_of p)) ps"
  shows "\<exists>r' evs rest. reasm_run r (syn # ps) = Inr (r', evs) \<and> strm = event_bytes evs @ rest \<and>
    (\<forall>n. {1..int n} \<subseteq> (\<Union>p \<in> set ps. event_range i (segment_of p)) \<longrightarrow>
       take n (event_bytes evs) = take n strm)"
proof -
  let ?es = "concat (map (\<lambda>p. [segment_of p, Take]) ps)"
  have nd: "sender_dir a b (conn_before r (conn_key a b)) = new_direction"
    "other_dir a b (conn_before r (conn_key a b)) = new_direction"
    using conn_before_new [OF assms(5)] by (auto simp: sender_dir_def other_dir_def)
  obtain d x where d: "dir_run (synced i, []) ?es = (d, x)" by fastforce
  have "dir_run (new_direction, []) (concat (map (\<lambda>p. [segment_of p, Take]) (syn # ps))) = (d, x)"
    using d dir_run_two [OF syn_take [OF assms(8), of i ack]] assms(7) by simp
  then obtain r' evs where run: "reasm_run r (syn # ps) = Inr (r', evs)" "event_bytes evs = x"
    using run_one_sender [OF assms(6,1-4) nd(2)] nd(1) by auto
  have sent: "list_all (sent_by i strm) ?es"
    using assms(9) by (auto simp: list_all_iff)
  have inv: "stream_inv strm x d" "isn d = Some i" "held d = (\<Union>e \<in> set ?es. event_range i e)"
    using dir_run_inv [OF synced_inv(1,2) sent d] by (auto simp: synced_inv(3))
  have "contiguous d = []"
    using run_takes_all [OF d] by (simp add: synced_def direction_feed_def new_direction_def TH_SYN_def)
  then have x: "x = take (nat (next_seq d - 1)) strm" using inv(1) by (simp add: stream_inv_def)
  have "take n x = take n strm" if "{1..int n} \<subseteq> (\<Union>p \<in> set ps. event_range i (segment_of p))" for n
  proof -
    have "{1..int n} \<subseteq> held d" using that inv(3) by auto
    then have "int n < next_seq d"
      using held_contiguous inv(1,2) by (auto simp: stream_inv_def)
    then have "min n (nat (next_seq d - 1)) = n" by simp
    then show ?thesis by (simp add: x)
  qed
  moreover have "strm = x @ drop (nat (next_seq d - 1)) strm" by (simp add: x)
  ultimately show ?thesis using run by blast
qed

section \<open>Example packets\<close>

definition example_ip :: "bytes \<Rightarrow> bytes \<Rightarrow> bytes ip" where
  "example_ip src dst = ip_make (map VInt [69, 0, 20, 0, 0, 64, 6, 0] @ [VBytes src, VBytes dst]) []"

definition example_tcp :: "int \<Rightarrow> int \<Rightarrow> bytes \<Rightarrow> tcp" where
  "example_tcp seq flags d = tcp_make (map VInt [1000, 80, seq, 0, 20480 + flags, 0, 0, 0]) d"

definition example_packet :: "int \<Rightarrow> int \<Rightarrow> bytes \<Rightarrow> bytes ip \<times> tcp" where
  "example_packet seq flags d = (example_ip [10, 0, 0, 1] [10, 0, 0, 2], example_tcp seq flags d)"

definition example_reassembler :: "nat reassembler" where
  "example_reassembler = on_data 0 (new_reassembler 4 100 ''separate'' False)"

lemma example_ntoa:
  "inet_ntoa [10, 0, 0, 1] = Inr ''10.0.0.1''" "inet_ntoa [10, 0, 0, 2] = Inr ''10.0.0.2''"
  by (simp_all add: inet_ntoa_def nat_str_def num_digits.simps char_of_def bit_Suc_0_iff)

lemma example_packet_of: "packet_of (''10.0.0.1'', 1000) (''10.0.0.2'', 80) (example_packet seq flags d)"
  by (simp add: example_packet_def example_ip_def example_tcp_def ip_make_def tcp_make_def example_ntoa)

lemma example_segment: "segment_of (example_packet seq flags d) = Seg seq 0 d (take_bit 9 (20480 + flags))"
  by (simp add: example_packet_def example_tcp_def tcp_make_def)

lemma example_state:
  "reasm_inv example_reassembler" "output_mode example_reassembler = ''separate''"
  "\<not> ra_fill_gaps example_reassembler" "callbacks example_reassembler = [0]"
  "connections example_reassembler = []"
  by (simp_all add: example_reassembler_def on_data_def new_reassembler_def reasm_inv_def)

section \<open>Properties\<close>



text \<open>
  C7: whatever packets arrive, the table never holds more than \<open>max_connections\<close> connections (one
  when that is not positive), its keys are distinct, and every connection is under the key
  that its own end points give, the smaller one first.
\<close>

theorem reassembler_table_bounded:
  assumes "connections r = []" "reasm_run r ps = Inr (r', evs)"
  shows "reasm_len r' \<le> nat (max 1 (max_connections r)) \<and> distinct (reasm_iter r') \<and>
    (\<forall>(k, c) \<in> set (connections r'). conn_id c = k \<and> key_ordered k)"
proof -
  have "reasm_inv r" using assms(1) by (simp add: reasm_inv_def)
  moreover have "reasm_inv r \<Longrightarrow> reasm_run r ps = Inr (r', evs) \<Longrightarrow>
      reasm_inv r' \<and> max_connections r' = max_connections r" for r
  proof (induction ps arbitrary: r evs)
    case (Cons p ps)
    obtain ip t where "p = (ip, t)" by fastforce
    then show ?case using Cons reasm_feed_inv by (fastforce simp: result_simps)
  qed simp
  ultimately have "reasm_inv r'" "max_connections r' = max_connections r" using assms(2) by blast+
  then show ?thesis by (auto simp: reasm_inv_def reasm_len_def reasm_iter_def len_def conn_ok_def)
qed

theorem reassembler_table_bounded_witness:
  "\<exists>r evs. reasm_run example_reassembler [example_packet 100 2 [], example_packet 101 16 [65]] = Inr (r, evs) \<and>
     reasm_len r \<le> 4 \<and> distinct (reasm_iter r)"
proof -
  let ?ps = "[example_packet 100 2 [], example_packet 101 16 [65]]"
  have "is_ok (reasm_run example_reassembler ?ps)"
    using example_packet_of [of 100 2 "[]"] example_packet_of [of 101 16 "[65]"]
    by (simp add: reasm_feed_def example_packet_def Let_def tcp_flags_eq split: prod.splits)
  then obtain r evs where "reasm_run example_reassembler ?ps = Inr (r, evs)"
    by (cases "reasm_run example_reassembler ?ps") auto
  then show ?thesis
    using reassembler_table_bounded [OF example_state(5)]
    by (fastforce simp: example_reassembler_def on_data_def new_reassembler_def)
qed

text \<open>
  The limit \<open>max_buffer_per_dir\<close> has no effect: feeding a packet gives the same connection,
  the same deliveries and the same table whatever the limit is.
\<close>

theorem buffer_limit_no_effect:
  assumes "reasm_inv r"
  shows "reasm_feed (r\<lparr>max_buffer_per_dir := m\<rparr>) ip t =
    rbind (reasm_feed r ip t) (\<lambda>(r', c, evs). Inr (r'\<lparr>max_buffer_per_dir := m\<rparr>, c, evs))"
proof (cases "\<exists>src dst. inet_ntoa (ip_src ip) = Inr src \<and> inet_ntoa (ip_dst ip) = Inr dst")
  case False
  then show ?thesis
    by (cases "inet_ntoa (ip_src ip)"; cases "inet_ntoa (ip_dst ip)") (auto simp: reasm_feed_def)
next
  case True
  then obtain src dst where a: "inet_ntoa (ip_src ip) = Inr src" "inet_ntoa (ip_dst ip) = Inr dst" by blast
  define k where "k = conn_key (src, tcp_sport t) (dst, tcp_dport t)"
  obtain c r1 where c: "reasm_conn k r = (c, r1)" by fastforce
  have ev: "evict_one (r\<lparr>max_buffer_per_dir := m\<rparr>) = (evict_one r)\<lparr>max_buffer_per_dir := m\<rparr>"
    by (auto simp: evict_one_def Let_def split: option.splits list.splits)
  have c': "reasm_conn k (r\<lparr>max_buffer_per_dir := m\<rparr>) = (c, r1\<lparr>max_buffer_per_dir := m\<rparr>)"
    using c ev by (auto simp: reasm_conn_def Let_def split: option.splits)
  define c1 where "c1 = conn_feed c src (tcp_sport t) (tcp_seq t) (tcp_ack t) (tcp_data t)
    (take_bit 9 (tcp_off_flags t))"
  have "conn_ok k c" using reasm_conn_inv [OF assms _ c] conn_key_ordered k_def by auto
  then have ok1: "conn_ok k c1"
    by (auto simp: c1_def conn_feed_def conn_ok_def conn_id_def count_ok_feed)
  obtain c2 evs where d: "deliver r1 c1 = (c2, evs)" by fastforce
  have d': "deliver (r1\<lparr>max_buffer_per_dir := m\<rparr>) c1 = (c2, evs)"
    using d by (cases "output_mode r1 = ''separate''") (simp_all add: deliver_def Let_def)
  show ?thesis
    using a c c' d d' deliver_limit [OF d ok1]
    unfolding reasm_feed_def k_def [symmetric]
    by (simp add: Let_def tcp_flags_eq k_def [symmetric] c1_def conn_feed_def split: if_splits)
qed

theorem buffer_limit_no_effect_witness:
  "\<exists>r c evs. reasm_feed (example_reassembler\<lparr>max_buffer_per_dir := 2\<rparr>)
       (example_ip [10, 0, 0, 1] [10, 0, 0, 2]) (example_tcp 100 2 (asc ''HELLO'')) = Inr (r, c, evs) \<and>
     reasm_feed example_reassembler (example_ip [10, 0, 0, 1] [10, 0, 0, 2])
       (example_tcp 100 2 (asc ''HELLO'')) = Inr (r\<lparr>max_buffer_per_dir := 100\<rparr>, c, evs)"
proof -
  let ?ip = "example_ip [10, 0, 0, 1] [10, 0, 0, 2]" and ?t = "example_tcp 100 2 (asc ''HELLO'')"
  have "is_ok (reasm_feed example_reassembler ?ip ?t)"
    using example_packet_of [of 100 2 "asc ''HELLO''"]
    by (simp add: reasm_feed_def example_packet_def Let_def tcp_flags_eq split: prod.splits)
  then obtain r c evs where f: "reasm_feed example_reassembler ?ip ?t = Inr (r, c, evs)"
    by (cases "reasm_feed example_reassembler ?ip ?t") auto
  have "reasm_feed (example_reassembler\<lparr>max_buffer_per_dir := 100\<rparr>) ?ip ?t = Inr (r\<lparr>max_buffer_per_dir := 100\<rparr>, c, evs)"
    using buffer_limit_no_effect [OF example_state(1), of 100 ?ip ?t] f by simp
  moreover have "example_reassembler\<lparr>max_buffer_per_dir := 100\<rparr> = example_reassembler"
    by (simp add: example_reassembler_def on_data_def new_reassembler_def)
  ultimately show ?thesis
    using buffer_limit_no_effect [OF example_state(1), of 2 ?ip ?t] f by auto
qed

text \<open>
  Eviction never drops a live connection while a closed one is in the table, and it removes
  exactly one connection of a table that is not empty.
\<close>

theorem evict_one_prefers_closed:
  assumes "distinct (map fst (connections r))" "(k, c) \<in> set (connections r)" "conn_is_closed c"
  shows "Suc (reasm_len (evict_one r)) = reasm_len r \<and>
    (\<forall>(k', c') \<in> set (connections r). \<not> conn_is_closed c' \<longrightarrow> (k', c') \<in> set (connections (evict_one r)))"
proof -
  have ne: "connections r \<noteq> []" using assms(2) by auto
  obtain k1 c1 where d: "(k1, c1) \<in> set (connections r)" "conn_is_closed c1"
    "evict_one r = r\<lparr>connections := AList.delete k1 (connections r)\<rparr>"
    using evict_one_delete [OF ne] assms(2,3) by fast
  have "(k', c') \<in> set (AList.delete k1 (connections r))"
    if k': "(k', c') \<in> set (connections r)" "\<not> conn_is_closed c'" for k' c'
  proof -
    have "k' \<noteq> k1" using k' d(1,2) assms(1) by (auto dest: eq_key_imp_eq_value)
    then show ?thesis using k' by (simp add: AList.delete_eq)
  qed
  then show ?thesis
    using d evict_one_props [OF ne assms(1)] by (auto simp: reasm_len_def)
qed

definition closed_direction :: direction where
  "closed_direction = new_direction\<lparr>isn := Some 0, fin_seq := Some 1, syn_received := True,
     fin_received := True, next_seq := 1\<rparr>"

definition example_full :: "nat reassembler" where
  "example_full = example_reassembler\<lparr>connections :=
     [((''a'', 1, ''b'', 2), new_connection ''a'' 1 ''b'' 2),
      ((''c'', 3, ''d'', 4), (new_connection ''c'' 3 ''d'' 4)\<lparr>c2s := closed_direction, s2c := closed_direction\<rparr>)]\<rparr>"

theorem evict_one_prefers_closed_witness:
  "reasm_len (evict_one example_full) = 1 \<and>
   ((''a'', 1, ''b'', 2), new_connection ''a'' 1 ''b'' 2) \<in> set (connections (evict_one example_full))"
proof -
  have "direction_is_complete closed_direction"
    by (simp add: closed_direction_def new_direction_def direction_is_complete_def)
  then have c: "conn_is_closed ((new_connection ''c'' 3 ''d'' 4)\<lparr>c2s := closed_direction, s2c := closed_direction\<rparr>)"
    by (simp add: conn_is_closed_def)
  have live: "\<not> conn_is_closed (new_connection ''a'' 1 ''b'' 2)"
    by (simp add: conn_is_closed_def new_connection_def direction_is_complete_def new_direction_def)
  have "distinct (map fst (connections example_full))" by (simp add: example_full_def)
  moreover have "((''c'', 3, ''d'', 4), (new_connection ''c'' 3 ''d'' 4)\<lparr>c2s := closed_direction,
      s2c := closed_direction\<rparr>) \<in> set (connections example_full)" by (simp add: example_full_def)
  ultimately show ?thesis
    using evict_one_prefers_closed [of example_full] c live by (fastforce simp: example_full_def reasm_len_def)
qed

text \<open>
  Two packets between valid IPv4 addresses are put on the same connection exactly when they
  have the same two end points, in either order.
\<close>

theorem same_connection_iff:
  assumes "inet_ntoa a1 = Inr s1" "inet_ntoa b1 = Inr d1" "inet_ntoa a2 = Inr s2" "inet_ntoa b2 = Inr d2"
  shows "conn_key (s1, p1) (d1, q1) = conn_key (s2, p2) (d2, q2) \<longleftrightarrow>
    {(a1, p1), (b1, q1)} = {(a2, p2), (b2, q2)}"
proof -
  have e: "s = s' \<longleftrightarrow> x = x'" if "inet_ntoa x = Inr s" "inet_ntoa x' = Inr s'" for x x' s s'
    using that inet_ntoa_inject by auto
  show ?thesis
    using e [OF assms(1,3)] e [OF assms(1,4)] e [OF assms(2,3)] e [OF assms(2,4)]
    unfolding conn_key_inject doubleton_eq_iff by auto
qed

theorem same_connection_iff_witness:
  "conn_key (''10.0.0.1'', 1000) (''10.0.0.2'', 80) = conn_key (''10.0.0.2'', 80) (''10.0.0.1'', 1000)"
  using same_connection_iff [OF example_ntoa(1,2) example_ntoa(2,1), of 1000 80 80 1000] by auto

text \<open>
  After a feed the connection is found again under its end points, in either order.
\<close>

theorem find_after_feed:
  assumes "reasm_inv r" "reasm_feed r ip t = Inr (r', c, evs)"
    and "inet_ntoa (ip_src ip) = Inr src" "inet_ntoa (ip_dst ip) = Inr dst"
  shows "reasm_find r' (Some src) (Some (tcp_sport t)) (Some dst) (Some (tcp_dport t)) = Some c \<and>
    reasm_find r' (Some dst) (Some (tcp_dport t)) (Some src) (Some (tcp_sport t)) = Some c \<and>
    reasm_contains r' (conn_id c)"
  using assms(2,1)
proof (cases rule: reasm_feed_cases)
  case (1 src' dst' k c0 r1 c1)
  then have k: "k = conn_key (src, tcp_sport t) (dst, tcp_dport t)" "conn_id c = k"
    using assms(3,4) by (auto simp: conn_ok_def)
  then have "map_of (connections r') k = Some c" using 1 by (simp add: update_conv')
  then show ?thesis
    using k conn_key_sym by (auto simp: reasm_find_def reasm_contains_def dest: map_of_SomeD intro: rev_image_eqI)
qed

theorem find_after_feed_witness:
  "\<exists>r c evs. reasm_feed example_reassembler (example_ip [10, 0, 0, 1] [10, 0, 0, 2])
       (example_tcp 100 2 (asc ''HELLO'')) = Inr (r, c, evs) \<and>
     reasm_find r (Some ''10.0.0.2'') (Some 80) (Some ''10.0.0.1'') (Some 1000) = Some c"
proof -
  let ?ip = "example_ip [10, 0, 0, 1] [10, 0, 0, 2]" and ?t = "example_tcp 100 2 (asc ''HELLO'')"
  have p: "inet_ntoa (ip_src ?ip) = Inr ''10.0.0.1''" "inet_ntoa (ip_dst ?ip) = Inr ''10.0.0.2''"
    "tcp_sport ?t = 1000" "tcp_dport ?t = 80"
    using example_packet_of [of 100 2 "asc ''HELLO''"] by (simp_all add: example_packet_def)
  then have "is_ok (reasm_feed example_reassembler ?ip ?t)"
    by (simp add: reasm_feed_def Let_def tcp_flags_eq split: prod.splits)
  then obtain r c evs where f: "reasm_feed example_reassembler ?ip ?t = Inr (r, c, evs)"
    by (cases "reasm_feed example_reassembler ?ip ?t") auto
  show ?thesis using find_after_feed [OF example_state(1) f p(1,2)] f p(3,4) by auto
qed

text \<open>
  C8: when a merge is asked for and both directions hold only contiguous bytes, the output is the
  bytes of the direction that started at the lower relative position first; acknowledgement
  numbers play no part.
\<close>

theorem merged_data_contiguous:
  assumes "segments (c2s c) = []" "segments (s2c c) = []"
    and "contiguous (c2s c) \<noteq> []" "contiguous (s2c c) \<noteq> []"
  shows "fst (conn_merged_data fg c) =
    (if next_seq (c2s c) - len (contiguous (c2s c)) \<le> next_seq (s2c c) - len (contiguous (s2c c))
     then contiguous (c2s c) @ contiguous (s2c c) else contiguous (s2c c) @ contiguous (c2s c))"
  using assms
  by (auto simp: conn_merged_data_def side_items_def Let_def less_eq_prod_def less_eq_side_def)

definition example_direction :: "bytes \<Rightarrow> segment list \<Rightarrow> direction" where
  "example_direction d ss = \<lparr>isn = Some 0, next_seq = 1 + len d, fin_seq = None, syn_received = True,
     fin_received = False, contiguous = d, segments = ss, total_buffered = len d + seg_total ss\<rparr>"

definition example_connection :: "direction \<Rightarrow> direction \<Rightarrow> connection" where
  "example_connection b1 b2 = (new_connection ''10.0.0.1'' 1000 ''10.0.0.2'' 80)\<lparr>c2s := b1, s2c := b2\<rparr>"

theorem merged_data_contiguous_witness:
  "fst (conn_merged_data False (example_connection (example_direction (asc ''AB'') [])
      (example_direction (asc ''CD'') []))) = asc ''ABCD''"
  by (subst merged_data_contiguous) (simp_all add: example_connection_def example_direction_def)

lemma merge_skips:
  "pos C2S = Some p \<Longrightarrow> beyond p ss \<Longrightarrow>
   merge_items False pos result (map (\<lambda>(r, a, d). (C2S, r, a, d)) ss) = result"
  by (induction ss) (auto simp: beyond_def)

text \<open>
  Merging without gap filling returns the contiguous bytes and throws the segments that were
  received ahead of a gap away: they are not returned, not kept, and not counted.
\<close>

theorem merged_data_drops_segments:
  assumes "direction_wf (c2s c)" "contiguous (c2s c) \<noteq> []" "segments (c2s c) \<noteq> []"
    and "contiguous (s2c c) = []" "segments (s2c c) = []" "isn (c2s c) \<noteq> None"
  shows "fst (conn_merged_data False c) = contiguous (c2s c) \<and>
    segments (c2s (snd (conn_merged_data False c))) = [] \<and>
    next_seq (c2s (snd (conn_merged_data False c))) = next_seq (c2s c) \<and>
    total_buffered (c2s (snd (conn_merged_data False c))) = 0"
proof -
  let ?b = "c2s c" and ?f = "\<lambda>(s :: side, r :: int, a :: int, d :: bytes). (r, s)"
  let ?rest = "map (\<lambda>(r, a, d). (C2S, r, a, d)) (segments ?b)"
  let ?head = "(C2S, next_seq ?b - len (contiguous ?b), 0, contiguous ?b)"
  have wf: "apart (segments ?b)" "beyond (next_seq ?b) (segments ?b)" "1 \<le> next_seq ?b"
    using assms(1,6) by (auto simp: direction_wf_def)
  have "sorted_wrt (\<lambda>x y. ?f x \<le> ?f y) ?rest"
    using wf(1) by (auto simp: apart_def sorted_wrt_map less_eq_prod_def seg_before_def len_def
        elim!: sorted_wrt_mono_rel [rotated])
  moreover have "\<forall>x \<in> set ?rest. ?f ?head \<le> ?f x"
    using wf(2) by (auto simp: beyond_def less_eq_prod_def len_def)
  ultimately have "sorted (map ?f (?head # ?rest))"
    by (auto simp: sorted_wrt_map)
  then have sort: "sort_key ?f (?head # ?rest) = ?head # ?rest"
    by (rule sort_key_id_if_sorted)
  have items: "side_items C2S ?b @ side_items S2C (s2c c) = ?head # ?rest"
    using assms by (simp add: side_items_def)
  have "merge_items False (\<lambda>_. None) [] (?head # ?rest) = contiguous ?b"
    using merge_skips [of "(\<lambda>_. None)(C2S := Some (max 0 (next_seq ?b)))" "max 0 (next_seq ?b)"] wf(2,3)
    by simp
  then show ?thesis
    using sort items by (simp add: conn_merged_data_def clear_direction_def)
qed


theorem merged_data_drops_segments_witness:
  "fst (conn_merged_data False (example_connection (example_direction (asc ''AB'') [(7, 0, asc ''XY'')])
      (example_direction [] []))) = asc ''AB''"
  by (subst merged_data_drops_segments [THEN conjunct1])
    (simp_all add: example_connection_def example_direction_def direction_wf_def)
end
