(* ===== verification/Network.thy ===== *)
theory Network
  imports Ip Isis Header_Classes Ethernet Reassembler
begin

text \<open>
  The link layer put together: the registry of Ethernet types as the library fills it, on the
  protocols modelled here (IPv4 with TCP and UDP, ARP, IPX, IS-IS), STP and IS-IS under LLC, and
  \<^verbatim>\<open>StreamReassembler._process_packet\<close>, which takes a captured frame through Ethernet, IP and
  TCP to the reassembler.
\<close>

section \<open>The registry\<close>

datatype net =
    N_IP "(transport payload) ip"
  | N_ARP arp
  | N_IPX packet_obj
  | N_STP stp
  | N_ISIS isis

definition ETH_TYPE_ISIS :: int where "ETH_TYPE_ISIS = 0x22F0"

fun net_bytes :: "net \<Rightarrow> bytes result" where
  "net_bytes (N_IP r) = rbind (ip_bytes transport_ops r) (\<lambda>(b, r'). Inr b)"
| "net_bytes (N_ARP r) = arp_bytes r"
| "net_bytes (N_IPX r) = class_bytes BE ipx_IPX_hdr r"
| "net_bytes (N_STP r) = stp_bytes r"
| "net_bytes (N_ISIS r) = isis_bytes r"

fun net_len :: "net \<Rightarrow> nat result" where
  "net_len (N_IP r) = Inr (ip_pkt_len transport_ops r)"
| "net_len (N_ARP r) = Inr (packet_len arp_hdr (arp_data r))"
| "net_len (N_IPX r) = Inr (class_len ipx_IPX_hdr r)"
| "net_len (N_STP r) = Inr (packet_len stp_hdr (stp_data r))"
| "net_len (N_ISIS r) = isis_len r"

fun net_type :: "net \<Rightarrow> int option" where
  "net_type (N_IP r) = Some ETH_TYPE_IP"
| "net_type (N_ARP r) = Some ETH_TYPE_ARP"
| "net_type (N_IPX r) = Some ETH_TYPE_IPX"
| "net_type (N_STP r) = None"
| "net_type (N_ISIS r) = Some ETH_TYPE_ISIS"

definition tagged :: "('a \<Rightarrow> 'b) \<Rightarrow> (bytes \<Rightarrow> 'a result) \<Rightarrow> bytes \<Rightarrow> 'b result" where
  "tagged f parse b = rbind (parse b) (\<lambda>x. Inr (f x))"

definition net_typesw :: "net registry" where
  "net_typesw =
    [ETH_TYPE_IP \<mapsto> tagged N_IP (ip_init transport_sw),
     ETH_TYPE_ARP \<mapsto> tagged N_ARP arp_init,
     ETH_TYPE_IPX \<mapsto> tagged N_IPX (class_init BE ipx_IPX_hdr),
     ETH_TYPE_ISIS \<mapsto> tagged N_ISIS isis_init]"

definition net_env :: "net eth_env" where
  "net_env = \<lparr>env_typesw = net_typesw, env_rev = net_type, env_stp = tagged N_STP stp_init,
     env_isis = tagged N_ISIS isis_init, env_bytes = net_bytes, env_len = net_len\<rparr>"

lemma arp_len: "arp_bytes r = Inr b \<Longrightarrow> length b = packet_len arp_hdr (arp_data r)"
  by (auto simp: arp_bytes_def packet_bytes_def packet_len_def result_simps dest!: packet_pack_hdr_length)

lemma stp_len: "stp_bytes r = Inr b \<Longrightarrow> length b = packet_len stp_hdr (stp_data r)"
  by (auto simp: stp_bytes_def packet_bytes_def packet_len_def result_simps dest!: packet_pack_hdr_length)

lemma class_len_bytes: "class_bytes bo h r = Inr b \<Longrightarrow> length b = class_len h r"
  by (auto simp: class_bytes_def class_len_def packet_bytes_def packet_len_def result_simps
      dest!: packet_pack_hdr_length)

interpretation net: eth_payloads net_env
proof
  fix t parse b x
  assume "env_typesw net_env t = Some parse" "parse b = Inr x"
  then show "env_rev net_env x = Some t"
    by (auto simp: net_env_def net_typesw_def tagged_def result_simps split: if_splits)
next
  fix x b
  assume "env_bytes net_env x = Inr b"
  then show "env_len net_env x = Inr (length b)"
    by (cases x) (auto simp: net_env_def result_simps transport_payload.ip_len_bytes arp_len stp_len
        class_len_bytes isis_len_bytes)
qed

lemma net_typesw_none:
  "t \<in> set ETH_TYPES_QINQ \<or> t \<in> set ETH_TYPES_MPLS \<or> t = 0 \<Longrightarrow> env_typesw net_env t = None"
  by (auto simp: net_env_def net_typesw_def eth_types ETH_TYPE_ISIS_def)

section \<open>From a captured frame to the reassembler\<close>

text \<open>
  \<^verbatim>\<open>_process_packet\<close>: only an unpack error of the frame is caught, and the frame is then skipped;
  so is a frame that does not carry TCP over IPv4.
\<close>

definition reasm_process_packet ::
    "'cb reassembler \<Rightarrow> bytes \<Rightarrow> ('cb reassembler \<times> 'cb event list) result" where
  "reasm_process_packet r buf =
     (case eth_init net_env buf of
        Inl e \<Rightarrow> if is_unpack_error e then Inr (r, []) else Inl e
      | Inr eth \<Rightarrow>
          (case eth_data eth of
             E_Pkt (N_IP ip) \<Rightarrow>
               (case ip_data ip of
                  Pkt (T_TCP t) \<Rightarrow> rbind (reasm_feed r ip t) (\<lambda>(r', c, evs). Inr (r', evs))
                | _ \<Rightarrow> Inr (r, []))
           | _ \<Rightarrow> Inr (r, [])))"

text \<open>\<^verbatim>\<open>feed_pcap\<close> and \<^verbatim>\<open>feed_pcaps\<close>, over the frames a reader yields.\<close>

fun feed_pcap :: "'cb reassembler \<Rightarrow> (int \<times> bytes) list \<Rightarrow> ('cb reassembler \<times> 'cb event list) result" where
  "feed_pcap r [] = Inr (r, [])"
| "feed_pcap r ((ts, buf) # frames) =
     rbind (reasm_process_packet r buf) (\<lambda>(r1, evs). rbind (feed_pcap r1 frames) (\<lambda>(r2, evs2). Inr (r2, evs @ evs2)))"

fun feed_pcaps ::
    "'cb reassembler \<Rightarrow> (int \<times> bytes) list list \<Rightarrow> ('cb reassembler \<times> 'cb event list) result" where
  "feed_pcaps r [] = Inr (r, [])"
| "feed_pcaps r (rd # rds) =
     rbind (feed_pcap r rd) (\<lambda>(r1, evs). rbind (feed_pcaps r1 rds) (\<lambda>(r2, evs2). Inr (r2, evs @ evs2)))"

lemma process_packet_inv: "reasm_process_packet r buf = Inr (r', evs) \<Longrightarrow> reasm_inv r \<Longrightarrow> reasm_inv r'"
  using reasm_feed_inv
  by (auto simp: reasm_process_packet_def result_simps split: sum.splits if_splits eth_payload.splits net.splits
      payload.splits transport.splits) blast

lemma process_packet_tcp:
  assumes "eth_init net_env buf = Inr e" "eth_data e = E_Pkt (N_IP ip)" "ip_data ip = Pkt (T_TCP t)"
  shows "reasm_process_packet r buf = rbind (reasm_feed r ip t) (\<lambda>(r', c, evs). Inr (r', evs))"
  using assms by (simp add: reasm_process_packet_def)

text \<open>The TCP packet that a frame carries.\<close>

definition frame_packet :: "bytes \<Rightarrow> ((transport payload) ip \<times> tcp) option" where
  "frame_packet buf =
     (case eth_init net_env buf of
        Inl e \<Rightarrow> None
      | Inr eth \<Rightarrow>
          (case eth_data eth of
             E_Pkt (N_IP ip) \<Rightarrow> (case ip_data ip of Pkt (T_TCP t) \<Rightarrow> Some (ip, t) | _ \<Rightarrow> None)
           | _ \<Rightarrow> None))"

lemma feed_pcap_run:
  "list_all2 (\<lambda>fr p. frame_packet (snd fr) = Some p) frames ps \<Longrightarrow> feed_pcap r frames = reasm_run r ps"
proof (induction frames arbitrary: ps r)
  case (Cons fr frames)
  obtain ts buf where fr: "fr = (ts, buf)" by fastforce
  obtain ip t ps' where ps: "ps = (ip, t) # ps'" "frame_packet buf = Some (ip, t)"
    "list_all2 (\<lambda>fr p. frame_packet (snd fr) = Some p) frames ps'"
    using Cons.prems fr by (auto simp: list_all2_Cons1)
  have "reasm_process_packet r buf = rbind (reasm_feed r ip t) (\<lambda>(r', c, evs). Inr (r', evs))"
    using ps(2) process_packet_tcp
    by (fastforce simp: frame_packet_def split: sum.splits eth_payload.splits net.splits payload.splits transport.splits)
  then show ?case
    using Cons.IH [OF ps(3)] fr ps(1)
    by (cases "reasm_feed r ip t") (auto split: prod.splits)
qed simp

lemma net_data_bytes:
  assumes "parse_type net_env ETH_TYPE_IP b = Inr (N_IP r)" "ip_sum r \<noteq> 0"
    and "ip_len r = 0 \<or> int (length b) \<le> ip_len r"
  shows "env_bytes net_env (N_IP r) = Inr b"
proof -
  have u: "ip_unpack transport_sw b = Inr r"
    using assms(1)
    by (auto simp: parse_type_def net_env_def net_typesw_def tagged_def ip_init_def eth_types ETH_TYPE_ISIS_def
        result_simps)
  have "take (max (nat (ip_len r)) n) b = b" if "ip_len r \<noteq> 0" for n
    using assms(3) that by (intro take_all) simp
  then show ?thesis
    using transport_payload.ip_pack_unpack [OF u assms(2)] by (auto simp: net_env_def)
qed

section \<open>Example frames\<close>

definition example_tcp_bytes :: "byte \<Rightarrow> byte \<Rightarrow> bytes \<Rightarrow> bytes" where
  "example_tcp_bytes seq flags d = [3, 0xe8, 0, 80, 0, 0, 0, seq, 0, 0, 0, 0, 0x50, flags, 0, 0, 0, 0, 0, 0] @ d"

definition example_ip_bytes :: "byte \<Rightarrow> bytes \<Rightarrow> bytes" where
  "example_ip_bytes n d = [0x45, 0, 0, n, 0, 1, 0, 0, 64, 6, 0, 1, 10, 0, 0, 1, 10, 0, 0, 2] @ d"

definition example_frame :: "bytes \<Rightarrow> bytes \<Rightarrow> bytes" where
  "example_frame ty d = [0, 0, 0, 0, 0, 0, 0, 0, 0, 0, 0, 0] @ ty @ d"

definition syn_frame :: bytes where
  "syn_frame = example_frame [8, 0] (example_ip_bytes 40 (example_tcp_bytes 100 2 []))"

definition data_frame :: bytes where
  "data_frame = example_frame [8, 0] (example_ip_bytes 42 (example_tcp_bytes 101 16 [72, 73]))"

lemmas frame_eval = example_tcp_bytes_def example_ip_bytes_def example_frame_def bytes_eval

lemma syn_tcp: "tcp_init (example_tcp_bytes 100 2 []) = Inr (tcp_make (map VInt [1000, 80, 100, 0, 0x5002, 0, 0, 0]) [])"
  by (simp add: tcp_init_def tcp_unpack_def tcp_hdr_def tcp_make_def frame_eval Let_def slice_simps)

lemma data_tcp: "tcp_init (example_tcp_bytes 101 16 [72, 73]) = Inr (tcp_make (map VInt [1000, 80, 101, 0, 0x5010, 0, 0, 0]) [72, 73])"
  by (simp add: tcp_init_def tcp_unpack_def tcp_hdr_def tcp_make_def frame_eval Let_def slice_simps)

definition example_net_ip :: "int \<Rightarrow> tcp \<Rightarrow> (transport payload) ip" where
  "example_net_ip n t = \<lparr>ip_v_hl = 0x45, ip_tos = 0, ip_len = n, ip_id = 1, ip_flags_offset = 0,
     ip_ttl = 64, ip_p = 6, ip_sum = 1, ip_src = [10, 0, 0, 1], ip_dst = [10, 0, 0, 2], ip_opts = [],
     ip_data = Pkt (T_TCP t)\<rparr>"

lemma example_ip_parse:
  assumes "tcp_init d = Inr t" "length d = 20 \<or> length d = 22"
  shows "ip_init transport_sw (example_ip_bytes (word_of_nat (20 + length d)) d) =
     Inr (example_net_ip (20 + int (length d)) t)"
  using assms
  by (auto simp: ip_init_def ip_unpack_def ip_hdr_def ip_make_def frame_eval Let_def slice_simps ip_offset_eq
      dispatch_def transport_sw_def example_net_ip_def)

lemma example_eth_ip:
  assumes "ip_init transport_sw b = Inr r"
  shows "\<exists>e. eth_init net_env (example_frame [8, 0] b) = Inr e \<and> eth_data e = E_Pkt (N_IP r)"
proof -
  have h: "packet_unpack BE eth_base_hdr eth_base_make (example_frame [8, 0] b) =
      Inr \<lparr>eth_base_dst = [0, 0, 0, 0, 0, 0], eth_base_src = [0, 0, 0, 0, 0, 0], eth_base_type = 0x800,
           eth_base_data = b\<rparr>"
    by (simp add: eth_base_hdr_def eth_base_make_def frame_eval)
  then show ?thesis
    using assms
    by (simp add: eth_init_def packet_init_def eth_unpack.simps Let_def eth_unpack_data_def next_in_def eth_types
        eth_dispatch_def dispatch_def net_env_def net_typesw_def tagged_def ETH_TYPE_ISIS_def eth_reparse_def)
qed

lemma example_packets:
  "frame_packet syn_frame = Some (example_net_ip 40 (tcp_make (map VInt [1000, 80, 100, 0, 0x5002, 0, 0, 0]) []),
     tcp_make (map VInt [1000, 80, 100, 0, 0x5002, 0, 0, 0]) [])"
  "frame_packet data_frame = Some (example_net_ip 42 (tcp_make (map VInt [1000, 80, 101, 0, 0x5010, 0, 0, 0]) [72, 73]),
     tcp_make (map VInt [1000, 80, 101, 0, 0x5010, 0, 0, 0]) [72, 73])"
  using example_eth_ip [OF example_ip_parse [OF syn_tcp]] example_eth_ip [OF example_ip_parse [OF data_tcp]]
  by (auto simp: frame_packet_def syn_frame_def data_frame_def example_net_ip_def example_tcp_bytes_def)

section \<open>Properties\<close>



text \<open>
  A frame with an IPv4 datagram that fills it, and whose header checksum is set, packs to the
  very bytes it was parsed from, through Ethernet, IP and TCP or UDP.
\<close>

theorem ipv4_frame_roundtrip:
  assumes "eth_init net_env buf = Inr e" "wire_type buf = ETH_TYPE_IP" "eth_data e = E_Pkt (N_IP r)"
    and "ip_sum r \<noteq> 0" "ip_len r = 0 \<or> int (length buf) - 14 \<le> ip_len r"
  shows "eth_bytes net_env e = Inr (buf, e)"
proof -
  have "1500 < wire_type buf" "wire_type buf \<notin> set ETH_TYPES_QINQ" "wire_type buf \<notin> set ETH_TYPES_MPLS"
    using assms(2) by (simp_all add: eth_types)
  note r = net.eth_ii_roundtrip [OF assms(1) this]
  then have p: "parse_type net_env ETH_TYPE_IP (drop 14 buf) = Inr (N_IP r)" using assms(2,3) by simp
  have "14 \<le> length buf"
  proof (rule ccontr)
    assume "\<not> 14 \<le> length buf"
    then have "ip_unpack transport_sw (drop 14 buf) = Inl StructError"
      by (simp add: ip_unpack_def packet_unpack_short)
    then show False
      using p by (auto simp: parse_type_def net_env_def net_typesw_def tagged_def ip_init_def eth_types
          ETH_TYPE_ISIS_def packet_init_Inr result_simps)
  qed
  then have "env_bytes net_env (N_IP r) = Inr (drop 14 buf)"
    using assms(4,5) by (intro net_data_bytes [OF p]) (auto simp: of_nat_diff)
  then show ?thesis using r assms(3) by (simp add: eth_payload_bytes_def)
qed

theorem ipv4_frame_roundtrip_witness:
  "\<exists>e. eth_init net_env data_frame = Inr e \<and> eth_bytes net_env e = Inr (data_frame, e)"
proof -
  obtain e r where e: "eth_init net_env data_frame = Inr e" "eth_data e = E_Pkt (N_IP r)"
    "ip_sum r = 1" "ip_len r = 42"
    using example_eth_ip [OF example_ip_parse [OF data_tcp]]
    by (auto simp: data_frame_def example_tcp_bytes_def example_net_ip_def)
  have "wire_type data_frame = ETH_TYPE_IP" "int (length data_frame) - 14 \<le> 42"
    by (simp_all add: wire_type_def data_frame_def frame_eval ETH_TYPE_IP_def)
  then show ?thesis using ipv4_frame_roundtrip [OF e(1) _ e(2)] e by auto
qed


definition vlan_frame :: bytes where
  "vlan_frame = example_frame [0x81, 0] ([0, 5, 8, 0] @ example_ip_bytes 40 (example_tcp_bytes 100 2 []))"

lemma vlan_frame_parse:
  "\<exists>e r. eth_unpack net_env eth_new vlan_frame = Inr e \<and> eth_data e = E_Pkt (N_IP r) \<and>
     length (eth_vlan_tags e) = 1"
proof -
  let ?b = "example_ip_bytes 40 (example_tcp_bytes 100 2 [])"
  obtain r where r: "ip_init transport_sw ?b = Inr r"
    using example_ip_parse [OF syn_tcp] by (simp add: example_tcp_bytes_def)
  have h: "packet_unpack BE eth_base_hdr eth_base_make vlan_frame =
      Inr \<lparr>eth_base_dst = [0, 0, 0, 0, 0, 0], eth_base_src = [0, 0, 0, 0, 0, 0], eth_base_type = 0x8100,
           eth_base_data = [0, 5, 8, 0] @ ?b\<rparr>"
    by (simp add: vlan_frame_def eth_base_hdr_def eth_base_make_def example_frame_def bytes_eval)
  have t: "vlan_q_init ([0, 5, 8, 0] @ ?b) = Inr \<lparr>vlan_q_pri_cfi_id = 5, vlan_q_type = 0x800, vlan_q_data = []\<rparr>"
    by (simp add: vlan_q_init_def vlan_q_unpack_def vlan_q_hdr_def vlan_q_make_def bytes_eval)
  then have "parse_vlan_tags 2 ([0, 5, 8, 0] @ ?b) =
      Inr ([\<lparr>vlan_q_pri_cfi_id = 5, vlan_q_type = 0x800, vlan_q_data = []\<rparr>], ?b)"
    by (simp add: numeral_2_eq_2 Let_def ETH_TYPE_8021Q_def)
  moreover obtain tup where
    "vlan_q_as_tuple \<lparr>vlan_q_pri_cfi_id = 5, vlan_q_type = 0x800, vlan_q_data = []\<rparr> = Inr tup"
    by (simp add: vlan_q_as_tuple_def bf_get_take_bit bf_locate_def vlan_q_bits_def bits_total_def
        starts_with_def)
  ultimately show ?thesis
    using h r by (subst eth_unpack.simps)
      (simp add: Let_def eth_unpack_data_def next_in_def eth_types eth_dispatch_def dispatch_def net_env_def
        net_typesw_def tagged_def ETH_TYPE_ISIS_def)
qed


text \<open>
  A frame with an MPLS stack that ends in a bottom label, in front of IP, packs to the same
  header and labels followed by the packed payload.
\<close>

theorem mpls_roundtrip:
  assumes "eth_unpack net_env eth_new buf = Inr e" "eth_data e = E_Pkt x" "env_len net_env x = Inr k"
    and "wire_type buf \<in> set ETH_TYPES_MPLS" "mpls_s (last (eth_mpls_labels e)) = Inr 1"
  shows "eth_init net_env buf = Inr e \<and> eth_mpls_labels e \<noteq> [] \<and>
    (let n = 14 + 4 * length (eth_mpls_labels e)
     in eth_bytes net_env e = rbind (env_bytes net_env x) (\<lambda>b. Inr (take n buf @ b, e)) \<and>
        (\<exists>t. parse_type net_env t (drop n buf) = Inr x))"
proof (rule net.eth_mpls_roundtrip [OF assms(1-4) _ assms(5)])
  show "\<forall>t \<in> set ETH_TYPES_MPLS. env_typesw net_env t = None" by (auto intro: net_typesw_none)
  show "eth_next_type e \<noteq> Some ETH_TYPE_TEB"
  proof
    assume teb: "eth_next_type e = Some ETH_TYPE_TEB"
    have big: "1500 < wire_type buf" and nq: "wire_type buf \<notin> set ETH_TYPES_QINQ"
      using assms(4) by (auto simp: eth_types)
    obtain h e0 where h: "packet_unpack BE eth_base_hdr eth_base_make buf = Inr h"
      "e0 = eth_new\<lparr>eth_dst := eth_base_dst h, eth_src := eth_base_src h, eth_type := wire_type buf,
         eth_data := E_Raw (drop 14 buf), eth_next_type := Some (wire_type buf)\<rparr>"
      "eth_base_type h = wire_type buf" "eth_unpack_data net_env e0 (drop 14 buf) = Inr e"
      using eth_unpack_ii [OF assms(1) big] by blast
    then obtain e1 b where d: "eth_dispatch net_env e1 b = Inr e"
      using assms(4) nq by (auto simp: eth_unpack_data_def next_in_def result_simps)
    from d show False
    proof (cases rule: eth_dispatch_cases)
      case (pkt y t)
      then have "t = ETH_TYPE_TEB" using teb by (simp add: ETH_TYPE_TEB_def)
      then show False
        using pkt(4) by (simp add: parse_type_def net_env_def net_typesw_def eth_types ETH_TYPE_ISIS_def)
    qed (use assms(2) in simp)
  qed
qed

definition mpls_frame :: bytes where
  "mpls_frame = example_frame [0x88, 0x47] ([0, 0, 1, 64] @ example_ip_bytes 40 (example_tcp_bytes 100 2 []))"

lemma mpls_frame_parse:
  "\<exists>e r. eth_unpack net_env eth_new mpls_frame = Inr e \<and> eth_data e = E_Pkt (N_IP r) \<and>
     eth_mpls_labels e = [\<lparr>mpls_label_val_exp_s_ttl = 320, mpls_label_data = []\<rparr>]"
proof -
  let ?b = "example_ip_bytes 40 (example_tcp_bytes 100 2 [])"
  let ?l = "\<lparr>mpls_label_val_exp_s_ttl = 320, mpls_label_data = []\<rparr>"
  obtain r where r: "ip_init transport_sw ?b = Inr r"
    using example_ip_parse [OF syn_tcp] by (simp add: example_tcp_bytes_def)
  have h: "packet_unpack BE eth_base_hdr eth_base_make mpls_frame =
      Inr \<lparr>eth_base_dst = [0, 0, 0, 0, 0, 0], eth_base_src = [0, 0, 0, 0, 0, 0], eth_base_type = 0x8847,
           eth_base_data = [0, 0, 1, 64] @ ?b\<rparr>"
    by (simp add: mpls_frame_def eth_base_hdr_def eth_base_make_def example_frame_def bytes_eval)
  have t: "mpls_label_init ([0, 0, 1, 64] @ ?b) = Inr ?l"
    by (simp add: mpls_label_init_def mpls_label_unpack_def mpls_label_hdr_def mpls_label_make_def bytes_eval)
  obtain tup where "mpls_as_tuple ?l = Inr tup"
    by (simp add: mpls_as_tuple_def bf_get_take_bit bf_locate_def mpls_bits_def bits_total_def
        starts_with_def)
  then have "parse_mpls 24 ([0, 0, 1, 64] @ ?b) = Inr ([(?l, tup)], ?b)"
    using t parse_mpls.simps(2) [of 23 "[0, 0, 1, 64] @ ?b"] by (simp add: Let_def mpls_s_eq)
  moreover have "guess_mpls_payload ?b = Inr (Some ETH_TYPE_IP, ?b)"
    by (simp add: guess_mpls_payload_def example_ip_bytes_def ord_def)
  ultimately show ?thesis
    using h r by (subst eth_unpack.simps)
      (simp add: Let_def eth_unpack_data_def next_in_def eth_types eth_dispatch_def dispatch_def net_env_def
        net_typesw_def tagged_def ETH_TYPE_ISIS_def)
qed

theorem mpls_roundtrip_witness:
  "\<exists>e x. eth_init net_env mpls_frame = Inr e \<and>
     eth_bytes net_env e = rbind (env_bytes net_env x) (\<lambda>b. Inr (take 18 mpls_frame @ b, e))"
proof -
  obtain e r where e: "eth_unpack net_env eth_new mpls_frame = Inr e" "eth_data e = E_Pkt (N_IP r)"
    "eth_mpls_labels e = [\<lparr>mpls_label_val_exp_s_ttl = 320, mpls_label_data = []\<rparr>]"
    using mpls_frame_parse by blast
  have l: "env_len net_env (N_IP r) = Inr (ip_pkt_len transport_ops r)" by (simp add: net_env_def)
  have w: "wire_type mpls_frame \<in> set ETH_TYPES_MPLS"
    by (simp add: wire_type_def mpls_frame_def frame_eval eth_types)
  show ?thesis
    using mpls_roundtrip [OF e(1,2) l w] e(3) by (auto simp: Let_def mpls_s_eq)
qed

text \<open>
  An 802.3 frame that holds its whole LLC body packs to the same bytes, padding, check
  sequence and trailer included, when its body does and its check sequence is not zero.
\<close>

theorem ieee8023_roundtrip:
  assumes "eth_init net_env buf = Inr e" "0 < wire_type buf" "wire_type buf \<le> 1500"
    and "\<not> isl_prefix (take 6 buf)" "\<not> starts_with (drop 14 buf) [0xff, 0xff]"
    and "14 + nat (wire_type buf) \<le> length buf" "eth_fcs e \<noteq> Some 0"
  shows "\<exists>l. eth_data e = E_LLC l \<and>
    llc_init net_env (take (nat (wire_type buf)) (drop 14 buf)) = Inr l \<and>
    (llc_bytes net_env l = Inr (take (nat (wire_type buf)) (drop 14 buf)) \<longrightarrow>
     eth_bytes net_env e = Inr (buf, e))"
  by (rule net.eth_8023_roundtrip [OF assms])

definition llc_frame :: bytes where
  "llc_frame = example_frame [0, 5] [1, 1, 3, 9, 9, 1, 2, 3, 4]"

theorem ieee8023_roundtrip_witness:
  "\<exists>e. eth_init net_env llc_frame = Inr e \<and> eth_bytes net_env e = Inr (llc_frame, e)"
proof -
  have l: "llc_init net_env [1, 1, 3, 9, 9] = Inr \<lparr>llc_dsap = 1, llc_ssap = 1, llc_ctl = 3, llc_oui = None,
      llc_type = None, llc_data = Raw [9, 9]\<rparr>"
    by (simp add: llc_init_def llc_unpack_def llc_base_hdr_def llc_base_make_def bytes_eval Let_def
        llc_is_snap_def)
  have b: "llc_bytes net_env \<lparr>llc_dsap = 1, llc_ssap = 1, llc_ctl = 3, llc_oui = None,
      llc_type = None, llc_data = Raw [9, 9]\<rparr> = Inr [1, 1, 3, 9, 9]"
    by (simp add: llc_bytes_def llc_pack_hdr_def llc_vals_def llc_base_hdr_def packet_pack_hdr_def
        llc_is_snap_def env_data_bytes_def int_bytes_def be_bytes_def)
  have h: "packet_unpack BE eth_base_hdr eth_base_make llc_frame =
      Inr \<lparr>eth_base_dst = [0, 0, 0, 0, 0, 0], eth_base_src = [0, 0, 0, 0, 0, 0], eth_base_type = 5,
           eth_base_data = [1, 1, 3, 9, 9, 1, 2, 3, 4]\<rparr>"
    by (simp add: llc_frame_def eth_base_hdr_def eth_base_make_def frame_eval)
  have "\<exists>e. eth_unpack net_env eth_new llc_frame = Inr e \<and> eth_fcs e = Some 0x01020304 \<and>
      (\<exists>l. eth_data e = E_LLC l \<and> llc_data l = Raw [9, 9])"
    using h l by (subst eth_unpack.simps)
      (simp add: Let_def isl_prefix_def starts_with_def ETH_TYPE_UNKNOWN_def py_upto_def py_from_def eth_tail_def
        bytes_int_def be_int_def ord_def)
  then obtain e where e: "eth_init net_env llc_frame = Inr e" "eth_fcs e = Some 0x01020304"
    by (auto simp: eth_init_def packet_init_def eth_reparse_def llc_len_def env_data_len_def)
  have w: "wire_type llc_frame = 5" by (simp add: wire_type_def llc_frame_def frame_eval)
  show ?thesis
    using ieee8023_roundtrip [OF e(1)] e w l b
    by (simp add: llc_frame_def example_frame_def isl_prefix_def starts_with_def)
qed

text \<open>
  The length of a frame is the number of bytes it packs to, unless it has VLAN tags and MPLS
  labels at once.
\<close>

theorem ethernet_len:
  assumes "eth_bytes net_env e = Inr (b, e')" "eth_vlan_tags e = [] \<or> eth_mpls_labels e = []"
  shows "eth_len net_env e = Inr (length b)"
  by (rule net.eth_len_bytes [OF assms])

theorem ethernet_len_witness:
  "\<exists>e b e'. eth_bytes net_env e = Inr (b, e') \<and> eth_data e = E_Raw [1, 2, 3] \<and> eth_len net_env e = Inr (length b)"
proof -
  let ?e = "eth_new\<lparr>eth_dst := [0, 0, 0, 0, 0, 1], eth_src := [0, 0, 0, 0, 0, 2], eth_data := E_Raw [1, 2, 3]\<rparr> :: net ethernet"
  have "\<exists>b. eth_bytes net_env ?e = Inr (b, ?e)"
    by (simp add: eth_bytes_def eth_pack_hdr_def eth_new_def rev_type_def packet_pack_hdr_def eth_base_hdr_def
        eth_vals_def eth_payload_bytes_def ETH_TYPE_IP_def)
  then obtain b where b: "eth_bytes net_env ?e = Inr (b, ?e)" by blast
  have "eth_len net_env ?e = Inr (length b)" by (rule ethernet_len [OF b]) (simp add: eth_new_def)
  then show ?thesis using b by (intro exI [of _ ?e] exI [of _ b]) auto
qed

text \<open>
  An Ethernet frame that carries an IS-IS PDU of a known type cannot be constructed: the test
  \<^verbatim>\<open>if self.data\<close> takes the length of a class that has none. Processing it raises the same
  \<open>AttributeError\<close>.
\<close>

theorem isis_frame_crashes:
  assumes "eth_unpack net_env eth_new buf = Inr e" "eth_data e = E_Pkt (N_ISIS p)" "isis_data p = I_PDU d"
  shows "eth_init net_env buf = Inl AttributeError \<and> reasm_process_packet r buf = Inl AttributeError"
proof -
  have "eth_init net_env buf = Inl AttributeError"
    using assms by (simp add: eth_init_def packet_init_def eth_reparse_def net_env_def isis_len_def)
  then show ?thesis by (simp add: reasm_process_packet_def is_unpack_error_def)
qed

definition isis_frame :: bytes where
  "isis_frame = example_frame [0x22, 0xf0] [0x83, 8, 1, 0, 8, 1, 0, 0, 0, 10]"

theorem isis_frame_crashes_witness:
  "eth_init net_env isis_frame = Inl AttributeError \<and>
   reasm_process_packet example_reassembler isis_frame = Inl AttributeError"
proof -
  have h: "packet_unpack BE eth_base_hdr eth_base_make isis_frame =
      Inr \<lparr>eth_base_dst = [0, 0, 0, 0, 0, 0], eth_base_src = [0, 0, 0, 0, 0, 0], eth_base_type = 0x22f0,
           eth_base_data = [0x83, 8, 1, 0, 8, 1, 0, 0, 0, 10]\<rparr>"
    by (simp add: isis_frame_def eth_base_hdr_def eth_base_make_def frame_eval)
  have i: "\<exists>p. isis_init [0x83, 8, 1, 0, 8, 1, 0, 0, 0, 10] = Inr p \<and> (\<exists>d. isis_data p = I_PDU d)"
    by (simp add: isis_init_def isis_unpack_def isis_base_hdr_def isis_base_make_def isis_pdu_class_def
        isis_pdu_init_def unpack_psnp_def uint_at_def unpack_uint_def bytes_eval)
  then obtain p d where p: "isis_init [0x83, 8, 1, 0, 8, 1, 0, 0, 0, 10] = Inr p" "isis_data p = I_PDU d" by blast
  have "\<exists>e. eth_unpack net_env eth_new isis_frame = Inr e \<and> eth_data e = E_Pkt (N_ISIS p)"
    using h p(1) by (subst eth_unpack.simps)
      (simp add: Let_def eth_unpack_data_def next_in_def eth_types eth_dispatch_def dispatch_def net_env_def
        net_typesw_def tagged_def ETH_TYPE_ISIS_def)
  then show ?thesis using isis_frame_crashes p(2) by blast
qed



text \<open>
  A frame that cannot be parsed, and a frame without TCP over IPv4, leaves the reassembler as
  it is and calls nobody; only an exception that is not an unpack error gets out.
\<close>

theorem process_packet_skips:
  assumes "frame_packet buf = None"
  shows "reasm_process_packet r buf = Inr (r, []) \<or>
    (\<exists>e. eth_init net_env buf = Inl e \<and> \<not> is_unpack_error e \<and> reasm_process_packet r buf = Inl e)"
  using assms
  by (auto simp: frame_packet_def reasm_process_packet_def split: sum.splits eth_payload.splits net.splits
      payload.splits transport.splits)

theorem process_packet_skips_witness: "reasm_process_packet example_reassembler [1, 2, 3] = Inr (example_reassembler, [])"
proof -
  have e: "eth_init net_env [1, 2, 3] = Inl NeedData"
    by (simp add: eth_init_def packet_init_def eth_unpack.simps packet_unpack_short)
  then show ?thesis
    using process_packet_skips [of "[1, 2, 3]" example_reassembler]
    by (auto simp: frame_packet_def is_unpack_error_def)
qed

end
