(* ===== verification/Tls_Record.thy ===== *)
theory Tls_Record
  imports Packet
begin

text \<open>
  The record layer of TLS, the class \<^verbatim>\<open>TLSRecord\<close> of \<^verbatim>\<open>dpkt/ssl.py\<close>: a record is read with its length,
  and the constructor makes the length that of the data.
\<close>

section \<open>TLS records\<close>

record tls_record =
  tls_type :: int
  tls_version :: int
  tls_length :: int
  tls_data :: bytes
  tls_compressed :: bool
  tls_encrypted :: bool

definition tls_hdr :: hdr where
  "tls_hdr = [(''type'', fB, VInt 0), (''version'', fH, VInt 0), (''length'', fH, VInt 0)]"

definition tls_vals :: "tls_record \<Rightarrow> pval list" where
  "tls_vals r = [VInt (tls_type r), VInt (tls_version r), VInt (tls_length r)]"

definition tls_make :: "pval list \<Rightarrow> bytes \<Rightarrow> tls_record" where
  "tls_make vs d = \<lparr>tls_type = ival (vs ! 0), tls_version = ival (vs ! 1), tls_length = ival (vs ! 2),
     tls_data = d, tls_compressed = False, tls_encrypted = False\<rparr>"

lemma tls_hdr_len [hdr_simps, simp]: "hdr_len tls_hdr = 5"
  by (simp add: tls_hdr_def)

interpretation tls_class: packet_class BE tls_hdr tls_vals tls_make tls_data
  by unfold_locales (auto simp: tls_hdr_def tls_vals_def tls_make_def fmt_ok_def hdr_simps)

definition tls_unpack :: "bytes \<Rightarrow> tls_record result" where
  "tls_unpack buf =
     rbind (packet_unpack BE tls_hdr tls_make buf) (\<lambda>r.
       let d = take (nat (tls_length r)) (drop 5 buf) in
       if int (length d) < tls_length r then Inl NeedData
       else Inr (r\<lparr>tls_data := d, tls_compressed := True, tls_encrypted := True\<rparr>))"

definition tls_init :: "bytes \<Rightarrow> tls_record result" where
  "tls_init buf =
     rbind (packet_init 5 tls_unpack buf) (\<lambda>r. Inr (r\<lparr>tls_length := int (length (tls_data r))\<rparr>))"

definition tls_bytes :: "tls_record \<Rightarrow> bytes result" where
  "tls_bytes r = packet_bytes BE tls_hdr (tls_vals r) (tls_data r)"

lemma tls_init_length:
  assumes "tls_init buf = Inr r"
  shows "tls_length r = int (length (tls_data r)) \<and> 5 + length (tls_data r) \<le> length buf"
proof -
  obtain p where p: "packet_unpack BE tls_hdr tls_make buf = Inr p" "tls_data r = take (nat (tls_length p)) (drop 5 buf)"
    "tls_length r = int (length (tls_data r))"
    using assms by (auto simp: tls_init_def tls_unpack_def packet_init_Inr rbind_Inr_iff Let_def split: if_splits)
  then show ?thesis using packet_unpack_ok [OF p(1)] by auto
qed

lemma tls_record_reads:
  assumes "exact_all (hdr_fmt tls_hdr) (tls_vals r)" "tls_bytes r = Inr b" "tls_length r = int (length (tls_data r))"
  shows "tls_init (b @ rest) = Inr (r\<lparr>tls_compressed := True, tls_encrypted := True\<rparr>) \<and> length b = 5 + length (tls_data r)"
proof -
  obtain h where h: "packet_pack_hdr BE tls_hdr (tls_vals r) = Inr h" "b = h @ tls_data r"
    using assms(2) by (auto simp: tls_bytes_def packet_bytes_def rbind_Inr_iff)
  obtain c where c: "packet_bytes BE tls_hdr (tls_vals r) (tls_data r @ rest) = Inr c"
    "packet_unpack BE tls_hdr tls_make c = Inr (tls_make (tls_vals r) (tls_data r @ rest))"
    using tls_class.unpack_pack [OF assms(1), of "tls_data r @ rest"] by auto
  have "c = b @ rest" using c(1) h by (simp add: packet_bytes_def)
  moreover have "length h = 5" using packet_pack_hdr_length [OF h(1)] by simp
  ultimately have "tls_unpack (b @ rest) = Inr (r\<lparr>tls_compressed := True, tls_encrypted := True\<rparr>)" "length b = 5 + length (tls_data r)"
    using c(2) h(2) assms(3) by (cases r, simp add: tls_unpack_def tls_make_def tls_vals_def Let_def, simp)
  moreover from this(1) have "packet_init 5 tls_unpack (b @ rest) = Inr (r\<lparr>tls_compressed := True, tls_encrypted := True\<rparr>)"
    by (simp add: packet_init_Inr)
  ultimately show ?thesis using assms(3) by (cases r) (simp add: tls_init_def)
qed

end
