(* ===== verification/Quic.thy ===== *)
theory Quic
  imports Tls_Record
begin

text \<open>
  QUIC headers and frames, \<^verbatim>\<open>dpkt/quic.py\<close>, with the TLS records that CRYPTO frames
  carry: variable-length integers, the frame classes, the frame loop with the size
  calculation it advances by, long and short headers. The main results: integers below
  \<open>2 ^ 62\<close> are decoded as they were encoded; the frame loop gives back a sequence of encoded
  ACK, CRYPTO, STREAM and one-byte frames; it goes astray after the frames whose size it does not
  calculate.
\<close>

section \<open>Variable-length integers\<close>

definition decode_varint :: "bytes \<Rightarrow> nat \<Rightarrow> (int \<times> nat) result" where
  "decode_varint buf off =
     (if length buf \<le> off then Inl NeedData
      else let t = drop_bit 6 (buf ! off) in
        if t = 0 then Inr (ord (buf ! off) AND 0x3f, 1)
        else if t = 1 then
          (if length buf < off + 2 then Inl NeedData
           else rbind (unpack_uint BE 2 (take 2 (drop off buf))) (\<lambda>v. Inr (v AND 0x3fff, 2)))
        else if t = 2 then
          (if length buf < off + 4 then Inl NeedData
           else rbind (unpack_uint BE 4 (take 4 (drop off buf))) (\<lambda>v. Inr (v AND 0x3fffffff, 4)))
        else
          (if length buf < off + 8 then Inl NeedData
           else rbind (unpack_uint BE 8 (take 8 (drop off buf))) (\<lambda>v. Inr (v AND 0x3fffffffffffffff, 8))))"

definition encode_varint :: "int \<Rightarrow> bytes result" where
  "encode_varint v =
     (if v \<le> 63 then (if 0 \<le> v then Inr [word_of_int v] else Inl ValueError)
      else if v \<le> 16383 then pack_uint BE 2 (v OR 0x4000)
      else if v \<le> 1073741823 then pack_uint BE 4 (v OR 0x80000000)
      else pack_uint BE 8 (v OR 0xc000000000000000))"

section \<open>TLS records of CRYPTO frames\<close>

text \<open>\<^verbatim>\<open>QUICCryptoFrame._extract_tls\<close>: records until one does not parse.\<close>

function extract_tls :: "bytes \<Rightarrow> tls_record list result" where
  "extract_tls buf =
     (if length buf < 5 then Inr []
      else
        (case tls_init buf of
           Inl e \<Rightarrow> if is_unpack_error e \<or> e = StructError \<or> e = IndexError then Inr [] else Inl e
         | Inr r \<Rightarrow> rbind (extract_tls (drop (5 + nat (tls_length r)) buf)) (\<lambda>rs. Inr (r # rs))))"
  by pat_completeness auto

termination
  by (relation "measure length") auto

declare extract_tls.simps [simp del]

section \<open>Frames\<close>

text \<open>
  One constructor per class; the first argument is the attribute \<^verbatim>\<open>type\<close>. \<open>Q_Frame\<close> is the base
  class, which reads the type only.
\<close>

datatype quic_frame =
    Q_Frame int
  | Q_Stream int int int int bytes
  | Q_Crypto int int int bytes "tls_record list"
  | Q_Ack int int int int int "(int \<times> int) list"
  | Q_MaxData int int
  | Q_MaxStreamData int int int
  | Q_Close int int "int option" bytes

text \<open>\<open>varint_at\<close> threads the offset: \<^verbatim>\<open>x, n = decode_varint(buf, off); off += n\<close>.\<close>

definition varint_at :: "bytes \<Rightarrow> nat \<Rightarrow> (int \<Rightarrow> nat \<Rightarrow> 'a result) \<Rightarrow> 'a result" where
  "varint_at buf off f = rbind (decode_varint buf off) (\<lambda>(v, n). f v (off + n))"

definition head_type :: "bytes \<Rightarrow> int result" where
  "head_type buf = rbind (py_get buf 0) (\<lambda>b. Inr (ord b))"

definition stream_unpack :: "bytes \<Rightarrow> quic_frame result" where
  "stream_unpack buf =
     rbind (head_type buf) (\<lambda>t.
     varint_at buf 1 (\<lambda>sid off.
     rbind (if t AND 4 \<noteq> 0 then decode_varint buf off else Inr (0, 0)) (\<lambda>(offset, n).
     rbind (if t AND 2 \<noteq> 0 then decode_varint buf (off + n) else Inr (0, 0)) (\<lambda>(len, m).
       let d = drop (off + n + m) buf in
       Inr (Q_Stream t sid offset len (if len \<noteq> 0 then take (nat len) d else d))))))"

definition crypto_unpack :: "bytes \<Rightarrow> quic_frame result" where
  "crypto_unpack buf =
     rbind (head_type buf) (\<lambda>t.
     varint_at buf 1 (\<lambda>offset off.
     varint_at buf off (\<lambda>len off.
       let d = take (nat len) (drop off buf) in
       rbind (extract_tls d) (\<lambda>rs. Inr (Q_Crypto t offset len d rs)))))"

fun ack_blocks :: "nat \<Rightarrow> bytes \<Rightarrow> nat \<Rightarrow> (int \<times> int) list result" where
  "ack_blocks 0 buf off = Inr []"
| "ack_blocks (Suc k) buf off =
     varint_at buf off (\<lambda>gap off.
     varint_at buf off (\<lambda>len off.
     rbind (ack_blocks k buf off) (\<lambda>bs. Inr ((gap, len) # bs))))"

definition ack_unpack :: "bytes \<Rightarrow> quic_frame result" where
  "ack_unpack buf =
     rbind (head_type buf) (\<lambda>t.
     varint_at buf 1 (\<lambda>largest off.
     varint_at buf off (\<lambda>delay off.
     varint_at buf off (\<lambda>cnt off.
     varint_at buf off (\<lambda>first off.
     rbind (ack_blocks (nat cnt) buf off) (\<lambda>bs. Inr (Q_Ack t largest delay cnt first bs)))))))"

definition max_data_unpack :: "bytes \<Rightarrow> quic_frame result" where
  "max_data_unpack buf =
     rbind (head_type buf) (\<lambda>t. varint_at buf 1 (\<lambda>m _. Inr (Q_MaxData t m)))"

definition max_stream_data_unpack :: "bytes \<Rightarrow> quic_frame result" where
  "max_stream_data_unpack buf =
     rbind (head_type buf) (\<lambda>t.
     varint_at buf 1 (\<lambda>sid off. varint_at buf off (\<lambda>m _. Inr (Q_MaxStreamData t sid m))))"

definition close_unpack :: "bytes \<Rightarrow> quic_frame result" where
  "close_unpack buf =
     rbind (head_type buf) (\<lambda>t.
     varint_at buf 1 (\<lambda>code off.
     rbind (if t = 0x1c then rbind (decode_varint buf off) (\<lambda>(v, n). Inr (Some v, n)) else Inr (None, 0)) (\<lambda>(ft, n).
     varint_at buf (off + n) (\<lambda>len off.
       Inr (Q_Close t code ft (take (nat len) (drop off buf)))))))"

definition base_unpack :: "bytes \<Rightarrow> quic_frame result" where
  "base_unpack buf = (case buf of [] \<Rightarrow> Inr (Q_Frame 0) | b # _ \<Rightarrow> Inr (Q_Frame (ord b)))"

definition get_frame_parser :: "int \<Rightarrow> bytes \<Rightarrow> quic_frame result" where
  "get_frame_parser t =
     (if 8 \<le> t \<and> t \<le> 0xf then stream_unpack
      else if t = 2 \<or> t = 3 then ack_unpack
      else if t = 6 then crypto_unpack
      else if t = 0x1c \<or> t = 0x1d then close_unpack
      else if t = 16 then max_data_unpack
      else if t = 17 then max_stream_data_unpack
      else base_unpack)"

fun frame_type :: "quic_frame \<Rightarrow> int" where
  "frame_type (Q_Frame t) = t"
| "frame_type (Q_Stream t _ _ _ _) = t"
| "frame_type (Q_Crypto t _ _ _ _) = t"
| "frame_type (Q_Ack t _ _ _ _ _) = t"
| "frame_type (Q_MaxData t _) = t"
| "frame_type (Q_MaxStreamData t _ _) = t"
| "frame_type (Q_Close t _ _ _) = t"

definition varint_len :: "int \<Rightarrow> nat result" where
  "varint_len v = rbind (encode_varint v) (\<lambda>b. Inr (length b))"

fun varint_lens :: "int list \<Rightarrow> nat result" where
  "varint_lens [] = Inr 0"
| "varint_lens (v # vs) = rbind (varint_len v) (\<lambda>n. rbind (varint_lens vs) (\<lambda>m. Inr (n + m)))"

text \<open>\<^verbatim>\<open>len(f)\<close>: only CRYPTO frames have a length of their own.\<close>

fun frame_len :: "quic_frame \<Rightarrow> nat result" where
  "frame_len (Q_Crypto t offset len d rs) = rbind (varint_lens [offset, len]) (\<lambda>n. Inr (1 + n + nat len))"
| "frame_len _ = Inr 1"

text \<open>
  \<^verbatim>\<open>_frame_byte_size\<close>: the integers are encoded again; frames of other classes count as one byte.
\<close>

definition frame_byte_size :: "quic_frame \<Rightarrow> nat result" where
  "frame_byte_size f =
     (if frame_type f = 0 then Inr 1
      else
        (case f of
           Q_Stream t sid offset len d \<Rightarrow>
             rbind (varint_lens ([sid] @ (if t AND 4 \<noteq> 0 then [offset] else []) @
                 (if t AND 2 \<noteq> 0 then [len] else []))) (\<lambda>n. Inr (1 + n + length d))
         | Q_Ack t largest delay cnt first bs \<Rightarrow>
             rbind (varint_lens ([largest, delay, cnt, first] @ concat (map (\<lambda>(g, l). [g, l]) bs)))
               (\<lambda>n. Inr (1 + n))
         | _ \<Rightarrow> frame_len f))"

lemma frame_byte_size_pos: "frame_byte_size f = Inr n \<Longrightarrow> 0 < n"
  by (auto simp: frame_byte_size_def result_simps split: quic_frame.splits if_splits)

text \<open>
  \<^verbatim>\<open>parse_frames\<close>: padding is skipped, a frame is appended before its size is taken, and an error
  ends the loop with the frames so far.
\<close>

definition parse_stops :: "exn \<Rightarrow> bool" where
  "parse_stops e \<longleftrightarrow> e = NeedData \<or> e = IndexError \<or> e = StructError"

function parse_frames :: "bytes \<Rightarrow> quic_frame list result" where
  "parse_frames buf =
     (case buf of
        [] \<Rightarrow> Inr []
      | t # r \<Rightarrow>
          (if t = 0 then parse_frames r
           else
             (case get_frame_parser (ord t) buf of
                Inl e \<Rightarrow> if parse_stops e then Inr [] else Inl e
              | Inr f \<Rightarrow>
                  (case frame_byte_size f of
                     Inl e \<Rightarrow> if parse_stops e then Inr [f] else Inl e
                   | Inr n \<Rightarrow> rbind (parse_frames (drop n buf)) (\<lambda>fs. Inr (f # fs))))))"
  by pat_completeness auto

termination
  by (relation "measure length") (auto dest: frame_byte_size_pos)

declare parse_frames.simps [simp del]

section \<open>Packet headers\<close>

record quic_long =
  ql_flags :: int
  ql_pkt_type :: int
  ql_version :: int
  ql_dcid :: bytes
  ql_scid :: bytes
  ql_retry :: "(bytes \<times> bytes) option"
  ql_token :: "bytes option"
  ql_length :: "int option"
  ql_pkt_number :: bytes
  ql_data :: bytes
  ql_frames :: "quic_frame list"

record quic_short =
  qs_flags :: int
  qs_dcid :: bytes
  qs_pkt_number :: bytes
  qs_frames :: "quic_frame list"

definition byte_of :: "bytes \<Rightarrow> nat \<Rightarrow> int result" where
  "byte_of buf i = rbind (py_get buf (int i)) (\<lambda>b. Inr (ord b))"

definition quic_long_unpack :: "bytes \<Rightarrow> quic_long result" where
  "quic_long_unpack buf =
     rbind (byte_of buf 0) (\<lambda>flags.
     rbind (unpack_uint BE 4 (take 4 (drop 1 buf))) (\<lambda>version.
     rbind (byte_of buf 5) (\<lambda>dl.
       let dcid = take (nat dl) (drop 6 buf); off = 6 + nat dl in
     rbind (byte_of buf off) (\<lambda>sl.
       let scid = take (nat sl) (drop (off + 1) buf); off = off + 1 + nat sl;
           pt = drop_bit 4 flags AND 3;
           q = \<lparr>ql_flags = flags, ql_pkt_type = pt, ql_version = version, ql_dcid = dcid,
             ql_scid = scid, ql_retry = None, ql_token = None, ql_length = None, ql_pkt_number = [],
             ql_data = [], ql_frames = []\<rparr> in
       if pt = 3 then Inr (q\<lparr>ql_retry := Some (py_slice buf (int off) (- 16), py_from buf (- 16))\<rparr>)
       else
         rbind (if pt = 0 then
                  varint_at buf off (\<lambda>tl off. Inr (Some (take (nat tl) (drop off buf)), off + nat tl))
                else Inr (None, off)) (\<lambda>(token, off).
         varint_at buf off (\<lambda>len off.
           let remaining = take (nat len) (drop off buf);
               n = nat ((flags AND 3) + 1);
               payload = drop n remaining in
           rbind (if payload \<noteq> [] then parse_frames payload else Inr []) (\<lambda>fs.
             Inr (q\<lparr>ql_token := token, ql_length := Some len, ql_pkt_number := take n remaining,
               ql_data := payload, ql_frames := fs\<rparr>))))))))"

definition quic_short_unpack :: "bytes \<Rightarrow> nat \<Rightarrow> quic_short result" where
  "quic_short_unpack buf dl =
     rbind (byte_of buf 0) (\<lambda>flags.
       let po = 1 + dl; n = nat ((flags AND 3) + 1) in
       rbind (if po + n < length buf then parse_frames (drop (po + n) buf) else Inr []) (\<lambda>fs.
         Inr \<lparr>qs_flags = flags, qs_dcid = take dl (drop 1 buf), qs_pkt_number = take n (drop po buf),
              qs_frames = fs\<rparr>))"

datatype quic = Quic_Long quic_long | Quic_Short quic_short

text \<open>
  \<^verbatim>\<open>QUIC(buf, dcid_len=n)\<close>: the class of the object depends on the first bit; an empty buffer goes
  to the base class, which has no header table.
\<close>

definition quic_new :: "bytes \<Rightarrow> nat \<Rightarrow> quic result" where
  "quic_new buf dl =
     (case buf of
        [] \<Rightarrow> Inl AttributeError
      | b # _ \<Rightarrow>
          if b AND 0x80 \<noteq> 0 then rbind (quic_long_unpack buf) (\<lambda>q. Inr (Quic_Long q))
          else rbind (quic_short_unpack buf dl) (\<lambda>q. Inr (Quic_Short q)))"

text \<open>
  \<^verbatim>\<open>QUICLongHeader.decrypt\<close>: \<open>full\<close> says that the keys hold the client handshake secret. The
  result is the packet number, the payload and its frames.
\<close>

definition quic_decrypt :: "bool \<Rightarrow> quic_long \<Rightarrow> (int \<times> bytes \<times> quic_frame list) result" where
  "quic_decrypt full q =
     (let pn = (if full then ql_pkt_number q else take 1 (ql_pkt_number q));
          num = foldl (\<lambda>a b. push_bit 8 a OR ord b) 0 pn
      in rbind (if ql_data q \<noteq> [] then parse_frames (ql_data q) else Inr []) (\<lambda>fs.
           Inr (num, ql_data q, fs)))"

section \<open>Integers decode as they were encoded\<close>

lemma le_bytes_Suc: "le_bytes (Suc n) v = le_bytes n v @ [word_of_int (v div 256 ^ n)]"
proof (induction n arbitrary: v)
  case (Suc n)
  have "le_bytes (Suc (Suc n)) v = word_of_int v # le_bytes (Suc n) (v div 256)" by simp
  also have "\<dots> = word_of_int v # le_bytes n (v div 256) @ [word_of_int (v div 256 div 256 ^ n)]"
    by (simp only: Suc)
  finally show ?case by (simp add: zdiv_zmult2_eq)
qed simp

lemma be_bytes_hd: "be_bytes (Suc n) v = word_of_int (v div 256 ^ n) # be_bytes n v"
  unfolding be_bytes_def le_bytes_Suc by simp

lemma tag_or:
  fixes v t :: int
  assumes "0 \<le> v" "v < 2 ^ k"
  shows "v OR push_bit k t = v + 2 ^ k * t" "(v OR push_bit k t) AND (2 ^ k - 1) = v"
proof -
  have tv: "take_bit k v = v" using assms by (simp add: take_bit_int_eq_self)
  have low: "take_bit k (v OR push_bit k t) = v"
    unfolding take_bit_or tv by (rule bit_eqI) (auto simp: bit_simps)
  have "\<not> bit v (k + i)" for i by (metis bit_take_bit_iff not_add_less1 tv)
  then have "drop_bit k (v OR push_bit k t) = t"
    by (intro bit_eqI) (auto simp: bit_simps)
  then show "v OR push_bit k t = v + 2 ^ k * t"
    using bits_ident [of k "v OR push_bit k t"] low by (simp add: push_bit_eq_mult mult.commute)
  show "(v OR push_bit k t) AND (2 ^ k - 1) = v"
    using low by (simp add: and_mask_int take_bit_eq_mod)
qed

lemma tagged_bytes:
  fixes v t :: int
  assumes n: "n = Suc m" "k + 2 = 8 * n" and v: "0 \<le> v" "v < 2 ^ k" and t: "0 \<le> t" "t < 4"
  shows "pack_uint BE n (v OR push_bit k t) = Inr (be_bytes n (v OR push_bit k t))"
    "be_int (be_bytes n (v OR push_bit k t)) AND (2 ^ k - 1) = v"
    "drop_bit 6 (be_bytes n (v OR push_bit k t) ! 0) = word_of_int t"
proof -
  note w = tag_or [OF v, of t]
  have p: "(256 :: int) ^ n = 2 ^ k * 4"
  proof -
    have "(256 :: int) ^ n = 2 ^ (8 * n)" by (simp add: power_mult)
    also have "\<dots> = 2 ^ (k + 2)" by (simp only: n(2))
    finally show ?thesis by simp
  qed
  have le: "2 ^ k * t \<le> 2 ^ k * 3" using t(2) by (intro mult_left_mono) auto
  have r: "0 \<le> v + 2 ^ k * t" "v + 2 ^ k * t < 256 ^ n"
    using v t(1) p le mult_nonneg_nonneg [of "2 ^ k" t] by linarith+
  then show "pack_uint BE n (v OR push_bit k t) = Inr (be_bytes n (v OR push_bit k t))"
    by (simp add: pack_uint_eq int_bytes_def w(1))
  show "be_int (be_bytes n (v OR push_bit k t)) AND (2 ^ k - 1) = v"
    using r w by (simp add: be_int_be_bytes)
  have m: "(2 :: int) ^ k = 256 ^ m * 64"
  proof -
    have "k = 8 * m + 6" using n by simp
    then show ?thesis by (simp add: power_add power_mult)
  qed
  have "(v + 2 ^ k * t) div 256 ^ m = v div 256 ^ m + 64 * t"
    by (simp add: m mult.assoc add.commute)
  moreover have "v div 256 ^ m < 64"
  proof (rule ccontr)
    assume "\<not> v div 256 ^ m < 64"
    then have "256 ^ m * 64 \<le> 256 ^ m * (v div 256 ^ m)" by (intro mult_left_mono) auto
    moreover have "256 ^ m * (v div 256 ^ m) + v mod 256 ^ m = v" by (rule mult_div_mod_eq)
    moreover have "0 \<le> v mod 256 ^ m" by simp
    ultimately show False using v(2) m by linarith
  qed
  moreover have "0 \<le> v div 256 ^ m" using v(1) by (simp add: pos_imp_zdiv_nonneg_iff)
  ultimately have q: "(v + 2 ^ k * t) div 256 ^ m div 64 = t" "(v + 2 ^ k * t) div 256 ^ m < 256"
    "0 \<le> (v + 2 ^ k * t) div 256 ^ m"
    using t by auto
  have "uint (drop_bit 6 (word_of_int ((v + 2 ^ k * t) div 256 ^ m) :: byte)) =
      (v + 2 ^ k * t) div 256 ^ m div 64"
    using q(2,3) by (simp add: unsigned_drop_bit_eq uint_word_of_int drop_bit_int take_bit_eq_mod)
  then show "drop_bit 6 (be_bytes n (v OR push_bit k t) ! 0) = word_of_int t"
    unfolding n(1) be_bytes_hd w(1) nth_Cons_0 using q(1) by (metis word_of_int_uint)
qed

lemma small_varint: "0 \<le> v \<Longrightarrow> v \<le> 63 \<Longrightarrow>
  drop_bit 6 (word_of_int v :: byte) = 0 \<and> ord (word_of_int v) AND 63 = v"
proof -
  assume v: "0 \<le> v" "v \<le> 63"
  have "uint (drop_bit 6 (word_of_int v :: byte)) = 0"
    using v by (simp add: unsigned_drop_bit_eq uint_word_of_int drop_bit_int take_bit_eq_mod)
  then have "drop_bit 6 (word_of_int v :: byte) = 0" by (metis unsigned_0 word_uint_eq_iff)
  moreover have "v AND 63 = v" using and_mask_int [of v 6] v by simp
  ultimately show ?thesis using v by (simp add: ord_word_of_int)
qed

lemma varint_decode_encode:
  assumes "0 \<le> v" "v < 2 ^ 62"
  shows "\<exists>b. encode_varint v = Inr b \<and> 0 < length b \<and>
    (\<forall>pre rest. decode_varint (pre @ b @ rest) (length pre) = Inr (v, length b))"
proof -
  consider "v \<le> 63" | "63 < v" "v \<le> 16383" | "16383 < v" "v \<le> 1073741823" | "1073741823 < v" by linarith
  then show ?thesis
  proof cases
    case 1
    then show ?thesis using assms small_varint [of v]
      by (intro exI [of _ "[word_of_int v]"])
        (simp add: encode_varint_def decode_varint_def Let_def nth_append)
  next
    case 2
    have n: "2 = Suc 1" "14 + 2 = 8 * (2 :: nat)" by simp_all
    have "v < 2 ^ 14" using 2 by simp
    from tagged_bytes [OF n assms(1) this, of 1]
    show ?thesis using 2 assms(1)
      by (intro exI [of _ "be_bytes 2 (v OR push_bit 14 1)"])
        (auto simp: encode_varint_def decode_varint_def Let_def nth_append unpack_uint_def bytes_int_def
          simp del: be_bytes_def)
  next
    case 3
    have n: "4 = Suc 3" "30 + 2 = 8 * (4 :: nat)" by simp_all
    have "v < 2 ^ 30" using 3 by simp
    from tagged_bytes [OF n assms(1) this, of 2]
    show ?thesis using 3 assms(1)
      by (intro exI [of _ "be_bytes 4 (v OR push_bit 30 2)"])
        (auto simp: encode_varint_def decode_varint_def Let_def nth_append unpack_uint_def bytes_int_def)
  next
    case 4
    have n: "8 = Suc 7" "62 + 2 = 8 * (8 :: nat)" by simp_all
    from tagged_bytes [OF n assms, of 3]
    show ?thesis using 4 assms(1)
      by (intro exI [of _ "be_bytes 8 (v OR push_bit 62 3)"])
        (auto simp: encode_varint_def decode_varint_def Let_def nth_append unpack_uint_def bytes_int_def)
  qed
qed

section \<open>The wire form of frames\<close>

definition vint :: "int \<Rightarrow> bool" where
  "vint v \<longleftrightarrow> 0 \<le> v \<and> v < 2 ^ 62"

definition venc :: "int \<Rightarrow> bytes" where
  "venc v = (case encode_varint v of Inr b \<Rightarrow> b | Inl _ \<Rightarrow> [])"

lemma venc_ok:
  assumes "vint v"
  shows "encode_varint v = Inr (venc v)" "varint_len v = Inr (length (venc v))" "venc v \<noteq> []"
  using varint_decode_encode [of v] assms by (auto simp: vint_def venc_def varint_len_def)

lemma decode_at:
  assumes "vint v" "drop off buf = venc v @ rest"
  shows "decode_varint buf off = Inr (v, length (venc v))"
    "varint_at buf off f = f v (off + length (venc v))"
proof -
  have "off < length buf"
  proof (rule ccontr)
    assume "\<not> off < length buf"
    then show False using assms(2) venc_ok(3) [OF assms(1)] by simp
  qed
  then have b: "buf = take off buf @ venc v @ rest" "length (take off buf) = off"
    using assms(2) by (metis append_take_drop_id, simp)
  obtain c where c: "encode_varint v = Inr c"
    "\<forall>pre rest. decode_varint (pre @ c @ rest) (length pre) = Inr (v, length c)"
    using varint_decode_encode [of v] assms(1) unfolding vint_def by blast
  then have "c = venc v" by (simp add: venc_def)
  with c(2) have "decode_varint (take off buf @ venc v @ rest) (length (take off buf)) = Inr (v, length (venc v))"
    by blast
  then show d: "decode_varint buf off = Inr (v, length (venc v))"
    by (simp only: b(1) [symmetric] b(2))
  show "varint_at buf off f = f v (off + length (venc v))" by (simp add: varint_at_def d)
qed

definition pair_enc :: "int \<times> int \<Rightarrow> bytes" where
  "pair_enc p = venc (fst p) @ venc (snd p)"

fun frame_wire :: "quic_frame \<Rightarrow> bytes" where
  "frame_wire (Q_Frame t) = [word_of_int t]"
| "frame_wire (Q_Stream t sid offset len d) =
     word_of_int t # venc sid @ (if t AND 4 \<noteq> 0 then venc offset else []) @
       (if t AND 2 \<noteq> 0 then venc len else []) @ d"
| "frame_wire (Q_Crypto t offset len d rs) = word_of_int t # venc offset @ venc len @ d"
| "frame_wire (Q_Ack t largest delay cnt first bs) =
     word_of_int t # venc largest @ venc delay @ venc cnt @ venc first @ concat (map pair_enc bs)"
| "frame_wire (Q_MaxData t m) = word_of_int t # venc m"
| "frame_wire (Q_MaxStreamData t sid m) = word_of_int t # venc sid @ venc m"
| "frame_wire (Q_Close t code ft r) =
     word_of_int t # venc code @ (case ft of None \<Rightarrow> [] | Some v \<Rightarrow> venc v) @ venc (int (length r)) @ r"

text \<open>
  Frames that the loop reads back: one-byte frames, STREAM frames with the length bit and some data,
  CRYPTO frames, ACK frames.
\<close>

fun frame_ok :: "quic_frame \<Rightarrow> bool" where
  "frame_ok (Q_Frame t) = (0 < t \<and> t < 256 \<and> t \<notin> {2, 3, 6, 16, 17, 0x1c, 0x1d} \<and> \<not> (8 \<le> t \<and> t \<le> 15))"
| "frame_ok (Q_Stream t sid offset len d) =
     (8 \<le> t \<and> t \<le> 15 \<and> t AND 2 \<noteq> 0 \<and> vint sid \<and> vint offset \<and> (t AND 4 = 0 \<longrightarrow> offset = 0) \<and>
      vint len \<and> len = int (length d) \<and> d \<noteq> [])"
| "frame_ok (Q_Crypto t offset len d rs) =
     (t = 6 \<and> vint offset \<and> vint len \<and> len = int (length d) \<and> extract_tls d = Inr rs)"
| "frame_ok (Q_Ack t largest delay cnt first bs) =
     ((t = 2 \<or> t = 3) \<and> vint largest \<and> vint delay \<and> vint cnt \<and> vint first \<and> cnt = int (length bs) \<and>
      list_all (\<lambda>p. vint (fst p) \<and> vint (snd p)) bs)"
| "frame_ok _ = False"

lemma ack_blocks_wire:
  "list_all (\<lambda>p. vint (fst p) \<and> vint (snd p)) bs \<Longrightarrow> drop off buf = concat (map pair_enc bs) @ rest \<Longrightarrow>
   ack_blocks (length bs) buf off = Inr bs"
proof (induction bs arbitrary: off)
  case (Cons p bs)
  obtain g l where p: "p = (g, l)" by (cases p)
  let ?r = "concat (map pair_enc bs) @ rest"
  have v: "vint g" "vint l" using Cons.prems(1) p by auto
  have d1: "drop off buf = venc g @ venc l @ ?r"
    using Cons.prems(2) p by (simp add: pair_enc_def [of "(g, l)"])
  then have d2: "drop (off + length (venc g)) buf = venc l @ ?r"
    by (metis add.commute append_eq_conv_conj drop_drop)
  then have d3: "drop (off + length (venc g) + length (venc l)) buf = ?r"
    by (metis add.commute append_eq_conv_conj drop_drop)
  show ?case
    using Cons.IH [OF _ d3] Cons.prems(1) p
    by (simp add: decode_at(2) [OF v(1) d1] decode_at(2) [OF v(2) d2])
qed simp

lemma varint_lens_ok:
  "list_all vint vs \<Longrightarrow> varint_lens vs = Inr (sum_list (map (\<lambda>v. length (venc v)) vs))"
  by (induction vs) (auto simp: venc_ok(2))

lemma byte_of_type: "0 \<le> t \<Longrightarrow> t < 256 \<Longrightarrow> ord (word_of_int t) = t"
  by (simp add: ord_word_of_int)

lemma head_type_Cons [simp]: "head_type (b # bs) = Inr (ord b)"
  by (simp add: head_type_def)

lemma frame_parse_wire:
  assumes "frame_ok f"
  shows "get_frame_parser (frame_type f) (frame_wire f @ rest) = Inr f"
proof (cases f)
  case (Q_Frame t)
  then show ?thesis using assms by (auto simp: get_frame_parser_def base_unpack_def byte_of_type)
next
  case (Q_Stream t sid offset len d)
  then have v: "vint sid" "vint offset" "vint len" "ord (word_of_int t) = t"
    using assms by (auto simp: byte_of_type)
  define b where "b = frame_wire f @ rest"
  let ?o = "if t AND 4 \<noteq> 0 then venc offset else []"
  have b: "b = word_of_int t # venc sid @ ?o @ venc len @ d @ rest" using Q_Stream assms by (simp add: b_def)
  have d: "drop (Suc 0) b = venc sid @ ?o @ venc len @ d @ rest"
    "drop (Suc (length (venc sid))) b = ?o @ venc len @ d @ rest"
    "drop (Suc (length (venc sid) + length ?o)) b = venc len @ d @ rest"
    "drop (Suc (length (venc sid) + length ?o + length (venc len))) b = d @ rest"
    unfolding b by simp_all
  have "(if t AND 4 \<noteq> 0 then decode_varint b (Suc (length (venc sid))) else Inr (0, 0)) =
      Inr (offset, length ?o)"
    using decode_at(1) [OF v(2), of "Suc (length (venc sid))" b "venc len @ d @ rest"] d(2) Q_Stream assms
    by auto
  moreover have "head_type b = Inr t" unfolding b using v(4) by simp
  ultimately have "stream_unpack b = Inr f"
    using Q_Stream assms d(4)
    by (simp add: stream_unpack_def Let_def decode_at(2) [OF v(1) d(1)] decode_at(1) [OF v(3) d(3)]
        del: drop_drop)
  then show ?thesis using Q_Stream assms by (simp add: get_frame_parser_def b_def)
next
  case (Q_Crypto t offset len d rs)
  then have v: "vint offset" "vint len" "ord (word_of_int t) = t" using assms by (auto simp: byte_of_type)
  define b where "b = frame_wire f @ rest"
  have b: "b = word_of_int t # venc offset @ venc len @ d @ rest" using Q_Crypto by (simp add: b_def)
  have d: "drop (Suc 0) b = venc offset @ venc len @ d @ rest"
    "drop (Suc (length (venc offset))) b = venc len @ d @ rest"
    "drop (Suc (length (venc offset) + length (venc len))) b = d @ rest"
    unfolding b by simp_all
  moreover have "head_type b = Inr t" unfolding b using v(3) by simp
  ultimately have "crypto_unpack b = Inr f"
    using Q_Crypto assms
    by (simp add: crypto_unpack_def Let_def decode_at(2) [OF v(1) d(1)] decode_at(2) [OF v(2) d(2)]
        del: drop_drop)
  then show ?thesis using Q_Crypto assms by (simp add: get_frame_parser_def b_def)
next
  case (Q_Ack t largest delay cnt first bs)
  then have v: "vint largest" "vint delay" "vint cnt" "vint first" "ord (word_of_int t) = t"
    using assms by (auto simp: byte_of_type)
  define b where "b = frame_wire f @ rest"
  let ?r = "concat (map pair_enc bs) @ rest"
  have b: "b = word_of_int t # venc largest @ venc delay @ venc cnt @ venc first @ ?r"
    using Q_Ack by (simp add: b_def)
  have d: "drop (Suc 0) b = venc largest @ venc delay @ venc cnt @ venc first @ ?r"
    "drop (Suc (length (venc largest))) b = venc delay @ venc cnt @ venc first @ ?r"
    "drop (Suc (length (venc largest) + length (venc delay))) b = venc cnt @ venc first @ ?r"
    "drop (Suc (length (venc largest) + length (venc delay) + length (venc cnt))) b = venc first @ ?r"
    "drop (Suc (length (venc largest) + length (venc delay) + length (venc cnt) + length (venc first))) b = ?r"
    unfolding b by simp_all
  moreover have "head_type b = Inr t" unfolding b using v(5) by simp
  moreover have "list_all (\<lambda>p. vint (fst p) \<and> vint (snd p)) bs" using Q_Ack assms by simp
  moreover have n: "nat cnt = length bs" using Q_Ack assms by simp
  ultimately have "ack_unpack b = Inr f"
    using Q_Ack n ack_blocks_wire [OF _ d(5)]
    by (simp add: ack_unpack_def decode_at(2) [OF v(1) d(1)] decode_at(2) [OF v(2) d(2)]
        decode_at(2) [OF v(3) d(3)] decode_at(2) [OF v(4) d(4)] del: drop_drop)
  then show ?thesis using Q_Ack assms by (auto simp: get_frame_parser_def b_def)
qed (use assms in auto)

lemma pair_lens:
  "sum_list (map (\<lambda>v. length (venc v)) (concat (map (\<lambda>(g, l). [g, l]) bs))) = length (concat (map pair_enc bs))"
  by (induction bs) (auto simp: pair_enc_def)

lemma frame_size_wire:
  assumes "frame_ok f"
  shows "frame_byte_size f = Inr (length (frame_wire f))"
proof (cases f)
  case (Q_Ack t largest delay cnt first bs)
  have "list_all vint (concat (map (\<lambda>(g, l). [g, l]) bs))"
    using assms Q_Ack by (auto simp: list_all_iff)
  moreover have "vint largest" "vint delay" "vint cnt" "vint first" using assms Q_Ack by auto
  ultimately have "list_all vint ([largest, delay, cnt, first] @ concat (map (\<lambda>(g, l). [g, l]) bs))"
    by simp
  from varint_lens_ok [OF this] show ?thesis
    using assms Q_Ack by (auto simp: frame_byte_size_def pair_lens simp del: varint_lens.simps)
qed (use assms in \<open>auto simp: frame_byte_size_def varint_lens_ok venc_ok(2)\<close>)

lemma byte_of_type_ne: "0 < t \<Longrightarrow> t < 256 \<Longrightarrow> (word_of_int t :: byte) \<noteq> 0"
  using byte_of_type [of t] by (auto simp: ord_def)

lemma frame_wire_head: "frame_ok f \<Longrightarrow> \<exists>t r. frame_wire f = t # r \<and> ord t = frame_type f \<and> t \<noteq> 0"
  by (cases f) (auto simp: byte_of_type byte_of_type_ne)

lemma parse_frames_step:
  assumes "frame_ok f"
  shows "parse_frames (frame_wire f @ rest) = rbind (parse_frames rest) (\<lambda>fs. Inr (f # fs))"
proof -
  obtain t r where t: "frame_wire f = t # r" "ord t = frame_type f" "t \<noteq> 0"
    using frame_wire_head [OF assms] by blast
  have "get_frame_parser (ord t) ((t # r) @ rest) = Inr f"
    using frame_parse_wire [OF assms, of rest] t by simp
  moreover have "frame_byte_size f = Inr (Suc (length r))"
    using frame_size_wire [OF assms] t by simp
  ultimately show ?thesis using t by (simp add: parse_frames.simps [of "t # r @ rest"])
qed

lemma parse_frames_wire:
  "list_all frame_ok fs \<Longrightarrow> parse_frames (concat (map frame_wire fs)) = Inr fs"
proof (induction fs)
  case Nil
  show ?case by (simp add: parse_frames.simps)
next
  case (Cons f fs)
  then show ?case by (simp add: parse_frames_step)
qed

section \<open>HTTP/3 frames\<close>

text \<open>
  \<^verbatim>\<open>dpkt/http3.py\<close>: one constructor per class; all have the type and the length. The last one is the
  base class.
\<close>

datatype http3_frame =
    H3_Data int int bytes
  | H3_Headers int int bytes
  | H3_Settings int int "(int \<times> int) list"
  | H3_Goaway int int int
  | H3_PushPromise int int int bytes
  | H3_CancelPush int int int
  | H3_MaxPushId int int int
  | H3_Frame int int

text \<open>The type, the length, and the offset behind them.\<close>

definition http3_head :: "bytes \<Rightarrow> nat \<Rightarrow> (int \<Rightarrow> int \<Rightarrow> nat \<Rightarrow> 'a result) \<Rightarrow> 'a result" where
  "http3_head buf off f = varint_at buf off (\<lambda>t off. varint_at buf off (\<lambda>len off. f t len off))"

lemma decode_varint_pos: "decode_varint buf off = Inr (v, n) \<Longrightarrow> 0 < n"
  by (auto simp: decode_varint_def Let_def result_simps split: if_splits)

function http3_settings :: "bytes \<Rightarrow> nat \<Rightarrow> nat \<Rightarrow> (int \<times> int) list result" where
  "http3_settings buf off lim =
     (if off + 2 \<le> lim then
        rbind (decode_varint buf off) (\<lambda>(sid, n).
        rbind (decode_varint buf (off + n)) (\<lambda>(v, m).
        rbind (http3_settings buf (off + n + m) lim) (\<lambda>ss. Inr ((sid, v) # ss))))
      else Inr [])"
  by pat_completeness auto

termination
  by (relation "measure (\<lambda>(buf, off, lim). lim - off)") (auto dest!: decode_varint_pos)

declare http3_settings.simps [simp del]

definition http3_frame_unpack :: "int \<Rightarrow> bytes \<Rightarrow> http3_frame result" where
  "http3_frame_unpack ftype buf =
     http3_head buf 0 (\<lambda>t len off.
       let d = take (nat len) (drop off buf) in
       if ftype = 0 then Inr (H3_Data t len d)
       else if ftype = 1 then Inr (H3_Headers t len d)
       else if ftype = 4 then
         rbind (http3_settings buf off (off + nat len)) (\<lambda>ss. Inr (H3_Settings t len ss))
       else if ftype = 7 then varint_at buf off (\<lambda>v _. Inr (H3_Goaway t len v))
       else if ftype = 5 then
         rbind (decode_varint buf off) (\<lambda>(v, p).
           Inr (H3_PushPromise t len v (take (nat (len - int p)) (drop (off + p) buf))))
       else if ftype = 3 then varint_at buf off (\<lambda>v _. Inr (H3_CancelPush t len v))
       else if ftype = 13 then varint_at buf off (\<lambda>v _. Inr (H3_MaxPushId t len v))
       else Inr (H3_Frame t len))"

text \<open>\<^verbatim>\<open>parse_http3_frames\<close>: each frame is cut out of the buffer by its own length; errors pass.\<close>

function parse_http3_frames :: "bytes \<Rightarrow> http3_frame list result" where
  "parse_http3_frames buf =
     (if buf = [] then Inr []
      else
        rbind (decode_varint buf 0) (\<lambda>(t, n).
        rbind (decode_varint buf n) (\<lambda>(len, m).
          let total = n + m + nat len in
          rbind (http3_frame_unpack t (take total buf)) (\<lambda>f.
          rbind (parse_http3_frames (drop total buf)) (\<lambda>fs. Inr (f # fs))))))"
  by pat_completeness auto

termination
  by (relation "measure length") (auto dest!: decode_varint_pos)

declare parse_http3_frames.simps [simp del]

text \<open>\<^verbatim>\<open>bytes(frame)\<close>: only DATA frames pack, the base class and the others give no bytes.\<close>

fun http3_bytes :: "http3_frame \<Rightarrow> bytes result" where
  "http3_bytes (H3_Data t len d) =
     rbind (encode_varint t) (\<lambda>a. rbind (encode_varint (int (length d))) (\<lambda>b. Inr (a @ b @ d)))"
| "http3_bytes _ = Inr []"

text \<open>The wire form of the frames, and the frames that have one.\<close>

fun http3_body :: "http3_frame \<Rightarrow> bytes" where
  "http3_body (H3_Data t len d) = d"
| "http3_body (H3_Headers t len d) = d"
| "http3_body (H3_Settings t len ss) = concat (map pair_enc ss)"
| "http3_body (H3_Goaway t len v) = venc v"
| "http3_body (H3_PushPromise t len v d) = venc v @ d"
| "http3_body (H3_CancelPush t len v) = venc v"
| "http3_body (H3_MaxPushId t len v) = venc v"
| "http3_body (H3_Frame t len) = []"

fun http3_type :: "http3_frame \<Rightarrow> int" where
  "http3_type (H3_Data t _ _) = t"
| "http3_type (H3_Headers t _ _) = t"
| "http3_type (H3_Settings t _ _) = t"
| "http3_type (H3_Goaway t _ _) = t"
| "http3_type (H3_PushPromise t _ _ _) = t"
| "http3_type (H3_CancelPush t _ _) = t"
| "http3_type (H3_MaxPushId t _ _) = t"
| "http3_type (H3_Frame t _) = t"

fun http3_length :: "http3_frame \<Rightarrow> int" where
  "http3_length (H3_Data _ n _) = n"
| "http3_length (H3_Headers _ n _) = n"
| "http3_length (H3_Settings _ n _) = n"
| "http3_length (H3_Goaway _ n _) = n"
| "http3_length (H3_PushPromise _ n _ _) = n"
| "http3_length (H3_CancelPush _ n _) = n"
| "http3_length (H3_MaxPushId _ n _) = n"
| "http3_length (H3_Frame _ n) = n"

definition http3_wire :: "http3_frame \<Rightarrow> bytes" where
  "http3_wire f = venc (http3_type f) @ venc (http3_length f) @ http3_body f"

fun http3_fields_ok :: "http3_frame \<Rightarrow> bool" where
  "http3_fields_ok (H3_Data t _ _) = (t = 0)"
| "http3_fields_ok (H3_Headers t _ _) = (t = 1)"
| "http3_fields_ok (H3_Settings t _ ss) = (t = 4 \<and> list_all (\<lambda>p. vint (fst p) \<and> vint (snd p)) ss)"
| "http3_fields_ok (H3_Goaway t _ v) = (t = 7 \<and> vint v)"
| "http3_fields_ok (H3_PushPromise t _ v _) = (t = 5 \<and> vint v)"
| "http3_fields_ok (H3_CancelPush t _ v) = (t = 3 \<and> vint v)"
| "http3_fields_ok (H3_MaxPushId t _ v) = (t = 13 \<and> vint v)"
| "http3_fields_ok (H3_Frame t _) = (vint t \<and> t \<notin> {0, 1, 3, 4, 5, 7, 13})"

definition http3_ok :: "http3_frame \<Rightarrow> bool" where
  "http3_ok f \<longleftrightarrow> http3_fields_ok f \<and> vint (http3_length f) \<and> http3_length f = int (length (http3_body f))"

lemma http3_settings_wire:
  "list_all (\<lambda>p. vint (fst p) \<and> vint (snd p)) ss \<Longrightarrow> drop off buf = concat (map pair_enc ss) \<Longrightarrow>
   http3_settings buf off (off + length (concat (map pair_enc ss))) = Inr ss"
proof (induction ss arbitrary: off)
  case Nil
  then show ?case by (simp add: http3_settings.simps)
next
  case (Cons p ss)
  obtain g l where p: "p = (g, l)" by (cases p)
  let ?r = "concat (map pair_enc ss)"
  have v: "vint g" "vint l" using Cons.prems(1) p by auto
  have d1: "drop off buf = venc g @ venc l @ ?r"
    using Cons.prems(2) p by (simp add: pair_enc_def [of "(g, l)"])
  then have d2: "drop (off + length (venc g)) buf = venc l @ ?r"
    by (metis add.commute append_eq_conv_conj drop_drop)
  then have d3: "drop (off + length (venc g) + length (venc l)) buf = ?r"
    by (metis add.commute append_eq_conv_conj drop_drop)
  have lens: "0 < length (venc g)" "0 < length (venc l)" using venc_ok(3) v by auto
  have "length (concat (map pair_enc (p # ss))) = length (venc g) + length (venc l) + length ?r"
    by (simp add: p pair_enc_def [of "(g, l)"])
  with lens have "off + 2 \<le> off + length (concat (map pair_enc (p # ss)))" by linarith
  then show ?case
    using Cons.IH [OF _ d3] Cons.prems(1) p
    by (subst http3_settings.simps)
      (simp add: decode_at(1) [OF v(1) d1] decode_at(1) [OF v(2) d2] pair_enc_def [of "(g, l)"] add.assoc)
qed

lemma http3_unpack_wire:
  assumes "http3_ok f"
  shows "http3_frame_unpack (http3_type f) (http3_wire f) = Inr f"
proof -
  define b where "b = http3_wire f"
  have t: "vint (http3_type f)" using assms by (cases f) (auto simp: http3_ok_def vint_def)
  have l: "vint (http3_length f)" using assms by (auto simp: http3_ok_def)
  let ?o = "length (venc (http3_type f)) + length (venc (http3_length f))"
  have d: "drop 0 b = venc (http3_type f) @ venc (http3_length f) @ http3_body f"
    "drop (0 + length (venc (http3_type f))) b = venc (http3_length f) @ http3_body f"
    "drop ?o b = http3_body f"
    by (simp_all add: b_def http3_wire_def)
  have head: "http3_head b 0 g = g (http3_type f) (http3_length f) ?o" for g :: "int \<Rightarrow> int \<Rightarrow> nat \<Rightarrow> 'b result"
    unfolding http3_head_def decode_at(2) [OF t d(1)] decode_at(2) [OF l d(2)] by simp
  have one: "decode_varint b ?o = Inr (v, length (venc v))" "varint_at b ?o g = g v (?o + length (venc v))"
    if "vint v" "http3_body f = venc v @ r" for v r and g :: "int \<Rightarrow> nat \<Rightarrow> 'b result"
    using decode_at [OF that(1), of ?o b r] d(3) that(2) by auto
  have "http3_frame_unpack (http3_type f) b = Inr f"
  proof (cases f)
    case (H3_Settings t n ss)
    then have "http3_settings b ?o (?o + length (http3_body f)) = Inr ss"
      using http3_settings_wire [of ss ?o b] assms d(3) by (simp add: http3_ok_def)
    then show ?thesis using H3_Settings assms unfolding http3_frame_unpack_def head
      by (simp add: http3_ok_def Let_def)
  next
    case (H3_Goaway t n v)
    then show ?thesis using assms one [of v "[]"] unfolding http3_frame_unpack_def head
      by (simp add: http3_ok_def Let_def)
  next
    case (H3_CancelPush t n v)
    then show ?thesis using assms one [of v "[]"] unfolding http3_frame_unpack_def head
      by (simp add: http3_ok_def Let_def)
  next
    case (H3_MaxPushId t n v)
    then show ?thesis using assms one [of v "[]"] unfolding http3_frame_unpack_def head
      by (simp add: http3_ok_def Let_def)
  next
    case (H3_PushPromise t n v r)
    moreover have "drop (?o + length (venc v)) b = r"
      using d(3) H3_PushPromise by (metis add.commute append_eq_conv_conj drop_drop http3_body.simps(5))
    ultimately show ?thesis using assms one(1) [of v r] unfolding http3_frame_unpack_def head
      by (simp add: http3_ok_def Let_def)
  qed (use assms d(3) in \<open>simp_all add: http3_frame_unpack_def head http3_ok_def Let_def\<close>)
  then show ?thesis by (simp add: b_def)
qed

lemma parse_http3_step:
  assumes "http3_ok f"
  shows "parse_http3_frames (http3_wire f @ rest) = rbind (parse_http3_frames rest) (\<lambda>fs. Inr (f # fs))"
proof -
  define b where "b = http3_wire f @ rest"
  have t: "vint (http3_type f)" using assms by (cases f) (auto simp: http3_ok_def vint_def)
  have l: "vint (http3_length f)" using assms by (auto simp: http3_ok_def)
  have d: "drop 0 b = venc (http3_type f) @ venc (http3_length f) @ http3_body f @ rest"
    "drop (length (venc (http3_type f))) b = venc (http3_length f) @ http3_body f @ rest"
    by (simp_all add: b_def http3_wire_def)
  have n: "length (venc (http3_type f)) + length (venc (http3_length f)) + nat (http3_length f) = length (http3_wire f)"
    using assms by (simp add: http3_ok_def http3_wire_def)
  have "b \<noteq> []" using d(1) venc_ok(3) [OF t] by auto
  moreover have "take (length (http3_wire f)) b = http3_wire f" "drop (length (http3_wire f)) b = rest"
    by (simp_all add: b_def)
  ultimately have "parse_http3_frames b = rbind (parse_http3_frames rest) (\<lambda>fs. Inr (f # fs))"
    using decode_at(1) [OF t d(1)] decode_at(1) [OF l d(2)] http3_unpack_wire [OF assms]
    by (subst parse_http3_frames.simps) (simp add: Let_def n)
  then show ?thesis by (simp add: b_def)
qed

section \<open>Properties\<close>

text \<open>
  An integer from 0 to \<open>2 ^ 62 - 1\<close> is encoded, and decoding at its place gives it back with the
  number of bytes it takes.
\<close>

theorem quic_varint_roundtrip:
  assumes "0 \<le> v" "v < 2 ^ 62"
  shows "\<exists>b. encode_varint v = Inr b \<and>
    (\<forall>pre rest. decode_varint (pre @ b @ rest) (length pre) = Inr (v, length b))"
  using varint_decode_encode [OF assms] by blast

theorem quic_varint_roundtrip_witness:
  "\<exists>b. encode_varint 100000 = Inr b \<and>
     (\<forall>pre rest. decode_varint (pre @ b @ rest) (length pre) = Inr (100000, length b))"
  by (rule quic_varint_roundtrip) simp_all



text \<open>
  After a MAX_DATA frame the loop advances by the type byte only, so the bytes of the limit are
  parsed again as frames.
\<close>

theorem quic_max_data_misparsed:
  assumes "decode_varint (16 # r) 1 = Inr (m, n)"
  shows "parse_frames (16 # r) = rbind (parse_frames r) (\<lambda>fs. Inr (Q_MaxData 16 m # fs))"
  using assms
  by (subst parse_frames.simps)
    (simp add: get_frame_parser_def max_data_unpack_def varint_at_def frame_byte_size_def)

theorem quic_max_data_misparsed_witness:
  "parse_frames [16, 1, 1] = Inr [Q_MaxData 16 1, Q_Frame 1, Q_Frame 1]"
proof -
  have d: "decode_varint [16, 1, 1] 1 = Inr (1, 1)"
    using varint_decode_encode [of 1] by (simp add: decode_varint_def ord_def)
  have f: "parse_frames (1 # r) = rbind (parse_frames r) (\<lambda>fs. Inr (Q_Frame 1 # fs))" for r
    by (subst parse_frames.simps) (simp add: get_frame_parser_def base_unpack_def frame_byte_size_def ord_def)
  have "parse_frames [] = Inr []" by (simp add: parse_frames.simps)
  then show ?thesis using quic_max_data_misparsed [OF d] f by simp
qed

text \<open>
  Parsing a sequence of encoded HTTP/3 frames gives the frames back: DATA, HEADERS, SETTINGS,
  GOAWAY, PUSH_PROMISE, CANCEL_PUSH, MAX_PUSH_ID and empty frames of unknown types.
\<close>

theorem http3_frames_roundtrip:
  assumes "list_all http3_ok fs"
  shows "parse_http3_frames (concat (map http3_wire fs)) = Inr fs"
  using assms
proof (induction fs)
  case Nil
  show ?case by (simp add: parse_http3_frames.simps)
next
  case (Cons f fs)
  then show ?case by (simp add: parse_http3_step)
qed

theorem http3_frames_roundtrip_witness:
  "parse_http3_frames (concat (map http3_wire [H3_Data 0 3 [71, 69, 84], H3_Headers 1 2 [1, 2]])) =
     Inr [H3_Data 0 3 [71, 69, 84], H3_Headers 1 2 [1, 2]]"
  by (rule http3_frames_roundtrip) (simp add: http3_ok_def vint_def)

end
