(* ===== verification/Pcap.thy ===== *)
theory Pcap
  imports Complex_Main Packet
begin

text \<open>
  The libpcap file format, \<^verbatim>\<open>dpkt/pcap.py\<close>: the file header and the packet headers, the writer
  and the reader. A file is the bytes written so far (writer) or still to be read (reader).

  Timestamps are exact rational numbers, which is what \<^verbatim>\<open>Decimal\<close> and \<^verbatim>\<open>Fraction\<close> timestamps
  are; where the code computes with floats, the model gives the value before it is rounded to a
  float. The byte order of the host is a parameter of the writer. The link types are those of
  every platform but OpenBSD.
\<close>

section \<open>Python's numbers and files\<close>

text \<open>
  \<open>round_even\<close> is \<^verbatim>\<open>round\<close>, to the nearest integer and a tie to the even one; \<open>trunc\<close> is
  \<^verbatim>\<open>int\<close>, towards zero; \<open>frac1\<close> is \<^verbatim>\<open>x % 1\<close>, which is never negative.
\<close>

definition round_even :: "rat \<Rightarrow> int" where
  "round_even x =
     (let f = \<lfloor>x\<rfloor>; d = x - of_int f in
      if d < 1 / 2 then f else if 1 / 2 < d then f + 1 else if even f then f else f + 1)"

definition trunc :: "rat \<Rightarrow> int" where
  "trunc x = (if 0 \<le> x then \<lfloor>x\<rfloor> else \<lceil>x\<rceil>)"

definition frac1 :: "rat \<Rightarrow> rat" where
  "frac1 x = x - of_int \<lfloor>x\<rfloor>"

text \<open>\<^verbatim>\<open>f.read(n)\<close>: a negative \<open>n\<close> reads to the end.\<close>

definition file_read :: "int \<Rightarrow> bytes \<Rightarrow> bytes \<times> bytes" where
  "file_read n f = (if n < 0 then (f, []) else (take (nat n) f, drop (nat n) f))"

lemma file_read_nat [simp]: "file_read (int n) f = (take n f, drop n f)"
  by (simp add: file_read_def)

lemma file_read_numeral [simp]: "file_read (numeral k) f = (take (numeral k) f, drop (numeral k) f)"
  by (simp add: file_read_def)

lemma file_read_append: "file_read n f = (a, b) \<Longrightarrow> a @ b = f"
  by (auto simp: file_read_def split: if_splits)

lemma round_even_close: "\<bar>of_int (round_even x) - x\<bar> \<le> 1 / 2"
proof -
  have "of_int \<lfloor>x\<rfloor> \<le> x" "x < of_int \<lfloor>x\<rfloor> + 1" by linarith+
  then show ?thesis unfolding round_even_def Let_def by (auto simp: abs_le_iff)
qed

section \<open>Headers\<close>

definition TCPDUMP_MAGIC :: int where "TCPDUMP_MAGIC = 0xa1b2c3d4"
definition TCPDUMP_MAGIC_NANO :: int where "TCPDUMP_MAGIC_NANO = 0xa1b23c4d"
definition MODPCAP_MAGIC :: int where "MODPCAP_MAGIC = 0xa1b2cd34"
definition PMUDPCT_MAGIC :: int where "PMUDPCT_MAGIC = 0xd4c3b2a1"
definition PMUDPCT_MAGIC_NANO :: int where "PMUDPCT_MAGIC_NANO = 0x4d3cb2a1"
definition PACPDOM_MAGIC :: int where "PACPDOM_MAGIC = 0x34cdb2a1"

lemmas magic_defs = TCPDUMP_MAGIC_def TCPDUMP_MAGIC_NANO_def MODPCAP_MAGIC_def PMUDPCT_MAGIC_def
  PMUDPCT_MAGIC_NANO_def PACPDOM_MAGIC_def

text \<open>The length of the link header of some link types, on every platform but OpenBSD.\<close>

definition dltoff :: "(int \<times> int) list" where
  "dltoff = [(0, 4), (1, 14), (6, 22), (7, 6), (8, 16), (9, 4), (10, 21), (117, 48), (18, 4),
     (108, 4), (113, 16), (276, 20)]"

record file_hdr =
  fh_magic :: int
  fh_v_major :: int
  fh_v_minor :: int
  fh_thiszone :: int
  fh_sigfigs :: int
  fh_snaplen :: int
  fh_linktype :: int
  fh_data :: bytes

definition file_hdr_hdr :: hdr where
  "file_hdr_hdr = [(''magic'', fI, VInt TCPDUMP_MAGIC), (''v_major'', fH, VInt 2),
     (''v_minor'', fH, VInt 4), (''thiszone'', fI, VInt 0), (''sigfigs'', fI, VInt 0),
     (''snaplen'', fI, VInt 1500), (''linktype'', fI, VInt 1)]"

definition file_hdr_vals :: "file_hdr \<Rightarrow> pval list" where
  "file_hdr_vals h = [VInt (fh_magic h), VInt (fh_v_major h), VInt (fh_v_minor h),
     VInt (fh_thiszone h), VInt (fh_sigfigs h), VInt (fh_snaplen h), VInt (fh_linktype h)]"

definition file_hdr_make :: "pval list \<Rightarrow> bytes \<Rightarrow> file_hdr" where
  "file_hdr_make vs d = \<lparr>fh_magic = ival (vs ! 0), fh_v_major = ival (vs ! 1),
     fh_v_minor = ival (vs ! 2), fh_thiszone = ival (vs ! 3), fh_sigfigs = ival (vs ! 4),
     fh_snaplen = ival (vs ! 5), fh_linktype = ival (vs ! 6), fh_data = d\<rparr>"

record pkt_hdr =
  ph_tv_sec :: int
  ph_tv_usec :: int
  ph_caplen :: int
  ph_len :: int
  ph_data :: bytes

definition pkt_hdr_hdr :: hdr where
  "pkt_hdr_hdr = [(''tv_sec'', fI, VInt 0), (''tv_usec'', fI, VInt 0), (''caplen'', fI, VInt 0),
     (''len'', fI, VInt 0)]"

definition pkt_hdr_vals :: "pkt_hdr \<Rightarrow> pval list" where
  "pkt_hdr_vals h = [VInt (ph_tv_sec h), VInt (ph_tv_usec h), VInt (ph_caplen h), VInt (ph_len h)]"

definition pkt_hdr_make :: "pval list \<Rightarrow> bytes \<Rightarrow> pkt_hdr" where
  "pkt_hdr_make vs d = \<lparr>ph_tv_sec = ival (vs ! 0), ph_tv_usec = ival (vs ! 1),
     ph_caplen = ival (vs ! 2), ph_len = ival (vs ! 3), ph_data = d\<rparr>"

record pkt_mod_hdr = pkt_hdr +
  ph_ifindex :: int
  ph_protocol :: int
  ph_pkt_type :: int
  ph_pad :: int

definition pkt_mod_hdr_hdr :: hdr where
  "pkt_mod_hdr_hdr = [(''tv_sec'', fI, VInt 0), (''tv_usec'', fI, VInt 0),
     (''caplen'', fI, VInt 0), (''len'', fI, VInt 0), (''ifindex'', fI, VInt 0),
     (''protocol'', fH, VInt 0), (''pkt_type'', fB, VInt 0), (''pad'', fB, VInt 0)]"

definition pkt_mod_hdr_vals :: "pkt_mod_hdr \<Rightarrow> pval list" where
  "pkt_mod_hdr_vals h = [VInt (ph_tv_sec h), VInt (ph_tv_usec h), VInt (ph_caplen h),
     VInt (ph_len h), VInt (ph_ifindex h), VInt (ph_protocol h), VInt (ph_pkt_type h),
     VInt (ph_pad h)]"

definition pkt_mod_hdr_make :: "pval list \<Rightarrow> bytes \<Rightarrow> pkt_mod_hdr" where
  "pkt_mod_hdr_make vs d = \<lparr>ph_tv_sec = ival (vs ! 0), ph_tv_usec = ival (vs ! 1),
     ph_caplen = ival (vs ! 2), ph_len = ival (vs ! 3), ph_data = d, ph_ifindex = ival (vs ! 4),
     ph_protocol = ival (vs ! 5), ph_pkt_type = ival (vs ! 6), ph_pad = ival (vs ! 7)\<rparr>"

lemma pcap_hdr_lens [hdr_simps, simp]:
  "hdr_len file_hdr_hdr = 24" "hdr_len pkt_hdr_hdr = 16" "hdr_len pkt_mod_hdr_hdr = 24"
  by (simp_all add: file_hdr_hdr_def pkt_hdr_hdr_def pkt_mod_hdr_hdr_def)

interpretation file_hdr_class: packet_class bo file_hdr_hdr file_hdr_vals file_hdr_make fh_data for bo
  by unfold_locales
    (auto simp: file_hdr_hdr_def file_hdr_vals_def file_hdr_make_def fmt_ok_def hdr_simps)

interpretation pkt_hdr_class: packet_class bo pkt_hdr_hdr pkt_hdr_vals pkt_hdr_make ph_data for bo
  by unfold_locales
    (auto simp: pkt_hdr_hdr_def pkt_hdr_vals_def pkt_hdr_make_def fmt_ok_def hdr_simps)

interpretation pkt_mod_hdr_class:
  packet_class bo pkt_mod_hdr_hdr pkt_mod_hdr_vals pkt_mod_hdr_make ph_data for bo
  by unfold_locales
    (auto simp: pkt_mod_hdr_hdr_def pkt_mod_hdr_vals_def pkt_mod_hdr_make_def fmt_ok_def hdr_simps)

text \<open>
  The classes \<^verbatim>\<open>FileHdr\<close> and \<^verbatim>\<open>LEFileHdr\<close> differ in their byte order, and so do the packet header
  classes; a packet header class is a byte order and whether it is the modified one.
\<close>

definition file_hdr_init :: "endian \<Rightarrow> bytes \<Rightarrow> file_hdr result" where
  "file_hdr_init bo = packet_init 24 (packet_unpack bo file_hdr_hdr file_hdr_make)"

type_synonym pkt_class = "endian \<times> bool"

definition pkt_class_len :: "pkt_class \<Rightarrow> nat" where
  "pkt_class_len c = hdr_len (if snd c then pkt_mod_hdr_hdr else pkt_hdr_hdr)"

definition pkt_hdr_init :: "pkt_class \<Rightarrow> bytes \<Rightarrow> pkt_hdr result" where
  "pkt_hdr_init c buf =
     (if snd c
      then rbind (packet_init 24 (packet_unpack (fst c) pkt_mod_hdr_hdr pkt_mod_hdr_make) buf)
        (\<lambda>h. Inr (pkt_hdr.truncate h))
      else packet_init 16 (packet_unpack (fst c) pkt_hdr_hdr pkt_hdr_make) buf)"

definition MAGIC_TO_PKT_HDR :: "(int \<times> pkt_class) list" where
  "MAGIC_TO_PKT_HDR =
     [(TCPDUMP_MAGIC, (BE, False)), (TCPDUMP_MAGIC_NANO, (BE, False)), (MODPCAP_MAGIC, (BE, True)),
      (PMUDPCT_MAGIC, (LE, False)), (PMUDPCT_MAGIC_NANO, (LE, False)), (PACPDOM_MAGIC, (LE, True))]"

section \<open>The writer\<close>

record pcap_writer =
  pw_file :: bytes
  pw_order :: endian
  pw_multiplier :: int

definition pcap_writer_init :: "endian \<Rightarrow> bytes \<Rightarrow> int \<Rightarrow> int \<Rightarrow> bool \<Rightarrow> pcap_writer result" where
  "pcap_writer_init host f snaplen linktype nano =
     (let precision = (if nano then 9 else 6);
          magic = (if nano then TCPDUMP_MAGIC_NANO else TCPDUMP_MAGIC);
          fh = packet_kwargs file_hdr_hdr
            [(''snaplen'', VInt snaplen), (''linktype'', VInt linktype), (''magic'', VInt magic)]
      in rbind (packet_bytes host file_hdr_hdr fh []) (\<lambda>b.
        Inr \<lparr>pw_file = f @ b, pw_order = host, pw_multiplier = 10 ^ precision\<rparr>))"

text \<open>One packet; \<^verbatim>\<open>_pack_hdr\<close> is \<^verbatim>\<open>struct.pack\<close>, so its errors are those of \<^verbatim>\<open>struct\<close>.\<close>

definition pcap_writepkt_time :: "pcap_writer \<Rightarrow> bytes \<Rightarrow> rat \<Rightarrow> pcap_writer result" where
  "pcap_writepkt_time w pkt ts =
     (let n = int (length pkt);
          sec = trunc ts;
          usec = round_even (frac1 ts * of_int (pw_multiplier w))
      in rbind (struct_pack (pw_order w) (hdr_fmt pkt_hdr_hdr) [VInt sec, VInt usec, VInt n, VInt n])
        (\<lambda>ph. Inr (w\<lparr>pw_file := pw_file w @ (ph @ pkt)\<rparr>)))"

text \<open>\<^verbatim>\<open>writepkt\<close>: \<open>now\<close> is the value of the clock.\<close>

definition pcap_writepkt :: "rat \<Rightarrow> pcap_writer \<Rightarrow> bytes \<Rightarrow> rat option \<Rightarrow> pcap_writer result" where
  "pcap_writepkt now w pkt ts =
     pcap_writepkt_time w pkt (case ts of None \<Rightarrow> now | Some t \<Rightarrow> t)"

text \<open>\<^verbatim>\<open>writepkts\<close>: when a packet raises, those before it are in the file.\<close>

fun pcap_writepkts :: "pcap_writer \<Rightarrow> (rat \<times> bytes) list \<Rightarrow> pcap_writer \<times> exn option" where
  "pcap_writepkts w [] = (w, None)"
| "pcap_writepkts w ((ts, pkt) # pkts) =
     (let n = int (length pkt);
          sec = trunc ts;
          usec = round_even (frac1 ts * of_int (pw_multiplier w))
      in case struct_pack (pw_order w) (hdr_fmt pkt_hdr_hdr) [VInt sec, VInt usec, VInt n, VInt n] of
           Inl e \<Rightarrow> (w, Some e)
         | Inr ph \<Rightarrow> pcap_writepkts (w\<lparr>pw_file := pw_file w @ (ph @ pkt)\<rparr>) pkts)"

section \<open>The reader\<close>

record pcap_reader =
  pr_file :: bytes
  pr_fh :: file_hdr
  pr_ph :: pkt_class
  pr_dloff :: int
  pr_divisor :: int
  pr_snaplen :: int

definition pcap_reader_init :: "bytes \<Rightarrow> pcap_reader result" where
  "pcap_reader_init f =
     (let (buf, f') = file_read 24 f in
      rbind (file_hdr_init BE buf) (\<lambda>fh0.
        let magic = fh_magic fh0 in
        rbind (if magic \<in> {PMUDPCT_MAGIC, PMUDPCT_MAGIC_NANO, PACPDOM_MAGIC}
               then file_hdr_init LE buf else Inr fh0) (\<lambda>fh.
          case map_of MAGIC_TO_PKT_HDR magic of
            None \<Rightarrow> Inl ValueError
          | Some ph \<Rightarrow>
              Inr \<lparr>pr_file = f', pr_fh = fh, pr_ph = ph,
                pr_dloff = (case map_of dltoff (fh_linktype fh) of Some d \<Rightarrow> d | None \<Rightarrow> 0),
                pr_divisor = (if magic \<in> {TCPDUMP_MAGIC_NANO, PMUDPCT_MAGIC_NANO} then 10 ^ 9 else 10 ^ 6),
                pr_snaplen = fh_snaplen fh\<rparr>)))"

definition pcap_datalink :: "pcap_reader \<Rightarrow> int" where
  "pcap_datalink r = fh_linktype (pr_fh r)"

text \<open>
  One turn of the generator \<^verbatim>\<open>__iter__\<close>: the next packet, or \<open>None\<close> at the end of the file. The
  packet data is what the file still has, up to \<^verbatim>\<open>caplen\<close> bytes.
\<close>

definition pcap_next :: "pcap_reader \<Rightarrow> (pcap_reader \<times> (rat \<times> bytes)) option result" where
  "pcap_next r =
     (let (buf, f) = file_read (int (pkt_class_len (pr_ph r))) (pr_file r) in
      if buf = [] then Inr None
      else rbind (pkt_hdr_init (pr_ph r) buf) (\<lambda>h.
        let (pkt, f') = file_read (ph_caplen h) f in
        Inr (Some (r\<lparr>pr_file := f'\<rparr>,
          (of_int (ph_tv_sec h) + of_int (ph_tv_usec h) / of_int (pr_divisor r), pkt)))))"

lemma pcap_next_shorter:
  "pcap_next r = Inr (Some (r', p)) \<Longrightarrow> length (pr_file r') < length (pr_file r)"
  by (auto simp: pcap_next_def file_read_def Let_def result_simps pkt_class_len_def split: if_splits)

text \<open>\<^verbatim>\<open>readpkts\<close> is \<^verbatim>\<open>list(self)\<close>.\<close>

function pcap_readpkts :: "pcap_reader \<Rightarrow> (rat \<times> bytes) list result" where
  "pcap_readpkts r =
     (case pcap_next r of
        Inl e \<Rightarrow> Inl e
      | Inr None \<Rightarrow> Inr []
      | Inr (Some (r', p)) \<Rightarrow> rbind (pcap_readpkts r') (\<lambda>ps. Inr (p # ps)))"
  by pat_completeness auto
termination by (relation "measure (\<lambda>r. length (pr_file r))") (auto dest: pcap_next_shorter)

declare pcap_readpkts.simps [simp del]

text \<open>
  \<^verbatim>\<open>dispatch\<close>: the callback maps a state and a packet to a new state, or raises. The two branches
  are the bounded and the unbounded loop; each gives the number of packets processed, the state
  of the callback and the reader.
\<close>

fun pcap_dispatch_count ::
    "('s \<Rightarrow> rat \<times> bytes \<Rightarrow> 's result) \<Rightarrow> nat \<Rightarrow> pcap_reader \<Rightarrow> 's \<Rightarrow> (nat \<times> 's \<times> pcap_reader) result" where
  "pcap_dispatch_count cb 0 r s = Inr (0, s, r)"
| "pcap_dispatch_count cb (Suc n) r s =
     (case pcap_next r of
        Inl e \<Rightarrow> Inl e
      | Inr None \<Rightarrow> Inr (0, s, r)
      | Inr (Some (r', p)) \<Rightarrow> rbind (cb s p) (\<lambda>s'.
          rbind (pcap_dispatch_count cb n r' s') (\<lambda>(k, s'', r''). Inr (Suc k, s'', r''))))"

function pcap_dispatch_all ::
    "('s \<Rightarrow> rat \<times> bytes \<Rightarrow> 's result) \<Rightarrow> pcap_reader \<Rightarrow> 's \<Rightarrow> (nat \<times> 's \<times> pcap_reader) result" where
  "pcap_dispatch_all cb r s =
     (case pcap_next r of
        Inl e \<Rightarrow> Inl e
      | Inr None \<Rightarrow> Inr (0, s, r)
      | Inr (Some (r', p)) \<Rightarrow> rbind (cb s p) (\<lambda>s'.
          rbind (pcap_dispatch_all cb r' s') (\<lambda>(k, s'', r''). Inr (Suc k, s'', r''))))"
  by pat_completeness auto
termination
  by (relation "measure (\<lambda>(cb, r, s). length (pr_file r))") (auto dest: pcap_next_shorter)

declare pcap_dispatch_all.simps [simp del]

definition pcap_dispatch ::
    "int \<Rightarrow> ('s \<Rightarrow> rat \<times> bytes \<Rightarrow> 's result) \<Rightarrow> pcap_reader \<Rightarrow> 's \<Rightarrow> (nat \<times> 's \<times> pcap_reader) result" where
  "pcap_dispatch cnt cb r s =
     (if 0 < cnt then pcap_dispatch_count cb (nat cnt) r s else pcap_dispatch_all cb r s)"

section \<open>Sources of packets\<close>

text \<open>
  What the readers of both file formats offer: a generator step \<open>nxt\<close>, the list of all packets,
  and the two loops of \<^verbatim>\<open>dispatch\<close>, here with a callback that collects the packets. The laws are
  the equations of the loops.
\<close>

locale packet_source =
  fixes nxt :: "'r \<Rightarrow> ('r \<times> 'p) option result"
    and readpkts :: "'r \<Rightarrow> 'p list result"
    and count :: "('p list \<Rightarrow> 'p \<Rightarrow> 'p list result) \<Rightarrow> nat \<Rightarrow> 'r \<Rightarrow> 'p list \<Rightarrow> (nat \<times> 'p list \<times> 'r) result"
    and every :: "('p list \<Rightarrow> 'p \<Rightarrow> 'p list result) \<Rightarrow> 'r \<Rightarrow> 'p list \<Rightarrow> (nat \<times> 'p list \<times> 'r) result"
  assumes readpkts_eq: "readpkts r =
     (case nxt r of
        Inl e \<Rightarrow> Inl e
      | Inr None \<Rightarrow> Inr []
      | Inr (Some (r', p)) \<Rightarrow> rbind (readpkts r') (\<lambda>ps. Inr (p # ps)))"
    and count_0: "count cb 0 r s = Inr (0, s, r)"
    and count_Suc: "count cb (Suc n) r s =
     (case nxt r of
        Inl e \<Rightarrow> Inl e
      | Inr None \<Rightarrow> Inr (0, s, r)
      | Inr (Some (r', p)) \<Rightarrow> rbind (cb s p) (\<lambda>s'.
          rbind (count cb n r' s') (\<lambda>(k, s'', r''). Inr (Suc k, s'', r''))))"
    and every_eq: "every cb r s =
     (case nxt r of
        Inl e \<Rightarrow> Inl e
      | Inr None \<Rightarrow> Inr (0, s, r)
      | Inr (Some (r', p)) \<Rightarrow> rbind (cb s p) (\<lambda>s'.
          rbind (every cb r' s') (\<lambda>(k, s'', r''). Inr (Suc k, s'', r''))))"
begin

lemma readpkts_step:
  assumes "readpkts r = Inr ps"
  obtains "nxt r = Inr None" "ps = []"
  | r' p qs where "nxt r = Inr (Some (r', p))" "readpkts r' = Inr qs" "ps = p # qs"
  using assms
  by (subst (asm) readpkts_eq) (auto simp: result_simps split: sum.splits option.splits)

lemma readpkts_end: "nxt r = Inr None \<Longrightarrow> readpkts r = Inr []"
  by (subst readpkts_eq) simp

lemma readpkts_next: "nxt r = Inr (Some (r', p)) \<Longrightarrow>
    readpkts r = rbind (readpkts r') (\<lambda>ps. Inr (p # ps))"
  by (subst readpkts_eq) simp

lemma count_spec:
  "readpkts r = Inr ps \<Longrightarrow>
   \<exists>r'. count (\<lambda>s p. Inr (s @ [p])) n r s = Inr (min n (length ps), s @ take n ps, r')"
proof (induction n arbitrary: r s ps)
  case 0
  then show ?case by (simp add: count_0)
next
  case (Suc n)
  from Suc.prems show ?case
  proof (cases rule: readpkts_step)
    case (2 r' p qs)
    then show ?thesis using Suc.IH [OF 2(2), of "s @ [p]"] by (auto simp: count_Suc)
  qed (simp add: count_Suc)
qed

lemma every_spec:
  "readpkts r = Inr ps \<Longrightarrow>
   \<exists>r'. every (\<lambda>s p. Inr (s @ [p])) r s = Inr (length ps, s @ ps, r')"
proof (induction ps arbitrary: r s)
  case Nil
  then show ?case by (cases rule: readpkts_step) (simp_all add: every_eq)
next
  case (Cons p ps)
  from Cons.prems show ?case
  proof (cases rule: readpkts_step)
    case (2 r' p' qs)
    then show ?thesis using Cons.IH [of r' "s @ [p]"] by (subst every_eq) auto
  qed simp
qed

lemma dispatch_spec:
  assumes "readpkts r = Inr ps"
  shows "\<exists>r'. (if 0 < cnt then count (\<lambda>s p. Inr (s @ [p])) (nat cnt) r []
      else every (\<lambda>s p. Inr (s @ [p])) r []) =
    Inr (if 0 < cnt then (min (nat cnt) (length ps), take (nat cnt) ps, r') else (length ps, ps, r'))"
  using count_spec [OF assms, of "nat cnt" "[]"] every_spec [OF assms, of "[]"] by auto

end

interpretation pcap_source:
  packet_source pcap_next pcap_readpkts pcap_dispatch_count pcap_dispatch_all
  by unfold_locales (simp_all only: pcap_dispatch_count.simps, (rule pcap_readpkts.simps pcap_dispatch_all.simps)+)

section \<open>Reading what was written\<close>

lemma pkt_hdr_exact:
  assumes "struct_pack bo (hdr_fmt pkt_hdr_hdr) [VInt a, VInt b, VInt c, VInt d] = Inr ph"
  shows "exact_all (hdr_fmt pkt_hdr_hdr) [VInt a, VInt b, VInt c, VInt d]"
  using assms by (auto simp: pkt_hdr_hdr_def result_simps split: if_splits)

lemma pcap_next_written:
  assumes "struct_pack bo (hdr_fmt pkt_hdr_hdr) [VInt s, VInt u, VInt (int (length pkt)), VInt m] = Inr ph"
    and "pr_ph r = (bo, False)" "pr_file r = ph @ rest"
  shows "pcap_next r = Inr (Some (r\<lparr>pr_file := drop (length pkt) rest\<rparr>,
    (of_int s + of_int u / of_int (pr_divisor r), take (length pkt) rest)))"
proof -
  have l: "length ph = 16"
    using struct_pack_length [OF assms(1)] by (simp add: pkt_hdr_hdr_def)
  have "exact_all (hdr_fmt pkt_hdr_hdr) [VInt s, VInt u, VInt (int (length pkt)), VInt m]"
    by (rule pkt_hdr_exact [OF assms(1)])
  then have "struct_unpack bo (hdr_fmt pkt_hdr_hdr) ph =
      Inr [VInt s, VInt u, VInt (int (length pkt)), VInt m]"
    using assms(1) by (intro struct_unpack_pack) (auto simp: pkt_hdr_hdr_def fmt_ok_def)
  then have "pkt_hdr_init (bo, False) ph =
      Inr \<lparr>ph_tv_sec = s, ph_tv_usec = u, ph_caplen = int (length pkt), ph_len = m, ph_data = []\<rparr>"
    using l by (simp add: pkt_hdr_init_def packet_init_def packet_unpack_def pkt_hdr_make_def)
  moreover have "ph \<noteq> []" using l by auto
  ultimately show ?thesis
    using assms(2,3) l by (simp add: pcap_next_def pkt_class_len_def)
qed

lemma pcap_next_end: "pr_file r = [] \<Longrightarrow> pcap_next r = Inr None"
  by (simp add: pcap_next_def file_read_def)

definition pcap_time :: "int \<Rightarrow> rat \<Rightarrow> rat" where
  "pcap_time m ts = of_int (trunc ts) + of_int (round_even (frac1 ts * of_int m)) / of_int m"

lemma pcap_time_close:
  assumes "0 \<le> ts" "0 < m"
  shows "2 * of_int m * \<bar>pcap_time m ts - ts\<bar> \<le> 1"
proof -
  define u where "u = frac1 ts * of_int m"
  have m: "(0 :: rat) < of_int m" using assms by simp
  have "of_int m * \<bar>pcap_time m ts - ts\<bar> = \<bar>of_int m * (pcap_time m ts - ts)\<bar>"
    using m by (simp add: abs_mult)
  also have "of_int m * (pcap_time m ts - ts) = of_int (round_even u) - u"
    using assms m by (simp add: pcap_time_def trunc_def u_def frac1_def algebra_simps)
  finally show ?thesis using round_even_close [of u] by simp
qed

text \<open>\<open>pcap_written bo m pkts b\<close>: \<open>b\<close> is what the loop writes for the packets.\<close>

inductive pcap_written :: "endian \<Rightarrow> int \<Rightarrow> (rat \<times> bytes) list \<Rightarrow> bytes \<Rightarrow> bool" for bo m where
  Nil: "pcap_written bo m [] []"
| Cons: "struct_pack bo (hdr_fmt pkt_hdr_hdr) [VInt (trunc ts),
      VInt (round_even (frac1 ts * of_int m)), VInt (int (length pkt)), VInt (int (length pkt))] = Inr ph \<Longrightarrow>
    pcap_written bo m pkts b \<Longrightarrow> pcap_written bo m ((ts, pkt) # pkts) (ph @ pkt @ b)"

inductive_simps pcap_written_Nil [simp]: "pcap_written bo m [] c"
inductive_simps pcap_written_Cons [simp]: "pcap_written bo m ((ts, pkt) # pkts) c"

lemma pcap_writepkts_written:
  "pcap_writepkts w pkts = (w', None) \<Longrightarrow>
   \<exists>b. pw_file w' = pw_file w @ b \<and> pcap_written (pw_order w) (pw_multiplier w) pkts b"
proof (induction pkts arbitrary: w)
  case Nil
  then show ?case by (auto intro: pcap_written.Nil)
next
  case (Cons p pkts)
  obtain ts pkt where p: "p = (ts, pkt)" by (cases p)
  obtain ph where ph: "struct_pack (pw_order w) (hdr_fmt pkt_hdr_hdr) [VInt (trunc ts),
      VInt (round_even (frac1 ts * of_int (pw_multiplier w))), VInt (int (length pkt)),
      VInt (int (length pkt))] = Inr ph"
    and w: "pcap_writepkts (w\<lparr>pw_file := pw_file w @ (ph @ pkt)\<rparr>) pkts = (w', None)"
    using Cons.prems by (auto simp: p Let_def split: sum.splits)
  from Cons.IH [OF w] obtain b where "pw_file w' = pw_file w @ ph @ pkt @ b"
    "pcap_written (pw_order w) (pw_multiplier w) pkts b" by auto
  then show ?case using ph p by (auto intro: pcap_written.Cons)
qed

lemma pcap_read_written:
  assumes "pcap_written bo m pkts b" "pr_ph r = (bo, False)" "pr_divisor r = m" "pr_file r = b @ rest"
  shows "pcap_readpkts r = rbind (pcap_readpkts (r\<lparr>pr_file := rest\<rparr>))
    (\<lambda>ps. Inr (map (\<lambda>(ts, pkt). (pcap_time m ts, pkt)) pkts @ ps))"
  using assms
proof (induction arbitrary: r)
  case Nil
  then have "r\<lparr>pr_file := rest\<rparr> = r" by simp
  then show ?case by simp
next
  case (Cons ts pkt ph pkts b)
  have n: "pcap_next r = Inr (Some (r\<lparr>pr_file := b @ rest\<rparr>, (pcap_time m ts, pkt)))"
    using pcap_next_written [OF Cons.hyps(1) Cons.prems(1), of "pkt @ b @ rest"] Cons.prems
    by (simp add: pcap_time_def)
  show ?case
    using Cons.IH [of "r\<lparr>pr_file := b @ rest\<rparr>"] Cons.prems
    by (subst pcap_readpkts.simps) (simp add: n rbind_assoc)
qed

lemma pcap_read_end: "pr_file r = [] \<Longrightarrow> pcap_readpkts r = Inr []"
  by (rule pcap_source.readpkts_end) (rule pcap_next_end)

lemma pcap_times_close:
  "\<forall>(ts, pkt) \<in> set pkts. 0 \<le> ts \<Longrightarrow> 0 < m \<Longrightarrow>
   list_all2 (\<lambda>(ts, pkt) (ts', pkt'). pkt' = pkt \<and> 2 * of_int m * \<bar>ts' - ts\<bar> \<le> 1) pkts
     (map (\<lambda>(ts, pkt). (pcap_time m ts, pkt)) pkts)"
  by (induction pkts) (auto simp: pcap_time_close)

lemma file_hdr_magic:
  "length buf = 24 \<Longrightarrow> \<exists>h. file_hdr_init bo buf = Inr h \<and> fh_magic h = bytes_int bo (take 4 buf)"
  by (simp add: file_hdr_init_def packet_init_def packet_unpack_def struct_unpack_def file_hdr_hdr_def
      file_hdr_make_def)

lemma pcap_file_hdr_read:
  assumes "pcap_writer_init host f snaplen linktype nano = Inr w"
  shows "\<exists>b. pw_file w = f @ b \<and> pw_order w = host \<and> pw_multiplier w = (if nano then 10 ^ 9 else 10 ^ 6) \<and>
    (\<forall>rest. \<exists>r. pcap_reader_init (b @ rest) = Inr r \<and> pr_file r = rest \<and> pr_ph r = (host, False) \<and>
       pr_divisor r = pw_multiplier w \<and> pr_snaplen r = snaplen \<and> pcap_datalink r = linktype)"
proof -
  define magic where "magic = (if nano then TCPDUMP_MAGIC_NANO else TCPDUMP_MAGIC)"
  define vs where "vs = [VInt magic, VInt 2, VInt 4, VInt 0, VInt 0, VInt snaplen, VInt linktype]"
  have k: "packet_kwargs file_hdr_hdr
      [(''snaplen'', VInt snaplen), (''linktype'', VInt linktype), (''magic'', VInt magic)] = vs"
    by (simp add: packet_kwargs_def file_hdr_hdr_def vs_def)
  obtain b where b: "packet_pack_hdr host file_hdr_hdr vs = Inr b" and
    w: "w = \<lparr>pw_file = f @ b, pw_order = host, pw_multiplier = (if nano then 10 ^ 9 else 10 ^ 6)\<rparr>"
    using assms
    by (auto simp: pcap_writer_init_def Let_def k magic_def [symmetric] packet_bytes_def result_simps)
  have sp: "struct_pack host (hdr_fmt file_hdr_hdr) vs = Inr b"
    using b by (subst (asm) pack_hdr_flat) (simp_all add: vs_def)
  have l: "length b = 24" using packet_pack_hdr_length [OF b] by simp
  have ex: "exact_all (hdr_fmt file_hdr_hdr) vs"
    using sp by (auto simp: vs_def file_hdr_hdr_def result_simps split: list.splits if_splits)
  have su: "struct_unpack host (hdr_fmt file_hdr_hdr) b = Inr vs"
    using ex sp by (intro struct_unpack_pack) (auto simp: file_hdr_hdr_def fmt_ok_def)
  have own: "file_hdr_init host b = Inr (file_hdr_make vs [])"
    using su l by (simp add: file_hdr_init_def packet_init_def packet_unpack_def)
  have tk: "take 4 b = int_bytes host 4 magic"
    using sp by (auto simp: vs_def file_hdr_hdr_def result_simps split: if_splits)
  have be: "bytes_int BE (take 4 b) = (case host of BE \<Rightarrow> magic | LE \<Rightarrow>
      (if nano then PMUDPCT_MAGIC_NANO else PMUDPCT_MAGIC))"
    by (cases host)
      (simp_all add: tk magic_def bytes_int_int_bytes magic_defs,
       simp_all add: bytes_int_def int_bytes_def be_int_def )
  obtain h where h: "file_hdr_init BE b = Inr h" "fh_magic h = bytes_int BE (take 4 b)"
    using file_hdr_magic [OF l] by blast
  have "\<exists>r. pcap_reader_init (b @ rest) = Inr r \<and> pr_file r = rest \<and> pr_ph r = (host, False) \<and>
       pr_divisor r = pw_multiplier w \<and> pr_snaplen r = snaplen \<and> pcap_datalink r = linktype" for rest
    using h own be l
    by (cases host; cases nano)
      (simp_all add: pcap_reader_init_def Let_def w magic_def magic_defs MAGIC_TO_PKT_HDR_def
        file_hdr_make_def vs_def pcap_datalink_def)
  then show ?thesis by (auto simp: w)
qed

lemma pcap_written_snoc:
  "pcap_written bo m (pkts @ [(ts, pkt)]) c \<Longrightarrow>
   \<exists>d ph. c = d @ ph @ pkt \<and> pcap_written bo m pkts d \<and>
     struct_pack bo (hdr_fmt pkt_hdr_hdr) [VInt (trunc ts), VInt (round_even (frac1 ts * of_int m)),
       VInt (int (length pkt)), VInt (int (length pkt))] = Inr ph"
proof (induction pkts arbitrary: c)
  case Nil
  then show ?case by auto
next
  case (Cons p pkts)
  obtain ts' pkt' where p: "p = (ts', pkt')" by (cases p)
  from Cons.prems obtain ph b where b: "c = ph @ pkt' @ b" "pcap_written bo m (pkts @ [(ts, pkt)]) b"
    "struct_pack bo (hdr_fmt pkt_hdr_hdr) [VInt (trunc ts'), VInt (round_even (frac1 ts' * of_int m)),
       VInt (int (length pkt')), VInt (int (length pkt'))] = Inr ph"
    by (auto simp: p)
  obtain d ph' where d: "b = d @ ph' @ pkt" "pcap_written bo m pkts d"
    "struct_pack bo (hdr_fmt pkt_hdr_hdr) [VInt (trunc ts), VInt (round_even (frac1 ts * of_int m)),
       VInt (int (length pkt)), VInt (int (length pkt))] = Inr ph'"
    using Cons.IH [OF b(2)] by blast
  have "pcap_written bo m (p # pkts) (ph @ pkt' @ d)"
    unfolding p by (rule pcap_written.Cons [OF b(3) d(2)])
  then show ?case using d b(1) by (intro exI [of _ "ph @ pkt' @ d"] exI [of _ ph']) simp
qed

section \<open>Properties\<close>

text \<open>
  C12: the reader gives back the packets that the writer wrote, in either byte order and precision, with
  the snapshot length and the link type of the file, and with timestamps within half a unit of the
  precision.
\<close>

theorem pcap_roundtrip:
  assumes "pcap_writer_init host [] snaplen linktype nano = Inr w"
    and "pcap_writepkts w pkts = (w', None)"
    and "\<forall>(ts, pkt) \<in> set pkts. 0 \<le> ts"
  shows "\<exists>r ps. pcap_reader_init (pw_file w') = Inr r \<and> pr_snaplen r = snaplen \<and>
    pcap_datalink r = linktype \<and> pcap_readpkts r = Inr ps \<and>
    list_all2 (\<lambda>(ts, pkt) (ts', pkt'). pkt' = pkt \<and> 2 * (if nano then 10 ^ 9 else 10 ^ 6) * \<bar>ts' - ts\<bar> \<le> 1) pkts ps"
proof -
  obtain b where b: "pw_file w = b" "pw_order w = host" "pw_multiplier w = (if nano then 10 ^ 9 else 10 ^ 6)"
    "\<And>rest. \<exists>r. pcap_reader_init (b @ rest) = Inr r \<and> pr_file r = rest \<and> pr_ph r = (host, False) \<and>
       pr_divisor r = pw_multiplier w \<and> pr_snaplen r = snaplen \<and> pcap_datalink r = linktype"
    using pcap_file_hdr_read [OF assms(1)] by auto
  obtain c where c: "pw_file w' = b @ c" "pcap_written host (pw_multiplier w) pkts c"
    using pcap_writepkts_written [OF assms(2)] b by auto
  obtain r where r: "pcap_reader_init (b @ c) = Inr r" "pr_file r = c" "pr_ph r = (host, False)"
    "pr_divisor r = pw_multiplier w" "pr_snaplen r = snaplen" "pcap_datalink r = linktype"
    using b(4) by blast
  have "pcap_readpkts r = Inr (map (\<lambda>(ts, pkt). (pcap_time (pw_multiplier w) ts, pkt)) pkts)"
    using pcap_read_written [OF c(2) r(3,4), of "[]"] r(2) by (simp add: pcap_read_end)
  moreover have "(2 :: rat) * (if nano then 10 ^ 9 else 10 ^ 6) = 2 * of_int (pw_multiplier w)"
    by (simp add: b(3))
  ultimately show ?thesis
    using c r pcap_times_close [OF assms(3), of "pw_multiplier w"] b(3) by (auto split: if_splits)
qed

theorem pcap_roundtrip_witness:
  "\<exists>w w' r ps. pcap_writer_init LE [] 1500 1 False = Inr w \<and>
     pcap_writepkts w [(3 / 2, [1, 2, 3]), (7, [])] = (w', None) \<and>
     pcap_reader_init (pw_file w') = Inr r \<and> pcap_readpkts r = Inr ps \<and> map snd ps = [[1, 2, 3], []]"
proof -
  obtain w where w: "pcap_writer_init LE [] 1500 1 False = Inr w" "pw_multiplier w = 10 ^ 6"
    by (simp add: pcap_writer_init_def packet_bytes_def packet_pack_hdr_def packet_kwargs_def
        file_hdr_hdr_def magic_defs)
  obtain w' where w': "pcap_writepkts w [(3 / 2, [1, 2, 3]), (7, [])] = (w', None)"
    by (simp add: w(2) trunc_def frac1_def round_even_def pkt_hdr_hdr_def Let_def floor_eq_iff
        floor_unique [of 1 "3 / 2 :: rat"])
  show ?thesis using pcap_roundtrip [OF w(1) w'] w w' by (auto simp: list_all2_Cons1)
qed

text \<open>
  When the file ends inside the data of its last packet, the reader gives that packet shortened,
  and no error.
\<close>

theorem pcap_truncated_packet:
  assumes "pcap_writer_init host [] snaplen linktype nano = Inr w"
    and "pcap_writepkts w (pkts @ [(ts, pkt)]) = (w', None)" and "k \<le> length pkt"
  shows "\<exists>r ps t. pcap_reader_init (take (length (pw_file w') - k) (pw_file w')) = Inr r \<and>
    pcap_readpkts r = Inr (ps @ [(t, take (length pkt - k) pkt)]) \<and> map snd ps = map snd pkts"
proof -
  obtain b where b: "pw_file w = b" "pw_order w = host"
    "\<And>rest. \<exists>r. pcap_reader_init (b @ rest) = Inr r \<and> pr_file r = rest \<and> pr_ph r = (host, False) \<and>
       pr_divisor r = pw_multiplier w \<and> pr_snaplen r = snaplen \<and> pcap_datalink r = linktype"
    using pcap_file_hdr_read [OF assms(1)] by auto
  obtain c where c: "pw_file w' = b @ c" "pcap_written host (pw_multiplier w) (pkts @ [(ts, pkt)]) c"
    using pcap_writepkts_written [OF assms(2)] b by auto
  obtain d ph where d: "c = d @ ph @ pkt" "pcap_written host (pw_multiplier w) pkts d"
    "struct_pack host (hdr_fmt pkt_hdr_hdr) [VInt (trunc ts),
       VInt (round_even (frac1 ts * of_int (pw_multiplier w))), VInt (int (length pkt)),
       VInt (int (length pkt))] = Inr ph"
    using pcap_written_snoc [OF c(2)] by blast
  define e where "e = take (length pkt - k) pkt"
  obtain r where r: "pcap_reader_init (b @ d @ ph @ e) = Inr r" "pr_file r = d @ ph @ e"
    "pr_ph r = (host, False)" "pr_divisor r = pw_multiplier w"
    using b(3) by blast
  have "pcap_next (r\<lparr>pr_file := ph @ e\<rparr>) = Inr (Some (r\<lparr>pr_file := []\<rparr>,
      (pcap_time (pw_multiplier w) ts, e)))"
    using pcap_next_written [OF d(3), of "r\<lparr>pr_file := ph @ e\<rparr>" e] r
    by (simp add: pcap_time_def e_def)
  then have "pcap_readpkts (r\<lparr>pr_file := ph @ e\<rparr>) = Inr [(pcap_time (pw_multiplier w) ts, e)]"
    by (subst pcap_readpkts.simps) (simp add: pcap_read_end)
  then have "pcap_readpkts r = Inr (map (\<lambda>(ts, pkt). (pcap_time (pw_multiplier w) ts, pkt)) pkts @
      [(pcap_time (pw_multiplier w) ts, e)])"
    using pcap_read_written [OF d(2) r(3,4,2)] by simp
  moreover have "take (length (pw_file w') - k) (pw_file w') = b @ d @ ph @ e"
    using assms(3) by (simp add: c d e_def)
  moreover have "map snd (map (\<lambda>(ts, pkt). (pcap_time (pw_multiplier w) ts, pkt)) pkts) = map snd pkts"
    by (simp add: case_prod_beta comp_def)
  ultimately show ?thesis using r(1) unfolding e_def by metis
qed

text \<open>
  A bounded \<^verbatim>\<open>dispatch\<close> calls the callback with the first packets that \<^verbatim>\<open>readpkts\<close> would give, in
  order, and returns how many there were; a count that is not positive means all of them.
\<close>

theorem pcap_dispatch_spec:
  assumes "pcap_readpkts r = Inr ps"
  shows "\<exists>r'. pcap_dispatch cnt (\<lambda>s p. Inr (s @ [p])) r [] =
    Inr (if 0 < cnt then (min (nat cnt) (length ps), take (nat cnt) ps, r') else (length ps, ps, r'))"
  unfolding pcap_dispatch_def by (rule pcap_source.dispatch_spec [OF assms])

text \<open>
  A packet with a timestamp between -1 and 0 is written with its fraction only: reading it gives
  the timestamp plus one second.
\<close>

theorem pcap_negative_time:
  assumes "-1 < ts" "ts < 0" "pcap_writepkt_time w pkt ts = Inr w'"
  shows "pcap_writepkt_time w pkt (ts + 1) = Inr w'"
proof -
  have f: "\<lfloor>ts\<rfloor> = -1" "\<lceil>ts\<rceil> = 0"
    using assms by (simp_all add: floor_eq_iff ceiling_eq_iff)
  then have "trunc (ts + 1) = trunc ts" "frac1 (ts + 1) = frac1 ts"
    using assms by (simp_all add: trunc_def frac1_def)
  then show ?thesis using assms by (simp add: pcap_writepkt_time_def)
qed

theorem pcap_truncated_packet_witness:
  "\<exists>w w' r t. pcap_writer_init LE [] 1500 1 False = Inr w \<and>
     pcap_writepkts w [(5, [1, 2, 3])] = (w', None) \<and>
     pcap_reader_init (take (length (pw_file w') - 2) (pw_file w')) = Inr r \<and>
     pcap_readpkts r = Inr [(t, [1])]"
proof -
  obtain w where w: "pcap_writer_init LE [] 1500 1 False = Inr w" "pw_multiplier w = 10 ^ 6"
    by (simp add: pcap_writer_init_def packet_bytes_def packet_pack_hdr_def packet_kwargs_def
        file_hdr_hdr_def magic_defs)
  obtain w' where w': "pcap_writepkts w ([] @ [(5, [1, 2, 3])]) = (w', None)"
    by (simp add: w(2) trunc_def frac1_def round_even_def pkt_hdr_hdr_def)
  show ?thesis using pcap_truncated_packet [OF w(1) w', of 2] w w' by auto
qed

theorem pcap_dispatch_spec_witness:
  "\<exists>r'. pcap_dispatch 5 (\<lambda>s p. Inr (s @ [p])) \<lparr>pr_file = [], pr_fh = file_hdr_make [] [], pr_ph = (LE, False),
     pr_dloff = 0, pr_divisor = 10 ^ 6, pr_snaplen = 0\<rparr> [] = Inr (0, [], r')"
  using pcap_dispatch_spec [OF pcap_read_end, of _ 5] by auto

theorem pcap_negative_time_witness:
  "\<exists>w'. pcap_writepkt_time \<lparr>pw_file = [], pw_order = LE, pw_multiplier = 10 ^ 6\<rparr> [1] (- (1 / 2)) = Inr w' \<and>
     pcap_writepkt_time \<lparr>pw_file = [], pw_order = LE, pw_multiplier = 10 ^ 6\<rparr> [1] (- (1 / 2) + 1) = Inr w'"
proof -
  obtain w' where w: "pcap_writepkt_time \<lparr>pw_file = [], pw_order = LE, pw_multiplier = 10 ^ 6\<rparr> [1] (- (1 / 2)) = Inr w'"
    by (simp add: pcap_writepkt_time_def trunc_def frac1_def round_even_def pkt_hdr_hdr_def Let_def
        floor_unique [of "-1" "- (1 / 2) :: rat"] ceiling_unique [of 0 "- (1 / 2) :: rat"])
  then show ?thesis using pcap_negative_time [OF _ _ w] w by auto
qed

end
