(* ===== verification/Pcapng.thy ===== *)
theory Pcapng
  imports Pcap
begin

text \<open>
  The pcapng file format, \<^verbatim>\<open>dpkt/pcapng.py\<close>: options, the blocks and their two byte orders, the
  writer with its two ways of writing packets, the reader, and \<^verbatim>\<open>UniversalReader\<close> of
  \<^verbatim>\<open>dpkt/pcap.py\<close>, which tries both formats. Timestamps are exact, as in \<open>Pcap\<close>.
\<close>

section \<open>Alignment\<close>

definition BYTE_ORDER_MAGIC :: int where "BYTE_ORDER_MAGIC = 0x1A2B3C4D"
definition BYTE_ORDER_MAGIC_LE :: int where "BYTE_ORDER_MAGIC_LE = 0x4D3C2B1A"

definition swap32b :: "int \<Rightarrow> int result" where
  "swap32b i = rbind (pack_uint BE 4 i) (unpack_uint LE 4)"

definition align32b :: "int \<Rightarrow> int" where
  "align32b i = (let r = i mod 4 in if r = 0 then i else i + 4 - r)"

text \<open>\<^verbatim>\<open>struct.pack('ns', s)\<close>: cut or filled with zeros to length \<open>n\<close>.\<close>

definition padded_tolen :: "bytes \<Rightarrow> int \<Rightarrow> bytes" where
  "padded_tolen s n = take (nat n) s @ zeros (nat n - length s)"

definition padded :: "bytes \<Rightarrow> bytes" where
  "padded s = padded_tolen s (align32b (int (length s)))"

definition padlen :: "bytes \<Rightarrow> int" where
  "padlen s = align32b (int (length s)) - int (length s)"

section \<open>Options\<close>

record ng_option =
  o_order :: endian
  o_code :: int
  o_len :: int
  o_data :: bytes
  o_text :: "bytes option"

definition ng_option_hdr :: hdr where
  "ng_option_hdr = [(''code'', fH, VInt 0), (''len'', fH, VInt 0)]"

definition ng_option_vals :: "ng_option \<Rightarrow> pval list" where
  "ng_option_vals opt = [VInt (o_code opt), VInt (o_len opt)]"

definition ng_option_make :: "endian \<Rightarrow> pval list \<Rightarrow> bytes \<Rightarrow> ng_option" where
  "ng_option_make bo vs d = \<lparr>o_order = bo, o_code = ival (vs ! 0), o_len = ival (vs ! 1),
     o_data = d, o_text = None\<rparr>"

text \<open>The text of a comment, which may have to be cut at a null byte.\<close>

definition comment_text :: "bytes \<Rightarrow> bytes result" where
  "comment_text d =
     (if utf8_ok d then Inr d
      else if 0 \<in> set d then
        (let t = takeWhile (\<lambda>b. b \<noteq> 0) d in
         if list_all (\<lambda>b. b < 0x80) t then Inr t else Inl UnicodeError)
      else Inl UnicodeError)"

definition ng_option_unpack :: "endian \<Rightarrow> bytes \<Rightarrow> ng_option result" where
  "ng_option_unpack bo buf =
     rbind (packet_unpack bo ng_option_hdr (ng_option_make bo) buf) (\<lambda>opt0.
       let opt = opt0\<lparr>o_data := take (nat (o_len opt0)) (drop 4 buf)\<rparr> in
       if o_code opt = 1
       then rbind (comment_text (o_data opt)) (\<lambda>t. Inr (opt\<lparr>o_text := Some t\<rparr>))
       else Inr opt)"

definition ng_option_init :: "endian \<Rightarrow> bytes \<Rightarrow> ng_option result" where
  "ng_option_init bo = packet_init 4 (ng_option_unpack bo)"

definition ng_option_bytes :: "ng_option \<Rightarrow> (ng_option \<times> bytes) result" where
  "ng_option_bytes opt =
     (let d = (if o_code opt = 1 then (case o_text opt of Some t \<Rightarrow> t | None \<Rightarrow> o_data opt)
               else o_data opt);
          opt' = opt\<lparr>o_data := d, o_len := int (length d)\<rparr>
      in rbind (struct_pack (o_order opt) (hdr_fmt ng_option_hdr) (ng_option_vals opt'))
        (\<lambda>h. Inr (opt', h @ padded d)))"

definition ng_option_pkt_len :: "ng_option \<Rightarrow> int" where
  "ng_option_pkt_len opt = 4 + int (length (o_data opt)) + padlen (o_data opt)"

lemma align32b_ge: "0 \<le> i \<Longrightarrow> i \<le> align32b i \<and> align32b i < i + 4"
  by (auto simp: align32b_def Let_def)

lemma ng_option_pkt_len_ge: "4 \<le> ng_option_pkt_len opt"
  using align32b_ge [of "int (length (o_data opt))"] by (simp add: ng_option_pkt_len_def padlen_def)

text \<open>The loop over the options of a block; it stops after the end-of-options option.\<close>

function ng_options :: "endian \<Rightarrow> bytes \<Rightarrow> ng_option list result" where
  "ng_options bo buf =
     (if buf = [] then Inr []
      else rbind (ng_option_init bo buf) (\<lambda>opt.
        if o_code opt = 0 then Inr [opt]
        else rbind (ng_options bo (drop (nat (ng_option_pkt_len opt)) buf)) (\<lambda>os. Inr (opt # os))))"
  by pat_completeness auto
termination
proof (relation "measure (\<lambda>(bo, buf). length buf)")
  fix bo buf opt
  assume "buf \<noteq> []"
  then show "((bo, drop (nat (ng_option_pkt_len opt)) buf), (bo, buf)) \<in> measure (\<lambda>(bo, buf). length buf)"
    using ng_option_pkt_len_ge [of opt] by (cases buf) auto
qed simp

declare ng_options.simps [simp del]

section \<open>Blocks\<close>

text \<open>
  The block classes share the fields \<^verbatim>\<open>type\<close>, \<^verbatim>\<open>len\<close> and \<^verbatim>\<open>_len\<close>; the fields between are
  \<open>b_body\<close>, in the order of the header table. A packet block has \<^verbatim>\<open>pkt_data\<close>; the attributes
  \<^verbatim>\<open>opts\<close> and \<^verbatim>\<open>pkt_data\<close> may be missing.
\<close>

datatype ng_kind = K_Base | K_SHB | K_IDB | K_EPB | K_PB

definition base_hdr :: hdr where [simp]:
  "base_hdr = [(''type'', fI, VInt 0), (''len'', fI, VInt 12), (''_len'', fI, VInt 12)]"

definition shb_hdr :: hdr where [simp]:
  "shb_hdr = [(''type'', fI, VInt 0x0A0D0D0A), (''len'', fI, VInt 28),
     (''bom'', fI, VInt BYTE_ORDER_MAGIC), (''v_major'', fH, VInt 1), (''v_minor'', fH, VInt 0),
     (''sec_len'', fq, VInt (-1)), (''_len'', fI, VInt 28)]"

definition idb_hdr :: hdr where [simp]:
  "idb_hdr = [(''type'', fI, VInt 1), (''len'', fI, VInt 20), (''linktype'', fH, VInt 1),
     (''_reserved'', fH, VInt 0), (''snaplen'', fI, VInt 1500), (''_len'', fI, VInt 20)]"

definition epb_hdr :: hdr where [simp]:
  "epb_hdr = [(''type'', fI, VInt 6), (''len'', fI, VInt 64), (''iface_id'', fI, VInt 0),
     (''ts_high'', fI, VInt 0), (''ts_low'', fI, VInt 0), (''caplen'', fI, VInt 0),
     (''pkt_len'', fI, VInt 0), (''_len'', fI, VInt 64)]"

definition pb_hdr :: hdr where [simp]:
  "pb_hdr = [(''type'', fI, VInt 2), (''len'', fI, VInt 64), (''iface_id'', fH, VInt 0),
     (''drops_count'', fH, VInt 0), (''ts_high'', fI, VInt 0), (''ts_low'', fI, VInt 0),
     (''caplen'', fI, VInt 0), (''pkt_len'', fI, VInt 0), (''_len'', fI, VInt 64)]"

fun ng_hdr :: "ng_kind \<Rightarrow> hdr" where
  "ng_hdr K_Base = base_hdr"
| "ng_hdr K_SHB = shb_hdr"
| "ng_hdr K_IDB = idb_hdr"
| "ng_hdr K_EPB = epb_hdr"
| "ng_hdr K_PB = pb_hdr"

definition is_packet_block :: "ng_kind \<Rightarrow> bool" where
  "is_packet_block k \<longleftrightarrow> k = K_EPB \<or> k = K_PB"

record ng_block =
  b_kind :: ng_kind
  b_order :: endian
  b_type :: int
  b_len :: int
  b_body :: "int list"
  b_len2 :: int
  b_data :: bytes
  b_pkt :: "bytes option"
  b_opts :: "ng_option list option"

definition ng_block_vals :: "ng_block \<Rightarrow> pval list" where
  "ng_block_vals b = VInt (b_type b) # VInt (b_len b) # map VInt (b_body b) @ [VInt (b_len2 b)]"

definition ng_block_make :: "ng_kind \<Rightarrow> endian \<Rightarrow> pval list \<Rightarrow> bytes \<Rightarrow> ng_block" where
  "ng_block_make k bo vs d = \<lparr>b_kind = k, b_order = bo, b_type = ival (vs ! 0), b_len = ival (vs ! 1),
     b_body = map ival (butlast (drop 2 vs)), b_len2 = ival (last vs), b_data = d, b_pkt = None,
     b_opts = None\<rparr>"

definition ng_block_new :: "ng_kind \<Rightarrow> endian \<Rightarrow> (string \<times> pval) list \<Rightarrow> ng_block" where
  "ng_block_new k bo kws = ng_block_make k bo (packet_kwargs (ng_hdr k) kws) []"

text \<open>The fields that the code reads by name; those of packet blocks count from the end.\<close>

definition shb_bom :: "ng_block \<Rightarrow> int" where "shb_bom b = b_body b ! 0"
definition shb_v_major :: "ng_block \<Rightarrow> int" where "shb_v_major b = b_body b ! 1"
definition idb_linktype :: "ng_block \<Rightarrow> int" where "idb_linktype b = b_body b ! 0"
definition idb_snaplen :: "ng_block \<Rightarrow> int" where "idb_snaplen b = b_body b ! 2"

definition pb_ts_high :: "ng_block \<Rightarrow> int" where
  "pb_ts_high b = b_body b ! (length (b_body b) - 4)"
definition pb_ts_low :: "ng_block \<Rightarrow> int" where
  "pb_ts_low b = b_body b ! (length (b_body b) - 3)"
definition pb_caplen :: "ng_block \<Rightarrow> int" where
  "pb_caplen b = b_body b ! (length (b_body b) - 2)"

definition pb_set_ts :: "int \<Rightarrow> ng_block \<Rightarrow> ng_block" where
  "pb_set_ts ts b =
     (let n = length (b_body b) in
      b\<lparr>b_body := (b_body b)[n - 4 := drop_bit 32 ts, n - 3 := ts AND 0xffffffff]\<rparr>)"

definition pb_set_lens :: "int \<Rightarrow> ng_block \<Rightarrow> ng_block" where
  "pb_set_lens l b =
     (let n = length (b_body b) in b\<lparr>b_body := (b_body b)[n - 2 := l, n - 1 := l]\<rparr>)"

definition ng_unpack_options :: "ng_block \<Rightarrow> bytes \<Rightarrow> int \<Rightarrow> ng_block result" where
  "ng_unpack_options b buf oo =
     (let ol = b_len b - oo - 4 in
      rbind (ng_options (b_order b) (py_slice buf oo (oo + ol))) (\<lambda>os.
        rbind (unpack_uint (b_order b) 4 (py_from buf (-4))) (\<lambda>l.
          if l \<noteq> b_len b then Inl UnpackError
          else Inr (b\<lparr>b_opts := Some os, b_data := [], b_len2 := l\<rparr>))))"

definition ng_block_unpack :: "ng_kind \<Rightarrow> endian \<Rightarrow> bytes \<Rightarrow> ng_block result" where
  "ng_block_unpack k bo buf =
     rbind (packet_unpack bo (ng_hdr k) (ng_block_make k bo) buf) (\<lambda>b.
       if int (length buf) < b_len b then Inl NeedData
       else
         (let po = int (hdr_len (ng_hdr k)) - 4 in
          if is_packet_block k
          then ng_unpack_options (b\<lparr>b_pkt := Some (py_slice buf po (po + pb_caplen b))\<rparr>) buf
            (po + align32b (pb_caplen b))
          else ng_unpack_options b buf po))"

definition ng_block_init :: "ng_kind \<Rightarrow> endian \<Rightarrow> bytes \<Rightarrow> ng_block result" where
  "ng_block_init k bo = packet_init (hdr_len (ng_hdr k)) (ng_block_unpack k bo)"

fun ng_options_bytes :: "ng_option list \<Rightarrow> (ng_option list \<times> bytes) result" where
  "ng_options_bytes [] = Inr ([], [])"
| "ng_options_bytes (opt # os) =
     rbind (ng_option_bytes opt) (\<lambda>(opt', b).
       rbind (ng_options_bytes os) (\<lambda>(os', bs). Inr (opt' # os', b @ bs)))"

definition ng_pack_options :: "ng_block \<Rightarrow> (ng_block \<times> bytes) result" where
  "ng_pack_options b =
     (case b_opts b of
        None \<Rightarrow> Inr (b, [])
      | Some os \<Rightarrow>
          if os = [] then Inr (b, [])
          else if o_code (last os) \<noteq> 0 then Inl PackError
          else rbind (ng_options_bytes os) (\<lambda>(os', bs). Inr (b\<lparr>b_opts := Some os'\<rparr>, bs)))"

definition ng_block_bytes :: "ng_block \<Rightarrow> (ng_block \<times> bytes) result" where
  "ng_block_bytes b0 =
     rbind (if is_packet_block (b_kind b0)
            then (case b_pkt b0 of
                None \<Rightarrow> Inl AttributeError
              | Some p \<Rightarrow> Inr (pb_set_lens (int (length p)) b0, p))
            else Inr (b0, [])) (\<lambda>(b1, pkt).
       rbind (ng_pack_options b1) (\<lambda>(b2, os).
         let n = int (hdr_len (ng_hdr (b_kind b2))) + align32b (int (length pkt)) + int (length os);
             b = b2\<lparr>b_len := n, b_len2 := n\<rparr>
         in rbind (struct_pack (b_order b) (hdr_fmt (ng_hdr (b_kind b))) (ng_block_vals b)) (\<lambda>h.
              Inr (b, take (length h - 4) h @ padded pkt @ os @ drop (length h - 4) h))))"

definition ng_block_pkt_len :: "ng_block \<Rightarrow> int result" where
  "ng_block_pkt_len b =
     (let h = int (hdr_len (ng_hdr (b_kind b))) in
      if is_packet_block (b_kind b)
      then (case b_opts b of
              None \<Rightarrow> Inl AttributeError
            | Some os \<Rightarrow> Inr (h + align32b (pb_caplen b) + sum_list (map ng_option_pkt_len os)))
      else (case b_opts b of
              None \<Rightarrow> Inr h
            | Some os \<Rightarrow> Inr (h + sum_list (map ng_option_pkt_len os))))"

section \<open>The writer\<close>

record ng_writer =
  nw_file :: bytes
  nw_host :: endian

text \<open>
  \<^verbatim>\<open>_validate_block\<close>: the class, where \<^verbatim>\<open>PacketBlock\<close> is a subclass of \<^verbatim>\<open>EnhancedPacketBlock\<close>,
  and the byte order, which must be that of the host.
\<close>

definition ng_validate :: "endian \<Rightarrow> ng_kind \<Rightarrow> ng_block \<Rightarrow> unit result" where
  "ng_validate host expected b =
     (if \<not> (b_kind b = expected \<or> expected = K_EPB \<and> b_kind b = K_PB) then Inl ValueError
      else if b_order b \<noteq> host then Inl ValueError else Inr ())"

text \<open>The argument \<^verbatim>\<open>idb\<close> is missing, one block, or a sequence of blocks.\<close>

datatype idb_arg = No_IDB | One_IDB ng_block | IDBs "ng_block list"

fun ng_validate_all :: "endian \<Rightarrow> ng_kind \<Rightarrow> ng_block list \<Rightarrow> unit result" where
  "ng_validate_all host k [] = Inr ()"
| "ng_validate_all host k (b # bs) = rbind (ng_validate host k b) (\<lambda>_. ng_validate_all host k bs)"

definition ng_idbs :: "endian \<Rightarrow> int \<Rightarrow> int \<Rightarrow> idb_arg \<Rightarrow> ng_block list result" where
  "ng_idbs host snaplen linktype arg =
     (let dflt = [ng_block_new K_IDB host [(''snaplen'', VInt snaplen), (''linktype'', VInt linktype)]] in
      case arg of
        No_IDB \<Rightarrow> Inr dflt
      | One_IDB b \<Rightarrow> rbind (ng_validate host K_IDB b) (\<lambda>_. Inr [b])
      | IDBs bs \<Rightarrow>
          if bs = [] then Inr dflt
          else rbind (ng_validate_all host K_IDB bs) (\<lambda>_. Inr bs))"

fun ng_blocks_bytes :: "ng_block list \<Rightarrow> bytes result" where
  "ng_blocks_bytes [] = Inr []"
| "ng_blocks_bytes (b # bs) =
     rbind (ng_block_bytes b) (\<lambda>(b', c). rbind (ng_blocks_bytes bs) (\<lambda>cs. Inr (c @ cs)))"

definition ng_writer_init ::
    "endian \<Rightarrow> bytes \<Rightarrow> int \<Rightarrow> int \<Rightarrow> ng_block option \<Rightarrow> idb_arg \<Rightarrow> ng_writer result" where
  "ng_writer_init host f snaplen linktype shb idb =
     rbind (case shb of None \<Rightarrow> Inr () | Some b \<Rightarrow> ng_validate host K_SHB b) (\<lambda>_.
       rbind (ng_idbs host snaplen linktype idb) (\<lambda>idbs.
         let shb' = (case shb of None \<Rightarrow> ng_block_new K_SHB host [] | Some b \<Rightarrow> b) in
         rbind (ng_blocks_bytes (shb' # idbs)) (\<lambda>b.
           Inr \<lparr>nw_file = f @ b, nw_host = host\<rparr>)))"

definition ng_write_block :: "ng_writer \<Rightarrow> ng_block \<Rightarrow> (ng_writer \<times> ng_block) result" where
  "ng_write_block w b =
     rbind (ng_block_bytes b) (\<lambda>(b', c). Inr (w\<lparr>nw_file := nw_file w @ c\<rparr>, b'))"

definition ng_ticks :: "rat \<Rightarrow> int" where
  "ng_ticks ts = round_even (ts * 1000000)"

definition ng_writepkt_time :: "ng_writer \<Rightarrow> bytes \<Rightarrow> rat \<Rightarrow> ng_writer result" where
  "ng_writepkt_time w pkt ts =
     (let t = ng_ticks ts; n = int (length pkt);
          epb = ng_block_new K_EPB (nw_host w) [(''ts_high'', VInt (drop_bit 32 t)),
            (''ts_low'', VInt (t AND 0xffffffff)), (''caplen'', VInt n), (''pkt_len'', VInt n)]
      in rbind (ng_write_block w (epb\<lparr>b_pkt := Some pkt\<rparr>)) (\<lambda>(w', _). Inr w'))"

text \<open>\<^verbatim>\<open>writepkt\<close> of a buffer, and of a packet block, which it updates; \<open>now\<close> is the clock.\<close>

definition ng_writepkt :: "rat \<Rightarrow> ng_writer \<Rightarrow> bytes \<Rightarrow> rat option \<Rightarrow> ng_writer result" where
  "ng_writepkt now w pkt ts = ng_writepkt_time w pkt (case ts of None \<Rightarrow> now | Some t \<Rightarrow> t)"

definition ng_writepkt_block ::
    "rat \<Rightarrow> ng_writer \<Rightarrow> ng_block \<Rightarrow> rat option \<Rightarrow> (ng_writer \<times> ng_block) result" where
  "ng_writepkt_block now w b ts =
     rbind (ng_validate (nw_host w) K_EPB b) (\<lambda>_.
       let t = (case ts of
                  Some t \<Rightarrow> Some (ng_ticks t)
                | None \<Rightarrow> if pb_ts_high b = 0 \<and> pb_ts_low b = 0 then Some (ng_ticks now) else None)
       in ng_write_block w (case t of Some t' \<Rightarrow> pb_set_ts t' b | None \<Rightarrow> b))"

text \<open>\<^verbatim>\<open>writepkts\<close> packs the headers itself; when a packet raises, those before it are in the file.\<close>

fun ng_writepkts :: "ng_writer \<Rightarrow> (rat \<times> bytes) list \<Rightarrow> ng_writer \<times> exn option" where
  "ng_writepkts w [] = (w, None)"
| "ng_writepkts w ((ts, pkt) # pkts) =
     (let t = ng_ticks ts;
          pkt_len = int (length pkt);
          pkt_len_align = align32b pkt_len;
          n = 32 + pkt_len_align
      in case struct_pack (nw_host w) (hdr_fmt (ng_hdr K_EPB))
             [VInt 6, VInt n, VInt 0, VInt (drop_bit 32 t), VInt (t AND 0xffffffff), VInt pkt_len,
              VInt pkt_len, VInt n] of
           Inl e \<Rightarrow> (w, Some e)
         | Inr h \<Rightarrow> ng_writepkts (w\<lparr>nw_file := nw_file w @
             (take (length h - 4) h @ padded_tolen pkt pkt_len_align @ [] @ drop (length h - 4) h)\<rparr>) pkts)"

section \<open>The reader\<close>

record ng_reader =
  nr_file :: bytes
  nr_order :: endian
  nr_divisor :: int
  nr_tsoffset :: int
  nr_dloff :: int
  nr_idb :: ng_block

text \<open>
  The next block of the file: its type, its bytes and the rest of the file; \<open>None\<close> when fewer than
  8 bytes are left. A length below 8 makes \<^verbatim>\<open>read\<close> take all that is left.
\<close>

definition ng_read_block :: "endian \<Rightarrow> bytes \<Rightarrow> (int \<times> bytes \<times> bytes) option" where
  "ng_read_block bo f =
     (let (buf, f1) = file_read 8 f in
      if length buf < 8 then None
      else
        (let blk_type = bytes_int bo (take 4 buf); blk_len = bytes_int bo (drop 4 buf);
             (more, f2) = file_read (blk_len - 8) f1
         in Some (blk_type, buf @ more, f2)))"

lemma ng_read_block_shorter: "ng_read_block bo f = Some (t, b, f') \<Longrightarrow> length f' < length f"
  by (auto simp: ng_read_block_def file_read_def Let_def split: if_splits)

function ng_find_idb :: "endian \<Rightarrow> bytes \<Rightarrow> (ng_block \<times> bytes) result" where
  "ng_find_idb bo f =
     (case ng_read_block bo f of
        None \<Rightarrow> Inl ValueError
      | Some (t, buf, f') \<Rightarrow>
          if t = 1 then rbind (ng_block_init K_IDB bo buf) (\<lambda>idb. Inr (idb, f'))
          else ng_find_idb bo f')"
  by pat_completeness auto
termination
  by (relation "measure (\<lambda>(bo, f). length f)") (auto dest: ng_read_block_shorter)

declare ng_find_idb.simps [simp del]

text \<open>The options of the interface: the divisor and the offset of timestamps.\<close>

fun ng_if_options :: "endian \<Rightarrow> ng_option list \<Rightarrow> int \<times> int \<Rightarrow> (int \<times> int) result" where
  "ng_if_options bo [] (dv, off) = Inr (dv, off)"
| "ng_if_options bo (opt # os) (dv, off) =
     (if o_code opt = 9 then
        rbind (struct_unpack LE [fb] (o_data opt)) (\<lambda>vs.
          let v = ival (vs ! 0); pow_num = (if v AND 0x80 \<noteq> 0 then 2 else 10)
          in ng_if_options bo os (pow_num ^ nat (v AND 0x7f), off))
      else if o_code opt = 14 then
        rbind (struct_unpack bo [fq] (o_data opt)) (\<lambda>vs. ng_if_options bo os (dv, ival (vs ! 0)))
      else ng_if_options bo os (dv, off))"

definition ng_dltoff :: "(int \<times> int) list" where
  "ng_dltoff = [(0, 4), (1, 14), (6, 22), (7, 6), (8, 16), (9, 4), (10, 21), (117, 48), (18, 4),
     (108, 4), (113, 16)]"

definition ng_reader_init :: "bytes \<Rightarrow> ng_reader result" where
  "ng_reader_init f =
     (let (buf, f1) = file_read 28 f in
      if length buf < 28 then Inl ValueError
      else rbind (packet_unpack BE (ng_hdr K_SHB) (ng_block_make K_SHB BE) buf) (\<lambda>shb0.
        if b_type shb0 \<noteq> 0x0A0D0D0A then Inl ValueError
        else rbind
          (if shb_bom shb0 = BYTE_ORDER_MAGIC_LE then
             rbind (swap32b (b_len shb0)) (\<lambda>l.
               let (more, f2) = file_read (l - 28) f1 in
               rbind (ng_block_init K_SHB LE (buf @ more)) (\<lambda>shb. Inr (LE, shb, f2)))
           else if shb_bom shb0 = BYTE_ORDER_MAGIC then
             (let (more, f2) = file_read (b_len shb0 - 28) f1 in
              rbind (ng_block_init K_SHB BE (buf @ more)) (\<lambda>shb. Inr (BE, shb, f2)))
           else Inl ValueError) (\<lambda>(bo, shb, f2).
          if shb_v_major shb \<noteq> 1 then Inl ValueError
          else rbind (ng_find_idb bo f2) (\<lambda>(idb, f3).
            rbind (ng_if_options bo (case b_opts idb of Some os \<Rightarrow> os | None \<Rightarrow> []) (1000000, 0)) (\<lambda>(dv, off).
              Inr \<lparr>nr_file = f3, nr_order = bo, nr_divisor = dv, nr_tsoffset = off,
                nr_dloff = (case map_of ng_dltoff (idb_linktype idb) of Some d \<Rightarrow> d | None \<Rightarrow> 0),
                nr_idb = idb\<rparr>)))))"

definition ng_datalink :: "ng_reader \<Rightarrow> int" where
  "ng_datalink r = idb_linktype (nr_idb r)"

definition ng_snaplen :: "ng_reader \<Rightarrow> int" where
  "ng_snaplen r = idb_snaplen (nr_idb r)"

text \<open>One turn of the generator: blocks are skipped up to the next packet block.\<close>

function ng_next :: "ng_reader \<Rightarrow> (ng_reader \<times> (rat \<times> bytes)) option result" where
  "ng_next r =
     (case ng_read_block (nr_order r) (nr_file r) of
        None \<Rightarrow> Inr None
      | Some (t, buf, f) \<Rightarrow>
          if t = 6 \<or> t = 2 then
            rbind (ng_block_init (if t = 6 then K_EPB else K_PB) (nr_order r) buf) (\<lambda>b.
              Inr (Some (r\<lparr>nr_file := f\<rparr>,
                (of_int (nr_tsoffset r) +
                   of_int (push_bit 32 (pb_ts_high b) OR pb_ts_low b) / of_int (nr_divisor r),
                 case b_pkt b of Some p \<Rightarrow> p | None \<Rightarrow> []))))
          else ng_next (r\<lparr>nr_file := f\<rparr>))"
  by pat_completeness auto
termination
  by (relation "measure (\<lambda>r. length (nr_file r))") (auto dest: ng_read_block_shorter)

declare ng_next.simps [simp del]

lemma ng_next_shorter: "ng_next r = Inr (Some (r', p)) \<Longrightarrow> length (nr_file r') < length (nr_file r)"
proof (induction r rule: ng_next.induct)
  case (1 r)
  show ?case
  proof (cases "ng_read_block (nr_order r) (nr_file r)")
    case (Some a)
    obtain t buf f where a: "a = (t, buf, f)" by (cases a)
    then have l: "length f < length (nr_file r)" using Some ng_read_block_shorter by blast
    show ?thesis
    proof (cases "t = 6 \<or> t = 2")
      case True
      then show ?thesis using "1.prems" Some a l
        by (auto simp: ng_next.simps [of r] result_simps)
    next
      case False
      then have "ng_next r = ng_next (r\<lparr>nr_file := f\<rparr>)"
        using Some a by (simp add: ng_next.simps [of r])
      then show ?thesis using "1.IH" [OF Some, unfolded a, OF refl refl False] "1.prems" l by simp
    qed
  qed (use "1.prems" in \<open>simp add: ng_next.simps [of r]\<close>)
qed

function ng_readpkts :: "ng_reader \<Rightarrow> (rat \<times> bytes) list result" where
  "ng_readpkts r =
     (case ng_next r of
        Inl e \<Rightarrow> Inl e
      | Inr None \<Rightarrow> Inr []
      | Inr (Some (r', p)) \<Rightarrow> rbind (ng_readpkts r') (\<lambda>ps. Inr (p # ps)))"
  by pat_completeness auto
termination by (relation "measure (\<lambda>r. length (nr_file r))") (auto dest: ng_next_shorter)

declare ng_readpkts.simps [simp del]

fun ng_dispatch_count ::
    "('s \<Rightarrow> rat \<times> bytes \<Rightarrow> 's result) \<Rightarrow> nat \<Rightarrow> ng_reader \<Rightarrow> 's \<Rightarrow> (nat \<times> 's \<times> ng_reader) result" where
  "ng_dispatch_count cb 0 r s = Inr (0, s, r)"
| "ng_dispatch_count cb (Suc n) r s =
     (case ng_next r of
        Inl e \<Rightarrow> Inl e
      | Inr None \<Rightarrow> Inr (0, s, r)
      | Inr (Some (r', p)) \<Rightarrow> rbind (cb s p) (\<lambda>s'.
          rbind (ng_dispatch_count cb n r' s') (\<lambda>(k, s'', r''). Inr (Suc k, s'', r''))))"

function ng_dispatch_all ::
    "('s \<Rightarrow> rat \<times> bytes \<Rightarrow> 's result) \<Rightarrow> ng_reader \<Rightarrow> 's \<Rightarrow> (nat \<times> 's \<times> ng_reader) result" where
  "ng_dispatch_all cb r s =
     (case ng_next r of
        Inl e \<Rightarrow> Inl e
      | Inr None \<Rightarrow> Inr (0, s, r)
      | Inr (Some (r', p)) \<Rightarrow> rbind (cb s p) (\<lambda>s'.
          rbind (ng_dispatch_all cb r' s') (\<lambda>(k, s'', r''). Inr (Suc k, s'', r''))))"
  by pat_completeness auto
termination
  by (relation "measure (\<lambda>(cb, r, s). length (nr_file r))") (auto dest: ng_next_shorter)

declare ng_dispatch_all.simps [simp del]

definition ng_dispatch ::
    "int \<Rightarrow> ('s \<Rightarrow> rat \<times> bytes \<Rightarrow> 's result) \<Rightarrow> ng_reader \<Rightarrow> 's \<Rightarrow> (nat \<times> 's \<times> ng_reader) result" where
  "ng_dispatch cnt cb r s =
     (if 0 < cnt then ng_dispatch_count cb (nat cnt) r s else ng_dispatch_all cb r s)"

text \<open>\<^verbatim>\<open>UniversalReader\<close>: a \<^verbatim>\<open>UnicodeDecodeError\<close> is a \<^verbatim>\<open>ValueError\<close>.\<close>

definition is_value_error :: "exn \<Rightarrow> bool" where
  "is_value_error e \<longleftrightarrow> e = ValueError \<or> e = UnicodeError"

datatype any_reader = Pcap_Reader pcap_reader | Pcapng_Reader ng_reader

definition universal_reader :: "bytes \<Rightarrow> any_reader result" where
  "universal_reader f =
     (case pcap_reader_init f of
        Inr r \<Rightarrow> Inr (Pcap_Reader r)
      | Inl e \<Rightarrow>
          if is_value_error e then
            (case ng_reader_init f of
               Inr r \<Rightarrow> Inr (Pcapng_Reader r)
             | Inl e2 \<Rightarrow> Inl (if is_value_error e2 then ValueError else e2))
          else Inl e)"

fun any_readpkts :: "any_reader \<Rightarrow> (rat \<times> bytes) list result" where
  "any_readpkts (Pcap_Reader r) = pcap_readpkts r"
| "any_readpkts (Pcapng_Reader r) = ng_readpkts r"

interpretation ng_source: packet_source ng_next ng_readpkts ng_dispatch_count ng_dispatch_all
  by unfold_locales (simp_all only: ng_dispatch_count.simps, (rule ng_readpkts.simps ng_dispatch_all.simps)+)

section \<open>Options read back\<close>

lemma ng_option_hdr_len [hdr_simps, simp]: "hdr_len ng_option_hdr = 4"
  by (simp add: ng_option_hdr_def)

lemma length_padded_tolen [simp]: "length (padded_tolen s n) = nat n"
  by (simp add: padded_tolen_def)

lemma padded_eq: "padded s = s @ zeros (nat (align32b (int (length s))) - length s)"
  using align32b_ge [of "int (length s)"] by (auto simp: padded_def padded_tolen_def le_nat_iff)

lemma length_padded: "length (padded s) = nat (align32b (int (length s)))"
  by (simp add: padded_def)

text \<open>An option of the block's byte order; a comment has a text, another option has none.\<close>

definition ng_option_ok :: "endian \<Rightarrow> ng_option \<Rightarrow> bool" where
  "ng_option_ok bo opt \<longleftrightarrow> o_order opt = bo \<and>
     (case o_text opt of None \<Rightarrow> o_code opt \<noteq> 1 | Some t \<Rightarrow> o_code opt = 1 \<and> utf8_ok t)"

lemma ng_option_read:
  assumes "ng_option_bytes opt = Inr (opt', b)" "ng_option_ok bo opt"
  shows "ng_option_init bo (b @ rest) = Inr opt' \<and> nat (ng_option_pkt_len opt') = length b \<and>
    o_code opt' = o_code opt \<and> b \<noteq> []"
proof -
  define d where "d = (if o_code opt = 1 then (case o_text opt of Some t \<Rightarrow> t | None \<Rightarrow> o_data opt)
    else o_data opt)"
  obtain h where h: "struct_pack (o_order opt) (hdr_fmt ng_option_hdr)
      (map VInt [o_code opt, int (length d)]) = Inr h"
    and opt': "opt' = opt\<lparr>o_data := d, o_len := int (length d)\<rparr>" and b: "b = h @ padded d"
    using assms(1)
    by (auto simp: ng_option_bytes_def Let_def d_def [symmetric] ng_option_vals_def result_simps)
  have l: "length h = 4" using struct_pack_length [OF h] by (simp add: ng_option_hdr_def)
  have "exact_all (hdr_fmt ng_option_hdr) (map VInt [o_code opt, int (length d)])"
    by (rule struct_pack_ints_exact [OF h]) (auto simp: ng_option_hdr_def)
  then have "struct_unpack (o_order opt) (hdr_fmt ng_option_hdr) h =
      Inr (map VInt [o_code opt, int (length d)])"
    by (rule struct_unpack_pack [OF _ _ h]) (simp add: ng_option_hdr_def fmt_ok_def)
  moreover have "o_code opt = 1 \<Longrightarrow> utf8_ok d \<and> o_text opt = Some d"
    using assms(2) by (auto simp: d_def ng_option_ok_def split: option.splits)
  moreover have "o_code opt \<noteq> 1 \<Longrightarrow> o_text opt = None" "o_order opt = bo"
    using assms(2) by (auto simp: ng_option_ok_def split: option.splits)
  ultimately have "ng_option_init bo (b @ rest) = Inr opt'"
    using l by (cases opt)
      (auto simp: ng_option_init_def packet_init_def ng_option_unpack_def packet_unpack_def b padded_eq
        ng_option_make_def opt' comment_text_def Let_def)
  then show ?thesis
    using l align32b_ge [of "int (length d)"]
    by (auto simp: b opt' ng_option_pkt_len_def padlen_def length_padded)
qed

lemma ng_options_read:
  assumes "ng_options_bytes os = Inr (os', b)" "\<forall>opt \<in> set os. ng_option_ok bo opt"
    and "\<forall>opt \<in> set (butlast os). o_code opt \<noteq> 0"
  shows "ng_options bo b = Inr os'"
  using assms
proof (induction os arbitrary: os' b)
  case Nil
  then show ?case by (simp add: ng_options.simps)
next
  case (Cons opt os)
  obtain opt' c os'' d where c: "ng_option_bytes opt = Inr (opt', c)" "ng_options_bytes os = Inr (os'', d)"
    "os' = opt' # os''" "b = c @ d"
    using Cons.prems by (auto simp: result_simps)
  have r: "ng_option_init bo (c @ d) = Inr opt'" "nat (ng_option_pkt_len opt') = length c"
    "o_code opt' = o_code opt" "c \<noteq> []"
    using ng_option_read [OF c(1), of bo d] Cons.prems by auto
  show ?case
  proof (cases os)
    case Nil
    then have "os'' = []" "d = []" using c by auto
    then show ?thesis using c r by (auto simp: ng_options.simps [of bo c] ng_options.simps [of bo "[]"])
  next
    case (Cons a list)
    then have "ng_options bo d = Inr os''" "o_code opt \<noteq> 0"
      using Cons.IH [OF c(2)] Cons.prems by auto
    then show ?thesis using c r by (simp add: ng_options.simps [of bo "c @ d"])
  qed
qed

section \<open>Blocks read back\<close>

text \<open>All fields of a block header are integers, and the last one is the repeated length.\<close>

definition ng_front :: "ng_kind \<Rightarrow> fmt list" where
  "ng_front k = butlast (hdr_fmt (ng_hdr k))"

lemma ng_fmt: "hdr_fmt (ng_hdr k) = ng_front k @ [fI]"
  by (cases k) (simp_all add: ng_front_def)

lemma ng_front_len: "calcsize (ng_front k) = hdr_len (ng_hdr k) - 4" "4 \<le> hdr_len (ng_hdr k)"
  by (cases k; simp add: ng_front_def)+

lemma ng_fmt_ints: "\<forall>f \<in> set (hdr_fmt (ng_hdr k)). \<exists>n. f = UI n \<or> f = SI n"
  "list_all fmt_ok (hdr_fmt (ng_hdr k))" "Pad \<notin> set (hdr_fmt (ng_hdr k))"
  by (cases k; auto simp: fmt_ok_def)+

lemma ng_block_vals_ints: "ng_block_vals b = map VInt (b_type b # b_len b # b_body b @ [b_len2 b])"
  by (simp add: ng_block_vals_def)

lemma ng_header_read:
  assumes "struct_pack (b_order b) (hdr_fmt (ng_hdr (b_kind b))) (ng_block_vals b) = Inr h"
  defines "h1 \<equiv> take (length h - 4) h" and "h2 \<equiv> drop (length h - 4) h"
  shows "length h1 = hdr_len (ng_hdr (b_kind b)) - 4" "length h2 = 4"
    "bytes_int (b_order b) h2 = b_len2 b"
    "4 \<le> length r \<Longrightarrow> \<exists>l. packet_unpack (b_order b) (ng_hdr (b_kind b)) (ng_block_make (b_kind b) (b_order b)) (h1 @ r) =
      Inr (b\<lparr>b_len2 := l, b_data := drop 4 r, b_pkt := None, b_opts := None\<rparr>)"
proof -
  let ?k = "b_kind b" and ?bo = "b_order b"
  have l: "length h = hdr_len (ng_hdr ?k)"
    using struct_pack_length [OF assms(1)] by (simp add: hdr_len_def)
  show l1: "length h1 = hdr_len (ng_hdr ?k) - 4" and l2: "length h2 = 4"
    using l ng_front_len [of ?k] by (simp_all add: h1_def h2_def)
  have "exact_all (hdr_fmt (ng_hdr ?k)) (ng_block_vals b)"
    using assms(1) ng_fmt_ints(1) unfolding ng_block_vals_ints by (rule struct_pack_ints_exact)
  then have "struct_unpack ?bo (hdr_fmt (ng_hdr ?k)) h = Inr (ng_block_vals b)"
    using ng_fmt_ints(2) assms(1) by (rule struct_unpack_pack)
  then have "unpack_fields ?bo (ng_front ?k @ [fI]) (h1 @ h2) = ng_block_vals b"
    by (simp add: struct_unpack_def ng_fmt h1_def h2_def split: if_splits)
  then have f: "unpack_fields ?bo (ng_front ?k) h1 = VInt (b_type b) # VInt (b_len b) # map VInt (b_body b)"
    and "bytes_int ?bo h2 = b_len2 b"
    using l2 unpack_fields_append [of h1 "ng_front ?k" ?bo "[fI]" h2] l1 ng_front_len(1) [of ?k]
    by (auto simp: ng_block_vals_def simp flip: append_Cons)
  then show "bytes_int ?bo h2 = b_len2 b" by simp
  assume r: "4 \<le> length r"
  have "struct_unpack ?bo (hdr_fmt (ng_hdr ?k)) (h1 @ take 4 r) =
      Inr (VInt (b_type b) # VInt (b_len b) # map VInt (b_body b) @ [VInt (bytes_int ?bo (take 4 r))])"
    using r l1 l ng_front_len [of ?k] f unpack_fields_append [of h1 "ng_front ?k" ?bo "[fI]" "take 4 r"]
    by (simp add: struct_unpack_def ng_fmt calcsize_def)
  then show "\<exists>l. packet_unpack ?bo (ng_hdr ?k) (ng_block_make ?k ?bo) (h1 @ r) =
      Inr (b\<lparr>b_len2 := l, b_data := drop 4 r, b_pkt := None, b_opts := None\<rparr>)"
    using l1 r ng_front_len [of ?k]
    by (cases b) (auto simp: packet_unpack_def ng_block_make_def butlast_append comp_def)
qed

text \<open>
  A block that can be read back: its options are good, only the last one ends them, and it has no
  packet data unless it is a packet block.
\<close>

definition ng_block_ok :: "ng_block \<Rightarrow> bool" where
  "ng_block_ok b \<longleftrightarrow>
     (case b_opts b of
        None \<Rightarrow> False
      | Some os \<Rightarrow> list_all (ng_option_ok (b_order b)) os \<and> list_all (\<lambda>opt. o_code opt \<noteq> 0) (butlast os)) \<and>
     (is_packet_block (b_kind b) \<longleftrightarrow> b_pkt b \<noteq> None) \<and> b_data b = []"

lemma py_from_last: "py_from (a @ b) (- int (length b)) = b" if "b \<noteq> []"
  using that by (auto simp: py_from_def py_index_def)

lemma ng_unpack_options_read:
  assumes "b_len b = int (length (a @ os @ h2))" "ng_options (b_order b) os = Inr opts" "length h2 = 4"
    and "bytes_int (b_order b) h2 = b_len b"
  shows "ng_unpack_options b (a @ os @ h2) (int (length a)) =
    Inr (b\<lparr>b_opts := Some opts, b_data := [], b_len2 := b_len b\<rparr>)"
proof -
  have "py_slice (a @ os @ h2) (int (length a)) (int (length a) + (b_len b - int (length a) - 4)) = os"
    using assms(1,3) by (simp add: slice_simps)
  moreover have "py_from (a @ os @ h2) (-4) = h2"
    using py_from_last [of h2 "a @ os"] assms(3) by (cases h2) auto
  ultimately show ?thesis
    using assms by (simp add: ng_unpack_options_def Let_def unpack_uint_def)
qed

lemma pb_set_lens_simps [simp]:
  "b_kind (pb_set_lens n b) = b_kind b" "b_order (pb_set_lens n b) = b_order b"
  "b_type (pb_set_lens n b) = b_type b" "b_data (pb_set_lens n b) = b_data b"
  "b_pkt (pb_set_lens n b) = b_pkt b" "b_opts (pb_set_lens n b) = b_opts b"
  "length (b_body (pb_set_lens n b)) = length (b_body b)"
  by (simp_all add: pb_set_lens_def Let_def)

lemma pb_caplen_set_lens: "2 \<le> length (b_body b) \<Longrightarrow> pb_caplen (pb_set_lens n b) = n"
  by (simp add: pb_caplen_def pb_set_lens_def Let_def)

lemma padded_Nil [simp]: "padded [] = []"
  by (simp add: padded_eq align32b_def)

lemma ng_pack_options_read:
  assumes "ng_pack_options b = Inr (b', os)" "ng_block_ok b"
  shows "\<exists>opts. b' = b\<lparr>b_opts := Some opts\<rparr> \<and> ng_options (b_order b) os = Inr opts"
proof -
  obtain os0 where os0: "b_opts b = Some os0" "\<forall>opt \<in> set os0. ng_option_ok (b_order b) opt"
    "\<forall>opt \<in> set (butlast os0). o_code opt \<noteq> 0"
    using assms(2) by (auto simp: ng_block_ok_def list_all_iff split: option.splits)
  show ?thesis
  proof (cases "os0 = []")
    case True
    then have "b' = b" "os = []" using assms(1) os0(1) by (simp_all add: ng_pack_options_def)
    moreover have "b\<lparr>b_opts := Some []\<rparr> = b" using os0(1) True by (cases b) simp
    ultimately show ?thesis by (intro exI [of _ "[]"]) (simp add: ng_options.simps)
  next
    case False
    then obtain os' where "ng_options_bytes os0 = Inr (os', os)" "b' = b\<lparr>b_opts := Some os'\<rparr>"
      using assms(1) os0(1) by (auto simp: ng_pack_options_def result_simps split: if_splits)
    then show ?thesis using ng_options_read [OF _ os0(2,3)] by blast
  qed
qed

lemma ng_block_parts:
  assumes "ng_block_bytes b = Inr (b', buf)" "ng_block_ok b"
  obtains opts pkt os h n where
    "b_pkt b = (if is_packet_block (b_kind b) then Some pkt else None)"
    "\<not> is_packet_block (b_kind b) \<Longrightarrow> pkt = []" "b_data b = []"
    "ng_options (b_order b) os = Inr opts"
    "b' = (if is_packet_block (b_kind b) then pb_set_lens (int (length pkt)) b else b)
        \<lparr>b_opts := Some opts, b_len := n, b_len2 := n\<rparr>"
    "n = int (hdr_len (ng_hdr (b_kind b))) + align32b (int (length pkt)) + int (length os)"
    "struct_pack (b_order b') (hdr_fmt (ng_hdr (b_kind b'))) (ng_block_vals b') = Inr h"
    "buf = take (length h - 4) h @ padded pkt @ os @ drop (length h - 4) h"
proof -
  obtain b1 pkt b2 os where
    1: "(if is_packet_block (b_kind b)
         then (case b_pkt b of None \<Rightarrow> Inl AttributeError
               | Some p \<Rightarrow> Inr (pb_set_lens (int (length p)) b, p))
         else Inr (b, [])) = Inr (b1, pkt)"
    and 2: "ng_pack_options b1 = Inr (b2, os)"
    and 3: "rbind (struct_pack (b_order b2) (hdr_fmt (ng_hdr (b_kind b2))) (ng_block_vals (b2
        \<lparr>b_len := int (hdr_len (ng_hdr (b_kind b2))) + align32b (int (length pkt)) + int (length os),
         b_len2 := int (hdr_len (ng_hdr (b_kind b2))) + align32b (int (length pkt)) + int (length os)\<rparr>)))
      (\<lambda>h. Inr (b2
        \<lparr>b_len := int (hdr_len (ng_hdr (b_kind b2))) + align32b (int (length pkt)) + int (length os),
         b_len2 := int (hdr_len (ng_hdr (b_kind b2))) + align32b (int (length pkt)) + int (length os)\<rparr>,
        take (length h - 4) h @ padded pkt @ os @ drop (length h - 4) h)) = Inr (b', buf)"
    using assms(1) unfolding ng_block_bytes_def by (auto simp: rbind_Inr_iff [of _ "\<lambda>(x, y). _ x y"] Let_def result_simps
        split: prod.splits)
  have b1: "b1 = (if is_packet_block (b_kind b) then pb_set_lens (int (length pkt)) b else b)"
    "b_pkt b = (if is_packet_block (b_kind b) then Some pkt else None)"
    "\<not> is_packet_block (b_kind b) \<Longrightarrow> pkt = []" "b_data b = []"
    using 1 assms(2) by (auto simp: ng_block_ok_def split: if_splits option.splits)
  have "ng_block_ok b1" using assms(2) b1(1) by (cases "b_opts b") (simp_all add: ng_block_ok_def)
  then obtain opts where o: "b2 = b1\<lparr>b_opts := Some opts\<rparr>" "ng_options (b_order b1) os = Inr opts"
    using ng_pack_options_read [OF 2] by blast
  have k: "b_kind b2 = b_kind b" "b_order b2 = b_order b" "b_order b1 = b_order b"
    by (simp_all add: o(1) b1(1))
  define n where "n = int (hdr_len (ng_hdr (b_kind b))) + align32b (int (length pkt)) + int (length os)"
  obtain h where h: "b' = b2\<lparr>b_len := n, b_len2 := n\<rparr>"
    "struct_pack (b_order b2) (hdr_fmt (ng_hdr (b_kind b2))) (ng_block_vals b') = Inr h"
    "buf = take (length h - 4) h @ padded pkt @ os @ drop (length h - 4) h"
    using 3 by (auto simp: result_simps n_def k)
  have o2: "ng_options (b_order b) os = Inr opts" using o(2) k by simp
  have b': "b' = (if is_packet_block (b_kind b) then pb_set_lens (int (length pkt)) b else b)
        \<lparr>b_opts := Some opts, b_len := n, b_len2 := n\<rparr>"
    unfolding h(1) o(1) b1(1) by simp
  show thesis
    by (rule that [OF b1(2-4) o2 b' n_def _ h(3)]) (use h(1,2) in simp_all)
qed

lemma ng_block_read:
  assumes "ng_block_bytes b = Inr (b', buf)" "ng_block_ok b"
  shows "ng_block_init (b_kind b) (b_order b) buf = Inr b'"
proof -
  let ?k = "b_kind b" and ?bo = "b_order b"
  obtain opts pkt os h n where p: "b_pkt b = (if is_packet_block ?k then Some pkt else None)"
    "\<not> is_packet_block ?k \<Longrightarrow> pkt = []" "b_data b = []" "ng_options ?bo os = Inr opts"
    "b' = (if is_packet_block ?k then pb_set_lens (int (length pkt)) b else b)
        \<lparr>b_opts := Some opts, b_len := n, b_len2 := n\<rparr>"
    "n = int (hdr_len (ng_hdr ?k)) + align32b (int (length pkt)) + int (length os)"
    "struct_pack (b_order b') (hdr_fmt (ng_hdr (b_kind b'))) (ng_block_vals b') = Inr h"
    "buf = take (length h - 4) h @ padded pkt @ os @ drop (length h - 4) h"
    by (rule ng_block_parts [OF assms]) (rule that)
  have k: "b_kind b' = ?k" "b_order b' = ?bo" "b_len b' = n" "b_len2 b' = n" by (simp_all add: p(5))
  define h1 where "h1 = take (length h - 4) h"
  define h2 where "h2 = drop (length h - 4) h"
  note hr = ng_header_read [OF p(7), folded h1_def h2_def, unfolded k]
  have buf: "buf = (h1 @ padded pkt) @ os @ h2" by (simp add: p(8) h1_def h2_def)
  have len: "int (length buf) = n"
    using ng_front_len(2) [of ?k] align32b_ge [of "int (length pkt)"] hr(1,2)
    by (simp add: buf p(6) length_padded)
  obtain l where pu: "packet_unpack ?bo (ng_hdr ?k) (ng_block_make ?k ?bo) buf =
      Inr (b'\<lparr>b_len2 := l, b_data := drop 4 (padded pkt @ os @ h2), b_pkt := None, b_opts := None\<rparr>)"
    using hr(4) [of "padded pkt @ os @ h2"] hr(2) by (auto simp: buf)
  let ?p0 = "b'\<lparr>b_len2 := l, b_data := drop 4 (padded pkt @ os @ h2), b_pkt := None, b_opts := None\<rparr>"
  let ?a = "h1 @ padded pkt"
  have po: "int (hdr_len (ng_hdr ?k)) - 4 = int (length h1)"
    using hr(1) ng_front_len(2) [of ?k] by simp
  have a: "int (length ?a) = int (length h1) + align32b (int (length pkt))"
    using align32b_ge [of "int (length pkt)"] by (simp add: length_padded)
  have opts: "ng_unpack_options q (?a @ os @ h2) (int (length ?a)) =
      Inr (q\<lparr>b_opts := Some opts, b_data := [], b_len2 := n\<rparr>)" if "b_len q = n" "b_order q = ?bo" for q
    using ng_unpack_options_read [of q ?a os h2 opts] p(4) hr(2,3) that len by (simp add: buf)
  have b'_eq: "b'\<lparr>b_pkt := (if is_packet_block ?k then Some pkt else None), b_opts := Some opts,
      b_data := [], b_len2 := n\<rparr> = b'"
    using p(1,3) by (cases b) (simp add: p(5) pb_set_lens_def Let_def)
  have "ng_block_unpack ?k ?bo buf = Inr b'"
  proof (cases "is_packet_block ?k")
    case True
    have "length (ng_block_vals b') = length (hdr_fmt (ng_hdr ?k))"
      using exact_all_length [OF struct_pack_ints_exact [OF p(7) [unfolded ng_block_vals_ints] ng_fmt_ints(1)]]
        ng_fmt_ints(3) by (simp add: ng_block_vals_ints k)
    then have "2 \<le> length (b_body b')"
      using True by (auto simp: is_packet_block_def ng_block_vals_def)
    then have cap: "pb_caplen ?p0 = int (length pkt)"
      using True pb_caplen_set_lens [of b "int (length pkt)"] by (simp add: p(5) pb_caplen_def)
    have sl: "py_slice buf (int (length h1)) (int (length h1) + int (length pkt)) = pkt"
      by (simp add: slice_simps buf padded_eq)
    show ?thesis
      using opts [of "?p0\<lparr>b_pkt := Some pkt\<rparr>"] True k p(1,3)
      unfolding ng_block_unpack_def pu rbind_simps po Let_def cap sl a [symmetric] buf [symmetric]
      using b'_eq by (simp add: len)
  next
    case False
    then have "pkt = []" using p(2) by simp
    then show ?thesis
      using opts [of ?p0] False k p(1,3)
      unfolding ng_block_unpack_def pu rbind_simps po Let_def buf [symmetric]
      using b'_eq by (simp add: len)
  qed
  then show ?thesis by (simp add: ng_block_init_def packet_init_def)
qed

text \<open>A block without options is written like one with an empty list of them.\<close>

lemma ng_block_bytes_no_opts:
  assumes "ng_block_bytes b = Inr (b', buf)" "b_opts b = None"
  shows "ng_block_bytes (b\<lparr>b_opts := Some []\<rparr>) = Inr (b'\<lparr>b_opts := Some []\<rparr>, buf)"
  using assms
  by (cases b) (auto simp: ng_block_bytes_def ng_pack_options_def result_simps Let_def pb_set_lens_def
      ng_block_vals_def split: if_splits option.splits)

lemma ng_front_split: "\<exists>fs. ng_front k = fI # fI # fs"
  by (cases k) (simp_all add: ng_front_def)

lemma ng_read_block_written:
  assumes "ng_block_bytes b = Inr (b', buf)"
  shows "ng_read_block (b_order b) (buf @ rest) = Some (b_type b, buf, rest)"
proof -
  obtain pkt b1 b2 os h n where
    1: "(if is_packet_block (b_kind b)
         then (case b_pkt b of None \<Rightarrow> Inl AttributeError
               | Some p \<Rightarrow> Inr (pb_set_lens (int (length p)) b, p))
         else Inr (b, [])) = Inr (b1, pkt)"
    and 2: "ng_pack_options b1 = Inr (b2, os)"
    and n: "n = int (hdr_len (ng_hdr (b_kind b2))) + align32b (int (length pkt)) + int (length os)"
    and 3: "struct_pack (b_order b2) (hdr_fmt (ng_hdr (b_kind b2))) (ng_block_vals (b2\<lparr>b_len := n, b_len2 := n\<rparr>)) = Inr h"
    and buf: "buf = take (length h - 4) h @ padded pkt @ os @ drop (length h - 4) h"
    using assms by (auto simp: ng_block_bytes_def result_simps Let_def)
  have k: "b_order b2 = b_order b" "b_type b2 = b_type b"
    using 1 2 by (auto simp: ng_pack_options_def result_simps split: if_splits option.splits)
  have lh: "length h = hdr_len (ng_hdr (b_kind b2))"
    using struct_pack_length [OF 3] by (simp add: hdr_len_def)
  have h12: "12 \<le> length h" by (cases "b_kind b2") (simp_all add: lh)
  obtain fs where fs: "hdr_fmt (ng_hdr (b_kind b2)) = fI # fI # fs"
    using ng_front_split [of "b_kind b2"] by (auto simp: ng_fmt)
  obtain r where h: "h = int_bytes (b_order b) 4 (b_type b) @ int_bytes (b_order b) 4 n @ r"
    and rg: "0 \<le> b_type b" "b_type b < 256 ^ 4" "0 \<le> n" "n < 256 ^ 4"
    using 3 by (auto simp: fs ng_block_vals_def k result_simps split: if_splits)
  have lr: "4 \<le> length r" using h12 by (simp add: h)
  have len: "int (length buf) = n"
    using align32b_ge [of "int (length pkt)"] lh h12 by (simp add: buf n length_padded)
  define x where "x = take (length r - 4) r @ padded pkt @ os @ drop (length r - 4) r"
  have b: "buf = int_bytes (b_order b) 4 (b_type b) @ int_bytes (b_order b) 4 n @ x"
    using lr by (simp add: buf h x_def)
  have t: "bytes_int (b_order b) (int_bytes (b_order b) 4 (b_type b)) = b_type b"
    "bytes_int (b_order b) (int_bytes (b_order b) 4 n) = n"
    using rg by (simp_all add: bytes_int_int_bytes)
  have lx: "n - 8 = int (length x)" using len by (simp add: b)
  show ?thesis
    unfolding ng_read_block_def b by (simp add: t lx)
qed

section \<open>The two ways of writing\<close>

fun ng_write_each :: "ng_writer \<Rightarrow> (rat \<times> bytes) list \<Rightarrow> ng_writer \<times> exn option" where
  "ng_write_each w [] = (w, None)"
| "ng_write_each w ((ts, pkt) # pkts) =
     (case ng_writepkt_time w pkt ts of
        Inl e \<Rightarrow> (w, Some e)
      | Inr w' \<Rightarrow> ng_write_each w' pkts)"

definition ng_epb :: "endian \<Rightarrow> bytes \<Rightarrow> int \<Rightarrow> ng_block" where
  "ng_epb bo pkt t = \<lparr>b_kind = K_EPB, b_order = bo, b_type = 6, b_len = 64,
     b_body = [0, drop_bit 32 t, t AND 0xffffffff, int (length pkt), int (length pkt)], b_len2 = 64,
     b_data = [], b_pkt = Some pkt, b_opts = None\<rparr>"

lemma ng_writepkt_time_epb:
  "ng_writepkt_time w pkt ts =
     rbind (ng_block_bytes (ng_epb (nw_host w) pkt (ng_ticks ts))) (\<lambda>(_, c).
       Inr (w\<lparr>nw_file := nw_file w @ c\<rparr>))"
proof -
  have "ng_block_new K_EPB bo [(''ts_high'', VInt (drop_bit 32 t)), (''ts_low'', VInt (t AND 0xffffffff)),
      (''caplen'', VInt n), (''pkt_len'', VInt n)]\<lparr>b_pkt := Some pkt\<rparr> = ng_epb bo pkt t"
    if "n = int (length pkt)" for bo t n
    by (simp add: ng_block_new_def ng_block_make_def packet_kwargs_def ng_epb_def that)
  then show ?thesis
    by (cases "ng_block_bytes (ng_epb (nw_host w) pkt (ng_ticks ts))")
      (auto simp: ng_writepkt_time_def Let_def ng_write_block_def)
qed

lemma ng_epb_bytes:
  "ng_block_bytes (ng_epb bo pkt t) =
     (let n = 32 + align32b (int (length pkt)) in
      rbind (struct_pack bo (hdr_fmt (ng_hdr K_EPB))
        [VInt 6, VInt n, VInt 0, VInt (drop_bit 32 t), VInt (t AND 0xffffffff),
         VInt (int (length pkt)), VInt (int (length pkt)), VInt n]) (\<lambda>h.
      Inr ((ng_epb bo pkt t)\<lparr>b_len := n, b_len2 := n\<rparr>,
        take (length h - 4) h @ padded_tolen pkt (align32b (int (length pkt))) @ [] @ drop (length h - 4) h)))"
  by (simp only: ng_block_bytes_def)
    (simp add: ng_epb_def is_packet_block_def pb_set_lens_def ng_pack_options_def Let_def ng_block_vals_def
      padded_def)

lemma ng_writepkts_each: "ng_writepkts w pkts = ng_write_each w pkts"
proof (induction w pkts rule: ng_writepkts.induct)
  case (2 w ts pkt pkts)
  let ?n = "32 + align32b (int (length pkt))" and ?t = "ng_ticks ts"
  show ?case
    using 2 [OF refl refl refl refl]
    by (auto simp only: ng_writepkts.simps ng_write_each.simps ng_writepkt_time_epb ng_epb_bytes Let_def
        split: sum.split) (auto simp del: hdr_fmt_simps ng_hdr.simps)
qed simp

section \<open>Reading what was written\<close>

lemma ticks_split: "push_bit 32 (drop_bit 32 t) OR (t AND 0xffffffff) = t" for t :: int
proof -
  have m: "(0xffffffff :: int) = mask 32" by (simp add: mask_eq_exp_minus_1)
  show ?thesis unfolding m by (rule bit_eqI) (auto simp: bit_simps)
qed

lemma ng_epb_next:
  assumes "ng_block_bytes (ng_epb bo pkt t) = Inr (b', c)" "nr_order r = bo" "nr_file r = c @ rest"
  shows "ng_next r = Inr (Some (r\<lparr>nr_file := rest\<rparr>,
    (of_int (nr_tsoffset r) + of_int t / of_int (nr_divisor r), pkt)))"
proof -
  let ?e = "(ng_epb bo pkt t)\<lparr>b_opts := Some []\<rparr>"
  have b': "b' = (ng_epb bo pkt t)\<lparr>b_len := b_len b', b_len2 := b_len2 b'\<rparr>"
    using assms(1) by (auto simp: ng_epb_bytes Let_def result_simps simp del: hdr_fmt_simps ng_hdr.simps)
  have e: "ng_block_bytes ?e = Inr (b'\<lparr>b_opts := Some []\<rparr>, c)"
    by (rule ng_block_bytes_no_opts [OF assms(1)]) (simp add: ng_epb_def)
  have "ng_block_ok ?e" by (simp add: ng_block_ok_def ng_epb_def is_packet_block_def)
  from ng_block_read [OF e this] have "ng_block_init K_EPB bo c = Inr (b'\<lparr>b_opts := Some []\<rparr>)"
    by (simp add: ng_epb_def)
  moreover have "pb_ts_high b' = drop_bit 32 t" "pb_ts_low b' = t AND 0xffffffff" "b_pkt b' = Some pkt"
    by (subst b', simp add: pb_ts_high_def pb_ts_low_def ng_epb_def)+
  moreover have "ng_read_block bo (c @ rest) = Some (6, c, rest)"
    using ng_read_block_written [OF assms(1)] by (simp add: ng_epb_def)
  moreover have "push_bit 32 (pb_ts_high b') OR pb_ts_low b' = t"
    using calculation ticks_split by simp
  ultimately show ?thesis
    using assms(2,3) ticks_split [of t]
    by (simp add: ng_next.simps [of r] pb_ts_high_def pb_ts_low_def)
qed

definition ng_time :: "rat \<Rightarrow> rat" where
  "ng_time ts = of_int (ng_ticks ts) / 1000000"

lemma ng_time_close: "2000000 * \<bar>ng_time ts - ts\<bar> \<le> 1"
proof -
  have "1000000 * \<bar>ng_time ts - ts\<bar> = \<bar>1000000 * (ng_time ts - ts)\<bar>" by (simp only: abs_mult)
  also have "1000000 * (ng_time ts - ts) = of_int (round_even (ts * 1000000)) - ts * 1000000"
    by (simp add: ng_time_def ng_ticks_def)
  finally show ?thesis using round_even_close [of "ts * 1000000"] by linarith
qed

lemma ng_read_written:
  assumes "ng_write_each w pkts = (w', None)"
  shows "\<exists>c. nw_file w' = nw_file w @ c \<and>
    (\<forall>r. nr_order r = nw_host w \<and> nr_divisor r = 1000000 \<and> nr_tsoffset r = 0 \<and> nr_file r = c \<longrightarrow>
       ng_readpkts r = Inr (map (\<lambda>(ts, pkt). (ng_time ts, pkt)) pkts))"
  using assms
proof (induction pkts arbitrary: w)
  case Nil
  have "ng_next r = Inr None" if "nr_file r = []" for r
    using that by (simp add: ng_next.simps [of r] ng_read_block_def)
  then show ?case using Nil by (auto intro: ng_source.readpkts_end)
next
  case (Cons p pkts)
  obtain ts pkt where p: "p = (ts, pkt)" by (cases p)
  obtain b' d where d: "ng_block_bytes (ng_epb (nw_host w) pkt (ng_ticks ts)) = Inr (b', d)"
    and w: "ng_write_each (w\<lparr>nw_file := nw_file w @ d\<rparr>) pkts = (w', None)"
    using Cons.prems by (auto simp: p ng_writepkt_time_epb result_simps split: sum.splits)
  obtain c where c: "nw_file w' = nw_file w @ d @ c" "\<And>r. nr_order r = nw_host w \<Longrightarrow>
      nr_divisor r = 1000000 \<Longrightarrow> nr_tsoffset r = 0 \<Longrightarrow> nr_file r = c \<Longrightarrow>
      ng_readpkts r = Inr (map (\<lambda>(ts, pkt). (ng_time ts, pkt)) pkts)"
    using Cons.IH [OF w] by auto
  have "ng_readpkts r = Inr (map (\<lambda>(ts, pkt). (ng_time ts, pkt)) (p # pkts))"
    if "nr_order r = nw_host w" "nr_divisor r = 1000000" "nr_tsoffset r = 0" "nr_file r = d @ c" for r
    using ng_source.readpkts_next [OF ng_epb_next [OF d that(1,4)]] c(2) that
    by (simp add: p ng_time_def)
  then show ?case using c(1) by (intro exI [of _ "d @ c"]) simp
qed

text \<open>The first blocks of a file with the default section header and interface.\<close>

lemma shb_default_bytes:
  "\<exists>b'. ng_block_bytes (ng_block_new K_SHB bo []) = Inr (b',
     int_bytes bo 4 0x0A0D0D0A @ int_bytes bo 4 28 @ int_bytes bo 4 BYTE_ORDER_MAGIC @ int_bytes bo 2 1 @
     int_bytes bo 2 0 @ int_bytes bo 8 (-1) @ int_bytes bo 4 28)"
  by (simp add: ng_block_bytes_def ng_block_new_def ng_block_make_def packet_kwargs_def is_packet_block_def
      ng_pack_options_def ng_block_vals_def BYTE_ORDER_MAGIC_def align32b_def)

definition shb_wire :: "endian \<Rightarrow> bytes" where
  "shb_wire bo = int_bytes bo 4 0x0A0D0D0A @ int_bytes bo 4 28 @ int_bytes bo 4 BYTE_ORDER_MAGIC @
     int_bytes bo 2 1 @ int_bytes bo 2 0 @ int_bytes bo 8 (-1) @ int_bytes bo 4 28"

lemma length_shb_wire [simp]: "length (shb_wire bo) = 28"
  by (simp add: shb_wire_def)

lemma shb_wire_BE:
  "\<exists>b. packet_unpack BE (ng_hdr K_SHB) (ng_block_make K_SHB BE) (shb_wire bo) = Inr b \<and>
     b_type b = 0x0A0D0D0A \<and> b_len b = (case bo of BE \<Rightarrow> 28 | LE \<Rightarrow> 0x1C000000) \<and>
     shb_bom b = (case bo of BE \<Rightarrow> BYTE_ORDER_MAGIC | LE \<Rightarrow> BYTE_ORDER_MAGIC_LE)"
proof (cases bo)
  case BE
  then show ?thesis
    by (simp add: packet_unpack_def struct_unpack_def ng_block_make_def shb_bom_def shb_wire_def
        bytes_int_int_bytes BYTE_ORDER_MAGIC_def)
next
  case LE
  then show ?thesis
    by (simp add: packet_unpack_def struct_unpack_def ng_block_make_def shb_bom_def shb_wire_def)
      (simp add: bytes_int_def int_bytes_def be_int_def BYTE_ORDER_MAGIC_def BYTE_ORDER_MAGIC_LE_def)
qed

lemma shb_wire_init:
  "\<exists>b. ng_block_init K_SHB bo (shb_wire bo) = Inr b \<and> shb_v_major b = 1"
proof -
  obtain b' where b': "ng_block_bytes (ng_block_new K_SHB bo []) = Inr (b', shb_wire bo)"
    using shb_default_bytes [of bo] by (auto simp: shb_wire_def)
  have n: "b_opts (ng_block_new K_SHB bo []) = None" "b_kind (ng_block_new K_SHB bo []) = K_SHB"
    "b_order (ng_block_new K_SHB bo []) = bo" "b_pkt (ng_block_new K_SHB bo []) = None"
    "b_data (ng_block_new K_SHB bo []) = []"
    by (simp_all add: ng_block_new_def ng_block_make_def)
  have "ng_block_ok ((ng_block_new K_SHB bo [])\<lparr>b_opts := Some []\<rparr>)"
    by (simp add: ng_block_ok_def n is_packet_block_def)
  from ng_block_read [OF ng_block_bytes_no_opts [OF b' n(1)] this]
  have "ng_block_init K_SHB bo (shb_wire bo) = Inr (b'\<lparr>b_opts := Some []\<rparr>)" by (simp add: n)
  moreover have "shb_v_major b' = 1"
    using b' by (auto simp: ng_block_bytes_def ng_block_new_def ng_block_make_def packet_kwargs_def
      is_packet_block_def ng_pack_options_def result_simps shb_v_major_def Let_def)
  ultimately show ?thesis by (simp add: shb_v_major_def)
qed

lemma idb_default_read:
  assumes "ng_block_bytes (ng_block_new K_IDB bo [(''snaplen'', VInt snaplen), (''linktype'', VInt linktype)]) =
    Inr (b', c)"
  shows "\<exists>b. ng_find_idb bo (c @ rest) = Inr (b, rest) \<and> b_opts b = Some [] \<and>
    idb_snaplen b = snaplen \<and> idb_linktype b = linktype"
proof -
  let ?b = "ng_block_new K_IDB bo [(''snaplen'', VInt snaplen), (''linktype'', VInt linktype)]"
  have n: "b_opts ?b = None" "b_kind ?b = K_IDB" "b_order ?b = bo" "b_pkt ?b = None" "b_data ?b = []"
    "b_type ?b = 1"
    by (simp_all add: ng_block_new_def ng_block_make_def packet_kwargs_def)
  have "ng_block_ok (?b\<lparr>b_opts := Some []\<rparr>)" by (simp add: ng_block_ok_def n is_packet_block_def)
  from ng_block_read [OF ng_block_bytes_no_opts [OF assms n(1)] this]
  have "ng_block_init K_IDB bo c = Inr (b'\<lparr>b_opts := Some []\<rparr>)" by (simp add: n)
  moreover have "b_body b' = [linktype, 0, snaplen]"
    using assms by (auto simp: ng_block_bytes_def ng_block_new_def ng_block_make_def packet_kwargs_def
      is_packet_block_def ng_pack_options_def result_simps Let_def)
  moreover have "ng_read_block bo (c @ rest) = Some (1, c, rest)"
    using ng_read_block_written [OF assms, of rest] by (simp add: n)
  ultimately show ?thesis
    by (simp add: ng_find_idb.simps [of bo "c @ rest"] idb_snaplen_def idb_linktype_def)
qed

lemma ng_reader_written:
  assumes "ng_writer_init host [] snaplen linktype None No_IDB = Inr w"
  shows "nw_host w = host"
    and "\<exists>r. ng_reader_init (nw_file w @ rest) = Inr r \<and> nr_file r = rest \<and> nr_order r = host \<and>
      nr_divisor r = 1000000 \<and> nr_tsoffset r = 0 \<and> ng_snaplen r = snaplen \<and> ng_datalink r = linktype"
    and "pcap_reader_init (nw_file w @ rest) = Inl ValueError"
proof -
  obtain b' c where c: "ng_block_bytes (ng_block_new K_IDB host [(''snaplen'', VInt snaplen),
      (''linktype'', VInt linktype)]) = Inr (b', c)"
    and w: "w = \<lparr>nw_file = shb_wire host @ c, nw_host = host\<rparr>"
    using assms shb_default_bytes [of host]
    by (auto simp: ng_writer_init_def ng_idbs_def result_simps Let_def shb_wire_def)
  show "nw_host w = host" by (simp add: w)
  obtain b0 where b0: "packet_unpack BE (ng_hdr K_SHB) (ng_block_make K_SHB BE) (shb_wire host) = Inr b0"
    "b_type b0 = 0x0A0D0D0A" "b_len b0 = (case host of BE \<Rightarrow> 28 | LE \<Rightarrow> 0x1C000000)"
    "shb_bom b0 = (case host of BE \<Rightarrow> BYTE_ORDER_MAGIC | LE \<Rightarrow> BYTE_ORDER_MAGIC_LE)"
    using shb_wire_BE by blast
  obtain b1 where b1: "ng_block_init K_SHB host (shb_wire host) = Inr b1" "shb_v_major b1 = 1"
    using shb_wire_init by blast
  obtain b2 where b2: "ng_find_idb host (c @ rest) = Inr (b2, rest)" "b_opts b2 = Some []"
    "idb_snaplen b2 = snaplen" "idb_linktype b2 = linktype"
    using idb_default_read [OF c] by blast
  have sw: "swap32b 0x1C000000 = Inr 28"
    by (simp add: swap32b_def pack_uint_eq unpack_uint_def bytes_int_def int_bytes_def be_bytes_def)
  have z: "file_read 0 f = ([], f)" for f by (simp add: file_read_def)
  show "\<exists>r. ng_reader_init (nw_file w @ rest) = Inr r \<and> nr_file r = rest \<and> nr_order r = host \<and>
      nr_divisor r = 1000000 \<and> nr_tsoffset r = 0 \<and> ng_snaplen r = snaplen \<and> ng_datalink r = linktype"
    using b0 b1 b2 sw z
    by (cases host) (simp_all add: ng_reader_init_def w BYTE_ORDER_MAGIC_def BYTE_ORDER_MAGIC_LE_def
        ng_snaplen_def ng_datalink_def del: ng_hdr.simps)
  have t: "take 4 (take 24 (shb_wire host @ c @ rest)) = int_bytes host 4 0x0A0D0D0A"
    by (simp add: shb_wire_def)
  have m: "bytes_int BE (int_bytes host 4 0x0A0D0D0A) = 0x0A0D0D0A"
    by (cases host) (simp add: bytes_int_int_bytes, simp add: bytes_int_def int_bytes_def be_int_def)
  obtain h where h: "file_hdr_init BE (take 24 (shb_wire host @ c @ rest)) = Inr h" "fh_magic h = 0x0A0D0D0A"
    using file_hdr_magic [of "take 24 (shb_wire host @ c @ rest)" BE] t m by auto
  show "pcap_reader_init (nw_file w @ rest) = Inl ValueError"
    using h by (simp add: pcap_reader_init_def w magic_defs MAGIC_TO_PKT_HDR_def del: append_assoc take_append)
      (simp add: pcap_reader_init_def magic_defs)
qed

section \<open>Properties\<close>

text \<open>
  C13: the reader that tries both formats gives back the packets that the pcapng writer wrote, in either
  byte order, with the snapshot length and link type of the interface and with timestamps within half
  a microsecond.
\<close>

theorem pcapng_roundtrip:
  assumes "ng_writer_init host [] snaplen linktype None No_IDB = Inr w"
    and "ng_writepkts w pkts = (w', None)"
  shows "\<exists>r ps. universal_reader (nw_file w') = Inr (Pcapng_Reader r) \<and> ng_snaplen r = snaplen \<and>
    ng_datalink r = linktype \<and> any_readpkts (Pcapng_Reader r) = Inr ps \<and>
    list_all2 (\<lambda>(ts, pkt) (ts', pkt'). pkt' = pkt \<and> 2 * 10 ^ 6 * \<bar>ts' - ts\<bar> \<le> 1) pkts ps"
proof -
  note r = ng_reader_written [OF assms(1)]
  obtain c where c: "nw_file w' = nw_file w @ c"
    "\<And>r. nr_order r = nw_host w \<and> nr_divisor r = 1000000 \<and> nr_tsoffset r = 0 \<and> nr_file r = c \<Longrightarrow>
       ng_readpkts r = Inr (map (\<lambda>(ts, pkt). (ng_time ts, pkt)) pkts)"
    using ng_read_written [OF assms(2) [unfolded ng_writepkts_each]] by auto
  have "list_all2 (\<lambda>(ts, pkt) (ts', pkt'). pkt' = pkt \<and> 2 * 10 ^ 6 * \<bar>ts' - ts\<bar> \<le> 1) pkts
      (map (\<lambda>(ts, pkt). (ng_time ts, pkt)) pkts)"
    using ng_time_close by (induction pkts) auto
  then show ?thesis
    using r(1) r(2) [of c] r(3) [of c] c
    by (auto simp: universal_reader_def is_value_error_def)
qed

text \<open>
  C23: \<^verbatim>\<open>writepkts\<close>, which packs the block headers itself, writes the same file and raises the same
  error as \<^verbatim>\<open>writepkt_time\<close> for each packet.
\<close>

theorem pcapng_writepkts_equivalence:
  "ng_writepkts w pkts = ng_write_each w pkts"
  by (rule ng_writepkts_each)

text \<open>
  A block of any class and byte order whose options end with the end-of-options option, or which has
  none, is read back from its bytes.
\<close>

theorem pcapng_block_roundtrip:
  assumes "ng_block_ok b" "ng_block_bytes b = Inr (b', buf)"
  shows "ng_block_init (b_kind b) (b_order b) buf = Inr b'"
  by (rule ng_block_read [OF assms(2,1)])

theorem pcapng_roundtrip_witness:
  "\<exists>w w' r ps. ng_writer_init LE [] 0x2000 113 None No_IDB = Inr w \<and>
     ng_writepkts w [(5, [1, 2, 3])] = (w', None) \<and>
     universal_reader (nw_file w') = Inr (Pcapng_Reader r) \<and> ng_readpkts r = Inr ps \<and>
     map snd ps = [[1, 2, 3]]"
proof -
  obtain w where w: "ng_writer_init LE [] 0x2000 113 None No_IDB = Inr w" "nw_host w = LE"
    by (simp add: ng_writer_init_def ng_idbs_def ng_block_bytes_def ng_block_new_def ng_block_make_def
        packet_kwargs_def is_packet_block_def ng_pack_options_def ng_block_vals_def BYTE_ORDER_MAGIC_def
        align32b_def Let_def)
  have a: "(5000000 :: int) AND 4294967295 = 5000000"
    using and_mask_int [of 5000000 32] by simp
  obtain w' where w': "ng_writepkts w [(5, [1, 2, 3])] = (w', None)"
    by (simp add: w(2) ng_ticks_def round_even_def align32b_def drop_bit_int a Let_def)
  show ?thesis using pcapng_roundtrip [OF w(1) w'] w w'
    by (auto simp: list_all2_Cons1 simp del: ng_writepkts.simps)
qed

theorem pcapng_block_roundtrip_witness:
  "\<exists>b' buf. ng_block_bytes (\<lparr>b_kind = K_IDB, b_order = BE, b_type = 1, b_len = 20, b_body = [1, 0, 96],
       b_len2 = 20, b_data = [], b_pkt = None, b_opts = Some [\<lparr>o_order = BE, o_code = 2, o_len = 0,
         o_data = [101, 116, 104], o_text = None\<rparr>, \<lparr>o_order = BE, o_code = 0, o_len = 0, o_data = [],
         o_text = None\<rparr>]\<rparr>) = Inr (b', buf) \<and>
     ng_block_init K_IDB BE buf = Inr b'"
  (is "\<exists>b' buf. ng_block_bytes ?b = _ \<and> _")
proof -
  have ok: "ng_block_ok ?b" by (simp add: ng_block_ok_def ng_option_ok_def is_packet_block_def)
  obtain b' buf where b: "ng_block_bytes ?b = Inr (b', buf)"
    by (simp add: ng_block_bytes_def is_packet_block_def ng_pack_options_def ng_option_bytes_def
        ng_option_vals_def ng_option_hdr_def ng_block_vals_def align32b_def padded_def padded_tolen_def
        zeros_def Let_def)
  show ?thesis using pcapng_block_roundtrip [OF ok b] b by auto
qed

end
