(* ===== verification/Http2.thy ===== *)
theory Http2
  imports Packet
begin

text \<open>
  HTTP/2, \<^verbatim>\<open>dpkt/http2.py\<close>: the connection preface, the frame classes, \<^verbatim>\<open>FrameFactory\<close> and the
  stream parser \<^verbatim>\<open>frame_multi_factory\<close>. \<^verbatim>\<open>HTTP2Exception\<close>, an exception of the module, is
  \<open>OtherError\<close>.
\<close>

section \<open>Frames\<close>

definition HTTP2_PREFACE :: bytes where
  "HTTP2_PREFACE = asc ''PRI * HTTP/2.0'' @ [13, 10, 13, 10] @ asc ''SM'' @ [13, 10, 13, 10]"

definition HTTP2_FLAG_PADDED :: int where "HTTP2_FLAG_PADDED = 0x08"
definition HTTP2_FLAG_PRIORITY :: int where "HTTP2_FLAG_PRIORITY = 0x20"

definition preface_hdr :: hdr where
  "preface_hdr = [(''preface'', Str 24, VBytes HTTP2_PREFACE)]"

text \<open>\<^verbatim>\<open>Preface\<close>: after unpacking, its \<^verbatim>\<open>data\<close> is an empty string; the value is the preface.\<close>

definition preface_unpack :: "bytes \<Rightarrow> bytes result" where
  "preface_unpack buf =
     rbind (packet_unpack BE preface_hdr (\<lambda>vs d. bval (vs ! 0)) buf) (\<lambda>p.
       if p \<noteq> HTTP2_PREFACE then Inl OtherError else Inr p)"

definition preface_init :: "bytes \<Rightarrow> bytes result" where
  "preface_init = packet_init 24 preface_unpack"

record h2_priority =
  p_stream_dep :: int
  p_weight :: int
  p_exclusive :: bool
  p_data :: bytes

definition priority_hdr :: hdr where
  "priority_hdr = [(''stream_dep'', fI, VInt 0), (''weight'', fB, VInt 0)]"

definition priority_unpack :: "bytes \<Rightarrow> h2_priority result" where
  "priority_unpack buf =
     rbind (packet_unpack BE priority_hdr
         (\<lambda>vs d. \<lparr>p_stream_dep = ival (vs ! 0), p_weight = ival (vs ! 1), p_exclusive = False, p_data = d\<rparr>) buf)
       (\<lambda>p. if p_data p \<noteq> [] then Inl OtherError
         else Inr (p\<lparr>p_exclusive := (p_stream_dep p AND 0x80000000 \<noteq> 0),
           p_stream_dep := p_stream_dep p AND 0x7fffffff, p_weight := p_weight p + 1\<rparr>))"

definition priority_init :: "bytes \<Rightarrow> h2_priority result" where
  "priority_init = packet_init 5 priority_unpack"

definition setting_hdr :: hdr where
  "setting_hdr = [(''identifier'', fH, VInt 0), (''value'', fI, VInt 0)]"

definition setting_init :: "bytes \<Rightarrow> (int \<times> int) result" where
  "setting_init = packet_init 6 (packet_unpack BE setting_hdr (\<lambda>vs d. (ival (vs ! 0), ival (vs ! 1))))"

text \<open>What a frame class adds to the fields of \<^verbatim>\<open>Frame\<close>.\<close>

datatype h2_body =
    H2_Data
  | H2_Headers "h2_priority option" bytes
  | H2_Priority h2_priority
  | H2_Rst int
  | H2_Settings "(int \<times> int) list"
  | H2_Push int bytes
  | H2_Ping
  | H2_GoAway int int bytes
  | H2_Window int
  | H2_Continuation bytes

record h2_base =
  f_length_bytes :: bytes
  f_type :: int
  f_flags :: int
  f_stream_id :: int
  f_data :: bytes

record h2_frame = h2_base +
  f_unpadded :: bytes
  f_pad_length :: "int option"
  f_body :: h2_body

definition frame_hdr :: hdr where
  "frame_hdr = [(''length_bytes'', Str 3, VInt 0), (''type'', fB, VInt 0), (''flags'', fB, VInt 0),
     (''stream_id'', fI, VInt 0)]"

definition frame_vals :: "'a h2_base_scheme \<Rightarrow> pval list" where
  "frame_vals f = [VBytes (f_length_bytes f), VInt (f_type f), VInt (f_flags f), VInt (f_stream_id f)]"

definition frame_make :: "pval list \<Rightarrow> bytes \<Rightarrow> h2_base" where
  "frame_make vs d = \<lparr>f_length_bytes = bval (vs ! 0), f_type = ival (vs ! 1), f_flags = ival (vs ! 2),
     f_stream_id = ival (vs ! 3), f_data = d\<rparr>"

lemma h2_hdr_lens [hdr_simps, simp]:
  "hdr_len preface_hdr = 24" "hdr_len priority_hdr = 5" "hdr_len setting_hdr = 6" "hdr_len frame_hdr = 9"
  by (simp_all add: preface_hdr_def priority_hdr_def setting_hdr_def frame_hdr_def)

interpretation h2_class: packet_class BE frame_hdr frame_vals frame_make f_data
  by unfold_locales (auto simp: frame_hdr_def frame_vals_def frame_make_def fmt_ok_def hdr_simps)

definition frame_length :: "'a h2_base_scheme \<Rightarrow> int" where
  "frame_length f = be_int (0 # f_length_bytes f)"

text \<open>\<^verbatim>\<open>Frame.unpack\<close>: exactly \<^verbatim>\<open>length\<close> bytes of data.\<close>

definition frame_unpack :: "bytes \<Rightarrow> h2_base result" where
  "frame_unpack buf =
     rbind (packet_unpack BE frame_hdr frame_make buf) (\<lambda>f.
       let d = take (nat (frame_length f)) (f_data f) in
       if int (length d) \<noteq> frame_length f then Inl NeedData else Inr (f\<lparr>f_data := d\<rparr>))"

text \<open>\<^verbatim>\<open>PaddedFrame.unpack\<close>: the padding length and the data without padding.\<close>

definition padded_unpack :: "bytes \<Rightarrow> (h2_base \<times> int option \<times> bytes) result" where
  "padded_unpack buf =
     rbind (frame_unpack buf) (\<lambda>f.
       if f_flags f AND HTTP2_FLAG_PADDED \<noteq> 0 then
         (if frame_length f = 0 then Inl OtherError
          else rbind (unpack_uint BE 1 (take 1 (f_data f))) (\<lambda>pad.
            if frame_length f \<le> pad then Inl OtherError
            else Inr (f, Some pad, py_slice (f_data f) 1 (- pad))))
       else Inr (f, None, f_data f))"

definition h2_extend :: "h2_base \<Rightarrow> int option \<Rightarrow> bytes \<Rightarrow> h2_body \<Rightarrow> h2_frame" where
  "h2_extend f pad u b = h2_base.extend f (h2_frame.fields u pad b)"

definition data_frame_unpack :: "bytes \<Rightarrow> h2_frame result" where
  "data_frame_unpack buf =
     rbind (padded_unpack buf) (\<lambda>(f, pad, u). Inr (h2_extend f pad u H2_Data))"

definition headers_frame_unpack :: "bytes \<Rightarrow> h2_frame result" where
  "headers_frame_unpack buf =
     rbind (padded_unpack buf) (\<lambda>(f, pad, u).
       if f_flags f AND HTTP2_FLAG_PRIORITY \<noteq> 0 then
         (if length u < 5 then Inl OtherError
          else rbind (priority_init (take 5 u)) (\<lambda>p.
            Inr (h2_extend f pad u (H2_Headers (Some p) (drop 5 u)))))
       else Inr (h2_extend f pad u (H2_Headers None u)))"

definition priority_frame_unpack :: "bytes \<Rightarrow> h2_frame result" where
  "priority_frame_unpack buf =
     rbind (frame_unpack buf) (\<lambda>f. rbind (priority_init (f_data f)) (\<lambda>p.
       Inr (h2_extend f None (f_data f) (H2_Priority p))))"

definition rst_frame_unpack :: "bytes \<Rightarrow> h2_frame result" where
  "rst_frame_unpack buf =
     rbind (frame_unpack buf) (\<lambda>f.
       if frame_length f \<noteq> 4 then Inl OtherError
       else rbind (unpack_uint BE 4 (f_data f)) (\<lambda>e. Inr (h2_extend f None (f_data f) (H2_Rst e))))"

text \<open>The loop over the settings, 6 bytes each.\<close>

fun h2_settings :: "nat \<Rightarrow> bytes \<Rightarrow> (int \<times> int) list result" where
  "h2_settings 0 d = Inr []"
| "h2_settings (Suc n) d =
     rbind (setting_init (take 6 d)) (\<lambda>s. rbind (h2_settings n (drop 6 d)) (\<lambda>ss. Inr (s # ss)))"

definition settings_frame_unpack :: "bytes \<Rightarrow> h2_frame result" where
  "settings_frame_unpack buf =
     rbind (frame_unpack buf) (\<lambda>f.
       if frame_length f mod 6 \<noteq> 0 then Inl OtherError
       else rbind (h2_settings (nat (frame_length f div 6)) (f_data f)) (\<lambda>ss.
         Inr (h2_extend f None (f_data f) (H2_Settings ss))))"

definition push_frame_unpack :: "bytes \<Rightarrow> h2_frame result" where
  "push_frame_unpack buf =
     rbind (padded_unpack buf) (\<lambda>(f, pad, u).
       if length u < 4 then Inl OtherError
       else rbind (unpack_uint BE 4 (take 4 (f_data f))) (\<lambda>i.
         Inr (h2_extend f pad u (H2_Push i (drop 4 u)))))"

definition ping_frame_unpack :: "bytes \<Rightarrow> h2_frame result" where
  "ping_frame_unpack buf =
     rbind (frame_unpack buf) (\<lambda>f.
       if frame_length f \<noteq> 8 then Inl OtherError
       else Inr (h2_extend f None (f_data f) H2_Ping))"

definition goaway_frame_unpack :: "bytes \<Rightarrow> h2_frame result" where
  "goaway_frame_unpack buf =
     rbind (frame_unpack buf) (\<lambda>f.
       if frame_length f < 8 then Inl OtherError
       else rbind (unpack_uint BE 4 (take 4 (f_data f))) (\<lambda>i.
         rbind (unpack_uint BE 4 (take 4 (drop 4 (f_data f)))) (\<lambda>e.
           Inr (h2_extend f None (f_data f) (H2_GoAway i e (drop 8 (f_data f)))))))"

definition window_frame_unpack :: "bytes \<Rightarrow> h2_frame result" where
  "window_frame_unpack buf =
     rbind (frame_unpack buf) (\<lambda>f.
       if frame_length f \<noteq> 4 then Inl OtherError
       else rbind (unpack_uint BE 4 (f_data f)) (\<lambda>i. Inr (h2_extend f None (f_data f) (H2_Window i))))"

definition continuation_frame_unpack :: "bytes \<Rightarrow> h2_frame result" where
  "continuation_frame_unpack buf =
     rbind (frame_unpack buf) (\<lambda>f. Inr (h2_extend f None (f_data f) (H2_Continuation (f_data f))))"

definition FRAME_TYPES :: "(int \<times> (bytes \<Rightarrow> h2_frame result)) list" where
  "FRAME_TYPES = [(0, data_frame_unpack), (1, headers_frame_unpack), (2, priority_frame_unpack),
     (3, rst_frame_unpack), (4, settings_frame_unpack), (5, push_frame_unpack), (6, ping_frame_unpack),
     (7, goaway_frame_unpack), (8, window_frame_unpack), (9, continuation_frame_unpack)]"

definition frame_factory :: "bytes \<Rightarrow> h2_frame result" where
  "frame_factory buf =
     (if length buf < 4 then Inl NeedData
      else rbind (unpack_uint BE 1 (take 1 (drop 3 buf))) (\<lambda>t.
        case map_of FRAME_TYPES t of
          None \<Rightarrow> Inl OtherError
        | Some unpack \<Rightarrow> packet_init 9 unpack buf))"

definition frame_bytes :: "'a h2_base_scheme \<Rightarrow> bytes result" where
  "frame_bytes f = packet_bytes BE frame_hdr (frame_vals f) (f_data f)"

definition frame_pkt_len :: "'a h2_base_scheme \<Rightarrow> nat" where
  "frame_pkt_len f = packet_len frame_hdr (f_data f)"

section \<open>The stream parser\<close>

text \<open>The loop: the frames and the bytes consumed, up to a frame that needs more data.\<close>

function h2_loop :: "bytes \<Rightarrow> (h2_frame list \<times> nat) result" where
  "h2_loop buf =
     (if buf = [] then Inr ([], 0)
      else (case frame_factory buf of
              Inl e \<Rightarrow> if e = NeedData then Inr ([], 0) else Inl e
            | Inr f \<Rightarrow> rbind (h2_loop (drop (frame_pkt_len f) buf)) (\<lambda>(fs, n).
                Inr (f # fs, frame_pkt_len f + n))))"
  by pat_completeness auto
termination
  by (relation "measure length") (auto simp: frame_pkt_len_def packet_len_def)

declare h2_loop.simps [simp del]

definition frame_multi_factory :: "bytes \<Rightarrow> bool \<Rightarrow> (h2_frame list \<times> nat) result" where
  "frame_multi_factory buf preface =
     (if preface then
        (case preface_init buf of
           Inl e \<Rightarrow> if e = NeedData then Inr ([], 0) else Inl e
         | Inr p \<Rightarrow> rbind (h2_loop (drop 24 buf)) (\<lambda>(fs, n). Inr (fs, 24 + n)))
      else h2_loop buf)"

section \<open>Parsing is incremental\<close>

text \<open>
  A frame that parses depends on its own bytes only: its header and data are a prefix of the buffer,
  and more bytes after it change nothing.
\<close>

lemma frame_unpack_parts:
  assumes "frame_unpack buf = Inr f"
  shows "frame_bytes f = Inr (take (frame_pkt_len f) buf)" "frame_pkt_len f \<le> length buf"
    "frame_unpack (buf @ rest) = Inr f"
proof -
  obtain g where g: "packet_unpack BE frame_hdr frame_make buf = Inr g"
    and d: "f = g\<lparr>f_data := take (nat (frame_length g)) (f_data g)\<rparr>"
      "int (length (take (nat (frame_length g)) (f_data g))) = frame_length g"
    using assms by (auto simp: frame_unpack_def result_simps Let_def split: if_splits)
  note p = h2_class.unpack_pack_hdr [OF g]
  have fl: "frame_length f = frame_length g" by (simp add: d(1) frame_length_def)
  have vals: "frame_vals f = frame_vals g" by (simp add: d(1) frame_vals_def)
  have l: "length (f_data f) = nat (frame_length g)" "nat (frame_length g) \<le> length (f_data g)"
    using d by auto
  have len: "frame_pkt_len f = 9 + nat (frame_length g)"
    by (simp add: frame_pkt_len_def packet_len_def l)
  then show "frame_pkt_len f \<le> length buf" using p l by auto
  have "take 9 buf @ take (nat (frame_length g)) (drop 9 buf) = take (9 + nat (frame_length g)) buf"
    by (simp add: take_add)
  then show "frame_bytes f = Inr (take (frame_pkt_len f) buf)"
    unfolding frame_bytes_def packet_bytes_def vals len using p d(1) by simp
  obtain vs where vs: "struct_unpack BE (hdr_fmt frame_hdr) (take 9 buf) = Inr vs" "g = frame_make vs (drop 9 buf)"
    using packet_unpack_ok [OF g] by auto
  have "packet_unpack BE frame_hdr frame_make (buf @ rest) = Inr (frame_make vs (drop 9 buf @ rest))"
    using vs p by (simp add: packet_unpack_def)
  moreover have "frame_length (frame_make vs (drop 9 buf @ rest)) = frame_length g"
    by (simp add: vs(2) frame_length_def frame_make_def)
  moreover have "take (nat (frame_length g)) (drop 9 buf @ rest) = take (nat (frame_length g)) (f_data g)"
    using l(2) by (simp add: vs(2) frame_make_def)
  ultimately show "frame_unpack (buf @ rest) = Inr f"
    using d by (simp add: frame_unpack_def vs(2) frame_make_def)
qed

lemma h2_extend_simps [simp]:
  "h2_base.truncate (h2_extend f pad u b) = f"
  by (cases f) (simp add: h2_extend_def h2_base.defs h2_frame.defs)

lemma frame_bytes_truncate: "frame_bytes (h2_base.truncate f) = frame_bytes f"
  "frame_pkt_len (h2_base.truncate f) = frame_pkt_len f" for f :: "'a h2_base_scheme"
  by (cases f; simp add: h2_base.defs frame_bytes_def frame_vals_def frame_pkt_len_def)+

text \<open>Every frame class unpacks the base frame and goes on from that alone.\<close>

definition frame_based :: "(bytes \<Rightarrow> h2_frame result) \<Rightarrow> bool" where
  "frame_based U \<longleftrightarrow> (\<exists>K. (\<forall>buf. U buf = rbind (frame_unpack buf) K) \<and>
     (\<forall>b f. K b = Inr f \<longrightarrow> h2_base.truncate f = b))"

lemma frame_basedI:
  "(\<And>buf. U buf = rbind (frame_unpack buf) K) \<Longrightarrow> (\<And>b f. K b = Inr f \<Longrightarrow> h2_base.truncate f = b) \<Longrightarrow> frame_based U"
  unfolding frame_based_def by blast

lemma padded_based:
  assumes "\<And>buf. U buf = rbind (padded_unpack buf) (\<lambda>(f, pad, u). J f pad u)"
    and "\<And>f pad u g. J f pad u = Inr g \<Longrightarrow> h2_base.truncate g = f"
  shows "frame_based U"
  by (rule frame_basedI [where K = "\<lambda>f. rbind (if f_flags f AND HTTP2_FLAG_PADDED \<noteq> 0 then
         (if frame_length f = 0 then Inl OtherError
          else rbind (unpack_uint BE 1 (take 1 (f_data f))) (\<lambda>pad.
            if frame_length f \<le> pad then Inl OtherError
            else Inr (f, Some pad, py_slice (f_data f) 1 (- pad))))
       else Inr (f, None, f_data f)) (\<lambda>(f, pad, u). J f pad u)"])
    (auto simp: assms(1) padded_unpack_def rbind_assoc result_simps split: if_splits dest: assms(2))

lemma frame_types_based: "(t, U) \<in> set FRAME_TYPES \<Longrightarrow> frame_based U"
proof -
  have "list_all (\<lambda>(t, U). frame_based U) FRAME_TYPES"
    unfolding FRAME_TYPES_def list.pred_inject prod.case
    by (intro conjI TrueI)
      ((rule padded_based frame_basedI,
        rule data_frame_unpack_def headers_frame_unpack_def push_frame_unpack_def priority_frame_unpack_def
          rst_frame_unpack_def settings_frame_unpack_def ping_frame_unpack_def goaway_frame_unpack_def
          window_frame_unpack_def continuation_frame_unpack_def,
        auto simp: result_simps split: if_splits)+)
  then show "(t, U) \<in> set FRAME_TYPES \<Longrightarrow> frame_based U" by (auto simp: list_all_iff)
qed

lemma frame_factory_parts:
  assumes "frame_factory buf = Inr f"
  shows "frame_bytes f = Inr (take (frame_pkt_len f) buf)" "frame_pkt_len f \<le> length buf"
    "frame_factory (buf @ rest) = Inr f"
proof -
  obtain t U where t: "4 \<le> length buf" "unpack_uint BE 1 (take 1 (drop 3 buf)) = Inr t"
    "map_of FRAME_TYPES t = Some U" "packet_init 9 U buf = Inr f"
    using assms by (auto simp: frame_factory_def result_simps split: if_splits option.splits)
  obtain K where K: "\<And>buf. U buf = rbind (frame_unpack buf) K" "\<And>b f. K b = Inr f \<Longrightarrow> h2_base.truncate f = b"
    using frame_types_based [OF map_of_SomeD [OF t(3)]] unfolding frame_based_def by blast
  have "U buf = Inr f" using t(4) by (simp add: result_simps)
  then obtain b where b: "frame_unpack buf = Inr b" "K b = Inr f" by (auto simp: K(1) result_simps)
  have tr: "h2_base.truncate f = b" by (rule K(2) [OF b(2)])
  note p = frame_unpack_parts [OF b(1), folded tr, unfolded frame_bytes_truncate]
  show "frame_bytes f = Inr (take (frame_pkt_len f) buf)" "frame_pkt_len f \<le> length buf"
    using p by simp_all
  have "U (buf @ rest) = Inr f" using p(3) [of rest] b(2) by (simp add: K(1) tr)
  then have "packet_init 9 U (buf @ rest) = Inr f" by (simp add: packet_init_def)
  then show "frame_factory (buf @ rest) = Inr f" using t by (simp add: frame_factory_def)
qed

lemma frame_pkt_len_pos: "0 < frame_pkt_len f"
  by (simp add: frame_pkt_len_def packet_len_def)

lemma h2_loop_parts:
  "h2_loop a = Inr (fs, n) \<Longrightarrow>
   n \<le> length a \<and> (\<exists>bs. map frame_bytes fs = map Inr bs \<and> concat bs = take n a) \<and>
   h2_loop (a @ b) = rbind (h2_loop (drop n a @ b)) (\<lambda>(gs, m). Inr (fs @ gs, n + m))"
proof (induction a arbitrary: fs n rule: h2_loop.induct)
  case (1 a)
  show ?case
  proof (cases "fs = []")
    case True
    then have "n = 0" using 1(2)
      by (auto simp: h2_loop.simps [of a] result_simps split: if_splits sum.splits)
    then show ?thesis using True by (simp add: case_prod_beta)
  next
    case False
    then obtain f gs m where f: "a \<noteq> []" "frame_factory a = Inr f" "h2_loop (drop (frame_pkt_len f) a) = Inr (gs, m)"
      "fs = f # gs" "n = frame_pkt_len f + m"
      using 1(2) by (auto simp: h2_loop.simps [of a] result_simps split: if_splits sum.splits)
    note p = frame_factory_parts [OF f(2)]
    obtain bs where IH: "m \<le> length a - frame_pkt_len f" "map frame_bytes gs = map Inr bs"
      "concat bs = take m (drop (frame_pkt_len f) a)"
      "h2_loop (drop (frame_pkt_len f) a @ b) = rbind (h2_loop (drop (frame_pkt_len f + m) a @ b))
         (\<lambda>(gs', k). Inr (gs @ gs', m + k))"
      using "1.IH" [OF f(1,2,3)] by (auto simp: add.commute)
    have "map frame_bytes fs = map Inr (take (frame_pkt_len f) a # bs)"
      using p(1) IH(2) by (simp add: f(4))
    moreover have "concat (take (frame_pkt_len f) a # bs) = take n a"
      by (simp add: f(5) IH(3) take_add)
    moreover have "h2_loop (a @ b) = rbind (h2_loop (drop n a @ b)) (\<lambda>(gs', k). Inr (fs @ gs', n + k))"
      using f(1) p(2,3) IH(4)
      by (cases "h2_loop (drop (frame_pkt_len f + m) a @ b)")
        (auto simp: h2_loop.simps [of "a @ b"] f(4,5) add.assoc)
    moreover have "n \<le> length a" using p(2) IH(1) f(5) by simp
    ultimately show ?thesis by blast
  qed
qed

section \<open>Properties\<close>

text \<open>
  C25: what the stream parser returns for a buffer accounts for it: the bytes of the frames, put together,
  are the bytes it says it consumed. When more bytes arrive, parsing the unconsumed bytes with them
  goes on where it stopped, and gives what parsing everything at once gives.
\<close>

theorem http2_incremental:
  assumes "frame_multi_factory a False = Inr (fs, n)"
  shows "n \<le> length a \<and> (\<exists>bs. map frame_bytes fs = map Inr bs \<and> concat bs = take n a) \<and>
    frame_multi_factory (a @ b) False =
      rbind (frame_multi_factory (drop n a @ b) False) (\<lambda>(gs, m). Inr (fs @ gs, n + m))"
  using h2_loop_parts [of a fs n b] assms by (simp add: frame_multi_factory_def)

theorem http2_incremental_witness:
  "\<exists>fs. frame_multi_factory [0, 0, 0, 4, 1, 0, 0, 0, 0, 0, 0] False = Inr (fs, 9) \<and>
     (\<exists>bs. map frame_bytes fs = map Inr bs \<and> concat bs = [0, 0, 0, 4, 1, 0, 0, 0, 0])"
proof -
  obtain f where "frame_factory [0, 0, 0, 4, 1, 0, 0, 0, 0, 0, 0] = Inr f" "frame_pkt_len f = 9"
    by (simp add: frame_factory_def unpack_uint_def FRAME_TYPES_def settings_frame_unpack_def
        frame_unpack_def packet_unpack_def struct_unpack_def packet_init_def
        frame_hdr_def frame_make_def frame_length_def bytes_int_def be_int_def
        h2_extend_def h2_base.defs h2_frame.defs frame_pkt_len_def packet_len_def)
  moreover have "frame_factory [0, 0] = Inl NeedData" by (simp add: frame_factory_def)
  ultimately obtain fs where "frame_multi_factory [0, 0, 0, 4, 1, 0, 0, 0, 0, 0, 0] False = Inr (fs, 9)"
    by (simp add: frame_multi_factory_def h2_loop.simps [of "[0, 0]"]
        h2_loop.simps [of "[0, 0, 0, 4, 1, 0, 0, 0, 0, 0, 0]"])
  then show ?thesis using http2_incremental [of "[0, 0, 0, 4, 1, 0, 0, 0, 0, 0, 0]" fs 9] by simp
qed

text \<open>
  A frame of type DATA with the padding flag and a padding length of 0 loses all its data: the
  slice that should leave the padding out is empty.
\<close>

theorem http2_zero_padding:
  assumes "data_frame_unpack buf = Inr f" "f_flags f AND 0x08 \<noteq> 0" "f_data f = 0 # d"
  shows "f_unpadded f = [] \<and> f_pad_length f = Some 0"
  using assms
  by (auto simp: data_frame_unpack_def padded_unpack_def result_simps HTTP2_FLAG_PADDED_def
      h2_extend_def h2_base.defs h2_frame.defs py_slice_def unpack_uint_def bytes_int_def be_int_def split: if_splits)

theorem http2_zero_padding_witness:
  "\<exists>f. data_frame_unpack [0, 0, 3, 0, 8, 0, 0, 0, 1, 0, 65, 66] = Inr f \<and>
     f_data f = [0, 65, 66] \<and> f_unpadded f = []"
proof -
  have a: "(8 :: int) AND 8 = 8" by simp
  obtain f where f: "data_frame_unpack [0, 0, 3, 0, 8, 0, 0, 0, 1, 0, 65, 66] = Inr f"
    "f_flags f AND 0x08 \<noteq> 0" "f_data f = [0, 65, 66]"
    by (simp add: data_frame_unpack_def padded_unpack_def frame_unpack_def packet_unpack_def struct_unpack_def
        frame_hdr_def frame_make_def frame_length_def bytes_int_def be_int_def unpack_uint_def
        HTTP2_FLAG_PADDED_def h2_extend_def h2_base.defs h2_frame.defs)
  then show ?thesis using http2_zero_padding [OF f] by auto
qed

text \<open>
  A PRIORITY frame with fewer than 5 bytes of payload, which no later byte can complete, counts as
  incomplete: the parser consumes nothing from there on, whatever follows.
\<close>

theorem http2_short_priority_stalls:
  assumes "length d < 5" "length sid = 4"
  shows "frame_multi_factory ([0, 0, of_nat (length d), 2, fl] @ sid @ d @ rest) False = Inr ([], 0)"
proof -
  let ?buf = "[0, 0, of_nat (length d), 2, fl] @ sid @ d @ rest"
  have "ord (of_nat (length d)) = int (length d)"
    using assms by (simp add: ord_def uint_nat unat_of_nat)
  then have "frame_unpack ?buf = Inr \<lparr>f_length_bytes = [0, 0, of_nat (length d)], f_type = 2,
      f_flags = ord fl, f_stream_id = be_int sid, f_data = d\<rparr>"
    using assms
    by (simp add: frame_unpack_def packet_unpack_def struct_unpack_def frame_hdr_def frame_make_def
        frame_length_def bytes_int_def be_int_def)
  moreover have "priority_init d = Inl NeedData"
    using assms by (simp add: priority_init_def packet_init_def priority_unpack_def packet_unpack_short)
  ultimately have "frame_factory ?buf = Inl NeedData"
    by (simp add: frame_factory_def unpack_uint_def bytes_int_def be_int_def FRAME_TYPES_def
        packet_init_def priority_frame_unpack_def)
  then show ?thesis by (simp only: frame_multi_factory_def if_False h2_loop.simps [of ?buf]) simp
qed

theorem http2_short_priority_stalls_witness:
  "frame_multi_factory ([0, 0, 1, 2, 0] @ [0, 0, 0, 1] @ [7] @ [0, 0, 0, 6]) False = Inr ([], 0)"
  using http2_short_priority_stalls [of "[7]" "[0, 0, 0, 1]" 0 "[0, 0, 0, 6]"] by simp

end
