(* ===== verification/Qpack.thy ===== *)
theory Qpack
  imports Packet
begin

text \<open>
  QPACK instructions, \<^verbatim>\<open>dpkt/qpack.py\<close>: integers with a prefix, the instructions of the request
  stream, of the encoder stream and of the decoder stream, and the two parsers. The specification
  is the prefix integer encoding of RFC 7541 and the instruction formats of RFC 9204.
\<close>

section \<open>Integers\<close>

text \<open>The bytes after the prefix: seven bits each, the lowest first; the result counts the bytes.\<close>

fun int_tail :: "bytes \<Rightarrow> int \<Rightarrow> nat \<Rightarrow> int \<times> nat" where
  "int_tail [] v m = (v, 0)"
| "int_tail (b # bs) v m =
     (let v' = v + push_bit m (ord b AND 0x7f) in
      if ord b AND 0x80 = 0 then (v', 1)
      else (case int_tail bs v' (m + 7) of (r, n) \<Rightarrow> (r, Suc n)))"

definition decode_int :: "bytes \<Rightarrow> nat \<Rightarrow> (int \<times> nat) result" where
  "decode_int buf prefix_bits =
     (let mask = push_bit prefix_bits 1 - 1 in
      rbind (py_get buf 0) (\<lambda>b.
        let value = ord b AND mask in
        if value < mask then Inr (value, 1)
        else (case int_tail (drop 1 buf) mask 0 of (v, n) \<Rightarrow> Inr (v, Suc n))))"

section \<open>Instructions\<close>

text \<open>
  One constructor per class. The arguments are the attributes that \<^verbatim>\<open>unpack\<close> sets, in order, but
  for \<^verbatim>\<open>prefix\<close>, which is a constant of the class, and \<^verbatim>\<open>_consumed\<close>, which is returned beside
  the instruction.
\<close>

datatype qpack =
    Indexed int
  | LiteralNameRef bool int int bytes
  | LiteralLiteral int bytes int bytes
  | PostBase int
  | InsertRef bool int int bytes
  | InsertNoRef int bytes int bytes
  | Duplicate int
  | DynamicCapacity int
  | SectionAck int
  | StreamCancel int

fun qpack_prefix :: "qpack \<Rightarrow> int" where
  "qpack_prefix (Indexed _) = 0x80"
| "qpack_prefix (LiteralNameRef _ _ _ _) = 0x40"
| "qpack_prefix (LiteralLiteral _ _ _ _) = 0x20"
| "qpack_prefix (PostBase _) = 0x10"
| "qpack_prefix (InsertRef _ _ _ _) = 0x80"
| "qpack_prefix (InsertNoRef _ _ _ _) = 0x40"
| "qpack_prefix (Duplicate _) = 0"
| "qpack_prefix (DynamicCapacity _) = 0x20"
| "qpack_prefix (SectionAck _) = 0x80"
| "qpack_prefix (StreamCancel _) = 0x40"

definition int_inst :: "(int \<Rightarrow> qpack) \<Rightarrow> nat \<Rightarrow> bytes \<Rightarrow> (qpack \<times> nat) result" where
  "int_inst C bits buf = rbind (decode_int buf bits) (\<lambda>(i, n). Inr (C i, n))"

text \<open>A reference to a name and a literal value; \<open>flag\<close> is the bit of \<^verbatim>\<open>static\<close>.\<close>

definition ref_inst :: "(bool \<Rightarrow> int \<Rightarrow> int \<Rightarrow> bytes \<Rightarrow> qpack) \<Rightarrow> int \<Rightarrow> nat \<Rightarrow> bytes \<Rightarrow> (qpack \<times> nat) result" where
  "ref_inst C flag bits buf =
     rbind (py_get buf 0) (\<lambda>b.
     rbind (decode_int buf bits) (\<lambda>(name_index, n).
     rbind (decode_int (drop n buf) 7) (\<lambda>(value_len, m).
       Inr (C (ord b AND flag \<noteq> 0) name_index value_len (take (nat value_len) (drop (n + m) buf)),
         n + m + nat value_len))))"

text \<open>A literal name and a literal value.\<close>

definition lit_inst :: "(int \<Rightarrow> bytes \<Rightarrow> int \<Rightarrow> bytes \<Rightarrow> qpack) \<Rightarrow> nat \<Rightarrow> bytes \<Rightarrow> (qpack \<times> nat) result" where
  "lit_inst C bits buf =
     rbind (decode_int buf bits) (\<lambda>(name_len, n).
       let name = take (nat name_len) (drop n buf); off = n + nat name_len in
       rbind (decode_int (drop off buf) 7) (\<lambda>(value_len, m).
         Inr (C name_len name value_len (take (nat value_len) (drop (off + m) buf)),
           off + m + nat value_len)))"

definition indexed_unpack :: "bytes \<Rightarrow> (qpack \<times> nat) result" where
  "indexed_unpack = int_inst Indexed 6"
definition literal_name_ref_unpack :: "bytes \<Rightarrow> (qpack \<times> nat) result" where
  "literal_name_ref_unpack = ref_inst LiteralNameRef 0x10 4"
definition literal_literal_unpack :: "bytes \<Rightarrow> (qpack \<times> nat) result" where
  "literal_literal_unpack = lit_inst LiteralLiteral 3"
definition post_base_unpack :: "bytes \<Rightarrow> (qpack \<times> nat) result" where
  "post_base_unpack = int_inst PostBase 4"
definition insert_ref_unpack :: "bytes \<Rightarrow> (qpack \<times> nat) result" where
  "insert_ref_unpack = ref_inst InsertRef 0x40 6"
definition insert_no_ref_unpack :: "bytes \<Rightarrow> (qpack \<times> nat) result" where
  "insert_no_ref_unpack = lit_inst InsertNoRef 5"
definition duplicate_unpack :: "bytes \<Rightarrow> (qpack \<times> nat) result" where
  "duplicate_unpack = int_inst Duplicate 5"
definition dynamic_capacity_unpack :: "bytes \<Rightarrow> (qpack \<times> nat) result" where
  "dynamic_capacity_unpack = int_inst DynamicCapacity 5"
definition section_ack_unpack :: "bytes \<Rightarrow> (qpack \<times> nat) result" where
  "section_ack_unpack = int_inst SectionAck 7"
definition stream_cancel_unpack :: "bytes \<Rightarrow> (qpack \<times> nat) result" where
  "stream_cancel_unpack = int_inst StreamCancel 6"

lemmas qpack_unpack_defs = indexed_unpack_def literal_name_ref_unpack_def literal_literal_unpack_def
  post_base_unpack_def insert_ref_unpack_def insert_no_ref_unpack_def duplicate_unpack_def
  dynamic_capacity_unpack_def

section \<open>Streams\<close>

text \<open>The class that the first byte selects; \<open>None\<close> is the \<^verbatim>\<open>else: break\<close>.\<close>

definition encoder_class :: "byte \<Rightarrow> (bytes \<Rightarrow> (qpack \<times> nat) result) option" where
  "encoder_class b =
     (let prefix = ord b AND 0xe0 in
      if prefix = 0x20 then Some dynamic_capacity_unpack
      else if prefix = 0 then Some duplicate_unpack
      else if ord b AND 0x80 \<noteq> 0 then Some insert_ref_unpack
      else if ord b AND 0x40 \<noteq> 0 then Some insert_no_ref_unpack
      else None)"

definition request_class :: "byte \<Rightarrow> (bytes \<Rightarrow> (qpack \<times> nat) result) option" where
  "request_class b =
     (if ord b AND 0x80 \<noteq> 0 then Some indexed_unpack
      else if ord b AND 0x40 \<noteq> 0 then Some literal_name_ref_unpack
      else if ord b AND 0x20 \<noteq> 0 then Some literal_literal_unpack
      else if ord b AND 0x10 \<noteq> 0 then Some post_base_unpack
      else None)"

lemma decode_int_pos: "decode_int buf k = Inr (v, n) \<Longrightarrow> 0 < n"
  by (auto simp: decode_int_def Let_def result_simps split: if_splits prod.splits)

lemma inst_pos:
  "int_inst C1 k buf = Inr (i, n) \<Longrightarrow> 0 < n"
  "ref_inst C2 fl k buf = Inr (i, n) \<Longrightarrow> 0 < n"
  "lit_inst C3 k buf = Inr (i, n) \<Longrightarrow> 0 < n"
  by (auto simp: int_inst_def ref_inst_def lit_inst_def Let_def result_simps dest!: decode_int_pos)

lemma class_pos:
  "encoder_class b = Some U \<Longrightarrow> U buf = Inr (i, n) \<Longrightarrow> 0 < n"
  "request_class b = Some U \<Longrightarrow> U buf = Inr (i, n) \<Longrightarrow> 0 < n"
  by (auto simp: encoder_class_def request_class_def Let_def qpack_unpack_defs split: if_splits dest: inst_pos)

text \<open>Both parsers stop silently at an error of \<^verbatim>\<open>unpack\<close>.\<close>

definition qpack_stops :: "exn \<Rightarrow> bool" where
  "qpack_stops e \<longleftrightarrow> e = IndexError \<or> e = StructError"

function parse_qpack_encoder :: "bytes \<Rightarrow> qpack list result" where
  "parse_qpack_encoder [] = Inr []"
| "parse_qpack_encoder (b # bs) =
     (case encoder_class b of
        None \<Rightarrow> Inr []
      | Some U \<Rightarrow>
          (case U (b # bs) of
             Inl e \<Rightarrow> if qpack_stops e then Inr [] else Inl e
           | Inr (i, n) \<Rightarrow> rbind (parse_qpack_encoder (drop n (b # bs))) (\<lambda>is. Inr (i # is))))"
  by pat_completeness auto
termination by (relation "measure length") (auto dest: class_pos)

declare parse_qpack_encoder.simps(2) [simp del]

function parse_qpack_request :: "bytes \<Rightarrow> qpack list result" where
  "parse_qpack_request [] = Inr []"
| "parse_qpack_request (b # bs) =
     (case request_class b of
        None \<Rightarrow> Inr []
      | Some U \<Rightarrow>
          (case U (b # bs) of
             Inl e \<Rightarrow> if qpack_stops e then Inr [] else Inl e
           | Inr (i, n) \<Rightarrow> rbind (parse_qpack_request (drop n (b # bs))) (\<lambda>is. Inr (i # is))))"
  by pat_completeness auto
termination by (relation "measure length") (auto dest: class_pos)

declare parse_qpack_request.simps(2) [simp del]

section \<open>The encoding of the RFCs\<close>

fun int_cont :: "nat \<Rightarrow> bytes" where
  "int_cont v = (if v < 128 then [of_nat v] else of_nat (128 + v mod 128) # int_cont (v div 128))"

declare int_cont.simps [simp del]

definition encode_int :: "nat \<Rightarrow> nat \<Rightarrow> nat \<Rightarrow> bytes" where
  "encode_int bits high v =
     (if v < 2 ^ bits - 1 then [of_nat (high + v)]
      else of_nat (high + (2 ^ bits - 1)) # int_cont (v - (2 ^ bits - 1)))"

fun qpack_wire :: "qpack \<Rightarrow> bytes" where
  "qpack_wire (Indexed i) = encode_int 6 128 (nat i)"
| "qpack_wire (LiteralNameRef s i l v) =
     encode_int 4 (64 + (if s then 16 else 0)) (nat i) @ encode_int 7 0 (length v) @ v"
| "qpack_wire (LiteralLiteral nl n l v) =
     encode_int 3 32 (length n) @ n @ encode_int 7 0 (length v) @ v"
| "qpack_wire (PostBase i) = encode_int 4 16 (nat i)"
| "qpack_wire (InsertRef s i l v) =
     encode_int 6 (128 + (if s then 64 else 0)) (nat i) @ encode_int 7 0 (length v) @ v"
| "qpack_wire (InsertNoRef nl n l v) =
     encode_int 5 64 (length n) @ n @ encode_int 7 0 (length v) @ v"
| "qpack_wire (Duplicate i) = encode_int 5 0 (nat i)"
| "qpack_wire (DynamicCapacity i) = encode_int 5 32 (nat i)"
| "qpack_wire (SectionAck i) = encode_int 7 128 (nat i)"
| "qpack_wire (StreamCancel i) = encode_int 6 64 (nat i)"

fun qpack_ok :: "qpack \<Rightarrow> bool" where
  "qpack_ok (LiteralNameRef s i l v) \<longleftrightarrow> 0 \<le> i \<and> l = int (length v)"
| "qpack_ok (LiteralLiteral nl n l v) \<longleftrightarrow> nl = int (length n) \<and> l = int (length v)"
| "qpack_ok (InsertRef s i l v) \<longleftrightarrow> 0 \<le> i \<and> l = int (length v)"
| "qpack_ok (InsertNoRef nl n l v) \<longleftrightarrow> nl = int (length n) \<and> l = int (length v)"
| "qpack_ok (Indexed i) \<longleftrightarrow> 0 \<le> i"
| "qpack_ok (PostBase i) \<longleftrightarrow> 0 \<le> i"
| "qpack_ok (Duplicate i) \<longleftrightarrow> 0 \<le> i"
| "qpack_ok (DynamicCapacity i) \<longleftrightarrow> 0 \<le> i"
| "qpack_ok (SectionAck i) \<longleftrightarrow> 0 \<le> i"
| "qpack_ok (StreamCancel i) \<longleftrightarrow> 0 \<le> i"

definition is_request :: "qpack \<Rightarrow> bool" where
  "is_request i \<longleftrightarrow>
     (case i of Indexed _ \<Rightarrow> True | LiteralNameRef _ _ _ _ \<Rightarrow> True | LiteralLiteral _ _ _ _ \<Rightarrow> True
      | PostBase _ \<Rightarrow> True | _ \<Rightarrow> False)"

definition is_encoder :: "qpack \<Rightarrow> bool" where
  "is_encoder i \<longleftrightarrow>
     (case i of InsertRef _ _ _ _ \<Rightarrow> True | InsertNoRef _ _ _ _ \<Rightarrow> True | Duplicate _ \<Rightarrow> True
      | DynamicCapacity _ \<Rightarrow> True | _ \<Rightarrow> False)"

lemma ord_of_nat: "n < 256 \<Longrightarrow> ord (of_nat n) = int n"
  by (simp add: ord_def uint_nat unat_of_nat)

lemma and_low: "a AND 127 = a mod 128" for a :: int
  using and_mask_int [of a 7] by simp

lemma and_flag: "a AND 2 ^ k = 0 \<longleftrightarrow> even (a div 2 ^ k)" for a :: int
  by (simp add: and_exp_eq_0_iff_not_bit bit_iff_odd)

lemma and_flags:
  "a AND 128 = 0 \<longleftrightarrow> even (a div 128)" "a AND 64 = 0 \<longleftrightarrow> even (a div 64)"
  "a AND 32 = 0 \<longleftrightarrow> even (a div 32)" "a AND 16 = 0 \<longleftrightarrow> even (a div 16)" for a :: int
  using and_flag [of a 7] and_flag [of a 6] and_flag [of a 5] and_flag [of a 4] by simp_all

lemma and_top: "0 \<le> a \<Longrightarrow> a < 256 \<Longrightarrow> a AND 128 = 0 \<longleftrightarrow> a < 128" for a :: int
proof -
  assume "0 \<le> a" "a < 256"
  then have "a div 128 = 0 \<or> a div 128 = 1 \<and> 128 \<le> a" by presburger
  then show ?thesis using \<open>0 \<le> a\<close> unfolding and_flags by auto
qed

lemma and_e0: "a AND 224 = 32 * (a div 32 mod 8)" for a :: int
proof -
  have "a AND push_bit 5 (mask 3) = push_bit 5 (take_bit 3 (drop_bit 5 a))"
    by (rule bit_eqI) (auto simp: bit_simps)
  then show ?thesis
    by (simp add: push_bit_eq_mult take_bit_eq_mod drop_bit_eq_div mask_eq_exp_minus_1)
qed

lemma int_tail_cont:
  "int_tail (int_cont v @ rest) a m = (a + int v * 2 ^ m, length (int_cont v))"
proof (induction v arbitrary: a m rule: int_cont.induct)
  case (1 v)
  show ?case
  proof (cases "v < 128")
    case True
    then show ?thesis
      by (simp add: int_cont.simps [of v] ord_of_nat and_low and_top push_bit_eq_mult)
  next
    case False
    have "ord (of_nat (128 + v mod 128)) = int (128 + v mod 128)" by (rule ord_of_nat) simp
    moreover have "int v = int (v mod 128) + 128 * int (v div 128)"
      by (metis mod_mult_div_eq of_nat_add of_nat_mult of_nat_numeral)
    ultimately show ?thesis
      using 1 [OF False] False
      by (simp add: int_cont.simps [of v] and_low and_top push_bit_eq_mult power_add algebra_simps)
  qed
qed

lemma encode_int_hd:
  "encode_int bits high v = of_nat (high + min v (2 ^ bits - 1)) # tl (encode_int bits high v)"
  by (auto simp: encode_int_def min_def simp del: of_nat_add)

lemma high_min:
  assumes "high + 2 ^ bits \<le> (256 :: nat)"
  shows "high + min v (2 ^ bits - 1) < 256" "min v (2 ^ bits - 1) < 2 ^ bits"
proof -
  have "0 < (2 :: nat) ^ bits" by simp
  then show "high + min v (2 ^ bits - 1) < 256" "min v (2 ^ bits - 1) < 2 ^ bits"
    using assms by linarith+
qed

lemma decode_encode:
  assumes "2 ^ bits dvd high" "high + 2 ^ bits \<le> 256"
  shows "decode_int (encode_int bits high v @ rest) bits = Inr (int v, length (encode_int bits high v))"
proof -
  define p where "p = (2 :: nat) ^ bits"
  have p: "0 < p" "p dvd high" "high + p \<le> 256" using assms by (simp_all add: p_def)
  have m: "push_bit bits 1 - 1 = int p - 1" by (simp add: p_def push_bit_eq_mult)
  have e: "encode_int bits high v = (if v < p - 1 then [of_nat (high + v)]
      else of_nat (high + (p - 1)) # int_cont (v - (p - 1)))"
    by (simp only: encode_int_def p_def)
  have a: "ord (of_nat (high + w)) AND (int p - 1) = int w" if "w < p" for w
  proof -
    have "ord (of_nat (high + w)) AND (2 ^ bits - 1) = int (high + w) mod 2 ^ bits"
      using p that by (simp only: and_mask_int ord_of_nat)
    also have "\<dots> = int ((high + w) mod p)" by (simp add: p_def zmod_int)
    also have "(high + w) mod p = w" using p that by (auto elim: dvdE)
    finally show ?thesis by (simp add: p_def)
  qed
  show ?thesis
  proof (cases "v < p - 1")
    case True
    then have "int v < int p - 1" "v < p" by linarith+
    then show ?thesis using a [of v] True
      unfolding decode_int_def e m Let_def by (simp del: of_nat_add)
  next
    case False
    then show ?thesis using a [of "p - 1"] p(1) int_tail_cont [of "v - (p - 1)" rest "int p - 1" 0]
      unfolding decode_int_def e m Let_def by (simp del: of_nat_add)
  qed
qed

text \<open>The instructions of the three shapes, decoded from their encoding.\<close>

lemma int_inst_wire:
  assumes "2 ^ bits dvd high" "high + 2 ^ bits \<le> 256" "0 \<le> i"
  shows "int_inst C bits (encode_int bits high (nat i) @ rest) =
    Inr (C i, length (encode_int bits high (nat i)))"
  using decode_encode [OF assms(1,2), of "nat i" rest] assms(3) by (simp add: int_inst_def)

lemma value_len: "decode_int (encode_int 7 0 n @ rest) 7 = Inr (int n, length (encode_int 7 0 n))"
  by (rule decode_encode) simp_all

lemma ref_inst_wire:
  assumes "2 ^ bits dvd high" "high + 2 ^ bits \<le> 256" "0 \<le> i"
  shows "ref_inst C fl bits (encode_int bits high (nat i) @ encode_int 7 0 (length v) @ v @ rest) =
    Inr (C (int (high + min (nat i) (2 ^ bits - 1)) AND fl \<noteq> 0) i (int (length v)) v,
      length (encode_int bits high (nat i) @ encode_int 7 0 (length v) @ v))"
proof -
  have "high + min (nat i) (2 ^ bits - 1) < 256" by (rule high_min(1) [OF assms(2)])
  then have o: "ord (of_nat (high + min (nat i) (2 ^ bits - 1))) = int (high + min (nat i) (2 ^ bits - 1))"
    by (rule ord_of_nat)
  have "py_get (encode_int bits high (nat i) @ r) 0 = Inr (of_nat (high + min (nat i) (2 ^ bits - 1)))" for r
    by (subst encode_int_hd) simp
  then show ?thesis
    using decode_encode [OF assms(1,2), of "nat i" "encode_int 7 0 (length v) @ v @ rest"] assms(3) value_len o
    by (simp add: ref_inst_def)
qed

lemma lit_inst_wire:
  assumes "2 ^ bits dvd high" "high + 2 ^ bits \<le> 256"
  shows "lit_inst C bits (encode_int bits high (length n) @ n @ encode_int 7 0 (length v) @ v @ rest) =
    Inr (C (int (length n)) n (int (length v)) v,
      length (encode_int bits high (length n) @ n @ encode_int 7 0 (length v) @ v))"
  using decode_encode [OF assms, of "length n" "n @ encode_int 7 0 (length v) @ v @ rest"] value_len
  by (simp add: lit_inst_def Let_def)

text \<open>The class that the first byte of an encoded instruction selects.\<close>

lemma first_byte:
  assumes "2 ^ bits dvd high" "high + 2 ^ bits \<le> 256"
  shows "\<exists>b bs. encode_int bits high v = b # bs \<and> int high \<le> ord b \<and> ord b < int high + 2 ^ bits"
proof -
  have "high + min v (2 ^ bits - 1) < 256" by (rule high_min(1) [OF assms(2)])
  then have "ord (of_nat (high + min v (2 ^ bits - 1))) = int (high + min v (2 ^ bits - 1))"
    by (rule ord_of_nat)
  moreover have "min v (2 ^ bits - 1) < 2 ^ bits" by (rule high_min(2) [OF assms(2)])
  ultimately show ?thesis using encode_int_hd [of bits high v] by fastforce
qed

lemma encoder_class_ranges:
  "0 \<le> ord b \<Longrightarrow> ord b < 32 \<Longrightarrow> encoder_class b = Some duplicate_unpack"
  "32 \<le> ord b \<Longrightarrow> ord b < 64 \<Longrightarrow> encoder_class b = Some dynamic_capacity_unpack"
  "64 \<le> ord b \<Longrightarrow> ord b < 128 \<Longrightarrow> encoder_class b = Some insert_no_ref_unpack"
  "128 \<le> ord b \<Longrightarrow> ord b < 256 \<Longrightarrow> encoder_class b = Some insert_ref_unpack"
proof -
  show "0 \<le> ord b \<Longrightarrow> ord b < 32 \<Longrightarrow> encoder_class b = Some duplicate_unpack"
    by (simp add: encoder_class_def and_e0)
  show "32 \<le> ord b \<Longrightarrow> ord b < 64 \<Longrightarrow> encoder_class b = Some dynamic_capacity_unpack"
  proof -
    assume "32 \<le> ord b" "ord b < 64"
    then have "ord b div 32 = 1" by presburger
    then show ?thesis by (simp add: encoder_class_def and_e0)
  qed
  show "64 \<le> ord b \<Longrightarrow> ord b < 128 \<Longrightarrow> encoder_class b = Some insert_no_ref_unpack"
  proof -
    assume "64 \<le> ord b" "ord b < 128"
    then have "ord b div 32 = 2 \<or> ord b div 32 = 3" "ord b div 128 = 0" "ord b div 64 = 1" by presburger+
    then show ?thesis by (auto simp: encoder_class_def and_e0 and_flags)
  qed
  show "128 \<le> ord b \<Longrightarrow> ord b < 256 \<Longrightarrow> encoder_class b = Some insert_ref_unpack"
  proof -
    assume "128 \<le> ord b" "ord b < 256"
    then have "4 \<le> ord b div 32" "ord b div 32 < 8" "ord b div 128 = 1" by presburger+
    then show ?thesis by (simp add: encoder_class_def and_e0 and_flags)
  qed
qed

lemma request_class_ranges:
  "16 \<le> ord b \<Longrightarrow> ord b < 32 \<Longrightarrow> request_class b = Some post_base_unpack"
  "32 \<le> ord b \<Longrightarrow> ord b < 64 \<Longrightarrow> request_class b = Some literal_literal_unpack"
  "64 \<le> ord b \<Longrightarrow> ord b < 128 \<Longrightarrow> request_class b = Some literal_name_ref_unpack"
  "128 \<le> ord b \<Longrightarrow> ord b < 256 \<Longrightarrow> request_class b = Some indexed_unpack"
proof -
  have d: "ord b div 128 = (if 128 \<le> ord b then 1 else 0)" using ord_range(1,2) [of b] by presburger
  show "16 \<le> ord b \<Longrightarrow> ord b < 32 \<Longrightarrow> request_class b = Some post_base_unpack"
  proof -
    assume "16 \<le> ord b" "ord b < 32"
    then have "ord b div 64 = 0" "ord b div 32 = 0" "ord b div 16 = 1" by presburger+
    then show ?thesis using d \<open>ord b < 32\<close> by (simp add: request_class_def and_flags)
  qed
  show "32 \<le> ord b \<Longrightarrow> ord b < 64 \<Longrightarrow> request_class b = Some literal_literal_unpack"
  proof -
    assume "32 \<le> ord b" "ord b < 64"
    then have "ord b div 64 = 0" "ord b div 32 = 1" by presburger+
    then show ?thesis using d \<open>ord b < 64\<close> by (simp add: request_class_def and_flags)
  qed
  show "64 \<le> ord b \<Longrightarrow> ord b < 128 \<Longrightarrow> request_class b = Some literal_name_ref_unpack"
  proof -
    assume "64 \<le> ord b" "ord b < 128"
    then have "ord b div 64 = 1" by presburger
    then show ?thesis using d \<open>ord b < 128\<close> by (simp add: request_class_def and_flags)
  qed
  show "128 \<le> ord b \<Longrightarrow> ord b < 256 \<Longrightarrow> request_class b = Some indexed_unpack"
    using d by (simp add: request_class_def and_flags)
qed

text \<open>One step of each parser on an encoded instruction.\<close>

lemma request_step:
  assumes "is_request i" "qpack_ok i"
  shows "\<exists>b bs U. qpack_wire i = b # bs \<and> request_class b = Some U \<and>
    (\<forall>rest. U (qpack_wire i @ rest) = Inr (i, length (qpack_wire i)))"
proof -
  consider (1) j where "i = Indexed j" | (2) s j l v where "i = LiteralNameRef s j l v"
    | (3) nl n l v where "i = LiteralLiteral nl n l v" | (4) j where "i = PostBase j"
    using assms(1) by (cases i) (auto simp: is_request_def)
  then show ?thesis
  proof cases
    case 1
    then show ?thesis
      using first_byte [of 6 128 "nat j"] request_class_ranges(4) int_inst_wire [of 6 128 j Indexed] assms(2)
      by (fastforce simp: indexed_unpack_def)
  next
    case 2
    define h where "h = (64 + (if s then 16 else 0) :: nat)"
    have h: "2 ^ 4 dvd h" "h + 2 ^ 4 \<le> 256" "h = 64 \<or> h = 80" by (simp_all add: h_def)
    have fl: "(int (h + min (nat j) (2 ^ 4 - 1)) AND 16 \<noteq> 0) = s"
    proof -
      have "int (h + min (nat j) 15) = 16 * (if s then 5 else 4) + int (min (nat j) 15)"
        by (simp add: h_def)
      then have "int (h + min (nat j) 15) div 16 = (if s then 5 else 4)"
        by (rule int_div_pos_eq) simp_all
      then show ?thesis by (simp add: and_flags)
    qed
    have "\<exists>b bs. encode_int 4 h (nat j) = b # bs \<and> request_class b = Some literal_name_ref_unpack"
      using first_byte [OF h(1,2), of "nat j"] h(3) request_class_ranges(3) by fastforce
    then show ?thesis
      using ref_inst_wire [OF h(1,2), of j LiteralNameRef 16 v] 2 assms(2) fl
      unfolding 2 qpack_wire.simps h_def [symmetric]
      by (auto simp: literal_name_ref_unpack_def)
  next
    case 3
    then show ?thesis
      using first_byte [of 3 32 "length n"] request_class_ranges(2) lit_inst_wire [of 3 32 LiteralLiteral n v] assms(2)
      by (fastforce simp: literal_literal_unpack_def)
  next
    case 4
    then show ?thesis
      using first_byte [of 4 16 "nat j"] request_class_ranges(1) int_inst_wire [of 4 16 j PostBase] assms(2)
      by (fastforce simp: post_base_unpack_def)
  qed
qed

lemma encoder_step:
  assumes "is_encoder i" "qpack_ok i"
  shows "\<exists>b bs U. qpack_wire i = b # bs \<and> encoder_class b = Some U \<and>
    (\<forall>rest. U (qpack_wire i @ rest) = Inr (i, length (qpack_wire i)))"
proof -
  consider (1) j where "i = Duplicate j" | (2) s j l v where "i = InsertRef s j l v"
    | (3) nl n l v where "i = InsertNoRef nl n l v" | (4) j where "i = DynamicCapacity j"
    using assms(1) by (cases i) (auto simp: is_encoder_def)
  then show ?thesis
  proof cases
    case 1
    then show ?thesis
      using first_byte [of 5 0 "nat j"] encoder_class_ranges(1) int_inst_wire [of 5 0 j Duplicate] assms(2)
      by (fastforce simp: duplicate_unpack_def)
  next
    case 2
    define h where "h = (128 + (if s then 64 else 0) :: nat)"
    have h: "2 ^ 6 dvd h" "h + 2 ^ 6 \<le> 256" "h = 128 \<or> h = 192" by (simp_all add: h_def)
    have fl: "(int (h + min (nat j) (2 ^ 6 - 1)) AND 64 \<noteq> 0) = s"
    proof -
      have "int (h + min (nat j) 63) = 64 * (if s then 3 else 2) + int (min (nat j) 63)"
        by (simp add: h_def)
      then have "int (h + min (nat j) 63) div 64 = (if s then 3 else 2)"
        by (rule int_div_pos_eq) simp_all
      then show ?thesis by (simp add: and_flags)
    qed
    have "\<exists>b bs. encode_int 6 h (nat j) = b # bs \<and> encoder_class b = Some insert_ref_unpack"
      using first_byte [OF h(1,2), of "nat j"] h(3) encoder_class_ranges(4) by fastforce
    then show ?thesis
      using ref_inst_wire [OF h(1,2), of j InsertRef 64 v] 2 assms(2) fl
      unfolding 2 qpack_wire.simps h_def [symmetric]
      by (auto simp: insert_ref_unpack_def)
  next
    case 3
    then show ?thesis
      using first_byte [of 5 64 "length n"] encoder_class_ranges(3) lit_inst_wire [of 5 64 InsertNoRef n v] assms(2)
      by (fastforce simp: insert_no_ref_unpack_def)
  next
    case 4
    then show ?thesis
      using first_byte [of 5 32 "nat j"] encoder_class_ranges(2) int_inst_wire [of 5 32 j DynamicCapacity] assms(2)
      by (fastforce simp: dynamic_capacity_unpack_def)
  qed
qed

section \<open>Properties\<close>



end
