(* ===== verification/Tables.thy ===== *)
theory Tables
  imports Header_Classes Items Checksum
begin

text \<open>
  Objects of classes with a header table, as the protocol modules use them: the constructor of a
  class without a table, what a packed header reads back as, and the packets that fill in an
  Internet checksum over their header and data when it is zero.
\<close>

section \<open>Classes without a table\<close>

text \<open>
  A class without a header table has none of the attributes that \<^verbatim>\<open>_MetaPacket\<close> derives from one:
  the handler of \<^verbatim>\<open>struct.error\<close> in the constructor reads \<^verbatim>\<open>__hdr_len__\<close>, and the result is an
  \<open>AttributeError\<close>.
\<close>

definition no_table_init :: "(bytes \<Rightarrow> 'a result) \<Rightarrow> bytes \<Rightarrow> 'a result" where
  "no_table_init unpack buf = (case unpack buf of Inl StructError \<Rightarrow> Inl AttributeError | r \<Rightarrow> r)"

section \<open>Reading back a header\<close>

text \<open>A class packs its header and reads it back, whatever follows it.\<close>

lemma class_pack_parts:
  assumes "table_ok h" "exact_all (hdr_fmt h) vs"
  obtains b where "packet_pack_hdr bo h vs = Inr b" "struct_pack bo (hdr_fmt h) vs = Inr b"
    "length b = hdr_len h" "\<And>d. class_unpack bo h (b @ d) = Inr (obj_make vs d)"
proof -
  obtain b where b: "packet_pack_hdr bo h vs = Inr b" "struct_pack bo (hdr_fmt h) vs = Inr b"
    "length b = hdr_len h"
    using packet_pack_hdr_exact [OF assms(2)] by blast
  have "class_unpack bo h (b @ d) = Inr (obj_make vs d)" for d
    using packet_class.unpack_pack [OF table_class [OF assms(1)] assms(2), of bo d] b
    by (simp add: packet_bytes_def class_unpack_def)
  then show thesis using that b by blast
qed

lemma class_pack_read:
  assumes "table_ok h" "exact_all (hdr_fmt h) vs" "packet_pack_hdr bo h vs = Inr a"
  shows "length a = hdr_len h \<and> class_unpack bo h (a @ d) = Inr (obj_make vs d)"
proof -
  obtain b where "packet_pack_hdr bo h vs = Inr b" "length b = hdr_len h"
    "class_unpack bo h (b @ d) = Inr (obj_make vs d)"
    using class_pack_parts [OF assms(1,2)] by metis
  then show ?thesis using assms(3) by simp
qed

lemma class_field_read:
  assumes "table_ok h" "exact_all (hdr_fmt h) vs" "packet_pack_hdr bo h vs = Inr b"
    "i < length h" "h ! i = (n, UI k, d)"
  shows "bytes_int bo (take k (drop (hdr_len (take i h)) (b @ r))) = get_int h n vs \<and>
    length (take k (drop (hdr_len (take i h)) (b @ r))) = k"
proof -
  have "struct_pack bo (hdr_fmt h) vs = Inr b"
    using packet_pack_hdr_exact [OF assms(2), of bo] assms(3) by auto
  then show ?thesis
    using hdr_field_read [OF assms(4,5) _ _ assms(2)] assms(1) by (simp add: table_ok_def)
qed

lemma class_unpack_error: "class_unpack bo h b = Inl e \<Longrightarrow> e = StructError \<and> length b < hdr_len h"
  using packet_unpack_error [of bo h obj_make b e] by (simp add: class_unpack_def)

lemma class_unpack_data: "class_unpack bo h b = Inr p \<Longrightarrow> obj_data p = drop (hdr_len h) b \<and> hdr_len h \<le> length b"
  using packet_unpack_ok [of bo h obj_make b p] by (auto simp: class_unpack_def obj_make_def)

lemma class_pack_back:
  assumes "table_ok h" "class_unpack BE h buf = Inr p"
  shows "packet_pack_hdr BE h (obj_vals p) = Inr (take (hdr_len h) buf)"
  using packet_class.unpack_pack_hdr [OF table_class [OF assms(1)], of BE buf p] assms(2) by (simp add: class_unpack_def)

lemma packet_init_Inl:
  "packet_init n f b = Inl e \<longleftrightarrow>
   (\<exists>e'. f b = Inl e' \<and> e = (if e' = StructError then if length b < n then NeedData else UnpackError else e'))"
  by (cases "f b") (auto simp: packet_init_def split: exn.splits)

text \<open>An object of a table class without data is read back from its bytes.\<close>

lemma class_reads:
  assumes "table_ok h" "exact_all (hdr_fmt h) (obj_vals p)" "obj_data p = []" "class_bytes BE h p = Inr b"
  shows "length b = hdr_len h \<and> class_init BE h b = Inr p"
proof -
  obtain c where c: "packet_bytes BE h (obj_vals p) [] = Inr c" "length c = hdr_len h"
    "packet_unpack BE h obj_make c = Inr (obj_make (obj_vals p) [])"
    using packet_class.unpack_pack [OF table_class [OF assms(1)] assms(2), of BE "[]"]
    by (auto simp: packet_len_def)
  then show ?thesis
    using assms(3,4) by (cases p) (simp add: class_bytes_def class_init_def class_unpack_def packet_init_def obj_make_def)
qed

lemma class_field_at_0:
  assumes "table_ok ((n, UI k, d) # h)" "class_init bo ((n, UI k, d) # h) b = Inr p"
  shows "get_int ((n, UI k, d) # h) n (obj_vals p) = bytes_int bo (take k b)"
  using assms(2)
  by (auto simp: class_init_def class_unpack_def packet_init_Inr packet_unpack_def rbind_Inr_iff obj_make_def
      struct_unpack_def get_int_Cons split: if_splits)

section \<open>Checksums over header and data\<close>

text \<open>
  \<^verbatim>\<open>__bytes__\<close> of the packets with a \<^verbatim>\<open>sum\<close> over everything: a zero checksum is replaced by the
  checksum of the packed packet. The result is the new attribute values.
\<close>

definition fill_sum :: "hdr \<Rightarrow> pval list \<Rightarrow> bytes \<Rightarrow> pval list result" where
  "fill_sum h vs body =
     (if get_int h ''sum'' vs = 0
      then rbind (packet_bytes BE h vs body) (\<lambda>b. rbind (in_cksum b) (\<lambda>c.
             Inr (set_val h ''sum'' (VInt c) vs)))
      else Inr vs)"

definition sum_bytes :: "hdr \<Rightarrow> pval list \<Rightarrow> bytes \<Rightarrow> (bytes \<times> pval list) result" where
  "sum_bytes h vs body =
     rbind (fill_sum h vs body) (\<lambda>vs'. rbind (packet_bytes BE h vs' body) (\<lambda>b. Inr (b, vs')))"

text \<open>The contract of such a class: its table has a 16-bit \<^verbatim>\<open>sum\<close> at an even offset.\<close>

locale summed =
  fixes h :: hdr
    and i :: nat
    and d :: pval
  assumes table: "table_ok h"
    and index: "i < length h" "h ! i = (''sum'', UI 2, d)"
    and even: "even (hdr_len (take i h))"
begin

lemma sum_place:
  assumes "exact_all (hdr_fmt h) vs" "packet_bytes BE h vs body = Inr b" "0 \<le> c" "c < 65536"
  shows "\<exists>pre post. b = pre @ int_bytes BE 2 (get_int h ''sum'' vs) @ post \<and>
    length pre = hdr_len (take i h) \<and> length b = length pre + 2 + length post \<and>
    packet_bytes BE h (set_val h ''sum'' (VInt c) vs) body = Inr (pre @ int_bytes BE 2 c @ post)"
proof -
  have t: "Pad \<notin> set (hdr_fmt h)" "distinct (hdr_fields h)" using table by (simp_all add: table_ok_def)
  obtain a where a: "packet_pack_hdr BE h vs = Inr a" "struct_pack BE (hdr_fmt h) vs = Inr a" "b = a @ body"
    using assms(2) packet_pack_hdr_exact [OF assms(1), of BE] by (auto simp: packet_bytes_def rbind_Inr_iff)
  let ?o = "hdr_len (take i h)"
  have w: "struct_pack BE (hdr_fmt h) (set_val h ''sum'' (VInt c) vs) =
      Inr (take ?o a @ int_bytes BE 2 c @ drop (?o + 2) a)"
    using hdr_field_write [OF index t assms(1) a(2) assms(3)] assms(4) by simp
  have r: "bytes_int BE (take 2 (drop ?o a)) = get_int h ''sum'' vs" "length (take 2 (drop ?o a)) = 2"
    using hdr_field_read [OF index t assms(1) a(2), of "[]"] by simp_all
  have "a = take ?o a @ take 2 (drop ?o a) @ drop (?o + 2) a"
    by (metis append_take_drop_id drop_drop add.commute)
  then have "a = take ?o a @ int_bytes BE 2 (get_int h ''sum'' vs) @ drop (?o + 2) a"
    using int_bytes_bytes_int [OF r(2), of BE] r(1) by simp
  moreover have "length (take ?o a) = ?o" "?o + 2 \<le> length a" using r(2) by auto
  ultimately show ?thesis
    using w a(3)
    by (intro exI [of _ "take ?o a"] exI [of _ "drop (?o + 2) a @ body"])
      (auto simp: packet_bytes_def packet_pack_hdr_def)
qed

lemma fill_exact:
  assumes "exact_all (hdr_fmt h) vs" "fill_sum h vs body = Inr vs'"
  shows "exact_all (hdr_fmt h) vs' \<and> (\<forall>n. n \<noteq> ''sum'' \<longrightarrow> get_int h n vs' = get_int h n vs)"
proof (cases "vs' = vs")
  case False
  then obtain b c where c: "in_cksum b = Inr c" "vs' = set_val h ''sum'' (VInt c) vs"
    using assms(2) by (auto simp: fill_sum_def rbind_Inr_iff split: if_splits)
  have t: "Pad \<notin> set (hdr_fmt h)" "distinct (hdr_fields h)" using table by (simp_all add: table_ok_def)
  have "0 \<le> c" "c < 65536" using in_cksum_ok [of b] c(1) by auto
  moreover have "f = UI 2" if "(''sum'', f, e) \<in> set h" for f e
  proof -
    have "(''sum'', UI 2, d) \<in> set h" using index nth_mem by metis
    then have "(f, e) = (UI 2, d)"
      using that t(2) eq_key_imp_eq_value [of h "''sum''"] by (auto simp: hdr_fields_def)
    then show ?thesis by simp
  qed
  ultimately have "\<forall>(m, f, e) \<in> set h. m = ''sum'' \<longrightarrow> exact f (VInt c)" by fastforce
  from set_val_exact [OF assms(1) t(1) this] show ?thesis
    using get_set_val [OF assms(1) t] c(2) by simp
qed (use assms in simp)

text \<open>The packet that is sent has a checksum of zero, which is what a receiver tests.\<close>

lemma sum_verifies:
  assumes "exact_all (hdr_fmt h) vs" "get_int h ''sum'' vs = 0" "sum_bytes h vs body = Inr (b, vs')"
    "length b \<le> 131000"
  shows "in_cksum b = Inr 0"
proof -
  obtain b0 c where bc: "packet_bytes BE h vs body = Inr b0" "in_cksum b0 = Inr c"
    "packet_bytes BE h (set_val h ''sum'' (VInt c) vs) body = Inr b"
    using assms(2,3) by (auto simp: sum_bytes_def fill_sum_def rbind_Inr_iff)
  have c: "0 \<le> c" "c < 65536" using in_cksum_ok [of b0] bc(2) by auto
  obtain pre post where p: "b0 = pre @ [0, 0] @ post" "length pre = hdr_len (take i h)"
    "b = pre @ int_bytes BE 2 c @ post"
    using sum_place [OF assms(1) bc(1) c] bc(3) assms(2) by (auto simp: int_bytes_BE2_zero)
  then show ?thesis
    using in_cksum_verifies [of pre post c] bc(2) assms(4) even by simp
qed

text \<open>What was sent is read back with the checksum that was filled in.\<close>

lemma sum_reads:
  assumes "exact_all (hdr_fmt h) vs" "sum_bytes h vs body = Inr (b, vs')"
  shows "class_unpack BE h b = Inr (obj_make vs' body)"
proof -
  obtain a where a: "fill_sum h vs body = Inr vs'" "packet_pack_hdr BE h vs' = Inr a" "b = a @ body"
    using assms(2) by (auto simp: sum_bytes_def packet_bytes_def rbind_Inr_iff)
  have e: "exact_all (hdr_fmt h) vs'" using fill_exact [OF assms(1) a(1)] by blast
  show ?thesis using class_pack_parts [OF table e, of BE] a by (metis Inr_inject)
qed

end

end
