(* ===== verification/Ospf.thy ===== *)
theory Ospf
  imports Tables
begin

text \<open>
  OSPF, \<^verbatim>\<open>dpkt/ospf.py\<close>: the common packet with its choice of class by version and its
  checksum, the five messages of versions 2 and 3, and the link state advertisements.

  An object keeps the attribute values of its header table, in the order of the table, and what
  its class adds. The dictionaries that the code makes of fixed-size records are rows of
  integers, in the order of the dictionary's keys. The message classes without a header table
  turn a \<^verbatim>\<open>struct.error\<close> of their \<open>unpack\<close> into an \<open>AttributeError\<close>, as those of IS-IS do.
\<close>

section \<open>Advertisements of version 2\<close>

abbreviation "lsa2_hdr \<equiv> ospf_LSAv2Header_hdr"

definition link2_fmt :: "fmt list" where
  "link2_fmt = [fI, fI, fB, fB, fH]"

datatype lsa2_body =
    LSAv2Header bytes
  | LSARouter int "int list list"
  | LSANetwork int "int list list"
  | LSASummaryIP int int
  | LSASummaryASBR int int
  | LSAASExternal int int int int int bytes

record lsa2 =
  lsa2_vals :: "pval list"
  lsa2_body :: lsa2_body

definition lsa_router_unpack :: "bytes \<Rightarrow> lsa2_body result" where
  "lsa_router_unpack d =
     rbind (struct_unpack BE [fB, fB, fH] (take 4 d)) (\<lambda>vs.
       Inr (LSARouter (ival (vs ! 0)) (take (nat (ival (vs ! 2))) (rows BE link2_fmt (drop 4 d)))))"

definition lsa_network_unpack :: "bytes \<Rightarrow> lsa2_body result" where
  "lsa_network_unpack d =
     rbind (unpack_uint BE 4 (take 4 d)) (\<lambda>msk. Inr (LSANetwork msk (rows BE [fI] (drop 4 d))))"

definition lsa_summary_unpack :: "(int \<Rightarrow> int \<Rightarrow> lsa2_body) \<Rightarrow> bytes \<Rightarrow> lsa2_body result" where
  "lsa_summary_unpack mk d =
     rbind (unpack_uint BE 4 (take 4 d)) (\<lambda>msk.
     rbind (unpack_u24 (take 3 (drop 4 d))) (\<lambda>metric. Inr (mk msk metric)))"

definition lsa_external_unpack :: "bytes \<Rightarrow> lsa2_body result" where
  "lsa_external_unpack d =
     rbind (unpack_uint BE 4 (take 4 d)) (\<lambda>msk.
     rbind (byte_at d 4) (\<lambda>flags.
     rbind (unpack_u24 (take 3 (drop 5 d))) (\<lambda>metric.
       if 16 \<le> length d then
         rbind (uint_at d 8 4) (\<lambda>fwd. rbind (uint_at d 12 4) (\<lambda>tag.
           Inr (LSAASExternal msk flags metric fwd tag [])))
       else Inr (LSAASExternal msk flags metric 0 0 []))))"

text \<open>The class of an LSA type, as the function that reads what follows the header.\<close>

definition lsa2_sw :: "int \<Rightarrow> (bytes \<Rightarrow> lsa2_body result) option" where
  "lsa2_sw t =
     map_of [(1, lsa_router_unpack), (2, lsa_network_unpack), (3, lsa_summary_unpack LSASummaryIP),
       (4, lsa_summary_unpack LSASummaryASBR), (5, lsa_external_unpack)] t"

definition lsa2_header_unpack :: "bytes \<Rightarrow> lsa2_body result" where
  "lsa2_header_unpack d = Inr (LSAv2Header d)"

definition lsa2_init :: "(bytes \<Rightarrow> lsa2_body result) \<Rightarrow> bytes \<Rightarrow> lsa2 result" where
  "lsa2_init body =
     packet_init (hdr_len lsa2_hdr) (\<lambda>buf.
       rbind (class_unpack BE lsa2_hdr buf) (\<lambda>p.
       rbind (body (obj_data p)) (\<lambda>x. Inr \<lparr>lsa2_vals = obj_vals p, lsa2_body = x\<rparr>)))"

definition lsa2_body_bytes :: "lsa2_body \<Rightarrow> bytes result" where
  "lsa2_body_bytes x =
     (case x of
        LSAv2Header d \<Rightarrow> Inr d
      | LSARouter flags links \<Rightarrow>
          rbind (struct_pack BE [fB, fB, fH] [VInt flags, VInt 0, VInt (int (length links))]) (\<lambda>a.
          rbind (pack_rows BE link2_fmt links) (\<lambda>b. Inr (a @ b)))
      | LSANetwork msk routers \<Rightarrow>
          rbind (pack_uint BE 4 msk) (\<lambda>a. rbind (pack_rows BE [fI] routers) (\<lambda>b. Inr (a @ b)))
      | LSASummaryIP msk metric \<Rightarrow>
          rbind (pack_uint BE 4 msk) (\<lambda>a. rbind (pack_u24 metric) (\<lambda>b. Inr (a @ b)))
      | LSASummaryASBR msk metric \<Rightarrow>
          rbind (pack_uint BE 4 msk) (\<lambda>a. rbind (pack_u24 metric) (\<lambda>b. Inr (a @ b)))
      | LSAASExternal msk flags metric fwd tag prefix \<Rightarrow>
          rbind (pack_uint BE 4 msk) (\<lambda>a. rbind (py_byte flags) (\<lambda>b.
          rbind (pack_uint BE 4 metric) (\<lambda>c.
          rbind (pack_uint BE 4 fwd) (\<lambda>d. rbind (pack_uint BE 4 tag) (\<lambda>e.
            Inr (a @ b @ drop 1 c @ prefix @ d @ e)))))))"

definition lsa2_bytes :: "lsa2 \<Rightarrow> bytes result" where
  "lsa2_bytes l =
     rbind (packet_pack_hdr BE lsa2_hdr (lsa2_vals l)) (\<lambda>h.
     rbind (lsa2_body_bytes (lsa2_body l)) (\<lambda>b. Inr (h @ b)))"

definition lsa2_len :: "lsa2 \<Rightarrow> nat" where
  "lsa2_len l =
     hdr_len lsa2_hdr +
     (case lsa2_body l of
        LSAv2Header d \<Rightarrow> length d
      | LSARouter _ links \<Rightarrow> 4 + 12 * length links
      | LSANetwork _ routers \<Rightarrow> 4 + 4 * length routers
      | LSASummaryIP _ _ \<Rightarrow> 7
      | LSASummaryASBR _ _ \<Rightarrow> 7
      | LSAASExternal _ _ _ _ _ prefix \<Rightarrow> 16 + length prefix)"

section \<open>Advertisements of version 3\<close>

abbreviation "lsa3_hdr \<equiv> ospf_LSAv3Header_hdr"

definition link3_fmt :: "fmt list" where
  "link3_fmt = [fB, fB, fH, fI, fI, fI]"

datatype lsa3_body =
    LSAv3Header bytes
  | LSARouterV3 int bytes "int list list"
  | LSANetworkV3 bytes "int list list"
  | LSAInterAreaPrefix int int bytes
  | LSAInterAreaRouter bytes int int int
  | LSAASExternalV3 int int int bytes int int
  | LSANSSAV3 int int int bytes int int
  | LSALink int bytes int bytes
  | LSAIntraAreaPrefix int int int int "(int \<times> bytes) list"

record lsa3 =
  lsa3_vals :: "pval list"
  lsa3_body :: lsa3_body

definition lsa_router3_unpack :: "bytes \<Rightarrow> lsa3_body result" where
  "lsa_router3_unpack d =
     rbind (byte_at d 0) (\<lambda>flags.
       Inr (LSARouterV3 flags (take 3 (drop 1 d)) (rows BE link3_fmt (drop 4 d))))"

definition lsa_network3_unpack :: "bytes \<Rightarrow> lsa3_body result" where
  "lsa_network3_unpack d = Inr (LSANetworkV3 (take 3 d) (rows BE [fI] (drop 4 d)))"

definition lsa_prefix3_unpack :: "bytes \<Rightarrow> lsa3_body result" where
  "lsa_prefix3_unpack d =
     rbind (unpack_u24 (take 3 d)) (\<lambda>metric. rbind (byte_at d 3) (\<lambda>l.
       Inr (LSAInterAreaPrefix metric l (take (prefix_bytes l) (drop 4 d)))))"

definition lsa_arearouter3_unpack :: "bytes \<Rightarrow> lsa3_body result" where
  "lsa_arearouter3_unpack d =
     rbind (byte_at d 3) (\<lambda>rsv. rbind (unpack_u24 (take 3 (drop 4 d))) (\<lambda>metric.
     rbind (uint_at d 7 4) (\<lambda>dest. Inr (LSAInterAreaRouter (take 3 d) rsv metric dest))))"

definition lsa_external3_unpack ::
    "(int \<Rightarrow> int \<Rightarrow> int \<Rightarrow> bytes \<Rightarrow> int \<Rightarrow> int \<Rightarrow> lsa3_body) \<Rightarrow> bytes \<Rightarrow> lsa3_body result" where
  "lsa_external3_unpack mk d =
     rbind (byte_at d 0) (\<lambda>flags. rbind (unpack_u24 (take 3 (drop 1 d))) (\<lambda>metric.
     rbind (byte_at d 4) (\<lambda>l.
       let pos = 5 + prefix_bytes l; prefix = take (prefix_bytes l) (drop 5 d)
       in if pos + 8 \<le> length d then
            rbind (uint_at d pos 4) (\<lambda>fwd. rbind (uint_at d (pos + 4) 4) (\<lambda>tag.
              Inr (mk flags metric l prefix fwd tag)))
          else Inr (mk flags metric l prefix 0 0))))"

definition lsa_link3_unpack :: "bytes \<Rightarrow> lsa3_body result" where
  "lsa_link3_unpack d =
     rbind (byte_at d 0) (\<lambda>prio. rbind (byte_at d 4) (\<lambda>l.
       Inr (LSALink prio (take 3 (drop 1 d)) l (take (prefix_bytes l) (drop 5 d)))))"

fun prefix_round :: "bytes \<Rightarrow> (int \<times> bytes) round" where
  "prefix_round [] = Stop"
| "prefix_round (p # r) = Item (ord p, take (prefix_bytes (ord p)) r) (drop (prefix_bytes (ord p)) r)"

definition lsa_intra3_unpack :: "bytes \<Rightarrow> lsa3_body result" where
  "lsa_intra3_unpack d =
     rbind (uint_at d 0 2) (\<lambda>n. rbind (uint_at d 2 2) (\<lambda>rt. rbind (uint_at d 4 4) (\<lambda>ri.
     rbind (uint_at d 8 4) (\<lambda>ra. rbind (parse_count prefix_round (nat n) (drop 12 d)) (\<lambda>ps.
       Inr (LSAIntraAreaPrefix n rt ri ra ps))))))"

definition lsa3_header_unpack :: "bytes \<Rightarrow> lsa3_body result" where
  "lsa3_header_unpack d = Inr (LSAv3Header d)"

definition lsa3_sw :: "int \<Rightarrow> (bytes \<Rightarrow> lsa3_body result) option" where
  "lsa3_sw t =
     map_of [(0x2001, lsa_router3_unpack), (0x2002, lsa_network3_unpack), (0x2003, lsa_prefix3_unpack),
       (0x2004, lsa_arearouter3_unpack), (0x4005, lsa_external3_unpack LSAASExternalV3),
       (0x2007, lsa_external3_unpack LSANSSAV3), (0x0008, lsa_link3_unpack),
       (0x2009, lsa_intra3_unpack)] t"

definition lsa3_init :: "(bytes \<Rightarrow> lsa3_body result) \<Rightarrow> bytes \<Rightarrow> lsa3 result" where
  "lsa3_init body =
     packet_init (hdr_len lsa3_hdr) (\<lambda>buf.
       rbind (class_unpack BE lsa3_hdr buf) (\<lambda>p.
       rbind (body (obj_data p)) (\<lambda>x. Inr \<lparr>lsa3_vals = obj_vals p, lsa3_body = x\<rparr>)))"

definition prefix_bytes_of :: "int \<times> bytes \<Rightarrow> bytes result" where
  "prefix_bytes_of p = rbind (py_byte (fst p)) (\<lambda>a. Inr (a @ snd p))"

definition external3_bytes :: "int \<Rightarrow> int \<Rightarrow> int \<Rightarrow> bytes \<Rightarrow> int \<Rightarrow> int \<Rightarrow> bytes result" where
  "external3_bytes flags metric l prefix fwd tag =
     rbind (py_byte flags) (\<lambda>a. rbind (pack_u24 metric) (\<lambda>b. rbind (py_byte l) (\<lambda>c.
     rbind (struct_pack BE [fI, fI] [VInt fwd, VInt tag]) (\<lambda>d. Inr (a @ b @ c @ prefix @ d)))))"

definition lsa3_body_bytes :: "lsa3_body \<Rightarrow> bytes result" where
  "lsa3_body_bytes x =
     (case x of
        LSAv3Header d \<Rightarrow> Inr d
      | LSARouterV3 flags opts links \<Rightarrow>
          rbind (py_byte flags) (\<lambda>a. rbind (pack_rows BE link3_fmt links) (\<lambda>b. Inr (a @ opts @ b)))
      | LSANetworkV3 opts routers \<Rightarrow> rbind (pack_rows BE [fI] routers) (\<lambda>b. Inr (opts @ [0] @ b))
      | LSAInterAreaPrefix metric l prefix \<Rightarrow>
          rbind (pack_u24 metric) (\<lambda>a. rbind (py_byte l) (\<lambda>b. Inr (a @ b @ prefix)))
      | LSAInterAreaRouter opts rsv metric dest \<Rightarrow>
          rbind (py_byte rsv) (\<lambda>a. rbind (pack_u24 metric) (\<lambda>b. rbind (pack_uint BE 4 dest) (\<lambda>c.
            Inr (opts @ a @ b @ c))))
      | LSAASExternalV3 flags metric l prefix fwd tag \<Rightarrow> external3_bytes flags metric l prefix fwd tag
      | LSANSSAV3 flags metric l prefix fwd tag \<Rightarrow> external3_bytes flags metric l prefix fwd tag
      | LSALink prio opts l prefix \<Rightarrow>
          rbind (py_byte prio) (\<lambda>a. rbind (py_byte l) (\<lambda>b. Inr (a @ opts @ b @ prefix)))
      | LSAIntraAreaPrefix _ rt ri ra ps \<Rightarrow>
          rbind (struct_pack BE [fH, fH, fI, fI] [VInt (int (length ps)), VInt rt, VInt ri, VInt ra]) (\<lambda>a.
          rbind (concat_result prefix_bytes_of ps) (\<lambda>b. Inr (a @ b))))"

text \<open>
  The classes of version 3 put the length of header and body into the packed header, and leave
  the attribute as it was; the plain header does not.
\<close>

definition lsa3_packed_vals :: "lsa3 \<Rightarrow> bytes \<Rightarrow> pval list" where
  "lsa3_packed_vals l body =
     (case lsa3_body l of
        LSAv3Header _ \<Rightarrow> lsa3_vals l
      | _ \<Rightarrow> set_val lsa3_hdr ''len'' (VInt (int (hdr_len lsa3_hdr + length body))) (lsa3_vals l))"

definition lsa3_bytes :: "lsa3 \<Rightarrow> bytes result" where
  "lsa3_bytes l =
     rbind (lsa3_body_bytes (lsa3_body l)) (\<lambda>b.
     rbind (packet_pack_hdr BE lsa3_hdr (lsa3_packed_vals l b)) (\<lambda>h. Inr (h @ b)))"

definition lsa3_len :: "lsa3 \<Rightarrow> nat" where
  "lsa3_len l =
     hdr_len lsa3_hdr +
     (case lsa3_body l of
        LSAv3Header d \<Rightarrow> length d
      | LSARouterV3 _ _ links \<Rightarrow> 4 + 16 * length links
      | LSANetworkV3 _ routers \<Rightarrow> 4 + 4 * length routers
      | LSAInterAreaPrefix _ _ prefix \<Rightarrow> 4 + length prefix
      | LSAInterAreaRouter _ _ _ _ \<Rightarrow> 11
      | LSAASExternalV3 _ _ _ prefix _ _ \<Rightarrow> 5 + length prefix + 8
      | LSANSSAV3 _ _ _ prefix _ _ \<Rightarrow> 5 + length prefix + 8
      | LSALink _ _ _ prefix \<Rightarrow> 5 + length prefix
      | LSAIntraAreaPrefix _ _ _ _ ps \<Rightarrow> 12 + sum_list (map (\<lambda>p. 1 + length (snd p)) ps))"

section \<open>Messages\<close>

definition hello2_hdr :: hdr where
  "hello2_hdr =
    [(''mask'', fI, VInt 0), (''hello_interval'', fH, VInt 10), (''opts'', fB, VInt 0),
     (''router_priority'', fB, VInt 0), (''dead_interval'', fI, VInt 40),
     (''designated_router'', fI, VInt 0), (''backup_designated_router'', fI, VInt 0)]"

definition hello3_hdr :: hdr where
  "hello3_hdr =
    [(''interface_id'', fI, VInt 0), (''router_priority'', fB, VInt 0),
     (''opts'', Str 3, VBytes [0, 0, 0]), (''hello_interval'', fH, VInt 10),
     (''dead_interval'', fH, VInt 40), (''designated_router'', fI, VInt 0),
     (''backup_designated_router'', fI, VInt 0)]"

datatype 'l ospf_msg =
    Hello "pval list" "int list list"
  | DBD "pval list" bytes
  | LSR "int list list"
  | LSU int "'l list"
  | LSAck "packet_obj list"

definition hello_init :: "hdr \<Rightarrow> bytes \<Rightarrow> 'l ospf_msg result" where
  "hello_init h =
     packet_init (hdr_len h) (\<lambda>buf.
       rbind (class_unpack BE h buf) (\<lambda>p. Inr (Hello (obj_vals p) (rows BE [fI] (drop (hdr_len h) buf)))))"

definition dbd_init :: "hdr \<Rightarrow> bytes \<Rightarrow> 'l ospf_msg result" where
  "dbd_init h buf = rbind (class_init BE h buf) (\<lambda>p. Inr (DBD (obj_vals p) (obj_data p)))"

definition lsr_init :: "fmt list \<Rightarrow> bytes \<Rightarrow> 'l ospf_msg result" where
  "lsr_init fs = no_table_init (\<lambda>buf. Inr (LSR (rows BE fs buf)))"

definition lsack_init :: "hdr \<Rightarrow> bytes \<Rightarrow> 'l ospf_msg result" where
  "lsack_init h =
     no_table_init (\<lambda>buf. rbind (map_result (class_init BE h) (chunks 20 buf)) (\<lambda>ps. Inr (LSAck ps)))"

text \<open>
  One round of an update: the length at bytes 18 and 19, the LSA's own bytes, its type, and its
  class; a class that cannot read it gives way to the plain header.
\<close>

definition lsu2_round :: "bytes \<Rightarrow> lsa2 round" where
  "lsu2_round buf =
     (if length buf < 20 then Stop
      else
        let n = nat (bytes_int BE (take 2 (drop 18 buf))); lsa_buf = take n buf
        in case unpack_uint BE 1 (take 1 (drop 2 lsa_buf)) of
             Inl e \<Rightarrow> Fail e
           | Inr t \<Rightarrow>
               round_of
                 (case lsa2_init (case lsa2_sw t of Some u \<Rightarrow> u | None \<Rightarrow> lsa2_header_unpack) lsa_buf of
                    Inr l \<Rightarrow> Inr l
                  | Inl e \<Rightarrow> if is_unpack_error e \<or> e = StructError
                             then lsa2_init lsa2_header_unpack lsa_buf else Inl e)
                 (drop n buf))"

definition lsu3_round :: "bytes \<Rightarrow> lsa3 round" where
  "lsu3_round buf =
     (if length buf < 20 then Stop
      else
        let n = nat (bytes_int BE (take 2 (drop 18 buf))); lsa_buf = take n buf
        in case unpack_uint BE 2 (take 2 (drop 2 lsa_buf)) of
             Inl e \<Rightarrow> Fail e
           | Inr t \<Rightarrow>
               round_of
                 (case lsa3_init (case lsa3_sw t of Some u \<Rightarrow> u | None \<Rightarrow> lsa3_header_unpack) lsa_buf of
                    Inr l \<Rightarrow> Inr l
                  | Inl e \<Rightarrow> if is_unpack_error e \<or> e = StructError
                             then lsa3_init lsa3_header_unpack lsa_buf else Inl e)
                 (drop n buf))"

definition lsu_init :: "(bytes \<Rightarrow> 'l round) \<Rightarrow> bytes \<Rightarrow> 'l ospf_msg result" where
  "lsu_init step =
     no_table_init (\<lambda>buf.
       rbind (unpack_uint BE 4 (take 4 buf)) (\<lambda>n.
       rbind (parse_count step (nat n) (drop 4 buf)) (\<lambda>ls. Inr (LSU n ls))))"

definition lsr2_fmt :: "fmt list" where "lsr2_fmt = [fI, fI, fI]"

definition lsr3_fmt :: "fmt list" where "lsr3_fmt = [fH, fI, fI]"

definition msg2_sw :: "int \<Rightarrow> (bytes \<Rightarrow> lsa2 ospf_msg result) option" where
  "msg2_sw t =
     map_of [(1, hello_init hello2_hdr), (2, dbd_init ospf_OSPFv2DBD_hdr), (3, lsr_init lsr2_fmt),
       (4, lsu_init lsu2_round), (5, lsack_init lsa2_hdr)] t"

definition msg3_sw :: "int \<Rightarrow> (bytes \<Rightarrow> lsa3 ospf_msg result) option" where
  "msg3_sw t =
     map_of [(1, hello_init hello3_hdr), (2, dbd_init ospf_OSPFv3DBD_hdr), (3, lsr_init lsr3_fmt),
       (4, lsu_init lsu3_round), (5, lsack_init lsa3_hdr)] t"

text \<open>The bytes of a message, given the tables of its version and the bytes of an LSA.\<close>

definition msg_bytes ::
    "hdr \<Rightarrow> hdr \<Rightarrow> fmt list \<Rightarrow> hdr \<Rightarrow> ('l \<Rightarrow> bytes result) \<Rightarrow> 'l ospf_msg \<Rightarrow> bytes result" where
  "msg_bytes hello dbd lsr lsah lsab m =
     (case m of
        Hello vs ns \<Rightarrow>
          rbind (packet_pack_hdr BE hello vs) (\<lambda>a. rbind (pack_rows BE [fI] ns) (\<lambda>b. Inr (a @ b)))
      | DBD vs d \<Rightarrow> packet_bytes BE dbd vs d
      | LSR rs \<Rightarrow> pack_rows BE lsr rs
      | LSU _ ls \<Rightarrow>
          rbind (pack_uint BE 4 (int (length ls))) (\<lambda>a. rbind (concat_result lsab ls) (\<lambda>b. Inr (a @ b)))
      | LSAck ps \<Rightarrow> concat_result (class_bytes BE lsah) ps)"

definition msg2_bytes :: "lsa2 ospf_msg \<Rightarrow> bytes result" where
  "msg2_bytes = msg_bytes hello2_hdr ospf_OSPFv2DBD_hdr lsr2_fmt lsa2_hdr lsa2_bytes"

definition msg3_bytes :: "lsa3 ospf_msg \<Rightarrow> bytes result" where
  "msg3_bytes = msg_bytes hello3_hdr ospf_OSPFv3DBD_hdr lsr3_fmt lsa3_hdr lsa3_bytes"

definition msg_len :: "hdr \<Rightarrow> hdr \<Rightarrow> fmt list \<Rightarrow> ('l \<Rightarrow> bytes result) \<Rightarrow> 'l ospf_msg \<Rightarrow> nat result" where
  "msg_len hello dbd lsr lsab m =
     (case m of
        Hello _ ns \<Rightarrow> Inr (hdr_len hello + 4 * length ns)
      | DBD _ d \<Rightarrow> Inr (packet_len dbd d)
      | LSR rs \<Rightarrow> Inr (calcsize lsr * length rs)
      | LSU _ ls \<Rightarrow> rbind (map_result lsab ls) (\<lambda>bs. Inr (4 + sum_list (map length bs)))
      | LSAck ps \<Rightarrow> Inr (20 * length ps))"

section \<open>The packet\<close>

datatype ospf_class = OSPF | OSPFv2 | OSPFv3

datatype ospf_data = O_Raw bytes | O_V2 "lsa2 ospf_msg" | O_V3 "lsa3 ospf_msg"

record ospf =
  ospf_class :: ospf_class
  ospf_vals :: "pval list"
  ospf_data :: ospf_data

definition ospf_base_hdr :: hdr where
  "ospf_base_hdr =
    [(''v'', fB, VInt 0), (''type'', fB, VInt 0), (''len'', fH, VInt 0), (''router'', fI, VInt 0),
     (''area'', fI, VInt 0), (''sum'', fH, VInt 0)]"

fun ospf_hdr :: "ospf_class \<Rightarrow> hdr" where
  "ospf_hdr OSPF = ospf_base_hdr"
| "ospf_hdr OSPFv2 = ospf_base_hdr @ [(''atype'', fH, VInt 0), (''auth'', Str 8, VBytes [])]"
| "ospf_hdr OSPFv3 = ospf_base_hdr @ [(''instance_id'', fB, VInt 0), (''rsvd'', fB, VInt 0)]"

text \<open>\<^verbatim>\<open>OSPF.__new__\<close>: the version in the first byte selects the class.\<close>

definition ospf_new :: "bytes \<Rightarrow> ospf_class" where
  "ospf_new buf =
     (case buf of [] \<Rightarrow> OSPF | v # _ \<Rightarrow> if ord v = 3 then OSPFv3 else if ord v = 2 then OSPFv2 else OSPF)"

definition ospf_body :: "('m \<Rightarrow> ospf_data) \<Rightarrow> (bytes \<Rightarrow> 'm result) option \<Rightarrow> bytes \<Rightarrow> ospf_data result" where
  "ospf_body con cls d =
     (case cls of
        Some init \<Rightarrow> if d \<noteq> [] then rbind (init d) (\<lambda>m. Inr (con m)) else Inr (O_Raw d)
      | None \<Rightarrow> Inr (O_Raw d))"

definition ospf_unpack :: "ospf_class \<Rightarrow> bytes \<Rightarrow> ospf result" where
  "ospf_unpack c buf =
     rbind (class_unpack BE (ospf_hdr c) buf) (\<lambda>p.
       let t = get_int (ospf_hdr c) ''type'' (obj_vals p)
       in rbind (case c of
                   OSPF \<Rightarrow> Inr (O_Raw (obj_data p))
                 | OSPFv2 \<Rightarrow> ospf_body O_V2 (msg2_sw t) (obj_data p)
                 | OSPFv3 \<Rightarrow> ospf_body O_V3 (msg3_sw t) (obj_data p)) (\<lambda>d.
            Inr \<lparr>ospf_class = c, ospf_vals = obj_vals p, ospf_data = d\<rparr>))"

definition ospf_init :: "bytes \<Rightarrow> ospf result" where
  "ospf_init buf = (let c = ospf_new buf in packet_init (hdr_len (ospf_hdr c)) (ospf_unpack c) buf)"

definition ospf_data_bytes :: "ospf_data \<Rightarrow> bytes result" where
  "ospf_data_bytes d = (case d of O_Raw b \<Rightarrow> Inr b | O_V2 m \<Rightarrow> msg2_bytes m | O_V3 m \<Rightarrow> msg3_bytes m)"

text \<open>\<^verbatim>\<open>dpkt.Packet.__bytes__\<close>, and OSPF's own, which fills in a zero checksum.\<close>

definition ospf_packet_bytes :: "ospf \<Rightarrow> bytes result" where
  "ospf_packet_bytes r =
     rbind (packet_pack_hdr BE (ospf_hdr (ospf_class r)) (ospf_vals r)) (\<lambda>h.
     rbind (ospf_data_bytes (ospf_data r)) (\<lambda>d. Inr (h @ d)))"

definition ospf_set_sum :: "int \<Rightarrow> ospf \<Rightarrow> ospf" where
  "ospf_set_sum c r = r\<lparr>ospf_vals := set_val (ospf_hdr (ospf_class r)) ''sum'' (VInt c) (ospf_vals r)\<rparr>"

definition ospf_bytes :: "ospf \<Rightarrow> (bytes \<times> ospf) result" where
  "ospf_bytes r =
     rbind (if get_int (ospf_hdr (ospf_class r)) ''sum'' (ospf_vals r) = 0
            then rbind (ospf_packet_bytes r) (\<lambda>b. rbind (in_cksum b) (\<lambda>c. Inr (ospf_set_sum c r)))
            else Inr r) (\<lambda>r'. rbind (ospf_packet_bytes r') (\<lambda>b. Inr (b, r')))"

definition ospf_len :: "ospf \<Rightarrow> nat result" where
  "ospf_len r =
     rbind (case ospf_data r of
              O_Raw b \<Rightarrow> Inr (length b)
            | O_V2 m \<Rightarrow> msg_len hello2_hdr ospf_OSPFv2DBD_hdr lsr2_fmt lsa2_bytes m
            | O_V3 m \<Rightarrow> msg_len hello3_hdr ospf_OSPFv3DBD_hdr lsr3_fmt lsa3_bytes m) (\<lambda>n.
       Inr (hdr_len (ospf_hdr (ospf_class r)) + n))"

section \<open>Reading back what was packed\<close>

lemma ospf_tables [simp]:
  "hdr_len lsa2_hdr = 20" "hdr_len lsa3_hdr = 20" "hdr_len hello2_hdr = 20" "hdr_len hello3_hdr = 20"
  "hdr_len ospf_OSPFv2DBD_hdr = 8" "hdr_len ospf_OSPFv3DBD_hdr = 8"
  "table_ok lsa2_hdr" "table_ok lsa3_hdr" "table_ok hello2_hdr" "table_ok hello3_hdr"
  "table_ok ospf_OSPFv2DBD_hdr" "table_ok ospf_OSPFv3DBD_hdr" "table_ok (ospf_hdr c)"
  "int_fmts link2_fmt" "link2_fmt \<noteq> []" "calcsize link2_fmt = 12"
  "int_fmts link3_fmt" "link3_fmt \<noteq> []" "calcsize link3_fmt = 16"
  "int_fmts lsr2_fmt" "lsr2_fmt \<noteq> []" "calcsize lsr2_fmt = 12"
  "int_fmts lsr3_fmt" "lsr3_fmt \<noteq> []" "calcsize lsr3_fmt = 10"
  by (simp_all add: ospf_LSAv2Header_hdr_def ospf_LSAv3Header_hdr_def hello2_hdr_def hello3_hdr_def
      ospf_OSPFv2DBD_hdr_def ospf_OSPFv3DBD_hdr_def link2_fmt_def link3_fmt_def lsr2_fmt_def lsr3_fmt_def
      table_ok_def fmt_ok_def hdr_fields_def, cases c, simp_all add: ospf_base_hdr_def fmt_ok_def)

lemma table_ok_ospf: "table_ok (ospf_hdr c)"
  by simp

lemma lsa_fields:
  "length lsa2_hdr = 8" "lsa2_hdr ! 1 = (''opts'', fB, VInt 0)" "lsa2_hdr ! 7 = (''len'', fH, VInt 20)"
  "hdr_len (take 1 lsa2_hdr) = 2" "hdr_len (take 7 lsa2_hdr) = 18"
  "length lsa3_hdr = 7" "lsa3_hdr ! 1 = (''_type_field'', fH, VInt 0)"
  "lsa3_hdr ! 6 = (''len'', fH, VInt 20)" "hdr_len (take 1 lsa3_hdr) = 2" "hdr_len (take 6 lsa3_hdr) = 18"
  by (simp_all add: ospf_LSAv2Header_hdr_def ospf_LSAv3Header_hdr_def)

lemmas lsa_fields_simps = lsa_fields lsa_fields [unfolded One_nat_def]

definition lsa2_type :: "lsa2_body \<Rightarrow> int option" where
  "lsa2_type x =
     (case x of LSAv2Header _ \<Rightarrow> None | LSARouter _ _ \<Rightarrow> Some 1 | LSANetwork _ _ \<Rightarrow> Some 2
      | LSASummaryIP _ _ \<Rightarrow> Some 3 | LSASummaryASBR _ _ \<Rightarrow> Some 4 | LSAASExternal _ _ _ _ _ _ \<Rightarrow> Some 5)"

text \<open>
  What an advertisement is that an update reads back: the header fits its table, its length is
  that of the object, an external one has a metric of 24 bits and no prefix, and its \<^verbatim>\<open>opts\<close>
  select its class: the update reads the byte at offset 2 of the header as the type, which is
  where the options are; the type is the byte at offset 3.
\<close>

definition lsa2_body_ok :: "lsa2_body \<Rightarrow> bool" where
  "lsa2_body_ok x =
     (case x of LSAASExternal _ _ metric _ _ prefix \<Rightarrow> metric < 2 ^ 24 \<and> prefix = [] | _ \<Rightarrow> True)"

definition lsa2_ok :: "lsa2 \<Rightarrow> bool" where
  "lsa2_ok l \<longleftrightarrow>
     exact_all (hdr_fmt lsa2_hdr) (lsa2_vals l) \<and>
     get_int lsa2_hdr ''len'' (lsa2_vals l) = int (lsa2_len l) \<and>
     (case lsa2_type (lsa2_body l) of
        Some t \<Rightarrow> get_int lsa2_hdr ''opts'' (lsa2_vals l) = t
      | None \<Rightarrow> lsa2_sw (get_int lsa2_hdr ''opts'' (lsa2_vals l)) = None) \<and>
     lsa2_body_ok (lsa2_body l)"

lemma lsa2_body_read:
  assumes "lsa2_body_bytes x = Inr b" "lsa2_body_ok x" "lsa2_type x = Some t"
  shows "\<exists>u. lsa2_sw t = Some u \<and> u b = Inr x"
proof (cases x)
  case (LSARouter flags links)
  then obtain p q where pq: "struct_pack BE [fB, fB, fH] [VInt flags, VInt 0, VInt (int (length links))] = Inr p"
    "pack_rows BE link2_fmt links = Inr q" "b = p @ q"
    using assms(1) by (auto simp: lsa2_body_bytes_def rbind_Inr_iff)
  have "pack_row BE [fB, fB, fH] [flags, 0, int (length links)] = Inr p"
    using pq(1) by (simp add: pack_row_def)
  from pack_row_unpack [OF _ this] have "length p = 4"
    "struct_unpack BE [fB, fB, fH] p = Inr [VInt flags, VInt 0, VInt (int (length links))]" by simp_all
  then show ?thesis
    using LSARouter assms(3) pq rows_unpack_exact [OF _ _ pq(2)]
    by (simp add: lsa2_type_def lsa2_sw_def lsa_router_unpack_def)
next
  case (LSANetwork m routers)
  then show ?thesis
    using assms(1,3) rows_unpack_exact [of "[fI]" BE routers]
    by (auto simp: lsa2_body_bytes_def rbind_Inr_iff lsa2_type_def lsa2_sw_def lsa_network_unpack_def
        dest!: pack_uint_unpack)
next
  case (LSAASExternal m flags metric fwd tag prefix)
  have e: "drop (Suc 0) (be_bytes 4 metric) = be_bytes 3 metric"
    using be_bytes_high [of 3 metric] by (simp add: eval_nat_numeral)
  show ?thesis
    using LSAASExternal assms e
    by (auto simp: lsa2_body_bytes_def rbind_Inr_iff lsa2_type_def lsa2_sw_def lsa_external_unpack_def
        lsa2_body_ok_def pack_uint_eq int_bytes_def unpack_uint_def bytes_int_def be_int_be_bytes
        py_byte_iff ord_word_range unpack_u24_be split: if_splits)
qed (use assms in \<open>auto simp: lsa2_body_bytes_def rbind_Inr_iff lsa2_type_def lsa2_sw_def
        lsa_summary_unpack_def dest!: pack_uint_unpack pack_u24_unpack\<close>)

lemma lsa2_bytes_length:
  assumes "lsa2_bytes l = Inr b"
  shows "length b = lsa2_len l"
proof -
  obtain h x where hx: "packet_pack_hdr BE lsa2_hdr (lsa2_vals l) = Inr h"
    "lsa2_body_bytes (lsa2_body l) = Inr x" "b = h @ x"
    using assms by (auto simp: lsa2_bytes_def rbind_Inr_iff)
  have "length h + length x = lsa2_len l"
    using hx(2) packet_pack_hdr_length [OF hx(1)]
    by (auto simp: lsa2_body_bytes_def lsa2_len_def rbind_Inr_iff struct_pack_length pack_rows_length
        pack_u24_unpack py_byte_iff split: lsa2_body.splits if_splits dest!: pack_uint_unpack)
  then show ?thesis using hx(3) by simp
qed

text \<open>The class that reads an advertisement of an update is that of its options.\<close>

lemma lsu2_round_step:
  assumes "exact_all (hdr_fmt lsa2_hdr) (lsa2_vals l)" "lsa2_bytes l = Inr b"
    "get_int lsa2_hdr ''len'' (lsa2_vals l) = int (lsa2_len l)"
    "lsa2_body_bytes (lsa2_body l) = Inr x"
    "(case lsa2_sw (get_int lsa2_hdr ''opts'' (lsa2_vals l)) of Some u \<Rightarrow> u | None \<Rightarrow> lsa2_header_unpack) x = Inr y"
  shows "lsu2_round (b @ rest) = Item \<lparr>lsa2_vals = lsa2_vals l, lsa2_body = y\<rparr> rest"
proof -
  let ?vs = "lsa2_vals l"
  note e = assms(1)
  obtain h where hx: "packet_pack_hdr BE lsa2_hdr ?vs = Inr h" "b = h @ x"
    using assms(2,4) by (auto simp: lsa2_bytes_def rbind_Inr_iff)
  have r: "class_unpack BE lsa2_hdr (h @ d) = Inr (obj_make ?vs d)" for d
    using class_pack_parts [of lsa2_hdr ?vs BE] e hx(1) by auto
  have t: "bytes_int BE (take 1 (drop 2 (h @ d))) = get_int lsa2_hdr ''opts'' ?vs \<and>
      length (take 1 (drop 2 (h @ d))) = 1" for d
    using class_field_read [OF _ e hx(1), of 1 "''opts''" 1 "VInt 0" d]
    by (simp add: lsa_fields_simps del: take_append drop_append)
  have n: "bytes_int BE (take 2 (drop 18 (h @ d))) = get_int lsa2_hdr ''len'' ?vs" for d
    using class_field_read [OF _ e hx(1), of 7 "''len''" 2 "VInt 20" d]
    by (simp add: lsa_fields_simps del: take_append drop_append)
  have l: "length b = lsa2_len l" "20 \<le> length b"
    using lsa2_bytes_length [OF assms(2)] by (simp_all add: lsa2_len_def)
  have "nat (bytes_int BE (take 2 (drop 18 (b @ rest)))) = length b"
    using n [of "x @ rest"] assms(3) l(1) hx(2) by simp
  moreover have "unpack_uint BE 1 (take 1 (drop 2 b)) = Inr (get_int lsa2_hdr ''opts'' ?vs)"
    using t [of x] hx(2) by (simp add: unpack_uint_def)
  moreover have "lsa2_init (case lsa2_sw (get_int lsa2_hdr ''opts'' ?vs) of Some u \<Rightarrow> u | None \<Rightarrow> lsa2_header_unpack) b =
      Inr \<lparr>lsa2_vals = lsa2_vals l, lsa2_body = y\<rparr>"
    using assms(5) r [of x] hx(2) by (simp add: lsa2_init_def packet_init_Inr obj_make_def)
  ultimately show ?thesis
    using l(2) by (simp add: lsu2_round_def Let_def)
qed

lemma lsu2_round_reads:
  assumes "lsa2_ok l" "lsa2_bytes l = Inr b"
  shows "lsu2_round (b @ rest) = Item l rest"
proof -
  obtain x where x: "lsa2_body_bytes (lsa2_body l) = Inr x"
    using assms(2) by (auto simp: lsa2_bytes_def rbind_Inr_iff)
  have "(case lsa2_sw (get_int lsa2_hdr ''opts'' (lsa2_vals l)) of Some u \<Rightarrow> u | None \<Rightarrow> lsa2_header_unpack) x =
      Inr (lsa2_body l)"
  proof (cases "lsa2_type (lsa2_body l)")
    case None
    then obtain d where "lsa2_body l = LSAv2Header d" by (auto simp: lsa2_type_def split: lsa2_body.splits)
    then show ?thesis using None assms(1) x
      by (simp add: lsa2_ok_def lsa2_header_unpack_def lsa2_body_bytes_def)
  next
    case (Some k)
    then show ?thesis using lsa2_body_read [OF x _ Some] assms(1) by (auto simp: lsa2_ok_def)
  qed
  from lsu2_round_step [OF _ assms(2) _ x this] show ?thesis
    using assms(1) by (simp add: lsa2_ok_def)
qed

definition lsa3_type :: "lsa3_body \<Rightarrow> int option" where
  "lsa3_type x =
     (case x of LSAv3Header _ \<Rightarrow> None | LSARouterV3 _ _ _ \<Rightarrow> Some 0x2001 | LSANetworkV3 _ _ \<Rightarrow> Some 0x2002
      | LSAInterAreaPrefix _ _ _ \<Rightarrow> Some 0x2003 | LSAInterAreaRouter _ _ _ _ \<Rightarrow> Some 0x2004
      | LSAASExternalV3 _ _ _ _ _ _ \<Rightarrow> Some 0x4005 | LSANSSAV3 _ _ _ _ _ _ \<Rightarrow> Some 0x2007
      | LSALink _ _ _ _ \<Rightarrow> Some 0x0008 | LSAIntraAreaPrefix _ _ _ _ _ \<Rightarrow> Some 0x2009)"

text \<open>In version 3 prefixes are as long as their length field says, and options have three bytes.\<close>

definition lsa3_body_ok :: "lsa3_body \<Rightarrow> bool" where
  "lsa3_body_ok x =
     (case x of
        LSARouterV3 _ opts _ \<Rightarrow> length opts = 3
      | LSANetworkV3 opts _ \<Rightarrow> length opts = 3
      | LSAInterAreaPrefix _ l prefix \<Rightarrow> length prefix = prefix_bytes l
      | LSAInterAreaRouter opts _ _ _ \<Rightarrow> length opts = 3
      | LSAASExternalV3 _ _ l prefix _ _ \<Rightarrow> length prefix = prefix_bytes l
      | LSANSSAV3 _ _ l prefix _ _ \<Rightarrow> length prefix = prefix_bytes l
      | LSALink _ opts l prefix \<Rightarrow> length opts = 3 \<and> length prefix = prefix_bytes l
      | LSAIntraAreaPrefix n _ _ _ ps \<Rightarrow>
          n = int (length ps) \<and> list_all (\<lambda>p. length (snd p) = prefix_bytes (fst p)) ps
      | LSAv3Header _ \<Rightarrow> True)"

definition lsa3_ok :: "lsa3 \<Rightarrow> bool" where
  "lsa3_ok l \<longleftrightarrow>
     exact_all (hdr_fmt lsa3_hdr) (lsa3_vals l) \<and>
     get_int lsa3_hdr ''len'' (lsa3_vals l) = int (lsa3_len l) \<and>
     (case lsa3_type (lsa3_body l) of
        Some t \<Rightarrow> get_int lsa3_hdr ''_type_field'' (lsa3_vals l) = t
      | None \<Rightarrow> lsa3_sw (get_int lsa3_hdr ''_type_field'' (lsa3_vals l)) = None) \<and>
     lsa3_body_ok (lsa3_body l)"

interpretation prefix_items: item_round prefix_round prefix_bytes_of "\<lambda>p. length (snd p) = prefix_bytes (fst p)"
proof
  fix buf x rest
  show "prefix_round buf = Item x rest \<Longrightarrow> length rest < length buf" by (cases buf) auto
next
  fix x :: "int \<times> bytes" and b rest
  assume "length (snd x) = prefix_bytes (fst x)" "prefix_bytes_of x = Inr b"
  then show "prefix_round (b @ rest) = Item x rest"
    by (cases x) (auto simp: prefix_bytes_of_def rbind_Inr_iff py_byte_iff ord_word_range)
qed simp

lemma external3_read:
  assumes "external3_bytes flags metric l prefix fwd tag = Inr b" "length prefix = prefix_bytes l"
  shows "lsa_external3_unpack mk b = Inr (mk flags metric l prefix fwd tag)"
proof -
  obtain p q where pq: "pack_u24 metric = Inr p" "struct_pack BE [fI, fI] [VInt fwd, VInt tag] = Inr q"
    "0 \<le> flags" "flags < 256" "0 \<le> l" "l < 256"
    "b = word_of_int flags # p @ word_of_int l # prefix @ q"
    using assms(1) by (auto simp: external3_bytes_def rbind_Inr_iff py_byte_iff)
  have p: "length p = 3" "unpack_u24 p = Inr metric" using pack_u24_unpack [OF pq(1)] by simp_all
  have q: "q = int_bytes BE 4 fwd @ int_bytes BE 4 tag" "0 \<le> fwd" "fwd < 256 ^ 4" "0 \<le> tag" "tag < 256 ^ 4"
    using pq(2) by (auto simp: rbind_Inr_iff split: if_splits)
  define pre where "pre = word_of_int flags # p @ word_of_int l # prefix"
  have b: "b = pre @ int_bytes BE 4 fwd @ int_bytes BE 4 tag" "length pre = 5 + prefix_bytes l"
    using pq(7) p q(1) assms(2) by (simp_all add: pre_def)
  then have "uint_at b (5 + prefix_bytes l) 4 = Inr fwd" "uint_at b (5 + prefix_bytes l + 4) 4 = Inr tag"
    using q by (simp_all add: unpack_uint_def bytes_int_int_bytes)
  moreover have "byte_at b 0 = Inr flags" "unpack_u24 (take 3 (drop 1 b)) = Inr metric" "byte_at b 4 = Inr l"
    "take (prefix_bytes l) (drop 5 b) = prefix"
    using p pq(3-7) assms(2) by (simp_all add: ord_word_range)
  moreover have "5 + prefix_bytes l + 8 \<le> length b" using b by simp
  ultimately show ?thesis by (simp only: lsa_external3_unpack_def Let_def rbind_simps if_True)
qed

lemma lsa3_body_read:
  assumes "lsa3_body_bytes x = Inr b" "lsa3_body_ok x" "lsa3_type x = Some t"
  shows "\<exists>u. lsa3_sw t = Some u \<and> u b = Inr x"
proof (cases x)
  case (LSAIntraAreaPrefix n rt ri ra ps)
  then obtain p q where pq: "struct_pack BE [fH, fH, fI, fI]
      [VInt (int (length ps)), VInt rt, VInt ri, VInt ra] = Inr p"
    "concat_result prefix_bytes_of ps = Inr q" "b = p @ q"
    using assms(1) by (auto simp: lsa3_body_bytes_def rbind_Inr_iff)
  have p: "p = int_bytes BE 2 (int (length ps)) @ int_bytes BE 2 rt @ int_bytes BE 4 ri @ int_bytes BE 4 ra"
    "int (length ps) < 256 ^ 2" "0 \<le> rt" "rt < 256 ^ 2" "0 \<le> ri" "ri < 256 ^ 4" "0 \<le> ra" "ra < 256 ^ 4"
    using pq(1) by (auto simp: rbind_Inr_iff split: if_splits)
  show ?thesis
    using LSAIntraAreaPrefix assms(2,3) p pq prefix_items.count_reads [OF _ pq(2), of "[]"]
    by (auto simp: lsa3_type_def lsa3_sw_def lsa_intra3_unpack_def lsa3_body_ok_def unpack_uint_def
        bytes_int_int_bytes)
next
  case (LSAASExternalV3 flags metric l prefix fwd tag)
  then show ?thesis
    using assms external3_read [of flags metric l prefix fwd tag b LSAASExternalV3]
    by (simp add: lsa3_body_bytes_def lsa3_body_ok_def lsa3_type_def lsa3_sw_def)
next
  case (LSANSSAV3 flags metric l prefix fwd tag)
  then show ?thesis
    using assms external3_read [of flags metric l prefix fwd tag b LSANSSAV3]
    by (simp add: lsa3_body_bytes_def lsa3_body_ok_def lsa3_type_def lsa3_sw_def)
next
  case (LSARouterV3 flags opts links)
  then show ?thesis
    using assms rows_unpack_exact [of link3_fmt BE links]
    by (auto simp: lsa3_body_bytes_def lsa3_body_ok_def lsa3_type_def lsa3_sw_def lsa_router3_unpack_def
        rbind_Inr_iff py_byte_iff ord_word_range)
next
  case (LSANetworkV3 opts routers)
  then show ?thesis
    using assms rows_unpack_exact [of "[fI]" BE routers]
    by (auto simp: lsa3_body_bytes_def lsa3_body_ok_def lsa3_type_def lsa3_sw_def lsa_network3_unpack_def
        rbind_Inr_iff)
qed (use assms in \<open>auto simp: lsa3_body_bytes_def lsa3_body_ok_def lsa3_type_def lsa3_sw_def
    lsa_prefix3_unpack_def lsa_arearouter3_unpack_def lsa_link3_unpack_def rbind_Inr_iff py_byte_iff
    ord_word_range dest!: pack_u24_unpack pack_uint_unpack\<close>)

lemma lsa3_body_length:
  "lsa3_body_bytes (lsa3_body l) = Inr x \<Longrightarrow> lsa3_body_ok (lsa3_body l) \<Longrightarrow> 20 + length x = lsa3_len l"
  by (auto simp: lsa3_body_bytes_def lsa3_len_def lsa3_body_ok_def external3_bytes_def rbind_Inr_iff
      pack_rows_length pack_u24_unpack py_byte_iff prefix_bytes_of_def split: lsa3_body.splits if_splits
      dest!: pack_uint_unpack pack_u24_unpack
      concat_result_length [where n = "\<lambda>p. 1 + length (snd p)" and f = prefix_bytes_of, simplified])

text \<open>
  An advertisement with the right length packs its own header; whatever the attribute is, the
  classes with a body pack the right one.
\<close>

definition lsa3_sized :: "lsa3 \<Rightarrow> lsa3" where
  "lsa3_sized l = l\<lparr>lsa3_vals := set_val lsa3_hdr ''len'' (VInt (int (lsa3_len l))) (lsa3_vals l)\<rparr>"


lemma lsa3_packed_vals_same:
  assumes "lsa3_ok l" "lsa3_body_bytes (lsa3_body l) = Inr x"
  shows "lsa3_packed_vals l x = lsa3_vals l"
proof -
  have "set_val lsa3_hdr ''len'' (VInt (int (hdr_len lsa3_hdr + length x))) (lsa3_vals l) = lsa3_vals l"
    using assms lsa3_body_length [OF assms(2)]
    by (intro set_val_same [where k = 2 and d = "VInt 20"])
      (auto simp: lsa3_ok_def ospf_LSAv3Header_hdr_def hdr_fields_def)
  then show ?thesis by (simp add: lsa3_packed_vals_def split: lsa3_body.split)
qed

lemma lsa3_bytes_parts:
  assumes "lsa3_ok l" "lsa3_bytes l = Inr b"
  obtains h x where "packet_pack_hdr BE lsa3_hdr (lsa3_vals l) = Inr h"
    "lsa3_body_bytes (lsa3_body l) = Inr x" "b = h @ x" "length b = lsa3_len l" "length h = 20"
proof -
  obtain h x where hx: "lsa3_body_bytes (lsa3_body l) = Inr x"
    "packet_pack_hdr BE lsa3_hdr (lsa3_packed_vals l x) = Inr h" "b = h @ x"
    using assms(2) by (auto simp: lsa3_bytes_def rbind_Inr_iff)
  have h: "packet_pack_hdr BE lsa3_hdr (lsa3_vals l) = Inr h"
    using hx(2) lsa3_packed_vals_same [OF assms(1) hx(1)] by simp
  moreover have l: "length h = 20" using packet_pack_hdr_length [OF h] by simp
  moreover have "length b = lsa3_len l"
    using l lsa3_body_length [OF hx(1)] assms(1) hx(3) by (simp add: lsa3_ok_def)
  ultimately show thesis using that hx(1,3) by blast
qed

lemma lsu3_round_reads:
  assumes "lsa3_ok l" "lsa3_bytes l = Inr b"
  shows "lsu3_round (b @ rest) = Item l rest"
proof -
  let ?vs = "lsa3_vals l"
  have e: "exact_all (hdr_fmt lsa3_hdr) ?vs" using assms(1) by (simp add: lsa3_ok_def)
  obtain h x where hx: "packet_pack_hdr BE lsa3_hdr ?vs = Inr h"
    "lsa3_body_bytes (lsa3_body l) = Inr x" "b = h @ x" "length b = lsa3_len l" "length h = 20"
    by (rule lsa3_bytes_parts [OF assms])
  have r: "class_unpack BE lsa3_hdr (h @ d) = Inr (obj_make ?vs d)" for d
    using class_pack_parts [of lsa3_hdr ?vs BE] e hx(1) by auto
  have t: "bytes_int BE (take 2 (drop 2 (h @ d))) = get_int lsa3_hdr ''_type_field'' ?vs \<and>
      length (take 2 (drop 2 (h @ d))) = 2" for d
    using class_field_read [OF _ e hx(1), of 1 "''_type_field''" 2 "VInt 0" d]
    by (simp add: lsa_fields_simps del: take_append drop_append)
  have n: "bytes_int BE (take 2 (drop 18 (h @ d))) = get_int lsa3_hdr ''len'' ?vs" for d
    using class_field_read [OF _ e hx(1), of 6 "''len''" 2 "VInt 20" d]
    by (simp add: lsa_fields_simps del: take_append drop_append)
  have "nat (bytes_int BE (take 2 (drop 18 (b @ rest)))) = length b"
    using n [of "x @ rest"] assms(1) hx(3,4) by (simp add: lsa3_ok_def)
  moreover have "unpack_uint BE 2 (take 2 (drop 2 b)) = Inr (get_int lsa3_hdr ''_type_field'' ?vs)"
    using t [of x] hx(3) by (simp add: unpack_uint_def)
  moreover obtain u where u:
    "(case lsa3_sw (get_int lsa3_hdr ''_type_field'' ?vs) of Some u \<Rightarrow> u | None \<Rightarrow> lsa3_header_unpack) = u"
    "u x = Inr (lsa3_body l)"
  proof (cases "lsa3_type (lsa3_body l)")
    case None
    then obtain d where "lsa3_body l = LSAv3Header d" by (auto simp: lsa3_type_def split: lsa3_body.splits)
    then show ?thesis using that None assms(1) hx(2)
      by (simp add: lsa3_ok_def lsa3_header_unpack_def lsa3_body_bytes_def)
  next
    case (Some k)
    then show ?thesis using that lsa3_body_read [OF hx(2) _ Some] assms(1) by (auto simp: lsa3_ok_def)
  qed
  moreover have "lsa3_init u b = Inr l"
    using u(2) r [of x] hx(3) by (simp add: lsa3_init_def packet_init_Inr obj_make_def)
  ultimately show ?thesis
    using hx(3,5) by (simp add: lsu3_round_def Let_def)
qed

lemma lsu_round_progress:
  "lsu2_round buf = Item l2 rest \<Longrightarrow> length rest < length buf"
  "lsu3_round buf = Item l3 rest \<Longrightarrow> length rest < length buf"
proof -
  have p: "0 < n \<Longrightarrow> 20 \<le> length buf \<Longrightarrow> rest = drop n buf \<Longrightarrow> length rest < length buf" for n by simp
  show "lsu2_round buf = Item l2 rest \<Longrightarrow> length rest < length buf"
    by (rule p [of "nat (bytes_int BE (take 2 (drop 18 buf)))"])
      (auto simp: lsu2_round_def Let_def round_of_Item unpack_uint_def split: if_splits sum.splits)
  show "lsu3_round buf = Item l3 rest \<Longrightarrow> length rest < length buf"
    by (rule p [of "nat (bytes_int BE (take 2 (drop 18 buf)))"])
      (auto simp: lsu3_round_def Let_def round_of_Item unpack_uint_def split: if_splits sum.splits)
qed

interpretation lsu2: item_round lsu2_round lsa2_bytes lsa2_ok
proof
  show "lsu2_round [] = Stop" by (simp add: lsu2_round_def)
qed (rule lsu_round_progress lsu2_round_reads, assumption+)+

interpretation lsu3: item_round lsu3_round lsa3_bytes lsa3_ok
proof
  show "lsu3_round [] = Stop" by (simp add: lsu3_round_def)
qed (rule lsu_round_progress lsu3_round_reads, assumption+)+

text \<open>
  A well-formed message, given its tables and what a well-formed advertisement is; the lists of
  requests and acknowledgments are not empty, since a packet without data has no message.
\<close>

definition msg_type :: "'l ospf_msg \<Rightarrow> int" where
  "msg_type m = (case m of Hello _ _ \<Rightarrow> 1 | DBD _ _ \<Rightarrow> 2 | LSR _ \<Rightarrow> 3 | LSU _ _ \<Rightarrow> 4 | LSAck _ \<Rightarrow> 5)"

definition ack_ok :: "hdr \<Rightarrow> packet_obj \<Rightarrow> bool" where
  "ack_ok h p \<longleftrightarrow> exact_all (hdr_fmt h) (obj_vals p) \<and> obj_data p = []"

definition msg_ok :: "hdr \<Rightarrow> hdr \<Rightarrow> hdr \<Rightarrow> ('l \<Rightarrow> bool) \<Rightarrow> 'l ospf_msg \<Rightarrow> bool" where
  "msg_ok hello dbd lsah lsa_ok m =
     (case m of
        Hello vs _ \<Rightarrow> exact_all (hdr_fmt hello) vs
      | DBD vs _ \<Rightarrow> exact_all (hdr_fmt dbd) vs
      | LSR rs \<Rightarrow> rs \<noteq> []
      | LSU n ls \<Rightarrow> n = int (length ls) \<and> list_all lsa_ok ls
      | LSAck ps \<Rightarrow> ps \<noteq> [] \<and> list_all (ack_ok lsah) ps)"

definition msg2_ok :: "lsa2 ospf_msg \<Rightarrow> bool" where
  "msg2_ok = msg_ok hello2_hdr ospf_OSPFv2DBD_hdr lsa2_hdr lsa2_ok"

definition msg3_ok :: "lsa3 ospf_msg \<Rightarrow> bool" where
  "msg3_ok = msg_ok hello3_hdr ospf_OSPFv3DBD_hdr lsa3_hdr lsa3_ok"

lemma hello_reads:
  assumes "table_ok h" "exact_all (hdr_fmt h) vs" "packet_pack_hdr BE h vs = Inr a"
    "pack_rows BE [fI] ns = Inr b"
  shows "hello_init h (a @ b) = Inr (Hello vs ns)"
proof -
  obtain c where c: "packet_pack_hdr BE h vs = Inr c" "length c = hdr_len h"
    "\<And>d. class_unpack BE h (c @ d) = Inr (obj_make vs d)"
    using class_pack_parts [OF assms(1,2)] by metis
  then show ?thesis
    using assms(3) rows_unpack_exact [OF _ _ assms(4)]
    by (simp add: hello_init_def packet_init_Inr obj_make_def)
qed

lemma dbd_reads:
  assumes "table_ok h" "exact_all (hdr_fmt h) vs" "packet_bytes BE h vs d = Inr b"
  shows "dbd_init h b = Inr (DBD vs d)"
proof -
  obtain c where c: "packet_pack_hdr BE h vs = Inr c" "\<And>d. class_unpack BE h (c @ d) = Inr (obj_make vs d)"
    using class_pack_parts [OF assms(1,2)] by metis
  then show ?thesis
    using assms(3) by (auto simp: dbd_init_def class_init_def packet_init_Inr packet_init_def packet_bytes_def obj_make_def)
qed

lemma lsack_reads:
  assumes "table_ok h" "hdr_len h = 20" "list_all (ack_ok h) ps" "concat_result (class_bytes BE h) ps = Inr b"
  shows "map_result (class_init BE h) (chunks 20 b) = Inr ps"
  using assms(3,4)
proof (induction ps arbitrary: b)
  case Nil
  then show ?case by (simp add: chunks_short)
next
  case (Cons p ps)
  obtain x y where xy: "class_bytes BE h p = Inr x" "concat_result (class_bytes BE h) ps = Inr y" "b = x @ y"
    using Cons.prems(2) by (auto simp: rbind_Inr_iff)
  have p: "exact_all (hdr_fmt h) (obj_vals p)" "obj_data p = []" using Cons.prems(1) by (auto simp: ack_ok_def)
  obtain c where c: "packet_pack_hdr BE h (obj_vals p) = Inr c" "length c = hdr_len h"
    "\<And>d. class_unpack BE h (c @ d) = Inr (obj_make (obj_vals p) d)"
    using class_pack_parts [OF assms(1) p(1)] by metis
  have "x = c" "length x = 20"
    using xy(1) c p assms(2) by (auto simp: class_bytes_def packet_bytes_def)
  moreover have "class_init BE h c = Inr p"
    using c(3) [of "[]"] p by (cases p) (simp add: class_init_def packet_init_def obj_make_def)
  ultimately show ?case
    using xy Cons by (simp add: chunks_append)
qed

lemma lsu_reads:
  assumes "parse_count step (length ls) (b @ []) = Inr ls" "pack_uint BE 4 (int (length ls)) = Inr a"
  shows "lsu_init step (a @ b) = Inr (LSU (int (length ls)) ls)"
  using assms pack_uint_unpack [OF assms(2)] by (simp add: lsu_init_def no_table_init_def)

lemma lsr_reads:
  "int_fmts fs \<Longrightarrow> fs \<noteq> [] \<Longrightarrow> pack_rows BE fs rs = Inr b \<Longrightarrow> lsr_init fs b = Inr (LSR rs)"
  by (simp add: lsr_init_def no_table_init_def rows_unpack_exact)

lemma msg2_reads:
  assumes "msg2_ok m" "msg2_bytes m = Inr b"
  shows "b \<noteq> [] \<and> (\<exists>u. msg2_sw (msg_type m) = Some u \<and> u b = Inr m)"
proof (cases m)
  case (Hello vs ns)
  then show ?thesis
    using assms hello_reads [of hello2_hdr vs _ ns]
    by (auto simp: msg2_ok_def msg_ok_def msg2_bytes_def msg_bytes_def msg_type_def msg2_sw_def rbind_Inr_iff
        dest: packet_pack_hdr_length)
next
  case (DBD vs d)
  then show ?thesis
    using assms dbd_reads [of ospf_OSPFv2DBD_hdr vs d b]
    by (auto simp: msg2_ok_def msg_ok_def msg2_bytes_def msg_bytes_def msg_type_def msg2_sw_def
        packet_bytes_def rbind_Inr_iff dest!: packet_pack_hdr_length)
next
  case (LSR rs)
  then show ?thesis
    using assms lsr_reads [of lsr2_fmt rs b] pack_rows_length [of BE lsr2_fmt rs b]
    by (auto simp: msg2_ok_def msg_ok_def msg2_bytes_def msg_bytes_def msg_type_def msg2_sw_def)
next
  case (LSU n ls)
  then obtain x y where xy: "pack_uint BE 4 (int (length ls)) = Inr x" "concat_result lsa2_bytes ls = Inr y"
    "b = x @ y" "n = int (length ls)" "list_all lsa2_ok ls"
    using assms by (auto simp: msg2_ok_def msg_ok_def msg2_bytes_def msg_bytes_def rbind_Inr_iff)
  have "lsu_init lsu2_round b = Inr m"
    using lsu_reads [OF lsu2.count_reads [OF xy(5,2)] xy(1)] LSU xy by simp
  then show ?thesis using LSU xy pack_uint_unpack [OF xy(1)] by (auto simp: msg_type_def msg2_sw_def)
next
  case (LSAck ps)
  then have p: "ps \<noteq> []" "list_all (ack_ok lsa2_hdr) ps" "concat_result (class_bytes BE lsa2_hdr) ps = Inr b"
    using assms by (auto simp: msg2_ok_def msg_ok_def msg2_bytes_def msg_bytes_def)
  have "b \<noteq> []" using lsack_reads [OF _ _ p(2,3)] p(1) by (auto simp: chunks_short)
  then show ?thesis
    using lsack_reads [OF _ _ p(2,3)] LSAck
    by (simp add: msg_type_def msg2_sw_def lsack_init_def no_table_init_def)
qed

lemma msg3_reads:
  assumes "msg3_ok m" "msg3_bytes m = Inr b"
  shows "b \<noteq> [] \<and> (\<exists>u. msg3_sw (msg_type m) = Some u \<and> u b = Inr m)"
proof (cases m)
  case (Hello vs ns)
  then show ?thesis
    using assms hello_reads [of hello3_hdr vs _ ns]
    by (auto simp: msg3_ok_def msg_ok_def msg3_bytes_def msg_bytes_def msg_type_def msg3_sw_def rbind_Inr_iff
        dest: packet_pack_hdr_length)
next
  case (DBD vs d)
  then show ?thesis
    using assms dbd_reads [of ospf_OSPFv3DBD_hdr vs d b]
    by (auto simp: msg3_ok_def msg_ok_def msg3_bytes_def msg_bytes_def msg_type_def msg3_sw_def
        packet_bytes_def rbind_Inr_iff dest!: packet_pack_hdr_length)
next
  case (LSR rs)
  then show ?thesis
    using assms lsr_reads [of lsr3_fmt rs b] pack_rows_length [of BE lsr3_fmt rs b]
    by (auto simp: msg3_ok_def msg_ok_def msg3_bytes_def msg_bytes_def msg_type_def msg3_sw_def)
next
  case (LSU n ls)
  then obtain x y where xy: "pack_uint BE 4 (int (length ls)) = Inr x" "concat_result lsa3_bytes ls = Inr y"
    "b = x @ y" "n = int (length ls)" "list_all lsa3_ok ls"
    using assms by (auto simp: msg3_ok_def msg_ok_def msg3_bytes_def msg_bytes_def rbind_Inr_iff)
  have "lsu_init lsu3_round b = Inr m"
    using lsu_reads [OF lsu3.count_reads [OF xy(5,2)] xy(1)] LSU xy by simp
  then show ?thesis using LSU xy pack_uint_unpack [OF xy(1)] by (auto simp: msg_type_def msg3_sw_def)
next
  case (LSAck ps)
  then have p: "ps \<noteq> []" "list_all (ack_ok lsa3_hdr) ps" "concat_result (class_bytes BE lsa3_hdr) ps = Inr b"
    using assms by (auto simp: msg3_ok_def msg_ok_def msg3_bytes_def msg_bytes_def)
  have "b \<noteq> []" using lsack_reads [OF _ _ p(2,3)] p(1) by (auto simp: chunks_short)
  then show ?thesis
    using lsack_reads [OF _ _ p(2,3)] LSAck
    by (simp add: msg_type_def msg3_sw_def lsack_init_def no_table_init_def)
qed

section \<open>The whole packet\<close>

abbreviation ospf_get :: "string \<Rightarrow> ospf \<Rightarrow> int" where
  "ospf_get n r \<equiv> get_int (ospf_hdr (ospf_class r)) n (ospf_vals r)"

definition ospf_version_ok :: "ospf_class \<Rightarrow> int \<Rightarrow> bool" where
  "ospf_version_ok c v \<longleftrightarrow> (case c of OSPFv2 \<Rightarrow> v = 2 | OSPFv3 \<Rightarrow> v = 3 | OSPF \<Rightarrow> v \<noteq> 2 \<and> v \<noteq> 3)"

definition ospf_ok :: "ospf \<Rightarrow> bool" where
  "ospf_ok r \<longleftrightarrow>
     exact_all (hdr_fmt (ospf_hdr (ospf_class r))) (ospf_vals r) \<and>
     ospf_version_ok (ospf_class r) (ospf_get ''v'' r) \<and>
     (case ospf_data r of
        O_Raw d \<Rightarrow> (case ospf_class r of OSPF \<Rightarrow> True
                    | OSPFv2 \<Rightarrow> d = [] \<or> msg2_sw (ospf_get ''type'' r) = None
                    | OSPFv3 \<Rightarrow> d = [] \<or> msg3_sw (ospf_get ''type'' r) = None)
      | O_V2 m \<Rightarrow> ospf_class r = OSPFv2 \<and> ospf_get ''type'' r = msg_type m \<and> msg2_ok m
      | O_V3 m \<Rightarrow> ospf_class r = OSPFv3 \<and> ospf_get ''type'' r = msg_type m \<and> msg3_ok m)"

lemma ospf_fields:
  "0 < length (ospf_hdr c)" "ospf_hdr c ! 0 = (''v'', fB, VInt 0)" "hdr_len (take 0 (ospf_hdr c)) = 0"
  "5 < length (ospf_hdr c)" "ospf_hdr c ! 5 = (''sum'', fH, VInt 0)" "hdr_len (take 5 (ospf_hdr c)) = 12"
  "14 \<le> hdr_len (ospf_hdr c)" "Pad \<notin> set (hdr_fmt (ospf_hdr c))" "distinct (hdr_fields (ospf_hdr c))"
  "(''sum'', UI 2, VInt 0) \<in> set (ospf_hdr c)" "''sum'' \<in> set (hdr_fields (ospf_hdr c))"
  by (cases c; simp add: ospf_base_hdr_def hdr_fields_def)+

lemma ospf_packet_reads:
  assumes "ospf_ok r" "ospf_packet_bytes r = Inr b"
  shows "ospf_init b = Inr r"
proof -
  let ?h = "ospf_hdr (ospf_class r)"
  have e: "exact_all (hdr_fmt ?h) (ospf_vals r)" using assms(1) by (simp add: ospf_ok_def)
  obtain a d where ad: "packet_pack_hdr BE ?h (ospf_vals r) = Inr a" "ospf_data_bytes (ospf_data r) = Inr d" "b = a @ d"
    using assms(2) by (auto simp: ospf_packet_bytes_def rbind_Inr_iff)
  have u: "class_unpack BE ?h (a @ d) = Inr (obj_make (ospf_vals r) d)"
    using class_pack_parts [OF table_ok_ospf e] ad(1) by (metis Inr_inject)
  have l: "length a = hdr_len ?h" by (rule packet_pack_hdr_length [OF ad(1)])
  have v: "bytes_int BE (take 1 a) = ospf_get ''v'' r"
    using class_field_read [OF table_ok_ospf e ad(1), of 0 "''v''" 1 "VInt 0" "[]"] ospf_fields by simp
  obtain x xs where x: "a = x # xs" using l ospf_fields(7) [of "ospf_class r"] by (cases a) auto
  have "ord x = ospf_get ''v'' r" using v x by (simp add: bytes_int_def be_int_def)
  then have n: "ospf_new b = ospf_class r"
    using assms(1) x ad(3) by (auto simp: ospf_new_def ospf_ok_def ospf_version_ok_def split: ospf_class.splits)
  have "ospf_unpack (ospf_class r) b = Inr r"
    using assms(1) ad(2) u msg2_reads msg3_reads unfolding ad(3)
    by (cases r; cases "ospf_data r")
      (fastforce simp: ospf_unpack_def obj_make_def Let_def ospf_ok_def ospf_body_def ospf_data_bytes_def
        split: ospf_class.splits option.splits)+
  then show ?thesis using n by (simp add: ospf_init_def Let_def packet_init_Inr)
qed

lemma ospf_set_sum_ok:
  assumes "ospf_ok r" "0 \<le> c" "c < 65536"
  shows "ospf_ok (ospf_set_sum c r)"
proof -
  let ?h = "ospf_hdr (ospf_class r)"
  have e: "exact_all (hdr_fmt ?h) (ospf_vals r)" using assms(1) by (simp add: ospf_ok_def)
  have "\<forall>(m, f, d) \<in> set ?h. m = ''sum'' \<longrightarrow> exact f (VInt c)"
    using assms(2,3) by (cases "ospf_class r") (simp_all add: ospf_base_hdr_def)
  from set_val_exact [OF e ospf_fields(8) this]
  have "exact_all (hdr_fmt ?h) (set_val ?h ''sum'' (VInt c) (ospf_vals r))" .
  moreover have "get_int ?h n (set_val ?h ''sum'' (VInt c) (ospf_vals r)) = ospf_get n r" if "n \<noteq> ''sum''" for n
    using get_set_val [OF e ospf_fields(8,9)] that by simp
  ultimately show ?thesis using assms(1)
    by (auto simp: ospf_ok_def ospf_set_sum_def split: ospf_data.splits ospf_class.splits)
qed

lemma ospf_sum_place:
  assumes "ospf_ok r" "ospf_packet_bytes r = Inr b" "0 \<le> c" "c < 65536"
  shows "ospf_packet_bytes (ospf_set_sum c r) = Inr (take 12 b @ int_bytes BE 2 c @ drop 14 b) \<and>
    take 2 (drop 12 b) = int_bytes BE 2 (ospf_get ''sum'' r)"
proof -
  let ?h = "ospf_hdr (ospf_class r)"
  have e: "exact_all (hdr_fmt ?h) (ospf_vals r)" using assms(1) by (simp add: ospf_ok_def)
  obtain a d where ad: "packet_pack_hdr BE ?h (ospf_vals r) = Inr a" "ospf_data_bytes (ospf_data r) = Inr d" "b = a @ d"
    using assms(2) by (auto simp: ospf_packet_bytes_def rbind_Inr_iff)
  have p: "struct_pack BE (hdr_fmt ?h) (ospf_vals r) = Inr a"
    using packet_pack_hdr_exact [OF e, of BE] ad(1) by auto
  have l: "14 \<le> length a" using packet_pack_hdr_length [OF ad(1)] ospf_fields(7) by simp
  have "struct_pack BE (hdr_fmt ?h) (set_val ?h ''sum'' (VInt c) (ospf_vals r)) =
      Inr (take 12 a @ int_bytes BE 2 c @ drop 14 a)"
    using hdr_field_write [OF ospf_fields(4,5,8,9) e p assms(3)] assms(4) ospf_fields(6) by simp
  moreover have "bytes_int BE (take 2 (drop 12 a)) = ospf_get ''sum'' r" "length (take 2 (drop 12 a)) = 2"
    using hdr_field_read [OF ospf_fields(4,5,8,9) e p, of "[]"] ospf_fields(6) l by simp_all
  ultimately show ?thesis
    using ad l int_bytes_bytes_int [of "take 2 (drop 12 a)" 2 BE]
    by (simp add: ospf_packet_bytes_def ospf_set_sum_def packet_pack_hdr_def)
qed

section \<open>Properties\<close>


text \<open>
  The checksum that OSPF fills in makes the checksum of the whole packet zero.
\<close>

theorem ospf_checksum_verifies:
  assumes "ospf_ok r" "ospf_bytes r = Inr (b, r')" "ospf_get ''sum'' r = 0" "length b \<le> 131000"
  shows "in_cksum b = Inr 0"
proof -
  obtain b0 c where bc: "ospf_packet_bytes r = Inr b0" "in_cksum b0 = Inr c" "ospf_packet_bytes (ospf_set_sum c r) = Inr b"
    using assms(2,3) by (auto simp: ospf_bytes_def rbind_Inr_iff)
  have c: "0 \<le> c" "c < 65536" using in_cksum_ok [of b0] bc(2) by auto
  have b: "b = take 12 b0 @ int_bytes BE 2 c @ drop 14 b0" and z: "take 2 (drop 12 b0) = int_bytes BE 2 0"
    using ospf_sum_place [OF assms(1) bc(1) c] bc(3) assms(3) by simp_all
  have "14 \<le> length b0"
    using bc(1) ospf_fields(7) [of "ospf_class r"]
    by (auto simp: ospf_packet_bytes_def rbind_Inr_iff dest!: packet_pack_hdr_length)
  moreover have "b0 = take 12 b0 @ take 2 (drop 12 b0) @ drop 14 b0"
    using append_take_drop_id [of 12 b0] append_take_drop_id [of 2 "drop 12 b0"] by simp
  then have "b0 = take 12 b0 @ [0, 0] @ drop 14 b0" using z by (simp add: int_bytes_BE2_zero)
  ultimately show ?thesis
    using in_cksum_verifies [of "take 12 b0" "drop 14 b0" c] bc(2) assms(4) b by simp
qed

text \<open>
  An update of either version shorter than its count cannot be read, and the constructor of the
  packet ends with an \<open>AttributeError\<close>, which no handler of unpack errors catches.
\<close>

theorem ospf_short_lsu_crashes:
  assumes "ospf_new buf = c" "c \<noteq> OSPF" "buf ! 1 = 4"
    and "hdr_len (ospf_hdr c) < length buf" "length buf < hdr_len (ospf_hdr c) + 4"
  shows "ospf_init buf = Inl AttributeError"
proof -
  obtain x y z where buf: "buf = x # y # z" using assms(4) ospf_fields(7) [of c]
    by (cases buf; cases "tl buf") auto
  obtain vs where vs: "class_unpack BE (ospf_hdr c) buf = Inr (obj_make vs (drop (hdr_len (ospf_hdr c)) buf))"
    "exact_all (hdr_fmt (ospf_hdr c)) vs" "struct_pack BE (hdr_fmt (ospf_hdr c)) vs = Inr (take (hdr_len (ospf_hdr c)) buf)"
    using packet_class.unpack_total [OF table_class [OF table_ok_ospf], of c buf BE] assms(4)
    by (auto simp: class_unpack_def)
  have "bytes_int BE (take 1 (drop 1 (take (hdr_len (ospf_hdr c)) buf))) = get_int (ospf_hdr c) ''type'' vs"
    using hdr_field_read [of 1 "ospf_hdr c" "''type''" 1 "VInt 0" vs BE, OF _ _ ospf_fields(8,9) vs(2,3), of "[]"]
    by (cases c) (simp_all add: ospf_base_hdr_def)
  then have t: "get_int (ospf_hdr c) ''type'' vs = 4"
    using assms(3) buf ospf_fields(7) [of c] by (cases "hdr_len (ospf_hdr c)") (auto simp: bytes_int_def be_int_def take_Cons' ord_def)
  have "drop (hdr_len (ospf_hdr c)) buf \<noteq> []" "length (drop (hdr_len (ospf_hdr c)) buf) < 4"
    using assms(4,5) by simp_all
  then have "ospf_unpack c buf = Inl AttributeError"
    using vs(1) t assms(2)
    by (cases c) (simp_all add: ospf_unpack_def obj_make_def ospf_body_def msg2_sw_def msg3_sw_def lsu_init_def
        no_table_init_def unpack_uint_def)
  then show ?thesis using assms(1) by (simp add: ospf_init_def packet_init_def)
qed

definition example_router_lsa :: "int \<Rightarrow> lsa2" where
  "example_router_lsa opts =
     \<lparr>lsa2_vals = map VInt [1, opts, 1, 167772161, 167772161, 2147483649, 0, 36],
      lsa2_body = LSARouter 0 [[167772162, 167772161, 2, 0, 10]]\<rparr>"

definition example_ospf :: ospf where
  "example_ospf =
     \<lparr>ospf_class = OSPFv2, ospf_vals = map VInt [2, 4, 0, 167772161, 0, 0, 0] @ [VBytes (zeros 8)],
      ospf_data = O_V2 (LSU 1 [example_router_lsa 1])\<rparr>"

lemma example_ospf_bytes:
  "ospf_ok example_ospf \<and> (\<exists>b r. ospf_bytes example_ospf = Inr (b, r) \<and> length b = 64)"
proof -
  have ok: "ospf_ok example_ospf"
    by (simp add: ospf_ok_def example_ospf_def ospf_base_hdr_def exact_U ospf_version_ok_def get_int_def
        hdr_fields_def zeros_def msg_type_def msg2_ok_def msg_ok_def lsa2_ok_def example_router_lsa_def
        ospf_LSAv2Header_hdr_def lsa2_len_def lsa2_type_def lsa2_body_ok_def)
  obtain b where b: "ospf_packet_bytes example_ospf = Inr b" "length b = 64"
    by (simp add: ospf_packet_bytes_def example_ospf_def packet_pack_hdr_def ospf_base_hdr_def zeros_def
        ospf_data_bytes_def msg2_bytes_def msg_bytes_def pack_uint_eq lsa2_bytes_def ospf_LSAv2Header_hdr_def
        example_router_lsa_def lsa2_body_bytes_def pack_rows_def pack_row_def link2_fmt_def)
  obtain c where c: "in_cksum b = Inr c" "0 \<le> c" "c < 65536" using in_cksum_ok by blast
  have "get_int (ospf_hdr (ospf_class example_ospf)) ''sum'' (ospf_vals example_ospf) = 0"
    by (simp add: example_ospf_def get_int_def hdr_fields_def ospf_base_hdr_def)
  then show ?thesis
    using ospf_sum_place [OF ok b(1) c(2,3)] b c ok
    by (simp add: ospf_bytes_def)
qed


theorem ospf_checksum_verifies_witness:
  "\<exists>b r. ospf_bytes example_ospf = Inr (b, r) \<and> in_cksum b = Inr 0"
proof -
  obtain b r where b: "ospf_bytes example_ospf = Inr (b, r)" "length b = 64" using example_ospf_bytes by blast
  have "get_int (ospf_hdr (ospf_class example_ospf)) ''sum'' (ospf_vals example_ospf) = 0"
    by (simp add: example_ospf_def get_int_def hdr_fields_def ospf_base_hdr_def)
  then have "in_cksum b = Inr 0"
    using ospf_checksum_verifies [OF conjunct1 [OF example_ospf_bytes] b(1)] b(2) by simp
  then show ?thesis using b(1) by blast
qed

theorem ospf_short_lsu_crashes_witness:
  "ospf_init ([2, 4] @ zeros 22 @ [0, 0, 1]) = Inl AttributeError"
  using ospf_short_lsu_crashes [of "[2, 4] @ zeros 22 @ [0, 0, 1]" OSPFv2]
  by (simp add: ospf_new_def ospf_base_hdr_def)

text \<open>
  An update of version 2 takes the options byte of an advertisement for its type: a Router-LSA
  whose options are 2 (the E bit) is read back as a Network-LSA, whatever its links.
\<close>

theorem ospf_router_lsa_misread:
  assumes "exact_all (hdr_fmt lsa2_hdr) (lsa2_vals l)" "lsa2_bytes l = Inr b"
    and "get_int lsa2_hdr ''len'' (lsa2_vals l) = int (lsa2_len l)"
    and "get_int lsa2_hdr ''opts'' (lsa2_vals l) = 2" "lsa2_body l = LSARouter flags links"
  shows "\<exists>m rs. lsu2_round (b @ rest) = Item \<lparr>lsa2_vals = lsa2_vals l, lsa2_body = LSANetwork m rs\<rparr> rest"
proof -
  obtain x where x: "lsa2_body_bytes (lsa2_body l) = Inr x"
    using assms(2) by (auto simp: lsa2_bytes_def rbind_Inr_iff)
  have "4 \<le> length x"
    using x assms(5) by (auto simp: lsa2_body_bytes_def rbind_Inr_iff split: if_splits)
  then obtain m rs where "lsa_network_unpack x = Inr (LSANetwork m rs)"
    by (simp add: lsa_network_unpack_def unpack_uint_def)
  then show ?thesis
    using lsu2_round_step [OF assms(1-3) x, of "LSANetwork m rs" rest] assms(4)
    by (auto simp: lsa2_sw_def)
qed

theorem ospf_router_lsa_misread_witness:
  "\<exists>b m rs. lsa2_bytes (example_router_lsa 2) = Inr b \<and>
     lsu2_round b = Item \<lparr>lsa2_vals = lsa2_vals (example_router_lsa 2), lsa2_body = LSANetwork m rs\<rparr> []"
proof -
  let ?l = "example_router_lsa 2"
  have e: "exact_all (hdr_fmt lsa2_hdr) (lsa2_vals ?l)" "get_int lsa2_hdr ''len'' (lsa2_vals ?l) = int (lsa2_len ?l)"
    "get_int lsa2_hdr ''opts'' (lsa2_vals ?l) = 2" "lsa2_body ?l = LSARouter 0 [[167772162, 167772161, 2, 0, 10]]"
    by (simp_all add: example_router_lsa_def ospf_LSAv2Header_hdr_def exact_U get_int_def hdr_fields_def lsa2_len_def)
  obtain b where b: "lsa2_bytes ?l = Inr b"
    by (simp add: lsa2_bytes_def packet_pack_hdr_def ospf_LSAv2Header_hdr_def example_router_lsa_def
        lsa2_body_bytes_def pack_rows_def pack_row_def link2_fmt_def)
  show ?thesis using ospf_router_lsa_misread [OF e(1) b e(2-4), of "[]"] b by auto
qed

end
