(* ===== verification/Eigrp.thy ===== *)
theory Eigrp
  imports Tables
begin

text \<open>
  EIGRP, \<^verbatim>\<open>dpkt/eigrp.py\<close>: the packet with its checksum, the messages that keep their buffer and
  a list of TLVs, the parameter TLV and the route TLVs with their metrics.

  A TLV keeps the type, the length and the value that \<open>EIGRPTLV.unpack\<close> reads. The attributes
  of a metric that is too short for them are missing: its view is then empty.
\<close>

section \<open>Metrics\<close>

record eigrp_metric =
  em_type :: int
  em_length :: int
  em_value :: bytes
  em_view :: "int list"

text \<open>The attributes of the class of a metric type: delay and bandwidth, or jitter, energy and flags.\<close>

definition metric_view :: "int \<Rightarrow> bytes \<Rightarrow> int list" where
  "metric_view t v =
     (if t = 0x0601 then
        (if 8 \<le> length v then [bytes_int BE (take 4 v), bytes_int BE (take 4 (drop 4 v))] else [])
      else if t = 0x0602 then
        (if 9 \<le> length v
         then [bytes_int BE (take 4 v), bytes_int BE (take 4 (drop 4 v)), ord (v ! 8)] else [])
      else [])"

text \<open>The header of a TLV at the front of a buffer that has four bytes: its type and its length.\<close>

definition tlv_head :: "bytes \<Rightarrow> int \<times> int" where
  "tlv_head buf = (bytes_int BE (take 2 buf), bytes_int BE (take 2 (drop 2 buf)))"

definition metric_round :: "bytes \<Rightarrow> eigrp_metric round" where
  "metric_round buf =
     (if length buf < 4 then Stop
      else
        let (t, l) = tlv_head buf
        in if l < 4 \<or> int (length buf) < l then Stop
           else let v = take (nat l - 4) (drop 4 buf)
                in Item \<lparr>em_type = t, em_length = l, em_value = v, em_view = metric_view t v\<rparr> (drop (nat l) buf))"

definition tlv_pack :: "int \<Rightarrow> int \<Rightarrow> bytes \<Rightarrow> bytes result" where
  "tlv_pack t l v = rbind (struct_pack BE [fH, fH] [VInt t, VInt l]) (\<lambda>a. Inr (a @ v))"

definition metric_bytes :: "eigrp_metric \<Rightarrow> bytes result" where
  "metric_bytes m = tlv_pack (em_type m) (em_length m) (em_value m)"

section \<open>Routes\<close>

record eigrp_route =
  er_next_hop :: int
  er_delay :: int
  er_bandwidth :: int
  er_mtu :: int
  er_hop_count :: int
  er_reliability :: int
  er_load :: int
  er_prefix_length :: int
  er_prefix :: bytes
  er_metrics :: "eigrp_metric list"

definition route_default :: eigrp_route where
  "route_default =
     \<lparr>er_next_hop = 0, er_delay = 0, er_bandwidth = 0, er_mtu = 1500, er_hop_count = 0, er_reliability = 255,
      er_load = 1, er_prefix_length = 0, er_prefix = [], er_metrics = []\<rparr>"

text \<open>\<^verbatim>\<open>EIGRPInternalRouteTLV.unpack\<close>, on the value: one below 26 bytes leaves the defaults.\<close>

definition route_unpack :: "bytes \<Rightarrow> eigrp_route result" where
  "route_unpack v =
     (if length v < 26 then Inr route_default
      else
        rbind (uint_at v 0 4) (\<lambda>nh. rbind (uint_at v 4 4) (\<lambda>de. rbind (uint_at v 8 4) (\<lambda>bw.
        rbind (unpack_u24 (take 3 (drop 12 v))) (\<lambda>mtu.
        rbind (byte_at v 15) (\<lambda>hop. rbind (byte_at v 16) (\<lambda>rel. rbind (byte_at v 17) (\<lambda>ld.
        rbind (byte_at v 20) (\<lambda>pl.
        rbind (parse_loop metric_round (drop (21 + prefix_bytes pl) v)) (\<lambda>ms.
          Inr \<lparr>er_next_hop = nh, er_delay = de, er_bandwidth = bw, er_mtu = mtu, er_hop_count = hop,
               er_reliability = rel, er_load = ld, er_prefix_length = pl,
               er_prefix = take (prefix_bytes pl) (drop 21 v), er_metrics = ms\<rparr>))))))))))"

definition ljust :: "bytes \<Rightarrow> nat \<Rightarrow> bytes" where
  "ljust b n = b @ zeros (n - length b)"

text \<open>What both route classes pack in front: the fixed fields and the padded prefix.\<close>

definition route_front :: "eigrp_route \<Rightarrow> bytes result" where
  "route_front r =
     rbind (struct_pack BE [fI, fI, fI] [VInt (er_next_hop r), VInt (er_delay r), VInt (er_bandwidth r)]) (\<lambda>a.
     rbind (pack_u24 (er_mtu r)) (\<lambda>b.
     rbind (concat_result py_byte
       [er_hop_count r, er_reliability r, er_load r, 0, 0, er_prefix_length r]) (\<lambda>c.
       Inr (a @ b @ c @ take (prefix_bytes (er_prefix_length r))
         (ljust (er_prefix r) (prefix_bytes (er_prefix_length r)))))))"

definition route_value :: "eigrp_route \<Rightarrow> bytes result" where
  "route_value r =
     rbind (route_front r) (\<lambda>a. rbind (concat_result metric_bytes (er_metrics r)) (\<lambda>b. Inr (a @ b)))"

definition ext_fmt :: "fmt list" where "ext_fmt = [fI, fI, fI, fB, fB]"

text \<open>The five integers an external route adds, from the front of the value.\<close>

definition external_unpack :: "bytes \<Rightarrow> eigrp_route \<Rightarrow> int list result" where
  "external_unpack v r =
     (let off = 21 + prefix_bytes (er_prefix_length r)
      in if off + 13 \<le> length v then
           rbind (uint_at v off 4) (\<lambda>a. rbind (uint_at v (off + 4) 4) (\<lambda>b. rbind (uint_at v (off + 8) 4) (\<lambda>c.
           rbind (byte_at v (off + 12)) (\<lambda>d. rbind (byte_at v (off + 13)) (\<lambda>e. Inr [a, b, c, d, e])))))
         else Inr [0, 0, 0, 0, 0])"

definition external_value :: "eigrp_route \<Rightarrow> int list \<Rightarrow> bytes result" where
  "external_value r x =
     rbind (route_front r) (\<lambda>a. rbind (pack_row BE ext_fmt x) (\<lambda>b.
     rbind (concat_result metric_bytes (er_metrics r)) (\<lambda>c. Inr (a @ b @ c))))"

section \<open>TLVs\<close>

text \<open>
  \<^verbatim>\<open>EIGRPParamTLV\<close> has the buffer as its parameter \<^verbatim>\<open>k1\<close> when it is made from a buffer, and
  \<^verbatim>\<open>unpack\<close> is not called; \<open>param_unpack\<close> is that method. Its bytes use the native byte order,
  which is taken to be little endian.
\<close>

record eigrp_param =
  ep_ks :: "pval list"
  ep_hold_time :: int

definition param_new :: "pval \<Rightarrow> eigrp_param" where
  "param_new k1 = \<lparr>ep_ks = [k1, VInt 0, VInt 1, VInt 0, VInt 0], ep_hold_time = 15\<rparr>"

definition param_unpack :: "bytes \<Rightarrow> eigrp_param \<Rightarrow> eigrp_param" where
  "param_unpack v p =
     (if 10 \<le> length v
      then p\<lparr>ep_ks := map (\<lambda>b. VInt (ord b)) (take 5 v), ep_hold_time := bytes_int BE (take 2 (drop 8 v))\<rparr>
      else p)"

definition eigrp_param_bytes :: "eigrp_param \<Rightarrow> bytes result" where
  "eigrp_param_bytes p =
     rbind (struct_pack LE [fB, fB, fB, fB, fB, Str 3, fH]
       (ep_ks p @ [VBytes [0, 0, 0], VInt (ep_hold_time p)])) (\<lambda>v. tlv_pack 1 (int (4 + length v)) v)"

datatype eigrp_tlv =
    TlvGeneric int int bytes
  | TlvParam eigrp_param
  | TlvInternal int int bytes eigrp_route
  | TlvExternal int int bytes eigrp_route "int list"

definition tlv_init :: "int \<Rightarrow> bytes \<Rightarrow> eigrp_tlv result" where
  "tlv_init t buf =
     (let l = snd (tlv_head buf); v = take (nat l - 4) (drop 4 buf)
      in if t = 1 then Inr (TlvParam (param_new (VBytes buf)))
         else if t = 0x0102 then rbind (route_unpack v) (\<lambda>r. Inr (TlvInternal t l v r))
         else if t = 0x0103 then
           rbind (route_unpack v) (\<lambda>r. rbind (external_unpack v r) (\<lambda>x. Inr (TlvExternal t l v r x)))
         else Inr (TlvGeneric t l v))"

definition tlv_round :: "bytes \<Rightarrow> eigrp_tlv round" where
  "tlv_round buf =
     (if length buf < 4 then Stop
      else
        let (t, l) = tlv_head buf
        in if l < 4 \<or> int (length buf) < l then Stop
           else round_of (tlv_init t (take (nat l) buf)) (drop (nat l) buf))"

definition eigrp_tlv_bytes :: "eigrp_tlv \<Rightarrow> bytes result" where
  "eigrp_tlv_bytes x =
     (case x of
        TlvGeneric t l v \<Rightarrow> tlv_pack t l v
      | TlvParam p \<Rightarrow> eigrp_param_bytes p
      | TlvInternal _ _ _ r \<Rightarrow> rbind (route_value r) (\<lambda>v. tlv_pack 0x0102 (int (4 + length v)) v)
      | TlvExternal _ _ _ r e \<Rightarrow> rbind (external_value r e) (\<lambda>v. tlv_pack 0x0103 (int (4 + length v)) v))"

section \<open>The packet\<close>

definition eigrp_hdr :: hdr where
  "eigrp_hdr =
    [(''v'', fB, VInt 2), (''opcode'', fB, VInt 0), (''sum'', fH, VInt 0), (''flags'', fI, VInt 0),
     (''seq'', fI, VInt 0), (''ack'', fI, VInt 0), (''asn'', fI, VInt 0)]"

datatype eigrp_data = EI_Raw bytes | EI_Msg bytes "eigrp_tlv list"

record eigrp =
  eigrp_vals :: "pval list"
  eigrp_data :: eigrp_data

definition eigrp_message :: "int \<Rightarrow> bool" where
  "eigrp_message op \<longleftrightarrow> op \<in> {1, 3, 4, 5, 10, 11}"

definition eigrp_msg_init :: "bytes \<Rightarrow> eigrp_data result" where
  "eigrp_msg_init = no_table_init (\<lambda>buf. rbind (parse_loop tlv_round buf) (\<lambda>ts. Inr (EI_Msg buf ts)))"

definition eigrp_unpack :: "bytes \<Rightarrow> eigrp result" where
  "eigrp_unpack buf =
     rbind (class_unpack BE eigrp_hdr buf) (\<lambda>p.
     rbind (if eigrp_message (get_int eigrp_hdr ''opcode'' (obj_vals p))
            then eigrp_msg_init (obj_data p) else Inr (EI_Raw (obj_data p))) (\<lambda>d.
       Inr \<lparr>eigrp_vals = obj_vals p, eigrp_data = d\<rparr>))"

definition eigrp_init :: "bytes \<Rightarrow> eigrp result" where
  "eigrp_init = packet_init (hdr_len eigrp_hdr) eigrp_unpack"

text \<open>The bytes of a message are the buffer that it was read from.\<close>

definition eigrp_data_bytes :: "eigrp_data \<Rightarrow> bytes" where
  "eigrp_data_bytes d = (case d of EI_Raw b \<Rightarrow> b | EI_Msg b _ \<Rightarrow> b)"

definition eigrp_bytes :: "eigrp \<Rightarrow> (bytes \<times> eigrp) result" where
  "eigrp_bytes r =
     rbind (sum_bytes eigrp_hdr (eigrp_vals r) (eigrp_data_bytes (eigrp_data r))) (\<lambda>(b, vs).
       Inr (b, r\<lparr>eigrp_vals := vs\<rparr>))"

section \<open>Reading back TLVs\<close>

lemma eigrp_tables [simp]: "hdr_len eigrp_hdr = 20" "table_ok eigrp_hdr" "int_fmts ext_fmt" "calcsize ext_fmt = 14"
  by (simp_all add: eigrp_hdr_def table_ok_def fmt_ok_def hdr_fields_def ext_fmt_def)

interpretation eigrp_sum: summed eigrp_hdr 2 "VInt 0"
  by unfold_locales (simp_all add: eigrp_hdr_def table_ok_def fmt_ok_def hdr_fields_def)

lemma tlv_pack_head:
  assumes "tlv_pack t l v = Inr b"
  shows "tlv_head (b @ rest) = (t, l) \<and> length b = 4 + length v \<and> drop 4 b = v"
proof -
  obtain a where a: "struct_pack BE [fH, fH] [VInt t, VInt l] = Inr a" "b = a @ v"
    using assms by (auto simp: tlv_pack_def rbind_Inr_iff)
  have "a = int_bytes BE 2 t @ int_bytes BE 2 l" "0 \<le> t" "t < 256 ^ 2" "0 \<le> l" "l < 256 ^ 2"
    using a(1) by (auto simp: rbind_Inr_iff split: if_splits)
  then show ?thesis using a(2) by (simp add: tlv_head_def bytes_int_int_bytes)
qed

definition metric_ok :: "eigrp_metric \<Rightarrow> bool" where
  "metric_ok m \<longleftrightarrow> em_length m = int (4 + length (em_value m)) \<and> em_view m = metric_view (em_type m) (em_value m)"

interpretation metrics: item_round metric_round metric_bytes metric_ok
proof
  fix buf x rest
  assume "metric_round buf = Item x rest"
  then show "length rest < length buf"
    by (auto simp: metric_round_def Let_def split: if_splits prod.splits)
next
  fix m b rest
  assume m: "metric_ok m" "metric_bytes m = Inr b"
  have h: "tlv_head (b @ rest) = (em_type m, em_length m)" "length b = 4 + length (em_value m)" "drop 4 b = em_value m"
    using tlv_pack_head [OF m(2) [unfolded metric_bytes_def]] by auto
  then show "metric_round (b @ rest) = Item m rest"
    using m(1) by (cases m) (simp add: metric_round_def metric_ok_def)
qed (simp add: metric_round_def)

lemma py_bytes_six:
  "concat_result py_byte [a, b, c, d, e, f] = Inr x \<Longrightarrow>
   x = map word_of_int [a, b, c, d, e, f] \<and> list_all (\<lambda>i. 0 \<le> i \<and> i < 256) [a, b, c, d, e, f]"
  by (auto simp: rbind_Inr_iff py_byte_iff)

lemma ljust_take: "length p = n \<Longrightarrow> take n (ljust p n) = p"
  by (simp add: ljust_def)

text \<open>The fields in front of a route's value, as they are read.\<close>

lemma route_front_read:
  assumes "route_front r = Inr a" "length (er_prefix r) = prefix_bytes (er_prefix_length r)" "26 \<le> length (a @ c)"
    "parse_loop metric_round c = Inr ms"
  shows "route_unpack (a @ c) = Inr (r\<lparr>er_metrics := ms\<rparr>) \<and> length a = 21 + prefix_bytes (er_prefix_length r)"
proof -
  obtain x y z where p: "struct_pack BE [fI, fI, fI] [VInt (er_next_hop r), VInt (er_delay r), VInt (er_bandwidth r)] = Inr x"
    "pack_u24 (er_mtu r) = Inr y"
    "concat_result py_byte [er_hop_count r, er_reliability r, er_load r, 0, 0, er_prefix_length r] = Inr z"
    "a = x @ y @ z @ er_prefix r"
    using assms(1,2) by (auto simp: route_front_def rbind_Inr_iff ljust_take simp del: concat_result_simps)
  have x: "x = int_bytes BE 4 (er_next_hop r) @ int_bytes BE 4 (er_delay r) @ int_bytes BE 4 (er_bandwidth r)"
    "0 \<le> er_next_hop r" "er_next_hop r < 256 ^ 4" "0 \<le> er_delay r" "er_delay r < 256 ^ 4"
    "0 \<le> er_bandwidth r" "er_bandwidth r < 256 ^ 4"
    using p(1) by (auto simp: rbind_Inr_iff split: if_splits)
  have y: "length y = 3" "unpack_u24 y = Inr (er_mtu r)" using pack_u24_unpack [OF p(2)] by auto
  have z: "z = map word_of_int [er_hop_count r, er_reliability r, er_load r, 0, 0, er_prefix_length r]"
    "list_all (\<lambda>i. 0 \<le> i \<and> i < 256) [er_hop_count r, er_reliability r, er_load r, 0, 0, er_prefix_length r]"
    using py_bytes_six [OF p(3)] by auto
  let ?v = "a @ c"
  have "uint_at ?v 0 4 = Inr (er_next_hop r)" "uint_at ?v 4 4 = Inr (er_delay r)" "uint_at ?v 8 4 = Inr (er_bandwidth r)"
    "unpack_u24 (take 3 (drop 12 ?v)) = Inr (er_mtu r)" "byte_at ?v 15 = Inr (er_hop_count r)"
    "byte_at ?v 16 = Inr (er_reliability r)" "byte_at ?v 17 = Inr (er_load r)"
    "byte_at ?v 20 = Inr (er_prefix_length r)"
    using p(4) x y z by (simp_all add: unpack_uint_def bytes_int_int_bytes ord_word_range)
  moreover have d: "drop 21 ?v = er_prefix r @ c" using p(4) x(1) y(1) z(1) by simp
  moreover have "take (prefix_bytes (er_prefix_length r)) (er_prefix r @ c) = er_prefix r"
    "length a = 21 + prefix_bytes (er_prefix_length r)"
    using p(4) x(1) y(1) z(1) assms(2) by simp_all
  moreover have "\<not> length (a @ c) < 26" using assms(3) by simp
  moreover have e: "drop (21 + prefix_bytes (er_prefix_length r)) ?v = c"
  proof -
    have "drop (21 + prefix_bytes (er_prefix_length r)) ?v = drop (prefix_bytes (er_prefix_length r)) (drop 21 ?v)"
      by (simp only: drop_drop add.commute)
    also have "\<dots> = c" unfolding d using assms(2) by simp
    finally show ?thesis .
  qed
  ultimately show ?thesis
    using assms(4) by (cases r) (simp only: route_unpack_def if_False rbind_simps eigrp_route.update_convs
      eigrp_route.simps simp_thms)
qed

definition eigrp_tlv_ok :: "eigrp_tlv \<Rightarrow> bool" where
  "eigrp_tlv_ok x =
     (case x of
        TlvGeneric t l v \<Rightarrow> t \<notin> {1, 0x0102, 0x0103} \<and> l = int (4 + length v)
      | TlvInternal t l v r \<Rightarrow>
          t = 0x0102 \<and> l = int (4 + length v) \<and> route_value r = Inr v \<and> 26 \<le> length v \<and>
          length (er_prefix r) = prefix_bytes (er_prefix_length r) \<and> list_all metric_ok (er_metrics r)
      | _ \<Rightarrow> False)"

lemma route_value_read:
  assumes "route_value r = Inr v" "26 \<le> length v" "list_all metric_ok (er_metrics r)"
    "length (er_prefix r) = prefix_bytes (er_prefix_length r)"
  shows "route_unpack v = Inr r"
proof -
  obtain a b where ab: "route_front r = Inr a" "concat_result metric_bytes (er_metrics r) = Inr b" "v = a @ b"
    using assms(1) by (auto simp: route_value_def rbind_Inr_iff)
  show ?thesis
    using route_front_read [OF ab(1) assms(4) _ metrics.loop_reads [OF assms(3) ab(2)]] ab(3) assms(2)
    by (cases r) simp
qed

lemma tlv_round_pack:
  assumes "tlv_pack t (int (4 + length v)) v = Inr b"
  shows "tlv_round (b @ rest) = round_of (tlv_init t b) rest \<and> tlv_head b = (t, int (4 + length v)) \<and> drop 4 b = v"
  using tlv_pack_head [OF assms, of rest] tlv_pack_head [OF assms, of "[]"]
  by (auto simp: tlv_round_def)

interpretation eigrp_tlvs: item_round tlv_round eigrp_tlv_bytes eigrp_tlv_ok
proof
  fix buf x rest
  assume "tlv_round buf = Item x rest"
  then show "length rest < length buf"
    by (auto simp: tlv_round_def Let_def round_of_Item split: if_splits prod.splits)
next
  fix x b rest
  assume x: "eigrp_tlv_ok x" "eigrp_tlv_bytes x = Inr b"
  then show "tlv_round (b @ rest) = Item x rest"
    using tlv_round_pack [of _ _ b rest] route_value_read
    by (auto simp: eigrp_tlv_ok_def eigrp_tlv_bytes_def tlv_init_def Let_def split: eigrp_tlv.splits)
qed (simp add: tlv_round_def)

section \<open>Properties\<close>


text \<open>
  A route whose value has fewer than 26 bytes is not read at all: an IPv4 route without metrics
  is packed, and comes back as the default route, with prefix length 0.
\<close>

theorem eigrp_short_route_lost:
  assumes "er_metrics r = []" "0 \<le> er_prefix_length r" "er_prefix_length r \<le> 32"
    and "eigrp_tlv_bytes (TlvInternal t l w r) = Inr b"
  shows "\<exists>v. tlv_round b = Item (TlvInternal 0x0102 (int (4 + length v)) v route_default) []"
proof -
  obtain a where a: "route_front r = Inr a" "tlv_pack 0x0102 (int (4 + length a)) a = Inr b"
    using assms(1,4) by (auto simp: eigrp_tlv_bytes_def route_value_def rbind_Inr_iff)
  have "prefix_bytes (er_prefix_length r) \<le> 4" using assms(2,3) by (simp add: prefix_bytes_def)
  moreover have "length a \<le> 21 + prefix_bytes (er_prefix_length r)"
    using a(1) by (auto simp: route_front_def rbind_Inr_iff py_byte_iff struct_pack_length simp del: struct_pack.simps
        dest!: pack_u24_unpack)
  ultimately have "length a < 26" by simp
  then have "route_unpack a = Inr route_default" by (simp add: route_unpack_def)
  then show ?thesis
    using tlv_round_pack [OF a(2), of "[]"] by (auto simp: tlv_init_def Let_def)
qed

text \<open>
  A parameter TLV is never parsed: whatever was sent, the object has the default hold time, has
  the buffer as its first parameter, and cannot be packed again.
\<close>

theorem eigrp_param_not_parsed:
  assumes "eigrp_tlv_bytes (TlvParam p) = Inr b"
  shows "\<exists>q. tlv_round b = Item (TlvParam q) [] \<and> ep_hold_time q = 15 \<and> ep_ks q ! 0 = VBytes b \<and>
    eigrp_tlv_bytes (TlvParam q) = Inl StructError"
proof -
  obtain v where v: "tlv_pack 1 (int (4 + length v)) v = Inr b"
    using assms by (auto simp: eigrp_tlv_bytes_def eigrp_param_bytes_def rbind_Inr_iff)
  show ?thesis
    using tlv_round_pack [OF v, of "[]"]
    by (intro exI [of _ "param_new (VBytes b)"])
      (auto simp: tlv_init_def Let_def param_new_def eigrp_tlv_bytes_def eigrp_param_bytes_def)
qed

text \<open>
  The check of an external route's length is one byte short: a route whose value ends right
  after the protocol byte raises an \<open>IndexError\<close> out of the constructor of the packet.
\<close>

theorem eigrp_external_index_error:
  assumes "route_unpack v = Inr r" "26 \<le> length v" "length v = 34 + prefix_bytes (er_prefix_length r)"
    and "tlv_pack 0x0103 (int (4 + length v)) v = Inr body" "class_unpack BE eigrp_hdr b = Inr p"
    and "eigrp_message (get_int eigrp_hdr ''opcode'' (obj_vals p))" "obj_data p = body"
  shows "eigrp_init b = Inl IndexError"
proof -
  let ?off = "21 + prefix_bytes (er_prefix_length r)"
  have "uint_at v i 4 = Inr (bytes_int BE (take 4 (drop i v)))" if "i + 4 \<le> length v" for i
    using that by (simp add: uint_at_def unpack_uint_def)
  moreover have "\<exists>x. byte_at v (?off + 12) = Inr x" using assms(3) by (simp add: byte_at_def py_get_def)
  moreover have "byte_at v (?off + 13) = Inl IndexError" using assms(3) by (simp add: byte_at_def py_get_def)
  ultimately have "external_unpack v r = Inl IndexError"
    using assms(3) by (auto simp: external_unpack_def Let_def)
  then have "tlv_round body = Fail IndexError"
    using tlv_round_pack [OF assms(4), of "[]"] assms(1) by (simp add: tlv_init_def Let_def)
  then have "parse_loop tlv_round body = Inl IndexError" by (simp add: parse_loop.simps [of tlv_round])
  then show ?thesis
    using assms(5-7) by (simp add: eigrp_init_def packet_init_def eigrp_unpack_def eigrp_msg_init_def no_table_init_def)
qed

definition example_route :: "eigrp_metric list \<Rightarrow> eigrp_route" where
  "example_route ms =
     \<lparr>er_next_hop = 167772161, er_delay = 1000, er_bandwidth = 100000, er_mtu = 1500, er_hop_count = 0,
      er_reliability = 255, er_load = 1, er_prefix_length = 24, er_prefix = [10, 0, 0], er_metrics = ms\<rparr>"

definition example_metric :: eigrp_metric where
  "example_metric =
     \<lparr>em_type = 0x0601, em_length = 12, em_value = [0, 0, 0, 100, 0, 0, 3, 232], em_view = [100, 1000]\<rparr>"

lemmas eigrp_eval = example_route_def example_metric_def route_value_def route_front_def metric_bytes_def
  tlv_pack_def pack_u24_eq py_byte_def prefix_bytes_def ljust_def

theorem eigrp_short_route_lost_witness:
  "\<exists>b v. eigrp_tlv_bytes (TlvInternal 0 4 [] (example_route [])) = Inr b \<and>
     tlv_round b = Item (TlvInternal 0x0102 (int (4 + length v)) v route_default) []"
proof -
  obtain b where b: "eigrp_tlv_bytes (TlvInternal 0 4 [] (example_route [])) = Inr b"
    by (simp add: eigrp_tlv_bytes_def eigrp_eval)
  show ?thesis using eigrp_short_route_lost [OF _ _ _ b] b by (simp add: example_route_def)
qed

theorem eigrp_param_not_parsed_witness:
  "\<exists>b q. eigrp_tlv_bytes (TlvParam \<lparr>ep_ks = map VInt [1, 0, 1, 0, 0], ep_hold_time = 180\<rparr>) = Inr b \<and>
     tlv_round b = Item (TlvParam q) [] \<and> ep_hold_time q = 15"
proof -
  obtain b where b: "eigrp_tlv_bytes (TlvParam \<lparr>ep_ks = map VInt [1, 0, 1, 0, 0], ep_hold_time = 180\<rparr>) = Inr b"
    by (simp add: eigrp_tlv_bytes_def eigrp_param_bytes_def tlv_pack_def)
  show ?thesis using eigrp_param_not_parsed [OF b] b by blast
qed


definition short_external :: bytes where
  "short_external =
    [0, 0, 0, 0, 0, 0, 0, 0, 0, 0, 0, 0, 0, 0, 0, 0, 0, 0, 0, 0, 24,
     0, 0, 0, 0, 0, 0, 0, 0, 0, 0, 0, 0, 0, 0, 0, 0]"

theorem eigrp_external_index_error_witness:
  "eigrp_init ([2, 1, 0, 0, 0, 0, 0, 0, 0, 0, 0, 0, 0, 0, 0, 0, 0, 0, 0, 0, 1, 3, 0, 41] @ short_external) =
     Inl IndexError"
proof -
  let ?r = "\<lparr>er_next_hop = 0, er_delay = 0, er_bandwidth = 0, er_mtu = 0, er_hop_count = 0, er_reliability = 0,
    er_load = 0, er_prefix_length = 24, er_prefix = [0, 0, 0], er_metrics = []\<rparr>"
  let ?b = "[2, 1, 0, 0, 0, 0, 0, 0, 0, 0, 0, 0, 0, 0, 0, 0, 0, 0, 0, 0, 1, 3, 0, 41] @ short_external"
  have r: "route_unpack short_external = Inr ?r"
    by (simp add: route_unpack_def short_external_def uint_at_def unpack_uint_def unpack_u24_def
        bytes_int_def be_int_def prefix_bytes_def parse_loop.simps [of metric_round] metric_round_def tlv_head_def)
  have l: "length short_external = 34 + prefix_bytes (er_prefix_length ?r)"
    by (simp add: short_external_def prefix_bytes_def)
  have t: "tlv_pack 0x0103 (int (4 + length short_external)) short_external = Inr ([1, 3, 0, 41] @ short_external)"
    by (simp add: short_external_def tlv_pack_def int_bytes_def be_bytes_def)
  have p: "class_unpack BE eigrp_hdr ?b = Inr (obj_make (map VInt [2, 1, 0, 0, 0, 0, 0]) ([1, 3, 0, 41] @ short_external))"
    by (simp add: class_unpack_def packet_unpack_def eigrp_hdr_def struct_unpack_def bytes_int_def be_int_def)
  show ?thesis
    by (rule eigrp_external_index_error [OF r _ l t p])
      (simp_all add: obj_make_def eigrp_message_def get_int_def hdr_fields_def eigrp_hdr_def short_external_def)
qed

end
