(* ===== verification/Rip.thy ===== *)
theory Rip
  imports Tables
begin

text \<open>
  RIP, \<^verbatim>\<open>dpkt/rip.py\<close>: a header and entries of twenty bytes, of which those of family
  \<^verbatim>\<open>0xFFFF\<close> are authentication data. The last authentication entry is the one kept, and packing
  puts it in front.
\<close>

abbreviation "rte_hdr \<equiv> rip_RTE_hdr"
abbreviation "auth_hdr \<equiv> rip_Auth_hdr"

definition rip_hdr :: hdr where
  "rip_hdr = [(''cmd'', fB, VInt 1), (''v'', fB, VInt 2), (''rsvd'', fH, VInt 0)]"

record rip =
  rip_vals :: "pval list"
  rip_auth :: "packet_obj option"
  rip_rtes :: "packet_obj list"

datatype rip_entry = E_Auth packet_obj | E_Rte packet_obj

text \<open>One round of the loop of \<^verbatim>\<open>RIP.unpack\<close>.\<close>

definition rip_round :: "bytes \<Rightarrow> rip_entry round" where
  "rip_round buf =
     (if buf = [] then Stop
      else round_of
        (rbind (class_init BE rte_hdr (take 20 buf)) (\<lambda>rte.
           if get_int rte_hdr ''family'' (obj_vals rte) = 0xFFFF
           then rbind (class_init BE auth_hdr (take 20 buf)) (\<lambda>a. Inr (E_Auth a))
           else Inr (E_Rte rte)))
        (drop 20 buf))"

fun last_auth :: "rip_entry list \<Rightarrow> packet_obj option \<Rightarrow> packet_obj option" where
  "last_auth [] a = a"
| "last_auth (E_Auth x # es) a = last_auth es (Some x)"
| "last_auth (E_Rte _ # es) a = last_auth es a"

fun rtes_of :: "rip_entry list \<Rightarrow> packet_obj list" where
  "rtes_of [] = []"
| "rtes_of (E_Auth _ # es) = rtes_of es"
| "rtes_of (E_Rte x # es) = x # rtes_of es"

definition rip_unpack :: "bytes \<Rightarrow> rip result" where
  "rip_unpack buf =
     rbind (class_unpack BE rip_hdr buf) (\<lambda>p.
     rbind (parse_loop rip_round (obj_data p)) (\<lambda>es.
       Inr \<lparr>rip_vals = obj_vals p, rip_auth = last_auth es None, rip_rtes = rtes_of es\<rparr>))"

definition rip_init :: "bytes \<Rightarrow> rip result" where
  "rip_init = packet_init (hdr_len rip_hdr) rip_unpack"

definition rip_bytes :: "rip \<Rightarrow> bytes result" where
  "rip_bytes r =
     rbind (case rip_auth r of None \<Rightarrow> Inr [] | Some a \<Rightarrow> class_bytes BE auth_hdr a) (\<lambda>a.
     rbind (packet_pack_hdr BE rip_hdr (rip_vals r)) (\<lambda>h.
     rbind (concat_result (class_bytes BE rte_hdr) (rip_rtes r)) (\<lambda>b. Inr (h @ a @ b))))"

definition rip_len :: "rip \<Rightarrow> nat" where
  "rip_len r =
     hdr_len rip_hdr + (case rip_auth r of None \<Rightarrow> 0 | Some a \<Rightarrow> class_len auth_hdr a) +
     sum_list (map (class_len rte_hdr) (rip_rtes r))"

section \<open>Entries\<close>

lemma rip_tables [simp]:
  "hdr_len rip_hdr = 4" "hdr_len rte_hdr = 20" "hdr_len auth_hdr = 20"
  "table_ok rip_hdr" "table_ok rte_hdr" "table_ok auth_hdr"
  by (simp_all add: rip_hdr_def rip_RTE_hdr_def rip_Auth_hdr_def table_ok_def fmt_ok_def hdr_fields_def)

definition rte_ok :: "packet_obj \<Rightarrow> bool" where
  "rte_ok p \<longleftrightarrow> exact_all (hdr_fmt rte_hdr) (obj_vals p) \<and> obj_data p = [] \<and>
     get_int rte_hdr ''family'' (obj_vals p) \<noteq> 0xFFFF"

definition auth_ok :: "packet_obj \<Rightarrow> bool" where
  "auth_ok p \<longleftrightarrow> exact_all (hdr_fmt auth_hdr) (obj_vals p) \<and> obj_data p = [] \<and>
     get_int auth_hdr ''rsvd'' (obj_vals p) = 0xFFFF"

definition entry_bytes :: "rip_entry \<Rightarrow> bytes result" where
  "entry_bytes e = (case e of E_Auth a \<Rightarrow> class_bytes BE auth_hdr a | E_Rte r \<Rightarrow> class_bytes BE rte_hdr r)"

definition rip_entry_ok :: "rip_entry \<Rightarrow> bool" where
  "rip_entry_ok e = (case e of E_Auth a \<Rightarrow> auth_ok a | E_Rte r \<Rightarrow> rte_ok r)"

lemma rte_family: "class_init BE rte_hdr b = Inr p \<Longrightarrow> get_int rte_hdr ''family'' (obj_vals p) = bytes_int BE (take 2 b)"
  using class_field_at_0 [of "''family''" 2 "VInt 2" "tl rte_hdr" BE b p]
  by (simp add: rip_RTE_hdr_def table_ok_def fmt_ok_def hdr_fields_def)

lemma auth_rsvd: "class_init BE auth_hdr b = Inr p \<Longrightarrow> get_int auth_hdr ''rsvd'' (obj_vals p) = bytes_int BE (take 2 b)"
  using class_field_at_0 [of "''rsvd''" 2 "VInt 65535" "tl auth_hdr" BE b p]
  by (simp add: rip_Auth_hdr_def table_ok_def fmt_ok_def hdr_fields_def)

lemma rip_round_short: "buf \<noteq> [] \<Longrightarrow> length buf < 20 \<Longrightarrow> rip_round buf = Fail NeedData"
  using packet_class.init_need_data [OF table_class, of rte_hdr BE "take 20 buf" NeedData]
  by (simp add: rip_round_def class_init_def class_unpack_def)

lemma rip_round_full: "20 \<le> length buf \<Longrightarrow> \<exists>e. rip_round buf = Item e (drop 20 buf)"
proof -
  assume l: "20 \<le> length buf"
  then obtain r a where "class_init BE rte_hdr (take 20 buf) = Inr r" "class_init BE auth_hdr (take 20 buf) = Inr a"
    using class_unpack_ok [of rte_hdr "take 20 buf" BE] class_unpack_ok [of auth_hdr "take 20 buf" BE] by auto
  then show "\<exists>e. rip_round buf = Item e (drop 20 buf)"
    using l by (cases buf) (auto simp: rip_round_def)
qed

interpretation rip_entries: item_round rip_round entry_bytes rip_entry_ok
proof
  fix buf x rest
  assume r: "rip_round buf = Item x rest"
  then have "rest = drop 20 buf" "buf \<noteq> []" by (auto simp: rip_round_def round_of_Item split: if_splits)
  then show "length rest < length buf" by (cases buf) auto
next
  fix e b rest
  assume e: "rip_entry_ok e" "entry_bytes e = Inr b"
  show "rip_round (b @ rest) = Item e rest"
  proof (cases e)
    case (E_Rte r)
    then have "length b = 20" "class_init BE rte_hdr b = Inr r" "get_int rte_hdr ''family'' (obj_vals r) \<noteq> 0xFFFF"
      using class_reads [of rte_hdr r b] e by (auto simp: rip_entry_ok_def rte_ok_def entry_bytes_def)
    then show ?thesis using E_Rte by (auto simp: rip_round_def)
  next
    case (E_Auth a)
    then have b: "length b = 20" "class_init BE auth_hdr b = Inr a" "bytes_int BE (take 2 b) = 0xFFFF"
      using class_reads [of auth_hdr a b] e auth_rsvd [of b a] by (auto simp: rip_entry_ok_def auth_ok_def entry_bytes_def)
    moreover obtain r where "class_init BE rte_hdr b = Inr r"
      using class_unpack_ok [of rte_hdr b BE] b by auto
    ultimately show ?thesis using E_Auth rte_family [of b r] by (auto simp: rip_round_def)
  qed
next
  show "rip_round [] = Stop" by (simp add: rip_round_def)
qed

lemma entries_of_rtes: "last_auth (map E_Rte rs) a = a \<and> rtes_of (map E_Rte rs) = rs"
  by (induction rs) auto

lemma entry_bytes_rtes: "concat_result entry_bytes (map E_Rte rs) = concat_result (class_bytes BE rte_hdr) rs"
  by (induction rs) (auto simp: entry_bytes_def)

section \<open>Properties\<close>

definition rip_ok :: "rip \<Rightarrow> bool" where
  "rip_ok r \<longleftrightarrow> exact_all (hdr_fmt rip_hdr) (rip_vals r) \<and>
     (case rip_auth r of None \<Rightarrow> True | Some a \<Rightarrow> auth_ok a) \<and> list_all rte_ok (rip_rtes r)"

text \<open>
  A RIP message whose entries fit their format, whose routes are not of the authentication
  family and whose authentication entry is, is read back from its bytes.
\<close>

theorem rip_roundtrip:
  assumes "rip_ok r" "rip_bytes r = Inr b"
  shows "rip_init b = Inr r"
proof -
  obtain a h c where p: "(case rip_auth r of None \<Rightarrow> Inr [] | Some a \<Rightarrow> class_bytes BE auth_hdr a) = Inr a"
    "packet_pack_hdr BE rip_hdr (rip_vals r) = Inr h"
    "concat_result (class_bytes BE rte_hdr) (rip_rtes r) = Inr c" "b = h @ a @ c"
    using assms(2) by (auto simp: rip_bytes_def rbind_Inr_iff)
  define es where "es = (case rip_auth r of None \<Rightarrow> [] | Some x \<Rightarrow> [E_Auth x]) @ map E_Rte (rip_rtes r)"
  have "list_all rip_entry_ok es" "concat_result entry_bytes es = Inr (a @ c)"
    using assms(1) p(1,3) entry_bytes_rtes [of "rip_rtes r"]
    by (auto simp: es_def rip_ok_def rip_entry_ok_def list_all_iff entry_bytes_def split: option.splits)
  then have l: "parse_loop rip_round (a @ c) = Inr es" by (rule rip_entries.loop_reads)
  obtain h' where h': "packet_bytes BE rip_hdr (rip_vals r) (a @ c) = Inr h'"
    "packet_unpack BE rip_hdr obj_make h' = Inr (obj_make (rip_vals r) (a @ c))"
    using packet_class.unpack_pack [OF table_class [OF rip_tables(4)], of "rip_vals r" BE "a @ c"] assms(1)
    by (auto simp: rip_ok_def)
  then have "class_unpack BE rip_hdr b = Inr (obj_make (rip_vals r) (a @ c))"
    using p(2,4) by (simp add: class_unpack_def packet_bytes_def)
  then show ?thesis
    using l entries_of_rtes by (cases r) (auto simp: rip_init_def rip_unpack_def packet_init_Inr obj_make_def es_def split: option.splits)
qed

lemma rip_loop_lengths:
  "if length buf mod 20 = 0 then \<exists>es. parse_loop rip_round buf = Inr es else parse_loop rip_round buf = Inl NeedData"
  by (rule loop_fixed_size) (simp_all add: rip_entries.stops rip_round_full rip_round_short)

lemma rip_init_lengths:
  "is_ok (rip_init buf) = (4 \<le> length buf \<and> (length buf - 4) mod 20 = 0) \<and>
   (\<not> is_ok (rip_init buf)) = (rip_init buf = Inl NeedData)"
proof (cases "4 \<le> length buf")
  case True
  obtain p where "class_unpack BE rip_hdr buf = Inr p" "obj_data p = drop 4 buf"
    using packet_class.unpack_total [OF table_class [OF rip_tables(4)], of buf BE] True
    by (auto simp: class_unpack_def obj_make_def)
  then show ?thesis
    using True rip_loop_lengths [of "drop 4 buf"]
    by (auto simp: rip_init_def rip_unpack_def packet_init_def split: if_splits)
next
  case False
  then show ?thesis
    using packet_unpack_short [of buf rip_hdr BE obj_make]
    by (simp add: rip_init_def rip_unpack_def class_unpack_def packet_init_def)
qed

text \<open>
  A RIP message is read exactly when it is a header and a whole number of entries; every other
  length is \<open>NeedData\<close>.
\<close>

theorem rip_lengths:
  "is_ok (rip_init buf) = (4 \<le> length buf \<and> (length buf - 4) mod 20 = 0) \<and>
   (\<not> is_ok (rip_init buf)) = (rip_init buf = Inl NeedData)"
  by (rule rip_init_lengths)

definition example_rip :: rip where
  "example_rip =
     \<lparr>rip_vals = map VInt [2, 2, 0],
      rip_auth = Some \<lparr>obj_vals = [VInt 0xFFFF, VInt 2, VBytes (zeros 16)], obj_data = []\<rparr>,
      rip_rtes = [\<lparr>obj_vals = map VInt [2, 0, 167772160, 4294967040, 0, 1], obj_data = []\<rparr>]\<rparr>"

theorem rip_roundtrip_witness: "\<exists>b. rip_bytes example_rip = Inr b \<and> rip_init b = Inr example_rip"
proof -
  have "rip_ok example_rip"
    by (simp add: rip_ok_def example_rip_def rip_hdr_def auth_ok_def rte_ok_def rip_Auth_hdr_def
        rip_RTE_hdr_def get_int_def hdr_fields_def)
  moreover obtain b where "rip_bytes example_rip = Inr b"
    by (simp add: rip_bytes_def example_rip_def rip_hdr_def rip_Auth_hdr_def rip_RTE_hdr_def
        class_bytes_def packet_bytes_def packet_pack_hdr_def)
  ultimately show ?thesis using rip_roundtrip [of example_rip b] by blast
qed

end
