(* ===== verification/Bgp.thy ===== *)
theory Bgp
  imports Tables
begin

text \<open>
  BGP, \<^verbatim>\<open>dpkt/bgp.py\<close>: the five messages, the parameters of an OPEN, the routes of the address
  families, and the path attributes of an UPDATE. An object of a class keeps the integers of its
  header and its data; the attributes that the code sets beside \<^verbatim>\<open>data\<close> with the same value
  (\<^verbatim>\<open>prefix\<close>, \<^verbatim>\<open>path\<close>, \<^verbatim>\<open>announced\<close>) are the data here.
\<close>

section \<open>Routes\<close>

record bgp_evpn =
  ev_type :: int
  ev_len :: int
  ev_route_data :: bytes
  ev_rd :: bytes
  ev_esi :: "bytes option"
  ev_eth_id :: "bytes option"
  ev_mac :: "(int \<times> bytes option) option"
  ev_ip :: "(int \<times> bytes option) option"
  ev_mpls :: "bytes option"

datatype bgp_route =
    RouteIPV4 int bytes
  | ExtendedRouteIPV4 int int bytes
  | RouteIPV6 int bytes
  | RouteGeneric int bytes
  | RouteEVPN bgp_evpn

text \<open>The prefix of a route: what is there of its octets, padded to the address.\<close>

definition pad_prefix :: "nat \<Rightarrow> int \<Rightarrow> bytes \<Rightarrow> bytes" where
  "pad_prefix n l d = (let tmp = take (prefix_bytes l) d in tmp @ zeros (n - length tmp))"

definition route4_init :: "bytes \<Rightarrow> bgp_route result" where
  "route4_init = packet_init 1 (\<lambda>buf.
     rbind (unpack_ints [fB] buf) (\<lambda>(h, d). Inr (RouteIPV4 (h ! 0) (pad_prefix 4 (h ! 0) d))))"

definition ext_route4_init :: "bytes \<Rightarrow> bgp_route result" where
  "ext_route4_init = packet_init 5 (\<lambda>buf.
     rbind (unpack_ints [fI, fB] buf) (\<lambda>(h, d).
       Inr (ExtendedRouteIPV4 (h ! 0) (h ! 1) (pad_prefix 4 (h ! 1) d))))"

definition route6_init :: "bytes \<Rightarrow> bgp_route result" where
  "route6_init = packet_init 1 (\<lambda>buf.
     rbind (unpack_ints [fB] buf) (\<lambda>(h, d). Inr (RouteIPV6 (h ! 0) (pad_prefix 16 (h ! 0) d))))"

definition route_generic_init :: "bytes \<Rightarrow> bgp_route result" where
  "route_generic_init = packet_init 1 (\<lambda>buf.
     rbind (unpack_ints [fB] buf) (\<lambda>(h, d). Inr (RouteGeneric (h ! 0) (take (prefix_bytes (h ! 0)) d))))"

text \<open>A length byte in front of an address: known lengths give the address, others none.\<close>

definition evpn_mac :: "bytes \<Rightarrow> ((int \<times> bytes option) \<times> bytes) result" where
  "evpn_mac buf =
     rbind (byte_at buf 0) (\<lambda>l.
       if l = 48 then Inr ((l, Some (take 6 (drop 1 buf))), drop 7 buf) else Inr ((l, None), drop 1 buf))"

definition evpn_ip :: "bytes \<Rightarrow> ((int \<times> bytes option) \<times> bytes) result" where
  "evpn_ip buf =
     rbind (byte_at buf 0) (\<lambda>l.
       if l = 128 then Inr ((l, Some (take 16 (drop 1 buf))), drop 17 buf)
       else if l = 32 then Inr ((l, Some (take 4 (drop 1 buf))), drop 5 buf)
       else Inr ((l, None), drop 1 buf))"

definition optional :: "bool \<Rightarrow> (bytes \<Rightarrow> ('a \<times> bytes) result) \<Rightarrow> bytes \<Rightarrow> ('a option \<times> bytes) result" where
  "optional c f buf = (if c then rbind (f buf) (\<lambda>(x, r). Inr (Some x, r)) else Inr (None, buf))"

definition split_at :: "nat \<Rightarrow> bytes \<Rightarrow> (bytes \<times> bytes) result" where
  "split_at n buf = Inr (take n buf, drop n buf)"

definition evpn_init :: "bytes \<Rightarrow> bgp_route result" where
  "evpn_init = packet_init 2 (\<lambda>buf.
     rbind (unpack_ints [fB, fB] buf) (\<lambda>(h, d).
       let t = h ! 0; l = h ! 1; rdata = take (nat l) d
       in rbind (split_at 8 rdata) (\<lambda>(rd, b1).
          rbind (optional (t \<noteq> 3) (split_at 10) b1) (\<lambda>(esi, b2).
          rbind (optional (t \<noteq> 4) (split_at 4) b2) (\<lambda>(eth, b3).
          rbind (optional (t = 2) evpn_mac b3) (\<lambda>(mac, b4).
          rbind (optional (t \<noteq> 1) evpn_ip b4) (\<lambda>(ip, b5).
            Inr (RouteEVPN \<lparr>ev_type = t, ev_len = l, ev_route_data = rdata, ev_rd = rd, ev_esi = esi,
                   ev_eth_id = eth, ev_mac = mac, ev_ip = ip,
                   ev_mpls = (if t = 1 \<or> t = 2
                     then Some (take 3 b5 @ (if int (length (drop 3 b5)) < l then take 3 (drop 3 b5) else []))
                     else None)\<rparr>)))))))) "

definition route_len :: "bgp_route \<Rightarrow> nat" where
  "route_len r =
     (case r of
        RouteIPV4 l _ \<Rightarrow> 1 + prefix_bytes l
      | ExtendedRouteIPV4 _ l _ \<Rightarrow> 5 + prefix_bytes l
      | RouteIPV6 l _ \<Rightarrow> 1 + prefix_bytes l
      | RouteGeneric _ p \<Rightarrow> 1 + length p
      | RouteEVPN e \<Rightarrow> 2 + nat (ev_len e))"

definition route_bytes :: "bgp_route \<Rightarrow> bytes result" where
  "route_bytes r =
     (case r of
        RouteIPV4 l p \<Rightarrow> rbind (hdr_ints [fB] [l]) (\<lambda>h. Inr (h @ take (prefix_bytes l) p))
      | ExtendedRouteIPV4 i l p \<Rightarrow> rbind (hdr_ints [fI, fB] [i, l]) (\<lambda>h. Inr (h @ take (prefix_bytes l) p))
      | RouteIPV6 l p \<Rightarrow> rbind (hdr_ints [fB] [l]) (\<lambda>h. Inr (h @ take (prefix_bytes l) p))
      | RouteGeneric l p \<Rightarrow> rbind (hdr_ints [fB] [l]) (\<lambda>h. Inr (h @ p))
      | RouteEVPN e \<Rightarrow> rbind (hdr_ints [fB, fB] [ev_type e, ev_len e]) (\<lambda>h. Inr (h @ ev_route_data e)))"

text \<open>The route class of an address family.\<close>

definition afi_route :: "int \<Rightarrow> bytes \<Rightarrow> bgp_route result" where
  "afi_route afi =
     (if afi = 1 then route4_init else if afi = 2 then route6_init
      else if afi = 25 then evpn_init else route_generic_init)"

section \<open>AS paths\<close>

text \<open>A segment, with four-byte numbers or two-byte ones.\<close>

record as_seg =
  sg_four :: bool
  sg_type :: int
  sg_len :: int
  sg_path :: "int list"

fun read_uints :: "nat \<Rightarrow> nat \<Rightarrow> bytes \<Rightarrow> int list result" where
  "read_uints k 0 buf = Inr []"
| "read_uints k (Suc n) buf =
     rbind (unpack_uint BE k (take k buf)) (\<lambda>i. rbind (read_uints k n (drop k buf)) (\<lambda>is. Inr (i # is)))"

definition seg_init :: "bytes \<Rightarrow> as_seg result" where
  "seg_init = packet_init 2 (\<lambda>buf.
     rbind (unpack_ints [fB, fB] buf) (\<lambda>(h, d). rbind (read_uints 2 (nat (h ! 1)) d) (\<lambda>p.
       Inr \<lparr>sg_four = False, sg_type = h ! 0, sg_len = h ! 1, sg_path = p\<rparr>)))"

text \<open>The four-byte class reads as many numbers as there are, up to the length.\<close>

definition seg4_init :: "bytes \<Rightarrow> as_seg result" where
  "seg4_init = packet_init 2 (\<lambda>buf.
     rbind (unpack_ints [fB, fB] buf) (\<lambda>(h, d).
       Inr \<lparr>sg_four = True, sg_type = h ! 0, sg_len = h ! 1,
            sg_path = take (nat (h ! 1)) (concat (rows BE [fI] d))\<rparr>))"

definition seg_size :: "as_seg \<Rightarrow> nat" where
  "seg_size s = 2 + (if sg_four s then 4 else 2) * length (sg_path s)"

definition seg_bytes :: "as_seg \<Rightarrow> bytes result" where
  "seg_bytes s =
     rbind (concat_result (pack_uint BE (if sg_four s then 4 else 2)) (sg_path s)) (\<lambda>p.
     rbind (hdr_ints [fB, fB] [sg_type s, sg_len s]) (\<lambda>h. Inr (h @ p)))"

text \<open>Four-byte numbers are assumed exactly when the path has six bytes.\<close>

definition as_path_init :: "bytes \<Rightarrow> as_seg list result" where
  "as_path_init = no_table_init (\<lambda>buf.
     parse_loop (item_step (if length buf = 6 then seg4_init else seg_init) seg_size) buf)"

section \<open>Attributes\<close>

record mp_reach =
  mr_afi :: int
  mr_safi :: int
  mr_next_hop :: bytes
  mr_next_hops :: "bytes list"
  mr_snpas :: "(int \<times> bytes) list"
  mr_announced :: "bgp_route list"

datatype bgp_community = Community int int bytes | ReservedCommunity int bytes

datatype attr_data =
    AD_Raw bytes
  | AD_Header "int list" bytes
  | AD_ASPath "as_seg list"
  | AD_AtomicAggregate
  | AD_Communities "bgp_community list"
  | AD_ClusterList "int list"
  | AD_MPReach mp_reach
  | AD_MPUnreach int int "bgp_route list"

text \<open>The attribute classes that are a header: origin, next hop, discriminator, preference, aggregator, originator.\<close>

definition attr_fmt :: "int \<Rightarrow> fmt list option" where
  "attr_fmt t =
     map_of [(1, [fB]), (3, [fI]), (4, [fI]), (5, [fI]), (7, [fH, fI]), (9, [fI])] t"

definition attr_header_init :: "fmt list \<Rightarrow> bytes \<Rightarrow> attr_data result" where
  "attr_header_init fs =
     packet_init (calcsize fs) (\<lambda>buf. rbind (unpack_ints fs buf) (\<lambda>(h, d). Inr (AD_Header h d)))"

definition community_init :: "bytes \<Rightarrow> bgp_community result" where
  "community_init buf =
     rbind (unpack_uint BE 4 (take 4 buf)) (\<lambda>v.
       if (0 \<le> v \<and> v \<le> 0x0000ffff) \<or> (0xffff0000 \<le> v \<and> v \<le> 0xffffffff)
       then rbind (unpack_ints [fI] (take 4 buf)) (\<lambda>(h, d). Inr (ReservedCommunity (h ! 0) d))
       else rbind (unpack_ints [fH, fH] (take 4 buf)) (\<lambda>(h, d). Inr (Community (h ! 0) (h ! 1) d)))"

definition community_size :: "bgp_community \<Rightarrow> nat" where
  "community_size c = (case c of Community _ _ d \<Rightarrow> 4 + length d | ReservedCommunity _ d \<Rightarrow> 4 + length d)"

definition community_bytes :: "bgp_community \<Rightarrow> bytes result" where
  "community_bytes c =
     (case c of
        Community a v d \<Rightarrow> rbind (hdr_ints [fH, fH] [a, v]) (\<lambda>h. Inr (h @ d))
      | ReservedCommunity v d \<Rightarrow> rbind (hdr_ints [fI] [v]) (\<lambda>h. Inr (h @ d)))"

definition communities_init :: "bytes \<Rightarrow> attr_data result" where
  "communities_init = no_table_init (\<lambda>buf.
     rbind (parse_loop (item_step community_init community_size) buf) (\<lambda>cs. Inr (AD_Communities cs)))"

definition cluster_init :: "bytes \<Rightarrow> attr_data result" where
  "cluster_init = no_table_init (\<lambda>buf.
     rbind (parse_loop (item_step (\<lambda>b. unpack_uint BE 4 (take 4 b)) (\<lambda>_. 4)) buf) (\<lambda>is.
       Inr (AD_ClusterList is)))"

text \<open>
  \<^verbatim>\<open>while nlen > 0\<close>: next hops of the family's size, however many bytes are left of the count
  and of the buffer.
\<close>

definition hop_init :: "nat \<Rightarrow> bytes \<Rightarrow> bytes result" where
  "hop_init n buf = Inr (take n buf)"

definition snpa_init :: "bytes \<Rightarrow> (int \<times> bytes) result" where
  "snpa_init = packet_init 1 (\<lambda>buf.
     rbind (unpack_ints [fB] buf) (\<lambda>(h, d). Inr (h ! 0, take (nat ((h ! 0 + 1) div 2)) d)))"

definition snpa_size :: "int \<times> bytes \<Rightarrow> nat" where
  "snpa_size s = 1 + length (snd s)"

definition snpa_bytes :: "int \<times> bytes \<Rightarrow> bytes result" where
  "snpa_bytes s = rbind (hdr_ints [fB] [fst s]) (\<lambda>h. Inr (h @ snd s))"

definition mp_reach_init :: "bytes \<Rightarrow> attr_data result" where
  "mp_reach_init = packet_init 3 (\<lambda>buf.
     rbind (unpack_ints [fH, fB] buf) (\<lambda>(h, d).
       let afi = h ! 0; hop_len = (if afi = 2 then 16 else 4)
       in rbind (unpack_uint BE 1 (take 1 d)) (\<lambda>nlen.
          rbind (parse_budget (hop_init hop_len) (\<lambda>_. hop_len) nlen (drop 1 d)) (\<lambda>(hops, d2).
          rbind (unpack_uint BE 1 (take 1 d2)) (\<lambda>n.
          rbind (parse_n snpa_init snpa_size (nat n) (drop 1 d2)) (\<lambda>(snpas, d3).
          rbind (parse_loop (item_step (afi_route afi) route_len) d3) (\<lambda>routes.
            Inr (AD_MPReach \<lparr>mr_afi = afi, mr_safi = h ! 1, mr_next_hop = take (nat nlen) (drop 1 d),
                   mr_next_hops = hops, mr_snpas = snpas, mr_announced = routes\<rparr>))))))))"

definition mp_unreach_init :: "bytes \<Rightarrow> attr_data result" where
  "mp_unreach_init = packet_init 3 (\<lambda>buf.
     rbind (unpack_ints [fH, fB] buf) (\<lambda>(h, d).
     rbind (parse_loop (item_step (afi_route (h ! 0)) route_len) d) (\<lambda>routes.
       Inr (AD_MPUnreach (h ! 0) (h ! 1) routes))))"

definition attr_data_init :: "int \<Rightarrow> bytes \<Rightarrow> attr_data result" where
  "attr_data_init t d =
     (if t = 2 then rbind (as_path_init d) (\<lambda>s. Inr (AD_ASPath s))
      else if t = 6 then Inr AD_AtomicAggregate
      else if t = 8 then communities_init d
      else if t = 10 then cluster_init d
      else if t = 14 then mp_reach_init d
      else if t = 15 then mp_unreach_init d
      else case attr_fmt t of Some fs \<Rightarrow> attr_header_init fs d | None \<Rightarrow> Inr (AD_Raw d))"

record bgp_attr =
  at_flags :: int
  at_type :: int
  at_len :: int
  at_data :: attr_data

definition flag_get :: "nat \<Rightarrow> int \<Rightarrow> int" where
  "flag_get n flags = drop_bit n flags AND 1"

definition flag_set :: "nat \<Rightarrow> int \<Rightarrow> int \<Rightarrow> int" where
  "flag_set n v flags = (flags AND NOT (push_bit n 1)) OR push_bit n (v AND 1)"

definition extended_length :: "int \<Rightarrow> bool" where
  "extended_length flags \<longleftrightarrow> flag_get 4 flags \<noteq> 0"

definition attr_init :: "bytes \<Rightarrow> bgp_attr result" where
  "attr_init = packet_init 2 (\<lambda>buf.
     rbind (unpack_ints [fB, fB] buf) (\<lambda>(h, d).
       let n = (if extended_length (h ! 0) then 2 else 1)
       in rbind (unpack_uint BE n (take n d)) (\<lambda>l.
          rbind (attr_data_init (h ! 1) (take (nat l) (drop n d))) (\<lambda>x.
            Inr \<lparr>at_flags = h ! 0, at_type = h ! 1, at_len = l, at_data = x\<rparr>))))"

definition attr_data_len :: "int \<Rightarrow> attr_data \<Rightarrow> nat" where
  "attr_data_len t x =
     (case x of
        AD_Raw d \<Rightarrow> length d
      | AD_Header _ d \<Rightarrow> calcsize (the (attr_fmt t)) + length d
      | AD_ASPath s \<Rightarrow> sum_list (map seg_size s)
      | AD_AtomicAggregate \<Rightarrow> 0
      | AD_Communities cs \<Rightarrow> sum_list (map community_size cs)
      | AD_ClusterList is \<Rightarrow> 4 * length is
      | AD_MPReach m \<Rightarrow> 3 + 1 + sum_list (map length (mr_next_hops m)) + 1 +
          sum_list (map snpa_size (mr_snpas m)) + sum_list (map route_len (mr_announced m))
      | AD_MPUnreach _ _ rs \<Rightarrow> 3 + sum_list (map route_len rs))"

definition attr_size :: "bgp_attr \<Rightarrow> nat" where
  "attr_size a = 2 + (if extended_length (at_flags a) then 2 else 1) + attr_data_len (at_type a) (at_data a)"

definition mp_reach_bytes :: "mp_reach \<Rightarrow> bytes result" where
  "mp_reach_bytes m =
     rbind (hdr_ints [fH, fB] [mr_afi m, mr_safi m]) (\<lambda>h.
     rbind (pack_uint BE 1 (int (sum_list (map length (mr_next_hops m))))) (\<lambda>a.
     rbind (pack_uint BE 1 (int (length (mr_snpas m)))) (\<lambda>b.
     rbind (concat_result snpa_bytes (mr_snpas m)) (\<lambda>c.
     rbind (concat_result route_bytes (mr_announced m)) (\<lambda>d.
       Inr (h @ a @ concat (mr_next_hops m) @ b @ c @ d))))))"

definition attr_data_bytes :: "int \<Rightarrow> attr_data \<Rightarrow> bytes result" where
  "attr_data_bytes t x =
     (case x of
        AD_Raw d \<Rightarrow> Inr d
      | AD_Header h d \<Rightarrow> rbind (hdr_ints (the (attr_fmt t)) h) (\<lambda>a. Inr (a @ d))
      | AD_ASPath s \<Rightarrow> concat_result seg_bytes s
      | AD_AtomicAggregate \<Rightarrow> Inr []
      | AD_Communities cs \<Rightarrow> concat_result community_bytes cs
      | AD_ClusterList is \<Rightarrow> concat_result (pack_uint BE 4) is
      | AD_MPReach m \<Rightarrow> mp_reach_bytes m
      | AD_MPUnreach afi safi rs \<Rightarrow>
          rbind (hdr_ints [fH, fB] [afi, safi]) (\<lambda>h. rbind (concat_result route_bytes rs) (\<lambda>b. Inr (h @ b))))"

definition attr_bytes :: "bgp_attr \<Rightarrow> bytes result" where
  "attr_bytes a =
     rbind (pack_uint BE (if extended_length (at_flags a) then 2 else 1) (at_len a)) (\<lambda>l.
     rbind (hdr_ints [fB, fB] [at_flags a, at_type a]) (\<lambda>h.
     rbind (attr_data_bytes (at_type a) (at_data a)) (\<lambda>b. Inr (h @ l @ b))))"

section \<open>Messages\<close>

datatype param_data = PD_Raw bytes | PD_Auth int bytes | PD_Cap int int bytes

record bgp_param =
  pm_type :: int
  pm_len :: int
  pm_data :: param_data

definition param_init :: "bytes \<Rightarrow> bgp_param result" where
  "param_init = packet_init 2 (\<lambda>buf.
     rbind (unpack_ints [fB, fB] buf) (\<lambda>(h, d0).
       let d = take (nat (h ! 1)) d0
       in rbind
            (if h ! 0 = 1 then packet_init 1 (\<lambda>b. rbind (unpack_ints [fB] b) (\<lambda>(k, e). Inr (PD_Auth (k ! 0) e))) d
             else if h ! 0 = 2 then packet_init 2 (\<lambda>b. rbind (unpack_ints [fB, fB] b) (\<lambda>(k, e).
                    Inr (PD_Cap (k ! 0) (k ! 1) (take (nat (k ! 1)) e)))) d
             else Inr (PD_Raw d)) (\<lambda>x. Inr \<lparr>pm_type = h ! 0, pm_len = h ! 1, pm_data = x\<rparr>)))"

definition param_size :: "bgp_param \<Rightarrow> nat" where
  "param_size p =
     2 + (case pm_data p of PD_Raw d \<Rightarrow> length d | PD_Auth _ d \<Rightarrow> 1 + length d | PD_Cap _ _ d \<Rightarrow> 2 + length d)"

definition param_bytes :: "bgp_param \<Rightarrow> bytes result" where
  "param_bytes p =
     rbind (hdr_ints [fB, fB] [pm_type p, pm_len p]) (\<lambda>h.
     rbind (case pm_data p of
              PD_Raw d \<Rightarrow> Inr d
            | PD_Auth c d \<Rightarrow> rbind (hdr_ints [fB] [c]) (\<lambda>a. Inr (a @ d))
            | PD_Cap c l d \<Rightarrow> rbind (hdr_ints [fB, fB] [c, l]) (\<lambda>a. Inr (a @ d))) (\<lambda>b. Inr (h @ b)))"

definition open_fmt :: "fmt list" where "open_fmt = [fB, fH, fH, fI, fB]"

datatype bgp_msg =
    BM_Raw bytes
  | BM_Open "int list" "bgp_param list"
  | BM_Update "bgp_route list" "bgp_attr list" "bgp_route list"
  | BM_Notification int int bytes
  | BM_Keepalive
  | BM_RouteRefresh "int list" bytes

definition open_init :: "bytes \<Rightarrow> bgp_msg result" where
  "open_init = packet_init 10 (\<lambda>buf.
     rbind (unpack_ints open_fmt buf) (\<lambda>(h, d).
     rbind (parse_budget param_init param_size (h ! 4) d) (\<lambda>(ps, _). Inr (BM_Open h ps))))"

text \<open>Announced routes: a path identifier is assumed whenever the bytes left are a multiple of nine.\<close>

definition announced_init :: "bytes \<Rightarrow> bgp_route result" where
  "announced_init buf = (if length buf mod 9 = 0 then ext_route4_init buf else route4_init buf)"

definition update_init :: "bytes \<Rightarrow> bgp_msg result" where
  "update_init = no_table_init (\<lambda>buf.
     rbind (unpack_uint BE 2 (take 2 buf)) (\<lambda>wlen.
     rbind (parse_budget route4_init route_len wlen (drop 2 buf)) (\<lambda>(withdrawn, d1).
     rbind (unpack_uint BE 2 (take 2 d1)) (\<lambda>plen.
     rbind (parse_budget attr_init attr_size plen (drop 2 d1)) (\<lambda>(attrs, d2).
     rbind (parse_loop (item_step announced_init route_len) d2) (\<lambda>announced.
       Inr (BM_Update withdrawn attrs announced)))))))"

definition notification_init :: "bytes \<Rightarrow> bgp_msg result" where
  "notification_init = packet_init 2 (\<lambda>buf.
     rbind (unpack_ints [fB, fB] buf) (\<lambda>(h, d). Inr (BM_Notification (h ! 0) (h ! 1) d)))"

definition refresh_fmt :: "fmt list" where "refresh_fmt = [fH, fB, fB]"

definition refresh_init :: "bytes \<Rightarrow> bgp_msg result" where
  "refresh_init = packet_init 4 (\<lambda>buf. rbind (unpack_ints refresh_fmt buf) (\<lambda>(h, d). Inr (BM_RouteRefresh h d)))"

definition bgp_msg_init :: "int \<Rightarrow> bytes \<Rightarrow> bgp_msg result" where
  "bgp_msg_init t d =
     (if t = 1 then open_init d else if t = 2 then update_init d else if t = 3 then notification_init d
      else if t = 4 then Inr BM_Keepalive else if t = 5 then refresh_init d else Inr (BM_Raw d))"

text \<open>
  The bytes of a message; an OPEN updates the length of its parameters, which is part of the new
  message in the result.
\<close>

definition bgp_msg_bytes :: "bgp_msg \<Rightarrow> (bytes \<times> bgp_msg) result" where
  "bgp_msg_bytes m =
     (case m of
        BM_Raw d \<Rightarrow> Inr (d, m)
      | BM_Open h ps \<Rightarrow>
          rbind (concat_result param_bytes ps) (\<lambda>b.
            let h' = h[4 := int (length b)]
            in rbind (hdr_ints open_fmt h') (\<lambda>a. Inr (a @ b, BM_Open h' ps)))
      | BM_Update w attrs ann \<Rightarrow>
          rbind (pack_uint BE 2 (int (sum_list (map route_len w)))) (\<lambda>a.
          rbind (concat_result route_bytes w) (\<lambda>b.
          rbind (pack_uint BE 2 (int (sum_list (map attr_size attrs)))) (\<lambda>c.
          rbind (concat_result attr_bytes attrs) (\<lambda>d.
          rbind (concat_result route_bytes ann) (\<lambda>e. Inr (a @ b @ c @ d @ e, m))))))
      | BM_Notification c s d \<Rightarrow> rbind (hdr_ints [fB, fB] [c, s]) (\<lambda>a. Inr (a @ d, m))
      | BM_Keepalive \<Rightarrow> Inr ([], m)
      | BM_RouteRefresh h d \<Rightarrow> rbind (hdr_ints refresh_fmt h) (\<lambda>a. Inr (a @ d, m)))"

definition bgp_msg_len :: "bgp_msg \<Rightarrow> nat" where
  "bgp_msg_len m =
     (case m of
        BM_Raw d \<Rightarrow> length d
      | BM_Open _ ps \<Rightarrow> 10 + sum_list (map param_size ps)
      | BM_Update w attrs ann \<Rightarrow>
          2 + sum_list (map route_len w) + 2 + sum_list (map attr_size attrs) + sum_list (map route_len ann)
      | BM_Notification _ _ d \<Rightarrow> 2 + length d
      | BM_Keepalive \<Rightarrow> 0
      | BM_RouteRefresh _ d \<Rightarrow> 4 + length d)"

section \<open>The packet\<close>

definition bgp_hdr :: hdr where
  "bgp_hdr =
    [(''marker'', Str 16, VStr (replicate 16 (char_of (255 :: nat)))), (''len'', fH, VInt 0), (''type'', fB, VInt 1)]"

record bgp =
  bgp_vals :: "pval list"
  bgp_data :: bgp_msg

definition bgp_unpack :: "bytes \<Rightarrow> bgp result" where
  "bgp_unpack buf =
     rbind (class_unpack BE bgp_hdr buf) (\<lambda>p.
       let d = py_upto (obj_data p) (get_int bgp_hdr ''len'' (obj_vals p) - 19)
       in rbind (bgp_msg_init (get_int bgp_hdr ''type'' (obj_vals p)) d) (\<lambda>m.
            Inr \<lparr>bgp_vals = obj_vals p, bgp_data = m\<rparr>))"

definition bgp_init :: "bytes \<Rightarrow> bgp result" where
  "bgp_init = packet_init (hdr_len bgp_hdr) bgp_unpack"

definition bgp_bytes :: "bgp \<Rightarrow> (bytes \<times> bgp) result" where
  "bgp_bytes r =
     rbind (packet_pack_hdr BE bgp_hdr (bgp_vals r)) (\<lambda>h.
     rbind (bgp_msg_bytes (bgp_data r)) (\<lambda>(b, m). Inr (h @ b, r\<lparr>bgp_data := m\<rparr>)))"

definition bgp_len :: "bgp \<Rightarrow> nat" where
  "bgp_len r = hdr_len bgp_hdr + bgp_msg_len (bgp_data r)"

section \<open>Reading back routes\<close>

text \<open>A route of a class: its prefix has the octets of its length and zeros up to the address.\<close>

definition prefix_ok :: "nat \<Rightarrow> int \<Rightarrow> bytes \<Rightarrow> bool" where
  "prefix_ok n l p \<longleftrightarrow> prefix_bytes l \<le> length p \<and> pad_prefix n l p = p"

definition afi_ok :: "int \<Rightarrow> bgp_route \<Rightarrow> bool" where
  "afi_ok afi r =
     (case r of
        RouteIPV4 l p \<Rightarrow> afi = 1 \<and> prefix_ok 4 l p
      | RouteIPV6 l p \<Rightarrow> afi = 2 \<and> prefix_ok 16 l p
      | RouteGeneric l p \<Rightarrow> afi \<notin> {1, 2, 25} \<and> length p = prefix_bytes l
      | RouteEVPN e \<Rightarrow> afi = 25 \<and> length (ev_route_data e) = nat (ev_len e) \<and>
          rbind (route_bytes r) evpn_init = Inr r
      | _ \<Rightarrow> False)"

lemma pad_prefix_append: "prefix_ok n l p \<Longrightarrow> pad_prefix n l (take (prefix_bytes l) p @ rest) = p"
  by (simp add: prefix_ok_def pad_prefix_def Let_def min_def)

lemma hdr_ints_reads:
  "hdr_ints fs xs = Inr b \<Longrightarrow> int_fmts fs \<Longrightarrow>
   length b = calcsize fs \<and> (\<forall>rest. unpack_ints fs (b @ rest) = Inr (xs, rest))"
  using hdr_ints_read by blast

lemma evpn_init_prefix:
  assumes "evpn_init (h @ d) = Inr (RouteEVPN e)" "hdr_ints [fB, fB] [ev_type e, ev_len e] = Inr h"
    "length d = nat (ev_len e)"
  shows "evpn_init (h @ d @ rest) = Inr (RouteEVPN e)"
proof -
  have "unpack_ints [fB, fB] (h @ d) = Inr ([ev_type e, ev_len e], d)"
    "unpack_ints [fB, fB] (h @ d @ rest) = Inr ([ev_type e, ev_len e], d @ rest)"
    using hdr_ints_read [OF assms(2)] by simp_all
  then show ?thesis using assms(1,3) by (simp add: evpn_init_def packet_init_Inr Let_def)
qed

interpretation afi: item_prefix "afi_route afi" route_len route_bytes "afi_ok afi" for afi
proof
  fix buf x
  assume "afi_route afi buf = Inr x"
  then show "0 < route_len x"
    by (auto simp: afi_route_def route4_init_def route6_init_def evpn_init_def route_generic_init_def route_len_def
        packet_init_Inr rbind_Inr_iff Let_def split: if_splits)
next
  fix x b rest
  assume x: "afi_ok afi x" "route_bytes x = Inr b"
  show "afi_route afi (b @ rest) = Inr x \<and> route_len x = length b"
  proof (cases x)
    case (RouteIPV4 l p)
    then show ?thesis
      using x by (auto simp: route_bytes_def afi_route_def afi_ok_def route4_init_def route_len_def rbind_Inr_iff
          packet_init_Inr pad_prefix_append prefix_ok_def dest!: hdr_ints_reads)
  next
    case (RouteIPV6 l p)
    then show ?thesis
      using x by (auto simp: route_bytes_def afi_route_def afi_ok_def route6_init_def route_len_def rbind_Inr_iff
          packet_init_Inr pad_prefix_append prefix_ok_def dest!: hdr_ints_reads)
  next
    case (RouteGeneric l p)
    then show ?thesis
      using x by (auto simp: route_bytes_def afi_route_def afi_ok_def route_generic_init_def route_len_def rbind_Inr_iff
          packet_init_Inr dest!: hdr_ints_reads)
  next
    case (RouteEVPN e)
    then obtain h where h: "hdr_ints [fB, fB] [ev_type e, ev_len e] = Inr h" "b = h @ ev_route_data e"
      using x(2) by (auto simp: route_bytes_def rbind_Inr_iff)
    then show ?thesis
      using x RouteEVPN evpn_init_prefix [OF _ h(1)] hdr_ints_read [OF h(1)]
      by (auto simp: route_bytes_def afi_route_def afi_ok_def route_len_def)
  qed (use x in \<open>simp add: afi_ok_def\<close>)
qed

lemma pad_prefix_ok: "prefix_bytes l \<le> length d \<Longrightarrow> prefix_ok n l (pad_prefix n l d)"
  by (simp add: prefix_ok_def pad_prefix_def Let_def)

section \<open>Reading back attributes\<close>

definition seg_ok :: "bool \<Rightarrow> as_seg \<Rightarrow> bool" where
  "seg_ok four s \<longleftrightarrow> sg_four s = four \<and> sg_len s = int (length (sg_path s))"

lemma read_uints_pack:
  "concat_result (pack_uint BE k) is = Inr b \<Longrightarrow> read_uints k (length is) (b @ rest) = Inr is \<and> length b = k * length is"
proof (induction "is" arbitrary: b)
  case (Cons i "is")
  obtain u v where uv: "pack_uint BE k i = Inr u" "concat_result (pack_uint BE k) is = Inr v" "b = u @ v"
    using Cons.prems by (auto simp: rbind_Inr_iff)
  then show ?case using Cons.IH [OF uv(2)] pack_uint_unpack [OF uv(1)] by simp
qed simp

lemma rows_uints:
  "concat_result (pack_uint BE 4) is = Inr b \<Longrightarrow> take (length is) (concat (rows BE [fI] (b @ rest))) = is \<and>
    length b = 4 * length is"
proof (induction "is" arbitrary: b)
  case (Cons i "is")
  obtain u v where uv: "pack_uint BE 4 i = Inr u" "concat_result (pack_uint BE 4) is = Inr v" "b = u @ v"
    using Cons.prems by (auto simp: rbind_Inr_iff)
  have "length u = 4" "bytes_int BE u = i" using pack_uint_unpack [OF uv(1)] by (auto simp: unpack_uint_def)
  then show ?case using Cons.IH [OF uv(2)] uv(3)
    by (simp add: rows_def chunks_append)
qed simp

interpretation segs: item_prefix seg_init seg_size seg_bytes "seg_ok False"
proof
  show "seg_init buf = Inr x \<Longrightarrow> 0 < seg_size x" for buf x by (simp add: seg_size_def)
next
  fix x b rest
  assume x: "seg_ok False x" "seg_bytes x = Inr b"
  then obtain p h where ph: "concat_result (pack_uint BE 2) (sg_path x) = Inr p"
    "hdr_ints [fB, fB] [sg_type x, sg_len x] = Inr h" "b = h @ p"
    by (auto simp: seg_bytes_def seg_ok_def rbind_Inr_iff)
  show "seg_init (b @ rest) = Inr x \<and> seg_size x = length b"
    using x(1) ph read_uints_pack [OF ph(1), of rest] hdr_ints_read [OF ph(2), of "p @ rest"]
    by (cases x) (auto simp: seg_init_def packet_init_Inr seg_ok_def seg_size_def)
qed

interpretation segs4: item_prefix seg4_init seg_size seg_bytes "seg_ok True"
proof
  show "seg4_init buf = Inr x \<Longrightarrow> 0 < seg_size x" for buf x by (simp add: seg_size_def)
next
  fix x b rest
  assume x: "seg_ok True x" "seg_bytes x = Inr b"
  then obtain p h where ph: "concat_result (pack_uint BE 4) (sg_path x) = Inr p"
    "hdr_ints [fB, fB] [sg_type x, sg_len x] = Inr h" "b = h @ p"
    by (auto simp: seg_bytes_def seg_ok_def rbind_Inr_iff)
  show "seg4_init (b @ rest) = Inr x \<and> seg_size x = length b"
    using x(1) ph rows_uints [OF ph(1), of rest] hdr_ints_read [OF ph(2), of "p @ rest"]
    by (cases x) (auto simp: seg4_init_def packet_init_Inr seg_ok_def seg_size_def)
qed

definition community_ok :: "bgp_community \<Rightarrow> bool" where
  "community_ok c =
     (case c of
        Community a _ d \<Rightarrow> a \<noteq> 0 \<and> a \<noteq> 0xffff \<and> d = []
      | ReservedCommunity v d \<Rightarrow> (v \<le> 0x0000ffff \<or> 0xffff0000 \<le> v) \<and> d = [])"

lemma bytes_int_be_append:
  "bytes_int BE (int_bytes BE m i @ int_bytes BE n j) = (i mod 256 ^ m) * 256 ^ n + j mod 256 ^ n"
proof -
  have "le_int (a @ b) = le_int a + 256 ^ length a * le_int b" for a b
    by (induction a) (auto simp: algebra_simps)
  then show ?thesis
    using be_int_be_bytes [of m i] be_int_be_bytes [of n j]
    by (simp add: bytes_int_def int_bytes_def be_int_def be_bytes_def)
qed

interpretation communities: item_prefix community_init community_size community_bytes community_ok
proof
  show "community_init buf = Inr x \<Longrightarrow> 0 < community_size x" for buf x
    by (simp add: community_size_def split: bgp_community.splits)
next
  fix x b rest
  assume x: "community_ok x" "community_bytes x = Inr b"
  show "community_init (b @ rest) = Inr x \<and> community_size x = length b"
  proof (cases x)
    case (Community a v d)
    then have h: "hdr_ints [fH, fH] [a, v] = Inr b" "a \<noteq> 0" "a \<noteq> 0xffff" "d = []"
      using x by (auto simp: community_bytes_def community_ok_def rbind_Inr_iff)
    have b: "b = int_bytes BE 2 a @ int_bytes BE 2 v" "0 \<le> a" "a < 256 ^ 2" "0 \<le> v" "v < 256 ^ 2"
      using h(1) by (auto simp: hdr_ints_def pack_row_def rbind_Inr_iff split: sum.splits if_splits)
    have "unpack_uint BE 4 (take 4 (b @ rest)) = Inr (a * 65536 + v)"
      using b bytes_int_be_append [of 2 a 2 v] by (simp add: unpack_uint_def)
    moreover have "unpack_ints [fH, fH] (take 4 (b @ rest)) = Inr ([a, v], [])"
      using hdr_ints_read [OF h(1), of "[]"] by simp
    moreover have "\<not> a * 65536 + v \<le> 65535" "\<not> 4294901760 \<le> a * 65536 + v" using b h by auto
    ultimately show ?thesis
      using Community h b by (simp add: community_init_def community_size_def)
  next
    case (ReservedCommunity v d)
    then have h: "hdr_ints [fI] [v] = Inr b" "v \<le> 0x0000ffff \<or> 0xffff0000 \<le> v" "d = []"
      using x by (auto simp: community_bytes_def community_ok_def rbind_Inr_iff)
    have b: "b = int_bytes BE 4 v" "0 \<le> v" "v < 256 ^ 4"
      using h(1) by (auto simp: hdr_ints_def pack_row_def rbind_Inr_iff split: sum.splits if_splits)
    have "unpack_uint BE 4 (take 4 (b @ rest)) = Inr v"
      using b by (simp add: unpack_uint_def bytes_int_int_bytes)
    moreover have "unpack_ints [fI] (take 4 (b @ rest)) = Inr ([v], [])"
      using hdr_ints_read [OF h(1), of "[]"] by simp
    ultimately show ?thesis
      using ReservedCommunity h b by (simp add: community_init_def community_size_def)
  qed
qed

interpretation clusters: item_prefix "\<lambda>b. unpack_uint BE 4 (take 4 b)" "\<lambda>_. 4" "pack_uint BE 4" "\<lambda>_. True"
  by unfold_locales (auto dest!: pack_uint_unpack)

interpretation snpas: item_prefix snpa_init snpa_size snpa_bytes "\<lambda>s. length (snd s) = nat ((fst s + 1) div 2)"
  by unfold_locales
    (auto simp: snpa_size_def snpa_bytes_def snpa_init_def rbind_Inr_iff packet_init_Inr dest!: hdr_ints_reads)

lemma hops_prefix: "0 < n \<Longrightarrow> item_prefix (hop_init n) (\<lambda>_. n) Inr (\<lambda>h. length h = n)"
  by unfold_locales (auto simp: hop_init_def)

definition path_ok :: "as_seg list \<Rightarrow> bool" where
  "path_ok ss \<longleftrightarrow> list_all (seg_ok (sum_list (map seg_size ss) = 6)) ss"

definition hop_size :: "int \<Rightarrow> nat" where
  "hop_size afi = (if afi = 2 then 16 else 4)"

definition mp_reach_ok :: "mp_reach \<Rightarrow> bool" where
  "mp_reach_ok m \<longleftrightarrow>
     list_all (\<lambda>h. length h = hop_size (mr_afi m)) (mr_next_hops m) \<and>
     mr_next_hop m = concat (mr_next_hops m) \<and>
     list_all (\<lambda>s. length (snd s) = nat ((fst s + 1) div 2)) (mr_snpas m) \<and>
     list_all (afi_ok (mr_afi m)) (mr_announced m)"

text \<open>A well-formed attribute: its data is of the class of its type, and its length is that of the data.\<close>

definition attr_data_ok :: "int \<Rightarrow> attr_data \<Rightarrow> bool" where
  "attr_data_ok t x =
     (case x of
        AD_Raw _ \<Rightarrow> attr_fmt t = None \<and> t \<notin> {2, 6, 8, 10, 14, 15}
      | AD_Header _ _ \<Rightarrow> attr_fmt t \<noteq> None
      | AD_ASPath ss \<Rightarrow> t = 2 \<and> path_ok ss
      | AD_AtomicAggregate \<Rightarrow> t = 6
      | AD_Communities cs \<Rightarrow> t = 8 \<and> list_all community_ok cs
      | AD_ClusterList is \<Rightarrow> t = 10
      | AD_MPReach m \<Rightarrow> t = 14 \<and> mp_reach_ok m
      | AD_MPUnreach afi _ rs \<Rightarrow> t = 15 \<and> list_all (afi_ok afi) rs)"

lemma as_path_reads:
  assumes "path_ok ss" "concat_result seg_bytes ss = Inr b"
  shows "as_path_init b = Inr ss \<and> length b = sum_list (map seg_size ss)"
proof (cases "sum_list (map seg_size ss) = 6")
  case True
  then have ok: "list_all (seg_ok True) ss" using assms(1) by (simp add: path_ok_def)
  show ?thesis
    using True segs4.sizes [OF ok assms(2)] segs4.loop_reads [OF ok assms(2)]
    by (simp add: as_path_init_def no_table_init_def)
next
  case False
  then have ok: "list_all (seg_ok False) ss" using assms(1) by (simp add: path_ok_def)
  show ?thesis
    using False segs.sizes [OF ok assms(2)] segs.loop_reads [OF ok assms(2)]
    by (simp add: as_path_init_def no_table_init_def)
qed

lemma hops_read:
  assumes "list_all (\<lambda>h. length h = n) hs" "0 < n"
  shows "parse_budget (hop_init n) (\<lambda>_. n) (int (length (concat hs))) (concat hs @ rest) = Inr (hs, rest)"
proof -
  have "concat_result Inr hs = Inr (concat hs)" by (induction hs) simp_all
  then show ?thesis using item_prefix.budget_reads [OF hops_prefix [OF assms(2)] assms(1)] by blast
qed

lemma mp_reach_reads:
  assumes "mp_reach_ok m" "mp_reach_bytes m = Inr b"
  shows "mp_reach_init b = Inr (AD_MPReach m) \<and> length b = attr_data_len t (AD_MPReach m)"
proof -
  obtain h u v c d where p: "hdr_ints [fH, fB] [mr_afi m, mr_safi m] = Inr h"
    "pack_uint BE 1 (int (sum_list (map length (mr_next_hops m)))) = Inr u"
    "pack_uint BE 1 (int (length (mr_snpas m))) = Inr v"
    "concat_result snpa_bytes (mr_snpas m) = Inr c" "concat_result route_bytes (mr_announced m) = Inr d"
    "b = h @ u @ concat (mr_next_hops m) @ v @ c @ d"
    using assms(2) by (auto simp: mp_reach_bytes_def rbind_Inr_iff)
  let ?hops = "concat (mr_next_hops m)"
  have ok: "list_all (\<lambda>s. length (snd s) = nat ((fst s + 1) div 2)) (mr_snpas m)" "list_all (afi_ok (mr_afi m)) (mr_announced m)"
    "list_all (\<lambda>h. length h = hop_size (mr_afi m)) (mr_next_hops m)" "mr_next_hop m = ?hops"
    using assms(1) by (simp_all add: mp_reach_ok_def)
  have h: "length h = 3" "unpack_ints [fH, fB] b = Inr ([mr_afi m, mr_safi m], u @ ?hops @ v @ c @ d)"
    using hdr_ints_read [OF p(1), of "u @ ?hops @ v @ c @ d"] p(6) by simp_all
  have uv: "length u = 1" "unpack_uint BE 1 u = Inr (int (length ?hops))"
    "length v = 1" "unpack_uint BE 1 v = Inr (int (length (mr_snpas m)))"
    using pack_uint_unpack [OF p(2)] pack_uint_unpack [OF p(3)] by (simp_all add: length_concat)
  have hops: "parse_budget (hop_init (hop_size (mr_afi m))) (\<lambda>_. hop_size (mr_afi m)) (int (length ?hops))
      (?hops @ v @ c @ d) = Inr (mr_next_hops m, v @ c @ d)"
    by (rule hops_read [OF ok(3)]) (simp add: hop_size_def)
  have sn: "parse_n snpa_init snpa_size (length (mr_snpas m)) (c @ d) = Inr (mr_snpas m, d)"
    by (rule snpas.n_reads [OF ok(1) p(4)])
  have rt: "parse_loop (item_step (afi_route (mr_afi m)) route_len) d = Inr (mr_announced m)"
    by (rule afi.loop_reads [OF ok(2) p(5)])
  have "mp_reach_init b = Inr (AD_MPReach m)"
    using h(2) uv hops sn rt ok(4)
    by (cases m) (simp add: mp_reach_init_def packet_init_Inr hop_size_def Let_def cong: if_cong)
  moreover have "length b = attr_data_len t (AD_MPReach m)"
    using h(1) uv p(6) snpas.sizes [OF ok(1) p(4)] afi.sizes [OF ok(2) p(5)]
    by (simp add: attr_data_len_def length_concat)
  ultimately show ?thesis by blast
qed

lemma attr_data_reads:
  assumes "attr_data_ok t x" "attr_data_bytes t x = Inr b"
  shows "attr_data_init t b = Inr x \<and> length b = attr_data_len t x"
proof (cases x)
  case (AD_Header h d)
  then obtain fs a where f: "attr_fmt t = Some fs" "hdr_ints fs h = Inr a" "b = a @ d"
    using assms by (auto simp: attr_data_ok_def attr_data_bytes_def rbind_Inr_iff)
  have t: "t \<in> {1, 3, 4, 5, 7, 9}" and i: "int_fmts fs"
    using f(1) by (auto simp: attr_fmt_def split: if_splits)
  have r: "length a = calcsize fs" "unpack_ints fs (a @ d) = Inr (h, d)" using hdr_ints_read [OF f(2) i] by auto
  have n: "t \<noteq> 2 \<and> t \<noteq> 6 \<and> t \<noteq> 8 \<and> t \<noteq> 10 \<and> t \<noteq> 14 \<and> t \<noteq> 15" using t by auto
  then show ?thesis
    using AD_Header f r by (simp add: attr_data_init_def attr_header_init_def packet_init_Inr attr_data_len_def)
next
  case (AD_ASPath ss)
  then show ?thesis
    using assms as_path_reads by (auto simp: attr_data_ok_def attr_data_bytes_def attr_data_init_def attr_data_len_def)
next
  case (AD_Communities cs)
  then show ?thesis
    using assms communities.loop_reads communities.sizes
    by (auto simp: attr_data_ok_def attr_data_bytes_def attr_data_init_def attr_data_len_def communities_init_def no_table_init_def)
next
  case (AD_ClusterList "is")
  have l: "list_all (\<lambda>_. True) is" by (simp add: list_all_iff)
  show ?thesis
    using AD_ClusterList assms clusters.loop_reads [OF l] clusters.sizes [OF l]
    by (auto simp: attr_data_ok_def attr_data_bytes_def attr_data_init_def attr_data_len_def cluster_init_def no_table_init_def
        sum_list_triv mult.commute)
next
  case (AD_MPReach m)
  then show ?thesis
    using assms mp_reach_reads [of m b t] by (simp add: attr_data_ok_def attr_data_bytes_def attr_data_init_def)
next
  case (AD_MPUnreach afi safi rs)
  then obtain h d where hd: "hdr_ints [fH, fB] [afi, safi] = Inr h" "concat_result route_bytes rs = Inr d" "b = h @ d"
    using assms(2) by (auto simp: attr_data_bytes_def rbind_Inr_iff)
  have ok: "list_all (afi_ok afi) rs" "t = 15" using assms(1) AD_MPUnreach by (simp_all add: attr_data_ok_def)
  show ?thesis
    using AD_MPUnreach ok hd(3) hdr_ints_read [OF hd(1), of d] afi.loop_reads [OF ok(1) hd(2)] afi.sizes [OF ok(1) hd(2)]
    by (simp add: attr_data_init_def mp_unreach_init_def packet_init_Inr attr_data_len_def)
qed (use assms in \<open>auto simp: attr_data_ok_def attr_data_bytes_def attr_data_init_def attr_data_len_def\<close>)

definition attr_ok :: "bgp_attr \<Rightarrow> bool" where
  "attr_ok a \<longleftrightarrow> attr_data_ok (at_type a) (at_data a) \<and> at_len a = int (attr_data_len (at_type a) (at_data a))"

interpretation attrs: item_prefix attr_init attr_size attr_bytes attr_ok
proof
  show "attr_init buf = Inr x \<Longrightarrow> 0 < attr_size x" for buf x by (simp add: attr_size_def)
next
  fix x b rest
  assume x: "attr_ok x" "attr_bytes x = Inr b"
  let ?n = "if extended_length (at_flags x) then 2 else 1 :: nat"
  obtain l h d where p: "pack_uint BE ?n (at_len x) = Inr l" "hdr_ints [fB, fB] [at_flags x, at_type x] = Inr h"
    "attr_data_bytes (at_type x) (at_data x) = Inr d" "b = h @ l @ d"
    using x(2) by (auto simp: attr_bytes_def rbind_Inr_iff)
  have d: "attr_data_init (at_type x) d = Inr (at_data x)" "length d = attr_data_len (at_type x) (at_data x)"
    using attr_data_reads [OF _ p(3)] x(1) by (auto simp: attr_ok_def)
  have l: "length l = ?n" "unpack_uint BE ?n l = Inr (int (length d))" using pack_uint_unpack [OF p(1)] x(1) d(2)
    by (auto simp: attr_ok_def)
  have h: "length h = 2" "unpack_ints [fB, fB] (b @ rest) = Inr ([at_flags x, at_type x], l @ d @ rest)"
    using hdr_ints_read [OF p(2), of "l @ d @ rest"] p(4) by simp_all
  have "attr_init (b @ rest) = Inr x"
    using h(2) l d x(1) by (cases x) (simp add: attr_init_def packet_init_Inr Let_def attr_ok_def)
  then show "attr_init (b @ rest) = Inr x \<and> attr_size x = length b"
    using p(4) h(1) l(1) d(2) by (simp add: attr_size_def)
qed

section \<open>Reading back messages\<close>

definition param_ok :: "bgp_param \<Rightarrow> bool" where
  "param_ok p \<longleftrightarrow> pm_len p = int (param_size p - 2) \<and>
     (case pm_data p of PD_Raw _ \<Rightarrow> pm_type p \<noteq> 1 \<and> pm_type p \<noteq> 2 | PD_Auth _ _ \<Rightarrow> pm_type p = 1
      | PD_Cap _ l d \<Rightarrow> pm_type p = 2 \<and> l = int (length d))"

interpretation params: item_prefix param_init param_size param_bytes param_ok
proof
  show "param_init buf = Inr x \<Longrightarrow> 0 < param_size x" for buf x by (simp add: param_size_def)
next
  fix x b rest
  assume x: "param_ok x" "param_bytes x = Inr b"
  obtain h d where hd: "hdr_ints [fB, fB] [pm_type x, pm_len x] = Inr h" "b = h @ d"
    "(case pm_data x of PD_Raw d \<Rightarrow> Inr d | PD_Auth c d \<Rightarrow> rbind (hdr_ints [fB] [c]) (\<lambda>a. Inr (a @ d))
      | PD_Cap c l d \<Rightarrow> rbind (hdr_ints [fB, fB] [c, l]) (\<lambda>a. Inr (a @ d))) = Inr d"
    using x(2) by (auto simp: param_bytes_def rbind_Inr_iff)
  have h: "length h = 2" "unpack_ints [fB, fB] (b @ rest) = Inr ([pm_type x, pm_len x], d @ rest)"
    using hdr_ints_read [OF hd(1), of "d @ rest"] hd(2) by simp_all
  have d: "length d + 2 = param_size x"
    using hd(3) by (auto simp: param_size_def rbind_Inr_iff split: param_data.splits dest!: hdr_ints_reads)
  then have t: "take (nat (pm_len x)) (d @ rest) = d" using x(1) by (simp add: param_ok_def)
  show "param_init (b @ rest) = Inr x \<and> param_size x = length b"
  proof (cases "pm_data x")
    case (PD_Raw r)
    then show ?thesis using h t d hd x(1)
      by (cases x) (simp add: param_init_def packet_init_Inr param_ok_def)
  next
    case (PD_Auth c r)
    then obtain a where a: "hdr_ints [fB] [c] = Inr a" "d = a @ r" using hd(3) by (auto simp: rbind_Inr_iff)
    show ?thesis using PD_Auth h t d hd(2) x(1) a(2) hdr_ints_read [OF a(1), of r]
      by (cases x) (simp add: param_init_def packet_init_def param_ok_def)
  next
    case (PD_Cap c l r)
    then obtain a where a: "hdr_ints [fB, fB] [c, l] = Inr a" "d = a @ r" using hd(3) by (auto simp: rbind_Inr_iff)
    show ?thesis using PD_Cap h t d hd(2) x(1) a(2) hdr_ints_read [OF a(1), of r]
      by (cases x) (simp add: param_init_def packet_init_def param_ok_def)
  qed
qed

text \<open>
  Announced routes that are read back: a route has a path identifier exactly when the bytes from it
  on are a multiple of nine.
\<close>

definition announced_route_ok :: "bgp_route \<Rightarrow> bool" where
  "announced_route_ok r =
     (case r of RouteIPV4 l p \<Rightarrow> prefix_ok 4 l p | ExtendedRouteIPV4 _ l p \<Rightarrow> prefix_ok 4 l p | _ \<Rightarrow> False)"

definition has_path_id :: "bgp_route \<Rightarrow> bool" where
  "has_path_id r = (case r of ExtendedRouteIPV4 _ _ _ \<Rightarrow> True | _ \<Rightarrow> False)"

fun announced_ok :: "bgp_route list \<Rightarrow> bool" where
  "announced_ok [] = True"
| "announced_ok (r # rs) =
     (announced_route_ok r \<and> (has_path_id r \<longleftrightarrow> sum_list (map route_len (r # rs)) mod 9 = 0) \<and> announced_ok rs)"

lemma route_bytes_length:
  "announced_route_ok r \<Longrightarrow> route_bytes r = Inr b \<Longrightarrow> length b = route_len r"
  by (auto simp: route_bytes_def route_len_def announced_route_ok_def prefix_ok_def rbind_Inr_iff
      split: bgp_route.splits dest!: hdr_ints_reads)

lemma announced_length:
  "announced_ok rs \<Longrightarrow> concat_result route_bytes rs = Inr b \<Longrightarrow> length b = sum_list (map route_len rs)"
  by (induction rs arbitrary: b) (auto simp: rbind_Inr_iff route_bytes_length)

lemma announced_route_read:
  assumes "announced_route_ok r" "route_bytes r = Inr b" "has_path_id r \<longleftrightarrow> length (b @ rest) mod 9 = 0"
  shows "item_step announced_init route_len (b @ rest) = Item r rest"
proof -
  have l: "length b = route_len r" by (rule route_bytes_length [OF assms(1,2)])
  have "announced_init (b @ rest) = Inr r"
  proof (cases r)
    case (RouteIPV4 n p)
    then show ?thesis using assms
      by (auto simp: announced_init_def has_path_id_def route_bytes_def announced_route_ok_def route4_init_def
          rbind_Inr_iff packet_init_Inr pad_prefix_append dest!: hdr_ints_reads)
  next
    case (ExtendedRouteIPV4 i n p)
    then show ?thesis using assms
      by (auto simp: announced_init_def has_path_id_def route_bytes_def announced_route_ok_def ext_route4_init_def
          rbind_Inr_iff packet_init_Inr pad_prefix_append dest!: hdr_ints_reads)
  qed (use assms(1) in \<open>simp_all add: announced_route_ok_def\<close>)
  moreover have "b \<noteq> []" using l by (auto simp: route_len_def split: bgp_route.splits)
  ultimately show ?thesis using l by (simp add: item_step_def)
qed

lemma announced_reads:
  "announced_ok rs \<Longrightarrow> concat_result route_bytes rs = Inr b \<Longrightarrow>
   parse_loop (item_step announced_init route_len) b = Inr rs"
proof (induction rs arbitrary: b)
  case Nil
  then show ?case by (simp add: parse_loop.simps [of _ "[]"] item_step_def)
next
  case (Cons r rs)
  obtain u v where uv: "route_bytes r = Inr u" "concat_result route_bytes rs = Inr v" "b = u @ v"
    using Cons.prems(2) by (auto simp: rbind_Inr_iff)
  have ok: "announced_route_ok r" "announced_ok rs" using Cons.prems(1) by simp_all
  have "length (u @ v) = sum_list (map route_len (r # rs))"
    using announced_length [OF Cons.prems] uv(3) by simp
  then have s: "item_step announced_init route_len b = Item r v"
    using announced_route_read [OF ok(1) uv(1), of v] Cons.prems(1) uv(3) by simp
  have "0 < length u" using route_bytes_length [OF ok(1) uv(1)] by (simp add: route_len_def split: bgp_route.splits)
  then show ?case using parse_loop_Item [of "item_step announced_init route_len", OF s] Cons.IH [OF ok(2) uv(2)] uv(3) by simp
qed

definition bgp_msg_type :: "bgp_msg \<Rightarrow> int option" where
  "bgp_msg_type m =
     (case m of BM_Raw _ \<Rightarrow> None | BM_Open _ _ \<Rightarrow> Some 1 | BM_Update _ _ _ \<Rightarrow> Some 2
      | BM_Notification _ _ _ \<Rightarrow> Some 3 | BM_Keepalive \<Rightarrow> Some 4 | BM_RouteRefresh _ _ \<Rightarrow> Some 5)"

definition bgp_msg_ok :: "bgp_msg \<Rightarrow> bool" where
  "bgp_msg_ok m =
     (case m of
        BM_Open h ps \<Rightarrow> length h = 5 \<and> list_all param_ok ps
      | BM_Update w attrs ann \<Rightarrow> list_all (afi_ok 1) w \<and> list_all attr_ok attrs \<and> announced_ok ann
      | _ \<Rightarrow> True)"

lemma update_reads:
  assumes "bgp_msg_ok (BM_Update w attrs ann)" "bgp_msg_bytes (BM_Update w attrs ann) = Inr (b, m)"
  shows "update_init b = Inr (BM_Update w attrs ann) \<and> length b = bgp_msg_len (BM_Update w attrs ann)"
proof -
  obtain u v x y z where p: "pack_uint BE 2 (int (sum_list (map route_len w))) = Inr u"
    "concat_result route_bytes w = Inr v" "pack_uint BE 2 (int (sum_list (map attr_size attrs))) = Inr x"
    "concat_result attr_bytes attrs = Inr y" "concat_result route_bytes ann = Inr z" "b = u @ v @ x @ y @ z"
    using assms(2) by (auto simp: bgp_msg_bytes_def rbind_Inr_iff)
  have ok: "list_all (afi_ok 1) w" "list_all attr_ok attrs" "announced_ok ann"
    using assms(1) by (simp_all add: bgp_msg_ok_def)
  have r: "route4_init = afi_route 1" by (simp add: afi_route_def)
  have w: "parse_budget route4_init route_len (int (length v)) (v @ x @ y @ z) = Inr (w, x @ y @ z)"
    "sum_list (map route_len w) = length v"
    using afi.budget_reads [OF ok(1) p(2)] afi.sizes [OF ok(1) p(2)] by (simp_all add: r)
  have a: "parse_budget attr_init attr_size (int (length y)) (y @ z) = Inr (attrs, z)"
    "sum_list (map attr_size attrs) = length y"
    using attrs.budget_reads [OF ok(2) p(4)] attrs.sizes [OF ok(2) p(4)] by simp_all
  have ux: "length u = 2" "unpack_uint BE 2 u = Inr (int (length v))"
    "length x = 2" "unpack_uint BE 2 x = Inr (int (length y))"
    using pack_uint_unpack [OF p(1)] pack_uint_unpack [OF p(3)] w(2) a(2) by simp_all
  have "update_init b = Inr (BM_Update w attrs ann)"
    using p(6) ux w(1) a(1) announced_reads [OF ok(3) p(5)] by (simp add: update_init_def no_table_init_def)
  then show ?thesis
    using p(6) ux w(2) a(2) announced_length [OF ok(3) p(5)] by (simp add: bgp_msg_len_def)
qed

lemma bgp_msg_reads:
  assumes "bgp_msg_ok m" "bgp_msg_bytes m = Inr (b, m')"
    "(case bgp_msg_type m of Some k \<Rightarrow> t = k | None \<Rightarrow> t \<notin> {1, 2, 3, 4, 5})"
  shows "bgp_msg_init t b = Inr m' \<and> length b = bgp_msg_len m"
proof (cases m)
  case (BM_Open h ps)
  then obtain c a where p: "concat_result param_bytes ps = Inr c" "hdr_ints open_fmt (h[4 := int (length c)]) = Inr a"
    "b = a @ c" "m' = BM_Open (h[4 := int (length c)]) ps"
    using assms(2) by (auto simp: bgp_msg_bytes_def rbind_Inr_iff Let_def)
  have ok: "length h = 5" "list_all param_ok ps" using assms(1) BM_Open by (simp_all add: bgp_msg_ok_def)
  have h: "length a = 10" "unpack_ints open_fmt (a @ c) = Inr (h[4 := int (length c)], c)"
    using hdr_ints_read [OF p(2), of c] by (simp_all add: open_fmt_def)
  show ?thesis
    using BM_Open p h ok(1) assms(3) params.budget_reads [OF ok(2) p(1), of "[]"] params.sizes [OF ok(2) p(1)]
    by (simp add: bgp_msg_init_def open_init_def packet_init_Inr bgp_msg_len_def bgp_msg_type_def)
next
  case (BM_Update w attrs ann)
  then show ?thesis
    using assms update_reads [of w attrs ann b m']
    by (auto simp: bgp_msg_init_def bgp_msg_type_def bgp_msg_bytes_def rbind_Inr_iff)
qed (use assms in \<open>auto simp: bgp_msg_bytes_def bgp_msg_init_def bgp_msg_type_def bgp_msg_len_def notification_init_def
    refresh_init_def refresh_fmt_def packet_init_Inr rbind_Inr_iff dest!: hdr_ints_reads\<close>)

section \<open>Properties\<close>

lemma bgp_tables [simp]: "hdr_len bgp_hdr = 19" "table_ok bgp_hdr"
  by (simp_all add: bgp_hdr_def table_ok_def fmt_ok_def hdr_fields_def)

definition bgp_ok :: "bgp \<Rightarrow> bool" where
  "bgp_ok r \<longleftrightarrow>
     exact_all (hdr_fmt bgp_hdr) (bgp_vals r) \<and> get_int bgp_hdr ''len'' (bgp_vals r) = int (bgp_len r) \<and>
     bgp_msg_ok (bgp_data r) \<and>
     (case bgp_msg_type (bgp_data r) of
        Some k \<Rightarrow> get_int bgp_hdr ''type'' (bgp_vals r) = k
      | None \<Rightarrow> get_int bgp_hdr ''type'' (bgp_vals r) \<notin> {1, 2, 3, 4, 5})"


text \<open>
  A list of plain IPv4 routes whose bytes are a multiple of nine - nine /24 routes, say - is not
  read back: the first is taken for a route with a path identifier.
\<close>

theorem bgp_announced_guess:
  assumes "rs \<noteq> []" "list_all (afi_ok 1) rs" "concat_result route_bytes rs = Inr b" "length b mod 9 = 0"
  shows "parse_loop (item_step announced_init route_len) b \<noteq> Inr rs"
proof -
  obtain r rs' where rs: "rs = r # rs'" using assms(1) by (cases rs) auto
  have "b \<noteq> []"
    using afi.sizes [OF assms(2,3)] assms(2) rs by (auto simp: route_len_def afi_ok_def split: bgp_route.splits)
  then have "9 \<le> length b" using assms(4) by (cases "length b < 9") auto
  then obtain i l p where e: "announced_init b = Inr (ExtendedRouteIPV4 i l p)"
    using assms(4) struct_unpack_exact [of "take 5 b" "[fI, fB]" BE]
    by (auto simp: announced_init_def ext_route4_init_def packet_init_def unpack_ints_def fmt_ok_def)
  let ?x = "ExtendedRouteIPV4 i l p"
  have s: "item_step announced_init route_len b = Item ?x (drop (route_len ?x) b)"
    using e \<open>b \<noteq> []\<close> by (simp add: item_step_def)
  have "length (drop (route_len ?x) b) < length b" using \<open>9 \<le> length b\<close> by (simp add: route_len_def)
  from parse_loop_Item [of "item_step announced_init route_len", OF s this]
  have "parse_loop (item_step announced_init route_len) b = Inr rs \<Longrightarrow> r = ?x"
    using rs by (auto simp: rbind_Inr_iff)
  then show ?thesis using assms(2) rs by (auto simp: afi_ok_def)
qed

text \<open>
  An AS path of one segment with two two-byte numbers has six bytes, so it is read as one
  four-byte number.
\<close>

theorem bgp_two_as_path_merged:
  assumes "seg_bytes \<lparr>sg_four = False, sg_type = t, sg_len = 2, sg_path = [a, c]\<rparr> = Inr b"
  shows "as_path_init b = Inr [\<lparr>sg_four = True, sg_type = t, sg_len = 2, sg_path = [65536 * a + c]\<rparr>]"
proof -
  obtain h where h: "hdr_ints [fB, fB] [t, 2] = Inr h" "b = h @ int_bytes BE 2 a @ int_bytes BE 2 c"
    and r: "0 \<le> a" "a < 256 ^ 2" "0 \<le> c" "c < 256 ^ 2"
    using assms by (auto simp: seg_bytes_def rbind_Inr_iff pack_uint_eq split: if_splits)
  let ?d = "int_bytes BE 2 a @ int_bytes BE 2 c" and ?s = "\<lparr>sg_four = True, sg_type = t, sg_len = 2, sg_path = [65536 * a + c]\<rparr>"
  have l: "length h = 2" "unpack_ints [fB, fB] b = Inr ([t, 2], ?d)"
    using hdr_ints_read [OF h(1), of ?d] h(2) by simp_all
  have "chunks 4 ?d = [?d]" using chunks_append [of ?d 4 "[]"] by (simp add: chunks_short)
  then have "concat (rows BE [fI] ?d) = [65536 * a + c]"
    using r bytes_int_be_append [of 2 a 2 c] by (simp add: rows_def)
  then have "seg4_init b = Inr ?s" using l(2) by (simp add: seg4_init_def packet_init_Inr)
  moreover have "length b = 6" "b \<noteq> []" using l(1) h(2) by auto
  ultimately have "item_step seg4_init seg_size b = Item ?s []" by (simp add: item_step_def seg_size_def)
  from parse_loop_Item [of "item_step seg4_init seg_size", OF this]
  have "parse_loop (item_step seg4_init seg_size) b = Inr [?s]"
    using \<open>length b = 6\<close> by (simp add: parse_loop_Stop item_step_def)
  then show ?thesis using \<open>length b = 6\<close> by (simp add: as_path_init_def no_table_init_def)
qed

text \<open>
  An UPDATE too short for its two counts cannot be read, and the constructor of the message ends
  with an \<open>AttributeError\<close>, which no handler of unpack errors catches.
\<close>

theorem bgp_short_update_crashes:
  assumes "class_unpack BE bgp_hdr buf = Inr p" "get_int bgp_hdr ''type'' (obj_vals p) = 2"
    and "get_int bgp_hdr ''len'' (obj_vals p) \<in> {19, 20}"
  shows "bgp_init buf = Inl AttributeError"
proof -
  have "length (take 2 (py_upto (obj_data p) (get_int bgp_hdr ''len'' (obj_vals p) - 19))) < 2"
    using assms(3) by (auto simp: py_upto_def)
  then show ?thesis
    using assms by (auto simp: bgp_init_def packet_init_def bgp_unpack_def bgp_msg_init_def update_init_def
      no_table_init_def unpack_uint_def Let_def)
qed

definition example_routes :: "nat \<Rightarrow> bgp_route list" where
  "example_routes n = map (\<lambda>i. RouteIPV4 24 [10, 0, word_of_nat i, 0]) [0..<n]"

definition example_update :: bgp where
  "example_update =
     \<lparr>bgp_vals = [VBytes (replicate 16 255), VInt 54, VInt 2],
      bgp_data = BM_Update [] [\<lparr>at_flags = 64, at_type = 1, at_len = 1, at_data = AD_Header [0] []\<rparr>,
        \<lparr>at_flags = 64, at_type = 2, at_len = 8,
          at_data = AD_ASPath [\<lparr>sg_four = False, sg_type = 2, sg_len = 3, sg_path = [500, 501, 65211]\<rparr>]\<rparr>,
        \<lparr>at_flags = 128, at_type = 8, at_len = 4, at_data = AD_Communities [Community 65215 1 []]\<rparr>,
        \<lparr>at_flags = 80, at_type = 6, at_len = 0, at_data = AD_AtomicAggregate\<rparr>]
        [RouteIPV4 16 [192, 168, 0, 0], RouteIPV4 8 [10, 0, 0, 0]]\<rparr>"

lemmas bgp_eval = bgp_msg_bytes_def hdr_ints_def pack_row_def route_bytes_def attr_bytes_def attr_data_bytes_def
  attr_fmt_def seg_bytes_def community_bytes_def pack_uint_eq extended_length_def flag_get_def attr_size_def
  attr_data_len_def seg_size_def community_size_def route_len_def prefix_bytes_def

lemma example_flags [simp]:
  "flag_get 4 64 = 0" "flag_get 4 128 = 0" "flag_get 4 80 = 1"
  by (simp_all add: flag_get_def drop_bit_int)

lemma example_prefixes: "prefix_ok 4 16 [192, 168, 0, 0]" "prefix_ok 4 8 [10, 0, 0, 0]"
  by (simp_all add: prefix_ok_def pad_prefix_def zeros_def prefix_bytes_def numeral_eq_Suc)


lemma example_routes_ok: "list_all (afi_ok 1) (example_routes 9)"
  by (simp add: example_routes_def afi_ok_def prefix_ok_def pad_prefix_def zeros_def prefix_bytes_def list_all_iff)

theorem bgp_announced_guess_witness:
  "\<exists>b. concat_result route_bytes (example_routes 9) = Inr b \<and>
     parse_loop (item_step announced_init route_len) b \<noteq> Inr (example_routes 9)"
proof -
  obtain b where b: "concat_result route_bytes (example_routes 9) = Inr b"
    by (simp add: example_routes_def route_bytes_def hdr_ints_def pack_row_def upt_rec)
  have "sum_list (map route_len (example_routes 9)) = 36"
    by (simp add: example_routes_def comp_def route_len_def prefix_bytes_def upt_rec)
  then have "length b = 36" using afi.sizes [OF example_routes_ok b] by simp
  then show ?thesis using bgp_announced_guess [OF _ example_routes_ok b] b by (simp add: example_routes_def)
qed

theorem bgp_two_as_path_merged_witness:
  "as_path_init [2, 2, 1, 244, 1, 245] =
     Inr [\<lparr>sg_four = True, sg_type = 2, sg_len = 2, sg_path = [32768501]\<rparr>]"
proof -
  have "seg_bytes \<lparr>sg_four = False, sg_type = 2, sg_len = 2, sg_path = [500, 501]\<rparr> = Inr [2, 2, 1, 244, 1, 245]"
    by (simp add: bgp_eval int_bytes_def be_bytes_def)
  from bgp_two_as_path_merged [OF this] show ?thesis by simp
qed

theorem bgp_short_update_crashes_witness:
  "bgp_init (replicate 16 255 @ [0, 20, 2, 0]) = Inl AttributeError"
proof -
  have "class_unpack BE bgp_hdr (replicate 16 255 @ [0, 20, 2, 0]) =
      Inr (obj_make [VBytes (replicate 16 255), VInt 20, VInt 2] [0])"
    by (simp add: class_unpack_def packet_unpack_def bgp_hdr_def struct_unpack_def bytes_int_def be_int_def)
  from bgp_short_update_crashes [OF this] show ?thesis
    by (simp add: obj_make_def get_int_def hdr_fields_def bgp_hdr_def)
qed

end
