(* ===== verification/Topology.thy ===== *)
theory Topology
  imports Isis Reassembler Ospf Eigrp Rip Bgp
begin

text \<open>
  Route topology reconstruction, \<^verbatim>\<open>dpkt/topology.py\<close>: the builder, its dispatch of IP packets to
  the extractors of OSPF, EIGRP, RIP, IS-IS and BGP, the stream reassembler it keeps for BGP, and
  \<open>build\<close>, which parses the reassembled streams.

  A step returns the new state and, when the code raises, the exception: what an extractor had
  added before is kept, as in the code. The dictionary of routers is an association list in
  insertion order. \<open>export_json\<close>, the repr methods and the unused class \<^verbatim>\<open>Area\<close> are left out.
\<close>

section \<open>Text of addresses\<close>

text \<open>\<^verbatim>\<open>repr\<close> of bytes, which \<^verbatim>\<open>str(inet)\<close> gives for lengths other than 4 and 16.\<close>

definition repr_byte :: "nat \<Rightarrow> byte \<Rightarrow> string" where
  "repr_byte quote b =
     (let c = unat b
      in if c = quote \<or> c = 92 then [char_of (92 :: nat), char_of c]
         else if c = 9 then [char_of (92 :: nat), CHR ''t'']
         else if c = 10 then [char_of (92 :: nat), CHR ''n'']
         else if c = 13 then [char_of (92 :: nat), CHR ''r'']
         else if c < 32 \<or> 127 \<le> c then [char_of (92 :: nat), CHR ''x''] @ hex2 b
         else [char_of c])"

definition repr_bytes :: "bytes \<Rightarrow> string" where
  "repr_bytes b =
     (let quote = (if 39 \<in> unat ` set b \<and> 34 \<notin> unat ` set b then 34 else 39)
      in ''b'' @ [char_of quote] @ concat (map (repr_byte quote) b) @ [char_of quote])"

text \<open>
  \<^verbatim>\<open>inet_ntop(AF_INET6, b)\<close>: hexadecimal groups, the first longest run of at least two zero
  groups shortened, and the last two groups dotted behind six zero groups or \<^verbatim>\<open>::ffff\<close>.
\<close>

fun hex_str :: "nat \<Rightarrow> string" where
  "hex_str n = (if n < 16 then [hex_digit n] else hex_str (n div 16) @ [hex_digit (n mod 16)])"

declare hex_str.simps [simp del]

definition groups6 :: "bytes \<Rightarrow> nat list" where
  "groups6 b = map (\<lambda>c. nat (bytes_int BE c)) (chunks 2 b)"

fun zero_run :: "nat list \<Rightarrow> nat" where
  "zero_run (0 # gs) = Suc (zero_run gs)"
| "zero_run _ = 0"

text \<open>The start and the length of the run to shorten, if there is one.\<close>

definition best_run :: "nat list \<Rightarrow> (nat \<times> nat) option" where
  "best_run gs =
     (let runs = map (\<lambda>i. (i, zero_run (drop i gs))) [0..<length gs]
      in case foldl (\<lambda>m r. if snd m < snd r then r else m) (0, 0) runs of
           (i, n) \<Rightarrow> if 2 \<le> n then Some (i, n) else None)"

definition ntop6_group :: "bytes \<Rightarrow> nat list \<Rightarrow> nat \<times> nat \<Rightarrow> nat \<Rightarrow> string" where
  "ntop6_group b gs run i =
     (let (base, n) = run
      in if base \<le> i \<and> i < base + n then (if i = base then '':'' else '''')
         else if i = 7 \<and> base = 0 \<and> (n = 6 \<or> (n = 5 \<and> gs ! 5 = 0xffff)) then ''''
         else (if i = 0 then '''' else '':'') @
              (if i = 6 \<and> base = 0 \<and> (n = 6 \<or> (n = 5 \<and> gs ! 5 = 0xffff))
               then join_str ''.'' (map (\<lambda>x. nat_str (unat x)) (drop 12 b))
               else hex_str (gs ! i)))"

definition inet_ntop6 :: "bytes \<Rightarrow> string" where
  "inet_ntop6 b =
     (let gs = groups6 b; run = (case best_run gs of Some r \<Rightarrow> r | None \<Rightarrow> (8, 0))
      in concat (map (ntop6_group b gs run) [0..<8]) @ (if fst run + snd run = 8 \<and> snd run \<noteq> 0 then '':'' else ''''))"

text \<open>\<^verbatim>\<open>_inet_to_str\<close> of bytes; of an integer it raises a \<open>TypeError\<close>.\<close>

definition inet_to_str :: "bytes \<Rightarrow> string" where
  "inet_to_str b =
     (if length b = 4 then join_str ''.'' (map (\<lambda>x. nat_str (unat x)) b)
      else if length b = 16 then inet_ntop6 b
      else repr_bytes b)"

definition int_str :: "int \<Rightarrow> string" where
  "int_str i = (if i < 0 then ''-'' @ nat_str (nat (- i)) else nat_str (nat i))"

text \<open>\<^verbatim>\<open>bin(n).count('1')\<close>, and the \<^verbatim>\<open>%02x\<close> bytes joined with colons.\<close>

function bit_count :: "nat \<Rightarrow> int" where
  "bit_count n = (if n = 0 then 0 else int (n mod 2) + bit_count (n div 2))"
  by pat_completeness auto
termination by (relation "measure id") auto

declare bit_count.simps [simp del]

definition system_id :: "bytes \<Rightarrow> string" where
  "system_id b = join_str '':'' (map hex2 b)"

section \<open>The builder\<close>

record router =
  rt_id :: string
  rt_name :: string
  rt_asn :: int
  rt_area :: string
  rt_protocols :: "string set"

record link =
  lk_src :: string
  lk_dst :: string
  lk_metric :: int
  lk_type :: string
  lk_protocol :: string

record prefix =
  px_network :: string
  px_mask :: int
  px_nexthop :: string
  px_metric :: int
  px_protocol :: string
  px_origin :: string

record topology =
  tp_routers :: "(string \<times> router) list"
  tp_links :: "link list"
  tp_prefixes :: "prefix list"
  tp_bgp :: "unit reassembler option"

definition new_topology :: topology where
  "new_topology = \<lparr>tp_routers = [], tp_links = [], tp_prefixes = [], tp_bgp = None\<rparr>"

definition new_router :: "string \<Rightarrow> router" where
  "new_router rid = \<lparr>rt_id = rid, rt_name = '''', rt_asn = 0, rt_area = '''', rt_protocols = {}\<rparr>"

text \<open>
  \<^verbatim>\<open>_get_router\<close>: the router is made when it is not known; a name, an area and an AS number that
  are not empty are stored. Every caller goes on to add its protocol: \<open>protocol_router\<close>.
\<close>

definition get_router :: "string \<Rightarrow> string \<Rightarrow> string \<Rightarrow> int \<Rightarrow> topology \<Rightarrow> topology" where
  "get_router rid name area asn t =
     (let r = (case map_of (tp_routers t) rid of Some r \<Rightarrow> r | None \<Rightarrow> new_router rid);
          r1 = (if name \<noteq> '''' then r\<lparr>rt_name := name\<rparr> else r);
          r2 = (if area \<noteq> '''' then r1\<lparr>rt_area := area\<rparr> else r1);
          r3 = (if asn \<noteq> 0 then r2\<lparr>rt_asn := asn\<rparr> else r2)
      in t\<lparr>tp_routers := AList.update rid r3 (tp_routers t)\<rparr>)"

definition add_protocol :: "string \<Rightarrow> string \<Rightarrow> topology \<Rightarrow> topology" where
  "add_protocol rid proto t =
     t\<lparr>tp_routers := map (\<lambda>(k, r). (k, if k = rid then r\<lparr>rt_protocols := insert proto (rt_protocols r)\<rparr> else r))
       (tp_routers t)\<rparr>"

definition add_link :: "link \<Rightarrow> topology \<Rightarrow> topology" where
  "add_link l t = t\<lparr>tp_links := tp_links t @ [l]\<rparr>"

definition add_prefix :: "prefix \<Rightarrow> topology \<Rightarrow> topology" where
  "add_prefix p t = t\<lparr>tp_prefixes := tp_prefixes t @ [p]\<rparr>"

type_synonym step = "topology \<times> exn option"

text \<open>A loop whose body may raise: what was done so far stays.\<close>

fun each :: "('a \<Rightarrow> topology \<Rightarrow> step) \<Rightarrow> 'a list \<Rightarrow> topology \<Rightarrow> step" where
  "each f [] t = (t, None)"
| "each f (x # xs) t = (case f x t of (t', None) \<Rightarrow> each f xs t' | (t', Some e) \<Rightarrow> (t', Some e))"

section \<open>Extractors\<close>

definition ospf_link_type :: "int \<Rightarrow> string" where
  "ospf_link_type t = (if t = 1 then ''p2p'' else if t = 2 then ''transit'' else ''stub'')"

text \<open>A row of a Router-LSA is id, data, type, tos, metric; one of a Network-LSA is the router.\<close>

definition ospf_router_link :: "string \<Rightarrow> int list \<Rightarrow> topology \<Rightarrow> step" where
  "ospf_router_link rid l t =
     (add_link \<lparr>lk_src = rid, lk_dst = int_str (l ! 0), lk_metric = l ! 4, lk_type = ospf_link_type (l ! 2),
                lk_protocol = ''ospf''\<rparr> t, None)"

definition ospf_network_link :: "string \<Rightarrow> int list \<Rightarrow> topology \<Rightarrow> step" where
  "ospf_network_link rid r t =
     (add_link \<lparr>lk_src = int_str (r ! 0), lk_dst = rid, lk_metric = 0, lk_type = ''transit'',
                lk_protocol = ''ospf''\<rparr> t, None)"

definition extract_lsa :: "string \<Rightarrow> lsa2 \<Rightarrow> topology \<Rightarrow> step" where
  "extract_lsa rid l t =
     (case lsa2_body l of
        LSARouter _ links \<Rightarrow> each (ospf_router_link rid) links t
      | LSANetwork _ routers \<Rightarrow> each (ospf_network_link rid) routers t
      | LSAASExternal m _ metric fwd _ _ \<Rightarrow>
          if fwd \<noteq> 0 then (t, Some TypeError)
          else
            (case pack_uint BE 4 (get_int lsa2_hdr ''id'' (lsa2_vals l)) of
               Inl e \<Rightarrow> (t, Some e)
             | Inr net \<Rightarrow>
                 (add_prefix \<lparr>px_network = inet_to_str net, px_mask = (if m = 0 then 0 else bit_count (nat \<bar>m\<bar>)),
                    px_nexthop = rid, px_metric = metric, px_protocol = ''ospf'', px_origin = ''external''\<rparr> t, None))
      | _ \<Rightarrow> (t, None))"

definition extract_ospf :: "bytes \<Rightarrow> ospf \<Rightarrow> topology \<Rightarrow> step" where
  "extract_ospf src o' t =
     (let rid = inet_to_str src;
          t1 = add_protocol rid ''ospf'' (get_router rid '''' (int_str (ospf_get ''area'' o')) 0 t)
      in case ospf_data o' of
           O_V2 (LSU _ ls) \<Rightarrow> each (extract_lsa rid) ls t1
         | _ \<Rightarrow> (t1, None))"

definition extract_eis :: "string \<Rightarrow> eis_reach \<Rightarrow> topology \<Rightarrow> step" where
  "extract_eis sid ra t =
     (add_link \<lparr>lk_src = sid, lk_dst = system_id (take 6 (eis_neighbor ra)), lk_metric = eis_metric ra,
        lk_type = ''p2p'', lk_protocol = ''isis''\<rparr> t, None)"

definition extract_ipr :: "string \<Rightarrow> ip_reach \<Rightarrow> topology \<Rightarrow> step" where
  "extract_ipr sid pfx t =
     (case unpack_uint BE 4 (ipr_mask pfx) of
        Inl e \<Rightarrow> (t, Some e)
      | Inr m \<Rightarrow>
          (add_prefix \<lparr>px_network = inet_to_str (ipr_prefix pfx), px_mask = bit_count (nat m), px_nexthop = sid,
             px_metric = ipr_default_metric pfx, px_protocol = ''isis'', px_origin = ''internal''\<rparr> t, None))"

definition extract_tlv :: "string \<Rightarrow> isis_tlv \<Rightarrow> topology \<Rightarrow> step" where
  "extract_tlv sid tlv t =
     (case tlv_view tlv of
        TV_EIS rs \<Rightarrow> each (extract_eis sid) rs t
      | TV_IP ps \<Rightarrow> each (extract_ipr sid) ps t
      | _ \<Rightarrow> (t, None))"

definition extract_isis :: "isis \<Rightarrow> topology \<Rightarrow> step" where
  "extract_isis i t =
     (case isis_data i of
        I_PDU (LSP _ _ _ lsp_id _ _ _ tlvs) \<Rightarrow>
          let sid = system_id (take 6 lsp_id)
          in each (extract_tlv sid) tlvs (add_protocol sid ''isis'' (get_router sid '''' '''' 0 t))
      | _ \<Rightarrow> (t, None))"

text \<open>RIP: the address of an entry is an integer, on which \<^verbatim>\<open>_inet_to_str\<close> raises.\<close>

definition extract_rte :: "packet_obj \<Rightarrow> topology \<Rightarrow> step" where
  "extract_rte e t = (t, Some TypeError)"

definition extract_rip :: "bytes \<Rightarrow> rip \<Rightarrow> topology \<Rightarrow> step" where
  "extract_rip src r t =
     (let rid = inet_to_str src
      in each extract_rte (rip_rtes r) (add_protocol rid ''rip'' (get_router rid '''' '''' 0 t)))"

definition extract_eigrp_tlv :: "string \<Rightarrow> eigrp_tlv \<Rightarrow> topology \<Rightarrow> step" where
  "extract_eigrp_tlv rid tlv t =
     (let route = (\<lambda>r. (add_prefix
            \<lparr>px_network = (if er_prefix r \<noteq> [] then inet_to_str (er_prefix r) else ''0.0.0.0''),
             px_mask = er_prefix_length r, px_nexthop = rid, px_metric = er_delay r, px_protocol = ''eigrp'',
             px_origin = ''internal''\<rparr> t, None))
      in case tlv of
           TlvInternal _ _ _ r \<Rightarrow> route r
         | TlvExternal _ _ _ r _ \<Rightarrow> route r
         | _ \<Rightarrow> (t, None))"

definition extract_eigrp :: "bytes \<Rightarrow> eigrp \<Rightarrow> topology \<Rightarrow> step" where
  "extract_eigrp src p t =
     (let rid = inet_to_str src;
          t1 = add_protocol rid ''eigrp'' (get_router rid '''' '''' (get_int eigrp_hdr ''asn'' (eigrp_vals p)) t)
      in case eigrp_data p of
           EI_Msg _ ts \<Rightarrow> each (extract_eigrp_tlv rid) ts t1
         | EI_Raw _ \<Rightarrow> (t1, None))"

text \<open>BGP: every route with a prefix, from the announced routes and from the MP_REACH attributes.\<close>

definition route_prefix :: "bgp_route \<Rightarrow> (int \<times> bytes) option" where
  "route_prefix r =
     (case r of RouteIPV4 l p \<Rightarrow> Some (l, p) | ExtendedRouteIPV4 _ l p \<Rightarrow> Some (l, p) | RouteIPV6 l p \<Rightarrow> Some (l, p)
      | RouteGeneric l p \<Rightarrow> Some (l, p) | RouteEVPN _ \<Rightarrow> None)"

definition extract_route :: "string \<Rightarrow> bgp_route \<Rightarrow> topology \<Rightarrow> topology" where
  "extract_route src r t =
     (case route_prefix r of
        Some (l, p) \<Rightarrow> add_prefix \<lparr>px_network = inet_to_str p, px_mask = l, px_nexthop = src, px_metric = 0,
          px_protocol = ''bgp'', px_origin = ''igp''\<rparr> t
      | None \<Rightarrow> t)"

definition extract_attr :: "string \<Rightarrow> bgp_attr \<Rightarrow> topology \<Rightarrow> topology" where
  "extract_attr src a t =
     (case at_data a of AD_MPReach m \<Rightarrow> foldl (\<lambda>t r. extract_route src r t) t (mr_announced m) | _ \<Rightarrow> t)"

definition extract_bgp :: "conn_ident \<Rightarrow> bgp \<Rightarrow> topology \<Rightarrow> topology" where
  "extract_bgp cid b t =
     (case bgp_data b of
        BM_Update _ attrs ann \<Rightarrow>
          let src = fst cid;
              t1 = add_protocol src ''bgp'' (get_router src '''' '''' 0 t);
              t2 = foldl (\<lambda>t r. extract_route src r t) t1 ann
          in foldl (\<lambda>t a. extract_attr src a t) t2 attrs
      | _ \<Rightarrow> t)"

section \<open>The public interface\<close>

text \<open>
  What \<open>process_packet\<close> tells apart: the data of the IP packet, and of the Ethernet frame
  whether it is LLC and its bytes, unless they were parsed already: \<^verbatim>\<open>ISIS\<close> of an object raises.
\<close>

datatype topo_data = TD_OSPF ospf | TD_EIGRP eigrp | TD_UDP udp | TD_TCP tcp | TD_Other

datatype eth_view = EV_LLC "bytes option" | EV_Other

definition feed_bgp_tcp :: "topo_data ip \<Rightarrow> tcp \<Rightarrow> topology \<Rightarrow> step" where
  "feed_bgp_tcp ip p t =
     (let r = (case tp_bgp t of Some r \<Rightarrow> r
               | None \<Rightarrow> new_reassembler 1000 (16 * 1024 * 1024) ''separate'' False)
      in case reasm_feed r ip p of
           Inr (r', _, _) \<Rightarrow> (t\<lparr>tp_bgp := Some r'\<rparr>, None)
         | Inl e \<Rightarrow> (t\<lparr>tp_bgp := Some r\<rparr>, Some e))"

definition process_packet :: "topo_data ip \<Rightarrow> eth_view option \<Rightarrow> topology \<Rightarrow> step" where
  "process_packet ip eth t =
     (let isis = (case eth of
            Some (EV_LLC (Some b)) \<Rightarrow>
              (case isis_init b of Inr i \<Rightarrow> (fst (extract_isis i t), None) | Inl _ \<Rightarrow> (t, None))
          | _ \<Rightarrow> (t, None))
      in case ip_data ip of
           TD_OSPF p \<Rightarrow> extract_ospf (ip_src ip) p t
         | TD_EIGRP p \<Rightarrow> extract_eigrp (ip_src ip) p t
         | TD_UDP u \<Rightarrow>
             if udp_sport u = 520 \<or> udp_dport u = 520
             then (case rip_init (udp_data u) of
                     Inr r \<Rightarrow> (fst (extract_rip (ip_src ip) r t), None)
                   | Inl _ \<Rightarrow> (t, None))
             else isis
         | TD_TCP p \<Rightarrow> if tcp_sport p = 179 \<or> tcp_dport p = 179 then feed_bgp_tcp ip p t else isis
         | TD_Other \<Rightarrow> isis)"

text \<open>
  \<open>build\<close>: the data of each direction is cut into messages; an exception ends the direction. A
  message without a length of its own has that of the object.
\<close>

definition bgp_round :: "bytes \<Rightarrow> bgp round" where
  "bgp_round data =
     (if data = [] \<or> length data < 19 then Stop
      else case bgp_init data of
             Inl _ \<Rightarrow> Stop
           | Inr m \<Rightarrow>
               let n = get_int bgp_hdr ''len'' (bgp_vals m)
               in Item m (if 0 < n then py_from data n else drop (bgp_len m) data))"

definition build_data :: "conn_ident \<Rightarrow> bytes \<Rightarrow> topology \<Rightarrow> topology" where
  "build_data cid data t =
     (case parse_loop bgp_round data of
        Inr ms \<Rightarrow> foldl (\<lambda>t m. extract_bgp cid m t) t ms
      | Inl _ \<Rightarrow> t)"

definition build_conn :: "topology \<Rightarrow> conn_ident \<times> connection \<Rightarrow> topology" where
  "build_conn t kc =
     (case kc of (cid, c) \<Rightarrow>
        let (d1, b1) = direction_get_data False (c2s c);
            (d2, b2) = direction_get_data False (s2c c);
            t1 = build_data cid d2 (build_data cid d1 t)
        in t1\<lparr>tp_bgp := map_option (\<lambda>r. r\<lparr>connections :=
             AList.update cid (c\<lparr>c2s := b1, s2c := b2\<rparr>) (connections r)\<rparr>) (tp_bgp t1)\<rparr>)"

definition build :: "topology \<Rightarrow> topology" where
  "build t = (case tp_bgp t of None \<Rightarrow> t | Some r \<Rightarrow> foldl build_conn t (connections r))"

definition get_prefix_table :: "topology \<Rightarrow> prefix list" where
  "get_prefix_table t = tp_prefixes t"

definition get_topology :: "topology \<Rightarrow> router list \<times> link list \<times> prefix list" where
  "get_topology t = (map snd (tp_routers t), tp_links t, tp_prefixes t)"

text \<open>Capturing: packets are processed one after the other; an exception ends the capture.\<close>

fun topo_run :: "(topo_data ip \<times> eth_view option) list \<Rightarrow> topology \<Rightarrow> step" where
  "topo_run [] t = (t, None)"
| "topo_run ((ip, eth) # ps) t =
     (case process_packet ip eth t of (t', None) \<Rightarrow> topo_run ps t' | (t', Some e) \<Rightarrow> (t', Some e))"

section \<open>The invariant of the builder\<close>

definition known :: "topology \<Rightarrow> string set" where
  "known t = fst ` set (tp_routers t)"

text \<open>The stream reassembler of the builder holds no data that a direction could deliver.\<close>

definition silent :: "unit reassembler \<Rightarrow> bool" where
  "silent r \<longleftrightarrow> reasm_inv r \<and> output_mode r = ''separate'' \<and> ra_fill_gaps r = False \<and>
     (\<forall>(k, c) \<in> set (connections r). contiguous (c2s c) = [] \<and> contiguous (s2c c) = [])"

text \<open>
  Routers are filed under their own id, once; every link has an end at a known router; the next
  hop of every prefix is a known router; no prefix comes from BGP.
\<close>

definition topo_inv :: "topology \<Rightarrow> bool" where
  "topo_inv t \<longleftrightarrow>
     distinct (map fst (tp_routers t)) \<and> (\<forall>(k, r) \<in> set (tp_routers t). rt_id r = k) \<and>
     (\<forall>l \<in> set (tp_links t). lk_src l \<in> known t \<or> lk_dst l \<in> known t) \<and>
     (\<forall>p \<in> set (tp_prefixes t). px_nexthop p \<in> known t \<and> px_protocol p \<noteq> ''bgp'') \<and>
     (case tp_bgp t of None \<Rightarrow> True | Some r \<Rightarrow> silent r)"

lemma topo_inv_new: "topo_inv new_topology"
  by (simp add: topo_inv_def new_topology_def)

lemma set_update_fst: "fst ` set (AList.update k v xs) = insert k (fst ` set xs)"
  by (induction xs) auto

lemma known_get_router [simp]: "known (get_router rid name area asn t) = insert rid (known t)"
  by (simp add: known_def get_router_def Let_def set_update_fst)

lemma known_add [simp]:
  "known (add_protocol rid p t) = known t" "known (add_link l t) = known t" "known (add_prefix x t) = known t"
  "known (t\<lparr>tp_bgp := b\<rparr>) = known t"
  by (auto simp: known_def add_protocol_def add_link_def add_prefix_def image_image case_prod_beta')

lemma get_router_fields [simp]:
  "tp_links (get_router rid name area asn t) = tp_links t"
  "tp_prefixes (get_router rid name area asn t) = tp_prefixes t"
  "tp_bgp (get_router rid name area asn t) = tp_bgp t"
  by (simp_all add: get_router_def Let_def)

text \<open>The router that \<open>get_router\<close> files.\<close>

definition the_router :: "string \<Rightarrow> string \<Rightarrow> string \<Rightarrow> int \<Rightarrow> topology \<Rightarrow> router" where
  "the_router rid name area asn t =
     (let r = (case map_of (tp_routers t) rid of Some r \<Rightarrow> r | None \<Rightarrow> new_router rid)
      in \<lparr>rt_id = rt_id r, rt_name = (if name \<noteq> '''' then name else rt_name r),
          rt_asn = (if asn \<noteq> 0 then asn else rt_asn r), rt_area = (if area \<noteq> '''' then area else rt_area r),
          rt_protocols = rt_protocols r\<rparr>)"

lemma get_router_eq:
  "get_router rid name area asn t = t\<lparr>tp_routers := AList.update rid (the_router rid name area asn t) (tp_routers t)\<rparr>"
  by (cases "case map_of (tp_routers t) rid of Some r \<Rightarrow> r | None \<Rightarrow> new_router rid")
    (simp add: get_router_def the_router_def Let_def)

lemma topo_inv_get_router:
  assumes "topo_inv t"
  shows "topo_inv (get_router rid name area asn t)"
proof -
  let ?r = "the_router rid name area asn t"
  have i: "rt_id ?r = rid"
    using assms by (auto simp: the_router_def Let_def new_router_def topo_inv_def split: option.splits dest!: map_of_SomeD)
  have "distinct (map fst (AList.update rid ?r (tp_routers t)))"
    using assms by (simp add: topo_inv_def distinct_update)
  moreover have "\<forall>(k, x) \<in> set (AList.update rid ?r (tp_routers t)). rt_id x = k"
    using set_update [of rid ?r "tp_routers t"] i assms by (fastforce simp: topo_inv_def)
  moreover have "tp_routers (get_router rid name area asn t) = AList.update rid ?r (tp_routers t)"
    by (simp add: get_router_eq)
  ultimately show ?thesis using assms by (auto simp: topo_inv_def)
qed

lemma topo_inv_add_protocol:
  assumes "topo_inv t"
  shows "topo_inv (add_protocol rid p t)"
proof -
  let ?u = "add_protocol rid p t"
  have m: "map fst (tp_routers ?u) = map fst (tp_routers t)"
    by (simp add: add_protocol_def comp_def case_prod_beta')
  have i: "\<forall>(k, r) \<in> set (tp_routers ?u). rt_id r = k"
    using assms by (auto simp: topo_inv_def add_protocol_def)
  have "tp_links ?u = tp_links t" "tp_prefixes ?u = tp_prefixes t" "tp_bgp ?u = tp_bgp t"
    by (simp_all add: add_protocol_def)
  then show ?thesis using assms i by (simp add: topo_inv_def m)
qed

lemma topo_inv_add_link: "topo_inv t \<Longrightarrow> lk_src l \<in> known t \<or> lk_dst l \<in> known t \<Longrightarrow> topo_inv (add_link l t)"
  by (auto simp: topo_inv_def add_link_def known_def)

lemma topo_inv_add_prefix:
  "topo_inv t \<Longrightarrow> px_nexthop x \<in> known t \<Longrightarrow> px_protocol x \<noteq> ''bgp'' \<Longrightarrow> topo_inv (add_prefix x t)"
  by (auto simp: topo_inv_def add_prefix_def known_def)

lemma each_inv:
  "(\<And>x t. P t \<Longrightarrow> P (fst (f x t))) \<Longrightarrow> P t \<Longrightarrow> P (fst (each f xs t))"
proof (induction xs arbitrary: t)
  case (Cons x xs)
  obtain t' e where f: "f x t = (t', e)" by fastforce
  have "P t'" using Cons.prems(1) [OF Cons.prems(2), of x] f by simp
  then show ?case using Cons.IH [OF Cons.prems(1)] f by (cases e) simp_all
qed simp

abbreviation inv_at :: "string \<Rightarrow> topology \<Rightarrow> bool" where
  "inv_at rid t \<equiv> topo_inv t \<and> rid \<in> known t"

lemma inv_at_router: "topo_inv t \<Longrightarrow> inv_at rid (add_protocol rid p (get_router rid name area asn t))"
  by (simp add: topo_inv_add_protocol topo_inv_get_router)

lemma extract_lsa_inv:
  assumes "inv_at rid t"
  shows "inv_at rid (fst (extract_lsa rid l t))"
proof (cases "lsa2_body l")
  case (LSARouter f links)
  have "inv_at rid (fst (each (ospf_router_link rid) links t))"
    by (rule each_inv [of "inv_at rid"]) (use assms in \<open>auto simp: ospf_router_link_def topo_inv_add_link\<close>)
  then show ?thesis using LSARouter by (simp add: extract_lsa_def)
next
  case (LSANetwork m rs)
  have "inv_at rid (fst (each (ospf_network_link rid) rs t))"
    by (rule each_inv [of "inv_at rid"]) (use assms in \<open>auto simp: ospf_network_link_def topo_inv_add_link\<close>)
  then show ?thesis using LSANetwork by (simp add: extract_lsa_def)
qed (use assms in \<open>auto simp: extract_lsa_def topo_inv_add_prefix split: sum.split\<close>)

lemma extract_ospf_inv: "topo_inv t \<Longrightarrow> topo_inv (fst (extract_ospf src p t))"
proof -
  assume t: "topo_inv t"
  let ?rid = "inet_to_str src"
  have "inv_at ?rid (fst (each (extract_lsa ?rid) ls
      (add_protocol ?rid ''ospf'' (get_router ?rid '''' (int_str (ospf_get ''area'' p)) 0 t))))" for ls
    by (rule each_inv [of "inv_at ?rid"]) (use extract_lsa_inv inv_at_router [OF t] in auto)
  then show ?thesis
    using inv_at_router [OF t] by (auto simp: extract_ospf_def Let_def split: ospf_data.split ospf_msg.split)
qed

lemma extract_tlv_inv:
  assumes "inv_at sid t"
  shows "inv_at sid (fst (extract_tlv sid x t))"
proof (cases "tlv_view x")
  case (TV_EIS rs)
  have "inv_at sid (fst (each (extract_eis sid) rs t))"
    by (rule each_inv [of "inv_at sid"]) (use assms in \<open>auto simp: extract_eis_def topo_inv_add_link\<close>)
  then show ?thesis using TV_EIS by (simp add: extract_tlv_def)
next
  case (TV_IP ps)
  have "inv_at sid (fst (each (extract_ipr sid) ps t))"
    by (rule each_inv [of "inv_at sid"]) (use assms in \<open>auto simp: extract_ipr_def topo_inv_add_prefix split: sum.split\<close>)
  then show ?thesis using TV_IP by (simp add: extract_tlv_def)
qed (use assms in \<open>simp_all add: extract_tlv_def\<close>)

lemma extract_isis_inv: "topo_inv t \<Longrightarrow> topo_inv (fst (extract_isis i t))"
proof -
  assume t: "topo_inv t"
  have "inv_at sid (fst (each (extract_tlv sid) tlvs (add_protocol sid ''isis'' (get_router sid '''' '''' 0 t))))" for sid tlvs
    by (rule each_inv [of "inv_at sid"]) (use extract_tlv_inv inv_at_router [OF t] in auto)
  then show ?thesis
    using t by (auto simp: extract_isis_def Let_def split: isis_data.split isis_pdu.split)
qed

lemma extract_rip_inv: "topo_inv t \<Longrightarrow> topo_inv (fst (extract_rip src r t))"
  using each_inv [of topo_inv extract_rte] topo_inv_add_protocol topo_inv_get_router
  by (simp add: extract_rip_def Let_def extract_rte_def)

lemma extract_eigrp_inv: "topo_inv t \<Longrightarrow> topo_inv (fst (extract_eigrp src p t))"
proof -
  assume t: "topo_inv t"
  let ?rid = "inet_to_str src"
  have x: "inv_at ?rid u \<Longrightarrow> inv_at ?rid (fst (extract_eigrp_tlv ?rid y u))" for y u
    by (auto simp: extract_eigrp_tlv_def Let_def topo_inv_add_prefix split: eigrp_tlv.split)
  have "inv_at ?rid (fst (each (extract_eigrp_tlv ?rid) ts
      (add_protocol ?rid ''eigrp'' (get_router ?rid '''' '''' (get_int eigrp_hdr ''asn'' (eigrp_vals p)) t))))" for ts
    by (rule each_inv [of "inv_at ?rid"]) (use x inv_at_router [OF t] in auto)
  then show ?thesis
    using inv_at_router [OF t] by (auto simp: extract_eigrp_def Let_def split: eigrp_data.split)
qed

text \<open>
  The reassembler of the builder runs in separate mode with no callback: every feed takes the
  delivered bytes out of both directions and gives them to nobody.
\<close>

lemma silent_new: "silent (new_reassembler 1000 (16 * 1024 * 1024) ''separate'' False)"
  by (simp add: silent_def new_reassembler_def reasm_inv_def len_def)

lemma get_data_contiguous: "direction_get_data False b = (x, b') \<Longrightarrow> x = contiguous b \<and> contiguous b' = []"
  by (auto simp: direction_get_data_def)

lemma silent_deliver:
  assumes "deliver r c = (c', evs)" "output_mode r = ''separate''" "\<not> ra_fill_gaps r"
  shows "contiguous (c2s c') = [] \<and> contiguous (s2c c') = []"
  using assms by (auto simp: deliver_def Let_def direction_get_data_def)

lemma reasm_conn_connections:
  assumes "reasm_conn k r = (c, r1)" "reasm_inv r"
  shows "set (connections r1) \<subseteq> insert (k, case k of (si, sp, di, dp) \<Rightarrow> new_connection si sp di dp) (set (connections r))"
proof (cases "map_of (connections r) k")
  case None
  have "set (connections (evict_one r)) \<subseteq> set (connections r)"
    using evict_one_props [of r] assms(2) by (cases "connections r") (auto simp: reasm_inv_def evict_one_def)
  then show ?thesis
    using assms(1) None set_update [of k] by (fastforce simp: reasm_conn_def Let_def split: if_splits)
qed (use assms in \<open>auto simp: reasm_conn_def\<close>)

lemma silent_feed:
  assumes s: "silent r" and f: "reasm_feed r ip p = Inr (r', c', evs)"
  shows "silent r'"
proof -
  have inv: "reasm_inv r" using s by (simp add: silent_def)
  obtain k c r1 c1 where
    c: "reasm_conn k r = (c, r1)" "key_ordered k" "conn_ok k c'" "deliver r1 c1 = (c', evs)"
       "r' = r1\<lparr>connections := AList.update k c' (connections r1)\<rparr>"
    using f inv by (cases rule: reasm_feed_cases) (auto simp: conn_ok_def)
  have r1: "output_mode r1 = ''separate''" "\<not> ra_fill_gaps r1"
    using reasm_conn_inv [OF inv c(2,1)] s by (auto simp: silent_def)
  have "\<forall>(k, c) \<in> set (connections r1). contiguous (c2s c) = [] \<and> contiguous (s2c c) = []"
    using reasm_conn_connections [OF c(1) inv] s
    by (fastforce simp: silent_def new_connection_def new_direction_def split: prod.splits)
  then have "\<forall>(k, c) \<in> set (connections r'). contiguous (c2s c) = [] \<and> contiguous (s2c c) = []"
    using set_update [of k c' "connections r1"] silent_deliver [OF c(4) r1] c(5) by fastforce
  moreover have "reasm_inv r'" using reasm_feed_inv [OF f inv] by simp
  ultimately show ?thesis using r1 c(5) by (simp add: silent_def)
qed

lemma feed_bgp_tcp_inv:
  assumes "topo_inv t"
  shows "topo_inv (fst (feed_bgp_tcp ip p t))"
proof -
  define r where "r = (case tp_bgp t of Some r \<Rightarrow> r
    | None \<Rightarrow> new_reassembler 1000 (16 * 1024 * 1024) ''separate'' False)"
  have s: "silent r" using assms silent_new by (auto simp: r_def topo_inv_def split: option.splits)
  have set: "topo_inv (t\<lparr>tp_bgp := Some r'\<rparr>)" if "silent r'" for r'
    using assms that by (simp add: topo_inv_def known_def)
  show ?thesis
  proof (cases "reasm_feed r ip p")
    case (Inl e)
    then show ?thesis using set [OF s] by (simp add: feed_bgp_tcp_def Let_def r_def [symmetric])
  next
    case (Inr x)
    then obtain r' c' evs where f: "reasm_feed r ip p = Inr (r', c', evs)" by (cases x) auto
    show ?thesis using set [OF silent_feed [OF s f]] f by (simp add: feed_bgp_tcp_def Let_def r_def [symmetric])
  qed
qed

lemma builder_packet_inv:
  assumes "topo_inv t"
  shows "topo_inv (fst (process_packet ip eth t))"
proof -
  define i where "i = (case eth of
            Some (EV_LLC (Some b)) \<Rightarrow>
              (case isis_init b of Inr i \<Rightarrow> (fst (extract_isis i t), None) | Inl _ \<Rightarrow> (t, None))
          | _ \<Rightarrow> (t, None :: exn option))"
  have "topo_inv (fst i)"
    using extract_isis_inv [OF assms] assms
    by (auto simp: i_def split: option.split eth_view.split sum.split)
  then show ?thesis
    using extract_ospf_inv [OF assms] extract_eigrp_inv [OF assms] extract_rip_inv [OF assms]
      feed_bgp_tcp_inv [OF assms] assms
    by (auto simp: process_packet_def i_def [symmetric] split: topo_data.split sum.split)
qed

lemma topo_run_inv: "topo_inv t \<Longrightarrow> topo_inv (fst (topo_run ps t))"
proof (induction ps t rule: topo_run.induct)
  case (2 ip eth ps t)
  obtain t' e where p: "process_packet ip eth t = (t', e)" by fastforce
  have "topo_inv t'" using builder_packet_inv [OF 2(2), of ip eth] p by simp
  then show ?case using 2(1) [OF p [symmetric]] p by (cases e) simp_all
qed simp

text \<open>Building over a silent reassembler finds no message in any connection.\<close>

lemma build_data_nil [simp]: "build_data cid [] t = t"
  by (simp add: build_data_def parse_loop.simps bgp_round_def)

abbreviation same_graph :: "topology \<Rightarrow> topology \<Rightarrow> bool" where
  "same_graph t u \<equiv> tp_routers t = tp_routers u \<and> tp_links t = tp_links u \<and> tp_prefixes t = tp_prefixes u"

lemma build_conn_silent:
  assumes "contiguous (c2s c) = []" "contiguous (s2c c) = []"
  shows "same_graph (build_conn t (k, c)) t"
  using assms by (simp add: build_conn_def Let_def direction_get_data_def)

lemma build_silent:
  assumes "topo_inv t"
  shows "same_graph (build t) t"
proof (cases "tp_bgp t")
  case (Some r)
  have s: "\<forall>(k, c) \<in> set (connections r). contiguous (c2s c) = [] \<and> contiguous (s2c c) = []"
    using assms Some by (simp add: topo_inv_def silent_def)
  have "\<forall>(k, c) \<in> set kcs. contiguous (c2s c) = [] \<and> contiguous (s2c c) = [] \<Longrightarrow>
      same_graph (foldl build_conn u kcs) u" for kcs u
  proof (induction kcs arbitrary: u)
    case (Cons kc kcs)
    obtain k c where "kc = (k, c)" by fastforce
    then show ?case using Cons build_conn_silent [of c u k] by auto
  qed simp
  from this [OF s] show ?thesis using Some by (simp add: build_def)
qed (simp add: build_def)

section \<open>Properties\<close>

text \<open>
  C9: whatever packets are captured, the topology that comes out is consistent: router ids are
  distinct, every link has an end at one of the routers and the next hop of every prefix is one of
  them.
\<close>

theorem topology_consistent:
  "let (rs, ls, xs) = get_topology (build (fst (topo_run ps new_topology)))
   in distinct (map rt_id rs) \<and>
      list_all (\<lambda>l. lk_src l \<in> rt_id ` set rs \<or> lk_dst l \<in> rt_id ` set rs) ls \<and>
      list_all (\<lambda>x. px_nexthop x \<in> rt_id ` set rs) xs"
proof -
  let ?t = "fst (topo_run ps new_topology)"
  have i: "topo_inv ?t" by (rule topo_run_inv [OF topo_inv_new])
  have ids: "map rt_id (map snd (tp_routers ?t)) = map fst (tp_routers ?t)"
    using i by (auto simp: topo_inv_def)
  then have "rt_id ` set (map snd (tp_routers ?t)) = known ?t"
    unfolding known_def by (metis list.set_map)
  moreover have "distinct (map rt_id (map snd (tp_routers ?t)))"
    using i unfolding ids by (simp add: topo_inv_def)
  ultimately show ?thesis
    using i build_silent [OF i] by (auto simp: get_topology_def topo_inv_def list_all_iff)
qed

text \<open>
  C39: no BGP route is ever extracted. The reassembler of the builder delivers the bytes of each
  segment to its callbacks as soon as they are in order, and there are none: \<open>build\<close> finds both
  directions of every connection empty and changes nothing.
\<close>

theorem topology_bgp_never_extracted:
  "let t = fst (topo_run ps new_topology)
   in get_topology (build t) = get_topology t \<and>
      filter (\<lambda>x. px_protocol x = ''bgp'') (get_prefix_table (build t)) = []"
proof -
  let ?t = "fst (topo_run ps new_topology)"
  have i: "topo_inv ?t" by (rule topo_run_inv [OF topo_inv_new])
  then have "filter (\<lambda>x. px_protocol x = ''bgp'') (tp_prefixes ?t) = []"
    by (auto simp: topo_inv_def filter_empty_conv)
  then show ?thesis using build_silent [OF i] by (simp add: get_topology_def get_prefix_table_def)
qed

text \<open>
  A RIP packet adds its sender to the routers and nothing else, whatever routes it carries:
  the text of an integer address raises on the first of them and the exception is dropped.
\<close>

theorem topology_rip_no_prefix:
  assumes "ip_data ip = TD_UDP u" "udp_sport u = 520 \<or> udp_dport u = 520" "rip_init (udp_data u) = Inr r"
  shows "tp_prefixes (fst (process_packet ip eth t)) = tp_prefixes t \<and>
    tp_links (fst (process_packet ip eth t)) = tp_links t \<and>
    inet_to_str (ip_src ip) \<in> known (fst (process_packet ip eth t)) \<and> snd (process_packet ip eth t) = None"
proof -
  have e: "fst (each extract_rte es u) = u" for es u
    by (cases es) (simp_all add: extract_rte_def)
  show ?thesis
    using assms by (auto simp: process_packet_def extract_rip_def Let_def e)
      (simp_all add: add_protocol_def)
qed

definition example_rip_bytes :: bytes where
  "example_rip_bytes = [2, 2, 0, 0] @ [0, 2, 0, 0, 192, 168, 1, 0, 255, 255, 255, 0, 0, 0, 0, 0, 0, 0, 0, 1]"

definition example_rip_udp :: udp where
  "example_rip_udp = \<lparr>udp_sport = 520, udp_dport = 520, udp_ulen = 32, udp_sum = 0, udp_data = example_rip_bytes\<rparr>"

definition topo_ip :: "bytes \<Rightarrow> bytes \<Rightarrow> topo_data \<Rightarrow> topo_data ip" where
  "topo_ip src dst d =
     \<lparr>ip_v_hl = 69, ip_tos = 0, ip_len = 20, ip_id = 0, ip_flags_offset = 0, ip_ttl = 64, ip_p = 6, ip_sum = 0,
       ip_src = src, ip_dst = dst, ip_opts = [], ip_data = d\<rparr>"

lemma topo_ip_fields [simp]:
  "ip_src (topo_ip src dst d) = src" "ip_dst (topo_ip src dst d) = dst" "ip_data (topo_ip src dst d) = d"
  by (simp_all add: topo_ip_def)

theorem topology_rip_no_prefix_witness:
  "let t = fst (process_packet (topo_ip [10, 0, 0, 1] [224, 0, 0, 9] (TD_UDP example_rip_udp)) None new_topology)
   in tp_prefixes t = [] \<and> ''10.0.0.1'' \<in> known t \<and> length example_rip_bytes = 24"
proof -
  obtain r where r: "rip_init (udp_data example_rip_udp) = Inr r"
    using rip_init_lengths [of example_rip_bytes]
    by (cases "rip_init example_rip_bytes") (simp_all add: example_rip_udp_def example_rip_bytes_def)
  have "inet_to_str [10, 0, 0, 1] = ''10.0.0.1''"
    using example_ntoa(1) by (simp add: inet_to_str_def inet_ntoa_def)
  then show ?thesis
    using topology_rip_no_prefix [of "topo_ip [10, 0, 0, 1] [224, 0, 0, 9] (TD_UDP example_rip_udp)"
        example_rip_udp r None new_topology] r
    by (simp add: example_rip_udp_def new_topology_def example_rip_bytes_def)
qed

text \<open>
  An AS-external LSA with a forwarding address ends the capture: the address is an integer,
  and its text is asked for. Nothing of it is stored.
\<close>

theorem topology_ospf_external_crash:
  assumes "ip_data ip = TD_OSPF p" "ospf_data p = O_V2 (LSU n (l # ls))"
    and "lsa2_body l = LSAASExternal m e metric fwd tag rest" "fwd \<noteq> 0"
  shows "snd (process_packet ip eth t) = Some TypeError \<and>
    snd (topo_run ((ip, eth) # ps) t) = Some TypeError \<and>
    tp_prefixes (fst (process_packet ip eth t)) = tp_prefixes t"
proof -
  obtain t1 where "process_packet ip eth t = (t1, Some TypeError)" "tp_prefixes t1 = tp_prefixes t"
    using assms by (simp add: process_packet_def extract_ospf_def Let_def extract_lsa_def add_protocol_def)
  then show ?thesis by simp
qed

definition example_external :: ospf where
  "example_external = \<lparr>ospf_class = OSPFv2, ospf_vals = [], ospf_data = O_V2 (LSU 1
     [\<lparr>lsa2_vals = [], lsa2_body = LSAASExternal 0xffffff00 0 20 0x0a000001 0 []\<rparr>])\<rparr>"

theorem topology_ospf_external_crash_witness:
  "snd (topo_run [(topo_ip [10, 0, 0, 1] [224, 0, 0, 5] (TD_OSPF example_external), None)] new_topology) = Some TypeError"
  by (rule topology_ospf_external_crash [THEN conjunct2, THEN conjunct1, of _ example_external 1
        "\<lparr>lsa2_vals = [], lsa2_body = LSAASExternal 0xffffff00 0 20 0x0a000001 0 []\<rparr>" "[]"
        "0xffffff00" 0 20 "0x0a000001" 0 "[]"])
    (simp_all add: example_external_def)

end
