(* ===== verification/Netflow.thy ===== *)
theory Netflow
  imports Tables
begin

text \<open>
  Cisco NetFlow, \<^verbatim>\<open>dpkt/netflow.py\<close>: the header of versions 1, 5, 6 and 7 and the records that
  fill the rest of the packet. Packing sets the count to the number of records.
\<close>

section \<open>The tables\<close>

datatype netflow_class = NetflowBase | Netflow1 | Netflow5 | Netflow6 | Netflow7

definition netflow_base_hdr :: hdr where
  "netflow_base_hdr =
     [(''version'', fH, VInt 1), (''count'', fH, VInt 0), (''sys_uptime'', fI, VInt 0),
      (''unix_sec'', fI, VInt 0), (''unix_nsec'', fI, VInt 0)]"

definition netflow5_hdr :: hdr where
  "netflow5_hdr = netflow_base_hdr @
     [(''flow_sequence'', fI, VInt 0), (''engine_type'', fB, VInt 0), (''engine_id'', fB, VInt 0), (''reserved'', fH, VInt 0)]"

definition netflow7_hdr :: hdr where
  "netflow7_hdr = netflow_base_hdr @ [(''flow_sequence'', fI, VInt 0), (''reserved'', fI, VInt 0)]"

fun netflow_hdr :: "netflow_class \<Rightarrow> hdr" where
  "netflow_hdr Netflow5 = netflow5_hdr"
| "netflow_hdr Netflow6 = netflow5_hdr"
| "netflow_hdr Netflow7 = netflow7_hdr"
| "netflow_hdr _ = netflow_base_hdr"

definition flow_addrs :: hdr where
  "flow_addrs =
     [(''src_addr'', fI, VInt 0), (''dst_addr'', fI, VInt 0), (''next_hop'', fI, VInt 0), (''input_iface'', fH, VInt 0),
      (''output_iface'', fH, VInt 0), (''pkts_sent'', fI, VInt 0), (''bytes_sent'', fI, VInt 0), (''start_time'', fI, VInt 0),
      (''end_time'', fI, VInt 0), (''src_port'', fH, VInt 0), (''dst_port'', fH, VInt 0)]"

definition flow_as :: hdr where
  "flow_as =
     [(''tcp_flags'', fB, VInt 0), (''ip_proto'', fB, VInt 0), (''tos'', fB, VInt 0), (''src_as'', fH, VInt 0),
      (''dst_as'', fH, VInt 0), (''src_mask'', fB, VInt 0), (''dst_mask'', fB, VInt 0)]"

definition flow1_hdr :: hdr where
  "flow1_hdr = flow_addrs @
     [(''pad1'', fH, VInt 0), (''ip_proto'', fB, VInt 0), (''tos'', fB, VInt 0), (''tcp_flags'', fB, VInt 0),
      (''pad2'', fB, VInt 0), (''pad3'', fH, VInt 0), (''reserved'', fI, VInt 0)]"

definition flow5_hdr :: hdr where
  "flow5_hdr = flow_addrs @ (''pad1'', fB, VInt 0) # flow_as @ [(''pad2'', fH, VInt 0)]"

definition flow6_hdr :: hdr where
  "flow6_hdr = flow_addrs @ (''pad1'', fB, VInt 0) # flow_as @
     [(''in_encaps'', fB, VInt 0), (''out_encaps'', fB, VInt 0), (''peer_nexthop'', fI, VInt 0)]"

definition flow7_hdr :: hdr where
  "flow7_hdr = flow_addrs @ (''flags'', fB, VInt 0) # flow_as @ [(''pad2'', fH, VInt 0), (''router_sc'', fI, VInt 0)]"

text \<open>The class \<^verbatim>\<open>NetflowRecord\<close> of a version; the base class has none.\<close>

fun flow_hdr :: "netflow_class \<Rightarrow> hdr option" where
  "flow_hdr NetflowBase = None"
| "flow_hdr Netflow1 = Some flow1_hdr"
| "flow_hdr Netflow5 = Some flow5_hdr"
| "flow_hdr Netflow6 = Some flow6_hdr"
| "flow_hdr Netflow7 = Some flow7_hdr"

section \<open>Records and packets\<close>

record netflow =
  nf_class :: netflow_class
  nf_vals :: "pval list"
  nf_flows :: "pval list list"

text \<open>A record keeps no data: \<^verbatim>\<open>unpack\<close> drops what follows, and the length is that of the header.\<close>

definition flow_init :: "hdr \<Rightarrow> bytes \<Rightarrow> pval list result" where
  "flow_init h = packet_init (hdr_len h) (\<lambda>buf. rbind (class_unpack BE h buf) (\<lambda>p. Inr (obj_vals p)))"

definition flow_round :: "netflow_class \<Rightarrow> bytes \<Rightarrow> pval list round" where
  "flow_round c buf =
     (if buf = [] then Stop
      else case flow_hdr c of
             None \<Rightarrow> Fail AttributeError
           | Some h \<Rightarrow> round_of (flow_init h buf) (drop (hdr_len h) buf))"

definition netflow_init :: "netflow_class \<Rightarrow> bytes \<Rightarrow> netflow result" where
  "netflow_init c = packet_init (hdr_len (netflow_hdr c)) (\<lambda>buf.
     rbind (class_unpack BE (netflow_hdr c) buf) (\<lambda>p.
     rbind (parse_loop (flow_round c) (obj_data p)) (\<lambda>fs.
       Inr \<lparr>nf_class = c, nf_vals = obj_vals p, nf_flows = fs\<rparr>)))"

definition flow_bytes :: "netflow_class \<Rightarrow> pval list \<Rightarrow> bytes result" where
  "flow_bytes c vs = (case flow_hdr c of None \<Rightarrow> Inl AttributeError | Some h \<Rightarrow> packet_pack_hdr BE h vs)"

definition netflow_bytes :: "netflow \<Rightarrow> (bytes \<times> netflow) result" where
  "netflow_bytes r =
     (let h = netflow_hdr (nf_class r);
          vs = set_val h ''count'' (VInt (int (length (nf_flows r)))) (nf_vals r)
      in rbind (packet_pack_hdr BE h vs) (\<lambda>a.
         rbind (concat_result (flow_bytes (nf_class r)) (nf_flows r)) (\<lambda>b. Inr (a @ b, r\<lparr>nf_vals := vs\<rparr>))))"

text \<open>\<^verbatim>\<open>len\<close> asks the first record for its length.\<close>

definition netflow_len :: "netflow \<Rightarrow> int result" where
  "netflow_len r =
     (let h = netflow_hdr (nf_class r)
      in case nf_flows r of
           [] \<Rightarrow> Inl IndexError
         | f # fs \<Rightarrow>
             (case flow_hdr (nf_class r) of
                None \<Rightarrow> Inl AttributeError
              | Some rh \<Rightarrow> Inr (int (hdr_len h) + int (hdr_len rh) * get_int h ''count'' (nf_vals r))))"

section \<open>Records are read back\<close>

lemmas netflow_hdr_defs = netflow_base_hdr_def netflow5_hdr_def netflow7_hdr_def flow_addrs_def flow_as_def
  flow1_hdr_def flow5_hdr_def flow6_hdr_def flow7_hdr_def

lemma netflow_tables [simp]: "table_ok (netflow_hdr c)" "16 \<le> hdr_len (netflow_hdr c)"
  by (cases c; simp add: netflow_hdr_defs table_ok_def fmt_ok_def hdr_fields_def)+

lemma flow_tables: "flow_hdr c = Some h \<Longrightarrow> table_ok h \<and> 48 \<le> hdr_len h"
  by (cases c) (auto simp: netflow_hdr_defs table_ok_def fmt_ok_def hdr_fields_def)

lemma flow_sizes [simp]:
  "hdr_len flow1_hdr = 48" "hdr_len flow5_hdr = 48" "hdr_len flow6_hdr = 52" "hdr_len flow7_hdr = 52"
  by (simp_all add: netflow_hdr_defs)

definition flow_ok :: "netflow_class \<Rightarrow> pval list \<Rightarrow> bool" where
  "flow_ok c vs = (case flow_hdr c of None \<Rightarrow> False | Some h \<Rightarrow> exact_all (hdr_fmt h) vs)"

lemma flow_init_full:
  assumes "table_ok h" "hdr_len h \<le> length buf"
  shows "\<exists>vs. flow_init h buf = Inr vs"
  using packet_class.unpack_total [OF table_class [OF assms(1)] assms(2), of BE]
  by (auto simp: flow_init_def packet_init_def class_unpack_def)

lemma flow_init_short: "length buf < hdr_len h \<Longrightarrow> flow_init h buf = Inl NeedData"
  by (simp add: flow_init_def packet_init_def class_unpack_def packet_unpack_short)

lemma flow_round_full:
  "flow_hdr c = Some h \<Longrightarrow> hdr_len h \<le> length buf \<Longrightarrow> \<exists>x. flow_round c buf = Item x (drop (hdr_len h) buf)"
  using flow_init_full [of h buf] flow_tables [of c h] by (cases buf) (auto simp: flow_round_def)

interpretation flows: item_round "flow_round c" "flow_bytes c" "flow_ok c" for c
proof
  fix buf x rest
  assume r: "flow_round c buf = Item x rest"
  then obtain h where "flow_hdr c = Some h" "rest = drop (hdr_len h) buf" "buf \<noteq> []"
    by (auto simp: flow_round_def round_of_Item split: if_splits option.splits)
  then show "length rest < length buf" using flow_tables [of c h] by (cases buf) auto
next
  fix x b rest
  assume x: "flow_ok c x" "flow_bytes c x = Inr b"
  then obtain h where h: "flow_hdr c = Some h" "exact_all (hdr_fmt h) x" "packet_pack_hdr BE h x = Inr b"
    by (auto simp: flow_ok_def flow_bytes_def split: option.splits)
  have "length b = hdr_len h" "class_unpack BE h (b @ rest) = Inr (obj_make x rest)"
    using class_pack_read [of h x BE b rest] flow_tables [OF h(1)] h(2,3) by auto
  then show "flow_round c (b @ rest) = Item x rest"
    using h(1) flow_tables [OF h(1)]
    by (auto simp: flow_round_def flow_init_def packet_init_def obj_make_def)
qed (simp add: flow_round_def)

lemma flow_bytes_length: "flow_hdr c = Some h \<Longrightarrow> flow_bytes c vs = Inr b \<Longrightarrow> length b = hdr_len h"
  by (simp add: flow_bytes_def packet_pack_hdr_length)

section \<open>Properties\<close>

text \<open>
  A NetFlow packet of any version whose values fit their fields is read back from its bytes, with
  the count that packing filled in; with at least one record its length is the number of bytes.
\<close>

theorem netflow_roundtrip:
  assumes "exact_all (hdr_fmt (netflow_hdr (nf_class r))) (nf_vals r)" "list_all (flow_ok (nf_class r)) (nf_flows r)"
    and "netflow_bytes r = Inr (b, r')"
  shows "netflow_init (nf_class r) b = Inr r' \<and>
    (nf_flows r \<noteq> [] \<longrightarrow> netflow_len r' = Inr (int (length b)))"
proof -
  let ?h = "netflow_hdr (nf_class r)" and ?n = "int (length (nf_flows r))"
  define vs where "vs = set_val ?h ''count'' (VInt ?n) (nf_vals r)"
  obtain a c where p: "packet_pack_hdr BE ?h vs = Inr a" "concat_result (flow_bytes (nf_class r)) (nf_flows r) = Inr c"
    "b = a @ c" "r' = r\<lparr>nf_vals := vs\<rparr>"
    using assms(3) by (auto simp: netflow_bytes_def Let_def rbind_Inr_iff vs_def)
  have "Pad \<notin> set (hdr_fmt ?h) \<and> distinct (hdr_fields ?h)"
    using netflow_tables(1) [of "nf_class r"] by (simp add: table_ok_def)
  moreover have "''count'' \<in> set (hdr_fields ?h)"
    by (cases "nf_class r"; simp add: netflow_hdr_defs hdr_fields_def)
  ultimately have t: "Pad \<notin> set (hdr_fmt ?h)" "distinct (hdr_fields ?h)" "''count'' \<in> set (hdr_fields ?h)" by auto
  have n: "get_int ?h ''count'' vs = ?n" unfolding vs_def using get_set_val [OF assms(1) t(1,2)] t(3) by simp
  have e: "exact_all (hdr_fmt ?h) vs"
  proof -
    have v: "exact_all (hdr_fmt ?h) (nf_vals r)" by (rule assms(1))
    have "struct_pack BE (hdr_fmt ?h) vs = Inr a"
      using p(1) v unfolding vs_def
      by (cases "nf_class r") (auto simp: netflow_hdr_defs packet_pack_hdr_def set_val_def hdr_fields_def exact_U
          simp del: pack1.simps split: sum.splits)
    then have "0 \<le> ?n" "?n < 65536"
      using v unfolding vs_def
      by (cases "nf_class r"; auto simp: netflow_hdr_defs set_val_def hdr_fields_def exact_U rbind_Inr_iff split: if_splits)+
    then show ?thesis
      unfolding vs_def by (intro set_val_exact [OF v t(1)]) (cases "nf_class r"; simp add: netflow_hdr_defs)
  qed
  have l: "length a = hdr_len ?h" "class_unpack BE ?h b = Inr (obj_make vs c)"
    using class_pack_read [OF netflow_tables(1) e p(1), of c] p(3) by auto
  have "netflow_init (nf_class r) b = Inr r'"
    using l flows.loop_reads [OF assms(2) p(2)] p(4)
    by (cases r) (simp add: netflow_init_def packet_init_Inr obj_make_def)
  moreover have "netflow_len r' = Inr (int (length b))" if ne: "nf_flows r \<noteq> []"
  proof -
    obtain f fs where f: "nf_flows r = f # fs" using ne by (cases "nf_flows r") auto
    then obtain rh where rh: "flow_hdr (nf_class r) = Some rh" using assms(2) by (auto simp: flow_ok_def split: option.splits)
    have "length c = length (nf_flows r) * hdr_len rh"
      using concat_result_length [OF p(2), of "\<lambda>_. hdr_len rh"] flow_bytes_length [OF rh] by (simp add: sum_list_triv)
    then show ?thesis using f rh n l(1) p(3,4) by (simp add: netflow_len_def algebra_simps)
  qed
  ultimately show ?thesis by blast
qed

definition example_netflow :: netflow where
  "example_netflow = \<lparr>nf_class = Netflow5, nf_vals = map VInt [5, 0, 1, 2, 3, 4, 0, 0, 0],
     nf_flows = [map VInt (replicate 20 1)]\<rparr>"

theorem netflow_roundtrip_witness:
  "\<exists>b r. netflow_bytes example_netflow = Inr (b, r) \<and> netflow_init Netflow5 b = Inr r \<and> netflow_len r = Inr (int (length b))"
proof -
  have "exact_all (hdr_fmt (netflow_hdr (nf_class example_netflow))) (nf_vals example_netflow)"
    "list_all (flow_ok (nf_class example_netflow)) (nf_flows example_netflow)"
    by (simp_all add: example_netflow_def netflow_hdr_defs flow_ok_def numeral_eq_Suc)
  moreover have "\<exists>b r. netflow_bytes example_netflow = Inr (b, r)"
    by (simp add: example_netflow_def netflow_bytes_def netflow_hdr_defs set_val_def hdr_fields_def packet_pack_hdr_def
        flow_bytes_def replicate_eqI numeral_eq_Suc)
  ultimately show ?thesis
    using netflow_roundtrip [of example_netflow] by (auto simp: example_netflow_def)
qed

text \<open>
  A NetFlow packet is read exactly when it is its header and a whole number of records of its
  version; otherwise the error is \<open>NeedData\<close>. The count field plays no part.
\<close>

theorem netflow_lengths:
  assumes "flow_hdr c = Some h"
  shows "is_ok (netflow_init c buf) = (hdr_len (netflow_hdr c) \<le> length buf \<and>
      (length buf - hdr_len (netflow_hdr c)) mod hdr_len h = 0) \<and>
    (is_ok (netflow_init c buf) \<or> netflow_init c buf = Inl NeedData)"
proof -
  have fixed: "if length d mod hdr_len h = 0 then \<exists>fs. parse_loop (flow_round c) d = Inr fs
      else parse_loop (flow_round c) d = Inl NeedData" for d
    by (rule loop_fixed_size)
      (use flow_tables [OF assms] flow_round_full [OF assms] assms in \<open>auto simp: flow_round_def flow_init_short\<close>)
  show ?thesis
  proof (cases "class_unpack BE (netflow_hdr c) buf")
    case (Inl e)
    then show ?thesis using class_unpack_error [OF Inl] by (simp add: netflow_init_def packet_init_def)
  next
    case (Inr p)
    have "obj_data p = drop (hdr_len (netflow_hdr c)) buf" "hdr_len (netflow_hdr c) \<le> length buf"
      using class_unpack_data [OF Inr] by auto
    then show ?thesis using Inr fixed [of "obj_data p"] by (auto simp: netflow_init_def packet_init_def split: if_splits)
  qed
qed

theorem netflow_lengths_witness: "netflow_init Netflow1 (zeros 17) = Inl NeedData"
  using netflow_lengths [of Netflow1 flow1_hdr "zeros 17"] by (auto simp: netflow_hdr_defs)

end
