(* ===== verification/Gtp.thy ===== *)
theory Gtp
  imports Tables
begin

text \<open>
  The GPRS tunnelling protocol, \<^verbatim>\<open>dpkt/gtp.py\<close>: information elements, the headers of versions 1
  and 2, and the choice between them that \<^verbatim>\<open>GTP(buf)\<close> makes on the first three bits. An attribute
  that only some packets have is an option; the attributes that the class of an element adds to
  it are a list of names and values.
\<close>

section \<open>Information elements\<close>

record gtp_ie =
  ie_v2 :: bool
  ie_type :: int
  ie_length :: int
  ie_value :: bytes
  ie_attrs :: "(string \<times> pval) list"

text \<open>What the classes of \<^verbatim>\<open>_v1_ie_sw\<close> and \<^verbatim>\<open>_v2_ie_sw\<close> add; the two tables give the same.\<close>

definition fteid_attrs :: "bytes \<Rightarrow> (string \<times> pval) list" where
  "fteid_attrs v =
     (let flags = ord (v ! 0); v4 = drop_bit 4 flags AND 1; v6 = drop_bit 5 flags AND 1;
          n4 = (if v4 \<noteq> 0 then 4 else 0); n6 = (if v6 \<noteq> 0 then 16 else 0)
      in [(''iface'', VInt (flags AND 0x0f)), (''v4'', VInt v4), (''v6'', VInt v6),
          (''teid'', VInt (bytes_int BE (take 4 (drop 1 v)))),
          (''ipv4'', VBytes (take n4 (drop 5 v))), (''ipv6'', VBytes (take n6 (drop (5 + n4) v)))])"

definition ie_class_attrs :: "int \<Rightarrow> bytes \<Rightarrow> (string \<times> pval) list" where
  "ie_class_attrs t v =
     (if t = 1 then (if v \<noteq> [] then [(''imsi'', VBytes v)] else [])
      else if t = 71 then [(''apn'', VBytes v)]
      else if t = 87 then (if 9 \<le> length v then fteid_attrs v else [])
      else if t = 99 then (if v \<noteq> [] then [(''pdn_type'', VInt (ord (v ! 0)))] else [])
      else if t = 72 then
        (if 8 \<le> length v
         then [(''uplink'', VInt (bytes_int BE (take 4 v))), (''downlink'', VInt (bytes_int BE (take 4 (drop 4 v))))]
         else [])
      else [])"

definition ie_make :: "bool \<Rightarrow> int \<Rightarrow> int \<Rightarrow> bytes \<Rightarrow> gtp_ie" where
  "ie_make v2 t l v = \<lparr>ie_v2 = v2, ie_type = t, ie_length = l, ie_value = v, ie_attrs = ie_class_attrs t v\<rparr>"

definition ie_unpack :: "bool \<Rightarrow> bytes \<Rightarrow> gtp_ie result" where
  "ie_unpack v2 buf =
     rbind (byte_at buf 0) (\<lambda>t.
       if v2 then rbind (unpack_uint BE 2 (take 2 (drop 1 buf))) (\<lambda>l. Inr (ie_make v2 t l (take (nat l) (drop 3 buf))))
       else rbind (byte_at buf 1) (\<lambda>l. Inr (ie_make v2 t l (take (nat l) (drop 2 buf)))))"

definition ie_hdr_size :: "bool \<Rightarrow> nat" where
  "ie_hdr_size v2 = (if v2 then 3 else 2)"

definition ie_len :: "gtp_ie \<Rightarrow> nat" where
  "ie_len x = ie_hdr_size (ie_v2 x) + length (ie_value x)"

definition ie_bytes :: "gtp_ie \<Rightarrow> bytes result" where
  "ie_bytes x =
     rbind (struct_pack BE [fB, if ie_v2 x then fH else fB] [VInt (ie_type x), VInt (ie_length x)]) (\<lambda>h.
       Inr (h @ ie_value x))"

text \<open>One round of \<^verbatim>\<open>parse_ies\<close>.\<close>

definition ie_round :: "bool \<Rightarrow> bytes \<Rightarrow> gtp_ie round" where
  "ie_round v2 buf =
     (if buf = [] then Stop
      else case ie_unpack v2 buf of
             Inl e \<Rightarrow> Fail e
           | Inr x \<Rightarrow> Item x (drop (ie_hdr_size v2 + nat (ie_length x)) buf))"

definition parse_ies :: "bool \<Rightarrow> bytes \<Rightarrow> gtp_ie list result" where
  "parse_ies v2 buf = parse_loop (ie_round v2) buf"

section \<open>Version 1\<close>

definition gtp1_hdr :: hdr where
  "gtp1_hdr = [(''_flags_msg'', fB, VInt 0x30), (''type'', fB, VInt 0), (''length'', fH, VInt 0), (''teid'', fI, VInt 0)]"

record gtp1 =
  g1_vals :: "pval list"
  g1_seq :: "int option"
  g1_npdu :: "int option"
  g1_ext :: "int option"
  g1_ies :: "gtp_ie list option"
  g1_data :: bytes

definition g1_flags :: "pval list \<Rightarrow> int" where
  "g1_flags vs = get_int gtp1_hdr ''_flags_msg'' vs"

definition gtp_version :: "int \<Rightarrow> int" where
  "gtp_version flags = drop_bit 5 flags"

definition g1_is_control :: "int \<Rightarrow> bool" where
  "g1_is_control flags \<longleftrightarrow> flags AND 0x10 \<noteq> 0"

text \<open>The optional fields behind the header, with the offset after each.\<close>

definition gtp1_opts :: "int \<Rightarrow> bytes \<Rightarrow> (int option \<times> int option \<times> int option \<times> nat) result" where
  "gtp1_opts flags d =
     rbind (if flags AND 0x02 \<noteq> 0 then rbind (unpack_uint BE 2 (take 2 d)) (\<lambda>s. Inr (Some s, 2)) else Inr (None, 0)) (\<lambda>(s, o1).
     rbind (if flags AND 0x01 \<noteq> 0 then rbind (byte_at d o1) (\<lambda>n. Inr (Some n, o1 + 1)) else Inr (None, o1)) (\<lambda>(n, o2).
     rbind (if flags AND 0x04 \<noteq> 0 then rbind (byte_at d o2) (\<lambda>e. Inr (Some e, o2 + 1)) else Inr (None, o2)) (\<lambda>(e, o3).
       Inr (s, n, e, o3))))"

text \<open>A control packet keeps all of its data, the optional fields included, beside its elements.\<close>

definition gtp1_unpack :: "bytes \<Rightarrow> gtp1 result" where
  "gtp1_unpack buf =
     rbind (class_unpack BE gtp1_hdr buf) (\<lambda>p.
     rbind (gtp1_opts (g1_flags (obj_vals p)) (obj_data p)) (\<lambda>(s, n, e, off).
       if g1_is_control (g1_flags (obj_vals p))
       then rbind (parse_ies False (drop off (obj_data p))) (\<lambda>ies.
              Inr \<lparr>g1_vals = obj_vals p, g1_seq = s, g1_npdu = n, g1_ext = e, g1_ies = Some ies, g1_data = obj_data p\<rparr>)
       else Inr \<lparr>g1_vals = obj_vals p, g1_seq = s, g1_npdu = n, g1_ext = e, g1_ies = None, g1_data = drop off (obj_data p)\<rparr>))"

definition gtp1_init :: "bytes \<Rightarrow> gtp1 result" where
  "gtp1_init = packet_init (hdr_len gtp1_hdr) gtp1_unpack"

definition g1_opt_len :: "int \<Rightarrow> nat" where
  "g1_opt_len flags =
     (if flags AND 0x02 \<noteq> 0 then 2 else 0) + (if flags AND 0x01 \<noteq> 0 then 1 else 0) + (if flags AND 0x04 \<noteq> 0 then 1 else 0)"

definition gtp1_len :: "gtp1 \<Rightarrow> nat" where
  "gtp1_len r = hdr_len gtp1_hdr + g1_opt_len (g1_flags (g1_vals r)) + length (g1_data r)"

definition opt0 :: "int option \<Rightarrow> int" where
  "opt0 x = (case x of None \<Rightarrow> 0 | Some i \<Rightarrow> i)"

definition gtp1_opt_bytes :: "int \<Rightarrow> int option \<Rightarrow> int option \<Rightarrow> int option \<Rightarrow> bytes result" where
  "gtp1_opt_bytes flags s n e =
     rbind (if flags AND 0x02 \<noteq> 0 then pack_uint BE 2 (opt0 s) else Inr []) (\<lambda>a.
     rbind (if flags AND 0x01 \<noteq> 0 then pack_uint BE 1 (opt0 n) else Inr []) (\<lambda>b.
     rbind (if flags AND 0x04 \<noteq> 0 then pack_uint BE 1 (opt0 e) else Inr []) (\<lambda>c.
       Inr (a @ b @ c))))"

definition gtp1_bytes :: "gtp1 \<Rightarrow> bytes result" where
  "gtp1_bytes r =
     rbind (packet_pack_hdr BE gtp1_hdr (g1_vals r)) (\<lambda>h.
     rbind (gtp1_opt_bytes (g1_flags (g1_vals r)) (g1_seq r) (g1_npdu r) (g1_ext r)) (\<lambda>opt. Inr (h @ opt @ g1_data r)))"

section \<open>Version 2, and the choice of a version\<close>

definition gtp2_hdr :: hdr where
  "gtp2_hdr = [(''_flags_msg'', fB, VInt 0x48), (''type'', fB, VInt 0), (''length'', fH, VInt 0), (''teid'', fI, VInt 0),
     (''_seq'', Str 3, VBytes (zeros 3)), (''_spare'', fB, VInt 0)]"

record gtp2 =
  g2_vals :: "pval list"
  g2_ies :: "gtp_ie list"

definition gtp2_unpack :: "bytes \<Rightarrow> gtp2 result" where
  "gtp2_unpack buf =
     rbind (class_unpack BE gtp2_hdr buf) (\<lambda>p.
     rbind (parse_ies True (obj_data p)) (\<lambda>ies. Inr \<lparr>g2_vals = obj_vals p, g2_ies = ies\<rparr>))"

definition gtp2_init :: "bytes \<Rightarrow> gtp2 result" where
  "gtp2_init = packet_init (hdr_len gtp2_hdr) gtp2_unpack"

definition gtp2_sequence :: "gtp2 \<Rightarrow> int" where
  "gtp2_sequence r =
     (case map_of (zip (hdr_fields gtp2_hdr) (g2_vals r)) ''_seq'' of
        Some v \<Rightarrow> push_bit 16 (ord (bval v ! 0)) OR push_bit 8 (ord (bval v ! 1)) OR ord (bval v ! 2)
      | None \<Rightarrow> 0)"

definition gtp2_bytes :: "gtp2 \<Rightarrow> bytes result" where
  "gtp2_bytes r =
     rbind (concat_result ie_bytes (g2_ies r)) (\<lambda>d.
     rbind (packet_pack_hdr BE gtp2_hdr (g2_vals r)) (\<lambda>h. Inr (h @ d)))"

definition gtp2_len :: "gtp2 \<Rightarrow> nat result" where
  "gtp2_len r = rbind (concat_result ie_bytes (g2_ies r)) (\<lambda>d. Inr (hdr_len gtp2_hdr + length d))"

datatype gtp = GTPv1 gtp1 | GTPv2 gtp2

text \<open>The base class has no table of its own: any other version is an \<open>AttributeError\<close>.\<close>

definition gtp_init :: "bytes \<Rightarrow> gtp result" where
  "gtp_init buf =
     (case buf of
        [] \<Rightarrow> Inl AttributeError
      | b # _ \<Rightarrow>
          let ver = drop_bit 5 (ord b) AND 7
          in if ver = 2 then rbind (gtp2_init buf) (\<lambda>r. Inr (GTPv2 r))
             else if ver = 1 then rbind (gtp1_init buf) (\<lambda>r. Inr (GTPv1 r))
             else Inl AttributeError)"

section \<open>Elements are kept byte for byte\<close>

lemma be_1 [simp]: "be_bytes 1 (ord b) = [b]"
  using be_bytes_be_int [of "[b]" 1] by (simp add: be_int_def)

lemma pack_ord [simp]: "pack1 BE fB (VInt (ord b)) = Inr [b]"
  using be_1 [of b] by (simp add: int_bytes_def)

lemma pack_read: "length c = n \<Longrightarrow> pack1 BE (UI n) (VInt (bytes_int BE c)) = Inr c"
  by (simp add: int_bytes_bytes_int)

interpretation ies: exact_round "ie_round v2" ie_bytes for v2
proof
  fix buf x rest
  assume r: "ie_round v2 buf = Item x rest"
  then obtain b bs where b: "buf = b # bs" "ie_unpack v2 buf = Inr x"
    "rest = drop (ie_hdr_size v2 + nat (ie_length x)) buf"
    by (cases buf) (auto simp: ie_round_def split: sum.splits)
  show "\<exists>a. ie_bytes x = Inr a \<and> buf = a @ rest"
  proof (cases v2)
    case True
    then have l: "length (take 2 bs) = 2" "x = ie_make v2 (ord b) (bytes_int BE (take 2 bs)) (take (nat (bytes_int BE (take 2 bs))) (drop 2 bs))"
      using b by (auto simp: ie_unpack_def rbind_Inr_iff unpack_uint_def split: if_splits)
    have "ie_bytes x = Inr (b # take 2 bs @ ie_value x)"
      using l(2) True pack_read [OF l(1)] by (simp add: ie_bytes_def ie_make_def del: pack1.simps One_nat_def)
    moreover have "bs = take 2 bs @ ie_value x @ drop (2 + nat (ie_length x)) bs"
      using append_take_drop_id [of 2 bs] take_drop_append(1) [of "nat (ie_length x)" 2 bs] l(2)
      by (simp add: ie_make_def del: take_drop_append)
    moreover have "rest = drop (2 + nat (ie_length x)) bs" using b(1,3) True by (simp add: ie_hdr_size_def numeral_eq_Suc)
    ultimately show ?thesis using b(1) by auto
  next
    case False
    then obtain c cs where c: "bs = c # cs" "x = ie_make v2 (ord b) (ord c) (take (nat (ord c)) cs)"
      using b by (cases bs) (auto simp: ie_unpack_def rbind_Inr_iff)
    have "ie_bytes x = Inr (b # c # ie_value x)"
      using c(2) False by (simp add: ie_bytes_def ie_make_def del: pack1.simps One_nat_def)
    then show ?thesis using b(1,3) c False by (auto simp: ie_hdr_size_def ie_make_def)
  qed
qed (auto simp: ie_round_def split: if_splits sum.splits)

lemma gtp_tables [simp]: "hdr_len gtp1_hdr = 8" "hdr_len gtp2_hdr = 12" "table_ok gtp1_hdr" "table_ok gtp2_hdr"
  by (simp_all add: gtp1_hdr_def gtp2_hdr_def table_ok_def fmt_ok_def hdr_fields_def)

lemma byte_at_Inr: "byte_at d i = Inr x \<longleftrightarrow> i < length d \<and> x = ord (d ! i)"
  by (auto simp: byte_at_def py_get_nat)

lemma take_one_more:
  "0 < length d \<Longrightarrow> take 1 d = [d ! 0]"
  "1 < length d \<Longrightarrow> take 2 d = [d ! 0, d ! 1]"
  "2 < length d \<Longrightarrow> take 3 d = take 2 d @ [d ! 2]"
  "3 < length d \<Longrightarrow> take 4 d = take 2 d @ [d ! 2, d ! 3]"
  by (cases d; simp add: numeral_eq_Suc take_Suc_conv_app_nth)+

lemma gtp1_opts_bytes:
  assumes "gtp1_opts flags d = Inr (s, n, e, off)"
  shows "gtp1_opt_bytes flags s n e = Inr (take off d) \<and> off = g1_opt_len flags"
proof -
  have two: "length c = 2 \<Longrightarrow> pack_uint BE 2 (bytes_int BE c) = Inr c" for c
    using pack_read [of c 2] by (simp add: pack_uint_def del: pack1.simps)
  have one: "pack_uint BE 1 (ord b) = Inr [b]" for b
    using pack_ord [of b] by (simp only: pack_uint_def)
  show ?thesis
    using assms
    by (cases "flags AND 0x02 = 0"; cases "flags AND 0x01 = 0"; cases "flags AND 0x04 = 0")
      (auto simp: gtp1_opts_def gtp1_opt_bytes_def g1_opt_len_def rbind_Inr_iff byte_at_Inr unpack_uint_def two
        one opt0_def take_one_more take_one_more(1) [unfolded One_nat_def]
        take_one_more(2) [unfolded One_nat_def numeral_2_eq_2] one [unfolded One_nat_def] min_def split: if_splits)
qed

section \<open>Properties\<close>

text \<open>
  A version 2 packet that is parsed packs to the bytes it was parsed from, whatever its elements
  are and wherever the last of them is cut off, and its length is their number.
\<close>

theorem gtp2_byte_exact:
  assumes "gtp_init buf = Inr (GTPv2 r)"
  shows "gtp2_bytes r = Inr buf \<and> gtp2_len r = Inr (length buf)"
proof -
  obtain p ies where p: "class_unpack BE gtp2_hdr buf = Inr p" "parse_ies True (obj_data p) = Inr ies"
    "r = \<lparr>g2_vals = obj_vals p, g2_ies = ies\<rparr>"
    using assms by (auto simp: gtp_init_def gtp2_init_def packet_init_Inr gtp2_unpack_def rbind_Inr_iff Let_def
        split: list.splits if_splits)
  have "concat_result ie_bytes ies = Inr (drop 12 buf)" "12 \<le> length buf"
    using ies.loop_packs [of True "obj_data p" ies] p(2) class_unpack_data [OF p(1)] by (simp_all add: parse_ies_def)
  then show ?thesis using class_pack_back [OF gtp_tables(4) p(1)] p(3) by (simp add: gtp2_bytes_def gtp2_len_def)
qed

definition example_gtp2 :: bytes where
  "example_gtp2 = [0x48, 32, 0, 12, 0, 0, 0, 1, 0, 0, 5, 0, 1, 0, 2, 0x11, 0x22, 99, 0, 9, 1]"

theorem gtp2_byte_exact_witness: "\<exists>r. gtp_init example_gtp2 = Inr (GTPv2 r) \<and> gtp2_bytes r = Inr example_gtp2"
proof -
  obtain p where p: "class_unpack BE gtp2_hdr example_gtp2 = Inr p" "obj_data p = [1, 0, 2, 0x11, 0x22, 99, 0, 9, 1]"
    by (simp add: example_gtp2_def class_unpack_def packet_unpack_def gtp2_hdr_def struct_unpack_def obj_make_def)
  obtain ies where "parse_ies True [1, 0, 2, 0x11, 0x22, 99, 0, 9, 1] = Inr ies"
    by (simp add: parse_ies_def parse_loop.simps ie_round_def ie_unpack_def unpack_uint_def bytes_int_def be_int_def
        ie_make_def ie_hdr_size_def)
  then have "\<exists>r. gtp2_init example_gtp2 = Inr r"
    using p by (simp add: gtp2_init_def packet_init_def gtp2_unpack_def)
  then have "\<exists>r. gtp_init example_gtp2 = Inr (GTPv2 r)"
    by (auto simp: gtp_init_def example_gtp2_def)
  then show ?thesis using gtp2_byte_exact by blast
qed

text \<open>
  A version 1 packet that is parsed packs to the bytes it was parsed from, unless it is a control
  packet with optional fields: then the fields are packed twice.
\<close>

theorem gtp1_packs_options_twice:
  assumes "gtp_init buf = Inr (GTPv1 r)"
  shows "gtp1_bytes r =
      Inr (if g1_is_control (g1_flags (g1_vals r))
           then take (8 + g1_opt_len (g1_flags (g1_vals r))) buf @ drop 8 buf else buf)"
proof -
  let ?f = "g1_flags (g1_vals r)"
  obtain p s n e off where p: "class_unpack BE gtp1_hdr buf = Inr p" "gtp1_opts (g1_flags (obj_vals p)) (obj_data p) = Inr (s, n, e, off)"
    "g1_vals r = obj_vals p" "g1_seq r = s" "g1_npdu r = n" "g1_ext r = e"
    "g1_data r = (if g1_is_control ?f then obj_data p else drop off (obj_data p))"
    using assms by (auto simp: gtp_init_def gtp1_init_def packet_init_Inr gtp1_unpack_def rbind_Inr_iff Let_def
        split: list.splits if_splits)
  have d: "obj_data p = drop 8 buf" "8 \<le> length buf" using class_unpack_data [OF p(1)] by simp_all
  have o: "gtp1_opt_bytes ?f s n e = Inr (take off (drop 8 buf))" "off = g1_opt_len ?f"
    using gtp1_opts_bytes [of ?f "obj_data p"] p(2,3) d(1) by auto
  have "gtp1_bytes r = Inr (take 8 buf @ take off (drop 8 buf) @ g1_data r)"
    using class_pack_back [OF gtp_tables(3) p(1)] p(3-6) o(1) by (simp add: gtp1_bytes_def)
  then show ?thesis using p(7) d(1) o(2) by (simp add: take_add)
qed

definition example_gtp1 :: bytes where
  "example_gtp1 = [0x32, 1, 0, 4, 0, 0, 0, 1, 0, 7, 14, 1, 3]"

theorem gtp1_packs_options_twice_witness:
  "\<exists>r. gtp_init example_gtp1 = Inr (GTPv1 r) \<and> gtp1_bytes r = Inr (take 10 example_gtp1 @ drop 8 example_gtp1)"
proof -
  obtain ies where "parse_ies False [14, 1, 3] = Inr ies"
    by (simp add: parse_ies_def parse_loop.simps ie_round_def ie_unpack_def ie_make_def ie_hdr_size_def)
  then obtain r where r: "gtp_init example_gtp1 = Inr (GTPv1 r)" "g1_flags (g1_vals r) = 0x32"
    by (simp add: example_gtp1_def gtp_init_def gtp1_init_def packet_init_def gtp1_unpack_def class_unpack_def
        packet_unpack_def gtp1_hdr_def struct_unpack_def obj_make_def g1_flags_def get_int_def hdr_fields_def
        bytes_int_def be_int_def gtp1_opts_def unpack_uint_def g1_is_control_def)
  then show ?thesis
    using gtp1_packs_options_twice [OF r(1)] by (simp add: g1_is_control_def g1_opt_len_def)
qed

text \<open>
  Only versions 1 and 2 can be parsed: anything else, the empty buffer included, is an \<open>AttributeError\<close>.
\<close>

theorem gtp_other_versions:
  "(gtp_init buf = Inl AttributeError) =
     (buf = [] \<or> gtp_version (ord (hd buf)) \<notin> {1, 2})"
proof -
  have v: "drop_bit 5 (ord b) AND 7 = gtp_version (ord b)" for b
  proof -
    have "i < 256 \<Longrightarrow> i div 32 < 8" for i :: int by presburger
    then have "drop_bit 5 (ord b) < 8" using ord_range(2) [of b] by (simp add: drop_bit_int)
    moreover have "0 \<le> drop_bit 5 (ord b)" by (simp add: drop_bit_int pos_imp_zdiv_nonneg_iff)
    ultimately show ?thesis using and_mask_int [of "drop_bit 5 (ord b)" 3] by (simp add: gtp_version_def)
  qed
  have "ie_round v2 b \<noteq> Fail AttributeError" for v2 b
    by (auto simp: ie_round_def ie_unpack_def rbind_Inl_iff byte_at_def py_get_def unpack_uint_def split: sum.splits if_splits)
  then have p: "parse_ies v2 b \<noteq> Inl AttributeError" for v2 b
  proof (induction "length b" arbitrary: b rule: less_induct)
    case less
    then show ?case by (cases "ie_round v2 b") (auto simp: parse_ies_def parse_loop.simps [of "ie_round v2" b] rbind_Inl_iff)
  qed
  have "gtp2_init buf \<noteq> Inl AttributeError"
    using p by (auto simp: gtp2_init_def packet_init_Inl gtp2_unpack_def rbind_Inl_iff dest: class_unpack_error split: if_splits)
  moreover have "gtp1_opts f d \<noteq> Inl AttributeError" for f d
    by (auto simp: gtp1_opts_def rbind_Inl_iff byte_at_def py_get_def unpack_uint_def split: if_splits)
  then have "gtp1_init buf \<noteq> Inl AttributeError"
    using p by (auto simp: gtp1_init_def packet_init_Inl gtp1_unpack_def rbind_Inl_iff dest: class_unpack_error split: if_splits)
  ultimately show ?thesis by (cases buf) (auto simp: gtp_init_def v Let_def rbind_Inl_iff)
qed

end
