(* ===== verification/L2tp.thy ===== *)
theory L2tp
  imports Tables
begin

text \<open>
  L2TP, \<^verbatim>\<open>dpkt/l2tp.py\<close>: attribute value pairs, whose class depends on vendor and type and adds
  one attribute, and the header with control and data messages. The header is read as eight bytes
  whatever its flags say, as in the code.
\<close>

section \<open>Attribute value pairs\<close>

record avp =
  avp_m :: int
  avp_h :: int
  avp_length :: int
  avp_vendor :: int
  avp_type :: int
  avp_value :: bytes
  avp_attrs :: "(string \<times> pval) list"

definition avp_int :: "string \<Rightarrow> nat \<Rightarrow> nat \<Rightarrow> bytes \<Rightarrow> (string \<times> pval) list" where
  "avp_int name need n v = (if need \<le> length v then [(name, VInt (bytes_int BE (take n v)))] else [])"

text \<open>The table \<^verbatim>\<open>_avp_sw\<close>, with what \<^verbatim>\<open>unpack\<close> of each class adds.\<close>

definition avp_class_attrs :: "int \<Rightarrow> int \<Rightarrow> bytes \<Rightarrow> (string \<times> pval) list" where
  "avp_class_attrs vendor t v =
     (if vendor \<noteq> 0 then []
      else if t = 0 then avp_int ''msg_type'' 2 2 v
      else if t = 1 then avp_int ''result'' 4 2 v
      else if t = 2 then avp_int ''version'' 2 2 v
      else if t = 3 \<or> t = 4 then avp_int ''caps'' 4 4 v
      else if t = 5 then (if 8 \<le> length v then [(''tie'', VBytes (take 8 v))] else [])
      else if t = 6 then avp_int ''rev'' 2 2 v
      else if t = 7 then [(''hostname'', VBytes v)]
      else if t = 8 then [(''vendor_name'', VBytes v)]
      else if t = 9 then avp_int ''tunnel_id'' 2 2 v
      else if t = 10 then avp_int ''window'' 2 2 v
      else if t = 11 then [(''challenge'', VBytes v)]
      else if t = 13 then [(''response'', VBytes v)]
      else if t = 14 then avp_int ''session_id'' 2 2 v
      else if t = 15 then avp_int ''serial'' 4 4 v
      else if t = 22 then [(''number'', VBytes v)]
      else [])"

text \<open>The class of a pair applied to its bytes, which are at least six.\<close>

definition avp_make :: "bytes \<Rightarrow> avp" where
  "avp_make buf =
     (let flags = bytes_int BE (take 2 buf); l = flags AND 0x3ff;
          vendor = bytes_int BE (take 2 (drop 2 buf)); t = bytes_int BE (take 2 (drop 4 buf));
          v = (if 6 \<le> l then drop 6 (take (nat l) buf) else [])
      in \<lparr>avp_m = drop_bit 15 flags AND 1, avp_h = drop_bit 14 flags AND 1, avp_length = l,
          avp_vendor = vendor, avp_type = t, avp_value = v, avp_attrs = avp_class_attrs vendor t v\<rparr>)"

definition avp_bytes :: "avp \<Rightarrow> bytes result" where
  "avp_bytes a =
     rbind (struct_pack BE [fH, fH, fH]
       [VInt (push_bit 15 (avp_m a) OR push_bit 14 (avp_h a) OR (avp_length a AND 0x3ff)),
        VInt (avp_vendor a), VInt (avp_type a)]) (\<lambda>h. Inr (h @ avp_value a))"

text \<open>One round of \<^verbatim>\<open>parse_avps\<close>.\<close>

definition avp_round :: "bytes \<Rightarrow> avp round" where
  "avp_round buf =
     (if length buf < 6 then Stop
      else
        let l = bytes_int BE (take 2 buf) AND 0x3ff
        in if l < 6 \<or> int (length buf) < l then Stop
           else Item (avp_make (take (nat l) buf)) (drop (nat l) buf))"

definition parse_avps :: "bytes \<Rightarrow> avp list result" where
  "parse_avps buf = parse_loop avp_round buf"

section \<open>Messages\<close>

definition l2tp_hdr :: hdr where
  "l2tp_hdr = [(''_flags'', fH, VInt 2), (''_length'', fH, VInt 0), (''tunnel_id'', fH, VInt 0), (''session_id'', fH, VInt 0)]"

definition l2tp_bits :: bit_fields where
  "l2tp_bits = [(''t'', 1), (''l'', 1), (''_rsv1'', 2), (''s'', 1), (''_rsv2'', 1), (''o'', 1), (''p'', 1), (''_rsv3'', 4), (''ver'', 4)]"

text \<open>The class of a control message, by its \<^verbatim>\<open>_name\<close>; \<^verbatim>\<open>L2TPControl\<close> itself has none.\<close>

definition l2tp_msg_class :: "int option \<Rightarrow> string option" where
  "l2tp_msg_class t =
     (case t of None \<Rightarrow> None
      | Some i \<Rightarrow> map_of [(1, ''sccrq''), (2, ''sccrp''), (3, ''scccn''), (4, ''stopccn''), (6, ''hello''), (7, ''ocrq''),
          (8, ''ocrp''), (9, ''occn''), (10, ''icrq''), (11, ''icrp''), (12, ''iccn''), (14, ''cdn''), (15, ''wen''), (16, ''sli'')] i)"

datatype l2tp_data = L_Raw bytes | L_Control int int "avp list" "int option" "string option"

record l2tp =
  l2_vals :: "pval list"
  l2_data :: l2tp_data

definition l2tp_flags :: "pval list \<Rightarrow> int" where
  "l2tp_flags vs = get_int l2tp_hdr ''_flags'' vs"

definition l2tp_is_control :: "pval list \<Rightarrow> bool" where
  "l2tp_is_control vs \<longleftrightarrow> bf_get l2tp_bits ''t'' (l2tp_flags vs) \<noteq> Inr 0"

text \<open>The message type: that of the first pair of its class, which may lack the attribute.\<close>

fun avps_msg_type :: "avp list \<Rightarrow> int option result" where
  "avps_msg_type [] = Inr None"
| "avps_msg_type (a # as) =
     (if avp_vendor a = 0 \<and> avp_type a = 0
      then (case map_of (avp_attrs a) ''msg_type'' of None \<Rightarrow> Inl AttributeError | Some v \<Rightarrow> Inr (Some (ival v)))
      else avps_msg_type as)"

definition l2tp_unpack :: "bytes \<Rightarrow> l2tp result" where
  "l2tp_unpack buf =
     rbind (class_unpack BE l2tp_hdr buf) (\<lambda>p.
       if l2tp_is_control (obj_vals p)
       then
         (if length (obj_data p) < 4 then Inl NeedData
          else
            rbind (parse_avps (drop 4 (obj_data p))) (\<lambda>as.
            rbind (avps_msg_type as) (\<lambda>t.
              Inr \<lparr>l2_vals = obj_vals p,
                   l2_data = L_Control (bytes_int BE (take 2 (obj_data p))) (bytes_int BE (take 2 (drop 2 (obj_data p))))
                     as t (l2tp_msg_class t)\<rparr>)))
       else Inr \<lparr>l2_vals = obj_vals p, l2_data = L_Raw (obj_data p)\<rparr>)"

definition l2tp_init :: "bytes \<Rightarrow> l2tp result" where
  "l2tp_init = packet_init (hdr_len l2tp_hdr) l2tp_unpack"

text \<open>The classes of control messages have no header table, so they have neither bytes nor a length.\<close>

definition l2tp_bytes :: "l2tp \<Rightarrow> bytes result" where
  "l2tp_bytes r =
     rbind (packet_pack_hdr BE l2tp_hdr (l2_vals r)) (\<lambda>h.
       case l2_data r of L_Raw d \<Rightarrow> Inr (h @ d) | L_Control _ _ _ _ _ \<Rightarrow> Inl AttributeError)"

definition l2tp_len :: "l2tp \<Rightarrow> nat result" where
  "l2tp_len r = (case l2_data r of L_Raw d \<Rightarrow> Inr (hdr_len l2tp_hdr + length d) | L_Control _ _ _ _ _ \<Rightarrow> Inl AttributeError)"

section \<open>Pairs are read back\<close>

definition avp_ok :: "avp \<Rightarrow> bool" where
  "avp_ok a \<longleftrightarrow> avp_m a \<in> {0, 1} \<and> avp_h a \<in> {0, 1} \<and> avp_length a = 6 + int (length (avp_value a)) \<and>
     avp_length a \<le> 0x3ff \<and> avp_attrs a = avp_class_attrs (avp_vendor a) (avp_type a) (avp_value a)"

lemma avp_flags:
  assumes "m \<in> {0, 1}" "h \<in> {0, 1}" "0 \<le> l" "l \<le> 0x3ff"
  defines "f \<equiv> push_bit 15 m OR push_bit 14 h OR (l AND 0x3ff) :: int"
  shows "f AND 0x3ff = l" "drop_bit 15 f AND 1 = m" "drop_bit 14 f AND 1 = h"
proof -
  have "l AND (2 ^ 10 - 1) = l" unfolding and_mask_int using assms(3,4) by simp
  then have l: "l AND 0x3ff = l" by simp
  have "drop_bit 15 l = l div 2 ^ 15" "drop_bit 14 l = l div 2 ^ 14" by (rule drop_bit_int)+
  moreover have "l div 2 ^ 15 = 0" "l div 2 ^ 14 = 0" using assms(3,4) by (simp_all add: div_pos_pos_trivial)
  ultimately have d: "drop_bit 15 l = 0" "drop_bit 14 l = 0" by simp_all
  note s = bit.conj_disj_distrib2 drop_bit_or
  consider "m = 0" "h = 0" | "m = 1" "h = 0" | "m = 0" "h = 1" | "m = 1" "h = 1" using assms(1,2) by blast
  then show "f AND 0x3ff = l" "drop_bit 15 f AND 1 = m" "drop_bit 14 f AND 1 = h"
    unfolding f_def by (cases; simp add: s l d)+
qed

lemma avp_bytes_read:
  assumes "avp_ok a" "avp_bytes a = Inr b"
  shows "length b = nat (avp_length a) \<and> bytes_int BE (take 2 b) AND 0x3ff = avp_length a \<and> avp_make b = a"
proof -
  define f where "f = push_bit 15 (avp_m a) OR push_bit 14 (avp_h a) OR (avp_length a AND 0x3ff)"
  have f: "f AND 0x3ff = avp_length a" "drop_bit 15 f AND 1 = avp_m a" "drop_bit 14 f AND 1 = avp_h a"
    using avp_flags [of "avp_m a" "avp_h a" "avp_length a"] assms(1) by (auto simp: avp_ok_def f_def)
  obtain x y z where p: "pack1 BE fH (VInt f) = Inr x" "pack1 BE fH (VInt (avp_vendor a)) = Inr y"
    "pack1 BE fH (VInt (avp_type a)) = Inr z" "b = x @ y @ z @ avp_value a"
    using assms(2) by (auto simp: avp_bytes_def f_def rbind_Inr_iff simp del: pack1.simps)
  have field: "pack1 BE fH (VInt i) = Inr c \<Longrightarrow> length c = 2 \<and> bytes_int BE c = i" for i c
    using pack_uint_unpack [of BE 2 i c] by (simp add: pack_uint_def unpack_uint_def del: pack1.simps split: if_splits)
  note r = field [OF p(1)] field [OF p(2)] field [OF p(3)]
  have t: "take 2 b = x" "take 2 (drop 2 b) = y" "take 2 (drop 4 b) = z" "length b = 6 + length (avp_value a)" "drop 6 b = avp_value a"
    using r p(4) by simp_all
  then have "length b = nat (avp_length a)" "6 \<le> avp_length a" "take (nat (avp_length a)) b = b"
    using assms(1) by (auto simp: avp_ok_def)
  then show ?thesis
    using r t f assms(1) by (cases a) (simp add: avp_make_def Let_def avp_ok_def)
qed

interpretation avps: item_round avp_round avp_bytes avp_ok
proof
  fix buf x rest
  assume "avp_round buf = Item x rest"
  then show "length rest < length buf" by (auto simp: avp_round_def Let_def split: if_splits)
next
  fix x b rest
  assume x: "avp_ok x" "avp_bytes x = Inr b"
  have r: "length b = nat (avp_length x)" "bytes_int BE (take 2 b) AND 0x3ff = avp_length x" "avp_make b = x" "6 \<le> avp_length x"
    using avp_bytes_read [OF x] x(1) by (auto simp: avp_ok_def)
  then show "avp_round (b @ rest) = Item x rest" by (auto simp: avp_round_def Let_def)
qed (simp add: avp_round_def)

lemma l2tp_tables [simp]: "hdr_len l2tp_hdr = 8" "table_ok l2tp_hdr"
  by (simp_all add: l2tp_hdr_def table_ok_def fmt_ok_def hdr_fields_def)

lemma avp_round_no_fail: "avp_round b \<noteq> Fail e"
  by (simp add: avp_round_def Let_def)

lemma parse_avps_total: "\<exists>as. parse_avps buf = Inr as"
  using avps.loop_total [of buf] avp_round_no_fail by (cases "parse_avps buf") (auto simp: parse_avps_def)

section \<open>Properties\<close>

text \<open>
  A control message made of a header, the two sequence numbers and attribute value pairs that fit
  their fields is parsed to those pairs, and its type is that of the first pair of the type class.
\<close>

theorem l2tp_control_parsed:
  assumes "exact_all (hdr_fmt l2tp_hdr) vs" "l2tp_is_control vs" "packet_pack_hdr BE l2tp_hdr vs = Inr h"
    and "pack_uint BE 2 ns = Inr a" "pack_uint BE 2 nr = Inr b"
    and "list_all avp_ok as" "concat_result avp_bytes as = Inr c" "avps_msg_type as = Inr t"
  shows "l2tp_init (h @ a @ b @ c) = Inr \<lparr>l2_vals = vs, l2_data = L_Control ns nr as t (l2tp_msg_class t)\<rparr>"
proof -
  have "length a = 2 \<and> bytes_int BE a = ns" "length b = 2 \<and> bytes_int BE b = nr"
    using pack_uint_unpack [OF assms(4)] pack_uint_unpack [OF assms(5)] by (auto simp: unpack_uint_def)
  moreover have "class_unpack BE l2tp_hdr (h @ a @ b @ c) = Inr (obj_make vs (a @ b @ c))"
    using class_pack_read [OF l2tp_tables(2) assms(1,3)] by blast
  moreover have "parse_avps c = Inr as" unfolding parse_avps_def by (rule avps.loop_reads [OF assms(6,7)])
  ultimately show ?thesis
    using assms(2,8) by (simp add: l2tp_init_def packet_init_Inr l2tp_unpack_def obj_make_def)
qed

definition example_avps :: "avp list" where
  "example_avps =
     [\<lparr>avp_m = 1, avp_h = 0, avp_length = 8, avp_vendor = 0, avp_type = 0, avp_value = [0, 1], avp_attrs = [(''msg_type'', VInt 1)]\<rparr>,
      \<lparr>avp_m = 1, avp_h = 0, avp_length = 9, avp_vendor = 0, avp_type = 7, avp_value = [97, 98, 99],
       avp_attrs = [(''hostname'', VBytes [97, 98, 99])]\<rparr>]"

lemma l2tp_t_bit: "l2tp_is_control vs = (take_bit 1 (drop_bit 15 (l2tp_flags vs)) \<noteq> 0)"
  by (simp add: l2tp_is_control_def bf_get_take_bit bf_locate_def l2tp_bits_def bits_total_def starts_with_def)

theorem l2tp_control_parsed_witness:
  "\<exists>buf. l2tp_init buf = Inr \<lparr>l2_vals = map VInt [0xc802, 0, 1, 0], l2_data = L_Control 0 0 example_avps (Some 1) (Some ''sccrq'')\<rparr>"
proof -
  let ?vs = "map VInt [0xc802, 0, 1, 0]"
  have e: "exact_all (hdr_fmt l2tp_hdr) ?vs" by (simp add: l2tp_hdr_def)
  have c: "l2tp_is_control ?vs"
    by (simp add: l2tp_t_bit l2tp_flags_def get_int_def l2tp_hdr_def hdr_fields_def drop_bit_int)
  obtain h where h: "packet_pack_hdr BE l2tp_hdr ?vs = Inr h" by (simp add: packet_pack_hdr_def l2tp_hdr_def)
  obtain a where a: "pack_uint BE 2 0 = Inr a" by (simp add: pack_uint_eq)
  have ok: "list_all avp_ok example_avps"
    by (simp add: example_avps_def avp_ok_def avp_class_attrs_def avp_int_def bytes_int_def be_int_def)
  obtain d where d: "concat_result avp_bytes example_avps = Inr d"
    by (simp add: example_avps_def avp_bytes_def)
  have "avps_msg_type example_avps = Inr (Some 1)" by (simp add: example_avps_def)
  then have "l2tp_init (h @ a @ a @ d) = Inr \<lparr>l2_vals = ?vs, l2_data = L_Control 0 0 example_avps (Some 1) (l2tp_msg_class (Some 1))\<rparr>"
    by (rule l2tp_control_parsed [OF e c h a a ok d])
  then show ?thesis by (auto simp: l2tp_msg_class_def)
qed

text \<open>
  A control message that was parsed can neither be packed nor measured; a data message packs to
  the bytes it was parsed from.
\<close>

theorem l2tp_control_not_packed:
  assumes "l2tp_init buf = Inr r"
  shows "if l2tp_is_control (l2_vals r) then l2tp_bytes r = Inl AttributeError \<and> l2tp_len r = Inl AttributeError
    else l2tp_bytes r = Inr buf \<and> l2tp_len r = Inr (length buf)"
proof -
  obtain p where p: "class_unpack BE l2tp_hdr buf = Inr p" "l2_vals r = obj_vals p"
    "if l2tp_is_control (obj_vals p) then \<exists>ns nr as t c. l2_data r = L_Control ns nr as t c else l2_data r = L_Raw (obj_data p)"
    using assms by (auto simp: l2tp_init_def packet_init_Inr l2tp_unpack_def rbind_Inr_iff split: if_splits)
  have "packet_pack_hdr BE l2tp_hdr (obj_vals p) = Inr (take 8 buf)"
    using packet_class.unpack_pack_hdr [OF table_class [OF l2tp_tables(2)], of BE buf p] p(1) by (simp add: class_unpack_def)
  then show ?thesis
    using p class_unpack_data [OF p(1)] by (auto simp: l2tp_bytes_def l2tp_len_def)
qed

theorem l2tp_control_not_packed_witness:
  "\<exists>r. l2tp_init [0x80, 2, 0, 12, 0, 1, 0, 0, 0, 0, 0, 0] = Inr r \<and> l2tp_bytes r = Inl AttributeError"
proof -
  let ?b = "[0x80, 2, 0, 12, 0, 1, 0, 0, 0, 0, 0, 0] :: bytes"
  obtain p where p: "class_unpack BE l2tp_hdr ?b = Inr p" "l2tp_is_control (obj_vals p)" "obj_data p = [0, 0, 0, 0]"
    by (simp add: class_unpack_def packet_unpack_def l2tp_hdr_def struct_unpack_def obj_make_def l2tp_t_bit l2tp_flags_def
        get_int_def hdr_fields_def bytes_int_def be_int_def drop_bit_int)
  have "parse_avps [] = Inr []" by (simp add: parse_avps_def parse_loop_Stop avp_round_def)
  then obtain r where r: "l2tp_init ?b = Inr r" "l2_vals r = obj_vals p"
    using p by (simp add: l2tp_init_def packet_init_def l2tp_unpack_def)
  then show ?thesis using l2tp_control_not_packed [OF r(1)] p(2) by auto
qed

text \<open>
  A control message whose first pair of the message type has a value of less than two bytes is an
  \<open>AttributeError\<close> that no caller of an unpack expects.
\<close>

theorem l2tp_short_msg_type:
  assumes "class_unpack BE l2tp_hdr buf = Inr p" "l2tp_is_control (obj_vals p)" "4 \<le> length (obj_data p)"
    and "parse_avps (drop 4 (obj_data p)) = Inr (a # as)" "avp_vendor a = 0" "avp_type a = 0"
    and "avp_attrs a = avp_class_attrs 0 0 (avp_value a)" "length (avp_value a) < 2"
  shows "l2tp_init buf = Inl AttributeError"
  using assms by (simp add: l2tp_init_def packet_init_def l2tp_unpack_def avp_class_attrs_def avp_int_def)

theorem l2tp_short_msg_type_witness:
  "l2tp_init [0x80, 2, 0, 18, 0, 1, 0, 0, 0, 0, 0, 0, 0x80, 6, 0, 0, 0, 0] = Inl AttributeError"
proof -
  let ?b = "[0x80, 2, 0, 18, 0, 1, 0, 0, 0, 0, 0, 0, 0x80, 6, 0, 0, 0, 0] :: bytes"
  obtain p where p: "class_unpack BE l2tp_hdr ?b = Inr p" "l2tp_is_control (obj_vals p)"
    "obj_data p = [0, 0, 0, 0, 0x80, 6, 0, 0, 0, 0]"
    by (simp add: class_unpack_def packet_unpack_def l2tp_hdr_def struct_unpack_def obj_make_def l2tp_t_bit l2tp_flags_def
        get_int_def hdr_fields_def bytes_int_def be_int_def drop_bit_int)
  define a where "a = avp_make [0x80, 6, 0, 0, 0, 0]"
  have a: "avp_vendor a = 0" "avp_type a = 0" "avp_value a = []" "avp_attrs a = avp_class_attrs 0 0 []"
    by (simp_all add: a_def avp_make_def bytes_int_def be_int_def Let_def)
  have "avp_round [0x80, 6, 0, 0, 0, 0] = Item a []"
    by (simp add: avp_round_def bytes_int_def be_int_def a_def)
  then have "parse_avps [0x80, 6, 0, 0, 0, 0] = Inr [a]"
    by (simp add: parse_avps_def parse_loop_Item parse_loop_Stop avps.stops)
  then show ?thesis using l2tp_short_msg_type [OF p(1,2), of a "[]"] p(3) a by simp
qed

end
