(* ===== verification/Ip6.thy ===== *)
theory Ip6
  imports Ip "HOL-Library.AList"
begin

text \<open>
  IPv6, \<^verbatim>\<open>dpkt/ip6.py\<close>: the extension header classes, the chain of extension headers, the class
  \<^verbatim>\<open>IP6\<close> with \<^verbatim>\<open>unpack\<close>, \<^verbatim>\<open>headers_str\<close>, \<^verbatim>\<open>__bytes__\<close> and \<^verbatim>\<open>__len__\<close>. The registry of upper layer
  protocols is the one of IPv4 and a parameter. Packing fills in a zero transport checksum and sets
  the attribute \<^verbatim>\<open>p\<close>; it returns the updated packet with the bytes.
\<close>

section \<open>Extension headers\<close>

subsection \<open>Hop-by-hop and destination options\<close>

record x_opts =
  x_opts_nxt :: int
  x_opts_len :: int
  x_opts_options :: "(int \<times> int \<times> bytes) list"
  x_opts_data :: "bytes"

definition x_opts_hdr :: hdr where
  "x_opts_hdr =
    [(''nxt'', fB, VInt 0),
     (''len'', fB, VInt 0)]"

definition x_opts_vals :: "x_opts \<Rightarrow> pval list" where
  "x_opts_vals r =
    [VInt (x_opts_nxt r), VInt (x_opts_len r)]"

definition x_opts_make :: "pval list \<Rightarrow> bytes \<Rightarrow> x_opts" where
  "x_opts_make vs d =
    \<lparr>x_opts_nxt = ival (vs ! 0), x_opts_len = ival (vs ! 1), x_opts_options = [],
     x_opts_data = d\<rparr>"

definition x_opts_bytes :: "x_opts \<Rightarrow> bytes result" where
  "x_opts_bytes r = packet_bytes BE x_opts_hdr (x_opts_vals r) (x_opts_data r)"

lemma x_opts_hdr_len [hdr_simps, simp]: "hdr_len x_opts_hdr = 2"
  by (simp add: x_opts_hdr_def)

interpretation x_opts_class: packet_class BE x_opts_hdr x_opts_vals x_opts_make x_opts_data
  by unfold_locales (auto simp: x_opts_hdr_def x_opts_vals_def x_opts_make_def fmt_ok_def hdr_simps)

definition x_opts_length :: "x_opts \<Rightarrow> nat" where
  "x_opts_length r = nat ((x_opts_len r + 1) * 8)"

text \<open>
  The option loop of \<^verbatim>\<open>IP6OptsHeader.unpack\<close>: the index runs up to \<open>lim\<close> in the data after the two
  bytes of the header; reading beyond the data is \<open>NeedData\<close>. Pad1 and PadN are skipped.
\<close>

definition opt_byte :: "bytes \<Rightarrow> nat \<Rightarrow> byte result" where
  "opt_byte d i = (if i < length d then Inr (d ! i) else Inl NeedData)"

function opts_scan :: "nat \<Rightarrow> bytes \<Rightarrow> nat \<Rightarrow> (int \<times> int \<times> bytes) list result" where
  "opts_scan lim d i =
     (if lim \<le> i then Inr []
      else rbind (opt_byte d i) (\<lambda>t.
        if t = 0 then opts_scan lim d (i + 1)
        else rbind (opt_byte d (i + 1)) (\<lambda>l.
          if t = 1 then opts_scan lim d (i + unat l + 2)
          else rbind (opts_scan lim d (i + unat l + 2)) (\<lambda>os.
            Inr ((ord t, ord l, take (unat l) (drop (i + 2) d)) # os)))))"
  by pat_completeness auto

termination
  by (relation "measure (\<lambda>(lim, d, i). lim - i)") auto

declare opts_scan.simps [simp del]

definition x_opts_unpack :: "bytes \<Rightarrow> x_opts result" where
  "x_opts_unpack buf =
     rbind (packet_unpack BE x_opts_hdr x_opts_make buf) (\<lambda>r.
     rbind (opts_scan (x_opts_length r - 2) (x_opts_data r) 0) (\<lambda>os.
       Inr (r\<lparr>x_opts_options := os, x_opts_data := drop 2 (take (x_opts_length r) buf)\<rparr>)))"

definition x_opts_init :: "bytes \<Rightarrow> x_opts result" where
  "x_opts_init = packet_init 2 x_opts_unpack"

subsection \<open>Routing header\<close>

record x_routing =
  x_routing_nxt :: int
  x_routing_len :: int
  x_routing_type :: int
  x_routing_segs_left :: int
  x_routing_rsvd_sl_bits :: int
  x_routing_addresses :: "bytes list"
  x_routing_data :: "bytes"

definition x_routing_hdr :: hdr where
  "x_routing_hdr =
    [(''nxt'', fB, VInt 0),
     (''len'', fB, VInt 0),
     (''type'', fB, VInt 0),
     (''segs_left'', fB, VInt 0),
     (''_rsvd_sl_bits'', fI, VInt 0)]"

definition x_routing_vals :: "x_routing \<Rightarrow> pval list" where
  "x_routing_vals r =
    [VInt (x_routing_nxt r), VInt (x_routing_len r), VInt (x_routing_type r),
     VInt (x_routing_segs_left r), VInt (x_routing_rsvd_sl_bits r)]"

definition x_routing_make :: "pval list \<Rightarrow> bytes \<Rightarrow> x_routing" where
  "x_routing_make vs d =
    \<lparr>x_routing_nxt = ival (vs ! 0), x_routing_len = ival (vs ! 1),
     x_routing_type = ival (vs ! 2), x_routing_segs_left = ival (vs ! 3),
     x_routing_rsvd_sl_bits = ival (vs ! 4), x_routing_addresses = [], x_routing_data = d\<rparr>"

definition x_routing_bytes :: "x_routing \<Rightarrow> bytes result" where
  "x_routing_bytes r = packet_bytes BE x_routing_hdr (x_routing_vals r) (x_routing_data r)"

lemma x_routing_hdr_len [hdr_simps, simp]: "hdr_len x_routing_hdr = 8"
  by (simp add: x_routing_hdr_def)

interpretation x_routing_class: packet_class BE x_routing_hdr x_routing_vals x_routing_make x_routing_data
  by unfold_locales (auto simp: x_routing_hdr_def x_routing_vals_def x_routing_make_def fmt_ok_def hdr_simps)

definition x_routing_bits :: bit_fields where
  "x_routing_bits = [(''_rsvd'', 8), (''sl_bits'', 24)]"

definition x_routing_length :: "x_routing \<Rightarrow> nat" where
  "x_routing_length r = nat (x_routing_len r * 8 + 8)"

definition x_routing_unpack :: "bytes \<Rightarrow> x_routing result" where
  "x_routing_unpack buf =
     rbind (packet_unpack BE x_routing_hdr x_routing_make buf) (\<lambda>r.
       let n = nat (x_routing_len r div 2); b = take (n * 16) (drop 8 buf) in
       Inr (r\<lparr>x_routing_data := b, x_routing_addresses := map (\<lambda>i. take 16 (drop (i * 16) b)) [0..<n]\<rparr>))"

definition x_routing_init :: "bytes \<Rightarrow> x_routing result" where
  "x_routing_init = packet_init 8 x_routing_unpack"

subsection \<open>Fragment header\<close>

record x_frag =
  x_frag_nxt :: int
  x_frag_resv :: int
  x_frag_frag_off_resv_m :: int
  x_frag_id :: int
  x_frag_data :: "bytes"

definition x_frag_hdr :: hdr where
  "x_frag_hdr =
    [(''nxt'', fB, VInt 0),
     (''_resv'', fB, VInt 0),
     (''_frag_off_resv_m'', fH, VInt 0),
     (''id'', fI, VInt 0)]"

definition x_frag_vals :: "x_frag \<Rightarrow> pval list" where
  "x_frag_vals r =
    [VInt (x_frag_nxt r), VInt (x_frag_resv r), VInt (x_frag_frag_off_resv_m r),
     VInt (x_frag_id r)]"

definition x_frag_make :: "pval list \<Rightarrow> bytes \<Rightarrow> x_frag" where
  "x_frag_make vs d =
    \<lparr>x_frag_nxt = ival (vs ! 0), x_frag_resv = ival (vs ! 1),
     x_frag_frag_off_resv_m = ival (vs ! 2), x_frag_id = ival (vs ! 3), x_frag_data = d\<rparr>"

definition x_frag_bytes :: "x_frag \<Rightarrow> bytes result" where
  "x_frag_bytes r = packet_bytes BE x_frag_hdr (x_frag_vals r) (x_frag_data r)"

lemma x_frag_hdr_len [hdr_simps, simp]: "hdr_len x_frag_hdr = 8"
  by (simp add: x_frag_hdr_def)

interpretation x_frag_class: packet_class BE x_frag_hdr x_frag_vals x_frag_make x_frag_data
  by unfold_locales (auto simp: x_frag_hdr_def x_frag_vals_def x_frag_make_def fmt_ok_def hdr_simps)

definition x_frag_bits :: bit_fields where
  "x_frag_bits = [(''frag_off'', 13), (''_resv'', 2), (''m_flag'', 1)]"

definition x_frag_off :: "x_frag \<Rightarrow> int result" where
  "x_frag_off r = bf_get x_frag_bits ''frag_off'' (x_frag_frag_off_resv_m r)"

definition x_frag_unpack :: "bytes \<Rightarrow> x_frag result" where
  "x_frag_unpack buf = rbind (packet_unpack BE x_frag_hdr x_frag_make buf) (\<lambda>r. Inr (r\<lparr>x_frag_data := []\<rparr>))"

definition x_frag_init :: "bytes \<Rightarrow> x_frag result" where
  "x_frag_init = packet_init 8 x_frag_unpack"

subsection \<open>Authentication header\<close>

record x_ah =
  x_ah_nxt :: int
  x_ah_len :: int
  x_ah_resv :: int
  x_ah_spi :: int
  x_ah_seq :: int
  x_ah_auth_data :: "bytes"
  x_ah_data :: "bytes"

definition x_ah_hdr :: hdr where
  "x_ah_hdr =
    [(''nxt'', fB, VInt 0),
     (''len'', fB, VInt 0),
     (''_resv'', fH, VInt 0),
     (''spi'', fI, VInt 0),
     (''seq'', fI, VInt 0)]"

definition x_ah_vals :: "x_ah \<Rightarrow> pval list" where
  "x_ah_vals r =
    [VInt (x_ah_nxt r), VInt (x_ah_len r), VInt (x_ah_resv r), VInt (x_ah_spi r),
     VInt (x_ah_seq r)]"

definition x_ah_make :: "pval list \<Rightarrow> bytes \<Rightarrow> x_ah" where
  "x_ah_make vs d =
    \<lparr>x_ah_nxt = ival (vs ! 0), x_ah_len = ival (vs ! 1), x_ah_resv = ival (vs ! 2),
     x_ah_spi = ival (vs ! 3), x_ah_seq = ival (vs ! 4), x_ah_auth_data = [], x_ah_data = d\<rparr>"

definition x_ah_bytes :: "x_ah \<Rightarrow> bytes result" where
  "x_ah_bytes r = packet_bytes BE x_ah_hdr (x_ah_vals r) (x_ah_data r)"

lemma x_ah_hdr_len [hdr_simps, simp]: "hdr_len x_ah_hdr = 12"
  by (simp add: x_ah_hdr_def)

interpretation x_ah_class: packet_class BE x_ah_hdr x_ah_vals x_ah_make x_ah_data
  by unfold_locales (auto simp: x_ah_hdr_def x_ah_vals_def x_ah_make_def fmt_ok_def hdr_simps)

definition x_ah_length :: "x_ah \<Rightarrow> nat" where
  "x_ah_length r = nat ((x_ah_len r + 2) * 4)"

definition x_ah_unpack :: "bytes \<Rightarrow> x_ah result" where
  "x_ah_unpack buf =
     rbind (packet_unpack BE x_ah_hdr x_ah_make buf) (\<lambda>r.
       Inr (r\<lparr>x_ah_auth_data := py_upto (x_ah_data r) ((x_ah_len r - 1) * 4)\<rparr>))"

definition x_ah_init :: "bytes \<Rightarrow> x_ah result" where
  "x_ah_init = packet_init 12 x_ah_unpack"

subsection \<open>Encapsulating security payload\<close>

record x_esp =
  x_esp_spi :: int
  x_esp_seq :: int
  x_esp_data :: "bytes"

definition x_esp_hdr :: hdr where
  "x_esp_hdr =
    [(''spi'', fI, VInt 0),
     (''seq'', fI, VInt 0)]"

definition x_esp_vals :: "x_esp \<Rightarrow> pval list" where
  "x_esp_vals r =
    [VInt (x_esp_spi r), VInt (x_esp_seq r)]"

definition x_esp_make :: "pval list \<Rightarrow> bytes \<Rightarrow> x_esp" where
  "x_esp_make vs d =
    \<lparr>x_esp_spi = ival (vs ! 0), x_esp_seq = ival (vs ! 1), x_esp_data = d\<rparr>"

definition x_esp_unpack :: "bytes \<Rightarrow> x_esp result" where
  "x_esp_unpack = packet_unpack BE x_esp_hdr x_esp_make"

definition x_esp_init :: "bytes \<Rightarrow> x_esp result" where
  "x_esp_init = packet_init (hdr_len x_esp_hdr) x_esp_unpack"

definition x_esp_bytes :: "x_esp \<Rightarrow> bytes result" where
  "x_esp_bytes r = packet_bytes BE x_esp_hdr (x_esp_vals r) (x_esp_data r)"

lemma x_esp_hdr_len [hdr_simps, simp]: "hdr_len x_esp_hdr = 8"
  by (simp add: x_esp_hdr_def)

interpretation x_esp_class: packet_class BE x_esp_hdr x_esp_vals x_esp_make x_esp_data
  by unfold_locales (auto simp: x_esp_hdr_def x_esp_vals_def x_esp_make_def fmt_ok_def hdr_simps)

definition x_esp_length :: "x_esp \<Rightarrow> nat" where
  "x_esp_length r = 8 + length (x_esp_data r)"

section \<open>The chain of extension headers\<close>

text \<open>
  \<open>ext_init\<close> is \<^verbatim>\<open>EXT_HDRS_CLS[k](buf)\<close>; \<open>ext_length\<close> is the attribute \<^verbatim>\<open>length\<close>; \<open>ext_nxt\<close> is
  \<^verbatim>\<open>getattr(ext, 'nxt', None)\<close>, which only the ESP header lacks.
\<close>

datatype ext =
    X_Hop x_opts
  | X_Routing x_routing
  | X_Fragment x_frag
  | X_AH x_ah
  | X_ESP x_esp
  | X_Dst x_opts

definition EXT_HDRS :: "int list" where
  "EXT_HDRS = [0, 43, 44, 51, 50, 60]"

definition ext_init :: "int \<Rightarrow> bytes \<Rightarrow> ext result" where
  "ext_init k buf =
     (if k = 0 then rbind (x_opts_init buf) (\<lambda>r. Inr (X_Hop r))
      else if k = 43 then rbind (x_routing_init buf) (\<lambda>r. Inr (X_Routing r))
      else if k = 44 then rbind (x_frag_init buf) (\<lambda>r. Inr (X_Fragment r))
      else if k = 50 then rbind (x_esp_init buf) (\<lambda>r. Inr (X_ESP r))
      else if k = 51 then rbind (x_ah_init buf) (\<lambda>r. Inr (X_AH r))
      else if k = 60 then rbind (x_opts_init buf) (\<lambda>r. Inr (X_Dst r))
      else Inl KeyError)"

fun ext_length :: "ext \<Rightarrow> nat" where
  "ext_length (X_Hop r) = x_opts_length r"
| "ext_length (X_Dst r) = x_opts_length r"
| "ext_length (X_Routing r) = x_routing_length r"
| "ext_length (X_Fragment r) = 8"
| "ext_length (X_AH r) = x_ah_length r"
| "ext_length (X_ESP r) = x_esp_length r"

fun ext_nxt :: "ext \<Rightarrow> int option" where
  "ext_nxt (X_Hop r) = Some (x_opts_nxt r)"
| "ext_nxt (X_Dst r) = Some (x_opts_nxt r)"
| "ext_nxt (X_Routing r) = Some (x_routing_nxt r)"
| "ext_nxt (X_Fragment r) = Some (x_frag_nxt r)"
| "ext_nxt (X_AH r) = Some (x_ah_nxt r)"
| "ext_nxt (X_ESP r) = None"

fun ext_bytes :: "ext \<Rightarrow> bytes result" where
  "ext_bytes (X_Hop r) = x_opts_bytes r"
| "ext_bytes (X_Dst r) = x_opts_bytes r"
| "ext_bytes (X_Routing r) = x_routing_bytes r"
| "ext_bytes (X_Fragment r) = x_frag_bytes r"
| "ext_bytes (X_AH r) = x_ah_bytes r"
| "ext_bytes (X_ESP r) = x_esp_bytes r"

fun ext_pkt_len :: "ext \<Rightarrow> nat" where
  "ext_pkt_len (X_Hop r) = packet_len x_opts_hdr (x_opts_data r)"
| "ext_pkt_len (X_Dst r) = packet_len x_opts_hdr (x_opts_data r)"
| "ext_pkt_len (X_Routing r) = packet_len x_routing_hdr (x_routing_data r)"
| "ext_pkt_len (X_Fragment r) = packet_len x_frag_hdr (x_frag_data r)"
| "ext_pkt_len (X_AH r) = packet_len x_ah_hdr (x_ah_data r)"
| "ext_pkt_len (X_ESP r) = packet_len x_esp_hdr (x_esp_data r)"

fun ext_frag_off :: "ext \<Rightarrow> int result" where
  "ext_frag_off (X_Fragment r) = x_frag_off r"
| "ext_frag_off _ = Inl AttributeError"

lemma ext_len_nonneg:
  "packet_unpack BE x_opts_hdr x_opts_make buf = Inr a \<Longrightarrow> 0 \<le> x_opts_len a"
  "packet_unpack BE x_routing_hdr x_routing_make buf = Inr b \<Longrightarrow> 0 \<le> x_routing_len b"
  "packet_unpack BE x_ah_hdr x_ah_make buf = Inr c \<Longrightarrow> 0 \<le> x_ah_len c"
  using x_opts_class.unpack_vals [of buf a] x_routing_class.unpack_vals [of buf b]
    x_ah_class.unpack_vals [of buf c]
  by (auto simp: x_opts_hdr_def x_opts_vals_def x_routing_hdr_def x_routing_vals_def
      x_ah_hdr_def x_ah_vals_def hdr_simps)

lemma ext_init_progress:
  assumes "ext_init k buf = Inr x"
  shows "0 < ext_length x \<and> buf \<noteq> []"
proof -
  note defs = ext_init_def x_opts_init_def x_opts_unpack_def x_routing_init_def x_routing_unpack_def
    x_frag_init_def x_frag_unpack_def x_ah_init_def x_ah_unpack_def x_esp_init_def x_esp_unpack_def
  have "buf \<noteq> []" using assms
    by (auto simp: defs result_simps dest!: packet_unpack_ok split: if_splits)
  moreover have "0 < ext_length x" using assms
    by (auto simp: defs result_simps Let_def x_opts_length_def x_routing_length_def x_ah_length_def
        x_esp_length_def dest!: ext_len_nonneg split: if_splits)
  ultimately show ?thesis by simp
qed

text \<open>
  The loop of \<^verbatim>\<open>IP6.unpack\<close>: the headers with their numbers, the number of what follows (none
  after ESP), and the rest of the buffer.
\<close>

function ext_loop :: "int option \<Rightarrow> bytes \<Rightarrow> ((int \<times> ext) list \<times> int option \<times> bytes) result" where
  "ext_loop nxt buf =
     (case nxt of
        None \<Rightarrow> Inr ([], None, buf)
      | Some k \<Rightarrow>
          (if k \<in> set EXT_HDRS then
             rbind (ext_init k buf) (\<lambda>x.
             rbind (ext_loop (ext_nxt x) (drop (ext_length x) buf)) (\<lambda>(xs, n, b).
               Inr ((k, x) # xs, n, b)))
           else Inr ([], Some k, buf)))"
  by pat_completeness auto

termination
  by (relation "measure (\<lambda>(nxt, buf). length buf)") (auto dest: ext_init_progress)

declare ext_loop.simps [simp del]

section \<open>The packet\<close>

text \<open>
  \<open>ip6_all_ext\<close> is \<^verbatim>\<open>all_extension_headers\<close>, \<open>ip6_exts\<close> the dictionary \<^verbatim>\<open>extension_hdrs\<close>; both are
  empty where the attribute does not exist, which the code treats alike.
\<close>

record 'd ip6 =
  ip6_v_fc_flow :: int
  ip6_plen :: int
  ip6_nxt :: int
  ip6_hlim :: int
  ip6_src :: bytes
  ip6_dst :: bytes
  ip6_all_ext :: "ext list"
  ip6_exts :: "(int \<times> ext) list"
  ip6_p :: "int option"
  ip6_data :: "'d"

definition ip6_hdr :: hdr where
  "ip6_hdr =
    [(''_v_fc_flow'', fI, VInt 0x60000000),
     (''plen'', fH, VInt 0),
     (''nxt'', fB, VInt 0),
     (''hlim'', fB, VInt 0),
     (''src'', Str 16, VBytes []),
     (''dst'', Str 16, VBytes [])]"

definition ip6_vals :: "'d ip6 \<Rightarrow> pval list" where
  "ip6_vals r =
    [VInt (ip6_v_fc_flow r), VInt (ip6_plen r), VInt (ip6_nxt r), VInt (ip6_hlim r),
     VBytes (ip6_src r), VBytes (ip6_dst r)]"

definition ip6_make :: "pval list \<Rightarrow> bytes \<Rightarrow> bytes ip6" where
  "ip6_make vs d =
    \<lparr>ip6_v_fc_flow = ival (vs ! 0), ip6_plen = ival (vs ! 1), ip6_nxt = ival (vs ! 2),
     ip6_hlim = ival (vs ! 3), ip6_src = bval (vs ! 4), ip6_dst = bval (vs ! 5), ip6_all_ext = [],
     ip6_exts = [], ip6_p = None, ip6_data = d\<rparr>"

lemma ip6_hdr_len [hdr_simps, simp]: "hdr_len ip6_hdr = 40"
  by (simp add: ip6_hdr_def)

interpretation ip6_class: packet_class BE ip6_hdr ip6_vals ip6_make ip6_data
  by unfold_locales (auto simp: ip6_hdr_def ip6_vals_def ip6_make_def fmt_ok_def hdr_simps)

definition ip6_bits :: bit_fields where
  "ip6_bits = [(''v'', 4), (''fc'', 8), (''flow'', 20)]"

definition ip6_with :: "bytes ip6 \<Rightarrow> (int \<times> ext) list \<Rightarrow> int option \<Rightarrow> 'd \<Rightarrow> 'd ip6" where
  "ip6_with h xs n d =
     \<lparr>ip6_v_fc_flow = ip6_v_fc_flow h, ip6_plen = ip6_plen h, ip6_nxt = ip6_nxt h,
      ip6_hlim = ip6_hlim h, ip6_src = ip6_src h, ip6_dst = ip6_dst h, ip6_all_ext = map snd xs,
      ip6_exts = foldl (\<lambda>al (k, x). AList.update k x al) [] xs, ip6_p = n, ip6_data = d\<rparr>"

text \<open>
  \<^verbatim>\<open>IP6.unpack\<close>. Whether the packet is a later fragment is decided on the attribute \<^verbatim>\<open>frag_off\<close> of
  the last extension header when the first one is a fragment header.
\<close>

definition ip6_body :: "bytes ip6 \<Rightarrow> bytes" where
  "ip6_body h = (if ip6_plen h \<noteq> 0 then take (nat (ip6_plen h)) (ip6_data h) else ip6_data h)"

definition ip6_unpack :: "'p registry \<Rightarrow> bytes \<Rightarrow> ('p payload) ip6 result" where
  "ip6_unpack sw buf =
     rbind (packet_unpack BE ip6_hdr ip6_make buf) (\<lambda>h.
       rbind (ext_loop (Some (ip6_nxt h)) (ip6_body h)) (\<lambda>(xs, n, b).
       rbind (if ip6_nxt h = 44 then ext_frag_off (snd (last xs)) else Inr 0) (\<lambda>off.
       rbind (if 0 < off then Inr (Raw b)
              else (case n of None \<Rightarrow> Inr (Raw b) | Some k \<Rightarrow> dispatch sw k b)) (\<lambda>d.
         Inr (ip6_with h xs n d)))))"

definition ip6_init :: "'p registry \<Rightarrow> bytes \<Rightarrow> ('p payload) ip6 result" where
  "ip6_init sw = packet_init (hdr_len ip6_hdr) (ip6_unpack sw)"

fun ext_list_bytes :: "ext list \<Rightarrow> bytes result" where
  "ext_list_bytes [] = Inr []"
| "ext_list_bytes (x # xs) = rbind (ext_bytes x) (\<lambda>a. rbind (ext_list_bytes xs) (\<lambda>b. Inr (a @ b)))"

text \<open>The second half of \<^verbatim>\<open>headers_str\<close>: the dictionary in the order of \<^verbatim>\<open>EXT_HDRS\<close>.\<close>

fun ext_dict_bytes :: "(int \<times> ext) list \<Rightarrow> int list \<Rightarrow> int \<Rightarrow> bytes \<Rightarrow> (int \<times> bytes) result" where
  "ext_dict_bytes d [] nxt buf = Inr (nxt, buf)"
| "ext_dict_bytes d (k # ks) nxt buf =
     (case map_of d k of
        None \<Rightarrow> ext_dict_bytes d ks nxt buf
      | Some x \<Rightarrow>
          (case ext_nxt x of
             None \<Rightarrow> Inl AttributeError
           | Some n \<Rightarrow> rbind (ext_bytes x) (\<lambda>b. ext_dict_bytes d ks n (buf @ b))))"

definition headers_str :: "'d ip6 \<Rightarrow> (int \<times> bytes) result" where
  "headers_str r =
     (if ip6_all_ext r \<noteq> [] then
        (case ext_nxt (last (ip6_all_ext r)) of
           None \<Rightarrow> Inl AttributeError
         | Some n \<Rightarrow> rbind (ext_list_bytes (ip6_all_ext r)) (\<lambda>b. Inr (n, b)))
      else ext_dict_bytes (ip6_exts r) EXT_HDRS (ip6_nxt r) [])"

text \<open>The pseudo header \<^verbatim>\<open>struct.pack('>16s16sxBH', src, dst, p, len(p))\<close>.\<close>

definition ip6_pseudo :: "bytes \<Rightarrow> bytes \<Rightarrow> int \<Rightarrow> nat \<Rightarrow> bytes result" where
  "ip6_pseudo src dst p n =
     struct_pack BE [Str 16, Str 16, Pad, fB, fH] [VBytes src, VBytes dst, VInt p, VInt (int n)]"

definition ip6_transport_sum :: "'p proto_ops \<Rightarrow> 'd ip6 \<Rightarrow> int \<Rightarrow> 'p \<Rightarrow> 'p result" where
  "ip6_transport_sum ops r pr x =
     rbind (op_bytes ops x) (\<lambda>p.
     rbind (ip6_pseudo (ip6_src r) (ip6_dst r) pr (length p)) (\<lambda>ph.
     rbind (in_cksum_done (in_cksum_add (in_cksum_add 0 ph) p)) (\<lambda>c. Inr (op_set_sum ops c x))))"

text \<open>The test \<^verbatim>\<open>hasattr(self.data, 'sum') and not self.data.sum\<close> for the protocols with checksums.\<close>

definition ip6_needs_sum :: "'p proto_ops \<Rightarrow> int \<Rightarrow> 'p payload \<Rightarrow> 'p option" where
  "ip6_needs_sum ops pr d =
     (case d of
        Raw b \<Rightarrow> None
      | Pkt x \<Rightarrow> if (pr = 6 \<or> pr = 17 \<or> pr = 58) \<and> op_sum ops x = Inr 0 then Some x else None)"

definition ip6_bytes :: "'p proto_ops \<Rightarrow> ('p payload) ip6 \<Rightarrow> (bytes \<times> ('p payload) ip6) result" where
  "ip6_bytes ops r0 =
     rbind (headers_str r0) (\<lambda>(pr, hs).
       let r1 = r0\<lparr>ip6_p := Some pr\<rparr> in
       rbind (case ip6_needs_sum ops pr (ip6_data r1) of
                None \<Rightarrow> Inr r1
              | Some x \<Rightarrow> rbind (ip6_transport_sum ops r1 pr x) (\<lambda>x'. Inr (r1\<lparr>ip6_data := Pkt x'\<rparr>))) (\<lambda>r.
       rbind (packet_pack_hdr BE ip6_hdr (ip6_vals r)) (\<lambda>h.
       rbind (payload_bytes ops (ip6_data r)) (\<lambda>b.
         Inr (h @ hs @ b, r)))))"

definition ip6_pkt_len :: "'p proto_ops \<Rightarrow> ('p payload) ip6 \<Rightarrow> nat" where
  "ip6_pkt_len ops r =
     hdr_len ip6_hdr + payload_len ops (ip6_data r) +
     sum_list (map ext_pkt_len (if ip6_all_ext r \<noteq> [] then ip6_all_ext r else map snd (ip6_exts r)))"

section \<open>Headers that pack to what they were parsed from\<close>

text \<open>
  All extension headers but ESP and AH, and routing headers with a whole number of addresses.
\<close>

fun plain_ext :: "ext \<Rightarrow> bool" where
  "plain_ext (X_Hop r) = True"
| "plain_ext (X_Dst r) = True"
| "plain_ext (X_Routing r) = even (x_routing_len r)"
| "plain_ext (X_Fragment r) = True"
| "plain_ext (X_AH r) = False"
| "plain_ext (X_ESP r) = False"

lemma x_opts_init_bytes:
  assumes "x_opts_init buf = Inr r"
  shows "x_opts_bytes r = Inr (take (x_opts_length r) buf)"
proof -
  obtain r0 os where r0: "packet_unpack BE x_opts_hdr x_opts_make buf = Inr r0"
    "r = r0\<lparr>x_opts_options := os, x_opts_data := drop 2 (take (x_opts_length r0) buf)\<rparr>"
    using assms by (auto simp: x_opts_init_def x_opts_unpack_def result_simps)
  have v: "x_opts_vals r = x_opts_vals r0" "x_opts_length r = x_opts_length r0"
    by (simp_all add: r0(2) x_opts_vals_def x_opts_length_def)
  have "8 \<le> x_opts_length r0"
    using x_opts_class.unpack_vals [OF r0(1)]
    by (auto simp: x_opts_length_def x_opts_hdr_def x_opts_vals_def hdr_simps)
  then have "take 2 buf = take 2 (take (x_opts_length r0) buf)" by simp
  then have "take 2 buf @ drop 2 (take (x_opts_length r0) buf) = take (x_opts_length r0) buf"
    by (simp only: append_take_drop_id)
  then show ?thesis
    using x_opts_class.unpack_pack_hdr [OF r0(1)] v r0(2) by (simp add: x_opts_bytes_def packet_bytes_def)
qed

lemma x_routing_init_bytes:
  assumes "x_routing_init buf = Inr r" "even (x_routing_len r)"
  shows "x_routing_bytes r = Inr (take (x_routing_length r) buf)"
proof -
  obtain r0 as where r0: "packet_unpack BE x_routing_hdr x_routing_make buf = Inr r0"
    "r = r0\<lparr>x_routing_data := take (nat (x_routing_len r0 div 2) * 16) (drop 8 buf), x_routing_addresses := as\<rparr>"
    using assms by (auto simp: x_routing_init_def x_routing_unpack_def result_simps Let_def)
  have v: "x_routing_vals r = x_routing_vals r0" "x_routing_length r = x_routing_length r0"
    "x_routing_len r = x_routing_len r0"
    by (simp_all add: r0(2) x_routing_vals_def x_routing_length_def)
  have "0 \<le> x_routing_len r0"
    using x_routing_class.unpack_vals [OF r0(1)] by (auto simp: x_routing_hdr_def x_routing_vals_def hdr_simps)
  then have "x_routing_length r0 = 8 + nat (x_routing_len r0 div 2) * 16"
    using assms(2) v(3) by (auto simp: x_routing_length_def elim!: evenE)
  then have "take 8 buf @ take (nat (x_routing_len r0 div 2) * 16) (drop 8 buf) = take (x_routing_length r0) buf"
    by (simp add: take_add)
  then show ?thesis
    using x_routing_class.unpack_pack_hdr [OF r0(1)] v r0(2)
    by (simp add: x_routing_bytes_def packet_bytes_def)
qed

lemma x_frag_init_bytes:
  assumes "x_frag_init buf = Inr r"
  shows "x_frag_bytes r = Inr (take 8 buf)"
proof -
  obtain r0 where r0: "packet_unpack BE x_frag_hdr x_frag_make buf = Inr r0" "r = r0\<lparr>x_frag_data := []\<rparr>"
    using assms by (auto simp: x_frag_init_def x_frag_unpack_def result_simps)
  then show ?thesis
    using x_frag_class.unpack_pack_hdr [OF r0(1)]
    by (simp add: x_frag_bytes_def packet_bytes_def x_frag_vals_def)
qed

lemma ext_init_bytes:
  assumes "ext_init k buf = Inr x" "plain_ext x"
  shows "ext_bytes x = Inr (take (ext_length x) buf) \<and> ext_nxt x \<noteq> None"
  using assms
  by (auto simp: ext_init_def result_simps x_opts_init_bytes x_routing_init_bytes x_frag_init_bytes
      split: if_splits)

lemma ext_loop_bytes:
  "ext_loop nxt buf = Inr (xs, n, b) \<Longrightarrow> list_all plain_ext (map snd xs) \<Longrightarrow>
   \<exists>hs. ext_list_bytes (map snd xs) = Inr hs \<and> hs @ b = buf \<and>
     (xs \<noteq> [] \<longrightarrow> ext_nxt (snd (last xs)) = n) \<and> (xs = [] \<longrightarrow> n = nxt) \<and> (nxt \<noteq> None \<longrightarrow> n \<noteq> None)"
proof (induction nxt buf arbitrary: xs n b rule: ext_loop.induct)
  case (1 nxt buf)
  show ?case
  proof (cases "\<exists>k. nxt = Some k \<and> k \<in> set EXT_HDRS")
    case False
    then show ?thesis using "1.prems" by (auto simp: ext_loop.simps [of nxt buf] split: option.splits)
  next
    case True
    then obtain k where k: "nxt = Some k" "k \<in> set EXT_HDRS" by blast
    obtain x ys where x: "ext_init k buf = Inr x" "xs = (k, x) # ys"
      "ext_loop (ext_nxt x) (drop (ext_length x) buf) = Inr (ys, n, b)"
      using "1.prems"(1) k by (auto simp: ext_loop.simps [of "Some k" buf] result_simps)
    have p: "plain_ext x" "list_all plain_ext (map snd ys)" using "1.prems"(2) x(2) by auto
    note e = ext_init_bytes [OF x(1) p(1)]
    obtain hs where "ext_list_bytes (map snd ys) = Inr hs" "hs @ b = drop (ext_length x) buf"
      "ys \<noteq> [] \<longrightarrow> ext_nxt (snd (last ys)) = n" "ys = [] \<longrightarrow> n = ext_nxt x" "n \<noteq> None"
      using "1.IH" [OF k x(1) x(3) p(2)] e by blast
    then show ?thesis using e x(2)
      by (intro exI [of _ "take (ext_length x) buf @ hs"]) auto
  qed
qed

lemma ext_list_len: "ext_list_bytes xs = Inr hs \<Longrightarrow> length hs = sum_list (map ext_pkt_len xs)"
proof (induction xs arbitrary: hs)
  case (Cons x xs)
  then obtain a b where a: "ext_bytes x = Inr a" "ext_list_bytes xs = Inr b" "hs = a @ b"
    by (auto simp: result_simps)
  have "length a = ext_pkt_len x"
    using a(1) packet_pack_hdr_length
    by (cases x) (auto simp: x_opts_bytes_def x_routing_bytes_def x_frag_bytes_def x_ah_bytes_def
        x_esp_bytes_def packet_bytes_def packet_len_def result_simps dest!: packet_pack_hdr_length)
  then show ?case using Cons a by simp
qed simp

lemma ip6_unpack_parts:
  assumes "ip6_unpack sw buf = Inr r"
  shows "\<exists>h xs n b off d. packet_unpack BE ip6_hdr ip6_make buf = Inr h \<and>
    ext_loop (Some (ip6_nxt h)) (ip6_body h) = Inr (xs, n, b) \<and>
    (if ip6_nxt h = 44 then ext_frag_off (snd (last xs)) else Inr 0) = Inr off \<and>
    (if 0 < off then Inr (Raw b) else (case n of None \<Rightarrow> Inr (Raw b) | Some k \<Rightarrow> dispatch sw k b)) = Inr d \<and>
    r = ip6_with h xs n d"
proof -
  obtain h where h: "packet_unpack BE ip6_hdr ip6_make buf = Inr h"
    using assms by (cases "packet_unpack BE ip6_hdr ip6_make buf") (auto simp: ip6_unpack_def)
  obtain xs n b where l: "ext_loop (Some (ip6_nxt h)) (ip6_body h) = Inr (xs, n, b)"
    using assms h by (cases "ext_loop (Some (ip6_nxt h)) (ip6_body h)") (auto simp: ip6_unpack_def)
  obtain off where off: "(if ip6_nxt h = 44 then ext_frag_off (snd (last xs)) else Inr 0) = Inr off"
    using assms h l
    by (cases "if ip6_nxt h = 44 then ext_frag_off (snd (last xs)) else Inr 0") (simp_all add: ip6_unpack_def)
  obtain d where d: "(if 0 < off then Inr (Raw b)
      else (case n of None \<Rightarrow> Inr (Raw b) | Some k \<Rightarrow> dispatch sw k b)) = Inr d"
    using assms h l off
    by (cases "if 0 < off then Inr (Raw b) else (case n of None \<Rightarrow> Inr (Raw b) | Some k \<Rightarrow> dispatch sw k b)")
      (simp_all add: ip6_unpack_def)
  have "r = ip6_with h xs n d" using assms h l off d by (simp add: ip6_unpack_def)
  then show ?thesis using h l off d by blast
qed

context payload_ops
begin

text \<open>Packing a parsed packet gives the bytes back, up to the payload length.\<close>

lemma ip6_pack_unpack:
  assumes u: "ip6_unpack sw buf = Inr r" and plain: "list_all plain_ext (ip6_all_ext r)"
    and s: "\<forall>pr. ip6_p r = Some pr \<longrightarrow> ip6_needs_sum ops pr (ip6_data r) = None"
  shows "ip6_bytes ops r = Inr (if ip6_plen r = 0 then buf else take (40 + nat (ip6_plen r)) buf, r)"
proof -
  obtain h xs n b off d where h: "packet_unpack BE ip6_hdr ip6_make buf = Inr h"
    and l0: "ext_loop (Some (ip6_nxt h)) (ip6_body h) = Inr (xs, n, b)"
    and d0: "(if (0 :: int) < off then Inr (Raw b) else (case n of None \<Rightarrow> Inr (Raw b) | Some k \<Rightarrow> dispatch sw k b)) = Inr d"
    and r: "r = ip6_with h xs n d"
    using ip6_unpack_parts [OF u] by blast
  define body where "body = ip6_body h"
  note l = l0 [folded body_def]
  have d: "payload_bytes ops d = Inr b"
    using d0 dispatch_bytes by (auto split: if_splits option.splits)
  obtain hs where hs: "ext_list_bytes (map snd xs) = Inr hs" "hs @ b = body"
    "xs \<noteq> [] \<longrightarrow> ext_nxt (snd (last xs)) = n" "xs = [] \<longrightarrow> n = Some (ip6_nxt h)" "n \<noteq> None"
    using ext_loop_bytes [OF l] plain r by (auto simp: ip6_with_def)
  obtain pr where pr: "n = Some pr" using hs(5) by auto
  have "headers_str r = Inr (pr, hs)"
    using hs r pr by (cases "xs = []") (auto simp: headers_str_def ip6_with_def last_map EXT_HDRS_def)
  moreover have "r\<lparr>ip6_p := Some pr\<rparr> = r" using r pr by (simp add: ip6_with_def)
  moreover have "ip6_needs_sum ops pr (ip6_data r) = None" using s r pr by (simp add: ip6_with_def)
  moreover have "ip6_vals r = ip6_vals h" by (simp add: r ip6_with_def ip6_vals_def)
  moreover have hh: "packet_pack_hdr BE ip6_hdr (ip6_vals h) = Inr (take 40 buf)" "ip6_data h = drop 40 buf"
    "40 \<le> length buf"
    using ip6_class.unpack_pack_hdr [OF h] by simp_all
  moreover have "take 40 buf @ body = (if ip6_plen r = 0 then buf else take (40 + nat (ip6_plen r)) buf)"
    using hh r by (auto simp: body_def ip6_body_def ip6_with_def take_add)
  moreover have "ip6_data r = d" by (simp add: r ip6_with_def)
  ultimately show ?thesis using hs(2) d by (simp add: ip6_bytes_def)
qed

lemma ip6_transport_sum_verifies:
  assumes "ip6_transport_sum ops r pr x = Inr x'" "op_sum ops x = Inr 0"
  shows "\<exists>p ph p'. op_bytes ops x = Inr p \<and> ip6_pseudo (ip6_src r) (ip6_dst r) pr (length p') = Inr ph \<and>
    op_bytes ops x' = Inr p' \<and> length p' = length p \<and> in_cksum (ph @ p') = Inr 0"
proof -
  obtain p ph c where p: "op_bytes ops x = Inr p"
    and ph: "ip6_pseudo (ip6_src r) (ip6_dst r) pr (length p) = Inr ph"
    and c: "in_cksum_done (in_cksum_add (in_cksum_add 0 ph) p) = Inr c"
    and x': "x' = op_set_sum ops c x"
    using assms(1) by (auto simp: ip6_transport_sum_def result_simps)
  have lph: "length ph = 36"
    using struct_pack_length [OF ph [unfolded ip6_pseudo_def]] by simp
  have lp: "length p \<le> 65535"
    using ph by (auto simp: ip6_pseudo_def result_simps pack1_iff simp del: pack1.simps)
  obtain pre post where q: "p = pre @ [0, 0] @ post" "even (length pre)"
    "\<forall>c. 0 \<le> c \<and> c < 65536 \<longrightarrow> op_bytes ops (op_set_sum ops c x) = Inr (pre @ int_bytes BE 2 c @ post)"
    using sum_place [OF p assms(2)] by (auto simp: int_bytes_BE2_zero)
  have c1: "in_cksum ((ph @ pre) @ [0, 0] @ post) = Inr c"
    using c lph by (simp add: in_cksum_def in_cksum_add_append q(1))
  then have cr: "0 \<le> c" "c < 65536" using in_cksum_ok [of "(ph @ pre) @ [0, 0] @ post"] by auto
  have len: "length (ph @ pre) + length post \<le> 131000" "even (length (ph @ pre))"
    using lp lph q by auto
  have "in_cksum ((ph @ pre) @ int_bytes BE 2 c @ post) = Inr 0"
    by (rule in_cksum_verifies [OF len(2,1) c1])
  then show ?thesis using ph q(3) cr x' p q(1) by auto
qed

text \<open>The length of a packet is the length of its bytes.\<close>

lemma ip6_len_bytes:
  assumes "ip6_bytes ops r0 = Inr (b, r)" "ip6_all_ext r0 = [] \<Longrightarrow> ip6_exts r0 = []"
  shows "length b = ip6_pkt_len ops r0"
proof -
  obtain pr hs h body where p: "headers_str r0 = Inr (pr, hs)"
    "packet_pack_hdr BE ip6_hdr (ip6_vals r) = Inr h" "payload_bytes ops (ip6_data r) = Inr body"
    "b = h @ hs @ body"
    and r: "r = r0\<lparr>ip6_p := Some pr\<rparr> \<or> (\<exists>x x'. ip6_data r0 = Pkt x \<and> op_sum ops x = Inr 0 \<and>
      ip6_transport_sum ops (r0\<lparr>ip6_p := Some pr\<rparr>) pr x = Inr x' \<and> ip6_data r = Pkt x')"
    using assms(1)
    by (auto simp: ip6_bytes_def Let_def result_simps ip6_needs_sum_def split: option.splits payload.splits if_splits)
  have "length hs = sum_list (map ext_pkt_len (ip6_all_ext r0))"
    using p(1) assms(2) ext_list_len
    by (cases "ip6_all_ext r0 = []") (auto simp: headers_str_def EXT_HDRS_def result_simps split: option.splits)
  moreover have "length body = payload_len ops (ip6_data r0)"
    using r
  proof (elim disjE exE conjE)
    fix x x'
    assume x: "ip6_data r0 = Pkt x" "op_sum ops x = Inr 0"
      "ip6_transport_sum ops (r0\<lparr>ip6_p := Some pr\<rparr>) pr x = Inr x'" "ip6_data r = Pkt x'"
    then show ?thesis
      using ip6_transport_sum_verifies [OF x(3,2)] p(3) len_bytes by auto
  qed (use p(3) payload_len_bytes in auto)
  ultimately show ?thesis
    using p packet_pack_hdr_length [OF p(2)] assms(2) by (simp add: ip6_pkt_len_def)
qed

end

section \<open>Properties\<close>

definition example_addr :: bytes where
  "example_addr = [0xfe, 0x80, 0, 0, 0, 0, 0, 0, 0, 0, 0, 0, 0, 0, 0, 1]"

text \<open>A packet of a next header and a payload length with the given payload.\<close>

definition example_ip6 :: "byte \<Rightarrow> byte \<Rightarrow> bytes \<Rightarrow> bytes" where
  "example_ip6 n l body = [0x60, 0, 0, 0, 0, l, n, 64] @ example_addr @ example_addr @ body"

definition example_ip6_obj :: "int \<Rightarrow> int \<Rightarrow> 'd \<Rightarrow> 'd ip6" where
  "example_ip6_obj n l d =
     \<lparr>ip6_v_fc_flow = 0x60000000, ip6_plen = l, ip6_nxt = n, ip6_hlim = 64, ip6_src = example_addr,
      ip6_dst = example_addr, ip6_all_ext = [], ip6_exts = [], ip6_p = None, ip6_data = d\<rparr>"

lemmas ip6_eval = bytes_int_def be_int_def le_int.simps ord_def packet_unpack_def struct_unpack_def
  packet_init_def x_opts_init_def x_opts_unpack_def x_opts_hdr_def x_opts_make_def x_opts_length_def
  x_esp_init_def x_esp_unpack_def x_esp_hdr_def x_esp_make_def x_esp_length_def
  x_ah_init_def x_ah_unpack_def x_ah_hdr_def x_ah_make_def x_ah_length_def
  x_frag_init_def x_frag_unpack_def x_frag_hdr_def x_frag_make_def
  ext_init_def EXT_HDRS_def opt_byte_def udp_init_def udp_unpack_def udp_hdr_def udp_make_def

lemma example_ip6_hdr:
  "packet_unpack BE ip6_hdr ip6_make (example_ip6 n l body) = Inr (example_ip6_obj (ord n) (ord l) body)"
  by (simp add: ip6_hdr_def ip6_make_def example_ip6_def example_ip6_obj_def example_addr_def ip6_eval)

text \<open>
  C22: an IPv6 packet whose extension headers are options, fragment and routing headers (the latter
  with a whole number of addresses), in any number and order, packs to the bytes it was parsed from,
  cut at its payload length, when no checksum has to be filled in.
\<close>

theorem ip6_roundtrip:
  assumes "ip6_unpack transport_sw buf = Inr r" "list_all plain_ext (ip6_all_ext r)"
    and "\<forall>pr. ip6_p r = Some pr \<longrightarrow> ip6_needs_sum transport_ops pr (ip6_data r) = None"
  shows "ip6_bytes transport_ops r =
    Inr (if ip6_plen r = 0 then buf else take (40 + nat (ip6_plen r)) buf, r)"
  by (rule transport_payload.ip6_pack_unpack [OF assms])

definition hop_packet :: bytes where
  "hop_packet = example_ip6 0 16 [17, 0, 5, 2, 7, 7, 0, 0, 0, 53, 0, 53, 0, 8, 1, 2, 9]"

definition hop_udp :: udp where
  "hop_udp = \<lparr>udp_sport = 53, udp_dport = 53, udp_ulen = 8, udp_sum = 258, udp_data = []\<rparr>"

definition hop_header :: x_opts where
  "hop_header = \<lparr>x_opts_nxt = 17, x_opts_len = 0, x_opts_options = [(5, 2, [7, 7])],
     x_opts_data = [5, 2, 7, 7, 0, 0]\<rparr>"

lemma hop_packet_parse:
  "ip6_unpack transport_sw hop_packet =
     Inr (ip6_with (example_ip6_obj 0 16 []) [(0, X_Hop hop_header)] (Some 17) (Pkt (T_UDP hop_udp)))"
proof -
  have o: "opts_scan 6 [5, 2, 7, 7, 0, 0, 0, 53, 0, 53, 0, 8, 1, 2] 0 = Inr [(5, 2, [7, 7])]"
    by (simp add: opts_scan.simps opt_byte_def ord_def)
  have l: "ext_loop (Some 0) [17, 0, 5, 2, 7, 7, 0, 0, 0, 53, 0, 53, 0, 8, 1, 2] =
      Inr ([(0, X_Hop hop_header)], Some 17, [0, 53, 0, 53, 0, 8, 1, 2])"
    using o by (simp add: ext_loop.simps ip6_eval hop_header_def)
  have u: "dispatch transport_sw 17 [0, 53, 0, 53, 0, 8, 1, 2] = Inr (Pkt (T_UDP hop_udp))"
    by (simp add: dispatch_def transport_sw_def ip6_eval hop_udp_def)
  show ?thesis
    unfolding ip6_unpack_def hop_packet_def example_ip6_hdr
    using l u by (simp add: ip6_body_def example_ip6_obj_def ip6_with_def ord_def)
qed

theorem ip6_roundtrip_witness:
  "\<exists>r. ip6_unpack transport_sw hop_packet = Inr r \<and> ip6_bytes transport_ops r = Inr (take 56 hop_packet, r)"
  using ip6_roundtrip [OF hop_packet_parse]
  by (simp add: hop_packet_parse ip6_with_def ip6_needs_sum_def transport_ops_def hop_udp_def example_ip6_obj_def)

text \<open>
  The length of an IPv6 packet is the length of its bytes, for packets whose headers are in the
  list of all extension headers, or that have none.
\<close>

theorem ip6_len:
  assumes "ip6_bytes transport_ops r0 = Inr (b, r)" "ip6_all_ext r0 = [] \<longrightarrow> ip6_exts r0 = []"
  shows "length b = ip6_pkt_len transport_ops r0"
  using transport_payload.ip6_len_bytes [OF assms(1)] assms(2) by blast

theorem ip6_len_witness:
  "\<exists>r. ip6_unpack transport_sw hop_packet = Inr r \<and>
     length (take 56 hop_packet) = ip6_pkt_len transport_ops r"
proof -
  let ?r = "ip6_with (example_ip6_obj 0 16 []) [(0, X_Hop hop_header)] (Some 17) (Pkt (T_UDP hop_udp))"
  have "ip6_bytes transport_ops ?r = Inr (take 56 hop_packet, ?r)"
    using transport_payload.ip6_pack_unpack [OF hop_packet_parse]
    by (simp add: ip6_with_def ip6_needs_sum_def transport_ops_def hop_udp_def example_ip6_obj_def)
  from ip6_len [OF this] show ?thesis
    using hop_packet_parse by (simp add: ip6_with_def)
qed

text \<open>
  Packing an IPv6 packet with a zero transport checksum fills in one that verifies: the
  one's complement sum of the pseudo header and the packed payload is all ones.
\<close>

theorem ip6_checksum_verifies:
  assumes "ip6_bytes transport_ops r0 = Inr (b, r)" "headers_str r0 = Inr (pr, hs)"
    and "ip6_needs_sum transport_ops pr (ip6_data r0) = Some x"
  shows "\<exists>ph p. b = take (40 + length hs) b @ p \<and>
    ip6_pseudo (ip6_src r0) (ip6_dst r0) pr (length p) = Inr ph \<and> in_cksum (ph @ p) = Inr 0"
proof -
  have x: "ip6_data r0 = Pkt x" "op_sum transport_ops x = Inr 0"
    using assms(3) by (auto simp: ip6_needs_sum_def split: payload.splits if_splits)
  obtain x' h body where s: "ip6_transport_sum transport_ops (r0\<lparr>ip6_p := Some pr\<rparr>) pr x = Inr x'"
    "packet_pack_hdr BE ip6_hdr (ip6_vals r) = Inr h" "op_bytes transport_ops x' = Inr body" "b = h @ hs @ body"
    using assms x by (auto simp: ip6_bytes_def Let_def result_simps)
  then show ?thesis
    using transport_payload.ip6_transport_sum_verifies [OF s(1) x(2)] packet_pack_hdr_length [OF s(2)] by auto
qed

definition zero_sum_udp :: udp where
  "zero_sum_udp = \<lparr>udp_sport = 53, udp_dport = 53, udp_ulen = 8, udp_sum = 0, udp_data = []\<rparr>"

theorem ip6_checksum_verifies_witness:
  "\<exists>b r ph p. ip6_bytes transport_ops (example_ip6_obj 17 8 (Pkt (T_UDP zero_sum_udp))) = Inr (b, r) \<and>
     b = take 40 b @ p \<and> ip6_pseudo example_addr example_addr 17 (length p) = Inr ph \<and> in_cksum (ph @ p) = Inr 0"
proof -
  let ?r = "example_ip6_obj 17 8 (Pkt (T_UDP zero_sum_udp))"
  have h: "headers_str ?r = Inr (17, [])"
    by (simp add: headers_str_def example_ip6_obj_def EXT_HDRS_def)
  have n: "ip6_needs_sum transport_ops 17 (ip6_data ?r) = Some (T_UDP zero_sum_udp)"
    by (simp add: ip6_needs_sum_def example_ip6_obj_def transport_ops_def zero_sum_udp_def)
  have "is_ok (ip6_bytes transport_ops ?r)" by code_simp
  then obtain b r where b: "ip6_bytes transport_ops ?r = Inr (b, r)"
    by (cases "ip6_bytes transport_ops ?r") auto
  show ?thesis using ip6_checksum_verifies [OF b h n] b by (auto simp: example_ip6_obj_def)
qed

text \<open>
  A packet whose first extension header is ESP parses, and packing it raises
  \<open>AttributeError\<close>, whatever follows: the class of ESP headers has no attribute \<^verbatim>\<open>nxt\<close>.
\<close>

theorem ip6_esp_not_packed:
  assumes "ip6_unpack sw buf = Inr r" "ip6_nxt r = 50"
  shows "ip6_bytes ops r = Inl AttributeError"
proof -
  obtain h xs n b d where r: "ext_loop (Some (ip6_nxt h)) (ip6_body h) = Inr (xs, n, b)" "r = ip6_with h xs n d"
    using ip6_unpack_parts [OF assms(1)] by blast
  then have "ip6_nxt h = 50" using assms(2) by (simp add: ip6_with_def)
  then obtain e where "xs = [(50, X_ESP e)]"
    using r(1) by (auto simp: ext_loop.simps EXT_HDRS_def ext_init_def result_simps)
  then show ?thesis using r(2) by (simp add: ip6_bytes_def headers_str_def ip6_with_def)
qed

theorem ip6_esp_not_packed_witness:
  "\<exists>r. ip6_unpack transport_sw (example_ip6 50 10 [0, 0, 0, 1, 0, 0, 0, 2, 9, 9]) = Inr r \<and>
     ip6_bytes transport_ops r = Inl AttributeError"
proof -
  let ?d = "[0, 0, 0, 1, 0, 0, 0, 2, 9, 9] :: bytes"
  have "\<exists>e. ext_loop (Some 50) ?d = Inr ([(50, X_ESP e)], None, [])"
    by (simp add: ext_loop.simps ip6_eval)
  then obtain r where r: "ip6_unpack transport_sw (example_ip6 50 10 ?d) = Inr r" "ip6_nxt r = 50"
    unfolding ip6_unpack_def example_ip6_hdr
    by (auto simp: ip6_body_def example_ip6_obj_def ip6_with_def ord_def)
  then show ?thesis using ip6_esp_not_packed [OF r] by blast
qed

text \<open>
  The class of authentication headers keeps everything after its fixed fields as its data, so
  packing a parsed packet with such a header writes the bytes after that header twice.
\<close>

theorem ip6_ah_payload_twice:
  assumes "ip6_unpack transport_sw buf = Inr r" "ip6_all_ext r = [X_AH a]" "ip6_plen r = 0"
    and "ip6_needs_sum transport_ops (x_ah_nxt a) (ip6_data r) = None"
  shows "\<exists>r'. ip6_bytes transport_ops r = Inr (buf @ drop (40 + x_ah_length a) buf, r')"
proof -
  obtain h xs n b off d where h: "packet_unpack BE ip6_hdr ip6_make buf = Inr h"
    and l: "ext_loop (Some (ip6_nxt h)) (ip6_body h) = Inr (xs, n, b)"
    and d: "(if (0 :: int) < off then Inr (Raw b) else (case n of None \<Rightarrow> Inr (Raw b) | Some k \<Rightarrow> dispatch transport_sw k b)) = Inr d"
    and r: "r = ip6_with h xs n d"
    using ip6_unpack_parts [OF assms(1)] by blast
  have hh: "packet_pack_hdr BE ip6_hdr (ip6_vals h) = Inr (take 40 buf)" "ip6_data h = drop 40 buf"
    using ip6_class.unpack_pack_hdr [OF h] by simp_all
  have body: "ip6_body h = drop 40 buf" using assms(3) hh(2) by (simp add: ip6_body_def r ip6_with_def)
  obtain k where xs: "xs = [(k, X_AH a)]" using assms(2) by (auto simp: r ip6_with_def)
  then have a: "ext_init k (drop 40 buf) = Inr (X_AH a)" "b = drop (x_ah_length a) (drop 40 buf)"
    using l body by (auto simp: ext_loop.simps [of "Some (ip6_nxt h)"] ext_loop.simps [of "Some (x_ah_nxt a)"]
        result_simps split: if_splits)
  obtain a0 where a0: "packet_unpack BE x_ah_hdr x_ah_make (drop 40 buf) = Inr a0"
    "a = a0\<lparr>x_ah_auth_data := x_ah_auth_data a\<rparr>"
    using a(1) by (auto simp: ext_init_def x_ah_init_def x_ah_unpack_def result_simps split: if_splits)
  have "x_ah_bytes a = Inr (drop 40 buf)"
    using x_ah_class.pack_unpack [OF a0(1)] by (subst a0(2)) (simp add: x_ah_bytes_def x_ah_vals_def)
  moreover have "payload_bytes transport_ops d = Inr b"
    using d transport_payload.dispatch_bytes by (auto split: if_splits option.splits)
  moreover have "ip6_vals (r\<lparr>ip6_p := p\<rparr>) = ip6_vals h" for p by (simp add: r ip6_with_def ip6_vals_def)
  ultimately show ?thesis
    using assms(2,4) hh(1) a(2) r
    by (simp add: ip6_bytes_def headers_str_def ip6_with_def Let_def add.commute flip: append_assoc)
qed

theorem ip6_ah_payload_twice_witness:
  "\<exists>r r'. ip6_unpack transport_sw (example_ip6 51 0 [59, 1, 0, 0, 0, 0, 0, 1, 0, 0, 0, 2, 8, 8]) = Inr r \<and>
     ip6_bytes transport_ops r =
       Inr (example_ip6 51 0 [59, 1, 0, 0, 0, 0, 0, 1, 0, 0, 0, 2, 8, 8, 8, 8], r')"
proof -
  let ?d = "[59, 1, 0, 0, 0, 0, 0, 1, 0, 0, 0, 2, 8, 8] :: bytes"
  obtain a where a: "ext_loop (Some 51) ?d = Inr ([(51, X_AH a)], Some 59, [8, 8])" "x_ah_length a = 12" "x_ah_nxt a = 59"
    by (simp add: ext_loop.simps ip6_eval)
  then obtain r where r: "ip6_unpack transport_sw (example_ip6 51 0 ?d) = Inr r" "ip6_all_ext r = [X_AH a]"
    "ip6_plen r = 0" "ip6_data r = Raw [8, 8]"
    unfolding ip6_unpack_def example_ip6_hdr
    by (auto simp: ip6_body_def example_ip6_obj_def ip6_with_def ord_def dispatch_def transport_sw_def)
  have "ip6_needs_sum transport_ops (x_ah_nxt a) (ip6_data r) = None"
    using r(4) by (simp add: ip6_needs_sum_def)
  from ip6_ah_payload_twice [OF r(1,2,3) this] show ?thesis
    using r(1) a(2) by (auto simp: example_ip6_def example_addr_def)
qed

text \<open>
  A packet that starts with a fragment header and has another extension header last cannot be
  parsed: the test for later fragments reads \<^verbatim>\<open>frag_off\<close> from the last header, which has none.
\<close>

theorem ip6_fragment_then_header:
  assumes "packet_unpack BE ip6_hdr ip6_make buf = Inr h" "ip6_nxt h = 44"
    and "ext_loop (Some 44) (ip6_body h) = Inr (xs, n, b)" "\<forall>f. snd (last xs) \<noteq> X_Fragment f"
  shows "ip6_init sw buf = Inl AttributeError"
proof -
  have "ext_frag_off (snd (last xs)) = Inl AttributeError"
    using assms(4) by (cases "snd (last xs)") auto
  then show ?thesis using assms by (simp add: ip6_init_def ip6_unpack_def packet_init_def)
qed

theorem ip6_fragment_then_header_witness:
  "ip6_init transport_sw (example_ip6 44 0 [60, 0, 0, 0, 0, 0, 0, 1, 17, 0, 1, 4, 0, 0, 0, 0]) = Inl AttributeError"
proof -
  let ?d = "[60, 0, 0, 0, 0, 0, 0, 1, 17, 0, 1, 4, 0, 0, 0, 0] :: bytes"
  have o: "opts_scan 6 [1, 4, 0, 0, 0, 0] 0 = Inr []"
    by (simp add: opts_scan.simps opt_byte_def)
  have "\<exists>f e. ext_loop (Some 44) ?d = Inr ([(44, X_Fragment f), (60, X_Dst e)], Some 17, [])"
    using o by (simp add: ext_loop.simps ip6_eval)
  then obtain f e where l: "ext_loop (Some 44) ?d = Inr ([(44, X_Fragment f), (60, X_Dst e)], Some 17, [])"
    by blast
  have "ip6_body (example_ip6_obj (ord 44) (ord 0) ?d) = ?d"
    by (simp add: ip6_body_def example_ip6_obj_def ord_def)
  then show ?thesis
    using ip6_fragment_then_header [OF example_ip6_hdr, of 44 0 ?d "[(44, X_Fragment f), (60, X_Dst e)]" "Some 17" "[]" transport_sw] l
    by (simp add: example_ip6_obj_def ord_def)
qed

end
