(* ===== verification/Control.thy ===== *)
theory Control
  imports Tables Ip Ip6
begin

text \<open>
  The control protocols over IP: \<^verbatim>\<open>dpkt/icmp.py\<close>, \<^verbatim>\<open>icmp6.py\<close>, \<^verbatim>\<open>igmp.py\<close>, \<^verbatim>\<open>pim.py\<close>,
  \<^verbatim>\<open>edp.py\<close>, \<^verbatim>\<open>vrrp.py\<close> and \<^verbatim>\<open>ah.py\<close>. Packing returns the packet with the checksum that
  was filled in; \<open>summed\<close> (theory Tables) is interpreted for each class with one.
\<close>

section \<open>IGMP, PIM and EDP\<close>

definition igmp_hdr :: hdr where
  "igmp_hdr = [(''type'', fB, VInt 0), (''maxresp'', fB, VInt 0), (''sum'', fH, VInt 0), (''group'', Str 4, VBytes (zeros 4))]"

definition igmp_bytes :: "packet_obj \<Rightarrow> (bytes \<times> pval list) result" where
  "igmp_bytes p = sum_bytes igmp_hdr (obj_vals p) (obj_data p)"

definition pim_hdr :: hdr where
  "pim_hdr = [(''_v_type'', fB, VInt 0x20), (''_rsvd'', fB, VInt 0), (''sum'', fH, VInt 0)]"

definition pim_bits :: bit_fields where
  "pim_bits = [(''v'', 4), (''type'', 4)]"

definition pim_bytes :: "packet_obj \<Rightarrow> (bytes \<times> pval list) result" where
  "pim_bytes p = sum_bytes pim_hdr (obj_vals p) (obj_data p)"

definition edp_hdr :: hdr where
  "edp_hdr = [(''version'', fB, VInt 1), (''reserved'', fB, VInt 0), (''hlen'', fH, VInt 0), (''sum'', fH, VInt 0),
     (''seq'', fH, VInt 0), (''mid'', fH, VInt 0), (''mac'', Str 6, VBytes [])]"

definition edp_bytes :: "packet_obj \<Rightarrow> (bytes \<times> pval list) result" where
  "edp_bytes p = sum_bytes edp_hdr (obj_vals p) (obj_data p)"

lemmas control_hdrs = igmp_hdr_def pim_hdr_def edp_hdr_def table_ok_def fmt_ok_def hdr_fields_def

interpretation igmp_sum: summed igmp_hdr 2 "VInt 0"
  by unfold_locales (simp_all add: control_hdrs)

interpretation pim_sum: summed pim_hdr 2 "VInt 0"
  by unfold_locales (simp_all add: control_hdrs)

interpretation edp_sum: summed edp_hdr 3 "VInt 0"
  by unfold_locales (simp_all add: control_hdrs)

section \<open>ICMP\<close>

text \<open>
  A class with a header in front of a packet that it always parses, as the error messages quote
  the packet they are about.
\<close>

definition nested_init :: "hdr \<Rightarrow> (bytes \<Rightarrow> 'q result) \<Rightarrow> bytes \<Rightarrow> (pval list \<times> 'q) result" where
  "nested_init h parse =
     packet_init (hdr_len h) (\<lambda>buf. rbind (class_unpack BE h buf) (\<lambda>p. rbind (parse (obj_data p)) (\<lambda>x. Inr (obj_vals p, x))))"

definition echo_hdr :: hdr where
  "echo_hdr = [(''id'', fH, VInt 0), (''seq'', fH, VInt 0)]"

datatype icmp_quote = Unreach | Quench | Redirect | TimeExceed

fun quote_hdr :: "icmp_quote \<Rightarrow> hdr" where
  "quote_hdr Unreach = [(''pad'', fH, VInt 0), (''mtu'', fH, VInt 0)]"
| "quote_hdr Redirect = [(''gw'', fI, VInt 0)]"
| "quote_hdr _ = [(''pad'', fI, VInt 0)]"

fun quote_type :: "icmp_quote \<Rightarrow> int" where
  "quote_type Unreach = 3"
| "quote_type Quench = 4"
| "quote_type Redirect = 5"
| "quote_type TimeExceed = 11"

datatype 'i icmp_body = Echo packet_obj | Quote icmp_quote "pval list" 'i

record 'i icmp =
  icmp_vals :: "pval list"
  icmp_data :: "'i icmp_body payload"

definition icmp_hdr :: hdr where
  "icmp_hdr = [(''type'', fB, VInt 8), (''code'', fB, VInt 0), (''sum'', fH, VInt 0)]"

definition echo_init :: "bytes \<Rightarrow> 'i icmp_body result" where
  "echo_init buf = rbind (class_init BE echo_hdr buf) (\<lambda>p. Inr (Echo p))"

definition quote_init :: "(bytes \<Rightarrow> 'i result) \<Rightarrow> icmp_quote \<Rightarrow> bytes \<Rightarrow> 'i icmp_body result" where
  "quote_init ip q buf = rbind (nested_init (quote_hdr q) ip buf) (\<lambda>(vs, i). Inr (Quote q vs i))"

definition icmp_typesw :: "(bytes \<Rightarrow> 'i result) \<Rightarrow> 'i icmp_body registry" where
  "icmp_typesw ip =
     [0 \<mapsto> echo_init, 3 \<mapsto> quote_init ip Unreach, 4 \<mapsto> quote_init ip Quench,
      5 \<mapsto> quote_init ip Redirect, 8 \<mapsto> echo_init, 11 \<mapsto> quote_init ip TimeExceed]"

definition icmp_unpack :: "'p registry \<Rightarrow> bytes \<Rightarrow> ('p payload) ip icmp result" where
  "icmp_unpack sw buf =
     rbind (class_unpack BE icmp_hdr buf) (\<lambda>p.
     rbind (dispatch (icmp_typesw (ip_init sw)) (get_int icmp_hdr ''type'' (obj_vals p)) (obj_data p)) (\<lambda>d.
       Inr \<lparr>icmp_vals = obj_vals p, icmp_data = d\<rparr>))"

definition icmp_init :: "'p registry \<Rightarrow> bytes \<Rightarrow> ('p payload) ip icmp result" where
  "icmp_init sw = packet_init (hdr_len icmp_hdr) (icmp_unpack sw)"

text \<open>The bytes of the body, and the body after that: a quoted packet fills in its own checksums.\<close>

definition icmp_body_bytes ::
    "('i \<Rightarrow> (bytes \<times> 'i) result) \<Rightarrow> 'i icmp_body payload \<Rightarrow> (bytes \<times> 'i icmp_body payload) result" where
  "icmp_body_bytes ip d =
     (case d of
        Raw b \<Rightarrow> Inr (b, d)
      | Pkt (Echo p) \<Rightarrow> rbind (class_bytes BE echo_hdr p) (\<lambda>b. Inr (b, d))
      | Pkt (Quote q vs i) \<Rightarrow>
          rbind (packet_pack_hdr BE (quote_hdr q) vs) (\<lambda>h. rbind (ip i) (\<lambda>(b, i'). Inr (h @ b, Pkt (Quote q vs i')))))"

definition icmp_fill :: "'p proto_ops \<Rightarrow> ('p payload) ip icmp \<Rightarrow> ('p payload) ip icmp result" where
  "icmp_fill ops r =
     (if get_int icmp_hdr ''sum'' (icmp_vals r) = 0
      then rbind (icmp_body_bytes (ip_bytes ops) (icmp_data r)) (\<lambda>(b, d).
           rbind (packet_bytes BE icmp_hdr (icmp_vals r) b) (\<lambda>p.
           rbind (in_cksum p) (\<lambda>c.
             Inr \<lparr>icmp_vals = set_val icmp_hdr ''sum'' (VInt c) (icmp_vals r), icmp_data = d\<rparr>)))
      else Inr r)"

definition icmp_bytes :: "'p proto_ops \<Rightarrow> ('p payload) ip icmp \<Rightarrow> (bytes \<times> ('p payload) ip icmp) result" where
  "icmp_bytes ops r =
     rbind (icmp_fill ops r) (\<lambda>r1.
     rbind (icmp_body_bytes (ip_bytes ops) (icmp_data r1)) (\<lambda>(b, d).
     rbind (packet_bytes BE icmp_hdr (icmp_vals r1) b) (\<lambda>x. Inr (x, r1\<lparr>icmp_data := d\<rparr>))))"

section \<open>ICMPv6\<close>

datatype icmp6_quote = Unreach6 | TooBig6 | TimeExceed6 | ParamProb6

fun quote6_hdr :: "icmp6_quote \<Rightarrow> hdr" where
  "quote6_hdr TooBig6 = [(''mtu'', fI, VInt 1232)]"
| "quote6_hdr ParamProb6 = [(''ptr'', fI, VInt 0)]"
| "quote6_hdr _ = [(''pad'', fI, VInt 0)]"

datatype 'i icmp6_body = Echo6 packet_obj | Quote6 icmp6_quote "pval list" 'i

record 'i icmp6 =
  icmp6_vals :: "pval list"
  icmp6_data :: "'i icmp6_body payload"

definition icmp6_hdr :: hdr where
  "icmp6_hdr = [(''type'', fB, VInt 0), (''code'', fB, VInt 0), (''sum'', fH, VInt 0)]"

definition echo6_init :: "bytes \<Rightarrow> 'i icmp6_body result" where
  "echo6_init buf = rbind (class_init BE echo_hdr buf) (\<lambda>p. Inr (Echo6 p))"

definition quote6_init :: "(bytes \<Rightarrow> 'i result) \<Rightarrow> icmp6_quote \<Rightarrow> bytes \<Rightarrow> 'i icmp6_body result" where
  "quote6_init ip q buf = rbind (nested_init (quote6_hdr q) ip buf) (\<lambda>(vs, i). Inr (Quote6 q vs i))"

definition icmp6_typesw :: "(bytes \<Rightarrow> 'i result) \<Rightarrow> 'i icmp6_body registry" where
  "icmp6_typesw ip =
     [1 \<mapsto> quote6_init ip Unreach6, 2 \<mapsto> quote6_init ip TooBig6, 3 \<mapsto> quote6_init ip TimeExceed6,
      4 \<mapsto> quote6_init ip ParamProb6, 128 \<mapsto> echo6_init, 129 \<mapsto> echo6_init]"

definition icmp6_unpack :: "'p registry \<Rightarrow> bytes \<Rightarrow> ('p payload) ip6 icmp6 result" where
  "icmp6_unpack sw buf =
     rbind (class_unpack BE icmp6_hdr buf) (\<lambda>p.
     rbind (dispatch (icmp6_typesw (ip6_init sw)) (get_int icmp6_hdr ''type'' (obj_vals p)) (obj_data p)) (\<lambda>d.
       Inr \<lparr>icmp6_vals = obj_vals p, icmp6_data = d\<rparr>))"

definition icmp6_init :: "'p registry \<Rightarrow> bytes \<Rightarrow> ('p payload) ip6 icmp6 result" where
  "icmp6_init sw = packet_init (hdr_len icmp6_hdr) (icmp6_unpack sw)"

definition icmp6_bytes :: "'p proto_ops \<Rightarrow> ('p payload) ip6 icmp6 \<Rightarrow> bytes result" where
  "icmp6_bytes ops r =
     rbind (case icmp6_data r of
              Raw b \<Rightarrow> Inr b
            | Pkt (Echo6 p) \<Rightarrow> class_bytes BE echo_hdr p
            | Pkt (Quote6 q vs i) \<Rightarrow>
                rbind (packet_pack_hdr BE (quote6_hdr q) vs) (\<lambda>h. rbind (ip6_bytes ops i) (\<lambda>(b, _). Inr (h @ b)))) (\<lambda>b.
       packet_bytes BE icmp6_hdr (icmp6_vals r) b)"

section \<open>VRRP\<close>

text \<open>
  The addresses and the authentication data. With no address the loop variable keeps its initial
  value, and the slice after the addresses starts at four. The attribute \<^verbatim>\<open>auth\<close> of an object
  that was not parsed is a text string.
\<close>

record vrrp =
  vrrp_vals :: "pval list"
  vrrp_addrs :: "bytes list"
  vrrp_auth :: pval

definition vrrp_hdr :: hdr where
  "vrrp_hdr = [(''_v_type'', fB, VInt 0x21), (''vrid'', fB, VInt 0), (''priority'', fB, VInt 0),
     (''count'', fB, VInt 0), (''atype'', fB, VInt 0), (''advtime'', fB, VInt 0), (''sum'', fH, VInt 0)]"

definition vrrp_bits :: bit_fields where
  "vrrp_bits = [(''v'', 4), (''type'', 4)]"

definition vrrp_new :: "(string \<times> pval) list \<Rightarrow> vrrp" where
  "vrrp_new kws = \<lparr>vrrp_vals = packet_kwargs vrrp_hdr kws, vrrp_addrs = [], vrrp_auth = VStr []\<rparr>"

definition vrrp_unpack :: "bytes \<Rightarrow> vrrp result" where
  "vrrp_unpack buf =
     rbind (class_unpack BE vrrp_hdr buf) (\<lambda>p.
       let n = nat (get_int vrrp_hdr ''count'' (obj_vals p)); off = 4 * (n - 1)
       in Inr \<lparr>vrrp_vals = obj_vals p, vrrp_addrs = map (\<lambda>i. take 4 (drop (4 * i) (obj_data p))) [0..<n],
               vrrp_auth = VBytes (drop (off + 4) (obj_data p))\<rparr>)"

definition vrrp_init :: "bytes \<Rightarrow> vrrp result" where
  "vrrp_init = packet_init (hdr_len vrrp_hdr) vrrp_unpack"

definition vrrp_len :: "vrrp \<Rightarrow> int" where
  "vrrp_len r =
     int (hdr_len vrrp_hdr) + 4 * get_int vrrp_hdr ''count'' (vrrp_vals r) +
     (case vrrp_auth r of VBytes a \<Rightarrow> int (length a) | VStr s \<Rightarrow> int (length s) | _ \<Rightarrow> 0)"

definition vrrp_bytes :: "vrrp \<Rightarrow> (bytes \<times> vrrp) result" where
  "vrrp_bytes r =
     (case vrrp_auth r of
        VBytes a \<Rightarrow>
          rbind (sum_bytes vrrp_hdr (vrrp_vals r) (concat (vrrp_addrs r) @ a)) (\<lambda>(b, vs).
            Inr (b, r\<lparr>vrrp_vals := vs\<rparr>))
      | _ \<Rightarrow> Inl TypeError)"

section \<open>AH\<close>

record 'p ah =
  ah_vals :: "pval list"
  ah_auth :: bytes
  ah_data :: "'p payload"

definition ah_hdr :: hdr where
  "ah_hdr = [(''nxt'', fB, VInt 0), (''len'', fB, VInt 0), (''rsvd'', fH, VInt 0), (''spi'', fI, VInt 0), (''seq'', fI, VInt 0)]"

definition ah_unpack :: "'p registry \<Rightarrow> bytes \<Rightarrow> 'p ah result" where
  "ah_unpack sw buf =
     rbind (class_unpack BE ah_hdr buf) (\<lambda>p.
       let n = nat (max (4 * get_int ah_hdr ''len'' (obj_vals p) - 4) 0)
       in rbind (dispatch sw (get_int ah_hdr ''nxt'' (obj_vals p)) (drop n (obj_data p))) (\<lambda>d.
            Inr \<lparr>ah_vals = obj_vals p, ah_auth = take n (obj_data p), ah_data = d\<rparr>))"

definition ah_init :: "'p registry \<Rightarrow> bytes \<Rightarrow> 'p ah result" where
  "ah_init sw = packet_init (hdr_len ah_hdr) (ah_unpack sw)"

definition ah_len :: "'p proto_ops \<Rightarrow> 'p ah \<Rightarrow> nat" where
  "ah_len ops r = hdr_len ah_hdr + length (ah_auth r) + payload_len ops (ah_data r)"

definition ah_bytes :: "'p proto_ops \<Rightarrow> 'p ah \<Rightarrow> bytes result" where
  "ah_bytes ops r =
     rbind (packet_pack_hdr BE ah_hdr (ah_vals r)) (\<lambda>h.
     rbind (payload_bytes ops (ah_data r)) (\<lambda>b. Inr (h @ ah_auth r @ b)))"

section \<open>Messages with a checksum\<close>

lemma icmp_tables [simp]:
  "hdr_len icmp_hdr = 4" "hdr_len echo_hdr = 4" "hdr_len (quote_hdr q) = 4" "hdr_len vrrp_hdr = 8" "hdr_len ah_hdr = 12"
  "table_ok icmp_hdr" "table_ok echo_hdr" "table_ok (quote_hdr q)" "table_ok vrrp_hdr" "table_ok ah_hdr"
  by (cases q; simp add: icmp_hdr_def echo_hdr_def vrrp_hdr_def ah_hdr_def table_ok_def fmt_ok_def hdr_fields_def)+

interpretation icmp_sum: summed icmp_hdr 2 "VInt 0"
  by unfold_locales (simp_all add: icmp_hdr_def table_ok_def fmt_ok_def hdr_fields_def)

interpretation vrrp_sum: summed vrrp_hdr 6 "VInt 0"
  by unfold_locales (simp_all add: vrrp_hdr_def table_ok_def fmt_ok_def hdr_fields_def)

text \<open>A body that packs to the same bytes again and again: one that quotes no zero checksum.\<close>

definition settled :: "'p proto_ops \<Rightarrow> (('p payload) ip) icmp_body payload \<Rightarrow> bool" where
  "settled ops d =
     (case d of
        Raw _ \<Rightarrow> True
      | Pkt (Echo p) \<Rightarrow> exact_all (hdr_fmt echo_hdr) (obj_vals p)
      | Pkt (Quote q vs i) \<Rightarrow> exact_all (hdr_fmt (quote_hdr q)) vs \<and> ip_sum i \<noteq> 0)"

lemma settled_body:
  "settled ops d \<Longrightarrow> icmp_body_bytes (ip_bytes ops) d = Inr (b, d') \<Longrightarrow> d' = d"
  by (auto simp: settled_def icmp_body_bytes_def rbind_Inr_iff ip_bytes_def split: payload.splits icmp_body.splits)

lemma icmp_bytes_sum:
  assumes "settled ops (icmp_data r)" "icmp_bytes ops r = Inr (b, r')"
  obtains body vs where "icmp_body_bytes (ip_bytes ops) (icmp_data r) = Inr (body, icmp_data r)"
    "sum_bytes icmp_hdr (icmp_vals r) body = Inr (b, vs)" "r' = r\<lparr>icmp_vals := vs\<rparr>"
proof -
  obtain r1 body d where p: "icmp_fill ops r = Inr r1"
    "icmp_body_bytes (ip_bytes ops) (icmp_data r1) = Inr (body, d)"
    "packet_bytes BE icmp_hdr (icmp_vals r1) body = Inr b" "r' = r1\<lparr>icmp_data := d\<rparr>"
    using assms(2) by (auto simp: icmp_bytes_def rbind_Inr_iff)
  have d1: "icmp_data r1 = icmp_data r"
    using p(1) settled_body [OF assms(1)] by (fastforce simp: icmp_fill_def rbind_Inr_iff split: if_splits)
  then have d: "d = icmp_data r" using settled_body [of ops "icmp_data r"] assms(1) p(2) by simp
  have body: "icmp_body_bytes (ip_bytes ops) (icmp_data r) = Inr (body, icmp_data r)" using p(2) d d1 by simp
  have "fill_sum icmp_hdr (icmp_vals r) body = Inr (icmp_vals r1)"
    using p(1) body by (auto simp: icmp_fill_def fill_sum_def rbind_Inr_iff split: if_splits)
  then have "sum_bytes icmp_hdr (icmp_vals r) body = Inr (b, icmp_vals r1)"
    using p(3) by (simp add: sum_bytes_def)
  moreover have "r' = r\<lparr>icmp_vals := icmp_vals r1\<rparr>" using p(4) d d1 by (cases r; cases r1) simp
  ultimately show thesis using that p(2) d d1 by metis
qed

text \<open>What a body needs to be read back: its type, values that fit and, in a quote, a packet that is read back.\<close>

definition icmp_body_ok ::
    "'p registry \<Rightarrow> 'p proto_ops \<Rightarrow> int \<Rightarrow> (('p payload) ip) icmp_body payload \<Rightarrow> bool" where
  "icmp_body_ok sw ops t d =
     (settled ops d \<and>
      (case d of
         Raw b \<Rightarrow> t \<notin> {0, 3, 4, 5, 8, 11}
       | Pkt (Echo p) \<Rightarrow> t \<in> {0, 8}
       | Pkt (Quote q vs i) \<Rightarrow> t = quote_type q \<and> (\<forall>b. ip_bytes ops i = Inr (b, i) \<longrightarrow> ip_init sw b = Inr i)))"

lemma nested_reads:
  assumes "table_ok h" "exact_all (hdr_fmt h) vs" "packet_pack_hdr BE h vs = Inr a" "parse b = Inr x"
  shows "nested_init h parse (a @ b) = Inr (vs, x)"
  using class_pack_read [OF assms(1-3), of b] assms(4)
  by (simp add: nested_init_def packet_init_Inr obj_make_def)

lemma icmp_typesw_simps [simp]:
  "icmp_typesw ip 0 = Some echo_init" "icmp_typesw ip 8 = Some echo_init"
  "icmp_typesw ip (quote_type q) = Some (quote_init ip q)"
  "t \<notin> {0, 3, 4, 5, 8, 11} \<Longrightarrow> icmp_typesw ip t = None"
  by (cases q; simp add: icmp_typesw_def)+

lemma icmp_body_reads:
  assumes "icmp_body_ok sw ops t d" "icmp_body_bytes (ip_bytes ops) d = Inr (b, d)"
  shows "dispatch (icmp_typesw (ip_init sw)) t b = Inr d"
proof (cases d)
  case (Raw b')
  then show ?thesis using assms by (simp add: icmp_body_ok_def icmp_body_bytes_def dispatch_def)
next
  case (Pkt x)
  show ?thesis
  proof (cases x)
    case (Echo p)
    then have e: "exact_all (hdr_fmt echo_hdr) (obj_vals p)" "t = 0 \<or> t = 8" "class_bytes BE echo_hdr p = Inr b"
      using assms Pkt by (auto simp: icmp_body_ok_def settled_def icmp_body_bytes_def rbind_Inr_iff)
    then obtain a where a: "packet_pack_hdr BE echo_hdr (obj_vals p) = Inr a" "b = a @ obj_data p"
      by (auto simp: class_bytes_def packet_bytes_def rbind_Inr_iff)
    have "class_init BE echo_hdr b = Inr p"
      using class_pack_read [OF icmp_tables(7) e(1) a(1), of "obj_data p"] a(2)
      by (simp add: class_init_def packet_init_Inr obj_make_def)
    then show ?thesis using e(2) Pkt Echo by (auto simp: dispatch_def echo_init_def)
  next
    case (Quote q vs i)
    then obtain h c where c: "packet_pack_hdr BE (quote_hdr q) vs = Inr h" "ip_bytes ops i = Inr (c, i)" "b = h @ c"
      "exact_all (hdr_fmt (quote_hdr q)) vs" "t = quote_type q" "ip_init sw c = Inr i"
      using assms Pkt by (auto simp: icmp_body_ok_def settled_def icmp_body_bytes_def rbind_Inr_iff)
    then show ?thesis
      using nested_reads [of "quote_hdr q" vs h "ip_init sw" c i] c Pkt Quote by (simp add: dispatch_def quote_init_def)
  qed
qed

lemma concat_four: "list_all (\<lambda>a. length a = 4) as \<Longrightarrow> length (concat as) = 4 * length as"
  by (induction as) auto

lemma drop_concat_four:
  "list_all (\<lambda>a. length a = 4) as \<Longrightarrow> i \<le> length as \<Longrightarrow> drop (4 * i) (concat as) = concat (drop i as)"
proof (induction as arbitrary: i)
  case (Cons a as)
  then show ?case by (cases i) simp_all
qed simp

lemma vrrp_addrs_read:
  assumes "list_all (\<lambda>a. length a = 4) as"
  shows "map (\<lambda>i. take 4 (drop (4 * i) (concat as @ r))) [0..<length as] = as"
proof (rule nth_equalityI)
  fix i
  assume i: "i < length (map (\<lambda>i. take 4 (drop (4 * i) (concat as @ r))) [0..<length as])"
  have "drop (4 * i) (concat as) = concat (drop i as)" using drop_concat_four [OF assms, of i] i by simp
  moreover have "drop i as = as ! i # drop (Suc i) as" using i by (simp add: Cons_nth_drop_Suc)
  moreover have "length (as ! i) = 4" using assms i by (simp add: list_all_length)
  ultimately show "map (\<lambda>i. take 4 (drop (4 * i) (concat as @ r))) [0..<length as] ! i = as ! i" using i 
    using concat_four [OF assms] by simp
qed simp

section \<open>Properties\<close>

text \<open>
  An ICMP message of any type, with an echo, a quoted packet or plain data as its body, is read
  back from its bytes together with the checksum that packing filled in.
\<close>

theorem icmp_roundtrip:
  assumes "exact_all (hdr_fmt icmp_hdr) (icmp_vals r)"
    and "icmp_body_ok sw ops (get_int icmp_hdr ''type'' (icmp_vals r)) (icmp_data r)"
    and "icmp_bytes ops r = Inr (b, r')"
  shows "icmp_init sw b = Inr r'"
proof -
  have s: "settled ops (icmp_data r)" using assms(2) by (simp add: icmp_body_ok_def)
  obtain body vs where p: "icmp_body_bytes (ip_bytes ops) (icmp_data r) = Inr (body, icmp_data r)"
    "sum_bytes icmp_hdr (icmp_vals r) body = Inr (b, vs)" "r' = r\<lparr>icmp_vals := vs\<rparr>"
    using icmp_bytes_sum [OF s assms(3)] .
  have "class_unpack BE icmp_hdr b = Inr (obj_make vs body)" by (rule icmp_sum.sum_reads [OF assms(1) p(2)])
  moreover have "get_int icmp_hdr ''type'' vs = get_int icmp_hdr ''type'' (icmp_vals r)"
    using icmp_sum.fill_exact [OF assms(1)] p(2) by (auto simp: sum_bytes_def rbind_Inr_iff)
  ultimately show ?thesis
    using icmp_body_reads [OF assms(2) p(1)] p(3)
    by (cases r) (simp add: icmp_init_def packet_init_Inr icmp_unpack_def obj_make_def)
qed

definition example_echo :: "(transport payload) ip icmp" where
  "example_echo = \<lparr>icmp_vals = map VInt [8, 0, 0], icmp_data = Pkt (Echo \<lparr>obj_vals = map VInt [7, 1], obj_data = [1, 2, 3, 4]\<rparr>)\<rparr>"

lemma example_echo_ok:
  "exact_all (hdr_fmt icmp_hdr) (icmp_vals example_echo)"
  "icmp_body_ok sw ops (get_int icmp_hdr ''type'' (icmp_vals example_echo)) (icmp_data example_echo)"
  "get_int icmp_hdr ''sum'' (icmp_vals example_echo) = 0"
  "\<exists>b r. icmp_bytes ops example_echo = Inr (b, r) \<and> length b = 12"
proof -
  show "exact_all (hdr_fmt icmp_hdr) (icmp_vals example_echo)" "get_int icmp_hdr ''sum'' (icmp_vals example_echo) = 0"
    by (simp_all add: example_echo_def icmp_hdr_def get_int_def hdr_fields_def)
  show ok: "icmp_body_ok sw ops (get_int icmp_hdr ''type'' (icmp_vals example_echo)) (icmp_data example_echo)" for sw
    by (simp add: example_echo_def icmp_body_ok_def settled_def icmp_hdr_def echo_hdr_def get_int_def hdr_fields_def)
  obtain e where e: "class_bytes BE echo_hdr \<lparr>obj_vals = map VInt [7, 1], obj_data = [1, 2, 3, 4]\<rparr> = Inr e" "length e = 8"
    by (simp add: class_bytes_def packet_bytes_def packet_pack_hdr_def echo_hdr_def)
  obtain h where h: "packet_bytes BE icmp_hdr (map VInt [8, 0, 0]) e = Inr h"
    by (simp add: packet_bytes_def packet_pack_hdr_def icmp_hdr_def)
  obtain c where c: "in_cksum h = Inr c" "0 \<le> c" "c < 65536" using in_cksum_ok [of h] by auto
  have v: "set_val icmp_hdr ''sum'' (VInt c) (map VInt [8, 0, 0]) = map VInt [8, 0, c]"
    by (simp add: icmp_hdr_def set_val_def hdr_fields_def)
  have "packet_bytes BE icmp_hdr (map VInt [8, 0, c]) e = Inr (be_bytes 1 8 @ be_bytes 1 0 @ be_bytes 2 c @ e)"
    using c by (simp add: packet_bytes_def packet_pack_hdr_def icmp_hdr_def int_bytes_def)
  then show "\<exists>b r. icmp_bytes ops example_echo = Inr (b, r) \<and> length b = 12"
    using e h c(1) v
    by (auto simp: icmp_bytes_def icmp_fill_def example_echo_def icmp_body_bytes_def get_int_def icmp_hdr_def hdr_fields_def)
qed

theorem icmp_roundtrip_witness: "\<exists>b r. icmp_bytes transport_ops example_echo = Inr (b, r) \<and> icmp_init transport_sw b = Inr r"
  using icmp_roundtrip [OF example_echo_ok(1,2)] example_echo_ok(4) by blast

text \<open>
  The checksum that packing an ICMP message fills in makes the checksum of the message zero.
\<close>

theorem icmp_checksum_verifies:
  assumes "exact_all (hdr_fmt icmp_hdr) (icmp_vals r)" "get_int icmp_hdr ''sum'' (icmp_vals r) = 0"
    and "settled ops (icmp_data r)" "icmp_bytes ops r = Inr (b, r')" "length b \<le> 131000"
  shows "in_cksum b = Inr 0"
  using icmp_bytes_sum [OF assms(3,4)] icmp_sum.sum_verifies [OF assms(1,2) _ assms(5)] by metis

theorem icmp_checksum_verifies_witness: "\<exists>b r. icmp_bytes transport_ops example_echo = Inr (b, r) \<and> in_cksum b = Inr 0"
proof -
  obtain b r where b: "icmp_bytes transport_ops example_echo = Inr (b, r)" "length b = 12" using example_echo_ok(4) by blast
  have "settled transport_ops (icmp_data example_echo)"
    using example_echo_ok(2) [of transport_sw transport_ops] by (simp add: icmp_body_ok_def)
  then show ?thesis using icmp_checksum_verifies [OF example_echo_ok(1,3) _ b(1)] b by auto
qed

lemma nested_error:
  assumes "nested_init h parse b = Inl e" "\<And>c e. parse c = Inl e \<Longrightarrow> is_unpack_error e"
  shows "is_unpack_error e"
  using assms(1)
  by (auto simp: nested_init_def packet_init_Inl rbind_Inl_iff is_unpack_error_def
      dest: class_unpack_error dest!: assms(2) split: if_splits)

lemma ip_init_error:
  assumes "\<forall>k f b e. sw k = Some f \<longrightarrow> f b = Inl e \<longrightarrow> is_unpack_error e \<or> e = KeyError" "ip_init sw b = Inl e"
  shows "is_unpack_error e"
proof -
  have dis: "dispatch sw k b \<noteq> Inl e" for k b e
    using assms(1) by (auto simp: dispatch_def split: option.splits sum.splits)
  then have "(if c then dispatch sw k b' else Inr (Raw b')) \<noteq> Inl e" for c k b' e by simp
  then show ?thesis
    using assms(2)
    by (auto simp: ip_init_def packet_init_Inl ip_unpack_def rbind_Inl_iff ip_offset_eq is_unpack_error_def Let_def
        simp del: if_split_eq1 split: if_splits dest: packet_unpack_error)
qed

lemma icmp_typesw_error:
  assumes "\<And>c e. ip c = Inl e \<Longrightarrow> is_unpack_error e" "icmp_typesw ip t = Some f" "f b = Inl e"
  shows "is_unpack_error e"
proof -
  have "is_unpack_error e" if "quote_init ip q b = Inl e" for q
    using that nested_error [of "quote_hdr q" ip b e] assms(1) by (auto simp: quote_init_def rbind_Inl_iff)
  moreover have "is_unpack_error e" if "echo_init b = Inl e"
    using that by (auto simp: echo_init_def rbind_Inl_iff class_init_def packet_init_Inl is_unpack_error_def dest: class_unpack_error)
  ultimately show ?thesis using assms(2,3) by (auto simp: icmp_typesw_def split: if_splits)
qed

text \<open>
  Parsing an ICMP message fails only when there is no header: a body that cannot be parsed stays
  raw, whatever the packet it quotes, as long as the parsers of the protocols raise unpack errors only.
\<close>

theorem icmp_init_total:
  assumes "\<forall>k f b e. sw k = Some f \<longrightarrow> f b = Inl e \<longrightarrow> is_unpack_error e \<or> e = KeyError"
  shows "is_ok (icmp_init sw buf) = (4 \<le> length buf)"
proof (cases "class_unpack BE icmp_hdr buf")
  case (Inl e)
  then show ?thesis
    using class_unpack_error [OF Inl] by (simp add: icmp_init_def packet_init_def icmp_unpack_def)
next
  case (Inr p)
  obtain d where "dispatch (icmp_typesw (ip_init sw)) (get_int icmp_hdr ''type'' (obj_vals p)) (obj_data p) = Inr d"
    using icmp_typesw_error [OF ip_init_error [OF assms]]
    by (fastforce simp: dispatch_def split: option.splits sum.splits)
  then show ?thesis
    using Inr class_unpack_data [OF Inr] by (simp add: icmp_init_def packet_init_def icmp_unpack_def)
qed

theorem icmp_init_total_witness: "is_ok (icmp_init (\<lambda>k :: int. None :: (bytes \<Rightarrow> unit result) option) [3, 1, 0, 0, 9, 9, 9])"
  by (subst icmp_init_total) simp_all

text \<open>
  A VRRP packet with at least one address is read back from its bytes.
\<close>

theorem vrrp_roundtrip:
  assumes "exact_all (hdr_fmt vrrp_hdr) (vrrp_vals r)" "vrrp_addrs r \<noteq> []"
    and "list_all (\<lambda>a. length a = 4) (vrrp_addrs r)" "get_int vrrp_hdr ''count'' (vrrp_vals r) = int (length (vrrp_addrs r))"
    and "vrrp_bytes r = Inr (b, r')"
  shows "vrrp_init b = Inr r' \<and> vrrp_len r' = int (length b)"
proof -
  obtain a vs where p: "vrrp_auth r = VBytes a" "sum_bytes vrrp_hdr (vrrp_vals r) (concat (vrrp_addrs r) @ a) = Inr (b, vs)"
    "r' = r\<lparr>vrrp_vals := vs\<rparr>"
    using assms(5) by (auto simp: vrrp_bytes_def rbind_Inr_iff split: pval.splits)
  have u: "class_unpack BE vrrp_hdr b = Inr (obj_make vs (concat (vrrp_addrs r) @ a))"
    by (rule vrrp_sum.sum_reads [OF assms(1) p(2)])
  have n: "get_int vrrp_hdr ''count'' vs = int (length (vrrp_addrs r))"
    using vrrp_sum.fill_exact [OF assms(1)] p(2) assms(4) by (auto simp: sum_bytes_def rbind_Inr_iff)
  have l: "length (concat (vrrp_addrs r)) = 4 * length (vrrp_addrs r)" by (rule concat_four [OF assms(3)])
  have o4: "4 * (length (vrrp_addrs r) - 1) + 4 = 4 * length (vrrp_addrs r)"
    using assms(2) by (cases "vrrp_addrs r") simp_all
  have "drop (4 * length (vrrp_addrs r)) (concat (vrrp_addrs r) @ a) = a" using l by simp
  then have "vrrp_init b = Inr r'"
    using u n o4 vrrp_addrs_read [OF assms(3), of a] p(1,3)
    by (cases r) (simp add: vrrp_init_def packet_init_Inr vrrp_unpack_def obj_make_def)
  moreover have "length b = 8 + 4 * length (vrrp_addrs r) + length a"
    using p(2) l by (auto simp: sum_bytes_def packet_bytes_def rbind_Inr_iff dest!: packet_pack_hdr_length)
  ultimately show ?thesis using n p(1,3) by (simp add: vrrp_len_def)
qed

definition example_vrrp :: vrrp where
  "example_vrrp = \<lparr>vrrp_vals = map VInt [0x21, 1, 100, 1, 0, 1, 5], vrrp_addrs = [[192, 168, 0, 1]], vrrp_auth = VBytes (zeros 8)\<rparr>"

theorem vrrp_roundtrip_witness: "\<exists>b. vrrp_bytes example_vrrp = Inr (b, example_vrrp) \<and> vrrp_init b = Inr example_vrrp"
proof -
  have "exact_all (hdr_fmt vrrp_hdr) (vrrp_vals example_vrrp)" "get_int vrrp_hdr ''count'' (vrrp_vals example_vrrp) = 1"
    by (simp_all add: example_vrrp_def vrrp_hdr_def get_int_def hdr_fields_def)
  moreover obtain b where "vrrp_bytes example_vrrp = Inr (b, example_vrrp)"
    by (simp add: vrrp_bytes_def example_vrrp_def sum_bytes_def fill_sum_def vrrp_hdr_def get_int_def hdr_fields_def
        packet_bytes_def packet_pack_hdr_def)
  ultimately show ?thesis using vrrp_roundtrip [of example_vrrp b example_vrrp] by (auto simp: example_vrrp_def)
qed

text \<open>
  A VRRP packet without an address loses the first four bytes of its authentication data when it is parsed.
\<close>

theorem vrrp_no_address_loses_auth:
  assumes "vrrp_init b = Inr r" "get_int vrrp_hdr ''count'' (vrrp_vals r) = 0"
  shows "vrrp_addrs r = [] \<and> vrrp_auth r = VBytes (drop 12 b)"
proof -
  obtain p where p: "class_unpack BE vrrp_hdr b = Inr p" "vrrp_vals r = obj_vals p"
    "r = \<lparr>vrrp_vals = obj_vals p, vrrp_addrs = map (\<lambda>i. take 4 (drop (4 * i) (obj_data p))) [0..<nat (get_int vrrp_hdr ''count'' (obj_vals p))],
      vrrp_auth = VBytes (drop (4 * (nat (get_int vrrp_hdr ''count'' (obj_vals p)) - 1) + 4) (obj_data p))\<rparr>"
    using assms(1) by (auto simp: vrrp_init_def packet_init_Inr vrrp_unpack_def rbind_Inr_iff Let_def)
  have "obj_data p = drop 8 b"
    using packet_class.unpack_vals [OF table_class [OF icmp_tables(9)], of BE b p] p(1) by (simp add: class_unpack_def)
  then show ?thesis using assms(2) p(2,3) by simp
qed

theorem vrrp_no_address_loses_auth_witness:
  "\<exists>r. vrrp_init (zeros 8 @ [1, 2, 3, 4, 5, 6]) = Inr r \<and> vrrp_auth r = VBytes [5, 6]"
proof -
  let ?b = "zeros 8 @ [1, 2, 3, 4, 5, 6 :: byte]"
  have u: "class_unpack BE vrrp_hdr ?b = Inr (obj_make (map VInt [0, 0, 0, 0, 0, 0, 0]) [1, 2, 3, 4, 5, 6])"
    by (simp add: class_unpack_def packet_unpack_def vrrp_hdr_def zeros_def struct_unpack_def numeral_eq_Suc
        bytes_int_def be_int_def)
  then obtain r where "vrrp_init ?b = Inr r" "vrrp_vals r = map VInt [0, 0, 0, 0, 0, 0, 0]"
    by (simp add: vrrp_init_def packet_init_def vrrp_unpack_def obj_make_def Let_def)
  then show ?thesis
    using vrrp_no_address_loses_auth [of ?b r] by (simp add: vrrp_hdr_def get_int_def hdr_fields_def zeros_def numeral_eq_Suc)
qed

text \<open>
  An authentication header whose length field counts its data is read back from its bytes, for any
  registry of protocols whose packets pack to what they were parsed from.
\<close>

theorem ah_roundtrip:
  assumes "exact_all (hdr_fmt ah_hdr) (ah_vals r)" "int (length (ah_auth r)) = max (4 * get_int ah_hdr ''len'' (ah_vals r) - 4) 0"
    and "ah_bytes ops r = Inr b" "\<forall>p. payload_bytes ops (ah_data r) = Inr p \<longrightarrow>
      dispatch sw (get_int ah_hdr ''nxt'' (ah_vals r)) p = Inr (ah_data r) \<and> payload_len ops (ah_data r) = length p"
  shows "ah_init sw b = Inr r \<and> ah_len ops r = length b"
proof -
  obtain h p where p: "packet_pack_hdr BE ah_hdr (ah_vals r) = Inr h" "payload_bytes ops (ah_data r) = Inr p" "b = h @ ah_auth r @ p"
    using assms(3) by (auto simp: ah_bytes_def rbind_Inr_iff)
  have u: "length h = 12" "class_unpack BE ah_hdr b = Inr (obj_make (ah_vals r) (ah_auth r @ p))"
    using class_pack_read [OF icmp_tables(10) assms(1) p(1), of "ah_auth r @ p"] p(3) by auto
  have n: "nat (max (4 * get_int ah_hdr ''len'' (ah_vals r) - 4) 0) = length (ah_auth r)" using assms(2) by linarith
  show ?thesis
    using u p assms(4) n
    by (cases r) (auto simp: ah_init_def packet_init_Inr ah_unpack_def obj_make_def ah_len_def Let_def)
qed

definition example_ah :: "transport ah" where
  "example_ah = \<lparr>ah_vals = map VInt [59, 4, 0, 256, 1], ah_auth = zeros 12, ah_data = Raw [1, 2, 3]\<rparr>"

theorem ah_roundtrip_witness: "\<exists>b. ah_bytes transport_ops example_ah = Inr b \<and> ah_init transport_sw b = Inr example_ah"
proof -
  have "exact_all (hdr_fmt ah_hdr) (ah_vals example_ah)" "get_int ah_hdr ''len'' (ah_vals example_ah) = 4"
    "get_int ah_hdr ''nxt'' (ah_vals example_ah) = 59"
    by (simp_all add: example_ah_def ah_hdr_def get_int_def hdr_fields_def)
  moreover obtain b where "ah_bytes transport_ops example_ah = Inr b"
    by (simp add: ah_bytes_def example_ah_def ah_hdr_def packet_pack_hdr_def)
  ultimately show ?thesis
    using ah_roundtrip [of example_ah transport_ops b transport_sw]
    by (simp add: example_ah_def dispatch_def transport_sw_def)
qed

end
