(* ===== verification/Tunnel.thy ===== *)
theory Tunnel
  imports Control Ethernet
begin

text \<open>
  Encapsulations: \<^verbatim>\<open>dpkt/gre.py\<close>, \<^verbatim>\<open>vxlan.py\<close>, \<^verbatim>\<open>loopback.py\<close>, \<^verbatim>\<open>sll.py\<close>, \<^verbatim>\<open>sll2.py\<close>,
  \<^verbatim>\<open>ppp.py\<close> and \<^verbatim>\<open>pppoe.py\<close>. The registry of inner protocols is the parameter of the Ethernet
  and IP layers.
\<close>

section \<open>Classes that dispatch on one field\<close>

record 'p carrier =
  ca_vals :: "pval list"
  ca_data :: "'p payload"

definition carrier_unpack :: "hdr \<Rightarrow> string \<Rightarrow> 'p registry \<Rightarrow> bytes \<Rightarrow> 'p carrier result" where
  "carrier_unpack h n sw buf =
     rbind (class_unpack BE h buf) (\<lambda>p.
     rbind (dispatch sw (get_int h n (obj_vals p)) (obj_data p)) (\<lambda>d. Inr \<lparr>ca_vals = obj_vals p, ca_data = d\<rparr>))"

definition carrier_init :: "hdr \<Rightarrow> string \<Rightarrow> 'p registry \<Rightarrow> bytes \<Rightarrow> 'p carrier result" where
  "carrier_init h n sw = packet_init (hdr_len h) (carrier_unpack h n sw)"

definition carrier_bytes :: "hdr \<Rightarrow> 'p proto_ops \<Rightarrow> 'p carrier \<Rightarrow> bytes result" where
  "carrier_bytes h ops r =
     rbind (packet_pack_hdr BE h (ca_vals r)) (\<lambda>a. rbind (payload_bytes ops (ca_data r)) (\<lambda>b. Inr (a @ b)))"

definition sll_hdr :: hdr where
  "sll_hdr = [(''type'', fH, VInt 0), (''hrd'', fH, VInt 1), (''hlen'', fH, VInt 6), (''hdr'', Str 8, VBytes []), (''ethtype'', fH, VInt 0x800)]"

definition sll_init :: "'p registry \<Rightarrow> bytes \<Rightarrow> 'p carrier result" where
  "sll_init = carrier_init sll_hdr ''ethtype''"

definition sll2_hdr :: hdr where
  "sll2_hdr = [(''ethtype'', fH, VInt 0x800), (''mbz'', fH, VInt 0), (''intindex'', fi, VInt 0), (''hrd'', fH, VInt 1),
     (''type'', fB, VInt 0), (''hlen'', fB, VInt 6), (''hdr'', Str 8, VBytes [])]"

definition sll2_init :: "'p registry \<Rightarrow> bytes \<Rightarrow> 'p carrier result" where
  "sll2_init = carrier_init sll2_hdr ''ethtype''"

section \<open>GRE\<close>

definition gre_hdr :: hdr where
  "gre_hdr = [(''flags'', fH, VInt 0), (''p'', fH, VInt 0x800)]"

definition sre_hdr :: hdr where
  "sre_hdr = [(''family'', fH, VInt 0), (''off'', fB, VInt 0), (''len'', fB, VInt 0)]"

definition gre_v :: "int \<Rightarrow> int" where
  "gre_v flags = flags AND 0x7"

definition gre_set_v :: "int \<Rightarrow> int \<Rightarrow> int" where
  "gre_set_v v flags = (flags AND NOT 0x7) OR (v AND 0x7)"

definition gre_recur :: "int \<Rightarrow> int" where
  "gre_recur flags = drop_bit 5 flags AND 0x7"

definition gre_set_recur :: "int \<Rightarrow> int \<Rightarrow> int" where
  "gre_set_recur v flags = (flags AND NOT 0xe0) OR push_bit 5 (v AND 0x7)"

definition GRE_opt_fields :: "(int \<times> string \<times> fmt) list" where
  "GRE_opt_fields = [(0xc000, ''sum'', fH), (0xc000, ''off'', fH), (0x2000, ''key'', fI), (0x1000, ''seq'', fI), (0x80, ''ack'', fI)]"

text \<open>\<^verbatim>\<open>opt_fields_fmts\<close>. The formats are aligned in every combination, so their native size is the standard one.\<close>

definition gre_opt_fields :: "int \<Rightarrow> (string \<times> fmt) list" where
  "gre_opt_fields flags =
     (if gre_v flags = 0 then [] else [(''len'', fH), (''callid'', fH)]) @
     map snd (filter (\<lambda>(m, f). flags AND m \<noteq> 0) (if gre_v flags = 0 then GRE_opt_fields else drop 3 GRE_opt_fields))"

record 'p gre =
  gre_vals :: "pval list"
  gre_opts :: "(string \<times> int) list"
  gre_sre :: "packet_obj list"
  gre_data :: "'p payload"

definition gre_flags :: "pval list \<Rightarrow> int" where
  "gre_flags vs = get_int gre_hdr ''flags'' vs"

definition sre_init :: "bytes \<Rightarrow> packet_obj result" where
  "sre_init = packet_init (hdr_len sre_hdr) (\<lambda>buf.
     rbind (class_unpack BE sre_hdr buf) (\<lambda>p.
       Inr (p\<lparr>obj_data := take (nat (get_int sre_hdr ''len'' (obj_vals p))) (obj_data p)\<rparr>)))"

lemma sre_init_props: "sre_init buf = Inr s \<Longrightarrow> 4 \<le> length buf \<and> 4 \<le> class_len sre_hdr s"
  by (auto simp: sre_init_def packet_init_Inr rbind_Inr_iff sre_hdr_def class_len_def packet_len_def dest: class_unpack_data)

text \<open>The loop over the source route entries ends behind one whose length is zero.\<close>

function sre_loop :: "bytes \<Rightarrow> (packet_obj list \<times> bytes) result" where
  "sre_loop buf =
     (case sre_init buf of
        Inl e \<Rightarrow> Inl e
      | Inr s \<Rightarrow>
          let rest = drop (class_len sre_hdr s) buf
          in if get_int sre_hdr ''len'' (obj_vals s) = 0 then Inr ([s], rest)
             else rbind (sre_loop rest) (\<lambda>(ss, r). Inr (s # ss, r)))"
  by pat_completeness auto

termination
  by (relation "measure length") (auto dest!: sre_init_props)

declare sre_loop.simps [simp del]

definition gre_unpack :: "'p registry \<Rightarrow> bytes \<Rightarrow> 'p gre result" where
  "gre_unpack sw buf =
     rbind (class_unpack BE gre_hdr buf) (\<lambda>p.
       let flags = gre_flags (obj_vals p); fs = gre_opt_fields flags; n = calcsize (map snd fs)
       in rbind (struct_unpack BE (map snd fs) (take n (obj_data p))) (\<lambda>vs.
          rbind (if flags AND 0x4000 \<noteq> 0 then sre_loop (drop n (obj_data p)) else Inr ([], drop n (obj_data p))) (\<lambda>(ss, d).
          rbind (dispatch sw (get_int gre_hdr ''p'' (obj_vals p)) d) (\<lambda>x.
            Inr \<lparr>gre_vals = obj_vals p, gre_opts = zip (map fst fs) (map ival vs), gre_sre = ss, gre_data = x\<rparr>))))"

definition gre_init :: "'p registry \<Rightarrow> bytes \<Rightarrow> 'p gre result" where
  "gre_init sw = packet_init (hdr_len gre_hdr) (gre_unpack sw)"

definition gre_len :: "'p proto_ops \<Rightarrow> 'p gre \<Rightarrow> nat" where
  "gre_len ops r =
     hdr_len gre_hdr + calcsize (map snd (gre_opt_fields (gre_flags (gre_vals r)))) +
     sum_list (map (class_len sre_hdr) (gre_sre r)) + payload_len ops (gre_data r)"

text \<open>Packing reads the fields that the flags ask for; one that was never set is an \<open>AttributeError\<close>.\<close>

definition gre_opt_bytes :: "'p gre \<Rightarrow> bytes result" where
  "gre_opt_bytes r =
     (let fs = gre_opt_fields (gre_flags (gre_vals r))
      in rbind (map_result (\<lambda>n. case map_of (gre_opts r) n of None \<Rightarrow> Inl AttributeError | Some v \<Rightarrow> Inr (VInt v)) (map fst fs)) (\<lambda>vs.
           struct_pack BE (map snd fs) vs))"

definition gre_bytes :: "'p proto_ops \<Rightarrow> 'p gre \<Rightarrow> bytes result" where
  "gre_bytes ops r =
     rbind (gre_opt_bytes r) (\<lambda>opt.
     rbind (packet_pack_hdr BE gre_hdr (gre_vals r)) (\<lambda>h.
     rbind (concat_result (class_bytes BE sre_hdr) (gre_sre r)) (\<lambda>s.
     rbind (payload_bytes ops (gre_data r)) (\<lambda>d. Inr (h @ opt @ s @ d)))))"

section \<open>VXLAN\<close>

record vxlan =
  vx_flags :: int
  vx_vni :: int
  vx_valid :: bool
  vx_data :: bytes

definition vxlan_init :: "bytes \<Rightarrow> vxlan result" where
  "vxlan_init buf =
     (if length buf < 8 then Inl NeedData
      else
        let flags = ord (buf ! 0)
        in Inr \<lparr>vx_flags = flags,
                vx_vni = push_bit 16 (ord (buf ! 4)) OR push_bit 8 (ord (buf ! 5)) OR ord (buf ! 6),
                vx_valid = (flags AND 0x08 \<noteq> 0 \<and> take 3 (drop 1 buf) = [0, 0, 0] \<and> buf ! 7 = 0),
                vx_data = drop 8 buf\<rparr>)"

definition vxlan_bytes :: "vxlan \<Rightarrow> bytes result" where
  "vxlan_bytes r =
     rbind (pack_uint BE 4 (vx_vni r AND 0xFFFFFF)) (\<lambda>v.
     rbind (py_byte (vx_flags r)) (\<lambda>f. Inr (f @ zeros 3 @ drop 1 v @ [0] @ vx_data r)))"

definition vxlan_len :: "vxlan \<Rightarrow> nat" where
  "vxlan_len r = 8 + length (vx_data r)"

definition vxlan_is_valid :: "vxlan \<Rightarrow> bool" where
  "vxlan_is_valid r = vx_valid r"

section \<open>Loopback\<close>

text \<open>The family is in the byte order of the machine, the parameter \<open>bo\<close>.\<close>

datatype ('p, 'n) loop_data = LB_IP "('p payload) ip" | LB_IP6 "('p payload) ip6" | LB_Eth "'n ethernet"

record ('p, 'n) loopback =
  lb_family :: int
  lb_data :: "('p, 'n) loop_data"

definition loopback_hdr :: hdr where
  "loopback_hdr = [(''family'', fI, VInt 0)]"

definition loopback_unpack :: "endian \<Rightarrow> 'p registry \<Rightarrow> 'n eth_env \<Rightarrow> bytes \<Rightarrow> ('p, 'n) loopback result" where
  "loopback_unpack bo sw env buf =
     rbind (class_unpack bo loopback_hdr buf) (\<lambda>p.
       let f = get_int loopback_hdr ''family'' (obj_vals p);
           ip6 = (\<lambda>n. rbind (ip6_init sw (obj_data p)) (\<lambda>i. Inr \<lparr>lb_family = n, lb_data = LB_IP6 i\<rparr>))
       in if f = 0x02 \<or> f = 0x02000000 then rbind (ip_init sw (obj_data p)) (\<lambda>i. Inr \<lparr>lb_family = 2, lb_data = LB_IP i\<rparr>)
          else if f = 0x18 \<or> f = 0x18000000 then ip6 24
          else if f = 0x1c \<or> f = 0x1c000000 then ip6 28
          else if f = 0x1e \<or> f = 0x1e000000 then ip6 30
          else rbind (eth_init env (obj_data p)) (\<lambda>e. Inr \<lparr>lb_family = f, lb_data = LB_Eth e\<rparr>))"

definition loopback_init :: "endian \<Rightarrow> 'p registry \<Rightarrow> 'n eth_env \<Rightarrow> bytes \<Rightarrow> ('p, 'n) loopback result" where
  "loopback_init bo sw env = packet_init (hdr_len loopback_hdr) (loopback_unpack bo sw env)"

definition loopback_bytes :: "endian \<Rightarrow> 'p proto_ops \<Rightarrow> 'n eth_env \<Rightarrow> ('p, 'n) loopback \<Rightarrow> bytes result" where
  "loopback_bytes bo ops env r =
     rbind (packet_pack_hdr bo loopback_hdr [VInt (lb_family r)]) (\<lambda>h.
     rbind (case lb_data r of
              LB_IP i \<Rightarrow> rbind (ip_bytes ops i) (\<lambda>(b, _). Inr b)
            | LB_IP6 i \<Rightarrow> rbind (ip6_bytes ops i) (\<lambda>(b, _). Inr b)
            | LB_Eth e \<Rightarrow> rbind (eth_bytes env e) (\<lambda>(b, _). Inr b)) (\<lambda>b. Inr (h @ b)))"

section \<open>PPP and PPPoE\<close>

text \<open>The class of \<^verbatim>\<open>ppp.py\<close> has an address and a control byte that the one of \<^verbatim>\<open>pppoe.py\<close> has not.\<close>

datatype ppp_class = PPP | PPPoE_PPP

fun ppp_front :: "ppp_class \<Rightarrow> hdr" where
  "ppp_front PPP = [(''addr'', fB, VInt 0xff), (''cntrl'', fB, VInt 3)]"
| "ppp_front PPPoE_PPP = []"

definition ppp_hdr :: "ppp_class \<Rightarrow> hdr" where
  "ppp_hdr c = ppp_front c @ [(''p'', fB, VInt 0x21)]"

record 'p ppp =
  ppp_class :: ppp_class
  ppp_vals :: "pval list"
  ppp_data :: "'p payload"

definition ppp_dispatch :: "'p registry \<Rightarrow> int \<Rightarrow> bytes \<Rightarrow> 'p payload result" where
  "ppp_dispatch sw k buf =
     (case sw k of
        None \<Rightarrow> Inr (Raw buf)
      | Some parse \<Rightarrow>
          (case parse buf of
             Inr x \<Rightarrow> Inr (Pkt x)
           | Inl e \<Rightarrow> if e = KeyError \<or> e = StructError \<or> is_unpack_error e then Inr (Raw buf) else Inl e))"

definition ppp_unpack :: "ppp_class \<Rightarrow> 'p registry \<Rightarrow> bytes \<Rightarrow> 'p ppp result" where
  "ppp_unpack c sw buf =
     rbind (class_unpack BE (ppp_hdr c) buf) (\<lambda>o'.
       let p = get_int (ppp_hdr c) ''p'' (obj_vals o');
           done = (\<lambda>p vs d. rbind (ppp_dispatch sw p d) (\<lambda>x. Inr \<lparr>ppp_class = c, ppp_vals = vs, ppp_data = x\<rparr>))
       in if p AND 1 = 0
          then (case unpack_uint BE 2 (take 2 (drop (hdr_len (ppp_front c)) buf)) of
                  Inl _ \<Rightarrow> Inl NeedData
                | Inr p2 \<Rightarrow> done p2 (set_val (ppp_hdr c) ''p'' (VInt p2) (obj_vals o')) (drop 1 (obj_data o')))
          else done p (obj_vals o') (obj_data o'))"

definition ppp_init :: "ppp_class \<Rightarrow> 'p registry \<Rightarrow> bytes \<Rightarrow> 'p ppp result" where
  "ppp_init c sw = packet_init (hdr_len (ppp_hdr c)) (ppp_unpack c sw)"

definition ppp_pack_hdr :: "ppp_class \<Rightarrow> pval list \<Rightarrow> bytes result" where
  "ppp_pack_hdr c vs =
     (if 0xff < get_int (ppp_hdr c) ''p'' vs
      then (case struct_pack BE (hdr_fmt (ppp_front c) @ [fH]) vs of Inr b \<Rightarrow> Inr b | Inl _ \<Rightarrow> Inl PackError)
      else packet_pack_hdr BE (ppp_hdr c) vs)"

definition ppp_bytes :: "'p proto_ops \<Rightarrow> 'p ppp \<Rightarrow> bytes result" where
  "ppp_bytes ops r =
     rbind (ppp_pack_hdr (ppp_class r) (ppp_vals r)) (\<lambda>h. rbind (payload_bytes ops (ppp_data r)) (\<lambda>b. Inr (h @ b)))"

definition pppoe_hdr :: hdr where
  "pppoe_hdr = [(''_v_type'', fB, VInt 0x11), (''code'', fB, VInt 0), (''session'', fH, VInt 0), (''len'', fH, VInt 0)]"

definition pppoe_bits :: bit_fields where
  "pppoe_bits = [(''v'', 4), (''type'', 4)]"

record 'p pppoe =
  poe_vals :: "pval list"
  poe_data :: "('p ppp) payload"

definition pppoe_unpack :: "'p registry \<Rightarrow> bytes \<Rightarrow> 'p pppoe result" where
  "pppoe_unpack sw buf =
     rbind (class_unpack BE pppoe_hdr buf) (\<lambda>p.
     rbind (if get_int pppoe_hdr ''code'' (obj_vals p) = 0
            then (case ppp_init PPPoE_PPP sw (obj_data p) of
                    Inr x \<Rightarrow> Inr (Pkt x)
                  | Inl e \<Rightarrow> if is_unpack_error e then Inr (Raw (obj_data p)) else Inl e)
            else Inr (Raw (obj_data p))) (\<lambda>d. Inr \<lparr>poe_vals = obj_vals p, poe_data = d\<rparr>))"

definition pppoe_init :: "'p registry \<Rightarrow> bytes \<Rightarrow> 'p pppoe result" where
  "pppoe_init sw = packet_init (hdr_len pppoe_hdr) (pppoe_unpack sw)"

definition pppoe_bytes :: "'p proto_ops \<Rightarrow> 'p pppoe \<Rightarrow> bytes result" where
  "pppoe_bytes ops r =
     rbind (packet_pack_hdr BE pppoe_hdr (poe_vals r)) (\<lambda>h.
     rbind (case poe_data r of Raw b \<Rightarrow> Inr b | Pkt x \<Rightarrow> ppp_bytes ops x) (\<lambda>b. Inr (h @ b)))"

section \<open>What is packed is read back\<close>

lemma tunnel_tables [simp]:
  "hdr_len sll_hdr = 16" "hdr_len sll2_hdr = 20" "hdr_len gre_hdr = 4" "hdr_len sre_hdr = 4" "hdr_len pppoe_hdr = 6"
  "hdr_len loopback_hdr = 4"
  "table_ok sll_hdr" "table_ok sll2_hdr" "table_ok gre_hdr" "table_ok sre_hdr" "table_ok pppoe_hdr" "table_ok loopback_hdr"
  by (simp_all add: sll_hdr_def sll2_hdr_def gre_hdr_def sre_hdr_def pppoe_hdr_def loopback_hdr_def table_ok_def
      fmt_ok_def hdr_fields_def)

lemma ppp_tables [simp]: "table_ok (ppp_hdr c)" "hdr_len (ppp_hdr c) = Suc (hdr_len (ppp_front c))"
  by (cases c; simp add: ppp_hdr_def table_ok_def fmt_ok_def hdr_fields_def)+

lemma carrier_reads:
  assumes "table_ok h" "exact_all (hdr_fmt h) (ca_vals r)" "carrier_bytes h ops r = Inr b"
    and "\<And>p. payload_bytes ops (ca_data r) = Inr p \<Longrightarrow> dispatch sw (get_int h n (ca_vals r)) p = Inr (ca_data r)"
  shows "carrier_init h n sw b = Inr r"
proof -
  obtain a p where p: "packet_pack_hdr BE h (ca_vals r) = Inr a" "payload_bytes ops (ca_data r) = Inr p" "b = a @ p"
    using assms(3) by (auto simp: carrier_bytes_def rbind_Inr_iff)
  then show ?thesis
    using class_pack_read [OF assms(1,2) p(1), of p] assms(4) [OF p(2)]
    by (cases r) (simp add: carrier_init_def packet_init_Inr carrier_unpack_def obj_make_def)
qed

lemma gre_names_distinct: "distinct (map fst (gre_opt_fields flags))"
proof -
  let ?f = "\<lambda>L. map fst (map snd (filter (\<lambda>(m, f). flags AND m \<noteq> 0) L))"
  have d: "distinct (?f GRE_opt_fields)" "distinct (?f (drop 3 GRE_opt_fields))"
    unfolding map_map by (rule distinct_map_filter; simp add: GRE_opt_fields_def)+
  have "set (?f (drop 3 GRE_opt_fields)) \<subseteq> {''seq'', ''ack''}" by (auto simp: GRE_opt_fields_def)
  then show ?thesis using d by (auto simp: gre_opt_fields_def)
qed

lemma gre_fmts: "int_fmts (map snd (gre_opt_fields flags))"
  by (auto simp: int_fmts_def gre_opt_fields_def GRE_opt_fields_def list_all_iff)

lemma map_lookup:
  "distinct (map fst xs) \<Longrightarrow>
   map_result (\<lambda>n. case map_of xs n of None \<Rightarrow> Inl AttributeError | Some v \<Rightarrow> Inr (VInt v)) (map fst xs) = Inr (map VInt (map snd xs))"
proof -
  assume d: "distinct (map fst xs)"
  have "set ys \<subseteq> set xs \<Longrightarrow>
      map_result (\<lambda>n. case map_of xs n of None \<Rightarrow> Inl AttributeError | Some v \<Rightarrow> Inr (VInt v)) (map fst ys) = Inr (map VInt (map snd ys))" for ys
  proof (induction ys)
    case (Cons y ys)
    then have "map_of xs (fst y) = Some (snd y)" using d by (cases y) auto
    then show ?case using Cons by simp
  qed simp
  then show ?thesis by simp
qed

definition sre_ok :: "packet_obj \<Rightarrow> bool" where
  "sre_ok s \<longleftrightarrow> exact_all (hdr_fmt sre_hdr) (obj_vals s) \<and> get_int sre_hdr ''len'' (obj_vals s) = int (length (obj_data s))"

fun sres_ok :: "packet_obj list \<Rightarrow> bool" where
  "sres_ok [] \<longleftrightarrow> False"
| "sres_ok [s] \<longleftrightarrow> sre_ok s \<and> obj_data s = []"
| "sres_ok (s # ss) \<longleftrightarrow> sre_ok s \<and> obj_data s \<noteq> [] \<and> sres_ok ss"

lemma sre_reads:
  assumes "sre_ok s" "class_bytes BE sre_hdr s = Inr b"
  shows "sre_init (b @ rest) = Inr s \<and> class_len sre_hdr s = length b"
proof -
  obtain a where a: "packet_pack_hdr BE sre_hdr (obj_vals s) = Inr a" "b = a @ obj_data s"
    using assms(2) by (auto simp: class_bytes_def packet_bytes_def rbind_Inr_iff)
  then show ?thesis
    using class_pack_read [OF tunnel_tables(10) _ a(1), of "obj_data s @ rest"] assms(1)
    by (cases s) (simp add: sre_ok_def sre_init_def packet_init_Inr obj_make_def class_len_def packet_len_def)
qed

lemma concat_result_Cons:
  "concat_result f (x # xs) = Inr b \<longleftrightarrow> (\<exists>u v. f x = Inr u \<and> concat_result f xs = Inr v \<and> b = u @ v)"
  by (auto simp: rbind_Inr_iff)

lemma sre_loop_reads:
  "sres_ok ss \<Longrightarrow> concat_result (class_bytes BE sre_hdr) ss = Inr b \<Longrightarrow> sre_loop (b @ rest) = Inr (ss, rest)"
proof (induction ss arbitrary: b rule: sres_ok.induct)
  case (2 s)
  then have s: "sre_init (b @ rest) = Inr s" "class_len sre_hdr s = length b" "get_int sre_hdr ''len'' (obj_vals s) = 0"
    using sre_reads [of s b rest] by (auto simp: sre_ok_def)
  then show ?case by (subst sre_loop.simps) (simp add: Let_def)
next
  case (3 s t ss)
  obtain x y where xy: "class_bytes BE sre_hdr s = Inr x" "concat_result (class_bytes BE sre_hdr) (t # ss) = Inr y" "b = x @ y"
    using 3(3) unfolding concat_result_Cons by blast
  have s: "sre_init (b @ rest) = Inr s" "class_len sre_hdr s = length x" "get_int sre_hdr ''len'' (obj_vals s) \<noteq> 0"
    using sre_reads [of s x "y @ rest"] 3(2) xy by (auto simp: sre_ok_def)
  have "sre_loop (y @ rest) = Inr (t # ss, rest)" using 3(1) [OF _ xy(2)] 3(2) by simp
  then show ?case using s xy(3) by (subst sre_loop.simps) (simp add: Let_def)
qed simp

section \<open>Properties\<close>

text \<open>
  A Linux cooked packet of either version whose payload the registry reads back is read back from
  its bytes.
\<close>

theorem sll_roundtrip:
  assumes "(h, init) = (sll_hdr, sll_init) \<or> (h, init) = (sll2_hdr, sll2_init)"
    and "exact_all (hdr_fmt h) (ca_vals r)" "carrier_bytes h ops r = Inr b"
    and "\<forall>p. payload_bytes ops (ca_data r) = Inr p \<longrightarrow> dispatch sw (get_int h ''ethtype'' (ca_vals r)) p = Inr (ca_data r)"
  shows "init sw b = Inr r"
  using assms(1) carrier_reads [OF _ assms(2,3), of sw "''ethtype''"] assms(4)
  by (auto simp: sll_init_def sll2_init_def)

definition example_sll :: "transport carrier" where
  "example_sll = \<lparr>ca_vals = map VInt [0, 1, 6] @ [VBytes (zeros 8), VInt 0x9999], ca_data = Raw [1, 2, 3]\<rparr>"

theorem sll_roundtrip_witness: "\<exists>b. carrier_bytes sll_hdr transport_ops example_sll = Inr b \<and> sll_init transport_sw b = Inr example_sll"
proof -
  obtain b where "carrier_bytes sll_hdr transport_ops example_sll = Inr b"
    by (simp add: carrier_bytes_def example_sll_def sll_hdr_def packet_pack_hdr_def)
  then show ?thesis
    using sll_roundtrip [of sll_hdr sll_init example_sll transport_ops b transport_sw]
    by (auto simp: example_sll_def sll_hdr_def dispatch_def transport_sw_def get_int_def hdr_fields_def)
qed

text \<open>
  C36: A GRE packet that carries exactly the optional fields its flags announce, and a source route when
  they announce one, is read back from its bytes, and its length is their number.
\<close>

theorem gre_roundtrip:
  fixes r :: "'p gre"
  defines "flags \<equiv> gre_flags (gre_vals r)"
  assumes "exact_all (hdr_fmt gre_hdr) (gre_vals r)" "map fst (gre_opts r) = map fst (gre_opt_fields flags)"
    and "if flags AND 0x4000 \<noteq> 0 then sres_ok (gre_sre r) else gre_sre r = []"
    and "gre_bytes ops r = Inr b"
    and "\<forall>p. payload_bytes ops (gre_data r) = Inr p \<longrightarrow>
      dispatch sw (get_int gre_hdr ''p'' (gre_vals r)) p = Inr (gre_data r) \<and> payload_len ops (gre_data r) = length p"
  shows "gre_init sw b = Inr r \<and> gre_len ops r = length b"
proof -
  let ?fs = "gre_opt_fields flags"
  obtain opt h s d where p: "gre_opt_bytes r = Inr opt" "packet_pack_hdr BE gre_hdr (gre_vals r) = Inr h"
    "concat_result (class_bytes BE sre_hdr) (gre_sre r) = Inr s" "payload_bytes ops (gre_data r) = Inr d" "b = h @ opt @ s @ d"
    using assms(5) by (auto simp: gre_bytes_def rbind_Inr_iff)
  have "pack_row BE (map snd ?fs) (map snd (gre_opts r)) = Inr opt"
    using p(1) map_lookup [of "gre_opts r"] gre_names_distinct [of flags] assms(3)
    by (simp add: gre_opt_bytes_def flags_def pack_row_def Let_def)
  then have o': "length opt = calcsize (map snd ?fs)" "struct_unpack BE (map snd ?fs) opt = Inr (map VInt (map snd (gre_opts r)))"
    using pack_row_unpack [OF gre_fmts] by auto
  have h: "length h = 4" "class_unpack BE gre_hdr b = Inr (obj_make (gre_vals r) (opt @ s @ d))"
    using class_pack_read [OF tunnel_tables(9) assms(2) p(2), of "opt @ s @ d"] p(5) by auto
  have s: "(if flags AND 0x4000 \<noteq> 0 then sre_loop (s @ d) else Inr ([], s @ d)) = Inr (gre_sre r, d)"
    using sre_loop_reads [OF _ p(3), of d] assms(4) p(3) by (auto split: if_splits)
  have z: "zip (map fst ?fs) (map snd (gre_opts r)) = gre_opts r"
    using assms(3) [symmetric] by (simp add: zip_map_fst_snd)
  have i: "map ival (map VInt (map snd (gre_opts r))) = map snd (gre_opts r)" by (simp add: comp_def)
  have d: "take (calcsize (map snd ?fs)) (opt @ s @ d) = opt" "drop (calcsize (map snd ?fs)) (opt @ s @ d) = s @ d"
    using o'(1) by simp_all
  have "gre_unpack sw b = Inr r"
    unfolding gre_unpack_def h(2) obj_make_def rbind_simps packet_obj.simps Let_def flags_def [symmetric] d o'(2) s prod.case
    using z i assms(6) p(4) by (simp add: del: map_map)
  then have "gre_init sw b = Inr r" by (simp add: gre_init_def packet_init_Inr)
  moreover have "sum_list (map (class_len sre_hdr) (gre_sre r)) = length s"
    by (rule concat_result_length [OF p(3), symmetric])
      (auto simp: class_bytes_def packet_bytes_def class_len_def packet_len_def rbind_Inr_iff dest!: packet_pack_hdr_length)
  ultimately show ?thesis using h(1) o'(1) p(4,5) assms(6) by (simp add: gre_len_def flags_def)
qed

definition example_gre :: "transport gre" where
  "example_gre = \<lparr>gre_vals = map VInt [0x3001, 0x880b], gre_opts = [(''len'', 3), (''callid'', 7), (''seq'', 1)],
     gre_sre = [], gre_data = Raw [9, 9, 9]\<rparr>"

theorem gre_roundtrip_witness: "\<exists>b. gre_bytes transport_ops example_gre = Inr b \<and> gre_init transport_sw b = Inr example_gre"
proof -
  have f: "gre_flags (gre_vals example_gre) = 0x3001" "get_int gre_hdr ''p'' (gre_vals example_gre) = 0x880b"
    by (simp_all add: gre_flags_def example_gre_def get_int_def gre_hdr_def hdr_fields_def)
  have fs: "gre_opt_fields 0x3001 = [(''len'', fH), (''callid'', fH), (''seq'', fI)]"
    by (simp add: gre_opt_fields_def gre_v_def GRE_opt_fields_def)
  have "\<exists>b. gre_bytes transport_ops example_gre = Inr b"
    unfolding gre_bytes_def gre_opt_bytes_def f(1) fs Let_def
    by (simp add: example_gre_def gre_hdr_def packet_pack_hdr_def)
  then obtain b where b: "gre_bytes transport_ops example_gre = Inr b" by blast
  show ?thesis
    using gre_roundtrip [of example_gre transport_ops b transport_sw] b f fs
    by (simp add: example_gre_def gre_hdr_def dispatch_def transport_sw_def)
qed

lemma or_push_add: "0 \<le> x \<Longrightarrow> x < 2 ^ n \<Longrightarrow> x OR push_bit n y = x + 2 ^ n * (y::int)"
proof -
  assume x: "0 \<le> x" "x < 2 ^ n"
  then have "take_bit n x = x" by (simp add: take_bit_int_eq_self)
  then have "\<not> bit x k \<or> \<not> bit (push_bit n y) k" for k
    by (metis bit_push_bit_iff bit_take_bit_iff linorder_not_le)
  then have "x + push_bit n y = x OR push_bit n y" by (rule disjunctive_add)
  then show ?thesis by (simp add: push_bit_eq_mult mult.commute)
qed

text \<open>
  Packing a parsed VXLAN packet clears its reserved bytes, so the bytes are kept exactly when they
  were zero; a valid packet is one of these.
\<close>

theorem vxlan_packs_back:
  assumes "vxlan_init buf = Inr r"
  shows "vxlan_bytes r = Inr (take 1 buf @ zeros 3 @ take 3 (drop 4 buf) @ [0] @ drop 8 buf) \<and>
    vxlan_len r = length buf \<and> (vxlan_is_valid r \<longrightarrow> vxlan_bytes r = Inr buf)"
proof -
  obtain a b c d e f g h t where buf: "buf = a # b # c # d # e # f # g # h # t"
    using assms by (auto simp: vxlan_init_def numeral_eq_Suc not_less Suc_le_length_iff split: if_splits)
  define v where "v = push_bit 16 (ord e) OR push_bit 8 (ord f) OR ord g"
  have v: "v = ord g + 256 * (ord f + 256 * ord e)"
    using or_push_add [of "ord g" 8 "ord f"] or_push_add [of "ord g + 256 * ord f" 16 "ord e"] ord_range [of f] ord_range [of g]
    by (simp add: v_def or.commute or.left_commute ac_simps)
  have "ord g + 256 * ord f + 65536 * ord e < 16777216" using ord_range(3) [of e] ord_range(3) [of f] ord_range(3) [of g] by linarith
  then have vr: "0 \<le> v" "v < 2 ^ 24" by (simp_all add: v algebra_simps)
  have m: "v AND 0xFFFFFF = v" using and_mask_int [of v 24] vr by simp
  have "int_bytes BE 4 v = [0, e, f, g]"
    using be_bytes_be_int [of "[0, e, f, g]" 4] by (simp add: int_bytes_def be_int_def v algebra_simps)
  then have p: "pack_uint BE 4 (v AND 0xFFFFFF) = Inr [0, e, f, g]" unfolding m using vr by (simp add: pack_uint_eq)
  have o': "word_of_int (ord a) = a" by (simp add: ord_def)
  show ?thesis
    using assms p o' unfolding v_def
    by (auto simp: buf vxlan_init_def vxlan_bytes_def vxlan_len_def vxlan_is_valid_def py_byte_def Let_def zeros_def numeral_eq_Suc)
qed

theorem vxlan_packs_back_witness:
  "\<exists>r. vxlan_init [8, 0, 0, 0, 1, 2, 3, 0, 42] = Inr r \<and> vx_vni r = 66051 \<and> vxlan_bytes r = Inr [8, 0, 0, 0, 1, 2, 3, 0, 42]"
proof -
  obtain r where r: "vxlan_init [8, 0, 0, 0, 1, 2, 3, 0, 42] = Inr r" "vx_vni r = 66051" "vxlan_is_valid r"
    by (simp add: vxlan_init_def vxlan_is_valid_def)
  then show ?thesis using vxlan_packs_back [OF r(1)] by (simp add: zeros_def numeral_eq_Suc)
qed

text \<open>
  A loopback header in the other byte order is not kept: the family is replaced by its number, which
  packing writes in the byte order of the machine.
\<close>

theorem loopback_family_rewritten:
  assumes "loopback_init LE sw env buf = Inr r" "take 4 buf = [0, 0, 0, 2]" "loopback_bytes LE ops env r = Inr b"
  shows "lb_family r = 2 \<and> take 4 b = [2, 0, 0, 0]"
proof -
  obtain p where p: "class_unpack LE loopback_hdr buf = Inr p"
    "get_int loopback_hdr ''family'' (obj_vals p) = 0x02000000 \<Longrightarrow> lb_family r = 2"
    using assms(1) by (auto simp: loopback_init_def packet_init_Inr loopback_unpack_def rbind_Inr_iff Let_def split: if_splits)
  then have "get_int loopback_hdr ''family'' (obj_vals p) = bytes_int LE (take 4 buf)"
    by (auto simp: class_unpack_def packet_unpack_def loopback_hdr_def struct_unpack_def obj_make_def get_int_def hdr_fields_def
        split: if_splits)
  then have f: "lb_family r = 2" using p(2) assms(2) by (simp add: bytes_int_def)
  then have "packet_pack_hdr LE loopback_hdr [VInt (lb_family r)] = Inr [2, 0, 0, 0]"
    by (simp add: packet_pack_hdr_def loopback_hdr_def int_bytes_def)
  then show ?thesis using f assms(3) by (auto simp: loopback_bytes_def rbind_Inr_iff)
qed

definition empty_env :: "unit eth_env" where
  "empty_env = \<lparr>env_typesw = (\<lambda>_. None), env_rev = (\<lambda>_. None), env_stp = (\<lambda>_. Inl UnpackError), env_isis = (\<lambda>_. Inl UnpackError),
     env_bytes = (\<lambda>_. Inr []), env_len = (\<lambda>_. Inr 0)\<rparr>"

definition example_loopback :: bytes where
  "example_loopback = [0, 0, 0, 2, 0x45, 0, 0, 20, 0, 0, 0, 0, 64, 59, 1, 1, 127, 0, 0, 1, 127, 0, 0, 1]"

theorem loopback_family_rewritten_witness:
  "\<exists>r b. loopback_init LE transport_sw empty_env example_loopback = Inr r \<and>
     loopback_bytes LE transport_ops empty_env r = Inr b \<and> take 4 b = [2, 0, 0, 0]"
proof -
  obtain i where i: "ip_init transport_sw (drop 4 example_loopback) = Inr i"
    and e: "\<exists>b i'. ip_bytes transport_ops i = Inr (b, i')"
    by (simp add: example_loopback_def ip_init_def ip_unpack_def packet_init_def packet_unpack_def ip_hdr_def struct_unpack_def
        ip_make_def bytes_int_def be_int_def Let_def ip_offset_eq dispatch_def transport_sw_def py_slice_def py_index_def
        ip_bytes_def packet_pack_hdr_def ip_vals_def)
  then obtain r where r: "loopback_init LE transport_sw empty_env example_loopback = Inr r" "r = \<lparr>lb_family = 2, lb_data = LB_IP i\<rparr>"
    by (simp add: loopback_init_def packet_init_def loopback_unpack_def class_unpack_def packet_unpack_def loopback_hdr_def
        struct_unpack_def obj_make_def get_int_def hdr_fields_def bytes_int_def example_loopback_def)
  obtain b where b: "loopback_bytes LE transport_ops empty_env r = Inr b"
    using e by (auto simp: r(2) loopback_bytes_def packet_pack_hdr_def loopback_hdr_def)
  show ?thesis using loopback_family_rewritten [OF r(1) _ b] r(1) b by (simp add: example_loopback_def)
qed

definition ppp_ok :: "ppp_class \<Rightarrow> pval list \<Rightarrow> bool" where
  "ppp_ok c vs \<longleftrightarrow>
     (let p = get_int (ppp_hdr c) ''p'' vs
      in if 0xff < p then exact_all (hdr_fmt (ppp_front c) @ [fH]) vs \<and> drop_bit 8 p AND 1 = 0
         else exact_all (hdr_fmt (ppp_hdr c)) vs \<and> p AND 1 \<noteq> 0)"

lemma byte_pair_high: "drop_bit 8 (ord y + 256 * ord x) = ord x"
  by (simp only: drop_bit_int_def) simp

lemma ppp_wide_reads:
  assumes "exact_all (hdr_fmt (ppp_front c) @ [fH]) vs" "struct_pack BE (hdr_fmt (ppp_front c) @ [fH]) vs = Inr h"
    and "drop_bit 8 (get_int (ppp_hdr c) ''p'' vs) AND 1 = 0"
  shows "\<exists>ws k x y. class_unpack BE (ppp_hdr c) (h @ d) = Inr (obj_make ws (y # d)) \<and>
    take 2 (drop (hdr_len (ppp_front c)) (h @ d)) = [x, y] \<and> get_int (ppp_hdr c) ''p'' ws = ord x \<and> ord x AND 1 = 0 \<and>
    get_int (ppp_hdr c) ''p'' vs = be_int [x, y] \<and> vs = set_val (ppp_hdr c) ''p'' (VInt (be_int [x, y])) ws"
proof -
  have u: "struct_unpack BE (hdr_fmt (ppp_front c) @ [fH]) h = Inr vs"
    using struct_unpack_pack [OF assms(1) _ assms(2)] by (cases c) (auto simp: fmt_ok_def hdr_fields_def)
  show ?thesis
  proof (cases c)
    case PPP
    then have "length h = 4" using u by (auto simp: struct_unpack_def hdr_fields_def split: if_splits)
    then obtain a b x y where h: "h = [a, b, x, y]" by (auto simp: numeral_eq_Suc length_Suc_conv)
    then have "vs = [VInt (ord a), VInt (ord b), VInt (ord y + 256 * ord x)]" using u
      by (simp add: PPP h struct_unpack_def hdr_fields_def bytes_int_def be_int_def)
    then show ?thesis using assms(3) byte_pair_high [of y x]
      by (simp add: PPP h ppp_hdr_def hdr_fields_def class_unpack_def packet_unpack_def struct_unpack_def obj_make_def get_int_def
          set_val_def bytes_int_def be_int_def)
  next
    case PPPoE_PPP
    then have "length h = 2" using u by (auto simp: struct_unpack_def hdr_fields_def split: if_splits)
    then obtain x y where h: "h = [x, y]" by (auto simp: numeral_eq_Suc length_Suc_conv)
    then have "vs = [VInt (ord y + 256 * ord x)]" using u
      by (simp add: PPPoE_PPP h struct_unpack_def hdr_fields_def bytes_int_def be_int_def)
    then show ?thesis using assms(3) byte_pair_high [of y x]
      by (simp add: PPPoE_PPP h ppp_hdr_def hdr_fields_def class_unpack_def packet_unpack_def struct_unpack_def obj_make_def get_int_def
          set_val_def bytes_int_def be_int_def)
  qed
qed

text \<open>
  A PPP frame, with or without the address and control bytes, whose protocol number is odd and fits a
  byte or has an even high byte is read back from its bytes.
\<close>

theorem ppp_roundtrip:
  assumes "ppp_ok (ppp_class r) (ppp_vals r)" "ppp_bytes ops r = Inr b"
    and "\<forall>d. payload_bytes ops (ppp_data r) = Inr d \<longrightarrow>
      ppp_dispatch sw (get_int (ppp_hdr (ppp_class r)) ''p'' (ppp_vals r)) d = Inr (ppp_data r)"
  shows "ppp_init (ppp_class r) sw b = Inr r"
proof -
  let ?c = "ppp_class r" and ?vs = "ppp_vals r"
  let ?p = "get_int (ppp_hdr ?c) ''p'' ?vs"
  obtain h d where p: "ppp_pack_hdr ?c ?vs = Inr h" "payload_bytes ops (ppp_data r) = Inr d" "b = h @ d"
    using assms(2) by (auto simp: ppp_bytes_def rbind_Inr_iff)
  have "ppp_unpack ?c sw b = Inr r"
  proof (cases "0xff < ?p")
    case True
    then have "exact_all (hdr_fmt (ppp_front ?c) @ [fH]) ?vs" "struct_pack BE (hdr_fmt (ppp_front ?c) @ [fH]) ?vs = Inr h"
      "drop_bit 8 ?p AND 1 = 0"
      using assms(1) p(1) by (auto simp: ppp_ok_def ppp_pack_hdr_def Let_def split: sum.splits)
    from ppp_wide_reads [OF this, of d] obtain ws x y
      where "class_unpack BE (ppp_hdr ?c) b = Inr (obj_make ws (y # d))" "take 2 (drop (hdr_len (ppp_front ?c)) b) = [x, y]"
        "get_int (ppp_hdr ?c) ''p'' ws AND 1 = 0" "?p = be_int [x, y]" "?vs = set_val (ppp_hdr ?c) ''p'' (VInt (be_int [x, y])) ws"
      unfolding p(3) by auto
    then show ?thesis using assms(3) p(2)
      by (cases r) (simp add: ppp_unpack_def obj_make_def unpack_uint_def bytes_int_def)
  next
    case False
    then have "exact_all (hdr_fmt (ppp_hdr ?c)) ?vs" "?p AND 1 \<noteq> 0" "packet_pack_hdr BE (ppp_hdr ?c) ?vs = Inr h"
      using assms(1) p(1) by (auto simp: ppp_ok_def ppp_pack_hdr_def Let_def)
    then show ?thesis using class_pack_read [OF ppp_tables(1), of ?c ?vs BE h d] assms(3) p
      by (cases r) (simp add: ppp_unpack_def obj_make_def)
  qed
  then show ?thesis using assms by (simp add: ppp_init_def packet_init_Inr)
qed

lemma le_bytes_2: "le_bytes 2 i = [word_of_int i, word_of_int (i div 256)]"
  by (simp add: numeral_2_eq_2)

definition example_ppp :: "transport ppp" where
  "example_ppp = \<lparr>ppp_class = PPP, ppp_vals = map VInt [0xff, 3, 0xc021], ppp_data = Raw [1, 2]\<rparr>"

theorem ppp_roundtrip_witness:
  "ppp_bytes transport_ops example_ppp = Inr [0xff, 3, 0xc0, 0x21, 1, 2] \<and> ppp_init PPP transport_sw [0xff, 3, 0xc0, 0x21, 1, 2] = Inr example_ppp"
proof -
  have b: "ppp_bytes transport_ops example_ppp = Inr [0xff, 3, 0xc0, 0x21, 1, 2]"
    by (simp add: ppp_bytes_def example_ppp_def ppp_pack_hdr_def ppp_hdr_def get_int_def hdr_fields_def int_bytes_def be_bytes_def le_bytes_2)
  have "drop_bit 8 (0xc021::int) = 0xc0" by (simp only: drop_bit_int_def) simp
  then show ?thesis using ppp_roundtrip [OF _ b, of transport_sw] b
    by (simp add: example_ppp_def ppp_ok_def ppp_hdr_def get_int_def hdr_fields_def ppp_dispatch_def transport_sw_def)
qed

text \<open>
  A frame whose two-byte protocol number has a zero high byte is repacked with the number in one byte,
  so the result is one byte shorter.
\<close>

theorem ppp_shrinks:
  assumes "ppp_init c sw (f @ [0, x] @ d) = Inr r" "length f = hdr_len (ppp_front c)" "ppp_bytes ops r = Inr b"
    and "payload_bytes ops (ppp_data r) = Inr d"
  shows "b = f @ [x] @ d \<and> length b + 1 = length (f @ [0, x] @ d)"
proof -
  obtain vs where v: "ppp_vals r = vs @ [VInt (ord x)]" "vs = map (\<lambda>y. VInt (ord y)) f" "ppp_class r = c"
    using assms(1,2)
    by (cases c) (auto simp: ppp_init_def packet_init_Inr ppp_unpack_def class_unpack_def packet_unpack_def obj_make_def ppp_hdr_def
        hdr_fields_def struct_unpack_def set_val_def unpack_uint_def bytes_int_def be_int_def get_int_def rbind_Inr_iff
        numeral_2_eq_2 length_Suc_conv)
  have "int_bytes BE (Suc 0) (ord y) = [y]" for y
    using int_bytes_bytes_int [of "[y]" 1 BE] by (simp add: bytes_int_def be_int_def)
  moreover have "\<not> 255 < ord x" "ord x < 65536" using ord_range(3) [of x] by linarith+
  ultimately have "ppp_pack_hdr c (ppp_vals r) = Inr (f @ [x])"
    unfolding v(1,2) using assms(2)
    by (cases c) (auto simp: ppp_pack_hdr_def ppp_hdr_def hdr_fields_def get_int_def packet_pack_hdr_def numeral_2_eq_2 length_Suc_conv)
  then show ?thesis using assms(3,4) v(3) by (auto simp: ppp_bytes_def)
qed

theorem ppp_shrinks_witness:
  "\<exists>r. ppp_init PPP transport_sw ([0xff, 3] @ [0, 0x21] @ []) = Inr r \<and> ppp_bytes transport_ops r = Inr [0xff, 3, 0x21]"
proof -
  obtain r b where r: "ppp_init PPP transport_sw ([0xff, 3] @ [0, 0x21] @ []) = Inr r" "ppp_bytes transport_ops r = Inr b"
    "payload_bytes transport_ops (ppp_data r) = Inr []"
    by (simp add: ppp_init_def packet_init_def ppp_unpack_def class_unpack_def packet_unpack_def obj_make_def ppp_hdr_def
        hdr_fields_def struct_unpack_def set_val_def unpack_uint_def bytes_int_def be_int_def get_int_def ppp_dispatch_def
        transport_sw_def ppp_bytes_def ppp_pack_hdr_def packet_pack_hdr_def)
  show ?thesis using ppp_shrinks [OF r(1) _ r(2,3)] r by (simp add: hdr_fields_def)
qed


end
