(* ===== verification/Rtcp.thy ===== *)
theory Rtcp
  imports Tables
begin

text \<open>
  RTCP, \<^verbatim>\<open>dpkt/rtcp.py\<close>: sender and receiver reports, extended reports with their seven block
  classes, and the builder methods \<^verbatim>\<open>addInfo\<close>, \<^verbatim>\<open>addReport\<close> and \<^verbatim>\<open>addData\<close>, which keep the length field.
  The relation \<open>built\<close> is the packets they can make.
\<close>

section \<open>Info and report blocks\<close>

definition srinfo_hdr :: hdr where
  "srinfo_hdr = [(''ssrc'', fI, VInt 0), (''ntp_ts_msw'', fI, VInt 0), (''ntp_ts_lsw'', fI, VInt 0), (''rtp_ts'', fI, VInt 0),
     (''pkts'', fI, VInt 0), (''octs'', fI, VInt 0)]"

definition rrinfo_hdr :: hdr where
  "rrinfo_hdr = [(''ssrc'', fI, VInt 0)]"

definition report_hdr :: hdr where
  "report_hdr = [(''ssrc'', fI, VInt 0), (''_lossfrac_losscumm'', fI, VInt 0), (''seq'', fI, VInt 0), (''jitter'', fI, VInt 0),
     (''lsr'', fI, VInt 0), (''dlsr'', fI, VInt 0)]"

definition report_bits :: bit_fields where
  "report_bits = [(''lossfrac'', 8), (''losscumm'', 24)]"

text \<open>Their \<^verbatim>\<open>unpack\<close> drops what follows the header.\<close>

definition bare_init :: "hdr \<Rightarrow> bytes \<Rightarrow> packet_obj result" where
  "bare_init h = packet_init (hdr_len h) (\<lambda>buf. rbind (class_unpack BE h buf) (\<lambda>p. Inr (p\<lparr>obj_data := []\<rparr>)))"

datatype rtcp_info = SRInfo "pval list" | RRInfo "pval list"

fun info_hdr :: "rtcp_info \<Rightarrow> hdr" where
  "info_hdr (SRInfo _) = srinfo_hdr"
| "info_hdr (RRInfo _) = rrinfo_hdr"

fun info_vals :: "rtcp_info \<Rightarrow> pval list" where
  "info_vals (SRInfo vs) = vs"
| "info_vals (RRInfo vs) = vs"

section \<open>Extended report blocks\<close>

datatype xblock_class = XLoss | XDupl | XRcvt | XRcvr | XDlrr | XStat | XVoip

fun xblock_hdr :: "xblock_class \<Rightarrow> hdr" where
  "xblock_hdr XLoss = rtcp_XBlockLoss_hdr"
| "xblock_hdr XDupl = rtcp_XBlockDupl_hdr"
| "xblock_hdr XRcvt = rtcp_XBlockRcvt_hdr"
| "xblock_hdr XRcvr = rtcp_XBlockRcvr_hdr"
| "xblock_hdr XDlrr = []"
| "xblock_hdr XStat = rtcp_XBlockStat_hdr"
| "xblock_hdr XVoip = rtcp_XBlockVoip_hdr"

fun xblock_type :: "xblock_class \<Rightarrow> int" where
  "xblock_type XLoss = 1"
| "xblock_type XDupl = 2"
| "xblock_type XRcvt = 3"
| "xblock_type XRcvr = 4"
| "xblock_type XDlrr = 5"
| "xblock_type XStat = 6"
| "xblock_type XVoip = 7"

definition xblock_of :: "int \<Rightarrow> xblock_class option" where
  "xblock_of t = find (\<lambda>c. xblock_type c = t) [XLoss, XDupl, XRcvt, XRcvr, XDlrr, XStat, XVoip]"

definition xreport_hdr :: hdr where
  "xreport_hdr = [(''type'', fB, VInt 0), (''spec'', fB, VInt 0), (''len'', fH, VInt 0)]"

text \<open>A block object that was not given a block has no attribute \<^verbatim>\<open>block\<close>.\<close>

record xrblock =
  xb_vals :: "pval list"
  xb_block :: "(xblock_class \<times> packet_obj) option"

definition xrblock_new :: xrblock where
  "xrblock_new = \<lparr>xb_vals = packet_kwargs xreport_hdr [], xb_block = None\<rparr>"

definition xb_len :: "xrblock \<Rightarrow> int" where
  "xb_len b = get_int xreport_hdr ''len'' (xb_vals b)"

text \<open>\<^verbatim>\<open>math.ceil(n / 4)\<close>; the division is exact in a float for every size that occurs.\<close>

definition words :: "int \<Rightarrow> int" where
  "words n = (n + 3) div 4"

definition set_block :: "xblock_class \<Rightarrow> packet_obj \<Rightarrow> xrblock \<Rightarrow> xrblock" where
  "set_block c p b =
     b\<lparr>xb_block := Some (c, p),
       xb_vals := set_val xreport_hdr ''len'' (VInt (words (int (class_len (xblock_hdr c) p))))
         (set_val xreport_hdr ''type'' (VInt (xblock_type c)) (xb_vals b))\<rparr>"

definition xrblock_unpack :: "bytes \<Rightarrow> xrblock result" where
  "xrblock_unpack buf =
     rbind (class_unpack BE xreport_hdr buf) (\<lambda>p.
       case xblock_of (get_int xreport_hdr ''type'' (obj_vals p)) of
         None \<Rightarrow> Inl ValueError
       | Some c \<Rightarrow>
           rbind (class_init BE (xblock_hdr c) (take (nat (get_int xreport_hdr ''len'' (obj_vals p) * 4)) (obj_data p))) (\<lambda>x.
             Inr \<lparr>xb_vals = obj_vals p, xb_block = Some (c, x)\<rparr>))"

definition xrblock_init :: "bytes \<Rightarrow> xrblock result" where
  "xrblock_init = packet_init (hdr_len xreport_hdr) xrblock_unpack"

definition xrblock_bytes :: "xrblock \<Rightarrow> bytes result" where
  "xrblock_bytes b =
     rbind (packet_pack_hdr BE xreport_hdr (xb_vals b)) (\<lambda>h.
       case xb_block b of
         None \<Rightarrow> Inl AttributeError
       | Some (c, p) \<Rightarrow> rbind (class_bytes BE (xblock_hdr c) p) (\<lambda>x. Inr (h @ x)))"

definition xrblock_size :: "xrblock \<Rightarrow> int" where
  "xrblock_size b = 4 + xb_len b * 4"

lemma xrblock_init_ok:
  assumes "xrblock_init buf = Inr b"
  shows "4 \<le> length buf \<and> 0 \<le> xb_len b"
proof -
  obtain p where p: "class_unpack BE xreport_hdr buf = Inr p" "xb_vals b = obj_vals p"
    using assms by (auto simp: xrblock_init_def packet_init_Inr xrblock_unpack_def rbind_Inr_iff split: option.splits)
  then show ?thesis
    using class_unpack_data [OF p(1)]
    by (auto simp: xb_len_def xreport_hdr_def class_unpack_def packet_unpack_def struct_unpack_def obj_make_def rbind_Inr_iff
        get_int_Cons split: if_splits)
qed

text \<open>The loop of \<^verbatim>\<open>XReport.unpack\<close>: the blocks before an error, and the error.\<close>

function xreport_loop :: "bytes \<Rightarrow> xrblock list \<times> exn option" where
  "xreport_loop buf =
     (if buf = [] then ([], None)
      else case xrblock_init buf of
        Inl e \<Rightarrow> ([], Some e)
      | Inr b \<Rightarrow> (case xreport_loop (drop (nat (xrblock_size b)) buf) of (bs, e) \<Rightarrow> (b # bs, e)))"
  by pat_completeness auto
termination
  by (relation "measure length") (auto dest!: xrblock_init_ok simp: xrblock_size_def)

declare xreport_loop.simps [simp del]

definition xreport_unpack :: "bytes \<Rightarrow> xrblock list result" where
  "xreport_unpack buf =
     (case xreport_loop buf of
        (bs, None) \<Rightarrow> Inr bs
      | (bs, Some e) \<Rightarrow> if e = ValueError \<and> bs \<noteq> [] then Inr bs else Inl e)"

definition xreport_init :: "bytes \<Rightarrow> xrblock list result" where
  "xreport_init = packet_init 0 xreport_unpack"

definition xreport_len :: "xrblock list \<Rightarrow> int" where
  "xreport_len bs = sum_list (map xrblock_size bs)"

section \<open>The packet\<close>

datatype rtcp_report = Rep packet_obj | XRep "xrblock list"

record rtcp =
  rc_vals :: "pval list"
  rc_info :: "rtcp_info option"
  rc_reports :: "rtcp_report list"
  rc_data :: bytes

definition rtcp_hdr :: hdr where
  "rtcp_hdr = [(''_version_p_cc_pt'', fH, VInt 0x8000), (''len'', fH, VInt 0)]"

definition rtcp_bits :: bit_fields where
  "rtcp_bits = [(''version'', 2), (''p'', 1), (''cc'', 5), (''pt'', 8)]"

definition rc_word :: "pval list \<Rightarrow> int" where
  "rc_word vs = get_int rtcp_hdr ''_version_p_cc_pt'' vs"

definition rc_bit :: "string \<Rightarrow> pval list \<Rightarrow> int" where
  "rc_bit n vs = (case bf_get rtcp_bits n (rc_word vs) of Inr v \<Rightarrow> v | Inl _ \<Rightarrow> 0)"

definition rc_set :: "string \<Rightarrow> int \<Rightarrow> pval list \<Rightarrow> pval list result" where
  "rc_set n v vs =
     rbind (bf_set rtcp_bits n v (rc_word vs)) (\<lambda>w. Inr (set_val rtcp_hdr ''_version_p_cc_pt'' (VInt w) vs))"

definition rc_pt :: "rtcp \<Rightarrow> int" where
  "rc_pt r = rc_bit ''pt'' (rc_vals r)"

definition rc_cc :: "rtcp \<Rightarrow> int" where
  "rc_cc r = rc_bit ''cc'' (rc_vals r)"

definition rtcp_new :: "int \<Rightarrow> rtcp result" where
  "rtcp_new k =
     rbind (rc_set ''pt'' k (packet_kwargs rtcp_hdr [])) (\<lambda>vs.
       Inr \<lparr>rc_vals = vs, rc_info = None, rc_reports = [], rc_data = []\<rparr>)"

definition report_len :: "rtcp_report \<Rightarrow> int" where
  "report_len x = (case x of Rep p \<Rightarrow> int (class_len report_hdr p) | XRep bs \<Rightarrow> xreport_len bs)"

definition info_len :: "rtcp_info option \<Rightarrow> int" where
  "info_len i = (case i of None \<Rightarrow> 0 | Some i \<Rightarrow> int (hdr_len (info_hdr i)))"

definition set_len :: "int \<Rightarrow> rtcp \<Rightarrow> rtcp" where
  "set_len ll r = r\<lparr>rc_vals := set_val rtcp_hdr ''len'' (VInt (words (ll - 4))) (rc_vals r)\<rparr>"

definition add_info :: "rtcp_info \<Rightarrow> rtcp \<Rightarrow> rtcp result" where
  "add_info i r =
     (if rc_pt r \<notin> {200, 201, 207} then Inl ValueError
      else Inr (set_len
        (4 + int (hdr_len (info_hdr i)) + int (length (rc_data r)) +
         (if rc_reports r = [] then 0
          else if rc_pt r \<in> {200, 201} then 24 * rc_cc r else report_len (hd (rc_reports r))))
        (r\<lparr>rc_info := Some i\<rparr>)))"

definition add_report :: "rtcp_report \<Rightarrow> rtcp \<Rightarrow> rtcp result" where
  "add_report x r =
     (if rc_pt r \<notin> {200, 201, 207} then Inl ValueError
      else
        let rs = rc_reports r @ [x]
        in rbind (rc_set ''cc'' (int (length rs)) (rc_vals r)) (\<lambda>vs.
             let r' = r\<lparr>rc_reports := rs, rc_vals := vs\<rparr>
             in Inr (set_len
                  (4 + int (length (rc_data r')) + info_len (rc_info r') +
                   (if rc_pt r' \<in> {200, 201} then 24 * rc_cc r' else report_len (hd rs))) r')))"

definition add_data :: "bytes \<Rightarrow> rtcp \<Rightarrow> rtcp result" where
  "add_data d r =
     (if rc_pt r \<in> {201, 207} then Inl ValueError
      else Inr (set_len
        (4 + int (length d) + info_len (rc_info r) + (if rc_pt r \<in> {200, 201} then 24 * rc_cc r else 0))
        (r\<lparr>rc_data := d\<rparr>)))"

definition rtcp_len :: "rtcp \<Rightarrow> int" where
  "rtcp_len r = get_int rtcp_hdr ''len'' (rc_vals r) * 4 + 4"

definition report_bytes :: "rtcp_report \<Rightarrow> bytes result" where
  "report_bytes x =
     (case x of Rep p \<Rightarrow> packet_pack_hdr BE report_hdr (obj_vals p) | XRep bs \<Rightarrow> concat_result xrblock_bytes bs)"

definition rtcp_bytes :: "rtcp \<Rightarrow> bytes result" where
  "rtcp_bytes r =
     rbind (packet_pack_hdr BE rtcp_hdr (rc_vals r)) (\<lambda>h.
     rbind (case rc_info r of None \<Rightarrow> Inr [] | Some i \<Rightarrow> packet_pack_hdr BE (info_hdr i) (info_vals i)) (\<lambda>i.
     rbind (if rc_reports r = [] then Inr []
            else rbind (concat_result report_bytes (take (nat (rc_cc r)) (rc_reports r))) (\<lambda>b.
                   if length (rc_reports r) < nat (rc_cc r) then Inl IndexError else Inr b)) (\<lambda>b.
       Inr (h @ i @ b @ rc_data r))))"

definition rtcp_unpack :: "bytes \<Rightarrow> rtcp result" where
  "rtcp_unpack buf =
     rbind (class_unpack BE rtcp_hdr buf) (\<lambda>p.
       let vs = obj_vals p; d = obj_data p; pt = rc_bit ''pt'' vs; cc = nat (rc_bit ''cc'' vs);
           n = get_int rtcp_hdr ''len'' vs * 4 + 4
       in if rc_bit ''version'' vs \<noteq> 2 \<or> rc_bit ''p'' vs \<noteq> 0 then Inl UnpackError
          else if pt = 200
          then rbind (bare_init srinfo_hdr d) (\<lambda>i.
               rbind (parse_n (bare_init report_hdr) (\<lambda>_. 24) cc (drop 24 d)) (\<lambda>(rs, rest).
                 Inr \<lparr>rc_vals = vs, rc_info = Some (SRInfo (obj_vals i)), rc_reports = map Rep rs,
                      rc_data = py_upto rest (n - 4 - 24 - int cc * 24)\<rparr>))
          else if pt = 201
          then rbind (bare_init rrinfo_hdr d) (\<lambda>i.
               rbind (parse_n (bare_init report_hdr) (\<lambda>_. 24) cc (drop 4 d)) (\<lambda>(rs, rest).
                 Inr \<lparr>rc_vals = vs, rc_info = Some (RRInfo (obj_vals i)), rc_reports = map Rep rs, rc_data = []\<rparr>))
          else if pt \<in> {202, 203, 204}
          then Inr \<lparr>rc_vals = vs, rc_info = None, rc_reports = [], rc_data = py_upto d (n - 4)\<rparr>
          else if pt = 207
          then rbind (bare_init rrinfo_hdr d) (\<lambda>i.
               rbind (xreport_init (py_upto (drop 4 d) (n - 4))) (\<lambda>x.
                 Inr \<lparr>rc_vals = vs, rc_info = Some (RRInfo (obj_vals i)), rc_reports = [XRep x], rc_data = []\<rparr>))
          else Inl UnpackError)"

definition rtcp_init :: "bytes \<Rightarrow> rtcp result" where
  "rtcp_init = packet_init (hdr_len rtcp_hdr) rtcp_unpack"

section \<open>Tables and bit fields\<close>

lemma rtcp_tables [simp]:
  "hdr_len srinfo_hdr = 24" "hdr_len rrinfo_hdr = 4" "hdr_len report_hdr = 24" "hdr_len rtcp_hdr = 4" "hdr_len xreport_hdr = 4"
  "table_ok srinfo_hdr" "table_ok rrinfo_hdr" "table_ok report_hdr" "table_ok rtcp_hdr" "table_ok xreport_hdr"
  by (simp_all add: srinfo_hdr_def rrinfo_hdr_def report_hdr_def rtcp_hdr_def xreport_hdr_def table_ok_def fmt_ok_def hdr_fields_def)

lemma xblock_table [simp]: "table_ok (xblock_hdr c)"
  by (cases c) (simp_all add: rtcp_XBlockLoss_hdr_def rtcp_XBlockDupl_hdr_def rtcp_XBlockRcvt_hdr_def rtcp_XBlockRcvr_hdr_def
      rtcp_XBlockStat_hdr_def rtcp_XBlockVoip_hdr_def table_ok_def fmt_ok_def hdr_fields_def)

lemma xblock_of_type [simp]: "xblock_of (xblock_type c) = Some c"
  by (cases c) (simp_all add: xblock_of_def)

lemma rtcp_locate:
  "bits_total rtcp_bits = 16" "bf_locate rtcp_bits ''version'' = Some (14, 2)" "bf_locate rtcp_bits ''p'' = Some (13, 1)"
  "bf_locate rtcp_bits ''cc'' = Some (8, 5)" "bf_locate rtcp_bits ''pt'' = Some (0, 8)"
  by (simp_all add: bf_locate_def rtcp_bits_def bits_total_def starts_with_def)

text \<open>The word of a header, its fields, and what setting one of them does.\<close>

definition rc_head :: "pval list \<Rightarrow> int \<Rightarrow> int \<Rightarrow> int \<Rightarrow> bool" where
  "rc_head vs k n l \<longleftrightarrow>
     (\<exists>w. vs = [VInt w, VInt l] \<and> 0 \<le> w \<and> w < 65536) \<and>
     rc_bit ''version'' vs = 2 \<and> rc_bit ''p'' vs = 0 \<and> rc_bit ''cc'' vs = n \<and> rc_bit ''pt'' vs = k"

lemma rc_word_simps [simp]:
  "rc_word [VInt w, VInt l] = w"
  "set_val rtcp_hdr ''_version_p_cc_pt'' (VInt w') [VInt w, VInt l] = [VInt w', VInt l]"
  "set_val rtcp_hdr ''len'' (VInt l') [VInt w, VInt l] = [VInt w, VInt l']"
  "get_int rtcp_hdr ''len'' [VInt w, VInt l] = l"
  by (simp_all add: rc_word_def rtcp_hdr_def get_int_Cons set_val_def hdr_fields_def)

lemma rc_head_len: "rc_head vs k n l \<Longrightarrow> rc_head (set_val rtcp_hdr ''len'' (VInt l') vs) k n l'"
  by (auto simp: rc_head_def rc_bit_def)

lemma rc_head_get: "rc_head vs k n l \<Longrightarrow> get_int rtcp_hdr ''len'' vs = l"
  by (auto simp: rc_head_def)

lemma rc_set_word:
  assumes "rc_set f v [VInt w, VInt l] = Inr vs" "0 \<le> v" "0 \<le> w" "w < 65536" "bf_locate rtcp_bits f = Some sz"
  shows "(\<exists>w'. vs = [VInt w', VInt l] \<and> 0 \<le> w' \<and> w' < 65536) \<and> rc_bit f vs = v \<and>
    (\<forall>g. g \<noteq> f \<longrightarrow> rc_bit g vs = rc_bit g [VInt w, VInt l])"
proof -
  obtain w' where w': "bf_set rtcp_bits f v w = Inr w'" "vs = [VInt w', VInt l]"
    using assms(1) by (auto simp: rc_set_def rbind_Inr_iff)
  obtain s z where sz: "bf_locate rtcp_bits f = Some (s, z)" using assms(5) by (cases sz) auto
  then have "v < 2 ^ z" using w'(1) by (auto simp: bf_set_def split: if_splits)
  then have "bf_get rtcp_bits f w' = Inr v" using bf_set_same [OF sz assms(2), of w] w'(1) by auto
  then show ?thesis
    using bf_set_range [OF w'(1) assms(2,3)] bf_set_other [OF w'(1) assms(2)] assms(4) w'(2)
    by (auto simp: rtcp_locate rc_bit_def)
qed

lemma rc_head_cc:
  assumes "rc_head vs k n l" "rc_set ''cc'' m vs = Inr vs'" "0 \<le> m"
  shows "rc_head vs' k m l"
proof -
  obtain w where w: "vs = [VInt w, VInt l]" "0 \<le> w" "w < 65536" using assms(1) by (auto simp: rc_head_def)
  then show ?thesis
    using rc_set_word [where f = "''cc''" and v = m and w = w and l = l and vs = vs'] assms by (auto simp: rc_head_def rtcp_locate)
qed

lemma rc_head_new:
  assumes "rc_set ''pt'' k (packet_kwargs rtcp_hdr []) = Inr vs" "0 \<le> k"
  shows "rc_head vs k 0 0"
proof -
  have d: "packet_kwargs rtcp_hdr [] = [VInt 0x8000, VInt 0]" by (simp add: packet_kwargs_def rtcp_hdr_def)
  have "rc_bit ''version'' [VInt 0x8000, VInt 0] = 2" "rc_bit ''p'' [VInt 0x8000, VInt 0] = 0"
    "rc_bit ''cc'' [VInt 0x8000, VInt 0] = 0"
    by (simp_all add: rc_bit_def bf_get_take_bit rtcp_locate drop_bit_int)
  then show ?thesis
    using rc_set_word [where f = "''pt''" and v = k and w = "0x8000" and l = "0" and vs = vs] assms by (auto simp: rc_head_def rtcp_locate d)
qed

section \<open>What the builder makes\<close>

definition reports_len :: "rtcp \<Rightarrow> int" where
  "reports_len r =
     (if rc_reports r = [] then 0
      else if rc_pt r \<in> {200, 201} then 24 * int (length (rc_reports r)) else report_len (hd (rc_reports r)))"

definition rtcp_size :: "rtcp \<Rightarrow> int" where
  "rtcp_size r = 4 + info_len (rc_info r) + reports_len r + int (length (rc_data r))"

text \<open>The packets that the constructor and the three methods make.\<close>

inductive built :: "int \<Rightarrow> rtcp \<Rightarrow> bool" where
  new: "0 \<le> k \<Longrightarrow> rtcp_new k = Inr r \<Longrightarrow> built k r"
| info: "built k r \<Longrightarrow> add_info i r = Inr r' \<Longrightarrow> built k r'"
| report: "built k r \<Longrightarrow> add_report x r = Inr r' \<Longrightarrow> built k r'"
| data: "built k r \<Longrightarrow> add_data d r = Inr r' \<Longrightarrow> built k r'"

definition rtcp_inv :: "int \<Rightarrow> rtcp \<Rightarrow> bool" where
  "rtcp_inv k r \<longleftrightarrow>
     rc_head (rc_vals r) k (int (length (rc_reports r))) (words (rtcp_size r - 4)) \<and>
     (k \<in> {201, 207} \<longrightarrow> rc_data r = []) \<and> (k \<notin> {200, 201, 207} \<longrightarrow> rc_reports r = [] \<and> rc_info r = None)"

lemma rc_head_fields: "rc_head vs k n l \<Longrightarrow> rc_bit ''pt'' vs = k \<and> rc_bit ''cc'' vs = n"
  by (simp add: rc_head_def)

lemma set_len_inv:
  assumes "rc_head (rc_vals r) k (int (length (rc_reports r))) l" "n = rtcp_size r"
    and "k \<in> {201, 207} \<longrightarrow> rc_data r = []" "k \<notin> {200, 201, 207} \<longrightarrow> rc_reports r = [] \<and> rc_info r = None"
  shows "rtcp_inv k (set_len n r)"
proof -
  have "rc_pt (set_len n r) = rc_pt r"
    using rc_head_fields [OF assms(1)] rc_head_fields [OF rc_head_len [OF assms(1), of "words (n - 4)"]]
    by (simp add: rc_pt_def set_len_def)
  then show ?thesis
    using rc_head_len [OF assms(1), of "words (n - 4)"] assms(2,3,4)
    by (auto simp: rtcp_inv_def set_len_def rtcp_size_def reports_len_def)
qed

lemma built_inv: "built k r \<Longrightarrow> rtcp_inv k r"
proof (induction rule: built.induct)
  case (new k r)
  then show ?case
    by (auto simp: rtcp_new_def rbind_Inr_iff rtcp_inv_def rtcp_size_def reports_len_def info_len_def words_def
        dest: rc_head_new)
next
  case (info k r i r')
  have pt: "rc_pt r = k" "rc_cc r = int (length (rc_reports r))"
    using info.IH rc_head_fields by (auto simp: rtcp_inv_def rc_pt_def rc_cc_def)
  have r': "k \<in> {200, 201, 207}" "r' = set_len (rtcp_size (r\<lparr>rc_info := Some i\<rparr>)) (r\<lparr>rc_info := Some i\<rparr>)"
    using info.hyps(2) pt
    by (auto simp: add_info_def rtcp_size_def reports_len_def info_len_def rc_pt_def ac_simps split: if_splits)
  show ?case unfolding r'(2)
    by (rule set_len_inv) (use info.IH r'(1) in \<open>auto simp: rtcp_inv_def\<close>)
next
  case (report k r x r')
  let ?rs = "rc_reports r @ [x]"
  have pt: "rc_pt r = k" using report.IH rc_head_fields by (auto simp: rtcp_inv_def rc_pt_def)
  obtain vs where vs: "rc_set ''cc'' (int (length ?rs)) (rc_vals r) = Inr vs" "k \<in> {200, 201, 207}"
    and r': "r' = set_len (4 + int (length (rc_data r)) + info_len (rc_info r) +
      (if rc_bit ''pt'' vs \<in> {200, 201} then 24 * rc_bit ''cc'' vs else report_len (hd ?rs)))
      (r\<lparr>rc_reports := ?rs, rc_vals := vs\<rparr>)"
    using report.hyps(2) pt
    by (auto simp: add_report_def rbind_Inr_iff Let_def rc_pt_def rc_cc_def split: if_splits)
  have h: "rc_head vs k (int (length ?rs)) (words (rtcp_size r - 4))"
    by (rule rc_head_cc [OF _ vs(1)]) (use report.IH in \<open>auto simp: rtcp_inv_def\<close>)
  show ?case unfolding r'
    by (rule set_len_inv)
      (use h vs(2) rc_head_fields [OF h] report.IH in \<open>auto simp: rtcp_inv_def rtcp_size_def reports_len_def rc_pt_def\<close>)
next
  case (data k r d r')
  have pt: "rc_pt r = k" "rc_cc r = int (length (rc_reports r))"
    using data.IH rc_head_fields by (auto simp: rtcp_inv_def rc_pt_def rc_cc_def)
  have r': "k \<notin> {201, 207}" "r' = set_len (rtcp_size (r\<lparr>rc_data := d\<rparr>)) (r\<lparr>rc_data := d\<rparr>)"
    using data.hyps(2) pt data.IH
    by (auto simp: add_data_def rtcp_size_def reports_len_def rc_pt_def rtcp_inv_def ac_simps split: if_splits)
  show ?case unfolding r'(2)
    by (rule set_len_inv) (use data.IH r'(1) in \<open>auto simp: rtcp_inv_def\<close>)
qed

section \<open>What is packed is read back\<close>

lemma bare_reads:
  assumes "table_ok h" "exact_all (hdr_fmt h) vs" "packet_pack_hdr BE h vs = Inr b"
  shows "bare_init h (b @ rest) = Inr (obj_make vs []) \<and> length b = hdr_len h"
  using class_pack_read [OF assms, of rest] by (simp add: bare_init_def packet_init_Inr obj_make_def)

definition rep_ok :: "rtcp_report \<Rightarrow> bool" where
  "rep_ok x \<longleftrightarrow> (\<exists>p. x = Rep p \<and> exact_all (hdr_fmt report_hdr) (obj_vals p) \<and> obj_data p = [])"

lemma reports_read:
  "list_all rep_ok rs \<Longrightarrow> concat_result report_bytes rs = Inr b \<Longrightarrow>
   \<exists>ps. parse_n (bare_init report_hdr) (\<lambda>_. 24) (length rs) (b @ rest) = Inr (ps, rest) \<and> map Rep ps = rs \<and>
     length b = 24 * length rs"
proof (induction rs arbitrary: b)
  case (Cons x rs)
  obtain u v where uv: "report_bytes x = Inr u" "concat_result report_bytes rs = Inr v" "b = u @ v"
    using Cons.prems(2) by (auto simp: result_simps)
  obtain p where p: "x = Rep p" "exact_all (hdr_fmt report_hdr) (obj_vals p)" "obj_data p = []"
    using Cons.prems(1) by (auto simp: rep_ok_def)
  have "packet_pack_hdr BE report_hdr (obj_vals p) = Inr u" using uv(1) p(1) by (simp add: report_bytes_def)
  then have "bare_init report_hdr (u @ v @ rest) = Inr p \<and> length u = 24"
    using bare_reads [OF rtcp_tables(8) p(2), of u "v @ rest"] p(3) by (cases p) (simp add: obj_make_def)
  moreover obtain ps where "parse_n (bare_init report_hdr) (\<lambda>_. 24) (length rs) (v @ rest) = Inr (ps, rest)" "map Rep ps = rs"
    "length v = 24 * length rs"
    using Cons.IH [OF _ uv(2)] Cons.prems(1) by auto
  ultimately show ?case using p(1) uv(3) by (auto intro!: exI [of _ "p # ps"])
qed simp

lemma reports_pack:
  "list_all rep_ok rs \<Longrightarrow> \<exists>b. concat_result report_bytes rs = Inr b"
proof (induction rs)
  case (Cons x rs)
  then obtain p where "x = Rep p" "exact_all (hdr_fmt report_hdr) (obj_vals p)" by (auto simp: rep_ok_def)
  then obtain u where "report_bytes x = Inr u"
    using packet_pack_hdr_exact [of report_hdr "obj_vals p" BE] by (auto simp: report_bytes_def)
  then show ?case using Cons by auto
qed simp

text \<open>An info record of the class that the type of the packet asks for, with values that fit.\<close>

definition info_ok :: "int \<Rightarrow> rtcp_info option \<Rightarrow> bool" where
  "info_ok k i \<longleftrightarrow>
     (\<exists>vs. i = Some (if k = 200 then SRInfo vs else RRInfo vs) \<and>
        exact_all (hdr_fmt (if k = 200 then srinfo_hdr else rrinfo_hdr)) vs)"

lemma rtcp_head_read:
  assumes "rc_head vs k n l" "0 \<le> l" "l < 65536"
  shows "\<exists>h. packet_pack_hdr BE rtcp_hdr vs = Inr h \<and> length h = 4 \<and>
    (\<forall>d. class_unpack BE rtcp_hdr (h @ d) = Inr (obj_make vs d))"
proof -
  have e: "exact_all (hdr_fmt rtcp_hdr) vs" using assms by (auto simp: rc_head_def rtcp_hdr_def)
  then obtain h where "packet_pack_hdr BE rtcp_hdr vs = Inr h"
    using packet_pack_hdr_exact [of rtcp_hdr vs BE] by blast
  then show ?thesis using class_pack_read [OF rtcp_tables(9) e, of BE h] by auto
qed

lemma words_bounds: "0 \<le> n \<Longrightarrow> n \<le> 4 * words n \<and> 4 * words n < n + 4"
  by (simp add: words_def) presburger

lemma words_exact: "n mod 4 = 0 \<Longrightarrow> 4 * words n = n"
  by (simp add: words_def) presburger

text \<open>Blocks whose length field is that of the block in words.\<close>

definition xb_ok :: "xrblock \<Rightarrow> bool" where
  "xb_ok b \<longleftrightarrow> exact_all (hdr_fmt xreport_hdr) (xb_vals b) \<and>
     (\<exists>c p. xb_block b = Some (c, p) \<and> get_int xreport_hdr ''type'' (xb_vals b) = xblock_type c \<and>
        exact_all (hdr_fmt (xblock_hdr c)) (obj_vals p) \<and> xb_len b * 4 = int (class_len (xblock_hdr c) p))"

lemma xrblock_reads:
  assumes "xb_ok x" "xrblock_bytes x = Inr b"
  shows "xrblock_init (b @ rest) = Inr x \<and> xrblock_size x = int (length b) \<and> b \<noteq> []"
proof -
  obtain c p where p: "xb_block x = Some (c, p)" "get_int xreport_hdr ''type'' (xb_vals x) = xblock_type c"
    "exact_all (hdr_fmt (xblock_hdr c)) (obj_vals p)" "xb_len x * 4 = int (class_len (xblock_hdr c) p)"
    and e: "exact_all (hdr_fmt xreport_hdr) (xb_vals x)"
    using assms(1) by (auto simp: xb_ok_def)
  obtain h u where h: "packet_pack_hdr BE xreport_hdr (xb_vals x) = Inr h" "packet_pack_hdr BE (xblock_hdr c) (obj_vals p) = Inr u"
    "b = h @ u @ obj_data p"
    using assms(2) p(1) by (auto simp: xrblock_bytes_def class_bytes_def packet_bytes_def rbind_Inr_iff)
  have r: "length h = 4" "class_unpack BE xreport_hdr (h @ d) = Inr (obj_make (xb_vals x) d)" for d
    using class_pack_read [OF rtcp_tables(10) e h(1), of d] by auto
  have u: "length u = hdr_len (xblock_hdr c)" "class_unpack BE (xblock_hdr c) (u @ d) = Inr (obj_make (obj_vals p) d)" for d
    using class_pack_read [OF xblock_table p(3) h(2), of d] by auto
  have n: "nat (xb_len x * 4) = length (u @ obj_data p)" using p(4) u(1) by (simp add: class_len_def packet_len_def)
  have "take (nat (xb_len x * 4)) ((u @ obj_data p) @ rest) = u @ obj_data p" unfolding n by simp
  moreover have "class_init BE (xblock_hdr c) (u @ obj_data p) = Inr p"
    using u(2) by (cases p) (simp add: class_init_def packet_init_Inr obj_make_def)
  ultimately have "xrblock_unpack (b @ rest) = Inr x"
    using h(3) r p(1,2) by (cases x) (simp add: xrblock_unpack_def obj_make_def xb_len_def del: take_append)
  then show ?thesis
    using h(3) r(1) n p(4) by (auto simp: xrblock_init_def packet_init_Inr xrblock_size_def)
qed

lemma xreport_loop_reads:
  "list_all xb_ok bs \<Longrightarrow> concat_result xrblock_bytes bs = Inr b \<Longrightarrow>
   xreport_loop (b @ t) = (case xreport_loop t of (cs, e) \<Rightarrow> (bs @ cs, e)) \<and> xreport_len bs = int (length b)"
proof (induction bs arbitrary: b)
  case Nil
  then show ?case by (simp add: xreport_len_def split: prod.split)
next
  case (Cons x bs)
  obtain u v where uv: "xrblock_bytes x = Inr u" "concat_result xrblock_bytes bs = Inr v" "b = u @ v"
    using Cons.prems(2) by (auto simp: result_simps)
  have x: "xrblock_init (u @ v @ t) = Inr x" "nat (xrblock_size x) = length u" "xrblock_size x = int (length u)" "u \<noteq> []"
    using xrblock_reads [OF _ uv(1), of "v @ t"] Cons.prems(1) by auto
  then show ?case using Cons.IH [OF _ uv(2)] Cons.prems(1) uv(3)
    by (subst xreport_loop.simps) (simp add: xreport_len_def split: prod.split)
qed

lemma xreport_packs: "list_all xb_ok bs \<Longrightarrow> \<exists>b. concat_result xrblock_bytes bs = Inr b"
proof (induction bs)
  case (Cons x bs)
  obtain c p where p: "xb_block x = Some (c, p)" "exact_all (hdr_fmt (xblock_hdr c)) (obj_vals p)"
    "exact_all (hdr_fmt xreport_hdr) (xb_vals x)"
    using Cons.prems by (auto simp: xb_ok_def)
  then obtain u where "xrblock_bytes x = Inr u"
    using packet_pack_hdr_exact [OF p(2), of BE] packet_pack_hdr_exact [OF p(3), of BE]
    by (auto simp: xrblock_bytes_def class_bytes_def packet_bytes_def)
  then show ?case using Cons by auto
qed simp

lemma xreport_tail:
  assumes "list_all xb_ok bs" "concat_result xrblock_bytes bs = Inr b"
  shows "xreport_init b = Inr bs" "t \<noteq> [] \<Longrightarrow> length t < 4 \<Longrightarrow> xreport_init (b @ t) = Inl NeedData"
proof -
  show "xreport_init b = Inr bs"
    using xreport_loop_reads [OF assms, of "[]"]
    by (simp add: xreport_init_def packet_init_Inr xreport_unpack_def xreport_loop.simps [of "[]"])
  assume t: "t \<noteq> []" "length t < 4"
  have "class_unpack BE xreport_hdr t = Inl StructError"
    using class_unpack_error class_unpack_data [of BE xreport_hdr t] t(2) by (cases "class_unpack BE xreport_hdr t") auto
  then have "xrblock_init t = Inl NeedData"
    using t(2) by (simp add: xrblock_init_def packet_init_def xrblock_unpack_def)
  then have "xreport_loop t = ([], Some NeedData)" using t(1) by (subst xreport_loop.simps) simp
  then show "xreport_init (b @ t) = Inl NeedData"
    using xreport_loop_reads [OF assms, of t] by (simp add: xreport_init_def packet_init_def xreport_unpack_def)
qed

lemma built_pt: "built k r \<Longrightarrow> rc_pt r = k"
  using built_inv rc_head_fields by (fastforce simp: rtcp_inv_def rc_pt_def)

lemma rc_set_ok: "bf_locate rtcp_bits f = Some (s, z) \<Longrightarrow> 0 \<le> v \<Longrightarrow> v < 2 ^ z \<Longrightarrow> \<exists>vs'. rc_set f v vs = Inr vs'"
  using bf_set_same [of rtcp_bits f s z v "rc_word vs"] by (auto simp: rc_set_def)

text \<open>A packet with one report can be made of any info and report.\<close>

lemma built_one:
  assumes "k \<in> {200, 201, 207}"
  shows "\<exists>r. built k r \<and> rc_info r = Some i \<and> rc_reports r = [x] \<and> rc_data r = []"
proof -
  obtain vs where "rc_set ''pt'' k (packet_kwargs rtcp_hdr []) = Inr vs"
    using rc_set_ok [OF rtcp_locate(5), of k "packet_kwargs rtcp_hdr []"] assms by auto
  then obtain r where r: "rtcp_new k = Inr r" "rc_info r = None" "rc_reports r = []" "rc_data r = []"
    by (simp add: rtcp_new_def)
  have b: "built k r" by (rule built.new [OF _ r(1)]) (use assms in auto)
  obtain r' where r': "add_info i r = Inr r'" "rc_info r' = Some i" "rc_reports r' = []" "rc_data r' = []"
    using assms built_pt [OF b] r by (auto simp: add_info_def set_len_def)
  have b': "built k r'" by (rule built.info [OF b r'(1)])
  obtain vs where "rc_set ''cc'' 1 (rc_vals r') = Inr vs" using rc_set_ok [OF rtcp_locate(4), of 1] by auto
  then obtain r'' where r'': "add_report x r' = Inr r''" "rc_info r'' = Some i" "rc_reports r'' = [x]" "rc_data r'' = []"
    using assms built_pt [OF b'] r' by (auto simp: add_report_def set_len_def Let_def)
  show ?thesis using built.report [OF b' r''(1)] r'' by blast
qed

section \<open>Properties\<close>

text \<open>
  Whatever sequence of \<^verbatim>\<open>addInfo\<close>, \<^verbatim>\<open>addReport\<close> and \<^verbatim>\<open>addData\<close> made a packet, its count field is the
  number of its reports and \<^verbatim>\<open>len\<close> of the packet is its size rounded up to four bytes.
\<close>

theorem rtcp_built_len:
  assumes "built k r" "k \<in> {200, 201}"
  shows "rc_cc r = int (length (rc_reports r)) \<and> rtcp_size r \<le> rtcp_len r \<and> rtcp_len r < rtcp_size r + 4"
proof -
  have h: "rc_head (rc_vals r) k (int (length (rc_reports r))) (words (rtcp_size r - 4))"
    using built_inv [OF assms(1)] by (simp add: rtcp_inv_def)
  have "rc_pt r = k" using rc_head_fields [OF h] by (simp add: rc_pt_def)
  then have "0 \<le> rtcp_size r - 4"
    using assms(2) by (auto simp: rtcp_size_def reports_len_def info_len_def split: option.splits)
  from words_bounds [OF this] show ?thesis
    using rc_head_fields [OF h] rc_head_get [OF h] by (simp add: rtcp_len_def rc_cc_def)
qed

definition example_info :: rtcp_info where
  "example_info = SRInfo (map VInt [1, 2, 3, 4, 5, 6])"

definition example_report :: rtcp_report where
  "example_report = Rep \<lparr>obj_vals = map VInt [1, 2, 3, 4, 5, 6], obj_data = []\<rparr>"

lemma example_report_ok: "info_ok 200 (Some example_info)" "list_all rep_ok [example_report]"
  by (simp_all add: info_ok_def example_info_def srinfo_hdr_def rep_ok_def example_report_def report_hdr_def)

theorem rtcp_built_len_witness: "\<exists>r. built 200 r \<and> rc_cc r = 1 \<and> rtcp_size r \<le> rtcp_len r"
  using built_one [of 200 example_info example_report] rtcp_built_len [of 200] by fastforce

text \<open>
  C16: A sender or receiver report that the methods made from values that fit, with a whole number of
  words of data, is packed to exactly \<^verbatim>\<open>len\<close> bytes, and read back from them whatever follows them.
\<close>

theorem rtcp_built_roundtrip:
  assumes "built k r" "k \<in> {200, 201}" "info_ok k (rc_info r)" "list_all rep_ok (rc_reports r)"
    and "length (rc_data r) mod 4 = 0" "rtcp_size r \<le> 262144"
  shows "\<exists>b. rtcp_bytes r = Inr b \<and> int (length b) = rtcp_len r \<and> rtcp_init (b @ rest) = Inr r"
proof -
  let ?n = "length (rc_reports r)"
  have inv: "rc_head (rc_vals r) k (int ?n) (words (rtcp_size r - 4))" "k = 201 \<longrightarrow> rc_data r = []"
    using built_inv [OF assms(1)] by (auto simp: rtcp_inv_def)
  have bits: "rc_bit ''version'' (rc_vals r) = 2" "rc_bit ''p'' (rc_vals r) = 0" "rc_bit ''cc'' (rc_vals r) = int ?n"
    "rc_bit ''pt'' (rc_vals r) = k" "get_int rtcp_hdr ''len'' (rc_vals r) = words (rtcp_size r - 4)"
    using inv(1) rc_head_get [OF inv(1)] by (simp_all add: rc_head_def)
  obtain vs where vs: "rc_info r = Some (if k = 200 then SRInfo vs else RRInfo vs)"
    "exact_all (hdr_fmt (if k = 200 then srinfo_hdr else rrinfo_hdr)) vs"
    using assms(3) by (auto simp: info_ok_def)
  let ?ih = "if k = 200 then srinfo_hdr else rrinfo_hdr"
  have size: "rtcp_size r = 4 + int (hdr_len ?ih) + 24 * int ?n + int (length (rc_data r))"
    using assms(2) bits(4) vs(1) by (auto simp: rtcp_size_def reports_len_def rc_pt_def info_len_def)
  then have "4 \<le> rtcp_size r" "(rtcp_size r - 4) mod 4 = 0"
    using assms(5) zmod_int [of "length (rc_data r)" 4] by (simp_all split: if_splits) presburger+
  then have w: "4 * words (rtcp_size r - 4) = rtcp_size r - 4" by (intro words_exact)
  then have "0 \<le> words (rtcp_size r - 4)" "words (rtcp_size r - 4) < 65536"
    using assms(6) \<open>4 \<le> rtcp_size r\<close> by linarith+
  then obtain h where h: "packet_pack_hdr BE rtcp_hdr (rc_vals r) = Inr h" "length h = 4"
    "\<And>d. class_unpack BE rtcp_hdr (h @ d) = Inr (obj_make (rc_vals r) d)"
    using rtcp_head_read [OF inv(1)] by blast
  obtain i where i: "packet_pack_hdr BE ?ih vs = Inr i" using packet_pack_hdr_exact [OF vs(2), of BE] by blast
  have ir: "bare_init ?ih (i @ d) = Inr (obj_make vs [])" "length i = hdr_len ?ih" for d
    using bare_reads [OF _ vs(2) i, of d] by (auto split: if_splits)
  obtain c where c: "concat_result report_bytes (rc_reports r) = Inr c" using reports_pack [OF assms(4)] by blast
  obtain ps where ps: "parse_n (bare_init report_hdr) (\<lambda>_. 24) ?n (c @ rc_data r @ rest) = Inr (ps, rc_data r @ rest)"
    "map Rep ps = rc_reports r" "length c = 24 * ?n"
    using reports_read [OF assms(4) c] by blast
  have b: "rtcp_bytes r = Inr (h @ i @ c @ rc_data r)"
    using h(1) i c bits(3) vs(1) assms(2) by (auto simp: rtcp_bytes_def rc_cc_def)
  have "rtcp_unpack (h @ i @ c @ rc_data r @ rest) = Inr r"
    using assms(2) bits h(3) [of "i @ c @ rc_data r @ rest"] ir(1) [of "c @ rc_data r @ rest"] ir(2) ps vs(1) inv(2) w size
    by (cases r) (auto simp: rtcp_unpack_def obj_make_def py_upto_nonneg ac_simps)
  then show ?thesis
    using b h(2) ir(2) ps(3) size w bits(5) by (auto simp: rtcp_init_def packet_init_Inr rtcp_len_def)
qed

theorem rtcp_built_roundtrip_witness: "\<exists>r b. built 200 r \<and> rtcp_bytes r = Inr b \<and> rtcp_init (b @ [1, 2, 3]) = Inr r"
proof -
  obtain r where r: "built 200 r" "rc_info r = Some example_info" "rc_reports r = [example_report]" "rc_data r = []"
    using built_one [of 200 example_info example_report] by auto
  have "rtcp_size r \<le> 262144"
    using r built_pt [OF r(1)] by (simp add: rtcp_size_def reports_len_def info_len_def example_info_def)
  then show ?thesis
    using rtcp_built_roundtrip [OF r(1), of "[1, 2, 3]"] example_report_ok r by auto
qed

text \<open>
  An extended report made from blocks that fit is packed to \<^verbatim>\<open>len\<close> bytes and read back from them;
  with one to three bytes behind it, it is not: the blocks are read from four bytes too many.
\<close>

theorem rtcp_xr_roundtrip:
  assumes "built 207 r" "info_ok 207 (rc_info r)" "rc_reports r = [XRep bs]" "list_all xb_ok bs" "rtcp_size r \<le> 262144"
  shows "\<exists>b. rtcp_bytes r = Inr b \<and> int (length b) = rtcp_len r \<and> rtcp_init b = Inr r \<and>
    (\<forall>t. t \<noteq> [] \<longrightarrow> length t < 4 \<longrightarrow> rtcp_init (b @ t) = Inl NeedData)"
proof -
  have inv: "rc_head (rc_vals r) 207 1 (words (rtcp_size r - 4))" "rc_data r = []"
    using built_inv [OF assms(1)] assms(3) by (auto simp: rtcp_inv_def)
  have bits: "rc_bit ''version'' (rc_vals r) = 2" "rc_bit ''p'' (rc_vals r) = 0" "rc_bit ''cc'' (rc_vals r) = 1"
    "rc_bit ''pt'' (rc_vals r) = 207" "get_int rtcp_hdr ''len'' (rc_vals r) = words (rtcp_size r - 4)"
    using inv(1) rc_head_get [OF inv(1)] by (simp_all add: rc_head_def)
  obtain vs where vs: "rc_info r = Some (RRInfo vs)" "exact_all (hdr_fmt rrinfo_hdr) vs"
    using assms(2) by (auto simp: info_ok_def)
  obtain c where c: "concat_result xrblock_bytes bs = Inr c" using xreport_packs [OF assms(4)] by blast
  have len: "xreport_len bs = int (length c)" using xreport_loop_reads [OF assms(4) c] by blast
  have size: "rtcp_size r = 8 + int (length c)"
    using bits(4) vs(1) assms(3) inv(2) len by (simp add: rtcp_size_def reports_len_def rc_pt_def info_len_def report_len_def)
  have "xreport_len bs mod 4 = 0"
    unfolding xreport_len_def by (induction bs) (auto simp: xrblock_size_def mod_add_left_eq [symmetric])
  then have w: "4 * words (rtcp_size r - 4) = rtcp_size r - 4" using size len by (intro words_exact) presburger
  then have "0 \<le> words (rtcp_size r - 4)" "words (rtcp_size r - 4) < 65536" using assms(5) size by linarith+
  then obtain h where h: "packet_pack_hdr BE rtcp_hdr (rc_vals r) = Inr h" "length h = 4"
    "\<And>d. class_unpack BE rtcp_hdr (h @ d) = Inr (obj_make (rc_vals r) d)"
    using rtcp_head_read [OF inv(1)] by blast
  obtain i where i: "packet_pack_hdr BE rrinfo_hdr vs = Inr i" using packet_pack_hdr_exact [OF vs(2), of BE] by blast
  have ir: "bare_init rrinfo_hdr (i @ d) = Inr (obj_make vs [])" "length i = 4" for d
    using bare_reads [OF _ vs(2) i, of d] by auto
  have b: "rtcp_bytes r = Inr (h @ i @ c)"
    using h(1) i c bits(3) vs(1) assms(3) inv(2) by (simp add: rtcp_bytes_def rc_cc_def report_bytes_def)
  have tk: "nat (words (rtcp_size r - 4) * 4) = length c + 4" using w size by simp
  have u: "rtcp_unpack (h @ i @ c @ t) = rbind (xreport_init (take (length c + 4) (c @ t))) (\<lambda>x. Inr (r\<lparr>rc_reports := [XRep x]\<rparr>))" for t
    using bits(1,2,4,5) h(3) [of "i @ c @ t"] ir(1) [of "c @ t"] ir(2) vs(1) inv(2) tk w size
    by (cases r) (simp add: rtcp_unpack_def obj_make_def py_upto_nonneg Let_def)
  have "rtcp_unpack (h @ i @ c) = Inr r"
    using u [of "[]"] xreport_tail(1) [OF assms(4) c] assms(3) by (cases r) simp
  moreover have "rtcp_unpack ((h @ i @ c) @ t) = Inl NeedData" if "t \<noteq> []" "length t < 4" for t
    using u [of t] xreport_tail(2) [OF assms(4) c that] that(2) by simp
  ultimately show ?thesis
    using b h(2) ir(2) size w bits(5) by (auto simp: rtcp_init_def packet_init_def rtcp_len_def)
qed

definition example_xblock :: xrblock where
  "example_xblock = set_block XRcvr \<lparr>obj_vals = [VInt 1, VInt 2], obj_data = []\<rparr> xrblock_new"

lemma example_xblock_ok: "xb_ok example_xblock" "xrblock_size example_xblock = 12"
  by (simp_all add: xb_ok_def example_xblock_def set_block_def xrblock_new_def packet_kwargs_def xreport_hdr_def set_val_def
      get_int_Cons hdr_fields_def rtcp_XBlockRcvr_hdr_def xb_len_def xrblock_size_def class_len_def packet_len_def words_def)

lemma example_xr: "\<exists>r. built 207 r \<and> rc_info r = Some (RRInfo [VInt 7]) \<and> rc_reports r = [XRep [example_xblock]] \<and>
    info_ok 207 (rc_info r) \<and> rtcp_size r \<le> 262144"
proof -
  obtain r where r: "built 207 r" "rc_info r = Some (RRInfo [VInt 7])" "rc_reports r = [XRep [example_xblock]]" "rc_data r = []"
    using built_one [of 207 "RRInfo [VInt 7]" "XRep [example_xblock]"] by auto
  have "info_ok 207 (rc_info r)" by (simp add: r(2) info_ok_def rrinfo_hdr_def)
  moreover have "rtcp_size r \<le> 262144"
    using r built_pt [OF r(1)] example_xblock_ok(2)
    by (simp add: rtcp_size_def reports_len_def info_len_def report_len_def xreport_len_def)
  ultimately show ?thesis using r by blast
qed

theorem rtcp_xr_roundtrip_witness:
  "\<exists>r b. rc_reports r = [XRep [example_xblock]] \<and> rtcp_init b = Inr r \<and> rtcp_init (b @ [0]) = Inl NeedData"
proof -
  obtain r where r: "built 207 r" "rc_reports r = [XRep [example_xblock]]" "info_ok 207 (rc_info r)" "rtcp_size r \<le> 262144"
    using example_xr by blast
  have "list_all xb_ok [example_xblock]" using example_xblock_ok(1) by simp
  from rtcp_xr_roundtrip [OF r(1,3,2) this r(4)] obtain b
    where b: "rtcp_init b = Inr r" "\<And>t. t \<noteq> [] \<Longrightarrow> length t < 4 \<Longrightarrow> rtcp_init (b @ t) = Inl NeedData" by blast
  show ?thesis using r(2) b(1) b(2) [of "[0]"] by auto
qed

text \<open>
  A parsed extended report whose reserved bits are zero is packed without its blocks: the reserved
  field of that packet is the count that packing goes by.
\<close>

theorem rtcp_xr_loses_blocks:
  assumes "rtcp_init buf = Inr r" "rc_pt r = 207" "rc_cc r = 0"
  shows "rtcp_bytes r = Inr (take 8 buf) \<and> (\<exists>bs. rc_reports r = [XRep bs])"
proof -
  obtain p i x where p: "class_unpack BE rtcp_hdr buf = Inr p" "bare_init rrinfo_hdr (obj_data p) = Inr i"
    "rc_vals r = obj_vals p" "rc_info r = Some (RRInfo (obj_vals i))" "rc_reports r = [XRep x]" "rc_data r = []"
    using assms(1,2) by (auto simp: rtcp_init_def packet_init_Inr rtcp_unpack_def rbind_Inr_iff Let_def rc_pt_def split: if_splits)
  obtain q where q: "class_unpack BE rrinfo_hdr (obj_data p) = Inr q" "obj_vals i = obj_vals q"
    using p(2) by (auto simp: bare_init_def packet_init_Inr rbind_Inr_iff)
  have "take 8 buf = take 4 buf @ take 4 (obj_data p)"
    using class_unpack_data [OF p(1)] take_add [of 4 4 buf] by simp
  then show ?thesis
    using class_pack_back [OF rtcp_tables(9) p(1)] class_pack_back [OF rtcp_tables(7) q(1)] p q(2) assms(3)
    by (simp add: rtcp_bytes_def)
qed

definition example_xr_packet :: bytes where
  "example_xr_packet = [0x80, 207, 0, 4, 0, 0, 0, 7, 4, 0, 0, 2, 0, 0, 0, 1, 0, 0, 0, 2]"

theorem rtcp_xr_loses_blocks_witness:
  "\<exists>r. rtcp_init example_xr_packet = Inr r \<and> rtcp_bytes r = Inr [0x80, 207, 0, 4, 0, 0, 0, 7]"
proof -
  let ?vs = "[VInt 0x80CF, VInt 4]"
  have bits: "rc_bit ''version'' ?vs = 2" "rc_bit ''p'' ?vs = 0" "rc_bit ''cc'' ?vs = 0" "rc_bit ''pt'' ?vs = 207"
    by (simp_all add: rc_bit_def bf_get_take_bit rtcp_locate drop_bit_int)
  note ev = class_unpack_def packet_unpack_def struct_unpack_def obj_make_def get_int_Cons bytes_int_def be_int_def
  have c: "class_unpack BE rtcp_hdr example_xr_packet = Inr (obj_make ?vs (drop 4 example_xr_packet))"
    by (simp add: ev rtcp_hdr_def example_xr_packet_def)
  have "xrblock_init (drop 8 example_xr_packet) = Inr \<lparr>xb_vals = map VInt [4, 0, 2], xb_block = Some (XRcvr, obj_make (map VInt [1, 2]) [])\<rparr>"
    by (simp add: xrblock_init_def packet_init_def xrblock_unpack_def class_init_def ev example_xr_packet_def xreport_hdr_def
        xblock_of_def rtcp_XBlockRcvr_hdr_def)
  then have "\<exists>bs. xreport_loop (drop 8 example_xr_packet) = (bs, None)"
    by (subst xreport_loop.simps)
      (simp add: xrblock_size_def xb_len_def get_int_Cons xreport_hdr_def example_xr_packet_def xreport_loop.simps [of "[]"])
  then have "\<exists>x. xreport_init (drop 8 example_xr_packet) = Inr x"
    by (auto simp: xreport_init_def packet_init_Inr xreport_unpack_def)
  moreover have "\<exists>i. bare_init rrinfo_hdr (drop 4 example_xr_packet) = Inr i"
    by (simp add: bare_init_def packet_init_Inr ev rrinfo_hdr_def example_xr_packet_def)
  moreover have "py_upto (drop 8 example_xr_packet) 16 = drop 8 example_xr_packet"
    by (simp add: py_upto_nonneg example_xr_packet_def)
  ultimately obtain r where r: "rtcp_init example_xr_packet = Inr r" "rc_vals r = ?vs"
    by (auto simp: rtcp_init_def packet_init_Inr rtcp_unpack_def c bits obj_make_def)
  have "rc_pt r = 207" "rc_cc r = 0"
    by (simp_all add: rc_pt_def rc_cc_def r(2) bits)
  from rtcp_xr_loses_blocks [OF r(1) this] show ?thesis using r(1) by (simp add: example_xr_packet_def)
qed

end
