(* ===== verification/Ciphersuites.thy ===== *)
theory Ciphersuites
  imports Prelude
begin

text \<open>
  The cipher suites of TLS, \<^verbatim>\<open>dpkt/ssl_ciphersuites.py\<close>: the class \<^verbatim>\<open>CipherSuite\<close>, the list of all suites in
  the order of the source, and the two dictionaries made from it. The theorems are about the list: no
  code occurs twice, so that the dictionary by code finds every suite.
\<close>

section \<open>The class\<close>

record cipher_suite =
  cs_code :: int
  cs_kx :: string
  cs_auth :: string
  cs_cipher :: string
  cs_mode :: string
  cs_mac :: string
  cs_name :: "string option"
  cs_encoding :: "string option"

definition py_space :: "char \<Rightarrow> bool" where
  "py_space c \<longleftrightarrow> c = CHR '' '' \<or> c = CHR 0x09 \<or> c = CHR 0x0A \<or> c = CHR 0x0B \<or> c = CHR 0x0C \<or> c = CHR 0x0D"

definition py_rstrip :: "string \<Rightarrow> string" where
  "py_rstrip s = rev (dropWhile py_space (rev s))"

definition CipherSuite ::
  "int \<Rightarrow> string \<Rightarrow> string \<Rightarrow> string \<Rightarrow> string \<Rightarrow> string \<Rightarrow> string option \<Rightarrow> string option \<Rightarrow> cipher_suite" where
  "CipherSuite code kx auth cipher mode mac name enc =
     \<lparr>cs_code = code, cs_kx = py_rstrip kx, cs_auth = py_rstrip auth, cs_cipher = py_rstrip cipher,
      cs_mode = py_rstrip mode, cs_mac = py_rstrip mac, cs_name = name, cs_encoding = enc\<rparr>"

definition suite_kx :: "cipher_suite \<Rightarrow> string" where
  "suite_kx c = (if cs_kx c = '''' then cs_auth c else cs_kx c)"

definition suite_auth :: "cipher_suite \<Rightarrow> string" where
  "suite_auth c = (if cs_auth c = '''' then cs_kx c else cs_auth c)"

definition suite_kx_auth :: "cipher_suite \<Rightarrow> string" where
  "suite_kx_auth c =
     (if cs_auth c = '''' then cs_kx c else if cs_kx c = '''' then cs_auth c else cs_kx c @ ''_'' @ cs_auth c)"

definition suite_encoding :: "cipher_suite \<Rightarrow> string" where
  "suite_encoding c =
     (case cs_encoding c of
        Some e \<Rightarrow> e
      | None \<Rightarrow> if cs_mode c = '''' then cs_cipher c else cs_cipher c @ ''_'' @ cs_mode c)"

definition suite_name :: "cipher_suite \<Rightarrow> string" where
  "suite_name c =
     (case cs_name c of
        Some n \<Rightarrow> n
      | None \<Rightarrow>
          if cs_mac c = '''' then ''TLS_'' @ suite_kx_auth c @ ''_WITH_'' @ suite_encoding c
          else ''TLS_'' @ suite_kx_auth c @ ''_WITH_'' @ suite_encoding c @ ''_'' @ cs_mac c)"

definition MAC_SIZES :: "(string \<times> int) list" where
  "MAC_SIZES = [(''MD5'', 16), (''SHA'', 20), (''SHA256'', 32), (''SHA384'', 48)]"

definition BLOCK_SIZES :: "(string \<times> int option) list" where
  "BLOCK_SIZES =
     [(''3DES_EDE'', Some 8), (''AES_128'', Some 16), (''AES_256'', Some 16), (''ARIA'', Some 16), (''CAMELLIA_128'', Some 16),
      (''CAMELLIA_256'', Some 16), (''CHACHA20'', Some 64), (''DES'', Some 8), (''DES40'', Some 8), (''IDEA'', Some 8),
      (''RC2_40'', Some 8), (''RC4_40'', None), (''RC4_128'', None), (''SEED'', Some 16)]"

definition suite_mac_size :: "cipher_suite \<Rightarrow> int" where
  "suite_mac_size c = (case map_of MAC_SIZES (cs_mac c) of Some n \<Rightarrow> n | None \<Rightarrow> 0)"

text \<open>The value of a stream cipher is Python's \<^verbatim>\<open>None\<close>.\<close>

definition suite_block_size :: "cipher_suite \<Rightarrow> int option" where
  "suite_block_size c = (case map_of BLOCK_SIZES (cs_cipher c) of Some n \<Rightarrow> n | None \<Rightarrow> Some 1)"

definition suite_pfs :: "cipher_suite \<Rightarrow> bool" where
  "suite_pfs c \<longleftrightarrow> suite_kx c \<in> {''DHE'', ''ECDHE''}"

definition suite_aead :: "cipher_suite \<Rightarrow> bool" where
  "suite_aead c \<longleftrightarrow> cs_mode c \<in> {''CCM'', ''CCM_8'', ''GCM''}"

definition suite_anonymous :: "cipher_suite \<Rightarrow> bool" where
  "suite_anonymous c \<longleftrightarrow> take 4 (suite_auth c) = ''anon''"

definition get_unknown_ciphersuite :: "int \<Rightarrow> cipher_suite" where
  "get_unknown_ciphersuite code = CipherSuite code '''' '''' '''' '''' '''' (Some ''Unknown'') None"

section \<open>The list of suites\<close>

definition CIPHERSUITES_A :: "cipher_suite list" where
  "CIPHERSUITES_A =
    [CipherSuite 0xff ''NULL'' ''        '' ''NULL    '' ''    '' ''NULL'' (Some ''TLS_EMPTY_RENEGOTIATION_INFO'') None,
     CipherSuite 0x5600 '''' ''            '' '''' '''' '''' (Some ''TLS_FALLBACK'') None,
     CipherSuite 0xffff '''' ''            '' '''' '''' '''' (Some ''UNKNOWN_CIPHER'') None,
     CipherSuite 0x0 ''NULL'' ''        '' ''NULL    '' ''    '' ''NULL'' None None,
     CipherSuite 0x1 ''RSA'' ''         '' ''NULL    '' ''    '' ''MD5'' None None,
     CipherSuite 0x2 ''RSA'' ''         '' ''NULL    '' ''    '' ''SHA'' None None,
     CipherSuite 0x3 ''RSA_EXPORT'' ''  '' ''RC4_40  '' ''    '' ''MD5'' None None,
     CipherSuite 0x4 ''RSA'' ''         '' ''RC4_128 '' ''    '' ''MD5'' None None,
     CipherSuite 0x5 ''RSA'' ''         '' ''RC4_128 '' ''    '' ''SHA'' None None,
     CipherSuite 0x6 ''RSA_EXPORT'' ''  '' ''RC2_40  '' ''CBC '' ''MD5'' None (Some ''RC2_CBC_40''),
     CipherSuite 0x7 ''RSA'' ''         '' ''IDEA    '' ''CBC '' ''SHA'' None None,
     CipherSuite 0x8 ''RSA_EXPORT'' ''  '' ''DES40   '' ''CBC '' ''SHA'' None None,
     CipherSuite 0x9 ''RSA'' ''         '' ''DES     '' ''CBC '' ''SHA'' None None,
     CipherSuite 0xa ''RSA'' ''         '' ''3DES_EDE'' ''CBC '' ''SHA'' None None,
     CipherSuite 0xb ''DH'' ''DSS_EXPORT'' ''DES40   '' ''CBC '' ''SHA'' None None,
     CipherSuite 0xc ''DH'' ''DSS       '' ''DES     '' ''CBC '' ''SHA'' None None,
     CipherSuite 0xd ''DH'' ''DSS       '' ''3DES_EDE'' ''CBC '' ''SHA'' None None,
     CipherSuite 0xe ''DH'' ''RSA_EXPORT'' ''DES40   '' ''CBC '' ''SHA'' None None,
     CipherSuite 0xf ''DH'' ''RSA       '' ''DES     '' ''CBC '' ''SHA'' None None,
     CipherSuite 0x10 ''DH'' ''RSA       '' ''3DES_EDE'' ''CBC '' ''SHA'' None None,
     CipherSuite 0x11 ''DHE'' ''DSS_EXPORT'' ''DES40  '' ''CBC '' ''SHA'' None None,
     CipherSuite 0x12 ''DHE'' ''DSS      '' ''DES     '' ''CBC '' ''SHA'' None None,
     CipherSuite 0x13 ''DHE'' ''DSS      '' ''3DES_EDE'' ''CBC '' ''SHA'' None None,
     CipherSuite 0x14 ''DHE'' ''RSA_EXPORT'' ''DES40  '' ''CBC '' ''SHA'' None None,
     CipherSuite 0x15 ''DHE'' ''RSA      '' ''DES     '' ''CBC '' ''SHA'' None None,
     CipherSuite 0x16 ''DHE'' ''RSA      '' ''3DES_EDE'' ''CBC '' ''SHA'' None None,
     CipherSuite 0x17 ''DH'' ''anon_EXPORT'' ''RC4_40 '' ''    '' ''MD5'' None None,
     CipherSuite 0x18 ''DH'' ''anon      '' ''RC4_128 '' ''    '' ''MD5'' None None,
     CipherSuite 0x19 ''DH'' ''anon_EXPORT'' ''DES40  '' ''CBC '' ''SHA'' None None,
     CipherSuite 0x1a ''DH'' ''anon      '' ''DES     '' ''CBC '' ''SHA'' None None,
     CipherSuite 0x1b ''DH'' ''anon      '' ''3DES_EDE'' ''CBC '' ''SHA'' None None,
     CipherSuite 0x1e ''KRB5'' ''        '' ''DES     '' ''CBC '' ''SHA'' None None,
     CipherSuite 0x1f ''KRB5'' ''        '' ''3DES_EDE'' ''CBC '' ''SHA'' None None,
     CipherSuite 0x20 ''KRB5'' ''        '' ''RC4_128 '' ''    '' ''SHA'' None None,
     CipherSuite 0x21 ''KRB5'' ''        '' ''IDEA    '' ''CBC '' ''SHA'' None None,
     CipherSuite 0x22 ''KRB5'' ''        '' ''DES     '' ''CBC '' ''MD5'' None None,
     CipherSuite 0x23 ''KRB5'' ''        '' ''3DES_EDE'' ''CBC '' ''MD5'' None None,
     CipherSuite 0x24 ''KRB5'' ''        '' ''RC4_128 '' ''    '' ''MD5'' None None,
     CipherSuite 0x25 ''KRB5'' ''        '' ''IDEA    '' ''CBC '' ''MD5'' None None,
     CipherSuite 0x26 ''KRB5_EXPORT'' '' '' ''DES40   '' ''CBC '' ''SHA'' None (Some ''DES_CBC_40''),
     CipherSuite 0x27 ''KRB5_EXPORT'' '' '' ''RC2_40  '' ''CBC '' ''SHA'' None (Some ''RC2_CBC_40''),
     CipherSuite 0x28 ''KRB5_EXPORT'' '' '' ''RC4_40  '' ''    '' ''SHA'' None None,
     CipherSuite 0x29 ''KRB5_EXPORT'' '' '' ''DES40   '' ''CBC '' ''MD5'' None (Some ''DES_CBC_40''),
     CipherSuite 0x2a ''KRB5_EXPORT'' '' '' ''RC2_40  '' ''CBC '' ''MD5'' None (Some ''RC2_CBC_40''),
     CipherSuite 0x2b ''KRB5_EXPORT'' '' '' ''RC4_40  '' ''    '' ''MD5'' None None,
     CipherSuite 0x2c ''    '' ''PSK     '' ''NULL    '' ''    '' ''SHA'' None None,
     CipherSuite 0x2d ''DHE '' ''PSK     '' ''NULL    '' ''    '' ''SHA'' None None,
     CipherSuite 0x2e ''RSA '' ''PSK     '' ''NULL    '' ''    '' ''SHA'' None None,
     CipherSuite 0x2f ''RSA '' ''        '' ''AES_128 '' ''CBC '' ''SHA'' None None,
     CipherSuite 0x30 ''DH  '' ''DSS     '' ''AES_128 '' ''CBC '' ''SHA'' None None,
     CipherSuite 0x31 ''DH  '' ''RSA     '' ''AES_128 '' ''CBC '' ''SHA'' None None,
     CipherSuite 0x32 ''DHE '' ''DSS     '' ''AES_128 '' ''CBC '' ''SHA'' None None,
     CipherSuite 0x33 ''DHE '' ''RSA     '' ''AES_128 '' ''CBC '' ''SHA'' None None,
     CipherSuite 0x34 ''DH  '' ''anon    '' ''AES_128 '' ''CBC '' ''SHA'' None None,
     CipherSuite 0x35 ''RSA '' ''        '' ''AES_256 '' ''CBC '' ''SHA'' None None,
     CipherSuite 0x36 ''DH  '' ''DSS     '' ''AES_256 '' ''CBC '' ''SHA'' None None,
     CipherSuite 0x37 ''DH  '' ''RSA     '' ''AES_256 '' ''CBC '' ''SHA'' None None,
     CipherSuite 0x38 ''DHE '' ''DSS     '' ''AES_256 '' ''CBC '' ''SHA'' None None,
     CipherSuite 0x39 ''DHE '' ''RSA     '' ''AES_256 '' ''CBC '' ''SHA'' None None,
     CipherSuite 0x3a ''DH  '' ''anon    '' ''AES_256 '' ''CBC '' ''SHA'' None None,
     CipherSuite 0x3b ''RSA '' ''        '' ''NULL    '' ''    '' ''SHA256'' None None,
     CipherSuite 0x3c ''RSA '' ''        '' ''AES_128 '' ''CBC '' ''SHA256'' None None,
     CipherSuite 0x3d ''RSA '' ''        '' ''AES_256 '' ''CBC '' ''SHA256'' None None,
     CipherSuite 0x3e ''DH  '' ''DSS     '' ''AES_128 '' ''CBC '' ''SHA256'' None None,
     CipherSuite 0x3f ''DH  '' ''RSA     '' ''AES_128 '' ''CBC '' ''SHA256'' None None,
     CipherSuite 0x40 ''DHE '' ''DSS     '' ''AES_128 '' ''CBC '' ''SHA256'' None None,
     CipherSuite 0x41 ''RSA '' ''        '' ''CAMELLIA_128'' ''CBC'' ''SHA'' None None,
     CipherSuite 0x42 ''DH  '' ''DSS     '' ''CAMELLIA_128'' ''CBC'' ''SHA'' None None,
     CipherSuite 0x43 ''DH  '' ''RSA     '' ''CAMELLIA_128'' ''CBC'' ''SHA'' None None,
     CipherSuite 0x44 ''DHE '' ''DSS     '' ''CAMELLIA_128'' ''CBC'' ''SHA'' None None,
     CipherSuite 0x45 ''DHE '' ''RSA     '' ''CAMELLIA_128'' ''CBC'' ''SHA'' None None,
     CipherSuite 0x46 ''DH  '' ''anon    '' ''CAMELLIA_128'' ''CBC'' ''SHA'' None None,
     CipherSuite 0x67 ''DHE '' ''RSA     '' ''AES_128 '' ''CBC '' ''SHA256'' None None,
     CipherSuite 0x68 ''DH  '' ''DSS     '' ''AES_256 '' ''CBC '' ''SHA256'' None None,
     CipherSuite 0x69 ''DH  '' ''RSA     '' ''AES_256 '' ''CBC '' ''SHA256'' None None,
     CipherSuite 0x6a ''DHE '' ''DSS     '' ''AES_256 '' ''CBC '' ''SHA256'' None None,
     CipherSuite 0x6b ''DHE '' ''RSA     '' ''AES_256 '' ''CBC '' ''SHA256'' None None,
     CipherSuite 0x6c ''DH  '' ''anon    '' ''AES_128 '' ''CBC '' ''SHA256'' None None,
     CipherSuite 0x6d ''DH  '' ''anon    '' ''AES_256 '' ''CBC '' ''SHA256'' None None,
     CipherSuite 0x84 ''RSA '' ''        '' ''CAMELLIA_256'' ''CBC'' ''SHA'' None None,
     CipherSuite 0x85 ''DH  '' ''DSS     '' ''CAMELLIA_256'' ''CBC'' ''SHA'' None None,
     CipherSuite 0x86 ''DH  '' ''RSA     '' ''CAMELLIA_256'' ''CBC'' ''SHA'' None None,
     CipherSuite 0x87 ''DHE '' ''DSS     '' ''CAMELLIA_256'' ''CBC'' ''SHA'' None None,
     CipherSuite 0x88 ''DHE '' ''RSA     '' ''CAMELLIA_256'' ''CBC'' ''SHA'' None None,
     CipherSuite 0x89 ''DH  '' ''anon    '' ''CAMELLIA_256'' ''CBC'' ''SHA'' None None,
     CipherSuite 0x8a ''    '' ''PSK     '' ''RC4_128 '' ''    '' ''SHA'' None None,
     CipherSuite 0x8b ''    '' ''PSK     '' ''3DES_EDE'' ''CBC '' ''SHA'' None None,
     CipherSuite 0x8c ''    '' ''PSK     '' ''AES_128 '' ''CBC '' ''SHA'' None None,
     CipherSuite 0x8d ''    '' ''PSK     '' ''AES_256 '' ''CBC '' ''SHA'' None None,
     CipherSuite 0x8e ''DHE '' ''PSK     '' ''RC4_128 '' ''    '' ''SHA'' None None,
     CipherSuite 0x8f ''DHE '' ''PSK     '' ''3DES_EDE'' ''CBC '' ''SHA'' None None,
     CipherSuite 0x90 ''DHE '' ''PSK     '' ''AES_128 '' ''CBC '' ''SHA'' None None,
     CipherSuite 0x91 ''DHE '' ''PSK     '' ''AES_256 '' ''CBC '' ''SHA'' None None,
     CipherSuite 0x92 ''RSA '' ''PSK     '' ''RC4_128 '' ''    '' ''SHA'' None None,
     CipherSuite 0x93 ''RSA '' ''PSK     '' ''3DES_EDE'' ''CBC '' ''SHA'' None None,
     CipherSuite 0x94 ''RSA '' ''PSK     '' ''AES_128 '' ''CBC '' ''SHA'' None None,
     CipherSuite 0x95 ''RSA '' ''PSK     '' ''AES_256 '' ''CBC '' ''SHA'' None None,
     CipherSuite 0x96 ''RSA '' ''        '' ''SEED    '' ''CBC '' ''SHA'' None None,
     CipherSuite 0x97 ''DH  '' ''DSS     '' ''SEED    '' ''CBC '' ''SHA'' None None,
     CipherSuite 0x98 ''DH  '' ''RSA     '' ''SEED    '' ''CBC '' ''SHA'' None None,
     CipherSuite 0x99 ''DHE '' ''DSS     '' ''SEED    '' ''CBC '' ''SHA'' None None,
     CipherSuite 0x9a ''DHE '' ''RSA     '' ''SEED    '' ''CBC '' ''SHA'' None None,
     CipherSuite 0x9b ''DH  '' ''anon    '' ''SEED    '' ''CBC '' ''SHA'' None None,
     CipherSuite 0x9c ''RSA '' ''        '' ''AES_128 '' ''GCM '' ''SHA256'' None None]"

definition CIPHERSUITES_B :: "cipher_suite list" where
  "CIPHERSUITES_B =
    [CipherSuite 0x9d ''RSA '' ''        '' ''AES_256 '' ''GCM '' ''SHA384'' None None,
     CipherSuite 0x9e ''DHE '' ''RSA     '' ''AES_128 '' ''GCM '' ''SHA256'' None None,
     CipherSuite 0x9f ''DHE '' ''RSA     '' ''AES_256 '' ''GCM '' ''SHA384'' None None,
     CipherSuite 0xa0 ''DH  '' ''RSA     '' ''AES_128 '' ''GCM '' ''SHA256'' None None,
     CipherSuite 0xa1 ''DH  '' ''RSA     '' ''AES_256 '' ''GCM '' ''SHA384'' None None,
     CipherSuite 0xa2 ''DHE '' ''DSS     '' ''AES_128 '' ''GCM '' ''SHA256'' None None,
     CipherSuite 0xa3 ''DHE '' ''DSS     '' ''AES_256 '' ''GCM '' ''SHA384'' None None,
     CipherSuite 0xa4 ''DH  '' ''DSS     '' ''AES_128 '' ''GCM '' ''SHA256'' None None,
     CipherSuite 0xa5 ''DH  '' ''DSS     '' ''AES_256 '' ''GCM '' ''SHA384'' None None,
     CipherSuite 0xa6 ''DH  '' ''anon    '' ''AES_128 '' ''GCM '' ''SHA256'' None None,
     CipherSuite 0xa7 ''DH  '' ''anon    '' ''AES_256 '' ''GCM '' ''SHA384'' None None,
     CipherSuite 0xa8 ''    '' ''PSK     '' ''AES_128 '' ''GCM '' ''SHA256'' None None,
     CipherSuite 0xa9 ''    '' ''PSK     '' ''AES_256 '' ''GCM '' ''SHA384'' None None,
     CipherSuite 0xaa ''DHE '' ''PSK     '' ''AES_128 '' ''GCM '' ''SHA256'' None None,
     CipherSuite 0xab ''DHE '' ''PSK     '' ''AES_256 '' ''GCM '' ''SHA384'' None None,
     CipherSuite 0xac ''RSA '' ''PSK     '' ''AES_128 '' ''GCM '' ''SHA256'' None None,
     CipherSuite 0xad ''RSA '' ''PSK     '' ''AES_256 '' ''GCM '' ''SHA384'' None None,
     CipherSuite 0xae ''    '' ''PSK     '' ''AES_128 '' ''CBC '' ''SHA256'' None None,
     CipherSuite 0xaf ''    '' ''PSK     '' ''AES_256 '' ''CBC '' ''SHA384'' None None,
     CipherSuite 0xb0 ''    '' ''PSK     '' ''NULL    '' ''    '' ''SHA256'' None None,
     CipherSuite 0xb1 ''    '' ''PSK     '' ''NULL    '' ''    '' ''SHA384'' None None,
     CipherSuite 0xb2 ''DHE '' ''PSK     '' ''AES_128 '' ''CBC '' ''SHA256'' None None,
     CipherSuite 0xb3 ''DHE '' ''PSK     '' ''AES_256 '' ''CBC '' ''SHA384'' None None,
     CipherSuite 0xb4 ''DHE '' ''PSK     '' ''NULL    '' ''    '' ''SHA256'' None None,
     CipherSuite 0xb5 ''DHE '' ''PSK     '' ''NULL    '' ''    '' ''SHA384'' None None,
     CipherSuite 0xb6 ''RSA '' ''PSK     '' ''AES_128 '' ''CBC '' ''SHA256'' None None,
     CipherSuite 0xb7 ''RSA '' ''PSK     '' ''AES_256 '' ''CBC '' ''SHA384'' None None,
     CipherSuite 0xb8 ''RSA '' ''PSK     '' ''NULL    '' ''    '' ''SHA256'' None None,
     CipherSuite 0xb9 ''RSA '' ''PSK     '' ''NULL    '' ''    '' ''SHA384'' None None,
     CipherSuite 0xba ''RSA '' ''        '' ''CAMELLIA_128'' ''CBC'' ''SHA256'' None None,
     CipherSuite 0xbb ''DH  '' ''DSS     '' ''CAMELLIA_128'' ''CBC'' ''SHA256'' None None,
     CipherSuite 0xbc ''DH  '' ''RSA     '' ''CAMELLIA_128'' ''CBC'' ''SHA256'' None None,
     CipherSuite 0xbd ''DHE '' ''DSS     '' ''CAMELLIA_128'' ''CBC'' ''SHA256'' None None,
     CipherSuite 0xbe ''DHE '' ''RSA     '' ''CAMELLIA_128'' ''CBC'' ''SHA256'' None None,
     CipherSuite 0xbf ''DH  '' ''anon    '' ''CAMELLIA_128'' ''CBC'' ''SHA256'' None None,
     CipherSuite 0xc0 ''RSA '' ''        '' ''CAMELLIA_256'' ''CBC'' ''SHA256'' None None,
     CipherSuite 0xc1 ''DH  '' ''DSS     '' ''CAMELLIA_256'' ''CBC'' ''SHA256'' None None,
     CipherSuite 0xc2 ''DH  '' ''RSA     '' ''CAMELLIA_256'' ''CBC'' ''SHA256'' None None,
     CipherSuite 0xc3 ''DHE '' ''DSS     '' ''CAMELLIA_256'' ''CBC'' ''SHA256'' None None,
     CipherSuite 0xc4 ''DHE '' ''RSA     '' ''CAMELLIA_256'' ''CBC'' ''SHA256'' None None,
     CipherSuite 0xc5 ''DH  '' ''anon    '' ''CAMELLIA_256'' ''CBC'' ''SHA256'' None None,
     CipherSuite 0x1301 ''    '' ''        '' ''AES_128 '' ''GCM     '' ''SHA256'' (Some ''TLS_AES_128_GCM_SHA256'') None,
     CipherSuite 0x1302 ''    '' ''        '' ''AES_256 '' ''GCM     '' ''SHA384'' (Some ''TLS_AES_256_GCM_SHA384'') None,
     CipherSuite 0x1303 ''    '' ''        '' ''CHACHA20'' ''POLY1305'' ''SHA256'' (Some ''TLS_CHACHA20_POLY1305_SHA256'') None,
     CipherSuite 0x1304 ''    '' ''        '' ''AES_128 '' ''CCM     '' ''SHA256'' (Some ''TLS_AES_128_CCM_SHA256'') None,
     CipherSuite 0x1305 ''    '' ''        '' ''AES_128 '' ''CCM_8   '' ''SHA256'' (Some ''TLS_AES_128_CCM_8_SHA256'') None,
     CipherSuite 0xc001 ''ECDH '' ''ECDSA  '' ''NULL    '' ''    '' ''SHA'' None None,
     CipherSuite 0xc002 ''ECDH '' ''ECDSA  '' ''RC4_128 '' ''    '' ''SHA'' None None,
     CipherSuite 0xc003 ''ECDH '' ''ECDSA  '' ''3DES_EDE'' ''CBC '' ''SHA'' None None,
     CipherSuite 0xc004 ''ECDH '' ''ECDSA  '' ''AES_128 '' ''CBC '' ''SHA'' None None,
     CipherSuite 0xc005 ''ECDH '' ''ECDSA  '' ''AES_256 '' ''CBC '' ''SHA'' None None,
     CipherSuite 0xc006 ''ECDHE'' ''ECDSA  '' ''NULL    '' ''    '' ''SHA'' None None,
     CipherSuite 0xc007 ''ECDHE'' ''ECDSA  '' ''RC4_128 '' ''    '' ''SHA'' None None,
     CipherSuite 0xc008 ''ECDHE'' ''ECDSA  '' ''3DES_EDE'' ''CBC '' ''SHA'' None None,
     CipherSuite 0xc009 ''ECDHE'' ''ECDSA  '' ''AES_128 '' ''CBC '' ''SHA'' None None,
     CipherSuite 0xc00a ''ECDHE'' ''ECDSA  '' ''AES_256 '' ''CBC '' ''SHA'' None None,
     CipherSuite 0xc00b ''ECDH '' ''RSA    '' ''NULL    '' ''    '' ''SHA'' None None,
     CipherSuite 0xc00c ''ECDH '' ''RSA    '' ''RC4_128 '' ''    '' ''SHA'' None None,
     CipherSuite 0xc00d ''ECDH '' ''RSA    '' ''3DES_EDE'' ''CBC '' ''SHA'' None None,
     CipherSuite 0xc00e ''ECDH '' ''RSA    '' ''AES_128 '' ''CBC '' ''SHA'' None None,
     CipherSuite 0xc00f ''ECDH '' ''RSA    '' ''AES_256 '' ''CBC '' ''SHA'' None None,
     CipherSuite 0xc010 ''ECDHE'' ''RSA    '' ''NULL    '' ''    '' ''SHA'' None None,
     CipherSuite 0xc011 ''ECDHE'' ''RSA    '' ''RC4_128 '' ''    '' ''SHA'' None None,
     CipherSuite 0xc012 ''ECDHE'' ''RSA    '' ''3DES_EDE'' ''CBC '' ''SHA'' None None,
     CipherSuite 0xc013 ''ECDHE'' ''RSA    '' ''AES_128 '' ''CBC '' ''SHA'' None None,
     CipherSuite 0xc014 ''ECDHE'' ''RSA    '' ''AES_256 '' ''CBC '' ''SHA'' None None,
     CipherSuite 0xc015 ''ECDH '' ''anon   '' ''NULL    '' ''    '' ''SHA'' None None,
     CipherSuite 0xc016 ''ECDH '' ''anon   '' ''RC4_128 '' ''    '' ''SHA'' None None,
     CipherSuite 0xc017 ''ECDH '' ''anon   '' ''3DES_EDE'' ''CBC '' ''SHA'' None None,
     CipherSuite 0xc018 ''ECDH '' ''anon   '' ''AES_128 '' ''CBC '' ''SHA'' None None,
     CipherSuite 0xc019 ''ECDH '' ''anon   '' ''AES_256 '' ''CBC '' ''SHA'' None None,
     CipherSuite 0xc01a ''SRP_SHA'' ''     '' ''3DES_EDE'' ''CBC '' ''SHA'' None None,
     CipherSuite 0xc01b ''SRP_SHA'' ''RSA  '' ''3DES_EDE'' ''CBC '' ''SHA'' None None,
     CipherSuite 0xc01c ''SRP_SHA'' ''DSS  '' ''3DES_EDE'' ''CBC '' ''SHA'' None None,
     CipherSuite 0xc01d ''SRP_SHA'' ''     '' ''AES_128 '' ''CBC '' ''SHA'' None None,
     CipherSuite 0xc01e ''SRP_SHA'' ''RSA  '' ''AES_128 '' ''CBC '' ''SHA'' None None,
     CipherSuite 0xc01f ''SRP_SHA'' ''DSS  '' ''AES_128 '' ''CBC '' ''SHA'' None None,
     CipherSuite 0xc020 ''SRP_SHA'' ''     '' ''AES_256 '' ''CBC '' ''SHA'' None None,
     CipherSuite 0xc021 ''SRP_SHA'' ''RSA  '' ''AES_256 '' ''CBC '' ''SHA'' None None,
     CipherSuite 0xc022 ''SRP_SHA'' ''DSS  '' ''AES_256 '' ''CBC '' ''SHA'' None None,
     CipherSuite 0xc023 ''ECDHE'' ''ECDSA  '' ''AES_128 '' ''CBC '' ''SHA256'' None None,
     CipherSuite 0xc024 ''ECDHE'' ''ECDSA  '' ''AES_256 '' ''CBC '' ''SHA384'' None None,
     CipherSuite 0xc025 ''ECDH '' ''ECDSA  '' ''AES_128 '' ''CBC '' ''SHA256'' None None,
     CipherSuite 0xc026 ''ECDH '' ''ECDSA  '' ''AES_256 '' ''CBC '' ''SHA384'' None None,
     CipherSuite 0xc027 ''ECDHE'' ''RSA    '' ''AES_128 '' ''CBC '' ''SHA256'' None None,
     CipherSuite 0xc028 ''ECDHE'' ''RSA    '' ''AES_256 '' ''CBC '' ''SHA384'' None None,
     CipherSuite 0xc029 ''ECDH '' ''RSA    '' ''AES_128 '' ''CBC '' ''SHA256'' None None,
     CipherSuite 0xc02a ''ECDH '' ''RSA    '' ''AES_256 '' ''CBC '' ''SHA384'' None None,
     CipherSuite 0xc02b ''ECDHE'' ''ECDSA  '' ''AES_128 '' ''GCM '' ''SHA256'' None None,
     CipherSuite 0xc02c ''ECDHE'' ''ECDSA  '' ''AES_256 '' ''GCM '' ''SHA384'' None None,
     CipherSuite 0xc02d ''ECDH '' ''ECDSA  '' ''AES_128 '' ''GCM '' ''SHA256'' None None,
     CipherSuite 0xc02e ''ECDH '' ''ECDSA  '' ''AES_256 '' ''GCM '' ''SHA384'' None None,
     CipherSuite 0xc02f ''ECDHE'' ''RSA    '' ''AES_128 '' ''GCM '' ''SHA256'' None None,
     CipherSuite 0xc030 ''ECDHE'' ''RSA    '' ''AES_256 '' ''GCM '' ''SHA384'' None None,
     CipherSuite 0xc031 ''ECDH '' ''RSA    '' ''AES_128 '' ''GCM '' ''SHA256'' None None,
     CipherSuite 0xc032 ''ECDH '' ''RSA    '' ''AES_256 '' ''GCM '' ''SHA384'' None None,
     CipherSuite 0xc033 ''ECDHE'' ''PSK    '' ''RC4_128 '' ''    '' ''SHA'' None None,
     CipherSuite 0xc034 ''ECDHE'' ''PSK    '' ''3DES_EDE'' ''CBC '' ''SHA'' None None,
     CipherSuite 0xc035 ''ECDHE'' ''PSK    '' ''AES_128 '' ''CBC '' ''SHA'' None None,
     CipherSuite 0xc036 ''ECDHE'' ''PSK    '' ''AES_256 '' ''CBC '' ''SHA'' None None,
     CipherSuite 0xc037 ''ECDHE'' ''PSK    '' ''AES_128 '' ''CBC '' ''SHA256'' None None,
     CipherSuite 0xc038 ''ECDHE'' ''PSK    '' ''AES_256 '' ''CBC '' ''SHA384'' None None,
     CipherSuite 0xc039 ''ECDHE'' ''PSK    '' ''NULL    '' ''    '' ''SHA'' None None,
     CipherSuite 0xc03a ''ECDHE'' ''PSK    '' ''NULL    '' ''    '' ''SHA256'' None None,
     CipherSuite 0xc03b ''ECDHE'' ''PSK    '' ''NULL    '' ''    '' ''SHA384'' None None,
     CipherSuite 0xc03c ''RSA '' ''        '' ''ARIA_128'' ''CBC '' ''SHA256'' None None,
     CipherSuite 0xc03d ''RSA '' ''        '' ''ARIA_256'' ''CBC '' ''SHA384'' None None,
     CipherSuite 0xc03e ''DH  '' ''DSS     '' ''ARIA_128'' ''CBC '' ''SHA256'' None None,
     CipherSuite 0xc03f ''DH  '' ''DSS     '' ''ARIA_256'' ''CBC '' ''SHA384'' None None,
     CipherSuite 0xc040 ''DH  '' ''RSA     '' ''ARIA_128'' ''CBC '' ''SHA256'' None None,
     CipherSuite 0xc041 ''DH  '' ''RSA     '' ''ARIA_256'' ''CBC '' ''SHA384'' None None,
     CipherSuite 0xc042 ''DHE '' ''DSS     '' ''ARIA_128'' ''CBC '' ''SHA256'' None None,
     CipherSuite 0xc043 ''DHE '' ''DSS     '' ''ARIA_256'' ''CBC '' ''SHA384'' None None,
     CipherSuite 0xc044 ''DHE '' ''RSA     '' ''ARIA_128'' ''CBC '' ''SHA256'' None None,
     CipherSuite 0xc045 ''DHE '' ''RSA     '' ''ARIA_256'' ''CBC '' ''SHA384'' None None,
     CipherSuite 0xc046 ''DH  '' ''anon    '' ''ARIA_128'' ''CBC '' ''SHA256'' None None]"

definition CIPHERSUITES_C :: "cipher_suite list" where
  "CIPHERSUITES_C =
    [CipherSuite 0xc047 ''DH  '' ''anon    '' ''ARIA_256'' ''CBC '' ''SHA384'' None None,
     CipherSuite 0xc048 ''ECDHE'' ''ECDSA  '' ''ARIA_128'' ''CBC '' ''SHA256'' None None,
     CipherSuite 0xc049 ''ECDHE'' ''ECDSA  '' ''ARIA_256'' ''CBC '' ''SHA384'' None None,
     CipherSuite 0xc04a ''ECDH '' ''ECDSA  '' ''ARIA_128'' ''CBC '' ''SHA256'' None None,
     CipherSuite 0xc04b ''ECDH '' ''ECDSA  '' ''ARIA_256'' ''CBC '' ''SHA384'' None None,
     CipherSuite 0xc04c ''ECDHE'' ''RSA    '' ''ARIA_128'' ''CBC '' ''SHA256'' None None,
     CipherSuite 0xc04d ''ECDHE'' ''RSA    '' ''ARIA_256'' ''CBC '' ''SHA384'' None None,
     CipherSuite 0xc04e ''ECDH '' ''RSA    '' ''ARIA_128'' ''CBC '' ''SHA256'' None None,
     CipherSuite 0xc04f ''ECDH '' ''RSA    '' ''ARIA_256'' ''CBC '' ''SHA384'' None None,
     CipherSuite 0xc050 ''RSA '' ''        '' ''ARIA_128'' ''GCM '' ''SHA256'' None None,
     CipherSuite 0xc051 ''RSA '' ''        '' ''ARIA_256'' ''GCM '' ''SHA384'' None None,
     CipherSuite 0xc052 ''DHE '' ''RSA     '' ''ARIA_128'' ''GCM '' ''SHA256'' None None,
     CipherSuite 0xc053 ''DHE '' ''RSA     '' ''ARIA_256'' ''GCM '' ''SHA384'' None None,
     CipherSuite 0xc054 ''DH  '' ''RSA     '' ''ARIA_128'' ''GCM '' ''SHA256'' None None,
     CipherSuite 0xc055 ''DH  '' ''RSA     '' ''ARIA_256'' ''GCM '' ''SHA384'' None None,
     CipherSuite 0xc056 ''DHE '' ''DSS     '' ''ARIA_128'' ''GCM '' ''SHA256'' None None,
     CipherSuite 0xc057 ''DHE '' ''DSS     '' ''ARIA_256'' ''GCM '' ''SHA384'' None None,
     CipherSuite 0xc058 ''DH  '' ''DSS     '' ''ARIA_128'' ''GCM '' ''SHA256'' None None,
     CipherSuite 0xc059 ''DH  '' ''DSS     '' ''ARIA_256'' ''GCM '' ''SHA384'' None None,
     CipherSuite 0xc05a ''DH  '' ''anon    '' ''ARIA_128'' ''GCM '' ''SHA256'' None None,
     CipherSuite 0xc05b ''DH  '' ''anon    '' ''ARIA_256'' ''GCM '' ''SHA384'' None None,
     CipherSuite 0xc05c ''ECDHE'' ''ECDSA  '' ''ARIA_128'' ''GCM '' ''SHA256'' None None,
     CipherSuite 0xc05d ''ECDHE'' ''ECDSA  '' ''ARIA_256'' ''GCM '' ''SHA384'' None None,
     CipherSuite 0xc05e ''ECDH '' ''ECDSA  '' ''ARIA_128'' ''GCM '' ''SHA256'' None None,
     CipherSuite 0xc05f ''ECDH '' ''ECDSA  '' ''ARIA_256'' ''GCM '' ''SHA384'' None None,
     CipherSuite 0xc060 ''ECDHE'' ''RSA    '' ''ARIA_128'' ''GCM '' ''SHA256'' None None,
     CipherSuite 0xc061 ''ECDHE'' ''RSA    '' ''ARIA_256'' ''GCM '' ''SHA384'' None None,
     CipherSuite 0xc062 ''ECDH '' ''RSA    '' ''ARIA_128'' ''GCM '' ''SHA256'' None None,
     CipherSuite 0xc063 ''ECDH '' ''RSA    '' ''ARIA_256'' ''GCM '' ''SHA384'' None None,
     CipherSuite 0xc064 ''    '' ''PSK     '' ''ARIA_128'' ''CBC '' ''SHA256'' None None,
     CipherSuite 0xc065 ''    '' ''PSK     '' ''ARIA_256'' ''CBC '' ''SHA384'' None None,
     CipherSuite 0xc066 ''DHE '' ''PSK     '' ''ARIA_128'' ''CBC '' ''SHA256'' None None,
     CipherSuite 0xc067 ''DHE '' ''PSK     '' ''ARIA_256'' ''CBC '' ''SHA384'' None None,
     CipherSuite 0xc068 ''RSA '' ''PSK     '' ''ARIA_128'' ''CBC '' ''SHA256'' None None,
     CipherSuite 0xc069 ''RSA '' ''PSK     '' ''ARIA_256'' ''CBC '' ''SHA384'' None None,
     CipherSuite 0xc06a ''    '' ''PSK     '' ''ARIA_128'' ''GCM '' ''SHA256'' None None,
     CipherSuite 0xc06b ''    '' ''PSK     '' ''ARIA_256'' ''GCM '' ''SHA384'' None None,
     CipherSuite 0xc06c ''DHE '' ''PSK     '' ''ARIA_128'' ''GCM '' ''SHA256'' None None,
     CipherSuite 0xc06d ''DHE '' ''PSK     '' ''ARIA_256'' ''GCM '' ''SHA384'' None None,
     CipherSuite 0xc06e ''RSA '' ''PSK     '' ''ARIA_128'' ''GCM '' ''SHA256'' None None,
     CipherSuite 0xc06f ''RSA '' ''PSK     '' ''ARIA_256'' ''GCM '' ''SHA384'' None None,
     CipherSuite 0xc070 ''ECDHE'' ''PSK    '' ''ARIA_128'' ''GCM '' ''SHA256'' None None,
     CipherSuite 0xc071 ''ECDHE'' ''PSK    '' ''ARIA_256'' ''GCM '' ''SHA384'' None None,
     CipherSuite 0xc072 ''ECDHE'' ''ECDSA  '' ''CAMELLIA_128'' ''CBC'' ''SHA256'' None None,
     CipherSuite 0xc073 ''ECDHE'' ''ECDSA  '' ''CAMELLIA_256'' ''CBC'' ''SHA384'' None None,
     CipherSuite 0xc074 ''ECDH '' ''ECDSA  '' ''CAMELLIA_128'' ''CBC'' ''SHA256'' None None,
     CipherSuite 0xc075 ''ECDH '' ''ECDSA  '' ''CAMELLIA_256'' ''CBC'' ''SHA384'' None None,
     CipherSuite 0xc076 ''ECDHE'' ''RSA    '' ''CAMELLIA_128'' ''CBC'' ''SHA256'' None None,
     CipherSuite 0xc077 ''ECDHE'' ''RSA    '' ''CAMELLIA_256'' ''CBC'' ''SHA384'' None None,
     CipherSuite 0xc078 ''ECDH '' ''RSA    '' ''CAMELLIA_128'' ''CBC'' ''SHA256'' None None,
     CipherSuite 0xc079 ''ECDH '' ''RSA    '' ''CAMELLIA_256'' ''CBC'' ''SHA384'' None None,
     CipherSuite 0xc07a ''RSA '' ''        '' ''CAMELLIA_128'' ''GCM'' ''SHA256'' None None,
     CipherSuite 0xc07b ''RSA '' ''        '' ''CAMELLIA_256'' ''GCM'' ''SHA384'' None None,
     CipherSuite 0xc07c ''DHE '' ''RSA     '' ''CAMELLIA_128'' ''GCM'' ''SHA256'' None None,
     CipherSuite 0xc07d ''DHE '' ''RSA     '' ''CAMELLIA_256'' ''GCM'' ''SHA384'' None None,
     CipherSuite 0xc07e ''DH  '' ''RSA     '' ''CAMELLIA_128'' ''GCM'' ''SHA256'' None None,
     CipherSuite 0xc07f ''DH  '' ''RSA     '' ''CAMELLIA_256'' ''GCM'' ''SHA384'' None None,
     CipherSuite 0xc080 ''DHE '' ''DSS     '' ''CAMELLIA_128'' ''GCM'' ''SHA256'' None None,
     CipherSuite 0xc081 ''DHE '' ''DSS     '' ''CAMELLIA_256'' ''GCM'' ''SHA384'' None None,
     CipherSuite 0xc082 ''DH  '' ''DSS     '' ''CAMELLIA_128'' ''GCM'' ''SHA256'' None None,
     CipherSuite 0xc083 ''DH  '' ''DSS     '' ''CAMELLIA_256'' ''GCM'' ''SHA384'' None None,
     CipherSuite 0xc084 ''DH  '' ''anon    '' ''CAMELLIA_128'' ''GCM'' ''SHA256'' None None,
     CipherSuite 0xc085 ''DH  '' ''anon    '' ''CAMELLIA_256'' ''GCM'' ''SHA384'' None None,
     CipherSuite 0xc086 ''ECDHE'' ''ECDSA  '' ''CAMELLIA_128'' ''GCM'' ''SHA256'' None None,
     CipherSuite 0xc087 ''ECDHE'' ''ECDSA  '' ''CAMELLIA_256'' ''GCM'' ''SHA384'' None None,
     CipherSuite 0xc088 ''ECDH '' ''ECDSA  '' ''CAMELLIA_128'' ''GCM'' ''SHA256'' None None,
     CipherSuite 0xc089 ''ECDH '' ''ECDSA  '' ''CAMELLIA_256'' ''GCM'' ''SHA384'' None None,
     CipherSuite 0xc08a ''ECDHE'' ''RSA    '' ''CAMELLIA_128'' ''GCM'' ''SHA256'' None None,
     CipherSuite 0xc08b ''ECDHE'' ''RSA    '' ''CAMELLIA_256'' ''GCM'' ''SHA384'' None None,
     CipherSuite 0xc08c ''ECDH '' ''RSA    '' ''CAMELLIA_128'' ''GCM'' ''SHA256'' None None,
     CipherSuite 0xc08d ''ECDH '' ''RSA    '' ''CAMELLIA_256'' ''GCM'' ''SHA384'' None None,
     CipherSuite 0xc08e ''    '' ''PSK     '' ''CAMELLIA_128'' ''GCM'' ''SHA256'' None None,
     CipherSuite 0xc08f ''    '' ''PSK     '' ''CAMELLIA_256'' ''GCM'' ''SHA384'' None None,
     CipherSuite 0xc090 ''DHE '' ''PSK     '' ''CAMELLIA_128'' ''GCM'' ''SHA256'' None None,
     CipherSuite 0xc091 ''DHE '' ''PSK     '' ''CAMELLIA_256'' ''GCM'' ''SHA384'' None None,
     CipherSuite 0xc092 ''RSA '' ''PSK     '' ''CAMELLIA_128'' ''GCM'' ''SHA256'' None None,
     CipherSuite 0xc093 ''RSA '' ''PSK     '' ''CAMELLIA_256'' ''GCM'' ''SHA384'' None None,
     CipherSuite 0xc094 ''    '' ''PSK     '' ''CAMELLIA_128'' ''CBC'' ''SHA256'' None None,
     CipherSuite 0xc095 ''    '' ''PSK     '' ''CAMELLIA_256'' ''CBC'' ''SHA384'' None None,
     CipherSuite 0xc096 ''DHE '' ''PSK     '' ''CAMELLIA_128'' ''CBC'' ''SHA256'' None None,
     CipherSuite 0xc097 ''DHE '' ''PSK     '' ''CAMELLIA_256'' ''CBC'' ''SHA384'' None None,
     CipherSuite 0xc098 ''RSA '' ''PSK     '' ''CAMELLIA_128'' ''CBC'' ''SHA256'' None None,
     CipherSuite 0xc099 ''RSA '' ''PSK     '' ''CAMELLIA_256'' ''CBC'' ''SHA384'' None None,
     CipherSuite 0xc09a ''ECDHE'' ''PSK    '' ''CAMELLIA_128'' ''CBC'' ''SHA256'' None None,
     CipherSuite 0xc09b ''ECDHE'' ''PSK    '' ''CAMELLIA_256'' ''CBC'' ''SHA384'' None None,
     CipherSuite 0xc09c ''RSA '' ''        '' ''AES_128 '' ''CCM '' '''' None None,
     CipherSuite 0xc09d ''RSA '' ''        '' ''AES_256 '' ''CCM '' '''' None None,
     CipherSuite 0xc09e ''DHE '' ''RSA     '' ''AES_128 '' ''CCM '' '''' None None,
     CipherSuite 0xc09f ''DHE '' ''RSA     '' ''AES_256 '' ''CCM '' '''' None None,
     CipherSuite 0xc0a0 ''RSA '' ''        '' ''AES_128 '' ''CCM_8'' '''' None None,
     CipherSuite 0xc0a1 ''RSA '' ''        '' ''AES_256 '' ''CCM_8'' '''' None None,
     CipherSuite 0xc0a2 ''DHE '' ''RSA     '' ''AES_128 '' ''CCM_8'' '''' None None,
     CipherSuite 0xc0a3 ''DHE '' ''RSA     '' ''AES_256 '' ''CCM_8'' '''' None None,
     CipherSuite 0xc0a4 ''    '' ''PSK     '' ''AES_128 '' ''CCM '' '''' None None,
     CipherSuite 0xc0a5 ''    '' ''PSK     '' ''AES_256 '' ''CCM '' '''' None None,
     CipherSuite 0xc0a6 ''DHE '' ''PSK     '' ''AES_128 '' ''CCM '' '''' None None,
     CipherSuite 0xc0a7 ''DHE '' ''PSK     '' ''AES_256 '' ''CCM '' '''' None None,
     CipherSuite 0xc0a8 ''    '' ''PSK     '' ''AES_128 '' ''CCM_8'' '''' None None,
     CipherSuite 0xc0a9 ''    '' ''PSK     '' ''AES_256 '' ''CCM_8'' '''' None None,
     CipherSuite 0xc0aa ''DHE '' ''PSK     '' ''AES_128 '' ''CCM_8'' '''' None None,
     CipherSuite 0xc0ab ''DHE '' ''PSK     '' ''AES_256 '' ''CCM_8'' '''' None None,
     CipherSuite 0xc0ac ''ECDHE'' ''ECDSA  '' ''AES_128 '' ''CCM '' '''' None None,
     CipherSuite 0xc0ad ''ECDHE'' ''ECDSA  '' ''AES_256 '' ''CCM '' '''' None None,
     CipherSuite 0xc0ae ''ECDHE'' ''ECDSA  '' ''AES_128 '' ''CCM_8'' '''' None None,
     CipherSuite 0xc0af ''ECDHE'' ''ECDSA  '' ''AES_256 '' ''CCM_8'' '''' None None,
     CipherSuite 0xcc13 ''ECDHE'' ''RSA    '' ''CHACHA20'' ''POLY1305'' ''SHA256'' (Some ''OLD_TLS_ECDHE_RSA_WITH_CHACHA20_POLY1305_SHA256'') None,
     CipherSuite 0xcc14 ''ECDHE'' ''ECDSA  '' ''CHACHA20'' ''POLY1305'' ''SHA256'' (Some ''OLD_TLS_ECDHE_ECDSA_WITH_CHACHA20_POLY1305_SHA256'') None,
     CipherSuite 0xcc15 ''DHE  '' ''RSA    '' ''CHACHA20'' ''POLY1305'' ''SHA256'' (Some ''OLD_TLS_DHE_RSA_WITH_CHACHA20_POLY1305_SHA256'') None,
     CipherSuite 0xcca8 ''ECDHE'' ''RSA    '' ''CHACHA20'' ''POLY1305'' ''SHA256'' None None,
     CipherSuite 0xcca9 ''ECDHE'' ''ECDSA  '' ''CHACHA20'' ''POLY1305'' ''SHA256'' None None,
     CipherSuite 0xccaa ''DHE  '' ''RSA    '' ''CHACHA20'' ''POLY1305'' ''SHA256'' None None,
     CipherSuite 0xccab ''     '' ''PSK    '' ''CHACHA20'' ''POLY1305'' ''SHA256'' None None,
     CipherSuite 0xccac ''ECDHE'' ''PSK    '' ''CHACHA20'' ''POLY1305'' ''SHA256'' None None,
     CipherSuite 0xccad ''DHE  '' ''PSK    '' ''CHACHA20'' ''POLY1305'' ''SHA256'' None None,
     CipherSuite 0xccae ''RSA  '' ''PSK    '' ''CHACHA20'' ''POLY1305'' ''SHA256'' None None,
     CipherSuite 0xa0a '''' '''' '''' '''' '''' (Some ''GREASE'') None,
     CipherSuite 0x1a1a '''' '''' '''' '''' '''' (Some ''GREASE'') None]"

definition CIPHERSUITES_D :: "cipher_suite list" where
  "CIPHERSUITES_D =
    [CipherSuite 0x2a2a '''' '''' '''' '''' '''' (Some ''GREASE'') None,
     CipherSuite 0x3a3a '''' '''' '''' '''' '''' (Some ''GREASE'') None,
     CipherSuite 0x4a4a '''' '''' '''' '''' '''' (Some ''GREASE'') None,
     CipherSuite 0x5a5a '''' '''' '''' '''' '''' (Some ''GREASE'') None,
     CipherSuite 0x6a6a '''' '''' '''' '''' '''' (Some ''GREASE'') None,
     CipherSuite 0x7a7a '''' '''' '''' '''' '''' (Some ''GREASE'') None,
     CipherSuite 0x8a8a '''' '''' '''' '''' '''' (Some ''GREASE'') None,
     CipherSuite 0x9a9a '''' '''' '''' '''' '''' (Some ''GREASE'') None,
     CipherSuite 0xaaaa '''' '''' '''' '''' '''' (Some ''GREASE'') None,
     CipherSuite 0xbaba '''' '''' '''' '''' '''' (Some ''GREASE'') None,
     CipherSuite 0xcaca '''' '''' '''' '''' '''' (Some ''GREASE'') None,
     CipherSuite 0xdada '''' '''' '''' '''' '''' (Some ''GREASE'') None,
     CipherSuite 0xeaea '''' '''' '''' '''' '''' (Some ''GREASE'') None,
     CipherSuite 0xfafa '''' '''' '''' '''' '''' (Some ''GREASE'') None]"

definition CIPHERSUITES :: "cipher_suite list" where
  "CIPHERSUITES = CIPHERSUITES_A @ CIPHERSUITES_B @ CIPHERSUITES_C @ CIPHERSUITES_D"

text \<open>The dictionaries: a later suite with the same key replaces an earlier one.\<close>

definition BY_CODE :: "int \<Rightarrow> cipher_suite option" where
  "BY_CODE = map_of (rev (map (\<lambda>c. (cs_code c, c)) CIPHERSUITES))"

definition BY_NAME :: "string \<Rightarrow> cipher_suite result" where
  "BY_NAME n =
     (case map_of (rev (map (\<lambda>c. (suite_name c, c)) CIPHERSUITES)) n of None \<Rightarrow> Inl KeyError | Some c \<Rightarrow> Inr c)"

section \<open>The dictionary by code\<close>

text \<open>The codes in the order of the list.\<close>

lemma suite_codes:
  "map cs_code CIPHERSUITES =
     [0xff, 0x5600, 0xffff] @ [0x0..0x1b] @ [0x1e..0x46] @ [0x67..0x6d] @ [0x84..0xc5] @ [0x1301..0x1305] @ [0xc001..0xc0af] @ [0xcc13..0xcc15] @ [0xcca8..0xccae] @ [0xa0a, 0x1a1a, 0x2a2a, 0x3a3a, 0x4a4a, 0x5a5a, 0x6a6a, 0x7a7a, 0x8a8a, 0x9a9a, 0xaaaa, 0xbaba, 0xcaca, 0xdada, 0xeaea, 0xfafa]"
  by code_simp

lemma suite_codes_distinct: "distinct (map cs_code CIPHERSUITES)"
  unfolding suite_codes by auto

definition NULL_SUITE :: "cipher_suite option" where
  "NULL_SUITE = BY_CODE 0"

section \<open>Flags of all suites\<close>

lemma aria_suites:
  "length (filter (\<lambda>c. take 5 (cs_cipher c) = ''ARIA_'') CIPHERSUITES) = 54"
  by code_simp

lemma aria_block_sizes:
  "list_all (\<lambda>c. if take 5 (cs_cipher c) = ''ARIA_'' then suite_block_size c = Some 1 else True) CIPHERSUITES"
  by code_simp

lemma poly1305_suites:
  "length (filter (\<lambda>c. cs_mode c = ''POLY1305'') CIPHERSUITES) = 11"
  by code_simp

lemma poly1305_aead:
  "list_all (\<lambda>c. if cs_mode c = ''POLY1305'' then suite_aead c = False else True) CIPHERSUITES"
  by code_simp

section \<open>Properties\<close>

text \<open>
  The dictionary by code has exactly the suites of the list under their codes: no two suites share
  a code, so none is replaced.
\<close>

theorem suites_by_code: "BY_CODE k = Some c \<longleftrightarrow> c \<in> set CIPHERSUITES \<and> cs_code c = k"
proof -
  have "distinct (map fst (map (\<lambda>c. (cs_code c, c)) CIPHERSUITES))"
    using suite_codes_distinct by (simp add: comp_def)
  then have "map_of (rev (map (\<lambda>c. (cs_code c, c)) CIPHERSUITES)) k = Some c \<longleftrightarrow>
      (k, c) \<in> set (map (\<lambda>c. (cs_code c, c)) CIPHERSUITES)"
    by (simp add: map_of_eq_Some_iff rev_map [symmetric])
  then show ?thesis unfolding BY_CODE_def by (simp only: set_map) auto
qed

text \<open>
  The block size of every ARIA suite is the default of one byte, because the table of sizes has the
  cipher without its key length; and no suite with ChaCha20-Poly1305 counts as authenticated encryption.
\<close>

theorem suites_aria_and_poly1305:
  "length (filter (\<lambda>c. take 5 (cs_cipher c) = ''ARIA_'') CIPHERSUITES) = 54 \<and>
   list_all (\<lambda>c. if take 5 (cs_cipher c) = ''ARIA_'' then suite_block_size c = Some 1 else True) CIPHERSUITES \<and>
   length (filter (\<lambda>c. cs_mode c = ''POLY1305'') CIPHERSUITES) = 11 \<and>
   list_all (\<lambda>c. if cs_mode c = ''POLY1305'' then suite_aead c = False else True) CIPHERSUITES"
  by (intro conjI aria_suites aria_block_sizes poly1305_suites poly1305_aead)

end
