(* ===== verification/Ssl.thy ===== *)
theory Ssl
  imports Tls_Record Tables Ciphersuites
begin

text \<open>
  SSL and TLS messages, \<^verbatim>\<open>dpkt/ssl.py\<close>: SSL 2 records, the two ways to read a sequence of TLS records,
  the variable arrays, and the handshake messages with their hellos, extensions and certificates.
\<close>

section \<open>SSL 2\<close>

text \<open>The attribute \<^verbatim>\<open>pad\<close> is set for a long header only.\<close>

record ssl2 =
  s2_len :: int
  s2_msg :: bytes
  s2_pad :: "bytes option"
  s2_data :: bytes

definition ssl2_hdr :: hdr where
  "ssl2_hdr = [(''len'', fH, VInt 0)]"

definition ssl2_unpack :: "bytes \<Rightarrow> ssl2 result" where
  "ssl2_unpack buf =
     rbind (class_unpack BE ssl2_hdr buf) (\<lambda>p.
       let l = get_int ssl2_hdr ''len'' (obj_vals p); d = obj_data p
       in if l AND 0x8000 \<noteq> 0
          then let n = l AND 0x7FFF
               in Inr \<lparr>s2_len = n, s2_msg = take (nat n) d, s2_pad = None, s2_data = drop (nat n) d\<rparr>
          else let n = l AND 0x3FFF
               in rbind (byte_at d 0) (\<lambda>padlen.
                    Inr \<lparr>s2_len = n, s2_msg = take (nat n) (drop 1 d),
                         s2_pad = Some (take (nat padlen) (drop (1 + nat n) d)),
                         s2_data = drop (1 + nat n + nat padlen) d\<rparr>))"

definition ssl2_init :: "bytes \<Rightarrow> ssl2 result" where
  "ssl2_init = packet_init (hdr_len ssl2_hdr) ssl2_unpack"

definition ssl2_bytes :: "ssl2 \<Rightarrow> bytes result" where
  "ssl2_bytes r = rbind (packet_pack_hdr BE ssl2_hdr [VInt (s2_len r)]) (\<lambda>h. Inr (h @ s2_data r))"

section \<open>Sequences of records\<close>

text \<open>The loop of the class \<^verbatim>\<open>TLS\<close>. The class has no header table.\<close>

definition tls_round :: "bytes \<Rightarrow> tls_record round" where
  "tls_round buf =
     (if buf = [] then Stop
      else case tls_init buf of Inl e \<Rightarrow> Fail e | Inr r \<Rightarrow> Item r (drop (5 + nat (tls_length r)) buf))"

definition tls_stream_init :: "bytes \<Rightarrow> tls_record list result" where
  "tls_stream_init = no_table_init (parse_loop tls_round)"

definition tls_stream_bytes :: "tls_record list \<Rightarrow> bytes result" where
  "tls_stream_bytes rs = Inl AttributeError"

definition SSL3_VERSION_BYTES :: "bytes list" where
  "SSL3_VERSION_BYTES = [[3, 0], [3, 1], [3, 2], [3, 3]]"

datatype ssl_packet = SSL_TLS tls_record | SSL_SSL2 ssl2

definition ssl_factory :: "bytes \<Rightarrow> ssl_packet result" where
  "ssl_factory buf =
     (if take 2 (drop 1 buf) \<in> set SSL3_VERSION_BYTES
      then rbind (tls_init buf) (\<lambda>r. Inr (SSL_TLS r)) else rbind (ssl2_init buf) (\<lambda>r. Inr (SSL_SSL2 r)))"

text \<open>
  \<^verbatim>\<open>tls_multi_factory\<close>: the records and the number of bytes they took; an incomplete record ends the loop,
  a record of an unknown version raises \<^verbatim>\<open>SSL3Exception\<close>, which is no class of \<^verbatim>\<open>dpkt\<close>.
\<close>


function tls_multi_factory :: "bytes \<Rightarrow> (tls_record list \<times> nat) result" where
  "tls_multi_factory buf =
     (if length buf < 5 then Inr ([], 0)
      else if take 2 (drop 1 buf) \<notin> set SSL3_VERSION_BYTES then Inl OtherError
      else case tls_init buf of
        Inl e \<Rightarrow> if e = NeedData then Inr ([], 0) else Inl e
      | Inr r \<Rightarrow>
          let n = 5 + length (tls_data r)
          in rbind (tls_multi_factory (drop n buf)) (\<lambda>(rs, m). Inr (r # rs, n + m)))"
  by pat_completeness auto
termination by (relation "measure length") (auto dest: tls_init_length)

declare tls_multi_factory.simps [simp del]

section \<open>Variable arrays and extensions\<close>

definition parse_variable_array :: "bytes \<Rightarrow> nat \<Rightarrow> (bytes \<times> nat) result" where
  "parse_variable_array buf n =
     rbind (if n = 3 then unpack_uint BE 4 (0 # take 3 buf) else unpack_uint BE n (take n buf)) (\<lambda>size.
       Inr (take (nat size) (drop n buf), nat size + n))"

definition tls_ext_init :: "bytes \<Rightarrow> (int \<times> bytes \<times> nat) result" where
  "tls_ext_init buf =
     rbind (unpack_uint BE 2 (take 2 buf)) (\<lambda>t.
     rbind (parse_variable_array (drop 2 buf) 2) (\<lambda>(d, n). Inr (t, d, n)))"

definition ext_size :: "int \<times> bytes \<times> nat \<Rightarrow> nat" where
  "ext_size x = (case x of (t, d, n) \<Rightarrow> 2 + n)"

text \<open>The pointer starts at two and is compared with the length itself.\<close>

definition parse_extensions :: "bytes \<Rightarrow> (int \<times> bytes) list result" where
  "parse_extensions buf =
     rbind (unpack_uint BE 2 (take 2 buf)) (\<lambda>l.
     rbind (parse_budget tls_ext_init ext_size (l - 2) (drop 2 buf)) (\<lambda>(xs, _).
       Inr (map (\<lambda>(t, d, n). (t, d)) xs)))"

section \<open>Handshake messages\<close>

text \<open>
  The defaults of \<^verbatim>\<open>random\<close>, and in the server's hello that of \<^verbatim>\<open>version\<close>, are text, not bytes and a number.
\<close>

definition client_hello_hdr :: hdr where
  "client_hello_hdr = [(''version'', fH, VInt 0x0301), (''random'', Str 32, VStr (replicate 32 (CHR 0x00)))]"

definition server_hello_hdr :: hdr where
  "server_hello_hdr = [(''version'', fH, VStr ''0x0301''), (''random'', Str 32, VStr (replicate 32 (CHR 0x00)))]"

definition suite_of :: "int \<Rightarrow> cipher_suite" where
  "suite_of code = (case BY_CODE code of Some c \<Rightarrow> c | None \<Rightarrow> get_unknown_ciphersuite code)"

definition hello_extensions :: "bytes \<Rightarrow> (int \<times> bytes) list option result" where
  "hello_extensions d = (if 6 \<le> length d then rbind (parse_extensions d) (\<lambda>xs. Inr (Some xs)) else Inr None)"

record client_hello =
  ch_vals :: "pval list"
  ch_data :: bytes
  ch_session_id :: bytes
  ch_ciphersuites :: "cipher_suite list"
  ch_compression_methods :: "int list"
  ch_extensions :: "(int \<times> bytes) list option"

definition client_hello_unpack :: "bytes \<Rightarrow> client_hello result" where
  "client_hello_unpack buf =
     rbind (class_unpack BE client_hello_hdr buf) (\<lambda>p. let d = obj_data p in
     rbind (parse_variable_array d 1) (\<lambda>(sid, n1).
     rbind (parse_variable_array (drop n1 d) 2) (\<lambda>(cs, n2).
     rbind (struct_unpack BE (replicate (length cs div 2) fH) cs) (\<lambda>codes.
     rbind (parse_variable_array (drop (n1 + n2) d) 1) (\<lambda>(cm, n3).
     rbind (hello_extensions (drop (n1 + n2 + n3) d)) (\<lambda>xs.
       Inr \<lparr>ch_vals = obj_vals p, ch_data = d, ch_session_id = sid,
            ch_ciphersuites = map (\<lambda>c. suite_of (ival c)) codes, ch_compression_methods = map ord cm, ch_extensions = xs\<rparr>))))))"

definition client_hello_init :: "bytes \<Rightarrow> client_hello result" where
  "client_hello_init = packet_init (hdr_len client_hello_hdr) client_hello_unpack"

definition client_hello_bytes :: "client_hello \<Rightarrow> bytes result" where
  "client_hello_bytes h = packet_bytes BE client_hello_hdr (ch_vals h) (ch_data h)"

record server_hello =
  sh_vals :: "pval list"
  sh_data :: bytes
  sh_session_id :: bytes
  sh_ciphersuite :: cipher_suite
  sh_compression_method :: int
  sh_extensions :: "(int \<times> bytes) list option"

text \<open>The handlers that turn \<^verbatim>\<open>struct.error\<close> into \<^verbatim>\<open>NeedData\<close>.\<close>

definition struct_need :: "'a result \<Rightarrow> 'a result" where
  "struct_need r = (case r of Inl StructError \<Rightarrow> Inl NeedData | r \<Rightarrow> r)"

definition server_hello_unpack :: "bytes \<Rightarrow> server_hello result" where
  "server_hello_unpack buf = struct_need (
     rbind (class_unpack BE server_hello_hdr buf) (\<lambda>p. let d = obj_data p in
     rbind (parse_variable_array d 1) (\<lambda>(sid, n1).
     rbind (unpack_uint BE 2 (take 2 (drop n1 d))) (\<lambda>code.
     rbind (unpack_uint BE 1 (take 1 (drop (n1 + 2) d))) (\<lambda>cm.
     rbind (hello_extensions (drop (n1 + 3) d)) (\<lambda>xs.
       Inr \<lparr>sh_vals = obj_vals p, sh_data = d, sh_session_id = sid, sh_ciphersuite = suite_of code,
            sh_compression_method = cm, sh_extensions = xs\<rparr>))))))"

definition server_hello_init :: "bytes \<Rightarrow> server_hello result" where
  "server_hello_init = packet_init (hdr_len server_hello_hdr) server_hello_unpack"

definition server_hello_bytes :: "server_hello \<Rightarrow> bytes result" where
  "server_hello_bytes h = packet_bytes BE server_hello_hdr (sh_vals h) (sh_data h)"

definition cert_init :: "bytes \<Rightarrow> (bytes \<times> nat) result" where
  "cert_init buf = parse_variable_array buf 3"

definition certificates_unpack :: "bytes \<Rightarrow> bytes list result" where
  "certificates_unpack buf = struct_need (
     rbind (parse_variable_array buf 3) (\<lambda>(_, n).
     rbind (parse_budget cert_init snd (int n - 3) (drop 3 buf)) (\<lambda>(cs, _). Inr (map fst cs))))"

definition certificates_init :: "bytes \<Rightarrow> bytes list result" where
  "certificates_init = packet_init 0 certificates_unpack"

datatype handshake_class = TLSHelloRequest | TLSClientHello | TLSServerHello | TLSCertificate | TLSUnknownHandshake

definition HANDSHAKE_TYPES :: "(int \<times> string \<times> handshake_class) list" where
  "HANDSHAKE_TYPES =
     [(0, ''HelloRequest'', TLSHelloRequest), (1, ''ClientHello'', TLSClientHello), (2, ''ServerHello'', TLSServerHello),
      (4, ''NewSessionTicket'', TLSUnknownHandshake), (11, ''Certificate'', TLSCertificate),
      (12, ''ServerKeyExchange'', TLSUnknownHandshake), (13, ''CertificateRequest'', TLSUnknownHandshake),
      (14, ''ServerHelloDone'', TLSUnknownHandshake), (15, ''CertificateVerify'', TLSUnknownHandshake),
      (16, ''ClientKeyExchange'', TLSUnknownHandshake), (20, ''Finished'', TLSUnknownHandshake)]"

datatype handshake_body =
    HS_Request bytes
  | HS_Client client_hello
  | HS_Server server_hello
  | HS_Cert bytes "bytes list"
  | HS_Unknown bytes

fun handshake_body_init :: "handshake_class \<Rightarrow> bytes \<Rightarrow> handshake_body result" where
  "handshake_body_init TLSHelloRequest b = Inr (HS_Request b)"
| "handshake_body_init TLSClientHello b = rbind (client_hello_init b) (\<lambda>h. Inr (HS_Client h))"
| "handshake_body_init TLSServerHello b = rbind (server_hello_init b) (\<lambda>h. Inr (HS_Server h))"
| "handshake_body_init TLSCertificate b = rbind (certificates_init b) (\<lambda>cs. Inr (HS_Cert b cs))"
| "handshake_body_init TLSUnknownHandshake b = Inr (HS_Unknown b)"

fun handshake_body_bytes :: "handshake_body \<Rightarrow> bytes result" where
  "handshake_body_bytes (HS_Request b) = Inr b"
| "handshake_body_bytes (HS_Client h) = client_hello_bytes h"
| "handshake_body_bytes (HS_Server h) = server_hello_bytes h"
| "handshake_body_bytes (HS_Cert b _) = Inr b"
| "handshake_body_bytes (HS_Unknown b) = Inr b"

record handshake =
  hs_vals :: "pval list"
  hs_body :: handshake_body

definition handshake_hdr :: hdr where
  "handshake_hdr = [(''type'', fB, VInt 0), (''length_bytes'', Str 3, VInt 0)]"

definition handshake_length :: "pval list \<Rightarrow> int result" where
  "handshake_length vs = unpack_uint BE 4 (0 # bval (vs ! 1))"

definition handshake_unpack :: "bytes \<Rightarrow> handshake result" where
  "handshake_unpack buf =
     rbind (class_unpack BE handshake_hdr buf) (\<lambda>p.
       case map_of HANDSHAKE_TYPES (get_int handshake_hdr ''type'' (obj_vals p)) of
         None \<Rightarrow> Inl OtherError
       | Some (_, c) \<Rightarrow>
           rbind (handshake_length (obj_vals p)) (\<lambda>n.
             let d = take (nat n) (obj_data p)
             in if int (length d) \<noteq> n then Inl NeedData
                else rbind (handshake_body_init c d) (\<lambda>b. Inr \<lparr>hs_vals = obj_vals p, hs_body = b\<rparr>)))"

definition handshake_init :: "bytes \<Rightarrow> handshake result" where
  "handshake_init = packet_init (hdr_len handshake_hdr) handshake_unpack"

definition handshake_bytes :: "handshake \<Rightarrow> bytes result" where
  "handshake_bytes h =
     rbind (packet_pack_hdr BE handshake_hdr (hs_vals h)) (\<lambda>a. rbind (handshake_body_bytes (hs_body h)) (\<lambda>b. Inr (a @ b)))"

section \<open>Records are read back\<close>

text \<open>A record as it is read: the length is that of the data, and both flags are set.\<close>

definition tls_ok :: "tls_record \<Rightarrow> bool" where
  "tls_ok r \<longleftrightarrow> exact_all (hdr_fmt tls_hdr) (tls_vals r) \<and> tls_length r = int (length (tls_data r)) \<and> tls_compressed r \<and> tls_encrypted r"

lemma tls_ok_reads:
  assumes "tls_ok r" "tls_bytes r = Inr b"
  shows "tls_init (b @ rest) = Inr r \<and> length b = 5 + length (tls_data r)"
proof -
  have "r\<lparr>tls_compressed := True, tls_encrypted := True\<rparr> = r" using assms(1) by (cases r) (simp add: tls_ok_def)
  then show ?thesis using tls_record_reads [OF _ assms(2), of rest] assms(1) by (simp add: tls_ok_def)
qed

interpretation records: item_round tls_round tls_bytes tls_ok
proof
  fix buf x rest
  assume "tls_round buf = Item x rest"
  then have "buf \<noteq> []" "rest = drop (5 + nat (tls_length x)) buf" by (auto simp: tls_round_def split: if_splits sum.splits)
  then show "length rest < length buf" by (cases buf) auto
next
  fix x b rest
  assume "tls_ok x" "tls_bytes x = Inr b"
  from tls_ok_reads [OF this, of rest] this show "tls_round (b @ rest) = Item x rest"
    by (auto simp: tls_round_def tls_ok_def)
qed (simp add: tls_round_def)

lemma int_bytes_2: "int_bytes BE 2 v = [word_of_int (v div 256), word_of_int v]"
  by (simp add: int_bytes_def be_bytes_def numeral_2_eq_2)

lemma tls_version_bytes:
  assumes "tls_bytes r = Inr b" "tls_version r \<in> {0x300, 0x301, 0x302, 0x303}"
  shows "take 2 (drop 1 b) \<in> set SSL3_VERSION_BYTES"
proof -
  obtain z where "b = int_bytes BE 1 (tls_type r) @ int_bytes BE 2 (tls_version r) @ z"
    using assms(1)
    by (auto simp: tls_bytes_def packet_bytes_def packet_pack_hdr_def tls_hdr_def tls_vals_def rbind_Inr_iff pack_uint_eq
        split: sum.splits if_splits)
  then show ?thesis
    using assms(2) by (auto simp: SSL3_VERSION_BYTES_def int_bytes_2)
qed

text \<open>A proper beginning of a record.\<close>

lemma tls_multi_partial:
  assumes "tls_ok r" "tls_bytes r = Inr b" "tls_version r \<in> {0x300, 0x301, 0x302, 0x303}" "k < length b"
  shows "tls_multi_factory (take k b) = Inr ([], 0)"
proof (cases "k < 5")
  case True
  then have "length (take k b) < 5" by simp
  then show ?thesis by (subst tls_multi_factory.simps) (simp only: if_True)
next
  case False
  obtain h where h: "packet_pack_hdr BE tls_hdr (tls_vals r) = Inr h" "b = h @ tls_data r"
    using assms(2) by (auto simp: tls_bytes_def packet_bytes_def rbind_Inr_iff)
  have l: "length h = 5" using packet_pack_hdr_length [OF h(1)] by simp
  let ?d = "take (k - 5) (tls_data r)"
  have t: "take k b = h @ ?d" using h(2) l False by simp
  obtain c where "packet_bytes BE tls_hdr (tls_vals r) ?d = Inr c" "packet_unpack BE tls_hdr tls_make c = Inr (tls_make (tls_vals r) ?d)"
    using tls_class.unpack_pack [of "tls_vals r" ?d] assms(1) by (auto simp: tls_ok_def)
  then have u: "packet_unpack BE tls_hdr tls_make (take k b) = Inr (tls_make (tls_vals r) ?d)"
    using h(1) t by (simp add: packet_bytes_def)
  have "tls_unpack (take k b) = Inl NeedData"
    using assms(1,4) h l False unfolding tls_unpack_def u by (simp add: t tls_make_def tls_vals_def tls_ok_def)
  then have "tls_init (take k b) = Inl NeedData" by (simp add: tls_init_def packet_init_def)
  moreover have "take 2 (drop 1 (take k b)) = take 2 (drop 1 b)" using False by (simp add: drop_take)
  moreover have "take 2 (drop 1 b) \<in> set SSL3_VERSION_BYTES" by (rule tls_version_bytes [OF assms(2,3)])
  ultimately show ?thesis
    by (subst tls_multi_factory.simps) (simp only: if_cancel sum.case not_True_eq_False if_False if_True simp_thms)
qed

section \<open>Handshake messages are read back\<close>

lemma ssl_tables [simp]:
  "hdr_len client_hello_hdr = 34" "hdr_len server_hello_hdr = 34" "hdr_len handshake_hdr = 4"
  "table_ok client_hello_hdr" "table_ok server_hello_hdr" "table_ok handshake_hdr"
  by (simp_all add: client_hello_hdr_def server_hello_hdr_def handshake_hdr_def table_ok_def fmt_ok_def hdr_fields_def)

text \<open>The wire form of an array with a length of \<open>n\<close> bytes.\<close>

definition var_array :: "nat \<Rightarrow> bytes \<Rightarrow> bytes" where
  "var_array n d = be_bytes n (int (length d)) @ d"

lemma unpack_be: "0 \<le> i \<Longrightarrow> i < 256 ^ n \<Longrightarrow> unpack_uint BE n (be_bytes n i) = Inr i"
  by (simp add: unpack_uint_def bytes_int_def be_int_be_bytes)

lemma var_array_reads:
  assumes "length d < 256 ^ n"
  shows "parse_variable_array (var_array n d @ rest) n = Inr (d, length d + n)"
proof -
  have i: "int (length d) < 256 ^ n" using assms by (metis of_nat_less_iff of_nat_numeral of_nat_power)
  have "unpack_uint BE 4 (0 # be_bytes 3 (int (length d))) = Inr (int (length d))" if "n = 3"
  proof -
    have "int (length d) div 256 ^ 3 = 0" using i that by simp
    then have e: "be_bytes (Suc 3) (int (length d)) = 0 # be_bytes 3 (int (length d))"
      by (simp only: be_bytes_high) simp
    have "unpack_uint BE (Suc 3) (be_bytes (Suc 3) (int (length d))) = Inr (int (length d))"
      by (rule unpack_be) (use i that in simp_all)
    then show ?thesis unfolding e by simp
  qed
  moreover have "unpack_uint BE n (be_bytes n (int (length d))) = Inr (int (length d))" by (rule unpack_be) (use i in auto)
  ultimately show ?thesis by (cases "n = 3") (simp_all add: parse_variable_array_def var_array_def)
qed

definition ext_wire :: "int \<times> bytes \<Rightarrow> bytes" where
  "ext_wire x = be_bytes 2 (fst x) @ var_array 2 (snd x)"

definition ext_ok :: "int \<times> bytes \<Rightarrow> bool" where
  "ext_ok x \<longleftrightarrow> 0 \<le> fst x \<and> fst x < 65536 \<and> length (snd x) < 65536"

lemma ext_reads:
  assumes "ext_ok x"
  shows "tls_ext_init (ext_wire x @ rest) = Inr (fst x, snd x, length (snd x) + 2)"
  using unpack_be [of "fst x" 2] var_array_reads [of "snd x" 2 rest] assms by (simp add: tls_ext_init_def ext_wire_def ext_ok_def)

lemma ext_size_simp [simp]: "ext_size (t, d, n) = 2 + n"
  by (simp add: ext_size_def)

text \<open>The pointer is compared with a length that is two too small, but every extension has four bytes.\<close>

lemma exts_read:
  "list_all ext_ok xs \<Longrightarrow>
   parse_budget tls_ext_init ext_size (int (length (concat (map ext_wire xs))) - 2) (concat (map ext_wire xs) @ rest) =
   Inr (map (\<lambda>x. (fst x, snd x, length (snd x) + 2)) xs, rest)"
proof (induction xs)
  case Nil
  then show ?case by (simp add: parse_budget.simps)
next
  case (Cons x xs)
  let ?w = "concat (map ext_wire xs)"
  have i: "tls_ext_init (ext_wire x @ ?w @ rest) = Inr (fst x, snd x, length (snd x) + 2)" using ext_reads Cons.prems by simp
  have l: "length (ext_wire x) = 4 + length (snd x)" by (simp add: ext_wire_def var_array_def)
  then have "\<not> int (length (ext_wire x @ ?w)) - 2 \<le> 0" by simp
  moreover have "int (length (ext_wire x @ ?w)) - 2 - int (4 + length (snd x)) = int (length ?w) - 2" using l by simp
  ultimately show ?case using i l Cons by (subst parse_budget.simps) simp
qed

definition exts_wire :: "(int \<times> bytes) list \<Rightarrow> bytes" where
  "exts_wire xs = var_array 2 (concat (map ext_wire xs))"

lemma extensions_read:
  assumes "list_all ext_ok xs" "length (concat (map ext_wire xs)) < 65536"
  shows "parse_extensions (exts_wire xs @ rest) = Inr xs"
proof -
  let ?w = "concat (map ext_wire xs)"
  have "unpack_uint BE 2 (be_bytes 2 (int (length ?w))) = Inr (int (length ?w))" by (rule unpack_be) (use assms(2) in auto)
  then show ?thesis
    using exts_read [OF assms(1), of rest] by (simp add: parse_extensions_def exts_wire_def var_array_def comp_def)
qed

lemma hello_extensions_read:
  assumes "xs \<noteq> []" "list_all ext_ok xs" "length (concat (map ext_wire xs)) < 65536"
  shows "hello_extensions (exts_wire xs) = Inr (Some xs)"
proof -
  have "4 \<le> length (concat (map ext_wire xs))"
    using assms(1) by (cases xs) (simp_all add: ext_wire_def var_array_def)
  then have "6 \<le> length (exts_wire xs)" by (simp add: exts_wire_def var_array_def)
  then show ?thesis using extensions_read [OF assms(2,3), of "[]"] by (simp add: hello_extensions_def)
qed

lemma codes_read:
  "list_all (\<lambda>c. 0 \<le> c \<and> c < 65536) codes \<Longrightarrow>
   struct_unpack BE (replicate (length codes) fH) (concat (map (be_bytes 2) codes)) = Inr (map VInt codes)"
  by (induction codes) (auto simp: struct_unpack_def unpack_be bytes_int_def be_int_be_bytes split: if_splits)

lemma length_codes: "length (concat (map (be_bytes 2) codes)) = 2 * length codes"
  by (induction codes) simp_all

interpretation certs: item_prefix cert_init snd "\<lambda>x. Inr (var_array 3 (fst x))" "\<lambda>x. length (fst x) < 2 ^ 24 \<and> snd x = length (fst x) + 3"
proof
  fix buf and x :: "bytes \<times> nat"
  assume "cert_init buf = Inr x"
  then show "0 < snd x" by (auto simp: cert_init_def parse_variable_array_def rbind_Inr_iff)
next
  fix x :: "bytes \<times> nat" and b rest
  assume "length (fst x) < 2 ^ 24 \<and> snd x = length (fst x) + 3" "Inr (var_array 3 (fst x)) = Inr b"
  then show "cert_init (b @ rest) = Inr x \<and> snd x = length b"
    using var_array_reads [of "fst x" 3 rest] by (cases x) (auto simp: cert_init_def var_array_def)
qed

lemma body_packs: "handshake_body_init c d = Inr b \<Longrightarrow> handshake_body_bytes b = Inr d"
proof (induction c d rule: handshake_body_init.induct)
  case (2 d)
  then obtain h where h: "client_hello_init d = Inr h" "b = HS_Client h" by (auto simp: rbind_Inr_iff)
  then obtain p where "class_unpack BE client_hello_hdr d = Inr p" "ch_vals h = obj_vals p" "ch_data h = obj_data p"
    by (auto simp: client_hello_init_def packet_init_Inr client_hello_unpack_def rbind_Inr_iff Let_def)
  then show ?case
    using class_pack_back [of client_hello_hdr d p] class_unpack_data [of BE client_hello_hdr d p] h(2)
    by (simp add: client_hello_bytes_def packet_bytes_def)
next
  case (3 d)
  then obtain h where h: "server_hello_init d = Inr h" "b = HS_Server h" by (auto simp: rbind_Inr_iff)
  then obtain p where "class_unpack BE server_hello_hdr d = Inr p" "sh_vals h = obj_vals p" "sh_data h = obj_data p"
    by (auto simp: server_hello_init_def packet_init_Inr server_hello_unpack_def struct_need_def rbind_Inr_iff Let_def split: sum.splits exn.splits)
  then show ?case
    using class_pack_back [of server_hello_hdr d p] class_unpack_data [of BE server_hello_hdr d p] h(2)
    by (simp add: server_hello_bytes_def packet_bytes_def)
qed (auto simp: rbind_Inr_iff)

section \<open>Properties\<close>

text \<open>
  A sequence of TLS records whose lengths are those of their data is read back from its bytes by the
  class \<^verbatim>\<open>TLS\<close>.
\<close>

theorem tls_stream_roundtrip:
  assumes "list_all tls_ok rs" "concat_result tls_bytes rs = Inr b"
  shows "tls_stream_init b = Inr rs"
  using records.loop_reads [OF assms] by (simp add: tls_stream_init_def no_table_init_def)

definition example_record :: tls_record where
  "example_record = \<lparr>tls_type = 22, tls_version = 0x303, tls_length = 2, tls_data = [1, 2], tls_compressed = True, tls_encrypted = True\<rparr>"

lemma example_record_ok: "tls_ok example_record" "tls_bytes example_record = Inr [22, 3, 3, 0, 2, 1, 2]"
  by (simp_all add: tls_ok_def example_record_def tls_hdr_def tls_vals_def tls_bytes_def packet_bytes_def packet_pack_hdr_def
      int_bytes_def be_bytes_def le_bytes_numeral)

theorem tls_stream_roundtrip_witness: "tls_stream_init [22, 3, 3, 0, 2, 1, 2, 22, 3, 3, 0, 2, 1, 2] = Inr [example_record, example_record]"
  using tls_stream_roundtrip [of "[example_record, example_record]"] example_record_ok by simp

text \<open>
  C14: \<^verbatim>\<open>tls_multi_factory\<close> returns the complete records of a stream that ends inside a record, and the
  number of bytes they took, so that the rest can be completed later.
\<close>

theorem tls_multi_incremental:
  assumes "list_all (\<lambda>r. tls_ok r \<and> tls_version r \<in> {0x300, 0x301, 0x302, 0x303}) (rs @ [r])"
    and "concat_result tls_bytes rs = Inr b" "tls_bytes r = Inr c" "k < length c"
  shows "tls_multi_factory (b @ take k c) = Inr (rs, length b)"
  using assms(1,2)
proof (induction rs arbitrary: b)
  case Nil
  then show ?case using tls_multi_partial [OF _ assms(3) _ assms(4)] by simp
next
  case (Cons x rs)
  obtain u v where uv: "tls_bytes x = Inr u" "concat_result tls_bytes rs = Inr v" "b = u @ v"
    using Cons.prems(2) by (auto simp: result_simps)
  have x: "tls_init (u @ v @ take k c) = Inr x" "length u = 5 + length (tls_data x)"
    using tls_ok_reads [OF _ uv(1)] Cons.prems(1) by auto
  let ?buf = "u @ v @ take k c"
  have "take 2 (drop 1 ?buf) = take 2 (drop 1 u)" using x(2) by simp
  moreover have "take 2 (drop 1 u) \<in> set SSL3_VERSION_BYTES" using tls_version_bytes [OF uv(1)] Cons.prems(1) by simp
  ultimately have e: "take 2 (drop 1 ?buf) \<in> set SSL3_VERSION_BYTES" by (simp only:)
  have rest: "tls_multi_factory (v @ take k c) = Inr (rs, length v)" using Cons.IH [OF _ uv(2)] Cons.prems(1) by simp
  have "\<not> length ?buf < 5" "drop (5 + length (tls_data x)) ?buf = v @ take k c" using x(2) by simp_all
  then have "tls_multi_factory ?buf = Inr (x # rs, 5 + length (tls_data x) + length v)"
    using x(1) e rest by (subst tls_multi_factory.simps) (simp only: if_False not_True_eq_False sum.case Let_def rbind_simps prod.case)
  then show ?case using uv(3) x(2) by simp
qed

theorem tls_multi_incremental_witness:
  "tls_multi_factory [22, 3, 3, 0, 2, 1, 2, 22, 3, 3, 0, 2, 1] = Inr ([example_record], 7)"
  using tls_multi_incremental [of "[example_record]" example_record, OF _ _ example_record_ok(2), of "[22, 3, 3, 0, 2, 1, 2]" 6] example_record_ok
  by (simp add: example_record_def numeral_eq_Suc)

text \<open>
  Where \<^verbatim>\<open>tls_multi_factory\<close> takes the whole buffer, the class \<^verbatim>\<open>TLS\<close> reads the same records.
\<close>

theorem tls_multi_stream:
  assumes "tls_multi_factory buf = Inr (rs, length buf)"
  shows "tls_stream_init buf = Inr rs"
proof -
  have "tls_multi_factory buf = Inr (rs, length buf) \<Longrightarrow> parse_loop tls_round buf = Inr rs"
  proof (induction buf arbitrary: rs rule: tls_multi_factory.induct)
    case (1 buf)
    show ?case
    proof (cases "buf = []")
      case True
      then show ?thesis using "1.prems" by (simp add: tls_multi_factory.simps [of "[]"] parse_loop_Stop tls_round_def)
    next
      case False
      then obtain r xs m where r: "tls_init buf = Inr r" "tls_multi_factory (drop (5 + length (tls_data r)) buf) = Inr (xs, m)"
        "rs = r # xs" "length buf = 5 + length (tls_data r) + m" "\<not> length buf < 5" "take 2 (drop 1 buf) \<in> set SSL3_VERSION_BYTES"
        using "1.prems" by (subst (asm) (2) tls_multi_factory.simps) (auto simp: Let_def rbind_Inr_iff split: if_splits sum.splits)
      let ?rest = "drop (5 + length (tls_data r)) buf"
      have l: "tls_length r = int (length (tls_data r))" using tls_init_length [OF r(1)] by simp
      have "parse_loop tls_round ?rest = Inr xs"
        by (rule "1.IH" [OF r(5) _ r(1) refl]) (use r(2,4,6) in auto)
      moreover have "tls_round buf = Item r ?rest" using r(1) l False by (simp add: tls_round_def)
      ultimately show ?thesis using parse_loop_Item [of tls_round buf r ?rest] r(3,5) by simp
    qed
  qed
  then show ?thesis using assms by (simp add: tls_stream_init_def no_table_init_def)
qed

theorem tls_multi_stream_witness: "tls_stream_init [22, 3, 3, 0, 2, 1, 2] = Inr [example_record]"
proof -
  have "tls_init [22, 3, 3, 0, 2, 1, 2] = Inr example_record" using tls_ok_reads [OF example_record_ok, of "[]"] by simp
  then have "tls_multi_factory [22, 3, 3, 0, 2, 1, 2] = Inr ([example_record], length [22, 3, 3, 0, 2, 1, 2 :: byte])"
    by (simp add: tls_multi_factory.simps SSL3_VERSION_BYTES_def example_record_def)
  then show ?thesis by (rule tls_multi_stream)
qed

text \<open>
  A handshake message of any type that was parsed packs to the bytes it was parsed from: its header
  and as many bytes as the header says.
\<close>

theorem handshake_byte_exact:
  assumes "handshake_init buf = Inr h"
  shows "\<exists>n. handshake_length (hs_vals h) = Inr n \<and> handshake_bytes h = Inr (take (4 + nat n) buf)"
proof -
  obtain p n c where p: "class_unpack BE handshake_hdr buf = Inr p" "hs_vals h = obj_vals p" "handshake_length (obj_vals p) = Inr n"
    "handshake_body_init c (take (nat n) (obj_data p)) = Inr (hs_body h)"
    using assms by (auto simp: handshake_init_def packet_init_Inr handshake_unpack_def rbind_Inr_iff Let_def split: option.splits if_splits)
  have "packet_pack_hdr BE handshake_hdr (hs_vals h) = Inr (take 4 buf)" using class_pack_back [OF _ p(1)] p(2) by simp
  moreover have "obj_data p = drop 4 buf" using class_unpack_data [OF p(1)] by simp
  ultimately show ?thesis using body_packs [OF p(4)] p(2,3) by (simp add: handshake_bytes_def take_add)
qed

definition example_finished :: bytes where
  "example_finished = [20, 0, 0, 2, 7, 8, 9]"

theorem handshake_byte_exact_witness: "\<exists>h. handshake_init example_finished = Inr h \<and> handshake_bytes h = Inr [20, 0, 0, 2, 7, 8]"
proof -
  obtain h where h: "handshake_init example_finished = Inr h" "handshake_length (hs_vals h) = Inr 2"
    by (simp add: handshake_init_def packet_init_def handshake_unpack_def class_unpack_def packet_unpack_def handshake_hdr_def
        struct_unpack_def obj_make_def get_int_Cons HANDSHAKE_TYPES_def handshake_length_def unpack_uint_def bytes_int_def
        be_int_def example_finished_def)
  then show ?thesis using handshake_byte_exact [OF h(1)] by (auto simp: example_finished_def)
qed

text \<open>
  C15: A client hello is parsed to the session id, the cipher suites, the compression methods and the
  extensions it was built from; a suite that the list does not have is read as the unknown suite.
\<close>

theorem client_hello_parsed:
  assumes "exact_all (hdr_fmt client_hello_hdr) vs" "packet_pack_hdr BE client_hello_hdr vs = Inr a"
    and "length sid < 256" "length codes < 32768" "list_all (\<lambda>c. 0 \<le> c \<and> c < 65536) codes" "length cm < 256"
    and "xs \<noteq> []" "list_all ext_ok xs" "length (concat (map ext_wire xs)) < 65536"
  defines "d \<equiv> var_array 1 sid @ var_array 2 (concat (map (be_bytes 2) codes)) @ var_array 1 cm @ exts_wire xs"
  shows "client_hello_init (a @ d) = Inr
    \<lparr>ch_vals = vs, ch_data = d, ch_session_id = sid, ch_ciphersuites = map suite_of codes,
     ch_compression_methods = map ord cm, ch_extensions = Some xs\<rparr>"
proof -
  let ?cs = "concat (map (be_bytes 2) codes)"
  let ?d2 = "var_array 1 cm @ exts_wire xs"
  have h: "class_unpack BE client_hello_hdr (a @ d) = Inr (obj_make vs d)"
    using class_pack_read [OF ssl_tables(4) assms(1,2), of d] by blast
  have l: "length (var_array 1 sid) = length sid + 1" "length (var_array 2 ?cs) = length ?cs + 2"
    "length (var_array 1 cm) = length cm + 1"
    by (simp_all add: var_array_def)
  have r1: "parse_variable_array d 1 = Inr (sid, length sid + 1)"
    using var_array_reads [of sid 1 "var_array 2 ?cs @ ?d2"] assms(3) by (simp add: d_def)
  have d1: "drop (length sid + 1) d = var_array 2 ?cs @ ?d2" using l(1) by (simp add: d_def)
  have r2: "parse_variable_array (var_array 2 ?cs @ ?d2) 2 = Inr (?cs, length ?cs + 2)"
    using var_array_reads [of ?cs 2 ?d2] assms(4) by (simp add: length_codes)
  have d2: "drop (length sid + 1 + (length ?cs + 2)) d = ?d2" using l by (simp add: d_def)
  have r3: "parse_variable_array ?d2 1 = Inr (cm, length cm + 1)"
    using var_array_reads [of cm 1 "exts_wire xs"] assms(6) by simp
  have d3: "drop (length sid + 1 + (length ?cs + 2) + (length cm + 1)) d = exts_wire xs" using l by (simp add: d_def)
  have r4: "struct_unpack BE (replicate (length ?cs div 2) fH) ?cs = Inr (map VInt codes)"
    using codes_read [OF assms(5)] by (simp add: length_codes)
  have "client_hello_unpack (a @ d) = Inr
    \<lparr>ch_vals = vs, ch_data = d, ch_session_id = sid, ch_ciphersuites = map (\<lambda>c. suite_of (ival c)) (map VInt codes),
     ch_compression_methods = map ord cm, ch_extensions = Some xs\<rparr>"
    unfolding client_hello_unpack_def h obj_make_def rbind_simps packet_obj.simps Let_def r1 prod.case d1 r2 r4 d2 r3 d3
      hello_extensions_read [OF assms(7,8,9)] by (rule refl)
  then show ?thesis by (simp add: client_hello_init_def packet_init_Inr comp_def)
qed

theorem client_hello_parsed_witness:
  "\<exists>a h. client_hello_init (a @ [1, 7, 0, 2, 0, 5, 1, 0, 0, 4, 0, 0, 0, 0]) = Inr h \<and> ch_session_id h = [7] \<and>
     ch_ciphersuites h = [suite_of 5] \<and> ch_extensions h = Some [(0, [])]"
proof -
  let ?vs = "[VInt 0x303, VBytes (zeros 32)]"
  have e: "exact_all (hdr_fmt client_hello_hdr) ?vs" by (simp add: client_hello_hdr_def)
  obtain a where a: "packet_pack_hdr BE client_hello_hdr ?vs = Inr a" using packet_pack_hdr_exact [OF e, of BE] by blast
  show ?thesis
    using client_hello_parsed [OF e a, of "[7]" "[5]" "[0]" "[(0, [])]"]
    by (intro exI [of _ a]) (simp add: var_array_def exts_wire_def ext_wire_def ext_ok_def be_bytes_def le_bytes_numeral)
qed

text \<open>
  A certificate message of any number of certificates is parsed to these certificates.
\<close>

theorem certificates_parsed:
  assumes "list_all (\<lambda>c. length c < 2 ^ 24) cs" "length (concat (map (var_array 3) cs)) < 2 ^ 24"
  shows "certificates_init (var_array 3 (concat (map (var_array 3) cs))) = Inr cs"
proof -
  let ?w = "concat (map (var_array 3) cs)"
  have a: "parse_variable_array (var_array 3 ?w) 3 = Inr (?w, length ?w + 3)" "drop 3 (var_array 3 ?w) = ?w"
    using var_array_reads [of ?w 3 "[]"] assms(2) by (simp_all add: var_array_def)
  have "concat_result (\<lambda>x. Inr (var_array 3 (fst x))) (map (\<lambda>c. (c, length c + 3)) cs) = Inr ?w" by (induction cs) simp_all
  moreover have "list_all (\<lambda>x. length (fst x) < 2 ^ 24 \<and> snd x = length (fst x) + 3) (map (\<lambda>c. (c, length c + 3)) cs)"
    using assms(1) by (induction cs) simp_all
  ultimately have "parse_budget cert_init snd (int (length ?w)) ?w = Inr (map (\<lambda>c. (c, length c + 3)) cs, [])"
    using certs.budget_reads [of "map (\<lambda>c. (c, length c + 3)) cs" ?w "[]"] by simp
  then have "certificates_unpack (var_array 3 ?w) = Inr cs"
    unfolding certificates_unpack_def a(1) rbind_simps prod.case a(2) by (simp add: struct_need_def comp_def)
  then show ?thesis by (simp add: certificates_init_def packet_init_Inr)
qed

theorem certificates_parsed_witness: "certificates_init [0, 0, 9, 0, 0, 2, 5, 6, 0, 0, 1, 7] = Inr [[5, 6], [7]]"
  using certificates_parsed [of "[[5, 6], [7]]"] by (simp add: var_array_def be_bytes_def le_bytes_numeral)

text \<open>
  Neither hello message can be packed with the values its constructor gives it: the random bytes,
  and the version of the server's, are text.
\<close>

theorem hello_defaults_not_packed:
  "packet_pack_hdr BE client_hello_hdr (packet_kwargs client_hello_hdr []) = Inl PackError \<and>
   packet_pack_hdr BE server_hello_hdr (packet_kwargs server_hello_hdr []) = Inl PackError"
  by (simp add: packet_pack_hdr_def client_hello_hdr_def server_hello_hdr_def packet_kwargs_def)

end
