(* ===== verification/Snoop.thy ===== *)
theory Snoop
  imports Pcap Tables
begin

text \<open>
  The snoop file format of RFC 1761, \<^verbatim>\<open>dpkt/snoop.py\<close>: the writer, which pads every packet to a
  multiple of four bytes, and the reader, which takes the padding off. The file is an
  \<^verbatim>\<open>io.BytesIO\<close>: reading a negative number of bytes reads to the end. Timestamps are those of
  \<open>Pcap\<close>; the two header classes are tables of \<open>Header_Classes\<close>.
\<close>

definition SNOOP_MAGIC :: int where "SNOOP_MAGIC = 0x736E6F6F70000000"
definition SNOOP_VERSION :: int where "SNOOP_VERSION = 2"
definition SDL_ETHER :: int where "SDL_ETHER = 4"

definition snoop_dltoff :: "(int \<times> int) list" where
  "snoop_dltoff = [(SDL_ETHER, 14)]"

lemmas snoop_consts = SNOOP_MAGIC_def SNOOP_VERSION_def SDL_ETHER_def

lemma snoop_tables [simp]: "table_ok snoop_PktHdr_hdr" "table_ok snoop_FileHdr_hdr"
  by (simp_all add: table_ok_def snoop_PktHdr_hdr_def snoop_FileHdr_hdr_def hdr_fields_def fmt_ok_def)

lemma snoop_hdr_lens [hdr_simps, simp]: "hdr_len snoop_PktHdr_hdr = 24" "hdr_len snoop_FileHdr_hdr = 16"
  by (simp_all add: snoop_PktHdr_hdr_def snoop_FileHdr_hdr_def)

section \<open>The writer\<close>

text \<open>
  \<^verbatim>\<open>Writer.__init__\<close> writes the file header; \<^verbatim>\<open>writepkt_time\<close> one packet; \<^verbatim>\<open>writepkts\<close> a sequence
  of them, and when a packet raises, those before it are in the file. The state is the file.
\<close>

definition snoop_writer_init :: "bytes \<Rightarrow> int \<Rightarrow> bytes result" where
  "snoop_writer_init f linktype =
     rbind (packet_bytes BE snoop_FileHdr_hdr
       (packet_kwargs snoop_FileHdr_hdr [(''linktype'', VInt linktype)]) []) (\<lambda>b. Inr (f @ b))"

definition precision_multiplier :: int where
  "precision_multiplier = 1000000"

definition snoop_pad_len :: "nat \<Rightarrow> nat" where
  "snoop_pad_len n = nat ((4 - int n) AND 3)"

definition snoop_pkt_vals :: "bytes \<Rightarrow> rat \<Rightarrow> pval list" where
  "snoop_pkt_vals pkt ts =
     [VInt (int (length pkt)), VInt (int (length pkt)),
      VInt (int (hdr_len snoop_PktHdr_hdr + length pkt + snoop_pad_len (length pkt))), VInt 0,
      VInt (trunc ts), VInt (round_even (frac1 ts * of_int precision_multiplier))]"

definition snoop_writepkt_time :: "bytes \<Rightarrow> bytes \<Rightarrow> rat \<Rightarrow> bytes result" where
  "snoop_writepkt_time f pkt ts =
     rbind (struct_pack BE (hdr_fmt snoop_PktHdr_hdr) (snoop_pkt_vals pkt ts))
       (\<lambda>h. Inr (f @ h @ pkt @ zeros (snoop_pad_len (length pkt))))"

text \<open>\<^verbatim>\<open>FileWriter.writepkt\<close>: \<open>now\<close> is the value of the clock.\<close>

definition snoop_writepkt :: "rat \<Rightarrow> bytes \<Rightarrow> bytes \<Rightarrow> rat option \<Rightarrow> bytes result" where
  "snoop_writepkt now f pkt ts = snoop_writepkt_time f pkt (case ts of None \<Rightarrow> now | Some t \<Rightarrow> t)"

fun snoop_writepkts :: "bytes \<Rightarrow> (rat \<times> bytes) list \<Rightarrow> bytes \<times> exn option" where
  "snoop_writepkts f [] = (f, None)"
| "snoop_writepkts f ((ts, pkt) # pkts) =
     (case struct_pack BE (hdr_fmt snoop_PktHdr_hdr) (snoop_pkt_vals pkt ts) of
        Inl e \<Rightarrow> (f, Some e)
      | Inr h \<Rightarrow> snoop_writepkts (f @ h @ pkt @ zeros (snoop_pad_len (length pkt))) pkts)"

section \<open>The reader\<close>

record snoop_reader =
  sn_file :: bytes
  sn_fh :: packet_obj
  sn_dloff :: int

definition snoop_reader_init :: "bytes \<Rightarrow> snoop_reader result" where
  "snoop_reader_init f =
     (let (buf, f') = file_read 16 f in
      rbind (class_init BE snoop_FileHdr_hdr buf) (\<lambda>fh.
        if get_int snoop_FileHdr_hdr ''magic'' (obj_vals fh) \<noteq> SNOOP_MAGIC then Inl ValueError
        else (case map_of snoop_dltoff (get_int snoop_FileHdr_hdr ''linktype'' (obj_vals fh)) of
                None \<Rightarrow> Inl KeyError
              | Some d \<Rightarrow> Inr \<lparr>sn_file = f', sn_fh = fh, sn_dloff = d\<rparr>)))"

definition snoop_datalink :: "snoop_reader \<Rightarrow> int" where
  "snoop_datalink r = get_int snoop_FileHdr_hdr ''linktype'' (obj_vals (sn_fh r))"

text \<open>\<^verbatim>\<open>__next__\<close>: the next packet, or \<open>None\<close> for \<^verbatim>\<open>StopIteration\<close>.\<close>

definition snoop_next :: "snoop_reader \<Rightarrow> (snoop_reader \<times> (rat \<times> bytes)) option result" where
  "snoop_next r =
     (let (buf, f) = file_read 24 (sn_file r) in
      if buf = [] then Inr None
      else rbind (class_init BE snoop_PktHdr_hdr buf) (\<lambda>p.
        let get = (\<lambda>n. get_int snoop_PktHdr_hdr n (obj_vals p));
            (body, f') = file_read (get ''rec_len'' - 24) f
        in Inr (Some (r\<lparr>sn_file := f'\<rparr>,
             (of_int (get ''ts_sec'') + of_int (get ''ts_usec'') / 1000000,
              py_upto body (get ''incl_len''))))))"

lemma snoop_next_shorter:
  "snoop_next r = Inr (Some (r', p)) \<Longrightarrow> length (sn_file r') < length (sn_file r)"
  by (auto simp: snoop_next_def file_read_def Let_def result_simps split: if_splits)

text \<open>\<^verbatim>\<open>FileReader\<close>: \<^verbatim>\<open>readpkts\<close> is \<^verbatim>\<open>list(self)\<close>, and \<^verbatim>\<open>dispatch\<close> the loop with a callback.\<close>

function snoop_readpkts :: "snoop_reader \<Rightarrow> (rat \<times> bytes) list result" where
  "snoop_readpkts r =
     (case snoop_next r of
        Inl e \<Rightarrow> Inl e
      | Inr None \<Rightarrow> Inr []
      | Inr (Some (r', p)) \<Rightarrow> rbind (snoop_readpkts r') (\<lambda>ps. Inr (p # ps)))"
  by pat_completeness auto
termination by (relation "measure (\<lambda>r. length (sn_file r))") (auto dest: snoop_next_shorter)

declare snoop_readpkts.simps [simp del]

fun snoop_dispatch_count ::
    "('s \<Rightarrow> rat \<times> bytes \<Rightarrow> 's result) \<Rightarrow> nat \<Rightarrow> snoop_reader \<Rightarrow> 's \<Rightarrow> (nat \<times> 's \<times> snoop_reader) result" where
  "snoop_dispatch_count cb 0 r s = Inr (0, s, r)"
| "snoop_dispatch_count cb (Suc n) r s =
     (case snoop_next r of
        Inl e \<Rightarrow> Inl e
      | Inr None \<Rightarrow> Inr (0, s, r)
      | Inr (Some (r', p)) \<Rightarrow> rbind (cb s p) (\<lambda>s'.
          rbind (snoop_dispatch_count cb n r' s') (\<lambda>(k, s'', r''). Inr (Suc k, s'', r''))))"

function snoop_dispatch_all ::
    "('s \<Rightarrow> rat \<times> bytes \<Rightarrow> 's result) \<Rightarrow> snoop_reader \<Rightarrow> 's \<Rightarrow> (nat \<times> 's \<times> snoop_reader) result" where
  "snoop_dispatch_all cb r s =
     (case snoop_next r of
        Inl e \<Rightarrow> Inl e
      | Inr None \<Rightarrow> Inr (0, s, r)
      | Inr (Some (r', p)) \<Rightarrow> rbind (cb s p) (\<lambda>s'.
          rbind (snoop_dispatch_all cb r' s') (\<lambda>(k, s'', r''). Inr (Suc k, s'', r''))))"
  by pat_completeness auto
termination
  by (relation "measure (\<lambda>(cb, r, s). length (sn_file r))") (auto dest: snoop_next_shorter)

declare snoop_dispatch_all.simps [simp del]

definition snoop_dispatch ::
    "int \<Rightarrow> ('s \<Rightarrow> rat \<times> bytes \<Rightarrow> 's result) \<Rightarrow> snoop_reader \<Rightarrow> 's \<Rightarrow> (nat \<times> 's \<times> snoop_reader) result" where
  "snoop_dispatch cnt cb r s =
     (if 0 < cnt then snoop_dispatch_count cb (nat cnt) r s else snoop_dispatch_all cb r s)"

definition snoop_loop ::
    "('s \<Rightarrow> rat \<times> bytes \<Rightarrow> 's result) \<Rightarrow> snoop_reader \<Rightarrow> 's \<Rightarrow> (nat \<times> 's \<times> snoop_reader) result" where
  "snoop_loop cb r s = snoop_dispatch 0 cb r s"

interpretation snoop_source:
  packet_source snoop_next snoop_readpkts snoop_dispatch_count snoop_dispatch_all
  by unfold_locales (simp_all only: snoop_dispatch_count.simps, (rule snoop_readpkts.simps snoop_dispatch_all.simps)+)

section \<open>Reading what was written\<close>

lemma snoop_pad: "(n + snoop_pad_len n) mod 4 = 0" "snoop_pad_len n < 4"
proof -
  have p: "int (snoop_pad_len n) = (4 - int n) mod 4"
    using and_mask_int [of "4 - int n" 2] by (simp add: snoop_pad_len_def)
  then have "int (n + snoop_pad_len n) mod 4 = (int n + (4 - int n) mod 4) mod 4" by simp
  also have "\<dots> = 0" by (simp add: mod_add_right_eq)
  finally show "(n + snoop_pad_len n) mod 4 = 0" by (metis of_nat_0_eq_iff of_nat_mod of_nat_numeral)
  show "snoop_pad_len n < 4" using p by linarith
qed

lemma snoop_exact:
  assumes "struct_pack BE (hdr_fmt snoop_PktHdr_hdr) (snoop_pkt_vals pkt ts) = Inr h"
  shows "exact_all (hdr_fmt snoop_PktHdr_hdr) (snoop_pkt_vals pkt ts)"
  using assms by (auto simp: snoop_PktHdr_hdr_def snoop_pkt_vals_def result_simps split: if_splits)

definition snoop_time :: "rat \<Rightarrow> rat" where
  "snoop_time ts = of_int (trunc ts) + of_int (round_even (frac1 ts * 1000000)) / 1000000"

lemma snoop_time_pcap: "snoop_time ts = pcap_time 1000000 ts"
  by (simp add: snoop_time_def pcap_time_def)

text \<open>The bytes of one record are read back as its packet, whatever follows.\<close>

lemma snoop_next_written:
  assumes "struct_pack BE (hdr_fmt snoop_PktHdr_hdr) (snoop_pkt_vals pkt ts) = Inr h"
    and "sn_file r = h @ pkt @ zeros (snoop_pad_len (length pkt)) @ rest"
  shows "snoop_next r = Inr (Some (r\<lparr>sn_file := rest\<rparr>, (snoop_time ts, pkt)))"
proof -
  have e: "exact_all (hdr_fmt snoop_PktHdr_hdr) (snoop_pkt_vals pkt ts)" by (rule snoop_exact [OF assms(1)])
  have p: "packet_pack_hdr BE snoop_PktHdr_hdr (snoop_pkt_vals pkt ts) = Inr h"
    using assms(1) by (simp add: packet_pack_hdr_def)
  have u: "length h = 24" "class_unpack BE snoop_PktHdr_hdr h = Inr (obj_make (snoop_pkt_vals pkt ts) [])"
    using class_pack_read [OF snoop_tables(1) e p, of "[]"] by simp_all
  have i: "class_init BE snoop_PktHdr_hdr h = Inr (obj_make (snoop_pkt_vals pkt ts) [])"
    using u by (simp add: class_init_def packet_init_def)
  have g: "get_int snoop_PktHdr_hdr ''rec_len'' (snoop_pkt_vals pkt ts) = 24 + int (length pkt + snoop_pad_len (length pkt))"
    "get_int snoop_PktHdr_hdr ''incl_len'' (snoop_pkt_vals pkt ts) = int (length pkt)"
    "get_int snoop_PktHdr_hdr ''ts_sec'' (snoop_pkt_vals pkt ts) = trunc ts"
    "get_int snoop_PktHdr_hdr ''ts_usec'' (snoop_pkt_vals pkt ts) = round_even (frac1 ts * 1000000)"
    by (simp_all add: snoop_pkt_vals_def snoop_PktHdr_hdr_def get_int_Cons precision_multiplier_def)
  have "h \<noteq> []" using u by auto
  then show ?thesis
    using u(1) by (simp add: snoop_next_def assms(2) i g obj_make_def file_read_def snoop_time_def Let_def
        nat_add_distrib py_upto_nonneg)
qed

text \<open>\<open>snoop_written pkts b\<close>: \<open>b\<close> is what the loop writes for the packets.\<close>

inductive snoop_written :: "(rat \<times> bytes) list \<Rightarrow> bytes \<Rightarrow> bool" where
  Nil: "snoop_written [] []"
| Cons: "struct_pack BE (hdr_fmt snoop_PktHdr_hdr) (snoop_pkt_vals pkt ts) = Inr h \<Longrightarrow>
    snoop_written pkts b \<Longrightarrow>
    snoop_written ((ts, pkt) # pkts) (h @ pkt @ zeros (snoop_pad_len (length pkt)) @ b)"

lemma snoop_writepkts_written:
  "snoop_writepkts f pkts = (f', None) \<Longrightarrow> \<exists>b. f' = f @ b \<and> snoop_written pkts b"
proof (induction pkts arbitrary: f)
  case Nil
  then show ?case by (auto intro: snoop_written.Nil)
next
  case (Cons p pkts)
  obtain ts pkt where p: "p = (ts, pkt)" by (cases p)
  obtain h where h: "struct_pack BE (hdr_fmt snoop_PktHdr_hdr) (snoop_pkt_vals pkt ts) = Inr h"
    and w: "snoop_writepkts (f @ h @ pkt @ zeros (snoop_pad_len (length pkt))) pkts = (f', None)"
    using Cons.prems by (auto simp: p split: sum.splits)
  from Cons.IH [OF w] show ?case using h p by (auto intro: snoop_written.Cons)
qed

lemma snoop_written_aligned: "snoop_written pkts b \<Longrightarrow> length b mod 4 = 0"
proof (induction rule: snoop_written.induct)
  case (Cons pkt ts h pkts b)
  have "length h = 24" using struct_pack_length [OF Cons.hyps(1)] by (simp add: hdr_len_def [symmetric])
  then show ?case using snoop_pad(1) [of "length pkt"] Cons.IH by simp presburger
qed simp

lemma snoop_read_written:
  "snoop_written pkts b \<Longrightarrow> sn_file r = b \<Longrightarrow>
   snoop_readpkts r = Inr (map (\<lambda>(ts, pkt). (snoop_time ts, pkt)) pkts)"
proof (induction arbitrary: r rule: snoop_written.induct)
  case Nil
  then show ?case by (simp add: snoop_source.readpkts_end snoop_next_def file_read_def)
next
  case (Cons pkt ts h pkts b)
  from snoop_source.readpkts_next [OF snoop_next_written [OF Cons.hyps(1) Cons.prems]]
  show ?case using Cons.IH [of "r\<lparr>sn_file := b\<rparr>"] by simp
qed

lemma snoop_file_hdr_read:
  assumes "snoop_writer_init f linktype = Inr w"
  shows "\<exists>b. w = f @ b \<and> length b = 16 \<and> (\<forall>rest. snoop_reader_init (b @ rest) =
    (if linktype = SDL_ETHER then Inr \<lparr>sn_file = rest,
       sn_fh = obj_make [VInt SNOOP_MAGIC, VInt SNOOP_VERSION, VInt linktype] [], sn_dloff = 14\<rparr>
     else Inl KeyError))"
proof -
  define vs where "vs = [VInt SNOOP_MAGIC, VInt SNOOP_VERSION, VInt linktype]"
  have k: "packet_kwargs snoop_FileHdr_hdr [(''linktype'', VInt linktype)] = vs"
    by (simp add: packet_kwargs_def snoop_FileHdr_hdr_def vs_def snoop_consts)
  obtain b where b: "packet_pack_hdr BE snoop_FileHdr_hdr vs = Inr b" "w = f @ b"
    using assms by (auto simp: snoop_writer_init_def k packet_bytes_def result_simps)
  have sp: "struct_pack BE (hdr_fmt snoop_FileHdr_hdr) vs = Inr b"
    using b by (subst (asm) pack_hdr_flat) (simp_all add: vs_def)
  have ex: "exact_all (hdr_fmt snoop_FileHdr_hdr) vs"
    using sp by (auto simp: vs_def snoop_FileHdr_hdr_def result_simps split: list.splits if_splits)
  have u: "length b = 16" "class_init BE snoop_FileHdr_hdr b = Inr (obj_make vs [])"
    using class_pack_read [OF snoop_tables(2) ex b(1), of "[]"] by (simp_all add: class_init_def packet_init_def)
  have g: "get_int snoop_FileHdr_hdr ''magic'' vs = SNOOP_MAGIC" "get_int snoop_FileHdr_hdr ''linktype'' vs = linktype"
    by (simp_all add: vs_def snoop_FileHdr_hdr_def get_int_Cons)
  show ?thesis
    using b(2) u g by (intro exI [of _ b]) (simp add: snoop_reader_init_def obj_make_def snoop_dltoff_def vs_def)
qed

section \<open>Properties\<close>

text \<open>
  The reader gives back the packets that the writer wrote, without their padding and with
  timestamps within half a microsecond, and every record of the file is a multiple of four bytes.
\<close>

theorem snoop_roundtrip:
  assumes "snoop_writer_init [] SDL_ETHER = Inr f" "snoop_writepkts f pkts = (f', None)"
    and "\<forall>(ts, pkt) \<in> set pkts. 0 \<le> ts"
  shows "\<exists>r ps. snoop_reader_init f' = Inr r \<and> snoop_datalink r = SDL_ETHER \<and>
    snoop_readpkts r = Inr ps \<and> length f' mod 4 = 0 \<and>
    list_all2 (\<lambda>(ts, pkt) (ts', pkt'). pkt' = pkt \<and> 2000000 * \<bar>ts' - ts\<bar> \<le> 1) pkts ps"
proof -
  obtain r where r: "\<And>rest. snoop_reader_init (f @ rest) = Inr (r\<lparr>sn_file := rest\<rparr>)" "length f = 16"
    "sn_fh r = obj_make [VInt SNOOP_MAGIC, VInt SNOOP_VERSION, VInt SDL_ETHER] []"
    using snoop_file_hdr_read [OF assms(1)]
    by (auto intro: that [of "\<lparr>sn_file = [], sn_fh = obj_make [VInt SNOOP_MAGIC, VInt SNOOP_VERSION, VInt SDL_ETHER] [],
          sn_dloff = 14\<rparr>"])
  obtain b where b: "f' = f @ b" "snoop_written pkts b"
    using snoop_writepkts_written [OF assms(2)] by blast
  have "snoop_readpkts (r\<lparr>sn_file := b\<rparr>) = Inr (map (\<lambda>(ts, pkt). (pcap_time 1000000 ts, pkt)) pkts)"
    using snoop_read_written [OF b(2), of "r\<lparr>sn_file := b\<rparr>"] by (simp add: snoop_time_pcap)
  moreover have "snoop_datalink (r\<lparr>sn_file := b\<rparr>) = SDL_ETHER"
    by (simp add: snoop_datalink_def r(3) obj_make_def snoop_FileHdr_hdr_def get_int_Cons)
  moreover have "length f' mod 4 = 0"
    using snoop_written_aligned [OF b(2)] r(2) by (simp add: b(1)) presburger
  ultimately show ?thesis
    using r(1) b(1) pcap_times_close [OF assms(3), of 1000000] by auto
qed

text \<open>
  The writer accepts every link type that fits 32 bits, but the reader opens only files of
  Ethernet packets: every other file is a \<open>KeyError\<close>.
\<close>

theorem snoop_ether_only:
  assumes "snoop_writer_init [] linktype = Inr f" "snoop_writepkts f pkts = (f', None)"
  shows "is_ok (snoop_reader_init f') = (linktype = SDL_ETHER)"
proof -
  obtain b where b: "f' = f @ b" using snoop_writepkts_written [OF assms(2)] by blast
  show ?thesis using snoop_file_hdr_read [OF assms(1)] unfolding b by (cases "linktype = SDL_ETHER") auto
qed

theorem snoop_roundtrip_witness:
  "\<exists>f f' r ps. snoop_writer_init [] SDL_ETHER = Inr f \<and>
     snoop_writepkts f [(7, [1, 2, 3]), (9, [])] = (f', None) \<and>
     snoop_reader_init f' = Inr r \<and> snoop_readpkts r = Inr ps \<and> map snd ps = [[1, 2, 3], []]"
proof -
  obtain f where f: "snoop_writer_init [] SDL_ETHER = Inr f"
    by (simp add: snoop_writer_init_def packet_bytes_def packet_pack_hdr_def packet_kwargs_def
        snoop_FileHdr_hdr_def SDL_ETHER_def)
  have p: "snoop_pad_len (length [1, 2, 3 :: byte]) = 1" "snoop_pad_len 0 = 0" by (simp_all add: snoop_pad_len_def)
  have v: "snoop_pkt_vals [1, 2, 3] 7 = map VInt [3, 3, 28, 0, 7, 0]" "snoop_pkt_vals [] 9 = map VInt [0, 0, 24, 0, 9, 0]"
    using p by (simp_all add: trunc_def frac1_def round_even_def snoop_pkt_vals_def)
  obtain f' where f': "snoop_writepkts f [(7, [1, 2, 3]), (9, [])] = (f', None)"
    by (simp add: v snoop_PktHdr_hdr_def)
  show ?thesis using snoop_roundtrip [OF f f'] f f' by (auto simp: list_all2_Cons1)
qed

theorem snoop_ether_only_witness:
  "\<exists>f f'. snoop_writer_init [] 8 = Inr f \<and> snoop_writepkts f [] = (f', None) \<and> \<not> is_ok (snoop_reader_init f')"
proof -
  obtain f where f: "snoop_writer_init [] 8 = Inr f"
    by (simp add: snoop_writer_init_def packet_bytes_def packet_pack_hdr_def packet_kwargs_def snoop_FileHdr_hdr_def)
  show ?thesis using snoop_ether_only [OF f, of "[]" f] f by (simp add: SDL_ETHER_def)
qed

end
