(* ===== verification/Media.thy ===== *)
theory Media
  imports Tables Crc32c
begin

text \<open>
  RTP, \<^verbatim>\<open>dpkt/rtp.py\<close>, SCTP, \<^verbatim>\<open>dpkt/sctp.py\<close>, and STUN, \<^verbatim>\<open>dpkt/stun.py\<close>: the media header with its
  list of contributing sources, the chunked packet with its CRC-32c, and the message with its padded
  attributes.
\<close>

section \<open>RTP\<close>

definition rtp_hdr :: hdr where
  "rtp_hdr = [(''_type'', fH, VInt 0x8000), (''seq'', fH, VInt 0), (''ts'', fI, VInt 0), (''ssrc'', fI, VInt 0)]"

text \<open>The six properties over \<^verbatim>\<open>_type\<close>, each a mask and a shift.\<close>

datatype rtp_field = RVersion | RPad | RExt | RCc | RMarker | RPt

fun rtp_field_mask :: "rtp_field \<Rightarrow> int" where
  "rtp_field_mask RVersion = 0xC000"
| "rtp_field_mask RPad = 0x2000"
| "rtp_field_mask RExt = 0x1000"
| "rtp_field_mask RCc = 0x0F00"
| "rtp_field_mask RMarker = 0x0080"
| "rtp_field_mask RPt = 0x007F"

fun rtp_field_shift :: "rtp_field \<Rightarrow> nat" where
  "rtp_field_shift RVersion = 14"
| "rtp_field_shift RPad = 13"
| "rtp_field_shift RExt = 12"
| "rtp_field_shift RCc = 8"
| "rtp_field_shift RMarker = 7"
| "rtp_field_shift RPt = 0"

definition rtp_get :: "rtp_field \<Rightarrow> int \<Rightarrow> int" where
  "rtp_get p t = drop_bit (rtp_field_shift p) (t AND rtp_field_mask p)"

definition rtp_set :: "rtp_field \<Rightarrow> int \<Rightarrow> int \<Rightarrow> int" where
  "rtp_set p v t = push_bit (rtp_field_shift p) v OR (t AND NOT (rtp_field_mask p))"

record rtp =
  rtp_vals :: "pval list"
  rtp_csrc :: bytes
  rtp_data :: bytes

definition rtp_type :: "rtp \<Rightarrow> int" where
  "rtp_type r = get_int rtp_hdr ''_type'' (rtp_vals r)"

definition rtp_set_field :: "rtp_field \<Rightarrow> int \<Rightarrow> rtp \<Rightarrow> rtp" where
  "rtp_set_field p v r = r\<lparr>rtp_vals := set_val rtp_hdr ''_type'' (VInt (rtp_set p v (rtp_type r))) (rtp_vals r)\<rparr>"

definition rtp_unpack :: "bytes \<Rightarrow> rtp result" where
  "rtp_unpack buf =
     rbind (class_unpack BE rtp_hdr buf) (\<lambda>p.
       let cc = rtp_get RCc (get_int rtp_hdr ''_type'' (obj_vals p));
           n = hdr_len rtp_hdr + nat (cc * 4)
       in Inr \<lparr>rtp_vals = obj_vals p, rtp_csrc = take (nat (cc * 4)) (drop (hdr_len rtp_hdr) buf),
               rtp_data = drop n buf\<rparr>)"

definition rtp_init :: "bytes \<Rightarrow> rtp result" where
  "rtp_init = packet_init (hdr_len rtp_hdr) rtp_unpack"

definition rtp_bytes :: "rtp \<Rightarrow> bytes result" where
  "rtp_bytes r = rbind (packet_pack_hdr BE rtp_hdr (rtp_vals r)) (\<lambda>h. Inr (h @ rtp_csrc r @ rtp_data r))"

definition rtp_len :: "rtp \<Rightarrow> nat" where
  "rtp_len r = hdr_len rtp_hdr + length (rtp_csrc r) + length (rtp_data r)"

lemma rtp_table [simp]: "table_ok rtp_hdr" "hdr_len rtp_hdr = 12"
  by (simp_all add: rtp_hdr_def table_ok_def hdr_fields_def fmt_ok_def)

text \<open>A field's mask is the bits of its width above its shift, and the six widths fill sixteen bits.\<close>

fun rtp_width :: "rtp_field \<Rightarrow> nat" where
  "rtp_width RVersion = 2"
| "rtp_width RPad = 1"
| "rtp_width RExt = 1"
| "rtp_width RCc = 4"
| "rtp_width RMarker = 1"
| "rtp_width RPt = 7"

lemma rtp_mask_eq: "rtp_field_mask p = push_bit (rtp_field_shift p) (mask (rtp_width p))"
  by (cases p) (simp_all add: mask_eq_exp_minus_1)

lemma rtp_disjoint:
  "p \<noteq> q \<Longrightarrow> rtp_field_shift p + rtp_width p \<le> rtp_field_shift q \<or> rtp_field_shift q + rtp_width q \<le> rtp_field_shift p"
  by (cases p; cases q) simp_all

lemma rtp_get_bits: "rtp_get p t = take_bit (rtp_width p) (drop_bit (rtp_field_shift p) t)"
  by (rule bit_eqI) (auto simp: rtp_get_def rtp_mask_eq bit_simps)

lemma rtp_get_range: "0 \<le> rtp_get p t" "rtp_get p t < 2 ^ rtp_width p"
  by (simp_all add: rtp_get_bits)

lemma rtp_get_same: "rtp_get p (rtp_set p v t) = take_bit (rtp_width p) v"
  by (rule bit_eqI) (auto simp: rtp_get_bits rtp_set_def rtp_mask_eq bit_simps)

lemma rtp_get_other:
  assumes "p \<noteq> q" "0 \<le> v" "v < 2 ^ rtp_width p"
  shows "rtp_get q (rtp_set p v t) = rtp_get q t"
proof -
  have b: "i < rtp_width p" if "bit v i" for i
    using that take_bit_int_eq_self [OF assms(2,3)] by (metis bit_take_bit_iff)
  show ?thesis
    using rtp_disjoint [OF assms(1)]
    by (intro bit_eqI) (auto simp: rtp_get_bits rtp_set_def rtp_mask_eq bit_simps dest: b)
qed

section \<open>SCTP\<close>

definition sctp_DATA :: int where "sctp_DATA = 0"

definition sctp_hdr :: hdr where
  "sctp_hdr = [(''sport'', fH, VInt 0), (''dport'', fH, VInt 0), (''vtag'', fI, VInt 0), (''sum'', fI, VInt 0)]"

definition sctp_chunk_hdr :: hdr where
  "sctp_chunk_hdr = [(''type'', fB, VInt 1), (''flags'', fB, VInt 0), (''len'', fH, VInt 0)]"

record sctp_chunk =
  sk_type :: int
  sk_flags :: int
  sk_len :: int
  sk_data :: bytes
  sk_padding :: bytes

text \<open>\<^verbatim>\<open>self.data[:self.len - 4]\<close> counts from the end for a length below four.\<close>

definition sctp_chunk_unpack :: "bytes \<Rightarrow> sctp_chunk result" where
  "sctp_chunk_unpack buf =
     rbind (class_unpack BE sctp_chunk_hdr buf) (\<lambda>p.
       let t = get_int sctp_chunk_hdr ''type'' (obj_vals p);
           l = get_int sctp_chunk_hdr ''len'' (obj_vals p);
           d = py_upto (obj_data p) (l - 4)
       in Inr \<lparr>sk_type = t, sk_flags = get_int sctp_chunk_hdr ''flags'' (obj_vals p), sk_len = l, sk_data = d,
               sk_padding =
                 (if t = sctp_DATA \<and> l mod 4 \<noteq> 0
                  then take (nat (4 - l mod 4)) (drop (4 + length d) buf) else [])\<rparr>)"

definition sctp_chunk_init :: "bytes \<Rightarrow> sctp_chunk result" where
  "sctp_chunk_init = packet_init 4 sctp_chunk_unpack"

definition sctp_chunk_len :: "sctp_chunk \<Rightarrow> nat" where
  "sctp_chunk_len c = nat (sk_len c) + length (sk_padding c)"

definition sctp_chunk_bytes :: "sctp_chunk \<Rightarrow> bytes result" where
  "sctp_chunk_bytes c =
     rbind (packet_pack_hdr BE sctp_chunk_hdr [VInt (sk_type c), VInt (sk_flags c), VInt (sk_len c)]) (\<lambda>h.
       Inr (h @ sk_data c @ sk_padding c))"

text \<open>The loop: a chunk of length zero is kept and ends it.\<close>

function sctp_chunks :: "bytes \<Rightarrow> sctp_chunk list result" where
  "sctp_chunks buf =
     (if buf = [] then Inr []
      else rbind (sctp_chunk_init buf) (\<lambda>c.
        if sctp_chunk_len c = 0 then Inr [c]
        else rbind (sctp_chunks (drop (sctp_chunk_len c) buf)) (\<lambda>cs. Inr (c # cs))))"
  by pat_completeness auto
termination by (relation "measure length") auto

declare sctp_chunks.simps [simp del]

record sctp =
  sctp_vals :: "pval list"
  sctp_list :: "sctp_chunk list"

definition sctp_unpack :: "bytes \<Rightarrow> sctp result" where
  "sctp_unpack buf =
     rbind (class_unpack BE sctp_hdr buf) (\<lambda>p. rbind (sctp_chunks (obj_data p)) (\<lambda>cs.
       Inr \<lparr>sctp_vals = obj_vals p, sctp_list = cs\<rparr>))"

definition sctp_init :: "bytes \<Rightarrow> sctp result" where
  "sctp_init = packet_init (hdr_len sctp_hdr) sctp_unpack"

definition sctp_len :: "sctp \<Rightarrow> nat" where
  "sctp_len s = hdr_len sctp_hdr + sum_list (map sctp_chunk_len (sctp_list s))"

text \<open>\<^verbatim>\<open>__bytes__\<close> fills in a zero checksum: the object is returned with the bytes.\<close>

definition sctp_bytes :: "sctp \<Rightarrow> (bytes \<times> sctp) result" where
  "sctp_bytes s =
     rbind (map_result sctp_chunk_bytes (sctp_list s)) (\<lambda>l.
     rbind (if get_int sctp_hdr ''sum'' (sctp_vals s) = 0
            then rbind (packet_pack_hdr BE sctp_hdr (sctp_vals s)) (\<lambda>h.
                   let crc = foldl crc32c_add (crc32c_add 0xffffffff h) l
                   in Inr (s\<lparr>sctp_vals := set_val sctp_hdr ''sum'' (VInt (uint (crc32c_done crc))) (sctp_vals s)\<rparr>))
            else Inr s) (\<lambda>s'.
     rbind (packet_pack_hdr BE sctp_hdr (sctp_vals s')) (\<lambda>h. Inr (h @ concat l, s'))))"

section \<open>STUN\<close>

definition stun_tlv :: "bytes \<Rightarrow> (int \<times> int \<times> bytes \<times> bytes) result" where
  "stun_tlv buf =
     (if length buf < 4 then Inl StructError
      else
        let t = bytes_int BE (take 2 buf); l = bytes_int BE (take 2 (drop 2 buf));
            v = take (nat l) (drop 4 buf);
            pad = (4 - l mod 4) mod 4
        in Inr (t, l, v, drop (nat (4 + l + pad)) buf))"

definition stun_round :: "bytes \<Rightarrow> (int \<times> bytes) round" where
  "stun_round buf =
     (if buf = [] then Stop
      else case stun_tlv buf of Inl e \<Rightarrow> Fail e | Inr (t, l, v, rest) \<Rightarrow> Item (t, v) rest)"

definition stun_parse_attrs :: "bytes \<Rightarrow> (int \<times> bytes) list result" where
  "stun_parse_attrs = parse_loop stun_round"

section \<open>RTP round trips\<close>

lemma rtp_unpacked:
  assumes "rtp_unpack buf = Inr r"
  shows "rtp_bytes r = Inr buf \<and> length buf = rtp_len r"
proof -
  obtain p where p: "class_unpack BE rtp_hdr buf = Inr p"
    using assms by (auto simp: rtp_unpack_def rbind_Inr_iff)
  have b: "packet_pack_hdr BE rtp_hdr (obj_vals p) = Inr (take 12 buf)"
    using class_pack_back [OF rtp_table(1) p] by simp
  have l: "12 \<le> length buf" using class_unpack_data [OF p] by simp
  let ?n = "nat (rtp_get RCc (get_int rtp_hdr ''_type'' (obj_vals p)) * 4)"
  have r: "r = \<lparr>rtp_vals = obj_vals p, rtp_csrc = take ?n (drop 12 buf), rtp_data = drop (12 + ?n) buf\<rparr>"
    using assms p by (simp add: rtp_unpack_def Let_def)
  have "take 12 buf @ take ?n (drop 12 buf) @ drop (12 + ?n) buf = buf" by simp
  then show ?thesis using b l by (simp add: r rtp_bytes_def rtp_len_def)
qed

lemma rtp_packed:
  assumes "exact_all (hdr_fmt rtp_hdr) (rtp_vals r)" "int (length (rtp_csrc r)) = 4 * rtp_get RCc (rtp_type r)"
    "rtp_bytes r = Inr b"
  shows "rtp_init b = Inr r"
proof -
  obtain h where h: "packet_pack_hdr BE rtp_hdr (rtp_vals r) = Inr h" "b = h @ rtp_csrc r @ rtp_data r"
    using assms(3) by (auto simp: rtp_bytes_def rbind_Inr_iff)
  have l: "length h = 12" "class_unpack BE rtp_hdr b = Inr (obj_make (rtp_vals r) (rtp_csrc r @ rtp_data r))"
    using class_pack_read [OF rtp_table(1) assms(1) h(1)] h(2) by auto
  have n: "nat (rtp_get RCc (rtp_type r) * 4) = length (rtp_csrc r)" using assms(2) by simp
  show ?thesis
    using l n h(2) by (simp add: rtp_init_def packet_init_def rtp_unpack_def obj_make_def Let_def flip: rtp_type_def)
qed

section \<open>SCTP round trips\<close>

definition sctp_chunk_ok :: "sctp_chunk \<Rightarrow> bool" where
  "sctp_chunk_ok c \<longleftrightarrow> sk_len c = int (4 + length (sk_data c)) \<and>
     int (length (sk_padding c)) = (if sk_type c = sctp_DATA \<and> sk_len c mod 4 \<noteq> 0 then 4 - sk_len c mod 4 else 0)"

lemma sctp_tables [simp]: "table_ok sctp_hdr" "table_ok sctp_chunk_hdr" "hdr_len sctp_hdr = 12" "hdr_len sctp_chunk_hdr = 4"
  by (simp_all add: sctp_hdr_def sctp_chunk_hdr_def table_ok_def hdr_fields_def fmt_ok_def)

lemma sctp_chunk_read:
  assumes "sctp_chunk_ok c" "sctp_chunk_bytes c = Inr b"
  shows "sctp_chunk_init (b @ rest) = Inr c \<and> length b = sctp_chunk_len c"
proof -
  let ?vs = "[VInt (sk_type c), VInt (sk_flags c), VInt (sk_len c)]"
  obtain h where h: "packet_pack_hdr BE sctp_chunk_hdr ?vs = Inr h" "b = h @ sk_data c @ sk_padding c"
    using assms(2) by (auto simp: sctp_chunk_bytes_def rbind_Inr_iff)
  have "struct_pack BE (hdr_fmt sctp_chunk_hdr) ?vs = Inr h"
    using h(1) by (subst (asm) pack_hdr_flat) simp_all
  then have e: "exact_all (hdr_fmt sctp_chunk_hdr) ?vs"
    by (auto simp: sctp_chunk_hdr_def result_simps split: if_splits)
  have u: "length h = 4" "class_unpack BE sctp_chunk_hdr (b @ rest) = Inr (obj_make ?vs (sk_data c @ sk_padding c @ rest))"
    using class_pack_read [OF sctp_tables(2) e h(1)] h(2) by auto
  have g: "get_int sctp_chunk_hdr ''type'' ?vs = sk_type c" "get_int sctp_chunk_hdr ''flags'' ?vs = sk_flags c"
    "get_int sctp_chunk_hdr ''len'' ?vs = sk_len c"
    by (simp_all add: sctp_chunk_hdr_def get_int_Cons)
  have d: "py_upto (sk_data c @ sk_padding c @ rest) (sk_len c - 4) = sk_data c"
    using assms(1) by (simp add: sctp_chunk_ok_def py_upto_nonneg)
  have p: "take (nat (4 - sk_len c mod 4)) (sk_padding c @ rest) = sk_padding c"
    if "sk_type c = sctp_DATA" "sk_len c mod 4 \<noteq> 0"
  proof -
    have "int (length (sk_padding c)) = 4 - sk_len c mod 4" using assms(1) that by (simp add: sctp_chunk_ok_def)
    then have "nat (4 - sk_len c mod 4) = length (sk_padding c)" by (metis nat_int)
    then show ?thesis by simp
  qed
  have q: "sk_padding c = []" if "\<not> (sk_type c = sctp_DATA \<and> sk_len c mod 4 \<noteq> 0)"
    using assms(1) that by (simp add: sctp_chunk_ok_def)
  have "sctp_chunk_unpack (b @ rest) = Inr c"
    using u g d p q h(2) by (cases c) (auto simp: sctp_chunk_unpack_def obj_make_def Let_def)
  moreover have "length b = sctp_chunk_len c"
    using u(1) h(2) assms(1) by (simp add: sctp_chunk_len_def sctp_chunk_ok_def)
  ultimately show ?thesis by (simp add: sctp_chunk_init_def packet_init_def)
qed

lemma sctp_chunks_read:
  "list_all sctp_chunk_ok cs \<Longrightarrow> map_result sctp_chunk_bytes cs = Inr l \<Longrightarrow> sctp_chunks (concat l) = Inr cs"
proof (induction cs arbitrary: l)
  case Nil
  then show ?case by (simp add: sctp_chunks.simps)
next
  case (Cons c cs)
  obtain b l' where b: "sctp_chunk_bytes c = Inr b" "map_result sctp_chunk_bytes cs = Inr l'" "l = b # l'"
    using Cons.prems(2) by (auto simp: result_simps)
  have c: "sctp_chunk_init (b @ concat l') = Inr c" "length b = sctp_chunk_len c" "sctp_chunk_len c \<noteq> 0"
    using sctp_chunk_read [OF _ b(1)] Cons.prems(1) by (auto simp: sctp_chunk_len_def sctp_chunk_ok_def)
  then have "b @ concat l' \<noteq> []" by auto
  then show ?case
    using c b(3) Cons.IH [OF _ b(2)] Cons.prems(1) by (subst sctp_chunks.simps) simp
qed

lemma sctp_chunks_len:
  "list_all sctp_chunk_ok cs \<Longrightarrow> map_result sctp_chunk_bytes cs = Inr l \<Longrightarrow>
   length (concat l) = sum_list (map sctp_chunk_len cs)"
proof (induction cs arbitrary: l)
  case (Cons c cs)
  then show ?case using sctp_chunk_read [of c _ "[]"] by (auto simp: result_simps)
qed simp

lemma crc_foldl: "foldl crc32c_add s l = crc32c_add s (concat l)"
  by (induction l arbitrary: s) (simp_all add: crc32c_add_append)

section \<open>STUN attributes\<close>

definition stun_attr :: "int \<times> bytes \<Rightarrow> bytes result" where
  "stun_attr a =
     rbind (struct_pack BE [fH, fH] [VInt (fst a), VInt (int (length (snd a)))]) (\<lambda>h.
       Inr (h @ snd a @ zeros (nat ((4 - int (length (snd a)) mod 4) mod 4))))"

interpretation stun_attrs: item_round stun_round stun_attr "\<lambda>a. True"
proof
  fix buf x rest
  assume "stun_round buf = Item x rest"
  then show "length rest < length buf"
    by (auto simp: stun_round_def stun_tlv_def Let_def split: if_splits) (simp add: nat_add_distrib)
next
  fix a b rest
  assume "stun_attr a = Inr b"
  moreover obtain t v where a: "a = (t, v)" by (cases a)
  ultimately have b: "b = int_bytes BE 2 t @ int_bytes BE 2 (int (length v)) @ v @
      zeros (nat ((4 - int (length v) mod 4) mod 4))" "0 \<le> t" "t < 65536" "int (length v) < 65536"
    by (auto simp: stun_attr_def result_simps split: if_splits)
  have "nat (4 + int (length v) + (4 - int (length v) mod 4) mod 4) = 4 + length v + nat ((4 - int (length v) mod 4) mod 4)"
    by (simp add: nat_add_distrib)
  then have "stun_tlv (b @ rest) = Inr (t, int (length v), v, rest)"
    using b by (simp add: stun_tlv_def bytes_int_int_bytes)
  moreover have "b \<noteq> []" using b(1) by (metis append_is_Nil_conv length_int_bytes list.size(3) zero_neq_numeral)
  ultimately show "stun_round (b @ rest) = Item a rest" by (simp add: stun_round_def a)
qed (simp add: stun_round_def)

section \<open>Properties\<close>

text \<open>
  An RTP packet of any kind packs to the bytes it was parsed from, and its length is that of
  the bytes; and a packet with as many sources as its count says is read back from what it packs to.
\<close>

theorem rtp_roundtrip:
  assumes "exact_all (hdr_fmt rtp_hdr) (rtp_vals r)" "int (length (rtp_csrc r)) = 4 * rtp_get RCc (rtp_type r)"
    and "rtp_bytes r = Inr b" "rtp_init buf = Inr q"
  shows "rtp_init b = Inr r \<and> rtp_bytes q = Inr buf \<and> length buf = rtp_len q"
  using rtp_packed [OF assms(1-3)] rtp_unpacked [of buf q] assms(4) by (simp add: rtp_init_def packet_init_Inr)

text \<open>
  The setters of RTP change their own field only: the field reads as the value that was
  set, modulo its width, and a value within the width changes no other field.
\<close>

theorem rtp_fields_independent:
  "rtp_get p (rtp_set p v t) = v mod 2 ^ rtp_width p \<and>
   (if p \<noteq> q \<and> 0 \<le> v \<and> v < 2 ^ rtp_width p then rtp_get q (rtp_set p v t) = rtp_get q t else True)"
  by (simp add: rtp_get_same rtp_get_other take_bit_eq_mod)


text \<open>STUN attributes, each padded to four bytes, are read back from their bytes.\<close>

theorem stun_attrs_roundtrip:
  assumes "concat_result stun_attr xs = Inr b"
  shows "stun_parse_attrs b = Inr xs"
  unfolding stun_parse_attrs_def by (rule stun_attrs.loop_reads [OF _ assms]) (simp add: list_all_iff)

theorem rtp_roundtrip_witness:
  "\<exists>b. rtp_bytes \<lparr>rtp_vals = [VInt 0x8108, VInt 1, VInt 2, VInt 3], rtp_csrc = [1, 2, 3, 4], rtp_data = [9]\<rparr> = Inr b \<and>
     rtp_init b = Inr \<lparr>rtp_vals = [VInt 0x8108, VInt 1, VInt 2, VInt 3], rtp_csrc = [1, 2, 3, 4], rtp_data = [9]\<rparr>"
proof -
  let ?r = "\<lparr>rtp_vals = [VInt 0x8108, VInt 1, VInt 2, VInt 3], rtp_csrc = [1, 2, 3, 4], rtp_data = [9 :: byte]\<rparr>"
  have e: "exact_all (hdr_fmt rtp_hdr) (rtp_vals ?r)" by (simp add: rtp_hdr_def exact_U)
  have c: "int (length (rtp_csrc ?r)) = 4 * rtp_get RCc (rtp_type ?r)"
    by (simp add: rtp_type_def rtp_hdr_def get_int_Cons rtp_get_def)
  obtain b where b: "rtp_bytes ?r = Inr b"
    using packet_pack_hdr_exact [OF e, of BE] by (auto simp: rtp_bytes_def)
  have q: "rtp_init b = Inr ?r" by (rule rtp_packed [OF e c b])
  show ?thesis using rtp_roundtrip [OF e c b q] b by blast
qed


theorem stun_attrs_roundtrip_witness:
  "stun_parse_attrs (int_bytes BE 2 1 @ int_bytes BE 2 3 @ [7, 8, 9] @ [0]) = Inr [(1, [7, 8, 9])]"
proof -
  have "concat_result stun_attr [(1, [7, 8, 9])] = Inr (int_bytes BE 2 1 @ int_bytes BE 2 3 @ [7, 8, 9] @ [0])"
    by (simp add: stun_attr_def zeros_def)
  then show ?thesis by (rule stun_attrs_roundtrip)
qed

end
