(* ===== verification/Aaa.thy ===== *)
theory Aaa
  imports Tables
begin

text \<open>
  RADIUS, \<^verbatim>\<open>dpkt/radius.py\<close>, and Diameter, \<^verbatim>\<open>dpkt/diameter.py\<close>: a packet with attributes of one
  length byte, and a packet of attribute-value pairs with 24-bit lengths.
\<close>

section \<open>RADIUS\<close>

definition radius_hdr :: hdr where
  "radius_hdr = [(''code'', fB, VInt 0), (''id'', fB, VInt 0), (''len'', fH, VInt 4), (''auth'', Str 16, VBytes [])]"

text \<open>One round of \<^verbatim>\<open>parse_attrs\<close>: a length below two ends the loop, a lone type byte is an error.\<close>

definition radius_round :: "bytes \<Rightarrow> (int \<times> bytes) round" where
  "radius_round buf =
     (if buf = [] then Stop
      else case rbind (byte_at buf 0) (\<lambda>t. rbind (byte_at buf 1) (\<lambda>l. Inr (t, l))) of
             Inl e \<Rightarrow> Fail e
           | Inr (t, l) \<Rightarrow> if l < 2 then Stop else Item (t, take (nat l - 2) (drop 2 buf)) (drop (nat l) buf))"

definition radius_parse_attrs :: "bytes \<Rightarrow> (int \<times> bytes) list result" where
  "radius_parse_attrs = parse_loop radius_round"

record radius =
  rad_vals :: "pval list"
  rad_attrs :: "(int \<times> bytes) list"
  rad_data :: bytes

definition radius_unpack :: "bytes \<Rightarrow> radius result" where
  "radius_unpack buf =
     rbind (class_unpack BE radius_hdr buf) (\<lambda>p. rbind (radius_parse_attrs (obj_data p)) (\<lambda>as.
       Inr \<lparr>rad_vals = obj_vals p, rad_attrs = as, rad_data = []\<rparr>))"

definition radius_init :: "bytes \<Rightarrow> radius result" where
  "radius_init = packet_init (hdr_len radius_hdr) radius_unpack"

text \<open>RADIUS inherits \<^verbatim>\<open>__bytes__\<close> and \<^verbatim>\<open>__len__\<close>.\<close>

definition radius_bytes :: "radius \<Rightarrow> bytes result" where
  "radius_bytes r = packet_bytes BE radius_hdr (rad_vals r) (rad_data r)"

definition radius_len :: "radius \<Rightarrow> nat" where
  "radius_len r = packet_len radius_hdr (rad_data r)"

text \<open>An attribute on the wire.\<close>

definition radius_attr :: "int \<times> bytes \<Rightarrow> bytes result" where
  "radius_attr a = rbind (concat_result py_byte [fst a, int (length (snd a)) + 2]) (\<lambda>h. Inr (h @ snd a))"

lemma radius_table [simp]: "table_ok radius_hdr" "hdr_len radius_hdr = 20"
  by (simp_all add: radius_hdr_def table_ok_def hdr_fields_def fmt_ok_def)

interpretation radius_attrs: item_round radius_round radius_attr "\<lambda>a. True"
proof
  fix buf x rest
  assume "radius_round buf = Item x rest"
  then show "length rest < length buf"
    by (cases buf) (auto simp: radius_round_def split: sum.splits prod.splits if_splits)
next
  fix a b rest
  assume "radius_attr a = Inr b"
  moreover obtain t v where a: "a = (t, v)" by (cases a)
  ultimately have b: "b = word_of_int t # word_of_int (int (length v) + 2) # v" "0 \<le> t" "t < 256" "int (length v) + 2 < 256"
    by (auto simp: radius_attr_def result_simps)
  define w :: byte where "w = word_of_int (int (length v) + 2)"
  have w: "ord w = int (length v) + 2" unfolding w_def by (rule ord_word_range) (use b(4) in simp_all)
  have n: "nat (int (length v) + 2) = length v + 2" by simp
  show "radius_round (b @ rest) = Item a rest"
    unfolding b(1) w_def [symmetric] using b(2-4) w n by (simp add: radius_round_def a ord_word_range)
qed (simp add: radius_round_def)

section \<open>Diameter\<close>

text \<open>
  A 24-bit field is an integer in a parsed object; \<^verbatim>\<open>pack_hdr\<close> overwrites it with its three bytes.
  Shifting those bytes is a \<open>TypeError\<close>.
\<close>

datatype wide = WInt int | WBytes bytes

definition u24 :: "bytes \<Rightarrow> int" where
  "u24 b = (push_bit 16 (ord (b ! 0)) OR push_bit 8 (ord (b ! 1))) OR ord (b ! 2)"

definition wide_pack :: "wide \<Rightarrow> bytes result" where
  "wide_pack w =
     (case w of
        WBytes b \<Rightarrow> Inl TypeError
      | WInt v \<Rightarrow> struct_pack BE [fB, fB, fB]
          [VInt (drop_bit 16 v AND 0xff), VInt (drop_bit 8 v AND 0xff), VInt (v AND 0xff)])"

text \<open>The flag properties: a bit of \<^verbatim>\<open>flags\<close>.\<close>

definition bit_flag_get :: "nat \<Rightarrow> int \<Rightarrow> int" where
  "bit_flag_get n v = drop_bit n v AND 1"

definition bit_flag_set :: "nat \<Rightarrow> int \<Rightarrow> int \<Rightarrow> int" where
  "bit_flag_set n r v = (v AND NOT (push_bit n 1)) OR push_bit n (r AND 1)"

definition request_flag :: nat where "request_flag = 7"
definition proxiable_flag :: nat where "proxiable_flag = 6"
definition error_flag :: nat where "error_flag = 5"
definition retransmit_flag :: nat where "retransmit_flag = 4"
definition vendor_flag :: nat where "vendor_flag = 7"
definition mandatory_flag :: nat where "mandatory_flag = 6"
definition protected_flag :: nat where "protected_flag = 5"

definition dia_avp_hdr :: hdr where
  "dia_avp_hdr = [(''code'', fI, VInt 0), (''flags'', fB, VInt 0), (''len'', Str 3, VInt 0)]"

record dia_avp =
  av_code :: int
  av_flags :: int
  av_len :: wide
  av_vendor :: "int option"
  av_data :: bytes

definition dia_avp_unpack :: "bytes \<Rightarrow> dia_avp result" where
  "dia_avp_unpack buf =
     rbind (class_unpack BE dia_avp_hdr buf) (\<lambda>p.
       let fs = get_int dia_avp_hdr ''flags'' (obj_vals p);
           l = u24 (bval (obj_vals p ! 2));
           a = \<lparr>av_code = get_int dia_avp_hdr ''code'' (obj_vals p), av_flags = fs, av_len = WInt l, av_vendor = None,
                av_data = obj_data p\<rparr>
       in if bit_flag_get vendor_flag fs \<noteq> 0
          then rbind (unpack_uint BE 4 (take 4 (obj_data p))) (\<lambda>v.
                 Inr (a\<lparr>av_vendor := Some v, av_data := py_slice (obj_data p) 4 (l - 8)\<rparr>))
          else Inr (a\<lparr>av_data := py_upto (obj_data p) (l - 8)\<rparr>))"

definition dia_avp_init :: "bytes \<Rightarrow> dia_avp result" where
  "dia_avp_init = packet_init 8 dia_avp_unpack"

definition dia_avp_size :: "dia_avp \<Rightarrow> nat" where
  "dia_avp_size a = 8 + length (av_data a) + (if bit_flag_get vendor_flag (av_flags a) \<noteq> 0 then 4 else 0)"

text \<open>\<^verbatim>\<open>AVP.pack_hdr\<close> and \<^verbatim>\<open>__bytes__\<close>, with the object they leave.\<close>

definition dia_avp_pack_hdr :: "dia_avp \<Rightarrow> (bytes \<times> dia_avp) result" where
  "dia_avp_pack_hdr a =
     rbind (wide_pack (av_len a)) (\<lambda>l.
     rbind (packet_pack_hdr BE dia_avp_hdr [VInt (av_code a), VInt (av_flags a), VBytes l]) (\<lambda>h.
     rbind (if bit_flag_get vendor_flag (av_flags a) \<noteq> 0
            then (case av_vendor a of None \<Rightarrow> Inl AttributeError | Some v \<Rightarrow> pack_uint BE 4 v)
            else Inr []) (\<lambda>v.
       Inr (h @ v, a\<lparr>av_len := WBytes l\<rparr>))))"

definition dia_avp_bytes :: "dia_avp \<Rightarrow> (bytes \<times> dia_avp) result" where
  "dia_avp_bytes a = rbind (dia_avp_pack_hdr a) (\<lambda>(h, a'). Inr (h @ av_data a, a'))"

definition diameter_hdr :: hdr where
  "diameter_hdr =
     [(''v'', fB, VInt 1), (''len'', Str 3, VInt 0), (''flags'', fB, VInt 0), (''cmd'', Str 3, VInt 0),
      (''app_id'', fI, VInt 0), (''hop_id'', fI, VInt 0), (''end_id'', fI, VInt 0)]"

record diameter =
  dm_v :: int
  dm_len :: wide
  dm_flags :: int
  dm_cmd :: wide
  dm_app_id :: int
  dm_hop_id :: int
  dm_end_id :: int
  dm_avps :: "dia_avp list"

definition diameter_unpack :: "bytes \<Rightarrow> diameter result" where
  "diameter_unpack buf =
     rbind (class_unpack BE diameter_hdr buf) (\<lambda>p.
       let get = (\<lambda>n. get_int diameter_hdr n (obj_vals p));
           cmd = u24 (bval (obj_vals p ! 3));
           l = u24 (bval (obj_vals p ! 1))
       in rbind (parse_loop (item_step dia_avp_init dia_avp_size) (py_upto (obj_data p) (l - 20))) (\<lambda>as.
            Inr \<lparr>dm_v = get ''v'', dm_len = WInt l, dm_flags = get ''flags'', dm_cmd = WInt cmd,
                 dm_app_id = get ''app_id'', dm_hop_id = get ''hop_id'', dm_end_id = get ''end_id'', dm_avps = as\<rparr>))"

definition diameter_init :: "bytes \<Rightarrow> diameter result" where
  "diameter_init = packet_init (hdr_len diameter_hdr) diameter_unpack"

definition diameter_pack_hdr :: "diameter \<Rightarrow> (bytes \<times> diameter) result" where
  "diameter_pack_hdr d =
     rbind (wide_pack (dm_len d)) (\<lambda>l. rbind (wide_pack (dm_cmd d)) (\<lambda>c.
     rbind (packet_pack_hdr BE diameter_hdr
       [VInt (dm_v d), VBytes l, VInt (dm_flags d), VBytes c, VInt (dm_app_id d), VInt (dm_hop_id d), VInt (dm_end_id d)])
       (\<lambda>h. Inr (h, d\<lparr>dm_len := WBytes l, dm_cmd := WBytes c\<rparr>))))"

definition diameter_size :: "diameter \<Rightarrow> nat" where
  "diameter_size d = 20 + sum_list (map dia_avp_size (dm_avps d))"

definition diameter_bytes :: "diameter \<Rightarrow> (bytes \<times> diameter) result" where
  "diameter_bytes d =
     rbind (diameter_pack_hdr d) (\<lambda>(h, d'). rbind (map_result dia_avp_bytes (dm_avps d)) (\<lambda>as.
       Inr (h @ concat (map fst as), d'\<lparr>dm_avps := map snd as\<rparr>)))"

section \<open>24-bit fields and pairs\<close>

lemma u24_pack:
  assumes "wide_pack (WInt v) = Inr b" "0 \<le> v" "v < 2 ^ 24"
  shows "length b = 3 \<and> u24 b = v"
proof -
  have m: "i AND 0xff = take_bit 8 i" for i :: int by (simp add: take_bit_eq_mask mask_eq_exp_minus_1)
  have r: "0 \<le> take_bit 8 i" "take_bit 8 i < 256" for i :: int by (simp_all add: take_bit_eq_mod)
  have o: "ord (word_of_int (take_bit 8 i)) = take_bit 8 i" for i by (rule ord_word_range) (rule r)+
  have b: "b = [word_of_int (take_bit 8 (drop_bit 16 v)), word_of_int (take_bit 8 (drop_bit 8 v)), word_of_int (take_bit 8 v)]"
    using assms(1) by (auto simp: wide_pack_def m int_bytes_def be_bytes_def result_simps split: if_splits)
  have "(push_bit 16 (take_bit 8 (drop_bit 16 v)) OR push_bit 8 (take_bit 8 (drop_bit 8 v))) OR take_bit 8 v = take_bit 24 v" (is "?l = ?r")
  proof (rule bit_eqI)
    show "bit ?l n = bit ?r n" for n by (cases "16 \<le> n"; cases "8 \<le> n") (auto simp: bit_simps)
  qed
  then show ?thesis
    using assms(2,3) unfolding b u24_def by (simp add: o take_bit_int_eq_self)
qed

lemma wide_pack_ok: "\<exists>b. wide_pack (WInt v) = Inr b"
proof -
  have m: "i AND 0xff = take_bit 8 i" for i :: int by (simp add: take_bit_eq_mask mask_eq_exp_minus_1)
  have r: "0 \<le> take_bit 8 i" "take_bit 8 i < 256" for i :: int by (simp_all add: take_bit_eq_mod)
  show ?thesis unfolding wide_pack_def by (simp add: m r)
qed

lemma diameter_tables [simp]:
  "table_ok dia_avp_hdr" "hdr_len dia_avp_hdr = 8" "table_ok diameter_hdr" "hdr_len diameter_hdr = 20"
  by (simp_all add: dia_avp_hdr_def diameter_hdr_def table_ok_def hdr_fields_def fmt_ok_def)

definition dia_avp_ok :: "dia_avp \<Rightarrow> bool" where
  "dia_avp_ok a \<longleftrightarrow> av_len a = WInt (int (dia_avp_size a)) \<and> dia_avp_size a < 2 ^ 24 \<and>
     (av_vendor a = None) = (bit_flag_get vendor_flag (av_flags a) = 0)"

definition dia_avp_wire :: "dia_avp \<Rightarrow> bytes result" where
  "dia_avp_wire a = rbind (dia_avp_bytes a) (\<lambda>(b, a'). Inr b)"

lemma dia_avp_read:
  assumes "dia_avp_ok a" "dia_avp_wire a = Inr b"
  shows "dia_avp_init (b @ rest) = Inr a \<and> dia_avp_size a = length b"
proof -
  obtain l where l: "wide_pack (WInt (int (dia_avp_size a))) = Inr l" using wide_pack_ok by blast
  let ?vs = "[VInt (av_code a), VInt (av_flags a), VBytes l]"
  have u: "length l = 3" "u24 l = int (dia_avp_size a)"
    using u24_pack [OF l] assms(1) by (auto simp: dia_avp_ok_def)
  obtain h v where h: "packet_pack_hdr BE dia_avp_hdr ?vs = Inr h" "b = h @ v @ av_data a"
    and v: "if bit_flag_get vendor_flag (av_flags a) \<noteq> 0
       then (\<exists>i. av_vendor a = Some i \<and> pack_uint BE 4 i = Inr v) else v = [] \<and> av_vendor a = None"
    using assms l by (auto simp: dia_avp_wire_def dia_avp_bytes_def dia_avp_pack_hdr_def dia_avp_ok_def rbind_Inr_iff split: if_splits option.splits)
  have "struct_pack BE (hdr_fmt dia_avp_hdr) ?vs = Inr h"
    using h(1) by (subst (asm) pack_hdr_flat) simp_all
  then have e: "exact_all (hdr_fmt dia_avp_hdr) ?vs"
    using u(1) by (auto simp: dia_avp_hdr_def result_simps split: if_splits)
  have c: "length h = 8" "class_unpack BE dia_avp_hdr (b @ rest) = Inr (obj_make ?vs (v @ av_data a @ rest))"
    using class_pack_read [OF diameter_tables(1) e h(1)] h(2) by auto
  have g: "get_int dia_avp_hdr ''code'' ?vs = av_code a" "get_int dia_avp_hdr ''flags'' ?vs = av_flags a"
    by (simp_all add: dia_avp_hdr_def get_int_Cons)
  have len: "av_len a = WInt (int (dia_avp_size a))" using assms(1) by (simp add: dia_avp_ok_def)
  show ?thesis
  proof (cases "bit_flag_get vendor_flag (av_flags a) = 0")
    case True
    then have "dia_avp_size a = 8 + length (av_data a)" by (simp add: dia_avp_size_def)
    then show ?thesis
      using True v c g u len h(2) by (cases a) (auto simp: dia_avp_init_def packet_init_def dia_avp_unpack_def obj_make_def Let_def py_upto_nonneg)
  next
    case False
    obtain i where i: "av_vendor a = Some i" "pack_uint BE 4 i = Inr v" using v False by auto
    have w: "length v = 4" "unpack_uint BE 4 v = Inr i" using pack_uint_unpack [OF i(2)] by simp_all
    have s: "dia_avp_size a = 12 + length (av_data a)" using False by (simp add: dia_avp_size_def)
    have "py_slice (v @ av_data a @ rest) 4 (int (dia_avp_size a) - 8) = av_data a"
      using w(1) s by (simp add: py_slice_nonneg)
    then show ?thesis
      using False c g u len h(2) i(1) w s by (cases a) (auto simp: dia_avp_init_def packet_init_def dia_avp_unpack_def obj_make_def Let_def)
  qed
qed

interpretation dia_avps: item_prefix dia_avp_init dia_avp_size dia_avp_wire dia_avp_ok
  by unfold_locales (auto simp: dia_avp_size_def dest: dia_avp_read)

lemma dia_avps_packed:
  "map_result dia_avp_bytes as = Inr l \<Longrightarrow> concat_result dia_avp_wire as = Inr (concat (map fst l))"
  by (induction as arbitrary: l) (auto simp: result_simps dia_avp_wire_def)

lemma wide_packed: "wide_pack (WBytes b) = Inl TypeError"
  by (simp add: wide_pack_def)

section \<open>Properties\<close>

text \<open>
  RADIUS attributes are read back from their bytes, but they are not packed: the bytes of a parsed packet
  are its header alone.
\<close>

theorem radius_attrs_not_packed:
  assumes "exact_all (hdr_fmt radius_hdr) vs" "packet_pack_hdr BE radius_hdr vs = Inr h"
    and "concat_result radius_attr as = Inr b"
  shows "\<exists>r. radius_init (h @ b) = Inr r \<and> rad_attrs r = as \<and> radius_bytes r = Inr h \<and> radius_len r = 20"
proof -
  have u: "class_unpack BE radius_hdr (h @ b) = Inr (obj_make vs b)"
    using class_pack_read [OF radius_table(1) assms(1,2)] by simp
  have "radius_parse_attrs b = Inr as"
    unfolding radius_parse_attrs_def by (rule radius_attrs.loop_reads [OF _ assms(3)]) (simp add: list_all_iff)
  then show ?thesis
    using u assms(2) by (simp add: radius_init_def packet_init_def radius_unpack_def obj_make_def radius_bytes_def
        packet_bytes_def radius_len_def packet_len_def)
qed


text \<open>
  Packing a Diameter message destroys it: \<^verbatim>\<open>pack_hdr\<close> leaves the packed bytes in \<^verbatim>\<open>len\<close> and
  \<^verbatim>\<open>cmd\<close>, and packing the message again is a \<open>TypeError\<close>.
\<close>

theorem diameter_packs_once:
  assumes "diameter_bytes d = Inr (b, d')"
  shows "diameter_bytes d' = Inl TypeError"
  using assms by (auto simp: diameter_bytes_def diameter_pack_hdr_def rbind_Inr_iff wide_packed)

theorem radius_attrs_not_packed_witness:
  "\<exists>h r. packet_pack_hdr BE radius_hdr [VInt 1, VInt 5, VInt 23, VBytes (zeros 16)] = Inr h \<and>
     radius_init (h @ [1, 3, 65]) = Inr r \<and> rad_attrs r = [(1, [65])] \<and> radius_bytes r = Inr h"
proof -
  let ?vs = "[VInt 1, VInt 5, VInt 23, VBytes (zeros 16)]"
  have e: "exact_all (hdr_fmt radius_hdr) ?vs" by (simp add: radius_hdr_def exact_U)
  obtain h where h: "packet_pack_hdr BE radius_hdr ?vs = Inr h" using packet_pack_hdr_exact [OF e] by blast
  have a: "concat_result radius_attr [(1, [65])] = Inr [1, 3, 65]"
    by (simp add: radius_attr_def py_byte_def)
  show ?thesis using radius_attrs_not_packed [OF e h a] h by blast
qed


theorem diameter_packs_once_witness:
  "\<exists>b d'. diameter_bytes \<lparr>dm_v = 1, dm_len = WInt 20, dm_flags = 128, dm_cmd = WInt 280, dm_app_id = 0, dm_hop_id = 1,
       dm_end_id = 2, dm_avps = []\<rparr> = Inr (b, d') \<and> diameter_bytes d' = Inl TypeError"
proof -
  have w: "wide_pack (WInt 20) = Inr [0, 0, 20]" "wide_pack (WInt 280) = Inr [0, 1, 24]"
    by (simp_all add: wide_pack_def int_bytes_def be_bytes_def)
  obtain b d' where b: "diameter_bytes \<lparr>dm_v = 1, dm_len = WInt 20, dm_flags = 128, dm_cmd = WInt 280, dm_app_id = 0,
      dm_hop_id = 1, dm_end_id = 2, dm_avps = []\<rparr> = Inr (b, d')"
    by (simp add: diameter_bytes_def diameter_pack_hdr_def w packet_pack_hdr_def diameter_hdr_def)
  show ?thesis using diameter_packs_once [OF b] b by blast
qed

end
