(* ===== verification/Discovery.thy ===== *)
theory Discovery
  imports Aaa Payload
begin

text \<open>
  Small link and session protocols: CDP, \<^verbatim>\<open>dpkt/cdp.py\<close>, DTP, \<^verbatim>\<open>dtp.py\<close>, ATA over Ethernet,
  \<^verbatim>\<open>aoe.py\<close>, TNS, \<^verbatim>\<open>tns.py\<close>, the NetBIOS session wrapper, \<^verbatim>\<open>nbss.py\<close>, and the frames and TLVs
  of AIM, \<^verbatim>\<open>aim.py\<close>.
\<close>

section \<open>CDP\<close>

definition cdp_hdr :: hdr where
  "cdp_hdr = [(''version'', fB, VInt 2), (''ttl'', fB, VInt 180), (''sum'', fH, VInt 0)]"

definition cdp_tlv_hdr :: hdr where
  "cdp_tlv_hdr = [(''type'', fH, VInt 0), (''len'', fH, VInt 0)]"

definition cdp_addresses_hdr :: hdr where
  "cdp_addresses_hdr = [(''type'', fH, VInt 2), (''len'', fH, VInt 0), (''Addresses'', fL, VInt 1)]"

definition cdp_address_hdr :: hdr where
  "cdp_address_hdr = [(''ptype'', fB, VInt 1), (''plen'', fB, VInt 1), (''p'', fB, VInt 0xcc), (''alen'', fH, VInt 4)]"

text \<open>The class of a TLV is its header table; \<^verbatim>\<open>data_len\<close> may be negative.\<close>

definition cdp_data_len :: "hdr \<Rightarrow> packet_obj \<Rightarrow> int" where
  "cdp_data_len h p =
     (let l = get_int h ''len'' (obj_vals p)
      in if l \<noteq> 0 then l - int (hdr_len h) else int (length (obj_data p)))"

definition cdp_tlv_init :: "hdr \<Rightarrow> bytes \<Rightarrow> packet_obj result" where
  "cdp_tlv_init h =
     packet_init (hdr_len h) (\<lambda>buf. rbind (class_unpack BE h buf) (\<lambda>p.
       Inr (p\<lparr>obj_data := py_upto (obj_data p) (cdp_data_len h p)\<rparr>)))"

definition cdp_tlv_len :: "hdr \<Rightarrow> packet_obj \<Rightarrow> nat" where
  "cdp_tlv_len h p = hdr_len h + length (obj_data p)"

text \<open>\<^verbatim>\<open>__bytes__\<close> fills in a length of zero: the attribute values are returned with the bytes.\<close>

definition cdp_tlv_bytes :: "hdr \<Rightarrow> packet_obj \<Rightarrow> (bytes \<times> packet_obj) result" where
  "cdp_tlv_bytes h p =
     (let p' = (if get_int h ''len'' (obj_vals p) = 0
                then p\<lparr>obj_vals := set_val h ''len'' (VInt (int (cdp_tlv_len h p))) (obj_vals p)\<rparr> else p)
      in rbind (packet_bytes BE h (obj_vals p') (obj_data p')) (\<lambda>b. Inr (b, p')))"

text \<open>The class \<^verbatim>\<open>Address\<close> has its own length field, and no \<^verbatim>\<open>len\<close>.\<close>

definition cdp_address_init :: "bytes \<Rightarrow> packet_obj result" where
  "cdp_address_init =
     packet_init 5 (\<lambda>buf. rbind (class_unpack BE cdp_address_hdr buf) (\<lambda>p.
       Inr (p\<lparr>obj_data := py_upto (obj_data p) (get_int cdp_address_hdr ''alen'' (obj_vals p))\<rparr>)))"

definition cdp_address_bytes :: "packet_obj \<Rightarrow> bytes result" where
  "cdp_address_bytes p = packet_bytes BE cdp_address_hdr (obj_vals p) (obj_data p)"

definition tlv_types :: "int \<Rightarrow> hdr" where
  "tlv_types t = (if t = 2 then cdp_addresses_hdr else cdp_tlv_hdr)"

text \<open>One round of the loop: the bytes of the next TLV, and what follows it.\<close>

definition cdp_round :: "bytes \<Rightarrow> bytes round" where
  "cdp_round buf =
     (if buf = [] then Stop
      else case rbind (cdp_tlv_init cdp_tlv_hdr buf) (\<lambda>q.
          let h = tlv_types (get_int cdp_tlv_hdr ''type'' (obj_vals q))
          in rbind (cdp_tlv_init h buf) (\<lambda>p. rbind (cdp_tlv_bytes h p) (\<lambda>(b, p').
               Inr (b, drop (cdp_tlv_len h p') buf)))) of
             Inl e \<Rightarrow> Fail e
           | Inr (b, rest) \<Rightarrow> Item b rest)"

record cdp =
  cdp_vals :: "pval list"
  cdp_tlvs :: "bytes list"
  cdp_data :: bytes

definition cdp_unpack :: "bytes \<Rightarrow> cdp result" where
  "cdp_unpack buf =
     rbind (class_unpack BE cdp_hdr buf) (\<lambda>p. rbind (parse_loop cdp_round (obj_data p)) (\<lambda>l.
       Inr \<lparr>cdp_vals = obj_vals p, cdp_tlvs = l, cdp_data = concat l\<rparr>))"

definition cdp_init :: "bytes \<Rightarrow> cdp result" where
  "cdp_init = packet_init (hdr_len cdp_hdr) cdp_unpack"

definition cdp_len :: "cdp \<Rightarrow> nat" where
  "cdp_len c = hdr_len cdp_hdr + length (cdp_data c)"

definition cdp_bytes :: "cdp \<Rightarrow> (bytes \<times> pval list) result" where
  "cdp_bytes c = sum_bytes cdp_hdr (cdp_vals c) (cdp_data c)"

section \<open>DTP\<close>

definition dtp_hdr :: hdr where
  "dtp_hdr = [(''v'', fB, VInt 0)]"

definition dtp_round :: "bytes \<Rightarrow> (int \<times> bytes) round" where
  "dtp_round buf =
     (if buf = [] then Stop
      else case struct_unpack BE [fH, fH] (take 4 buf) of
             Inl e \<Rightarrow> Fail e
           | Inr vs \<Rightarrow>
               let t = ival (vs ! 0); l = nat (ival (vs ! 1))
               in Item (t, take l (drop 4 buf)) (drop (4 + l) buf))"

record dtp =
  dtp_v :: int
  dtp_data :: "(int \<times> bytes) list"

definition dtp_unpack :: "bytes \<Rightarrow> dtp result" where
  "dtp_unpack buf =
     rbind (class_unpack BE dtp_hdr buf) (\<lambda>p. rbind (parse_loop dtp_round (obj_data p)) (\<lambda>tvs.
       Inr \<lparr>dtp_v = get_int dtp_hdr ''v'' (obj_vals p), dtp_data = tvs\<rparr>))"

definition dtp_init :: "bytes \<Rightarrow> dtp result" where
  "dtp_init = packet_init (hdr_len dtp_hdr) dtp_unpack"

definition dtp_tlv :: "int \<times> bytes \<Rightarrow> bytes result" where
  "dtp_tlv a = rbind (struct_pack BE [fH, fH] [VInt (fst a), VInt (int (length (snd a)))]) (\<lambda>h. Inr (h @ snd a))"

definition dtp_bytes :: "dtp \<Rightarrow> bytes result" where
  "dtp_bytes d = concat_result dtp_tlv (dtp_data d)"

text \<open>The inherited \<^verbatim>\<open>__len__\<close> counts the entries of the list.\<close>

definition dtp_len :: "dtp \<Rightarrow> nat" where
  "dtp_len d = hdr_len dtp_hdr + length (dtp_data d)"

section \<open>ATA over Ethernet\<close>

definition aoe_hdr :: hdr where
  "aoe_hdr = [(''_ver_fl'', fB, VInt 0x10), (''err'', fB, VInt 0), (''maj'', fH, VInt 0), (''min'', fB, VInt 0),
     (''cmd'', fB, VInt 0), (''tag'', fI, VInt 0)]"

definition aoe_bits :: bit_fields where
  "aoe_bits = [(''ver'', 4), (''fl'', 4)]"

definition aoe_set_cmd :: "int \<Rightarrow> (bytes \<Rightarrow> 'p result) \<Rightarrow> 'p registry \<Rightarrow> 'p registry" where
  "aoe_set_cmd cmd cls sw = sw(cmd \<mapsto> cls)"

definition aoe_get_cmd :: "int \<Rightarrow> 'p registry \<Rightarrow> (bytes \<Rightarrow> 'p result) result" where
  "aoe_get_cmd cmd sw = (case sw cmd of None \<Rightarrow> Inl KeyError | Some c \<Rightarrow> Inr c)"

text \<open>The registry that \<^verbatim>\<open>_load_cmds\<close> fills; an object of one of its classes is a table with its values.\<close>

definition aoe_load_cmds :: "(hdr \<times> packet_obj) registry" where
  "aoe_load_cmds =
     aoe_set_cmd 1 (\<lambda>b. rbind (class_init BE aoecfg_AOECFG_hdr b) (\<lambda>p. Inr (aoecfg_AOECFG_hdr, p)))
       (aoe_set_cmd 0 (\<lambda>b. rbind (class_init BE aoeata_AOEATA_hdr b) (\<lambda>p. Inr (aoeata_AOEATA_hdr, p))) Map.empty)"

record 'p aoe =
  aoe_vals :: "pval list"
  aoe_data :: "'p payload"

definition aoe_unpack :: "'p registry \<Rightarrow> bytes \<Rightarrow> 'p aoe result" where
  "aoe_unpack sw buf =
     rbind (class_unpack BE aoe_hdr buf) (\<lambda>p.
       case rbind (aoe_get_cmd (get_int aoe_hdr ''cmd'' (obj_vals p)) sw) (\<lambda>cls. cls (obj_data p)) of
         Inr x \<Rightarrow> Inr \<lparr>aoe_vals = obj_vals p, aoe_data = Pkt x\<rparr>
       | Inl e \<Rightarrow>
           if e = KeyError \<or> e = StructError \<or> is_unpack_error e
           then Inr \<lparr>aoe_vals = obj_vals p, aoe_data = Raw (obj_data p)\<rparr> else Inl e)"

definition aoe_init :: "'p registry \<Rightarrow> bytes \<Rightarrow> 'p aoe result" where
  "aoe_init sw = packet_init (hdr_len aoe_hdr) (aoe_unpack sw)"

definition aoe_bytes :: "(hdr \<times> packet_obj) aoe \<Rightarrow> bytes result" where
  "aoe_bytes a =
     rbind (packet_pack_hdr BE aoe_hdr (aoe_vals a)) (\<lambda>h.
     rbind (case aoe_data a of Raw b \<Rightarrow> Inr b | Pkt (t, p) \<Rightarrow> class_bytes BE t p) (\<lambda>b. Inr (h @ b)))"

section \<open>TNS, NBSS and AIM\<close>

definition tns_hdr :: hdr where
  "tns_hdr = [(''length'', fH, VInt 0), (''pktsum'', fH, VInt 0), (''type'', fB, VInt 0), (''rsvd'', fB, VInt 0),
     (''hdrsum'', fH, VInt 0), (''msg'', Str 0, VBytes [])]"

definition tns_unpack :: "bytes \<Rightarrow> packet_obj result" where
  "tns_unpack buf =
     rbind (class_unpack BE tns_hdr buf) (\<lambda>p.
     let n = get_int tns_hdr ''length'' (obj_vals p) - int (hdr_len tns_hdr); d = obj_data p
     in if int (length d) < n then Inl NeedData
        else Inr \<lparr>obj_vals = set_val tns_hdr ''msg'' (VBytes (py_upto d n)) (obj_vals p), obj_data = py_from d n\<rparr>)"

definition tns_init :: "bytes \<Rightarrow> packet_obj result" where
  "tns_init = packet_init (hdr_len tns_hdr) tns_unpack"

definition tns_bytes :: "packet_obj \<Rightarrow> bytes result" where
  "tns_bytes = class_bytes BE tns_hdr"

definition nbss_hdr :: hdr where
  "nbss_hdr = [(''type'', fB, VInt 0), (''_len'', Str 3, VBytes (zeros 3))]"

definition nbss_length :: "packet_obj \<Rightarrow> int" where
  "nbss_length p = u24 (bval (obj_vals p ! 1))"

definition nbss_set_length :: "int \<Rightarrow> packet_obj \<Rightarrow> packet_obj" where
  "nbss_set_length v p =
     p\<lparr>obj_vals := set_val nbss_hdr ''_len''
        (VBytes (map word_of_int [drop_bit 16 v AND 0xFF, drop_bit 8 v AND 0xFF, v AND 0xFF])) (obj_vals p)\<rparr>"

definition nbss_unpack :: "bytes \<Rightarrow> packet_obj result" where
  "nbss_unpack buf =
     rbind (class_unpack BE nbss_hdr buf) (\<lambda>p. Inr (p\<lparr>obj_data := take (nat (nbss_length p)) (drop 4 buf)\<rparr>))"

definition nbss_init :: "bytes \<Rightarrow> packet_obj result" where
  "nbss_init = packet_init 4 nbss_unpack"

definition flap_hdr :: hdr where
  "flap_hdr = [(''ast'', fB, VInt 0x2a), (''type'', fB, VInt 0), (''seq'', fH, VInt 0), (''len'', fH, VInt 0)]"

definition flap_unpack :: "bytes \<Rightarrow> packet_obj result" where
  "flap_unpack buf =
     rbind (class_unpack BE flap_hdr buf) (\<lambda>p.
       if get_int flap_hdr ''ast'' (obj_vals p) \<noteq> 0x2a then Inl UnpackError
       else if int (length (obj_data p)) < get_int flap_hdr ''len'' (obj_vals p) then Inl NeedData
       else Inr p)"

definition flap_init :: "bytes \<Rightarrow> packet_obj result" where
  "flap_init = packet_init 6 flap_unpack"

definition aim_tlv :: "bytes \<Rightarrow> (int \<times> int \<times> bytes \<times> bytes) result" where
  "aim_tlv buf =
     (case struct_unpack BE [fH, fH] (take 4 buf) of
        Inl e \<Rightarrow> Inl UnpackError
      | Inr vs \<Rightarrow>
          let t = ival (vs ! 0); l = ival (vs ! 1); v = take (nat l) (drop 4 buf)
          in if int (length v) < l then Inl NeedData else Inr (t, l, v, drop (4 + nat l) buf))"

section \<open>Reading TLVs\<close>

lemma discovery_tables [simp]:
  "table_ok cdp_hdr" "hdr_len cdp_hdr = 4" "table_ok cdp_tlv_hdr" "hdr_len cdp_tlv_hdr = 4"
  "table_ok cdp_addresses_hdr" "hdr_len cdp_addresses_hdr = 8" "table_ok dtp_hdr" "hdr_len dtp_hdr = 1"
  "table_ok aoe_hdr" "hdr_len aoe_hdr = 10" "table_ok tns_hdr" "hdr_len tns_hdr = 8" "table_ok nbss_hdr" "hdr_len nbss_hdr = 4"
  "table_ok flap_hdr" "hdr_len flap_hdr = 6" "table_ok aoeata_AOEATA_hdr" "table_ok aoecfg_AOECFG_hdr"
  by (simp_all add: cdp_hdr_def cdp_tlv_hdr_def cdp_addresses_hdr_def dtp_hdr_def aoe_hdr_def tns_hdr_def nbss_hdr_def
      flap_hdr_def aoeata_AOEATA_hdr_def aoecfg_AOECFG_hdr_def table_ok_def hdr_fields_def fmt_ok_def)

definition cdp_tlv_ok :: "bytes \<Rightarrow> bool" where
  "cdp_tlv_ok b \<longleftrightarrow> 4 \<le> length b \<and> bytes_int BE (take 2 (drop 2 b)) = int (length b) \<and>
     (bytes_int BE (take 2 b) = 2 \<longrightarrow> 8 \<le> length b)"

lemma cdp_tlv_unpack:
  "4 \<le> length x \<Longrightarrow> class_unpack BE cdp_tlv_hdr x =
     Inr (obj_make [VInt (bytes_int BE (take 2 x)), VInt (bytes_int BE (take 2 (drop 2 x)))] (drop 4 x))"
  "8 \<le> length x \<Longrightarrow> class_unpack BE cdp_addresses_hdr x =
     Inr (obj_make [VInt (bytes_int BE (take 2 x)), VInt (bytes_int BE (take 2 (drop 2 x))),
       VInt (bytes_int BE (take 4 (drop 4 x)))] (drop 8 x))"
  by (simp_all add: class_unpack_def packet_unpack_def struct_unpack_def cdp_tlv_hdr_def cdp_addresses_hdr_def drop_take)

lemma cdp_tlv_exact:
  assumes "table_ok h" "class_unpack BE h (b @ rest) = Inr q" "get_int h ''len'' (obj_vals q) = int (length b)"
    "hdr_len h \<le> length b" "b \<noteq> []"
  shows "\<exists>p. cdp_tlv_init h (b @ rest) = Inr p \<and> cdp_tlv_bytes h p = Inr (b, p) \<and> cdp_tlv_len h p = length b"
proof -
  let ?p = "q\<lparr>obj_data := drop (hdr_len h) b\<rparr>"
  have d: "obj_data q = drop (hdr_len h) b @ rest" using class_unpack_data [OF assms(2)] assms(4) by simp
  have l: "cdp_data_len h q = int (length (drop (hdr_len h) b))" using assms(3-5) by (simp add: cdp_data_len_def)
  have i: "cdp_tlv_init h (b @ rest) = Inr ?p"
    using assms(2) by (simp add: cdp_tlv_init_def packet_init_def l d py_upto_nonneg)
  have k: "packet_pack_hdr BE h (obj_vals q) = Inr (take (hdr_len h) b)"
    using class_pack_back [OF assms(1,2)] assms(4) by simp
  show ?thesis
    using i k assms(3-5) by (intro exI [of _ ?p]) (simp add: cdp_tlv_bytes_def packet_bytes_def cdp_tlv_len_def)
qed

interpretation cdp_items: item_round cdp_round Inr cdp_tlv_ok
proof
  fix buf x rest
  assume i: "cdp_round buf = Item x rest"
  then have "buf \<noteq> []" by (auto simp: cdp_round_def)
  moreover have "\<exists>h p. rest = drop (cdp_tlv_len h p) buf \<and> 0 < cdp_tlv_len h p"
    using i by (auto simp: cdp_round_def rbind_Inr_iff Let_def cdp_tlv_len_def tlv_types_def
        split: if_splits sum.splits) (metis discovery_tables(4,6) add_is_0 not_gr_zero zero_neq_numeral)+
  ultimately show "length rest < length buf" by auto
next
  fix x b rest
  assume "cdp_tlv_ok x" "Inr x = (Inr b :: bytes result)"
  then have b: "cdp_tlv_ok b" "x = b" by simp_all
  have l: "4 \<le> length b" "bytes_int BE (take 2 (drop 2 b)) = int (length b)" using b(1) by (simp_all add: cdp_tlv_ok_def)
  have t: "take 2 (b @ rest) = take 2 b" "take 2 (drop 2 (b @ rest)) = take 2 (drop 2 b)" using l(1) by simp_all
  have ne: "b \<noteq> []" using l(1) by auto
  have u: "class_unpack BE cdp_tlv_hdr (b @ rest) =
      Inr (obj_make [VInt (bytes_int BE (take 2 b)), VInt (int (length b))] (drop 4 (b @ rest)))"
    using cdp_tlv_unpack(1) [of "b @ rest"] t l by simp
  then obtain q where q: "cdp_tlv_init cdp_tlv_hdr (b @ rest) = Inr q" "cdp_tlv_bytes cdp_tlv_hdr q = Inr (b, q)"
    "cdp_tlv_len cdp_tlv_hdr q = length b"
    using cdp_tlv_exact [OF discovery_tables(3) u _ _ ne] l(1) by (auto simp: obj_make_def cdp_tlv_hdr_def get_int_Cons)
  have ty: "get_int cdp_tlv_hdr ''type'' (obj_vals q) = bytes_int BE (take 2 b)"
    using q(1) u by (auto simp: cdp_tlv_init_def packet_init_Inr obj_make_def cdp_tlv_hdr_def get_int_Cons)
  let ?h = "tlv_types (bytes_int BE (take 2 b))"
  have "\<exists>p. cdp_tlv_init ?h (b @ rest) = Inr p \<and> cdp_tlv_bytes ?h p = Inr (b, p) \<and> cdp_tlv_len ?h p = length b"
  proof (cases "bytes_int BE (take 2 b) = 2")
    case True
    then have "8 \<le> length b" using b(1) by (simp add: cdp_tlv_ok_def)
    then show ?thesis
      using True cdp_tlv_exact [OF discovery_tables(5) cdp_tlv_unpack(2) [of "b @ rest"] _ _ ne] t l
      by (simp add: tlv_types_def obj_make_def cdp_addresses_hdr_def get_int_Cons)
  next
    case False
    then show ?thesis using q by (auto simp: tlv_types_def)
  qed
  then obtain p where p: "cdp_tlv_init ?h (b @ rest) = Inr p" "cdp_tlv_bytes ?h p = Inr (b, p)" "cdp_tlv_len ?h p = length b"
    by blast
  show "cdp_round (b @ rest) = Item x rest"
    using ne q(1) ty p b(2) by (simp add: cdp_round_def Let_def)
qed (simp add: cdp_round_def)

interpretation cdp_sum: summed cdp_hdr 2 "VInt 0"
  by unfold_locales (simp_all add: cdp_hdr_def table_ok_def hdr_fields_def fmt_ok_def)

interpretation dtp_items: item_round dtp_round dtp_tlv "\<lambda>a. True"
proof
  fix buf x rest
  assume "dtp_round buf = Item x rest"
  then show "length rest < length buf"
    by (cases buf) (auto simp: dtp_round_def Let_def split: if_splits sum.splits)
next
  fix a b rest
  assume "dtp_tlv a = Inr b"
  then obtain h where h: "struct_pack BE [fH, fH] [VInt (fst a), VInt (int (length (snd a)))] = Inr h" "b = h @ snd a"
    by (auto simp: dtp_tlv_def rbind_Inr_iff)
  have "length h = 4 \<and> struct_unpack BE [fH, fH] h = Inr [VInt (fst a), VInt (int (length (snd a)))]"
    using pack_row_unpack [of "[fH, fH]" BE "[fst a, int (length (snd a))]" h] h(1) by (simp add: pack_row_def)
  moreover from this have "h \<noteq> []" by auto
  ultimately show "dtp_round (b @ rest) = Item a rest" using h(2) by (cases a) (simp add: dtp_round_def)
qed (simp add: dtp_round_def)

lemma aoe_registry:
  "aoe_load_cmds k = Some cls \<longleftrightarrow>
   (\<exists>t \<in> {aoeata_AOEATA_hdr, aoecfg_AOECFG_hdr}. cls = (\<lambda>b. rbind (class_init BE t b) (\<lambda>p. Inr (t, p))) \<and>
     (k = 0 \<and> t = aoeata_AOEATA_hdr \<or> k = 1 \<and> t = aoecfg_AOECFG_hdr))"
  by (auto simp: aoe_load_cmds_def aoe_set_cmd_def)

lemma class_init_back: "table_ok t \<Longrightarrow> class_init BE t b = Inr p \<Longrightarrow> class_bytes BE t p = Inr b"
  using packet_class.pack_unpack [OF table_class, of t BE b p]
  by (simp add: class_init_def packet_init_Inr class_unpack_def class_bytes_def)

section \<open>Properties\<close>

text \<open>
  A CDP packet of TLVs whose length fields are right is taken apart into exactly the bytes of
  its TLVs, whatever their types, and packs to the bytes it was parsed from; a checksum of zero is
  filled in so that the packet verifies.
\<close>

theorem cdp_byte_exact:
  assumes "exact_all (hdr_fmt cdp_hdr) vs" "packet_pack_hdr BE cdp_hdr vs = Inr h" "list_all cdp_tlv_ok bs"
    and "length (concat bs) \<le> 130000"
  shows "\<exists>c. cdp_init (h @ concat bs) = Inr c \<and> cdp_tlvs c = bs \<and> cdp_len c = length (h @ concat bs) \<and>
    (if get_int cdp_hdr ''sum'' vs = 0
     then \<exists>b vs'. cdp_bytes c = Inr (b, vs') \<and> in_cksum b = Inr 0 \<and> drop 4 b = concat bs
     else cdp_bytes c = Inr (h @ concat bs, vs))"
proof -
  have u: "length h = 4" "class_unpack BE cdp_hdr (h @ concat bs) = Inr (obj_make vs (concat bs))"
    using class_pack_read [OF discovery_tables(1) assms(1,2)] by auto
  have "concat_result Inr bs = Inr (concat bs)" by (induction bs) simp_all
  from cdp_items.loop_reads [OF assms(3) this]
  have i: "cdp_init (h @ concat bs) = Inr \<lparr>cdp_vals = vs, cdp_tlvs = bs, cdp_data = concat bs\<rparr>" (is "_ = Inr ?c")
    using u(2) by (simp add: cdp_init_def packet_init_def cdp_unpack_def obj_make_def)
  have z: "\<exists>b vs'. cdp_bytes ?c = Inr (b, vs') \<and> in_cksum b = Inr 0 \<and> drop 4 b = concat bs" if "get_int cdp_hdr ''sum'' vs = 0"
  proof -
    obtain k where k: "in_cksum (h @ concat bs) = Inr k" "0 \<le> k" "k < 65536" using in_cksum_ok by blast
    have b0: "packet_bytes BE cdp_hdr vs (concat bs) = Inr (h @ concat bs)" using assms(2) by (simp add: packet_bytes_def)
    obtain pre post where p: "packet_bytes BE cdp_hdr (set_val cdp_hdr ''sum'' (VInt k) vs) (concat bs) =
        Inr (pre @ int_bytes BE 2 k @ post)" "length (h @ concat bs) = length pre + 2 + length post"
      using cdp_sum.sum_place [OF assms(1) b0 k(2,3)] by blast
    then obtain a where a: "packet_pack_hdr BE cdp_hdr (set_val cdp_hdr ''sum'' (VInt k) vs) = Inr a"
      "pre @ int_bytes BE 2 k @ post = a @ concat bs"
      by (auto simp: packet_bytes_def rbind_Inr_iff)
    have s: "sum_bytes cdp_hdr vs (concat bs) = Inr (a @ concat bs, set_val cdp_hdr ''sum'' (VInt k) vs)"
      using that b0 k(1) p(1) a(2) by (simp add: sum_bytes_def fill_sum_def)
    have la: "length a = 4" using packet_pack_hdr_length [OF a(1)] by simp
    have "in_cksum (a @ concat bs) = Inr 0"
      by (rule cdp_sum.sum_verifies [OF assms(1) that s]) (use la assms(4) in simp)
    then show ?thesis using s la by (simp add: cdp_bytes_def)
  qed
  have "cdp_bytes ?c = Inr (h @ concat bs, vs)" if "get_int cdp_hdr ''sum'' vs \<noteq> 0"
    using that assms(2) by (simp add: cdp_bytes_def sum_bytes_def fill_sum_def packet_bytes_def)
  then show ?thesis using i z u(1) by (intro exI [of _ ?c]) (auto simp: cdp_len_def)
qed

text \<open>
  Packing a DTP packet leaves out its version: the bytes are those of the TLVs alone, one
  fewer than were parsed.
\<close>

theorem dtp_drops_version:
  assumes "concat_result dtp_tlv xs = Inr b"
  shows "\<exists>d. dtp_init (v # b) = Inr d \<and> dtp_v d = ord v \<and> dtp_data d = xs \<and> dtp_bytes d = Inr b"
proof -
  have "parse_loop dtp_round b = Inr xs" by (rule dtp_items.loop_reads [OF _ assms]) (simp add: list_all_iff)
  then show ?thesis
    using assms
    by (simp add: dtp_init_def packet_init_def dtp_unpack_def class_unpack_def packet_unpack_def struct_unpack_def
        dtp_hdr_def obj_make_def dtp_bytes_def get_int_Cons bytes_int_def be_int_def ord_def)
qed

text \<open>
  An ATA over Ethernet packet of any command, known, unknown or too short for its class,
  packs to the bytes it was parsed from.
\<close>

theorem aoe_byte_exact:
  assumes "aoe_init aoe_load_cmds buf = Inr a"
  shows "aoe_bytes a = Inr buf"
proof -
  obtain p where q: "class_unpack BE aoe_hdr buf = Inr p"
    using assms by (auto simp: aoe_init_def packet_init_Inr aoe_unpack_def rbind_Inr_iff)
  let ?r = "rbind (aoe_get_cmd (get_int aoe_hdr ''cmd'' (obj_vals p)) aoe_load_cmds) (\<lambda>cls. cls (obj_data p))"
  have a: "aoe_vals a = obj_vals p \<and> (\<forall>x. ?r = Inr x \<longrightarrow> aoe_data a = Pkt x) \<and>
      (\<forall>e. ?r = Inl e \<longrightarrow> aoe_data a = Raw (obj_data p))"
    using assms q by (cases ?r) (auto simp: aoe_init_def packet_init_Inr aoe_unpack_def split: if_splits)
  have p: "class_unpack BE aoe_hdr buf = Inr p" "aoe_vals a = obj_vals p" using q a by auto
  have d: "(\<exists>x cls. aoe_data a = Pkt x \<and> aoe_load_cmds (get_int aoe_hdr ''cmd'' (obj_vals p)) = Some cls \<and>
        cls (obj_data p) = Inr x) \<or> aoe_data a = Raw (obj_data p)"
    using a by (cases ?r) (auto simp: rbind_Inr_iff aoe_get_cmd_def split: option.splits)
  have h: "packet_pack_hdr BE aoe_hdr (aoe_vals a) = Inr (take 10 buf)" "obj_data p = drop 10 buf"
    using class_pack_back [OF discovery_tables(9) p(1)] class_unpack_data [OF p(1)] p(2) by simp_all
  have "(case aoe_data a of Raw b \<Rightarrow> Inr b | Pkt (t, q) \<Rightarrow> class_bytes BE t q) = Inr (obj_data p)"
    using d class_init_back [OF discovery_tables(17), of "obj_data p"] class_init_back [OF discovery_tables(18), of "obj_data p"]
    by (auto simp: aoe_registry rbind_Inr_iff)
  then show ?thesis using h by (simp add: aoe_bytes_def)
qed

text \<open>
  Packing a TNS packet leaves out its message: the field \<^verbatim>\<open>msg\<close> has size zero in the header.
\<close>

theorem tns_loses_message:
  assumes "tns_init buf = Inr p"
  shows "tns_bytes p = Inr (take 8 buf @ obj_data p)"
proof -
  obtain q where q: "class_unpack BE tns_hdr buf = Inr q"
    "obj_vals p = set_val tns_hdr ''msg'' (VBytes (py_upto (obj_data q) (get_int tns_hdr ''length'' (obj_vals q) - 8))) (obj_vals q)"
    using assms by (auto simp: tns_init_def packet_init_Inr tns_unpack_def rbind_Inr_iff Let_def split: if_splits)
  have "packet_pack_hdr BE tns_hdr (obj_vals q) = Inr (take 8 buf)" using class_pack_back [OF discovery_tables(11) q(1)] by simp
  moreover have "exact_all (hdr_fmt tns_hdr) (obj_vals q)"
    using packet_class.unpack_vals [OF table_class [OF discovery_tables(11)]] q(1) by (simp add: class_unpack_def)
  then have "packet_pack_hdr BE tns_hdr (obj_vals p) = packet_pack_hdr BE tns_hdr (obj_vals q)"
    by (auto simp: q(2) tns_hdr_def packet_pack_hdr_def set_val_Cons exact_U exact_Str set_val_def hdr_fields_def)
  ultimately show ?thesis by (simp add: tns_bytes_def class_bytes_def packet_bytes_def)
qed

text \<open>
  A complete NetBIOS session message packs to the bytes it was parsed from.
\<close>

theorem nbss_byte_exact:
  assumes "nbss_init buf = Inr p" "int (length buf) \<le> 4 + nbss_length p"
  shows "class_bytes BE nbss_hdr p = Inr buf"
proof -
  obtain q where q: "class_unpack BE nbss_hdr buf = Inr q" "p = q\<lparr>obj_data := take (nat (nbss_length q)) (drop 4 buf)\<rparr>"
    using assms(1) by (auto simp: nbss_init_def packet_init_Inr nbss_unpack_def rbind_Inr_iff)
  have "packet_pack_hdr BE nbss_hdr (obj_vals q) = Inr (take 4 buf)" using class_pack_back [OF discovery_tables(13) q(1)] by simp
  moreover have "nbss_length p = nbss_length q" by (simp add: q(2) nbss_length_def)
  then have "take (nat (nbss_length q)) (drop 4 buf) = drop 4 buf" using assms(2) by simp
  ultimately show ?thesis by (simp add: q(2) class_bytes_def packet_bytes_def)
qed

theorem cdp_byte_exact_witness:
  "\<exists>h c b vs'. packet_pack_hdr BE cdp_hdr [VInt 2, VInt 180, VInt 0] = Inr h \<and>
     cdp_init (h @ [0, 1, 0, 5, 65] @ [0, 2, 0, 8, 0, 0, 0, 0]) = Inr c \<and>
     cdp_tlvs c = [[0, 1, 0, 5, 65], [0, 2, 0, 8, 0, 0, 0, 0]] \<and> cdp_bytes c = Inr (b, vs') \<and> in_cksum b = Inr 0"
proof -
  have e: "exact_all (hdr_fmt cdp_hdr) [VInt 2, VInt 180, VInt 0]" by (simp add: cdp_hdr_def exact_U)
  obtain h where h: "packet_pack_hdr BE cdp_hdr [VInt 2, VInt 180, VInt 0] = Inr h" using packet_pack_hdr_exact [OF e] by blast
  have o: "list_all cdp_tlv_ok [[0, 1, 0, 5, 65], [0, 2, 0, 8, 0, 0, 0, 0]]"
    by (simp add: cdp_tlv_ok_def bytes_int_def be_int_def)
  have g: "get_int cdp_hdr ''sum'' [VInt 2, VInt 180, VInt 0] = 0" by (simp add: cdp_hdr_def get_int_Cons)
  obtain c b vs' where "cdp_init (h @ concat [[0, 1, 0, 5, 65], [0, 2, 0, 8, 0, 0, 0, 0]]) = Inr c"
    "cdp_tlvs c = [[0, 1, 0, 5, 65], [0, 2, 0, 8, 0, 0, 0, 0]]" "cdp_bytes c = Inr (b, vs')" "in_cksum b = Inr 0"
    using cdp_byte_exact [OF e h o] g by auto
  then show ?thesis using h by auto
qed

theorem dtp_drops_version_witness:
  "\<exists>d. dtp_init [1, 0, 4, 0, 2, 7, 8] = Inr d \<and> dtp_bytes d = Inr [0, 4, 0, 2, 7, 8]"
proof -
  have "concat_result dtp_tlv [(4, [7, 8])] = Inr [0, 4, 0, 2, 7, 8]"
    by (simp add: dtp_tlv_def int_bytes_def be_bytes_def numeral_2_eq_2)
  from dtp_drops_version [OF this, of 1] show ?thesis by auto
qed

theorem aoe_byte_exact_witness:
  "\<exists>a. aoe_init aoe_load_cmds [16, 0, 0, 1, 2, 9, 0, 0, 0, 5, 7] = Inr a \<and>
     aoe_bytes a = Inr [16, 0, 0, 1, 2, 9, 0, 0, 0, 5, 7]"
proof -
  obtain a where a: "aoe_init aoe_load_cmds [16, 0, 0, 1, 2, 9, 0, 0, 0, 5, 7] = Inr a"
    by (simp add: aoe_init_def packet_init_def aoe_unpack_def class_unpack_def packet_unpack_def struct_unpack_def
        aoe_hdr_def obj_make_def get_int_Cons aoe_get_cmd_def aoe_load_cmds_def aoe_set_cmd_def bytes_int_def be_int_def ord_def)
  show ?thesis using aoe_byte_exact [OF a] a by blast
qed

theorem tns_loses_message_witness:
  "\<exists>p. tns_init [0, 10, 0, 0, 1, 0, 0, 0, 7, 8, 9] = Inr p \<and> tns_bytes p = Inr [0, 10, 0, 0, 1, 0, 0, 0, 9]"
proof -
  obtain p where p: "tns_init [0, 10, 0, 0, 1, 0, 0, 0, 7, 8, 9] = Inr p" "obj_data p = [9]"
    by (simp add: tns_init_def packet_init_def tns_unpack_def class_unpack_def packet_unpack_def struct_unpack_def
        tns_hdr_def obj_make_def get_int_Cons bytes_int_def be_int_def ord_def py_from_nonneg)
  show ?thesis using tns_loses_message [OF p(1)] p by auto
qed

theorem nbss_byte_exact_witness:
  "\<exists>p. nbss_init [0, 0, 0, 2, 7, 8] = Inr p \<and> class_bytes BE nbss_hdr p = Inr [0, 0, 0, 2, 7, 8]"
proof -
  obtain p where p: "nbss_init [0, 0, 0, 2, 7, 8] = Inr p" "nbss_length p = 2"
    by (simp add: nbss_init_def packet_init_def nbss_unpack_def class_unpack_def packet_unpack_def struct_unpack_def
        nbss_hdr_def obj_make_def nbss_length_def u24_def numeral_3_eq_3)
  show ?thesis using nbss_byte_exact [OF p(1)] p by auto
qed

end
