(* ===== verification/Rpc.thy ===== *)
theory Rpc
  imports Tables
begin

text \<open>
  Sun RPC, \<^verbatim>\<open>dpkt/rpc.py\<close>: credentials, calls, the accepted and the rejected replies, and the lists
  of XDR. An attribute that a class sets for some status values only is an option.
\<close>

section \<open>Credentials\<close>

definition rpc_auth_hdr :: hdr where
  "rpc_auth_hdr = [(''flavor'', fI, VInt 0)]"

record rpc_auth =
  au_flavor :: int
  au_data :: bytes

definition rpc_auth_new :: rpc_auth where
  "rpc_auth_new = \<lparr>au_flavor = 0, au_data = []\<rparr>"

definition rpc_auth_unpack :: "bytes \<Rightarrow> rpc_auth result" where
  "rpc_auth_unpack buf =
     rbind (class_unpack BE rpc_auth_hdr buf) (\<lambda>p. rbind (unpack_uint BE 4 (take 4 (obj_data p))) (\<lambda>n.
       Inr \<lparr>au_flavor = get_int rpc_auth_hdr ''flavor'' (obj_vals p), au_data = take (nat n) (drop 4 (obj_data p))\<rparr>))"

definition rpc_auth_init :: "bytes \<Rightarrow> rpc_auth result" where
  "rpc_auth_init = packet_init (hdr_len rpc_auth_hdr) rpc_auth_unpack"

definition rpc_auth_len :: "rpc_auth \<Rightarrow> nat" where
  "rpc_auth_len a = 8 + length (au_data a)"

definition rpc_auth_bytes :: "rpc_auth \<Rightarrow> bytes result" where
  "rpc_auth_bytes a =
     rbind (packet_pack_hdr BE rpc_auth_hdr [VInt (au_flavor a)]) (\<lambda>h.
     rbind (pack_uint BE 4 (int (length (au_data a)))) (\<lambda>n. Inr (h @ n @ au_data a)))"

section \<open>Calls\<close>

definition rpc_call_hdr :: hdr where
  "rpc_call_hdr = [(''rpcvers'', fI, VInt 2), (''prog'', fI, VInt 0), (''vers'', fI, VInt 0), (''proc'', fI, VInt 0)]"

record rpc_call =
  rc_vals :: "pval list"
  rc_cred :: "rpc_auth option"
  rc_verf :: "rpc_auth option"
  rc_data :: bytes

definition rpc_call_unpack :: "bytes \<Rightarrow> rpc_call result" where
  "rpc_call_unpack buf =
     rbind (class_unpack BE rpc_call_hdr buf) (\<lambda>p.
     rbind (rpc_auth_init (obj_data p)) (\<lambda>c.
     rbind (rpc_auth_init (drop (rpc_auth_len c) (obj_data p))) (\<lambda>v.
       Inr \<lparr>rc_vals = obj_vals p, rc_cred = Some c, rc_verf = Some v,
            rc_data = drop (rpc_auth_len c + rpc_auth_len v) (obj_data p)\<rparr>)))"

definition rpc_call_init :: "bytes \<Rightarrow> rpc_call result" where
  "rpc_call_init = packet_init (hdr_len rpc_call_hdr) rpc_call_unpack"

text \<open>\<^verbatim>\<open>getattr(self, 'cred', RPC.Auth())\<close>.\<close>

definition auth_or_new :: "rpc_auth option \<Rightarrow> rpc_auth" where
  "auth_or_new a = (case a of None \<Rightarrow> rpc_auth_new | Some x \<Rightarrow> x)"

definition rpc_call_bytes :: "rpc_call \<Rightarrow> bytes result" where
  "rpc_call_bytes c =
     rbind (packet_bytes BE rpc_call_hdr (rc_vals c) (rc_data c)) (\<lambda>h.
     rbind (rpc_auth_bytes (auth_or_new (rc_cred c))) (\<lambda>a.
     rbind (rpc_auth_bytes (auth_or_new (rc_verf c))) (\<lambda>v. Inr (h @ a @ v @ rc_data c))))"

definition rpc_call_len :: "rpc_call \<Rightarrow> nat result" where
  "rpc_call_len c = rbind (rpc_call_bytes c) (\<lambda>b. Inr (length b))"

section \<open>Replies\<close>

definition PROG_MISMATCH :: int where "PROG_MISMATCH = 2"
definition AUTH_ERROR :: int where "AUTH_ERROR = 1"

definition rpc_stat_hdr :: "int \<Rightarrow> hdr" where
  "rpc_stat_hdr d = [(''stat'', fI, VInt d)]"

record rpc_accept =
  ra_verf :: rpc_auth
  ra_stat :: int
  ra_range :: "(int \<times> int) option"
  ra_data :: bytes

text \<open>\<^verbatim>\<open>Accept.unpack\<close> does not read a header of its own; what follows another status is dropped.\<close>

definition rpc_accept_unpack :: "bytes \<Rightarrow> rpc_accept result" where
  "rpc_accept_unpack buf0 =
     rbind (rpc_auth_init buf0) (\<lambda>v.
     let buf = drop (rpc_auth_len v) buf0
     in rbind (unpack_uint BE 4 (take 4 buf)) (\<lambda>st.
          if st = 0 then Inr \<lparr>ra_verf = v, ra_stat = st, ra_range = None, ra_data = drop 4 buf\<rparr>
          else if st = PROG_MISMATCH then
            rbind (struct_unpack BE [fI, fI] (take 8 (drop 4 buf))) (\<lambda>vs.
              Inr \<lparr>ra_verf = v, ra_stat = st, ra_range = Some (ival (vs ! 0), ival (vs ! 1)), ra_data = drop 12 buf\<rparr>)
          else Inr \<lparr>ra_verf = v, ra_stat = st, ra_range = None, ra_data = []\<rparr>))"

definition rpc_accept_init :: "bytes \<Rightarrow> rpc_accept result" where
  "rpc_accept_init = packet_init 4 rpc_accept_unpack"

definition rpc_accept_len :: "rpc_accept \<Rightarrow> nat" where
  "rpc_accept_len a = rpc_auth_len (ra_verf a) + 4 + (if ra_stat a = PROG_MISMATCH then 8 else 0) + length (ra_data a)"

definition rpc_accept_bytes :: "rpc_accept \<Rightarrow> bytes result" where
  "rpc_accept_bytes a =
     rbind (rpc_auth_bytes (ra_verf a)) (\<lambda>v.
     if ra_stat a = PROG_MISMATCH then
       (case ra_range a of
          None \<Rightarrow> Inl AttributeError
        | Some (lo, hi) \<Rightarrow> rbind (struct_pack BE [fI, fI, fI] [VInt (ra_stat a), VInt lo, VInt hi]) (\<lambda>h.
            Inr (v @ h @ ra_data a)))
     else rbind (packet_bytes BE (rpc_stat_hdr 0) [VInt (ra_stat a)] (ra_data a)) (\<lambda>h. Inr (v @ h)))"

record rpc_reject =
  rj_stat :: int
  rj_range :: "(int \<times> int) option"
  rj_why :: "int option"
  rj_data :: bytes

definition rpc_reject_unpack :: "bytes \<Rightarrow> rpc_reject result" where
  "rpc_reject_unpack buf =
     rbind (class_unpack BE (rpc_stat_hdr AUTH_ERROR) buf) (\<lambda>p.
     let st = get_int (rpc_stat_hdr AUTH_ERROR) ''stat'' (obj_vals p); d = obj_data p
     in if st = 0 then
          rbind (struct_unpack BE [fI, fI] (take 8 d)) (\<lambda>vs.
            Inr \<lparr>rj_stat = st, rj_range = Some (ival (vs ! 0), ival (vs ! 1)), rj_why = None, rj_data = drop 8 d\<rparr>)
        else if st = AUTH_ERROR then
          rbind (unpack_uint BE 4 (take 4 d)) (\<lambda>w.
            Inr \<lparr>rj_stat = st, rj_range = None, rj_why = Some w, rj_data = drop 4 d\<rparr>)
        else Inr \<lparr>rj_stat = st, rj_range = None, rj_why = None, rj_data = d\<rparr>)"

definition rpc_reject_init :: "bytes \<Rightarrow> rpc_reject result" where
  "rpc_reject_init = packet_init 4 rpc_reject_unpack"

definition rpc_reject_len :: "rpc_reject \<Rightarrow> nat" where
  "rpc_reject_len r = 4 + (if rj_stat r = 0 then 8 else if rj_stat r = AUTH_ERROR then 4 else 0) + length (rj_data r)"

definition rpc_reject_bytes :: "rpc_reject \<Rightarrow> bytes result" where
  "rpc_reject_bytes r =
     (if rj_stat r = 0 then
        (case rj_range r of
           None \<Rightarrow> Inl AttributeError
         | Some (lo, hi) \<Rightarrow> rbind (struct_pack BE [fI, fI, fI] [VInt (rj_stat r), VInt lo, VInt hi]) (\<lambda>h. Inr (h @ rj_data r)))
      else if rj_stat r = AUTH_ERROR then
        (case rj_why r of
           None \<Rightarrow> Inl AttributeError
         | Some w \<Rightarrow> rbind (struct_pack BE [fI, fI] [VInt (rj_stat r), VInt w]) (\<lambda>h. Inr (h @ rj_data r)))
      else packet_bytes BE (rpc_stat_hdr AUTH_ERROR) [VInt (rj_stat r)] (rj_data r))"

datatype rpc_reply_body = Accepted rpc_accept | Rejected rpc_reject | OtherReply bytes

record rpc_reply =
  rr_stat :: int
  rr_body :: rpc_reply_body

definition rpc_reply_unpack :: "bytes \<Rightarrow> rpc_reply result" where
  "rpc_reply_unpack buf =
     rbind (class_unpack BE (rpc_stat_hdr 0) buf) (\<lambda>p.
     let st = get_int (rpc_stat_hdr 0) ''stat'' (obj_vals p)
     in if st = 0 then rbind (rpc_accept_init (obj_data p)) (\<lambda>a. Inr \<lparr>rr_stat = st, rr_body = Accepted a\<rparr>)
        else if st = 1 then rbind (rpc_reject_init (obj_data p)) (\<lambda>a. Inr \<lparr>rr_stat = st, rr_body = Rejected a\<rparr>)
        else Inr \<lparr>rr_stat = st, rr_body = OtherReply (obj_data p)\<rparr>)"

definition rpc_reply_init :: "bytes \<Rightarrow> rpc_reply result" where
  "rpc_reply_init = packet_init 4 rpc_reply_unpack"

fun rpc_reply_body_bytes :: "rpc_reply_body \<Rightarrow> bytes result" where
  "rpc_reply_body_bytes (Accepted a) = rpc_accept_bytes a"
| "rpc_reply_body_bytes (Rejected r) = rpc_reject_bytes r"
| "rpc_reply_body_bytes (OtherReply d) = Inr d"

fun rpc_reply_body_len :: "rpc_reply_body \<Rightarrow> nat" where
  "rpc_reply_body_len (Accepted a) = rpc_accept_len a"
| "rpc_reply_body_len (Rejected r) = rpc_reject_len r"
| "rpc_reply_body_len (OtherReply d) = length d"

text \<open>Replies and messages inherit \<^verbatim>\<open>__bytes__\<close> and \<^verbatim>\<open>__len__\<close>.\<close>

definition rpc_reply_bytes :: "rpc_reply \<Rightarrow> bytes result" where
  "rpc_reply_bytes r =
     rbind (packet_pack_hdr BE (rpc_stat_hdr 0) [VInt (rr_stat r)]) (\<lambda>h.
     rbind (rpc_reply_body_bytes (rr_body r)) (\<lambda>b. Inr (h @ b)))"

definition rpc_reply_len :: "rpc_reply \<Rightarrow> nat" where
  "rpc_reply_len r = 4 + rpc_reply_body_len (rr_body r)"

section \<open>Messages\<close>

definition rpc_hdr :: hdr where
  "rpc_hdr = [(''xid'', fI, VInt 0), (''dir'', fI, VInt 0)]"

datatype rpc_body = Call rpc_call | Reply rpc_reply | OtherBody bytes

record rpc =
  rpc_xid :: int
  rpc_dir :: int
  rpc_body_of :: rpc_body

definition rpc_unpack :: "bytes \<Rightarrow> rpc result" where
  "rpc_unpack buf =
     rbind (class_unpack BE rpc_hdr buf) (\<lambda>p.
     let x = get_int rpc_hdr ''xid'' (obj_vals p); dir = get_int rpc_hdr ''dir'' (obj_vals p)
     in if dir = 0 then rbind (rpc_call_init (obj_data p)) (\<lambda>c. Inr \<lparr>rpc_xid = x, rpc_dir = dir, rpc_body_of = Call c\<rparr>)
        else if dir = 1 then rbind (rpc_reply_init (obj_data p)) (\<lambda>c. Inr \<lparr>rpc_xid = x, rpc_dir = dir, rpc_body_of = Reply c\<rparr>)
        else Inr \<lparr>rpc_xid = x, rpc_dir = dir, rpc_body_of = OtherBody (obj_data p)\<rparr>)"

definition rpc_init :: "bytes \<Rightarrow> rpc result" where
  "rpc_init = packet_init (hdr_len rpc_hdr) rpc_unpack"

fun rpc_body_bytes :: "rpc_body \<Rightarrow> bytes result" where
  "rpc_body_bytes (Call c) = rpc_call_bytes c"
| "rpc_body_bytes (Reply r) = rpc_reply_bytes r"
| "rpc_body_bytes (OtherBody d) = Inr d"

definition rpc_bytes :: "rpc \<Rightarrow> bytes result" where
  "rpc_bytes r =
     rbind (packet_pack_hdr BE rpc_hdr [VInt (rpc_xid r), VInt (rpc_dir r)]) (\<lambda>h.
     rbind (rpc_body_bytes (rpc_body_of r)) (\<lambda>b. Inr (h @ b)))"

section \<open>XDR lists\<close>

text \<open>
  \<^verbatim>\<open>unpack_xdrlist\<close> takes the class of the items: its constructor and its \<^verbatim>\<open>data\<close>, from which the
  loop goes on.
\<close>

definition xdr_round :: "(bytes \<Rightarrow> 'a result) \<Rightarrow> ('a \<Rightarrow> bytes) \<Rightarrow> bytes \<Rightarrow> 'a round" where
  "xdr_round init rest buf =
     (if buf = [] then Stop
      else if starts_with buf [0, 0, 0, 1] then
        (case init (drop 4 buf) of Inl e \<Rightarrow> Fail e | Inr p \<Rightarrow> Item p (rest p))
      else if starts_with buf [0, 0, 0, 0] then Stop
      else Fail UnpackError)"

definition unpack_xdrlist :: "(bytes \<Rightarrow> 'a result) \<Rightarrow> ('a \<Rightarrow> bytes) \<Rightarrow> bytes \<Rightarrow> 'a list result" where
  "unpack_xdrlist init rest = parse_loop (xdr_round init rest)"

definition pack_xdrlist :: "bytes list \<Rightarrow> bytes" where
  "pack_xdrlist items = join [0, 0, 0, 1] items @ [0, 0, 0, 0]"

section \<open>Reading back\<close>

lemma rpc_tables [simp]:
  "table_ok rpc_auth_hdr" "hdr_len rpc_auth_hdr = 4" "table_ok rpc_call_hdr" "hdr_len rpc_call_hdr = 16"
  "table_ok (rpc_stat_hdr d)" "hdr_len (rpc_stat_hdr d) = 4" "table_ok rpc_hdr" "hdr_len rpc_hdr = 8"
  by (simp_all add: rpc_auth_hdr_def rpc_call_hdr_def rpc_stat_hdr_def rpc_hdr_def table_ok_def hdr_fields_def fmt_ok_def)

lemma rpc_auth_read:
  assumes "rpc_auth_bytes a = Inr b"
  shows "rpc_auth_init (b @ rest) = Inr a \<and> rpc_auth_len a = length b"
proof -
  obtain h n where h: "packet_pack_hdr BE rpc_auth_hdr [VInt (au_flavor a)] = Inr h"
    "pack_uint BE 4 (int (length (au_data a))) = Inr n" "b = h @ n @ au_data a"
    using assms by (auto simp: rpc_auth_bytes_def rbind_Inr_iff)
  have "struct_pack BE (hdr_fmt rpc_auth_hdr) [VInt (au_flavor a)] = Inr h"
    using h(1) by (subst (asm) pack_hdr_flat) simp_all
  then have e: "exact_all (hdr_fmt rpc_auth_hdr) [VInt (au_flavor a)]"
    by (auto simp: rpc_auth_hdr_def result_simps split: if_splits)
  have u: "length h = 4" "class_unpack BE rpc_auth_hdr (b @ rest) = Inr (obj_make [VInt (au_flavor a)] (n @ au_data a @ rest))"
    using class_pack_read [OF rpc_tables(1) e h(1)] h(3) by auto
  have n: "length n = 4" "unpack_uint BE 4 n = Inr (int (length (au_data a)))"
    using pack_uint_unpack [OF h(2)] by auto
  show ?thesis
    using u n h(3)
    by (cases a) (simp add: rpc_auth_init_def packet_init_def rpc_auth_unpack_def obj_make_def rpc_auth_len_def
        rpc_auth_hdr_def get_int_Cons)
qed

lemma stat_read:
  assumes "packet_pack_hdr BE (rpc_stat_hdr d) [VInt s] = Inr h"
  shows "length h = 4 \<and> class_unpack BE (rpc_stat_hdr d) (h @ r) = Inr (obj_make [VInt s] r) \<and> unpack_uint BE 4 h = Inr s"
proof -
  have p: "struct_pack BE (hdr_fmt (rpc_stat_hdr d)) [VInt s] = Inr h"
    using assms by (subst (asm) pack_hdr_flat) simp_all
  then have e: "exact_all (hdr_fmt (rpc_stat_hdr d)) [VInt s]"
    by (auto simp: rpc_stat_hdr_def result_simps split: if_splits)
  have "pack_uint BE 4 s = Inr h"
    using p by (auto simp: rpc_stat_hdr_def pack_uint_eq result_simps split: if_splits)
  from pack_uint_unpack [OF this] class_pack_read [OF rpc_tables(5) e assms, of r] show ?thesis by simp
qed

lemma words_read:
  assumes "struct_pack BE (replicate k fI) (map VInt xs) = Inr b" "k = length xs"
  shows "length b = 4 * k \<and> struct_unpack BE (replicate k fI) b = Inr (map VInt xs)"
proof -
  have i: "int_fmts (replicate k fI)" by (simp add: int_fmts_def list_all_iff)
  have c: "calcsize (replicate k fI) = 4 * k" by (induction k) simp_all
  show ?thesis using pack_row_unpack [OF i, of BE xs b] assms by (simp add: pack_row_def c [unfolded assms(2)])
qed

definition rpc_accept_ok :: "rpc_accept \<Rightarrow> bool" where
  "rpc_accept_ok a \<longleftrightarrow> (ra_range a = None) = (ra_stat a \<noteq> PROG_MISMATCH) \<and>
     (ra_stat a = 0 \<or> ra_stat a = PROG_MISMATCH \<or> ra_data a = [])"

definition rpc_reject_ok :: "rpc_reject \<Rightarrow> bool" where
  "rpc_reject_ok r \<longleftrightarrow> (rj_range r = None) = (rj_stat r \<noteq> 0) \<and> (rj_why r = None) = (rj_stat r \<noteq> AUTH_ERROR)"

lemma three_words:
  assumes "struct_pack BE [fI, fI, fI] [VInt a, VInt lo, VInt hi] = Inr h"
  obtains x y where "h = x @ y" "length x = 4" "length y = 8" "unpack_uint BE 4 x = Inr a"
    "struct_unpack BE [fI, fI] y = Inr [VInt lo, VInt hi]" "packet_pack_hdr BE (rpc_stat_hdr d) [VInt a] = Inr x"
proof -
  obtain x y where h: "pack1 BE fI (VInt a) = Inr x" "struct_pack BE [fI, fI] [VInt lo, VInt hi] = Inr y" "h = x @ y"
    using assms by (auto simp: rbind_Inr_iff)
  have x: "pack_uint BE 4 a = Inr x" using h(1) by (auto simp: pack_uint_eq split: if_splits)
  have "packet_pack_hdr BE (rpc_stat_hdr d) [VInt a] = Inr x"
    using h(1) by (subst pack_hdr_flat) (simp_all add: rpc_stat_hdr_def)
  moreover have "length y = 8 \<and> struct_unpack BE [fI, fI] y = Inr [VInt lo, VInt hi]"
    using words_read [of 2 "[lo, hi]" y] h(2) by (simp add: numeral_2_eq_2)
  ultimately show thesis using that [of x y] h(3) pack_uint_unpack [OF x] by blast
qed

lemma rpc_accept_read:
  assumes "rpc_accept_ok a" "rpc_accept_bytes a = Inr b"
  shows "rpc_accept_init b = Inr a \<and> rpc_accept_len a = length b"
proof -
  obtain v r where v: "rpc_auth_bytes (ra_verf a) = Inr v" "b = v @ r"
    using assms(2) by (auto simp: rpc_accept_bytes_def rbind_Inr_iff split: if_splits option.splits)
  have au: "rpc_auth_init b = Inr (ra_verf a)" "rpc_auth_len (ra_verf a) = length v"
    using rpc_auth_read [OF v(1)] v(2) by auto
  show ?thesis
  proof (cases "ra_stat a = PROG_MISMATCH")
    case True
    then obtain lo hi h where h: "ra_range a = Some (lo, hi)"
      "struct_pack BE [fI, fI, fI] [VInt PROG_MISMATCH, VInt lo, VInt hi] = Inr h" "r = h @ ra_data a"
      using assms(2) v by (auto simp: rpc_accept_bytes_def rbind_Inr_iff split: option.splits)
    obtain x y where "h = x @ y" "length x = 4" "length y = 8" "unpack_uint BE 4 x = Inr PROG_MISMATCH"
      "struct_unpack BE [fI, fI] y = Inr [VInt lo, VInt hi]"
      using three_words [OF h(2)] by metis
    then show ?thesis
      using True au v(2) h(1,3)
      by (cases a) (simp add: rpc_accept_init_def packet_init_def rpc_accept_unpack_def rpc_accept_len_def PROG_MISMATCH_def)
  next
    case False
    then obtain h where h: "packet_pack_hdr BE (rpc_stat_hdr 0) [VInt (ra_stat a)] = Inr h" "r = h @ ra_data a"
      using assms(2) v by (auto simp: rpc_accept_bytes_def packet_bytes_def rbind_Inr_iff)
    from stat_read [OF h(1), of "[]"] False au v(2) h(2) assms(1) show ?thesis
      by (cases a) (auto simp: rpc_accept_init_def packet_init_def rpc_accept_unpack_def rpc_accept_len_def rpc_accept_ok_def)
  qed
qed

lemma rpc_reject_read:
  assumes "rpc_reject_ok a" "rpc_reject_bytes a = Inr b"
  shows "rpc_reject_init b = Inr a \<and> rpc_reject_len a = length b"
proof -
  have g: "get_int (rpc_stat_hdr AUTH_ERROR) ''stat'' [VInt s] = s" for s by (simp add: rpc_stat_hdr_def get_int_Cons)
  consider "rj_stat a = 0" | "rj_stat a = AUTH_ERROR" "rj_stat a \<noteq> 0" | "rj_stat a \<noteq> 0" "rj_stat a \<noteq> AUTH_ERROR"
    by blast
  then show ?thesis
  proof cases
    case 1
    then obtain lo hi h where h: "rj_range a = Some (lo, hi)"
      "struct_pack BE [fI, fI, fI] [VInt 0, VInt lo, VInt hi] = Inr h" "b = h @ rj_data a"
      using assms(2) by (auto simp: rpc_reject_bytes_def rbind_Inr_iff split: option.splits)
    obtain x y where x: "h = x @ y" "length x = 4" "length y = 8" "struct_unpack BE [fI, fI] y = Inr [VInt lo, VInt hi]"
      "packet_pack_hdr BE (rpc_stat_hdr AUTH_ERROR) [VInt 0] = Inr x"
      using three_words [OF h(2)] by metis
    have "rj_why a = None" using assms(1) 1 by (simp add: rpc_reject_ok_def AUTH_ERROR_def)
    then show ?thesis
      using 1 x(1-4) h(1,3) stat_read [OF x(5)] g
      by (cases a) (simp add: rpc_reject_init_def packet_init_def rpc_reject_unpack_def rpc_reject_len_def obj_make_def Let_def)
  next
    case 2
    then obtain w h where h: "rj_why a = Some w" "struct_pack BE [fI, fI] [VInt AUTH_ERROR, VInt w] = Inr h" "b = h @ rj_data a"
      using assms(2) by (auto simp: rpc_reject_bytes_def rbind_Inr_iff split: option.splits)
    obtain x y where x: "pack1 BE fI (VInt AUTH_ERROR) = Inr x" "pack1 BE fI (VInt w) = Inr y" "h = x @ y"
      using h(2) by (auto simp: rbind_Inr_iff)
    have p: "packet_pack_hdr BE (rpc_stat_hdr AUTH_ERROR) [VInt AUTH_ERROR] = Inr x"
      using x(1) by (subst pack_hdr_flat) (simp_all add: rpc_stat_hdr_def)
    have q: "pack_uint BE 4 w = Inr y" using x(2) by (auto simp: pack_uint_eq split: if_splits)
    have "rj_range a = None" using assms(1) 2 by (simp add: rpc_reject_ok_def)
    then show ?thesis
      using 2 x(3) h(1,3) stat_read [OF p] pack_uint_unpack [OF q] g
      by (cases a) (simp add: rpc_reject_init_def packet_init_def rpc_reject_unpack_def rpc_reject_len_def obj_make_def Let_def AUTH_ERROR_def)
  next
    case 3
    then obtain h where h: "packet_pack_hdr BE (rpc_stat_hdr AUTH_ERROR) [VInt (rj_stat a)] = Inr h" "b = h @ rj_data a"
      using assms(2) by (auto simp: rpc_reject_bytes_def packet_bytes_def rbind_Inr_iff)
    then show ?thesis
      using 3 stat_read [OF h(1)] g assms(1)
      by (cases a) (auto simp: rpc_reject_init_def packet_init_def rpc_reject_unpack_def rpc_reject_len_def obj_make_def
          Let_def rpc_reject_ok_def)
  qed
qed

lemma rpc_reply_read:
  assumes "rpc_reply_bytes r = Inr b"
    and "case rr_body r of Accepted a \<Rightarrow> rr_stat r = 0 \<and> rpc_accept_ok a
       | Rejected a \<Rightarrow> rr_stat r = 1 \<and> rpc_reject_ok a | OtherReply d \<Rightarrow> rr_stat r \<noteq> 0 \<and> rr_stat r \<noteq> 1"
  shows "rpc_reply_init b = Inr r \<and> rpc_reply_len r = length b"
proof -
  obtain h d where h: "packet_pack_hdr BE (rpc_stat_hdr 0) [VInt (rr_stat r)] = Inr h"
    "rpc_reply_body_bytes (rr_body r) = Inr d" "b = h @ d"
    using assms(1) by (auto simp: rpc_reply_bytes_def rbind_Inr_iff)
  have g: "get_int (rpc_stat_hdr 0) ''stat'' [VInt s] = s" for s by (simp add: rpc_stat_hdr_def get_int_Cons)
  show ?thesis
    using stat_read [OF h(1), of d] h(2,3) assms(2) g
    by (cases r; cases "rr_body r")
      (auto simp: rpc_reply_init_def packet_init_def rpc_reply_unpack_def obj_make_def Let_def rpc_reply_len_def
        dest: rpc_accept_read rpc_reject_read)
qed

section \<open>Properties\<close>

text \<open>
  A reply, accepted with any status or rejected for any reason, is read back from its
  bytes, and its length is that of its bytes.
\<close>

theorem rpc_reply_roundtrip:
  assumes "rpc_reply_bytes r = Inr b"
    and "case rr_body r of Accepted a \<Rightarrow> rr_stat r = 0 \<and> rpc_accept_ok a
       | Rejected a \<Rightarrow> rr_stat r = 1 \<and> rpc_reject_ok a | OtherReply d \<Rightarrow> rr_stat r \<noteq> 0 \<and> rr_stat r \<noteq> 1"
    and "packet_pack_hdr BE rpc_hdr [VInt x, VInt 1] = Inr h"
  shows "rpc_init (h @ b) = Inr \<lparr>rpc_xid = x, rpc_dir = 1, rpc_body_of = Reply r\<rparr> \<and> rpc_reply_len r = length b"
proof -
  have "struct_pack BE (hdr_fmt rpc_hdr) [VInt x, VInt 1] = Inr h"
    using assms(3) by (subst (asm) pack_hdr_flat) simp_all
  then have e: "exact_all (hdr_fmt rpc_hdr) [VInt x, VInt 1]"
    by (auto simp: rpc_hdr_def result_simps split: if_splits)
  have u: "class_unpack BE rpc_hdr (h @ b) = Inr (obj_make [VInt x, VInt 1] b)"
    using class_pack_read [OF rpc_tables(7) e assms(3)] by simp
  have g: "get_int rpc_hdr ''xid'' [VInt x, VInt 1] = x" "get_int rpc_hdr ''dir'' [VInt x, VInt 1] = 1"
    by (simp_all add: rpc_hdr_def get_int_Cons)
  show ?thesis
    using rpc_reply_read [OF assms(1,2)] u g
    by (simp add: rpc_init_def packet_init_def rpc_unpack_def obj_make_def Let_def)
qed

text \<open>
  Packing a call that was parsed puts its data twice, before the credentials and after
  them: the bytes are those that were parsed exactly when there is no data.
\<close>

theorem rpc_call_data_twice:
  assumes "exact_all (hdr_fmt rpc_call_hdr) vs" "packet_pack_hdr BE rpc_call_hdr vs = Inr h"
    and "rpc_auth_bytes cred = Inr a" "rpc_auth_bytes verf = Inr v"
  shows "\<exists>c. rpc_call_init (h @ a @ v @ d) = Inr c \<and> rc_vals c = vs \<and> rc_cred c = Some cred \<and>
    rc_verf c = Some verf \<and> rc_data c = d \<and> rpc_call_bytes c = Inr (h @ d @ a @ v @ d) \<and>
    (rpc_call_bytes c = Inr (h @ a @ v @ d)) = (d = [])"
proof -
  have u: "class_unpack BE rpc_call_hdr (h @ a @ v @ d) = Inr (obj_make vs (a @ v @ d))"
    using class_pack_read [OF rpc_tables(3) assms(1,2)] by simp
  have "rpc_auth_init (a @ v @ d) = Inr cred" "rpc_auth_len cred = length a" "rpc_auth_init (v @ d) = Inr verf"
    "rpc_auth_len verf = length v"
    using rpc_auth_read assms(3,4) by blast+
  then have "rpc_call_init (h @ a @ v @ d) = Inr \<lparr>rc_vals = vs, rc_cred = Some cred, rc_verf = Some verf, rc_data = d\<rparr>"
    using u by (simp add: rpc_call_init_def packet_init_def rpc_call_unpack_def obj_make_def)
  then show ?thesis
    using assms by (simp add: rpc_call_bytes_def packet_bytes_def auth_or_new_def)
qed

text \<open>
  \<^verbatim>\<open>pack_xdrlist\<close> leaves out the marker in front of the first item: \<^verbatim>\<open>unpack_xdrlist\<close> reads the
  items of a header class back when it is put there, and fails on what was packed unless the
  first item happens to begin like a marker.
\<close>

theorem xdrlist_lacks_marker:
  assumes "table_ok t" "list_all2 (\<lambda>vs b. exact_all (hdr_fmt t) vs \<and> packet_pack_hdr BE t vs = Inr b) vss bs"
    and "bs = b0 # cs" "\<not> starts_with (b0 @ concat cs) [0, 0, 0]" "4 \<le> hdr_len t"
  shows "rbind (unpack_xdrlist (class_init BE t) obj_data ([0, 0, 0, 1] @ pack_xdrlist bs)) (\<lambda>ps. Inr (map obj_vals ps)) =
      Inr vss \<and>
    unpack_xdrlist (class_init BE t) obj_data (pack_xdrlist bs) = Inl UnpackError"
proof -
  let ?m = "[0, 0, 0, 1] :: bytes"
  have item: "xdr_round (class_init BE t) obj_data (?m @ b @ r) = Item (obj_make vs r) r"
    if "exact_all (hdr_fmt t) vs" "packet_pack_hdr BE t vs = Inr b" for vs b r
    using class_pack_read [OF assms(1) that, of r]
    by (simp add: xdr_round_def starts_with_def class_init_def packet_init_def obj_make_def)
  have tail: "unpack_xdrlist (class_init BE t) obj_data [0, 0, 0, 0] = Inr []"
    unfolding unpack_xdrlist_def by (rule parse_loop_Stop) (simp add: xdr_round_def starts_with_def)
  have "rbind (unpack_xdrlist (class_init BE t) obj_data (concat (map (\<lambda>b. ?m @ b) bs) @ [0, 0, 0, 0])) (\<lambda>ps. Inr (map obj_vals ps)) =
      Inr vss"
    using assms(2)
  proof (induction vss bs rule: list_all2_induct)
    case Nil
    then show ?case by (simp add: tail)
  next
    case (Cons vs vss b bs)
    let ?r = "concat (map (\<lambda>b. ?m @ b) bs) @ [0, 0, 0, 0]"
    obtain ps where ps: "unpack_xdrlist (class_init BE t) obj_data ?r = Inr ps" "map obj_vals ps = vss"
      using Cons.IH by (auto simp: rbind_Inr_iff)
    have "unpack_xdrlist (class_init BE t) obj_data (?m @ b @ ?r) = Inr (obj_make vs ?r # ps)"
    proof -
      have i: "xdr_round (class_init BE t) obj_data (?m @ b @ ?r) = Item (obj_make vs ?r) ?r"
        using item Cons.hyps(1) by blast
      show ?thesis
        using parse_loop_Item [of "xdr_round (class_init BE t) obj_data", OF i] ps(1)
        by (simp add: unpack_xdrlist_def)
    qed
    then show ?case using ps(2) by (simp add: obj_make_def)
  qed
  moreover have "?m @ join ?m ys = concat (map (\<lambda>b. ?m @ b) ys)" if "ys \<noteq> []" for ys
    using that by (induction ?m ys rule: join.induct) auto
  then have "?m @ pack_xdrlist bs = concat (map (\<lambda>b. ?m @ b) bs) @ [0, 0, 0, 0]"
    using assms(3) by (simp add: pack_xdrlist_def flip: append_assoc)
  moreover have "unpack_xdrlist (class_init BE t) obj_data (pack_xdrlist bs) = Inl UnpackError"
  proof -
    obtain vs where "packet_pack_hdr BE t vs = Inr b0" using assms(2,3) by (auto simp: list_all2_Cons2)
    then have l: "4 \<le> length b0" using packet_pack_hdr_length assms(5) by fastforce
    then obtain w x y z r where b: "b0 = w # x # y # z # r"
      by (cases b0; cases "tl b0"; cases "tl (tl b0)"; cases "tl (tl (tl b0))") auto
    obtain q where q: "pack_xdrlist bs = b0 @ q" using assms(3) by (cases cs) (auto simp: pack_xdrlist_def)
    show ?thesis
      unfolding unpack_xdrlist_def
      by (rule parse_loop_Fail) (use assms(4) in \<open>auto simp: xdr_round_def starts_with_def q b\<close>)
  qed
  ultimately show ?thesis by simp
qed

theorem rpc_reply_roundtrip_witness:
  "\<exists>b h. rpc_reply_bytes \<lparr>rr_stat = 1, rr_body = Rejected \<lparr>rj_stat = 0, rj_range = Some (2, 3), rj_why = None, rj_data = []\<rparr>\<rparr> =
       Inr b \<and> packet_pack_hdr BE rpc_hdr [VInt 7, VInt 1] = Inr h \<and> is_ok (rpc_init (h @ b)) \<and> length b = 16"
proof -
  let ?r = "\<lparr>rr_stat = 1, rr_body = Rejected \<lparr>rj_stat = 0, rj_range = Some (2, 3), rj_why = None, rj_data = []\<rparr>\<rparr>"
  obtain b where b: "rpc_reply_bytes ?r = Inr b"
    by (simp add: rpc_reply_bytes_def rpc_stat_hdr_def packet_pack_hdr_def rpc_reject_bytes_def)
  obtain h where h: "packet_pack_hdr BE rpc_hdr [VInt 7, VInt 1] = Inr h"
    by (simp add: packet_pack_hdr_def rpc_hdr_def)
  have "rpc_reply_len ?r = 16" by (simp add: rpc_reply_len_def rpc_reject_len_def)
  then show ?thesis
    using rpc_reply_roundtrip [OF b _ h] b h by (simp add: rpc_reject_ok_def AUTH_ERROR_def)
qed

theorem rpc_call_data_twice_witness:
  "\<exists>h a c. rpc_auth_bytes rpc_auth_new = Inr a \<and> rpc_call_init (h @ a @ a @ [5]) = Inr c \<and>
     rpc_call_bytes c = Inr (h @ [5] @ a @ a @ [5])"
proof -
  have e: "exact_all (hdr_fmt rpc_call_hdr) (map VInt [2, 100000, 2, 4])" by (simp add: rpc_call_hdr_def exact_U)
  obtain h where h: "packet_pack_hdr BE rpc_call_hdr (map VInt [2, 100000, 2, 4]) = Inr h"
    using packet_pack_hdr_exact [OF e] by blast
  obtain a where a: "rpc_auth_bytes rpc_auth_new = Inr a"
    by (simp add: rpc_auth_bytes_def rpc_auth_new_def packet_pack_hdr_def rpc_auth_hdr_def pack_uint_eq)
  show ?thesis using rpc_call_data_twice [OF e h a a, of "[5]"] a by blast
qed

theorem xdrlist_lacks_marker_witness:
  "\<exists>b. packet_pack_hdr BE pmap_Pmap_hdr (map VInt [16909060, 2, 17, 111]) = Inr b \<and>
     unpack_xdrlist (class_init BE pmap_Pmap_hdr) obj_data (pack_xdrlist [b]) = Inl UnpackError"
proof -
  let ?vs = "map VInt [16909060, 2, 17, 111]"
  have t: "table_ok pmap_Pmap_hdr" "4 \<le> hdr_len pmap_Pmap_hdr"
    by (simp_all add: pmap_Pmap_hdr_def table_ok_def hdr_fields_def fmt_ok_def)
  have e: "exact_all (hdr_fmt pmap_Pmap_hdr) ?vs" by (simp add: pmap_Pmap_hdr_def exact_U)
  have b: "packet_pack_hdr BE pmap_Pmap_hdr ?vs =
      Inr ([1, 2, 3, 4] @ int_bytes BE 4 2 @ int_bytes BE 4 17 @ int_bytes BE 4 111)" (is "_ = Inr ?b")
    by (simp add: packet_pack_hdr_def pmap_Pmap_hdr_def) (simp add: int_bytes_def be_bytes_def)
  have "list_all2 (\<lambda>vs b. exact_all (hdr_fmt pmap_Pmap_hdr) vs \<and> packet_pack_hdr BE pmap_Pmap_hdr vs = Inr b) [?vs] [?b]"
    using e b by simp
  from xdrlist_lacks_marker [OF t(1) this refl _ t(2)] b show ?thesis by (auto simp: starts_with_def)
qed

end
