(* ===== verification/Boot.thy ===== *)
theory Boot
  imports Tables "HOL-Library.AList"
begin

text \<open>
  DHCP, \<^verbatim>\<open>dpkt/dhcp.py\<close>, and TFTP, \<^verbatim>\<open>dpkt/tftp.py\<close>: the fixed header with its options, and the
  messages with their zero-terminated strings. A dict of options is its list of items in insertion
  order, and an assignment to a key is \<open>AList.update\<close>.
\<close>

section \<open>DHCP\<close>

definition dhcp_hdr :: hdr where
  "dhcp_hdr =
     [(''op'', fB, VInt 1), (''hrd'', fB, VInt 1), (''hln'', fB, VInt 6), (''hops'', fB, VInt 0),
      (''xid'', fI, VInt 0xdeadbeef), (''secs'', fH, VInt 0), (''flags'', fH, VInt 0), (''ciaddr'', fI, VInt 0),
      (''yiaddr'', fI, VInt 0), (''siaddr'', fI, VInt 0), (''giaddr'', fI, VInt 0), (''chaddr'', Str 16, VBytes (zeros 16)),
      (''sname'', Str 64, VBytes (zeros 64)), (''file'', Str 128, VBytes (zeros 128)), (''magic'', fI, VInt 0x63825363)]"

record dhcp =
  dhcp_vals :: "pval list"
  dhcp_opts :: "(int \<times> pval) list"
  dhcp_data :: bytes

text \<open>The class attribute \<^verbatim>\<open>opts\<close>: its values are \<^verbatim>\<open>str\<close>; a parsed option has \<^verbatim>\<open>bytes\<close>.\<close>

definition dhcp_default_opts :: "(int \<times> pval) list" where
  "dhcp_default_opts = [(53, VStr [CHR 0x01]), (55, VStr [CHR 0x32, CHR 0x03, CHR 0x01, CHR 0x06])]"

definition dhcp_new :: "(string \<times> pval) list \<Rightarrow> dhcp" where
  "dhcp_new kws = \<lparr>dhcp_vals = packet_kwargs dhcp_hdr kws, dhcp_opts = dhcp_default_opts, dhcp_data = []\<rparr>"

fun pval_len :: "pval \<Rightarrow> nat" where
  "pval_len (VBytes b) = length b"
| "pval_len (VStr s) = length s"
| "pval_len (VTuple vs) = length vs"
| "pval_len (VInt i) = 0"

definition dhcp_len :: "dhcp \<Rightarrow> nat" where
  "dhcp_len d = hdr_len dhcp_hdr + sum_list (map (\<lambda>(t, v). 2 + pval_len v) (dhcp_opts d)) + 1 + length (dhcp_data d)"

definition dhcp_opt_bytes :: "int \<times> pval \<Rightarrow> bytes result" where
  "dhcp_opt_bytes o1 =
     struct_pack BE [fB, fB, Str (pval_len (snd o1))] [VInt (fst o1), VInt (int (pval_len (snd o1))), snd o1]"

definition dhcp_pack_opts :: "dhcp \<Rightarrow> bytes result" where
  "dhcp_pack_opts d =
     (if dhcp_opts d = [] then Inr []
      else rbind (concat_result dhcp_opt_bytes (dhcp_opts d)) (\<lambda>b. Inr (b @ [0xff])))"

definition dhcp_bytes :: "dhcp \<Rightarrow> bytes result" where
  "dhcp_bytes d =
     rbind (packet_pack_hdr BE dhcp_hdr (dhcp_vals d)) (\<lambda>h. rbind (dhcp_pack_opts d) (\<lambda>os. Inr (h @ os @ dhcp_data d)))"

text \<open>The loop: the options before the end option, and what follows it.\<close>

function dhcp_parse_opts :: "bytes \<Rightarrow> ((int \<times> pval) list \<times> bytes) result" where
  "dhcp_parse_opts buf =
     (case buf of
        [] \<Rightarrow> Inr ([], [])
      | b # r \<Rightarrow>
          if ord b = 0xff then Inr ([], r)
          else if ord b = 0 then dhcp_parse_opts r
          else rbind (byte_at buf 1) (\<lambda>n.
            rbind (dhcp_parse_opts (drop (2 + nat n) buf)) (\<lambda>(os, rest).
              Inr ((ord b, VBytes (take (nat n) (drop 2 buf))) # os, rest))))"
  by pat_completeness auto
termination by (relation "measure length") auto

declare dhcp_parse_opts.simps [simp del]

definition dhcp_unpack :: "bytes \<Rightarrow> dhcp result" where
  "dhcp_unpack buf =
     rbind (class_unpack BE dhcp_hdr buf) (\<lambda>p.
     let hln = get_int dhcp_hdr ''hln'' (obj_vals p);
         vs = set_val dhcp_hdr ''chaddr'' (VBytes (take (nat hln) (bval (obj_vals p ! 11)))) (obj_vals p)
     in rbind (dhcp_parse_opts (obj_data p)) (\<lambda>(os, rest).
          Inr \<lparr>dhcp_vals = vs, dhcp_opts = os, dhcp_data = rest\<rparr>))"

definition dhcp_init :: "bytes \<Rightarrow> dhcp result" where
  "dhcp_init = packet_init (hdr_len dhcp_hdr) dhcp_unpack"

section \<open>TFTP\<close>

definition OP_RRQ :: int where "OP_RRQ = 1"
definition OP_WRQ :: int where "OP_WRQ = 2"
definition OP_DATA :: int where "OP_DATA = 3"
definition OP_ACK :: int where "OP_ACK = 4"
definition OP_ERR :: int where "OP_ERR = 5"
definition OP_OACK :: int where "OP_OACK = 6"

lemmas tftp_ops = OP_RRQ_def OP_WRQ_def OP_DATA_def OP_ACK_def OP_ERR_def OP_OACK_def

definition tftp_hdr :: hdr where
  "tftp_hdr = [(''opcode'', fH, VInt 1)]"

type_synonym tftp_opts = "(bytes \<times> bytes) list"

text \<open>Attributes that only some messages have are options.\<close>

record tftp =
  tf_opcode :: int
  tf_strict :: bool
  tf_filename :: "bytes option"
  tf_mode :: "bytes option"
  tf_options :: tftp_opts
  tf_block :: "int option"
  tf_errcode :: "int option"
  tf_errmsg :: "bytes option"
  tf_data :: bytes

text \<open>The loop over the pairs of a request: an empty key is skipped, or an error in strict mode.\<close>

fun tftp_pairs :: "bool \<Rightarrow> bytes list \<Rightarrow> tftp_opts \<Rightarrow> tftp_opts result" where
  "tftp_pairs strict (k # v # l) os =
     (if k = [] then (if strict then Inl UnpackError else tftp_pairs strict l os)
      else tftp_pairs strict l (AList.update k v os))"
| "tftp_pairs strict l os = Inr os"

definition tftp_orphan :: "bool \<Rightarrow> bytes list \<Rightarrow> tftp_opts \<Rightarrow> tftp_opts result" where
  "tftp_orphan strict l os =
     (if 2 < length l \<and> odd (length l - 2) \<and> last l \<noteq> [] \<and> map_of os (last l) = None
      then (if strict then Inl UnpackError else Inr (AList.update (last l) [] os)) else Inr os)"

text \<open>\<^verbatim>\<open>unpack\<close> of an object \<open>t\<close>: the constructor calls it on an object without options.\<close>

definition tftp_unpack :: "tftp \<Rightarrow> bytes \<Rightarrow> tftp result" where
  "tftp_unpack t0 buf =
     rbind (class_unpack BE tftp_hdr buf) (\<lambda>p.
     let oc = get_int tftp_hdr ''opcode'' (obj_vals p); d = obj_data p; t = t0\<lparr>tf_opcode := oc, tf_data := d\<rparr>
     in if oc \<in> {OP_RRQ, OP_WRQ} then
          let l = split_byte 0 d
          in rbind (tftp_pairs (tf_strict t) (drop 2 l) []) (\<lambda>os.
             rbind (tftp_orphan (tf_strict t) l os) (\<lambda>os'.
               Inr (t\<lparr>tf_filename := Some (hd l), tf_mode := Some (if 1 < length l then l ! 1 else []),
                     tf_options := os', tf_data := []\<rparr>)))
        else if oc = OP_OACK then
          let l = split_byte 0 d
          in if 1 < length l then
               rbind (tftp_pairs False l []) (\<lambda>os. Inr (t\<lparr>tf_options := os, tf_data := []\<rparr>))
             else Inr t
        else if oc \<in> {OP_DATA, OP_ACK} then
          rbind (unpack_uint BE 2 (take 2 d)) (\<lambda>b. Inr (t\<lparr>tf_block := Some b, tf_data := drop 2 d\<rparr>))
        else if oc = OP_ERR then
          rbind (unpack_uint BE 2 (take 2 d)) (\<lambda>e.
            Inr (t\<lparr>tf_errcode := Some e, tf_errmsg := Some (hd (split_byte 0 (drop 2 d))), tf_data := []\<rparr>))
        else Inr t)"

definition tftp_blank :: tftp where
  "tftp_blank = \<lparr>tf_opcode = 1, tf_strict = False, tf_filename = None, tf_mode = None, tf_options = [],
     tf_block = None, tf_errcode = None, tf_errmsg = None, tf_data = []\<rparr>"

definition tftp_init :: "bytes \<Rightarrow> tftp result" where
  "tftp_init = packet_init (hdr_len tftp_hdr) (tftp_unpack tftp_blank)"

definition attr :: "'a option \<Rightarrow> 'a result" where
  "attr a = (case a of None \<Rightarrow> Inl AttributeError | Some x \<Rightarrow> Inr x)"

definition tftp_flat :: "tftp_opts \<Rightarrow> bytes list" where
  "tftp_flat os = concat (map (\<lambda>(k, v). [k, v]) os)"

definition tftp_body :: "tftp \<Rightarrow> bytes result" where
  "tftp_body t =
     (if tf_opcode t \<in> {OP_RRQ, OP_WRQ} then
        rbind (attr (tf_filename t)) (\<lambda>f. rbind (attr (tf_mode t)) (\<lambda>m.
          Inr (join [0] ([f, m] @ tftp_flat (tf_options t)) @ [0])))
      else if tf_opcode t = OP_OACK then
        Inr (if tf_options t \<noteq> [] then join [0] (tftp_flat (tf_options t)) @ [0] else [])
      else if tf_opcode t \<in> {OP_DATA, OP_ACK} then
        rbind (attr (tf_block t)) (pack_uint BE 2)
      else if tf_opcode t = OP_ERR then
        rbind (attr (tf_errcode t)) (\<lambda>e. rbind (pack_uint BE 2 e) (\<lambda>b.
        rbind (attr (tf_errmsg t)) (\<lambda>m. Inr (b @ m @ [0]))))
      else Inr [])"

definition tftp_bytes :: "tftp \<Rightarrow> bytes result" where
  "tftp_bytes t =
     rbind (tftp_body t) (\<lambda>s. rbind (packet_pack_hdr BE tftp_hdr [VInt (tf_opcode t)]) (\<lambda>h. Inr (h @ s @ tf_data t)))"

definition tftp_len :: "tftp \<Rightarrow> nat result" where
  "tftp_len t = rbind (tftp_bytes t) (\<lambda>b. Inr (length b))"

definition get_option :: "tftp \<Rightarrow> bytes \<Rightarrow> bytes option \<Rightarrow> bytes option" where
  "get_option t name dflt = (case map_of (tf_options t) name of None \<Rightarrow> dflt | Some v \<Rightarrow> Some v)"

section \<open>Reading back\<close>

lemma boot_tables [simp]: "table_ok dhcp_hdr" "hdr_len dhcp_hdr = 240" "table_ok tftp_hdr" "hdr_len tftp_hdr = 2"
  by (simp_all add: dhcp_hdr_def tftp_hdr_def table_ok_def hdr_fields_def fmt_ok_def)

definition dhcp_opt_ok :: "int \<times> pval \<Rightarrow> bool" where
  "dhcp_opt_ok o1 \<longleftrightarrow> 0 < fst o1 \<and> fst o1 < 255 \<and> (case snd o1 of VBytes b \<Rightarrow> length b < 256 | _ \<Rightarrow> False)"

lemma dhcp_opts_read:
  "list_all dhcp_opt_ok os \<Longrightarrow> concat_result dhcp_opt_bytes os = Inr b \<Longrightarrow>
   dhcp_parse_opts (b @ 0xff # rest) = Inr (os, rest)"
proof (induction os arbitrary: b)
  case Nil
  then show ?case by (simp add: dhcp_parse_opts.simps)
next
  case (Cons x os)
  obtain t v where x: "x = (t, VBytes v)" "0 < t" "t < 255" "length v < 256"
    using Cons.prems(1) by (cases x) (auto simp: dhcp_opt_ok_def split: pval.splits)
  obtain u w where uw: "dhcp_opt_bytes x = Inr u" "concat_result dhcp_opt_bytes os = Inr w" "b = u @ w"
    using Cons.prems(2) by (auto simp: result_simps)
  have u: "u = [word_of_int t, word_of_int (int (length v))] @ v"
    using uw(1) x by (auto simp: dhcp_opt_bytes_def int_bytes_def be_bytes_def result_simps split: if_splits)
  define c d :: byte where "c = word_of_int t" and "d = word_of_int (int (length v))"
  have o: "ord c = t" "ord d = int (length v)"
    unfolding c_def d_def using x by (simp_all only: ord_word_of_int) simp_all
  have e: "b @ 0xff # rest = c # d # v @ (w @ 0xff # rest)" by (simp add: u uw(3) c_def d_def)
  show ?case
    unfolding e using Cons.IH [OF _ uw(2)] Cons.prems(1) o x
    by (subst dhcp_parse_opts.simps) simp
qed

lemma dhcp_opts_len: "concat_result dhcp_opt_bytes os = Inr b \<Longrightarrow> length b = sum_list (map (\<lambda>(t, v). 2 + pval_len v) os)"
proof (rule concat_result_length, assumption)
  fix x y
  assume "dhcp_opt_bytes x = Inr y"
  from struct_pack_length [OF this [unfolded dhcp_opt_bytes_def]]
  show "length y = (case x of (t, v) \<Rightarrow> 2 + pval_len v)" by (cases x) simp
qed

section \<open>Options of TFTP\<close>

lemma update_fresh: "k \<notin> fst ` set os \<Longrightarrow> AList.update k v os = os @ [(k, v)]"
  by (induction os) auto

lemma tftp_pairs_flat:
  "\<forall>(k, v) \<in> set os. k \<noteq> [] \<Longrightarrow> distinct (map fst (acc @ os)) \<Longrightarrow>
   tftp_pairs strict (tftp_flat os @ [[]]) acc = Inr (acc @ os)"
proof (induction os arbitrary: acc)
  case Nil
  then show ?case by (simp add: tftp_flat_def)
next
  case (Cons o1 os)
  obtain k v where o1: "o1 = (k, v)" by (cases o1)
  have u: "AList.update k v acc = acc @ [(k, v)]" using Cons.prems(2) by (intro update_fresh) (auto simp: o1)
  have "tftp_flat (o1 # os) = k # v # tftp_flat os" by (simp add: o1 tftp_flat_def)
  then show ?case using Cons.IH [of "acc @ [(k, v)]"] Cons.prems u by (simp add: o1)
qed

lemma tftp_flat_length: "length (tftp_flat os) = 2 * length os"
  by (induction os) (auto simp: tftp_flat_def)

text \<open>What \<^verbatim>\<open>split\<close> makes of joined strings with a final zero.\<close>

lemma split_joined:
  assumes "ps \<noteq> []" "\<forall>p \<in> set ps. 0 \<notin> set p"
  shows "split_byte 0 (join [0] ps @ [0]) = ps @ [[]]"
proof -
  have "join [0] qs @ [0] = join [0] (qs @ [[]])" if "qs \<noteq> []" for qs :: "bytes list"
    using that by (induction "[0] :: bytes" qs rule: join.induct) auto
  then show ?thesis using split_join [of "ps @ [[]]" 0] assms by simp
qed

definition tftp_opts_ok :: "tftp_opts \<Rightarrow> bool" where
  "tftp_opts_ok os \<longleftrightarrow> list_all (\<lambda>(k, v). k \<noteq> [] \<and> 0 \<notin> set k \<and> 0 \<notin> set v) os \<and> distinct (map fst os)"

lemma tftp_flat_no_zero: "tftp_opts_ok os \<Longrightarrow> \<forall>p \<in> set (tftp_flat os). 0 \<notin> set p"
  by (auto simp: tftp_opts_ok_def tftp_flat_def list_all_iff)

lemma tftp_head:
  assumes "packet_pack_hdr BE tftp_hdr [VInt c] = Inr h"
  shows "length h = 2 \<and> class_unpack BE tftp_hdr (h @ r) = Inr (obj_make [VInt c] r) \<and> get_int tftp_hdr ''opcode'' [VInt c] = c"
proof -
  have "struct_pack BE (hdr_fmt tftp_hdr) [VInt c] = Inr h" using assms by (subst (asm) pack_hdr_flat) simp_all
  then have "exact_all (hdr_fmt tftp_hdr) [VInt c]" by (auto simp: tftp_hdr_def result_simps split: if_splits)
  from class_pack_read [OF boot_tables(3) this assms] show ?thesis by (simp add: tftp_hdr_def get_int_Cons)
qed

definition tftp_msg_ok :: "tftp \<Rightarrow> bool" where
  "tftp_msg_ok t \<longleftrightarrow>
     (if tf_opcode t \<in> {OP_RRQ, OP_WRQ} then
        (\<exists>f m. t = tftp_blank\<lparr>tf_opcode := tf_opcode t, tf_filename := Some f, tf_mode := Some m, tf_options := tf_options t\<rparr> \<and>
           0 \<notin> set f \<and> 0 \<notin> set m \<and> tftp_opts_ok (tf_options t))
      else if tf_opcode t = OP_OACK then
        t = tftp_blank\<lparr>tf_opcode := OP_OACK, tf_options := tf_options t\<rparr> \<and> tftp_opts_ok (tf_options t)
      else if tf_opcode t \<in> {OP_DATA, OP_ACK} then
        (\<exists>b. t = tftp_blank\<lparr>tf_opcode := tf_opcode t, tf_block := Some b, tf_data := tf_data t\<rparr>)
      else if tf_opcode t = OP_ERR then
        (\<exists>e m. t = tftp_blank\<lparr>tf_opcode := OP_ERR, tf_errcode := Some e, tf_errmsg := Some m\<rparr> \<and> 0 \<notin> set m)
      else t = tftp_blank\<lparr>tf_opcode := tf_opcode t, tf_data := tf_data t\<rparr>)"

lemma tftp_request_read:
  assumes "tf_opcode t \<in> {OP_RRQ, OP_WRQ}" "tftp_msg_ok t" "tftp_body t = Inr s"
    and "class_unpack BE tftp_hdr b = Inr (obj_make [VInt (tf_opcode t)] (s @ tf_data t))"
    and "get_int tftp_hdr ''opcode'' [VInt (tf_opcode t)] = tf_opcode t"
  shows "tftp_unpack tftp_blank b = Inr t"
proof -
  obtain f m where t: "t = tftp_blank\<lparr>tf_opcode := tf_opcode t, tf_filename := Some f, tf_mode := Some m,
      tf_options := tf_options t\<rparr>" and z: "0 \<notin> set f" "0 \<notin> set m" "tftp_opts_ok (tf_options t)"
    using assms(1,2) by (auto simp: tftp_msg_ok_def)
  have a: "tf_filename t = Some f" "tf_mode t = Some m" "tf_data t = []" by (subst t, simp add: tftp_blank_def)+
  let ?ps = "[f, m] @ tftp_flat (tf_options t)"
  have s: "s = join [0] ?ps @ [0]" using assms(1,3) a by (auto simp: tftp_body_def attr_def)
  have l: "split_byte 0 s = ?ps @ [[]]"
    unfolding s by (rule split_joined) (use z tftp_flat_no_zero [OF z(3)] in auto)
  have p: "tftp_pairs False (tftp_flat (tf_options t) @ [[]]) [] = Inr (tf_options t)"
    using tftp_pairs_flat [of "tf_options t" "[]"] z(3) by (auto simp: tftp_opts_ok_def list_all_iff)
  show ?thesis
    using assms(1,4,5) a(3) p
    by (subst t) (simp add: tftp_unpack_def obj_make_def Let_def l tftp_orphan_def tftp_blank_def)
qed

lemma tftp_oack_read:
  assumes "tf_opcode t = OP_OACK" "tftp_msg_ok t" "tftp_body t = Inr s"
    and "class_unpack BE tftp_hdr b = Inr (obj_make [VInt (tf_opcode t)] (s @ tf_data t))"
    and "get_int tftp_hdr ''opcode'' [VInt (tf_opcode t)] = tf_opcode t"
  shows "tftp_unpack tftp_blank b = Inr t"
proof -
  have t: "t = tftp_blank\<lparr>tf_opcode := OP_OACK, tf_options := tf_options t\<rparr>" and z: "tftp_opts_ok (tf_options t)"
    using assms(1,2) by (auto simp: tftp_msg_ok_def tftp_ops)
  have a: "tf_data t = []" by (subst t) (simp add: tftp_blank_def)
  have s: "s = (if tf_options t \<noteq> [] then join [0] (tftp_flat (tf_options t)) @ [0] else [])"
    using assms(1,3) by (auto simp: tftp_body_def tftp_ops split: if_splits)
  show ?thesis
  proof (cases "tf_options t = []")
    case True
    then show ?thesis
      using assms(1,4,5) a s by (subst t) (simp add: tftp_unpack_def obj_make_def Let_def tftp_ops tftp_blank_def)
  next
    case False
    then have ne: "tftp_flat (tf_options t) \<noteq> []" using tftp_flat_length [of "tf_options t"] by auto
    have l: "split_byte 0 s = tftp_flat (tf_options t) @ [[]]"
      using False s split_joined [OF ne tftp_flat_no_zero [OF z]] by simp
    have p: "tftp_pairs False (tftp_flat (tf_options t) @ [[]]) [] = Inr (tf_options t)"
      using tftp_pairs_flat [of "tf_options t" "[]"] z by (auto simp: tftp_opts_ok_def list_all_iff)
    show ?thesis
      using assms(1,4,5) a p ne by (subst t) (simp add: tftp_unpack_def obj_make_def Let_def l tftp_ops tftp_blank_def)
  qed
qed

lemma tftp_data_read:
  assumes "tf_opcode t \<in> {OP_DATA, OP_ACK}" "tftp_msg_ok t" "tftp_body t = Inr s"
    and "class_unpack BE tftp_hdr b = Inr (obj_make [VInt (tf_opcode t)] (s @ tf_data t))"
    and "get_int tftp_hdr ''opcode'' [VInt (tf_opcode t)] = tf_opcode t"
  shows "tftp_unpack tftp_blank b = Inr t"
proof -
  obtain k where t: "t = tftp_blank\<lparr>tf_opcode := tf_opcode t, tf_block := Some k, tf_data := tf_data t\<rparr>"
    using assms(1,2) by (auto simp: tftp_msg_ok_def tftp_ops)
  have a: "tf_block t = Some k" by (subst t) simp
  have "pack_uint BE 2 k = Inr s" using assms(1,3) a by (auto simp: tftp_body_def attr_def tftp_ops)
  from pack_uint_unpack [OF this] show ?thesis
    using assms(1,4,5) by (subst t) (auto simp: tftp_unpack_def obj_make_def Let_def tftp_ops tftp_blank_def)
qed

lemma tftp_err_read:
  assumes "tf_opcode t = OP_ERR" "tftp_msg_ok t" "tftp_body t = Inr s"
    and "class_unpack BE tftp_hdr b = Inr (obj_make [VInt (tf_opcode t)] (s @ tf_data t))"
    and "get_int tftp_hdr ''opcode'' [VInt (tf_opcode t)] = tf_opcode t"
  shows "tftp_unpack tftp_blank b = Inr t"
proof -
  obtain e m where t: "t = tftp_blank\<lparr>tf_opcode := OP_ERR, tf_errcode := Some e, tf_errmsg := Some m\<rparr>"
    and z: "0 \<notin> set m"
    using assms(1,2) by (auto simp: tftp_msg_ok_def tftp_ops)
  have a: "tf_errcode t = Some e" "tf_errmsg t = Some m" "tf_data t = []" by (subst t, simp add: tftp_blank_def)+
  obtain w where w: "pack_uint BE 2 e = Inr w" "s = w @ m @ [0]"
    using assms(1,3) a by (auto simp: tftp_body_def attr_def tftp_ops rbind_Inr_iff)
  then show ?thesis
    using assms(1,4,5) a(3) pack_uint_unpack [OF w(1)] split_byte_sep [OF z, of "[]"]
    by (subst t) (auto simp: tftp_unpack_def obj_make_def Let_def tftp_ops tftp_blank_def)
qed

section \<open>Properties\<close>

text \<open>
  A DHCP message with options is read back from its bytes, options in order and the data after
  the end option; only the hardware address is cut to its length. Its length is that of the bytes.
\<close>

theorem dhcp_roundtrip:
  assumes "exact_all (hdr_fmt dhcp_hdr) vs" "os \<noteq> []" "list_all dhcp_opt_ok os"
    and "dhcp_bytes \<lparr>dhcp_vals = vs, dhcp_opts = os, dhcp_data = d\<rparr> = Inr b"
  shows "dhcp_init b = Inr \<lparr>dhcp_vals = set_val dhcp_hdr ''chaddr''
      (VBytes (take (nat (get_int dhcp_hdr ''hln'' vs)) (bval (vs ! 11)))) vs, dhcp_opts = os, dhcp_data = d\<rparr> \<and>
    length b = dhcp_len \<lparr>dhcp_vals = vs, dhcp_opts = os, dhcp_data = d\<rparr>"
proof -
  obtain h u where h: "packet_pack_hdr BE dhcp_hdr vs = Inr h" "concat_result dhcp_opt_bytes os = Inr u"
    "b = h @ u @ 0xff # d"
    using assms(2,4) by (auto simp: dhcp_bytes_def dhcp_pack_opts_def rbind_Inr_iff)
  have c: "length h = 240" "class_unpack BE dhcp_hdr b = Inr (obj_make vs (u @ 0xff # d))"
    using class_pack_read [OF boot_tables(1) assms(1) h(1)] h(3) by auto
  then show ?thesis
    using dhcp_opts_read [OF assms(3) h(2)] dhcp_opts_len [OF h(2)] h(3)
    by (simp add: dhcp_init_def packet_init_def dhcp_unpack_def obj_make_def Let_def dhcp_len_def)
qed

text \<open>
  A DHCP object made without a buffer cannot be packed while it has the default options: they are
  text, which \<^verbatim>\<open>struct\<close> does not take.
\<close>

theorem dhcp_default_unpackable: "\<not> is_ok (dhcp_bytes (dhcp_new kws))"
  by (auto simp: dhcp_bytes_def dhcp_new_def dhcp_pack_opts_def dhcp_default_opts_def dhcp_opt_bytes_def is_ok_def
      rbind_def split: sum.splits)

text \<open>
  C35: A TFTP message of every kind is read back from its bytes: requests and option
  acknowledgments with their options in order, data and acknowledgments with their block, errors with
  their text.
\<close>

theorem tftp_roundtrip:
  assumes "tftp_msg_ok t" "tftp_bytes t = Inr b"
  shows "tftp_init b = Inr t"
proof -
  obtain s h where h: "tftp_body t = Inr s" "packet_pack_hdr BE tftp_hdr [VInt (tf_opcode t)] = Inr h" "b = h @ s @ tf_data t"
    using assms(2) by (auto simp: tftp_bytes_def rbind_Inr_iff)
  have i: "tftp_init b = Inr t" if "tftp_unpack tftp_blank b = Inr t" using that by (simp add: tftp_init_def packet_init_def)
  have u: "class_unpack BE tftp_hdr b = Inr (obj_make [VInt (tf_opcode t)] (s @ tf_data t))"
    "get_int tftp_hdr ''opcode'' [VInt (tf_opcode t)] = tf_opcode t"
    using tftp_head [OF h(2)] h(3) by simp_all
  consider "tf_opcode t \<in> {OP_RRQ, OP_WRQ}" | "tf_opcode t = OP_OACK" | "tf_opcode t \<in> {OP_DATA, OP_ACK}"
    | "tf_opcode t = OP_ERR" | "tf_opcode t \<notin> {OP_RRQ, OP_WRQ, OP_OACK, OP_DATA, OP_ACK, OP_ERR}" by blast
  then have "tftp_unpack tftp_blank b = Inr t"
  proof cases
    case 1
    then show ?thesis by (rule tftp_request_read [OF _ assms(1) h(1) u])
  next
    case 2
    then show ?thesis by (rule tftp_oack_read [OF _ assms(1) h(1) u])
  next
    case 3
    then show ?thesis by (rule tftp_data_read [OF _ assms(1) h(1) u])
  next
    case 4
    then show ?thesis by (rule tftp_err_read [OF _ assms(1) h(1) u])
  next
    case 5
    then have t: "t = tftp_blank\<lparr>tf_opcode := tf_opcode t, tf_data := tf_data t\<rparr>" and s: "s = []"
      using assms(1) h(1) by (auto simp: tftp_msg_ok_def tftp_ops tftp_body_def)
    show ?thesis using 5 u s by (subst t) (simp add: tftp_unpack_def obj_make_def Let_def tftp_ops tftp_blank_def)
  qed
  then show ?thesis by (rule i)
qed

theorem dhcp_roundtrip_witness:
  "\<exists>b d. dhcp_bytes \<lparr>dhcp_vals = packet_kwargs dhcp_hdr [], dhcp_opts = [(53, VBytes [1])], dhcp_data = [7]\<rparr> = Inr b \<and>
     dhcp_init b = Inr d \<and> dhcp_opts d = [(53, VBytes [1])] \<and> dhcp_data d = [7]"
proof -
  have e: "exact_all (hdr_fmt dhcp_hdr) (packet_kwargs dhcp_hdr [])"
    by (simp add: packet_kwargs_def dhcp_hdr_def exact_U exact_Str)
  have o: "[(53, VBytes [1])] \<noteq> ([] :: (int \<times> pval) list)" "list_all dhcp_opt_ok [(53, VBytes [1])]"
    by (simp_all add: dhcp_opt_ok_def)
  obtain b where b: "dhcp_bytes \<lparr>dhcp_vals = packet_kwargs dhcp_hdr [], dhcp_opts = [(53, VBytes [1])], dhcp_data = [7]\<rparr> = Inr b"
    using packet_pack_hdr_exact [OF e, of BE]
    by (auto simp: dhcp_bytes_def dhcp_pack_opts_def dhcp_opt_bytes_def)
  show ?thesis using dhcp_roundtrip [OF e o b] b by auto
qed

theorem tftp_roundtrip_witness:
  "\<exists>b. tftp_bytes (tftp_blank\<lparr>tf_filename := Some [97, 98], tf_mode := Some [111], tf_options := [([98], [49]), ([116], [])]\<rparr>) =
       Inr b \<and>
     tftp_init b = Inr (tftp_blank\<lparr>tf_filename := Some [97, 98], tf_mode := Some [111], tf_options := [([98], [49]), ([116], [])]\<rparr>)"
proof -
  let ?t = "tftp_blank\<lparr>tf_filename := Some [97, 98], tf_mode := Some [111], tf_options := [([98], [49]), ([116], [])]\<rparr>"
  have o: "tftp_msg_ok ?t" by (simp add: tftp_msg_ok_def tftp_blank_def tftp_ops tftp_opts_ok_def)
  obtain b where b: "tftp_bytes ?t = Inr b"
    by (simp add: tftp_bytes_def tftp_body_def tftp_blank_def tftp_ops attr_def packet_pack_hdr_def tftp_hdr_def)
  show ?thesis using tftp_roundtrip [OF o b] b by blast
qed

end
