(* ===== verification/Http.thy ===== *)
theory Http
  imports Items "HOL-Library.AList"
begin

text \<open>
  HTTP/1, \<^verbatim>\<open>dpkt/http.py\<close>: header lines, bodies with a length, chunked or to the end, requests and
  responses. A \<^verbatim>\<open>str\<close> that the code decodes from ASCII, ignoring errors, is the list of its bytes,
  all below 128. A dict of headers is the list of its items in insertion order. A file is the
  bytes still to be read of a \<^verbatim>\<open>BytesIO\<close>.

  Python 3.11 and later limit decimal conversions to 4300 digits; the model has no such limit.
\<close>

section \<open>Lines and white space\<close>

text \<open>White space of \<^verbatim>\<open>bytes\<close>, and of \<^verbatim>\<open>str\<close> in the range of ASCII, which has four more.\<close>

definition byte_space :: "byte \<Rightarrow> bool" where
  "byte_space b \<longleftrightarrow> b = 32 \<or> (9 \<le> b \<and> b \<le> 13)"

definition str_space :: "byte \<Rightarrow> bool" where
  "str_space b \<longleftrightarrow> byte_space b \<or> (28 \<le> b \<and> b \<le> 31)"

definition lstrip :: "(byte \<Rightarrow> bool) \<Rightarrow> bytes \<Rightarrow> bytes" where
  "lstrip sp s = dropWhile sp s"

definition strip :: "(byte \<Rightarrow> bool) \<Rightarrow> bytes \<Rightarrow> bytes" where
  "strip sp s = rev (dropWhile sp (rev (dropWhile sp s)))"

text \<open>\<^verbatim>\<open>decode('ascii', 'ignore')\<close>.\<close>

definition ascii_ignore :: "bytes \<Rightarrow> bytes" where
  "ascii_ignore s = filter (\<lambda>b. b < 128) s"

fun read_line :: "bytes \<Rightarrow> bytes \<times> bytes" where
  "read_line [] = ([], [])"
| "read_line (b # f) = (if b = 10 then ([b], f) else (let (l, r) = read_line f in (b # l, r)))"

lemma read_line_shorter: "fst (read_line f) \<noteq> [] \<Longrightarrow> length (snd (read_line f)) < length f"
proof (induction f)
  case (Cons b f)
  then show ?case by (cases "fst (read_line f) = []"; cases f) (auto simp: Let_def split: prod.splits if_splits)
qed simp

lemma read_line_le: "length (snd (read_line f)) \<le> length f"
  by (induction f) (auto simp: Let_def split: prod.splits)

text \<open>\<^verbatim>\<open>f.read(n)\<close>: a negative count reads all; one beyond the size type is an \<^verbatim>\<open>OverflowError\<close>.\<close>

definition read_n :: "int \<Rightarrow> bytes \<Rightarrow> (bytes \<times> bytes) result" where
  "read_n n f =
     (if n < - (2 ^ 63) \<or> 2 ^ 63 \<le> n then Inl OtherError
      else if n < 0 then Inr (f, []) else Inr (take (nat n) f, drop (nat n) f))"

lemma drop_word_shorter:
  assumes "dropWhile sp s \<noteq> []"
  shows "length (dropWhile (\<lambda>b. \<not> sp b) (dropWhile sp s)) < length s"
proof -
  obtain b t where t: "dropWhile sp s = b # t" using assms by (cases "dropWhile sp s") auto
  have "\<not> sp b" using hd_dropWhile [of sp s] t by simp
  then show ?thesis
    using t length_dropWhile_le [of "\<lambda>b. \<not> sp b" t] length_dropWhile_le [of sp s] by simp
qed

text \<open>\<^verbatim>\<open>split()\<close>, and \<^verbatim>\<open>split(None, k)\<close>: the last item is what follows, without white space in front.\<close>

function split_ws :: "(byte \<Rightarrow> bool) \<Rightarrow> bytes \<Rightarrow> bytes list" where
  "split_ws sp s =
     (let t = dropWhile sp s
      in if t = [] then [] else takeWhile (\<lambda>b. \<not> sp b) t # split_ws sp (dropWhile (\<lambda>b. \<not> sp b) t))"
  by pat_completeness auto

termination by (relation "measure (\<lambda>(sp, s). length s)") (auto simp: drop_word_shorter)

declare split_ws.simps [simp del]

fun split_max :: "nat \<Rightarrow> (byte \<Rightarrow> bool) \<Rightarrow> bytes \<Rightarrow> bytes list" where
  "split_max 0 sp s = (let t = dropWhile sp s in if t = [] then [] else [t])"
| "split_max (Suc k) sp s =
     (let t = dropWhile sp s
      in if t = [] then [] else takeWhile (\<lambda>b. \<not> sp b) t # split_max k sp (dropWhile (\<lambda>b. \<not> sp b) t))"

text \<open>\<^verbatim>\<open>line.split(':', 1)\<close>: the key, and what follows the colon when there is one.\<close>

definition split_colon :: "bytes \<Rightarrow> bytes \<times> bytes option" where
  "split_colon s =
     (let k = takeWhile (\<lambda>b. b \<noteq> 58) s; r = dropWhile (\<lambda>b. b \<noteq> 58) s
      in (k, if r = [] then None else Some (tl r)))"

section \<open>Integers\<close>

text \<open>
  \<^verbatim>\<open>int(s, base)\<close>: white space around, a sign, for base 16 an optional \<^verbatim>\<open>0x\<close>, and digits with
  single underscores between them.
\<close>

definition digit_val :: "byte \<Rightarrow> nat option" where
  "digit_val b =
     (if 48 \<le> b \<and> b \<le> 57 then Some (unat b - 48)
      else if 97 \<le> b \<and> b \<le> 122 then Some (unat b - 87)
      else if 65 \<le> b \<and> b \<le> 90 then Some (unat b - 55) else None)"

text \<open>The digits so far, and whether an underscore may stand here.\<close>

fun digits_val :: "nat \<Rightarrow> bool \<Rightarrow> nat \<Rightarrow> bytes \<Rightarrow> nat option" where
  "digits_val base us acc [] = (if us then Some acc else None)"
| "digits_val base us acc (b # s) =
     (if b = 95 then (if us then digits_val base False acc s else None)
      else case digit_val b of
             None \<Rightarrow> None
           | Some d \<Rightarrow> if d < base then digits_val base True (acc * base + d) s else None)"

text \<open>After the prefix \<^verbatim>\<open>0x\<close> an underscore may come first, but some digit must follow.\<close>

definition unsigned_val :: "nat \<Rightarrow> bytes \<Rightarrow> nat option" where
  "unsigned_val base s =
     (if base = 16 \<and> 2 \<le> length s \<and> s ! 0 = 48 \<and> (s ! 1 = 120 \<or> s ! 1 = 88)
      then digits_val base False 0 (if drop 2 s \<noteq> [] \<and> s ! 2 = 95 then drop 3 s else drop 2 s)
      else digits_val base False 0 s)"

definition py_int :: "nat \<Rightarrow> (byte \<Rightarrow> bool) \<Rightarrow> bytes \<Rightarrow> int result" where
  "py_int base sp s0 =
     (let s = strip sp s0;
          neg = (s \<noteq> [] \<and> hd s = 45);
          t = (if s \<noteq> [] \<and> (hd s = 45 \<or> hd s = 43) then tl s else s)
      in case unsigned_val base t of
           None \<Rightarrow> Inl ValueError
         | Some n \<Rightarrow> Inr (if neg then - int n else int n))"

section \<open>Headers\<close>

datatype hval = One bytes | Many "bytes list"

type_synonym headers = "(bytes \<times> hval) list"

text \<open>\<^verbatim>\<open>d[k]\<close>: a second value makes a list, and the key keeps its place.\<close>

definition add_header :: "bytes \<Rightarrow> bytes \<Rightarrow> headers \<Rightarrow> headers" where
  "add_header k v d =
     (case map_of d k of
        None \<Rightarrow> AList.update k (One v) d
      | Some (One w) \<Rightarrow> AList.update k (Many [w, v]) d
      | Some (Many ws) \<Rightarrow> AList.update k (Many (ws @ [v])) d)"

lemma strip_Nil [simp]: "strip sp [] = []"
  by (simp add: strip_def)

function parse_headers :: "bytes \<Rightarrow> headers \<Rightarrow> (headers \<times> bytes) result" where
  "parse_headers f d =
     (let (l, r) = read_line f; line = ascii_ignore (strip byte_space l)
      in if line = [] then Inr (d, r)
         else
           let (k, v) = split_colon line
           in if length (split_ws str_space k) \<noteq> 1 then Inl UnpackError
              else parse_headers r (add_header (lower k) (case v of None \<Rightarrow> [] | Some w \<Rightarrow> lstrip str_space w) d))"
  by pat_completeness auto

termination
proof (relation "measure (\<lambda>(f, d). length f)", goal_cases)
  case (2 f d x l r line y k v)
  have lr: "l = fst (read_line f)" "r = snd (read_line f)" using 2(1,2) by (metis fst_conv snd_conv)+
  have "l \<noteq> []" using 2(3,4) by (auto simp: ascii_ignore_def)
  then show ?case using read_line_shorter [of f] lr by simp
qed simp

declare parse_headers.simps [simp del]

lemma read_n_le: "read_n n f = Inr (a, b) \<Longrightarrow> length b \<le> length f"
  by (auto simp: read_n_def split: if_splits)

section \<open>Bodies\<close>

text \<open>The loop of a chunked body: the chunks, whether the end was found, and the rest of the file.\<close>

function chunk_loop :: "bytes \<Rightarrow> (bytes list \<times> bool \<times> bytes) result" where
  "chunk_loop f =
     (let (l, f1) = read_line f
      in case split_max 1 byte_space l of
           [] \<Rightarrow> Inl UnpackError
         | sz # _ \<Rightarrow>
             (case py_int 16 byte_space sz of
                Inl e \<Rightarrow> Inl UnpackError
              | Inr n \<Rightarrow>
                  rbind (read_n n f1) (\<lambda>(buf, f2).
                    let (l2, f3) = read_line f2
                    in if strip byte_space l2 \<noteq> [] then Inr ([], n = 0, f3)
                       else if n \<noteq> 0 \<and> int (length buf) = n
                            then rbind (chunk_loop f3) (\<lambda>(bs, e, r). Inr (buf # bs, e, r))
                            else Inr ([], n = 0, f3))))"
  by pat_completeness auto

termination
proof (relation "measure length", goal_cases)
  case (2 f x l f1 sz y n z buf f2 w l2 f3)
  have f1: "f1 = snd (read_line f)" and l: "l = fst (read_line f)" using 2(1,2) by (metis fst_conv snd_conv)+
  have "l \<noteq> []" using 2(3) by (auto simp: Let_def)
  then have "length f1 < length f" using read_line_shorter f1 l by simp
  moreover have "length f2 \<le> length f1" using 2(5,6) read_n_le by blast
  moreover have "length f3 \<le> length f2" using 2(7,8) read_line_le [of f2] by (metis snd_conv)
  ultimately show ?case by simp
qed simp

declare chunk_loop.simps [simp del]

definition hdr_get :: "headers \<Rightarrow> string \<Rightarrow> hval option" where
  "hdr_get d k = map_of d (asc k)"

definition parse_body :: "bytes \<Rightarrow> headers \<Rightarrow> (bytes \<times> bytes) result" where
  "parse_body f d =
     rbind (case hdr_get d ''transfer-encoding'' of
              None \<Rightarrow> Inr False
            | Some (One v) \<Rightarrow> Inr (lower v = asc ''chunked'')
            | Some (Many vs) \<Rightarrow> Inl AttributeError) (\<lambda>chunked.
     if chunked then
       rbind (chunk_loop f) (\<lambda>(bs, found_end, r). if found_end then Inr (concat bs, r) else Inl NeedData)
     else
       case hdr_get d ''content-length'' of
         Some (One v) \<Rightarrow>
           rbind (py_int 10 str_space v) (\<lambda>n. rbind (read_n n f) (\<lambda>(body, r).
             if int (length body) \<noteq> n then Inl NeedData else Inr (body, r)))
       | Some (Many vs) \<Rightarrow> Inl TypeError
       | None \<Rightarrow> if hdr_get d ''content-type'' \<noteq> None then Inr (f, []) else Inr ([], f))"

section \<open>Messages\<close>

record http_message =
  hm_headers :: headers
  hm_body :: bytes
  hm_data :: bytes

definition message_unpack :: "bytes \<Rightarrow> bool \<Rightarrow> http_message result" where
  "message_unpack buf is_body_allowed =
     rbind (parse_headers buf []) (\<lambda>(d, f).
     rbind (if is_body_allowed then parse_body f d else Inr ([], f)) (\<lambda>(body, r).
       Inr \<lparr>hm_headers = d, hm_body = body, hm_data = r\<rparr>))"

text \<open>
  \<^verbatim>\<open>'%s: %s'\<close> of a header: a list of values is printed as Python prints a list of strings.
\<close>

definition hex_char :: "nat \<Rightarrow> byte" where
  "hex_char n = (if n < 10 then word_of_nat (48 + n) else word_of_nat (87 + n))"

definition repr_char :: "byte \<Rightarrow> byte \<Rightarrow> bytes" where
  "repr_char q b =
     (if b = q \<or> b = 92 then [92, b]
      else if b = 9 then [92, 116] else if b = 10 then [92, 110] else if b = 13 then [92, 114]
      else if b < 32 \<or> b = 127 then [92, 120, hex_char (unat b div 16), hex_char (unat b mod 16)]
      else [b])"

definition py_repr :: "bytes \<Rightarrow> bytes" where
  "py_repr s =
     (let q = (if 39 \<in> set s \<and> 34 \<notin> set s then 34 else 39) in [q] @ concat (map (repr_char q) s) @ [q])"

fun hval_str :: "hval \<Rightarrow> bytes" where
  "hval_str (One v) = v"
| "hval_str (Many vs) = [91] @ join [44, 32] (map py_repr vs) @ [93]"

definition message_pack_hdr :: "headers \<Rightarrow> bytes" where
  "message_pack_hdr d = concat (map (\<lambda>(k, v). k @ [58, 32] @ hval_str v @ [13, 10]) d)"

definition message_bytes :: "http_message \<Rightarrow> bytes" where
  "message_bytes m = ascii_ignore (message_pack_hdr (hm_headers m)) @ [13, 10] @ hm_body m"

definition request_methods :: "string list" where
  "request_methods =
     [''GET'', ''PUT'', ''ICY'', ''COPY'', ''HEAD'', ''LOCK'', ''MOVE'', ''POLL'', ''POST'', ''BCOPY'', ''BMOVE'',
      ''MKCOL'', ''TRACE'', ''LABEL'', ''MERGE'', ''DELETE'', ''SEARCH'', ''UNLOCK'', ''REPORT'', ''UPDATE'',
      ''NOTIFY'', ''BDELETE'', ''CONNECT'', ''OPTIONS'', ''CHECKIN'', ''PROPFIND'', ''CHECKOUT'', ''CCM_POST'',
      ''SUBSCRIBE'', ''PROPPATCH'', ''BPROPFIND'', ''BPROPPATCH'', ''UNCHECKOUT'', ''MKACTIVITY'', ''MKWORKSPACE'',
      ''UNSUBSCRIBE'', ''RPC_CONNECT'', ''VERSION-CONTROL'', ''BASELINE-CONTROL'']"

definition http_proto :: bytes where
  "http_proto = asc ''HTTP''"

record http_request = http_message +
  hq_method :: bytes
  hq_uri :: bytes
  hq_version :: bytes

definition request_new :: http_request where
  "request_new = \<lparr>hm_headers = [], hm_body = [], hm_data = [], hq_method = asc ''GET'', hq_uri = asc ''/'', hq_version = asc ''1.0''\<rparr>"

text \<open>
  SIP, \<^verbatim>\<open>dpkt/sip.py\<close>, has classes of the same names with other methods and another protocol:
  both are arguments of \<open>request_of\<close> and \<open>response_of\<close>.
\<close>

definition request_of :: "string list \<Rightarrow> bytes \<Rightarrow> bytes \<Rightarrow> http_request result" where
  "request_of methods proto buf =
     (let (line, f) = read_line buf; l = split_ws str_space (strip str_space (ascii_ignore line))
      in if length l < 2 then Inl UnpackError
         else if l ! 0 \<notin> set (map asc methods) then Inl UnpackError
         else
           rbind (if length l = 2 then Inr (asc ''0.9'')
                  else if \<not> starts_with (l ! 2) proto then Inl UnpackError
                  else Inr (drop (length proto + 1) (l ! 2))) (\<lambda>ver.
           rbind (message_unpack f True) (\<lambda>m.
             Inr (http_message.extend m \<lparr>hq_method = l ! 0, hq_uri = l ! 1, hq_version = ver\<rparr>))))"

definition request_unpack :: "bytes \<Rightarrow> http_request result" where
  "request_unpack = request_of request_methods http_proto"

definition request_bytes :: "bytes \<Rightarrow> http_request \<Rightarrow> bytes" where
  "request_bytes proto r =
     ascii_ignore (hq_method r @ [32] @ hq_uri r @ [32] @ proto @ [47] @ hq_version r @ [13, 10]) @
     message_bytes (http_message.truncate r)"

record http_response = http_message +
  hr_version :: bytes
  hr_status :: bytes
  hr_reason :: bytes

definition response_new :: http_response where
  "response_new = \<lparr>hm_headers = [], hm_body = [], hm_data = [], hr_version = asc ''1.0'', hr_status = asc ''200'', hr_reason = asc ''OK''\<rparr>"

definition all_digits :: "bytes \<Rightarrow> bool" where
  "all_digits s \<longleftrightarrow> s \<noteq> [] \<and> list_all (\<lambda>b. 48 \<le> b \<and> b \<le> 57) s"

definition dec_val :: "bytes \<Rightarrow> nat" where
  "dec_val s = foldl (\<lambda>n b. n * 10 + (unat b - 48)) 0 s"

definition body_allowed :: "nat \<Rightarrow> bool" where
  "body_allowed status \<longleftrightarrow> 200 \<le> status \<and> 204 \<noteq> status \<and> status \<noteq> 304"

definition response_of :: "bytes \<Rightarrow> bytes \<Rightarrow> http_response result" where
  "response_of proto buf =
     (let (line, f) = read_line buf; l = split_max 2 str_space (ascii_ignore (strip byte_space line))
      in if length l < 2 \<or> \<not> starts_with (l ! 0) proto \<or> \<not> all_digits (l ! 1) then Inl UnpackError
         else
           rbind (message_unpack f (body_allowed (dec_val (l ! 1)))) (\<lambda>m.
             Inr (http_message.extend m \<lparr>hr_version = drop (length proto + 1) (l ! 0), hr_status = l ! 1,
               hr_reason = (if 2 < length l then l ! 2 else [])\<rparr>)))"

definition response_unpack :: "bytes \<Rightarrow> http_response result" where
  "response_unpack = response_of http_proto"

definition response_bytes :: "bytes \<Rightarrow> http_response \<Rightarrow> bytes" where
  "response_bytes proto r =
     ascii_ignore (proto @ [47] @ hr_version r @ [32] @ hr_status r @ [32] @ hr_reason r @ [13, 10]) @
     message_bytes (http_message.truncate r)"

section \<open>SIP\<close>

definition sip_methods :: "string list" where
  "sip_methods =
     [''ACK'', ''BYE'', ''CANCEL'', ''INFO'', ''INVITE'', ''MESSAGE'', ''NOTIFY'', ''OPTIONS'', ''PRACK'', ''PUBLISH'',
      ''REFER'', ''REGISTER'', ''SUBSCRIBE'', ''UPDATE'']"

definition sip_proto :: bytes where
  "sip_proto = asc ''SIP''"

definition sip_headers :: headers where
  "sip_headers = map (\<lambda>k. (asc k, One [])) [''To'', ''From'', ''Call-ID'', ''CSeq'', ''Contact'']"

definition sip_request_new :: http_request where
  "sip_request_new =
     \<lparr>hm_headers = sip_headers, hm_body = [], hm_data = [], hq_method = asc ''INVITE'',
      hq_uri = asc ''sip:user@example.com'', hq_version = asc ''2.0''\<rparr>"

definition sip_response_new :: http_response where
  "sip_response_new =
     \<lparr>hm_headers = sip_headers, hm_body = [], hm_data = [], hr_version = asc ''2.0'', hr_status = asc ''200'',
      hr_reason = asc ''OK''\<rparr>"

definition sip_request_unpack :: "bytes \<Rightarrow> http_request result" where
  "sip_request_unpack = request_of sip_methods sip_proto"

definition sip_response_unpack :: "bytes \<Rightarrow> http_response result" where
  "sip_response_unpack = response_of sip_proto"

section \<open>Reading lines back\<close>

lemma read_line_append: "10 \<notin> set l \<Longrightarrow> read_line (l @ 10 # r) = (l @ [10], r)"
  by (induction l) auto

lemma dropWhile_hd: "s \<noteq> [] \<Longrightarrow> \<not> sp (hd s) \<Longrightarrow> dropWhile sp s = s"
  by (cases s) auto

lemma strip_end:
  assumes "a \<noteq> []" "\<not> sp (hd a)" "\<not> sp (last a)" "list_all sp w"
  shows "strip sp (a @ w) = a"
proof -
  have "dropWhile sp (a @ w) = a @ w" using assms(1,2) by (intro dropWhile_hd) simp_all
  moreover have "dropWhile sp (rev w @ rev a) = dropWhile sp (rev a)"
    using assms(4) by (intro dropWhile_append2) (auto simp: list_all_iff)
  moreover have "dropWhile sp (rev a) = rev a" using assms(1,3) by (intro dropWhile_hd) (simp_all add: hd_rev)
  ultimately show ?thesis by (simp add: strip_def)
qed

lemma strip_spaces: "list_all sp w \<Longrightarrow> strip sp w = []"
  by (auto simp: strip_def list_all_iff dropWhile_eq_Nil_conv dest: set_dropWhileD)

lemma ascii_ignore_id: "list_all (\<lambda>b. b < 128) s \<Longrightarrow> ascii_ignore s = s"
  by (simp add: ascii_ignore_def list_all_iff)

lemma ascii_ignore_append [simp]: "ascii_ignore (a @ b) = ascii_ignore a @ ascii_ignore b"
  by (simp add: ascii_ignore_def)

text \<open>A word: it is not empty and has no white space.\<close>

definition word_ok :: "bytes \<Rightarrow> bool" where
  "word_ok w \<longleftrightarrow> w \<noteq> [] \<and> list_all (\<lambda>b. b < 128 \<and> \<not> str_space b) w"

lemma word_ok_hd: "word_ok w \<Longrightarrow> w \<noteq> [] \<and> \<not> str_space (hd w) \<and> \<not> str_space (last w) \<and> (\<forall>b \<in> set w. \<not> str_space b)"
  by (auto simp: word_ok_def list_all_iff)

lemma word_takeWhile:
  assumes "word_ok w" "s = [] \<or> str_space (hd s)"
  shows "dropWhile str_space (w @ s) = w @ s" "takeWhile (\<lambda>b. \<not> str_space b) (w @ s) = w"
    "dropWhile (\<lambda>b. \<not> str_space b) (w @ s) = s"
proof -
  note w = word_ok_hd [OF assms(1)]
  show "dropWhile str_space (w @ s) = w @ s" using w by (intro dropWhile_hd) simp_all
  show "takeWhile (\<lambda>b. \<not> str_space b) (w @ s) = w"
    using w assms(2) by (cases s) (auto simp: takeWhile_append)
  show "dropWhile (\<lambda>b. \<not> str_space b) (w @ s) = s"
    using w assms(2) by (cases s) (auto simp: dropWhile_append)
qed

lemma split_ws_Nil [simp]: "split_ws sp [] = []"
  by (subst split_ws.simps) simp

lemma split_ws_word: "word_ok w \<Longrightarrow> split_ws str_space w = [w]"
  using word_takeWhile(1,2) [of w "[]"] word_takeWhile(3) [of w "[]"]
  by (subst split_ws.simps) (simp add: word_ok_def Let_def del: dropWhile_eq_Nil_conv)

lemma split_ws_Cons:
  assumes "word_ok w"
  shows "split_ws str_space (w @ 32 # s) = w # split_ws str_space s"
proof -
  have "str_space 32" by (simp add: str_space_def byte_space_def)
  then have "split_ws str_space (w @ 32 # s) = w # split_ws str_space (32 # s)"
    using word_takeWhile [OF assms, of "32 # s"] assms by (subst split_ws.simps) (simp add: word_ok_def)
  also have "split_ws str_space (32 # s) = split_ws str_space s"
    using \<open>str_space 32\<close> by (simp add: split_ws.simps [of _ "32 # s"] split_ws.simps [of _ s])
  finally show ?thesis .
qed

lemma spaces [simp]: "byte_space 32" "byte_space 13" "byte_space 10" "str_space 32" "str_space 13" "str_space 10"
  "\<not> str_space 58" "\<not> str_space 47" "\<not> byte_space 58" "byte_space b \<Longrightarrow> str_space b"
  by (simp_all add: byte_space_def str_space_def)

section \<open>Reading headers back\<close>

definition header_ok :: "bytes \<times> hval \<Rightarrow> bool" where
  "header_ok h \<longleftrightarrow>
     word_ok (fst h) \<and> 58 \<notin> set (fst h) \<and> lower (fst h) = fst h \<and>
     (case snd h of
        One v \<Rightarrow> list_all (\<lambda>b. b < 128 \<and> b \<noteq> 10) v \<and> (v = [] \<or> \<not> str_space (hd v) \<and> \<not> byte_space (last v))
      | Many vs \<Rightarrow> False)"

definition header_line :: "bytes \<times> hval \<Rightarrow> bytes" where
  "header_line h = fst h @ [58, 32] @ hval_str (snd h) @ [13, 10]"

lemma pack_hdr_lines: "message_pack_hdr d = concat (map header_line d)"
  by (induction d) (auto simp: message_pack_hdr_def header_line_def)

lemma header_line_read:
  assumes "header_ok h"
  shows "\<exists>l v. read_line (header_line h @ r) = (l, r) \<and> snd h = One v \<and>
    ascii_ignore (strip byte_space l) \<noteq> [] \<and>
    split_colon (ascii_ignore (strip byte_space l)) = (fst h, Some (if v = [] then [] else 32 # v)) \<and>
    list_all (\<lambda>b. b < 128) (header_line h)"
proof -
  obtain k v where h: "h = (k, One v)" using assms by (cases h; cases "snd h") (auto simp: header_ok_def)
  have k: "word_ok k" "58 \<notin> set k" and v: "list_all (\<lambda>b. b < 128 \<and> b \<noteq> 10) v" "v = [] \<or> \<not> byte_space (last v)"
    using assms by (auto simp: h header_ok_def)
  have "10 \<notin> set k" using k(1) by (auto simp: word_ok_def list_all_iff)
  then have r: "read_line (header_line h @ r) = (header_line h, r)"
    using v(1) read_line_append [of "k @ [58, 32] @ v @ [13]" r] by (auto simp: h header_line_def list_all_iff)
  let ?t = "k @ (if v = [] then [58] else [58, 32] @ v)"
  have "strip byte_space (?t @ (if v = [] then [32, 13, 10] else [13, 10])) = ?t"
    using word_ok_hd [OF k(1)] v(2) by (intro strip_end) auto
  then have s: "strip byte_space (header_line h) = ?t" by (auto simp: h header_line_def split: if_splits)
  have a: "list_all (\<lambda>b. b < 128) ?t" "list_all (\<lambda>b. b < 128) (header_line h)"
    using k(1) v(1) by (auto simp: word_ok_def list_all_iff h header_line_def)
  have "takeWhile (\<lambda>b. b \<noteq> 58) ?t = k" "dropWhile (\<lambda>b. b \<noteq> 58) ?t = (if v = [] then [58] else [58, 32] @ v)"
    using k(2) by (auto simp: takeWhile_append dropWhile_append)
  then have "split_colon ?t = (k, Some (if v = [] then [] else 32 # v))" by (auto simp: split_colon_def)
  then show ?thesis using r s a k(1) by (auto simp: h ascii_ignore_id word_ok_def)
qed

lemma update_new: "k \<notin> fst ` set d \<Longrightarrow> AList.update k v d = d @ [(k, v)]"
  by (induction d) auto

lemma parse_headers_read:
  "list_all header_ok d \<Longrightarrow> distinct (map fst (acc @ d)) \<Longrightarrow>
   parse_headers (message_pack_hdr d @ 13 # 10 # r) acc = Inr (acc @ d, r)"
proof (induction d arbitrary: acc)
  case Nil
  have "strip byte_space [13, 10] = []" by (rule strip_spaces) simp
  then show ?case by (subst parse_headers.simps) (simp add: message_pack_hdr_def ascii_ignore_def)
next
  case (Cons h d)
  obtain l v where l: "read_line (header_line h @ message_pack_hdr d @ 13 # 10 # r) = (l, message_pack_hdr d @ 13 # 10 # r)"
    "snd h = One v" "ascii_ignore (strip byte_space l) \<noteq> []"
    "split_colon (ascii_ignore (strip byte_space l)) = (fst h, Some (if v = [] then [] else 32 # v))"
    using header_line_read [of h "message_pack_hdr d @ 13 # 10 # r"] Cons.prems(1) by auto
  have h: "word_ok (fst h)" "lower (fst h) = fst h" "v = [] \<or> \<not> str_space (hd v)"
    using Cons.prems(1) l(2) by (auto simp: header_ok_def)
  have "lstrip str_space (if v = [] then [] else 32 # v) = v" using h(3) by (auto simp: lstrip_def dropWhile_hd)
  moreover have "fst h \<notin> fst ` set acc" using Cons.prems(2) by auto
  then have "map_of acc (fst h) = None" "AList.update (fst h) (One v) acc = acc @ [h]"
    using l(2) by (simp_all add: update_new map_of_eq_None_iff prod_eq_iff)
  ultimately show ?case
    using Cons.IH [of "acc @ [h]"] Cons.prems l h
    by (subst parse_headers.simps) (simp add: pack_hdr_lines split_ws_word add_header_def)
qed

lemma headers_ascii: "list_all header_ok d \<Longrightarrow> ascii_ignore (message_pack_hdr d) = message_pack_hdr d"
proof (induction d)
  case (Cons h d)
  then have "list_all (\<lambda>b. b < 128) (header_line h)" using header_line_read [of h "[]"] by auto
  then show ?case using Cons by (simp add: pack_hdr_lines ascii_ignore_id)
qed (simp add: message_pack_hdr_def ascii_ignore_def)

section \<open>Reading bodies back\<close>

lemma digit_val_dec: "48 \<le> b \<Longrightarrow> b \<le> 57 \<Longrightarrow> digit_val b = Some (unat b - 48) \<and> unat b - 48 < 10 \<and> b \<noteq> 95"
proof -
  assume b: "48 \<le> b" "b \<le> 57"
  then have "unat b \<le> 57" by (simp add: word_le_nat_alt)
  then show ?thesis using b by (auto simp: digit_val_def)
qed

lemma digits_val_dec:
  "list_all (\<lambda>b. 48 \<le> b \<and> b \<le> 57) s \<Longrightarrow> digits_val 10 True acc s = Some (foldl (\<lambda>n b. n * 10 + (unat b - 48)) acc s)"
  by (induction s arbitrary: acc) (auto simp: digit_val_dec)

lemma digit_no_space: "48 \<le> b \<Longrightarrow> b \<le> 57 \<Longrightarrow> \<not> str_space b \<and> b \<noteq> 45 \<and> b \<noteq> 43"
  by (auto simp: str_space_def byte_space_def word_le_nat_alt dest: order_trans)

lemma py_int_dec:
  assumes "all_digits s"
  shows "py_int 10 str_space s = Inr (int (dec_val s))"
proof -
  have d: "\<forall>b \<in> set s. 48 \<le> b \<and> b \<le> 57" "s \<noteq> []" using assms by (auto simp: all_digits_def list_all_iff)
  then have h: "\<not> str_space (hd s)" "\<not> str_space (last s)" "hd s \<noteq> 45" "hd s \<noteq> 43" using digit_no_space by auto
  have s: "strip str_space s = s" using strip_end [of s str_space "[]"] d(2) h by simp
  obtain b t where b: "s = b # t" using d(2) by (cases s) auto
  then have "digits_val 10 False 0 s = Some (dec_val s)"
    using d(1) digits_val_dec [of t "unat b - 48"] digit_val_dec [of b] by (auto simp: dec_val_def list_all_iff)
  then show ?thesis using s h d(2) by (simp add: py_int_def unsigned_val_def)
qed

definition body_ok :: "headers \<Rightarrow> bytes \<Rightarrow> bool" where
  "body_ok d body \<longleftrightarrow> hdr_get d ''transfer-encoding'' = None \<and>
     (case hdr_get d ''content-length'' of
        Some (One v) \<Rightarrow> all_digits v \<and> dec_val v = length body \<and> length body < 2 ^ 63
      | Some (Many vs) \<Rightarrow> False
      | None \<Rightarrow> hdr_get d ''content-type'' = None \<and> body = [])"

lemma parse_body_read: "body_ok d body \<Longrightarrow> parse_body (body @ r) d = Inr (body, r)"
  by (auto simp: body_ok_def parse_body_def py_int_dec read_n_def split: option.splits hval.splits)

lemma message_read:
  assumes "list_all header_ok d" "distinct (map fst d)" "if allowed then body_ok d body else body = []"
  shows "message_unpack (message_pack_hdr d @ 13 # 10 # body @ r) allowed = Inr \<lparr>hm_headers = d, hm_body = body, hm_data = r\<rparr>"
  using assms parse_headers_read [OF assms(1), of "[]" "body @ r"] parse_body_read [of d body r]
  by (auto simp: message_unpack_def split: if_splits)

section \<open>Chunks\<close>

definition hex_ok :: "bytes \<Rightarrow> bool" where
  "hex_ok s \<longleftrightarrow> s \<noteq> [] \<and> list_all (\<lambda>b. case digit_val b of None \<Rightarrow> False | Some d \<Rightarrow> d < 16) s"

definition hex_val :: "bytes \<Rightarrow> nat" where
  "hex_val s = foldl (\<lambda>n b. n * 16 + the (digit_val b)) 0 s"

lemma digit_val_other: "b \<in> {9, 10, 11, 12, 13, 28, 29, 30, 31, 32, 43, 45, 95} \<Longrightarrow> digit_val b = None"
  "digit_val 120 = Some 33" "digit_val 88 = Some 33"
  by (auto simp: digit_val_def)

lemma hex_char_props:
  assumes "digit_val b = Some d"
  shows "\<not> byte_space b \<and> b \<noteq> 10 \<and> b \<noteq> 43 \<and> b \<noteq> 45 \<and> b \<noteq> 95"
proof -
  have "48 \<le> unat b" using assms by (auto simp: digit_val_def word_le_nat_alt split: if_splits)
  then have "\<not> byte_space b" by (auto simp: byte_space_def word_le_nat_alt)
  then show ?thesis using assms digit_val_other(1) [of b] by auto
qed

lemma digits_val_hex:
  "list_all (\<lambda>b. case digit_val b of None \<Rightarrow> False | Some d \<Rightarrow> d < 16) s \<Longrightarrow>
   digits_val 16 True acc s = Some (foldl (\<lambda>n b. n * 16 + the (digit_val b)) acc s)"
  by (induction s arbitrary: acc) (auto dest: hex_char_props split: option.splits)

lemma py_int_hex:
  assumes "hex_ok s"
  shows "py_int 16 byte_space s = Inr (int (hex_val s))"
proof -
  have d: "\<forall>b \<in> set s. \<exists>k < 16. digit_val b = Some k" "s \<noteq> []"
    using assms by (auto simp: hex_ok_def list_all_iff split: option.splits)
  then have h: "\<not> byte_space (hd s)" "\<not> byte_space (last s)" "hd s \<noteq> 45" "hd s \<noteq> 43"
    using hex_char_props hd_in_set [OF d(2)] last_in_set [OF d(2)] by metis+
  have s: "strip byte_space s = s" using strip_end [of s byte_space "[]"] d(2) h by simp
  have x: "\<not> (2 \<le> length s \<and> (s ! 1 = 120 \<or> s ! 1 = 88))"
    using d(1) nth_mem [of 1 s] digit_val_other(2,3) by fastforce
  obtain b t where b: "s = b # t" using d(2) by (cases s) auto
  then obtain k where k: "digit_val b = Some k" "k < 16" using d(1) by auto
  have "digits_val 16 False 0 s = Some (hex_val s)"
    using b k assms digits_val_hex [of t k] hex_char_props [OF k(1)] by (simp add: hex_val_def hex_ok_def)
  then show ?thesis using s h d(2) x by (auto simp: py_int_def unsigned_val_def)
qed

definition chunk_wire :: "bytes \<times> bytes \<Rightarrow> bytes" where
  "chunk_wire c = fst c @ [13, 10] @ snd c @ [13, 10]"

lemma chunk_size_line:
  assumes "hex_ok s"
  shows "read_line (s @ 13 # 10 # r) = (s @ [13, 10], r) \<and> split_max 1 byte_space (s @ [13, 10]) = [s]"
proof -
  have d: "\<forall>b \<in> set s. \<not> byte_space b" "s \<noteq> []"
    using assms hex_char_props by (auto simp: hex_ok_def list_all_iff split: option.splits)
  then have "10 \<notin> set s" by auto
  then have "read_line (s @ 13 # 10 # r) = (s @ [13, 10], r)" using read_line_append [of "s @ [13]" r] by simp
  moreover have "dropWhile byte_space (s @ [13, 10]) = s @ [13, 10]" using d by (intro dropWhile_hd) auto
  moreover have "takeWhile (\<lambda>b. \<not> byte_space b) (s @ [13, 10]) = s" "dropWhile (\<lambda>b. \<not> byte_space b) (s @ [13, 10]) = [13, 10]"
    using d by (simp_all add: takeWhile_append dropWhile_append)
  ultimately show ?thesis using d(2) by (simp add: Let_def)
qed

lemma chunk_loop_read:
  assumes "hex_ok z" "hex_val z = 0"
  shows "list_all (\<lambda>(s, b). hex_ok s \<and> hex_val s = length b \<and> b \<noteq> [] \<and> length b < 2 ^ 63) cs \<Longrightarrow>
    chunk_loop (concat (map chunk_wire cs) @ z @ [13, 10, 13, 10] @ r) = Inr (map snd cs, True, r)"
proof (induction cs)
  case Nil
  have "strip byte_space [13, 10] = []" by (rule strip_spaces) simp
  then show ?case
    using chunk_size_line [OF assms(1), of "13 # 10 # r"] py_int_hex [OF assms(1)] assms(2)
    by (subst chunk_loop.simps) (simp add: read_n_def)
next
  case (Cons c cs)
  obtain s b where c: "c = (s, b)" "hex_ok s" "hex_val s = length b" "b \<noteq> []" "length b < 2 ^ 63"
    using Cons.prems by (cases c) auto
  let ?r = "concat (map chunk_wire cs) @ z @ [13, 10, 13, 10] @ r"
  have w: "chunk_wire (s, b) @ ?r = s @ 13 # 10 # b @ 13 # 10 # ?r" by (simp add: chunk_wire_def)
  have "strip byte_space [13, 10] = []" by (rule strip_spaces) simp
  then show ?case
    using chunk_size_line [OF c(2), of "b @ 13 # 10 # ?r"] py_int_hex [OF c(2)] c(3-5) Cons w
    by (subst chunk_loop.simps) (simp add: read_n_def c(1))
qed

section \<open>Start lines\<close>

definition request_ok :: "string list \<Rightarrow> http_request \<Rightarrow> bool" where
  "request_ok methods r \<longleftrightarrow>
     hq_method r \<in> set (map asc methods) \<and> word_ok (hq_uri r) \<and> (hq_version r = [] \<or> word_ok (hq_version r)) \<and>
     list_all header_ok (hm_headers r) \<and> distinct (map fst (hm_headers r)) \<and> body_ok (hm_headers r) (hm_body r)"

definition response_ok :: "http_response \<Rightarrow> bool" where
  "response_ok r \<longleftrightarrow>
     (hr_version r = [] \<or> word_ok (hr_version r)) \<and> all_digits (hr_status r) \<and>
     list_all (\<lambda>b. b < 128 \<and> b \<noteq> 10) (hr_reason r) \<and>
     (hr_reason r = [] \<or> \<not> str_space (hd (hr_reason r)) \<and> \<not> byte_space (last (hr_reason r))) \<and>
     list_all header_ok (hm_headers r) \<and> distinct (map fst (hm_headers r)) \<and>
     (if body_allowed (dec_val (hr_status r)) then body_ok (hm_headers r) (hm_body r) else hm_body r = [])"

lemma methods_words:
  assumes "m \<in> set (map asc request_methods) \<union> set (map asc sip_methods)"
  shows "word_ok m"
proof -
  have "list_all word_ok (map asc request_methods)" "list_all word_ok (map asc sip_methods)"
    by (simp_all add: request_methods_def sip_methods_def word_ok_def str_space_def byte_space_def)
  then show ?thesis using assms by (auto simp: list_all_iff)
qed

lemma word_append: "word_ok a \<Longrightarrow> b = [] \<or> word_ok b \<Longrightarrow> word_ok (a @ b)"
  by (auto simp: word_ok_def)

lemma proto_words: "word_ok (http_proto @ [47])" "word_ok (sip_proto @ [47])"
  by (simp_all add: word_ok_def http_proto_def sip_proto_def str_space_def byte_space_def)

lemma word_no_newline: "word_ok w \<Longrightarrow> 10 \<notin> set w \<and> list_all (\<lambda>b. b < 128) w"
  by (auto simp: word_ok_def list_all_iff)

lemma all_digits_word: "all_digits s \<Longrightarrow> word_ok s"
  by (auto simp: all_digits_def word_ok_def list_all_iff digit_no_space word_le_nat_alt word_less_nat_alt)

lemma request_line_read:
  assumes "word_ok m" "word_ok u" "word_ok v"
  shows "read_line (m @ 32 # u @ 32 # v @ 13 # 10 # r) = (m @ 32 # u @ 32 # v @ [13, 10], r) \<and>
    ascii_ignore (m @ 32 # u @ 32 # v @ [13, 10]) = m @ 32 # u @ 32 # v @ [13, 10] \<and>
    split_ws str_space (strip str_space (m @ 32 # u @ 32 # v @ [13, 10])) = [m, u, v]"
proof -
  have n: "10 \<notin> set (m @ 32 # u @ 32 # v @ [13])" using word_no_newline assms by auto
  have a: "list_all (\<lambda>b. b < 128) (m @ 32 # u @ 32 # v @ [13, 10])" using word_no_newline assms by simp
  have "strip str_space ((m @ 32 # u @ 32 # v) @ [13, 10]) = m @ 32 # u @ 32 # v"
    using word_ok_hd [OF assms(1)] word_ok_hd [OF assms(3)] by (intro strip_end) auto
  moreover have "split_ws str_space (m @ 32 # u @ 32 # v) = [m, u, v]"
    using assms by (simp add: split_ws_Cons split_ws_word)
  ultimately show ?thesis using read_line_append [OF n, of r] ascii_ignore_id [OF a] by simp
qed

lemma split_max_Cons:
  assumes "word_ok w"
  shows "split_max (Suc k) str_space (w @ 32 # s) = w # split_max k str_space (32 # s)"
    "split_max (Suc k) str_space (32 # w @ s') = split_max (Suc k) str_space (w @ s')"
    "split_max (Suc k) str_space w = [w]"
  using word_takeWhile [OF assms, of "32 # s"] word_takeWhile [OF assms, of "[]"] assms
  by (cases k; simp add: word_ok_def Let_def del: dropWhile_eq_Nil_conv)+

lemma response_line_read:
  assumes "word_ok p" "word_ok st" "list_all (\<lambda>b. b < 128 \<and> b \<noteq> 10) re"
    "re = [] \<or> \<not> str_space (hd re) \<and> \<not> byte_space (last re)"
  shows "read_line (p @ 32 # st @ 32 # re @ 13 # 10 # r) = (p @ 32 # st @ 32 # re @ [13, 10], r) \<and>
    split_max 2 str_space (ascii_ignore (strip byte_space (p @ 32 # st @ 32 # re @ [13, 10]))) =
      (if re = [] then [p, st] else [p, st, re])"
proof -
  have n: "10 \<notin> set (p @ 32 # st @ 32 # re @ [13])" using word_no_newline assms by (auto simp: list_all_iff)
  let ?t = "p @ 32 # st @ (if re = [] then [] else 32 # re)"
  have a: "list_all (\<lambda>b. b < 128) ?t" using word_no_newline assms by (auto simp: list_all_iff)
  have "strip byte_space (?t @ (if re = [] then [32, 13, 10] else [13, 10])) = ?t"
    using word_ok_hd [OF assms(1)] word_ok_hd [OF assms(2)] assms(4) by (intro strip_end) auto
  then have s: "ascii_ignore (strip byte_space (p @ 32 # st @ 32 # re @ [13, 10])) = ?t"
    using ascii_ignore_id [OF a] by (auto split: if_splits)
  have e: "\<not> (\<forall>x \<in> set re. str_space x) \<and> dropWhile str_space re = re" if "re \<noteq> []"
    using assms(4) that hd_in_set [OF that] dropWhile_hd [OF that, of str_space] by blast
  have m: "split_max 2 str_space ?t = (if re = [] then [p, st] else [p, st, re])"
  proof (cases "re = []")
    case True
    then show ?thesis
      using split_max_Cons [OF assms(1), of "Suc 0"] split_max_Cons [OF assms(2), of 0] split_max_Cons(2) [OF assms(2), of 0 "[]"]
      by (simp add: numeral_2_eq_2 del: split_max.simps)
  next
    case False
    then show ?thesis
      using split_max_Cons [OF assms(1), of "Suc 0"] split_max_Cons [OF assms(2), of 0] e [OF False]
      by (simp add: numeral_2_eq_2 Let_def del: split_max.simps(2))
  qed
  show ?thesis using read_line_append [OF n, of r] s m by simp
qed

lemma request_read:
  assumes "request_ok methods r" "word_ok (proto @ [47])" "\<forall>m \<in> set (map asc methods). word_ok m"
  shows "request_of methods proto (request_bytes proto r @ d) = Inr (r\<lparr>hm_data := d\<rparr>)"
proof -
  let ?v = "proto @ 47 # hq_version r"
  have v: "word_ok ?v" using word_append [OF assms(2), of "hq_version r"] assms by (simp add: request_ok_def)
  have w: "word_ok (hq_method r)" "word_ok (hq_uri r)" using assms by (auto simp: request_ok_def)
  have l: "request_bytes proto r @ d = hq_method r @ 32 # hq_uri r @ 32 # ?v @ 13 # 10 # message_pack_hdr (hm_headers r) @
      13 # 10 # hm_body r @ d"
    using request_line_read [OF w v] assms(1) headers_ascii
    by (simp add: request_bytes_def message_bytes_def http_message.truncate_def request_ok_def)
  have m: "message_unpack (message_pack_hdr (hm_headers r) @ 13 # 10 # hm_body r @ d) True =
      Inr \<lparr>hm_headers = hm_headers r, hm_body = hm_body r, hm_data = d\<rparr>"
    using assms(1) by (intro message_read) (simp_all add: request_ok_def)
  show ?thesis
    using request_line_read [OF w v] assms(1) m
    by (simp add: l request_of_def request_ok_def http_message.extend_def)
qed

lemma response_read:
  assumes "response_ok r" "word_ok (proto @ [47])"
  shows "response_of proto (response_bytes proto r @ d) = Inr (r\<lparr>hm_data := d\<rparr>)"
proof -
  let ?p = "proto @ 47 # hr_version r"
  have p: "word_ok ?p" using word_append [OF assms(2), of "hr_version r"] assms by (simp add: response_ok_def)
  have st: "word_ok (hr_status r)" using assms(1) all_digits_word by (simp add: response_ok_def)
  have re: "list_all (\<lambda>b. b < 128 \<and> b \<noteq> 10) (hr_reason r)"
    "hr_reason r = [] \<or> \<not> str_space (hd (hr_reason r)) \<and> \<not> byte_space (last (hr_reason r))"
    using assms(1) by (simp_all add: response_ok_def)
  have "list_all (\<lambda>b. b < 128) (hr_reason r)" using re(1) by (simp add: list_all_iff)
  then have "ascii_ignore (?p @ 32 # hr_status r @ 32 # hr_reason r @ [13, 10]) = ?p @ 32 # hr_status r @ 32 # hr_reason r @ [13, 10]"
    using word_no_newline [OF p] word_no_newline [OF st] by (intro ascii_ignore_id) simp
  then have l: "response_bytes proto r @ d = ?p @ 32 # hr_status r @ 32 # hr_reason r @ 13 # 10 #
      message_pack_hdr (hm_headers r) @ 13 # 10 # hm_body r @ d"
    using assms(1) headers_ascii
    by (simp add: response_bytes_def message_bytes_def http_message.truncate_def response_ok_def)
  have m: "message_unpack (message_pack_hdr (hm_headers r) @ 13 # 10 # hm_body r @ d) (body_allowed (dec_val (hr_status r))) =
      Inr \<lparr>hm_headers = hm_headers r, hm_body = hm_body r, hm_data = d\<rparr>"
    using assms(1) by (intro message_read) (simp_all add: response_ok_def)
  have q: "read_line (response_bytes proto r @ d) = (?p @ 32 # hr_status r @ 32 # hr_reason r @ [13, 10],
      message_pack_hdr (hm_headers r) @ 13 # 10 # hm_body r @ d)"
    using response_line_read [OF p st re] l by simp
  have k: "split_max 2 str_space (ascii_ignore (strip byte_space (?p @ 32 # hr_status r @ 32 # hr_reason r @ [13, 10]))) =
      (if hr_reason r = [] then [?p, hr_status r] else [?p, hr_status r, hr_reason r])"
    using response_line_read [OF p st re, of "[]"] by simp
  have g: "starts_with ?p proto" "all_digits (hr_status r)" using assms(1) by (simp_all add: response_ok_def)
  show ?thesis
    unfolding response_of_def q using k g m
    by (cases "hr_reason r = []") (simp_all add: http_message.extend_def)
qed

section \<open>Properties\<close>

text \<open>
  C18: A request of any method, with any headers of one value and a body as long as its
  content length says, is read back from its bytes, and the bytes of a message behind it stay in
  \<^verbatim>\<open>data\<close>; for HTTP and for SIP.
\<close>

theorem http_request_roundtrip:
  assumes "if sip then request_ok sip_methods r else request_ok request_methods r"
  shows "if sip then sip_request_unpack (request_bytes sip_proto r @ d) = Inr (r\<lparr>hm_data := d\<rparr>)
    else request_unpack (request_bytes http_proto r @ d) = Inr (r\<lparr>hm_data := d\<rparr>)"
  using assms request_read [of request_methods r http_proto d] request_read [of sip_methods r sip_proto d]
    proto_words methods_words
  by (auto simp: request_unpack_def sip_request_unpack_def)

text \<open>
  A response is read back from its bytes, with the bytes behind it in \<^verbatim>\<open>data\<close>; when its
  status is below 200, 204 or 304, it has no body whatever its headers say. For HTTP and for SIP.
\<close>

theorem http_response_roundtrip:
  assumes "response_ok r"
  shows "response_unpack (response_bytes http_proto r @ d) = Inr (r\<lparr>hm_data := d\<rparr>) \<and>
    sip_response_unpack (response_bytes sip_proto r @ d) = Inr (r\<lparr>hm_data := d\<rparr>)"
  using response_read [OF assms, of http_proto d] response_read [OF assms, of sip_proto d] proto_words
  by (simp add: response_unpack_def sip_response_unpack_def)

text \<open>
  C19: A chunked body of any number of chunks, their sizes in hexadecimal of either case, is the
  concatenation of the chunks, and the file goes on behind the last chunk.
\<close>

theorem http_chunked_body:
  assumes "hdr_get d ''transfer-encoding'' = Some (One v)" "lower v = asc ''chunked''"
    and "list_all (\<lambda>(s, b). hex_ok s \<and> hex_val s = length b \<and> b \<noteq> [] \<and> length b < 2 ^ 63) cs"
    and "hex_ok z" "hex_val z = 0"
  shows "parse_body (concat (map chunk_wire cs) @ z @ [13, 10, 13, 10] @ r) d = Inr (concat (map snd cs), r)"
  using chunk_loop_read [OF assms(4,5,3), of r] assms(1,2) by (simp add: parse_body_def)

theorem http_request_roundtrip_witness:
  "request_unpack (request_bytes http_proto (request_new\<lparr>hq_method := asc ''POST'', hm_headers := [(asc ''content-length'', One (asc ''2''))],
       hm_body := [1, 10]\<rparr>) @ [7]) =
   Inr (request_new\<lparr>hq_method := asc ''POST'', hm_headers := [(asc ''content-length'', One (asc ''2''))], hm_body := [1, 10],
       hm_data := [7]\<rparr>)"
proof -
  let ?r = "request_new\<lparr>hq_method := asc ''POST'', hm_headers := [(asc ''content-length'', One (asc ''2''))], hm_body := [1, 10]\<rparr>"
  have h: "header_ok (asc ''content-length'', One (asc ''2''))"
    by (simp add: header_ok_def word_ok_def str_space_def byte_space_def lower_def lower1_def)
  have b: "body_ok [(asc ''content-length'', One (asc ''2''))] [1, 10]"
    by (simp add: body_ok_def hdr_get_def all_digits_def dec_val_def)
  have "asc ''POST'' \<in> set (map asc request_methods)" by (simp add: request_methods_def)
  then have "request_ok request_methods ?r"
    using h b by (simp add: request_ok_def request_new_def word_ok_def str_space_def byte_space_def del: asc_simps)
      (simp add: str_space_def byte_space_def)
  then have "if False then request_ok sip_methods ?r else request_ok request_methods ?r" by simp
  from http_request_roundtrip [OF this, of "[7]"] show ?thesis by simp
qed

theorem http_response_roundtrip_witness:
  "response_unpack (response_bytes http_proto (response_new\<lparr>hr_status := asc ''304'', hm_headers := [(asc ''content-length'', One (asc ''2''))]\<rparr>) @ [7]) =
   Inr (response_new\<lparr>hr_status := asc ''304'', hm_headers := [(asc ''content-length'', One (asc ''2''))], hm_data := [7]\<rparr>)"
proof -
  let ?r = "response_new\<lparr>hr_status := asc ''304'', hm_headers := [(asc ''content-length'', One (asc ''2''))]\<rparr>"
  have h: "header_ok (asc ''content-length'', One (asc ''2''))"
    by (simp add: header_ok_def word_ok_def str_space_def byte_space_def lower_def lower1_def)
  have "response_ok ?r"
    using h by (simp add: response_ok_def response_new_def body_allowed_def dec_val_def all_digits_def word_ok_def
        str_space_def byte_space_def)
  from http_response_roundtrip [OF this, of "[7]"] show ?thesis by simp
qed

theorem http_chunked_body_witness:
  "parse_body (asc ''2'' @ [13, 10] @ [7, 8] @ [13, 10] @ asc ''0'' @ [13, 10, 13, 10] @ [9])
     [(asc ''transfer-encoding'', One (asc ''Chunked''))] = Inr ([7, 8], [9])"
proof -
  have d: "hdr_get [(asc ''transfer-encoding'', One (asc ''Chunked''))] ''transfer-encoding'' = Some (One (asc ''Chunked''))"
    by (simp add: hdr_get_def)
  have l: "lower (asc ''Chunked'') = asc ''chunked''" by (simp add: lower_def lower1_def)
  have c: "list_all (\<lambda>(s, b). hex_ok s \<and> hex_val s = length b \<and> b \<noteq> [] \<and> length b < 2 ^ 63) [(asc ''2'', [7, 8])]"
    and z: "hex_ok (asc ''0'')" "hex_val (asc ''0'') = 0"
    by (simp_all add: hex_ok_def hex_val_def digit_val_def)
  from http_chunked_body [OF d l c z, of "[9]"] show ?thesis by (simp add: chunk_wire_def)
qed

end
