(* ===== verification/Mail.thy ===== *)
theory Mail
  imports Http
begin

text \<open>
  The line protocols SMTP, \<^verbatim>\<open>dpkt/smtp.py\<close>, POP3, \<^verbatim>\<open>dpkt/pop3.py\<close>, and FTP,
  \<^verbatim>\<open>dpkt/ftp.py\<close>: their commands and responses, and the parsers that are fed a stream piece by
  piece. The three parsers share the loop that cuts complete lines off a buffer, \<open>drain\<close>.
\<close>

section \<open>Lines\<close>

text \<open>The first line of a buffer with its CR LF, if it has one, and what follows it.\<close>

fun cut_line :: "bytes \<Rightarrow> (bytes \<times> bytes) option" where
  "cut_line (b # c # r) =
     (if b = 13 \<and> c = 10 then Some ([13, 10], r)
      else case cut_line (c # r) of None \<Rightarrow> None | Some (l, s) \<Rightarrow> Some (b # l, s))"
| "cut_line s = None"

lemma cut_line_append: "cut_line s = Some (l, r) \<Longrightarrow> s = l @ r \<and> l \<noteq> [] \<and> cut_line (s @ t) = Some (l, r @ t)"
  by (induction s arbitrary: l r rule: cut_line.induct) (auto split: if_splits option.splits)

function drain :: "('s \<Rightarrow> bytes \<Rightarrow> 's) \<Rightarrow> 's \<Rightarrow> bytes \<Rightarrow> 's \<times> bytes" where
  "drain line st buf =
     (case cut_line buf of None \<Rightarrow> (st, buf) | Some (l, r) \<Rightarrow> drain line (line st l) r)"
  by pat_completeness auto
termination
  by (relation "measure (\<lambda>(line, st, buf). length buf)") (auto dest: cut_line_append [where t = "[]"])

declare drain.simps [simp del]

definition rstrip_crlf :: "bytes \<Rightarrow> bytes" where
  "rstrip_crlf s = rev (dropWhile (\<lambda>b. b = 13 \<or> b = 10) (rev s))"

text \<open>\<^verbatim>\<open>replace(b'\r\n', b'\n')\<close>, and one final newline taken off.\<close>

fun unix_lines :: "bytes \<Rightarrow> bytes" where
  "unix_lines (b # c # r) = (if b = 13 \<and> c = 10 then 10 # unix_lines r else b # unix_lines (c # r))"
| "unix_lines s = s"

definition chop_newline :: "bytes \<Rightarrow> bytes" where
  "chop_newline s = (if s \<noteq> [] \<and> last s = 10 then butlast s else s)"

text \<open>Decimal numbers: \<^verbatim>\<open>str(n)\<close> and \<^verbatim>\<open>'%03d' % n\<close>.\<close>

fun dec_str :: "nat \<Rightarrow> bytes" where
  "dec_str n = (if n < 10 then [word_of_nat (48 + n)] else dec_str (n div 10) @ [word_of_nat (48 + n mod 10)])"

declare dec_str.simps [simp del]

definition dec_str3 :: "nat \<Rightarrow> bytes" where
  "dec_str3 n = replicate (3 - length (dec_str n)) 48 @ dec_str n"

section \<open>Commands\<close>

text \<open>
  The three command classes: SMTP and POP3 strip the arguments, FTP does not. A space in front is
  part of the verb.
\<close>

record command =
  cm_verb :: bytes
  cm_args :: bytes

definition command_parse :: "bool \<Rightarrow> bytes \<Rightarrow> command" where
  "command_parse stripped raw =
     (let line = rstrip_crlf raw; sp = length (takeWhile (\<lambda>b. b \<noteq> 32) line)
      in if 0 < sp \<and> sp < length line
         then \<lparr>cm_verb = upper (take sp line),
               cm_args = (let a = drop (sp + 1) line in if stripped then strip byte_space a else a)\<rparr>
         else \<lparr>cm_verb = upper line, cm_args = []\<rparr>)"

definition smtp_command :: "bytes \<Rightarrow> command" where
  "smtp_command raw = (if raw = [] then \<lparr>cm_verb = [], cm_args = []\<rparr> else command_parse True raw)"

definition pop3_command :: "bytes \<Rightarrow> command" where
  "pop3_command raw = (if raw = [] then \<lparr>cm_verb = [], cm_args = []\<rparr> else command_parse True raw)"

definition ftp_command :: "bytes \<Rightarrow> command" where
  "ftp_command raw = command_parse False raw"

definition command_bytes :: "command \<Rightarrow> bytes" where
  "command_bytes c = cm_verb c @ (if cm_args c \<noteq> [] then [32] @ cm_args c else []) @ [13, 10]"

section \<open>SMTP\<close>

record smtp_response =
  sr_code :: nat
  sr_lines :: "bytes list"
  sr_multi :: bool

definition smtp_blank :: smtp_response where
  "smtp_blank = \<lparr>sr_code = 0, sr_lines = [], sr_multi = False\<rparr>"

definition smtp_response_parse :: "bytes \<Rightarrow> smtp_response" where
  "smtp_response_parse raw0 =
     (let ls = split_byte 10 (chop_newline (unix_lines raw0)); first = hd ls
      in if 3 \<le> length first \<and> all_digits (take 3 first)
         then
           let code = dec_val (take 3 first); pre = dec_str code;
               text = (\<lambda>l. if 4 \<le> length l \<and> (take 4 l = pre @ [32] \<or> take 4 l = pre @ [45]) then drop 4 l else l)
           in \<lparr>sr_code = code, sr_lines = drop 4 first # map text (tl ls),
               sr_multi = (3 < length first \<and> first ! 3 = 45)\<rparr>
         else smtp_blank)"

definition smtp_response_init :: "bytes \<Rightarrow> smtp_response" where
  "smtp_response_init raw = (if raw = [] then smtp_blank else smtp_response_parse raw)"

text \<open>\<^verbatim>\<open>chr(c).isalnum()\<close> for the characters below 256.\<close>

definition latin1_alnum :: "byte \<Rightarrow> bool" where
  "latin1_alnum b \<longleftrightarrow>
     (48 \<le> b \<and> b \<le> 57) \<or> (65 \<le> b \<and> b \<le> 90) \<or> (97 \<le> b \<and> b \<le> 122) \<or>
     b \<in> {0xAA, 0xB2, 0xB3, 0xB5, 0xB9, 0xBA, 0xBC, 0xBD, 0xBE} \<or> (0xC0 \<le> b \<and> b \<noteq> 0xD7 \<and> b \<noteq> 0xF7)"

definition smtp_extensions :: "smtp_response \<Rightarrow> bytes list" where
  "smtp_extensions r =
     map upper (filter (\<lambda>p. p \<noteq> [] \<and> list_all (\<lambda>c. latin1_alnum c \<or> c = 45 \<or> c = 95) p)
       (map (\<lambda>l. strip byte_space (takeWhile (\<lambda>b. b \<noteq> 32) l)) (sr_lines r)))"

definition smtp_text :: "smtp_response \<Rightarrow> bytes" where
  "smtp_text r = join [10] (sr_lines r)"

fun coded_lines :: "bytes \<Rightarrow> bytes list \<Rightarrow> bytes" where
  "coded_lines code [] = []"
| "coded_lines code [l] = code @ [32] @ l @ [13, 10]"
| "coded_lines code (l # m # ls) = code @ [45] @ l @ [13, 10] @ coded_lines code (m # ls)"

definition smtp_response_bytes :: "smtp_response \<Rightarrow> bytes" where
  "smtp_response_bytes r = coded_lines (dec_str3 (sr_code r)) (sr_lines r)"

record smtp_parser =
  sm_commands :: "command list"
  sm_responses :: "smtp_response list"
  sm_pending :: "bytes list"

definition smtp_line :: "smtp_parser \<Rightarrow> bytes \<Rightarrow> smtp_parser" where
  "smtp_line p line =
     (let s = rstrip_crlf line
      in if s = [] then p
         else if 3 \<le> length s \<and> all_digits (take 3 s) then
           let pend = sm_pending p @ [line]
           in if (3 < length s \<and> s ! 3 = 32) \<or> length s = 3
              then p\<lparr>sm_responses := sm_responses p @ [smtp_response_init (concat pend)], sm_pending := []\<rparr>
              else p\<lparr>sm_pending := pend\<rparr>
         else p\<lparr>sm_commands := sm_commands p @ [smtp_command line]\<rparr>)"

text \<open>\<^verbatim>\<open>feed\<close>: the state is the parser with its buffer.\<close>

definition smtp_feed :: "smtp_parser \<times> bytes \<Rightarrow> bytes \<Rightarrow> smtp_parser \<times> bytes" where
  "smtp_feed s data = drain smtp_line (fst s) (snd s @ data)"

definition smtp_start :: "smtp_parser \<times> bytes" where
  "smtp_start = (\<lparr>sm_commands = [], sm_responses = [], sm_pending = []\<rparr>, [])"

section \<open>FTP\<close>

record ftp_reply =
  fr_lines :: "bytes list"
  fr_code :: int
  fr_text :: bytes
  fr_multi :: bool

definition code_str :: "int \<Rightarrow> bytes" where
  "code_str i = (if i < 0 then [45] else []) @ dec_str (nat \<bar>i\<bar>)"

definition ftp_reply_init :: "bytes list \<Rightarrow> ftp_reply result" where
  "ftp_reply_init ls =
     (if ls = [] then Inr \<lparr>fr_lines = [], fr_code = 0, fr_text = [], fr_multi = False\<rparr>
      else
        let first = rstrip_crlf (hd ls)
        in rbind (py_int 10 byte_space (take 3 first)) (\<lambda>code.
             let text = (\<lambda>l. let s = rstrip_crlf l in if 4 \<le> length s \<and> take 3 s = code_str code then drop 4 s else s)
             in Inr \<lparr>fr_lines = ls, fr_code = code, fr_text = join [10] (map text ls),
                     fr_multi = (3 < length first \<and> first ! 3 = 45)\<rparr>))"

definition ftp_class :: "int \<Rightarrow> ftp_reply \<Rightarrow> bool" where
  "ftp_class c r \<longleftrightarrow> c \<le> fr_code r \<and> fr_code r < c + 100"

definition is_positive_preliminary :: "ftp_reply \<Rightarrow> bool" where "is_positive_preliminary = ftp_class 100"
definition is_positive_completion :: "ftp_reply \<Rightarrow> bool" where "is_positive_completion = ftp_class 200"
definition is_positive_intermediate :: "ftp_reply \<Rightarrow> bool" where "is_positive_intermediate = ftp_class 300"
definition is_transient_negative :: "ftp_reply \<Rightarrow> bool" where "is_transient_negative = ftp_class 400"
definition is_permanent_negative :: "ftp_reply \<Rightarrow> bool" where "is_permanent_negative = ftp_class 500"

definition ftp_reply_bytes :: "ftp_reply \<Rightarrow> bytes" where
  "ftp_reply_bytes r = coded_lines (code_str (fr_code r)) (map (\<lambda>l. drop 4 (rstrip_crlf l)) (fr_lines r))"

record ftp_parser =
  fp_commands :: "command list"
  fp_replies :: "ftp_reply list"
  fp_pending :: "bytes list"

text \<open>
  \<^verbatim>\<open>_dispatch_line\<close>. A reply that the parser builds starts with three digits, so its code is a
  number: \<open>ftp_reply_init\<close> does not fail.
\<close>

definition ftp_line :: "ftp_parser \<Rightarrow> bytes \<Rightarrow> ftp_parser" where
  "ftp_line p line =
     (let s = rstrip_crlf line
      in if s = [] then p
         else if 3 \<le> length s \<and> all_digits (take 3 s) then
           let pend = fp_pending p @ [line]
           in if length s = 3 \<or> s ! 3 \<noteq> 45
              then (case ftp_reply_init pend of
                      Inl e \<Rightarrow> p\<lparr>fp_pending := pend\<rparr>
                    | Inr r \<Rightarrow> p\<lparr>fp_replies := fp_replies p @ [r], fp_pending := []\<rparr>)
              else p\<lparr>fp_pending := pend\<rparr>
         else p\<lparr>fp_commands := fp_commands p @ [ftp_command line]\<rparr>)"

definition ftp_feed :: "ftp_parser \<times> bytes \<Rightarrow> bytes \<Rightarrow> ftp_parser \<times> bytes" where
  "ftp_feed s data = drain ftp_line (fst s) (snd s @ data)"

definition ftp_start :: "ftp_parser \<times> bytes" where
  "ftp_start = (\<lparr>fp_commands = [], fp_replies = [], fp_pending = []\<rparr>, [])"

definition get_reply_by_code :: "ftp_parser \<Rightarrow> int \<Rightarrow> ftp_reply option" where
  "get_reply_by_code p code = List.find (\<lambda>r. fr_code r = code) (fp_replies p)"

definition ftp_data :: "bool \<Rightarrow> bytes \<Rightarrow> bytes" where
  "ftp_data ascii d = (if ascii then chop_newline (unix_lines d) else d)"

section \<open>POP3\<close>

record pop3_response =
  po_ok :: bool
  po_text :: bytes
  po_lines :: "bytes list"
  po_multi :: bool

definition pop3_blank :: pop3_response where
  "pop3_blank = \<lparr>po_ok = False, po_text = [], po_lines = [], po_multi = False\<rparr>"

definition unstuff :: "bytes \<Rightarrow> bytes" where
  "unstuff l = (if starts_with l [46, 46] then tl l else l)"

definition pop3_response_init :: "bytes \<Rightarrow> pop3_response" where
  "pop3_response_init raw0 =
     (if raw0 = [] then pop3_blank
      else
        let raw = chop_newline (unix_lines raw0); ok = starts_with raw (asc ''+OK'')
        in if \<not> ok \<and> \<not> starts_with raw (asc ''-ERR'') then pop3_blank\<lparr>po_text := raw\<rparr>
           else
             let ls = split_byte 10 raw; t = drop 4 (hd ls);
                 text = (if t \<noteq> [] \<and> hd t = 32 then tl t else t)
             in if tl ls \<noteq> []
                then \<lparr>po_ok = ok, po_text = text, po_lines = map unstuff (takeWhile (\<lambda>l. l \<noteq> [46]) (tl ls)), po_multi = True\<rparr>
                else \<lparr>po_ok = ok, po_text = text, po_lines = [], po_multi = False\<rparr>)"

definition stuff :: "bytes \<Rightarrow> bytes" where
  "stuff l = (if starts_with l [46] then 46 # l else l)"

definition pop3_to_lines :: "pop3_response \<Rightarrow> bytes list" where
  "pop3_to_lines r =
     (let status = (if po_ok r then asc ''+OK'' else asc ''-ERR'')
      in [if po_text r \<noteq> [] then status @ [32] @ po_text r else status] @
         (if po_multi r then map stuff (po_lines r) @ [[46]] else []))"

definition pop3_response_bytes :: "pop3_response \<Rightarrow> bytes" where
  "pop3_response_bytes r = join [13, 10] (pop3_to_lines r) @ [13, 10]"

record pop3_parser =
  pp_commands :: "command list"
  pp_responses :: "pop3_response list"
  pp_pending :: "bytes option"
  pp_multi :: bool
  pp_ml :: "bytes list"

definition pop3_respond :: "bytes \<Rightarrow> pop3_parser \<Rightarrow> pop3_parser" where
  "pop3_respond raw p = p\<lparr>pp_responses := pp_responses p @ [pop3_response_init raw]\<rparr>"

definition pop3_flush :: "pop3_parser \<Rightarrow> pop3_parser" where
  "pop3_flush p = (case pp_pending p of None \<Rightarrow> p | Some l \<Rightarrow> (pop3_respond l p)\<lparr>pp_pending := None\<rparr>)"

text \<open>The lines of a response that has begun; the terminator ends it.\<close>

definition pop3_collect :: "bytes \<Rightarrow> pop3_parser \<Rightarrow> pop3_parser" where
  "pop3_collect s p =
     (let ml = pp_ml p @ [s]
      in if s = [46] then (pop3_respond (join [13, 10] ml @ [13, 10]) p)\<lparr>pp_ml := ml, pp_multi := False\<rparr>
         else p\<lparr>pp_ml := ml, pp_multi := True\<rparr>)"

definition pop3_line :: "pop3_parser \<Rightarrow> bytes \<Rightarrow> pop3_parser" where
  "pop3_line p line =
     (let s = rstrip_crlf line
      in if pp_multi p then pop3_collect s p
         else if starts_with s (asc ''+OK'') \<or> starts_with s (asc ''-ERR'') then
           if 32 \<notin> set s \<or> starts_with s (asc ''-ERR'') then pop3_respond line (pop3_flush p)
           else (pop3_flush p)\<lparr>pp_pending := Some line\<rparr>
         else
           case pp_pending p of
             Some q \<Rightarrow> pop3_collect s (p\<lparr>pp_pending := None, pp_ml := [rstrip_crlf q]\<rparr>)
           | None \<Rightarrow> p\<lparr>pp_commands := pp_commands p @ [pop3_command line]\<rparr>)"

text \<open>\<^verbatim>\<open>_process\<close> flushes a pending response at the end of every piece that ends with a line.\<close>

definition pop3_feed :: "pop3_parser \<times> bytes \<Rightarrow> bytes \<Rightarrow> pop3_parser \<times> bytes" where
  "pop3_feed s data =
     (let (p, buf) = drain pop3_line (fst s) (snd s @ data)
      in (if \<not> pp_multi p \<and> buf = [] then pop3_flush p else p, buf))"

definition pop3_start :: "pop3_parser \<times> bytes" where
  "pop3_start = (\<lparr>pp_commands = [], pp_responses = [], pp_pending = None, pp_multi = False, pp_ml = []\<rparr>, [])"

section \<open>Lines and pieces\<close>

text \<open>What has been fed determines the state, however it was cut: the loop goes on where it stopped.\<close>

lemma drain_append: "drain line st a = (st', r) \<Longrightarrow> drain line st (a @ b) = drain line st' (r @ b)"
proof (induction line st a rule: drain.induct)
  case (1 line st buf)
  show ?case
  proof (cases "cut_line buf")
    case None
    then show ?thesis using "1.prems" by (simp add: drain.simps [of _ _ buf])
  next
    case (Some lr)
    obtain l s where lr: "lr = (l, s)" by (cases lr)
    have d: "drain line (line st l) s = (st', r)" using "1.prems" Some lr by (simp add: drain.simps [of _ _ buf])
    have c: "cut_line (buf @ b) = Some (l, s @ b)" using cut_line_append Some lr by blast
    have "drain line st (buf @ b) = drain line (line st l) (s @ b)"
      using c by (simp add: drain.simps [of _ _ "buf @ b"])
    also have "\<dots> = drain line st' (r @ b)" by (rule "1.IH" [OF Some lr [symmetric] d])
    finally show ?thesis .
  qed
qed

lemma drain_pieces:
  assumes "\<And>s d. feed s d = drain line (fst s) (snd s @ d)" "drain line (fst s) (snd s) = s"
  shows "foldl feed s ps = feed s (concat ps)"
proof (induction ps rule: rev_induct)
  case Nil
  then show ?case using assms by simp
next
  case (snoc p ps)
  obtain st r where d: "drain line (fst s) (snd s @ concat ps) = (st, r)" by fastforce
  have "foldl feed s ps = (st, r)" using snoc d assms(1) [of s "concat ps"] by simp
  then have "foldl feed s (ps @ [p]) = drain line st (r @ p)" using assms(1) [of "(st, r)" p] by simp
  also have "\<dots> = drain line (fst s) ((snd s @ concat ps) @ p)" using drain_append [OF d, of p] by simp
  also have "\<dots> = feed s (concat (ps @ [p]))" using assms(1) [of s "concat ps @ p"] by simp
  finally show ?case .
qed

definition plain_line :: "bytes \<Rightarrow> bool" where
  "plain_line l \<longleftrightarrow> 13 \<notin> set l \<and> 10 \<notin> set l"

lemma cut_line_plain: "13 \<notin> set l \<Longrightarrow> cut_line (l @ 13 # 10 # t) = Some (l @ [13, 10], t)"
proof (induction l)
  case (Cons b l)
  then show ?case by (cases l) auto
qed simp

lemma drain_line: "plain_line l \<Longrightarrow> drain line st (l @ 13 # 10 # t) = drain line (line st (l @ [13, 10])) t"
  by (subst drain.simps) (simp add: plain_line_def cut_line_plain)

lemma drain_Nil [simp]: "drain line st [] = (st, [])"
  by (subst drain.simps) simp

lemma dropWhile_plain: "plain_line l \<Longrightarrow> dropWhile (\<lambda>b. b = 13 \<or> b = 10) (rev l) = rev l"
  by (cases l rule: rev_cases) (auto simp: plain_line_def)

lemma rstrip_plain: "plain_line l \<Longrightarrow> rstrip_crlf (l @ [13, 10]) = l \<and> rstrip_crlf l = l"
  by (simp add: rstrip_crlf_def dropWhile_plain)

lemma plain_append [simp]: "plain_line (a @ b) \<longleftrightarrow> plain_line a \<and> plain_line b"
  by (auto simp: plain_line_def)

lemma unix_plain: "plain_line l \<Longrightarrow> unix_lines (l @ 13 # 10 # t) = l @ 10 # unix_lines t"
proof (induction l)
  case (Cons b l)
  then show ?case by (cases l) (auto simp: plain_line_def)
qed simp

lemma unix_joined:
  "ls \<noteq> [] \<Longrightarrow> list_all plain_line ls \<Longrightarrow> unix_lines (concat (map (\<lambda>l. l @ [13, 10]) ls)) = join [10] ls @ [10]"
proof (induction ls)
  case (Cons l ls)
  then show ?case by (cases ls) (simp_all add: unix_plain)
qed simp

text \<open>The parsers take the text of a response apart into the lines it was made of.\<close>

lemma lines_back:
  assumes "ls \<noteq> []" "list_all plain_line ls"
  shows "split_byte 10 (chop_newline (unix_lines (concat (map (\<lambda>l. l @ [13, 10]) ls)))) = ls"
  using assms by (simp add: unix_joined chop_newline_def split_join list_all_iff plain_line_def)

section \<open>SMTP responses read back\<close>

definition dig :: "nat \<Rightarrow> byte" where
  "dig d = word_of_nat (48 + d)"

lemma dig_range:
  assumes "d < 10"
  shows "unat (dig d) = 48 + d" "48 \<le> dig d" "dig d \<le> 57"
proof -
  show u: "unat (dig d) = 48 + d" unfolding dig_def using assms by (subst unat_of_nat) simp
  show "48 \<le> dig d" "dig d \<le> 57" using u assms by (simp_all add: word_le_nat_alt)
qed

definition code_bytes :: "nat \<Rightarrow> bytes" where
  "code_bytes n = [dig (n div 100), dig (n div 10 mod 10), dig (n mod 10)]"

lemma dec_str_code:
  assumes "100 \<le> n" "n < 1000"
  shows "dec_str n = code_bytes n" "dec_str3 n = code_bytes n"
proof -
  have "n div 10 div 10 < 10" "\<not> n div 10 < 10" using assms by simp_all
  then show d: "dec_str n = code_bytes n"
    using assms by (simp add: dec_str.simps [of n] dec_str.simps [of "n div 10"] dec_str.simps [of "n div 100"]
      code_bytes_def dig_def div_mult2_eq [symmetric])
  show "dec_str3 n = code_bytes n" by (simp add: dec_str3_def d) (simp add: code_bytes_def)
qed

lemma code_digits:
  assumes "n < 1000"
  shows "all_digits (code_bytes n)" "dec_val (code_bytes n) = n" "length (code_bytes n) = 3" "plain_line (code_bytes n)"
proof -
  have lt: "n div 100 < 10" "n div 10 mod 10 < 10" "n mod 10 < 10" using assms by simp_all
  note b = dig_range [OF lt(1)] dig_range [OF lt(2)] dig_range [OF lt(3)]
  show a: "all_digits (code_bytes n)" using b by (simp add: all_digits_def code_bytes_def)
  have "n div 100 = n div 10 div 10" by (simp add: div_mult2_eq [symmetric])
  then have "n div 100 * 100 + n div 10 mod 10 * 10 + n mod 10 = n"
    using div_mult_mod_eq [of n 10] div_mult_mod_eq [of "n div 10" 10] by linarith
  then show "dec_val (code_bytes n) = n" using b by (simp add: dec_val_def code_bytes_def)
  show "length (code_bytes n) = 3" by (simp add: code_bytes_def)
  have "\<forall>x \<in> set (code_bytes n). 48 \<le> x" using a by (simp add: all_digits_def list_all_iff)
  then show "plain_line (code_bytes n)" by (force simp: plain_line_def)
qed

fun coded_list :: "bytes \<Rightarrow> bytes list \<Rightarrow> bytes list" where
  "coded_list code [] = []"
| "coded_list code [l] = [code @ [32] @ l]"
| "coded_list code (l # m # ls) = (code @ [45] @ l) # coded_list code (m # ls)"

lemma coded_lines_list: "coded_lines code ls = concat (map (\<lambda>l. l @ [13, 10]) (coded_list code ls))"
  by (induction code ls rule: coded_list.induct) simp_all

lemma coded_list_plain: "plain_line code \<Longrightarrow> list_all plain_line ls \<Longrightarrow> list_all plain_line (coded_list code ls)"
  by (induction code ls rule: coded_list.induct) (simp_all add: plain_line_def)

lemma coded_list_Nil [simp]: "coded_list code ls = [] \<longleftrightarrow> ls = []"
  by (cases "(code, ls)" rule: coded_list.cases) simp_all

lemma coded_list_texts:
  assumes "\<And>l s. s = 32 \<or> s = 45 \<Longrightarrow> f (code @ [s] @ l) = l"
  shows "map f (coded_list code ls) = ls"
  using assms by (induction code ls rule: coded_list.induct) simp_all

definition response_ok_smtp :: "smtp_response \<Rightarrow> bool" where
  "response_ok_smtp r \<longleftrightarrow>
     100 \<le> sr_code r \<and> sr_code r < 1000 \<and> sr_lines r \<noteq> [] \<and> list_all plain_line (sr_lines r) \<and>
     sr_multi r = (1 < length (sr_lines r))"

lemma coded_list_cases:
  assumes "ls \<noteq> []"
  shows "\<exists>rest. coded_list code ls = (code @ [if 1 < length ls then 45 else 32] @ hd ls) # rest"
  using assms by (cases "(code, ls)" rule: coded_list.cases) simp_all

lemma smtp_parse_back:
  assumes "response_ok_smtp r"
  shows "smtp_response_init (smtp_response_bytes r) = r"
proof -
  let ?c = "code_bytes (sr_code r)" and ?ls = "sr_lines r"
  have r: "100 \<le> sr_code r" "sr_code r < 1000" "?ls \<noteq> []" "list_all plain_line ?ls" "sr_multi r = (1 < length ?ls)"
    using assms by (simp_all add: response_ok_smtp_def)
  note c = code_digits [OF r(2)]
  define cl where "cl = coded_list ?c ?ls"
  have raw: "smtp_response_bytes r = concat (map (\<lambda>l. l @ [13, 10]) cl)"
    by (simp add: smtp_response_bytes_def coded_lines_list dec_str_code [OF r(1,2)] cl_def)
  have sp: "split_byte 10 (chop_newline (unix_lines (smtp_response_bytes r))) = cl"
    unfolding raw using r(3,4) c(4) by (intro lines_back) (simp_all add: cl_def coded_list_plain)
  obtain rest where h: "cl = (?c @ [if 1 < length ?ls then 45 else 32] @ hd ?ls) # rest"
    using coded_list_cases [OF r(3), of ?c] cl_def by auto
  define f where "f = (\<lambda>l. if 4 \<le> length l \<and> (take 4 l = ?c @ [32] \<or> take 4 l = ?c @ [45]) then drop 4 l else l)"
  have "map f cl = ?ls" unfolding cl_def by (rule coded_list_texts) (auto simp: f_def c(3))
  then have t: "drop 4 (hd cl) # map f (tl cl) = ?ls" using h c(3) by (auto simp: f_def split: if_splits)
  have g: "hd cl ! 3 = (if 1 < length ?ls then 45 else 32)" "3 < length (hd cl)" "3 \<le> length (hd cl)" "take 3 (hd cl) = ?c"
    using h c(3) by (simp_all add: nth_append)
  have "smtp_response_bytes r \<noteq> []" using h by (simp add: raw)
  then have "smtp_response_init (smtp_response_bytes r) =
      \<lparr>sr_code = sr_code r, sr_lines = drop 4 (hd cl) # map f (tl cl), sr_multi = (hd cl ! 3 = 45)\<rparr>"
    unfolding smtp_response_init_def smtp_response_parse_def sp Let_def f_def
    by (simp only: g(2,3,4) c(1,2) dec_str_code [OF r(1,2)] if_True if_False simp_thms)
  also have "\<dots> = r" using t g(1) r(5) by simp
  finally show ?thesis .
qed

section \<open>Sessions\<close>

text \<open>A command line that is not taken for a response.\<close>

definition command_ok :: "command \<Rightarrow> bool" where
  "command_ok c \<longleftrightarrow>
     cm_verb c \<noteq> [] \<and> 32 \<notin> set (cm_verb c) \<and> upper (cm_verb c) = cm_verb c \<and> plain_line (cm_verb c) \<and> plain_line (cm_args c) \<and>
     (cm_args c \<noteq> [] \<longrightarrow> \<not> byte_space (hd (cm_args c)) \<and> \<not> byte_space (last (cm_args c))) \<and>
     \<not> all_digits (take 3 (cm_verb c))"

datatype mail_item = Cmd command | Resp smtp_response

fun item_ok :: "mail_item \<Rightarrow> bool" where
  "item_ok (Cmd c) = command_ok c"
| "item_ok (Resp r) = response_ok_smtp r"

fun item_bytes :: "mail_item \<Rightarrow> bytes" where
  "item_bytes (Cmd c) = command_bytes c"
| "item_bytes (Resp r) = smtp_response_bytes r"

definition commands_of :: "mail_item list \<Rightarrow> command list" where
  "commands_of s = concat (map (\<lambda>i. case i of Cmd c \<Rightarrow> [c] | Resp r \<Rightarrow> []) s)"

definition responses_of :: "mail_item list \<Rightarrow> smtp_response list" where
  "responses_of s = concat (map (\<lambda>i. case i of Cmd c \<Rightarrow> [] | Resp r \<Rightarrow> [r]) s)"

definition command_line :: "command \<Rightarrow> bytes" where
  "command_line c = cm_verb c @ (if cm_args c \<noteq> [] then 32 # cm_args c else [])"

lemma command_bytes_line: "command_bytes c = command_line c @ [13, 10]"
  by (simp add: command_bytes_def command_line_def)

lemma command_line_plain: "command_ok c \<Longrightarrow> plain_line (command_line c) \<and> command_line c \<noteq> []"
  by (auto simp: command_ok_def command_line_def plain_line_def)

lemma command_back:
  assumes "command_ok c"
  shows "command_parse True (command_line c @ [13, 10]) = c"
proof -
  have c: "cm_verb c \<noteq> []" "\<forall>b \<in> set (cm_verb c). b \<noteq> 32" "upper (cm_verb c) = cm_verb c"
    using assms by (auto simp: command_ok_def)
  have r: "rstrip_crlf (command_line c @ [13, 10]) = command_line c"
    using rstrip_plain command_line_plain assms by blast
  show ?thesis
  proof (cases "cm_args c = []")
    case True
    then have l: "command_line c = cm_verb c" by (simp add: command_line_def)
    have t: "takeWhile (\<lambda>b. b \<noteq> 32) (cm_verb c) = cm_verb c"
      using c(2) by (simp add: takeWhile_eq_all_conv)
    show ?thesis using True c(3) l r by (simp add: command_parse_def Let_def t)
  next
    case False
    then have l: "command_line c = cm_verb c @ 32 # cm_args c" by (simp add: command_line_def)
    have "takeWhile (\<lambda>b. b \<noteq> 32) (command_line c) = cm_verb c"
      using c(2) by (simp add: l takeWhile_append)
    moreover have "strip byte_space (cm_args c) = cm_args c"
      using strip_end [of "cm_args c" byte_space "[]"] False assms by (simp add: command_ok_def)
    ultimately show ?thesis using c l r by (simp add: command_parse_def Let_def)
  qed
qed

lemma command_no_code:
  assumes "command_ok c"
  shows "\<not> (3 \<le> length (command_line c) \<and> all_digits (take 3 (command_line c)))"
proof
  assume a: "3 \<le> length (command_line c) \<and> all_digits (take 3 (command_line c))"
  have n: "\<not> all_digits (take 3 (cm_verb c))" "cm_verb c \<noteq> []" using assms by (simp_all add: command_ok_def)
  have "all_digits (take 3 (cm_verb c))"
    using a n(2) by (auto simp: all_digits_def list_all_iff command_line_def split: if_splits)
  then show False using n(1) by simp
qed

lemma smtp_line_command:
  assumes "command_ok c"
  shows "smtp_line p (command_line c @ [13, 10]) = p\<lparr>sm_commands := sm_commands p @ [c]\<rparr>"
  using command_line_plain [OF assms] rstrip_plain [of "command_line c"] command_no_code [OF assms] command_back [OF assms]
  by (auto simp: smtp_line_def smtp_command_def Let_def)

text \<open>The lines of a response go to the pending list; the last one closes it.\<close>

lemma smtp_line_code:
  assumes "length c = 3" "all_digits c" "plain_line (c @ [s] @ l)"
  shows "smtp_line p ((c @ [s] @ l) @ [13, 10]) =
    (let pend = sm_pending p @ [(c @ [s] @ l) @ [13, 10]]
     in if s = 32 then p\<lparr>sm_responses := sm_responses p @ [smtp_response_init (concat pend)], sm_pending := []\<rparr>
        else p\<lparr>sm_pending := pend\<rparr>)"
proof -
  have "rstrip_crlf ((c @ [s] @ l) @ [13, 10]) = c @ [s] @ l" using rstrip_plain assms(3) by blast
  moreover have "(c @ [s] @ l) ! 3 = s" using assms(1) by (simp add: nth_append)
  ultimately show ?thesis using assms(1,2) by (simp add: smtp_line_def Let_def)
qed

lemma drain_coded:
  assumes "length c = 3" "all_digits c" "plain_line c" "ls \<noteq> []" "list_all plain_line ls"
  shows "drain smtp_line p (coded_lines c ls @ t) =
    drain smtp_line (p\<lparr>sm_responses := sm_responses p @ [smtp_response_init (concat (sm_pending p) @ coded_lines c ls)],
      sm_pending := []\<rparr>) t"
  using assms(4,5)
proof (induction ls arbitrary: p)
  case (Cons l ls)
  have pl: "plain_line (c @ [s] @ l)" if "s \<in> {32, 45}" for s
    using Cons.prems assms(3) that by (auto simp: plain_line_def)
  show ?case
  proof (cases ls)
    case Nil
    then show ?thesis
      using drain_line [OF pl [of 32], of smtp_line p t] smtp_line_code [OF assms(1,2) pl [of 32], of p]
      by (simp add: Let_def)
  next
    case (Cons m ms)
    let ?q = "p\<lparr>sm_pending := sm_pending p @ [(c @ [45] @ l) @ [13, 10]]\<rparr>"
    have "drain smtp_line p (coded_lines c (l # ls) @ t) = drain smtp_line ?q (coded_lines c ls @ t)"
      using drain_line [OF pl [of 45], of smtp_line p "coded_lines c ls @ t"] smtp_line_code [OF assms(1,2) pl [of 45], of p]
      by (simp add: Cons Let_def)
    then show ?thesis using Cons.IH [of ?q] Cons.prems Cons by simp
  qed
qed simp

lemma drain_session:
  assumes "list_all item_ok s" "sm_pending p = []"
  shows "drain smtp_line p (concat (map item_bytes s)) =
    (p\<lparr>sm_commands := sm_commands p @ commands_of s, sm_responses := sm_responses p @ responses_of s\<rparr>, [])"
  using assms
proof (induction s arbitrary: p)
  case Nil
  then show ?case by (simp add: commands_of_def responses_of_def)
next
  case (Cons i s)
  show ?case
  proof (cases i)
    case (Cmd c)
    then have c: "command_ok c" using Cons.prems by simp
    have "drain smtp_line p (concat (map item_bytes (i # s))) =
        drain smtp_line (p\<lparr>sm_commands := sm_commands p @ [c]\<rparr>) (concat (map item_bytes s))"
      using drain_line [of "command_line c" smtp_line p "concat (map item_bytes s)"] command_line_plain [OF c] smtp_line_command [OF c]
      by (simp add: Cmd command_bytes_line)
    then show ?thesis using Cons Cmd by (simp add: commands_of_def responses_of_def)
  next
    case (Resp r)
    then have r: "response_ok_smtp r" using Cons.prems by simp
    then have k: "sr_lines r \<noteq> []" "list_all plain_line (sr_lines r)" "sr_code r < 1000"
      "smtp_response_bytes r = coded_lines (code_bytes (sr_code r)) (sr_lines r)"
      by (simp_all add: response_ok_smtp_def smtp_response_bytes_def dec_str_code)
    have "drain smtp_line p (concat (map item_bytes (i # s))) =
        drain smtp_line (p\<lparr>sm_responses := sm_responses p @ [r], sm_pending := []\<rparr>) (concat (map item_bytes s))"
      using drain_coded [OF code_digits(3,1,4) [OF k(3)] k(1,2), of p] smtp_parse_back [OF r] Cons.prems(2)
      by (simp add: Resp k(4))
    then show ?thesis using Cons Resp by (simp add: commands_of_def responses_of_def)
  qed
qed

section \<open>POP3 responses read back\<close>

definition pop3_ok :: "pop3_response \<Rightarrow> bool" where
  "pop3_ok r \<longleftrightarrow>
     plain_line (po_text r) \<and> (po_text r \<noteq> [] \<longrightarrow> hd (po_text r) \<noteq> 32) \<and> list_all plain_line (po_lines r) \<and>
     (po_multi r \<or> po_lines r = [])"

lemma join_crlf: "ls \<noteq> [] \<Longrightarrow> join [13, 10] ls @ [13, 10] = concat (map (\<lambda>l. l @ [13, 10]) ls)"
proof (induction ls)
  case (Cons l ls)
  then show ?case by (cases ls) simp_all
qed simp

lemma stuff_back: "unstuff (stuff l) = l" "stuff l \<noteq> [46]" "plain_line l \<Longrightarrow> plain_line (stuff l)"
  by (cases l; auto simp: unstuff_def stuff_def starts_with_def plain_line_def)+

lemma stuffed_lines:
  "takeWhile (\<lambda>l. l \<noteq> [46]) (map stuff ls @ [[46]]) = map stuff ls" "map unstuff (map stuff ls) = ls" "map (unstuff \<circ> stuff) ls = ls"
proof -
  show "takeWhile (\<lambda>l. l \<noteq> [46]) (map stuff ls @ [[46]]) = map stuff ls"
    using stuff_back(2) by (induction ls) auto
  show "map unstuff (map stuff ls) = ls" by (induction ls) (simp_all add: stuff_back)
  then show "map (unstuff \<circ> stuff) ls = ls" by simp
qed

lemma pop3_words:
  "asc ''+OK'' = [43, 79, 75]" "asc ''-ERR'' = [45, 69, 82, 82]"
  "plain_line []" "plain_line [46]" "plain_line (32 # s) \<longleftrightarrow> plain_line s"
  "plain_line [43, 79, 75]" "plain_line [45, 69, 82, 82]" "plain_line (43 # 79 # 75 # s) \<longleftrightarrow> plain_line s"
  "plain_line (45 # 69 # 82 # 82 # s) \<longleftrightarrow> plain_line s"
  by (simp_all add: asc_def plain_line_def)

lemma pop3_lines_plain: "pop3_ok r \<Longrightarrow> list_all plain_line (pop3_to_lines r) \<and> pop3_to_lines r \<noteq> []"
  by (auto simp: pop3_ok_def pop3_to_lines_def list_all_iff Let_def pop3_words intro: stuff_back(3))

lemma pop3_parse_back:
  assumes "pop3_ok r"
  shows "pop3_response_init (pop3_response_bytes r) = r"
proof -
  let ?ls = "pop3_to_lines r" and ?raw = "join [10] (pop3_to_lines r)"
  let ?st = "if po_ok r then asc ''+OK'' else asc ''-ERR''"
  have p: "list_all plain_line ?ls" "?ls \<noteq> []" using pop3_lines_plain [OF assms] by simp_all
  have b: "pop3_response_bytes r = concat (map (\<lambda>l. l @ [13, 10]) ?ls)"
    using join_crlf [OF p(2)] by (simp add: pop3_response_bytes_def)
  have ch: "chop_newline (unix_lines (pop3_response_bytes r)) = ?raw"
    by (simp add: b unix_joined [OF p(2,1)] chop_newline_def)
  have sp: "split_byte 10 ?raw = ?ls" using lines_back [OF p(2,1)] ch b by simp
  obtain h where h: "hd ?ls = ?st @ h" "h = (if po_text r \<noteq> [] then 32 # po_text r else [])"
    by (simp add: pop3_to_lines_def Let_def)
  obtain u where u: "?raw = ?st @ u"
    using h(1) p(2) by (cases ?ls rule: list.exhaust; cases "tl ?ls") auto
  have ok: "starts_with ?raw (asc ''+OK'') = po_ok r" "starts_with ?raw (asc ''-ERR'') = (\<not> po_ok r)"
    by (simp_all add: u pop3_words starts_with_def)
  have t: "(let t = drop 4 (hd ?ls) in if t \<noteq> [] \<and> hd t = 32 then tl t else t) = po_text r"
    using assms by (simp add: h pop3_words pop3_ok_def Let_def)
  have tl: "tl ?ls = (if po_multi r then map stuff (po_lines r) @ [[46]] else [])"
    by (simp add: pop3_to_lines_def Let_def)
  have "pop3_response_bytes r \<noteq> []" using p(2) by (simp add: b)
  then have "pop3_response_init (pop3_response_bytes r) =
      (if tl ?ls \<noteq> []
       then \<lparr>po_ok = po_ok r, po_text = po_text r, po_lines = map unstuff (takeWhile (\<lambda>l. l \<noteq> [46]) (tl ?ls)), po_multi = True\<rparr>
       else \<lparr>po_ok = po_ok r, po_text = po_text r, po_lines = [], po_multi = False\<rparr>)"
    using t ok by (simp add: pop3_response_init_def ch sp Let_def)
  also have "\<dots> = r" using assms by (auto simp: tl stuffed_lines pop3_ok_def)
  finally show ?thesis .
qed

section \<open>Properties\<close>

text \<open>
  C17: An SMTP session, commands and responses of one or more lines in any order, is read back
  completely by the parser from the bytes of its messages, in whatever pieces they arrive: every
  command and every response once, in order, and nothing is left pending or in the buffer.
\<close>

theorem smtp_session_parsed:
  assumes "list_all item_ok s" "concat ps = concat (map item_bytes s)"
  shows "foldl smtp_feed smtp_start ps =
    (\<lparr>sm_commands = commands_of s, sm_responses = responses_of s, sm_pending = []\<rparr>, [])"
proof -
  have "foldl smtp_feed smtp_start ps = smtp_feed smtp_start (concat ps)"
    by (rule drain_pieces [where line = smtp_line]) (simp_all add: smtp_feed_def smtp_start_def)
  then show ?thesis
    using drain_session [OF assms(1), of "fst smtp_start"] assms(2) by (simp add: smtp_feed_def smtp_start_def)
qed

theorem smtp_session_parsed_witness:
  "foldl smtp_feed smtp_start [[81, 85, 73], [84, 13], [10, 50, 50, 49, 45, 13, 10, 50, 50], [49, 32, 65, 13, 10]] =
    (\<lparr>sm_commands = [\<lparr>cm_verb = [81, 85, 73, 84], cm_args = []\<rparr>],
      sm_responses = [\<lparr>sr_code = 221, sr_lines = [[], [65]], sr_multi = True\<rparr>], sm_pending = []\<rparr>, [])"
  using smtp_session_parsed [of "[Cmd \<lparr>cm_verb = [81, 85, 73, 84], cm_args = []\<rparr>,
      Resp \<lparr>sr_code = 221, sr_lines = [[], [65]], sr_multi = True\<rparr>]"
      "[[81, 85, 73], [84, 13], [10, 50, 50, 49, 45, 13, 10, 50, 50], [49, 32, 65, 13, 10]]"]
  by (simp add: commands_of_def responses_of_def command_ok_def response_ok_smtp_def plain_line_def all_digits_def upper_def
      upper1_def command_bytes_def smtp_response_bytes_def dec_str_code code_bytes_def dig_def)

text \<open>
  The FTP control parser does not depend on how the stream is cut either: its commands,
  replies, pending lines and buffer are those of the whole stream fed at once.
\<close>

theorem ftp_pieces: "foldl ftp_feed ftp_start ps = ftp_feed ftp_start (concat ps)"
  by (rule drain_pieces [where line = ftp_line]) (simp_all add: ftp_feed_def ftp_start_def)

text \<open>
  A POP3 response is read back from its bytes: the status, the text, and the lines of a
  response of several lines, those that start with a dot included.
\<close>

theorem pop3_response_roundtrip:
  assumes "pop3_ok r"
  shows "pop3_response_init (pop3_response_bytes r) = r"
  using assms by (rule pop3_parse_back)

theorem pop3_response_roundtrip_witness:
  "pop3_response_init (pop3_response_bytes \<lparr>po_ok = True, po_text = [50], po_lines = [[46], [46, 65], []], po_multi = True\<rparr>) =
    \<lparr>po_ok = True, po_text = [50], po_lines = [[46], [46, 65], []], po_multi = True\<rparr>"
  by (rule pop3_response_roundtrip) (simp add: pop3_ok_def plain_line_def)


text \<open>
  RFC 959 lets the lines inside a reply of several lines begin with anything. The FTP parser
  takes such a line for a command and leaves it out of the reply.
\<close>

theorem ftp_inner_line_is_command:
  assumes "plain_line l" "l \<noteq> []" "\<not> all_digits (take 3 l)"
  shows "ftp_line p (l @ [13, 10]) = p\<lparr>fp_commands := fp_commands p @ [ftp_command (l @ [13, 10])]\<rparr>"
  using assms rstrip_plain [of l] by (simp add: ftp_line_def Let_def)

theorem ftp_inner_line_is_command_witness:
  "fp_commands (ftp_line (fst ftp_start) (asc '' SIZE'' @ [13, 10])) = [\<lparr>cm_verb = asc '' SIZE'', cm_args = []\<rparr>]"
proof -
  have "plain_line (asc '' SIZE'')" "\<not> all_digits (take 3 (asc '' SIZE''))"
    by (simp_all add: asc_def plain_line_def all_digits_def)
  moreover have "ftp_command (asc '' SIZE'' @ [13, 10]) = \<lparr>cm_verb = asc '' SIZE'', cm_args = []\<rparr>" by code_simp
  ultimately show ?thesis
    using ftp_inner_line_is_command [of "asc '' SIZE''" "fst ftp_start"] by (simp add: ftp_start_def asc_def)
qed

end
