(* ===== verification/Elements.thy ===== *)
theory Elements
  imports Tables
begin

text \<open>
  The information elements of IEEE 802.11, \<^verbatim>\<open>dpkt/ieee80211_ie.py\<close>: the element classes, the
  registries that choose one by its number, and the loop over the elements of a frame. An object is
  its header values, its \<^verbatim>\<open>info\<close> and the attributes that its class sets, in their order; the guards
  of the code make every index and every slice that \<^verbatim>\<open>struct.unpack\<close> takes exact.
\<close>

section \<open>Element classes\<close>

datatype ie_class =
    IEEE80211IE | IEHECapability | IEHEOperation | IEHESpatialReuse | IEHEBSSColorChange | IEHETWT | IEHE6GHzBand
  | IEHEMCSNSS | IEEHTCapability | IEEHTOperation | IEEHTTIDLink | IEMLElement | IEHTCapability | IEHTInfo
  | IEVHTCapability | IEVHTOperation | IEERP | IERSN | IEExtCap | IECountry | IEWMM

text \<open>Values of attributes; the two lists of dicts are lists of their values, in the order of the keys.\<close>

datatype ie_val =
    AInt int
  | ABytes bytes
  | APair int int
  | AItems "bytes list"
  | ADicts "(int \<times> int \<times> int) list"

type_synonym ie_attrs = "(string \<times> ie_val) list"

definition a_byte :: "string \<Rightarrow> bytes \<Rightarrow> nat \<Rightarrow> ie_attrs" where
  "a_byte n s i = [(n, AInt (ord (s ! i)))]"

definition le_at :: "bytes \<Rightarrow> nat \<Rightarrow> nat \<Rightarrow> int" where
  "le_at s i n = le_int (take n (drop i s))"

definition a_le :: "string \<Rightarrow> bytes \<Rightarrow> nat \<Rightarrow> nat \<Rightarrow> ie_attrs" where
  "a_le n s i j = [(n, AInt (le_at s i (j - i)))]"

definition a_slice :: "string \<Rightarrow> bytes \<Rightarrow> nat \<Rightarrow> nat \<Rightarrow> ie_attrs" where
  "a_slice n s i j = [(n, ABytes (drop i (take j s)))]"

definition a_from :: "string \<Rightarrow> bytes \<Rightarrow> nat \<Rightarrow> ie_attrs" where
  "a_from n s i = [(n, ABytes (drop i s))]"

definition at_least :: "nat \<Rightarrow> bytes \<Rightarrow> ie_attrs \<Rightarrow> ie_attrs" where
  "at_least n s xs = (if n \<le> length s then xs else [])"

definition a_ext :: "bytes \<Rightarrow> ie_attrs" where
  "a_ext s = at_least 1 s (a_byte ''ext_id'' s 0)"

definition he_capability :: "bytes \<Rightarrow> ie_attrs" where
  "he_capability s = a_ext s @ at_least 7 s (a_slice ''mac_info'' s 1 7) @ at_least 18 s (a_slice ''phy_info'' s 7 18)"

definition he_operation :: "bytes \<Rightarrow> ie_attrs" where
  "he_operation s =
     a_ext s @ at_least 7 s (a_slice ''params'' s 1 4 @ a_byte ''bss_color'' s 4 @ a_le ''basic_mcs'' s 5 7)"

definition he_spatial_reuse :: "bytes \<Rightarrow> ie_attrs" where
  "he_spatial_reuse s = a_ext s @ a_from ''srg_info'' s 1"

definition he_bss_color_change :: "bytes \<Rightarrow> ie_attrs" where
  "he_bss_color_change s =
     at_least 3 s (a_byte ''ext_id'' s 0 @ a_byte ''countdown'' s 1 @ a_byte ''new_color'' s 2)"

definition he_twt :: "bytes \<Rightarrow> ie_attrs" where
  "he_twt s = at_least 3 s (a_byte ''ext_id'' s 0 @ a_byte ''request'' s 1 @ a_byte ''broadcast'' s 2)"

definition he_6ghz_band :: "bytes \<Rightarrow> ie_attrs" where
  "he_6ghz_band s =
     a_ext s @ at_least 6 s (a_byte ''min_mcs'' s 1 @ [(''max_ampdu'', AInt (drop_bit 2 (le_at s 2 4)))]) @
     a_from ''tx_power'' s 6"

definition he_mcs_nss :: "bytes \<Rightarrow> ie_attrs" where
  "he_mcs_nss s = a_ext s @ a_from ''mcs_map'' s 1"

definition eht_capability :: "bytes \<Rightarrow> ie_attrs" where
  "eht_capability s =
     a_ext s @ at_least 3 s (a_slice ''mac_cap'' s 1 3) @ at_least 12 s (a_slice ''phy_cap'' s 3 12) @ a_from ''eht_mcs_nss'' s 12"

definition eht_operation :: "bytes \<Rightarrow> ie_attrs" where
  "eht_operation s = a_ext s @ at_least 4 s (a_byte ''params'' s 1 @ a_le ''basic_mcs'' s 2 4)"

definition eht_tid_link :: "bytes \<Rightarrow> ie_attrs" where
  "eht_tid_link s = a_ext s @ a_from ''mapping'' s 1"

definition ml_element :: "bytes \<Rightarrow> ie_attrs" where
  "ml_element s =
     a_ext s @
     at_least 3 s
       (let c = le_at s 1 2
        in [(''ml_control'', AInt c), (''type'', AInt (drop_bit 1 c AND 7)), (''presence'', AInt (drop_bit 4 c AND 1))]) @
     a_from ''common_info'' s 3"

definition ht_capability :: "bytes \<Rightarrow> ie_attrs" where
  "ht_capability s =
     at_least 26 s
       (a_le ''ht_cap_info'' s 0 2 @ a_byte ''ampdu_params'' s 2 @ a_slice ''mcs_set'' s 3 19 @ a_le ''ht_ext_cap'' s 19 21 @
        a_le ''beamforming'' s 21 25 @ a_byte ''asel'' s 25)"

definition ht_info :: "bytes \<Rightarrow> ie_attrs" where
  "ht_info s =
     at_least 22 s (a_byte ''primary_ch'' s 0 @ a_le ''ht_info_config'' s 1 3 @ a_slice ''basic_mcs'' s 6 22)"

definition vht_capability :: "bytes \<Rightarrow> ie_attrs" where
  "vht_capability s =
     at_least 12 s
       (let rx = le_at s 4 2; tx = le_at s 6 2
        in a_le ''vht_cap_info'' s 0 4 @ [(''mcs_map'', APair rx tx), (''rx_mcs'', AInt rx), (''tx_mcs'', AInt tx)])"

definition vht_operation :: "bytes \<Rightarrow> ie_attrs" where
  "vht_operation s =
     at_least 5 s (a_byte ''ch_width'' s 0 @ a_byte ''ch1'' s 1 @ a_byte ''ch2'' s 2 @ a_le ''basic_mcs'' s 3 5)"

definition erp_element :: "bytes \<Rightarrow> ie_attrs" where
  "erp_element s = at_least 1 s (a_byte ''flags'' s 0)"

text \<open>The loops of RSN: at most as many suites as announced, and what follows the last one.\<close>

fun rsn_suites :: "nat \<Rightarrow> bytes \<Rightarrow> bytes list \<times> bytes" where
  "rsn_suites 0 s = ([], s)"
| "rsn_suites (Suc n) s =
     (if 4 \<le> length s then (let (xs, r) = rsn_suites n (drop 4 s) in (take 4 s # xs, r)) else rsn_suites n s)"

definition rsn_u16 :: "bytes \<Rightarrow> int \<times> bytes" where
  "rsn_u16 s = (if 2 \<le> length s then (le_at s 0 2, drop 2 s) else (0, s))"

definition rsn_element :: "bytes \<Rightarrow> ie_attrs" where
  "rsn_element s =
     at_least 8 s
       (let pairwise_count = le_at s 6 2;
            (pairwise, r1) = rsn_suites (nat pairwise_count) (drop 8 s);
            (akm_count, r2) = rsn_u16 r1;
            (akm, r3) = rsn_suites (nat akm_count) r2;
            (caps, r4) = rsn_u16 r3
        in a_le ''version'' s 0 2 @ a_slice ''group_suite'' s 2 6 @ [(''pairwise_count'', AInt pairwise_count),
             (''pairwise'', AItems pairwise), (''akm_count'', AInt akm_count), (''akm'', AItems akm), (''caps'', AInt caps)])"

fun country_triplets :: "bytes \<Rightarrow> (int \<times> int \<times> int) list" where
  "country_triplets (a # b # c # s) = (ord a, ord b, if 127 < ord c then ord c - 256 else ord c) # country_triplets s"
| "country_triplets s = []"

definition country_element :: "bytes \<Rightarrow> ie_attrs" where
  "country_element s =
     [(''country_code'', ABytes (if 3 \<le> length s then take 3 s else [])), (''triplets'', ADicts (country_triplets (drop 3 s)))]"

fun wmm_params :: "bytes \<Rightarrow> (int \<times> int \<times> int) list" where
  "wmm_params (a # b # c # d # s) =
     (drop_bit 5 (ord a) AND 3, drop_bit 4 (ord a) AND 1, le_int [c, d]) # wmm_params s"
| "wmm_params s = []"

definition wmm_element :: "bytes \<Rightarrow> ie_attrs" where
  "wmm_element s =
     (if 7 \<le> length s \<and> take 4 s = [0x00, 0x50, 0xf2, 0x02]
      then a_slice ''oui'' s 0 3 @ a_byte ''oui_type'' s 3 @ a_byte ''subtype'' s 4 @ a_byte ''version'' s 5 @
           a_byte ''qos_info'' s 6 @ [(''params'', ADicts (wmm_params (drop 7 s)))]
      else [])"

fun ie_attributes :: "ie_class \<Rightarrow> bytes \<Rightarrow> ie_attrs" where
  "ie_attributes IEEE80211IE s = []"
| "ie_attributes IEHECapability s = he_capability s"
| "ie_attributes IEHEOperation s = he_operation s"
| "ie_attributes IEHESpatialReuse s = he_spatial_reuse s"
| "ie_attributes IEHEBSSColorChange s = he_bss_color_change s"
| "ie_attributes IEHETWT s = he_twt s"
| "ie_attributes IEHE6GHzBand s = he_6ghz_band s"
| "ie_attributes IEHEMCSNSS s = he_mcs_nss s"
| "ie_attributes IEEHTCapability s = eht_capability s"
| "ie_attributes IEEHTOperation s = eht_operation s"
| "ie_attributes IEEHTTIDLink s = eht_tid_link s"
| "ie_attributes IEMLElement s = ml_element s"
| "ie_attributes IEHTCapability s = ht_capability s"
| "ie_attributes IEHTInfo s = ht_info s"
| "ie_attributes IEVHTCapability s = vht_capability s"
| "ie_attributes IEVHTOperation s = vht_operation s"
| "ie_attributes IEERP s = erp_element s"
| "ie_attributes IERSN s = rsn_element s"
| "ie_attributes IEExtCap s = a_from ''flags'' s 0"
| "ie_attributes IECountry s = country_element s"
| "ie_attributes IEWMM s = wmm_element s"

section \<open>Elements\<close>

record element =
  el_vals :: "pval list"
  el_class :: ie_class
  el_info :: bytes
  el_attrs :: ie_attrs

definition element_hdr :: hdr where
  "element_hdr = [(''id'', fB, VInt 0), (''len'', fB, VInt 0)]"

definition el_len :: "element \<Rightarrow> nat" where
  "el_len e = nat (get_int element_hdr ''len'' (el_vals e))"

definition element_unpack :: "ie_class \<Rightarrow> bytes \<Rightarrow> element result" where
  "element_unpack c buf =
     rbind (class_unpack LE element_hdr buf) (\<lambda>p.
       let info = drop 2 (take (2 + nat (get_int element_hdr ''len'' (obj_vals p))) buf)
       in Inr \<lparr>el_vals = obj_vals p, el_class = c, el_info = info, el_attrs = ie_attributes c info\<rparr>)"

definition element_init :: "ie_class \<Rightarrow> bytes \<Rightarrow> element result" where
  "element_init c = packet_init (hdr_len element_hdr) (element_unpack c)"

definition element_parse :: "ie_class \<Rightarrow> bytes \<Rightarrow> (element option \<times> nat) result" where
  "element_parse c buf =
     (if length buf < 2 then Inr (None, 0)
      else rbind (element_init c buf) (\<lambda>e. Inr (Some e, 2 + el_len e)))"

text \<open>\<^verbatim>\<open>data\<close> is empty, and packing is inherited.\<close>

definition element_bytes :: "element \<Rightarrow> bytes result" where
  "element_bytes e = packet_bytes LE element_hdr (el_vals e) []"

section \<open>Registries\<close>

record ie_registries =
  ie_registry :: "int \<rightharpoonup> ie_class"
  ext_ie_registry :: "int \<rightharpoonup> ie_class"

definition register_ie :: "int \<Rightarrow> ie_class \<Rightarrow> int option \<Rightarrow> ie_registries \<Rightarrow> ie_registries" where
  "register_ie ie_id c ext_id r =
     (case ext_id of
        Some x \<Rightarrow> r\<lparr>ext_ie_registry := (ext_ie_registry r)(x \<mapsto> c)\<rparr>
      | None \<Rightarrow> r\<lparr>ie_registry := (ie_registry r)(ie_id \<mapsto> c)\<rparr>)"

definition get_ie_parser :: "ie_registries \<Rightarrow> int \<Rightarrow> int option \<Rightarrow> ie_class" where
  "get_ie_parser r ie_id ext_id =
     (case (if ie_id = 255 then ext_id else None) of
        Some x \<Rightarrow> (case ext_ie_registry r x of Some c \<Rightarrow> c | None \<Rightarrow> IEEE80211IE)
      | None \<Rightarrow> (case ie_registry r ie_id of Some c \<Rightarrow> c | None \<Rightarrow> IEEE80211IE))"

text \<open>What importing the module registers.\<close>

definition module_ies :: ie_registries where
  "module_ies =
     fold (\<lambda>(x, c). register_ie 255 c (Some x))
       [(35, IEHECapability), (36, IEHEOperation), (37, IEHESpatialReuse), (38, IEHEBSSColorChange), (39, IEHETWT),
        (32, IEHE6GHzBand), (33, IEHEMCSNSS), (106, IEEHTCapability), (107, IEEHTOperation), (108, IEEHTTIDLink),
        (101, IEMLElement)]
       (fold (\<lambda>(i, c). register_ie i c None)
         [(45, IEHTCapability), (61, IEHTInfo), (191, IEVHTCapability), (192, IEVHTOperation), (42, IEERP), (48, IERSN),
          (127, IEExtCap), (7, IECountry), (221, IEWMM)]
         \<lparr>ie_registry = Map.empty, ext_ie_registry = Map.empty\<rparr>)"

text \<open>One round of the loop: the class of the next element, and its bytes.\<close>

definition next_class :: "ie_registries \<Rightarrow> byte \<Rightarrow> bytes \<Rightarrow> ie_class" where
  "next_class r i s = get_ie_parser r (ord i) (if ord i = 255 \<and> s \<noteq> [] then Some (ord (hd s)) else None)"

definition ies_round :: "ie_registries \<Rightarrow> bytes \<Rightarrow> element round" where
  "ies_round r buf =
     (case buf of
        i # n # s \<Rightarrow>
          if length s < nat (ord n) then Stop
          else round_of (element_init (next_class r i (take (nat (ord n)) s)) (take (2 + nat (ord n)) buf)) (drop (nat (ord n)) s)
      | _ \<Rightarrow> Stop)"

definition unpack_ies :: "ie_registries \<Rightarrow> bytes \<Rightarrow> element list result" where
  "unpack_ies r = parse_loop (ies_round r)"

section \<open>The loop reads every element\<close>

fun ie_wire :: "byte \<times> bytes \<Rightarrow> bytes" where
  "ie_wire (i, s) = i # word_of_nat (length s) # s"

fun ie_object :: "ie_registries \<Rightarrow> byte \<times> bytes \<Rightarrow> element" where
  "ie_object r (i, s) =
     \<lparr>el_vals = [VInt (ord i), VInt (int (length s))], el_class = next_class r i s, el_info = s,
      el_attrs = ie_attributes (next_class r i s) s\<rparr>"

text \<open>What the loop leaves unread: less than the next element announces.\<close>

definition ies_tail :: "bytes \<Rightarrow> bool" where
  "ies_tail t \<longleftrightarrow> length t < 2 \<or> length t < 2 + nat (ord (t ! 1))"

lemma element_init_whole:
  assumes "length s = nat (ord n)"
  shows "element_init c (i # n # s) = Inr \<lparr>el_vals = [VInt (ord i), VInt (ord n)], el_class = c, el_info = s, el_attrs = ie_attributes c s\<rparr>"
  using assms
  by (simp add: element_init_def packet_init_Inr element_unpack_def class_unpack_def packet_unpack_def element_hdr_def
      hdr_len_def hdr_fmt_def calcsize_def struct_unpack_def bytes_int_def obj_make_def get_int_Cons ord_def)

lemma ies_round_wire:
  assumes "length s < 256"
  shows "ies_round r (ie_wire (i, s) @ t) = Item (ie_object r (i, s)) t"
proof -
  have n: "ord (word_of_nat (length s)) = int (length s)" using assms by (simp add: ord_def unsigned_of_nat take_bit_nat_eq_self)
  then show ?thesis
    using element_init_whole [of s "word_of_nat (length s)" "next_class r i s" i] by (simp add: ies_round_def)
qed

lemma ies_round_tail: "ies_tail t \<Longrightarrow> ies_round r t = Stop"
  by (auto simp: ies_tail_def ies_round_def split: list.splits)

lemma ies_read:
  "list_all (\<lambda>e. length (snd e) < 256) es \<Longrightarrow> ies_tail t \<Longrightarrow>
   unpack_ies r (concat (map ie_wire es) @ t) = Inr (map (ie_object r) es)"
proof (induction es)
  case Nil
  then show ?case by (simp add: unpack_ies_def parse_loop_Stop ies_round_tail)
next
  case (Cons e es)
  obtain i s where e: "e = (i, s)" by (cases e)
  have "ies_round r (ie_wire (i, s) @ concat (map ie_wire es) @ t) = Item (ie_object r (i, s)) (concat (map ie_wire es) @ t)"
    using Cons.prems e by (intro ies_round_wire) simp
  then show ?case using Cons by (simp add: unpack_ies_def parse_loop_Item e del: ie_object.simps)
qed

lemma ies_decompose:
  "\<exists>es t. buf = concat (map ie_wire es) @ t \<and> list_all (\<lambda>e. length (snd e) < 256) es \<and> ies_tail t"
proof (induction "length buf" arbitrary: buf rule: less_induct)
  case less
  show ?case
  proof (cases "ies_tail buf")
    case True
    then show ?thesis by (intro exI [of _ "[]"] exI [of _ buf]) simp
  next
    case False
    obtain i n s where b: "buf = i # n # s" using False by (auto simp: ies_tail_def neq_Nil_conv Suc_le_length_iff not_less)
    have k: "nat (ord n) \<le> length s" using False b by (simp add: ies_tail_def)
    let ?k = "nat (ord n)"
    obtain es t where et: "drop ?k s = concat (map ie_wire es) @ t" "list_all (\<lambda>e. length (snd e) < 256) es" "ies_tail t"
      using less [of "drop ?k s"] b by (metis diff_less_Suc le_imp_less_Suc length_Cons length_drop less_SucI diff_le_self)
    have lt: "?k < 256" using unsigned_less [of n] by (simp add: ord_def)
    have "word_of_nat ?k = n" by (simp add: ord_def unat_eq_nat_uint [symmetric])
    then have w: "ie_wire (i, take ?k s) = i # n # take ?k s" using k by simp
    have "buf = ie_wire (i, take ?k s) @ drop ?k s" unfolding w b by simp
    then have "buf = concat (map ie_wire ((i, take ?k s) # es)) @ t" by (simp only: list.map concat.simps et(1) append_assoc)
    then show ?thesis using et(2,3) lt k by (intro exI [of _ "(i, take ?k s) # es"] exI [of _ t]) simp
  qed
qed

section \<open>Suites and triplets\<close>

lemma rsn_suites_read: "list_all (\<lambda>x. length x = 4) xs \<Longrightarrow> rsn_suites (length xs) (concat xs @ r) = (xs, r)"
  by (induction xs) auto

lemma rsn_suites_bound:
  assumes "rsn_suites n s = (xs, r)"
  shows "length xs = min n (length s div 4) \<and> concat xs @ r = s \<and> list_all (\<lambda>x. length x = 4) xs"
  using assms
proof (induction n arbitrary: s xs r)
  case (Suc n)
  show ?case
  proof (cases "4 \<le> length s")
    case True
    obtain ys q where y: "rsn_suites n (drop 4 s) = (ys, q)" by (cases "rsn_suites n (drop 4 s)")
    have "length s div 4 = Suc ((length s - 4) div 4)" using True by (simp add: div_if)
    then show ?thesis using Suc.IH [OF y] Suc.prems y True append_take_drop_id [of 4 s] by auto
  next
    case False
    then show ?thesis using Suc.IH [of s xs] Suc.prems by auto
  qed
qed simp

lemma rsn_u16_read: "0 \<le> v \<Longrightarrow> v < 65536 \<Longrightarrow> rsn_u16 (le_bytes 2 v @ r) = (v, r)"
  using le_int_le_bytes [of 2 v] by (simp add: rsn_u16_def le_at_def del: le_bytes_numeral)

section \<open>Properties\<close>

text \<open>
  The loop over the elements never raises: any buffer is a sequence of whole elements and a rest
  shorter than its next element, and the loop returns exactly those elements, each of the class
  that the registries have for it.
\<close>

theorem unpack_ies_spec:
  "\<exists>es t. buf = concat (map ie_wire es) @ t \<and> list_all (\<lambda>e. length (snd e) < 256) es \<and> ies_tail t \<and>
     unpack_ies r buf = Inr (map (ie_object r) es)"
  using ies_decompose [of buf] ies_read by blast

text \<open>
  A robust security network element with any suites is taken apart into them; one that announces
  more suites than it has gives those that are there.
\<close>

theorem rsn_parsed:
  assumes "0 \<le> v" "v < 65536" "length g = 4" "list_all (\<lambda>x. length x = 4) ps" "length ps < 65536"
    and "list_all (\<lambda>x. length x = 4) as" "length as < 65536" "0 \<le> c" "c < 65536"
  shows "rsn_element (le_bytes 2 v @ g @ le_bytes 2 (int (length ps)) @ concat ps @ le_bytes 2 (int (length as)) @ concat as @
      le_bytes 2 c @ rest) =
    [(''version'', AInt v), (''group_suite'', ABytes g), (''pairwise_count'', AInt (int (length ps))), (''pairwise'', AItems ps),
     (''akm_count'', AInt (int (length as))), (''akm'', AItems as), (''caps'', AInt c)]"
proof -
  let ?t = "concat ps @ le_bytes 2 (int (length as)) @ concat as @ le_bytes 2 c @ rest"
  define s where "s = le_bytes 2 v @ g @ le_bytes 2 (int (length ps)) @ ?t"
  have h: "le_at s 0 2 = v" "le_at s 6 2 = int (length ps)" "drop 8 s = ?t" "drop 2 (take 6 s) = g" "8 \<le> length s"
    unfolding s_def
    using assms(1-3,5) le_int_le_bytes [of 2 v] le_int_le_bytes [of 2 "int (length ps)"]
    by (simp_all add: le_at_def del: le_bytes_numeral)
  have r: "rsn_suites (length ps) ?t = (ps, le_bytes 2 (int (length as)) @ concat as @ le_bytes 2 c @ rest)"
    "rsn_u16 (le_bytes 2 (int (length as)) @ concat as @ le_bytes 2 c @ rest) = (int (length as), concat as @ le_bytes 2 c @ rest)"
    "rsn_suites (length as) (concat as @ le_bytes 2 c @ rest) = (as, le_bytes 2 c @ rest)"
    "rsn_u16 (le_bytes 2 c @ rest) = (c, rest)"
    using assms by (simp_all add: rsn_suites_read rsn_u16_read del: le_bytes_numeral)
  show ?thesis
    unfolding s_def [symmetric]
    using h r by (simp add: rsn_element_def at_least_def a_le_def a_slice_def del: le_bytes_numeral)
qed

theorem rsn_parsed_witness:
  "rsn_element [1, 0, 0, 15, 172, 4, 1, 0, 0, 15, 172, 4, 1, 0, 0, 15, 172, 2, 0, 0] =
    [(''version'', AInt 1), (''group_suite'', ABytes [0, 15, 172, 4]), (''pairwise_count'', AInt 1),
     (''pairwise'', AItems [[0, 15, 172, 4]]), (''akm_count'', AInt 1), (''akm'', AItems [[0, 15, 172, 2]]), (''caps'', AInt 0)]"
  using rsn_parsed [of 1 "[0, 15, 172, 4]" "[[0, 15, 172, 4]]" "[[0, 15, 172, 2]]" 0 "[]"] by simp

text \<open>Packing an element that was parsed gives its two header bytes: its contents are lost.\<close>

theorem element_info_not_packed:
  assumes "length s = nat (ord n)"
  shows "\<exists>e. element_init c (i # n # s) = Inr e \<and> el_info e = s \<and> element_bytes e = Inr [i, n]"
proof -
  have "pack1 LE fB (VInt (ord b)) = Inr [b]" for b
    using uint_bounded [of b] by (simp add: ord_def int_bytes_def numeral_eq_Suc)
  then show ?thesis
    using element_init_whole [OF assms, of c i]
    by (simp add: element_bytes_def packet_bytes_def packet_pack_hdr_def element_hdr_def hdr_fmt_def rbind_def)
qed

theorem element_info_not_packed_witness:
  "\<exists>e. element_init IEExtCap [127, 2, 5, 6] = Inr e \<and> el_info e = [5, 6] \<and> element_bytes e = Inr [127, 2]"
  by (rule element_info_not_packed) (simp add: ord_def)

end
