(* ===== verification/Wifi.thy ===== *)
theory Wifi
  imports Elements
begin

text \<open>
  IEEE 802.11 frames, \<^verbatim>\<open>dpkt/ieee80211.py\<close>: the frame control bits, the choice of the body by type
  and subtype, the management bodies with their elements, control bodies, data bodies with the four
  address layouts, and the quality of service control. The bodies that are a table only come from
  \<open>Header_Classes\<close>.
\<close>

section \<open>Frame control\<close>

definition wlan_hdr :: hdr where
  "wlan_hdr = [(''_framectl'', fH, VInt 0), (''duration'', fH, VInt 0)]"

definition wlan_bits :: bit_fields where
  "wlan_bits =
     [(''order'', 1), (''wep'', 1), (''more_data'', 1), (''pwr_mgt'', 1), (''retry'', 1), (''more_frag'', 1),
      (''from_ds'', 1), (''to_ds'', 1), (''subtype'', 4), (''type'', 2), (''version'', 2)]"

definition wlan_bit :: "string \<Rightarrow> pval list \<Rightarrow> int" where
  "wlan_bit n vs = (case bf_get wlan_bits n (get_int wlan_hdr ''_framectl'' vs) of Inr v \<Rightarrow> v | Inl _ \<Rightarrow> 0)"

definition MGMT_TYPE :: int where "MGMT_TYPE = 0"
definition CTL_TYPE :: int where "CTL_TYPE = 1"
definition DATA_TYPE :: int where "DATA_TYPE = 2"
definition M_ATIM :: int where "M_ATIM = 9"
definition D_QOS_DATA :: int where "D_QOS_DATA = 8"

text \<open>Beacon, association and reassociation: the bodies with capabilities.\<close>

definition FRAMES_WITH_CAPABILITY :: "int list" where
  "FRAMES_WITH_CAPABILITY = [8, 1, 0, 2]"

section \<open>Elements of the frame class\<close>

datatype wlan_ie_class = KIE | KFH | KDS | KCF | KTIM | KIBSS

definition wlan_ie_hdr :: hdr where
  "wlan_ie_hdr = [(''id'', fB, VInt 0), (''len'', fB, VInt 0)]"

definition wlan_tim_hdr :: hdr where
  "wlan_tim_hdr =
     [(''id'', fB, VInt 0), (''len'', fB, VInt 0), (''count'', fB, VInt 0), (''period'', fB, VInt 0), (''ctrl'', fH, VInt 0)]"

fun wlan_ie_table :: "wlan_ie_class \<Rightarrow> hdr" where
  "wlan_ie_table KIE = wlan_ie_hdr"
| "wlan_ie_table KFH = ieee80211_IEEE80211_FH_hdr"
| "wlan_ie_table KDS = ieee80211_IEEE80211_DS_hdr"
| "wlan_ie_table KCF = ieee80211_IEEE80211_CF_hdr"
| "wlan_ie_table KTIM = wlan_tim_hdr"
| "wlan_ie_table KIBSS = ieee80211_IEEE80211_IBSS_hdr"

text \<open>\<open>wi_extra\<close> is the attribute \<^verbatim>\<open>info\<close> of an IE and \<^verbatim>\<open>bitmap\<close> of a TIM.\<close>

record wlan_ie =
  wi_name :: string
  wi_class :: wlan_ie_class
  wi_vals :: "pval list"
  wi_extra :: "bytes option"
  wi_data :: bytes

definition wlan_ie_len :: "wlan_ie_class \<Rightarrow> pval list \<Rightarrow> nat" where
  "wlan_ie_len c vs = nat (get_int (wlan_ie_table c) ''len'' vs)"

definition wlan_ie_unpack :: "string \<Rightarrow> wlan_ie_class \<Rightarrow> bytes \<Rightarrow> wlan_ie result" where
  "wlan_ie_unpack name c buf =
     rbind (class_unpack BE (wlan_ie_table c) buf) (\<lambda>p.
       let n = wlan_ie_len c (obj_vals p)
       in Inr \<lparr>wi_name = name, wi_class = c, wi_vals = obj_vals p,
               wi_extra = (case c of KIE \<Rightarrow> Some (drop 2 (take (n + 2) buf)) | KTIM \<Rightarrow> Some (drop 5 (take (n + 2) buf)) | _ \<Rightarrow> None),
               wi_data = obj_data p\<rparr>)"

definition wlan_ie_init :: "string \<Rightarrow> wlan_ie_class \<Rightarrow> bytes \<Rightarrow> wlan_ie result" where
  "wlan_ie_init name c = packet_init (hdr_len (wlan_ie_table c)) (wlan_ie_unpack name c)"

definition ie_decoder :: "int \<Rightarrow> string \<times> wlan_ie_class" where
  "ie_decoder i =
     (case map_of [(0, (''ssid'', KIE)), (1, (''rate'', KIE)), (2, (''fh'', KFH)), (3, (''ds'', KDS)), (4, (''cf'', KCF)),
        (5, (''tim'', KTIM)), (6, (''ibss'', KIBSS)), (45, (''ht_capa'', KIE)), (50, (''esr'', KIE)), (61, (''ht_info'', KIE))] i of
        Some x \<Rightarrow> x
      | None \<Rightarrow> (''ie_'' @ dec_digits (num_digits (nat i)) (nat i), KIE))"

definition wlan_ie_round :: "bytes \<Rightarrow> wlan_ie round" where
  "wlan_ie_round buf =
     (if length buf < 2 then Stop
      else
        let (name, c) = ie_decoder (ord (hd buf))
        in case wlan_ie_init name c buf of
             Inl e \<Rightarrow> Fail e
           | Inr e \<Rightarrow>
               (let n = wlan_ie_len c (wi_vals e)
                in Item (e\<lparr>wi_data := drop 2 (take (2 + n) buf)\<rparr>) (drop (2 + n) buf)))"

definition wlan_ies :: "bytes \<Rightarrow> wlan_ie list result" where
  "wlan_ies = parse_loop wlan_ie_round"

definition wlan_capability :: "int \<Rightarrow> (string \<times> int) list" where
  "wlan_capability field =
     map (\<lambda>(n, i). (n, drop_bit i field AND 1))
       [(''ess'', 0), (''ibss'', 1), (''cf_poll'', 2), (''cf_poll_req'', 3), (''privacy'', 4), (''short_preamble'', 5),
        (''pbcc'', 6), (''hopping'', 7), (''spec_mgmt'', 8), (''qos'', 9), (''short_slot'', 10), (''apsd'', 11), (''dsss'', 13),
        (''delayed_blk_ack'', 14), (''imm_blk_ack'', 15)]"

section \<open>Bodies\<close>

text \<open>
  A body of a class that is a table, with the table; a block acknowledgment with its bitmap; a probe
  request, which has elements only; an action with the name and the object of its details.
\<close>

datatype wlan_body =
    BTable hdr packet_obj
  | BBlockAck packet_obj bytes
  | BProbe "element list"
  | BAction packet_obj string packet_obj

fun body_data :: "wlan_body \<Rightarrow> bytes" where
  "body_data (BTable h p) = obj_data p"
| "body_data (BBlockAck p bmp) = obj_data p"
| "body_data (BProbe es) = []"
| "body_data (BAction p n f) = obj_data p"

definition table_body :: "hdr \<Rightarrow> bytes \<Rightarrow> wlan_body result" where
  "table_body h buf = rbind (class_init LE h buf) (\<lambda>p. Inr (BTable h p))"

definition block_ack_hdr :: hdr where
  "block_ack_hdr =
     [(''dst'', Str 6, VStr (replicate 6 (char_of (0 :: nat)))), (''src'', Str 6, VStr (replicate 6 (char_of (0 :: nat)))),
      (''ctl'', fH, VInt 0), (''seq'', fH, VInt 0)]"

text \<open>The properties of the control field: \<^verbatim>\<open>compressed\<close> is (4, 2), \<^verbatim>\<open>tid\<close> is (0xf000, 12).\<close>

definition ctl_get :: "int \<times> nat \<Rightarrow> pval list \<Rightarrow> int" where
  "ctl_get f vs = drop_bit (snd f) (get_int block_ack_hdr ''ctl'' vs AND fst f)"

definition ctl_set :: "int \<times> nat \<Rightarrow> int \<Rightarrow> pval list \<Rightarrow> pval list" where
  "ctl_set f v vs =
     set_val block_ack_hdr ''ctl'' (VInt (push_bit (snd f) v OR (get_int block_ack_hdr ''ctl'' vs AND NOT (fst f)))) vs"

definition block_ack_unpack :: "bytes \<Rightarrow> wlan_body result" where
  "block_ack_unpack buf =
     rbind (class_unpack LE block_ack_hdr buf) (\<lambda>p.
       let d = obj_data p; n = (if ctl_get (4, 2) (obj_vals p) \<noteq> 0 then 8 else 128)
       in if length (take n d) \<noteq> n then Inl StructError
          else Inr (BBlockAck (p\<lparr>obj_data := drop n d\<rparr>) (take n d)))"

definition block_ack_init :: "bytes \<Rightarrow> wlan_body result" where
  "block_ack_init = packet_init (hdr_len block_ack_hdr) block_ack_unpack"

definition probe_req_init :: "bytes \<Rightarrow> wlan_body result" where
  "probe_req_init = no_table_init (\<lambda>buf. rbind (unpack_ies module_ies buf) (\<lambda>es. Inr (BProbe es)))"

definition action_hdr :: hdr where
  "action_hdr = [(''category'', fB, VInt 0), (''code'', fB, VInt 0)]"

definition action_parser :: "int \<Rightarrow> int \<Rightarrow> (string \<times> hdr) option" where
  "action_parser category code =
     (if category \<noteq> 3 then None
      else map_of [(0, (''block_ack_request'', ieee80211_IEEE80211_BlockAckActionRequest_hdr)),
        (1, (''block_ack_response'', ieee80211_IEEE80211_BlockAckActionResponse_hdr)),
        (2, (''block_ack_delba'', ieee80211_IEEE80211_BlockAckActionDelba_hdr))] code)"

definition action_unpack :: "bytes \<Rightarrow> wlan_body result" where
  "action_unpack buf =
     rbind (class_unpack LE action_hdr buf) (\<lambda>p.
       case action_parser (get_int action_hdr ''category'' (obj_vals p)) (get_int action_hdr ''code'' (obj_vals p)) of
         None \<Rightarrow> Inl UnpackError
       | Some (n, h) \<Rightarrow>
           rbind (class_init LE h (obj_data p)) (\<lambda>f. Inr (BAction (p\<lparr>obj_data := obj_data f\<rparr>) n f)))"

definition action_init :: "bytes \<Rightarrow> wlan_body result" where
  "action_init = packet_init (hdr_len action_hdr) action_unpack"

section \<open>Decoders\<close>

type_synonym wlan_parser = "bytes \<Rightarrow> wlan_body result"

definition m_decoder :: "int \<Rightarrow> (string \<times> wlan_parser) option" where
  "m_decoder st =
     map_of
       [(8, (''beacon'', table_body ieee80211_IEEE80211_Beacon_hdr)),
        (0, (''assoc_req'', table_body ieee80211_IEEE80211_Assoc_Req_hdr)),
        (1, (''assoc_resp'', table_body ieee80211_IEEE80211_Assoc_Resp_hdr)),
        (10, (''diassoc'', table_body ieee80211_IEEE80211_Disassoc_hdr)),
        (2, (''reassoc_req'', table_body ieee80211_IEEE80211_Reassoc_Req_hdr)),
        (3, (''reassoc_resp'', table_body ieee80211_IEEE80211_Assoc_Resp_hdr)),
        (4, (''probe_req'', probe_req_init)),
        (11, (''auth'', table_body ieee80211_IEEE80211_Auth_hdr)),
        (5, (''probe_resp'', table_body ieee80211_IEEE80211_Beacon_hdr)),
        (12, (''deauth'', table_body ieee80211_IEEE80211_Deauth_hdr)),
        (13, (''action'', action_init))] st"

definition c_decoder :: "int \<Rightarrow> (string \<times> wlan_parser) option" where
  "c_decoder st =
     map_of
       [(11, (''rts'', table_body ieee80211_IEEE80211_RTS_hdr)), (12, (''cts'', table_body ieee80211_IEEE80211_CTS_hdr)),
        (13, (''ack'', table_body ieee80211_IEEE80211_ACK_hdr)), (8, (''bar'', table_body ieee80211_IEEE80211_BlockAckReq_hdr)),
        (9, (''back'', block_ack_init)), (14, (''cf_end'', table_body ieee80211_IEEE80211_CFEnd_hdr))] st"

text \<open>The address layout by the two direction bits.\<close>

definition ds_table :: "int \<Rightarrow> int \<Rightarrow> hdr" where
  "ds_table to_ds from_ds =
     (if to_ds = 0 then if from_ds = 0 then ieee80211_IEEE80211_Data_hdr else ieee80211_IEEE80211_DataFromDS_hdr
      else if from_ds = 0 then ieee80211_IEEE80211_DataToDS_hdr else ieee80211_IEEE80211_DataInterDS_hdr)"

definition d_decoder :: "int \<Rightarrow> int \<Rightarrow> int \<Rightarrow> (string \<times> wlan_parser) option" where
  "d_decoder st to_ds from_ds =
     (if st \<in> {0, 4, 8, 12} then Some (''data_frame'', table_body (ds_table to_ds from_ds)) else None)"

section \<open>Frames\<close>

record wlan =
  wl_vals :: "pval list"
  wl_fcs :: "int option"
  wl_mgmt :: "packet_obj option"
  wl_field :: "(string \<times> wlan_body) option"
  wl_ies :: "wlan_ie list option"
  wl_capability :: "(string \<times> int) list option"
  wl_qos :: "packet_obj option"
  wl_data :: bytes

text \<open>The check sequence is the last four bytes.\<close>

definition strip_fcs :: "bool \<Rightarrow> bytes \<Rightarrow> (int option \<times> bytes) result" where
  "strip_fcs present d =
     (if present then rbind (unpack_uint LE 4 (py_from d (-4))) (\<lambda>f. Inr (Some f, py_upto d (-4)))
      else Inr (None, d))"

definition body_capability :: "wlan_body \<Rightarrow> int" where
  "body_capability f = (case f of BTable h p \<Rightarrow> get_int h ''capability'' (obj_vals p) | _ \<Rightarrow> 0)"

definition wlan_mgmt :: "wlan \<Rightarrow> int \<Rightarrow> bytes \<Rightarrow> wlan result" where
  "wlan_mgmt w st d =
     rbind (class_init LE ieee80211_IEEE80211_MGMT_Frame_hdr d) (\<lambda>m.
       let w = w\<lparr>wl_mgmt := Some m, wl_data := obj_data m\<rparr>
       in if st = M_ATIM then Inr w
          else case m_decoder st of
            None \<Rightarrow> Inl UnpackError
          | Some (name, parser) \<Rightarrow>
              rbind (parser (obj_data m)) (\<lambda>f.
              rbind (wlan_ies (body_data f)) (\<lambda>ies.
                Inr (w\<lparr>wl_field := Some (name, f), wl_ies := Some ies,
                  wl_capability := (if st \<in> set FRAMES_WITH_CAPABILITY then Some (wlan_capability (body_capability f)) else None),
                  wl_data := body_data f\<rparr>))))"

text \<open>A body of a data frame is a table, whose data the quality of service control shortens.\<close>

definition wlan_other :: "wlan \<Rightarrow> int \<Rightarrow> int \<Rightarrow> bytes \<Rightarrow> wlan result" where
  "wlan_other w ty st d =
     (case (if ty = CTL_TYPE then c_decoder st
            else if ty = DATA_TYPE then d_decoder st (wlan_bit ''to_ds'' (wl_vals w)) (wlan_bit ''from_ds'' (wl_vals w))
            else None) of
        None \<Rightarrow> Inl UnpackError
      | Some (name, parser) \<Rightarrow>
          rbind (parser d) (\<lambda>f.
            if ty = DATA_TYPE \<and> st = D_QOS_DATA then
              rbind (class_init LE ieee80211_IEEE80211_QoS_Data_hdr (body_data f)) (\<lambda>q.
                Inr (w\<lparr>wl_field := Some (name, case f of BTable h p \<Rightarrow> BTable h (p\<lparr>obj_data := obj_data q\<rparr>) | _ \<Rightarrow> f),
                  wl_qos := Some q, wl_data := obj_data q\<rparr>))
            else Inr (w\<lparr>wl_field := Some (name, f), wl_data := body_data f\<rparr>)))"

definition wlan_unpack :: "bool \<Rightarrow> bytes \<Rightarrow> wlan result" where
  "wlan_unpack fcs_present buf =
     rbind (class_unpack LE wlan_hdr buf) (\<lambda>p.
     rbind (strip_fcs fcs_present (obj_data p)) (\<lambda>(fcs, d).
       let vs = obj_vals p; ty = wlan_bit ''type'' vs; st = wlan_bit ''subtype'' vs;
           w = \<lparr>wl_vals = vs, wl_fcs = fcs, wl_mgmt = None, wl_field = None, wl_ies = None, wl_capability = None,
                wl_qos = None, wl_data = d\<rparr>
       in if ty = MGMT_TYPE then wlan_mgmt w st d else wlan_other w ty st d))"

definition wlan_init :: "bool \<Rightarrow> bytes \<Rightarrow> wlan result" where
  "wlan_init fcs_present = packet_init (hdr_len wlan_hdr) (wlan_unpack fcs_present)"

text \<open>Packing and length are inherited.\<close>

definition wlan_bytes :: "wlan \<Rightarrow> bytes result" where
  "wlan_bytes w = packet_bytes LE wlan_hdr (wl_vals w) (wl_data w)"

definition wlan_len :: "wlan \<Rightarrow> nat" where
  "wlan_len w = packet_len wlan_hdr (wl_data w)"

text \<open>Fragment and sequence number of the frames that have them.\<close>

definition fragment_number :: "int \<Rightarrow> int" where
  "fragment_number frag_seq = frag_seq AND 0x000f"

definition sequence_number :: "int \<Rightarrow> int" where
  "sequence_number frag_seq = drop_bit 4 (frag_seq AND 0xffff0)"

section \<open>Reading frames\<close>

lemmas wlan_table_defs =
  wlan_hdr_def wlan_ie_hdr_def wlan_tim_hdr_def ieee80211_IEEE80211_Data_hdr_def ieee80211_IEEE80211_DataFromDS_hdr_def
  ieee80211_IEEE80211_DataToDS_hdr_def ieee80211_IEEE80211_DataInterDS_hdr_def ieee80211_IEEE80211_QoS_Data_hdr_def
  ieee80211_IEEE80211_MGMT_Frame_hdr_def ieee80211_IEEE80211_Beacon_hdr_def ieee80211_IEEE80211_Auth_hdr_def
  ieee80211_IEEE80211_FH_hdr_def ieee80211_IEEE80211_DS_hdr_def ieee80211_IEEE80211_CF_hdr_def ieee80211_IEEE80211_IBSS_hdr_def

lemma wlan_tables [simp]:
  "table_ok wlan_hdr" "hdr_len wlan_hdr = 4" "table_ok (ds_table t f)" "table_ok ieee80211_IEEE80211_QoS_Data_hdr"
  "table_ok ieee80211_IEEE80211_MGMT_Frame_hdr" "table_ok ieee80211_IEEE80211_Beacon_hdr" "table_ok ieee80211_IEEE80211_Auth_hdr"
  by (simp_all add: ds_table_def wlan_table_defs table_ok_def fmt_ok_def hdr_fields_def)

lemma class_init_read:
  assumes "table_ok h" "exact_all (hdr_fmt h) vs" "packet_pack_hdr bo h vs = Inr a"
  shows "class_init bo h (a @ d) = Inr (obj_make vs d)"
  using class_pack_read [OF assms, of d] by (simp add: class_init_def packet_init_Inr)

definition fcs_wire :: "int option \<Rightarrow> bytes" where
  "fcs_wire f = (case f of None \<Rightarrow> [] | Some c \<Rightarrow> le_bytes 4 c)"

definition fcs_ok :: "int option \<Rightarrow> bool" where
  "fcs_ok f \<longleftrightarrow> (case f of None \<Rightarrow> True | Some c \<Rightarrow> 0 \<le> c \<and> c < 2 ^ 32)"

lemma strip_fcs_read: "fcs_ok f \<Longrightarrow> strip_fcs (f \<noteq> None) (d @ fcs_wire f) = Inr (f, d)"
  using le_int_le_bytes [of 4 "the f"]
  by (cases f) (simp_all add: strip_fcs_def fcs_wire_def fcs_ok_def unpack_uint_def bytes_int_def py_from_def py_upto_def
      py_index_def nat_diff_distrib del: le_bytes_numeral)

text \<open>The frame from its body on.\<close>

lemma wlan_init_read:
  assumes "exact_all (hdr_fmt wlan_hdr) vs" "packet_pack_hdr LE wlan_hdr vs = Inr a" "fcs_ok f"
  shows "wlan_init (f \<noteq> None) (a @ d @ fcs_wire f) = packet_init 4 (\<lambda>b.
    let w = \<lparr>wl_vals = vs, wl_fcs = f, wl_mgmt = None, wl_field = None, wl_ies = None, wl_capability = None, wl_qos = None, wl_data = d\<rparr>
    in if wlan_bit ''type'' vs = MGMT_TYPE then wlan_mgmt w (wlan_bit ''subtype'' vs) d
       else wlan_other w (wlan_bit ''type'' vs) (wlan_bit ''subtype'' vs) d) (a @ d @ fcs_wire f)"
proof -
  have "class_unpack LE wlan_hdr (a @ d @ fcs_wire f) = Inr (obj_make vs (d @ fcs_wire f))"
    using class_pack_read [OF _ assms(1,2)] by simp
  then show ?thesis
    using strip_fcs_read [OF assms(3), of d] by (simp add: wlan_init_def packet_init_def wlan_unpack_def obj_make_def Let_def)
qed

text \<open>What the loop over elements makes of the wire form of one.\<close>

definition wlan_ie_ok :: "byte \<times> bytes \<Rightarrow> bool" where
  "wlan_ie_ok e \<longleftrightarrow> length (snd e) < 256 \<and> hdr_len (wlan_ie_table (snd (ie_decoder (ord (fst e))))) \<le> 2 + length (snd e)"

definition wlan_ie_object :: "byte \<times> bytes \<Rightarrow> wlan_ie" where
  "wlan_ie_object e =
     (let (n, c) = ie_decoder (ord (fst e)); t = wlan_ie_table c
      in \<lparr>wi_name = n, wi_class = c, wi_vals = unpack_fields BE (hdr_fmt t) (take (hdr_len t) (ie_wire e)),
          wi_extra = (case c of KIE \<Rightarrow> Some (snd e) | KTIM \<Rightarrow> Some (drop 3 (snd e)) | _ \<Rightarrow> None), wi_data = snd e\<rparr>)"

lemma table_len:
  "get_int (wlan_ie_table c) ''len'' (unpack_fields BE (hdr_fmt (wlan_ie_table c)) (i # n # s)) = ord n"
  by (cases c) (simp_all add: wlan_table_defs hdr_fmt_def get_int_Cons bytes_int_def be_int_def)

lemma ie_table_len: "2 \<le> hdr_len (wlan_ie_table c)"
  by (cases c) (simp_all add: wlan_table_defs hdr_len_def hdr_fmt_def calcsize_def)

lemma wlan_ie_round_read:
  assumes "wlan_ie_ok e"
  shows "wlan_ie_round (ie_wire e @ t) = Item (wlan_ie_object e) t"
proof -
  obtain i s where e: "e = (i, s)" by (cases e)
  obtain n c where d: "ie_decoder (ord i) = (n, c)" by (cases "ie_decoder (ord i)")
  let ?h = "wlan_ie_table c"
  have ok: "length s < 256" "hdr_len ?h \<le> 2 + length s" using assms by (simp_all add: wlan_ie_ok_def e d)
  have l: "ord (word_of_nat (length s)) = int (length s)" using ok(1) by (simp add: ord_def unsigned_of_nat take_bit_nat_eq_self)
  have w: "ie_wire e = i # word_of_nat (length s) # s" by (simp add: e)
  let ?v = "unpack_fields BE (hdr_fmt ?h) (take (hdr_len ?h) (ie_wire e))"
  obtain k where k: "hdr_len ?h = Suc (Suc k)" using ie_table_len [of c] by (metis Suc_le_D numeral_2_eq_2 Suc_le_mono)
  have v: "get_int ?h ''len'' ?v = int (length s)"
    unfolding w k using table_len [of c i "word_of_nat (length s)" "take k s"] l by simp
  have "hdr_len ?h \<le> length (ie_wire e)" using ok(2) by (simp add: e)
  then have tk: "take (hdr_len ?h) (ie_wire e @ t) = take (hdr_len ?h) (ie_wire e)" "hdr_len ?h \<le> length (ie_wire e)"
    by simp_all
  define v where "v = ?v"
  define B where "B = ie_wire e @ t"
  have B: "drop 2 (take (length s + 2) B) = s" "drop 5 (take (length s + 2) B) = drop 3 s" "drop (length s + 2) B = t"
    "hd B = i" "\<not> length B < 2"
    by (simp_all add: B_def w numeral_eq_Suc)
  have "class_unpack BE ?h B = Inr (obj_make v (drop (hdr_len ?h) B))"
    unfolding class_unpack_def packet_unpack_def struct_unpack_def B_def v_def tk(1) using tk(2) by (simp add: hdr_len_def)
  moreover have "wlan_ie_len c v = length s" using v by (simp add: wlan_ie_len_def v_def)
  ultimately have "wlan_ie_init n c B = Inr \<lparr>wi_name = n, wi_class = c, wi_vals = v,
      wi_extra = (case c of KIE \<Rightarrow> Some s | KTIM \<Rightarrow> Some (drop 3 s) | _ \<Rightarrow> None), wi_data = drop (hdr_len ?h) B\<rparr>"
    using B(1,2) by (cases c) (simp_all add: wlan_ie_init_def packet_init_Inr wlan_ie_unpack_def obj_make_def Let_def)
  then show ?thesis
    unfolding B_def [symmetric] using B d \<open>wlan_ie_len c v = length s\<close>
    by (simp add: wlan_ie_round_def Let_def wlan_ie_object_def e v_def [unfolded e, simplified fst_conv] add.commute cong: wlan_ie_class.case_cong)
qed

lemma wlan_ies_read: "list_all wlan_ie_ok es \<Longrightarrow> length t < 2 \<Longrightarrow> wlan_ies (concat (map ie_wire es) @ t) = Inr (map wlan_ie_object es)"
proof (induction es)
  case Nil
  then show ?case by (simp add: wlan_ies_def parse_loop_Stop wlan_ie_round_def)
next
  case (Cons e es)
  have "wlan_ie_round (ie_wire e @ concat (map ie_wire es) @ t) = Item (wlan_ie_object e) (concat (map ie_wire es) @ t)"
    using Cons.prems by (intro wlan_ie_round_read) simp
  moreover have "0 < length (ie_wire e)" by (cases e) simp
  ultimately show ?case using Cons by (simp add: wlan_ies_def parse_loop_Item)
qed

section \<open>Properties\<close>

text \<open>
  A data frame of any of the four address layouts, with or without quality of service control and
  check sequence, is taken apart: the body has the addresses that the direction bits say, and the
  data is the payload.
\<close>

theorem wlan_data_parsed:
  fixes f :: "int option"
  assumes "exact_all (hdr_fmt wlan_hdr) vs" "packet_pack_hdr LE wlan_hdr vs = Inr a" "fcs_ok f"
    and "wlan_bit ''type'' vs = DATA_TYPE" "wlan_bit ''subtype'' vs \<in> {0, 4, 8, 12}"
  defines "h \<equiv> ds_table (wlan_bit ''to_ds'' vs) (wlan_bit ''from_ds'' vs)"
    and "qos \<equiv> (wlan_bit ''subtype'' vs = D_QOS_DATA)"
  assumes "exact_all (hdr_fmt h) bs" "packet_pack_hdr LE h bs = Inr b"
    and "exact_all (hdr_fmt ieee80211_IEEE80211_QoS_Data_hdr) qs" "packet_pack_hdr LE ieee80211_IEEE80211_QoS_Data_hdr qs = Inr q"
  shows "wlan_init (f \<noteq> None) (a @ (b @ (if qos then q else []) @ d) @ fcs_wire f) = Inr
    \<lparr>wl_vals = vs, wl_fcs = f, wl_mgmt = None, wl_field = Some (''data_frame'', BTable h (obj_make bs d)),
     wl_ies = None, wl_capability = None, wl_qos = (if qos then Some (obj_make qs d) else None), wl_data = d\<rparr>"
proof -
  have t: "table_ok h" by (simp add: h_def)
  have b: "table_body h (b @ x) = Inr (BTable h (obj_make bs x))" for x
    using class_init_read [OF t assms(8,9)] by (simp add: table_body_def)
  have q: "class_init LE ieee80211_IEEE80211_QoS_Data_hdr (q @ d) = Inr (obj_make qs d)"
    using class_init_read [OF _ assms(10,11)] by simp
  show ?thesis
    unfolding wlan_init_read [OF assms(1-3)]
    using assms(4,5) b q
    by (auto simp: packet_init_Inr wlan_other_def d_decoder_def MGMT_TYPE_def DATA_TYPE_def CTL_TYPE_def D_QOS_DATA_def qos_def
        h_def [symmetric] obj_make_def)
qed

text \<open>
  A beacon or probe response is taken apart to its addresses, its fixed fields and its elements;
  a beacon has its capabilities.
\<close>

theorem wlan_beacon_parsed:
  fixes f :: "int option"
  assumes "exact_all (hdr_fmt wlan_hdr) vs" "packet_pack_hdr LE wlan_hdr vs = Inr a" "fcs_ok f"
    and "wlan_bit ''type'' vs = MGMT_TYPE" "wlan_bit ''subtype'' vs \<in> {5, 8}"
    and "exact_all (hdr_fmt ieee80211_IEEE80211_MGMT_Frame_hdr) ms" "packet_pack_hdr LE ieee80211_IEEE80211_MGMT_Frame_hdr ms = Inr m"
    and "exact_all (hdr_fmt ieee80211_IEEE80211_Beacon_hdr) bs" "packet_pack_hdr LE ieee80211_IEEE80211_Beacon_hdr bs = Inr b"
    and "list_all wlan_ie_ok es"
  defines "d \<equiv> concat (map ie_wire es)"
  shows "wlan_init (f \<noteq> None) (a @ (m @ b @ d) @ fcs_wire f) = Inr
    \<lparr>wl_vals = vs, wl_fcs = f, wl_mgmt = Some (obj_make ms (b @ d)),
     wl_field = Some (if wlan_bit ''subtype'' vs = 8 then ''beacon'' else ''probe_resp'',
       BTable ieee80211_IEEE80211_Beacon_hdr (obj_make bs d)),
     wl_ies = Some (map wlan_ie_object es),
     wl_capability = (if wlan_bit ''subtype'' vs = 8
       then Some (wlan_capability (get_int ieee80211_IEEE80211_Beacon_hdr ''capability'' bs)) else None),
     wl_qos = None, wl_data = d\<rparr>"
proof -
  have m: "class_init LE ieee80211_IEEE80211_MGMT_Frame_hdr (m @ b @ d) = Inr (obj_make ms (b @ d))"
    using class_init_read [OF _ assms(6,7)] by simp
  have b: "table_body ieee80211_IEEE80211_Beacon_hdr (b @ d) = Inr (BTable ieee80211_IEEE80211_Beacon_hdr (obj_make bs d))"
    using class_init_read [OF _ assms(8,9)] by (simp add: table_body_def)
  have e: "wlan_ies d = Inr (map wlan_ie_object es)" using wlan_ies_read [OF assms(10), of "[]"] by (simp add: d_def)
  have k: "m_decoder (wlan_bit ''subtype'' vs) =
      Some (if wlan_bit ''subtype'' vs = 8 then ''beacon'' else ''probe_resp'', table_body ieee80211_IEEE80211_Beacon_hdr)"
    using assms(5) by (auto simp: m_decoder_def)
  have n: "wlan_bit ''subtype'' vs \<noteq> M_ATIM" "(wlan_bit ''subtype'' vs \<in> set FRAMES_WITH_CAPABILITY) = (wlan_bit ''subtype'' vs = 8)"
    using assms(5) by (auto simp: M_ATIM_def FRAMES_WITH_CAPABILITY_def)
  show ?thesis
    unfolding wlan_init_read [OF assms(1-3)] using assms(4) m b e k n
    by (simp add: packet_init_Inr wlan_mgmt_def obj_make_def body_capability_def)
qed

text \<open>
  The authentication body lacks the status code of the standard: its two bytes are taken for an
  element, the code of success for a network name of length zero.
\<close>

theorem wlan_auth_status_misread:
  assumes "exact_all (hdr_fmt wlan_hdr) vs" "packet_pack_hdr LE wlan_hdr vs = Inr a"
    and "wlan_bit ''type'' vs = MGMT_TYPE" "wlan_bit ''subtype'' vs = 11"
    and "exact_all (hdr_fmt ieee80211_IEEE80211_MGMT_Frame_hdr) ms" "packet_pack_hdr LE ieee80211_IEEE80211_MGMT_Frame_hdr ms = Inr m"
    and "exact_all (hdr_fmt ieee80211_IEEE80211_Auth_hdr) bs" "packet_pack_hdr LE ieee80211_IEEE80211_Auth_hdr bs = Inr b"
  shows "\<exists>w e. wlan_init False (a @ m @ b @ [0, 0]) = Inr w \<and> wl_ies w = Some [e] \<and> wi_name e = ''ssid'' \<and> wi_data e = []"
proof -
  have m: "class_init LE ieee80211_IEEE80211_MGMT_Frame_hdr (m @ b @ [0, 0]) = Inr (obj_make ms (b @ [0, 0]))"
    using class_init_read [OF _ assms(5,6)] by simp
  have b: "table_body ieee80211_IEEE80211_Auth_hdr (b @ [0, 0]) = Inr (BTable ieee80211_IEEE80211_Auth_hdr (obj_make bs [0, 0]))"
    using class_init_read [OF _ assms(7,8)] by (simp add: table_body_def)
  have "wlan_ie_ok (0, [])" by (simp add: wlan_ie_ok_def ie_decoder_def ord_def wlan_ie_hdr_def hdr_len_def hdr_fmt_def calcsize_def)
  then have e: "wlan_ies [0, 0] = Inr [wlan_ie_object (0, [])]" using wlan_ies_read [of "[(0, [])]" "[]"] by simp
  have "wi_name (wlan_ie_object (0, [])) = ''ssid''" "wi_data (wlan_ie_object (0, [])) = []"
    by (simp_all add: wlan_ie_object_def ie_decoder_def ord_def)
  then show ?thesis
    using wlan_init_read [OF assms(1,2), of None "m @ b @ [0, 0]"] assms(3,4) m b e
    by (simp add: packet_init_Inr wlan_mgmt_def obj_make_def fcs_ok_def fcs_wire_def M_ATIM_def m_decoder_def)
qed

text \<open>
  Packing a frame that was parsed gives its first four bytes and the data of its body: addresses,
  fixed fields and check sequence are lost.
\<close>

theorem wlan_body_not_packed:
  assumes "wlan_init fcs buf = Inr w"
  shows "wlan_bytes w = Inr (take 4 buf @ wl_data w) \<and> wlan_len w = 4 + length (wl_data w)"
proof -
  obtain p where p: "class_unpack LE wlan_hdr buf = Inr p" "wl_vals w = obj_vals p"
    using assms by (auto simp: wlan_init_def packet_init_Inr wlan_unpack_def wlan_mgmt_def wlan_other_def rbind_Inr_iff Let_def
        split: if_splits option.splits prod.splits)
  have "packet_pack_hdr LE wlan_hdr (obj_vals p) = Inr (take 4 buf)"
    using packet_class.unpack_pack_hdr [OF table_class [of wlan_hdr], of LE buf p] p(1) by (simp add: class_unpack_def)
  then show ?thesis using p(2) by (simp add: wlan_bytes_def packet_bytes_def wlan_len_def packet_len_def)
qed

definition example_addresses :: "pval list" where
  "example_addresses = [VBytes [1, 2, 3, 4, 5, 6], VBytes [1, 2, 3, 4, 5, 7], VBytes [1, 2, 3, 4, 5, 8], VInt 16]"

lemma example_frames:
  "wlan_bit ''type'' [VInt 0x188, VInt 0] = 2" "wlan_bit ''subtype'' [VInt 0x188, VInt 0] = 8"
  "wlan_bit ''to_ds'' [VInt 0x188, VInt 0] = 1" "wlan_bit ''from_ds'' [VInt 0x188, VInt 0] = 0"
  "wlan_bit ''type'' [VInt 0x80, VInt 0] = 0" "wlan_bit ''subtype'' [VInt 0x80, VInt 0] = 8"
  "wlan_bit ''type'' [VInt 0xb0, VInt 0] = 0" "wlan_bit ''subtype'' [VInt 0xb0, VInt 0] = 11"
  by (code_simp)+

lemma example_exact:
  "exact_all (hdr_fmt wlan_hdr) [VInt 0x188, VInt 0]" "exact_all (hdr_fmt wlan_hdr) [VInt 0x80, VInt 0]"
  "exact_all (hdr_fmt wlan_hdr) [VInt 0xb0, VInt 0]"
  "exact_all (hdr_fmt ieee80211_IEEE80211_DataToDS_hdr) example_addresses"
  "exact_all (hdr_fmt ieee80211_IEEE80211_MGMT_Frame_hdr) example_addresses"
  "exact_all (hdr_fmt ieee80211_IEEE80211_QoS_Data_hdr) [VInt 3]"
  "exact_all (hdr_fmt ieee80211_IEEE80211_Beacon_hdr) [VInt 9, VInt 100, VInt 1]"
  "exact_all (hdr_fmt ieee80211_IEEE80211_Auth_hdr) [VInt 0, VInt 2]"
  by (simp_all add: wlan_table_defs hdr_fmt_def example_addresses_def)

lemma packs:
  assumes "exact_all (hdr_fmt h) vs"
  obtains a where "packet_pack_hdr LE h vs = Inr a"
  using packet_pack_hdr_exact [OF assms, of LE] by blast

theorem wlan_data_parsed_witness:
  "\<exists>b w. wlan_init True b = Inr w \<and> wl_fcs w = Some 7 \<and> wl_data w = [1, 2] \<and> wl_qos w = Some (obj_make [VInt 3] [1, 2])"
proof -
  obtain a where a: "packet_pack_hdr LE wlan_hdr [VInt 0x188, VInt 0] = Inr a" using packs [OF example_exact(1)] by blast
  obtain b where b: "packet_pack_hdr LE ieee80211_IEEE80211_DataToDS_hdr example_addresses = Inr b" using packs [OF example_exact(4)] by blast
  obtain q where q: "packet_pack_hdr LE ieee80211_IEEE80211_QoS_Data_hdr [VInt 3] = Inr q" using packs [OF example_exact(6)] by blast
  have t: "ds_table 1 0 = ieee80211_IEEE80211_DataToDS_hdr" by (simp add: ds_table_def)
  show ?thesis
    using wlan_data_parsed [OF example_exact(1) a, of "Some 7" example_addresses b "[VInt 3]" q "[1, 2]"] example_exact b q t
    by (simp add: example_frames DATA_TYPE_def D_QOS_DATA_def fcs_ok_def) (intro exI conjI, assumption, simp_all)
qed

theorem wlan_beacon_parsed_witness:
  "\<exists>b w. wlan_init False b = Inr w \<and> wl_capability w = Some (wlan_capability 1) \<and>
     wl_ies w = Some [wlan_ie_object (0, [65]), wlan_ie_object (3, [11])]"
proof -
  obtain a where a: "packet_pack_hdr LE wlan_hdr [VInt 0x80, VInt 0] = Inr a" using packs [OF example_exact(2)] by blast
  obtain m where m: "packet_pack_hdr LE ieee80211_IEEE80211_MGMT_Frame_hdr example_addresses = Inr m" using packs [OF example_exact(5)] by blast
  obtain b where b: "packet_pack_hdr LE ieee80211_IEEE80211_Beacon_hdr [VInt 9, VInt 100, VInt 1] = Inr b"
    using packs [OF example_exact(7)] by blast
  have "list_all wlan_ie_ok [(0, [65]), (3, [11])]"
    by (simp add: wlan_ie_ok_def ie_decoder_def ord_def wlan_table_defs hdr_len_def hdr_fmt_def calcsize_def)
  moreover have "get_int ieee80211_IEEE80211_Beacon_hdr ''capability'' [VInt 9, VInt 100, VInt 1] = 1"
    by (simp add: wlan_table_defs get_int_Cons)
  ultimately show ?thesis
    using wlan_beacon_parsed [OF example_exact(2) a, of None example_addresses m "[VInt 9, VInt 100, VInt 1]" b
        "[(0, [65]), (3, [11])]"] example_exact m b
    by (simp add: example_frames MGMT_TYPE_def fcs_ok_def del: ie_wire.simps) (intro exI conjI, assumption, simp_all)
qed

theorem wlan_auth_status_misread_witness:
  "\<exists>b w e. wlan_init False b = Inr w \<and> wl_ies w = Some [e] \<and> wi_name e = ''ssid'' \<and> wi_data e = []"
proof -
  obtain a where a: "packet_pack_hdr LE wlan_hdr [VInt 0xb0, VInt 0] = Inr a" using packs [OF example_exact(3)] by blast
  obtain m where m: "packet_pack_hdr LE ieee80211_IEEE80211_MGMT_Frame_hdr example_addresses = Inr m" using packs [OF example_exact(5)] by blast
  obtain b where b: "packet_pack_hdr LE ieee80211_IEEE80211_Auth_hdr [VInt 0, VInt 2] = Inr b" using packs [OF example_exact(8)] by blast
  show ?thesis
    using wlan_auth_status_misread [OF example_exact(3) a, of example_addresses m "[VInt 0, VInt 2]" b] example_exact m b
    by (simp add: example_frames MGMT_TYPE_def) blast
qed

theorem wlan_body_not_packed_witness:
  "\<exists>w. wlan_init False [0xd4, 0, 0, 0, 1, 2, 3, 4, 5, 6] = Inr w \<and> wlan_bytes w = Inr [0xd4, 0, 0, 0]"
proof -
  have "is_ok (wlan_init False [0xd4, 0, 0, 0, 1, 2, 3, 4, 5, 6]) \<and>
      wl_data (projr (wlan_init False [0xd4, 0, 0, 0, 1, 2, 3, 4, 5, 6])) = []" by code_simp
  then obtain w where w: "wlan_init False [0xd4, 0, 0, 0, 1, 2, 3, 4, 5, 6] = Inr w" "wl_data w = []"
    by (cases "wlan_init False [0xd4, 0, 0, 0, 1, 2, 3, 4, 5, 6]") (auto simp: is_ok_def)
  then show ?thesis using wlan_body_not_packed [OF w(1)] by (intro exI [of _ w]) simp
qed

end
