(* ===== verification/Radiotap.thy ===== *)
theory Radiotap
  imports Wifi
begin

text \<open>
  The radiotap header, \<^verbatim>\<open>dpkt/radiotap.py\<close>, in front of captured 802.11 frames: the words of presence
  flags, the fields that they announce, each aligned to its size, and the frame behind them.
\<close>

section \<open>Presence flags\<close>

definition radiotap_hdr :: hdr where
  "radiotap_hdr = [(''version'', fB, VInt 0), (''pad'', fB, VInt 0), (''length'', fH, VInt 0)]"

definition is_present :: "bytes \<Rightarrow> nat \<Rightarrow> bool result" where
  "is_present flags b = rbind (py_get flags (int (b div 8))) (\<lambda>x. Inr (ord x AND push_bit (b mod 8) 1 \<noteq> 0))"

text \<open>An element of a \<^verbatim>\<open>bytearray\<close> takes values below 256.\<close>

definition set_present :: "bytes \<Rightarrow> nat \<Rightarrow> int \<Rightarrow> bytes result" where
  "set_present flags b v =
     rbind (py_get flags (int (b div 8))) (\<lambda>x.
       let y = (ord x AND NOT (push_bit (b mod 8) 1 AND 0xff)) OR push_bit (b mod 8) v
       in if 0 \<le> y \<and> y < 256 then Inr (flags[b div 8 := word_of_int y]) else Inl ValueError)"

text \<open>
  The fields in the order of their bits: name, bit, alignment, table. The properties
  \<^verbatim>\<open>tsft_present\<close> to \<^verbatim>\<open>chanplus_present\<close> are \<open>is_present\<close> and \<open>set_present\<close> at these bits.
\<close>

definition field_decoder :: "(string \<times> nat \<times> nat \<times> hdr) list" where
  "field_decoder =
     [(''tsft'', 0, 8, radiotap_Radiotap_TSFT_hdr), (''flags'', 1, 1, radiotap_Radiotap_Flags_hdr),
      (''rate'', 2, 1, radiotap_Radiotap_Rate_hdr), (''channel'', 3, 2, radiotap_Radiotap_Channel_hdr),
      (''fhss'', 4, 1, radiotap_Radiotap_FHSS_hdr), (''ant_sig'', 5, 1, radiotap_Radiotap_AntennaSignal_hdr),
      (''ant_noise'', 6, 1, radiotap_Radiotap_AntennaNoise_hdr), (''lock_qual'', 7, 2, radiotap_Radiotap_LockQuality_hdr),
      (''tx_attn'', 8, 2, radiotap_Radiotap_TxAttenuation_hdr), (''db_tx_attn'', 9, 2, radiotap_Radiotap_DbTxAttenuation_hdr),
      (''dbm_tx_power'', 10, 1, radiotap_Radiotap_DbmTxPower_hdr), (''ant'', 11, 1, radiotap_Radiotap_Antenna_hdr),
      (''db_ant_sig'', 12, 1, radiotap_Radiotap_DbAntennaSignal_hdr), (''db_ant_noise'', 13, 1, radiotap_Radiotap_DbAntennaNoise_hdr),
      (''rx_flags'', 14, 2, radiotap_Radiotap_RxFlags_hdr), (''chanplus'', 18, 4, radiotap_Radiotap_ChannelPlus_hdr)]"

text \<open>A set bit 31 of a word announces another word. A cut word makes the next index fail.\<close>

function flag_words :: "nat \<Rightarrow> bytes \<Rightarrow> bytes \<Rightarrow> (bytes \<times> bytes) result" where
  "flag_words b flags buf =
     (case is_present flags b of
        Inl e \<Rightarrow> Inl e
      | Inr False \<Rightarrow> Inr (flags, buf)
      | Inr True \<Rightarrow> flag_words (b + 32) (flags @ take 4 buf) (drop 4 buf))"
  by pat_completeness auto
termination
  by (relation "measure (\<lambda>(b, flags, buf). 8 * (length flags + length buf) - b)")
    (auto simp: is_present_def py_get_def py_index_def rbind_Inr_iff split: if_splits)

declare flag_words.simps [simp del]

section \<open>Fields and frames\<close>

definition field_padding :: "nat \<Rightarrow> nat \<Rightarrow> nat" where
  "field_padding ali offset = (if 1 < ali \<and> offset mod ali \<noteq> 0 then ali - offset mod ali else 0)"

fun decode_fields :: "(string \<times> nat \<times> nat \<times> hdr) list \<Rightarrow> bytes \<Rightarrow> nat \<Rightarrow> bytes \<Rightarrow> (string \<times> packet_obj) list result" where
  "decode_fields [] flags offset buf = Inr []"
| "decode_fields ((name, b, ali, h) # ts) flags offset buf =
     rbind (is_present flags b) (\<lambda>present.
       if present then
         let pad = field_padding ali offset; buf' = drop pad buf
         in rbind (class_init LE h buf') (\<lambda>f.
            rbind (decode_fields ts flags (offset + pad + hdr_len h) (drop (hdr_len h) buf')) (\<lambda>fs.
              Inr ((name, f\<lparr>obj_data := []\<rparr>) # fs)))
       else decode_fields ts flags offset buf)"

record radiotap =
  rt_vals :: "pval list"
  rt_present :: bytes
  rt_fields :: "(string \<times> packet_obj) list"
  rt_data :: "bytes + wlan"

text \<open>The property \<^verbatim>\<open>fcs\<close> of the flags field, and its setter.\<close>

definition flags_fcs :: "int \<Rightarrow> int" where
  "flags_fcs val = drop_bit 4 (val AND 0x10)"

definition flags_set_fcs :: "int \<Rightarrow> int \<Rightarrow> int" where
  "flags_set_fcs v val = push_bit 4 v OR (v AND NOT 0x10)"

definition radiotap_fcs :: "(string \<times> packet_obj) list \<Rightarrow> bool" where
  "radiotap_fcs fs =
     (case map_of fs ''flags'' of
        None \<Rightarrow> False
      | Some f \<Rightarrow> flags_fcs (get_int radiotap_Radiotap_Flags_hdr ''val'' (obj_vals f)) \<noteq> 0)"

definition radiotap_unpack :: "bytes \<Rightarrow> radiotap result" where
  "radiotap_unpack buf =
     rbind (class_unpack LE radiotap_hdr buf) (\<lambda>p.
       let d = drop (nat (get_int radiotap_hdr ''length'' (obj_vals p))) buf; b = drop (hdr_len radiotap_hdr) buf
       in rbind (flag_words 31 (take 4 b) (drop 4 b)) (\<lambda>(flags, r).
          rbind (decode_fields field_decoder flags (hdr_len radiotap_hdr + length flags) r) (\<lambda>fs.
          rbind (if d = [] then Inr (Inl d) else rbind (wlan_init (radiotap_fcs fs) d) (\<lambda>w. Inr (Inr w))) (\<lambda>d'.
            Inr \<lparr>rt_vals = obj_vals p, rt_present = flags, rt_fields = fs, rt_data = d'\<rparr>))))"

definition radiotap_init :: "bytes \<Rightarrow> radiotap result" where
  "radiotap_init = packet_init (hdr_len radiotap_hdr) radiotap_unpack"

definition radiotap_bytes :: "radiotap \<Rightarrow> bytes result" where
  "radiotap_bytes r =
     rbind (case rt_data r of Inl d \<Rightarrow> Inr d | Inr w \<Rightarrow> wlan_bytes w) (\<lambda>d. packet_bytes LE radiotap_hdr (rt_vals r) d)"

definition radiotap_len :: "radiotap \<Rightarrow> nat" where
  "radiotap_len r = hdr_len radiotap_hdr + (case rt_data r of Inl d \<Rightarrow> length d | Inr w \<Rightarrow> wlan_len w)"

section \<open>Fields read back\<close>

lemmas field_tables =
  radiotap_Radiotap_TSFT_hdr_def radiotap_Radiotap_Flags_hdr_def radiotap_Radiotap_Rate_hdr_def radiotap_Radiotap_Channel_hdr_def
  radiotap_Radiotap_FHSS_hdr_def radiotap_Radiotap_AntennaSignal_hdr_def radiotap_Radiotap_AntennaNoise_hdr_def
  radiotap_Radiotap_LockQuality_hdr_def radiotap_Radiotap_TxAttenuation_hdr_def radiotap_Radiotap_DbTxAttenuation_hdr_def
  radiotap_Radiotap_DbmTxPower_hdr_def radiotap_Radiotap_Antenna_hdr_def radiotap_Radiotap_DbAntennaSignal_hdr_def
  radiotap_Radiotap_DbAntennaNoise_hdr_def radiotap_Radiotap_RxFlags_hdr_def radiotap_Radiotap_ChannelPlus_hdr_def

lemma field_decoder_ok: "list_all (\<lambda>(n, b, ali, h). table_ok h) field_decoder"
  by (simp add: field_decoder_def field_tables table_ok_def fmt_ok_def hdr_fields_def)

text \<open>
  The fields as a driver writes them: those that have values, in order, each behind the padding
  that its alignment needs.
\<close>

fun fields_wire :: "(string \<times> nat \<times> nat \<times> hdr) list \<Rightarrow> (string \<Rightarrow> pval list option) \<Rightarrow> nat \<Rightarrow> bytes result" where
  "fields_wire [] vals offset = Inr []"
| "fields_wire ((name, b, ali, h) # ts) vals offset =
     (case vals name of
        None \<Rightarrow> fields_wire ts vals offset
      | Some vs \<Rightarrow>
          rbind (packet_pack_hdr LE h vs) (\<lambda>a.
          rbind (fields_wire ts vals (offset + field_padding ali offset + hdr_len h)) (\<lambda>r.
            Inr (zeros (field_padding ali offset) @ a @ r))))"

definition fields_of :: "(string \<times> nat \<times> nat \<times> hdr) list \<Rightarrow> (string \<Rightarrow> pval list option) \<Rightarrow> (string \<times> packet_obj) list" where
  "fields_of ts vals = concat (map (\<lambda>(n, b, ali, h). case vals n of None \<Rightarrow> [] | Some vs \<Rightarrow> [(n, obj_make vs [])]) ts)"

text \<open>The flags announce exactly the fields with values, and the values fit.\<close>

definition fields_ok :: "(string \<times> nat \<times> nat \<times> hdr) list \<Rightarrow> bytes \<Rightarrow> (string \<Rightarrow> pval list option) \<Rightarrow> bool" where
  "fields_ok ts flags vals \<longleftrightarrow>
     list_all (\<lambda>(n, b, ali, h). is_present flags b = Inr (vals n \<noteq> None) \<and>
       (case vals n of None \<Rightarrow> True | Some vs \<Rightarrow> exact_all (hdr_fmt h) vs)) ts"

lemma decode_fields_read:
  assumes "list_all (\<lambda>(n, b, ali, h). table_ok h) ts" "fields_ok ts flags vals" "fields_wire ts vals offset = Inr w"
  shows "decode_fields ts flags offset (w @ rest) = Inr (fields_of ts vals)"
  using assms
proof (induction ts arbitrary: offset w)
  case Nil
  then show ?case by (simp add: fields_of_def)
next
  case (Cons t ts)
  obtain n b ali h where t: "t = (n, b, ali, h)" by (cases t) auto
  have ok: "table_ok h" "is_present flags b = Inr (vals n \<noteq> None)" "fields_ok ts flags vals"
    "list_all (\<lambda>(n, b, ali, h). table_ok h) ts"
    using Cons.prems by (auto simp: t fields_ok_def)
  show ?case
  proof (cases "vals n")
    case None
    then show ?thesis using Cons.IH [OF ok(4,3)] Cons.prems(3) ok(2) by (simp add: t fields_of_def)
  next
    case (Some vs)
    have e: "exact_all (hdr_fmt h) vs" using Cons.prems(2) Some by (simp add: fields_ok_def t)
    let ?p = "field_padding ali offset"
    obtain a r where a: "packet_pack_hdr LE h vs = Inr a" "fields_wire ts vals (offset + ?p + hdr_len h) = Inr r"
      "w = zeros ?p @ a @ r"
      using Cons.prems(3) Some by (auto simp: t rbind_Inr_iff)
    have l: "length a = hdr_len h" "class_init LE h (a @ r @ rest) = Inr (obj_make vs (r @ rest))"
      using class_pack_read [OF ok(1) e a(1)] class_init_read [OF ok(1) e a(1)] by simp_all
    have "drop ?p (w @ rest) = a @ r @ rest" by (simp add: a(3) zeros_def)
    moreover have "drop (hdr_len h) (a @ r @ rest) = r @ rest" using l(1) by simp
    ultimately show ?thesis
      using Cons.IH [OF ok(4,3) a(2)] Some ok(2) l by (simp add: t fields_of_def Let_def obj_make_def del: drop_append drop_drop)
  qed
qed

section \<open>Properties\<close>

text \<open>
  A radiotap header with any fields, aligned as their sizes demand, is read back field by field, and
  the frame behind it is parsed with or without a check sequence as the flags field says.
\<close>

theorem radiotap_roundtrip:
  assumes "exact_all (hdr_fmt radiotap_hdr) vs" "packet_pack_hdr LE radiotap_hdr vs = Inr a"
    and "length flags = 4" "is_present flags 31 = Inr False" "fields_ok field_decoder flags vals"
    and "fields_wire field_decoder vals 8 = Inr w" "get_int radiotap_hdr ''length'' vs = int (8 + length w)"
    and "d \<noteq> []" "wlan_init (radiotap_fcs (fields_of field_decoder vals)) d = Inr f"
  shows "radiotap_init (a @ flags @ w @ d) = Inr
    \<lparr>rt_vals = vs, rt_present = flags, rt_fields = fields_of field_decoder vals, rt_data = Inr f\<rparr>"
proof -
  have t: "table_ok radiotap_hdr" "hdr_len radiotap_hdr = 4"
    by (simp_all add: radiotap_hdr_def table_ok_def fmt_ok_def hdr_fields_def)
  have u: "class_unpack LE radiotap_hdr (a @ flags @ w @ d) = Inr (obj_make vs (flags @ w @ d))" "length a = 4"
    using class_pack_read [OF t(1) assms(1,2)] t(2) by simp_all
  have "flag_words 31 flags (w @ d) = Inr (flags, w @ d)" using assms(4) by (subst flag_words.simps) simp
  then show ?thesis
    using u assms(3,7-9) t(2) decode_fields_read [OF field_decoder_ok assms(5,6), of d]
    by (simp add: radiotap_init_def packet_init_Inr radiotap_unpack_def obj_make_def Let_def nat_add_distrib)
qed

definition example_fields :: "string \<Rightarrow> pval list option" where
  "example_fields n =
     (if n = ''tsft'' then Some [VInt 5] else if n = ''flags'' then Some [VInt 0x10] else if n = ''channel'' then Some [VInt 2412, VInt 160]
      else None)"

theorem radiotap_roundtrip_witness:
  "\<exists>b r f. radiotap_init b = Inr r \<and> map fst (rt_fields r) = [''tsft'', ''flags'', ''channel''] \<and> rt_data r = Inr f \<and>
     wl_fcs f = Some 0x04030201"
proof -
  let ?d = "[0xd4, 0, 0, 0, 1, 2, 3, 4, 5, 6, 1, 2, 3, 4] :: bytes"
  let ?w = "[5, 0, 0, 0, 0, 0, 0, 0, 16, 0, 108, 9, 160, 0] :: bytes"
  have ok: "fields_ok field_decoder [11, 0, 0, 0] example_fields"
    by (simp add: fields_ok_def field_decoder_def is_present_def py_get_def py_index_def ord_def example_fields_def hdr_fmt_def
        field_tables)
  have w: "fields_wire field_decoder example_fields 8 = Inr ?w" by code_simp
  have fs: "radiotap_fcs (fields_of field_decoder example_fields)" "map fst (fields_of field_decoder example_fields) = [''tsft'', ''flags'', ''channel'']"
    by code_simp+
  have "is_ok (wlan_init True ?d) \<and> wl_fcs (projr (wlan_init True ?d)) = Some 0x04030201" by code_simp
  then obtain f where f: "wlan_init True ?d = Inr f" "wl_fcs f = Some 0x04030201"
    by (cases "wlan_init True ?d") (auto simp: is_ok_def)
  have e: "exact_all (hdr_fmt radiotap_hdr) [VInt 0, VInt 0, VInt 22]" by (simp add: radiotap_hdr_def hdr_fmt_def)
  obtain a where a: "packet_pack_hdr LE radiotap_hdr [VInt 0, VInt 0, VInt 22] = Inr a" using packs [OF e] by blast
  have "radiotap_init (a @ [11, 0, 0, 0] @ ?w @ ?d) = Inr \<lparr>rt_vals = [VInt 0, VInt 0, VInt 22], rt_present = [11, 0, 0, 0],
      rt_fields = fields_of field_decoder example_fields, rt_data = Inr f\<rparr>"
    by (rule radiotap_roundtrip [OF e a _ _ ok w]) (use f fs in \<open>simp_all add: is_present_def py_get_def py_index_def ord_def
      radiotap_hdr_def get_int_Cons\<close>)
  then obtain b r where "radiotap_init b = Inr r" "rt_fields r = fields_of field_decoder example_fields" "rt_data r = Inr f"
    by fastforce
  then show ?thesis using f(2) fs(2) by metis
qed

text \<open>Every header shorter than its flag words is an \<^verbatim>\<open>IndexError\<close>, not an error of the library.\<close>

theorem radiotap_short_index_error:
  assumes "4 \<le> length buf" "length buf < 8"
  shows "radiotap_init buf = Inl IndexError"
proof -
  have t: "hdr_len radiotap_hdr = 4" by (simp add: radiotap_hdr_def)
  obtain p where p: "class_unpack LE radiotap_hdr buf = Inr p"
    using assms(1) t class_unpack_error [of LE radiotap_hdr buf] by (cases "class_unpack LE radiotap_hdr buf") auto
  have "flag_words 31 (take 4 (drop 4 buf)) (drop 4 (drop 4 buf)) = Inl IndexError"
    using assms by (subst flag_words.simps) (simp add: is_present_def py_get_def py_index_def)
  then show ?thesis using p t by (simp add: radiotap_init_def packet_init_def radiotap_unpack_def Let_def)
qed

theorem radiotap_short_index_error_witness: "radiotap_init [0, 0, 8, 0, 1] = Inl IndexError"
  by (rule radiotap_short_index_error) simp_all

text \<open>
  The setter of \<^verbatim>\<open>fcs\<close> builds the flags from its argument: setting the bit sets the lowest bit too,
  and every other flag is lost.
\<close>

theorem flags_set_fcs_loses: "flags_set_fcs 1 val = 0x11 \<and> flags_set_fcs 0 val = 0"
  by (simp add: flags_set_fcs_def)

end
