(* ===== verification/Spec2Isabelle.thy ===== *)
theory Spec2Isabelle
  imports Crc32c Dns Network Quic Pcapng Http2 Qpack Topology Netflow Gtp L2tp Tunnel Rtcp Ssl Snoop Media Discovery Rpc Boot Mail Radiotap
begin

text \<open>
  A model of the packet library dpkt, the package \<^verbatim>\<open>dpkt\<close> of the repository, and the theorems
  that make it correct. This theory imports the others and holds no definitions.

  \<^bold>\<open>The program.\<close> A protocol is a Python class with a table of its header fields. The metaclass of
  \<^verbatim>\<open>dpkt.py\<close> turns the table into attributes, a \<^verbatim>\<open>struct\<close> format and bit fields; the base class
  \<^verbatim>\<open>Packet\<close> gives every class its constructor, \<^verbatim>\<open>unpack\<close>, \<^verbatim>\<open>pack_hdr\<close>, \<^verbatim>\<open>__bytes__\<close> and \<^verbatim>\<open>__len__\<close>,
  and the classes override what their protocol needs. Frames nest: Ethernet looks up the class of its
  payload in a registry, IP in another, and so on. On top of the packets there are readers and writers
  of capture files, the reassembly of TCP connections, and the reconstruction of a network's topology
  from its routing protocols.

  \<^bold>\<open>Foundations.\<close>
  \<^item> Prelude: bytes, the result type (an exception or a value), Python's indexing and slicing,
    \<^verbatim>\<open>bytes\<close> methods, and the collection \<open>result_simps\<close>.
  \<^item> Struct: the formats of \<^verbatim>\<open>struct\<close> that the tables use, with their errors.
  \<^item> Packet: the metaclass and \<^verbatim>\<open>Packet\<close> (\<^verbatim>\<open>dpkt.py\<close>): tables with defaults, bit fields with their
    getters and setters, constructor, unpack and pack. Locale \<open>packet_class\<close> is the contract of a
    class that is a record: its values and its maker invert each other.
  \<^item> Header_Classes: the classes that are a table and nothing more, one definition each, and
    the theorem that unpack and pack invert each other for every table of the list.
  \<^item> Items: loops that parse a sequence of items (options, TLVs, records) and the list
    functions that pack one. Locales \<open>item_round\<close>, \<open>exact_round\<close> and \<open>item_prefix\<close>: from a round of
    the loop that reads one item back, the whole loop reads the sequence back.
  \<^item> Tables: classes by table; reading back what was packed; locale \<open>summed\<close> for a packet
    whose checksum field is filled in when it is packed.
  \<^item> Checksum and Crc32c: the Internet checksum (\<^verbatim>\<open>dpkt.in_cksum\<close>) and CRC-32C
    (\<^verbatim>\<open>crc32c.py\<close>), the second equal to the serial shift register.

  \<^bold>\<open>From the frame to the stream.\<close> Transport (\<^verbatim>\<open>udp.py\<close>, \<^verbatim>\<open>arp.py\<close>, \<^verbatim>\<open>tcp.py\<close>), Payload
  (nested packets: registries as maps, locale \<open>payload_ops\<close> for the operations of a payload), Ip and
  Ip6 (\<^verbatim>\<open>ip.py\<close>, \<^verbatim>\<open>ip6.py\<close>), Llc (\<^verbatim>\<open>llc.py\<close>, \<^verbatim>\<open>stp.py\<close>, locale \<open>eth_payloads\<close>), Isis
  (\<^verbatim>\<open>isis.py\<close>), Ethernet (\<^verbatim>\<open>ethernet.py\<close>: tags, labels, type detection), and Network, which fills the
  registries with the modelled classes. Direction and Reassembler model \<^verbatim>\<open>stream.py\<close>: one direction
  of a connection (expected sequence number, contiguous bytes, held segments and their count), the
  connection with its state and its two directions, and the table of connections with eviction,
  callbacks and merging; a callback is a value and a call of it an event. Network puts the layers
  together: frames in, streams out. Topology (\<^verbatim>\<open>topology.py\<close>) consumes captures through Reassembler and
  the routing protocols Ospf, Eigrp, Rip, Bgp and Isis (the files of those names).

  \<^bold>\<open>Capture files.\<close> Pcap (\<^verbatim>\<open>pcap.py\<close>), Pcapng (\<^verbatim>\<open>pcapng.py\<close> and \<^verbatim>\<open>UniversalReader\<close>) and Snoop
  (\<^verbatim>\<open>snoop.py\<close>). A file is the list of its bytes; a reader is a state with the bytes to come. Locale
  \<open>packet_source\<close> is what the three readers share: iterating, \<^verbatim>\<open>readpkts\<close> and \<^verbatim>\<open>dispatch\<close> agree.

  \<^bold>\<open>Names, sessions, encryption.\<close> Dns (\<^verbatim>\<open>dns.py\<close>; an inductive relation specifies what a
  compressed name means), Tls_Record, Ciphersuites and Ssl (\<^verbatim>\<open>ssl.py\<close>, \<^verbatim>\<open>ssl_ciphersuites.py\<close>), Quic
  (\<^verbatim>\<open>quic.py\<close>, \<^verbatim>\<open>http3.py\<close>; it decrypts through TLS records), Http2 and Qpack (\<^verbatim>\<open>http2.py\<close>,
  \<^verbatim>\<open>qpack.py\<close>), Http (\<^verbatim>\<open>http.py\<close>, and \<^verbatim>\<open>sip.py\<close>, which has the same classes with other names) and
  Mail (\<^verbatim>\<open>smtp.py\<close>, \<^verbatim>\<open>ftp.py\<close>, \<^verbatim>\<open>pop3.py\<close>, with the loop that cuts lines off a buffer).

  \<^bold>\<open>Other protocols.\<close> Control (ICMP, ICMPv6, IGMP, PIM, EDP, VRRP, AH), Netflow, Gtp, L2tp,
  Tunnel (GRE, VXLAN, loopback, SLL, PPP, PPPoE), Rtcp, Media (RTP, SCTP, STUN), Aaa (RADIUS,
  Diameter), Discovery (CDP, DTP, AoE, TNS, NBSS, AIM), Rpc and Boot (DHCP, TFTP); each from
  the file or files of that name.

  \<^bold>\<open>Conventions.\<close> Python's integers are \<^verbatim>\<open>int\<close>, bytes are lists of 8-bit words, objects are
  records or the list of their header values with what the class adds. An operation that raises
  returns \<open>Inl\<close> of the exception: the errors of the library (\<open>NeedData\<close>, \<open>UnpackError\<close>,
  \<open>PackError\<close>) and those of Python by name, where others are \<open>OtherError\<close>. A method that changes its
  object returns it. Integers wrap where the code masks them, and \<^verbatim>\<open>struct\<close> fails on a value out of
  range. No loop of the model has fuel: each has a measure, most of them the length of the input; the
  decoder of DNS names can jump backwards and has a proved bound on its rounds, as the code has.

  \<^bold>\<open>What the theorems show.\<close>
  \<^item> Reassembly: whatever the order, duplication and overlap of the segments of a stream, what
    is handed out is a prefix of what was sent, and all of it once it was received; the same through
    Ethernet and IP; the table of connections keeps its bound and its invariant.
  \<^item> Formats: what is packed is read back, and what was read packs to the same bytes, for
    the classes where this holds; where it does not, a theorem says what is lost.
  \<^item> Parsers fed in pieces (TLS, HTTP/2, SMTP, FTP) do not depend on the pieces; POP3 does.
  \<^item> Checksums written are checksums that verify; CRC-32C is the polynomial division.
  \<^item> DNS names: the decoder computes the specified name, stops, and stays in its bounds.
  \<^item> Topology: whatever is captured, the tables refer to known routers.

  \<^bold>\<open>Not modelled.\<close> Text forms (\<^verbatim>\<open>__repr__\<close>, \<^verbatim>\<open>__str__\<close>, \<^verbatim>\<open>pprint\<close>) and JSON export, file
  objects beyond their bytes, timestamps as floating point numbers (they are exact here), the key log
  of QUIC and its cipher (a parameter), and the modules that the manifest lists as not modelled, each
  with its reason. The tests and the example scripts are not part of the program.
\<close>

end
